(* ===== verification/Prelude.thy ===== *)
theory Prelude
  imports Main "HOL-Library.Word"
begin

text \<open>
  What every component of the model shares: JavaScript numbers and the safe-integer
  checks of the source, errors as values, transactions over an explicit state, and the
  named collections the component proofs draw on.

  Strings are \<^typ>\<open>string\<close> values, read as sequences of code units below 256; the one
  component whose behaviour depends on wider code units (the line patch engine) uses its
  own 16-bit strings. Instants are integers: milliseconds since the epoch, the value of
  \<^verbatim>\<open>Date.valueOf()\<close>.
\<close>

named_theorems tx_defs "definitions of transactional operations"
named_theorems table_simps "simplification rules for table operations"

section \<open>Errors as values\<close>

text \<open>
  The server throws errors with a machine-readable code and an HTTP status
  (\<open>ApplicationError\<close>, \<open>AgentRepositoryError\<close>, \<open>AgentProposalError\<close>,
  \<open>WikiLinePatchError\<close>), plain \<open>TypeError\<close>s from argument checks and plain
  \<open>Error\<close>s. The message text is not modelled.
\<close>

datatype js_error = Coded string nat | Type_error | Plain_error

type_synonym 'a result = "js_error + 'a"

definition is_ok :: "'a result \<Rightarrow> bool" where
  "is_ok r = (case r of Inl _ \<Rightarrow> False | Inr _ \<Rightarrow> True)"

definition rbind :: "'a result \<Rightarrow> ('a \<Rightarrow> 'b result) \<Rightarrow> 'b result" where
  "rbind r k = (case r of Inl e \<Rightarrow> Inl e | Inr a \<Rightarrow> k a)"

lemma rbind_simps [simp]: "rbind (Inl e) k = Inl e" "rbind (Inr a) k = k a"
  by (simp_all add: rbind_def)

lemma is_ok_simps [simp]: "is_ok (Inr a)" "\<not> is_ok (Inl e)"
  by (simp_all add: is_ok_def)

lemma rbind_Inr_iff: "rbind r k = Inr b \<longleftrightarrow> (\<exists>a. r = Inr a \<and> k a = Inr b)"
  by (cases r) simp_all

lemma rbind_Inl_iff: "rbind r k = Inl e \<longleftrightarrow> r = Inl e \<or> (\<exists>a. r = Inr a \<and> k a = Inl e)"
  by (cases r) simp_all

lemma rbind_InrE:
  assumes "rbind r k = Inr b"
  obtains a where "r = Inr a" "k a = Inr b"
  using assms by (auto simp: rbind_Inr_iff)

text \<open>A loop that stops at its first error, as a throw leaves a \<^verbatim>\<open>for\<close> statement.\<close>

fun rfold :: "('a \<Rightarrow> 'b \<Rightarrow> 'b result) \<Rightarrow> 'a list \<Rightarrow> 'b \<Rightarrow> 'b result" where
  "rfold f [] acc = Inr acc"
| "rfold f (x # xs) acc = rbind (f x acc) (rfold f xs)"

lemma rfold_append: "rfold f (xs @ ys) acc = rbind (rfold f xs acc) (rfold f ys)"
proof (induction xs arbitrary: acc)
  case (Cons x xs)
  then show ?case by (cases "f x acc") simp_all
qed simp

lemma rfold_invariant:
  assumes "rfold f xs acc = Inr res" and "I acc"
    and "\<And>x a b. x \<in> set xs \<Longrightarrow> I a \<Longrightarrow> f x a = Inr b \<Longrightarrow> I b"
  shows "I res"
  using assms
proof (induction xs arbitrary: acc)
  case (Cons x xs)
  from Cons.prems(1) obtain a where a: "f x acc = Inr a" "rfold f xs a = Inr res"
    by (auto simp: rbind_Inr_iff)
  from Cons.prems(3) [OF _ Cons.prems(2) a(1)] have "I a" by simp
  with a(2) Cons.prems(3) show ?case by (intro Cons.IH [of a]) auto
qed simp

section \<open>Numbers\<close>

text \<open>
  A JavaScript number is either integral or not (a fraction, an infinity or NaN). Every
  arithmetic operation of the modelled code is guarded by \<^verbatim>\<open>Number.isSafeInteger\<close>,
  below which IEEE doubles add and compare as integers do.
\<close>

datatype js_num = Whole int | Not_whole

definition max_safe :: int where
  "max_safe = 2 ^ 53 - 1"

definition safe_int :: "int \<Rightarrow> bool" where
  "safe_int i = (- max_safe \<le> i \<and> i \<le> max_safe)"

fun is_safe_integer :: "js_num \<Rightarrow> bool" where
  "is_safe_integer (Whole i) = safe_int i"
| "is_safe_integer Not_whole = False"

lemma max_safe_pos [simp]: "0 < max_safe" "0 \<le> max_safe"
  by (simp_all add: max_safe_def)

lemma safe_int_iff: "0 \<le> i \<Longrightarrow> safe_int i \<longleftrightarrow> i \<le> max_safe"
  using max_safe_pos(2) by (auto simp: safe_int_def simp del: max_safe_pos)

section \<open>Untyped values\<close>

text \<open>
  A value of type \<^verbatim>\<open>unknown\<close>: parsed JSON, a request body or an untyped principal. An
  object lists its own properties; \<open>js_get\<close> is \<^verbatim>\<open>Reflect.get\<close>, \<open>js_has\<close> is
  \<^verbatim>\<open>Object.hasOwn\<close>. Property reads of the modelled code use names that no built-in
  prototype defines, so own properties are all that matters.
\<close>

datatype js_value =
    JUndefined | JNull | JBool bool | JNum js_num | JStr string
  | JArr "js_value list" | JObj "(string \<times> js_value) list"

fun js_get :: "string \<Rightarrow> js_value \<Rightarrow> js_value" where
  "js_get k (JObj ps) = (case map_of ps k of None \<Rightarrow> JUndefined | Some v \<Rightarrow> v)"
| "js_get k _ = JUndefined"

fun js_has :: "string \<Rightarrow> js_value \<Rightarrow> bool" where
  "js_has k (JObj ps) = (map_of ps k \<noteq> None)"
| "js_has k _ = False"

fun js_is_object :: "js_value \<Rightarrow> bool" where
  "js_is_object (JObj ps) = True"
| "js_is_object (JArr xs) = True"
| "js_is_object _ = False"

fun js_is_record :: "js_value \<Rightarrow> bool" where
  "js_is_record (JObj ps) = True"
| "js_is_record _ = False"

fun js_is_string :: "js_value \<Rightarrow> bool" where
  "js_is_string (JStr s) = True"
| "js_is_string _ = False"

fun js_safe_integer :: "js_value \<Rightarrow> int option" where
  "js_safe_integer (JNum (Whole i)) = (if safe_int i then Some i else None)"
| "js_safe_integer _ = None"

definition js_positive :: "js_value \<Rightarrow> int option" where
  "js_positive v = (case js_safe_integer v of None \<Rightarrow> None | Some i \<Rightarrow> if 0 < i then Some i else None)"

section \<open>Transactions\<close>

text \<open>
  A database transaction is a function from the state to an error or a value with the
  state it commits. An error value is the rollback: \<open>commit\<close> keeps the old state.
\<close>

type_synonym ('s, 'a) tx = "'s \<Rightarrow> ('a \<times> 's) result"

definition commit :: "('s, 'a) tx \<Rightarrow> 's \<Rightarrow> 's" where
  "commit t s = (case t s of Inl _ \<Rightarrow> s | Inr (_, s') \<Rightarrow> s')"

fun run_txs :: "('s, 'a) tx list \<Rightarrow> 's \<Rightarrow> 's" where
  "run_txs [] s = s"
| "run_txs (t # ts) s = run_txs ts (commit t s)"

lemma commit_Inl [simp]: "t s = Inl e \<Longrightarrow> commit t s = s"
  by (simp add: commit_def)

lemma commit_Inr [simp]: "t s = Inr (a, s') \<Longrightarrow> commit t s = s'"
  by (simp add: commit_def)

text \<open>An operation whose result nobody reads.\<close>

definition unit_tx :: "('s, 'a) tx \<Rightarrow> ('s, unit) tx" where
  "unit_tx t s = rbind (t s) (\<lambda>(_, s'). Inr ((), s'))"

lemma unit_tx_Inr: "unit_tx t s = Inr (u, s') \<longleftrightarrow> (\<exists>a. t s = Inr (a, s'))"
  by (auto simp: unit_tx_def rbind_Inr_iff)

text \<open>
  The contract between a component and whoever schedules its operations: an operation
  of the component that commits keeps the component's invariant. Whatever the order in
  which operations arrive and however many of them fail, the invariant holds afterwards.
\<close>

locale tx_component =
  fixes exec :: "'op \<Rightarrow> ('s, 'a) tx"
    and inv :: "'s \<Rightarrow> bool"
  assumes exec_inv: "inv s \<Longrightarrow> exec op s = Inr (a, s') \<Longrightarrow> inv s'"
begin

lemma commit_inv: "inv s \<Longrightarrow> inv (commit (exec op) s)"
  by (auto simp: commit_def split: sum.splits prod.splits intro: exec_inv)

lemma run_inv: "inv s \<Longrightarrow> inv (run_txs (map exec ops) s)"
  by (induction ops arbitrary: s) (simp_all add: commit_inv)

text \<open>A preorder that every committed operation respects holds between the ends of a run.\<close>

lemma run_preorder_on:
  assumes "inv s" and refl: "\<And>s. inv s \<Longrightarrow> R s s" and trans: "\<And>s t u. R s t \<Longrightarrow> R t u \<Longrightarrow> R s u"
    and step: "\<And>op s a s'. op \<in> set ops \<Longrightarrow> inv s \<Longrightarrow> exec op s = Inr (a, s') \<Longrightarrow> R s s'"
  shows "R s (run_txs (map exec ops) s)"
  using assms(1) step
proof (induction ops arbitrary: s)
  case Nil
  then show ?case by (simp add: refl)
next
  case (Cons op ops)
  have "R s (commit (exec op) s)"
    using Cons.prems(2) [of op s] refl [OF Cons.prems(1)] Cons.prems(1) by (cases "exec op s") (auto simp: commit_def)
  moreover have "R (commit (exec op) s) (run_txs (map exec ops) (commit (exec op) s))"
    by (rule Cons.IH [OF commit_inv [OF Cons.prems(1)]]) (auto intro: Cons.prems(2))
  ultimately show ?case by (auto intro: trans)
qed

lemma run_preorder:
  assumes "inv s" and "\<And>s. R s s" and "\<And>s t u. R s t \<Longrightarrow> R t u \<Longrightarrow> R s u"
    and "\<And>op s a s'. inv s \<Longrightarrow> exec op s = Inr (a, s') \<Longrightarrow> R s s'"
  shows "R s (run_txs (map exec ops) s)"
  by (rule run_preorder_on [OF assms(1)]) (rule assms(2), erule (1) assms(3), erule (1) assms(4))

end

section \<open>Lists and options\<close>

lemma find_Some_iff2: "List.find p xs = Some x \<Longrightarrow> p x \<and> x \<in> set xs"
  by (auto simp: find_Some_iff)

lemma filter_eq_single:
  "distinct (map f xs) \<Longrightarrow> x \<in> set xs \<Longrightarrow> filter (\<lambda>y. f y = f x) xs = [x]"
proof (induction xs)
  case (Cons a xs)
  then show ?case
    by (cases "a = x") (auto simp: filter_empty_conv image_iff)
qed simp

definition option_or :: "'a option \<Rightarrow> 'a \<Rightarrow> 'a" where
  "option_or x d = (case x of None \<Rightarrow> d | Some v \<Rightarrow> v)"

lemma option_or_simps [simp]: "option_or None d = d" "option_or (Some v) d = v"
  by (simp_all add: option_or_def)

section \<open>Strings, sets and numbers in text\<close>

text \<open>\<^verbatim>\<open>String.prototype.startsWith\<close> and \<^verbatim>\<open>endsWith\<close>.\<close>

definition starts_with :: "'a list \<Rightarrow> 'a list \<Rightarrow> bool" where
  "starts_with s p = (take (length p) s = p)"

definition ends_with :: "'a list \<Rightarrow> 'a list \<Rightarrow> bool" where
  "ends_with s p = (length p \<le> length s \<and> drop (length s - length p) s = p)"

lemma starts_with_iff: "starts_with s p \<longleftrightarrow> (\<exists>t. s = p @ t)"
  by (metis append_eq_conv_conj append_take_drop_id starts_with_def)

lemma ends_with_iff: "ends_with s p \<longleftrightarrow> (\<exists>t. s = t @ p)"
proof
  assume "ends_with s p"
  then show "\<exists>t. s = t @ p" unfolding ends_with_def by (metis append_take_drop_id)
qed (auto simp: ends_with_def)

lemma starts_with_Nil [simp]: "starts_with s []"
  by (simp add: starts_with_def)

lemma starts_with_Cons [simp]: "starts_with (x # s) (y # p) \<longleftrightarrow> x = y \<and> starts_with s p"
  by (auto simp: starts_with_def)

text \<open>\<^verbatim>\<open>[...new Set(xs)]\<close>: the first occurrence of each value, in order.\<close>

fun dedup_from :: "'a list \<Rightarrow> 'a list \<Rightarrow> 'a list" where
  "dedup_from seen [] = []"
| "dedup_from seen (x # xs) =
     (if x \<in> set seen then dedup_from seen xs else x # dedup_from (x # seen) xs)"

definition dedup :: "'a list \<Rightarrow> 'a list" where
  "dedup xs = dedup_from [] xs"

lemma set_dedup_from: "set (dedup_from seen xs) = set xs - set seen"
  by (induction seen xs rule: dedup_from.induct) auto

lemma distinct_dedup_from: "distinct (dedup_from seen xs)"
  by (induction seen xs rule: dedup_from.induct) (auto simp: set_dedup_from)

lemma set_dedup [simp]: "set (dedup xs) = set xs"
  by (simp add: dedup_def set_dedup_from)

lemma distinct_dedup [simp]: "distinct (dedup xs)"
  by (simp add: dedup_def distinct_dedup_from)

text \<open>\<^verbatim>\<open>String(n)\<close> of a non-negative integer: its decimal digits.\<close>

fun decimal :: "nat \<Rightarrow> string" where
  "decimal n = (if n < 10 then [char_of (48 + n)] else decimal (n div 10) @ [char_of (48 + n mod 10)])"

declare decimal.simps [simp del]

text \<open>
  \<^verbatim>\<open>String.prototype.trim\<close> and \<^verbatim>\<open>toLowerCase\<close> on code units below 256:
  white space is TAB to CR, space and the no-break space; the upper-case letters are
  A to Z and the Latin-1 ones (all of U+00C0 to U+00DE but the multiplication sign).
\<close>

definition is_space :: "char \<Rightarrow> bool" where
  "is_space c = (let n = of_char c :: nat in (9 \<le> n \<and> n \<le> 13) \<or> n = 32 \<or> n = 160)"

definition trim :: "string \<Rightarrow> string" where
  "trim s = rev (dropWhile is_space (rev (dropWhile is_space s)))"

definition lower_char :: "char \<Rightarrow> char" where
  "lower_char c = (let n = of_char c :: nat in
     if (65 \<le> n \<and> n \<le> 90) \<or> (192 \<le> n \<and> n \<le> 222 \<and> n \<noteq> 215) then char_of (n + 32) else c)"

definition to_lower :: "string \<Rightarrow> string" where
  "to_lower s = map lower_char s"

lemma lower_char_idem [simp]: "lower_char (lower_char c) = lower_char c"
proof -
  have b: "(of_char c :: nat) < 256" by simp
  define n where "n = (of_char c :: nat)"
  show ?thesis
  proof (cases "(65 \<le> n \<and> n \<le> 90) \<or> (192 \<le> n \<and> n \<le> 222 \<and> n \<noteq> 215)")
    case True
    then have "n + 32 < 256" by auto
    then have "(of_char (char_of (n + 32) :: char) :: nat) = n + 32" by (simp add: of_char_of)
    with True show ?thesis by (auto simp: lower_char_def Let_def n_def [symmetric])
  next
    case False
    then show ?thesis by (auto simp: lower_char_def Let_def n_def)
  qed
qed

lemma to_lower_idem [simp]: "to_lower (to_lower s) = to_lower s"
  by (simp add: to_lower_def)

lemma length_to_lower [simp]: "length (to_lower s) = length s"
  by (simp add: to_lower_def)

text \<open>\<^verbatim>\<open>s.slice(0, n)\<close> is \<^term>\<open>take n s\<close>; a SHA-256 in hexadecimal:\<close>

definition is_hex_char :: "char \<Rightarrow> bool" where
  "is_hex_char c = (let n = of_char c :: nat in (48 \<le> n \<and> n \<le> 57) \<or> (97 \<le> n \<and> n \<le> 102))"

definition is_hex :: "nat \<Rightarrow> string \<Rightarrow> bool" where
  "is_hex k s = (length s = k \<and> list_all is_hex_char s)"

definition is_digit :: "char \<Rightarrow> bool" where
  "is_digit c = (let n = of_char c :: nat in 48 \<le> n \<and> n \<le> 57)"

text \<open>The pattern \<^verbatim>\<open>/^[1-9][0-9]*$/\<close>.\<close>

definition positive_decimal :: "string \<Rightarrow> bool" where
  "positive_decimal s = (case s of [] \<Rightarrow> False
     | c # cs \<Rightarrow> is_digit c \<and> c \<noteq> CHR ''0'' \<and> list_all is_digit cs)"

end
