(* ===== verification/TagAliases.thy ===== *)
theory TagAliases
  imports Prelude
begin

text \<open>
  Tag aliases (\<^verbatim>\<open>server/helpers/tag-aliases.ts\<close>): a tag that was merged or renamed
  redirects to another tag, an archived tag resolves to nothing. The alias map gives, for
  every stored tag name, the name of the active canonical tag at the end of its chain of
  redirects, or null.
\<close>

record tag_identity =
  tag_id :: int
  tag_tag :: string
  tag_redirect :: "int option"
  tag_archived :: bool

type_synonym alias_map = "string \<rightharpoonup> string option"

text \<open>\<^verbatim>\<open>new Map(tags.map(tag => [tag.id, tag]))\<close>: a later row replaces an earlier one.\<close>

definition tags_by_id :: "('x tag_identity_scheme) list \<Rightarrow> int \<Rightarrow> ('x tag_identity_scheme) option" where
  "tags_by_id tags i = List.find (\<lambda>t. tag_id t = i) (rev tags)"

lemma tags_by_id_SomeD: "tags_by_id tags i = Some t \<Longrightarrow> t \<in> set tags \<and> tag_id t = i"
  unfolding tags_by_id_def by (drule find_Some_iff2) auto

text \<open>The \<^verbatim>\<open>while\<close> loop over \<^verbatim>\<open>current.redirectToId\<close> with its visited set.\<close>

function follow_alias ::
  "('x tag_identity_scheme) list \<Rightarrow> int list \<Rightarrow> 'x tag_identity_scheme \<Rightarrow> ('x tag_identity_scheme) result"
where
  "follow_alias tags visited current =
     (case tag_redirect current of
        None \<Rightarrow> Inr current
      | Some i \<Rightarrow>
          if tag_id current \<in> set visited then Inl Plain_error
          else (case tags_by_id tags i of
                  None \<Rightarrow> Inl Plain_error
                | Some nxt \<Rightarrow>
                    if tag_archived nxt then Inl Plain_error
                    else follow_alias tags (tag_id current # visited) nxt))"
  by pat_completeness auto
termination
proof (relation "measure (\<lambda>(tags, visited, current). card (insert (tag_id current) (tag_id ` set tags) - set visited))",
    goal_cases)
  case (2 tags visited current i nxt)
  then have nxt: "nxt \<in> set tags" using tags_by_id_SomeD by blast
  have "insert (tag_id nxt) (tag_id ` set tags) - set (tag_id current # visited)
      \<subset> insert (tag_id current) (tag_id ` set tags) - set visited"
    using nxt 2(2) by auto
  then show ?case by (auto intro!: psubset_card_mono)
qed simp

declare follow_alias.simps [simp del]

definition tag_alias_map :: "('x tag_identity_scheme) list \<Rightarrow> alias_map result" where
  "tag_alias_map tags = rfold (\<lambda>tag m.
     if tag_archived tag then Inr (m(tag_tag tag \<mapsto> None))
     else rbind (follow_alias tags [] tag) (\<lambda>c. Inr (m(tag_tag tag \<mapsto> Some (tag_tag c))))) tags Map.empty"

definition resolve_tag_name :: "alias_map \<Rightarrow> string \<Rightarrow> string option" where
  "resolve_tag_name aliases name = (case aliases name of None \<Rightarrow> Some name | Some r \<Rightarrow> r)"

section \<open>The end of a redirect chain\<close>

definition canonical_tag :: "'x tag_identity_scheme \<Rightarrow> bool" where
  "canonical_tag t = (tag_redirect t = None \<and> \<not> tag_archived t)"

lemma follow_alias_canonical:
  assumes "follow_alias tags visited current = Inr c" "current \<in> set tags" "\<not> tag_archived current"
  shows "c \<in> set tags \<and> canonical_tag c"
  using assms
proof (induction tags visited current rule: follow_alias.induct)
  case (1 tags visited current)
  show ?case
  proof (cases "tag_redirect current")
    case None
    with 1 show ?thesis by (auto simp: follow_alias.simps [of tags visited current] canonical_tag_def)
  next
    case (Some i)
    with 1(2) obtain nxt where nxt: "tags_by_id tags i = Some nxt" "\<not> tag_archived nxt"
      and nv: "tag_id current \<notin> set visited"
      and rec: "follow_alias tags (tag_id current # visited) nxt = Inr c"
      by (auto simp: follow_alias.simps [of tags visited current] split: option.splits if_splits)
    from nxt(1) have "nxt \<in> set tags" using tags_by_id_SomeD by blast
    with 1(1) [OF Some nv nxt(1) nxt(2) rec] nxt(2) show ?thesis by blast
  qed
qed

lemma follow_canonical: "canonical_tag c \<Longrightarrow> follow_alias tags visited c = Inr c"
  by (simp add: follow_alias.simps canonical_tag_def)

text \<open>Every entry of the map is null or the name of an active canonical tag.\<close>

definition alias_sound :: "('x tag_identity_scheme) list \<Rightarrow> alias_map \<Rightarrow> bool" where
  "alias_sound tags m = (\<forall>name target. m name = Some (Some target) \<longrightarrow>
     (\<exists>c\<in>set tags. canonical_tag c \<and> tag_tag c = target))"

lemma alias_map_sound:
  assumes "tag_alias_map tags = Inr m"
  shows "alias_sound tags m"
  using assms unfolding tag_alias_map_def
proof (rule rfold_invariant)
  fix t a b
  assume t: "t \<in> set tags" and a: "alias_sound tags a"
    and step: "(if tag_archived t then Inr (a(tag_tag t \<mapsto> None))
      else rbind (follow_alias tags [] t) (\<lambda>c. Inr (a(tag_tag t \<mapsto> Some (tag_tag c))))) = Inr b"
  show "alias_sound tags b"
  proof (cases "tag_archived t")
    case True
    with step a show ?thesis by (auto simp: alias_sound_def split: if_splits)
  next
    case False
    with step obtain c where c: "follow_alias tags [] t = Inr c" "b = a(tag_tag t \<mapsto> Some (tag_tag c))"
      by (auto simp: rbind_Inr_iff)
    from follow_alias_canonical [OF c(1) t False] a c(2) show ?thesis
      by (auto simp: alias_sound_def split: if_splits)
  qed
qed (simp add: alias_sound_def)

text \<open>With unique names the map holds exactly what the loop computed for each tag.\<close>

lemma alias_map_entries:
  assumes "rfold (\<lambda>tag m.
     if tag_archived tag then Inr (m(tag_tag tag \<mapsto> None))
     else rbind (follow_alias tags [] tag) (\<lambda>c. Inr (m(tag_tag tag \<mapsto> Some (tag_tag c))))) ts m0 = Inr m"
    and "distinct (map tag_tag ts)"
  shows "(\<forall>t\<in>set ts. if tag_archived t then m (tag_tag t) = Some None
      else (\<exists>c. follow_alias tags [] t = Inr c \<and> m (tag_tag t) = Some (Some (tag_tag c))))
    \<and> (\<forall>name. name \<notin> tag_tag ` set ts \<longrightarrow> m name = m0 name)"
  using assms
proof (induction ts arbitrary: m0)
  case (Cons t ts)
  from Cons.prems(2) have d: "distinct (map tag_tag ts)" and nt: "tag_tag t \<notin> tag_tag ` set ts" by auto
  show ?case
  proof (cases "tag_archived t")
    case True
    with Cons.prems(1) have "rfold (\<lambda>tag m.
       if tag_archived tag then Inr (m(tag_tag tag \<mapsto> None))
       else rbind (follow_alias tags [] tag) (\<lambda>c. Inr (m(tag_tag tag \<mapsto> Some (tag_tag c)))))
         ts (m0(tag_tag t \<mapsto> None)) = Inr m" by simp
    from Cons.IH [OF this d] nt True show ?thesis by auto
  next
    case False
    with Cons.prems(1) obtain c where c: "follow_alias tags [] t = Inr c" and "rfold (\<lambda>tag m.
       if tag_archived tag then Inr (m(tag_tag tag \<mapsto> None))
       else rbind (follow_alias tags [] tag) (\<lambda>c. Inr (m(tag_tag tag \<mapsto> Some (tag_tag c)))))
         ts (m0(tag_tag t \<mapsto> Some (tag_tag c))) = Inr m"
      by (auto simp: rbind_Inr_iff)
    from Cons.IH [OF this(2) d] nt False c show ?thesis by auto
  qed
qed simp

lemma alias_map_entry:
  assumes "tag_alias_map tags = Inr m" "distinct (map tag_tag tags)" "t \<in> set tags"
  shows "if tag_archived t then m (tag_tag t) = Some None
      else (\<exists>c. follow_alias tags [] t = Inr c \<and> m (tag_tag t) = Some (Some (tag_tag c)))"
  using alias_map_entries [OF assms(1) [unfolded tag_alias_map_def] assms(2)] assms(3) by blast

lemma resolve_tag_canonical:
  assumes "tag_alias_map tags = Inr m" "distinct (map tag_tag tags)" "t \<in> set tags" "canonical_tag t"
  shows "resolve_tag_name m (tag_tag t) = Some (tag_tag t)"
proof -
  from assms(4) have "\<not> tag_archived t" by (simp add: canonical_tag_def)
  with alias_map_entry [OF assms(1-3)] follow_canonical [OF assms(4)]
  show ?thesis by (auto simp: resolve_tag_name_def)
qed

section \<open>Properties\<close>

text \<open>Resolving a tag name is idempotent: for a taxonomy whose tag names are unique, the
  name a stored name resolves to is its own resolution, and it names a stored tag that is
  neither archived nor redirected. A rule or a page that stores the resolved name can
  therefore be resolved again at any later reload without changing its meaning.
\<close>

theorem alias_resolution_idempotent:
  assumes "tag_alias_map tags = Inr m" "distinct (map tag_tag tags)"
    and "name \<in> tag_tag ` set tags" "resolve_tag_name m name = Some target"
  shows "resolve_tag_name m target = Some target
    \<and> (\<exists>c\<in>set tags. canonical_tag c \<and> tag_tag c = target)"
proof -
  from assms(3) obtain t where t: "t \<in> set tags" "name = tag_tag t" by auto
  from alias_map_entry [OF assms(1,2) t(1)] assms(4) t(2)
  have "m name = Some (Some target)" by (auto simp: resolve_tag_name_def split: if_splits)
  with alias_map_sound [OF assms(1)] obtain c where "c \<in> set tags" "canonical_tag c" "tag_tag c = target"
    by (auto simp: alias_sound_def)
  with resolve_tag_canonical [OF assms(1,2)] show ?thesis by blast
qed

theorem alias_resolution_idempotent_witness:
  "let tags = [\<lparr>tag_id = 1, tag_tag = ''old'', tag_redirect = Some 2, tag_archived = False\<rparr>,
               \<lparr>tag_id = 2, tag_tag = ''new'', tag_redirect = None, tag_archived = False\<rparr>];
       m = [''old'' \<mapsto> Some ''new'', ''new'' \<mapsto> Some ''new'']
   in tag_alias_map tags = Inr m \<and> resolve_tag_name m ''new'' = Some ''new''
    \<and> (\<exists>c\<in>set tags. canonical_tag c \<and> tag_tag c = ''new'')"
proof -
  let ?tags = "[\<lparr>tag_id = 1, tag_tag = ''old'', tag_redirect = Some 2, tag_archived = False\<rparr>,
               \<lparr>tag_id = 2, tag_tag = ''new'', tag_redirect = None, tag_archived = False\<rparr>]"
  let ?m = "[''old'' \<mapsto> Some ''new'', ''new'' \<mapsto> Some ''new'']"
  have m: "tag_alias_map ?tags = Inr ?m"
    by (simp add: tag_alias_map_def follow_alias.simps tags_by_id_def)
  have "resolve_tag_name ?m ''old'' = Some ''new''" by (simp add: resolve_tag_name_def)
  from alias_resolution_idempotent [OF m _ _ this] m show ?thesis by (simp add: Let_def)
qed

end
