(* ===== verification/PageRules.thy ===== *)
theory PageRules
  imports TagAliases "HOL-Library.Product_Lexorder"
begin

text \<open>
  Group page rules (\<^verbatim>\<open>server/helpers/group-access.ts\<close>): the rules of the requester's
  groups are folded into one verdict. A rule replaces the current one when its path is
  longer, or equally long and of a stronger kind of match, or of the same kind unless that
  would turn a denial into a permission. The file also models the immutable authority
  snapshot of \<^verbatim>\<open>server/core/auth.ts\<close>.

  The regular-expression engine is a parameter: \<open>regex pattern\<close> is \<^term>\<open>None\<close> when
  \<^verbatim>\<open>new RegExp(pattern)\<close> throws and otherwise the test function.
\<close>

datatype rule_match = START | SUBTREE | END | REGEX | TAG | EXACT

record access_rule =
  rule_id :: "string option"
  rule_match :: rule_match
  rule_path :: string
  rule_deny :: bool
  rule_roles :: "string list"
  rule_locales :: "string list option"

record access_group =
  group_id :: nat
  group_name :: "string option"
  group_permissions :: "string list option"
  group_rules :: "access_rule list"

record access_page =
  page_path :: string
  page_locale :: "string option"
  page_tags :: "string list option"

type_synonym regex_engine = "string \<Rightarrow> (string \<Rightarrow> bool) option"

fun rank :: "rule_match \<Rightarrow> nat" where
  "rank START = 0" | "rank SUBTREE = 1" | "rank END = 2"
| "rank REGEX = 3" | "rank TAG = 4" | "rank EXACT = 5"

lemma rank_inject [simp]: "rank a = rank b \<longleftrightarrow> a = b"
  by (cases a; cases b) simp_all

text \<open>The rank table is a linear order on the kinds of match.\<close>

instantiation rule_match :: linorder
begin

definition less_eq_rule_match :: "rule_match \<Rightarrow> rule_match \<Rightarrow> bool" where
  "less_eq_rule_match a b = (rank a \<le> rank b)"

definition less_rule_match :: "rule_match \<Rightarrow> rule_match \<Rightarrow> bool" where
  "less_rule_match a b = (rank a < rank b)"

instance
  by standard (auto simp: less_eq_rule_match_def less_rule_match_def)

end

section \<open>Priorities of rules\<close>

record rule_state =
  st_deny :: bool
  st_match :: "rule_match option"
  st_specificity :: string

definition initial_rule_state :: rule_state where
  "initial_rule_state = \<lparr>st_deny = False, st_match = None, st_specificity = []\<rparr>"

definition apply_page_rule :: "access_rule \<Rightarrow> rule_state \<Rightarrow> rule_state" where
  "apply_page_rule rule state =
     (if length (rule_path rule) < length (st_specificity state) then state
      else if length (rule_path rule) = length (st_specificity state) \<and>
        (case st_match state of None \<Rightarrow> False
         | Some m \<Rightarrow> rank (rule_match rule) < rank m \<or>
             (rule_match rule = m \<and> st_deny state \<and> \<not> rule_deny rule)) then state
      else \<lparr>st_deny = rule_deny rule, st_match = Some (rule_match rule), st_specificity = rule_path rule\<rparr>)"

definition rule_priority :: "access_rule \<Rightarrow> nat \<times> rule_match \<times> bool" where
  "rule_priority r = (length (rule_path r), rule_match r, rule_deny r)"

text \<open>The states the fold goes through: the initial one, or the verdict of some rule.\<close>

definition state_of_rule :: "access_rule \<Rightarrow> rule_state" where
  "state_of_rule r = \<lparr>st_deny = rule_deny r, st_match = Some (rule_match r), st_specificity = rule_path r\<rparr>"

lemma apply_page_rule_initial [simp]:
  "apply_page_rule r initial_rule_state = state_of_rule r"
  by (simp add: apply_page_rule_def initial_rule_state_def state_of_rule_def)

lemma apply_page_rule_max:
  "apply_page_rule r (state_of_rule s) = state_of_rule (if rule_priority s \<le> rule_priority r then r else s)"
  by (auto simp: apply_page_rule_def state_of_rule_def rule_priority_def
      less_eq_rule_match_def less_rule_match_def less_prod_def less_eq_prod_def le_bool_def)

section \<open>Evaluating a request\<close>

datatype rule_outcome = Winner | Overridden | No_match | Locale | Permission

record rule_trace =
  tr_group_id :: nat
  tr_group_name :: string
  tr_rule_id :: string
  tr_match :: rule_match
  tr_path :: string
  tr_deny :: bool
  tr_outcome :: rule_outcome

text \<open>The test of one rule's kind of match against the page.\<close>

definition rule_matches :: "regex_engine \<Rightarrow> alias_map \<Rightarrow> access_rule \<Rightarrow> access_page \<Rightarrow> bool" where
  "rule_matches regex aliases rule page =
     (case rule_match rule of
        START \<Rightarrow> starts_with (CHR ''/'' # page_path page) (CHR ''/'' # rule_path rule)
      | SUBTREE \<Rightarrow> rule_path rule = [] \<or> page_path page = rule_path rule
                  \<or> starts_with (page_path page) (rule_path rule @ ''/'')
      | END \<Rightarrow> ends_with (page_path page) (rule_path rule)
      | EXACT \<Rightarrow> CHR ''/'' # page_path page = CHR ''/'' # rule_path rule
      | REGEX \<Rightarrow> (case regex (rule_path rule) of None \<Rightarrow> False | Some test \<Rightarrow> test (page_path page))
      | TAG \<Rightarrow> (case resolve_tag_name aliases (rule_path rule) of
                  None \<Rightarrow> False
                | Some resolved \<Rightarrow>
                    list_ex (\<lambda>tag. resolve_tag_name aliases tag = Some resolved)
                      (option_or (page_tags page) [])))"

text \<open>\<^verbatim>\<open>rule.locales?.length && (!page.locale || !rule.locales.includes(page.locale))\<close>\<close>

definition locale_excluded :: "access_rule \<Rightarrow> access_page \<Rightarrow> bool" where
  "locale_excluded rule page =
     (case rule_locales rule of
        None \<Rightarrow> False
      | Some ls \<Rightarrow> ls \<noteq> [] \<and>
          (case page_locale page of None \<Rightarrow> True | Some l \<Rightarrow> l = [] \<or> l \<notin> set ls))"

definition roles_requested :: "access_rule \<Rightarrow> string list \<Rightarrow> bool" where
  "roles_requested rule requested = list_ex (\<lambda>role. List.member requested role) (rule_roles rule)"

definition rule_outcome :: "regex_engine \<Rightarrow> alias_map \<Rightarrow> string list \<Rightarrow> access_page \<Rightarrow> access_rule \<Rightarrow> rule_outcome" where
  "rule_outcome regex aliases requested page rule =
     (if locale_excluded rule page then Locale
      else if \<not> roles_requested rule requested then Permission
      else if rule_matches regex aliases rule page then Overridden
      else No_match)"

definition trace_rule :: "access_group \<Rightarrow> nat \<Rightarrow> access_rule \<Rightarrow> rule_outcome \<Rightarrow> rule_trace" where
  "trace_rule grp index rule outcome =
     \<lparr>tr_group_id = group_id grp,
      tr_group_name = option_or (group_name grp) (''Group '' @ decimal (group_id grp)),
      tr_rule_id = option_or (rule_id rule) (decimal (index + 1)),
      tr_match = rule_match rule, tr_path = rule_path rule, tr_deny = rule_deny rule,
      tr_outcome = outcome\<rparr>"

text \<open>The body of the inner loop, over the rules of one group with their indices.\<close>

fun fold_rules ::
  "regex_engine \<Rightarrow> alias_map \<Rightarrow> string list \<Rightarrow> access_page \<Rightarrow> access_group \<Rightarrow>
   nat \<Rightarrow> access_rule list \<Rightarrow> rule_state \<times> rule_trace list \<Rightarrow> rule_state \<times> rule_trace list"
where
  "fold_rules regex aliases requested page grp index [] acc = acc"
| "fold_rules regex aliases requested page grp index (rule # rules) (state, trace) =
     (let outcome = rule_outcome regex aliases requested page rule;
          state' = (if outcome = Overridden then apply_page_rule rule state else state)
      in fold_rules regex aliases requested page grp (index + 1) rules
           (state', trace @ [trace_rule grp index rule outcome]))"

fun fold_groups ::
  "regex_engine \<Rightarrow> alias_map \<Rightarrow> string list \<Rightarrow> access_page \<Rightarrow> access_group list \<Rightarrow>
   rule_state \<times> rule_trace list \<Rightarrow> rule_state \<times> rule_trace list"
where
  "fold_groups regex aliases requested page [] acc = acc"
| "fold_groups regex aliases requested page (grp # groups) acc =
     fold_groups regex aliases requested page groups
       (fold_rules regex aliases requested page grp 0 (group_rules grp) acc)"

record access_verdict =
  va_allowed :: bool
  va_reason :: string
  va_rules :: "rule_trace list"

text \<open>The post-pass that marks the entries carrying the final verdict.\<close>

definition mark_winner :: "rule_state \<Rightarrow> rule_trace \<Rightarrow> rule_trace" where
  "mark_winner state t =
     t\<lparr>tr_outcome :=
        (if tr_outcome t = Overridden \<and> length (tr_path t) = length (st_specificity state)
            \<and> st_match state = Some (tr_match t) \<and> tr_deny t = st_deny state
         then Winner else tr_outcome t)\<rparr>"

definition evaluate_group_access ::
  "regex_engine \<Rightarrow> string list \<Rightarrow> string list \<Rightarrow> access_group list \<Rightarrow> access_page option \<Rightarrow> alias_map \<Rightarrow> bool \<Rightarrow> access_verdict"
where
  "evaluate_group_access regex permissions requested groups page aliases collect_trace =
     (let bypass = List.member permissions ''manage:system'';
          has_permission = list_ex (\<lambda>p. List.member permissions p) requested;
          (state, trace) = (case page of
             None \<Rightarrow> (initial_rule_state, [])
           | Some p \<Rightarrow> fold_groups regex aliases requested p groups (initial_rule_state, []));
          rules = map (mark_winner state) (if collect_trace then trace else [])
      in \<lparr>va_allowed = bypass \<or> (has_permission \<and>
              (page = None \<or> (st_match state \<noteq> None \<and> \<not> st_deny state))),
          va_reason =
            (if bypass then ''Full system administration bypasses page rules.''
             else if \<not> has_permission then ''The required global permission is missing.''
             else if page = None then ''The global permission is granted.''
             else if st_match state = None then ''No page rule grants this action.''
             else if st_deny state then ''The highest-priority matching rule denies this action.''
             else ''The highest-priority matching rule allows this action.''),
          va_rules = rules\<rparr>)"

section \<open>The verdict is the strongest applicable rule\<close>

definition applicable_rules ::
  "regex_engine \<Rightarrow> alias_map \<Rightarrow> string list \<Rightarrow> access_page \<Rightarrow> access_group list \<Rightarrow> access_rule list" where
  "applicable_rules regex aliases requested page groups =
     filter (\<lambda>r. rule_outcome regex aliases requested page r = Overridden) (concat (map group_rules groups))"

lemma fst_fold_rules:
  "fst (fold_rules regex aliases requested page grp index rules acc) =
   fold apply_page_rule (filter (\<lambda>r. rule_outcome regex aliases requested page r = Overridden) rules) (fst acc)"
proof (induction rules arbitrary: index acc)
  case (Cons r rules)
  then show ?case by (cases acc) (simp add: Let_def)
qed simp

lemma fst_fold_groups:
  "fst (fold_groups regex aliases requested page groups acc) =
   fold apply_page_rule (applicable_rules regex aliases requested page groups) (fst acc)"
  by (induction groups arbitrary: acc) (simp_all add: fst_fold_rules applicable_rules_def)

text \<open>The fold from some rule's verdict ends in the verdict of a rule of maximal priority.\<close>

lemma fold_apply_from_rule:
  "\<exists>w\<in>set (s # rs). fold apply_page_rule rs (state_of_rule s) = state_of_rule w
     \<and> (\<forall>r\<in>set (s # rs). rule_priority r \<le> rule_priority w)"
proof (induction rs arbitrary: s)
  case (Cons r rs)
  define s' where "s' = (if rule_priority s \<le> rule_priority r then r else s)"
  from Cons.IH [of s'] obtain w where w: "w \<in> set (s' # rs)"
    "fold apply_page_rule rs (state_of_rule s') = state_of_rule w"
    "\<forall>q\<in>set (s' # rs). rule_priority q \<le> rule_priority w" by blast
  have fold: "fold apply_page_rule (r # rs) (state_of_rule s) = state_of_rule w"
    using w(2) by (simp add: apply_page_rule_max s'_def)
  have "rule_priority s \<le> rule_priority s'" "rule_priority r \<le> rule_priority s'"
    by (auto simp: s'_def)
  with w(3) have "\<forall>q\<in>set (s # r # rs). rule_priority q \<le> rule_priority w"
    by (auto intro: order_trans)
  moreover have "w \<in> set (s # r # rs)" using w(1) by (auto simp: s'_def split: if_splits)
  ultimately show ?case using fold by blast
qed simp

lemma fold_apply_cases:
  "(rs = [] \<and> fold apply_page_rule rs initial_rule_state = initial_rule_state) \<or>
   (\<exists>w\<in>set rs. fold apply_page_rule rs initial_rule_state = state_of_rule w
     \<and> (\<forall>r\<in>set rs. rule_priority r \<le> rule_priority w))"
  using fold_apply_from_rule by (cases rs) auto

text \<open>What the trace records, entry by entry.\<close>

definition trace_key :: "rule_trace \<Rightarrow> rule_match \<times> string \<times> bool \<times> rule_outcome" where
  "trace_key t = (tr_match t, tr_path t, tr_deny t, tr_outcome t)"

definition rule_key :: "rule_outcome \<Rightarrow> access_rule \<Rightarrow> rule_match \<times> string \<times> bool \<times> rule_outcome" where
  "rule_key outcome r = (rule_match r, rule_path r, rule_deny r, outcome)"

lemma trace_key_trace_rule [simp]: "trace_key (trace_rule grp i r outcome) = rule_key outcome r"
  by (simp add: trace_key_def rule_key_def trace_rule_def)

lemma snd_fold_rules:
  "map trace_key (snd (fold_rules regex aliases requested page grp index rules acc)) =
   map trace_key (snd acc) @ map (\<lambda>r. rule_key (rule_outcome regex aliases requested page r) r) rules"
proof (induction rules arbitrary: index acc)
  case (Cons r rules)
  then show ?case by (cases acc) (simp add: Let_def)
qed simp

lemma snd_fold_groups:
  "map trace_key (snd (fold_groups regex aliases requested page groups acc)) =
   map trace_key (snd acc) @
     map (\<lambda>r. rule_key (rule_outcome regex aliases requested page r) r) (concat (map group_rules groups))"
  by (induction groups arbitrary: acc) (simp_all add: snd_fold_rules)

lemma trace_keys:
  "trace_key ` set (snd (fold_groups regex aliases requested page groups (initial_rule_state, []))) =
   (\<lambda>r. rule_key (rule_outcome regex aliases requested page r) r) ` (\<Union>g\<in>set groups. set (group_rules g))"
proof -
  have "trace_key ` set (snd (fold_groups regex aliases requested page groups (initial_rule_state, []))) =
    set (map trace_key (snd (fold_groups regex aliases requested page groups (initial_rule_state, []))))"
    by simp
  then show ?thesis by (simp only: snd_fold_groups) simp
qed

definition has_permission :: "string list \<Rightarrow> string list \<Rightarrow> bool" where
  "has_permission permissions requested = (\<exists>p\<in>set requested. p \<in> set permissions)"

lemma va_allowed_page:
  "va_allowed (evaluate_group_access regex permissions requested groups (Some page) aliases collect) \<longleftrightarrow>
     ''manage:system'' \<in> set permissions \<or>
     has_permission permissions requested \<and>
       (let state = fold apply_page_rule (applicable_rules regex aliases requested page groups) initial_rule_state
        in st_match state \<noteq> None \<and> \<not> st_deny state)"
  using fst_fold_groups [of regex aliases requested page groups "(initial_rule_state, [])"]
  by (cases "fold_groups regex aliases requested page groups (initial_rule_state, [])")
    (auto simp: evaluate_group_access_def Let_def has_permission_def list_ex_iff)

lemma state_of_rule_simps [simp]:
  "st_match (state_of_rule r) = Some (rule_match r)" "st_deny (state_of_rule r) = rule_deny r"
  "st_specificity (state_of_rule r) = rule_path r"
  by (simp_all add: state_of_rule_def)

lemma initial_rule_state_simps [simp]: "st_match initial_rule_state = None"
  by (simp add: initial_rule_state_def)

lemma rule_priority_deny:
  "rule_priority r \<le> rule_priority s \<Longrightarrow> rule_priority s \<le> rule_priority r \<Longrightarrow> rule_deny r = rule_deny s"
  by (auto simp: rule_priority_def dest: order_antisym)

lemma strongest_rule_decides:
  fixes rules :: "access_rule list"
  defines "state \<equiv> fold apply_page_rule rules initial_rule_state"
  shows "st_match state \<noteq> None \<and> \<not> st_deny state \<longleftrightarrow>
    (\<exists>r\<in>set rules. \<not> rule_deny r \<and> (\<forall>q\<in>set rules. rule_priority q \<le> rule_priority r))"
  using fold_apply_cases [of rules]
proof
  assume "rules = [] \<and> fold apply_page_rule rules initial_rule_state = initial_rule_state"
  then show ?thesis by (simp add: state_def)
next
  assume "\<exists>w\<in>set rules. fold apply_page_rule rules initial_rule_state = state_of_rule w
     \<and> (\<forall>r\<in>set rules. rule_priority r \<le> rule_priority w)"
  then obtain w where w: "w \<in> set rules" "state = state_of_rule w"
    "\<forall>r\<in>set rules. rule_priority r \<le> rule_priority w" by (auto simp: state_def)
  show ?thesis
  proof
    assume "st_match state \<noteq> None \<and> \<not> st_deny state"
    with w show "\<exists>r\<in>set rules. \<not> rule_deny r \<and> (\<forall>q\<in>set rules. rule_priority q \<le> rule_priority r)" by auto
  next
    assume "\<exists>r\<in>set rules. \<not> rule_deny r \<and> (\<forall>q\<in>set rules. rule_priority q \<le> rule_priority r)"
    then obtain r where r: "r \<in> set rules" "\<not> rule_deny r" "\<forall>q\<in>set rules. rule_priority q \<le> rule_priority r" by blast
    with w rule_priority_deny [of r w] show "st_match state \<noteq> None \<and> \<not> st_deny state" by auto
  qed
qed

section \<open>Properties\<close>

text \<open>C2. The page-rule verdict has the meaning the administration interface documents: a
  request on a page is allowed exactly when the requester holds \<^verbatim>\<open>manage:system\<close>, or holds
  one of the requested permissions and an allowing rule applies to the page that no
  applicable rule exceeds in priority (path length, then kind of match, then denial over
  permission). The fold over groups and rules computes this declarative reading.
\<close>

theorem page_rule_verdict:
  "va_allowed (evaluate_group_access regex permissions requested groups (Some page) aliases collect) \<longleftrightarrow>
     ''manage:system'' \<in> set permissions \<or>
     (has_permission permissions requested \<and>
       (\<exists>r\<in>set (applicable_rules regex aliases requested page groups). \<not> rule_deny r \<and>
         (\<forall>q\<in>set (applicable_rules regex aliases requested page groups). rule_priority q \<le> rule_priority r)))"
  by (simp only: va_allowed_page Let_def strongest_rule_decides)

theorem page_rule_verdict_witness:
  "let r = \<lparr>rule_id = None, rule_match = START, rule_path = ''docs'', rule_deny = False, rule_roles = [''read:pages''], rule_locales = None\<rparr>;
       q = \<lparr>rule_id = None, rule_match = EXACT, rule_path = ''docs/a'', rule_deny = True, rule_roles = [''read:pages''], rule_locales = None\<rparr>;
       gs = [\<lparr>group_id = 1, group_name = None, group_permissions = None, group_rules = [r, q]\<rparr>]
   in \<not> va_allowed (evaluate_group_access (\<lambda>_. None) [''read:pages''] [''read:pages''] gs
        (Some \<lparr>page_path = ''docs/a'', page_locale = None, page_tags = None\<rparr>) Map.empty True)"
  unfolding Let_def page_rule_verdict
  by (simp add: applicable_rules_def rule_outcome_def locale_excluded_def roles_requested_def rule_matches_def
    rule_priority_def less_eq_prod_def ends_with_def)

text \<open>The verdict does not depend on the order in which groups are loaded or rules are
  stored: two sets of groups that hold the same rules give the same decision and the same
  explanation for every page and request.
\<close>

theorem page_rule_order_independent:
  assumes "(\<Union>g\<in>set groups. set (group_rules g)) = (\<Union>g\<in>set groups'. set (group_rules g))"
  shows "va_allowed (evaluate_group_access regex permissions requested groups page aliases collect) =
         va_allowed (evaluate_group_access regex permissions requested groups' page aliases collect)
       \<and> va_reason (evaluate_group_access regex permissions requested groups page aliases collect) =
         va_reason (evaluate_group_access regex permissions requested groups' page aliases collect)"
proof (cases page)
  case None
  then show ?thesis by (simp add: evaluate_group_access_def)
next
  case (Some p)
  define rs where "rs = applicable_rules regex aliases requested p groups"
  define rs' where "rs' = applicable_rules regex aliases requested p groups'"
  have eq: "set rs = set rs'" using assms by (auto simp: rs_def rs'_def applicable_rules_def)
  define s where "s = fold apply_page_rule rs initial_rule_state"
  define s' where "s' = fold apply_page_rule rs' initial_rule_state"
  have allow: "st_match s \<noteq> None \<and> \<not> st_deny s \<longleftrightarrow> st_match s' \<noteq> None \<and> \<not> st_deny s'"
    unfolding s_def s'_def strongest_rule_decides eq ..
  have none: "st_match s = None \<longleftrightarrow> st_match s' = None"
    using fold_apply_cases [of rs] fold_apply_cases [of rs'] eq by (auto simp: s_def s'_def)
  have f: "fst (fold_groups regex aliases requested p groups (initial_rule_state, [])) = s"
    and f': "fst (fold_groups regex aliases requested p groups' (initial_rule_state, [])) = s'"
    by (simp_all add: fst_fold_groups s_def s'_def rs_def rs'_def)
  show ?thesis
    using allow none f f' unfolding Some evaluate_group_access_def
    by (auto simp: Let_def case_prod_beta)
qed

theorem page_rule_order_independent_witness:
  "let r = \<lparr>rule_id = None, rule_match = START, rule_path = ''docs'', rule_deny = False, rule_roles = [''read:pages''], rule_locales = None\<rparr>;
       q = \<lparr>rule_id = None, rule_match = EXACT, rule_path = ''docs/a'', rule_deny = True, rule_roles = [''read:pages''], rule_locales = None\<rparr>;
       gs = [\<lparr>group_id = 1, group_name = None, group_permissions = None, group_rules = [r, q]\<rparr>];
       gs' = [\<lparr>group_id = 2, group_name = None, group_permissions = None, group_rules = [q]\<rparr>,
              \<lparr>group_id = 1, group_name = None, group_permissions = None, group_rules = [r]\<rparr>];
       p = \<lparr>page_path = ''docs/a'', page_locale = None, page_tags = None\<rparr>
   in va_allowed (evaluate_group_access (\<lambda>_. None) [''read:pages''] [''read:pages''] gs (Some p) Map.empty True) =
      va_allowed (evaluate_group_access (\<lambda>_. None) [''read:pages''] [''read:pages''] gs' (Some p) Map.empty True)"
  unfolding Let_def
  by (rule page_rule_order_independent [THEN conjunct1]) auto

text \<open>The explanation shown with a verdict is consistent with it: for a requester who
  holds a requested permission and is not a system administrator, access is allowed exactly
  when an allowing rule is marked as the winner, and entries marked as winners never
  disagree about allowing or denying.
\<close>

theorem page_rule_trace_explains:
  assumes "''manage:system'' \<notin> set permissions" "has_permission permissions requested"
  shows "let v = evaluate_group_access regex permissions requested groups (Some page) aliases True in
    (va_allowed v \<longleftrightarrow> (\<exists>t\<in>set (va_rules v). tr_outcome t = Winner \<and> \<not> tr_deny t))
    \<and> (\<forall>t\<in>set (va_rules v). \<forall>u\<in>set (va_rules v).
         tr_outcome t = Winner \<longrightarrow> tr_outcome u = Winner \<longrightarrow> tr_deny t = tr_deny u)"
proof -
  define v where "v = evaluate_group_access regex permissions requested groups (Some page) aliases True"
  define rs where "rs = applicable_rules regex aliases requested page groups"
  define s where "s = fold apply_page_rule rs initial_rule_state"
  define tr where "tr = snd (fold_groups regex aliases requested page groups (initial_rule_state, []))"
  have s: "fst (fold_groups regex aliases requested page groups (initial_rule_state, [])) = s"
    by (simp add: fst_fold_groups s_def rs_def)
  have rules: "va_rules v = map (mark_winner s) tr"
    using s by (simp add: v_def evaluate_group_access_def Let_def case_prod_beta tr_def)
  have keys: "trace_key ` set tr =
      (\<lambda>r. rule_key (rule_outcome regex aliases requested page r) r) ` (\<Union>g\<in>set groups. set (group_rules g))"
    unfolding tr_def by (rule trace_keys)
  have no_winner: "tr_outcome t \<noteq> Winner" if "t \<in> set tr" for t
  proof -
    from that have "trace_key t \<in> trace_key ` set tr" by blast
    then obtain r where "tr_outcome t = rule_outcome regex aliases requested page r"
      unfolding keys by (auto simp: trace_key_def rule_key_def)
    then show ?thesis by (simp add: rule_outcome_def)
  qed
  have deny: "tr_deny u = st_deny s" if "u \<in> set (va_rules v)" "tr_outcome u = Winner" for u
    using that no_winner by (auto simp: rules mark_winner_def split: if_splits)
  have allowed: "va_allowed v \<longleftrightarrow> st_match s \<noteq> None \<and> \<not> st_deny s"
    using assms by (simp add: v_def va_allowed_page s_def rs_def Let_def)
  have "va_allowed v \<longleftrightarrow> (\<exists>t\<in>set (va_rules v). tr_outcome t = Winner \<and> \<not> tr_deny t)"
  proof
    assume "va_allowed v"
    with allowed have sm: "st_match s \<noteq> None" "\<not> st_deny s" by auto
    with fold_apply_cases [of rs] obtain w where w: "w \<in> set rs" "s = state_of_rule w"
      by (auto simp: s_def)
    then have "rule_key Overridden w \<in> trace_key ` set tr"
      unfolding keys by (intro image_eqI [of _ _ w]) (auto simp: rs_def applicable_rules_def)
    then obtain t where t: "t \<in> set tr" "trace_key t = rule_key Overridden w" by auto
    then have "tr_outcome (mark_winner s t) = Winner" "tr_deny (mark_winner s t) = st_deny s"
      using w(2) by (simp_all add: mark_winner_def trace_key_def rule_key_def)
    with t(1) sm show "\<exists>t\<in>set (va_rules v). tr_outcome t = Winner \<and> \<not> tr_deny t"
      by (auto simp: rules)
  next
    assume "\<exists>t\<in>set (va_rules v). tr_outcome t = Winner \<and> \<not> tr_deny t"
    then obtain t where t: "t \<in> set tr" "tr_outcome (mark_winner s t) = Winner" "\<not> tr_deny (mark_winner s t)"
      by (auto simp: rules)
    with no_winner [OF t(1)] have "st_match s \<noteq> None" "\<not> st_deny s"
      by (auto simp: mark_winner_def split: if_splits)
    with allowed show "va_allowed v" by simp
  qed
  with deny show ?thesis unfolding Let_def v_def [symmetric] by blast
qed

theorem page_rule_trace_explains_witness:
  "let r = \<lparr>rule_id = None, rule_match = START, rule_path = ''docs'', rule_deny = False, rule_roles = [''read:pages''], rule_locales = None\<rparr>;
       v = evaluate_group_access (\<lambda>_. None) [''read:pages''] [''read:pages'']
             [\<lparr>group_id = 1, group_name = None, group_permissions = None, group_rules = [r]\<rparr>]
             (Some \<lparr>page_path = ''docs/a'', page_locale = None, page_tags = None\<rparr>) Map.empty True
   in va_allowed v \<longleftrightarrow> (\<exists>t\<in>set (va_rules v). tr_outcome t = Winner \<and> \<not> tr_deny t)"
  unfolding Let_def
  by (rule page_rule_trace_explains [unfolded Let_def, THEN conjunct1]) (simp_all add: has_permission_def)

end
