(* ===== verification/Tables.thy ===== *)
theory Tables
  imports Prelude
begin

text \<open>
  The query builder's operations on one table, as far as the modelled code uses them. A
  table is the list of its rows. \<open>select\<close>, \<open>first\<close>, \<open>update\<close> and \<open>delete\<close> take
  the row predicate of their \<^verbatim>\<open>where\<close> clauses; an update also returns the number of
  rows it changed, which the source compares with 1 as its concurrency fence.
\<close>

definition sql_first :: "('r \<Rightarrow> bool) \<Rightarrow> 'r list \<Rightarrow> 'r option" where
  "sql_first p rows = List.find p rows"

definition sql_update :: "('r \<Rightarrow> bool) \<Rightarrow> ('r \<Rightarrow> 'r) \<Rightarrow> 'r list \<Rightarrow> 'r list" where
  "sql_update p f rows = map (\<lambda>r. if p r then f r else r) rows"

definition sql_count :: "('r \<Rightarrow> bool) \<Rightarrow> 'r list \<Rightarrow> nat" where
  "sql_count p rows = length (filter p rows)"

definition sql_insert :: "'r \<Rightarrow> 'r list \<Rightarrow> 'r list" where
  "sql_insert r rows = rows @ [r]"

definition sql_delete :: "('r \<Rightarrow> bool) \<Rightarrow> 'r list \<Rightarrow> 'r list" where
  "sql_delete p rows = filter (\<lambda>r. \<not> p r) rows"

lemma sql_first_SomeD: "sql_first p rows = Some r \<Longrightarrow> p r \<and> r \<in> set rows"
  by (simp add: sql_first_def find_Some_iff2)

lemma sql_first_None: "sql_first p rows = None \<longleftrightarrow> (\<forall>r\<in>set rows. \<not> p r)"
  by (auto simp: sql_first_def find_None_iff)

lemma sql_first_Cons [table_simps]:
  "sql_first p [] = None"
  "sql_first p (r # rows) = (if p r then Some r else sql_first p rows)"
  by (simp_all add: sql_first_def)

lemma sql_first_append: "sql_first p (xs @ ys) = (case sql_first p xs of None \<Rightarrow> sql_first p ys | Some x \<Rightarrow> Some x)"
  by (induction xs) (simp_all add: sql_first_Cons)

lemma sql_update_Cons [table_simps]:
  "sql_update p f [] = []"
  "sql_update p f (r # rows) = (if p r then f r else r) # sql_update p f rows"
  by (simp_all add: sql_update_def)

lemma sql_count_Cons [table_simps]:
  "sql_count p [] = 0"
  "sql_count p (r # rows) = (if p r then Suc (sql_count p rows) else sql_count p rows)"
  by (simp_all add: sql_count_def)

lemma set_sql_insert [simp]: "set (sql_insert r rows) = insert r (set rows)"
  by (simp add: sql_insert_def)

lemma set_sql_delete [simp]: "set (sql_delete p rows) = {r \<in> set rows. \<not> p r}"
  by (simp add: sql_delete_def)

lemma set_sql_updateD:
  "r' \<in> set (sql_update p f rows) \<Longrightarrow> \<exists>r\<in>set rows. r' = (if p r then f r else r)"
  by (auto simp: sql_update_def)

lemma set_sql_update: "set (sql_update p f rows) = (\<lambda>r. if p r then f r else r) ` set rows"
  by (simp add: sql_update_def)

lemma length_sql_update [simp]: "length (sql_update p f rows) = length rows"
  by (simp add: sql_update_def)

lemma sql_update_none: "(\<And>r. r \<in> set rows \<Longrightarrow> \<not> p r) \<Longrightarrow> sql_update p f rows = rows"
  by (simp add: sql_update_def map_idI)

lemma sql_count_none: "(\<And>r. r \<in> set rows \<Longrightarrow> \<not> p r) \<Longrightarrow> sql_count p rows = 0"
  by (simp add: sql_count_def filter_empty_conv)

lemma sql_first_none: "(\<And>r. r \<in> set rows \<Longrightarrow> \<not> p r) \<Longrightarrow> sql_first p rows = None"
  by (simp add: sql_first_None)

lemma ball_sql_update:
  "\<forall>r\<in>set rows. P r \<Longrightarrow> (\<And>r. r \<in> set rows \<Longrightarrow> p r \<Longrightarrow> P r \<Longrightarrow> P (f r)) \<Longrightarrow>
   \<forall>r\<in>set (sql_update p f rows). P r"
  by (auto simp: sql_update_def)

text \<open>
  Columns an update does not write keep their values in every row; in particular a
  primary key stays unique.
\<close>

lemma map_sql_update: "(\<And>r. g (f r) = g r) \<Longrightarrow> map g (sql_update p f rows) = map g rows"
  by (simp add: sql_update_def)

lemma image_sql_update: "(\<And>r. g (f r) = g r) \<Longrightarrow> g ` set (sql_update p f rows) = g ` set rows"
  using map_sql_update [of g f p rows] by (metis set_map)

definition unique_key :: "('r \<Rightarrow> 'k) \<Rightarrow> 'r list \<Rightarrow> bool" where
  "unique_key k rows = distinct (map k rows)"

lemma unique_key_update: "unique_key k rows \<Longrightarrow> (\<And>r. k (f r) = k r) \<Longrightarrow> unique_key k (sql_update p f rows)"
  by (simp add: unique_key_def map_sql_update)

lemma unique_key_insert:
  "unique_key k rows \<Longrightarrow> k r \<notin> k ` set rows \<Longrightarrow> unique_key k (sql_insert r rows)"
  by (auto simp: unique_key_def sql_insert_def)

lemma unique_key_delete: "unique_key k rows \<Longrightarrow> unique_key k (sql_delete p rows)"
  by (auto simp: unique_key_def sql_delete_def distinct_map_filter)

lemma unique_keyD: "unique_key k rows \<Longrightarrow> r \<in> set rows \<Longrightarrow> r' \<in> set rows \<Longrightarrow> k r = k r' \<Longrightarrow> r = r'"
  by (auto simp: unique_key_def distinct_map inj_on_def)

text \<open>An update fenced by the primary key and any further condition touches one row at most.\<close>

lemma sql_count_unique:
  assumes u: "unique_key k rows" and p: "\<And>r. p r \<Longrightarrow> k r = key"
  shows "sql_count p rows \<le> 1"
  using u
proof (induction rows)
  case (Cons r rows)
  then have IH: "sql_count p rows \<le> 1" and nk: "k r \<notin> k ` set rows"
    by (simp_all add: unique_key_def)
  have "sql_count p rows = 0" if "p r"
  proof -
    from p [OF that] nk p have "\<forall>r'\<in>set rows. \<not> p r'" by (metis image_eqI)
    then show ?thesis by (simp add: sql_count_def filter_empty_conv)
  qed
  with IH show ?case by (simp add: table_simps)
qed (simp add: sql_count_def)

lemma sql_count_one_iff:
  assumes u: "unique_key k rows" and p: "\<And>r. p r \<Longrightarrow> k r = key"
  shows "sql_count p rows = 1 \<longleftrightarrow> (\<exists>r\<in>set rows. p r)"
proof -
  have "sql_count p rows \<noteq> 0 \<longleftrightarrow> (\<exists>r\<in>set rows. p r)"
    by (simp add: sql_count_def filter_empty_conv)
  moreover have "sql_count p rows \<le> 1" by (rule sql_count_unique [OF u p])
  ultimately show ?thesis by linarith
qed

lemma sql_count_pos: "0 < sql_count p rows \<longleftrightarrow> (\<exists>r\<in>set rows. p r)"
  by (auto simp: sql_count_def filter_empty_conv)

lemma sql_first_unique:
  assumes u: "unique_key k rows" and r: "r \<in> set rows" "p r" and p: "\<And>r. p r \<Longrightarrow> k r = key"
  shows "sql_first p rows = Some r"
proof -
  from r obtain r' where r': "sql_first p rows = Some r'"
    by (cases "sql_first p rows") (auto simp: sql_first_None)
  from sql_first_SomeD [OF r'] have "p r'" "r' \<in> set rows" by auto
  with unique_keyD [OF u _ r(1)] p r(2) have "r' = r" by metis
  with r' show ?thesis by simp
qed

text \<open>Sums of a column, for the counters that several tables keep in agreement.\<close>

definition sql_sum :: "('r \<Rightarrow> bool) \<Rightarrow> ('r \<Rightarrow> int) \<Rightarrow> 'r list \<Rightarrow> int" where
  "sql_sum p g rows = sum_list (map g (filter p rows))"

lemma sql_sum_simps [table_simps]:
  "sql_sum p g [] = 0"
  "sql_sum p g (r # rows) = (if p r then g r else 0) + sql_sum p g rows"
  by (simp_all add: sql_sum_def)

lemma sql_sum_insert [simp]: "sql_sum p g (sql_insert r rows) = sql_sum p g rows + (if p r then g r else 0)"
  by (simp add: sql_sum_def sql_insert_def)

lemma sql_sum_update_same:
  "(\<And>r. r \<in> set rows \<Longrightarrow> q r \<Longrightarrow> (if p (f r) then g (f r) else 0) = (if p r then g r else 0)) \<Longrightarrow>
   sql_sum p g (sql_update q f rows) = sql_sum p g rows"
proof (induction rows)
  case (Cons a rows)
  from Cons.IH Cons.prems have "sql_sum p g (sql_update q f rows) = sql_sum p g rows" by simp
  with Cons.prems [of a] show ?case by (cases "q a") (simp_all add: table_simps)
qed (simp add: table_simps)

lemma sql_sum_nonneg: "(\<And>r. r \<in> set rows \<Longrightarrow> p r \<Longrightarrow> 0 \<le> g r) \<Longrightarrow> 0 \<le> sql_sum p g rows"
  unfolding sql_sum_def by (rule sum_list_nonneg) auto

lemma sql_sum_member_le:
  assumes "r \<in> set rows" "p r" "\<And>r. r \<in> set rows \<Longrightarrow> p r \<Longrightarrow> 0 \<le> g r"
  shows "g r \<le> sql_sum p g rows"
  using assms
proof (induction rows)
  case (Cons a rows)
  then have nn: "0 \<le> sql_sum p g rows" by (auto intro: sql_sum_nonneg)
  show ?case
  proof (cases "r = a")
    case True
    with Cons.prems(2) nn show ?thesis by (simp add: table_simps)
  next
    case False
    with Cons.prems have "g r \<le> sql_sum p g rows" by (intro Cons.IH) auto
    with Cons.prems(3) [of a] show ?thesis by (fastforce simp: table_simps)
  qed
qed simp

text \<open>An update of the one row with a given key changes the sum by that row's difference.\<close>

lemma sql_sum_update_key:
  assumes u: "unique_key k rows" and r: "r \<in> set rows" "q r" and q: "\<And>r'. q r' \<Longrightarrow> k r' = k r"
  shows "sql_sum p g (sql_update q f rows) =
    sql_sum p g rows - (if p r then g r else 0) + (if p (f r) then g (f r) else 0)"
  using u r
proof (induction rows)
  case (Cons a rows)
  from Cons.prems(1) have nk: "k a \<notin> k ` set rows" and u': "unique_key k rows"
    by (simp_all add: unique_key_def)
  show ?case
  proof (cases "a = r")
    case True
    have nq: "\<not> q r'" if "r' \<in> set rows" for r'
      using nk that q [of r'] True by (metis image_eqI)
    have "sql_sum p g (sql_update q f rows) = sql_sum p g rows"
      by (rule sql_sum_update_same) (simp add: nq)
    with True Cons.prems(3) show ?thesis by (simp add: table_simps)
  next
    case False
    with Cons.prems(2) have "r \<in> set rows" by simp
    with Cons.IH [OF u' this Cons.prems(3)] have
      "sql_sum p g (sql_update q f rows) =
        sql_sum p g rows - (if p r then g r else 0) + (if p (f r) then g (f r) else 0)" by simp
    moreover have "\<not> q a"
      using nk \<open>r \<in> set rows\<close> q [of a] by (metis image_eqI)
    ultimately show ?thesis by (simp add: table_simps)
  qed
qed simp

end
