(* ===== verification/DurableJobs.thy ===== *)
theory DurableJobs
  imports Tables "HOL-Library.List_Lexorder" "HOL-Library.Char_ord" "HOL-Library.Product_Lexorder"
begin

text \<open>
  The durable job store (\<^verbatim>\<open>server/core/durable-jobs.ts\<close>): a table of jobs that workers
  claim under a lease, extend, complete, fail and retry. Every statement of the store is
  one atomic update of the table, fenced by the lease token; the model keeps each of them
  as an operation of its own, so that operations of different workers may interleave.

  Identifiers and tokens that \<^verbatim>\<open>randomUUID()\<close> draws are arguments. A payload is the parsed
  JSON value. The time argument of each operation is its \<^verbatim>\<open>now\<close>.
\<close>

datatype job_state = Pending | Running | Succeeded | Failed | Cancelled

record job_row =
  job_id :: string
  job_type :: string
  job_version :: int
  job_payload :: js_value
  job_state :: job_state
  job_attempts :: int
  job_max_attempts :: int
  job_next_run :: int
  job_lease_owner :: "string option"
  job_lease_token :: "string option"
  job_lease_expires :: "int option"
  job_last_error :: "string option"
  job_dedup_key :: "string option"
  job_created :: int
  job_updated :: int
  job_completed :: "int option"

text \<open>The in-memory job adds the attempts before the claim, for retained storage jobs.\<close>

record claimed_job =
  cj_row :: job_row
  cj_before :: "int option"

text \<open>The errors a handler ends with; a deferral carries its contention flag.\<close>

datatype job_error = Deferral bool string | Handler_error string

definition is_retained :: "job_row \<Rightarrow> bool" where
  "is_retained job = (job_type job = ''storage-mutation'' \<and> (job_version job = 1 \<or> job_version job = 2))"

definition default_lease_ms :: int where
  "default_lease_ms = 30000"

definition default_retry_delay :: "int \<Rightarrow> int" where
  "default_retry_delay attempt = min 300000 (1000 * 2 ^ nat (max 0 (attempt - 1)))"

definition exhausted_lease_error :: string where
  "exhausted_lease_error = ''Durable job lease expired after its final allowed attempt''"

section \<open>Job types and identities\<close>

definition is_type_char :: "char \<Rightarrow> bool" where
  "is_type_char c = (let n = of_char c :: nat in (97 \<le> n \<and> n \<le> 122) \<or> (48 \<le> n \<and> n \<le> 57))"

text \<open>\<^verbatim>\<open>/^[a-z0-9]+(?:-[a-z0-9]+)*$/\<close>, with a flag for "the segment has a character".\<close>

fun valid_type_from :: "bool \<Rightarrow> string \<Rightarrow> bool" where
  "valid_type_from started [] = started"
| "valid_type_from started (c # cs) =
     (if is_type_char c then valid_type_from True cs
      else if c = CHR ''-'' then started \<and> valid_type_from False cs
      else False)"

definition valid_job_type :: "string \<Rightarrow> bool" where
  "valid_job_type s = valid_type_from False s"

fun decimal_value :: "nat \<Rightarrow> string \<Rightarrow> nat" where
  "decimal_value acc [] = acc"
| "decimal_value acc (c # cs) = decimal_value (10 * acc + (of_char c - 48)) cs"

text \<open>One step of \<^verbatim>\<open>parseSupportedIdentities\<close>: \<open>type@version\<close>, or nothing.\<close>

definition parse_identity :: "string \<Rightarrow> (string \<times> int) option" where
  "parse_identity s =
     (let ty = takeWhile (\<lambda>c. c \<noteq> CHR ''@'') s;
          rest = dropWhile (\<lambda>c. c \<noteq> CHR ''@'') s
      in case rest of
           [] \<Rightarrow> None
         | _ # digits \<Rightarrow>
             if valid_job_type ty \<and> positive_decimal digits
                \<and> safe_int (int (decimal_value 0 digits))
             then Some (ty, int (decimal_value 0 digits)) else None)"

definition parse_supported_identities :: "string list option \<Rightarrow> (string \<times> int) list option" where
  "parse_supported_identities ids = map_option (List.map_filter parse_identity) ids"

definition supported :: "(string \<times> int) list option \<Rightarrow> job_row \<Rightarrow> bool" where
  "supported s r = (case s of None \<Rightarrow> True | Some ids \<Rightarrow> (job_type r, job_version r) \<in> set ids)"

definition deserialize_job :: "job_row \<Rightarrow> job_row result" where
  "deserialize_job row = (if js_is_record (job_payload row) then Inr row else Inl Type_error)"

section \<open>Operations\<close>

record enqueue_input =
  en_type :: string
  en_version :: js_num
  en_payload :: js_value
  en_max_attempts :: "js_num option"
  en_next_run :: "int option"
  en_dedup_key :: "string option"

definition whole :: "js_num \<Rightarrow> int" where
  "whole n = (case n of Whole i \<Rightarrow> i | Not_whole \<Rightarrow> 0)"

definition new_job :: "string \<Rightarrow> int \<Rightarrow> enqueue_input \<Rightarrow> job_row" where
  "new_job uuid now input =
     \<lparr>job_id = uuid, job_type = en_type input, job_version = whole (en_version input),
      job_payload = en_payload input, job_state = Pending, job_attempts = 0,
      job_max_attempts = whole (option_or (en_max_attempts input) (Whole 5)),
      job_next_run = option_or (en_next_run input) now,
      job_lease_owner = None, job_lease_token = None, job_lease_expires = None,
      job_last_error = None, job_dedup_key = en_dedup_key input,
      job_created = now, job_updated = now, job_completed = None\<rparr>"

text \<open>
  An empty deduplication key is falsy: the row is inserted with the key as given, and the
  unique index of the column refuses a second one. The insert is not rolled back when the
  row that is read back does not deserialise.
\<close>

definition enqueue :: "string \<Rightarrow> int \<Rightarrow> enqueue_input \<Rightarrow> job_row list \<Rightarrow> job_row result \<times> job_row list" where
  "enqueue uuid now input rows =
     (let max_attempts = option_or (en_max_attempts input) (Whole 5);
          row = new_job uuid now input;
          taken = (\<exists>r\<in>set rows. en_dedup_key input \<noteq> None \<and> job_dedup_key r = en_dedup_key input)
      in if \<not> valid_job_type (en_type input) then (Inl Type_error, rows)
         else if \<not> is_safe_integer (en_version input) \<or> whole (en_version input) < 1 then (Inl Type_error, rows)
         else if \<not> is_safe_integer max_attempts \<or> whole max_attempts < 1 \<or> whole max_attempts > 100 then (Inl Type_error, rows)
         else if en_dedup_key input = None \<or> en_dedup_key input = Some [] then
           (if taken then (Inl Plain_error, rows) else (deserialize_job row, sql_insert row rows))
         else
           let rows' = (if taken then rows else sql_insert row rows)
           in case sql_first (\<lambda>r. job_dedup_key r = en_dedup_key input) rows' of
                None \<Rightarrow> (Inl Plain_error, rows')
              | Some stored \<Rightarrow> (deserialize_job stored, rows'))"

text \<open>\<^verbatim>\<open>applyEligiblePredicate\<close>\<close>

definition lease_expired :: "int \<Rightarrow> job_row \<Rightarrow> bool" where
  "lease_expired now r = (case job_lease_expires r of None \<Rightarrow> False | Some e \<Rightarrow> e \<le> now)"

definition eligible :: "int \<Rightarrow> job_row \<Rightarrow> bool" where
  "eligible now r = (job_next_run r \<le> now
     \<and> (job_attempts r < job_max_attempts r \<or> is_retained r)
     \<and> (job_state r = Pending \<or> (job_state r = Running \<and> lease_expired now r)))"

text \<open>The sweep at the start of a claim: expired leases of jobs with no attempt left.\<close>

definition sweep_exhausted :: "int \<Rightarrow> (string \<times> int) list option \<Rightarrow> job_row list \<Rightarrow> job_row list" where
  "sweep_exhausted now supp rows =
     sql_update (\<lambda>r. job_state r = Running \<and> lease_expired now r \<and> job_attempts r \<ge> job_max_attempts r
                   \<and> \<not> is_retained r \<and> supported supp r)
       (\<lambda>r. r\<lparr>job_state := Failed, job_lease_owner := None, job_lease_token := None,
              job_lease_expires := None, job_last_error := Some exhausted_lease_error,
              job_completed := Some now, job_updated := now\<rparr>) rows"

text \<open>The fenced update that claims one candidate, and the row read back.\<close>

definition claim_attempts :: "job_row \<Rightarrow> int" where
  "claim_attempts r = (if is_retained r \<and> job_attempts r \<ge> job_max_attempts r
                       then job_max_attempts r else job_attempts r + 1)"

definition claim_one ::
  "string \<Rightarrow> string \<Rightarrow> int \<Rightarrow> int \<Rightarrow> (string \<times> int) list option \<Rightarrow> job_row \<Rightarrow>
   job_row list \<Rightarrow> claimed_job option result \<times> job_row list"
where
  "claim_one worker token lease_expires now supp candidate rows =
     (let p = (\<lambda>r. job_id r = job_id candidate \<and> eligible now r
                 \<and> (is_retained candidate \<longrightarrow> job_attempts r = job_attempts candidate)
                 \<and> supported supp r);
          rows' = sql_update p (\<lambda>r. r\<lparr>job_state := Running, job_lease_owner := Some worker,
                     job_lease_token := Some token, job_lease_expires := Some lease_expires,
                     job_attempts := claim_attempts r, job_updated := now\<rparr>) rows
      in if sql_count p rows \<noteq> 1 then (Inr None, rows')
         else case sql_first (\<lambda>r. job_id r = job_id candidate \<and> job_lease_owner r = Some worker
                                \<and> job_lease_token r = Some token) rows' of
                None \<Rightarrow> (Inr None, rows')
              | Some row \<Rightarrow>
                  (rbind (deserialize_job row) (\<lambda>job.
                     Inr (Some \<lparr>cj_row = job,
                                cj_before = (if is_retained job then Some (job_attempts candidate) else None)\<rparr>)), rows'))"

text \<open>The loop over the candidates; \<open>uuid i\<close> is the token drawn for the i-th of them.\<close>

fun claim_loop ::
  "string \<Rightarrow> (nat \<Rightarrow> string) \<Rightarrow> int \<Rightarrow> int \<Rightarrow> (string \<times> int) list option \<Rightarrow> nat \<Rightarrow> nat \<Rightarrow>
   job_row list \<Rightarrow> claimed_job list \<Rightarrow> job_row list \<Rightarrow> claimed_job list result \<times> job_row list"
where
  "claim_loop worker uuid lease_expires now supp limit i [] claimed rows = (Inr claimed, rows)"
| "claim_loop worker uuid lease_expires now supp limit i (c # cs) claimed rows =
     (if length claimed \<ge> limit then (Inr claimed, rows)
      else case claim_one worker (uuid i) lease_expires now supp c rows of
             (Inl e, rows') \<Rightarrow> (Inl e, rows')
           | (Inr None, rows') \<Rightarrow>
               claim_loop worker uuid lease_expires now supp limit (Suc i) cs claimed rows'
           | (Inr (Some job), rows') \<Rightarrow>
               claim_loop worker uuid lease_expires now supp limit (Suc i) cs (claimed @ [job]) rows')"

definition claim_order :: "job_row \<Rightarrow> int \<times> string" where
  "claim_order r = (job_next_run r, job_id r)"

definition claim_candidates :: "int \<Rightarrow> (string \<times> int) list option \<Rightarrow> nat \<Rightarrow> job_row list \<Rightarrow> job_row list" where
  "claim_candidates now supp limit rows =
     take (limit * 3) (sort_key claim_order (filter (\<lambda>r. eligible now r \<and> supported supp r) rows))"

record claim_input =
  cl_worker :: string
  cl_limit :: "js_num option"
  cl_lease_ms :: "js_num option"
  cl_supported :: "string list option"

definition claim ::
  "(nat \<Rightarrow> string) \<Rightarrow> int \<Rightarrow> claim_input \<Rightarrow> job_row list \<Rightarrow> claimed_job list result \<times> job_row list" where
  "claim uuid now input rows =
     (let limit = option_or (cl_limit input) (Whole 10);
          lease_ms = option_or (cl_lease_ms input) (Whole default_lease_ms);
          supp = parse_supported_identities (cl_supported input)
      in if cl_worker input = [] \<or> length (cl_worker input) > 128 then (Inl Type_error, rows)
         else if \<not> is_safe_integer limit \<or> whole limit < 1 \<or> whole limit > 100 then (Inl Type_error, rows)
         else if \<not> is_safe_integer lease_ms \<or> whole lease_ms < 1000 \<or> whole lease_ms > 3600000 then (Inl Type_error, rows)
         else
           let rows' = sweep_exhausted now supp rows
           in claim_loop (cl_worker input) uuid (now + whole lease_ms) now supp (nat (whole limit)) 0
                (claim_candidates now supp (nat (whole limit)) rows') [] rows')"

text \<open>The \<^verbatim>\<open>where\<close> clause that fences extension, completion and failure.\<close>

definition holds_lease :: "claimed_job \<Rightarrow> int \<Rightarrow> job_row \<Rightarrow> bool" where
  "holds_lease job now r = (let j = cj_row job in
     job_id r = job_id j \<and> job_type r = job_type j \<and> job_version r = job_version j
     \<and> job_lease_owner r = job_lease_owner j \<and> job_lease_token r = job_lease_token j
     \<and> job_state r = Running
     \<and> (is_retained j \<longrightarrow> (case job_lease_expires r of None \<Rightarrow> False | Some e \<Rightarrow> now < e)))"

definition fenced :: "claimed_job \<Rightarrow> int \<Rightarrow> (job_row \<Rightarrow> job_row) \<Rightarrow> job_row list \<Rightarrow> bool \<times> job_row list" where
  "fenced job now f rows =
     (if job_lease_token (cj_row job) = None \<or> job_lease_token (cj_row job) = Some [] then (False, rows)
      else (sql_count (holds_lease job now) rows = 1, sql_update (holds_lease job now) f rows))"

definition extend_lease :: "claimed_job \<Rightarrow> int \<Rightarrow> int \<Rightarrow> job_row list \<Rightarrow> bool \<times> job_row list" where
  "extend_lease job lease_ms now =
     fenced job now (\<lambda>r. r\<lparr>job_lease_expires := Some (now + lease_ms), job_updated := now\<rparr>)"

definition complete :: "claimed_job \<Rightarrow> int \<Rightarrow> job_row list \<Rightarrow> bool \<times> job_row list" where
  "complete job now =
     fenced job now (\<lambda>r. r\<lparr>job_state := Succeeded, job_lease_owner := None, job_lease_token := None,
       job_lease_expires := None, job_last_error := None, job_completed := Some now, job_updated := now\<rparr>)"

definition error_message :: "job_error \<Rightarrow> string" where
  "error_message e = take 8000 (case e of Deferral _ m \<Rightarrow> m | Handler_error m \<Rightarrow> m)"

text \<open>The columns \<^verbatim>\<open>fail\<close> writes, and the fenced write.\<close>

definition fail_row :: "claimed_job \<Rightarrow> job_error \<Rightarrow> (int \<Rightarrow> int) \<Rightarrow> int \<Rightarrow> job_row \<Rightarrow> job_row" where
  "fail_row job err retry_delay now r =
     (let j = cj_row job;
          contention = (case err of Deferral c _ \<Rightarrow> c | Handler_error _ \<Rightarrow> False);
          deferred = (is_retained j \<and> (case err of Deferral _ _ \<Rightarrow> True | Handler_error _ \<Rightarrow> False));
          terminal = (\<not> deferred \<and> job_attempts j \<ge> job_max_attempts j);
          delay = (if terminal then 0 else if deferred \<and> contention then 1000 else retry_delay (job_attempts j));
          bounded_delay = (if deferred then min 300000 (max 1000 delay) else delay)
      in r\<lparr>job_state := (if terminal then Failed else Pending),
           job_attempts := (if deferred \<and> contention
              then max 0 (min (job_attempts j) (option_or (cj_before job) (job_attempts j - 1)))
              else job_attempts r),
           job_lease_owner := None, job_lease_token := None, job_lease_expires := None,
           job_last_error := Some (error_message err),
           job_next_run := (if terminal then job_next_run j else now + bounded_delay),
           job_completed := (if terminal then Some now else None),
           job_updated := now\<rparr>)"

definition fail :: "claimed_job \<Rightarrow> job_error \<Rightarrow> (int \<Rightarrow> int) \<Rightarrow> int \<Rightarrow> job_row list \<Rightarrow> bool \<times> job_row list" where
  "fail job err retry_delay now = fenced job now (fail_row job err retry_delay now)"

definition cancel :: "string \<Rightarrow> int \<Rightarrow> job_row list \<Rightarrow> bool \<times> job_row list" where
  "cancel jid now rows =
     (let p = (\<lambda>r. job_id r = jid \<and> (job_state r = Pending \<or> job_state r = Running) \<and> \<not> is_retained r)
      in (sql_count p rows = 1,
          sql_update p (\<lambda>r. r\<lparr>job_state := Cancelled, job_lease_owner := None, job_lease_token := None,
            job_lease_expires := None, job_completed := Some now, job_updated := now\<rparr>) rows))"

definition retry :: "string \<Rightarrow> int \<Rightarrow> job_row list \<Rightarrow> bool \<times> job_row list" where
  "retry jid now rows =
     (let p = (\<lambda>r. job_id r = jid \<and> job_state r = Failed)
      in (sql_count p rows = 1,
          sql_update p (\<lambda>r. r\<lparr>job_state := Pending, job_attempts := 0, job_next_run := now,
            job_lease_token := None, job_last_error := None, job_completed := None, job_updated := now\<rparr>) rows))"

definition get_job :: "string \<Rightarrow> job_row list \<Rightarrow> job_row option result" where
  "get_job jid rows = (case sql_first (\<lambda>r. job_id r = jid) rows of
     None \<Rightarrow> Inr None | Some r \<Rightarrow> rbind (deserialize_job r) (\<lambda>j. Inr (Some j)))"

section \<open>The store with its workers as a state machine\<close>

text \<open>
  The system is the table, the claims workers still hold in memory and the tokens drawn so
  far. A held claim may be stale in any way: its lease may have expired, another worker may
  have claimed the job since. Tokens and identifiers are fresh when drawn, the documented
  behaviour of \<^verbatim>\<open>randomUUID\<close>.
\<close>

record jobs_sys =
  tbl :: "job_row list"
  held :: "claimed_job list"
  spent :: "string list"

datatype job_event =
    Ev_enqueue | Ev_sweep | Ev_claim | Ev_extend | Ev_complete
  | Ev_fail job_error | Ev_cancel | Ev_retry

definition held_after :: "claimed_job option result \<Rightarrow> claimed_job list \<Rightarrow> claimed_job list" where
  "held_after res hs = (case res of Inr (Some j) \<Rightarrow> j # hs | _ \<Rightarrow> hs)"

inductive job_step :: "jobs_sys \<Rightarrow> job_event \<Rightarrow> jobs_sys \<Rightarrow> bool" where
  enqueue: "enqueue uuid now input (tbl s) = (res, rows) \<Longrightarrow> uuid \<notin> job_id ` set (tbl s) \<Longrightarrow>
     job_step s Ev_enqueue (s\<lparr>tbl := rows\<rparr>)"
| sweep: "job_step s Ev_sweep (s\<lparr>tbl := sweep_exhausted now supp (tbl s)\<rparr>)"
| claim: "claim_one worker token expires now supp candidate (tbl s) = (res, rows) \<Longrightarrow>
     token \<notin> set (spent s) \<Longrightarrow> token \<noteq> [] \<Longrightarrow>
     job_step s Ev_claim (s\<lparr>tbl := rows, held := held_after res (held s), spent := token # spent s\<rparr>)"
| extend: "job \<in> set (held s) \<Longrightarrow> extend_lease job ms now (tbl s) = (fl, rows) \<Longrightarrow>
     job_step s Ev_extend (s\<lparr>tbl := rows\<rparr>)"
| complete: "job \<in> set (held s) \<Longrightarrow> complete job now (tbl s) = (fl, rows) \<Longrightarrow>
     job_step s Ev_complete (s\<lparr>tbl := rows\<rparr>)"
| fail: "job \<in> set (held s) \<Longrightarrow> fail job err delay now (tbl s) = (fl, rows) \<Longrightarrow>
     job_step s (Ev_fail err) (s\<lparr>tbl := rows\<rparr>)"
| cancel: "cancel jid now (tbl s) = (fl, rows) \<Longrightarrow> job_step s Ev_cancel (s\<lparr>tbl := rows\<rparr>)"
| retry: "retry jid now (tbl s) = (fl, rows) \<Longrightarrow> job_step s Ev_retry (s\<lparr>tbl := rows\<rparr>)"

inductive_cases job_stepE: "job_step s ev t"

definition empty_jobs :: jobs_sys where
  "empty_jobs = \<lparr>tbl = [], held = [], spent = []\<rparr>"

inductive job_reachable :: "jobs_sys \<Rightarrow> bool" where
  start: "job_reachable empty_jobs"
| step: "job_reachable s \<Longrightarrow> job_step s ev t \<Longrightarrow> job_reachable t"

section \<open>Invariant\<close>

definition row_ok :: "job_row \<Rightarrow> bool" where
  "row_ok r \<longleftrightarrow> 0 \<le> job_attempts r \<and> job_attempts r \<le> job_max_attempts r \<and> 1 \<le> job_max_attempts r
     \<and> (job_state r = Running \<longleftrightarrow> job_lease_token r \<noteq> None)
     \<and> (job_state r = Running \<longleftrightarrow> job_lease_owner r \<noteq> None)
     \<and> (job_state r = Running \<longleftrightarrow> job_lease_expires r \<noteq> None)
     \<and> (job_completed r \<noteq> None \<longleftrightarrow> job_state r = Succeeded \<or> job_state r = Failed \<or> job_state r = Cancelled)"

definition agrees :: "claimed_job \<Rightarrow> job_row \<Rightarrow> bool" where
  "agrees h r = (let j = cj_row h in
     job_id r = job_id j \<and> job_lease_token r = job_lease_token j \<longrightarrow>
     job_attempts r = job_attempts j \<and> job_max_attempts r = job_max_attempts j)"

definition held_ok :: "string list \<Rightarrow> claimed_job \<Rightarrow> bool" where
  "held_ok toks h = (\<exists>t\<in>set toks. job_lease_token (cj_row h) = Some t)"

definition job_inv :: "jobs_sys \<Rightarrow> bool" where
  "job_inv s \<longleftrightarrow> unique_key job_id (tbl s)
     \<and> (\<forall>r\<in>set (tbl s). row_ok r)
     \<and> (\<forall>r\<in>set (tbl s). \<forall>t. job_lease_token r = Some t \<longrightarrow> t \<in> set (spent s))
     \<and> (\<forall>h\<in>set (held s). held_ok (spent s) h \<and> (\<forall>r\<in>set (tbl s). agrees h r))"

text \<open>
  One rule covers the operations that update rows in place: the update keeps the key and the
  row invariant, and afterwards a row has either no token or the one it had, with the same
  attempts.
\<close>

lemma job_inv_update:
  assumes inv: "job_inv s" and id: "\<And>r. job_id (f r) = job_id r"
    and ok: "\<And>r. r \<in> set (tbl s) \<Longrightarrow> p r \<Longrightarrow> row_ok r \<Longrightarrow> row_ok (f r)"
    and tok: "\<And>r. r \<in> set (tbl s) \<Longrightarrow> p r \<Longrightarrow> job_lease_token (f r) = None \<or>
      (job_lease_token (f r) = job_lease_token r \<and> job_attempts (f r) = job_attempts r
        \<and> job_max_attempts (f r) = job_max_attempts r)"
  shows "job_inv (s\<lparr>tbl := sql_update p f (tbl s)\<rparr>)"
proof -
  have u: "unique_key job_id (sql_update p f (tbl s))"
    using inv by (auto simp: job_inv_def intro: unique_key_update id)
  have rows: "\<exists>q\<in>set (tbl s). r = (if p q then f q else q)" if "r \<in> set (sql_update p f (tbl s))" for r
    using that by (rule set_sql_updateD)
  have "row_ok r" if "r \<in> set (sql_update p f (tbl s))" for r
    using rows [OF that] inv ok by (auto simp: job_inv_def split: if_splits)
  moreover have "t \<in> set (spent s)" if "r \<in> set (sql_update p f (tbl s))" "job_lease_token r = Some t" for r t
    using rows [OF that(1)] that(2) inv tok by (fastforce simp: job_inv_def split: if_splits)
  moreover have "agrees h r" if "r \<in> set (sql_update p f (tbl s))" "h \<in> set (held s)" for h r
  proof -
    from rows [OF that(1)] obtain q where q: "q \<in> set (tbl s)" "r = (if p q then f q else q)" by blast
    have h: "held_ok (spent s) h" and a: "agrees h q" using inv that(2) q(1) by (auto simp: job_inv_def)
    then have "job_lease_token (cj_row h) \<noteq> None" by (auto simp: held_ok_def)
    with a q tok [OF q(1)] id show ?thesis by (auto simp: agrees_def Let_def)
  qed
  ultimately show ?thesis using u inv by (simp add: job_inv_def)
qed

lemma fenced_inv:
  assumes inv: "job_inv s" and res: "fenced job now f (tbl s) = (fl, rows)"
    and id: "\<And>r. job_id (f r) = job_id r"
    and ok: "\<And>r. r \<in> set (tbl s) \<Longrightarrow> holds_lease job now r \<Longrightarrow> row_ok r \<Longrightarrow> row_ok (f r)"
    and tok: "\<And>r. r \<in> set (tbl s) \<Longrightarrow> holds_lease job now r \<Longrightarrow> job_lease_token (f r) = None \<or>
      (job_lease_token (f r) = job_lease_token r \<and> job_attempts (f r) = job_attempts r
        \<and> job_max_attempts (f r) = job_max_attempts r)"
  shows "job_inv (s\<lparr>tbl := rows\<rparr>)"
proof (cases "rows = tbl s")
  case True
  with inv show ?thesis by simp
next
  case False
  with res have "rows = sql_update (holds_lease job now) f (tbl s)"
    by (auto simp: fenced_def split: if_splits)
  with job_inv_update [OF inv id ok tok] show ?thesis by simp
qed

lemma enqueue_rows:
  assumes "enqueue uuid now input rows = (res, rows')"
  shows "rows' = rows \<or> (rows' = sql_insert (new_job uuid now input) rows \<and>
    1 \<le> job_max_attempts (new_job uuid now input))"
  using assms
  by (auto simp: enqueue_def new_job_def Let_def split: if_splits option.splits)

lemma enqueue_inv:
  assumes inv: "job_inv s" and res: "enqueue uuid now input (tbl s) = (res, rows)"
    and fresh: "uuid \<notin> job_id ` set (tbl s)"
  shows "job_inv (s\<lparr>tbl := rows\<rparr>)"
  using enqueue_rows [OF res]
proof
  assume "rows = tbl s"
  with inv show ?thesis by simp
next
  assume new: "rows = sql_insert (new_job uuid now input) (tbl s) \<and>
    1 \<le> job_max_attempts (new_job uuid now input)"
  then have "row_ok (new_job uuid now input)" by (auto simp: row_ok_def new_job_def)
  moreover have "agrees h (new_job uuid now input)" if "h \<in> set (held s)" for h
    using inv that by (auto simp: job_inv_def held_ok_def agrees_def new_job_def Let_def)
  moreover have "unique_key job_id rows"
    using inv new fresh by (auto simp: job_inv_def new_job_def intro!: unique_key_insert)
  ultimately show ?thesis using inv new by (auto simp: job_inv_def new_job_def)
qed

lemma deserialize_job_Inr: "deserialize_job r = Inr j \<Longrightarrow> j = r"
  by (simp add: deserialize_job_def split: if_splits)

definition claimed_row :: "string \<Rightarrow> string \<Rightarrow> int \<Rightarrow> int \<Rightarrow> job_row \<Rightarrow> job_row" where
  "claimed_row worker token expires now r =
     r\<lparr>job_state := Running, job_lease_owner := Some worker, job_lease_token := Some token,
       job_lease_expires := Some expires, job_attempts := claim_attempts r, job_updated := now\<rparr>"

definition claimable :: "int \<Rightarrow> (string \<times> int) list option \<Rightarrow> job_row \<Rightarrow> job_row \<Rightarrow> bool" where
  "claimable now supp candidate r = (job_id r = job_id candidate \<and> eligible now r
     \<and> (is_retained candidate \<longrightarrow> job_attempts r = job_attempts candidate) \<and> supported supp r)"

lemma claim_one_rows:
  "snd (claim_one worker token expires now supp c rows) =
   sql_update (claimable now supp c) (claimed_row worker token expires now) rows"
  by (auto simp: claim_one_def claimable_def [abs_def] claimed_row_def [abs_def] Let_def split: option.splits)

lemma claim_one_job:
  assumes "claim_one worker token expires now supp c rows = (Inr (Some job), rows')"
  shows "cj_row job \<in> set rows' \<and> job_lease_token (cj_row job) = Some token"
proof -
  define rs where "rs = snd (claim_one worker token expires now supp c rows)"
  from assms have rs: "rs = rows'" by (simp add: rs_def)
  from assms obtain row where
    row: "sql_first (\<lambda>r. job_id r = job_id c \<and> job_lease_owner r = Some worker \<and> job_lease_token r = Some token) rs = Some row"
    and job: "deserialize_job row = Inr (cj_row job)"
    by (simp add: claim_one_def rs_def Let_def split: if_splits option.splits)
      (auto simp: rbind_Inr_iff)
  from sql_first_SomeD [OF row] deserialize_job_Inr [OF job] rs show ?thesis by auto
qed

lemma claimed_row_ok: "row_ok r \<Longrightarrow> claimable now supp c r \<Longrightarrow> row_ok (claimed_row w t e now r)"
proof -
  assume ok: "row_ok r" and c: "claimable now supp c r"
  have e: "job_attempts r < job_max_attempts r \<or> is_retained r"
    using c by (simp add: claimable_def eligible_def)
  have s: "job_completed r = None" using ok c by (auto simp: row_ok_def claimable_def eligible_def)
  have b: "0 \<le> claim_attempts r \<and> claim_attempts r \<le> job_max_attempts r \<and> 1 \<le> job_max_attempts r"
    using ok e unfolding row_ok_def claim_attempts_def by (simp split: if_splits) linarith
  from b s show ?thesis by (simp add: row_ok_def claimed_row_def)
qed

lemma claim_inv:
  assumes inv: "job_inv s" and res: "claim_one worker token expires now supp c (tbl s) = (res, rows)"
    and fresh: "token \<notin> set (spent s)"
  shows "job_inv (s\<lparr>tbl := rows, held := held_after res (held s), spent := token # spent s\<rparr>)"
proof -
  have rows: "rows = sql_update (claimable now supp c) (claimed_row worker token expires now) (tbl s)"
    using claim_one_rows [of worker token expires now supp c "tbl s"] res by simp
  have u: "unique_key job_id rows"
    using inv unfolding rows by (auto simp: job_inv_def claimed_row_def intro: unique_key_update)
  have mem: "\<exists>q\<in>set (tbl s). r = (if claimable now supp c q then claimed_row worker token expires now q else q)"
    if "r \<in> set rows" for r using that unfolding rows by (rule set_sql_updateD)
  have ok: "row_ok r" if "r \<in> set rows" for r
    using mem [OF that] inv claimed_row_ok by (auto simp: job_inv_def split: if_splits)
  have toks: "t \<in> set (token # spent s)" if "r \<in> set rows" "job_lease_token r = Some t" for r t
    using mem [OF that(1)] that(2) inv by (auto simp: job_inv_def claimed_row_def split: if_splits)
  have old: "agrees h r" if "h \<in> set (held s)" "r \<in> set rows" for h r
  proof -
    from mem [OF that(2)] obtain q where q: "q \<in> set (tbl s)"
      "r = (if claimable now supp c q then claimed_row worker token expires now q else q)" by blast
    have h: "held_ok (spent s) h" and a: "agrees h q" using inv that(1) q(1) by (auto simp: job_inv_def)
    have "job_lease_token (cj_row h) \<noteq> Some token" using h fresh by (auto simp: held_ok_def)
    with a q show ?thesis by (auto simp: agrees_def claimed_row_def Let_def)
  qed
  have new: "held_ok (token # spent s) j \<and> (\<forall>r\<in>set rows. agrees j r)" if "res = Inr (Some j)" for j
  proof -
    from claim_one_job [of worker token expires now supp c "tbl s" j rows] res that
    have j: "cj_row j \<in> set rows" "job_lease_token (cj_row j) = Some token" by auto
    have "agrees j r" if "r \<in> set rows" for r
      using unique_keyD [OF u that j(1)] by (auto simp: agrees_def Let_def)
    with j show ?thesis by (auto simp: held_ok_def)
  qed
  have "held_ok (token # spent s) h" if "h \<in> set (held s)" for h
    using inv that by (auto simp: job_inv_def held_ok_def)
  with u ok toks old new show ?thesis
    by (auto simp: job_inv_def held_after_def split: sum.splits option.splits)
qed

lemma fail_row_ok:
  assumes "row_ok r" "holds_lease job now r" "agrees job r"
  shows "row_ok (fail_row job err delay now r)"
  using assms by (auto simp: fail_row_def row_ok_def holds_lease_def agrees_def Let_def)

lemma fail_row_id: "job_id (fail_row job err delay now r) = job_id r"
  and fail_row_token: "job_lease_token (fail_row job err delay now r) = None"
  by (simp_all add: fail_row_def Let_def)

lemma job_step_inv: "job_step s ev t \<Longrightarrow> job_inv s \<Longrightarrow> job_inv t"
proof (induction rule: job_step.induct)
  case (enqueue uuid now input s res rows)
  then show ?case by (intro enqueue_inv)
next
  case (sweep s now supp)
  then show ?case unfolding sweep_exhausted_def
    by (intro job_inv_update) (auto simp: row_ok_def)
next
  case (claim worker token expires now supp candidate s res rows)
  then show ?case by (intro claim_inv)
next
  case (extend job s ms now fl rows)
  show ?case
    by (rule fenced_inv [OF extend.prems extend.hyps(2) [unfolded extend_lease_def]])
      (auto simp: row_ok_def holds_lease_def Let_def)
next
  case (complete job s now fl rows)
  show ?case
    by (rule fenced_inv [OF complete.prems complete.hyps(2) [unfolded complete_def]])
      (auto simp: row_ok_def)
next
  case (fail job s err delay now fl rows)
  have a: "agrees job r" if "r \<in> set (tbl s)" for r
    using fail that by (auto simp: job_inv_def)
  show ?case
    by (rule fenced_inv [OF fail.prems fail.hyps(2) [unfolded fail_def]])
      (simp_all add: fail_row_id fail_row_token fail_row_ok a)
next
  case (cancel jid now s fl rows)
  then have rows: "rows = snd (cancel jid now (tbl s))" by simp
  show ?case unfolding rows cancel_def Let_def snd_conv
    by (rule job_inv_update [OF cancel.prems]) (auto simp: row_ok_def)
next
  case (retry jid now s fl rows)
  then have rows: "rows = snd (retry jid now (tbl s))" by simp
  show ?case unfolding rows retry_def Let_def snd_conv
    by (rule job_inv_update [OF retry.prems]) (auto simp: row_ok_def)
qed

lemma job_inv_empty: "job_inv empty_jobs"
  by (simp add: job_inv_def empty_jobs_def unique_key_def)

lemma job_reachable_inv: "job_reachable s \<Longrightarrow> job_inv s"
  by (induction rule: job_reachable.induct) (blast intro: job_inv_empty job_step_inv)+

end
