(* ===== verification/DurableJobLaws.thy ===== *)
theory DurableJobLaws
  imports DurableJobs
begin

text \<open>
  What the durable job store promises its callers: leases fence each other, a settled job
  stays settled, a retained storage mutation is never given up by anyone but its handler,
  and an undisturbed claim takes the due jobs in order. One job of a batch
  (\<^verbatim>\<open>runDurableJobBatch\<close>) is modelled here too, on top of the store.
\<close>

section \<open>The operations of a lease holder\<close>

datatype lease_op = Lo_extend int | Lo_complete | Lo_fail job_error "int \<Rightarrow> int"

fun lease_run :: "lease_op \<Rightarrow> claimed_job \<Rightarrow> int \<Rightarrow> job_row list \<Rightarrow> bool \<times> job_row list" where
  "lease_run (Lo_extend ms) job now = extend_lease job ms now"
| "lease_run Lo_complete job now = complete job now"
| "lease_run (Lo_fail err delay) job now = fail job err delay now"

lemma sql_update_id: "(\<And>r. r \<in> set rows \<Longrightarrow> \<not> p r) \<Longrightarrow> sql_update p f rows = rows"
  unfolding sql_update_def by (rule map_idI) simp

lemma fenced_without_lease:
  assumes "\<And>r. r \<in> set rows \<Longrightarrow> \<not> holds_lease job now r"
  shows "fenced job now f rows = (False, rows)"
proof -
  have "sql_count (holds_lease job now) rows = 0"
    using assms by (simp add: sql_count_def filter_empty_conv)
  with sql_update_id [of rows "holds_lease job now" f] assms show ?thesis by (simp add: fenced_def)
qed

lemma lease_run_without_lease:
  "(\<And>r. r \<in> set rows \<Longrightarrow> \<not> holds_lease job now r) \<Longrightarrow> lease_run x job now rows = (False, rows)"
  by (cases x) (simp_all add: extend_lease_def complete_def fail_def Let_def fenced_without_lease)

lemma fenced_True:
  assumes "fst (fenced job now f rows)"
  shows "\<exists>r\<in>set rows. holds_lease job now r"
  using assms by (auto simp: fenced_def sql_count_def split: if_splits)
    (metis (mono_tags) filter_empty_conv length_0_conv n_not_Suc_n)

lemma lease_run_True: "fst (lease_run x job now rows) \<Longrightarrow> \<exists>r\<in>set rows. holds_lease job now r"
  by (cases x) (auto simp: extend_lease_def complete_def fail_def Let_def dest!: fenced_True)

section \<open>Runs\<close>

inductive job_steps :: "jobs_sys \<Rightarrow> jobs_sys \<Rightarrow> bool" where
  refl: "job_steps s s"
| more: "job_steps s t \<Longrightarrow> job_step t ev u \<Longrightarrow> job_steps s u"

lemma job_steps_inv: "job_steps s t \<Longrightarrow> job_inv s \<Longrightarrow> job_inv t"
  by (induction rule: job_steps.induct) (auto dest: job_step_inv)

text \<open>
  What one step may do to the row with a given key: leave it as it is, or rewrite it. The
  relation lists the rewrites; every law below is a statement about it.
\<close>

definition row_change :: "job_event \<Rightarrow> string list \<Rightarrow> job_row \<Rightarrow> job_row \<Rightarrow> bool" where
  "row_change ev toks r r' \<longleftrightarrow> r' = r \<or>
     (job_id r' = job_id r \<and> job_type r' = job_type r \<and> job_version r' = job_version r
      \<and> job_payload r' = job_payload r \<and> job_max_attempts r' = job_max_attempts r
      \<and> (job_state r = Pending \<or> job_state r = Running \<or> job_state r = Failed \<and> job_state r' = Pending)
      \<and> (job_lease_token r' = None \<or> job_lease_token r' = job_lease_token r
         \<or> (\<exists>t. job_lease_token r' = Some t \<and> t \<notin> set toks))
      \<and> (is_retained r \<and> (job_state r' = Failed \<or> job_state r' = Cancelled) \<longrightarrow>
          (\<exists>m. ev = Ev_fail (Handler_error m)) \<and> job_attempts r \<ge> job_max_attempts r))"

text \<open>Every update of the store is such a map over the table; enqueueing appends one row.\<close>

definition table_change :: "job_event \<Rightarrow> string list \<Rightarrow> job_row list \<Rightarrow> job_row list \<Rightarrow> bool" where
  "table_change ev toks rows rows' \<longleftrightarrow>
     (\<exists>g. rows' = map g rows \<and> (\<forall>r\<in>set rows. row_change ev toks r (g r)))
     \<or> (\<exists>n. rows' = sql_insert n rows \<and> job_lease_token n = None)"

lemma table_change_same: "table_change ev toks rows rows"
proof -
  have "rows = map id rows \<and> (\<forall>r\<in>set rows. row_change ev toks r (id r))" by (simp add: row_change_def)
  then show ?thesis unfolding table_change_def by blast
qed

lemma table_change_update:
  assumes "\<And>r. r \<in> set rows \<Longrightarrow> p r \<Longrightarrow> row_change ev toks r (f r)"
  shows "table_change ev toks rows (sql_update p f rows)"
proof -
  define g where "g = (\<lambda>r. if p r then f r else r)"
  have "sql_update p f rows = map g rows" by (simp add: sql_update_def g_def)
  moreover have "\<forall>r\<in>set rows. row_change ev toks r (g r)"
    using assms by (simp add: g_def) (simp add: row_change_def)
  ultimately show ?thesis unfolding table_change_def by blast
qed

lemma table_change_fenced:
  assumes res: "fenced job now f rows = (fl, rows')"
    and ch: "\<And>r. r \<in> set rows \<Longrightarrow> holds_lease job now r \<Longrightarrow> row_change ev toks r (f r)"
  shows "table_change ev toks rows rows'"
proof -
  from res have "rows' = rows \<or> rows' = sql_update (holds_lease job now) f rows"
    by (auto simp: fenced_def split: if_splits)
  with table_change_same table_change_update [of rows _ ev toks f, OF ch] show ?thesis by auto
qed

lemma fail_change:
  assumes res: "fail job err delay now rows = (fl, rows')"
    and ag: "\<And>r. r \<in> set rows \<Longrightarrow> agrees job r"
  shows "table_change (Ev_fail err) toks rows rows'"
proof (rule table_change_fenced [OF res [unfolded fail_def]])
  fix r assume r: "r \<in> set rows" "holds_lease job now r"
  have same: "is_retained (cj_row job) = is_retained r"
    using r(2) by (auto simp: holds_lease_def is_retained_def Let_def)
  have att: "job_attempts r = job_attempts (cj_row job)" "job_max_attempts r = job_max_attempts (cj_row job)"
    using ag [OF r(1)] r(2) by (auto simp: agrees_def holds_lease_def Let_def)
  show "row_change (Ev_fail err) toks r (fail_row job err delay now r)"
    using r(2) same att by (cases err) (simp_all add: row_change_def fail_row_def holds_lease_def Let_def)
qed

lemma enqueue_change:
  "enqueue uuid now input rows = (res, rows') \<Longrightarrow> table_change ev toks rows rows'"
  using enqueue_rows [of uuid now input rows res rows'] table_change_same [of ev toks rows]
  by (auto simp: table_change_def new_job_def)

lemma step_change: "job_step s ev t \<Longrightarrow> job_inv s \<Longrightarrow> table_change ev (spent s) (tbl s) (tbl t)"
proof (induction rule: job_step.induct)
  case (enqueue uuid now input s res rows)
  then show ?case by (simp add: enqueue_change)
next
  case (sweep s now supp)
  then show ?case unfolding sweep_exhausted_def
    by simp (rule table_change_update, simp add: row_change_def is_retained_def)
next
  case (claim worker token expires now supp c s res rows)
  then have rows: "rows = sql_update (claimable now supp c) (claimed_row worker token expires now) (tbl s)"
    using claim_one_rows [of worker token expires now supp c "tbl s"] by simp
  show ?case unfolding rows using claim.hyps
    by simp (rule table_change_update, auto simp: row_change_def claimed_row_def claimable_def eligible_def)
next
  case (extend job s ms now fl rows)
  show ?case
    by simp (rule table_change_fenced [OF extend.hyps(2) [unfolded extend_lease_def]],
      simp add: row_change_def holds_lease_def Let_def)
next
  case (complete job s now fl rows)
  show ?case
    by simp (rule table_change_fenced [OF complete.hyps(2) [unfolded complete_def]],
      simp add: row_change_def holds_lease_def Let_def)
next
  case (fail job s err delay now fl rows)
  have "agrees job r" if "r \<in> set (tbl s)" for r using fail that by (auto simp: job_inv_def)
  with fail_change [OF fail.hyps(2)] show ?case by simp
next
  case (cancel jid now s fl rows)
  then have rows: "rows = snd (cancel jid now (tbl s))" by simp
  show ?case unfolding rows cancel_def Let_def snd_conv
    by simp (rule table_change_update, auto simp: row_change_def is_retained_def)
next
  case (retry jid now s fl rows)
  then have rows: "rows = snd (retry jid now (tbl s))" by simp
  show ?case unfolding rows retry_def Let_def snd_conv
    by simp (rule table_change_update, auto simp: row_change_def)
qed

section \<open>Laws\<close>

lemma table_change_image:
  assumes "table_change ev toks rows rows'" and "r \<in> set rows"
  shows "\<exists>r'\<in>set rows'. row_change ev toks r r'"
  using assms(1) unfolding table_change_def
proof (elim disjE exE conjE)
  fix g assume "rows' = map g rows" "\<forall>r\<in>set rows. row_change ev toks r (g r)"
  with assms(2) show ?thesis by auto
next
  fix n assume "rows' = sql_insert n rows"
  with assms(2) show ?thesis by (intro bexI [of _ r]) (simp_all add: row_change_def)
qed

lemma table_change_origin:
  assumes "table_change ev toks rows rows'" and "r' \<in> set rows'"
  shows "job_lease_token r' = None \<or> (\<exists>r\<in>set rows. row_change ev toks r r')"
  using assms(1) unfolding table_change_def
proof (elim disjE exE conjE)
  fix g assume "rows' = map g rows" "\<forall>r\<in>set rows. row_change ev toks r (g r)"
  with assms(2) show ?thesis by auto
next
  fix n assume "rows' = sql_insert n rows" "job_lease_token n = None"
  with assms(2) show ?thesis by (auto simp: row_change_def)
qed

lemma row_change_id: "row_change ev toks r r' \<Longrightarrow> job_id r' = job_id r"
  by (auto simp: row_change_def)

lemma row_change_token:
  assumes "row_change ev toks r r'" and "job_lease_token r' = Some t" and "t \<in> set toks"
  shows "job_lease_token r = Some t"
  using assms unfolding row_change_def by (elim disjE conjE exE) simp_all

lemma row_change_settled:
  assumes "row_change ev toks r r'" and "job_state r = Succeeded \<or> job_state r = Cancelled"
  shows "r' = r"
  using assms unfolding row_change_def by (elim disjE conjE exE) simp_all

lemma change_lookup:
  assumes tc: "table_change ev toks rows rows'" and u: "unique_key job_id rows'" and r: "r \<in> set rows"
  obtains r' where "r' \<in> set rows'" "row_change ev toks r r'"
    "\<And>q. q \<in> set rows' \<Longrightarrow> job_id q = job_id r \<Longrightarrow> q = r'"
proof -
  have "\<exists>r'\<in>set rows'. row_change ev toks r r'"
    using table_change_image [OF tc r] .
  then obtain r' where r': "r' \<in> set rows'" "row_change ev toks r r'" by blast
  then have id: "job_id r' = job_id r" by (simp add: row_change_id)
  show ?thesis
    by (rule that [OF r']) (simp add: unique_keyD [OF u _ r'(1)] id)
qed

text \<open>C8. In every reachable state of the job store, whatever workers, cancellations and
  retries did in which order: identifiers are unique, no job has more attempts than allowed,
  a job has a lease (owner, token and expiry, all three) exactly while it runs, and a
  completion instant exactly when it is settled.\<close>

theorem job_store_invariant:
  assumes "job_reachable s" and "r \<in> set (tbl s)"
  shows "unique_key job_id (tbl s) \<and> 0 \<le> job_attempts r \<and> job_attempts r \<le> job_max_attempts r
    \<and> (job_state r = Running \<longleftrightarrow> job_lease_owner r \<noteq> None)
    \<and> (job_state r = Running \<longleftrightarrow> job_lease_token r \<noteq> None)
    \<and> (job_state r = Running \<longleftrightarrow> job_lease_expires r \<noteq> None)
    \<and> (job_completed r \<noteq> None \<longleftrightarrow> job_state r \<in> {Succeeded, Failed, Cancelled})"
  using job_reachable_inv [OF assms(1)] assms(2) by (simp add: job_inv_def row_ok_def) blast

definition without_lease :: "claimed_job \<Rightarrow> job_row list \<Rightarrow> bool" where
  "without_lease a rows = (\<forall>r\<in>set rows. job_id r = job_id (cj_row a) \<longrightarrow>
     job_lease_token r \<noteq> job_lease_token (cj_row a))"

lemma without_lease_step:
  assumes st: "job_step s ev t" and inv: "job_inv s" and a: "held_ok (spent s) a"
    and no: "without_lease a (tbl s)"
  shows "without_lease a (tbl t)"
proof -
  obtain tok where tok: "job_lease_token (cj_row a) = Some tok" "tok \<in> set (spent s)"
    using a by (auto simp: held_ok_def)
  have "False" if r': "r' \<in> set (tbl t)" "job_id r' = job_id (cj_row a)" "job_lease_token r' = Some tok" for r'
  proof -
    from table_change_origin [OF step_change [OF st inv] r'(1)] r'(3)
    obtain r where r: "r \<in> set (tbl s)" "row_change ev (spent s) r r'" by auto
    from row_change_token [OF r(2) r'(3) tok(2)] row_change_id [OF r(2)] no r(1) r'(2) tok(1)
    show False by (simp add: without_lease_def)
  qed
  with tok(1) show ?thesis by (auto simp: without_lease_def)
qed

lemma held_ok_step: "job_step s ev t \<Longrightarrow> held_ok (spent s) a \<Longrightarrow> held_ok (spent t) a"
  by (induction rule: job_step.induct) (auto simp: held_ok_def)

lemma without_lease_steps:
  assumes "job_steps s t" "job_inv s" "held_ok (spent s) a" "without_lease a (tbl s)"
  shows "without_lease a (tbl t) \<and> held_ok (spent t) a"
  using assms
  by (induction rule: job_steps.induct) (auto dest: without_lease_step held_ok_step job_steps_inv)

text \<open>C4. A worker that lost its lease stays powerless: once no row carries the token it
  claimed a job with (another worker claimed the job since, or it was cancelled, settled or
  handed back), then whatever happens afterwards, each of its attempts to extend the lease,
  complete the job or fail it returns false and leaves the table as it is.\<close>

theorem superseded_worker_powerless:
  assumes "job_reachable s" and "a \<in> set (held s)"
    and "\<And>r. r \<in> set (tbl s) \<Longrightarrow> job_id r = job_id (cj_row a) \<Longrightarrow>
      job_lease_token r \<noteq> job_lease_token (cj_row a)"
    and "job_steps s t"
  shows "lease_run x a now (tbl t) = (False, tbl t)"
proof (rule lease_run_without_lease)
  fix r assume r: "r \<in> set (tbl t)"
  from job_reachable_inv [OF assms(1)] have inv: "job_inv s" .
  with assms(2) have h: "held_ok (spent s) a" by (simp add: job_inv_def)
  have "without_lease a (tbl s)" using assms(3) by (simp add: without_lease_def)
  from without_lease_steps [OF assms(4) inv h this] have "without_lease a (tbl t)" ..
  with r show "\<not> holds_lease a now r" by (auto simp: without_lease_def holds_lease_def Let_def)
qed

lemma settled_step:
  assumes st: "job_step s ev t" and inv: "job_inv s" and r: "r \<in> set (tbl s)"
    and settled: "job_state r = Succeeded \<or> job_state r = Cancelled"
  shows "r \<in> set (tbl t)"
  using table_change_image [OF step_change [OF st inv] r] row_change_settled [OF _ settled] by auto

text \<open>A job that succeeded or was cancelled is settled for good: its row is never
  changed again, by any sequence of claims, lease operations, sweeps, cancellations and
  retries.\<close>

theorem settled_jobs_stay:
  assumes "job_steps s t" and "job_reachable s" and "r \<in> set (tbl s)"
    and "job_state r \<in> {Succeeded, Cancelled}"
  shows "r \<in> set (tbl t)"
  using assms
proof (induction rule: job_steps.induct)
  case (more s t ev u)
  have inv: "job_inv t" using more.hyps(1) more.prems(1) by (auto intro: job_steps_inv job_reachable_inv)
  from more have "r \<in> set (tbl t)" by simp
  with more.prems show ?case by (intro settled_step [OF more.hyps(2) inv]) auto
qed

text \<open>A retained storage mutation, the write-through of a committed page change, is never
  given up behind its handler's back: a step that turns it into a failed or cancelled job is
  a failure reported by the holder of its lease, with an error other than a deferral, on the
  last allowed attempt.\<close>

theorem retained_jobs_survive:
  assumes "job_reachable s" and "job_step s ev t"
    and "r \<in> set (tbl s)" and "r' \<in> set (tbl t)" and "job_id r' = job_id r"
    and "is_retained r" and "job_state r \<notin> {Failed, Cancelled}" and "job_state r' \<in> {Failed, Cancelled}"
  shows "(\<exists>m. ev = Ev_fail (Handler_error m)) \<and> job_attempts r = job_max_attempts r"
proof -
  from job_reachable_inv [OF assms(1)] have inv: "job_inv s" .
  from job_step_inv [OF assms(2) inv] have "job_inv t" .
  then have "unique_key job_id (tbl t)" by (simp add: job_inv_def)
  from change_lookup [OF step_change [OF assms(2) inv] this assms(3)] assms(4,5)
  have "row_change ev (spent s) r r'" by blast
  then have "(\<exists>m. ev = Ev_fail (Handler_error m)) \<and> job_attempts r \<ge> job_max_attempts r"
    using assms(6-8) by (auto simp: row_change_def)
  moreover from inv assms(3) have "job_attempts r \<le> job_max_attempts r"
    by (simp add: job_inv_def row_ok_def)
  ultimately show ?thesis by auto
qed

section \<open>An undisturbed claim\<close>

lemma claim_one_unfold:
  "claim_one w tok ex now supp c rows =
     (if sql_count (claimable now supp c) rows \<noteq> 1
      then (Inr None, sql_update (claimable now supp c) (claimed_row w tok ex now) rows)
      else case sql_first (\<lambda>r. job_id r = job_id c \<and> job_lease_owner r = Some w \<and> job_lease_token r = Some tok)
             (sql_update (claimable now supp c) (claimed_row w tok ex now) rows) of
        None \<Rightarrow> (Inr None, sql_update (claimable now supp c) (claimed_row w tok ex now) rows)
      | Some row \<Rightarrow> (rbind (deserialize_job row) (\<lambda>job.
          Inr (Some \<lparr>cj_row = job, cj_before = (if is_retained job then Some (job_attempts c) else None)\<rparr>)),
          sql_update (claimable now supp c) (claimed_row w tok ex now) rows))"
  by (simp add: claim_one_def claimable_def [abs_def] claimed_row_def [abs_def] Let_def split: option.splits)

lemma claim_one_fresh:
  assumes u: "unique_key job_id rows" and c: "c \<in> set rows" "eligible now c" "supported supp c"
    and rec: "js_is_record (job_payload c)"
  shows "claim_one w tok ex now supp c rows =
    (Inr (Some \<lparr>cj_row = claimed_row w tok ex now c,
       cj_before = (if is_retained c then Some (job_attempts c) else None)\<rparr>),
     sql_update (claimable now supp c) (claimed_row w tok ex now) rows)"
proof -
  let ?rows = "sql_update (claimable now supp c) (claimed_row w tok ex now) rows"
  let ?q = "\<lambda>r. job_id r = job_id c \<and> job_lease_owner r = Some w \<and> job_lease_token r = Some tok"
  have cc: "claimable now supp c c" using c by (simp add: claimable_def)
  have one: "sql_count (claimable now supp c) rows = 1"
    using c(1) cc by (subst sql_count_one_iff [OF u, of _ "job_id c"]) (auto simp: claimable_def)
  have u': "unique_key job_id ?rows"
    by (rule unique_key_update [OF u]) (simp add: claimed_row_def)
  have mem: "claimed_row w tok ex now c \<in> set ?rows" using c(1) cc by (auto simp: set_sql_update)
  have "sql_first ?q ?rows = Some (claimed_row w tok ex now c)"
    by (rule sql_first_unique [OF u' mem]) (simp_all add: claimed_row_def)
  moreover have "js_is_record (job_payload (claimed_row w tok ex now c))"
    using rec by (simp add: claimed_row_def)
  moreover have "is_retained (claimed_row w tok ex now c) = is_retained c"
    by (simp add: claimed_row_def is_retained_def)
  ultimately show ?thesis
    using one by (simp add: claim_one_unfold deserialize_job_def)
qed

text \<open>The claims one call returns: the lease, and the row as it now stands in the table.\<close>

definition claimed_well :: "string \<Rightarrow> int \<Rightarrow> job_row list \<Rightarrow> claimed_job \<Rightarrow> bool" where
  "claimed_well w ex rows j = (cj_row j \<in> set rows \<and> job_state (cj_row j) = Running
     \<and> job_lease_owner (cj_row j) = Some w \<and> job_lease_expires (cj_row j) = Some ex)"

lemma claim_loop_takes:
  assumes "unique_key job_id rows" "distinct (map job_id cs)" "set cs \<subseteq> set rows"
    "\<And>c. c \<in> set cs \<Longrightarrow> eligible now c \<and> supported supp c \<and> js_is_record (job_payload c)"
    "\<And>j. j \<in> set claimed \<Longrightarrow> claimed_well w ex rows j \<and> job_id (cj_row j) \<notin> job_id ` set cs"
  shows "\<exists>new rows2. claim_loop w uuid ex now supp limit i cs claimed rows = (Inr (claimed @ new), rows2)
    \<and> map (\<lambda>j. job_id (cj_row j)) new = map job_id (take (limit - length claimed) cs)
    \<and> (\<forall>j\<in>set (claimed @ new). claimed_well w ex rows2 j)
    \<and> (\<forall>r\<in>set rows. job_id r \<notin> job_id ` set (take (limit - length claimed) cs) \<longrightarrow> r \<in> set rows2)"
  using assms
proof (induction cs arbitrary: i claimed rows)
  case Nil
  then show ?case by simp
next
  case (Cons c cs)
  show ?case
  proof (cases "length claimed \<ge> limit")
    case True
    with Cons.prems show ?thesis by auto
  next
    case False
    let ?rows = "sql_update (claimable now supp c) (claimed_row w (uuid i) ex now) rows"
    let ?job = "\<lparr>cj_row = claimed_row w (uuid i) ex now c,
       cj_before = (if is_retained c then Some (job_attempts c) else None)\<rparr>"
    from Cons.prems(3) Cons.prems(4) [of c] have c: "c \<in> set rows" "eligible now c" "supported supp c"
      "js_is_record (job_payload c)" by auto
    note one = claim_one_fresh [OF Cons.prems(1) c, of w "uuid i" ex]
    have keep: "r \<in> set ?rows" if "r \<in> set rows" "job_id r \<noteq> job_id c" for r
      using that by (force simp: set_sql_update claimable_def)
    have new: "claimed_well w ex ?rows ?job"
      using c by (auto simp: claimed_well_def set_sql_update claimable_def claimed_row_def)
    have u: "unique_key job_id ?rows"
      by (rule unique_key_update [OF Cons.prems(1)]) (simp add: claimed_row_def)
    have sub: "set cs \<subseteq> set ?rows"
    proof
      fix x assume x: "x \<in> set cs"
      with Cons.prems(2) have "job_id x \<noteq> job_id c" by (auto simp: image_iff)
      with x Cons.prems(3) show "x \<in> set ?rows" by (intro keep) auto
    qed
    have claimed: "claimed_well w ex ?rows j \<and> job_id (cj_row j) \<notin> job_id ` set cs"
      if "j \<in> set (claimed @ [?job])" for j
    proof (cases "j = ?job")
      case True
      with new Cons.prems(2) show ?thesis by (simp add: claimed_row_def)
    next
      case False
      with that have "j \<in> set claimed" by simp
      from Cons.prems(5) [OF this] keep show ?thesis by (simp add: claimed_well_def)
    qed
    have el: "eligible now d \<and> supported supp d \<and> js_is_record (job_payload d)" if "d \<in> set cs" for d
      using Cons.prems(4) that by simp
    have dist: "distinct (map job_id cs)" using Cons.prems(2) by simp
    obtain new' rows2 where IH:
      "claim_loop w uuid ex now supp limit (Suc i) cs (claimed @ [?job]) ?rows = (Inr ((claimed @ [?job]) @ new'), rows2)"
      "map (\<lambda>j. job_id (cj_row j)) new' = map job_id (take (limit - length (claimed @ [?job])) cs)"
      "\<forall>j\<in>set ((claimed @ [?job]) @ new'). claimed_well w ex rows2 j"
      "\<forall>r\<in>set ?rows. job_id r \<notin> job_id ` set (take (limit - length (claimed @ [?job])) cs) \<longrightarrow> r \<in> set rows2"
      using Cons.IH [of ?rows "claimed @ [?job]" "Suc i", OF u dist sub el claimed] by blast
    have n: "limit - length claimed = Suc (limit - length (claimed @ [?job]))" using False by simp
    have run: "claim_loop w uuid ex now supp limit i (c # cs) claimed rows = (Inr (claimed @ (?job # new')), rows2)"
      using False one IH(1) by simp
    have ids: "map (\<lambda>j. job_id (cj_row j)) (?job # new') = map job_id (take (limit - length claimed) (c # cs))"
      unfolding n using IH(2) by (simp add: claimed_row_def)
    have rest: "r \<in> set rows2" if "r \<in> set rows" "job_id r \<notin> job_id ` set (take (limit - length claimed) (c # cs))" for r
      using that keep IH(4) unfolding n by auto
    from run ids rest IH(3) show ?thesis by (intro exI [of _ "?job # new'"] exI [of _ rows2]) simp
  qed
qed

lemma sweep_unique: "unique_key job_id rows \<Longrightarrow> unique_key job_id (sweep_exhausted now supp rows)"
  unfolding sweep_exhausted_def by (rule unique_key_update) simp_all

lemma sweep_payload:
  assumes "\<forall>r\<in>set rows. js_is_record (job_payload r)"
  shows "\<forall>r\<in>set (sweep_exhausted now supp rows). js_is_record (job_payload r)"
  unfolding sweep_exhausted_def by (rule ball_sql_update [OF assms]) simp

text \<open>The jobs that are due, in the order in which they are served.\<close>

definition due_jobs :: "int \<Rightarrow> (string \<times> int) list option \<Rightarrow> job_row list \<Rightarrow> job_row list" where
  "due_jobs now supp rows = sort_key claim_order (filter (\<lambda>r. eligible now r \<and> supported supp r) rows)"

text \<open>A claim that no other worker interferes with returns exactly the due jobs it may
  have: those eligible after the sweep, of a supported type and version, earliest first (by
  next run, then by identifier), as many as the limit allows. Each is running under the
  caller's lease in the table the call leaves, and no other row has changed.\<close>

theorem claim_takes_due_jobs:
  assumes "unique_key job_id rows" and "\<forall>r\<in>set rows. js_is_record (job_payload r)"
    and "cl_worker input \<noteq> []" and "length (cl_worker input) \<le> 128"
    and "option_or (cl_limit input) (Whole 10) = Whole limit" and "1 \<le> limit" and "limit \<le> 100"
    and "option_or (cl_lease_ms input) (Whole default_lease_ms) = Whole ms" and "1000 \<le> ms" and "ms \<le> 3600000"
  shows "let supp = parse_supported_identities (cl_supported input);
             swept = sweep_exhausted now supp rows;
             due = take (nat limit) (due_jobs now supp swept)
         in \<exists>jobs rows2. claim uuid now input rows = (Inr jobs, rows2)
            \<and> map (\<lambda>j. job_id (cj_row j)) jobs = map job_id due
            \<and> (\<forall>j\<in>set jobs. claimed_well (cl_worker input) (now + ms) rows2 j)
            \<and> (\<forall>r\<in>set swept. job_id r \<notin> job_id ` set due \<longrightarrow> r \<in> set rows2)"
proof -
  define supp where "supp = parse_supported_identities (cl_supported input)"
  define swept where "swept = sweep_exhausted now supp rows"
  define cs where "cs = claim_candidates now supp (nat limit) swept"
  have safe: "is_safe_integer (Whole limit)" "is_safe_integer (Whole ms)"
    using assms(6-10) by (simp_all add: safe_int_def max_safe_def)
  have u: "unique_key job_id swept" unfolding swept_def by (rule sweep_unique [OF assms(1)])
  have rec: "\<forall>r\<in>set swept. js_is_record (job_payload r)"
    unfolding swept_def by (rule sweep_payload [OF assms(2)])
  have cs: "cs = take (nat limit * 3) (due_jobs now supp swept)"
    by (simp add: cs_def claim_candidates_def due_jobs_def)
  have in_due: "set (due_jobs now supp swept) = {r \<in> set swept. eligible now r \<and> supported supp r}"
    by (simp add: due_jobs_def)
  have sub: "set cs \<subseteq> set swept"
    unfolding cs using in_due set_take_subset by fastforce
  have el: "eligible now c \<and> supported supp c \<and> js_is_record (job_payload c)" if "c \<in> set cs" for c
  proof -
    from that have "c \<in> set (due_jobs now supp swept)" unfolding cs by (rule in_set_takeD)
    with in_due rec show ?thesis by simp
  qed
  have "distinct (map job_id (filter (\<lambda>r. eligible now r \<and> supported supp r) swept))"
    using u by (simp add: unique_key_def distinct_map_filter)
  then have "distinct (map job_id (due_jobs now supp swept))"
    by (auto simp: due_jobs_def distinct_map)
  then have dist: "distinct (map job_id cs)" unfolding cs by (simp add: take_map [symmetric] distinct_take)
  have tk: "take (nat limit) cs = take (nat limit) (due_jobs now supp swept)"
    unfolding cs by (simp add: min_def)
  have run: "claim uuid now input rows =
    claim_loop (cl_worker input) uuid (now + ms) now supp (nat limit) 0 cs [] swept"
    using assms(3-10) safe by (simp add: claim_def Let_def supp_def cs_def swept_def whole_def)
  show ?thesis
    unfolding Let_def supp_def [symmetric] swept_def [symmetric] run tk [symmetric]
    using claim_loop_takes [OF u dist sub el, where claimed = "[]" and limit = "nat limit" and i = 0] by simp
qed

section \<open>One job of a batch\<close>

text \<open>
  \<^verbatim>\<open>runDurableJobBatch\<close> runs the handler of a claimed job while a timer renews the lease. A
  tick of the timer either throws (\<^term>\<open>None\<close>) or extends the lease at an instant; the
  first one that fails ends the worker's authority. The outcome of the handler is an error or
  none. Ticks run one after the other (the \<^verbatim>\<open>renewal\<close> chain), all before the outcome is
  reported.
\<close>

fun renew_lease :: "claimed_job \<Rightarrow> int \<Rightarrow> int option list \<Rightarrow> bool \<Rightarrow> job_row list \<Rightarrow> bool \<times> job_row list" where
  "renew_lease job ms [] authoritative rows = (authoritative, rows)"
| "renew_lease job ms (t # ts) authoritative rows =
     (if \<not> authoritative then renew_lease job ms ts False rows
      else case t of
             None \<Rightarrow> renew_lease job ms ts False rows
           | Some now \<Rightarrow> (case extend_lease job ms now rows of
               (ok, rows') \<Rightarrow> renew_lease job ms ts ok rows'))"

definition run_claimed_job ::
  "(string \<times> int) list \<Rightarrow> int \<Rightarrow> (int \<Rightarrow> int) \<Rightarrow> claimed_job \<Rightarrow> int option list \<Rightarrow> job_error option \<Rightarrow>
   int \<Rightarrow> job_row list \<Rightarrow> job_row list"
where
  "run_claimed_job handlers ms retry_delay job ticks outcome now rows =
     (if (job_type (cj_row job), job_version (cj_row job)) \<notin> set handlers
      then snd (fail job (Handler_error ''No handler registered'') retry_delay now rows)
      else case renew_lease job ms ticks True rows of (authoritative, rows') \<Rightarrow>
        if \<not> authoritative then rows'
        else case outcome of
               Some err \<Rightarrow> snd (fail job err retry_delay now rows')
             | None \<Rightarrow> snd (complete job now rows'))"

lemma renew_lease_lost: "renew_lease job ms ticks False rows = (False, rows)"
  by (induction ticks) simp_all

text \<open>Frame: whatever a worker does with the job it claimed, rows of other jobs stay.\<close>

lemma fenced_frame: "r \<in> set rows \<Longrightarrow> job_id r \<noteq> job_id (cj_row job) \<Longrightarrow> r \<in> set (snd (fenced job now f rows))"
  by (force simp: fenced_def set_sql_update holds_lease_def Let_def)

lemma renew_frame:
  "r \<in> set rows \<Longrightarrow> job_id r \<noteq> job_id (cj_row job) \<Longrightarrow> r \<in> set (snd (renew_lease job ms ticks au rows))"
proof (induction ticks arbitrary: au rows)
  case (Cons t ts)
  then have "r \<in> set (snd (extend_lease job ms n rows))" for n
    by (simp add: extend_lease_def fenced_frame)
  with Cons show ?case by (auto split: option.splits prod.splits) (metis snd_conv)
qed simp

lemma renew_steps:
  assumes "job \<in> set (held s)"
  shows "job_steps s (s\<lparr>tbl := snd (renew_lease job ms ticks au (tbl s))\<rparr>)"
proof -
  have "job_steps s0 (s\<lparr>tbl := snd (renew_lease job ms ticks au rows)\<rparr>)"
    if "job_steps s0 (s\<lparr>tbl := rows\<rparr>)" for s0 rows
    using that
  proof (induction ticks arbitrary: au rows)
    case (Cons t ts)
    show ?case
    proof (cases "au \<and> t \<noteq> None")
      case True
      then obtain n where t: "t = Some n" by auto
      obtain ok rows' where ex: "extend_lease job ms n rows = (ok, rows')" by force
      have "job_step (s\<lparr>tbl := rows\<rparr>) Ev_extend ((s\<lparr>tbl := rows\<rparr>)\<lparr>tbl := rows'\<rparr>)"
        by (rule job_step.extend) (use assms ex in simp_all)
      with Cons.prems have "job_steps s0 (s\<lparr>tbl := rows'\<rparr>)"
        by (auto intro: job_steps.more)
      with Cons.IH True t ex show ?thesis by simp
    next
      case False
      with Cons show ?thesis by (auto simp: renew_lease_lost)
    qed
  qed simp
  from this [of s "tbl s"] show ?thesis by (simp add: job_steps.refl)
qed

lemma fail_step:
  "job \<in> set (held s) \<Longrightarrow> job_step s (Ev_fail e) (s\<lparr>tbl := snd (fail job e delay now (tbl s))\<rparr>)"
  by (rule job_step.fail [of job s e delay now "fst (fail job e delay now (tbl s))"]) simp_all

lemma complete_step:
  "job \<in> set (held s) \<Longrightarrow> job_step s Ev_complete (s\<lparr>tbl := snd (complete job now (tbl s))\<rparr>)"
  by (rule job_step.complete [of job s now "fst (complete job now (tbl s))"]) simp_all

text \<open>Running one claimed job of a batch, with any renewals and any outcome of its
  handler, is a run of the store's own steps by the holder of that claim: it keeps the
  store's invariants, and it changes no row of another job.\<close>

theorem batch_job_is_a_run:
  assumes "job_reachable s" and "job \<in> set (held s)"
  shows "job_steps s (s\<lparr>tbl := run_claimed_job handlers ms delay job ticks outcome now (tbl s)\<rparr>)
    \<and> (\<forall>r\<in>set (tbl s). job_id r \<noteq> job_id (cj_row job) \<longrightarrow>
        r \<in> set (run_claimed_job handlers ms delay job ticks outcome now (tbl s)))"
proof -
  define rows where "rows = snd (renew_lease job ms ticks True (tbl s))"
  have st: "job_steps s (s\<lparr>tbl := rows\<rparr>)" unfolding rows_def by (rule renew_steps [OF assms(2)])
  have fl: "job_steps s (s\<lparr>tbl := snd (fail job e delay now rs)\<rparr>)" if "job_steps s (s\<lparr>tbl := rs\<rparr>)" for e rs
    using job_steps.more [OF that fail_step [of job "s\<lparr>tbl := rs\<rparr>" e delay now]] assms(2) by simp
  have co: "job_steps s (s\<lparr>tbl := snd (complete job now rs)\<rparr>)" if "job_steps s (s\<lparr>tbl := rs\<rparr>)" for rs
    using job_steps.more [OF that complete_step [of job "s\<lparr>tbl := rs\<rparr>" now]] assms(2) by simp
  have same: "s = s\<lparr>tbl := tbl s\<rparr>" by simp
  have start: "job_steps s (s\<lparr>tbl := tbl s\<rparr>)" by (simp add: job_steps.refl)
  have run: "job_steps s (s\<lparr>tbl := run_claimed_job handlers ms delay job ticks outcome now (tbl s)\<rparr>)"
    using fl [OF start] fl [OF st] co [OF st] st
    by (cases "renew_lease job ms ticks True (tbl s)") (simp add: run_claimed_job_def rows_def split: option.split)
  moreover have "r \<in> set (run_claimed_job handlers ms delay job ticks outcome now (tbl s))"
    if r: "r \<in> set (tbl s)" "job_id r \<noteq> job_id (cj_row job)" for r
    using renew_frame [OF r, of ms ticks True] fenced_frame [OF _ r(2)] r(1)
    by (cases "renew_lease job ms ticks True (tbl s)")
      (simp add: run_claimed_job_def fail_def complete_def split: option.split)
  ultimately show ?thesis by blast
qed

section \<open>A concrete run\<close>

text \<open>
  One storage mutation is enqueued, claimed by a first worker whose lease runs out, claimed
  again by a second one and completed by it.
\<close>

definition demo_input :: enqueue_input where
  "demo_input = \<lparr>en_type = ''storage-mutation'', en_version = Whole 1, en_payload = JObj [],
     en_max_attempts = Some (Whole 1), en_next_run = None, en_dedup_key = Some ''k''\<rparr>"

definition demo_claim :: "string \<Rightarrow> string \<Rightarrow> int \<Rightarrow> jobs_sys \<Rightarrow> jobs_sys" where
  "demo_claim w tok now s = (case claim_one w tok (now + 10) now None (hd (tbl s)) (tbl s) of
     (res, rows) \<Rightarrow> s\<lparr>tbl := rows, held := held_after res (held s), spent := tok # spent s\<rparr>)"

definition demo_queued :: jobs_sys where
  "demo_queued = empty_jobs\<lparr>tbl := snd (enqueue ''j1'' 0 demo_input [])\<rparr>"

definition demo_first :: jobs_sys where
  "demo_first = demo_claim ''w1'' ''t1'' 0 demo_queued"

definition demo_second :: jobs_sys where
  "demo_second = demo_claim ''w2'' ''t2'' 20 demo_first"

definition demo_done :: jobs_sys where
  "demo_done = demo_second\<lparr>tbl := snd (complete (hd (held demo_second)) 25 (tbl demo_second))\<rparr>"

lemma demo_claim_step:
  assumes "tok \<notin> set (spent s)" "tok \<noteq> []"
  shows "job_step s Ev_claim (demo_claim w tok now s)"
proof -
  obtain res rows where c: "claim_one w tok (now + 10) now None (hd (tbl s)) (tbl s) = (res, rows)" by force
  from job_step.claim [OF c assms] c show ?thesis by (simp add: demo_claim_def)
qed

lemma demo_queued_reachable: "job_reachable demo_queued"
proof -
  have "job_step empty_jobs Ev_enqueue demo_queued"
    unfolding demo_queued_def
    by (rule job_step.enqueue [of "''j1''" 0 demo_input _ "fst (enqueue ''j1'' 0 demo_input [])"])
      (simp_all add: empty_jobs_def)
  then show ?thesis by (rule job_reachable.step [OF job_reachable.start])
qed

lemma demo_first_reachable: "job_reachable demo_first"
proof -
  have "job_step demo_queued Ev_claim demo_first"
    unfolding demo_first_def by (rule demo_claim_step) (simp_all add: demo_queued_def empty_jobs_def)
  then show ?thesis by (rule job_reachable.step [OF demo_queued_reachable])
qed

lemma demo_first_spent: "spent demo_first = [''t1'']"
  by code_simp

lemma demo_second_step: "job_step demo_first Ev_claim demo_second"
  unfolding demo_second_def by (rule demo_claim_step) (simp_all add: demo_first_spent)

lemma demo_second_reachable: "job_reachable demo_second"
  by (rule job_reachable.step [OF demo_first_reachable demo_second_step])

lemma demo_first_facts:
  "length (tbl demo_first) = 1 \<and> length (held demo_first) = 1 \<and> is_retained (hd (tbl demo_first))
   \<and> job_state (hd (tbl demo_first)) = Running \<and> job_id (hd (tbl demo_first)) = ''j1''"
  by code_simp

lemma demo_second_facts:
  "length (tbl demo_second) = 1 \<and> length (held demo_second) = 2
   \<and> job_lease_token (hd (tbl demo_second)) = Some ''t2''
   \<and> job_lease_token (cj_row (held demo_second ! 1)) = Some ''t1''"
  by code_simp

lemma hd_of_single: "length xs = 1 \<Longrightarrow> set xs = {hd xs}"
  by (cases xs) auto

theorem job_store_invariant_witness:
  "hd (tbl demo_second) \<in> set (tbl demo_second) \<and> job_attempts (hd (tbl demo_second)) \<le> job_max_attempts (hd (tbl demo_second))"
proof -
  have m: "hd (tbl demo_second) \<in> set (tbl demo_second)"
    using demo_second_facts hd_of_single [of "tbl demo_second"] by simp
  from job_store_invariant [OF demo_second_reachable m] m show ?thesis by blast
qed

theorem superseded_worker_powerless_witness:
  "lease_run Lo_complete (held demo_second ! 1) 22 (tbl demo_second) = (False, tbl demo_second)"
proof (rule superseded_worker_powerless [OF demo_second_reachable _ _ job_steps.refl])
  show "held demo_second ! 1 \<in> set (held demo_second)" using demo_second_facts by simp
  fix r assume "r \<in> set (tbl demo_second)"
  then have "r = hd (tbl demo_second)" using demo_second_facts hd_of_single [of "tbl demo_second"] by simp
  then show "job_lease_token r \<noteq> job_lease_token (cj_row (held demo_second ! 1))"
    using demo_second_facts by simp
qed

lemma demo_done_step: "job_step demo_second Ev_complete demo_done"
  unfolding demo_done_def
  by (rule complete_step) (use demo_second_facts in \<open>cases "held demo_second", simp_all\<close>)

lemma demo_done_facts: "length (tbl demo_done) = 1 \<and> job_state (hd (tbl demo_done)) = Succeeded"
  by code_simp

theorem settled_jobs_stay_witness:
  "hd (tbl demo_done) \<in> set (snd (retry ''j1'' 90 (tbl demo_done)))"
proof -
  let ?t = "demo_done\<lparr>tbl := snd (retry ''j1'' 90 (tbl demo_done))\<rparr>"
  have "job_step demo_done Ev_retry ?t"
    by (rule job_step.retry [of "''j1''" 90 _ "fst (retry ''j1'' 90 (tbl demo_done))"]) simp
  then have st: "job_steps demo_done ?t" by (rule job_steps.more [OF job_steps.refl])
  have re: "job_reachable demo_done" by (rule job_reachable.step [OF demo_second_reachable demo_done_step])
  have m: "hd (tbl demo_done) \<in> set (tbl demo_done)"
    using demo_done_facts hd_of_single [of "tbl demo_done"] by simp
  from settled_jobs_stay [OF st re m] demo_done_facts show ?thesis by simp
qed

definition demo_failed :: jobs_sys where
  "demo_failed = demo_first\<lparr>tbl := snd (fail (hd (held demo_first)) (Handler_error ''disk'') default_retry_delay 5 (tbl demo_first))\<rparr>"

lemma demo_failed_facts:
  "length (tbl demo_failed) = 1 \<and> job_state (hd (tbl demo_failed)) = Failed \<and> job_id (hd (tbl demo_failed)) = ''j1''"
  by code_simp

theorem retained_jobs_survive_witness:
  "job_attempts (hd (tbl demo_first)) = job_max_attempts (hd (tbl demo_first))"
proof -
  have h: "hd (held demo_first) \<in> set (held demo_first)"
    using demo_first_facts by (cases "held demo_first") simp_all
  have st: "job_step demo_first (Ev_fail (Handler_error ''disk'')) demo_failed"
    unfolding demo_failed_def by (rule fail_step [OF h])
  have m: "hd (tbl demo_first) \<in> set (tbl demo_first)" "hd (tbl demo_failed) \<in> set (tbl demo_failed)"
    using demo_first_facts demo_failed_facts hd_of_single [of "tbl demo_first"] hd_of_single [of "tbl demo_failed"]
    by simp_all
  from retained_jobs_survive [OF demo_first_reachable st m] demo_first_facts demo_failed_facts
  show ?thesis by simp
qed

definition demo_claim_input :: claim_input where
  "demo_claim_input = \<lparr>cl_worker = ''w'', cl_limit = Some (Whole 1), cl_lease_ms = None, cl_supported = None\<rparr>"

theorem claim_takes_due_jobs_witness:
  "\<exists>jobs rows2. claim (\<lambda>i. ''t'') 0 demo_claim_input (tbl demo_queued) = (Inr jobs, rows2)
    \<and> map (\<lambda>j. job_id (cj_row j)) jobs = [''j1'']"
proof -
  have u: "unique_key job_id (tbl demo_queued)" unfolding unique_key_def by code_simp
  have rec: "\<forall>r\<in>set (tbl demo_queued). js_is_record (job_payload r)" by code_simp
  have due: "map job_id (take (nat 1) (due_jobs 0 (parse_supported_identities (cl_supported demo_claim_input))
      (sweep_exhausted 0 (parse_supported_identities (cl_supported demo_claim_input)) (tbl demo_queued)))) = [''j1'']"
    by code_simp
  have inp: "cl_worker demo_claim_input \<noteq> []" "length (cl_worker demo_claim_input) \<le> 128"
    "option_or (cl_limit demo_claim_input) (Whole 10) = Whole 1"
    "option_or (cl_lease_ms demo_claim_input) (Whole default_lease_ms) = Whole 30000"
    by (simp_all add: demo_claim_input_def default_lease_ms_def)
  from claim_takes_due_jobs [OF u rec inp(1,2,3) _ _ inp(4), of 0 "\<lambda>i. ''t''"] due
  show ?thesis by (auto simp: Let_def)
qed

theorem batch_job_is_a_run_witness:
  "job_steps demo_first (demo_first\<lparr>tbl := run_claimed_job [(''storage-mutation'', 1)] 30000 default_retry_delay
     (hd (held demo_first)) [Some 3, None] None 5 (tbl demo_first)\<rparr>)"
proof -
  have h: "hd (held demo_first) \<in> set (held demo_first)"
    using demo_first_facts by (cases "held demo_first") simp_all
  from batch_job_is_a_run [OF demo_first_reachable h] show ?thesis by blast
qed

end
