(* ===== verification/LineSource.thy ===== *)
theory LineSource
  imports Prelude
begin

text \<open>
  Markdown sources as the line patch engine reads them
  (\<^verbatim>\<open>server/agents/patch/wiki-line-patch.ts\<close>, up to \<^verbatim>\<open>lineTag\<close>): strings of 16-bit code
  units, their UTF-8 encoding, the checks of \<^verbatim>\<open>validateWikiMarkdownSource\<close> and the split
  into lines. SHA-256 is a parameter of the definitions that hash.
\<close>

type_synonym utext = "16 word list"
type_synonym octets = "8 word list"

definition ustr :: "string \<Rightarrow> utext" where
  "ustr s = map (\<lambda>c. word_of_nat (of_char c)) s"

definition LF :: "16 word" where "LF = 10"
definition CR :: "16 word" where "CR = 13"

lemma LF_CR [simp]: "LF \<noteq> CR" "CR \<noteq> LF"
  by (simp_all add: LF_def CR_def)

section \<open>UTF-16\<close>

definition is_high :: "16 word \<Rightarrow> bool" where
  "is_high c = (0xd800 \<le> c \<and> c \<le> 0xdbff)"

definition is_low :: "16 word \<Rightarrow> bool" where
  "is_low c = (0xdc00 \<le> c \<and> c \<le> 0xdfff)"

text \<open>\<^verbatim>\<open>assertValidUtf16\<close>: a high surrogate is followed by a low one, which is then skipped.\<close>

fun valid_utf16 :: "utext \<Rightarrow> bool" where
  "valid_utf16 [] = True"
| "valid_utf16 [c] = (\<not> is_high c \<and> \<not> is_low c)"
| "valid_utf16 (c # d # cs) =
     (if is_high c then is_low d \<and> valid_utf16 cs
      else \<not> is_low c \<and> valid_utf16 (d # cs))"

definition assert_valid_utf16 :: "utext \<Rightarrow> unit result" where
  "assert_valid_utf16 t = (if valid_utf16 t then Inr () else Inl (Coded ''INVALID_UTF16'' 400))"

text \<open>The code points of a string, as its iterator yields them (a lone surrogate as itself).\<close>

definition surrogate_pair :: "16 word \<Rightarrow> 16 word \<Rightarrow> nat" where
  "surrogate_pair c d = 0x10000 + (unat c - 0xd800) * 0x400 + (unat d - 0xdc00)"

fun code_points :: "utext \<Rightarrow> nat list" where
  "code_points [] = []"
| "code_points [c] = [unat c]"
| "code_points (c # d # cs) =
     (if is_high c \<and> is_low d then surrogate_pair c d # code_points cs
      else unat c # code_points (d # cs))"

definition code_units :: "nat \<Rightarrow> utext" where
  "code_units n = (if n < 0x10000 then [word_of_nat n]
     else [word_of_nat (0xd800 + (n - 0x10000) div 0x400), word_of_nat (0xdc00 + (n - 0x10000) mod 0x400)])"

section \<open>UTF-8\<close>

text \<open>
  \<^verbatim>\<open>Buffer.from(text, 'utf8')\<close> and \<^verbatim>\<open>new TextDecoder('utf-8', {fatal: true})\<close>, by their
  standards: an encoder writes the replacement character for a lone surrogate; the decoder
  refuses every malformed sequence and drops one leading byte order mark.
\<close>

definition utf8_point :: "nat \<Rightarrow> nat list" where
  "utf8_point p = (let n = (if 0xd800 \<le> p \<and> p \<le> 0xdfff then 0xfffd else p) in
     if n < 0x80 then [n]
     else if n < 0x800 then [0xc0 + n div 64, 0x80 + n mod 64]
     else if n < 0x10000 then [0xe0 + n div 4096, 0x80 + n div 64 mod 64, 0x80 + n mod 64]
     else [0xf0 + n div 262144, 0x80 + n div 4096 mod 64, 0x80 + n div 64 mod 64, 0x80 + n mod 64])"

definition utf8_encode :: "utext \<Rightarrow> octets" where
  "utf8_encode t = map word_of_nat (concat (map utf8_point (code_points t)))"

definition tail_byte :: "nat \<Rightarrow> bool" where
  "tail_byte b = (0x80 \<le> b \<and> b \<le> 0xbf)"

definition second3 :: "nat \<Rightarrow> nat \<Rightarrow> bool" where
  "second3 a b = (tail_byte b \<and> (a = 0xe0 \<longrightarrow> 0xa0 \<le> b) \<and> (a = 0xed \<longrightarrow> b \<le> 0x9f))"

definition second4 :: "nat \<Rightarrow> nat \<Rightarrow> bool" where
  "second4 a b = (tail_byte b \<and> (a = 0xf0 \<longrightarrow> 0x90 \<le> b) \<and> (a = 0xf4 \<longrightarrow> b \<le> 0x8f))"

function utf8_points :: "nat list \<Rightarrow> nat list option" where
  "utf8_points bs = (case bs of
      [] \<Rightarrow> Some []
    | a # cs \<Rightarrow>
       if a < 0x80 then map_option ((#) a) (utf8_points cs)
       else if 0xc2 \<le> a \<and> a \<le> 0xdf then (case cs of
           b # ds \<Rightarrow> if tail_byte b then map_option ((#) ((a - 0xc0) * 64 + (b - 0x80))) (utf8_points ds) else None
         | _ \<Rightarrow> None)
       else if 0xe0 \<le> a \<and> a \<le> 0xef then (case cs of
           b # c # ds \<Rightarrow> if second3 a b \<and> tail_byte c
             then map_option ((#) ((a - 0xe0) * 4096 + (b - 0x80) * 64 + (c - 0x80))) (utf8_points ds) else None
         | _ \<Rightarrow> None)
       else if 0xf0 \<le> a \<and> a \<le> 0xf4 then (case cs of
           b # c # d # ds \<Rightarrow> if second4 a b \<and> tail_byte c \<and> tail_byte d
             then map_option ((#) ((a - 0xf0) * 262144 + (b - 0x80) * 4096 + (c - 0x80) * 64 + (d - 0x80))) (utf8_points ds)
             else None
         | _ \<Rightarrow> None)
       else None)"
  by pat_completeness auto
termination by (relation "measure length") auto

declare utf8_points.simps [simp del]

definition utf8_decode :: "octets \<Rightarrow> utext option" where
  "utf8_decode bs = (case utf8_points (map unat bs) of
     None \<Rightarrow> None
   | Some ps \<Rightarrow> Some (concat (map code_units (case ps of p # qs \<Rightarrow> if p = 0xfeff then qs else ps | [] \<Rightarrow> []))))"

definition scalar :: "nat \<Rightarrow> bool" where
  "scalar n = (n < 0x110000 \<and> \<not> (0xd800 \<le> n \<and> n \<le> 0xdfff))"

text \<open>The base-64 digits of a code point, as linear facts.\<close>

lemma digits64:
  fixes n :: nat
  shows "n div 64 * 64 + n mod 64 = n" "n mod 64 < 64"
    "n div 4096 * 64 + n div 64 mod 64 = n div 64" "n div 64 mod 64 < 64"
    "n div 262144 * 64 + n div 4096 mod 64 = n div 4096" "n div 4096 mod 64 < 64"
proof -
  have "n div 64 div 64 = n div 4096" "n div 4096 div 64 = n div 262144"
    by (simp_all add: div_mult2_eq [symmetric])
  then show "n div 4096 * 64 + n div 64 mod 64 = n div 64"
    "n div 262144 * 64 + n div 4096 mod 64 = n div 4096"
    using div_mult_mod_eq [of "n div 64" 64] div_mult_mod_eq [of "n div 4096" 64] by simp_all
qed simp_all

lemma utf8_points_2:
  assumes "0xc2 \<le> a" "a \<le> 0xdf" "tail_byte b"
  shows "utf8_points (a # b # bs) = map_option ((#) ((a - 0xc0) * 64 + (b - 0x80))) (utf8_points bs)"
  using assms by (subst utf8_points.simps) simp

lemma utf8_points_3:
  assumes "0xe0 \<le> a" "a \<le> 0xef" "second3 a b" "tail_byte c"
  shows "utf8_points (a # b # c # bs) =
    map_option ((#) ((a - 0xe0) * 4096 + (b - 0x80) * 64 + (c - 0x80))) (utf8_points bs)"
  using assms by (subst utf8_points.simps) simp

lemma utf8_points_4:
  assumes "0xf0 \<le> a" "a \<le> 0xf4" "second4 a b" "tail_byte c" "tail_byte d"
  shows "utf8_points (a # b # c # d # bs) =
    map_option ((#) ((a - 0xf0) * 262144 + (b - 0x80) * 4096 + (c - 0x80) * 64 + (d - 0x80))) (utf8_points bs)"
  using assms by (subst utf8_points.simps) simp

lemma utf8_points_step:
  assumes "scalar n"
  shows "utf8_points (utf8_point n @ bs) = map_option ((#) n) (utf8_points bs)"
proof -
  have n: "n < 0x110000" "\<not> (0xd800 \<le> n \<and> n \<le> 0xdfff)" using assms by (auto simp: scalar_def)
  define a b c d where "a = n div 262144" and "b = n div 4096 mod 64" and "c = n div 64 mod 64" and "d = n mod 64"
  note lin = digits64 [of n, folded a_def b_def c_def d_def]
  consider (one) "n < 0x80" | (two) "0x80 \<le> n" "n < 0x800" | (three) "0x800 \<le> n" "n < 0x10000" | (four) "0x10000 \<le> n"
    by linarith
  then show ?thesis
  proof cases
    case one
    then have "utf8_point n @ bs = n # bs" by (simp add: utf8_point_def)
    then show ?thesis using one by (simp add: utf8_points.simps [of "n # bs"])
  next
    case two
    have p: "utf8_point n = [0xc0 + n div 64, 0x80 + d]" using two by (simp add: utf8_point_def d_def)
    have "2 \<le> n div 64" "n div 64 \<le> 31" using two lin(1,2) by linarith+
    then show ?thesis
      using lin(1,2) by (simp add: p utf8_points_2 tail_byte_def)
  next
    case three
    have p: "utf8_point n = [0xe0 + n div 4096, 0x80 + c, 0x80 + d]"
      using three n(2) by (auto simp: utf8_point_def c_def d_def)
    have k: "n div 4096 \<le> 15" using three lin(1,2,3,4) by linarith
    have s: "second3 (0xe0 + n div 4096) (0x80 + c)"
      unfolding second3_def tail_byte_def
    proof (intro conjI impI)
      assume "0xe0 + n div 4096 = 0xe0" then show "0xa0 \<le> 0x80 + c" using three lin(1,2,3,4) by linarith
    next
      assume "0xe0 + n div 4096 = 0xed" then show "0x80 + c \<le> 0x9f" using three n lin(1,2,3,4) by linarith
    qed (use lin(4) in simp_all)
    have "n div 4096 * 4096 + c * 64 + d = n" using lin(1,3) by linarith
    with k s lin(2) show ?thesis
      by (simp add: p utf8_points_3 tail_byte_def)
  next
    case four
    have p: "utf8_point n = [0xf0 + a, 0x80 + b, 0x80 + c, 0x80 + d]"
      using four by (simp add: utf8_point_def a_def b_def c_def d_def)
    have k: "a \<le> 4" using n(1) lin(1,3,5) by linarith
    have s: "second4 (0xf0 + a) (0x80 + b)"
      unfolding second4_def tail_byte_def
    proof (intro conjI impI)
      assume "0xf0 + a = 0xf0" then show "0x90 \<le> 0x80 + b" using four lin by linarith
    next
      assume "0xf0 + a = 0xf4" then show "0x80 + b \<le> 0x8f" using n(1) lin by linarith
    qed (use lin(6) in simp_all)
    have "a * 262144 + b * 4096 + c * 64 + d = n" using lin(1,3,5) by linarith
    with k s lin(2,4) show ?thesis
      by (simp add: p utf8_points_4 tail_byte_def)
  qed
qed

lemma utf8_points_encode: "list_all scalar ps \<Longrightarrow> utf8_points (concat (map utf8_point ps)) = Some ps"
proof (induction ps)
  case Nil
  show ?case by (simp add: utf8_points.simps)
next
  case (Cons p ps)
  then show ?case by (simp add: utf8_points_step)
qed

lemma surrogate_bounds:
  "is_high c \<Longrightarrow> 0xd800 \<le> unat c \<and> unat c \<le> 0xdbff"
  "is_low c \<Longrightarrow> 0xdc00 \<le> unat c \<and> unat c \<le> 0xdfff"
  by (simp_all add: is_high_def is_low_def word_le_nat_alt)

lemma not_surrogate: "\<not> is_high c \<Longrightarrow> \<not> is_low c \<Longrightarrow> \<not> (0xd800 \<le> unat c \<and> unat c \<le> 0xdfff)"
  by (auto simp: is_high_def is_low_def word_le_nat_alt)

lemma unat_16 [simp]: "unat (c :: 16 word) < 65536"
  using unsigned_less [of c] by simp

lemma scalar_unit: "\<not> is_high c \<Longrightarrow> \<not> is_low c \<Longrightarrow> scalar (unat c)"
  using not_surrogate [of c] unat_16 [of c] by (auto simp: scalar_def simp del: unat_16)

lemma scalar_pair: "is_high c \<Longrightarrow> is_low d \<Longrightarrow> scalar (surrogate_pair c d)"
  using surrogate_bounds [of c] surrogate_bounds [of d] by (auto simp: scalar_def surrogate_pair_def)

lemma code_units_unit: "code_units (unat c) = [c]"
  using unat_16 [of c] by (simp add: code_units_def)

lemma code_units_pair:
  assumes "is_high c" "is_low d"
  shows "code_units (surrogate_pair c d) = [c, d]"
proof -
  from assms have b: "0xd800 \<le> unat c" "0xdc00 \<le> unat d" "unat d - 0xdc00 < 0x400"
    using surrogate_bounds [of c] surrogate_bounds [of d] by auto
  have "(surrogate_pair c d - 0x10000) div 0x400 = unat c - 0xd800"
    "(surrogate_pair c d - 0x10000) mod 0x400 = unat d - 0xdc00"
    using b(3) by (simp_all add: surrogate_pair_def)
  with b(1,2) show ?thesis by (simp add: code_units_def) (simp add: surrogate_pair_def)
qed

lemma high_not_low: "is_high c \<Longrightarrow> \<not> is_low c"
  using surrogate_bounds [of c] by auto

lemma code_points_valid:
  "valid_utf16 t \<Longrightarrow> list_all scalar (code_points t) \<and> concat (map code_units (code_points t)) = t"
  by (induction t rule: valid_utf16.induct)
    (auto simp: scalar_unit scalar_pair code_units_unit code_units_pair dest: high_not_low)

lemma utf8_point_octets: "scalar p \<Longrightarrow> list_all (\<lambda>b. b < 256) (utf8_point p)"
  using digits64(4,6) [of p] by (auto simp: utf8_point_def scalar_def intro: less_trans [of _ 64])

lemma map_unat_octets: "list_all (\<lambda>b. b < 256) bs \<Longrightarrow> map (unat \<circ> (word_of_nat :: nat \<Rightarrow> 8 word)) bs = bs"
  by (rule map_idI) (simp add: list_all_iff unat_of_nat)

lemma map_unat_encode:
  assumes "list_all scalar ps"
  shows "map unat (map (word_of_nat :: nat \<Rightarrow> 8 word) (concat (map utf8_point ps))) = concat (map utf8_point ps)"
proof -
  have "list_all (\<lambda>b. b < 256) (concat (map utf8_point ps))"
    using assms utf8_point_octets by (fastforce simp: list_all_iff)
  then show ?thesis by (simp add: map_unat_octets)
qed

lemma unat_bom: "unat c = 0xfeff \<longleftrightarrow> c = (0xfeff :: 16 word)"
  using word_unat_eq_iff [of c "0xfeff"] by simp

lemma code_points_head: "hd (code_points (c # t)) = 0xfeff \<longleftrightarrow> c = 0xfeff"
proof (cases t)
  case Nil
  have "unat c = 0xfeff \<longleftrightarrow> c = 0xfeff" by (rule unat_bom)
  with Nil show ?thesis by simp
next
  case (Cons d cs)
  have "unat c = 0xfeff \<longleftrightarrow> c = 0xfeff" by (rule unat_bom)
  moreover have "is_high c \<Longrightarrow> is_low d \<Longrightarrow> surrogate_pair c d \<noteq> 0xfeff" by (simp add: surrogate_pair_def)
  moreover have "is_high c \<Longrightarrow> c \<noteq> 0xfeff" by (auto simp: is_high_def)
  ultimately show ?thesis using Cons by auto
qed

text \<open>A string comes back from its UTF-8 encoding unless it starts with a byte order mark.\<close>

definition starts_with_bom :: "utext \<Rightarrow> bool" where
  "starts_with_bom t = (case t of c # _ \<Rightarrow> c = 0xfeff | [] \<Rightarrow> False)"

lemma code_points_Nil: "code_points t = [] \<longleftrightarrow> t = []"
  by (induction t rule: code_points.induct) auto

lemma utf8_decode_encode:
  assumes "valid_utf16 t"
  shows "utf8_decode (utf8_encode t) = Some (if starts_with_bom t then tl t else t)"
proof -
  from code_points_valid [OF assms] have v: "list_all scalar (code_points t)"
    "concat (map code_units (code_points t)) = t" by auto
  have dec: "utf8_points (map unat (utf8_encode t)) = Some (code_points t)"
    unfolding utf8_encode_def map_unat_encode [OF v(1)] by (rule utf8_points_encode [OF v(1)])
  show ?thesis
  proof (cases t)
    case Nil
    then show ?thesis using dec by (simp add: utf8_decode_def starts_with_bom_def)
  next
    case (Cons c cs)
    then obtain p ps where p: "code_points t = p # ps" using code_points_Nil by (metis list.exhaust list.discI)
    have iff: "p = 0xfeff \<longleftrightarrow> c = 0xfeff" using code_points_head [of c cs] p Cons by simp
    have "concat (map code_units ps) = cs" if "p = 0xfeff"
      using v(2) p Cons that by (simp add: code_units_def)
    with dec p v(2) iff Cons show ?thesis
      by (simp add: utf8_decode_def starts_with_bom_def)
  qed
qed

section \<open>Reading a source\<close>

text \<open>A source is a string or the bytes of one.\<close>

datatype source_input = Text utext | Octets octets

definition decode_source :: "source_input \<Rightarrow> (utext \<times> octets) result" where
  "decode_source src = (case src of
      Text t \<Rightarrow> rbind (assert_valid_utf16 t) (\<lambda>_.
        let bytes = utf8_encode t
        in if utf8_decode bytes \<noteq> Some t then Inl (Coded ''INVALID_UTF8'' 400) else Inr (t, bytes))
    | Octets bytes \<Rightarrow> (case utf8_decode bytes of
          None \<Rightarrow> Inl (Coded ''INVALID_UTF8'' 400)
        | Some t \<Rightarrow> rbind (assert_valid_utf16 t) (\<lambda>_. Inr (t, bytes))))"

datatype warning_reason = Line_separator | Bidi_control | Default_ignorable

definition between :: "nat \<Rightarrow> nat \<Rightarrow> nat \<Rightarrow> bool" where
  "between n a b = (a \<le> n \<and> n \<le> b)"

definition warning_reason :: "nat \<Rightarrow> warning_reason option" where
  "warning_reason n =
     (if n = 0x85 \<or> n = 0x2028 \<or> n = 0x2029 then Some Line_separator
      else if between n 0x202a 0x202e \<or> between n 0x2066 0x2069 \<or> n = 0x200e \<or> n = 0x200f \<or> n = 0x061c
        then Some Bidi_control
      else if n = 0x00ad \<or> n = 0x034f \<or> n = 0x061c \<or> n = 0xfeff \<or> between n 0x180b 0x180f
        \<or> between n 0x200b 0x200f \<or> between n 0x202a 0x202e \<or> between n 0x2060 0x206f
        \<or> between n 0xfe00 0xfe0f \<or> between n 0xe0100 0xe01ef
        then Some Default_ignorable
      else None)"

text \<open>The position and the code point of a warning; its text \<^verbatim>\<open>U+XXXX\<close> is the code point.\<close>

record source_warning =
  wn_line :: nat
  wn_column :: nat
  wn_point :: nat
  wn_reason :: warning_reason

fun warnings_from :: "nat \<Rightarrow> nat \<Rightarrow> nat list \<Rightarrow> source_warning list" where
  "warnings_from line column [] = []"
| "warnings_from line column (p # ps) =
     (if p = 10 then warnings_from (line + 1) 1 ps
      else if p = 13 then warnings_from line column ps
      else (case warning_reason p of
              None \<Rightarrow> warnings_from line (column + 1) ps
            | Some r \<Rightarrow> \<lparr>wn_line = line, wn_column = column, wn_point = p, wn_reason = r\<rparr>
                         # warnings_from line (column + 1) ps))"

definition source_warnings :: "utext \<Rightarrow> source_warning list" where
  "source_warnings t = warnings_from 1 1 (code_points t)"

datatype line_ending = Lf | Crlf

text \<open>With a CR anywhere, every CR is before an LF and every LF after a CR.\<close>

fun crlf_only :: "bool \<Rightarrow> utext \<Rightarrow> bool" where
  "crlf_only after_cr [] = True"
| "crlf_only after_cr (c # cs) =
     (if c = CR then (case cs of d # _ \<Rightarrow> d = LF | [] \<Rightarrow> False) \<and> crlf_only True cs
      else if c = LF then after_cr \<and> crlf_only False cs
      else crlf_only False cs)"

text \<open>\<^verbatim>\<open>replaceAll('\r\n', '\n')\<close>, \<^verbatim>\<open>replaceAll('\n', '\r\n')\<close> and \<^verbatim>\<open>split('\n')\<close>.\<close>

fun drop_cr :: "utext \<Rightarrow> utext" where
  "drop_cr [] = []"
| "drop_cr [c] = [c]"
| "drop_cr (c # d # cs) = (if c = CR \<and> d = LF then LF # drop_cr cs else c # drop_cr (d # cs))"

definition add_cr :: "utext \<Rightarrow> utext" where
  "add_cr t = concat (map (\<lambda>c. if c = LF then [CR, LF] else [c]) t)"

fun split_lf :: "utext \<Rightarrow> utext list" where
  "split_lf [] = [[]]"
| "split_lf (c # cs) = (if c = LF then [] # split_lf cs
     else case split_lf cs of l # ls \<Rightarrow> (c # l) # ls | [] \<Rightarrow> [[c]])"

fun join_lf :: "utext list \<Rightarrow> utext" where
  "join_lf [] = []"
| "join_lf [l] = l"
| "join_lf (l # m # ls) = l @ LF # join_lf (m # ls)"

definition source_lines :: "utext \<Rightarrow> utext list" where
  "source_lines t = (let ls = (if t = [] then [] else split_lf t) in if ends_with t [LF] then butlast ls else ls)"

record md_source =
  ms_text :: utext
  ms_bytes :: octets
  ms_canonical :: utext
  ms_canonical_bytes :: octets
  ms_lines :: "utext list"
  ms_ending :: line_ending
  ms_final_newline :: bool
  ms_raw_sha :: string
  ms_canonical_sha :: string
  ms_tag :: string
  ms_warnings :: "source_warning list"

definition max_source_bytes :: nat where "max_source_bytes = 1048576"
definition max_source_lines :: nat where "max_source_lines = 20000"

definition validate_source :: "(octets \<Rightarrow> string) \<Rightarrow> source_input \<Rightarrow> md_source result" where
  "validate_source sha src = rbind (decode_source src) (\<lambda>(t, bytes).
     if length bytes > max_source_bytes then Inl (Coded ''SOURCE_TOO_LARGE'' 400)
     else if 0 \<in> set t then Inl (Coded ''SOURCE_CONTAINS_NUL'' 400)
     else if CR \<in> set t \<and> \<not> crlf_only False t then Inl (Coded ''MIXED_LINE_ENDINGS'' 400)
     else
       let ending = (if CR \<in> set t then Crlf else Lf);
           canonical = (if ending = Crlf then drop_cr t else t);
           final_newline = ends_with canonical [LF];
           lines = source_lines canonical;
           canonical_bytes = utf8_encode canonical;
           canonical_sha = sha canonical_bytes
       in if length lines > max_source_lines then Inl (Coded ''SOURCE_TOO_MANY_LINES'' 400)
          else Inr \<lparr>ms_text = t, ms_bytes = bytes, ms_canonical = canonical,
                 ms_canonical_bytes = canonical_bytes, ms_lines = lines, ms_ending = ending,
                 ms_final_newline = final_newline, ms_raw_sha = sha bytes,
                 ms_canonical_sha = canonical_sha, ms_tag = take 12 canonical_sha,
                 ms_warnings = source_warnings t\<rparr>)"

text \<open>The tag of a line: a hash of the document tag, the line number and the text.\<close>

definition line_tag :: "(octets \<Rightarrow> string) \<Rightarrow> string \<Rightarrow> nat \<Rightarrow> utext \<Rightarrow> string" where
  "line_tag sha tag n t = take 12 (sha (utf8_encode (ustr tag @ [0] @ ustr (decimal n) @ [0] @ t)))"

section \<open>Laws\<close>

lemma split_lf_nonempty [simp]: "split_lf t \<noteq> []"
  by (induction t) (auto split: list.splits)

lemma join_split: "join_lf (split_lf t) = t"
proof (induction t)
  case (Cons c cs)
  then show ?case
    by (cases "split_lf cs"; cases "tl (split_lf cs)") (auto split: list.splits)
qed simp

lemma split_lf_lines: "l \<in> set (split_lf t) \<Longrightarrow> LF \<notin> set l"
  by (induction t arbitrary: l) (auto split: list.splits if_splits)

lemma set_join_lf: "l \<in> set ls \<Longrightarrow> set l \<subseteq> set (join_lf ls)"
  by (induction ls rule: join_lf.induct) auto

lemma set_split_lf: "l \<in> set (split_lf t) \<Longrightarrow> set l \<subseteq> set t"
  using set_join_lf [of l "split_lf t"] by (simp add: join_split)

lemma split_lf_snoc: "split_lf (t @ [LF]) = split_lf t @ [[]]"
  by (induction t) (auto split: list.splits)

lemma join_lf_snoc: "ls \<noteq> [] \<Longrightarrow> join_lf (ls @ [l]) = join_lf ls @ LF # l"
  by (induction ls rule: join_lf.induct) auto

definition line_text :: "utext list \<Rightarrow> bool \<Rightarrow> utext" where
  "line_text ls final = join_lf ls @ (if final then [LF] else [])"

lemma source_lines_text: "line_text (source_lines t) (ends_with t [LF]) = t"
proof (cases "ends_with t [LF]")
  case True
  then obtain u where u: "t = u @ [LF]" by (auto simp: ends_with_iff)
  then have "source_lines t = split_lf u" using True by (simp add: source_lines_def split_lf_snoc)
  with u True show ?thesis by (simp add: line_text_def join_split)
next
  case False
  then show ?thesis by (simp add: source_lines_def line_text_def join_split)
qed

lemma drop_cr_Cons: "c \<noteq> CR \<Longrightarrow> drop_cr (c # t) = c # drop_cr t"
  by (cases t) simp_all

lemma drop_cr_add_cr: "CR \<notin> set t \<Longrightarrow> drop_cr (add_cr t) = t"
  by (induction t) (auto simp: add_cr_def drop_cr_Cons)

lemma add_cr_drop_cr: "crlf_only False t \<Longrightarrow> add_cr (drop_cr t) = t"
proof (induction t rule: drop_cr.induct)
  case (2 c)
  then show ?case by (auto simp: add_cr_def split: if_splits)
next
  case (3 c d cs)
  then show ?case by (auto simp: add_cr_def split: if_splits)
qed (simp add: add_cr_def)

lemma drop_cr_no_cr: "crlf_only False t \<Longrightarrow> CR \<notin> set (drop_cr t)"
  by (induction t rule: drop_cr.induct) (auto split: if_splits)

lemma drop_cr_set: "set (drop_cr t) \<subseteq> set t"
  by (induction t rule: drop_cr.induct) auto

lemma source_line_set:
  assumes "l \<in> set (source_lines t)"
  shows "set l \<subseteq> set t \<and> LF \<notin> set l"
proof -
  have "l \<in> set (split_lf t)"
    using assms by (auto simp: source_lines_def Let_def dest: in_set_butlastD split: if_splits)
  then show ?thesis using set_split_lf split_lf_lines by blast
qed

definition restore :: "line_ending \<Rightarrow> utext \<Rightarrow> utext" where
  "restore e t = (if e = Crlf then add_cr t else t)"

text \<open>Validation reads a source without loss. The canonical text is the lines joined with
  LF, with a last LF exactly when the source has a final newline; putting the source's own
  line ending back gives its text; and no line holds CR, LF or NUL.\<close>

theorem source_reads_without_loss:
  assumes "validate_source sha src = Inr m"
  shows "line_text (ms_lines m) (ms_final_newline m) = ms_canonical m
    \<and> restore (ms_ending m) (ms_canonical m) = ms_text m
    \<and> length (ms_lines m) \<le> max_source_lines
    \<and> (\<forall>l\<in>set (ms_lines m). CR \<notin> set l \<and> LF \<notin> set l \<and> 0 \<notin> set l)"
proof -
  let ?cr = "CR \<in> set (ms_text m)"
  from assms have m: "ms_canonical m = (if ?cr then drop_cr (ms_text m) else ms_text m)"
    "ms_ending m = (if ?cr then Crlf else Lf)" "ms_lines m = source_lines (ms_canonical m)"
    "ms_final_newline m = ends_with (ms_canonical m) [LF]" "0 \<notin> set (ms_text m)"
    "?cr \<longrightarrow> crlf_only False (ms_text m)" "length (ms_lines m) \<le> max_source_lines"
    by (auto simp: validate_source_def rbind_Inr_iff Let_def split: if_splits)
  have joined: "line_text (ms_lines m) (ms_final_newline m) = ms_canonical m"
    by (simp add: m(3,4) source_lines_text)
  have res: "restore (ms_ending m) (ms_canonical m) = ms_text m"
    using m(6) by (simp add: restore_def m(1,2) add_cr_drop_cr)
  have canon: "CR \<notin> set (ms_canonical m)" "0 \<notin> set (ms_canonical m)"
    using m(5,6) drop_cr_no_cr drop_cr_set [of "ms_text m"] by (auto simp: m(1))
  have "set l \<subseteq> set (ms_canonical m) \<and> LF \<notin> set l" if "l \<in> set (ms_lines m)" for l
    using that by (simp add: m(3)) (rule source_line_set)
  with canon joined res m(7) show ?thesis by blast
qed

text \<open>The definitions an evaluation on a concrete source unfolds.\<close>

lemmas source_eval = validate_source_def decode_source_def assert_valid_utf16_def is_high_def is_low_def
  utf8_encode_def utf8_point_def utf8_decode_def utf8_points.simps code_units_def max_source_bytes_def
  max_source_lines_def LF_def CR_def source_lines_def ends_with_def source_warnings_def warning_reason_def
  between_def ustr_def

text \<open>A source that reads: two lines with CRLF endings.\<close>

definition demo_sha :: "octets \<Rightarrow> string" where
  "demo_sha bs = concat (replicate 64 (if length bs mod 2 = 0 then ''a'' else ''b''))"

theorem source_reads_without_loss_witness:
  "\<exists>m. validate_source demo_sha (Text (ustr ''ab'' @ [CR, LF] @ ustr ''c'' @ [CR, LF])) = Inr m
     \<and> restore (ms_ending m) (ms_canonical m) = ustr ''ab'' @ [CR, LF] @ ustr ''c'' @ [CR, LF]"
proof -
  let ?t = "ustr ''ab'' @ [CR, LF] @ ustr ''c'' @ [CR, LF]"
  have ok: "is_ok (validate_source demo_sha (Text ?t))" by (simp add: source_eval Let_def)
  then obtain m where m: "validate_source demo_sha (Text ?t) = Inr m"
    by (auto simp: is_ok_def split: sum.splits)
  then have "ms_text m = ?t"
    by (auto simp: validate_source_def rbind_Inr_iff decode_source_def Let_def split: if_splits)
  with source_reads_without_loss [OF m] m show ?thesis by auto
qed

text \<open>A string source is accepted by the decoding step exactly when it is valid UTF-16 and
  does not start with a byte order mark: the decoder behind the round-trip check drops the
  mark, so such a string never equals its decoding.\<close>

theorem string_source_decoding:
  "is_ok (decode_source (Text t)) \<longleftrightarrow> valid_utf16 t \<and> \<not> starts_with_bom t"
  by (auto simp: decode_source_def assert_valid_utf16_def utf8_decode_encode Let_def starts_with_bom_def split: list.splits)

text \<open>The same text given as bytes is accepted, and read without the mark.\<close>

lemma octets_source_decoding:
  "valid_utf16 t \<Longrightarrow> starts_with_bom t \<Longrightarrow>
   decode_source (Octets (utf8_encode t)) = rbind (assert_valid_utf16 (tl t)) (\<lambda>_. Inr (tl t, utf8_encode t))"
  by (auto simp: decode_source_def assert_valid_utf16_def utf8_decode_encode starts_with_bom_def split: list.splits)

end
