(* ===== verification/LinePatch.thy ===== *)
theory LinePatch
  imports LineSource "HOL-Library.Product_Lexorder"
begin

text \<open>
  The line patch engine (\<^verbatim>\<open>server/agents/patch/wiki-line-patch.ts\<close>, from
  \<^verbatim>\<open>normalizeRanges\<close> on): disclosed line ranges, signed snapshot tokens, the resolution of
  anchors and gaps, and \<^verbatim>\<open>applyWikiLinePatch\<close>.

  What the engine takes from libraries is the record \<open>line_env\<close>: SHA-256, the HMAC, base64url,
  the JSON texts it hashes or signs and the unified diff. A patch arrives parsed; the limits
  of its schema are checked by \<open>valid_patch\<close>.
\<close>

section \<open>Disclosed ranges\<close>

record line_range =
  lr_start :: nat
  lr_end :: nat

definition range_lines :: "line_range \<Rightarrow> nat set" where
  "range_lines r = {lr_start r..lr_end r}"

definition line_is_disclosed :: "nat \<Rightarrow> line_range list \<Rightarrow> bool" where
  "line_is_disclosed n rs = list_ex (\<lambda>r. lr_start r \<le> n \<and> n \<le> lr_end r) rs"

definition max_disclosed_lines :: nat where "max_disclosed_lines = 5000"

definition valid_range :: "nat \<Rightarrow> line_range \<Rightarrow> bool" where
  "valid_range n r = (int (lr_start r) \<le> max_safe \<and> int (lr_end r) \<le> max_safe
     \<and> 1 \<le> lr_start r \<and> lr_start r \<le> lr_end r \<and> lr_end r \<le> n)"

text \<open>The loop that merges a sorted list: \<open>acc\<close> is \<^verbatim>\<open>normalized\<close>, last element first.\<close>

fun merge_ranges :: "line_range list \<Rightarrow> line_range list \<Rightarrow> line_range list" where
  "merge_ranges acc [] = rev acc"
| "merge_ranges [] (r # rs) = merge_ranges [r] rs"
| "merge_ranges (p # acc) (r # rs) =
     (if lr_start r \<le> lr_end p + 1
      then merge_ranges (p\<lparr>lr_end := max (lr_end p) (lr_end r)\<rparr> # acc) rs
      else merge_ranges (r # p # acc) rs)"

definition range_order :: "line_range \<Rightarrow> nat \<times> nat" where
  "range_order r = (lr_start r, lr_end r)"

definition disclosed_count :: "line_range list \<Rightarrow> nat" where
  "disclosed_count rs = sum_list (map (\<lambda>r. lr_end r + 1 - lr_start r) rs)"

definition normalize_ranges :: "line_range list \<Rightarrow> nat \<Rightarrow> line_range list result" where
  "normalize_ranges rs n =
     (if n = 0 then (if rs \<noteq> [] then Inl (Coded ''INVALID_DISCLOSURE'' 400) else Inr [])
      else if \<not> list_all (valid_range n) rs then Inl (Coded ''INVALID_DISCLOSURE'' 400)
      else let normalized = merge_ranges [] (sort_key range_order rs)
           in if disclosed_count normalized > max_disclosed_lines
              then Inl (Coded ''DISCLOSURE_TOO_LARGE'' 400) else Inr normalized)"

text \<open>Ranges in order with at least one line between neighbours.\<close>

fun separated :: "line_range list \<Rightarrow> bool" where
  "separated (p # q # rs) = (lr_end p + 1 < lr_start q \<and> separated (q # rs))"
| "separated rs = True"

lemma separated_snoc:
  "separated (rs @ [p, q]) \<longleftrightarrow> separated (rs @ [p]) \<and> lr_end p + 1 < lr_start q"
  by (induction rs rule: separated.induct) auto

definition ranges_cover :: "line_range list \<Rightarrow> nat set" where
  "ranges_cover rs = (\<Union>r\<in>set rs. range_lines r)"

lemma merge_ranges_correct:
  assumes "sorted (map lr_start rs)" "\<forall>r\<in>set (acc @ rs). valid_range n r"
    "separated (rev acc)" "acc \<noteq> [] \<longrightarrow> (\<forall>r\<in>set rs. lr_start (hd acc) \<le> lr_start r)"
  shows "separated (merge_ranges acc rs) \<and> (\<forall>r\<in>set (merge_ranges acc rs). valid_range n r)
    \<and> ranges_cover (merge_ranges acc rs) = ranges_cover acc \<union> ranges_cover rs"
  using assms
proof (induction acc rs rule: merge_ranges.induct)
  case (1 acc)
  then show ?case by (simp add: ranges_cover_def)
next
  case (2 r rs)
  then show ?case by (auto simp: ranges_cover_def)
next
  case (3 p acc r rs)
  show ?case
  proof (cases "lr_start r \<le> lr_end p + 1")
    case True
    let ?p = "p\<lparr>lr_end := max (lr_end p) (lr_end r)\<rparr>"
    have v: "\<forall>q\<in>set ((?p # acc) @ rs). valid_range n q"
      using 3(4) by (auto simp: valid_range_def)
    have s: "separated (rev (?p # acc))"
      using 3(5) by (cases acc) (auto simp: separated_snoc)
    have h: "\<forall>q\<in>set rs. lr_start p \<le> lr_start q" using 3(3,6) by auto
    have "range_lines ?p = range_lines p \<union> range_lines r"
      using True 3(4,6) by (auto simp: range_lines_def valid_range_def)
    then have c: "ranges_cover (?p # acc) \<union> ranges_cover rs = ranges_cover (p # acc) \<union> ranges_cover (r # rs)"
      by (auto simp: ranges_cover_def)
    from 3(1) [OF True _ v s] 3(3) h c True show ?thesis by auto
  next
    case False
    have "separated (rev (r # p # acc))" using 3(5) False by (simp add: separated_snoc)
    with 3(2) [OF False] 3(3,4) False show ?thesis by (auto simp: ranges_cover_def)
  qed
qed

lemma line_is_disclosed_iff: "line_is_disclosed n rs \<longleftrightarrow> n \<in> ranges_cover rs"
  by (auto simp: line_is_disclosed_def ranges_cover_def range_lines_def list_ex_iff)

lemma sorted_starts: "sorted (map lr_start (sort_key range_order rs))"
proof -
  have "sorted (map range_order (sort_key range_order rs))" by simp
  then show ?thesis unfolding sorted_map
    by (rule sorted_wrt_mono_rel [rotated]) (auto simp: range_order_def less_eq_prod_def)
qed

lemma normalize_ranges_props:
  assumes "normalize_ranges rs n = Inr out"
  shows "(\<forall>k. line_is_disclosed k out \<longleftrightarrow> line_is_disclosed k rs)
    \<and> separated out \<and> (\<forall>r\<in>set out. valid_range n r) \<and> disclosed_count out \<le> max_disclosed_lines"
proof (cases "n = 0")
  case True
  with assms show ?thesis by (auto simp: normalize_ranges_def disclosed_count_def split: if_splits)
next
  case False
  with assms have v: "list_all (valid_range n) rs" and out: "out = merge_ranges [] (sort_key range_order rs)"
    and c: "disclosed_count out \<le> max_disclosed_lines"
    by (auto simp: normalize_ranges_def Let_def split: if_splits)
  have "separated out \<and> (\<forall>r\<in>set out. valid_range n r) \<and> ranges_cover out = ranges_cover (sort_key range_order rs)"
    using merge_ranges_correct [OF sorted_starts, of "[]" rs n] v
    by (simp add: out list_all_iff) (simp add: ranges_cover_def)
  with c show ?thesis by (simp add: line_is_disclosed_iff) (simp add: ranges_cover_def)
qed

lemma normalize_ranges_bounds:
  "normalize_ranges rs n = Inr out \<Longrightarrow> (\<forall>r\<in>set out. valid_range n r) \<and> length out \<le> max_disclosed_lines"
proof -
  assume "normalize_ranges rs n = Inr out"
  from normalize_ranges_props [OF this] have p: "\<forall>r\<in>set out. valid_range n r" "disclosed_count out \<le> max_disclosed_lines"
    by auto
  have "length out \<le> disclosed_count out"
    using p(1) by (induction out) (auto simp: disclosed_count_def valid_range_def)
  with p show ?thesis by simp
qed

text \<open>Normalising disclosed ranges keeps exactly the lines asked for: the result discloses a
  line when some given range does, its ranges are within the document, in order and neither
  overlapping nor adjacent, and they hold at most the allowed number of lines.\<close>

theorem normalized_ranges_same_lines:
  assumes "normalize_ranges rs n = Inr out"
  shows "(\<forall>k. line_is_disclosed k out \<longleftrightarrow> line_is_disclosed k rs)
    \<and> separated out \<and> (\<forall>r\<in>set out. valid_range n r) \<and> disclosed_count out \<le> max_disclosed_lines"
  by (rule normalize_ranges_props [OF assms])

theorem normalized_ranges_same_lines_witness:
  "line_is_disclosed 4 [\<lparr>lr_start = 1, lr_end = 5\<rparr>] \<longleftrightarrow>
   line_is_disclosed 4 [\<lparr>lr_start = 3, lr_end = 5\<rparr>, \<lparr>lr_start = 1, lr_end = 2\<rparr>]"
proof -
  have "normalize_ranges [\<lparr>lr_start = 3, lr_end = 5\<rparr>, \<lparr>lr_start = 1, lr_end = 2\<rparr>] 9 = Inr [\<lparr>lr_start = 1, lr_end = 5\<rparr>]"
    by code_simp
  from normalized_ranges_same_lines [OF this] show ?thesis by blast
qed

section \<open>Snapshot tokens\<close>

record token_payload =
  tp_version :: string
  tp_page :: int
  tp_requester_sha :: string
  tp_revision :: string
  tp_raw_sha :: string
  tp_canonical_sha :: string
  tp_tag :: string
  tp_ending :: line_ending
  tp_final_newline :: bool
  tp_line_count :: nat
  tp_disclosed :: "line_range list"
  tp_ranges_sha :: string
  tp_expires :: int

record anchor =
  an_line :: nat
  an_tag :: string

datatype patch_op =
    Insert "anchor option" "anchor option" "utext list"
  | Replace anchor anchor "utext list"
  | Delete anchor anchor

record line_patch =
  pt_version :: string
  pt_token :: string
  pt_tag :: string
  pt_final_newline :: bool
  pt_ops :: "patch_op list"

record line_env =
  le_sha :: "octets \<Rightarrow> string"
  le_hmac :: "octets \<Rightarrow> string \<Rightarrow> octets"
  le_b64 :: "octets \<Rightarrow> string"
  le_unb64 :: "string \<Rightarrow> octets"
  le_json :: "token_payload \<Rightarrow> octets"
  le_parse :: "octets \<Rightarrow> token_payload option"
  le_json_patch :: "line_patch \<Rightarrow> utext"
  le_diff :: "utext \<Rightarrow> utext \<Rightarrow> utext"

text \<open>\<^verbatim>\<open>JSON.stringify\<close> of a list of ranges.\<close>

definition json_range :: "line_range \<Rightarrow> string" where
  "json_range r = ''{'' @ [CHR 0x22] @ ''startLine'' @ [CHR 0x22] @ '':'' @ decimal (lr_start r) @ '',''
     @ [CHR 0x22] @ ''endLine'' @ [CHR 0x22] @ '':'' @ decimal (lr_end r) @ ''}''"

fun comma_list :: "string list \<Rightarrow> string" where
  "comma_list [] = []"
| "comma_list [x] = x"
| "comma_list (x # y # xs) = x @ '','' @ comma_list (y # xs)"

definition sha_text :: "line_env \<Rightarrow> utext \<Rightarrow> string" where
  "sha_text e t = le_sha e (utf8_encode t)"

definition ranges_hash :: "line_env \<Rightarrow> line_range list \<Rightarrow> string" where
  "ranges_hash e rs = sha_text e (ustr (''['' @ comma_list (map json_range rs) @ '']''))"

definition requester_hash :: "line_env \<Rightarrow> string \<Rightarrow> string" where
  "requester_hash e scope = sha_text e (ustr scope)"

definition token_version :: string where
  "token_version = ''wiki-line-snapshot-token-v1''"

definition sign_token :: "line_env \<Rightarrow> token_payload \<Rightarrow> octets \<Rightarrow> string result" where
  "sign_token e p secret =
     (if length secret < 32 then Inl (Coded ''INVALID_TOKEN_SECRET'' 500)
      else let encoded = le_b64 e (le_json e p)
           in Inr (''v1.'' @ encoded @ ''.'' @ le_b64 e (le_hmac e secret encoded)))"

text \<open>The schema of a token payload.\<close>

definition valid_payload :: "token_payload \<Rightarrow> bool" where
  "valid_payload p = (tp_version p = token_version \<and> 1 \<le> tp_page p \<and> is_hex 64 (tp_requester_sha p)
     \<and> 1 \<le> length (tp_revision p) \<and> length (tp_revision p) \<le> 64
     \<and> is_hex 64 (tp_raw_sha p) \<and> is_hex 64 (tp_canonical_sha p) \<and> is_hex 12 (tp_tag p)
     \<and> tp_line_count p \<le> max_source_lines
     \<and> list_all (\<lambda>r. 1 \<le> lr_start r \<and> 1 \<le> lr_end r) (tp_disclosed p)
     \<and> length (tp_disclosed p) \<le> max_source_lines
     \<and> is_hex 64 (tp_ranges_sha p) \<and> 1 \<le> tp_expires p)"

text \<open>\<^verbatim>\<open>token.split('.')\<close>\<close>

fun split_dot :: "string \<Rightarrow> string list" where
  "split_dot [] = [[]]"
| "split_dot (c # cs) = (if c = CHR ''.'' then [] # split_dot cs
     else case split_dot cs of l # ls \<Rightarrow> (c # l) # ls | [] \<Rightarrow> [[c]])"

definition bad_token :: js_error where
  "bad_token = Coded ''INVALID_SNAPSHOT_TOKEN'' 409"

definition verify_token :: "line_env \<Rightarrow> int \<Rightarrow> string \<Rightarrow> octets \<Rightarrow> token_payload result" where
  "verify_token e now token secret = (case split_dot token of
      [v, body, signature] \<Rightarrow>
        if v \<noteq> ''v1'' \<or> body = [] \<or> signature = [] then Inl bad_token
        else if le_unb64 e signature \<noteq> le_hmac e secret body then Inl bad_token
        else (case le_parse e (le_unb64 e body) of
            None \<Rightarrow> Inl bad_token
          | Some p \<Rightarrow> if \<not> valid_payload p \<or> tp_expires p \<le> now \<or> ranges_hash e (tp_disclosed p) \<noteq> tp_ranges_sha p
                      then Inl bad_token else Inr p)
    | _ \<Rightarrow> Inl bad_token)"

definition stale :: js_error where
  "stale = Coded ''STALE_SNAPSHOT'' 409"

definition inspect_token :: "line_env \<Rightarrow> int \<Rightarrow> string \<Rightarrow> octets \<Rightarrow> string \<Rightarrow> (int \<times> string) result" where
  "inspect_token e now token secret scope = rbind (verify_token e now token secret) (\<lambda>p.
     if tp_requester_sha p \<noteq> requester_hash e scope then Inl stale else Inr (tp_page p, tp_revision p))"

definition verify_context :: "line_env \<Rightarrow> token_payload \<Rightarrow> int \<Rightarrow> string \<Rightarrow> string \<Rightarrow> md_source \<Rightarrow> unit result" where
  "verify_context e p page scope revision src =
     (if tp_page p \<noteq> page \<or> tp_requester_sha p \<noteq> requester_hash e scope
         \<or> tp_revision p \<noteq> revision \<or> tp_raw_sha p \<noteq> ms_raw_sha src
         \<or> tp_canonical_sha p \<noteq> ms_canonical_sha src \<or> tp_tag p \<noteq> ms_tag src
         \<or> tp_ending p \<noteq> ms_ending src \<or> tp_final_newline p \<noteq> ms_final_newline src
         \<or> tp_line_count p \<noteq> length (ms_lines src)
      then Inl stale else Inr ())"

record snapshot_input =
  si_page :: int
  si_revision :: string
  si_source :: source_input
  si_scope :: string
  si_secret :: octets
  si_ranges :: "line_range list option"
  si_previous :: string
  si_ttl :: "js_num option"

record disclosed_line =
  dl_number :: nat
  dl_tag :: string
  dl_text :: utext

record line_snapshot =
  sn_tag :: string
  sn_disclosed :: "(line_range \<times> disclosed_line list) list"
  sn_token :: string
  sn_expires :: int
  sn_source :: md_source
  sn_warnings :: "source_warning list"

definition snapshot_payload :: "line_env \<Rightarrow> snapshot_input \<Rightarrow> md_source \<Rightarrow> line_range list \<Rightarrow> int \<Rightarrow> token_payload" where
  "snapshot_payload e i src disclosed expires =
     \<lparr>tp_version = token_version, tp_page = si_page i, tp_requester_sha = requester_hash e (si_scope i),
      tp_revision = si_revision i, tp_raw_sha = ms_raw_sha src, tp_canonical_sha = ms_canonical_sha src,
      tp_tag = ms_tag src, tp_ending = ms_ending src, tp_final_newline = ms_final_newline src,
      tp_line_count = length (ms_lines src), tp_disclosed = disclosed,
      tp_ranges_sha = ranges_hash e disclosed, tp_expires = expires\<rparr>"

definition disclose :: "line_env \<Rightarrow> md_source \<Rightarrow> line_range \<Rightarrow> disclosed_line list" where
  "disclose e src r = map (\<lambda>n. \<lparr>dl_number = n, dl_tag = line_tag (le_sha e) (ms_tag src) n (ms_lines src ! (n - 1)),
       dl_text = ms_lines src ! (n - 1)\<rparr>) [lr_start r..<Suc (lr_end r)]"

definition issue_snapshot :: "line_env \<Rightarrow> int \<Rightarrow> snapshot_input \<Rightarrow> line_snapshot result" where
  "issue_snapshot e now i = rbind (validate_source (le_sha e) (si_source i)) (\<lambda>src.
     let requested = option_or (si_ranges i)
           (if ms_lines src = [] then [] else [\<lparr>lr_start = 1, lr_end = length (ms_lines src)\<rparr>]) in
     rbind (if si_previous i = [] then Inr []
            else rbind (verify_token e now (si_previous i) (si_secret i)) (\<lambda>p.
                 rbind (verify_context e p (si_page i) (si_scope i) (si_revision i) src) (\<lambda>_. Inr (tp_disclosed p)))) (\<lambda>prior.
     rbind (normalize_ranges (prior @ requested) (length (ms_lines src))) (\<lambda>disclosed.
       case option_or (si_ttl i) (Whole 300000) of
         Not_whole \<Rightarrow> Inl (Coded ''INVALID_SNAPSHOT_TTL'' 400)
       | Whole ttl \<Rightarrow>
           if \<not> safe_int ttl \<or> ttl < 1000 \<or> ttl > 900000 then Inl (Coded ''INVALID_SNAPSHOT_TTL'' 400)
           else rbind (sign_token e (snapshot_payload e i src disclosed (now + ttl)) (si_secret i)) (\<lambda>token.
             Inr \<lparr>sn_tag = ms_tag src, sn_disclosed = map (\<lambda>r. (r, disclose e src r)) disclosed,
                   sn_token = token, sn_expires = now + ttl, sn_source = src,
                   sn_warnings = filter (\<lambda>w. line_is_disclosed (wn_line w) disclosed) (ms_warnings src)\<rparr>))))"

end
