(* ===== verification/LinePatchApply.thy ===== *)
theory LinePatchApply
  imports LinePatch "HOL-Library.Sublist"
begin

text \<open>
  Applying a line patch (\<^verbatim>\<open>server/agents/patch/wiki-line-patch.ts\<close>, \<^verbatim>\<open>resolveRange\<close>,
  \<^verbatim>\<open>resolveGap\<close>, \<^verbatim>\<open>applyWikiLinePatch\<close>): anchors become line numbers, the operations are
  checked to be ordered, and one pass over the source builds the result. The reference it is
  compared with applies the same edits one after the other, last one first.
\<close>

section \<open>Anchors, ranges and gaps\<close>

definition anchor_line :: "line_env \<Rightarrow> md_source \<Rightarrow> anchor \<Rightarrow> bool" where
  "anchor_line e src a = (line_tag (le_sha e) (ms_tag src) (an_line a) (ms_lines src ! (an_line a - 1)) = an_tag a)"

definition resolve_range :: "line_env \<Rightarrow> anchor \<Rightarrow> anchor \<Rightarrow> md_source \<Rightarrow> line_range list \<Rightarrow> (nat \<times> nat) result" where
  "resolve_range e a b src disclosed =
     (let start = an_line a; stop = an_line b in
      if start > stop \<or> stop > length (ms_lines src) \<or> \<not> line_is_disclosed start disclosed
         \<or> \<not> line_is_disclosed stop disclosed
      then Inl (Coded ''UNDISCLOSED_PATCH_RANGE'' 409)
      else if list_ex (\<lambda>n. \<not> line_is_disclosed n disclosed) [start..<Suc stop]
      then Inl (Coded ''UNDISCLOSED_PATCH_RANGE'' 409)
      else if \<not> anchor_line e src a \<or> \<not> anchor_line e src b then Inl (Coded ''STALE_LINE_ANCHOR'' 409)
      else Inr (start, stop))"

definition stale_anchor :: "line_env \<Rightarrow> md_source \<Rightarrow> anchor option \<Rightarrow> bool" where
  "stale_anchor e src ao = (case ao of None \<Rightarrow> False
     | Some a \<Rightarrow> an_line a > length (ms_lines src) \<or> \<not> anchor_line e src a)"

definition bad_gap :: js_error where
  "bad_gap = Coded ''INVALID_PATCH_GAP'' 409"

definition gap_index :: "anchor option \<Rightarrow> anchor option \<Rightarrow> nat \<Rightarrow> nat result" where
  "gap_index after before n = (case (after, before) of
      (Some a, Some b) \<Rightarrow> if an_line a + 1 \<noteq> an_line b then Inl bad_gap else Inr (an_line a)
    | (Some a, None) \<Rightarrow> if an_line a \<noteq> n then Inl bad_gap else Inr n
    | (None, Some b) \<Rightarrow> if an_line b \<noteq> 1 then Inl bad_gap else Inr 0
    | (None, None) \<Rightarrow> Inl bad_gap)"

definition gap_covered :: "nat \<Rightarrow> nat \<Rightarrow> line_range list \<Rightarrow> bool" where
  "gap_covered g n disclosed =
     (if g = 0 then line_is_disclosed 1 disclosed
      else if g = n then line_is_disclosed n disclosed
      else line_is_disclosed g disclosed \<and> line_is_disclosed (g + 1) disclosed)"

definition resolve_gap :: "line_env \<Rightarrow> anchor option \<Rightarrow> anchor option \<Rightarrow> md_source \<Rightarrow> line_range list \<Rightarrow> nat result" where
  "resolve_gap e after before src disclosed =
     (let n = length (ms_lines src) in
      if n = 0 then (if after \<noteq> None \<or> before \<noteq> None then Inl bad_gap else Inr 0)
      else if after = None \<and> before = None then Inl bad_gap
      else if stale_anchor e src after \<or> stale_anchor e src before then Inl (Coded ''STALE_LINE_ANCHOR'' 409)
      else rbind (gap_index after before n) (\<lambda>g.
        if gap_covered g n disclosed then Inr g else Inl (Coded ''UNDISCLOSED_PATCH_GAP'' 409)))"

section \<open>Collecting the operations\<close>

definition assert_patch_line :: "utext \<Rightarrow> unit result" where
  "assert_patch_line l = rbind (assert_valid_utf16 l) (\<lambda>_.
     if CR \<in> set l \<or> LF \<in> set l \<or> 0 \<in> set l then Inl (Coded ''INVALID_PATCH_LINE'' 400) else Inr ())"

definition assert_patch_lines :: "utext list \<Rightarrow> unit result" where
  "assert_patch_lines ls = rfold (\<lambda>l _. assert_patch_line l) ls ()"

record patch_state =
  ps_ranges :: "(nat \<times> nat \<times> utext list) list"
  ps_gaps :: "(nat \<times> utext list) list"
  ps_prev :: int

definition empty_patch :: patch_state where
  "empty_patch = \<lparr>ps_ranges = [], ps_gaps = [], ps_prev = -1\<rparr>"

definition order_conflict :: js_error where
  "order_conflict = Coded ''PATCH_ORDER_CONFLICT'' 409"

definition add_gap :: "nat \<Rightarrow> utext list \<Rightarrow> patch_state \<Rightarrow> patch_state result" where
  "add_gap g ls st =
     (if int (g * 2) \<le> ps_prev st \<or> map_of (ps_gaps st) g \<noteq> None then Inl order_conflict
      else Inr (st\<lparr>ps_prev := int (g * 2), ps_gaps := ps_gaps st @ [(g, ls)]\<rparr>))"

definition add_range :: "nat \<Rightarrow> nat \<Rightarrow> utext list \<Rightarrow> patch_state \<Rightarrow> patch_state result" where
  "add_range a b ls st =
     (if int (a * 2) - 1 \<le> ps_prev st \<or> map_of (ps_ranges st) a \<noteq> None then Inl order_conflict
      else rbind (assert_patch_lines ls) (\<lambda>_.
        Inr (st\<lparr>ps_prev := int (b * 2) - 1, ps_ranges := ps_ranges st @ [(a, b, ls)]\<rparr>)))"

definition add_op :: "line_env \<Rightarrow> md_source \<Rightarrow> line_range list \<Rightarrow> patch_op \<Rightarrow> patch_state \<Rightarrow> patch_state result" where
  "add_op e src disclosed oper st = (case oper of
      Insert after before ls \<Rightarrow>
        rbind (assert_patch_lines ls) (\<lambda>_.
        rbind (resolve_gap e after before src disclosed) (\<lambda>g. add_gap g ls st))
    | Replace a b ls \<Rightarrow> rbind (resolve_range e a b src disclosed) (\<lambda>(x, y). add_range x y ls st)
    | Delete a b \<Rightarrow> rbind (resolve_range e a b src disclosed) (\<lambda>(x, y). add_range x y [] st))"

text \<open>An insertion next to a replaced or deleted range is refused.\<close>

definition incident :: "patch_state \<Rightarrow> bool" where
  "incident st = list_ex (\<lambda>(g, _). list_ex (\<lambda>(a, b, _). a - 1 \<le> g \<and> g \<le> b) (ps_ranges st)) (ps_gaps st)"

section \<open>Building the result\<close>

text \<open>The \<^verbatim>\<open>while\<close> loop over the lines, with fuel; \<open>None\<close> is running out of it.\<close>

fun splice :: "(nat \<times> nat \<times> utext list) list \<Rightarrow> (nat \<times> utext list) list \<Rightarrow> utext list \<Rightarrow> nat \<Rightarrow> nat \<Rightarrow> utext list option" where
  "splice ranges gaps lines 0 line = None"
| "splice ranges gaps lines (Suc fuel) line =
     (if line > length lines then Some []
      else case map_of ranges line of
             Some (b, ls) \<Rightarrow> map_option ((@) ls) (splice ranges gaps lines fuel (b + 1))
           | None \<Rightarrow> map_option (\<lambda>rest. lines ! (line - 1) # option_or (map_of gaps line) [] @ rest)
                      (splice ranges gaps lines fuel (line + 1)))"

definition result_lines :: "patch_state \<Rightarrow> utext list \<Rightarrow> utext list option" where
  "result_lines st lines =
     map_option ((@) (option_or (map_of (ps_gaps st) 0) []))
       (splice (ps_ranges st) (ps_gaps st) lines (Suc (length lines)) 1)"

text \<open>The limits of the patch schema.\<close>

definition valid_anchor :: "anchor \<Rightarrow> bool" where
  "valid_anchor a = (1 \<le> an_line a \<and> is_hex 12 (an_tag a))"

definition valid_op_lines :: "utext list \<Rightarrow> bool" where
  "valid_op_lines ls = (1 \<le> length ls \<and> length ls \<le> 5000)"

definition valid_op :: "patch_op \<Rightarrow> bool" where
  "valid_op oper = (case oper of
      Insert after before ls \<Rightarrow> (case after of None \<Rightarrow> True | Some a \<Rightarrow> valid_anchor a)
        \<and> (case before of None \<Rightarrow> True | Some b \<Rightarrow> valid_anchor b) \<and> valid_op_lines ls
    | Replace a b ls \<Rightarrow> valid_anchor a \<and> valid_anchor b \<and> valid_op_lines ls
    | Delete a b \<Rightarrow> valid_anchor a \<and> valid_anchor b)"

definition valid_patch :: "line_patch \<Rightarrow> bool" where
  "valid_patch p = (pt_version p = ''wiki-line-patch-v1'' \<and> 1 \<le> length (pt_token p) \<and> length (pt_token p) \<le> 16384
     \<and> is_hex 12 (pt_tag p) \<and> 1 \<le> length (pt_ops p) \<and> length (pt_ops p) \<le> 1000 \<and> list_all valid_op (pt_ops p))"

record patch_input =
  pi_page :: int
  pi_revision :: string
  pi_source :: source_input
  pi_scope :: string
  pi_secret :: octets
  pi_patch :: line_patch

record patch_result =
  pr_source :: md_source
  pr_patch_sha :: string
  pr_diff :: utext
  pr_diff_sha :: string
  pr_ranges_sha :: string

definition apply_patch :: "line_env \<Rightarrow> int \<Rightarrow> patch_input \<Rightarrow> patch_result result" where
  "apply_patch e now i = (let patch = pi_patch i in
     if \<not> valid_patch patch then Inl (Coded ''INVALID_PATCH'' 400)
     else rbind (validate_source (le_sha e) (pi_source i)) (\<lambda>src.
     rbind (verify_token e now (pt_token patch) (pi_secret i)) (\<lambda>token.
     rbind (verify_context e token (pi_page i) (pi_scope i) (pi_revision i) src) (\<lambda>_.
     if pt_tag patch \<noteq> ms_tag src then Inl (Coded ''STALE_DOCUMENT_TAG'' 409)
     else rbind (rfold (add_op e src (tp_disclosed token)) (pt_ops patch) empty_patch) (\<lambda>st.
     if incident st then Inl (Coded ''PATCH_INCIDENT_GAP'' 409)
     else case result_lines st (ms_lines src) of
       None \<Rightarrow> Inl Plain_error
     | Some ls \<Rightarrow>
         let canonical = join_lf ls @ (if pt_final_newline patch then [LF] else []) in
         rbind (validate_source (le_sha e) (Text (restore (ms_ending src) canonical))) (\<lambda>res.
           if ms_canonical_sha res = ms_canonical_sha src then Inl (Coded ''PATCH_NO_OP'' 409)
           else let diff = le_diff e (ms_canonical src) (ms_canonical res)
                in Inr \<lparr>pr_source = res, pr_patch_sha = sha_text e (le_json_patch e patch),
                        pr_diff = diff, pr_diff_sha = sha_text e diff, pr_ranges_sha = tp_ranges_sha token\<rparr>))))))"

section \<open>Edits and their order\<close>

datatype edit = Ins nat "utext list" | Rep nat nat "utext list"

text \<open>The reference: each edit applied to the whole document.\<close>

fun apply_edit :: "edit \<Rightarrow> utext list \<Rightarrow> utext list" where
  "apply_edit (Ins g ls) doc = take g doc @ ls @ drop g doc"
| "apply_edit (Rep a b ls) doc = take (a - 1) doc @ ls @ drop b doc"

definition apply_edits :: "edit list \<Rightarrow> utext list \<Rightarrow> utext list" where
  "apply_edits es doc = foldr apply_edit es doc"

text \<open>The first position an edit needs free, and the one it ends at: lines at odd positions, gaps at even ones.\<close>

fun edit_pos :: "edit \<Rightarrow> nat" where
  "edit_pos (Ins g ls) = 2 * g + 1"
| "edit_pos (Rep a b ls) = 2 * a"

fun edit_end :: "edit \<Rightarrow> nat" where
  "edit_end (Ins g ls) = 2 * g + 1"
| "edit_end (Rep a b ls) = 2 * b"

fun edit_ok :: "nat \<Rightarrow> edit \<Rightarrow> bool" where
  "edit_ok n (Ins g ls) = (g \<le> n)"
| "edit_ok n (Rep a b ls) = (1 \<le> a \<and> a \<le> b \<and> b \<le> n)"

fun ordered_from :: "nat \<Rightarrow> edit list \<Rightarrow> bool" where
  "ordered_from p [] = True"
| "ordered_from p (e # es) = (p < edit_pos e \<and> ordered_from (edit_end e) es)"

fun edit_ranges :: "edit list \<Rightarrow> (nat \<times> nat \<times> utext list) list" where
  "edit_ranges [] = []"
| "edit_ranges (Rep a b ls # es) = (a, b, ls) # edit_ranges es"
| "edit_ranges (Ins g ls # es) = edit_ranges es"

fun edit_gaps :: "edit list \<Rightarrow> (nat \<times> utext list) list" where
  "edit_gaps [] = []"
| "edit_gaps (Ins g ls # es) = (g, ls) # edit_gaps es"
| "edit_gaps (Rep a b ls # es) = edit_gaps es"

definition no_incident :: "edit list \<Rightarrow> bool" where
  "no_incident es = (\<forall>(g, _)\<in>set (edit_gaps es). \<forall>(a, b, _)\<in>set (edit_ranges es). \<not> (a - 1 \<le> g \<and> g \<le> b))"

lemma apply_edits_simps [simp]:
  "apply_edits [] doc = doc" "apply_edits (e # es) doc = apply_edit e (apply_edits es doc)"
  by (simp_all add: apply_edits_def)

lemma ordered_weaken: "ordered_from p es \<Longrightarrow> q \<le> p \<Longrightarrow> ordered_from q es"
  by (cases es) auto

text \<open>Edits that start behind line \<open>k\<close> leave the first \<open>k\<close> lines.\<close>

lemma take_apply_edits:
  assumes "ordered_from (2 * k) es" "list_all (edit_ok (length doc)) es" "k \<le> length doc"
  shows "take k (apply_edits es doc) = take k doc"
  using assms
proof (induction es arbitrary: k)
  case (Cons e es)
  show ?case
  proof (cases e)
    case (Ins g ls)
    have g: "k \<le> g" "g \<le> length doc" using Cons.prems Ins by auto
    have "ordered_from (2 * g) es" using Cons.prems Ins by (auto intro: ordered_weaken)
    from Cons.IH [OF this _ g(2)] Cons.prems have t: "take g (apply_edits es doc) = take g doc" by simp
    have "take k (take g doc @ ls @ drop g (apply_edits es doc)) = take k doc" using g by simp
    with t show ?thesis by (simp add: Ins)
  next
    case (Rep a b ls)
    have b: "k \<le> a - 1" "a \<le> b" "b \<le> length doc" using Cons.prems Rep by auto
    have "ordered_from (2 * b) es" using Cons.prems Rep by simp
    from Cons.IH [OF this _ b(3)] Cons.prems have t: "take b (apply_edits es doc) = take b doc" by simp
    have "take (a - 1) (apply_edits es doc) = take (a - 1) doc"
      using arg_cong [OF t, of "take (a - 1)"] b(2) by (simp add: min_def split: if_splits)
    moreover have "take k (take (a - 1) doc @ ls @ drop b (apply_edits es doc)) = take k doc" using b by simp
    ultimately show ?thesis by (simp add: Rep)
  qed
qed simp

lemma length_apply_edits:
  assumes "ordered_from (2 * k) es" "list_all (edit_ok (length doc)) es" "k \<le> length doc"
  shows "k \<le> length (apply_edits es doc)"
proof -
  have "length (take k (apply_edits es doc)) = k"
    using take_apply_edits [OF assms] assms(3) by simp
  then show ?thesis by simp
qed

lemma drop_step:
  assumes "take k xs = take k doc" "1 \<le> k" "k \<le> length doc"
  shows "drop (k - 1) xs = doc ! (k - 1) # drop k xs"
proof -
  have l: "length xs \<ge> k" using arg_cong [OF assms(1), of length] assms(3) by simp
  have "xs ! (k - 1) = doc ! (k - 1)"
    using arg_cong [OF assms(1), of "\<lambda>l. l ! (k - 1)"] assms(2) by simp
  then show ?thesis using l assms(2) Cons_nth_drop_Suc [of "k - 1" xs] by simp
qed

lemma ordered_no_range: "ordered_from (2 * k) es \<Longrightarrow> list_all (edit_ok n) es \<Longrightarrow> map_of (edit_ranges es) k = None"
proof (induction es)
  case (Cons e es)
  then show ?case
    using ordered_weaken [of "edit_end e" es "2 * k"] by (cases e) auto
qed simp

lemma ordered_no_gap: "ordered_from (2 * k + 1) es \<Longrightarrow> list_all (edit_ok n) es \<Longrightarrow> map_of (edit_gaps es) k = None"
proof (induction es)
  case (Cons e es)
  then show ?case
    using ordered_weaken [of "edit_end e" es "2 * k + 1"] by (cases e) auto
qed simp

lemma no_incident_tl: "no_incident (e # es) \<Longrightarrow> no_incident es"
  by (cases e) (auto simp: no_incident_def)

lemma ordered_after_range:
  assumes "no_incident (Rep a b ls # es)" "a \<le> b" "ordered_from (2 * b) es"
  shows "ordered_from (2 * b + 1) es"
proof (cases es)
  case (Cons e es')
  then show ?thesis using assms by (cases e) (auto simp: no_incident_def)
qed simp

text \<open>The loop computes the reference, and its fuel is enough.\<close>

lemma splice_edits:
  assumes "ordered_from (2 * line - 1) es" "list_all (edit_ok (length doc)) es" "no_incident es"
    and "1 \<le> line" "line \<le> length doc + 1" "length doc + 2 \<le> fuel + line"
    and "\<And>k. line \<le> k \<Longrightarrow> map_of ranges k = map_of (edit_ranges es) k"
    and "\<And>k. line \<le> k \<Longrightarrow> map_of gaps k = map_of (edit_gaps es) k"
  shows "splice ranges gaps doc fuel line = Some (drop (line - 1) (apply_edits es doc))"
  using assms
proof (induction fuel arbitrary: line es)
  case 0
  then show ?case by simp
next
  case (Suc fuel)
  show ?case
  proof (cases "line > length doc")
    case True
    have "es = []"
    proof (cases es)
      case (Cons e es')
      then show ?thesis using Suc.prems(1,2) True by (cases e) auto
    qed
    with True Suc.prems(5) show ?thesis by simp
  next
    case False
    show ?thesis
    proof (cases "\<exists>b ls es'. es = Rep line b ls # es'")
      case True
      then obtain b ls es' where es: "es = Rep line b ls # es'" by blast
      have b: "line \<le> b" "b \<le> length doc" using Suc.prems(2) es by auto
      have o: "ordered_from (2 * (b + 1) - 1) es'"
        using ordered_after_range [OF Suc.prems(3) [unfolded es] b(1)] Suc.prems(1) es by simp
      have ok: "list_all (edit_ok (length doc)) es'" using Suc.prems(2) es by simp
      have IH: "splice ranges gaps doc fuel (b + 1) = Some (drop b (apply_edits es' doc))"
        using Suc.IH [OF o ok no_incident_tl [OF Suc.prems(3) [unfolded es]]] b Suc.prems(6-8)
        by (simp add: es)
      have "line - 1 \<le> length (apply_edits es' doc)"
        using length_apply_edits [of b es' doc] Suc.prems(1) ok b by (simp add: es)
      with IH False Suc.prems(7) [of line] show ?thesis by (simp add: es)
    next
      case no_rep: False
      have n1: "line \<le> length doc" using False by simp
      obtain ls es' where ls: "option_or (map_of (edit_gaps es) line) [] = ls"
        and o: "ordered_from (2 * line + 1) es'" and ok: "list_all (edit_ok (length doc)) es'"
        and ni: "no_incident es'" and ap: "apply_edits es doc = take line (apply_edits es' doc) @ ls @ drop line (apply_edits es' doc)"
        and r: "map_of (edit_ranges es) line = None"
        and rs: "\<And>k. line + 1 \<le> k \<Longrightarrow> map_of (edit_ranges es) k = map_of (edit_ranges es') k"
        and gs: "\<And>k. line + 1 \<le> k \<Longrightarrow> map_of (edit_gaps es) k = map_of (edit_gaps es') k"
      proof (cases "\<exists>ls es'. es = Ins line ls # es'")
        case True
        then obtain ls es' where es: "es = Ins line ls # es'" by blast
        have "map_of (edit_ranges es') line = None"
          using Suc.prems(1,2) es by (intro ordered_no_range) (auto intro: ordered_weaken)
        with es Suc.prems(1-3) show ?thesis by (intro that [of ls es']) (auto dest: no_incident_tl)
      next
        case no_ins: False
        have o: "ordered_from (2 * line + 1) es"
        proof (cases es)
          case (Cons e es'')
          show ?thesis
          proof (cases e)
            case (Ins g ls)
            then have "g \<noteq> line" using no_ins Cons by auto
            then show ?thesis using Suc.prems(1) Cons Ins by auto
          next
            case (Rep a b ls)
            then have "a \<noteq> line" using no_rep Cons by auto
            then show ?thesis using Suc.prems(1) Cons Rep by auto
          qed
        qed simp
        have "map_of (edit_gaps es) line = None" by (rule ordered_no_gap [OF o Suc.prems(2)])
        moreover have "map_of (edit_ranges es) line = None"
          using o Suc.prems(2) by (intro ordered_no_range) (auto intro: ordered_weaken)
        ultimately show ?thesis using o Suc.prems(2,3) by (intro that [of "[]" es]) auto
      qed
      have tk: "take line (apply_edits es' doc) = take line doc"
        using o ok n1 by (intro take_apply_edits) (auto intro: ordered_weaken)
      have IH: "splice ranges gaps doc fuel (line + 1) = Some (drop line (apply_edits es' doc))"
        using Suc.IH [of "line + 1" es'] o ok ni n1 Suc.prems(6-8) rs gs by simp
      have "drop (line - 1) (apply_edits es doc) = drop (line - 1) (take line doc) @ ls @ drop line (apply_edits es' doc)"
        using n1 by (simp add: ap tk)
      moreover have "drop (line - 1) (take line doc) = [doc ! (line - 1)]"
        using drop_step [of line "take line doc" doc] Suc.prems(4) n1 by simp
      ultimately show ?thesis
        using IH n1 r ls Suc.prems(7) [of line] Suc.prems(8) [of line] by simp
    qed
  qed
qed

section \<open>From operations to edits\<close>

definition resolve_op :: "line_env \<Rightarrow> md_source \<Rightarrow> line_range list \<Rightarrow> patch_op \<Rightarrow> edit result" where
  "resolve_op e src disclosed oper = (case oper of
      Insert after before ls \<Rightarrow>
        rbind (assert_patch_lines ls) (\<lambda>_.
        rbind (resolve_gap e after before src disclosed) (\<lambda>g. Inr (Ins g ls)))
    | Replace a b ls \<Rightarrow> rbind (resolve_range e a b src disclosed) (\<lambda>(x, y).
        rbind (assert_patch_lines ls) (\<lambda>_. Inr (Rep x y ls)))
    | Delete a b \<Rightarrow> rbind (resolve_range e a b src disclosed) (\<lambda>(x, y). Inr (Rep x y [])))"

definition last_end :: "edit list \<Rightarrow> nat" where
  "last_end es = (if es = [] then 0 else edit_end (last es))"

definition holds_edits :: "edit list \<Rightarrow> patch_state \<Rightarrow> bool" where
  "holds_edits es st = (ps_ranges st = edit_ranges es \<and> ps_gaps st = edit_gaps es
     \<and> ps_prev st = int (last_end es) - 1 \<and> ordered_from 0 es)"

lemma edit_ranges_append: "edit_ranges (xs @ ys) = edit_ranges xs @ edit_ranges ys"
  by (induction xs rule: edit_ranges.induct) simp_all

lemma edit_gaps_append: "edit_gaps (xs @ ys) = edit_gaps xs @ edit_gaps ys"
  by (induction xs rule: edit_gaps.induct) simp_all

lemma ordered_from_snoc:
  "ordered_from p (es @ [e]) \<longleftrightarrow> ordered_from p es \<and> (if es = [] then p else edit_end (last es)) < edit_pos e"
  by (induction es arbitrary: p) auto

lemma add_op_edit:
  assumes "add_op e src disclosed oper st = Inr st'" "holds_edits es st"
  shows "\<exists>ed. resolve_op e src disclosed oper = Inr ed \<and> holds_edits (es @ [ed]) st'"
proof (cases oper)
  case (Insert after before ls)
  with assms(1) obtain g where g: "assert_patch_lines ls = Inr ()" "resolve_gap e after before src disclosed = Inr g"
    "add_gap g ls st = Inr st'"
    by (auto simp: add_op_def rbind_Inr_iff)
  have "holds_edits (es @ [Ins g ls]) st'"
    using g(3) assms(2)
    by (auto simp: holds_edits_def add_gap_def edit_ranges_append edit_gaps_append ordered_from_snoc last_end_def split: if_splits)
  with g(1,2) Insert show ?thesis by (simp add: resolve_op_def)
next
  case (Replace a b ls)
  with assms(1) obtain x y where g: "assert_patch_lines ls = Inr ()" "resolve_range e a b src disclosed = Inr (x, y)"
    "add_range x y ls st = Inr st'"
    by (auto simp: add_op_def rbind_Inr_iff add_range_def split: if_splits)
  have "holds_edits (es @ [Rep x y ls]) st'"
    using g(1,3) assms(2)
    by (auto simp: holds_edits_def add_range_def edit_ranges_append edit_gaps_append ordered_from_snoc last_end_def split: if_splits)
  with g(1,2) Replace show ?thesis by (simp add: resolve_op_def)
next
  case (Delete a b)
  with assms(1) obtain x y where g: "resolve_range e a b src disclosed = Inr (x, y)" "add_range x y [] st = Inr st'"
    by (auto simp: add_op_def rbind_Inr_iff)
  have "holds_edits (es @ [Rep x y []]) st'"
    using g(2) assms(2)
    by (auto simp: holds_edits_def add_range_def edit_ranges_append edit_gaps_append ordered_from_snoc last_end_def
      assert_patch_lines_def split: if_splits)
  with g(1) Delete show ?thesis by (simp add: resolve_op_def)
qed

lemma add_ops_edits:
  assumes "rfold (add_op e src disclosed) ops st = Inr st'" "holds_edits es st"
  shows "\<exists>es'. list_all2 (\<lambda>oper ed. resolve_op e src disclosed oper = Inr ed) ops es' \<and> holds_edits (es @ es') st'"
  using assms
proof (induction ops arbitrary: st es)
  case (Cons oper ops)
  then obtain st1 where st1: "add_op e src disclosed oper st = Inr st1" "rfold (add_op e src disclosed) ops st1 = Inr st'"
    by (auto simp: rbind_Inr_iff)
  from add_op_edit [OF st1(1) Cons.prems(2)] obtain ed where ed: "resolve_op e src disclosed oper = Inr ed"
    "holds_edits (es @ [ed]) st1" by blast
  from Cons.IH [OF st1(2) ed(2)] obtain es' where
    "list_all2 (\<lambda>oper ed. resolve_op e src disclosed oper = Inr ed) ops es'" "holds_edits ((es @ [ed]) @ es') st'" by blast
  with ed(1) show ?case by (intro exI [of _ "ed # es'"]) simp
qed auto

text \<open>What a resolved operation may touch.\<close>

fun edit_disclosed :: "nat \<Rightarrow> line_range list \<Rightarrow> edit \<Rightarrow> bool" where
  "edit_disclosed n disclosed (Ins g ls) = (n = 0 \<or> gap_covered g n disclosed)"
| "edit_disclosed n disclosed (Rep a b ls) = (\<forall>k\<in>{a..b}. line_is_disclosed k disclosed)"

lemma resolve_range_props:
  assumes "resolve_range e a b src disclosed = Inr (x, y)"
  shows "x = an_line a \<and> y = an_line b \<and> x \<le> y \<and> y \<le> length (ms_lines src)
    \<and> (\<forall>k\<in>{x..y}. line_is_disclosed k disclosed)"
  using assms by (auto simp: resolve_range_def Let_def list_ex_iff split: if_splits)

lemma resolve_gap_props:
  assumes "resolve_gap e after before src disclosed = Inr g"
  shows "g \<le> length (ms_lines src) \<and> (length (ms_lines src) = 0 \<or> gap_covered g (length (ms_lines src)) disclosed)"
  using assms by (auto simp: resolve_gap_def gap_index_def stale_anchor_def Let_def rbind_Inr_iff split: if_splits option.splits)

lemma resolve_op_props:
  assumes "resolve_op e src disclosed oper = Inr ed" "valid_op oper"
  shows "edit_ok (length (ms_lines src)) ed \<and> edit_disclosed (length (ms_lines src)) disclosed ed"
  using assms
  by (cases oper) (auto simp: resolve_op_def rbind_Inr_iff valid_op_def valid_anchor_def
    dest!: resolve_range_props resolve_gap_props)

lemma incident_edits: "holds_edits es st \<Longrightarrow> incident st \<longleftrightarrow> \<not> no_incident es"
  by (simp add: holds_edits_def incident_def no_incident_def list_ex_iff) fastforce

text \<open>The pass over the source agrees with the reference and never runs out of fuel.\<close>

lemma result_lines_edits:
  assumes "holds_edits es st" "no_incident es" "list_all (edit_ok (length doc)) es"
  shows "result_lines st doc = Some (apply_edits es doc)"
proof (cases "\<exists>ls es'. es = Ins 0 ls # es'")
  case True
  then obtain ls es' where es: "es = Ins 0 ls # es'" by blast
  have "splice (edit_ranges es) (edit_gaps es) doc (Suc (length doc)) 1 = Some (drop (1 - 1) (apply_edits es' doc))"
    using assms es by (intro splice_edits) (auto simp: holds_edits_def dest: no_incident_tl)
  with assms(1) es show ?thesis by (simp add: result_lines_def holds_edits_def)
next
  case False
  have o: "ordered_from 1 es"
  proof (cases es)
    case (Cons e es')
    then show ?thesis using assms False
      by (cases e) (auto simp: holds_edits_def)
  qed simp
  have "splice (edit_ranges es) (edit_gaps es) doc (Suc (length doc)) 1 = Some (drop (1 - 1) (apply_edits es doc))"
    using o assms by (intro splice_edits) (auto simp: holds_edits_def)
  moreover have "map_of (edit_gaps es) 0 = None"
    using o assms(3) ordered_no_gap [of 0 es] by simp
  ultimately show ?thesis using assms(1) by (simp add: result_lines_def holds_edits_def)
qed

lemma apply_patch_success:
  assumes "apply_patch e now i = Inr r"
  obtains src token es where
    "validate_source (le_sha e) (pi_source i) = Inr src"
    "verify_token e now (pt_token (pi_patch i)) (pi_secret i) = Inr token"
    "verify_context e token (pi_page i) (pi_scope i) (pi_revision i) src = Inr ()"
    "valid_patch (pi_patch i)"
    "list_all2 (\<lambda>oper ed. resolve_op e src (tp_disclosed token) oper = Inr ed) (pt_ops (pi_patch i)) es"
    "ordered_from 0 es" "no_incident es" "list_all (edit_ok (length (ms_lines src))) es"
    "list_all (edit_disclosed (length (ms_lines src)) (tp_disclosed token)) es"
    "validate_source (le_sha e) (Text (restore (ms_ending src)
       (line_text (apply_edits es (ms_lines src)) (pt_final_newline (pi_patch i))))) = Inr (pr_source r)"
    "ms_canonical_sha (pr_source r) \<noteq> ms_canonical_sha src"
proof -
  let ?p = "pi_patch i"
  from assms obtain src token st ls where
    a: "validate_source (le_sha e) (pi_source i) = Inr src" "valid_patch ?p"
    "verify_token e now (pt_token ?p) (pi_secret i) = Inr token"
    "verify_context e token (pi_page i) (pi_scope i) (pi_revision i) src = Inr ()"
    "rfold (add_op e src (tp_disclosed token)) (pt_ops ?p) empty_patch = Inr st" "\<not> incident st"
    "result_lines st (ms_lines src) = Some ls"
    "validate_source (le_sha e) (Text (restore (ms_ending src) (line_text ls (pt_final_newline ?p)))) = Inr (pr_source r)"
    "ms_canonical_sha (pr_source r) \<noteq> ms_canonical_sha src"
    by (auto simp: apply_patch_def Let_def rbind_Inr_iff line_text_def split: if_splits option.splits)
  have "holds_edits [] empty_patch" by (simp add: holds_edits_def empty_patch_def last_end_def)
  from add_ops_edits [OF a(5) this] obtain es where es:
    "list_all2 (\<lambda>oper ed. resolve_op e src (tp_disclosed token) oper = Inr ed) (pt_ops ?p) es" "holds_edits es st"
    by auto
  have v: "list_all valid_op (pt_ops ?p)" using a(2) by (simp add: valid_patch_def)
  have ok: "edit_ok (length (ms_lines src)) ed \<and> edit_disclosed (length (ms_lines src)) (tp_disclosed token) ed" if "ed \<in> set es" for ed
  proof -
    from that obtain n where "n < length es" "ed = es ! n" by (auto simp: in_set_conv_nth)
    with es(1) v show ?thesis
      by (intro resolve_op_props [of e src "tp_disclosed token" "pt_ops ?p ! n"])
        (auto simp: list_all2_conv_all_nth list_all_length)
  qed
  have ni: "no_incident es" using a(6) incident_edits [OF es(2)] by simp
  have okl: "list_all (edit_ok (length (ms_lines src))) es"
    "list_all (edit_disclosed (length (ms_lines src)) (tp_disclosed token)) es"
    using ok by (simp_all add: list_all_iff)
  have "ls = apply_edits es (ms_lines src)" using result_lines_edits [OF es(2) ni okl(1)] a(7) by simp
  with a es ni okl show ?thesis by (intro that [of src token es]) (auto simp: holds_edits_def)
qed

section \<open>Laws\<close>

lemma validate_source_text: "validate_source sha (Text t) = Inr m \<Longrightarrow> ms_text m = t"
  by (auto simp: validate_source_def rbind_Inr_iff decode_source_def Let_def split: if_splits)

lemma edit_ranges_disclosed:
  assumes "(a, b, ls) \<in> set (edit_ranges es)" "list_all (edit_disclosed n disclosed) es" "a \<le> k" "k \<le> b"
  shows "line_is_disclosed k disclosed"
  using assms by (induction es rule: edit_ranges.induct) auto

text \<open>C3. An applied patch means its operations, one by one. Each operation resolves to an edit
  of the source the snapshot was taken of, and the document that results is the source with
  these edits applied one after the other, the last one first, so that no edit sees the line
  numbers another one moved. The result has the source's line ending and the final newline
  the patch asks for.\<close>

theorem patch_applies_its_edits:
  assumes "apply_patch e now i = Inr r"
  shows "\<exists>src token es.
      validate_source (le_sha e) (pi_source i) = Inr src
    \<and> verify_token e now (pt_token (pi_patch i)) (pi_secret i) = Inr token
    \<and> list_all2 (\<lambda>oper ed. resolve_op e src (tp_disclosed token) oper = Inr ed) (pt_ops (pi_patch i)) es
    \<and> ms_text (pr_source r) = restore (ms_ending src)
        (line_text (apply_edits es (ms_lines src)) (pt_final_newline (pi_patch i)))"
proof -
  from apply_patch_success [OF assms] obtain src token es where
    a: "validate_source (le_sha e) (pi_source i) = Inr src"
    "verify_token e now (pt_token (pi_patch i)) (pi_secret i) = Inr token"
    "list_all2 (\<lambda>oper ed. resolve_op e src (tp_disclosed token) oper = Inr ed) (pt_ops (pi_patch i)) es"
    "validate_source (le_sha e) (Text (restore (ms_ending src)
       (line_text (apply_edits es (ms_lines src)) (pt_final_newline (pi_patch i))))) = Inr (pr_source r)" by metis
  from validate_source_text [OF a(4)] a(1-3) show ?thesis by blast
qed

text \<open>The lines of a document no edit replaces or deletes, from line \<open>k + 1\<close> on.\<close>

definition kept_lines :: "edit list \<Rightarrow> utext list \<Rightarrow> nat \<Rightarrow> nat list" where
  "kept_lines es doc k = filter (\<lambda>j. \<forall>(a, b, _)\<in>set (edit_ranges es). \<not> (a \<le> j + 1 \<and> j + 1 \<le> b)) [k..<length doc]"

lemma upt_split: "a \<le> b \<Longrightarrow> b \<le> c \<Longrightarrow> [a..<c] = [a..<b] @ [b..<c]"
  using upt_add_eq_append [of a b "c - b"] by simp

lemma map_nth_upt: "b \<le> length xs \<Longrightarrow> map ((!) xs) [a..<b] = drop a (take b xs)"
  by (rule nth_equalityI) auto

lemma kept_survive:
  assumes "ordered_from (2 * k) es" "list_all (edit_ok (length doc)) es" "k \<le> length doc"
  shows "subseq (map ((!) doc) (kept_lines es doc k)) (drop k (apply_edits es doc))"
  using assms
proof (induction es arbitrary: k)
  case Nil
  have "map ((!) doc) [k..<length doc] = drop k doc" by (simp add: map_nth_upt)
  then show ?case by (simp add: kept_lines_def)
next
  case (Cons e es)
  let ?D = "apply_edits es doc"
  show ?case
  proof (cases e)
    case (Ins g ls)
    have g: "k \<le> g" "g \<le> length doc" using Cons.prems Ins by auto
    have o: "ordered_from (2 * g) es" using Cons.prems Ins by (auto intro: ordered_weaken)
    have ok: "list_all (edit_ok (length doc)) es" using Cons.prems by simp
    have t: "take g ?D = take g doc" by (rule take_apply_edits [OF o ok g(2)])
    have "kept_lines (e # es) doc k = filter (\<lambda>j. \<forall>(a, b, _)\<in>set (edit_ranges es). \<not> (a \<le> j + 1 \<and> j + 1 \<le> b)) [k..<g]
        @ kept_lines es doc g"
      unfolding kept_lines_def upt_split [OF g] by (simp add: Ins)
    moreover have "subseq (map ((!) doc) (filter P [k..<g])) (drop k (take g doc))" for P
      using subseq_map [OF subseq_filter_left [of P "[k..<g]"], of "(!) doc"] g by (simp add: map_nth_upt)
    moreover have "subseq (map ((!) doc) (kept_lines es doc g)) (ls @ drop g ?D)"
      using Cons.IH [OF o ok g(2)] by (rule subseq_order.trans) (rule list_emb_append2, simp)
    moreover have "drop k (apply_edits (e # es) doc) = drop k (take g doc) @ (ls @ drop g ?D)"
      using g t by (simp add: Ins)
    ultimately show ?thesis by (simp add: list_emb_append_mono)
  next
    case (Rep a b ls)
    have b: "k \<le> a - 1" "a - 1 \<le> b" "b \<le> length doc" "1 \<le> a" "a \<le> b" using Cons.prems Rep by auto
    have o: "ordered_from (2 * b) es" using Cons.prems Rep by simp
    have ok: "list_all (edit_ok (length doc)) es" using Cons.prems by simp
    have t: "take (a - 1) ?D = take (a - 1) doc"
      using o ok b by (intro take_apply_edits) (auto intro: ordered_weaken)
    let ?P = "\<lambda>j. \<forall>(x, y, _)\<in>set (edit_ranges (e # es)). \<not> (x \<le> j + 1 \<and> j + 1 \<le> y)"
    have s: "[k..<length doc] = [k..<a - 1] @ [a - 1..<b] @ [b..<length doc]"
      using b upt_split [of k "a - 1" "length doc"] upt_split [of "a - 1" b "length doc"] by simp
    have m: "filter ?P [a - 1..<b] = []" using b by (auto simp: Rep filter_empty_conv)
    have "filter ?P [b..<length doc] = kept_lines es doc b"
      unfolding kept_lines_def by (rule filter_cong) (auto simp: Rep)
    with s m have k: "kept_lines (e # es) doc k = filter ?P [k..<a - 1] @ kept_lines es doc b"
      by (simp add: kept_lines_def)
    have "subseq (map ((!) doc) (filter ?P [k..<a - 1])) (drop k (take (a - 1) doc))"
      using subseq_map [OF subseq_filter_left [of ?P "[k..<a - 1]"], of "(!) doc"] b by (simp add: map_nth_upt)
    moreover have "subseq (map ((!) doc) (kept_lines es doc b)) (ls @ drop b ?D)"
      using Cons.IH [OF o ok b(3)] by (rule subseq_order.trans) (rule list_emb_append2, simp)
    moreover have "drop k (apply_edits (e # es) doc) = drop k (take (a - 1) doc) @ (ls @ drop b ?D)"
      using b t by (simp add: Rep)
    ultimately show ?thesis unfolding k by (simp add: list_emb_append_mono)
  qed
qed

definition undisclosed_lines :: "line_range list \<Rightarrow> utext list \<Rightarrow> utext list" where
  "undisclosed_lines disclosed doc = map ((!) doc) (filter (\<lambda>j. \<not> line_is_disclosed (j + 1) disclosed) [0..<length doc])"

text \<open>C5. A patch cannot touch what the snapshot did not disclose: every source line outside the
  token's disclosed ranges is in the result, unchanged and in the same order.\<close>

theorem undisclosed_lines_survive:
  assumes "apply_patch e now i = Inr r"
  shows "\<exists>src token ls.
      validate_source (le_sha e) (pi_source i) = Inr src
    \<and> verify_token e now (pt_token (pi_patch i)) (pi_secret i) = Inr token
    \<and> ms_text (pr_source r) = restore (ms_ending src) (line_text ls (pt_final_newline (pi_patch i)))
    \<and> subseq (undisclosed_lines (tp_disclosed token) (ms_lines src)) ls"
proof -
  from apply_patch_success [OF assms] obtain src token es where
    a: "validate_source (le_sha e) (pi_source i) = Inr src"
    "verify_token e now (pt_token (pi_patch i)) (pi_secret i) = Inr token"
    "ordered_from 0 es" "list_all (edit_ok (length (ms_lines src))) es"
    "list_all (edit_disclosed (length (ms_lines src)) (tp_disclosed token)) es"
    "validate_source (le_sha e) (Text (restore (ms_ending src)
       (line_text (apply_edits es (ms_lines src)) (pt_final_newline (pi_patch i))))) = Inr (pr_source r)" by metis
  let ?P = "\<lambda>j. \<not> line_is_disclosed (j + 1) (tp_disclosed token)"
  let ?Q = "\<lambda>j. \<forall>(x, y, _)\<in>set (edit_ranges es). \<not> (x \<le> j + 1 \<and> j + 1 \<le> y)"
  have pq: "?Q j" if "?P j" for j
  proof (clarify)
    fix x y ls assume "(x, y, ls) \<in> set (edit_ranges es)" "x \<le> j + 1" "j + 1 \<le> y"
    from edit_ranges_disclosed [OF this(1) a(5) this(2,3)] that show False by blast
  qed
  have eq: "filter ?P xs = filter ?P (filter ?Q xs)" for xs
    unfolding filter_filter
    by (rule filter_cong [OF refl], rule iffI, rule conjI, rule pq, assumption, assumption, erule conjunct2)
  have "subseq (undisclosed_lines (tp_disclosed token) (ms_lines src))
      (map ((!) (ms_lines src)) (kept_lines es (ms_lines src) 0))"
    unfolding undisclosed_lines_def kept_lines_def eq [of "[0..<length (ms_lines src)]"]
    by (rule subseq_map [OF subseq_filter_left])
  moreover have "subseq (map ((!) (ms_lines src)) (kept_lines es (ms_lines src) 0)) (apply_edits es (ms_lines src))"
    using kept_survive [of 0 es "ms_lines src"] a(3,4) by simp
  ultimately have "subseq (undisclosed_lines (tp_disclosed token) (ms_lines src)) (apply_edits es (ms_lines src))"
    by (rule subseq_order.trans)
  with validate_source_text [OF a(6)] a(1,2) show ?thesis by blast
qed

text \<open>What the libraries promise about one payload: base64url comes back and has no dot, JSON
  comes back, and hashes are 64 hexadecimal digits.\<close>

definition codec_ok :: "line_env \<Rightarrow> octets \<Rightarrow> token_payload \<Rightarrow> bool" where
  "codec_ok e secret p = (let body = le_b64 e (le_json e p); mac = le_hmac e secret body in
     body \<noteq> [] \<and> CHR ''.'' \<notin> set body \<and> le_b64 e mac \<noteq> [] \<and> CHR ''.'' \<notin> set (le_b64 e mac)
     \<and> le_unb64 e body = le_json e p \<and> le_unb64 e (le_b64 e mac) = mac
     \<and> le_parse e (le_json e p) = Some p)"

lemma split_dot_no_dot: "CHR ''.'' \<notin> set t \<Longrightarrow> split_dot t = [t]"
  by (induction t) auto

lemma split_dot_append: "CHR ''.'' \<notin> set u \<Longrightarrow> split_dot (u @ CHR ''.'' # t) = u # split_dot t"
  by (induction u) auto

lemma sign_verify:
  assumes "sign_token e p secret = Inr token" "codec_ok e secret p" "valid_payload p"
    "now < tp_expires p" "tp_ranges_sha p = ranges_hash e (tp_disclosed p)"
  shows "verify_token e now token secret = Inr p"
proof -
  let ?body = "le_b64 e (le_json e p)"
  have "token = ''v1'' @ CHR ''.'' # (?body @ CHR ''.'' # le_b64 e (le_hmac e secret ?body))"
    using assms(1) by (auto simp: sign_token_def Let_def split: if_splits)
  then have "split_dot token = [''v1'', ?body, le_b64 e (le_hmac e secret ?body)]"
    using assms(2) by (simp only: codec_ok_def Let_def)
      (simp add: split_dot_append [of "''v1''", simplified] split_dot_append split_dot_no_dot)
  with assms(2-5) show ?thesis by (simp add: verify_token_def codec_ok_def Let_def)
qed

lemma is_hex_take: "is_hex 64 s \<Longrightarrow> is_hex 12 (take 12 s)"
  by (auto simp: is_hex_def list_all_iff dest: in_set_takeD)

lemma validate_source_hashes:
  "validate_source sha src = Inr m \<Longrightarrow> ms_raw_sha m = sha (ms_bytes m) \<and> ms_canonical_sha m = sha (ms_canonical_bytes m)
     \<and> ms_tag m = take 12 (ms_canonical_sha m) \<and> length (ms_lines m) \<le> max_source_lines"
  by (auto simp: validate_source_def rbind_Inr_iff Let_def split: if_splits)

lemma issue_snapshot_success:
  assumes "issue_snapshot e now i = Inr sn"
  shows "\<exists>rs0 ds. validate_source (le_sha e) (si_source i) = Inr (sn_source sn)
    \<and> normalize_ranges rs0 (length (ms_lines (sn_source sn))) = Inr ds
    \<and> sn_disclosed sn = map (\<lambda>r. (r, disclose e (sn_source sn) r)) ds
    \<and> sign_token e (snapshot_payload e i (sn_source sn) ds (sn_expires sn)) (si_secret i) = Inr (sn_token sn)
    \<and> now < sn_expires sn"
proof -
  from assms obtain src where src: "validate_source (le_sha e) (si_source i) = Inr src"
    by (auto simp: issue_snapshot_def rbind_Inr_iff)
  from assms obtain rs0 ds ttl token where a: "normalize_ranges rs0 (length (ms_lines src)) = Inr ds"
    "1000 \<le> ttl" "sign_token e (snapshot_payload e i src ds (now + ttl)) (si_secret i) = Inr token"
    "sn = \<lparr>sn_tag = ms_tag src, sn_disclosed = map (\<lambda>r. (r, disclose e src r)) ds, sn_token = token,
       sn_expires = now + ttl, sn_source = src,
       sn_warnings = filter (\<lambda>w. line_is_disclosed (wn_line w) ds) (ms_warnings src)\<rparr>"
    unfolding issue_snapshot_def src rbind_simps Let_def
    by (elim rbind_InrE) (auto split: js_num.splits if_splits elim!: rbind_InrE)
  with src show ?thesis by auto
qed

text \<open>C7. A snapshot authorises exactly its reader. The token it carries verifies until it
  expires, passes the context check for the same page, requester, revision and source, and
  every disclosed line, with the tag it was shown with, resolves as a patch range of its own
  line; for another requester scope the token is refused as stale.\<close>

theorem snapshot_anchors_resolve:
  assumes "issue_snapshot e now i = Inr sn"
    and "codec_ok e (si_secret i) (snapshot_payload e i (sn_source sn) (map fst (sn_disclosed sn)) (sn_expires sn))"
    and "\<And>x. is_hex 64 (le_sha e x)"
    and "1 \<le> si_page i" and "1 \<le> length (si_revision i)" and "length (si_revision i) \<le> 64" and "0 \<le> now"
    and "later < sn_expires sn"
  shows "\<exists>p. verify_token e later (sn_token sn) (si_secret i) = Inr p
    \<and> verify_context e p (si_page i) (si_scope i) (si_revision i) (sn_source sn) = Inr ()
    \<and> (\<forall>(r, ls)\<in>set (sn_disclosed sn). \<forall>l\<in>set ls.
         resolve_range e \<lparr>an_line = dl_number l, an_tag = dl_tag l\<rparr> \<lparr>an_line = dl_number l, an_tag = dl_tag l\<rparr>
           (sn_source sn) (tp_disclosed p) = Inr (dl_number l, dl_number l))
    \<and> (\<forall>scope. requester_hash e scope \<noteq> requester_hash e (si_scope i) \<longrightarrow>
         verify_context e p (si_page i) scope (si_revision i) (sn_source sn) = Inl stale)"
proof -
  let ?src = "sn_source sn" and ?rs = "map fst (sn_disclosed sn)"
  let ?p = "snapshot_payload e i ?src ?rs (sn_expires sn)"
  from issue_snapshot_success [OF assms(1)] obtain rs0 ds where
    src: "validate_source (le_sha e) (si_source i) = Inr ?src"
    and rs0: "normalize_ranges rs0 (length (ms_lines ?src)) = Inr ds"
    and ds: "sn_disclosed sn = map (\<lambda>r. (r, disclose e ?src r)) ds"
    and tok0: "sign_token e (snapshot_payload e i ?src ds (sn_expires sn)) (si_secret i) = Inr (sn_token sn)"
    and ex: "now < sn_expires sn" by blast
  have rs: "?rs = ds" by (simp add: ds comp_def)
  note tok = tok0 [folded rs] and dl = ds [folded rs]
  note nr = normalize_ranges_bounds [OF rs0, folded rs]
  have valid: "valid_payload ?p"
    using validate_source_hashes [OF src] assms(3-7) nr ex
    by (auto simp: valid_payload_def snapshot_payload_def requester_hash_def sha_text_def ranges_hash_def
      is_hex_take list_all_iff valid_range_def max_disclosed_lines_def max_source_lines_def)
  have "verify_token e later (sn_token sn) (si_secret i) = Inr ?p"
    using sign_verify [OF tok assms(2) valid, of later] assms(8) by (simp add: snapshot_payload_def)
  moreover have "verify_context e ?p (si_page i) (si_scope i) (si_revision i) ?src = Inr ()"
    by (simp add: verify_context_def snapshot_payload_def)
  moreover have "resolve_range e \<lparr>an_line = dl_number l, an_tag = dl_tag l\<rparr> \<lparr>an_line = dl_number l, an_tag = dl_tag l\<rparr>
      ?src (tp_disclosed ?p) = Inr (dl_number l, dl_number l)"
    if "(r, ls) \<in> set (sn_disclosed sn)" "l \<in> set ls" for r ls l
  proof -
    from that(1) ds rs have r: "r \<in> set ?rs" "ls = disclose e ?src r" by auto
    from that(2) r(2) have l: "lr_start r \<le> dl_number l" "dl_number l \<le> lr_end r"
      "dl_tag l = line_tag (le_sha e) (ms_tag ?src) (dl_number l) (ms_lines ?src ! (dl_number l - 1))"
      by (auto simp: disclose_def)
    from nr r(1) have "lr_end r \<le> length (ms_lines ?src)" by (auto simp: valid_range_def)
    moreover have "line_is_disclosed (dl_number l) ?rs"
      using l(1,2) r(1) by (auto simp: line_is_disclosed_def list_ex_iff simp del: set_map)
    ultimately show ?thesis using l
      by (simp add: resolve_range_def anchor_line_def snapshot_payload_def Let_def)
  qed
  moreover have "verify_context e ?p (si_page i) scope (si_revision i) ?src = Inl stale"
    if "requester_hash e scope \<noteq> requester_hash e (si_scope i)" for scope
    using that by (auto simp: verify_context_def snapshot_payload_def)
  ultimately show ?thesis by blast
qed

section \<open>A concrete patch\<close>

text \<open>
  A source of two lines, the first one disclosed, and a patch that replaces it. The hash is a
  toy one that tells lengths of different parity apart.
\<close>

definition demo_source :: utext where "demo_source = [97, LF, 98]"
definition demo_doc :: md_source where
  "demo_doc = \<lparr>ms_text = [97, 10, 98], ms_bytes = [97, 10, 98], ms_canonical = [97, 10, 98], ms_canonical_bytes = [97, 10, 98],
     ms_lines = [[97], [98]], ms_ending = Lf, ms_final_newline = False, ms_raw_sha = demo_sha [97, 10, 98],
     ms_canonical_sha = demo_sha [97, 10, 98], ms_tag = take 12 (demo_sha [97, 10, 98]), ms_warnings = []\<rparr>"

lemma demo_validate: "validate_source demo_sha (Text demo_source) = Inr demo_doc"
  by (simp add: source_eval Let_def demo_doc_def demo_source_def)

definition demo_ranges :: "line_range list" where "demo_ranges = [\<lparr>lr_start = 1, lr_end = 1\<rparr>]"

definition demo_payload :: token_payload where
  "demo_payload = \<lparr>tp_version = token_version, tp_page = 7, tp_requester_sha = demo_sha [97],
      tp_revision = ''r1'', tp_raw_sha = ms_raw_sha demo_doc, tp_canonical_sha = ms_canonical_sha demo_doc,
      tp_tag = ms_tag demo_doc, tp_ending = Lf, tp_final_newline = False,
      tp_line_count = 2, tp_disclosed = demo_ranges,
      tp_ranges_sha = demo_sha (utf8_encode (ustr (''['' @ comma_list (map json_range demo_ranges) @ '']''))), tp_expires = 1000\<rparr>"

definition demo_env :: line_env where
  "demo_env = \<lparr>le_sha = demo_sha, le_hmac = (\<lambda>_ _. [9]), le_b64 = (\<lambda>bs. if bs = [9] then ''s'' else ''b''),
     le_unb64 = (\<lambda>s. if s = ''s'' then [9] else [1]), le_json = (\<lambda>_. [1]), le_parse = (\<lambda>_. Some demo_payload),
     le_json_patch = (\<lambda>_. []), le_diff = (\<lambda>_ _. [])\<rparr>"

lemma demo_sha_hex: "is_hex 64 (demo_sha x)"
  by (auto simp: demo_sha_def is_hex_def list_all_iff) (simp_all add: is_hex_char_def)

lemma demo_payload_valid: "valid_payload demo_payload"
  by (simp add: valid_payload_def demo_payload_def demo_sha_hex is_hex_take demo_doc_def max_source_lines_def demo_ranges_def)

lemma demo_verify: "verify_token demo_env 0 ''v1.b.s'' [] = Inr demo_payload"
  using demo_payload_valid
  by (simp add: verify_token_def demo_env_def ranges_hash_def sha_text_def) (simp add: demo_payload_def)

lemma demo_context: "verify_context demo_env demo_payload 7 ''a'' ''r1'' demo_doc = Inr ()"
  by (simp add: verify_context_def demo_payload_def demo_doc_def requester_hash_def sha_text_def demo_env_def source_eval)

definition demo_anchor :: anchor where
  "demo_anchor = \<lparr>an_line = 1, an_tag = line_tag demo_sha (ms_tag demo_doc) 1 [97]\<rparr>"

definition demo_patch :: line_patch where
  "demo_patch = \<lparr>pt_version = ''wiki-line-patch-v1'', pt_token = ''v1.b.s'', pt_tag = ms_tag demo_doc,
     pt_final_newline = False, pt_ops = [Replace demo_anchor demo_anchor [[99, 100]]]\<rparr>"

definition demo_patch_input :: patch_input where
  "demo_patch_input = \<lparr>pi_page = 7, pi_revision = ''r1'', pi_source = Text demo_source, pi_scope = ''a'',
     pi_secret = [], pi_patch = demo_patch\<rparr>"

lemma demo_valid_patch: "valid_patch demo_patch"
  by (simp add: valid_patch_def demo_patch_def valid_op_def valid_anchor_def demo_anchor_def line_tag_def valid_op_lines_def
    is_hex_take demo_sha_hex demo_doc_def)

lemma demo_resolve: "resolve_range demo_env demo_anchor demo_anchor demo_doc demo_ranges = Inr (1, 1)"
  by (simp add: resolve_range_def demo_anchor_def demo_doc_def demo_ranges_def line_is_disclosed_def anchor_line_def demo_env_def Let_def)

lemma demo_result: "validate_source demo_sha (Text [99, 100, 10, 98]) = Inr
  \<lparr>ms_text = [99, 100, 10, 98], ms_bytes = [99, 100, 10, 98], ms_canonical = [99, 100, 10, 98], ms_canonical_bytes = [99, 100, 10, 98],
     ms_lines = [[99, 100], [98]], ms_ending = Lf, ms_final_newline = False, ms_raw_sha = demo_sha [99, 100, 10, 98],
     ms_canonical_sha = demo_sha [99, 100, 10, 98], ms_tag = take 12 (demo_sha [99, 100, 10, 98]), ms_warnings = []\<rparr>"
  by (simp add: source_eval Let_def)

lemma demo_fold: "rfold (add_op demo_env demo_doc demo_ranges) (pt_ops demo_patch) empty_patch =
   Inr \<lparr>ps_ranges = [(1, 1, [[99, 100]])], ps_gaps = [], ps_prev = 1\<rparr>"
  by (simp add: demo_patch_def add_op_def demo_resolve add_range_def empty_patch_def assert_patch_lines_def
    assert_patch_line_def source_eval)

lemma demo_applies: "is_ok (apply_patch demo_env 0 demo_patch_input)"
proof -
  have d: "tp_disclosed demo_payload = demo_ranges" "pt_token demo_patch = ''v1.b.s''" "pt_tag demo_patch = ms_tag demo_doc"
    "pt_final_newline demo_patch = False" "ms_lines demo_doc = [[97], [98]]" "le_sha demo_env = demo_sha"
    "ms_ending demo_doc = Lf" "ms_canonical_sha demo_doc = demo_sha [97, 10, 98]"
    by (simp_all add: demo_payload_def demo_patch_def demo_doc_def demo_env_def)
  have r: "result_lines \<lparr>ps_ranges = [(1, 1, [[99, 100]])], ps_gaps = [], ps_prev = 1\<rparr> [[97], [98]] = Some [[99, 100], [98]]"
    by (simp add: result_lines_def)
  note r' = r [unfolded One_nat_def]
  have n: "demo_sha [99, 100, 10, 98] \<noteq> demo_sha [97, 10, 98]" by (simp add: demo_sha_def)
  show ?thesis
    by (simp add: apply_patch_def demo_patch_input_def demo_valid_patch demo_validate demo_verify demo_context d demo_fold r'
      incident_def restore_def LF_def demo_result n Let_def)
qed

theorem patch_applies_its_edits_witness:
  "\<exists>r es. apply_patch demo_env 0 demo_patch_input = Inr r
    \<and> ms_text (pr_source r) = restore Lf (line_text (apply_edits es [[97], [98]]) False)"
proof -
  from demo_applies obtain r where r: "apply_patch demo_env 0 demo_patch_input = Inr r"
    by (auto simp: is_ok_def split: sum.splits)
  have "validate_source (le_sha demo_env) (pi_source demo_patch_input) = Inr demo_doc"
    using demo_validate by (simp add: demo_env_def demo_patch_input_def)
  moreover have "pt_final_newline (pi_patch demo_patch_input) = False" "ms_ending demo_doc = Lf" "ms_lines demo_doc = [[97], [98]]"
    by (simp_all add: demo_patch_input_def demo_patch_def demo_doc_def)
  ultimately show ?thesis using patch_applies_its_edits [OF r] r by (metis Inr_inject)
qed

theorem undisclosed_lines_survive_witness:
  "\<exists>r ls. apply_patch demo_env 0 demo_patch_input = Inr r \<and> subseq [[98]] ls
     \<and> ms_text (pr_source r) = restore Lf (line_text ls False)"
proof -
  from demo_applies obtain r where r: "apply_patch demo_env 0 demo_patch_input = Inr r"
    by (auto simp: is_ok_def split: sum.splits)
  have i: "validate_source (le_sha demo_env) (pi_source demo_patch_input) = Inr demo_doc"
    "verify_token demo_env 0 (pt_token (pi_patch demo_patch_input)) (pi_secret demo_patch_input) = Inr demo_payload"
    using demo_validate demo_verify by (simp_all add: demo_env_def demo_patch_input_def demo_patch_def)
  have d: "pt_final_newline (pi_patch demo_patch_input) = False" "ms_ending demo_doc = Lf"
    "undisclosed_lines (tp_disclosed demo_payload) (ms_lines demo_doc) = [[98]]"
    by (simp_all add: demo_patch_input_def demo_patch_def demo_doc_def undisclosed_lines_def demo_payload_def
      demo_ranges_def line_is_disclosed_def upt_rec)
  from undisclosed_lines_survive [OF r] obtain src token ls where
    "validate_source (le_sha demo_env) (pi_source demo_patch_input) = Inr src"
    "verify_token demo_env 0 (pt_token (pi_patch demo_patch_input)) (pi_secret demo_patch_input) = Inr token"
    "ms_text (pr_source r) = restore (ms_ending src) (line_text ls (pt_final_newline (pi_patch demo_patch_input)))"
    "subseq (undisclosed_lines (tp_disclosed token) (ms_lines src)) ls" by blast
  with i d r show ?thesis by auto
qed

definition demo_snapshot_input :: snapshot_input where
  "demo_snapshot_input = \<lparr>si_page = 7, si_revision = ''r1'', si_source = Text demo_source, si_scope = ''a'',
     si_secret = replicate 32 1, si_ranges = Some demo_ranges, si_previous = [], si_ttl = Some (Whole 1000)\<rparr>"

lemma demo_issue:
  "\<exists>sn. issue_snapshot demo_env 0 demo_snapshot_input = Inr sn \<and> sn_source sn = demo_doc
     \<and> map fst (sn_disclosed sn) = demo_ranges \<and> sn_expires sn = 1000 \<and> sn_token sn = ''v1.b.s''"
proof -
  have n: "normalize_ranges demo_ranges 2 = Inr demo_ranges" unfolding demo_ranges_def by code_simp
  have d: "length (ms_lines demo_doc) = 2" "le_sha demo_env = demo_sha" by (simp_all add: demo_doc_def demo_env_def)
  show ?thesis
    by (simp add: issue_snapshot_def demo_snapshot_input_def d demo_validate n sign_token_def Let_def safe_int_def max_safe_def)
      (simp add: demo_env_def comp_def)
qed

theorem snapshot_anchors_resolve_witness:
  "\<exists>sn p. issue_snapshot demo_env 0 demo_snapshot_input = Inr sn
    \<and> verify_token demo_env 999 (sn_token sn) (replicate 32 1) = Inr p"
proof -
  from demo_issue obtain sn where sn: "issue_snapshot demo_env 0 demo_snapshot_input = Inr sn"
    "sn_source sn = demo_doc" "map fst (sn_disclosed sn) = demo_ranges" "sn_expires sn = 1000" by blast
  have p: "snapshot_payload demo_env demo_snapshot_input demo_doc demo_ranges 1000 = demo_payload"
    by (simp add: snapshot_payload_def demo_snapshot_input_def demo_payload_def demo_env_def demo_doc_def
      requester_hash_def sha_text_def ranges_hash_def source_eval)
  have c: "codec_ok demo_env (si_secret demo_snapshot_input)
      (snapshot_payload demo_env demo_snapshot_input (sn_source sn) (map fst (sn_disclosed sn)) (sn_expires sn))"
    unfolding sn(2-4) p by (simp add: codec_ok_def demo_env_def)
  have "\<exists>p. verify_token demo_env 999 (sn_token sn) (si_secret demo_snapshot_input) = Inr p"
    using snapshot_anchors_resolve [OF sn(1) c, of 999] sn(4)
    by (simp add: demo_snapshot_input_def demo_env_def demo_sha_hex) blast
  with sn(1) show ?thesis by (auto simp: demo_snapshot_input_def)
qed
end
