(* ===== verification/JsonText.thy ===== *)
theory JsonText
  imports Prelude "HOL-Library.Multiset"
begin

text \<open>
  The canonical JSON text of a value (\<^verbatim>\<open>server/helpers/canonical-json.ts\<close>), which the server
  hashes and compares. \<open>run_env\<close> gathers what the platform provides: SHA-256, \<^verbatim>\<open>JSON.parse\<close>,
  the text of a number that is not a small integer (\<^term>\<open>None\<close> if it is not finite), the collation
  order of \<^verbatim>\<open>localeCompare\<close> and the UUID check. \<^verbatim>\<open>JSON.stringify\<close> of strings and
  integers and the UTF-8 length of a text are defined.
\<close>

record run_env =
  env_sha :: "string \<Rightarrow> string"
  env_parse :: "string \<Rightarrow> js_value option"
  env_number :: "js_num \<Rightarrow> string option"
  env_collate :: "string \<Rightarrow> string \<Rightarrow> bool"
  env_uuid :: "string \<Rightarrow> bool"

section \<open>Reading JSON values\<close>

text \<open>A strict object: exactly the required keys, and optional ones.\<close>

fun js_keys :: "js_value \<Rightarrow> string list" where
  "js_keys (JObj ps) = map fst ps"
| "js_keys _ = []"

definition strict_object :: "string list \<Rightarrow> string list \<Rightarrow> js_value \<Rightarrow> bool" where
  "strict_object required optional v = (js_is_record v \<and> list_all (\<lambda>k. js_has k v) required
     \<and> list_all (\<lambda>k. k \<in> set required \<or> k \<in> set optional) (js_keys v))"

section \<open>JSON.stringify of strings and numbers\<close>

definition hex_digit :: "nat \<Rightarrow> char" where
  "hex_digit n = char_of (if n < 10 then 48 + n else 87 + n)"

definition json_char :: "char \<Rightarrow> string" where
  "json_char c = (let n = of_char c :: nat in
     if n = 34 then [char_of (92 :: nat), c]
     else if n = 92 then [c, c]
     else if n = 8 then [char_of (92 :: nat), CHR ''b'']
     else if n = 9 then [char_of (92 :: nat), CHR ''t'']
     else if n = 10 then [char_of (92 :: nat), CHR ''n'']
     else if n = 12 then [char_of (92 :: nat), CHR ''f'']
     else if n = 13 then [char_of (92 :: nat), CHR ''r'']
     else if n < 32 then [char_of (92 :: nat), CHR ''u'', CHR ''0'', CHR ''0'', hex_digit (n div 16), hex_digit (n mod 16)]
     else [c])"

definition json_string :: "string \<Rightarrow> string" where
  "json_string s = [char_of (34 :: nat)] @ concat (map json_char s) @ [char_of (34 :: nat)]"

definition number_text :: "run_env \<Rightarrow> js_num \<Rightarrow> string option" where
  "number_text env n = (case n of
      Whole i \<Rightarrow> if \<bar>i\<bar> < 10 ^ 21 then Some ((if i < 0 then ''-'' else []) @ decimal (nat \<bar>i\<bar>)) else env_number env n
    | Not_whole \<Rightarrow> env_number env n)"

definition utf8_bytes :: "string \<Rightarrow> nat" where
  "utf8_bytes s = sum_list (map (\<lambda>c. if (of_char c :: nat) < 128 then 1 else 2) s)"

fun comma_join :: "string list \<Rightarrow> string" where
  "comma_join [] = []"
| "comma_join [s] = s"
| "comma_join (s # ss) = s @ '','' @ comma_join ss"

section \<open>The canonical text\<close>

text \<open>A stable sort of entries by key.\<close>

fun insert_entry :: "('k \<Rightarrow> 'k \<Rightarrow> bool) \<Rightarrow> 'k \<times> 'v \<Rightarrow> ('k \<times> 'v) list \<Rightarrow> ('k \<times> 'v) list" where
  "insert_entry le e [] = [e]"
| "insert_entry le e (f # fs) = (if le (fst e) (fst f) then e # f # fs else f # insert_entry le e fs)"

definition sort_entries :: "('k \<Rightarrow> 'k \<Rightarrow> bool) \<Rightarrow> ('k \<times> 'v) list \<Rightarrow> ('k \<times> 'v) list" where
  "sort_entries le es = foldr (insert_entry le) es []"

text \<open>
  \<^verbatim>\<open>canonicalJson\<close>: \<^term>\<open>None\<close> where it throws. The entries are sorted after their values
  were encoded, which gives the same text.
\<close>

fun canonical_json :: "run_env \<Rightarrow> js_value \<Rightarrow> string option"
  and canonical_items :: "run_env \<Rightarrow> js_value list \<Rightarrow> string list option"
  and canonical_entries :: "run_env \<Rightarrow> (string \<times> js_value) list \<Rightarrow> (string \<times> string) list option" where
  "canonical_json env JUndefined = None"
| "canonical_json env JNull = Some ''null''"
| "canonical_json env (JBool b) = Some (if b then ''true'' else ''false'')"
| "canonical_json env (JNum n) = number_text env n"
| "canonical_json env (JStr s) = Some (json_string s)"
| "canonical_json env (JArr vs) = map_option (\<lambda>ts. ''['' @ comma_join ts @ '']'') (canonical_items env vs)"
| "canonical_json env (JObj ps) = map_option (\<lambda>es. ''{'' @ comma_join (map (\<lambda>(k, t). json_string k @ '':'' @ t)
      (sort_entries (env_collate env) es)) @ ''}'') (canonical_entries env ps)"
| "canonical_items env [] = Some []"
| "canonical_items env (v # vs) = (case canonical_json env v of None \<Rightarrow> None | Some t \<Rightarrow> map_option ((#) t) (canonical_items env vs))"
| "canonical_entries env [] = Some []"
| "canonical_entries env ((k, v) # ps) = (case canonical_json env v of None \<Rightarrow> None | Some t \<Rightarrow> map_option ((#) (k, t)) (canonical_entries env ps))"

text \<open>Values without \<^verbatim>\<open>undefined\<close> and without numbers that may be infinite have a text.\<close>

fun encodable :: "js_value \<Rightarrow> bool" and encodable_all :: "js_value list \<Rightarrow> bool" and encodable_entries :: "(string \<times> js_value) list \<Rightarrow> bool" where
  "encodable JUndefined = False"
| "encodable (JNum n) = (case n of Whole i \<Rightarrow> \<bar>i\<bar> < 10 ^ 21 | Not_whole \<Rightarrow> False)"
| "encodable (JArr vs) = encodable_all vs"
| "encodable (JObj ps) = encodable_entries ps"
| "encodable v = True"
| "encodable_all [] = True"
| "encodable_all (v # vs) = (encodable v \<and> encodable_all vs)"
| "encodable_entries [] = True"
| "encodable_entries ((k, v) # ps) = (encodable v \<and> encodable_entries ps)"

lemma encodable_text:
  "encodable v \<Longrightarrow> canonical_json env v \<noteq> None"
  "encodable_all vs \<Longrightarrow> canonical_items env vs \<noteq> None"
  "encodable_entries ps \<Longrightarrow> canonical_entries env ps \<noteq> None"
  by (induction v and vs and ps rule: encodable_encodable_all_encodable_entries.induct)
    (auto simp: number_text_def split: js_num.splits)

lemma encodable_canonical: "encodable v \<Longrightarrow> \<exists>s. canonical_json env v = Some s"
  using encodable_text(1) [of v env] by blast

section \<open>The order of entries\<close>

lemma mset_insert_entry [simp]: "mset (insert_entry le e fs) = add_mset e (mset fs)"
  by (induction fs) auto

lemma mset_sort_entries [simp]: "mset (sort_entries le es) = mset es"
  by (induction es) (auto simp: sort_entries_def)

definition key_order :: "('k \<Rightarrow> 'k \<Rightarrow> bool) \<Rightarrow> bool" where
  "key_order le = ((\<forall>a b. le a b \<or> le b a) \<and> (\<forall>a b c. le a b \<and> le b c \<longrightarrow> le a c) \<and> (\<forall>a b. le a b \<and> le b a \<longrightarrow> a = b))"

lemma key_orderD:
  assumes "key_order le"
  shows "le a b \<or> le b a" "le a b \<Longrightarrow> le b c \<Longrightarrow> le a c" "le a b \<Longrightarrow> le b a \<Longrightarrow> a = b"
  using assms unfolding key_order_def by blast+

definition in_key_order :: "('k \<Rightarrow> 'k \<Rightarrow> bool) \<Rightarrow> ('k \<times> 'v) list \<Rightarrow> bool" where
  "in_key_order le es = sorted_wrt (\<lambda>e f. le (fst e) (fst f)) es"

lemma insert_entry_set: "set (insert_entry le e fs) = insert e (set fs)"
  by (induction fs) auto

lemma insert_entry_sorted:
  assumes "key_order le" "in_key_order le fs"
  shows "in_key_order le (insert_entry le e fs)"
  using assms(2)
proof (induction fs)
  case (Cons f fs)
  show ?case
  proof (cases "le (fst e) (fst f)")
    case True
    with Cons.prems show ?thesis
      using key_orderD(2) [OF assms(1) True] by (auto simp: in_key_order_def)
  next
    case False
    then have "le (fst f) (fst e)" using key_orderD(1) [OF assms(1)] by blast
    with False Cons show ?thesis by (auto simp: in_key_order_def insert_entry_set)
  qed
qed (simp add: in_key_order_def)

lemma sort_entries_sorted: "key_order le \<Longrightarrow> in_key_order le (sort_entries le es)"
  unfolding sort_entries_def by (induction es) (simp add: in_key_order_def, simp add: insert_entry_sorted)

lemma key_sorted_unique:
  assumes "key_order le" "in_key_order le es" "in_key_order le fs" "mset es = mset fs" "distinct (map fst es)"
  shows "es = fs"
  using assms(2-5)
proof (induction es arbitrary: fs)
  case (Cons e es)
  then obtain g gs where fs: "fs = g # gs" by (cases fs) auto
  have in_fs: "e \<in> set fs" and in_es: "g \<in> set (e # es)"
    using Cons.prems(3) fs by (metis list.set_intros(1) mset_eq_setD)+
  have "le (fst e) (fst g) \<or> e = g" using in_es Cons.prems(1) by (auto simp: in_key_order_def)
  moreover have "le (fst g) (fst e) \<or> e = g" using in_fs Cons.prems(2) fs by (auto simp: in_key_order_def)
  ultimately have "fst e = fst g" using key_orderD(3) [OF assms(1)] by blast
  with in_es Cons.prems(4) have eg: "e = g" by (auto simp: image_iff)
  with Cons.prems fs have "es = gs" by (intro Cons.IH) (auto simp: in_key_order_def)
  with eg fs show ?case by simp
qed simp

lemma sort_entries_permuted:
  assumes "key_order le" "mset es = mset fs" "distinct (map fst es)"
  shows "sort_entries le es = sort_entries le fs"
proof (rule key_sorted_unique [OF assms(1)])
  have "distinct (map fst (sort_entries le es)) \<longleftrightarrow> distinct (map fst es)"
    by (metis mset_sort_entries mset_map mset_eq_imp_distinct_iff)
  with assms(3) show "distinct (map fst (sort_entries le es))" by simp
qed (simp_all add: sort_entries_sorted assms)

text \<open>Two values that differ only in the order in which the properties of their objects were set.\<close>

inductive same_json :: "js_value \<Rightarrow> js_value \<Rightarrow> bool" where
  same_refl: "same_json v v"
| same_array: "list_all2 same_json vs ws \<Longrightarrow> same_json (JArr vs) (JArr ws)"
| same_object: "distinct (map fst ps) \<Longrightarrow> list_all2 (\<lambda>p q. fst p = fst q \<and> same_json (snd p) (snd q)) ps qs \<Longrightarrow>
    mset qs = mset rs \<Longrightarrow> same_json (JObj ps) (JObj rs)"
monos list_all2_mono

lemma canonical_items_cong:
  "list_all2 (\<lambda>v w. canonical_json env v = canonical_json env w) vs ws \<Longrightarrow> canonical_items env vs = canonical_items env ws"
  by (induction vs ws rule: list_all2_induct) (simp_all split: option.splits)

lemma canonical_entries_cong:
  "list_all2 (\<lambda>p q. fst p = fst q \<and> canonical_json env (snd p) = canonical_json env (snd q)) ps qs \<Longrightarrow>
   canonical_entries env ps = canonical_entries env qs"
proof (induction ps qs rule: list_all2_induct)
  case (Cons p ps q qs)
  then show ?case by (cases p; cases q) (simp split: option.splits)
qed simp

lemma canonical_entries_Some:
  "canonical_entries env ps = Some es \<longleftrightarrow>
   (\<forall>p\<in>set ps. canonical_json env (snd p) \<noteq> None) \<and> es = map (\<lambda>p. (fst p, the (canonical_json env (snd p)))) ps"
proof (induction ps arbitrary: es)
  case (Cons p ps)
  then show ?case by (cases p) (auto split: option.splits)
qed auto

lemma canonical_entries_None:
  "canonical_entries env ps = None \<longleftrightarrow> (\<exists>p\<in>set ps. canonical_json env (snd p) = None)"
  by (induction ps) (auto split: option.splits)

lemma canonical_object_permuted:
  assumes "key_order (env_collate env)" "mset ps = mset qs" "distinct (map fst ps)"
  shows "canonical_json env (JObj ps) = canonical_json env (JObj qs)"
proof (cases "canonical_entries env ps")
  case None
  moreover from None have "canonical_entries env qs = None"
    using mset_eq_setD [OF assms(2)] by (simp add: canonical_entries_None)
  ultimately show ?thesis by simp
next
  case (Some es)
  define fs where "fs = map (\<lambda>p. (fst p, the (canonical_json env (snd p)))) qs"
  from Some have es: "es = map (\<lambda>p. (fst p, the (canonical_json env (snd p)))) ps" by (simp add: canonical_entries_Some)
  have "canonical_entries env qs = Some fs"
    using Some mset_eq_setD [OF assms(2)] by (simp add: canonical_entries_Some fs_def)
  moreover have "sort_entries (env_collate env) es = sort_entries (env_collate env) fs"
  proof (rule sort_entries_permuted [OF assms(1)])
    show "mset es = mset fs" using assms(2) by (simp add: es fs_def mset_map)
    show "distinct (map fst es)" using assms(3) by (simp add: es comp_def)
  qed
  ultimately show ?thesis using Some by simp
qed

text \<open>The canonical text identifies a value up to the order of its properties: however the objects
  inside two values were put together, the same properties with the same contents give the same
  text, and so the same hash, as long as the collation order tells different keys apart.
\<close>

theorem canonical_text_ignores_order:
  assumes "key_order (env_collate env)" and "same_json v w"
  shows "canonical_json env v = canonical_json env w"
  using assms(2)
proof induction
  case (same_array vs ws)
  then show ?case using canonical_items_cong [of env vs ws] by (simp add: list_all2_conv_all_nth)
next
  case (same_object ps qs rs)
  have "canonical_entries env ps = canonical_entries env qs"
    using same_object by (intro canonical_entries_cong) (auto simp: list_all2_conv_all_nth)
  moreover have "map fst ps = map fst qs"
    using same_object by (auto simp: list_all2_conv_all_nth intro!: nth_equalityI)
  ultimately show ?case
    using canonical_object_permuted [OF assms(1), of qs rs] same_object by simp
qed simp

text \<open>A collation by the code units of a string.\<close>

fun string_code :: "string \<Rightarrow> nat" where
  "string_code [] = 0"
| "string_code (c # s) = of_char c + 1 + 256 * string_code s"

lemma string_code_inject: "string_code s = string_code t \<Longrightarrow> s = t"
proof (induction s arbitrary: t)
  case Nil
  then show ?case by (cases t) auto
next
  case (Cons c s)
  then obtain d u where t: "t = d # u" by (cases t) auto
  have b: "(of_char c :: nat) < 256" "(of_char d :: nat) < 256" by simp_all
  from Cons.prems t have e: "of_char c + 256 * string_code s = of_char d + 256 * string_code u" by simp
  then have "(of_char c + 256 * string_code s) mod 256 = (of_char d + 256 * string_code u) mod 256" by simp
  with b have cd: "(of_char c :: nat) = of_char d" by simp
  with e have "string_code s = string_code u" by simp
  with cd Cons.IH t show ?case by simp
qed

definition demo_text_env :: run_env where
  "demo_text_env = \<lparr>env_sha = id, env_parse = (\<lambda>_. None), env_number = (\<lambda>_. None),
     env_collate = (\<lambda>s t. string_code s \<le> string_code t), env_uuid = (\<lambda>_. True)\<rparr>"

lemma demo_key_order: "key_order (env_collate demo_text_env)"
  by (auto simp: key_order_def demo_text_env_def intro: string_code_inject)

theorem canonical_text_ignores_order_witness:
  "canonical_json demo_text_env (JObj [(''b'', JNum (Whole 12)), (''a'', JArr [JNull])])
   = canonical_json demo_text_env (JObj [(''a'', JArr [JNull]), (''b'', JNum (Whole 12))])
   \<and> canonical_json demo_text_env (JObj [(''b'', JNum (Whole 12)), (''a'', JArr [JNull])]) \<noteq> None"
proof
  have "same_json (JObj [(''b'', JNum (Whole 12)), (''a'', JArr [JNull])]) (JObj [(''a'', JArr [JNull]), (''b'', JNum (Whole 12))])"
    by (rule same_object [where qs = "[(''b'', JNum (Whole 12)), (''a'', JArr [JNull])]"]) (auto intro: same_refl)
  then show "canonical_json demo_text_env (JObj [(''b'', JNum (Whole 12)), (''a'', JArr [JNull])])
   = canonical_json demo_text_env (JObj [(''a'', JArr [JNull]), (''b'', JNum (Whole 12))])"
    by (rule canonical_text_ignores_order [OF demo_key_order])
  show "canonical_json demo_text_env (JObj [(''b'', JNum (Whole 12)), (''a'', JArr [JNull])]) \<noteq> None"
    by (rule encodable_text(1)) simp
qed

end
