(* ===== verification/QuotaLedger.thy ===== *)
theory QuotaLedger
  imports Tables
begin

text \<open>
  The token and cost quota of agent runs (\<^verbatim>\<open>server/agents/coordinator.ts\<close>, from
  \<^verbatim>\<open>getOwnedAgentRun\<close> to \<^verbatim>\<open>reconcileAgentRunQuota\<close>). Each owner has one row per day with what
  is reserved and what is consumed; each run has one reservation, which is settled once.
  Every function below is one database transaction: an error leaves the tables as they were.
  The advisory lock each of them takes makes the transactions of one owner sequential.

  Counters are integers of the database; a day is a number of days since the epoch.
\<close>

section \<open>Rows\<close>

datatype run_status =
    R_queued | R_running | R_awaiting | R_succeeded | R_partial | R_failed | R_cancelled | R_recovery

definition terminal_status :: "run_status \<Rightarrow> bool" where
  "terminal_status s = (s = R_succeeded \<or> s = R_partial \<or> s = R_failed \<or> s = R_cancelled \<or> s = R_recovery)"

text \<open>The columns of a run that fence its operations; \<open>AgentRuns\<close> adds the others.\<close>

record run_fence =
  rn_id :: string
  rn_owner :: int
  rn_status :: run_status
  rn_sequence :: int
  rn_lease_owner :: "string option"
  rn_lease_token :: "string option"

text \<open>\<^verbatim>\<open>TerminalizeAgentRunExpected\<close>: an optional property is \<^term>\<open>None\<close> when absent.\<close>

record run_expected =
  ex_statuses :: "run_status list"
  ex_sequence :: "int option"
  ex_lease_owner :: "string option option"
  ex_lease_token :: "string option option"

record quota_daily =
  qd_owner :: int
  qd_day :: int
  qd_reserved_tokens :: int
  qd_consumed_tokens :: int
  qd_reserved_cost :: int
  qd_consumed_cost :: int
  qd_credit :: int
  qd_updated :: int

datatype quota_status = Reserved | Consumed | Released

record quota_reservation =
  qr_run :: string
  qr_owner :: int
  qr_day :: int
  qr_reserved_tokens :: int
  qr_reserved_cost :: int
  qr_consumed_tokens :: int
  qr_consumed_cost :: int
  qr_status :: quota_status
  qr_expires :: int
  qr_heartbeat :: int
  qr_reconciled :: "int option"

record quota_db =
  q_users :: "int list"
  q_daily :: "quota_daily list"
  q_reservations :: "quota_reservation list"

section \<open>Checked numbers\<close>

definition non_negative :: "js_num \<Rightarrow> int result" where
  "non_negative n = (case n of
      Whole i \<Rightarrow> if safe_int i \<and> 0 \<le> i then Inr i else Inl (Coded ''INVALID_AGENT_QUOTA'' 400)
    | Not_whole \<Rightarrow> Inl (Coded ''INVALID_AGENT_QUOTA'' 400))"

definition quota_corrupt :: js_error where
  "quota_corrupt = Coded ''AGENT_QUOTA_CORRUPT'' 500"

definition settlement_error :: js_error where
  "settlement_error = Coded ''AGENT_QUOTA_SETTLEMENT_REQUIRED'' 500"

definition stored_int :: "int \<Rightarrow> int result" where
  "stored_int i = (if safe_int i \<and> 0 \<le> i then Inr i else Inl quota_corrupt)"

definition stored_sum :: "int \<Rightarrow> int \<Rightarrow> int result" where
  "stored_sum a b = stored_int (a + b)"

definition stored_difference :: "int \<Rightarrow> int \<Rightarrow> int result" where
  "stored_difference a b = stored_int (a - b)"

definition day_key :: "int \<Rightarrow> int" where
  "day_key now = now div 86400000"

lemma non_negative_Inr: "non_negative n = Inr i \<longleftrightarrow> n = Whole i \<and> safe_int i \<and> 0 \<le> i"
  by (cases n) (auto simp: non_negative_def)

lemma stored_int_Inr: "stored_int i = Inr j \<longleftrightarrow> j = i \<and> safe_int i \<and> 0 \<le> i"
  by (auto simp: stored_int_def)

lemmas stored_Inr = stored_int_Inr stored_sum_def stored_difference_def

section \<open>Operations\<close>

definition daily_of :: "int \<Rightarrow> int \<Rightarrow> quota_daily \<Rightarrow> bool" where
  "daily_of owner day d = (qd_owner d = owner \<and> qd_day d = day)"

definition reservation_of :: "string \<Rightarrow> int \<Rightarrow> quota_reservation \<Rightarrow> bool" where
  "reservation_of run owner r = (qr_run r = run \<and> qr_owner r = owner)"

record quota_reset =
  rs_owner :: int
  rs_day :: int
  rs_previous :: int
  rs_credit :: int
  rs_consumed_tokens :: int
  rs_reserved_tokens :: int
  rs_consumed_cost :: int
  rs_reserved_cost :: int

text \<open>\<^verbatim>\<open>resetAgentDailyTokenQuota\<close>: the day's consumption becomes a credit on the token limit.\<close>

definition reset_daily_quota :: "js_num \<Rightarrow> int \<Rightarrow> (quota_db, quota_reset) tx" where
  "reset_daily_quota owner_id now db =
     (case owner_id of Not_whole \<Rightarrow> Inl (Coded ''INVALID_AGENT_QUOTA'' 400) | Whole owner \<Rightarrow>
      if \<not> safe_int owner \<or> owner < 1 then Inl (Coded ''INVALID_AGENT_QUOTA'' 400)
      else if owner \<notin> set (q_users db) then Inl (Coded ''AGENT_RESOURCE_NOT_FOUND'' 404)
      else let day = day_key now in
        (case sql_first (daily_of owner day) (q_daily db) of
           None \<Rightarrow> Inr (\<lparr>rs_owner = owner, rs_day = day, rs_previous = 0, rs_credit = 0, rs_consumed_tokens = 0,
                         rs_reserved_tokens = 0, rs_consumed_cost = 0, rs_reserved_cost = 0\<rparr>, db)
         | Some d \<Rightarrow>
             rbind (stored_int (qd_credit d)) (\<lambda>previous.
             rbind (stored_int (qd_consumed_tokens d)) (\<lambda>consumed.
             rbind (stored_int (qd_reserved_tokens d)) (\<lambda>reserved.
             rbind (stored_int (qd_consumed_cost d)) (\<lambda>consumed_cost.
             rbind (stored_int (qd_reserved_cost d)) (\<lambda>reserved_cost.
             let res = \<lparr>rs_owner = owner, rs_day = day, rs_previous = previous, rs_credit = consumed,
                        rs_consumed_tokens = consumed, rs_reserved_tokens = reserved,
                        rs_consumed_cost = consumed_cost, rs_reserved_cost = reserved_cost\<rparr>
             in if previous = consumed then Inr (res, db)
                else if sql_count (daily_of owner day) (q_daily db) \<noteq> 1 then Inl quota_corrupt
                else Inr (res, db\<lparr>q_daily := sql_update (daily_of owner day)
                       (\<lambda>d. d\<lparr>qd_credit := consumed, qd_updated := now\<rparr>) (q_daily db)\<rparr>))))))))"

record quota_amount =
  qa_tokens :: js_num
  qa_cost :: js_num

definition quota_exhausted :: js_error where
  "quota_exhausted = Coded ''AGENT_QUOTA_EXHAUSTED'' 429"

definition new_daily :: "int \<Rightarrow> int \<Rightarrow> int \<Rightarrow> quota_daily" where
  "new_daily owner day now = \<lparr>qd_owner = owner, qd_day = day, qd_reserved_tokens = 0, qd_consumed_tokens = 0,
     qd_reserved_cost = 0, qd_consumed_cost = 0, qd_credit = 0, qd_updated = now\<rparr>"

text \<open>
  The check of the day's limits, and the write of the grown counters. Both operations that
  reserve end with it.
\<close>

definition charge_day :: "int \<Rightarrow> int \<Rightarrow> int \<Rightarrow> int \<Rightarrow> int \<Rightarrow> quota_daily \<Rightarrow> quota_daily list \<Rightarrow> quota_daily list result" where
  "charge_day tokens cost token_limit cost_limit now d dailies =
     rbind (stored_int (qd_credit d)) (\<lambda>credit.
     rbind (stored_sum token_limit credit) (\<lambda>limit.
     if qd_reserved_tokens d + qd_consumed_tokens d + tokens > limit
        \<or> qd_reserved_cost d + qd_consumed_cost d + cost > cost_limit
     then Inl quota_exhausted
     else Inr (sql_update (daily_of (qd_owner d) (qd_day d))
       (\<lambda>e. e\<lparr>qd_reserved_tokens := qd_reserved_tokens d + tokens,
              qd_reserved_cost := qd_reserved_cost d + cost, qd_updated := now\<rparr>) dailies)))"

definition new_reservation :: "string \<Rightarrow> int \<Rightarrow> int \<Rightarrow> int \<Rightarrow> int \<Rightarrow> int \<Rightarrow> quota_reservation" where
  "new_reservation run owner tokens cost now expires =
     \<lparr>qr_run = run, qr_owner = owner, qr_day = day_key now, qr_reserved_tokens = tokens,
      qr_reserved_cost = cost, qr_consumed_tokens = 0, qr_consumed_cost = 0,
      qr_status = Reserved, qr_expires = expires, qr_heartbeat = now, qr_reconciled = None\<rparr>"

text \<open>The day's row, inserted when it is missing.\<close>

definition with_day :: "int \<Rightarrow> int \<Rightarrow> quota_daily list \<Rightarrow> quota_daily list" where
  "with_day owner now dailies =
     (if sql_first (daily_of owner (day_key now)) dailies = None
      then sql_insert (new_daily owner (day_key now) now) dailies else dailies)"

definition reserve_quota ::
  "string \<Rightarrow> int \<Rightarrow> quota_amount \<Rightarrow> quota_amount \<Rightarrow> int \<Rightarrow> int \<Rightarrow> (quota_db, unit) tx" where
  "reserve_quota run owner request limits now expires db =
     rbind (non_negative (qa_tokens request)) (\<lambda>tokens.
     rbind (non_negative (qa_cost request)) (\<lambda>cost.
     rbind (non_negative (qa_tokens limits)) (\<lambda>token_limit.
     rbind (non_negative (qa_cost limits)) (\<lambda>cost_limit.
     case sql_first (\<lambda>r. qr_run r = run) (q_reservations db) of
       Some old \<Rightarrow>
         if qr_owner old \<noteq> owner \<or> qr_reserved_tokens old \<noteq> tokens \<or> qr_reserved_cost old \<noteq> cost
         then Inl (Coded ''QUOTA_RESERVATION_MISMATCH'' 409) else Inr ((), db)
     | None \<Rightarrow>
         let dailies = with_day owner now (q_daily db)
         in (case sql_first (daily_of owner (day_key now)) dailies of
               None \<Rightarrow> Inl quota_corrupt
             | Some d \<Rightarrow> rbind (charge_day tokens cost token_limit cost_limit now d dailies) (\<lambda>charged.
                 Inr ((), db\<lparr>q_daily := charged,
                   q_reservations := sql_insert (new_reservation run owner tokens cost now expires) (q_reservations db)\<rparr>)))))))"

text \<open>\<^verbatim>\<open>ensureAgentRunQuota\<close>: a reservation grows to at least the target.\<close>

definition grow_reservation ::
  "string \<Rightarrow> int \<Rightarrow> int \<Rightarrow> int \<Rightarrow> quota_reservation \<Rightarrow> int \<Rightarrow> int \<Rightarrow> quota_reservation list \<Rightarrow> quota_reservation list" where
  "grow_reservation run owner more_tokens more_cost r expires now =
     sql_update (\<lambda>q. reservation_of run owner q \<and> qr_status q = Reserved)
       (\<lambda>q. q\<lparr>qr_reserved_tokens := qr_reserved_tokens r + more_tokens,
              qr_reserved_cost := qr_reserved_cost r + more_cost,
              qr_expires := max (qr_expires r) expires, qr_heartbeat := now\<rparr>)"

definition ensure_reservation ::
  "quota_reservation \<Rightarrow> int \<Rightarrow> int \<Rightarrow> int \<Rightarrow> int \<Rightarrow> int \<Rightarrow> int \<Rightarrow> (quota_db, unit) tx" where
  "ensure_reservation r tokens cost token_limit cost_limit expires now db =
     (if qr_status r \<noteq> Reserved then Inl (Coded ''QUOTA_RESERVATION_RECONCILED'' 409)
      else
        rbind (stored_int (qr_consumed_tokens r)) (\<lambda>pending_tokens.
        rbind (stored_int (qr_consumed_cost r)) (\<lambda>pending_cost.
        if qr_reconciled r \<noteq> None \<or> pending_tokens \<noteq> 0 \<or> pending_cost \<noteq> 0 then Inl settlement_error
        else
          rbind (stored_int (qr_reserved_tokens r)) (\<lambda>reserved_tokens.
          rbind (stored_int (qr_reserved_cost r)) (\<lambda>reserved_cost.
          let more_tokens = max 0 (tokens - reserved_tokens);
              more_cost = max 0 (cost - reserved_cost)
          in if more_tokens = 0 \<and> more_cost = 0 then Inr ((), db)
             else (case sql_first (daily_of (qr_owner r) (qr_day r)) (q_daily db) of
                None \<Rightarrow> Inl quota_corrupt
              | Some d \<Rightarrow> rbind (charge_day more_tokens more_cost token_limit cost_limit now d (q_daily db)) (\<lambda>charged.
                  Inr ((), db\<lparr>q_daily := charged,
                    q_reservations := grow_reservation (qr_run r) (qr_owner r) more_tokens more_cost r expires now
                      (q_reservations db)\<rparr>))))))))"

definition ensure_quota ::
  "string \<Rightarrow> int \<Rightarrow> quota_amount \<Rightarrow> quota_amount \<Rightarrow> int \<Rightarrow> int \<Rightarrow> (quota_db, unit) tx" where
  "ensure_quota run owner target limits expires now db =
     rbind (non_negative (qa_tokens target)) (\<lambda>tokens.
     rbind (non_negative (qa_cost target)) (\<lambda>cost.
     rbind (non_negative (qa_tokens limits)) (\<lambda>token_limit.
     rbind (non_negative (qa_cost limits)) (\<lambda>cost_limit.
     case sql_first (reservation_of run owner) (q_reservations db) of
       None \<Rightarrow> Inl (Coded ''QUOTA_RESERVATION_NOT_FOUND'' 404)
     | Some r \<Rightarrow> ensure_reservation r tokens cost token_limit cost_limit expires now db))))"

text \<open>\<^verbatim>\<open>readAgentRunQuotaSettlementIntent\<close>\<close>

definition settlement_intent :: "quota_db \<Rightarrow> string \<Rightarrow> int \<Rightarrow> (int \<times> int) option result" where
  "settlement_intent db run owner = (case sql_first (reservation_of run owner) (q_reservations db) of
      None \<Rightarrow> Inr None
    | Some r \<Rightarrow>
        rbind (stored_int (qr_consumed_tokens r)) (\<lambda>tokens.
        rbind (stored_int (qr_consumed_cost r)) (\<lambda>cost.
        if qr_status r \<noteq> Reserved \<or> qr_reconciled r \<noteq> None then Inr None else Inr (Some (tokens, cost)))))"

definition positive_settlement :: "(int \<times> int) option \<Rightarrow> bool" where
  "positive_settlement intent = (case intent of None \<Rightarrow> False | Some (t, c) \<Rightarrow> t > 0 \<or> c > 0)"

definition lease_lost :: js_error where
  "lease_lost = Coded ''RUN_LEASE_LOST'' 409"

text \<open>\<^verbatim>\<open>persistAgentRunQuotaSettlementIntent\<close>: what a run has used is recorded under its lease.\<close>

definition record_intent :: "string \<Rightarrow> int \<Rightarrow> int \<Rightarrow> int \<Rightarrow> int \<Rightarrow> (quota_db, unit) tx" where
  "record_intent run owner tokens cost now db =
     (case sql_first (reservation_of run owner) (q_reservations db) of
        None \<Rightarrow> Inl (Coded ''QUOTA_RESERVATION_NOT_FOUND'' 404)
      | Some r \<Rightarrow>
          rbind (stored_int (qr_consumed_tokens r)) (\<lambda>old_tokens.
          rbind (stored_int (qr_consumed_cost r)) (\<lambda>old_cost.
          if qr_status r \<noteq> Reserved \<or> qr_reconciled r \<noteq> None then Inl settlement_error
          else
            let next_tokens = max old_tokens tokens; next_cost = max old_cost cost;
                p = (\<lambda>q. reservation_of run owner q \<and> qr_status q = Reserved \<and> qr_reconciled q = None)
            in if next_tokens = old_tokens \<and> next_cost = old_cost then Inr ((), db)
               else if sql_count p (q_reservations db) \<noteq> 1 then Inl settlement_error
               else Inr ((), db\<lparr>q_reservations := sql_update p
                 (\<lambda>q. q\<lparr>qr_consumed_tokens := next_tokens, qr_consumed_cost := next_cost, qr_heartbeat := now\<rparr>)
                 (q_reservations db)\<rparr>))))"

definition persist_intent ::
  "'x run_fence_scheme list \<Rightarrow> string \<Rightarrow> int \<Rightarrow> quota_amount \<Rightarrow> run_expected option \<Rightarrow> int \<Rightarrow> (quota_db, unit) tx" where
  "persist_intent runs run owner consumed expected now db =
     rbind (non_negative (qa_tokens consumed)) (\<lambda>tokens.
     rbind (non_negative (qa_cost consumed)) (\<lambda>cost.
     if tokens = 0 \<and> cost = 0 then Inr ((), db)
     else case expected of
       None \<Rightarrow> Inl lease_lost
     | Some ex \<Rightarrow>
         if ex_lease_owner ex = None \<or> ex_lease_token ex = None then Inl lease_lost
         else (case sql_first (\<lambda>r. rn_id r = run \<and> rn_owner r = owner \<and> rn_status r \<in> set (ex_statuses ex)) runs of
             None \<Rightarrow> Inl lease_lost
           | Some row \<Rightarrow>
               if ex_sequence ex \<noteq> None \<and> ex_sequence ex \<noteq> Some (rn_sequence row) then Inl (Coded ''RUN_EVENT_FENCE_CHANGED'' 409)
               else if ex_lease_owner ex \<noteq> Some (rn_lease_owner row) then Inl lease_lost
               else if ex_lease_token ex \<noteq> Some (rn_lease_token row) then Inl lease_lost
               else record_intent run owner tokens cost now db)))"

text \<open>\<^verbatim>\<open>reconcileAgentRunQuotaInTransaction\<close>. The settled status is \<^term>\<open>Consumed\<close> or \<^term>\<open>Released\<close>.\<close>

record settle_input =
  se_run :: string
  se_owner :: int
  se_consumed :: quota_amount
  se_status :: quota_status

record settle_options =
  so_allow_missing :: bool
  so_accept_any :: bool

text \<open>The counters of the day after a settlement; an inconsistency is an error.\<close>

definition settle_daily :: "quota_daily option \<Rightarrow> int \<Rightarrow> int \<Rightarrow> int \<Rightarrow> int \<Rightarrow> (int \<times> int \<times> int \<times> int) result" where
  "settle_daily daily reserved_tokens reserved_cost tokens cost = (case daily of
      None \<Rightarrow> Inl quota_corrupt
    | Some d \<Rightarrow>
        rbind (stored_int (qd_reserved_tokens d)) (\<lambda>rt.
        rbind (stored_int (qd_consumed_tokens d)) (\<lambda>ct.
        rbind (stored_int (qd_reserved_cost d)) (\<lambda>rc.
        rbind (stored_int (qd_consumed_cost d)) (\<lambda>cc.
        if rt < reserved_tokens \<or> rc < reserved_cost then Inl quota_corrupt
        else rbind (stored_difference rt reserved_tokens) (\<lambda>rt'.
             rbind (stored_sum ct tokens) (\<lambda>ct'.
             rbind (stored_difference rc reserved_cost) (\<lambda>rc'.
             rbind (stored_sum cc cost) (\<lambda>cc'. Inr (rt', ct', rc', cc'))))))))))"

text \<open>The write of a settlement, once all its guards have passed.\<close>

definition settle_reservation ::
  "settle_input \<Rightarrow> int \<Rightarrow> int \<Rightarrow> int \<Rightarrow> quota_reservation \<Rightarrow> (quota_db, unit) tx" where
  "settle_reservation i tokens cost now r db =
     (let positive = positive_settlement (Some (qr_consumed_tokens r, qr_consumed_cost r));
          pd = daily_of (se_owner i) (qr_day r);
          pr = (\<lambda>q. reservation_of (se_run i) (se_owner i) q \<and> qr_status q = Reserved \<and> qr_reconciled q = None)
      in case settle_daily (sql_first pd (q_daily db)) (qr_reserved_tokens r) (qr_reserved_cost r) tokens cost of
           Inl e \<Rightarrow> Inl (if positive then settlement_error else e)
         | Inr (rt, ct, rc, cc) \<Rightarrow>
             if sql_count pd (q_daily db) \<noteq> 1 then Inl (if positive then settlement_error else quota_corrupt)
             else if sql_count pr (q_reservations db) \<noteq> 1
             then Inl (if positive then settlement_error else Coded ''QUOTA_RESERVATION_RECONCILED'' 409)
             else Inr ((), db\<lparr>
               q_daily := sql_update pd (\<lambda>e. e\<lparr>qd_reserved_tokens := rt, qd_consumed_tokens := ct,
                 qd_reserved_cost := rc, qd_consumed_cost := cc, qd_updated := now\<rparr>) (q_daily db),
               q_reservations := sql_update pr (\<lambda>q. q\<lparr>qr_status := se_status i, qr_consumed_tokens := tokens,
                 qr_consumed_cost := cost, qr_reconciled := Some now, qr_heartbeat := now\<rparr>) (q_reservations db)\<rparr>))"

definition reconcile_reservation ::
  "settle_input \<Rightarrow> settle_options \<Rightarrow> int \<Rightarrow> int \<Rightarrow> int \<Rightarrow> quota_reservation \<Rightarrow> (quota_db, unit) tx" where
  "reconcile_reservation i opts tokens cost now r db =
     rbind (stored_int (qr_reserved_tokens r)) (\<lambda>reserved_tokens.
     rbind (stored_int (qr_reserved_cost r)) (\<lambda>reserved_cost.
     rbind (stored_int (qr_consumed_tokens r)) (\<lambda>old_tokens.
     rbind (stored_int (qr_consumed_cost r)) (\<lambda>old_cost.
     if qr_status r = Released \<and> (old_tokens \<noteq> 0 \<or> old_cost \<noteq> 0) then Inl quota_corrupt
     else if qr_status r = Reserved \<and> qr_reconciled r \<noteq> None then Inl settlement_error
     else if qr_status r \<noteq> Reserved then
       (if so_accept_any opts then Inr ((), db)
        else if qr_status r = se_status i \<and> old_tokens = tokens \<and> old_cost = cost then Inr ((), db)
        else Inl (Coded ''QUOTA_RESERVATION_RECONCILED'' 409))
     else if se_status i = Released \<and> (tokens \<noteq> 0 \<or> cost \<noteq> 0) then Inl (Coded ''INVALID_AGENT_QUOTA'' 400)
     else if se_status i = Released \<and> (old_tokens \<noteq> 0 \<or> old_cost \<noteq> 0) then Inl settlement_error
     else if tokens < old_tokens \<or> cost < old_cost then Inl settlement_error
     else settle_reservation i tokens cost now r db))))"

definition reconcile_quota :: "settle_input \<Rightarrow> settle_options \<Rightarrow> int \<Rightarrow> (quota_db, unit) tx" where
  "reconcile_quota i opts now db =
     rbind (non_negative (qa_tokens (se_consumed i))) (\<lambda>tokens.
     rbind (non_negative (qa_cost (se_consumed i))) (\<lambda>cost.
     case sql_first (reservation_of (se_run i) (se_owner i)) (q_reservations db) of
       None \<Rightarrow> if so_allow_missing opts then Inr ((), db) else Inl (Coded ''QUOTA_RESERVATION_NOT_FOUND'' 404)
     | Some r \<Rightarrow> reconcile_reservation i opts tokens cost now r db))"

section \<open>The ledger invariant\<close>

datatype quota_column = Reserved_tokens | Consumed_tokens | Reserved_cost | Consumed_cost

text \<open>A counter of a day, and the part of it a reservation accounts for.\<close>

fun daily_column :: "quota_column \<Rightarrow> quota_daily \<Rightarrow> int" where
  "daily_column Reserved_tokens d = qd_reserved_tokens d"
| "daily_column Consumed_tokens d = qd_consumed_tokens d"
| "daily_column Reserved_cost d = qd_reserved_cost d"
| "daily_column Consumed_cost d = qd_consumed_cost d"

fun reservation_part :: "quota_column \<Rightarrow> quota_reservation \<Rightarrow> int" where
  "reservation_part Reserved_tokens r = (if qr_status r = Reserved then qr_reserved_tokens r else 0)"
| "reservation_part Consumed_tokens r = (if qr_status r = Reserved then 0 else qr_consumed_tokens r)"
| "reservation_part Reserved_cost r = (if qr_status r = Reserved then qr_reserved_cost r else 0)"
| "reservation_part Consumed_cost r = (if qr_status r = Reserved then 0 else qr_consumed_cost r)"

definition daily_key :: "quota_daily \<Rightarrow> int \<times> int" where
  "daily_key d = (qd_owner d, qd_day d)"

definition reservation_key :: "quota_reservation \<Rightarrow> int \<times> int" where
  "reservation_key r = (qr_owner r, qr_day r)"

definition column_sum :: "quota_column \<Rightarrow> int \<times> int \<Rightarrow> quota_reservation list \<Rightarrow> int" where
  "column_sum k key rs = sql_sum (\<lambda>r. reservation_key r = key) (reservation_part k) rs"

definition reservation_ok :: "quota_reservation \<Rightarrow> bool" where
  "reservation_ok r \<longleftrightarrow> 0 \<le> qr_reserved_tokens r \<and> 0 \<le> qr_reserved_cost r \<and> 0 \<le> qr_consumed_tokens r
     \<and> 0 \<le> qr_consumed_cost r \<and> (qr_reconciled r = None \<longleftrightarrow> qr_status r = Reserved)
     \<and> (qr_status r = Released \<longrightarrow> qr_consumed_tokens r = 0 \<and> qr_consumed_cost r = 0)"

definition ledger_inv :: "quota_db \<Rightarrow> bool" where
  "ledger_inv db \<longleftrightarrow> unique_key qr_run (q_reservations db) \<and> unique_key daily_key (q_daily db)
     \<and> (\<forall>d\<in>set (q_daily db). \<forall>k. daily_column k d = column_sum k (daily_key d) (q_reservations db))
     \<and> (\<forall>r\<in>set (q_reservations db). reservation_ok r \<and> reservation_key r \<in> daily_key ` set (q_daily db))"

lemma daily_of_key: "daily_of owner day d \<longleftrightarrow> daily_key d = (owner, day)"
  by (simp add: daily_of_def daily_key_def)

text \<open>
  The one proof behind the operations that settle or change a reservation: if the day's
  counters move by as much as the reservation's part of them, the ledger still balances.
\<close>

lemma ledger_update:
  assumes inv: "ledger_inv db"
    and r: "r \<in> set (q_reservations db)" "pr r" and pr: "\<And>q. pr q \<Longrightarrow> qr_run q = qr_run r"
    and d: "d \<in> set (q_daily db)" "daily_key d = reservation_key r"
    and pd: "\<And>e. pd e \<longleftrightarrow> daily_key e = reservation_key r"
    and fr: "\<And>q. qr_run (fr q) = qr_run q" "\<And>q. reservation_key (fr q) = reservation_key q" "reservation_ok (fr r)"
    and fd: "\<And>e. daily_key (fd e) = daily_key e"
    and bal: "\<And>k. daily_column k (fd d) = daily_column k d - reservation_part k r + reservation_part k (fr r)"
  shows "ledger_inv (db\<lparr>q_daily := sql_update pd fd (q_daily db), q_reservations := sql_update pr fr (q_reservations db)\<rparr>)"
proof -
  have ur: "unique_key qr_run (q_reservations db)" and ud: "unique_key daily_key (q_daily db)"
    and sums: "\<And>d k. d \<in> set (q_daily db) \<Longrightarrow> daily_column k d = column_sum k (daily_key d) (q_reservations db)"
    and rows: "\<And>q. q \<in> set (q_reservations db) \<Longrightarrow> reservation_ok q \<and> reservation_key q \<in> daily_key ` set (q_daily db)"
    using inv by (auto simp: ledger_inv_def)
  have keys: "daily_key ` set (sql_update pd fd (q_daily db)) = daily_key ` set (q_daily db)"
    by (rule image_sql_update) (rule fd)
  have new_sum: "column_sum k key (sql_update pr fr (q_reservations db)) =
      column_sum k key (q_reservations db) +
      (if key = reservation_key r then reservation_part k (fr r) - reservation_part k r else 0)" for k key
    unfolding column_sum_def
    using sql_sum_update_key [where k = qr_run and q = pr and f = fr and p = "\<lambda>q. reservation_key q = key"
      and g = "reservation_part k", OF ur r pr]
    by (simp add: fr(2) eq_commute [of key])
  have col: "daily_column k e = column_sum k (daily_key e) (sql_update pr fr (q_reservations db))"
    if e: "e \<in> set (sql_update pd fd (q_daily db))" for e k
  proof -
    from set_sql_updateD [OF e] obtain e0 where e0: "e0 \<in> set (q_daily db)" "e = (if pd e0 then fd e0 else e0)" by blast
    show ?thesis
    proof (cases "pd e0")
      case True
      then have "daily_key e0 = daily_key d" using pd d(2) by simp
      then have e: "e = fd d" using unique_keyD [OF ud e0(1) d(1)] e0(2) True by simp
      have "daily_key e = reservation_key r" by (simp add: e fd d(2))
      then show ?thesis unfolding new_sum by (simp add: e bal sums [OF d(1)] d(2))
    next
      case False
      then have e: "e = e0" "daily_key e0 \<noteq> reservation_key r" using e0(2) pd by simp_all
      then show ?thesis unfolding new_sum by (simp add: sums [OF e0(1)])
    qed
  qed
  have "reservation_ok q \<and> reservation_key q \<in> daily_key ` set (q_daily db)"
    if "q \<in> set (sql_update pr fr (q_reservations db))" for q
  proof -
    from set_sql_updateD [OF that] obtain q0 where q0: "q0 \<in> set (q_reservations db)" "q = (if pr q0 then fr q0 else q0)" by blast
    show ?thesis
    proof (cases "pr q0")
      case True
      then have "q = fr r" using unique_keyD [OF ur q0(1) r(1) pr [OF True]] q0(2) True by simp
      then show ?thesis using rows [OF r(1)] fr(2,3) by simp
    next
      case False
      then show ?thesis using rows [OF q0(1)] q0(2) by simp
    qed
  qed
  moreover have "unique_key qr_run (sql_update pr fr (q_reservations db))"
    by (rule unique_key_update [OF ur]) (rule fr(1))
  moreover have "unique_key daily_key (sql_update pd fd (q_daily db))"
    by (rule unique_key_update [OF ud]) (rule fd)
  ultimately show ?thesis using col by (simp add: ledger_inv_def keys)
qed

lemma reset_inv:
  assumes "ledger_inv db" "reset_daily_quota owner now db = Inr (res, db')"
  shows "ledger_inv db'"
proof -
  from assms(2) have "db' = db \<or> (\<exists>owner day c. db' = db\<lparr>q_daily := sql_update (daily_of owner day)
      (\<lambda>d. d\<lparr>qd_credit := c, qd_updated := now\<rparr>) (q_daily db)\<rparr>)"
    by (auto simp: reset_daily_quota_def Let_def rbind_Inr_iff split: js_num.splits option.splits if_splits)
  then show ?thesis
  proof (elim disjE exE)
    fix owner day c
    let ?f = "\<lambda>d. d\<lparr>qd_credit := c, qd_updated := now\<rparr>"
    let ?ds = "sql_update (daily_of owner day) ?f (q_daily db)"
    assume db': "db' = db\<lparr>q_daily := ?ds\<rparr>"
    have k: "daily_key (?f d) = daily_key d" "daily_column kk (?f d) = daily_column kk d" for d kk
      by (simp add: daily_key_def) (cases kk; simp)
    have keys: "daily_key ` set ?ds = daily_key ` set (q_daily db)"
      by (rule image_sql_update) (rule k)
    have "\<forall>d\<in>set ?ds. \<forall>kk. daily_column kk d = column_sum kk (daily_key d) (q_reservations db)"
      using assms(1) by (intro ball_sql_update) (simp_all add: ledger_inv_def k)
    with assms(1) keys show ?thesis
      using unique_key_update [of daily_key "q_daily db" ?f "daily_of owner day"]
      by (simp add: ledger_inv_def db' k)
  qed (use assms(1) in simp)
qed

lemma first_reservation:
  assumes "ledger_inv db" "sql_first (reservation_of run owner) (q_reservations db) = Some r"
  shows "r \<in> set (q_reservations db)" "qr_run r = run" "qr_owner r = owner" "reservation_ok r"
  using sql_first_SomeD [OF assms(2)] assms(1) by (auto simp: reservation_of_def ledger_inv_def)

lemma first_daily:
  assumes "sql_first (daily_of owner day) ds = Some d"
  shows "d \<in> set ds" "daily_key d = (owner, day)"
  using sql_first_SomeD [OF assms] by (auto simp: daily_of_key)

lemma column_cases: "(\<And>k. P k) \<equiv> Trueprop (P Reserved_tokens \<and> P Consumed_tokens \<and> P Reserved_cost \<and> P Consumed_cost)"
  by (rule equal_intr_rule, simp) (rule quota_column.induct, simp_all)

text \<open>A successful charge stays within the limits and adds to the day's reservations.\<close>

lemma charge_day_success:
  assumes "charge_day tokens cost token_limit cost_limit now d dailies = Inr charged"
  shows "charged = sql_update (daily_of (qd_owner d) (qd_day d))
       (\<lambda>e. e\<lparr>qd_reserved_tokens := qd_reserved_tokens d + tokens,
              qd_reserved_cost := qd_reserved_cost d + cost, qd_updated := now\<rparr>) dailies
    \<and> qd_reserved_tokens d + qd_consumed_tokens d + tokens \<le> token_limit + qd_credit d
    \<and> qd_reserved_cost d + qd_consumed_cost d + cost \<le> cost_limit"
  using assms by (auto simp: charge_day_def rbind_Inr_iff stored_Inr split: if_splits)

lemma ensure_reservation_success:
  assumes res: "ensure_reservation r tokens cost token_limit cost_limit expires now db = Inr (u, db')"
  shows "db' = db \<or> (\<exists>d charged. qr_status r = Reserved
    \<and> sql_first (daily_of (qr_owner r) (qr_day r)) (q_daily db) = Some d
    \<and> charge_day (max 0 (tokens - qr_reserved_tokens r)) (max 0 (cost - qr_reserved_cost r)) token_limit cost_limit now d (q_daily db) = Inr charged
    \<and> db' = db\<lparr>q_daily := charged,
         q_reservations := grow_reservation (qr_run r) (qr_owner r) (max 0 (tokens - qr_reserved_tokens r))
           (max 0 (cost - qr_reserved_cost r)) r expires now (q_reservations db)\<rparr>)"
  using res unfolding ensure_reservation_def Let_def
  by (auto elim!: rbind_InrE simp: stored_int_Inr split: if_splits option.splits)

lemma ensure_inv:
  assumes inv: "ledger_inv db" and res: "ensure_quota run owner target limits expires now db = Inr (u, db')"
  shows "ledger_inv db'"
proof -
  from res obtain r tokens cost tl cl where
    r: "sql_first (reservation_of run owner) (q_reservations db) = Some r"
    and er: "ensure_reservation r tokens cost tl cl expires now db = Inr (u, db')"
    unfolding ensure_quota_def by (auto elim!: rbind_InrE split: option.splits)
  note fr = first_reservation [OF inv r]
  define mt where "mt = max 0 (tokens - qr_reserved_tokens r)"
  define mc where "mc = max 0 (cost - qr_reserved_cost r)"
  have m: "0 \<le> mt" "0 \<le> mc" by (simp_all add: mt_def mc_def)
  from ensure_reservation_success [OF er] show ?thesis
  proof (elim disjE exE conjE)
    fix d charged
    assume st: "qr_status r = Reserved" and d: "sql_first (daily_of (qr_owner r) (qr_day r)) (q_daily db) = Some d"
      and ch: "charge_day (max 0 (tokens - qr_reserved_tokens r)) (max 0 (cost - qr_reserved_cost r)) tl cl now d (q_daily db) = Inr charged"
      and db': "db' = db\<lparr>q_daily := charged,
         q_reservations := grow_reservation (qr_run r) (qr_owner r) (max 0 (tokens - qr_reserved_tokens r))
           (max 0 (cost - qr_reserved_cost r)) r expires now (q_reservations db)\<rparr>"
    note fd = first_daily [OF d]
    note c = charge_day_success [OF ch, THEN conjunct1]
    have bal: "daily_column k (d\<lparr>qd_reserved_tokens := qd_reserved_tokens d + mt, qd_reserved_cost := qd_reserved_cost d + mc, qd_updated := now\<rparr>)
      = daily_column k d - reservation_part k r + reservation_part k (r\<lparr>qr_reserved_tokens := qr_reserved_tokens r + mt,
          qr_reserved_cost := qr_reserved_cost r + mc, qr_expires := max (qr_expires r) expires, qr_heartbeat := now\<rparr>)" for k
      using st by (cases k) simp_all
    show ?thesis unfolding db' c grow_reservation_def mt_def [symmetric] mc_def [symmetric]
    proof (rule ledger_update [where r = r and d = d, OF inv])
      show "reservation_ok (r\<lparr>qr_reserved_tokens := qr_reserved_tokens r + mt, qr_reserved_cost := qr_reserved_cost r + mc,
          qr_expires := max (qr_expires r) expires, qr_heartbeat := now\<rparr>)"
        using fr(4) m by (simp add: reservation_ok_def)
    qed (use fd fr st bal in \<open>simp_all add: reservation_of_def reservation_key_def daily_of_key daily_key_def\<close>)
  qed (use inv in simp)
qed

lemma with_day_inv:
  assumes inv: "ledger_inv db"
  shows "ledger_inv (db\<lparr>q_daily := with_day owner now (q_daily db)\<rparr>)"
proof (cases "sql_first (daily_of owner (day_key now)) (q_daily db)")
  case (Some d)
  then show ?thesis using inv by (simp add: with_day_def)
next
  case None
  let ?d = "new_daily owner (day_key now) now"
  have nk: "daily_key ?d \<notin> daily_key ` set (q_daily db)"
    using None by (auto simp: sql_first_None daily_of_key daily_key_def new_daily_def)
  have "column_sum k (daily_key ?d) (q_reservations db) = 0" for k
  proof -
    have "reservation_key r \<noteq> daily_key ?d" if "r \<in> set (q_reservations db)" for r
    proof -
      have "reservation_key r \<in> daily_key ` set (q_daily db)" using inv that by (simp add: ledger_inv_def)
      with nk show ?thesis by metis
    qed
    then have "filter (\<lambda>r. reservation_key r = daily_key ?d) (q_reservations db) = []"
      by (simp add: filter_empty_conv)
    then show ?thesis by (simp add: column_sum_def sql_sum_def)
  qed
  moreover have "daily_column k ?d = 0" for k by (cases k) (simp_all add: new_daily_def)
  moreover have "unique_key daily_key (sql_insert ?d (q_daily db))"
    using inv nk by (auto simp: ledger_inv_def intro: unique_key_insert)
  ultimately show ?thesis using inv None by (simp add: with_day_def ledger_inv_def) 
qed

lemma reserve_success:
  assumes "reserve_quota run owner request limits now expires db = Inr (u, db')"
  shows "db' = db \<or> (\<exists>tokens cost token_limit cost_limit d charged.
      sql_first (\<lambda>r. qr_run r = run) (q_reservations db) = None
    \<and> qa_tokens limits = Whole token_limit \<and> qa_cost limits = Whole cost_limit \<and> 0 \<le> tokens \<and> 0 \<le> cost
    \<and> sql_first (daily_of owner (day_key now)) (with_day owner now (q_daily db)) = Some d
    \<and> charge_day tokens cost token_limit cost_limit now d (with_day owner now (q_daily db)) = Inr charged
    \<and> db' = db\<lparr>q_daily := charged,
         q_reservations := sql_insert (new_reservation run owner tokens cost now expires) (q_reservations db)\<rparr>)"
  using assms unfolding reserve_quota_def Let_def
  by (elim rbind_InrE, cases "sql_first (\<lambda>r. qr_run r = run) (q_reservations db)")
    (simp_all add: non_negative_Inr split: option.splits if_splits, (elim rbind_InrE, blast)?)

lemma column_sum_insert:
  "column_sum k key (sql_insert r rs) = column_sum k key rs + (if reservation_key r = key then reservation_part k r else 0)"
  by (simp add: column_sum_def)

lemma reserve_inv:
  assumes inv: "ledger_inv db" and res: "reserve_quota run owner request limits now expires db = Inr (u, db')"
  shows "ledger_inv db'"
  using reserve_success [OF res]
proof (elim disjE exE conjE)
  fix tokens cost tl cl charged and d :: quota_daily
  let ?ds = "with_day owner now (q_daily db)" and ?r = "new_reservation run owner tokens cost now expires"
  let ?f = "\<lambda>e :: quota_daily. e\<lparr>qd_reserved_tokens := qd_reserved_tokens d + tokens, qd_reserved_cost := qd_reserved_cost d + cost, qd_updated := now\<rparr>"
  assume none: "sql_first (\<lambda>r. qr_run r = run) (q_reservations db) = None"
    and d: "sql_first (daily_of owner (day_key now)) ?ds = Some d" and nn: "0 \<le> tokens" "0 \<le> cost"
    and ch: "charge_day tokens cost tl cl now d ?ds = Inr charged"
    and db': "db' = db\<lparr>q_daily := charged, q_reservations := sql_insert ?r (q_reservations db)\<rparr>"
  note fd = first_daily [OF d]
  let ?p = "daily_of (qd_owner d) (qd_day d)"
  have c: "charged = sql_update ?p ?f ?ds" using charge_day_success [OF ch] by blast
  have p: "?p e \<longleftrightarrow> daily_key e = daily_key d" for e by (simp add: daily_of_def daily_key_def)
  have rk: "reservation_key ?r = daily_key d" using fd(2) by (simp add: reservation_key_def new_reservation_def)
  have fk: "daily_key (?f e) = daily_key e" for e by (simp add: daily_key_def)
  note inv1 = with_day_inv [OF inv, of owner now]
  have ud: "unique_key daily_key ?ds" using inv1 by (simp add: ledger_inv_def)
  have part: "daily_column k (?f d) = daily_column k d + reservation_part k ?r" for k
    by (cases k) (simp_all add: new_reservation_def)
  have col: "daily_column k e = column_sum k (daily_key e) (sql_insert ?r (q_reservations db))"
    if e: "e \<in> set charged" for e k
  proof -
    from set_sql_updateD [OF e [unfolded c]] obtain e0 where
      e0: "e0 \<in> set ?ds" "e = (if ?p e0 then ?f e0 else e0)" by blast
    have old: "daily_column k e0 = column_sum k (daily_key e0) (q_reservations db)"
      using inv1 e0(1) by (simp add: ledger_inv_def)
    show ?thesis
    proof (cases "daily_key e0 = daily_key d")
      case True
      then have e0d: "e0 = d" using unique_keyD [OF ud e0(1) fd(1)] by simp
      then have "e = ?f d" using e0(2) p by simp
      then show ?thesis using old [unfolded e0d] part [of k] rk fk [of d] by (simp add: column_sum_insert)
    next
      case False
      then show ?thesis using old e0(2) rk by (simp add: column_sum_insert p)
    qed
  qed
  have keys: "daily_key ` set charged = daily_key ` set ?ds" unfolding c by (rule image_sql_update) (rule fk)
  have rows: "reservation_ok q \<and> reservation_key q \<in> daily_key ` set charged" if "q \<in> set (sql_insert ?r (q_reservations db))" for q
  proof (cases "q = ?r")
    case True
    then show ?thesis unfolding keys using nn fd(1) rk
      by (simp add: reservation_ok_def) (simp add: new_reservation_def)
  next
    case False
    with that have "q \<in> set (q_reservations db)" by simp
    with inv1 show ?thesis unfolding keys by (simp add: ledger_inv_def)
  qed
  have "unique_key qr_run (sql_insert ?r (q_reservations db))"
    using inv none by (intro unique_key_insert) (auto simp: ledger_inv_def sql_first_None new_reservation_def)
  moreover have "unique_key daily_key charged" unfolding c by (rule unique_key_update [OF ud]) (rule fk)
  ultimately show ?thesis using col rows unfolding db' ledger_inv_def by simp
qed (use inv in simp)

text \<open>Recording an intent leaves what the ledger counts: the reservation is still reserved.\<close>

lemma record_intent_inv:
  assumes inv: "ledger_inv db" and res: "record_intent run owner tokens cost now db = Inr (u, db')"
  shows "ledger_inv db'"
proof (cases "db' = db")
  case False
  let ?p = "\<lambda>q. reservation_of run owner q \<and> qr_status q = Reserved \<and> qr_reconciled q = None"
  from res False obtain r where r: "sql_first (reservation_of run owner) (q_reservations db) = Some r"
    and st: "qr_status r = Reserved" "qr_reconciled r = None" "0 \<le> qr_consumed_tokens r" "0 \<le> qr_consumed_cost r"
    and db': "db' = db\<lparr>q_reservations := sql_update ?p (\<lambda>q. q\<lparr>qr_consumed_tokens := max (qr_consumed_tokens r) tokens,
        qr_consumed_cost := max (qr_consumed_cost r) cost, qr_heartbeat := now\<rparr>) (q_reservations db)\<rparr>"
    by (auto simp: record_intent_def Let_def elim!: rbind_InrE split: option.splits if_splits) (auto simp: stored_int_Inr)
  note fr = first_reservation [OF inv r]
  obtain d where d: "d \<in> set (q_daily db)" "daily_key d = reservation_key r"
    using inv fr(1) by (auto simp: ledger_inv_def)
  have same: "sql_update (\<lambda>e. daily_key e = reservation_key r) id (q_daily db) = q_daily db"
    unfolding sql_update_def by (rule map_idI) simp
  let ?f = "\<lambda>q. q\<lparr>qr_consumed_tokens := max (qr_consumed_tokens r) tokens,
        qr_consumed_cost := max (qr_consumed_cost r) cost, qr_heartbeat := now\<rparr>"
  have bal: "reservation_part k (?f r) = reservation_part k r" for k using st(1) by (cases k) simp_all
  have "ledger_inv (db\<lparr>q_daily := sql_update (\<lambda>e. daily_key e = reservation_key r) id (q_daily db),
      q_reservations := sql_update ?p ?f (q_reservations db)\<rparr>)"
  proof (rule ledger_update [where r = r and d = d, OF inv])
    show "reservation_ok (?f r)" using fr(4) st by (auto simp: reservation_ok_def)
    show "daily_column k (id d) = daily_column k d - reservation_part k r + reservation_part k (?f r)" for k
      unfolding bal by simp
  qed (use fr d st in \<open>simp_all add: reservation_of_def reservation_key_def\<close>)
  then show ?thesis by (simp add: db' same)
qed (use inv in simp)

lemma persist_intent_inv:
  assumes inv: "ledger_inv db" and res: "persist_intent runs run owner consumed expected now db = Inr (u, db')"
  shows "ledger_inv db'"
  using res record_intent_inv [OF inv] inv unfolding persist_intent_def
  by (auto elim!: rbind_InrE split: option.splits if_splits)

lemma settle_daily_success:
  assumes "settle_daily daily reserved_tokens reserved_cost tokens cost = Inr (rt, ct, rc, cc)"
  shows "\<exists>d. daily = Some d \<and> rt = qd_reserved_tokens d - reserved_tokens \<and> ct = qd_consumed_tokens d + tokens
    \<and> rc = qd_reserved_cost d - reserved_cost \<and> cc = qd_consumed_cost d + cost \<and> safe_int ct \<and> safe_int cc"
  using assms unfolding settle_daily_def
  by (cases daily) (auto elim!: rbind_InrE simp: stored_Inr split: if_splits)

text \<open>The row a settlement writes.\<close>

definition settled_row :: "quota_status \<Rightarrow> int \<Rightarrow> int \<Rightarrow> int \<Rightarrow> quota_reservation \<Rightarrow> quota_reservation" where
  "settled_row st tokens cost now q = q\<lparr>qr_status := st, qr_consumed_tokens := tokens,
     qr_consumed_cost := cost, qr_reconciled := Some now, qr_heartbeat := now\<rparr>"

definition settled_day :: "quota_daily \<Rightarrow> quota_reservation \<Rightarrow> int \<Rightarrow> int \<Rightarrow> int \<Rightarrow> quota_daily \<Rightarrow> quota_daily" where
  "settled_day d r tokens cost now e = e\<lparr>qd_reserved_tokens := qd_reserved_tokens d - qr_reserved_tokens r,
     qd_consumed_tokens := qd_consumed_tokens d + tokens, qd_reserved_cost := qd_reserved_cost d - qr_reserved_cost r,
     qd_consumed_cost := qd_consumed_cost d + cost, qd_updated := now\<rparr>"

definition pending_of :: "string \<Rightarrow> int \<Rightarrow> quota_reservation \<Rightarrow> bool" where
  "pending_of run owner q = (reservation_of run owner q \<and> qr_status q = Reserved \<and> qr_reconciled q = None)"

lemma settle_reservation_success:
  assumes "settle_reservation i tokens cost now r db = Inr (u, db')"
  shows "\<exists>d. sql_first (daily_of (se_owner i) (qr_day r)) (q_daily db) = Some d
    \<and> db' = db\<lparr>q_daily := sql_update (daily_of (se_owner i) (qr_day r)) (settled_day d r tokens cost now) (q_daily db),
         q_reservations := sql_update (pending_of (se_run i) (se_owner i)) (settled_row (se_status i) tokens cost now) (q_reservations db)\<rparr>"
  using assms unfolding settle_reservation_def Let_def
  by (auto split: sum.splits if_splits dest!: settle_daily_success
    simp: settled_row_def [abs_def] settled_day_def [abs_def] pending_of_def [abs_def])

lemma reconcile_success:
  assumes "reconcile_quota i opts now db = Inr (u, db')" and "db' \<noteq> db"
  shows "\<exists>r tokens cost. sql_first (reservation_of (se_run i) (se_owner i)) (q_reservations db) = Some r
    \<and> qa_tokens (se_consumed i) = Whole tokens \<and> qa_cost (se_consumed i) = Whole cost \<and> 0 \<le> tokens \<and> 0 \<le> cost
    \<and> qr_status r = Reserved \<and> qr_reconciled r = None \<and> qr_consumed_tokens r \<le> tokens \<and> qr_consumed_cost r \<le> cost
    \<and> (se_status i = Released \<longrightarrow> tokens = 0 \<and> cost = 0)
    \<and> settle_reservation i tokens cost now r db = Inr (u, db')"
proof -
  from assms obtain r tokens cost where
    r: "sql_first (reservation_of (se_run i) (se_owner i)) (q_reservations db) = Some r"
    and n: "qa_tokens (se_consumed i) = Whole tokens" "qa_cost (se_consumed i) = Whole cost" "0 \<le> tokens" "0 \<le> cost"
    and rr: "reconcile_reservation i opts tokens cost now r db = Inr (u, db')"
    unfolding reconcile_quota_def by (auto elim!: rbind_InrE simp: non_negative_Inr split: option.splits if_splits)
  from rr assms(2) have "qr_status r = Reserved \<and> qr_reconciled r = None \<and> qr_consumed_tokens r \<le> tokens \<and> qr_consumed_cost r \<le> cost
    \<and> (se_status i = Released \<longrightarrow> tokens = 0 \<and> cost = 0) \<and> settle_reservation i tokens cost now r db = Inr (u, db')"
    unfolding reconcile_reservation_def by (auto elim!: rbind_InrE simp: stored_int_Inr split: if_splits)
  with r n show ?thesis by blast
qed

lemma reconcile_inv:
  assumes inv: "ledger_inv db" and res: "reconcile_quota i opts now db = Inr (u, db')" and st: "se_status i \<noteq> Reserved"
  shows "ledger_inv db'"
proof (cases "db' = db")
  case False
  from reconcile_success [OF res False] obtain r tokens cost where
    r: "sql_first (reservation_of (se_run i) (se_owner i)) (q_reservations db) = Some r"
    and n: "0 \<le> tokens" "0 \<le> cost" "qr_status r = Reserved" "qr_reconciled r = None"
    "se_status i = Released \<longrightarrow> tokens = 0 \<and> cost = 0"
    and s: "settle_reservation i tokens cost now r db = Inr (u, db')" by blast
  from settle_reservation_success [OF s] obtain d where d: "sql_first (daily_of (se_owner i) (qr_day r)) (q_daily db) = Some d"
    and db': "db' = db\<lparr>q_daily := sql_update (daily_of (se_owner i) (qr_day r)) (settled_day d r tokens cost now) (q_daily db),
         q_reservations := sql_update (pending_of (se_run i) (se_owner i)) (settled_row (se_status i) tokens cost now) (q_reservations db)\<rparr>"
    by blast
  note fr = first_reservation [OF inv r] and fd = first_daily [OF d]
  show ?thesis unfolding db'
  proof (rule ledger_update [where r = r and d = d, OF inv])
    show "daily_column k (settled_day d r tokens cost now d) = daily_column k d - reservation_part k r
        + reservation_part k (settled_row (se_status i) tokens cost now r)" for k
      using n(3) st by (cases k) (simp_all add: settled_day_def settled_row_def)
    show "reservation_ok (settled_row (se_status i) tokens cost now r)"
      using fr(4) n st by (auto simp: reservation_ok_def settled_row_def)
  qed (use fr fd n in \<open>simp_all add: pending_of_def reservation_of_def reservation_key_def daily_of_key daily_key_def
      settled_day_def settled_row_def\<close>)
qed (use inv in simp)

section \<open>Any sequence of transactions\<close>

datatype quota_op =
    Op_reset js_num int
  | Op_reserve string int quota_amount quota_amount int int
  | Op_ensure string int quota_amount quota_amount int int
  | Op_intent "run_fence list" string int quota_amount "run_expected option" int
  | Op_reconcile settle_input settle_options int

definition settle_target :: "settle_input \<Rightarrow> settle_input" where
  "settle_target i = (if se_status i = Reserved then i\<lparr>se_status := Consumed\<rparr> else i)"

text \<open>The type of \<^verbatim>\<open>status\<close> leaves only \<^term>\<open>Consumed\<close> and \<^term>\<open>Released\<close>.\<close>

fun run_quota :: "quota_op \<Rightarrow> (quota_db, unit) tx" where
  "run_quota (Op_reset owner now) db = rbind (reset_daily_quota owner now db) (\<lambda>(_, db'). Inr ((), db'))"
| "run_quota (Op_reserve run owner request limits now expires) db = reserve_quota run owner request limits now expires db"
| "run_quota (Op_ensure run owner target limits expires now) db = ensure_quota run owner target limits expires now db"
| "run_quota (Op_intent runs run owner consumed expected now) db = persist_intent runs run owner consumed expected now db"
| "run_quota (Op_reconcile i opts now) db = reconcile_quota (settle_target i) opts now db"

interpretation quota: tx_component run_quota ledger_inv
proof
  fix op' db a db'
  assume "ledger_inv db" "run_quota op' db = Inr (a, db')"
  then show "ledger_inv db'"
    by (cases op') (auto simp: rbind_Inr_iff settle_target_def
      dest: reset_inv reserve_inv ensure_inv persist_intent_inv reconcile_inv split: if_splits)
qed

definition empty_quota :: "int list \<Rightarrow> quota_db" where
  "empty_quota users = \<lparr>q_users = users, q_daily = [], q_reservations = []\<rparr>"

lemma empty_quota_inv: "ledger_inv (empty_quota users)"
  by (simp add: ledger_inv_def empty_quota_def unique_key_def)

text \<open>C9. The quota ledger balances. Whatever reservations, extensions, settlement intents,
  settlements and resets were committed or refused, in whatever order, each day's row of an
  owner holds exactly the sums over that day's reservations: what is reserved by those not
  yet settled, and what is consumed by the settled ones. No run has two reservations.\<close>

theorem quota_ledger_balances:
  assumes "db = run_txs (map run_quota ops) (empty_quota users)" and "d \<in> set (q_daily db)"
  shows "unique_key qr_run (q_reservations db)
    \<and> qd_reserved_tokens d = sql_sum (\<lambda>r. qr_owner r = qd_owner d \<and> qr_day r = qd_day d)
        (\<lambda>r. if qr_status r = Reserved then qr_reserved_tokens r else 0) (q_reservations db)
    \<and> qd_consumed_tokens d = sql_sum (\<lambda>r. qr_owner r = qd_owner d \<and> qr_day r = qd_day d)
        (\<lambda>r. if qr_status r = Reserved then 0 else qr_consumed_tokens r) (q_reservations db)
    \<and> qd_reserved_cost d = sql_sum (\<lambda>r. qr_owner r = qd_owner d \<and> qr_day r = qd_day d)
        (\<lambda>r. if qr_status r = Reserved then qr_reserved_cost r else 0) (q_reservations db)
    \<and> qd_consumed_cost d = sql_sum (\<lambda>r. qr_owner r = qd_owner d \<and> qr_day r = qd_day d)
        (\<lambda>r. if qr_status r = Reserved then 0 else qr_consumed_cost r) (q_reservations db)"
proof -
  have inv: "ledger_inv db" unfolding assms(1) by (rule quota.run_inv [OF empty_quota_inv])
  have key: "(\<lambda>r. reservation_key r = daily_key d) = (\<lambda>r. qr_owner r = qd_owner d \<and> qr_day r = qd_day d)"
    by (auto simp: reservation_key_def daily_key_def)
  have part: "reservation_part Reserved_tokens = (\<lambda>r. if qr_status r = Reserved then qr_reserved_tokens r else 0)"
    "reservation_part Consumed_tokens = (\<lambda>r. if qr_status r = Reserved then 0 else qr_consumed_tokens r)"
    "reservation_part Reserved_cost = (\<lambda>r. if qr_status r = Reserved then qr_reserved_cost r else 0)"
    "reservation_part Consumed_cost = (\<lambda>r. if qr_status r = Reserved then 0 else qr_consumed_cost r)"
    by (simp_all add: fun_eq_iff)
  have col: "daily_column k d = sql_sum (\<lambda>r. qr_owner r = qd_owner d \<and> qr_day r = qd_day d) (reservation_part k) (q_reservations db)" for k
    using inv assms(2) by (simp add: ledger_inv_def column_sum_def key)
  have "unique_key qr_run (q_reservations db)" using inv by (simp add: ledger_inv_def)
  with col [of Reserved_tokens] col [of Consumed_tokens] col [of Reserved_cost] col [of Consumed_cost]
  show ?thesis unfolding part by simp
qed

section \<open>Admission and settlement\<close>

lemma with_day_present: "sql_first (daily_of owner (day_key now)) ds = Some d \<Longrightarrow> with_day owner now ds = ds"
  by (simp add: with_day_def)

text \<open>A new reservation is granted exactly when it fits: with a row for the day, a run that
  has no reservation yet gets one if and only if the day's reserved and consumed tokens with
  the request stay within the daily limit plus the reset credit, and likewise the cost. A
  refusal is the error for an exhausted quota.\<close>

theorem reserve_exactly_when_it_fits:
  assumes "qa_tokens request = Whole tokens" and "qa_cost request = Whole cost"
    and "qa_tokens limits = Whole token_limit" and "qa_cost limits = Whole cost_limit"
    and "safe_int tokens \<and> 0 \<le> tokens \<and> safe_int cost \<and> 0 \<le> cost"
    and "safe_int token_limit \<and> 0 \<le> token_limit \<and> safe_int cost_limit \<and> 0 \<le> cost_limit"
    and "\<forall>r\<in>set (q_reservations db). qr_run r \<noteq> run"
    and "sql_first (daily_of owner (day_key now)) (q_daily db) = Some d"
    and "0 \<le> qd_credit d" and "safe_int (token_limit + qd_credit d)" and "safe_int (qd_credit d)"
  shows "if qd_reserved_tokens d + qd_consumed_tokens d + tokens \<le> token_limit + qd_credit d
            \<and> qd_reserved_cost d + qd_consumed_cost d + cost \<le> cost_limit
    then is_ok (reserve_quota run owner request limits now expires db)
    else reserve_quota run owner request limits now expires db = Inl quota_exhausted"
proof -
  have n: "sql_first (\<lambda>r. qr_run r = run) (q_reservations db) = None"
    using assms(7) by (simp add: sql_first_None)
  show ?thesis
    using assms(1-6,8-11)
    by (simp add: reserve_quota_def n non_negative_def with_day_present charge_day_def stored_int_def stored_sum_def)
qed

text \<open>A row of one run, before and after.\<close>

definition usage_kept :: "quota_reservation \<Rightarrow> quota_reservation \<Rightarrow> bool" where
  "usage_kept r r' \<longleftrightarrow> qr_run r' = qr_run r \<and> qr_owner r' = qr_owner r \<and> qr_day r' = qr_day r
     \<and> qr_consumed_tokens r \<le> qr_consumed_tokens r' \<and> qr_consumed_cost r \<le> qr_consumed_cost r'
     \<and> (qr_status r \<noteq> Reserved \<longrightarrow> r' = r)"

definition usage_kept_all :: "quota_db \<Rightarrow> quota_db \<Rightarrow> bool" where
  "usage_kept_all db db' = (\<forall>r\<in>set (q_reservations db). \<exists>r'\<in>set (q_reservations db'). usage_kept r r')"

lemma usage_kept_refl: "usage_kept r r"
  by (simp add: usage_kept_def)

lemma usage_kept_all_refl: "usage_kept_all db db"
  using usage_kept_refl by (auto simp: usage_kept_all_def)

lemma usage_kept_trans: "usage_kept r s \<Longrightarrow> usage_kept s t \<Longrightarrow> usage_kept r t"
  by (auto simp: usage_kept_def)

lemma usage_kept_all_trans: "usage_kept_all a b \<Longrightarrow> usage_kept_all b c \<Longrightarrow> usage_kept_all a c"
  unfolding usage_kept_all_def by (meson usage_kept_trans)

lemma usage_kept_update:
  assumes "\<And>r. r \<in> set (q_reservations db) \<Longrightarrow> p r \<Longrightarrow> usage_kept r (f r)"
    and "q_reservations db' = sql_update p f (q_reservations db)"
  shows "usage_kept_all db db'"
  unfolding usage_kept_all_def assms(2)
proof
  fix r assume r: "r \<in> set (q_reservations db)"
  then have m: "(if p r then f r else r) \<in> set (sql_update p f (q_reservations db))"
    by (auto simp: sql_update_def)
  have "usage_kept r (if p r then f r else r)" using assms(1) [OF r] usage_kept_refl by simp
  with m show "\<exists>r'\<in>set (sql_update p f (q_reservations db)). usage_kept r r'" by blast
qed

lemma reservation_unique:
  assumes "ledger_inv db" "sql_first (reservation_of run owner) (q_reservations db) = Some r"
    and "q \<in> set (q_reservations db)" "reservation_of run owner q"
  shows "q = r"
  using unique_keyD [of qr_run "q_reservations db" q r] first_reservation [OF assms(1,2)] assms(1,3,4)
  by (simp add: ledger_inv_def reservation_of_def)

lemma ensure_usage:
  assumes inv: "ledger_inv db" and res: "ensure_quota run owner target limits expires now db = Inr (u, db')"
  shows "usage_kept_all db db'"
proof -
  from res obtain r tokens cost tl cl where er: "ensure_reservation r tokens cost tl cl expires now db = Inr (u, db')"
    unfolding ensure_quota_def by (auto elim!: rbind_InrE split: option.splits)
  from ensure_reservation_success [OF er] show ?thesis
  proof (elim disjE exE conjE)
    assume "db' = db" then show ?thesis by (simp add: usage_kept_all_refl)
  next
    fix d charged
    assume db': "db' = db\<lparr>q_daily := charged, q_reservations := grow_reservation (qr_run r) (qr_owner r)
      (max 0 (tokens - qr_reserved_tokens r)) (max 0 (cost - qr_reserved_cost r)) r expires now (q_reservations db)\<rparr>"
    show ?thesis
      by (rule usage_kept_update [OF _ arg_cong [OF db', of q_reservations, simplified, unfolded grow_reservation_def]])
        (simp add: usage_kept_def)
  qed
qed

lemma reserve_usage:
  assumes "reserve_quota run owner request limits now expires db = Inr (u, db')"
  shows "usage_kept_all db db'"
proof -
  have "set (q_reservations db) \<subseteq> set (q_reservations db')"
    using reserve_success [OF assms] by auto
  then show ?thesis unfolding usage_kept_all_def using usage_kept_refl by blast
qed

lemma reset_usage:
  assumes "reset_daily_quota owner now db = Inr (res, db')"
  shows "usage_kept_all db db'"
proof -
  have "q_reservations db' = q_reservations db"
    using assms by (auto simp: reset_daily_quota_def Let_def rbind_Inr_iff split: js_num.splits option.splits if_splits)
  then show ?thesis using usage_kept_refl by (auto simp: usage_kept_all_def)
qed

lemma record_intent_usage:
  assumes inv: "ledger_inv db" and res: "record_intent run owner tokens cost now db = Inr (u, db')"
  shows "usage_kept_all db db'"
proof (cases "db' = db")
  case False
  let ?p = "\<lambda>q. reservation_of run owner q \<and> qr_status q = Reserved \<and> qr_reconciled q = None"
  from res False obtain r where r: "sql_first (reservation_of run owner) (q_reservations db) = Some r"
    and db': "q_reservations db' = sql_update ?p (\<lambda>q. q\<lparr>qr_consumed_tokens := max (qr_consumed_tokens r) tokens,
        qr_consumed_cost := max (qr_consumed_cost r) cost, qr_heartbeat := now\<rparr>) (q_reservations db)"
    by (auto simp: record_intent_def Let_def elim!: rbind_InrE split: option.splits if_splits) (auto simp: stored_int_Inr)
  show ?thesis
    by (rule usage_kept_update [OF _ db']) (use reservation_unique [OF inv r] in \<open>auto simp: usage_kept_def\<close>)
qed (simp add: usage_kept_all_refl)

lemma persist_intent_usage:
  assumes "ledger_inv db" "persist_intent runs run owner consumed expected now db = Inr (u, db')"
  shows "usage_kept_all db db'"
  using assms(2) record_intent_usage [OF assms(1)] usage_kept_all_refl unfolding persist_intent_def
  by (auto elim!: rbind_InrE split: option.splits if_splits)

lemma reconcile_usage:
  assumes inv: "ledger_inv db" and res: "reconcile_quota i opts now db = Inr (u, db')"
  shows "usage_kept_all db db'"
proof (cases "db' = db")
  case False
  from reconcile_success [OF res False] obtain r tokens cost where
    r: "sql_first (reservation_of (se_run i) (se_owner i)) (q_reservations db) = Some r"
    and n: "qr_consumed_tokens r \<le> tokens" "qr_consumed_cost r \<le> cost"
    and s: "settle_reservation i tokens cost now r db = Inr (u, db')" by blast
  from settle_reservation_success [OF s] have
    "q_reservations db' = sql_update (pending_of (se_run i) (se_owner i)) (settled_row (se_status i) tokens cost now) (q_reservations db)"
    by auto
  then show ?thesis
    by (rule usage_kept_update [rotated])
      (use reservation_unique [OF inv r] n in \<open>auto simp: usage_kept_def settled_row_def pending_of_def\<close>)
qed (simp add: usage_kept_all_refl)

text \<open>Recorded usage is never lost. Once a run's reservation holds consumed tokens and cost,
  be it as a pending settlement or as the settled amount, no sequence of quota transactions
  lowers them, and a settled reservation is never changed at all. In particular a pending
  settlement cannot be released or settled for less.\<close>

theorem recorded_usage_is_kept:
  assumes "ledger_inv db" and "r \<in> set (q_reservations db)"
  shows "\<exists>r'\<in>set (q_reservations (run_txs (map run_quota ops) db)).
      qr_run r' = qr_run r \<and> qr_owner r' = qr_owner r
    \<and> qr_consumed_tokens r \<le> qr_consumed_tokens r' \<and> qr_consumed_cost r \<le> qr_consumed_cost r'
    \<and> (qr_status r \<noteq> Reserved \<longrightarrow> r' = r)"
proof -
  have step: "usage_kept_all s s'" if "ledger_inv s" "run_quota op' s = Inr (a, s')" for op' s a s'
    using that by (cases op') (auto simp: rbind_Inr_iff
      dest: reset_usage reserve_usage ensure_usage persist_intent_usage reconcile_usage)
  have "usage_kept_all db (run_txs (map run_quota ops) db)"
    by (rule quota.run_preorder [OF assms(1) usage_kept_all_refl usage_kept_all_trans step])
  with assms(2) show ?thesis by (auto simp: usage_kept_all_def usage_kept_def)
qed

section \<open>A concrete ledger\<close>

definition demo_quota :: quota_db where
  "demo_quota = \<lparr>q_users = [1],
     q_daily = [\<lparr>qd_owner = 1, qd_day = 0, qd_reserved_tokens = 10, qd_consumed_tokens = 0, qd_reserved_cost = 5,
                qd_consumed_cost = 0, qd_credit = 0, qd_updated = 0\<rparr>],
     q_reservations = [\<lparr>qr_run = ''r1'', qr_owner = 1, qr_day = 0, qr_reserved_tokens = 10, qr_reserved_cost = 5,
                qr_consumed_tokens = 4, qr_consumed_cost = 2, qr_status = Reserved, qr_expires = 9, qr_heartbeat = 0,
                qr_reconciled = None\<rparr>]\<rparr>"

lemma demo_quota_inv: "ledger_inv demo_quota"
proof -
  have "daily_column k (hd (q_daily demo_quota)) = column_sum k (1, 0) (q_reservations demo_quota)" for k
    by (cases k) (simp_all add: demo_quota_def column_sum_def sql_sum_def reservation_key_def)
  then show ?thesis
    by (simp add: ledger_inv_def demo_quota_def unique_key_def reservation_ok_def reservation_key_def daily_key_def)
qed

definition demo_reserve :: quota_op where
  "demo_reserve = Op_reserve ''r1'' 1 \<lparr>qa_tokens = Whole 10, qa_cost = Whole 5\<rparr>
     \<lparr>qa_tokens = Whole 20, qa_cost = Whole 20\<rparr> 0 9"

lemma demo_reserve_run: "run_txs (map run_quota [demo_reserve]) (empty_quota [1]) =
   demo_quota\<lparr>q_reservations := map (\<lambda>r. r\<lparr>qr_consumed_tokens := 0, qr_consumed_cost := 0\<rparr>) (q_reservations demo_quota)\<rparr>"
  by (simp add: demo_reserve_def reserve_quota_def non_negative_def safe_int_def max_safe_def empty_quota_def with_day_def
    sql_first_def charge_day_def stored_int_def stored_sum_def daily_of_def new_daily_def day_key_def new_reservation_def
    sql_insert_def sql_update_def commit_def demo_quota_def)

theorem quota_ledger_balances_witness:
  "\<exists>d. d \<in> set (q_daily (run_txs (map run_quota [demo_reserve]) (empty_quota [1]))) \<and> qd_reserved_tokens d = 10"
proof -
  let ?db = "run_txs (map run_quota [demo_reserve]) (empty_quota [1])"
  have m: "hd (q_daily ?db) \<in> set (q_daily ?db)" unfolding demo_reserve_run by (simp add: demo_quota_def)
  have "qd_reserved_tokens (hd (q_daily ?db)) = 10"
    using quota_ledger_balances [OF refl m] unfolding demo_reserve_run
    by (simp add: demo_quota_def sql_sum_def)
  with m show ?thesis by blast
qed

theorem reserve_exactly_when_it_fits_witness:
  "is_ok (reserve_quota ''r2'' 1 \<lparr>qa_tokens = Whole 10, qa_cost = Whole 5\<rparr> \<lparr>qa_tokens = Whole 20, qa_cost = Whole 20\<rparr> 0 9 demo_quota)
   \<and> reserve_quota ''r2'' 1 \<lparr>qa_tokens = Whole 11, qa_cost = Whole 5\<rparr> \<lparr>qa_tokens = Whole 20, qa_cost = Whole 20\<rparr> 0 9 demo_quota
     = Inl quota_exhausted"
proof -
  have d: "sql_first (daily_of 1 (day_key 0)) (q_daily demo_quota) = Some (hd (q_daily demo_quota))"
    and n: "\<forall>r\<in>set (q_reservations demo_quota). qr_run r \<noteq> ''r2''"
    by (simp_all add: demo_quota_def sql_first_def daily_of_def day_key_def)
  have v: "qd_credit (hd (q_daily demo_quota)) = 0" "qd_reserved_tokens (hd (q_daily demo_quota)) = 10"
    "qd_consumed_tokens (hd (q_daily demo_quota)) = 0" "qd_reserved_cost (hd (q_daily demo_quota)) = 5"
    "qd_consumed_cost (hd (q_daily demo_quota)) = 0" by (simp_all add: demo_quota_def)
  show ?thesis
    using reserve_exactly_when_it_fits [OF _ _ _ _ _ _ n d, of "\<lparr>qa_tokens = Whole 10, qa_cost = Whole 5\<rparr>" 10 5
        "\<lparr>qa_tokens = Whole 20, qa_cost = Whole 20\<rparr>" 20 20 9]
      reserve_exactly_when_it_fits [OF _ _ _ _ _ _ n d, of "\<lparr>qa_tokens = Whole 11, qa_cost = Whole 5\<rparr>" 11 5
        "\<lparr>qa_tokens = Whole 20, qa_cost = Whole 20\<rparr>" 20 20 9]
    by (simp add: v safe_int_def max_safe_def)
qed

theorem recorded_usage_is_kept_witness:
  "\<exists>r'\<in>set (q_reservations (run_txs (map run_quota [Op_reconcile \<lparr>se_run = ''r1'', se_owner = 1,
       se_consumed = \<lparr>qa_tokens = Whole 0, qa_cost = Whole 0\<rparr>, se_status = Released\<rparr>
       \<lparr>so_allow_missing = False, so_accept_any = False\<rparr> 5]) demo_quota)). 4 \<le> qr_consumed_tokens r'"
proof -
  have m: "hd (q_reservations demo_quota) \<in> set (q_reservations demo_quota)"
    and c: "qr_consumed_tokens (hd (q_reservations demo_quota)) = 4" by (simp_all add: demo_quota_def)
  show ?thesis using recorded_usage_is_kept [OF demo_quota_inv m] c by metis
qed

end
