(* ===== verification/AgentUsage.thy ===== *)
theory AgentUsage
  imports JsonText
begin

text \<open>
  Token usage of agent runs: the receipts of model providers
  (\<^verbatim>\<open>server/agents/providers/usage.ts\<close>) and the journal of dispatches a run writes to its
  events (\<^verbatim>\<open>server/agents/dispatch-accounting.ts\<close>). The text of an event and its hash are
  read through two parameters, \<^verbatim>\<open>JSON.parse\<close> and SHA-256; the test for a UUID, a schema of
  a third-party library, is one as well.
\<close>

section \<open>Receipts\<close>

text \<open>\<^verbatim>\<open>validToken\<close>: a number that is a non-negative safe integer.\<close>

definition valid_token :: "js_value \<Rightarrow> int option" where
  "valid_token v = (case js_safe_integer v of None \<Rightarrow> None | Some i \<Rightarrow> if 0 \<le> i then Some i else None)"

datatype usage_issue = Missing | Shape | Unsafe_integer | Directional_overflow | Total_below_directions
  | Cache_exceeds_input | Regression

text \<open>The error \<^verbatim>\<open>PROVIDER_USAGE_INVALID\<close> carries an issue; the receipts in its diagnostics are left out.\<close>

type_synonym 'a usage_result = "usage_issue + 'a"

definition ubind :: "'a usage_result \<Rightarrow> ('a \<Rightarrow> 'b usage_result) \<Rightarrow> 'b usage_result" where
  "ubind r k = (case r of Inl e \<Rightarrow> Inl e | Inr a \<Rightarrow> k a)"

lemma ubind_simps [simp]: "ubind (Inl e) k = Inl e" "ubind (Inr a) k = k a"
  by (simp_all add: ubind_def)

lemma ubind_Inr_iff: "ubind r k = Inr b \<longleftrightarrow> (\<exists>a. r = Inr a \<and> k a = Inr b)"
  by (cases r) simp_all

record token_usage =
  us_input :: int
  us_output :: int
  us_total :: int

record provider_usage = token_usage +
  us_cached :: "int option"
  us_created :: "int option"

definition safe_directional_sum :: "int \<Rightarrow> int \<Rightarrow> int option" where
  "safe_directional_sum i j = (if j > max_safe - i then None else Some (i + j))"

fun safe_token_sum :: "int \<Rightarrow> int list \<Rightarrow> int option" where
  "safe_token_sum acc [] = Some acc"
| "safe_token_sum acc (v # vs) = (if v > max_safe - acc then None else safe_token_sum (acc + v) vs)"

definition invalid_token_issue :: "js_value \<Rightarrow> usage_issue" where
  "invalid_token_issue v = (case v of JUndefined \<Rightarrow> Missing | JNum _ \<Rightarrow> Unsafe_integer | _ \<Rightarrow> Shape)"

definition token_ok :: "int \<Rightarrow> bool" where
  "token_ok i = (safe_int i \<and> 0 \<le> i)"

text \<open>\<^verbatim>\<open>assertAgentTokenUsage\<close> on numbers.\<close>

definition assert_token_usage :: "int \<Rightarrow> int \<Rightarrow> int \<Rightarrow> unit usage_result" where
  "assert_token_usage i j t =
     (if \<not> token_ok i then Inl Unsafe_integer
      else if \<not> token_ok j then Inl Unsafe_integer
      else if \<not> token_ok t then Inl Unsafe_integer
      else case safe_directional_sum i j of
             None \<Rightarrow> Inl Directional_overflow
           | Some s \<Rightarrow> if t < s then Inl Total_below_directions else Inr ())"

definition read_usage_token :: "js_value \<Rightarrow> int usage_result" where
  "read_usage_token v = (case valid_token v of None \<Rightarrow> Inl (invalid_token_issue v) | Some i \<Rightarrow> Inr i)"

definition read_optional_token :: "js_value \<Rightarrow> int option usage_result" where
  "read_optional_token v = (if v = JUndefined then Inr None else ubind (read_usage_token v) (\<lambda>i. Inr (Some i)))"

definition assert_provider_usage :: "provider_usage \<Rightarrow> unit usage_result" where
  "assert_provider_usage u =
     ubind (assert_token_usage (us_input u) (us_output u) (us_total u)) (\<lambda>_.
     if (\<exists>c. us_cached u = Some c \<and> \<not> token_ok c) then Inl Unsafe_integer
     else if (\<exists>c. us_created u = Some c \<and> \<not> token_ok c) then Inl Unsafe_integer
     else let cached = option_or (us_cached u) 0; created = option_or (us_created u) 0
          in if cached > us_input u \<or> created > us_input u - cached then Inl Cache_exceeds_input else Inr ())"

datatype transport_kind =
    Openai_responses | Openresponses | Openai_chat | Anthropic_messages | Gemini_api | Legacy_completions | Other_transport

definition transport_caches :: "transport_kind \<Rightarrow> bool" where
  "transport_caches k = (k \<noteq> Legacy_completions \<and> k \<noteq> Other_transport)"

text \<open>\<^verbatim>\<open>readAgentProviderUsage\<close>: \<^term>\<open>None\<close> when the response has no usage at all.\<close>

definition read_provider_usage :: "transport_kind \<Rightarrow> js_value \<Rightarrow> provider_usage option usage_result" where
  "read_provider_usage kind response = (let usage = js_get ''modelUsage'' response in
     if usage = JUndefined then Inr None
     else if \<not> js_is_record usage then Inl Shape
     else let tokens = js_get ''tokens'' usage in
     if \<not> js_is_record tokens then Inl Shape
     else
       ubind (read_usage_token (js_get ''promptTokens'' tokens)) (\<lambda>prompt.
       ubind (read_usage_token (js_get ''completionTokens'' tokens)) (\<lambda>output.
       ubind (read_optional_token (js_get ''cacheReadTokens'' tokens)) (\<lambda>cache_read.
       ubind (read_optional_token (js_get ''cacheCreationTokens'' tokens)) (\<lambda>cache_created.
       ubind (if transport_caches kind then
                (case safe_token_sum 0 [prompt, option_or cache_read 0, option_or cache_created 0] of
                   None \<Rightarrow> Inl Directional_overflow
                 | Some full \<Rightarrow> Inr (full, cache_read, cache_created))
              else if kind = Legacy_completions then Inr (prompt, None, None)
              else Inl Shape) (\<lambda>(input, cached, created).
       ubind (if js_get ''totalTokens'' tokens = JUndefined \<and> kind = Anthropic_messages
              then (case safe_directional_sum input output of None \<Rightarrow> Inl Directional_overflow | Some t \<Rightarrow> Inr t)
              else read_usage_token (js_get ''totalTokens'' tokens)) (\<lambda>whole.
       let u = \<lparr>us_input = input, us_output = output, us_total = whole, us_cached = cached, us_created = created\<rparr>
       in ubind (assert_provider_usage u) (\<lambda>_. Inr (Some u)))))))))"

definition regressed :: "int option \<Rightarrow> int option \<Rightarrow> bool" where
  "regressed previous current = (case (previous, current) of (Some p, Some c) \<Rightarrow> c < p | _ \<Rightarrow> False)"

text \<open>\<^verbatim>\<open>acceptCumulativeAgentProviderUsage\<close>\<close>

definition accept_cumulative :: "provider_usage option \<Rightarrow> provider_usage \<Rightarrow> provider_usage usage_result" where
  "accept_cumulative previous nxt =
     ubind (assert_provider_usage nxt) (\<lambda>_. case previous of
       None \<Rightarrow> Inr nxt
     | Some p \<Rightarrow>
         ubind (assert_provider_usage p) (\<lambda>_.
         if us_input nxt < us_input p \<or> us_output nxt < us_output p \<or> us_total nxt < us_total p then Inl Regression
         else if regressed (us_cached p) (us_cached nxt) \<or> regressed (us_created p) (us_created nxt) then Inl Regression
         else if (us_cached nxt \<noteq> None \<or> us_cached p = None) \<and> (us_created nxt \<noteq> None \<or> us_created p = None)
         then Inr nxt
         else let cumulative = nxt\<lparr>us_cached := (if us_cached nxt = None then us_cached p else us_cached nxt),
                                   us_created := (if us_created nxt = None then us_created p else us_created nxt)\<rparr>
              in ubind (assert_provider_usage cumulative) (\<lambda>_. Inr cumulative)))"

section \<open>Usage events\<close>

record run_usage = token_usage +
  us_cost :: int

definition event_corrupt :: js_error where
  "event_corrupt = Coded ''AGENT_EVENT_CORRUPT'' 500"

definition usage_of :: "int \<Rightarrow> int \<Rightarrow> int \<Rightarrow> int \<Rightarrow> run_usage result" where
  "usage_of i j t c = (case assert_token_usage i j t of
      Inl _ \<Rightarrow> Inl event_corrupt
    | Inr _ \<Rightarrow> Inr \<lparr>us_input = i, us_output = j, us_total = t, us_cost = c\<rparr>)"

text \<open>\<^verbatim>\<open>readAgentUsageEvent\<close>: every error it catches becomes one corruption error.\<close>

definition read_usage_event :: "js_value \<Rightarrow> run_usage result" where
  "read_usage_event data =
     (if \<not> js_is_record data then Inl event_corrupt
      else
        let cost = (if js_has ''costMicros'' data then js_get ''costMicros'' data else JNum (Whole 0))
        in case (valid_token (js_get ''inputTokens'' data), valid_token (js_get ''outputTokens'' data), valid_token cost) of
             (Some i, Some j, Some c) \<Rightarrow>
               if js_has ''usageVersion'' data \<or> js_has ''totalTokens'' data then
                 (if js_get ''usageVersion'' data \<noteq> JNum (Whole 2) \<or> \<not> js_has ''totalTokens'' data
                     \<or> \<not> js_has ''costMicros'' data then Inl event_corrupt
                  else case valid_token (js_get ''totalTokens'' data) of
                         None \<Rightarrow> Inl event_corrupt
                       | Some t \<Rightarrow> usage_of i j t c)
               else (case safe_directional_sum i j of None \<Rightarrow> Inl event_corrupt | Some t \<Rightarrow> usage_of i j t c)
           | _ \<Rightarrow> Inl event_corrupt)"

section \<open>The dispatch journal\<close>

record exposure =
  xp_tokens :: int
  xp_cost :: int

datatype accounting_record =
    Rec_reserved string exposure "(run_usage \<times> exposure) option"
  | Rec_reconciled string run_usage
  | Rec_released string

definition read_exposure :: "js_value \<Rightarrow> exposure option" where
  "read_exposure v =
     (if \<not> strict_object [''tokens'', ''costMicros''] [] v then None
      else case (valid_token (js_get ''tokens'' v), valid_token (js_get ''costMicros'' v)) of
             (Some t, Some c) \<Rightarrow> Some \<lparr>xp_tokens = t, xp_cost = c\<rparr> | _ \<Rightarrow> None)"

definition read_usage :: "js_value \<Rightarrow> run_usage option" where
  "read_usage v =
     (if \<not> strict_object [''inputTokens'', ''outputTokens'', ''totalTokens'', ''costMicros''] [] v then None
      else case (valid_token (js_get ''inputTokens'' v), valid_token (js_get ''outputTokens'' v),
                 valid_token (js_get ''totalTokens'' v), valid_token (js_get ''costMicros'' v)) of
             (Some i, Some j, Some t, Some c) \<Rightarrow> Some \<lparr>us_input = i, us_output = j, us_total = t, us_cost = c\<rparr>
           | _ \<Rightarrow> None)"

definition read_baseline :: "js_value \<Rightarrow> (run_usage \<times> exposure) option" where
  "read_baseline v =
     (if \<not> strict_object [''usage'', ''exposure''] [] v then None
      else case (read_usage (js_get ''usage'' v), read_exposure (js_get ''exposure'' v)) of
             (Some u, Some x) \<Rightarrow> Some (u, x) | _ \<Rightarrow> None)"

text \<open>\<^verbatim>\<open>AgentDispatchAccountingRecordSchema\<close>\<close>

definition read_record :: "(string \<Rightarrow> bool) \<Rightarrow> js_value \<Rightarrow> accounting_record option" where
  "read_record uuid v = (case (js_get ''version'' v, js_get ''operation'' v, js_get ''dispatchId'' v) of
      (JNum (Whole version), JStr operation, JStr i) \<Rightarrow>
        if version \<noteq> 1 \<or> \<not> uuid i then None
        else if operation = ''reserved'' then
          (if \<not> strict_object [''version'', ''operation'', ''dispatchId'', ''exposure''] [''baseline''] v then None
           else case read_exposure (js_get ''exposure'' v) of
                  None \<Rightarrow> None
                | Some x \<Rightarrow>
                    if \<not> js_has ''baseline'' v \<or> js_get ''baseline'' v = JUndefined then Some (Rec_reserved i x None)
                    else map_option (\<lambda>b. Rec_reserved i x (Some b)) (read_baseline (js_get ''baseline'' v)))
        else if operation = ''reconciled'' then
          (if \<not> strict_object [''version'', ''operation'', ''dispatchId'', ''usage''] [] v then None
           else map_option (Rec_reconciled i) (read_usage (js_get ''usage'' v)))
        else if operation = ''released'' then
          (if \<not> strict_object [''version'', ''operation'', ''dispatchId''] [] v then None else Some (Rec_released i))
        else None
    | _ \<Rightarrow> None)"

definition quota_corrupt_error :: js_error where
  "quota_corrupt_error = Coded ''AGENT_QUOTA_CORRUPT'' 500"

definition checked_sum :: "int \<Rightarrow> int \<Rightarrow> int result" where
  "checked_sum a b = (if token_ok (a + b) then Inr (a + b) else Inl quota_corrupt_error)"

record journal_state =
  js_usage :: "run_usage option"
  js_exposure :: exposure
  js_active :: "(string \<times> exposure) list"
  js_identified :: "string list"

definition empty_journal :: journal_state where
  "empty_journal = \<lparr>js_usage = None, js_exposure = \<lparr>xp_tokens = 0, xp_cost = 0\<rparr>, js_active = [], js_identified = []\<rparr>"

definition usage_valid :: "run_usage \<Rightarrow> bool" where
  "usage_valid u = (assert_token_usage (us_input u) (us_output u) (us_total u) = Inr ())"

definition add_usage :: "run_usage \<Rightarrow> run_usage \<Rightarrow> run_usage result" where
  "add_usage u v =
     rbind (checked_sum (us_input u) (us_input v)) (\<lambda>i.
     rbind (checked_sum (us_output u) (us_output v)) (\<lambda>j.
     rbind (checked_sum (us_total u) (us_total v)) (\<lambda>t.
     rbind (checked_sum (us_cost u) (us_cost v)) (\<lambda>c.
     Inr \<lparr>us_input = i, us_output = j, us_total = t, us_cost = c\<rparr>))))"

text \<open>One record of the journal.\<close>

definition journal_step :: "accounting_record \<Rightarrow> journal_state \<Rightarrow> journal_state result" where
  "journal_step rc st = (case rc of
      Rec_reserved i x baseline \<Rightarrow>
        if i \<in> set (js_identified st) then Inl quota_corrupt_error
        else rbind (case (js_usage st, baseline) of
             (None, None) \<Rightarrow> Inl quota_corrupt_error
           | (None, Some (u, bx)) \<Rightarrow> if usage_valid u then Inr (st\<lparr>js_usage := Some u, js_exposure := bx\<rparr>) else Inl quota_corrupt_error
           | (Some _, None) \<Rightarrow> Inr st
           | (Some _, Some _) \<Rightarrow> Inl quota_corrupt_error) (\<lambda>st'.
           Inr (st'\<lparr>js_identified := i # js_identified st', js_active := js_active st' @ [(i, x)]\<rparr>))
    | Rec_reconciled i u \<Rightarrow> (case js_usage st of
          None \<Rightarrow> Inl quota_corrupt_error
        | Some sofar \<Rightarrow>
            if i \<notin> fst ` set (js_active st) then Inl quota_corrupt_error
            else if \<not> usage_valid u then Inl quota_corrupt_error
            else rbind (add_usage sofar u) (\<lambda>added.
              Inr (st\<lparr>js_usage := Some added, js_active := filter (\<lambda>(j, _). j \<noteq> i) (js_active st)\<rparr>)))
    | Rec_released i \<Rightarrow>
        if js_usage st = None \<or> i \<notin> fst ` set (js_active st) then Inl quota_corrupt_error
        else Inr (st\<lparr>js_active := filter (\<lambda>(j, _). j \<noteq> i) (js_active st)\<rparr>))"

text \<open>The exposure of the dispatches still active, added up at the end.\<close>

definition add_exposure :: "string \<times> exposure \<Rightarrow> exposure \<Rightarrow> exposure result" where
  "add_exposure a x =
     rbind (checked_sum (xp_tokens x) (xp_tokens (snd a))) (\<lambda>t.
     rbind (checked_sum (xp_cost x) (xp_cost (snd a))) (\<lambda>c. Inr \<lparr>xp_tokens = t, xp_cost = c\<rparr>))"

definition read_journal :: "accounting_record list \<Rightarrow> (run_usage \<times> exposure) result" where
  "read_journal rcs = rbind (rfold journal_step rcs empty_journal) (\<lambda>st.
     case js_usage st of
       None \<Rightarrow> Inl quota_corrupt_error
     | Some u \<Rightarrow> rbind (rfold add_exposure (js_active st) (js_exposure st)) (\<lambda>x. Inr (u, x)))"

text \<open>The stored rows of the journal: their text, and the hash recorded with it.\<close>

record event_text =
  et_data :: string
  et_sha :: string

definition decode_record ::
  "(string \<Rightarrow> string) \<Rightarrow> (string \<Rightarrow> js_value option) \<Rightarrow> (string \<Rightarrow> bool) \<Rightarrow> event_text \<Rightarrow> accounting_record result" where
  "decode_record sha parse uuid row =
     (if sha (et_data row) \<noteq> et_sha row then Inl quota_corrupt_error
      else case parse (et_data row) of
             None \<Rightarrow> Inl quota_corrupt_error
           | Some v \<Rightarrow> (case read_record uuid v of None \<Rightarrow> Inl quota_corrupt_error | Some rc \<Rightarrow> Inr rc))"

text \<open>
  \<^verbatim>\<open>readAgentDispatchAccounting\<close>. Every failure is the same error, so that decoding all rows
  before reading them is no different from decoding each in turn.
\<close>

definition read_dispatch_accounting ::
  "(string \<Rightarrow> string) \<Rightarrow> (string \<Rightarrow> js_value option) \<Rightarrow> (string \<Rightarrow> bool) \<Rightarrow> event_text list \<Rightarrow> (run_usage \<times> exposure) option result" where
  "read_dispatch_accounting sha parse uuid rows =
     (if rows = [] then Inr None
      else rbind (rfold (\<lambda>row rcs. rbind (decode_record sha parse uuid row) (\<lambda>rc. Inr (rcs @ [rc]))) rows []) (\<lambda>rcs.
           rbind (read_journal rcs) (\<lambda>s. Inr (Some s))))"

section \<open>What an accepted receipt says\<close>

definition tokens_ok :: "int \<Rightarrow> int \<Rightarrow> int \<Rightarrow> bool" where
  "tokens_ok i j t = (0 \<le> i \<and> 0 \<le> j \<and> i + j \<le> t \<and> t \<le> max_safe)"

lemma assert_token_usage_ok [simp]: "assert_token_usage i j t = Inr w \<longleftrightarrow> tokens_ok i j t"
  by (auto simp: assert_token_usage_def tokens_ok_def token_ok_def safe_int_def safe_directional_sum_def)

lemma usage_valid_iff [simp]: "usage_valid u \<longleftrightarrow> tokens_ok (us_input u) (us_output u) (us_total u)"
  by (simp add: usage_valid_def)

text \<open>
  A receipt adds up: the directions fit in the total, the tokens read from and written to
  the cache fit in the input, and everything is a safe integer.
\<close>

definition receipt_ok :: "provider_usage \<Rightarrow> bool" where
  "receipt_ok u = (tokens_ok (us_input u) (us_output u) (us_total u)
     \<and> 0 \<le> option_or (us_cached u) 0 \<and> 0 \<le> option_or (us_created u) 0
     \<and> option_or (us_cached u) 0 + option_or (us_created u) 0 \<le> us_input u)"

lemma assert_provider_usage_ok [simp]: "assert_provider_usage u = Inr w \<longleftrightarrow> receipt_ok u"
proof
  assume "assert_provider_usage u = Inr w"
  then show "receipt_ok u"
    by (cases "us_cached u"; cases "us_created u")
       (auto simp: assert_provider_usage_def receipt_ok_def ubind_Inr_iff token_ok_def split: if_splits)
next
  assume "receipt_ok u"
  then show "assert_provider_usage u = Inr w"
    by (cases "us_cached u"; cases "us_created u")
       (auto simp: assert_provider_usage_def receipt_ok_def ubind_Inr_iff token_ok_def tokens_ok_def safe_int_def)
qed

text \<open>One receipt is no smaller than another, and knows every cache count the other knew.\<close>

definition count_le :: "int option \<Rightarrow> int option \<Rightarrow> bool" where
  "count_le a b = (case a of None \<Rightarrow> True | Some x \<Rightarrow> (case b of None \<Rightarrow> False | Some y \<Rightarrow> x \<le> y))"

definition receipt_le :: "provider_usage \<Rightarrow> provider_usage \<Rightarrow> bool" where
  "receipt_le u v = (us_input u \<le> us_input v \<and> us_output u \<le> us_output v \<and> us_total u \<le> us_total v
     \<and> count_le (us_cached u) (us_cached v) \<and> count_le (us_created u) (us_created v))"

lemma count_le_refl [simp]: "count_le a a"
  by (simp add: count_le_def split: option.splits)

lemma count_le_trans: "count_le a b \<Longrightarrow> count_le b c \<Longrightarrow> count_le a c"
  by (auto simp: count_le_def split: option.splits)

lemma receipt_le_refl [simp]: "receipt_le u u"
  by (simp add: receipt_le_def)

lemma receipt_le_trans: "receipt_le u v \<Longrightarrow> receipt_le v w \<Longrightarrow> receipt_le u w"
  by (auto simp: receipt_le_def intro: count_le_trans)

lemma accept_cumulative_ok:
  assumes "accept_cumulative previous nxt = Inr u"
  shows "receipt_ok u \<and> (\<forall>p. previous = Some p \<longrightarrow> receipt_le p u)"
proof (cases previous)
  case None
  with assms show ?thesis by (auto simp: accept_cumulative_def ubind_Inr_iff)
next
  case (Some p)
  with assms show ?thesis
    by (cases "us_cached p"; cases "us_created p"; cases "us_cached nxt"; cases "us_created nxt")
       (auto simp: accept_cumulative_def ubind_Inr_iff receipt_le_def count_le_def regressed_def Let_def
         split: if_splits)
qed

text \<open>The receipts of one streamed response, each accepted after the ones before.\<close>

fun accept_all :: "provider_usage option \<Rightarrow> provider_usage list \<Rightarrow> provider_usage option usage_result" where
  "accept_all previous [] = Inr previous"
| "accept_all previous (r # rs) = ubind (accept_cumulative previous r) (\<lambda>u. accept_all (Some u) rs)"

lemma accept_all_from:
  "accept_all (Some p) rs = Inr res \<Longrightarrow> \<exists>u. res = Some u \<and> receipt_le p u"
proof (induction rs arbitrary: p)
  case (Cons r rs)
  then obtain q where q: "accept_cumulative (Some p) r = Inr q" "accept_all (Some q) rs = Inr res"
    by (auto simp: ubind_Inr_iff)
  from Cons.IH [OF q(2)] accept_cumulative_ok [OF q(1)] show ?case by (auto intro: receipt_le_trans)
qed auto

lemma accept_covers:
  assumes "accept_cumulative previous r = Inr u"
  shows "us_input r \<le> us_input u \<and> us_output r \<le> us_output u \<and> us_total r \<le> us_total u
    \<and> count_le (us_cached r) (us_cached u) \<and> count_le (us_created r) (us_created u)"
  using assms
  by (auto simp: accept_cumulative_def ubind_Inr_iff Let_def count_le_def split: option.splits if_splits)

text \<open>The receipts of a streamed model response are cumulative. When a sequence of them is
  accepted, the usage that stands at the end is at least every receipt of the sequence, in
  each token count and in each cache count any of them reported, and it adds up: input and
  output fit in the total, the cache counts fit in the input, nothing exceeds the safe
  integers.
\<close>

theorem accepted_usage_covers_every_receipt:
  assumes "accept_all None rs = Inr (Some u)"
  shows "receipt_ok u \<and> (\<forall>r \<in> set rs. receipt_le r u)"
proof -
  have "accept_all previous rs = Inr (Some u) \<Longrightarrow> (\<forall>p. previous = Some p \<longrightarrow> receipt_ok p)
      \<Longrightarrow> receipt_ok u \<and> (\<forall>r \<in> set rs. receipt_le r u)" for previous
  proof (induction rs arbitrary: previous)
    case (Cons r rs)
    then obtain q where q: "accept_cumulative previous r = Inr q" "accept_all (Some q) rs = Inr (Some u)"
      by (auto simp: ubind_Inr_iff)
    have "receipt_le r q" using accept_covers [OF q(1)] by (simp add: receipt_le_def)
    moreover have "receipt_le q u" using accept_all_from [OF q(2)] by auto
    ultimately have "receipt_le r u" by (rule receipt_le_trans)
    with Cons.IH [OF q(2)] accept_cumulative_ok [OF q(1)] show ?case by auto
  qed simp
  with assms show ?thesis by simp
qed

theorem accepted_usage_covers_every_receipt_witness:
  "(let r = \<lparr>us_input = 10, us_output = 2, us_total = 12, us_cached = Some 4, us_created = None\<rparr>;
        s = \<lparr>us_input = 10, us_output = 9, us_total = 20, us_cached = None, us_created = Some 1\<rparr>;
        u = s\<lparr>us_cached := Some 4\<rparr>
    in accept_all None [r, s] = Inr (Some u) \<and> receipt_le r u \<and> receipt_le s u)"
proof -
  define r where "r = \<lparr>us_input = 10, us_output = 2, us_total = 12, us_cached = Some (4::int), us_created = None\<rparr>"
  define s where "s = \<lparr>us_input = 10, us_output = 9, us_total = 20, us_cached = None, us_created = Some (1::int)\<rparr>"
  have ok: "assert_provider_usage v = Inr ()" if "receipt_ok v" for v using that by simp
  have "accept_all None [r, s] = Inr (Some (s\<lparr>us_cached := Some 4\<rparr>))"
    by (simp add: ok accept_cumulative_def regressed_def r_def s_def receipt_ok_def tokens_ok_def max_safe_def)
  from this accepted_usage_covers_every_receipt [OF this] show ?thesis
    by (simp add: r_def s_def Let_def)
qed

text \<open>Usage read from a provider's response adds up, whatever the response holds: an
  accepted report is a well-formed receipt, and of a transport that reports cache counts its
  input contains the uncached prompt as well. A transport the code does not know is refused.
\<close>

theorem provider_report_adds_up:
  assumes "read_provider_usage kind response = Inr (Some u)"
  shows "receipt_ok u \<and> kind \<noteq> Other_transport
    \<and> (kind \<noteq> Legacy_completions \<longrightarrow>
         (\<exists>prompt. valid_token (js_get ''promptTokens'' (js_get ''tokens'' (js_get ''modelUsage'' response))) = Some prompt
            \<and> us_input u = prompt + option_or (us_cached u) 0 + option_or (us_created u) 0))"
proof -
  define tokens where "tokens = js_get ''tokens'' (js_get ''modelUsage'' response)"
  from assms have known: "kind \<noteq> Other_transport"
    by (auto simp: read_provider_usage_def transport_caches_def Let_def ubind_Inr_iff split: if_splits)
  from assms have ok: "receipt_ok u"
    by (auto simp: read_provider_usage_def Let_def ubind_Inr_iff split: if_splits option.splits)
  have "\<exists>prompt. valid_token (js_get ''promptTokens'' tokens) = Some prompt
      \<and> us_input u = prompt + option_or (us_cached u) 0 + option_or (us_created u) 0" if "kind \<noteq> Legacy_completions"
    using assms that known
    by (auto simp: read_provider_usage_def transport_caches_def Let_def ubind_Inr_iff tokens_def [symmetric]
      read_usage_token_def split: if_splits option.splits)
  with ok known show ?thesis by (simp add: tokens_def)
qed

definition sample_response :: js_value where
  "sample_response = JObj [(''modelUsage'', JObj [(''tokens'',
     JObj [(''promptTokens'', JNum (Whole 5)), (''completionTokens'', JNum (Whole 3)),
           (''cacheReadTokens'', JNum (Whole 2)), (''totalTokens'', JNum (Whole 10))])])]"

theorem provider_report_adds_up_witness:
  "let u = \<lparr>us_input = 7, us_output = 3, us_total = 10, us_cached = Some 2, us_created = None\<rparr>
   in read_provider_usage Openai_chat sample_response = Inr (Some u) \<and> receipt_ok u"
proof -
  define u where "u = \<lparr>us_input = 7, us_output = 3, us_total = 10, us_cached = Some (2::int), us_created = None\<rparr>"
  have a: "assert_provider_usage u = Inr ()"
    by (simp add: u_def receipt_ok_def tokens_ok_def max_safe_def)
  have "read_provider_usage Openai_chat sample_response = Inr (Some u)"
    by (simp add: a read_provider_usage_def sample_response_def transport_caches_def read_usage_token_def
      read_optional_token_def valid_token_def safe_int_def max_safe_def u_def [symmetric])
  with provider_report_adds_up [OF this] show ?thesis by (simp add: u_def)
qed

section \<open>What an accepted journal says\<close>

text \<open>The reservations of a journal, the dispatches it settles and the usage it reconciles.\<close>

fun reserved_of :: "accounting_record \<Rightarrow> (string \<times> exposure) list" where
  "reserved_of (Rec_reserved i x _) = [(i, x)]"
| "reserved_of _ = []"

fun settled_of :: "accounting_record \<Rightarrow> string list" where
  "settled_of (Rec_reserved _ _ _) = []"
| "settled_of (Rec_reconciled i _) = [i]"
| "settled_of (Rec_released i) = [i]"

fun measured_of :: "accounting_record \<Rightarrow> run_usage list" where
  "measured_of (Rec_reconciled _ u) = [u]"
| "measured_of _ = []"

definition reserved :: "accounting_record list \<Rightarrow> (string \<times> exposure) list" where
  "reserved rcs = concat (map reserved_of rcs)"

definition settled :: "accounting_record list \<Rightarrow> string list" where
  "settled rcs = concat (map settled_of rcs)"

definition measured :: "accounting_record list \<Rightarrow> run_usage list" where
  "measured rcs = concat (map measured_of rcs)"

text \<open>The exposures of the dispatches that were reserved and never settled.\<close>

definition open_exposures :: "accounting_record list \<Rightarrow> exposure list" where
  "open_exposures rcs = map snd (filter (\<lambda>(i, _). i \<notin> set (settled rcs)) (reserved rcs))"

definition measured_sum :: "(run_usage \<Rightarrow> int) \<Rightarrow> accounting_record list \<Rightarrow> int" where
  "measured_sum f rcs = sum_list (map f (measured rcs))"

definition baseline_of :: "accounting_record list \<Rightarrow> (run_usage \<times> exposure) option" where
  "baseline_of rcs = (case rcs of Rec_reserved _ _ b # _ \<Rightarrow> b | _ \<Rightarrow> None)"

lemma journal_parts_snoc:
  "reserved (rcs @ [r]) = reserved rcs @ reserved_of r"
  "settled (rcs @ [r]) = settled rcs @ settled_of r"
  "measured (rcs @ [r]) = measured rcs @ measured_of r"
  by (simp_all add: reserved_def settled_def measured_def)

lemma journal_parts_Nil [simp]: "reserved [] = []" "settled [] = []" "measured [] = []"
  by (simp_all add: reserved_def settled_def measured_def)

text \<open>What the state of the loop says of the records already read.\<close>

definition usage_sums :: "run_usage \<Rightarrow> run_usage \<Rightarrow> accounting_record list \<Rightarrow> bool" where
  "usage_sums b u rcs = (us_input u = us_input b + measured_sum us_input rcs
     \<and> us_output u = us_output b + measured_sum us_output rcs
     \<and> us_total u = us_total b + measured_sum us_total rcs
     \<and> us_cost u = us_cost b + measured_sum us_cost rcs)"

definition journal_inv :: "accounting_record list \<Rightarrow> journal_state \<Rightarrow> bool" where
  "journal_inv rcs st = (
     js_active st = filter (\<lambda>(i, _). i \<notin> set (settled rcs)) (reserved rcs)
   \<and> set (js_identified st) = fst ` set (reserved rcs)
   \<and> distinct (map fst (reserved rcs)) \<and> distinct (settled rcs)
   \<and> set (settled rcs) \<subseteq> fst ` set (reserved rcs)
   \<and> (case js_usage st of None \<Rightarrow> rcs = []
      | Some u \<Rightarrow> (\<exists>b. baseline_of rcs = Some (b, js_exposure st) \<and> tokens_ok (us_input b) (us_output b) (us_total b)
          \<and> usage_sums b u rcs)))"

lemma checked_sum_Inr [simp]: "checked_sum a b = Inr c \<longleftrightarrow> token_ok (a + b) \<and> c = a + b"
  by (auto simp: checked_sum_def)

lemma add_usage_Inr:
  "add_usage u v = Inr w \<Longrightarrow> us_input w = us_input u + us_input v \<and> us_output w = us_output u + us_output v
     \<and> us_total w = us_total u + us_total v \<and> us_cost w = us_cost u + us_cost v"
  by (auto simp: add_usage_def rbind_Inr_iff)

lemma baseline_snoc: "rcs \<noteq> [] \<Longrightarrow> baseline_of (rcs @ [r]) = baseline_of rcs"
  by (cases rcs) (auto simp: baseline_of_def split: accounting_record.splits)

lemma filter_settled:
  "filter (\<lambda>(j, _). j \<noteq> i) (filter (\<lambda>(i, _). i \<notin> S) xs) = filter (\<lambda>(j, _). j \<notin> insert i S) xs"
  by (auto simp: filter_filter intro!: filter_cong)

lemma filter_fresh: "i \<notin> fst ` set xs \<Longrightarrow> filter (\<lambda>(j, _). j \<notin> S) (xs @ [(i, x)]) =
    filter (\<lambda>(j, _). j \<notin> S) xs @ (if i \<in> S then [] else [(i, x)])"
  by simp

lemma usage_sums_reserved [simp]: "usage_sums b u (rcs @ [Rec_reserved i x c]) = usage_sums b u rcs"
  by (simp add: usage_sums_def measured_sum_def journal_parts_snoc)

lemma journal_step_reserved:
  assumes "journal_inv rcs st" and "journal_step (Rec_reserved i x b) st = Inr st'"
  shows "journal_inv (rcs @ [Rec_reserved i x b]) st'"
proof -
  from assms have fresh: "i \<notin> fst ` set (reserved rcs)" "i \<notin> set (settled rcs)"
    by (auto simp: journal_inv_def journal_step_def split: if_splits)
  show ?thesis
  proof (cases "js_usage st")
    case None
    with assms fresh show ?thesis
      by (auto simp: journal_inv_def journal_step_def journal_parts_snoc baseline_of_def usage_sums_def measured_sum_def
        reserved_def settled_def measured_def split: if_splits option.splits)
  next
    case (Some u)
    with assms have "rcs \<noteq> []" by (auto simp: journal_inv_def baseline_of_def)
    with assms fresh Some show ?thesis
      by (auto simp: journal_inv_def journal_step_def journal_parts_snoc baseline_snoc
        split: if_splits option.splits) force
  qed
qed

lemma journal_inv_settle:
  assumes inv: "journal_inv rcs st" and usage: "js_usage st = Some u" and i: "i \<in> fst ` set (js_active st)"
    and settles: "settled_of r = [i]" "reserved_of r = []"
    and sums: "\<And>b. usage_sums b u rcs \<Longrightarrow> usage_sums b u' (rcs @ [r])"
  shows "journal_inv (rcs @ [r]) (st\<lparr>js_usage := Some u', js_active := filter (\<lambda>(j, _). j \<noteq> i) (js_active st)\<rparr>)"
proof -
  from inv usage have ne: "rcs \<noteq> []" by (auto simp: journal_inv_def baseline_of_def)
  from inv i have "i \<notin> set (settled rcs)" "i \<in> fst ` set (reserved rcs)" by (auto simp: journal_inv_def)
  moreover have "filter (\<lambda>(j, _). j \<noteq> i) (js_active st) = filter (\<lambda>(j, _). j \<notin> insert i (set (settled rcs))) (reserved rcs)"
    using inv by (simp only: journal_inv_def filter_settled)
  ultimately show ?thesis
    using inv usage settles sums ne
    by (auto simp: journal_inv_def journal_parts_snoc baseline_snoc)
qed

lemma journal_step_inv:
  assumes "journal_inv rcs st" and "journal_step r st = Inr st'"
  shows "journal_inv (rcs @ [r]) st'"
proof (cases r)
  case (Rec_reserved i x b)
  with assms journal_step_reserved show ?thesis by simp
next
  case (Rec_reconciled i m)
  with assms(2) obtain u u' where u: "js_usage st = Some u" "i \<in> fst ` set (js_active st)" "add_usage u m = Inr u'"
    and st': "st' = st\<lparr>js_usage := Some u', js_active := filter (\<lambda>(j, _). j \<noteq> i) (js_active st)\<rparr>"
    by (auto simp: journal_step_def rbind_Inr_iff split: option.splits if_splits)
  have "usage_sums b u' (rcs @ [r])" if "usage_sums b u rcs" for b
    using that add_usage_Inr [OF u(3)] Rec_reconciled by (simp add: usage_sums_def measured_sum_def journal_parts_snoc)
  from journal_inv_settle [OF assms(1) u(1,2) _ _ this] Rec_reconciled st' show ?thesis by simp
next
  case (Rec_released i)
  with assms(2) obtain u where u: "js_usage st = Some u" "i \<in> fst ` set (js_active st)"
    and st': "st' = st\<lparr>js_active := filter (\<lambda>(j, _). j \<noteq> i) (js_active st)\<rparr>"
    by (auto simp: journal_step_def split: if_splits)
  have "usage_sums b u (rcs @ [r])" if "usage_sums b u rcs" for b
    using that Rec_released by (simp add: usage_sums_def measured_sum_def journal_parts_snoc)
  from st' u(1) have st': "st' = st\<lparr>js_usage := Some u, js_active := filter (\<lambda>(j, _). j \<noteq> i) (js_active st)\<rparr>" by simp
  show ?thesis unfolding st' using Rec_released \<open>\<And>b. usage_sums b u rcs \<Longrightarrow> _\<close>
    by (intro journal_inv_settle [OF assms(1) u(1,2)]) simp_all
qed

lemma journal_fold_inv: "rfold journal_step rcs empty_journal = Inr st \<Longrightarrow> journal_inv rcs st"
proof (induction rcs arbitrary: st rule: rev_induct)
  case Nil
  then show ?case by (auto simp: journal_inv_def empty_journal_def)
next
  case (snoc r rcs)
  then obtain st0 where "rfold journal_step rcs empty_journal = Inr st0" "journal_step r st0 = Inr st"
    by (auto simp: rfold_append rbind_Inr_iff)
  with snoc.IH journal_step_inv show ?case by blast
qed

lemma add_exposures:
  "rfold add_exposure xs x = Inr y \<Longrightarrow>
     xp_tokens y = xp_tokens x + sum_list (map xp_tokens (map snd xs)) \<and>
     xp_cost y = xp_cost x + sum_list (map xp_cost (map snd xs))"
proof (induction xs arbitrary: x)
  case (Cons a xs)
  then obtain z where "add_exposure a x = Inr z" "rfold add_exposure xs z = Inr y" by (auto simp: rbind_Inr_iff)
  then have "xp_tokens z = xp_tokens x + xp_tokens (snd a)" "xp_cost z = xp_cost x + xp_cost (snd a)"
    by (auto simp: add_exposure_def rbind_Inr_iff)
  with Cons.IH [OF \<open>rfold add_exposure xs z = Inr y\<close>] show ?case by simp
qed simp

text \<open>C10. The accounting of a run that resumes from its journal neither loses nor repeats a
  receipt. When the journal is accepted, its usage is the baseline of the first record plus
  every reconciled receipt, each exactly once, and its exposure is the baseline's plus that
  of exactly the dispatches reserved and not settled since; no dispatch is reserved twice or
  settled twice, and only reserved ones are settled.
\<close>

theorem journal_conserves_usage:
  assumes "read_journal rcs = Inr (u, x)"
  shows "\<exists>b bx. baseline_of rcs = Some (b, bx) \<and> usage_sums b u rcs
    \<and> xp_tokens x = xp_tokens bx + sum_list (map xp_tokens (open_exposures rcs))
    \<and> xp_cost x = xp_cost bx + sum_list (map xp_cost (open_exposures rcs))
    \<and> distinct (map fst (reserved rcs)) \<and> distinct (settled rcs)
    \<and> set (settled rcs) \<subseteq> fst ` set (reserved rcs)"
proof -
  from assms obtain st where st: "rfold journal_step rcs empty_journal = Inr st" "js_usage st = Some u"
    "rfold add_exposure (js_active st) (js_exposure st) = Inr x"
    by (auto simp: read_journal_def rbind_Inr_iff split: option.splits)
  from journal_fold_inv [OF st(1)] add_exposures [OF st(3)] st(2) show ?thesis
    by (auto simp: journal_inv_def open_exposures_def)
qed

theorem journal_conserves_usage_witness:
  "let b = \<lparr>us_input = 0, us_output = 0, us_total = 0, us_cost = 0\<rparr>; x = \<lparr>xp_tokens = 100, xp_cost = 7\<rparr>;
       m = \<lparr>us_input = 5, us_output = 2, us_total = 7, us_cost = 1\<rparr>;
       rcs = [Rec_reserved ''a'' x (Some (b, \<lparr>xp_tokens = 0, xp_cost = 0\<rparr>)), Rec_reserved ''b'' x None, Rec_reconciled ''a'' m]
   in read_journal rcs = Inr (m, x) \<and> usage_sums b m rcs \<and> open_exposures rcs = [x]"
proof -
  define b where "b = \<lparr>us_input = 0, us_output = 0, us_total = 0, us_cost = (0::int)\<rparr>"
  define x where "x = \<lparr>xp_tokens = 100, xp_cost = 7\<rparr>"
  define m where "m = \<lparr>us_input = 5, us_output = 2, us_total = 7, us_cost = (1::int)\<rparr>"
  define rcs where "rcs = [Rec_reserved ''a'' x (Some (b, \<lparr>xp_tokens = 0, xp_cost = 0\<rparr>)),
    Rec_reserved ''b'' x None, Rec_reconciled ''a'' m]"
  have "add_usage b m = Inr m"
    by (simp add: add_usage_def b_def m_def checked_sum_def token_ok_def safe_int_def max_safe_def del: checked_sum_Inr)
  moreover have "checked_sum i j = Inr (i + j)" if "0 \<le> i + j" "i + j < 1000" for i j
    using that by (simp add: token_ok_def safe_int_def max_safe_def)
  ultimately have j: "read_journal rcs = Inr (m, x)"
    by (simp add: read_journal_def rcs_def journal_step_def empty_journal_def add_exposure_def checked_sum_def
      token_ok_def safe_int_def tokens_ok_def max_safe_def x_def b_def m_def)
  from journal_conserves_usage [OF j] have "usage_sums b m rcs"
    by (simp add: baseline_of_def rcs_def)
  with j show ?thesis
    by (simp add: Let_def open_exposures_def reserved_def settled_def rcs_def x_def b_def m_def)
qed

end
