(* ===== verification/RunContinuation.thy ===== *)
theory RunContinuation
  imports JsonText QuotaLedger AgentUsage
begin

text \<open>
  The approval continuation of an agent run (\<^verbatim>\<open>server/agents/coordinator.ts\<close>): the checkpoint a
  worker leaves in the runtime state of a run that waits for an approval, and its check
  against the proposal and approval tables. The stored bytes of a runtime state are represented
  by the text they decode to.
\<close>

definition continuation_key :: string where
  "continuation_key = ''__wikiApprovalContinuation''"

definition max_continuation_bytes :: nat where
  "max_continuation_bytes = 96 * 1024"

definition max_runtime_bytes :: nat where
  "max_runtime_bytes = 256 * 1024"

definition continuation_corrupt :: js_error where
  "continuation_corrupt = Coded ''AGENT_ACTION_CONTINUATION_CORRUPT'' 500"

definition continuation_mismatch :: js_error where
  "continuation_mismatch = Coded ''AGENT_ACTION_CONTINUATION_MISMATCH'' 409"

definition continuation_too_large :: js_error where
  "continuation_too_large = Coded ''AGENT_ACTION_CONTINUATION_TOO_LARGE'' 500"

section \<open>Runtime state\<close>

type_synonym runtime_state = "(string \<times> js_value) list"

text \<open>\<^verbatim>\<open>runtimeState\<close>\<close>

definition read_runtime :: "run_env \<Rightarrow> string option \<Rightarrow> runtime_state result" where
  "read_runtime env stored = (case stored of
      None \<Rightarrow> Inr []
    | Some s \<Rightarrow>
        if utf8_bytes s > max_runtime_bytes then Inl continuation_corrupt
        else (case env_parse env s of Some (JObj ps) \<Rightarrow> Inr ps | _ \<Rightarrow> Inl continuation_corrupt))"

text \<open>\<^verbatim>\<open>encodedRuntimeState\<close>\<close>

definition encode_runtime :: "run_env \<Rightarrow> runtime_state \<Rightarrow> string result" where
  "encode_runtime env st = (case canonical_json env (JObj st) of
      None \<Rightarrow> Inl Plain_error
    | Some s \<Rightarrow> if utf8_bytes s > max_runtime_bytes then Inl continuation_too_large else Inr s)"

text \<open>An assignment to a property of an object, and its deletion.\<close>

fun state_set :: "string \<Rightarrow> js_value \<Rightarrow> runtime_state \<Rightarrow> runtime_state" where
  "state_set k v [] = [(k, v)]"
| "state_set k v ((j, w) # ps) = (if j = k then (j, v) # ps else (j, w) # state_set k v ps)"

definition state_remove :: "string \<Rightarrow> runtime_state \<Rightarrow> runtime_state" where
  "state_remove k st = filter (\<lambda>(j, _). j \<noteq> k) st"

lemma state_set_get [simp]: "map_of (state_set k v st) k = Some v"
  by (induction st) auto

lemma state_set_other: "j \<noteq> k \<Longrightarrow> map_of (state_set k v st) j = map_of st j"
  by (induction st) auto

lemma state_remove_get [simp]: "map_of (state_remove k st) k = None"
  by (induction st) (auto simp: state_remove_def)

lemma state_remove_other: "j \<noteq> k \<Longrightarrow> map_of (state_remove k st) j = map_of st j"
  by (induction st) (auto simp: state_remove_def)

section \<open>Checkpoints\<close>

record checkpoint =
  cp_run :: string
  cp_owner :: int
  cp_attempt :: int
  cp_call :: string
  cp_action :: string
  cp_input :: js_value
  cp_input_sha :: string
  cp_proposal :: string
  cp_approval :: string
  cp_proposal_hash :: js_value
  cp_authority_sha :: js_value
  cp_sha :: string

text \<open>
  \<^verbatim>\<open>CheckpointBody\<close> and the checkpoint as JSON. Both version numbers are the constant 1.
\<close>

definition checkpoint_body :: "checkpoint \<Rightarrow> js_value" where
  "checkpoint_body c = JObj [(''version'', JNum (Whole 1)), (''runId'', JStr (cp_run c)), (''ownerId'', JNum (Whole (cp_owner c))),
     (''attempt'', JNum (Whole (cp_attempt c))), (''actionCallId'', JStr (cp_call c)), (''actionName'', JStr (cp_action c)),
     (''actionInput'', cp_input c), (''actionInputSha256'', JStr (cp_input_sha c)), (''proposalId'', JStr (cp_proposal c)),
     (''approvalId'', JStr (cp_approval c)), (''proposalInputHash'', cp_proposal_hash c),
     (''authorityVersion'', JNum (Whole 1)), (''authoritySha256'', cp_authority_sha c)]"

definition checkpoint_value :: "checkpoint \<Rightarrow> js_value" where
  "checkpoint_value c = (case checkpoint_body c of JObj ps \<Rightarrow> JObj (ps @ [(''checkpointSha256'', JStr (cp_sha c))]) | v \<Rightarrow> v)"

definition checkpoint_hash :: "run_env \<Rightarrow> checkpoint \<Rightarrow> string option" where
  "checkpoint_hash env c = map_option (env_sha env) (canonical_json env (checkpoint_body c))"

text \<open>
  \<^verbatim>\<open>SHA256.test(v)\<close> converts its argument to a string; beside a string itself, only an array
  of one such value has a text of 64 hexadecimal digits.
\<close>

fun sha_test :: "js_value \<Rightarrow> bool" where
  "sha_test (JStr s) = is_hex 64 s"
| "sha_test (JArr [v]) = sha_test v"
| "sha_test _ = False"

definition js_int_from :: "js_value \<Rightarrow> int option" where
  "js_int_from v = (case js_safe_integer v of Some i \<Rightarrow> if 1 \<le> i then Some i else None | None \<Rightarrow> None)"

text \<open>The checkpoint an object holds, if every property has the expected type.\<close>

definition checkpoint_of :: "js_value \<Rightarrow> checkpoint option" where
  "checkpoint_of v = (case (js_get ''runId'' v, js_int_from (js_get ''ownerId'' v), js_int_from (js_get ''attempt'' v),
       js_get ''actionCallId'' v, js_get ''actionName'' v, js_get ''actionInputSha256'' v) of
     (JStr run, Some owner, Some attempt, JStr call, JStr action, JStr input_sha) \<Rightarrow>
       (case (js_get ''proposalId'' v, js_get ''approvalId'' v, js_get ''checkpointSha256'' v) of
          (JStr proposal, JStr approval, JStr sha) \<Rightarrow> Some \<lparr>cp_run = run, cp_owner = owner, cp_attempt = attempt,
             cp_call = call, cp_action = action, cp_input = js_get ''actionInput'' v, cp_input_sha = input_sha,
             cp_proposal = proposal, cp_approval = approval, cp_proposal_hash = js_get ''proposalInputHash'' v,
             cp_authority_sha = js_get ''authoritySha256'' v, cp_sha = sha\<rparr>
        | _ \<Rightarrow> None)
   | _ \<Rightarrow> None)"

definition checkpoint_valid :: "run_env \<Rightarrow> js_value \<Rightarrow> checkpoint \<Rightarrow> bool" where
  "checkpoint_valid env v c = (
     (case canonical_json env v of None \<Rightarrow> False | Some s \<Rightarrow> utf8_bytes s \<le> max_continuation_bytes)
   \<and> length (js_keys v) = 14
   \<and> js_get ''version'' v = JNum (Whole 1) \<and> js_get ''authorityVersion'' v = JNum (Whole 1)
   \<and> 1 \<le> length (cp_call c) \<and> length (cp_call c) \<le> 128
   \<and> is_hex 64 (cp_input_sha c) \<and> sha_test (cp_proposal_hash c) \<and> sha_test (cp_authority_sha c) \<and> is_hex 64 (cp_sha c)
   \<and> map_option (env_sha env) (canonical_json env (cp_input c)) = Some (cp_input_sha c)
   \<and> checkpoint_hash env c = Some (cp_sha c))"

text \<open>\<^verbatim>\<open>decodeActionContinuation\<close>\<close>

definition decode_continuation :: "run_env \<Rightarrow> runtime_state \<Rightarrow> checkpoint option result" where
  "decode_continuation env st = (case js_get continuation_key (JObj st) of
      JUndefined \<Rightarrow> Inr None
    | JObj ps \<Rightarrow> (case checkpoint_of (JObj ps) of
          None \<Rightarrow> Inl continuation_corrupt
        | Some c \<Rightarrow> if checkpoint_valid env (JObj ps) c then Inr (Some c) else Inl continuation_corrupt)
    | _ \<Rightarrow> Inl continuation_corrupt)"

section \<open>The proposal ledger\<close>

text \<open>The columns of a proposal and of an approval that a continuation must agree with.\<close>

record proposal_ledger =
  pl_id :: string
  pl_source :: string
  pl_run :: "string option"
  pl_request :: string
  pl_user :: "int option"
  pl_call :: string
  pl_action :: string
  pl_input :: "string option"
  pl_hash :: string
  pl_version :: int
  pl_authority :: string

record approval_ledger =
  al_id :: string
  al_proposal :: string
  al_run :: "string option"
  al_user :: "int option"
  al_hash :: string
  al_version :: int
  al_authority :: string

definition ledger_agrees :: "run_env \<Rightarrow> checkpoint \<Rightarrow> 'x proposal_ledger_scheme \<Rightarrow> 'y approval_ledger_scheme \<Rightarrow> bool" where
  "ledger_agrees env c p a = (
     pl_source p = ''agent'' \<and> pl_run p = Some (cp_run c) \<and> pl_request p = cp_run c \<and> al_run a = Some (cp_run c)
   \<and> pl_user p = Some (cp_owner c) \<and> al_user a = Some (cp_owner c)
   \<and> pl_call p = cp_call c \<and> pl_action p = cp_action c
   \<and> canonical_json env (cp_input c) \<noteq> None \<and> pl_input p = canonical_json env (cp_input c)
   \<and> JStr (pl_hash p) = cp_proposal_hash c \<and> JStr (al_hash a) = cp_proposal_hash c
   \<and> pl_version p = 1 \<and> al_version a = 1
   \<and> JStr (pl_authority p) = cp_authority_sha c \<and> JStr (al_authority a) = cp_authority_sha c)"

text \<open>\<^verbatim>\<open>assertContinuationLedger\<close>\<close>

definition assert_ledger ::
  "run_env \<Rightarrow> 'x proposal_ledger_scheme list \<Rightarrow> 'y approval_ledger_scheme list \<Rightarrow> checkpoint \<Rightarrow> unit result" where
  "assert_ledger env proposals approvals c =
     (case (sql_first (\<lambda>p. pl_id p = cp_proposal c) proposals,
            sql_first (\<lambda>a. al_id a = cp_approval c \<and> al_proposal a = cp_proposal c) approvals) of
        (Some p, Some a) \<Rightarrow> if ledger_agrees env c p a then Inr () else Inl continuation_mismatch
      | _ \<Rightarrow> Inl continuation_mismatch)"

section \<open>What a decoded continuation is worth\<close>

lemma decode_continuation_Some:
  assumes "decode_continuation env st = Inr (Some c)"
  shows "\<exists>ps. map_of st continuation_key = Some (JObj ps) \<and> checkpoint_of (JObj ps) = Some c \<and> checkpoint_valid env (JObj ps) c"
  using assms by (auto simp: decode_continuation_def split: option.splits js_value.splits if_splits)

lemma decode_continuation_None:
  "decode_continuation env st = Inr None \<longleftrightarrow> map_of st continuation_key = None \<or> map_of st continuation_key = Some JUndefined"
  by (auto simp: decode_continuation_def split: option.splits js_value.splits)

lemma checkpoint_of_value:
  assumes "1 \<le> cp_owner c" "safe_int (cp_owner c)" "1 \<le> cp_attempt c" "safe_int (cp_attempt c)"
  shows "checkpoint_of (checkpoint_value c) = Some c"
  using assms by (simp add: checkpoint_of_def checkpoint_value_def checkpoint_body_def js_int_from_def)

end
