(* ===== verification/AgentRuns.thy ===== *)
theory AgentRuns
  imports RunContinuation
begin

text \<open>
  Agent runs (\<^verbatim>\<open>server/agents/coordinator.ts\<close>): how a run ends, how workers lease runs, and
  cancellation. Every function is one database transaction over \<open>coord_db\<close>; the random
  lease token is an argument. The random identifiers of event rows are left out, and a
  worker's \<^verbatim>\<open>now()\<close> is an argument. \<^verbatim>\<open>validateAgentGoogleSearchGrounding\<close> of
  \<^verbatim>\<open>server/agents/repository.ts\<close> is an argument of the functions that store its result.
\<close>

section \<open>Tables\<close>

datatype message_status = M_pending | M_streaming | M_complete | M_failed | M_cancelled

record message_row =
  ms_id :: string
  ms_session :: string
  ms_run :: "string option"
  ms_ordinal :: int
  ms_role :: string
  ms_status :: message_status
  ms_content :: string
  ms_citations :: "string option"
  ms_grounding :: "string option"
  ms_provider_state :: "string option"
  ms_provider_sha :: "string option"
  ms_visible :: bool
  ms_created :: int
  ms_updated :: int

record event_row = event_text +
  ev_run :: string
  ev_sequence :: int
  ev_type :: string
  ev_attempt :: int
  ev_created :: int

record media_row =
  md_id :: string
  md_owner :: int
  md_session :: string
  md_kind :: string
  md_mime :: string
  md_message :: "string option"
  md_run :: "string option"
  md_expires :: "int option"

record session_row =
  sn_id :: string
  sn_owner :: int
  sn_version :: int
  sn_google :: js_value
  sn_deleted :: "int option"
  sn_activity :: int
  sn_updated :: int

text \<open>What a run was admitted with. Only the routing of a running run to another provider writes it later
  (\<^verbatim>\<open>server/agents/runtime.ts\<close>), which is not modelled.
\<close>

record run_spec =
  sp_profile_version :: string
  sp_transport :: string
  sp_model :: string
  sp_mode :: string
  sp_google :: bool
  sp_policy :: int
  sp_generation :: int
  sp_capability :: string
  sp_pricing :: string
  sp_prompt :: int

record run_row = run_fence +
  rn_session :: string
  rn_user_message :: string
  rn_assistant :: string
  rn_request :: string
  rn_request_sha :: string
  rn_resolution :: string
  rn_goal :: "string option"
  rn_continuation :: "int option"
  rn_media :: "string option"
  rn_spec :: run_spec
  rn_attempts :: int
  rn_max_attempts :: int
  rn_available :: int
  rn_queued :: int
  rn_started :: "int option"
  rn_updated :: int
  rn_completed :: "int option"
  rn_lease_expires :: "int option"
  rn_cancel :: "int option"
  rn_side_effects :: bool
  rn_input :: int
  rn_output :: int
  rn_total :: int
  rn_cost :: "int option"
  rn_outcome :: "string option"
  rn_assessment :: "string option"
  rn_assessment_sha :: "string option"
  rn_error_code :: "string option"
  rn_error_message :: "string option"
  rn_runtime :: "string option"

record coord_db =
  c_runs :: "run_row list"
  c_messages :: "message_row list"
  c_events :: "event_row list"
  c_media :: "media_row list"
  c_sessions :: "session_row list"
  c_proposals :: "proposal_ledger list"
  c_approvals :: "approval_ledger list"
  c_skills :: "(string \<times> string \<times> nat) list"
  c_quota :: quota_db

definition corrupt_run :: js_error where
  "corrupt_run = Coded ''AGENT_RUN_CORRUPT'' 500"

definition run_not_found :: js_error where
  "run_not_found = Coded ''AGENT_RESOURCE_NOT_FOUND'' 404"

definition run_fence_changed :: js_error where
  "run_fence_changed = Coded ''RUN_TERMINAL_FENCE_CHANGED'' 409"

definition event_fence_changed :: js_error where
  "event_fence_changed = Coded ''RUN_EVENT_FENCE_CHANGED'' 409"

text \<open>\<^verbatim>\<open>runRecord\<close>: its one check a typed row can fail.\<close>

definition run_record :: "run_row \<Rightarrow> run_row result" where
  "run_record r = rbind (non_negative (Whole (rn_total r))) (\<lambda>_. Inr r)"

definition active_status :: "run_status \<Rightarrow> bool" where
  "active_status s = (s = R_queued \<or> s = R_running \<or> s = R_awaiting)"

lemma active_iff_not_terminal [simp]: "active_status s \<longleftrightarrow> \<not> terminal_status s"
  by (cases s) (simp_all add: active_status_def terminal_status_def)

section \<open>Usage a run has left behind\<close>

type_synonym persisted_usage = "(run_usage \<times> exposure) option"

definition usage_of_event :: "run_env \<Rightarrow> event_row \<Rightarrow> run_usage result" where
  "usage_of_event env row =
     (if env_sha env (et_data row) \<noteq> et_sha row then Inl event_corrupt
      else case env_parse env (et_data row) of
             None \<Rightarrow> Inl event_corrupt
           | Some v \<Rightarrow> if js_is_record v then read_usage_event v else Inl event_corrupt)"

definition add_stored_usage :: "run_usage \<Rightarrow> run_usage \<Rightarrow> run_usage result" where
  "add_stored_usage u v =
     rbind (stored_sum (us_input u) (us_input v)) (\<lambda>i.
     rbind (stored_sum (us_output u) (us_output v)) (\<lambda>j.
     rbind (stored_sum (us_total u) (us_total v)) (\<lambda>t.
     rbind (stored_sum (us_cost u) (us_cost v)) (\<lambda>c.
     Inr \<lparr>us_input = i, us_output = j, us_total = t, us_cost = c\<rparr>))))"

text \<open>A later \<^verbatim>\<open>usage.updated\<close> replaces what came before it; the other events add up.\<close>

definition usage_event_step :: "run_env \<Rightarrow> event_row \<Rightarrow> run_usage \<Rightarrow> run_usage result" where
  "usage_event_step env row u =
     rbind (usage_of_event env row) (\<lambda>v. if ev_type row = ''usage.updated'' then Inr v else add_stored_usage u v)"

definition journal_rows :: "string \<Rightarrow> event_row list \<Rightarrow> event_row list" where
  "journal_rows run events = sort_key ev_sequence (filter (\<lambda>e. ev_run e = run \<and> ev_type e = ''dispatch.accounting'') events)"

definition usage_rows :: "string \<Rightarrow> event_row list \<Rightarrow> event_row list" where
  "usage_rows run events = sort_key ev_sequence (filter (\<lambda>e. ev_run e = run
     \<and> ev_type e \<in> {''task.planCreated'', ''model.turn'', ''usage.updated''}) events)"

text \<open>\<^verbatim>\<open>persistedAgentRunUsage\<close>\<close>

definition persisted_usage :: "run_env \<Rightarrow> string \<Rightarrow> event_row list \<Rightarrow> persisted_usage result" where
  "persisted_usage env run events =
     rbind (read_dispatch_accounting (env_sha env) (env_parse env) (env_uuid env)
              (map event_text.truncate (journal_rows run events))) (\<lambda>journal.
     case journal of
       Some ux \<Rightarrow> Inr (Some ux)
     | None \<Rightarrow>
         if usage_rows run events = [] then Inr None
         else rbind (rfold (usage_event_step env) (usage_rows run events)
                       \<lparr>us_input = 0, us_output = 0, us_total = 0, us_cost = 0\<rparr>) (\<lambda>u.
              Inr (Some (u, \<lparr>xp_tokens = 0, xp_cost = 0\<rparr>))))"

section \<open>Terminalisation\<close>

record assistant_input =
  ai_status :: message_status
  ai_content :: "string option"
  ai_citations :: "string option option"
  ai_grounding :: "string option option"
  ai_provider_state :: "string option option"
  ai_provider_sha :: "string option option"

record run_patch =
  rp_input :: "js_num option"
  rp_output :: "js_num option"
  rp_total :: "js_num option"
  rp_cost :: "js_num option option"
  rp_outcome :: "string option option"
  rp_assessment :: "string option option"
  rp_assessment_sha :: "string option option"

definition no_patch :: run_patch where
  "no_patch = \<lparr>rp_input = None, rp_output = None, rp_total = None, rp_cost = None, rp_outcome = None,
     rp_assessment = None, rp_assessment_sha = None\<rparr>"

text \<open>The caller's settlement is a pair of integers and a status.\<close>

record terminal_input =
  ti_run :: string
  ti_owner :: "int option"
  ti_expected :: "run_expected option"
  ti_status :: run_status
  ti_assistant :: "assistant_input option"
  ti_event :: "(string \<times> js_value) list"
  ti_quota :: "(int \<times> int \<times> quota_status) option"
  ti_patch :: run_patch
  ti_error_code :: "string option"
  ti_error_message :: "string option"
  ti_cancel :: "int option"

definition terminal_event_type :: "run_status \<Rightarrow> string" where
  "terminal_event_type s = (case s of R_succeeded \<Rightarrow> ''run.completed'' | R_partial \<Rightarrow> ''run.partial''
     | R_failed \<Rightarrow> ''run.failed'' | R_cancelled \<Rightarrow> ''run.cancelled'' | _ \<Rightarrow> ''run.recovery_required'')"

definition status_text :: "run_status \<Rightarrow> string" where
  "status_text s = (case s of R_queued \<Rightarrow> ''queued'' | R_running \<Rightarrow> ''running'' | R_awaiting \<Rightarrow> ''awaiting_approval''
     | R_succeeded \<Rightarrow> ''succeeded'' | R_partial \<Rightarrow> ''partial'' | R_failed \<Rightarrow> ''failed'' | R_cancelled \<Rightarrow> ''cancelled''
     | R_recovery \<Rightarrow> ''recovery_required'')"

definition message_status_text :: "message_status \<Rightarrow> string" where
  "message_status_text s = (case s of M_pending \<Rightarrow> ''pending'' | M_streaming \<Rightarrow> ''streaming'' | M_complete \<Rightarrow> ''complete''
     | M_failed \<Rightarrow> ''failed'' | M_cancelled \<Rightarrow> ''cancelled'')"

definition terminal_message_status :: "run_status \<Rightarrow> message_status \<Rightarrow> message_status" where
  "terminal_message_status s current =
     (if s = R_cancelled then M_cancelled
      else if s = R_failed \<or> s = R_recovery then M_failed
      else if s = R_partial \<and> current \<noteq> M_complete then M_failed
      else M_complete)"

definition message_fits :: "run_status \<Rightarrow> message_status \<Rightarrow> bool" where
  "message_fits s m = ((s = R_succeeded \<and> m = M_complete) \<or> (s = R_partial \<and> (m = M_complete \<or> m = M_failed))
     \<or> ((s = R_failed \<or> s = R_recovery) \<and> m = M_failed) \<or> (s = R_cancelled \<and> m = M_cancelled))"

text \<open>The fence of a run that has not ended yet.\<close>

definition terminal_fence :: "run_expected option \<Rightarrow> run_row \<Rightarrow> unit result" where
  "terminal_fence expected row = (case expected of
      None \<Rightarrow> Inl run_fence_changed
    | Some ex \<Rightarrow>
        if rn_status row \<notin> set (ex_statuses ex) then Inl run_fence_changed
        else if ex_sequence ex \<noteq> None \<and> ex_sequence ex \<noteq> Some (rn_sequence row) then Inl event_fence_changed
        else if ex_lease_owner ex \<noteq> None \<and> ex_lease_owner ex \<noteq> Some (rn_lease_owner row) then Inl lease_lost
        else if ex_lease_token ex \<noteq> None \<and> ex_lease_token ex \<noteq> Some (rn_lease_token row) then Inl lease_lost
        else Inr ())"

text \<open>What the events and journal of a run account for, together with its pending intent.\<close>

definition accounted :: "persisted_usage \<Rightarrow> (int \<times> int) option \<Rightarrow> (int \<times> int) result" where
  "accounted usage intent =
     (let (ut, uc, xt, xc) = (case usage of None \<Rightarrow> (0, 0, 0, 0)
            | Some (u, x) \<Rightarrow> (us_total u, us_cost u, xp_tokens x, xp_cost x));
          (it, ic) = option_or intent (0, 0)
      in rbind (stored_sum ut xt) (\<lambda>tokens. rbind (stored_sum uc xc) (\<lambda>cost. Inr (max tokens it, max cost ic))))"

definition settled_status :: "int \<Rightarrow> int \<Rightarrow> quota_status" where
  "settled_status tokens cost = (if tokens > 0 \<or> cost > 0 then Consumed else Released)"

definition settle_of :: "run_row \<Rightarrow> int \<Rightarrow> int \<Rightarrow> quota_status \<Rightarrow> settle_input" where
  "settle_of row tokens cost st = \<lparr>se_run = rn_id row, se_owner = rn_owner row,
     se_consumed = \<lparr>qa_tokens = Whole tokens, qa_cost = Whole cost\<rparr>, se_status = st\<rparr>"

text \<open>A run that has ended already: only a pending settlement is still completed.\<close>

definition terminalize_ended :: "run_env \<Rightarrow> terminal_input \<Rightarrow> run_row \<Rightarrow> int \<Rightarrow> (coord_db, run_row) tx" where
  "terminalize_ended env ti row now db =
     (let expected_outcome = (rn_status row = ti_status ti \<or> (rn_status row = R_cancelled \<and> rn_cancel row \<noteq> None));
          lease_differs = (case ti_expected ti of None \<Rightarrow> False | Some ex \<Rightarrow>
             (ex_lease_owner ex \<noteq> None \<and> ex_lease_owner ex \<noteq> Some (rn_lease_owner row))
             \<or> (ex_lease_token ex \<noteq> None \<and> ex_lease_token ex \<noteq> Some (rn_lease_token row)))
      in if \<not> expected_outcome \<and> lease_differs then Inl lease_lost
         else rbind (if ti_quota ti \<noteq> None then Inr db
           else rbind (settlement_intent (c_quota db) (rn_id row) (rn_owner row)) (\<lambda>intent.
                if intent = None then Inr db
                else rbind (persisted_usage env (rn_id row) (c_events db)) (\<lambda>usage.
                     rbind (accounted usage intent) (\<lambda>(tokens, cost).
                     rbind (reconcile_quota (settle_of row tokens cost (settled_status tokens cost))
                              \<lparr>so_allow_missing = True, so_accept_any = True\<rparr> now (c_quota db)) (\<lambda>(_, q).
                     Inr (db\<lparr>c_quota := q\<rparr>)))))) (\<lambda>db'.
         rbind (run_record row) (\<lambda>r. Inr (r, db'))))"

text \<open>The patch of the assistant's message.\<close>

definition option_patch :: "'a option \<Rightarrow> 'a \<Rightarrow> 'a" where
  "option_patch new old = option_or new old"

definition patch_message ::
  "assistant_input option \<Rightarrow> message_status \<Rightarrow> string option option \<Rightarrow> int \<Rightarrow> message_row \<Rightarrow> message_row" where
  "patch_message assistant status grounding now m = (case assistant of
      None \<Rightarrow> m\<lparr>ms_status := status, ms_updated := now\<rparr>
    | Some a \<Rightarrow> m\<lparr>ms_status := status, ms_updated := now,
        ms_content := option_patch (ai_content a) (ms_content m),
        ms_citations := option_patch (ai_citations a) (ms_citations m),
        ms_grounding := option_patch grounding (ms_grounding m),
        ms_provider_state := option_patch (ai_provider_state a) (ms_provider_state m),
        ms_provider_sha := option_patch (ai_provider_sha a) (ms_provider_sha m)\<rparr>)"

text \<open>\<^verbatim>\<open>validatedGoogleSearchGrounding\<close>\<close>

definition validated_grounding :: "run_env \<Rightarrow> (js_value \<Rightarrow> js_value result) \<Rightarrow> string \<Rightarrow> string result" where
  "validated_grounding env validate encoded =
     (if utf8_bytes encoded > 256 * 1024 then Inl (Coded ''INVALID_GOOGLE_SEARCH_GROUNDING'' 500)
      else case env_parse env encoded of
             None \<Rightarrow> Inl (Coded ''INVALID_GOOGLE_SEARCH_GROUNDING'' 500)
           | Some v \<Rightarrow> rbind (validate v) (\<lambda>w. case canonical_json env w of None \<Rightarrow> Inl Plain_error | Some s \<Rightarrow> Inr s))"

definition grounding_patch ::
  "run_env \<Rightarrow> (js_value \<Rightarrow> js_value result) \<Rightarrow> assistant_input option \<Rightarrow> string option option result" where
  "grounding_patch env validate assistant = (case assistant of
      None \<Rightarrow> Inr None
    | Some a \<Rightarrow> (case ai_grounding a of
          None \<Rightarrow> Inr None
        | Some None \<Rightarrow> Inr (Some None)
        | Some (Some s) \<Rightarrow> rbind (validated_grounding env validate s) (\<lambda>g. Inr (Some (Some g)))))"

text \<open>An object spread: the later properties win.\<close>

definition spread :: "(string \<times> js_value) list \<Rightarrow> (string \<times> js_value) list \<Rightarrow> (string \<times> js_value) list" where
  "spread ps qs = fold (\<lambda>(k, v) st. state_set k v st) qs ps"

definition terminal_events ::
  "run_env \<Rightarrow> run_row \<Rightarrow> run_status \<Rightarrow> message_status \<Rightarrow> (string \<times> js_value) list \<Rightarrow> int \<Rightarrow> event_row list result" where
  "terminal_events env row status assistant event now =
     (let event_of = (\<lambda>n ty data. \<lparr>et_data = data, et_sha = env_sha env data, ev_run = rn_id row,
            ev_sequence = rn_sequence row + n, ev_type = ty, ev_attempt = rn_attempts row, ev_created = now\<rparr>)
      in case (canonical_json env (JObj [(''messageId'', JStr (rn_assistant row)), (''status'', JStr (message_status_text assistant))]),
               canonical_json env (JObj (spread event [(''runId'', JStr (rn_id row)), (''status'', JStr (status_text status))]))) of
           (Some a, Some b) \<Rightarrow> Inr [event_of 1 ''message.completed'' a, event_of 2 (terminal_event_type status) b]
         | _ \<Rightarrow> Inl Plain_error)"

definition patched_count :: "js_num option \<Rightarrow> int option \<Rightarrow> int \<Rightarrow> int result" where
  "patched_count given persisted old = (case given of
      Some n \<Rightarrow> non_negative n
    | None \<Rightarrow> Inr (option_or persisted old))"

definition patched_cost :: "js_num option option \<Rightarrow> int option \<Rightarrow> int option \<Rightarrow> int option result" where
  "patched_cost given persisted old = (case given of
      Some None \<Rightarrow> Inr None
    | Some (Some n) \<Rightarrow> rbind (non_negative n) (\<lambda>c. Inr (Some c))
    | None \<Rightarrow> Inr (if persisted = None then old else persisted))"

text \<open>The row after the patch of a terminalisation.\<close>

definition ended_row ::
  "terminal_input \<Rightarrow> run_status \<Rightarrow> bool \<Rightarrow> persisted_usage \<Rightarrow> int \<Rightarrow> run_row \<Rightarrow> run_row result" where
  "ended_row ti status won usage now row =
     (let p = ti_patch ti; of_usage = (\<lambda>f. map_option (\<lambda>(u, _). f u) usage) in
      rbind (patched_count (rp_input p) (of_usage us_input) (rn_input row)) (\<lambda>i.
      rbind (patched_count (rp_output p) (of_usage us_output) (rn_output row)) (\<lambda>j.
      rbind (patched_count (rp_total p) (of_usage us_total) (rn_total row)) (\<lambda>t.
      rbind (patched_cost (rp_cost p) (of_usage us_cost) (rn_cost row)) (\<lambda>c.
      let ended = row\<lparr>rn_status := status, rn_sequence := rn_sequence row + 2, rn_runtime := None,
             rn_completed := Some (option_or (rn_completed row) now), rn_updated := now,
             rn_lease_owner := None, rn_lease_token := None, rn_lease_expires := None,
             rn_cancel := (if status = R_cancelled then Some (option_or (rn_cancel row) (option_or (ti_cancel ti) now)) else rn_cancel row),
             rn_input := i, rn_output := j, rn_total := t, rn_cost := c\<rparr>
      in Inr (if won then ended\<lparr>rn_error_code := ti_error_code ti, rn_error_message := ti_error_message ti,
                rn_outcome := option_patch (rp_outcome p) (rn_outcome row),
                rn_assessment := option_patch (rp_assessment p) (rn_assessment row),
                rn_assessment_sha := option_patch (rp_assessment_sha p) (rn_assessment_sha row)\<rparr>
              else ended))))))"

text \<open>The settlement a terminalisation asks the ledger for.\<close>

definition terminal_settlement ::
  "(int \<times> int \<times> quota_status) option \<Rightarrow> int \<Rightarrow> int \<Rightarrow> int \<times> int \<times> quota_status" where
  "terminal_settlement quota tokens cost =
     (let (qt, qc, qs) = option_or quota (tokens, cost, settled_status tokens cost)
      in (max qt tokens, max qc cost, if tokens > 0 \<or> cost > 0 then Consumed else qs))"

definition transcribes :: "run_env \<Rightarrow> run_row \<Rightarrow> bool result" where
  "transcribes env row = (case rn_media row of
      None \<Rightarrow> Inr False
    | Some s \<Rightarrow> if s = [] then Inr False
        else (case env_parse env s of
            None \<Rightarrow> Inl Plain_error
          | Some v \<Rightarrow> if v = JNull then Inl Type_error else Inr (js_get ''kind'' v = JStr ''transcription'')))"

text \<open>The status a run that ends gets: a requested cancellation wins.\<close>

definition final_status :: "terminal_input \<Rightarrow> run_row \<Rightarrow> run_status" where
  "final_status ti row = (if rn_cancel row = None then ti_status ti else R_cancelled)"

definition status_won :: "terminal_input \<Rightarrow> run_row \<Rightarrow> bool" where
  "status_won ti row = (final_status ti row = ti_status ti)"

definition final_assistant :: "terminal_input \<Rightarrow> run_row \<Rightarrow> assistant_input option" where
  "final_assistant ti row = (if status_won ti row then ti_assistant ti else None)"

definition final_event :: "terminal_input \<Rightarrow> run_row \<Rightarrow> (string \<times> js_value) list" where
  "final_event ti row = (if status_won ti row then ti_event ti else [])"

definition final_message_status :: "terminal_input \<Rightarrow> run_row \<Rightarrow> message_row \<Rightarrow> message_status" where
  "final_message_status ti row message = (case final_assistant ti row of
      Some a \<Rightarrow> ai_status a
    | None \<Rightarrow> terminal_message_status (final_status ti row) (ms_status message))"

definition assistant_of :: "run_row \<Rightarrow> message_row \<Rightarrow> bool" where
  "assistant_of row m = (ms_id m = rn_assistant row \<and> ms_run m = Some (rn_id row))"

definition same_run :: "run_row \<Rightarrow> run_row \<Rightarrow> bool" where
  "same_run row r = (rn_id r = rn_id row \<and> rn_status r = rn_status row \<and> rn_sequence r = rn_sequence row)"

definition terminal_quota :: "terminal_input \<Rightarrow> run_row \<Rightarrow> persisted_usage \<Rightarrow> int \<Rightarrow> quota_db \<Rightarrow> quota_db result" where
  "terminal_quota ti row usage now quota =
     rbind (if ti_quota ti = None then settlement_intent quota (rn_id row) (rn_owner row) else Inr None) (\<lambda>intent.
     rbind (accounted usage intent) (\<lambda>(tokens, cost).
     let (qt, qc, qs) = terminal_settlement (ti_quota ti) tokens cost in
     rbind (reconcile_quota (settle_of row qt qc qs)
              \<lparr>so_allow_missing = (ti_quota ti = None), so_accept_any = (ti_quota ti = None)\<rparr> now quota) (\<lambda>(_, q). Inr q)))"

text \<open>A run that has not ended, once its fence has passed.\<close>

definition terminalize_active ::
  "run_env \<Rightarrow> (js_value \<Rightarrow> js_value result) \<Rightarrow> terminal_input \<Rightarrow> run_row \<Rightarrow> int \<Rightarrow> (coord_db, run_row) tx" where
  "terminalize_active env validate ti row now db =
     (case sql_first (assistant_of row) (c_messages db) of
        None \<Rightarrow> Inl corrupt_run
      | Some message \<Rightarrow>
     if \<not> message_fits (final_status ti row) (final_message_status ti row message)
     then Inl (Coded ''INVALID_TERMINAL_MESSAGE_STATUS'' 400)
     else
     rbind (grounding_patch env validate (final_assistant ti row)) (\<lambda>grounding.
     if sql_count (assistant_of row) (c_messages db) \<noteq> 1 then Inl corrupt_run
     else
     rbind (terminal_events env row (final_status ti row) (final_message_status ti row message) (final_event ti row) now) (\<lambda>events.
     rbind (persisted_usage env (rn_id row) (c_events db @ events)) (\<lambda>usage.
     rbind (ended_row ti (final_status ti row) (status_won ti row) usage now row) (\<lambda>ended.
     if sql_count (same_run row) (c_runs db) \<noteq> 1 then Inl run_fence_changed
     else
     rbind (terminal_quota ti row usage now (c_quota db)) (\<lambda>q.
     rbind (transcribes env row) (\<lambda>transcription.
     rbind (run_record ended) (\<lambda>r. Inr (r, db\<lparr>
       c_messages := sql_update (assistant_of row)
          (patch_message (final_assistant ti row) (final_message_status ti row message) grounding now) (c_messages db),
       c_events := c_events db @ events,
       c_runs := sql_update (same_run row) (\<lambda>_. ended) (c_runs db),
       c_quota := q,
       c_media := (if transcription then sql_delete (\<lambda>m. md_run m = Some (rn_id row) \<and> md_owner m = rn_owner row) (c_media db)
                   else c_media db)\<rparr>)))))))))"

text \<open>\<^verbatim>\<open>terminalizeAgentRunInTransaction\<close>\<close>

definition run_of :: "string \<Rightarrow> int option \<Rightarrow> run_row \<Rightarrow> bool" where
  "run_of run owner r = (rn_id r = run \<and> (owner = None \<or> owner = Some (rn_owner r)))"

definition terminalize ::
  "run_env \<Rightarrow> (js_value \<Rightarrow> js_value result) \<Rightarrow> terminal_input \<Rightarrow> int \<Rightarrow> (coord_db, run_row) tx" where
  "terminalize env validate ti now db = (case sql_first (run_of (ti_run ti) (ti_owner ti)) (c_runs db) of
      None \<Rightarrow> Inl run_not_found
    | Some row \<Rightarrow>
        if terminal_status (rn_status row) then terminalize_ended env ti row now db
        else rbind (terminal_fence (ti_expected ti) row) (\<lambda>_. terminalize_active env validate ti row now db))"

end
