(* ===== verification/RunLeases.thy ===== *)
theory RunLeases
  imports AgentRuns
begin

text \<open>
  Leases on agent runs (\<^verbatim>\<open>server/agents/coordinator.ts\<close>): claiming, heartbeats, transitions,
  the fence before side effects, cancellation and the approval continuation of a leased run.
  The two statements of a heartbeat are not in one transaction in the source; here they are
  one step. Concurrency limits are integers, the floor of the configured numbers.
\<close>

section \<open>Claiming\<close>

record claim_options =
  co_worker :: string
  co_global :: int
  co_per_user :: int
  co_lease :: int

definition global_limit :: "claim_options \<Rightarrow> int" where
  "global_limit opts = max 1 (co_global opts)"

definition per_user_limit :: "claim_options \<Rightarrow> int" where
  "per_user_limit opts = max 1 (co_per_user opts)"

text \<open>\<^verbatim>\<open>excludeAgentRunsWithPendingQuotaSettlement\<close>\<close>

definition pending_settlement :: "quota_db \<Rightarrow> run_row \<Rightarrow> bool" where
  "pending_settlement q r = list_ex (\<lambda>p. qr_run p = rn_id r \<and> qr_owner p = rn_owner r \<and> qr_status p = Reserved
     \<and> qr_reconciled p = None \<and> (qr_consumed_tokens p > 0 \<or> qr_consumed_cost p > 0)) (q_reservations q)"

definition expired :: "int \<Rightarrow> int option \<Rightarrow> bool" where
  "expired now e = (case e of None \<Rightarrow> False | Some x \<Rightarrow> x \<le> now)"

definition run_claimable :: "quota_db \<Rightarrow> int \<Rightarrow> run_row \<Rightarrow> bool" where
  "run_claimable q now r = (((rn_status r = R_queued \<and> rn_available r \<le> now)
       \<or> ((rn_status r = R_running \<or> rn_status r = R_awaiting) \<and> expired now (rn_lease_expires r)))
     \<and> rn_cancel r = None \<and> \<not> pending_settlement q r)"

text \<open>\<^verbatim>\<open>activeLeaseCounts\<close>: the live running leases of each owner, for a limited number of owners.\<close>

definition live :: "int \<Rightarrow> run_row \<Rightarrow> bool" where
  "live now r = (rn_status r = R_running \<and> (case rn_lease_expires r of None \<Rightarrow> False | Some x \<Rightarrow> now < x))"

definition lease_count :: "int \<Rightarrow> int \<Rightarrow> run_row list \<Rightarrow> int" where
  "lease_count now owner runs = int (sql_count (\<lambda>r. live now r \<and> rn_owner r = owner) runs)"

definition active_lease_counts :: "int \<Rightarrow> int \<Rightarrow> run_row list \<Rightarrow> (int \<times> int) list" where
  "active_lease_counts now limit runs =
     map (\<lambda>owner. (owner, lease_count now owner runs))
       (take (nat limit) (sort (remdups (map rn_owner (filter (live now) runs)))))"

definition active_total :: "(int \<times> int) list \<Rightarrow> int" where
  "active_total counts = sum_list (map snd counts)"

definition saturated :: "int \<Rightarrow> (int \<times> int) list \<Rightarrow> int list" where
  "saturated limit counts = map fst (filter (\<lambda>(_, n). n \<ge> limit) counts)"

definition eligible_run :: "int list \<Rightarrow> run_row \<Rightarrow> bool" where
  "eligible_run full r = (full = [] \<or> rn_status r = R_awaiting \<or> rn_side_effects r \<or> rn_owner r \<notin> set full)"

text \<open>Ordered by \<^verbatim>\<open>availableAt\<close>, then \<^verbatim>\<open>queuedAt\<close>.\<close>

definition run_candidates :: "quota_db \<Rightarrow> int \<Rightarrow> int list \<Rightarrow> run_row list \<Rightarrow> run_row list" where
  "run_candidates q now full runs =
     take 32 (sort_key rn_available (sort_key rn_queued (filter (\<lambda>r. run_claimable q now r \<and> eligible_run full r) runs)))"

definition terminal_of :: "run_row \<Rightarrow> run_status \<Rightarrow> string option \<Rightarrow> string option \<Rightarrow> terminal_input" where
  "terminal_of r st code message = \<lparr>ti_run = rn_id r, ti_owner = Some (rn_owner r),
     ti_expected = Some \<lparr>ex_statuses = [rn_status r], ex_sequence = Some (rn_sequence r), ex_lease_owner = None,
        ex_lease_token = Some (rn_lease_token r)\<rparr>,
     ti_status = st, ti_assistant = None, ti_event = [], ti_quota = None, ti_patch = no_patch,
     ti_error_code = code, ti_error_message = message, ti_cancel = None\<rparr>"

text \<open>\<^verbatim>\<open>recoveryLostSideEffect\<close>\<close>

definition lost_side_effect :: "run_row \<Rightarrow> terminal_input" where
  "lost_side_effect r = terminal_of r R_recovery (Some ''LEASE_LOST_AFTER_SIDE_EFFECT'')
     (Some ''Run lease expired after a side effect may have started'')"

definition exhausted_attempts :: "run_row \<Rightarrow> terminal_input" where
  "exhausted_attempts r = terminal_of r R_failed (Some ''MAX_ATTEMPTS_EXCEEDED'')
     (Some ''Agent run exhausted its durable attempts'')"

text \<open>\<^verbatim>\<open>hasReclaimableActionContinuation\<close>\<close>

definition reclaimable_continuation :: "run_env \<Rightarrow> coord_db \<Rightarrow> run_row \<Rightarrow> bool result" where
  "reclaimable_continuation env db r =
     (if rn_status r \<noteq> R_running \<or> rn_side_effects r then Inr False
      else rbind (read_runtime env (rn_runtime r)) (\<lambda>st.
           rbind (decode_continuation env st) (\<lambda>c. case c of
             None \<Rightarrow> Inr False
           | Some cp \<Rightarrow>
               if cp_run cp \<noteq> rn_id r \<or> cp_owner cp \<noteq> rn_owner r \<or> cp_attempt cp \<noteq> rn_attempts r
               then Inl continuation_mismatch
               else rbind (assert_ledger env (c_proposals db) (c_approvals db) cp) (\<lambda>_. Inr True))))"

text \<open>The update that takes a lease, fenced by what the candidate's row was when it was read.\<close>

definition leased_row :: "claim_options \<Rightarrow> string \<Rightarrow> int \<Rightarrow> bool \<Rightarrow> run_row \<Rightarrow> run_row" where
  "leased_row opts token now reclaiming c = c\<lparr>
     rn_status := (if rn_status c = R_awaiting then R_awaiting else R_running),
     rn_attempts := (if rn_status c = R_awaiting \<or> reclaiming then rn_attempts c else rn_attempts c + 1),
     rn_lease_owner := Some (co_worker opts), rn_lease_token := Some token, rn_lease_expires := Some (now + co_lease opts)\<rparr>"

definition take_lease :: "claim_options \<Rightarrow> string \<Rightarrow> int \<Rightarrow> bool \<Rightarrow> run_row \<Rightarrow> (coord_db, run_row option) tx" where
  "take_lease opts token now reclaiming c db =
     (let p = (\<lambda>r. rn_id r = rn_id c \<and> rn_status r = rn_status c \<and> rn_sequence r = rn_sequence c
                \<and> (rn_status c \<noteq> R_queued \<longrightarrow> rn_lease_token r = rn_lease_token c));
          claimed = leased_row opts token now reclaiming c
      in if sql_count p (c_runs db) \<noteq> 1 then Inr (None, db)
         else rbind (run_record claimed) (\<lambda>r. Inr (Some r, db\<lparr>c_runs := sql_update p (\<lambda>row.
                row\<lparr>rn_status := rn_status claimed, rn_attempts := rn_attempts claimed,
                    rn_lease_owner := rn_lease_owner claimed, rn_lease_token := rn_lease_token claimed,
                    rn_lease_expires := rn_lease_expires claimed,
                    rn_started := (if rn_status c = R_queued then Some now else rn_started c),
                    rn_updated := now\<rparr>) (c_runs db)\<rparr>)))"

definition owner_saturated :: "claim_options \<Rightarrow> (int \<times> int) list \<Rightarrow> run_row \<Rightarrow> bool" where
  "owner_saturated opts counts c = (rn_status c \<noteq> R_awaiting \<and> option_or (map_of counts (rn_owner c)) 0 \<ge> per_user_limit opts)"

definition attempts_spent :: "run_row \<Rightarrow> bool \<Rightarrow> bool" where
  "attempts_spent c reclaiming = (rn_attempts c \<ge> rn_max_attempts c \<and> rn_status c \<noteq> R_awaiting \<and> \<not> reclaiming)"

text \<open>One candidate: \<^term>\<open>None\<close> goes on with the next.\<close>

definition claim_candidate ::
  "run_env \<Rightarrow> (js_value \<Rightarrow> js_value result) \<Rightarrow> claim_options \<Rightarrow> (int \<times> int) list \<Rightarrow> string \<Rightarrow> int \<Rightarrow> run_row
   \<Rightarrow> (coord_db, run_row option) tx" where
  "claim_candidate env validate opts counts token now c db =
     rbind (settlement_intent (c_quota db) (rn_id c) (rn_owner c)) (\<lambda>intent.
     if positive_settlement intent then Inr (None, db)
     else if rn_status c = R_running \<and> rn_side_effects c
     then rbind (terminalize env validate (lost_side_effect c) now db) (\<lambda>(_, db'). Inr (None, db'))
     else rbind (reclaimable_continuation env db c) (\<lambda>reclaiming.
     if owner_saturated opts counts c then Inr (None, db)
     else if attempts_spent c reclaiming
     then rbind (terminalize env validate (exhausted_attempts c) now db) (\<lambda>(_, db'). Inr (None, db'))
     else take_lease opts token now reclaiming c db))"

fun claim_first ::
  "run_env \<Rightarrow> (js_value \<Rightarrow> js_value result) \<Rightarrow> claim_options \<Rightarrow> (int \<times> int) list \<Rightarrow> string \<Rightarrow> int \<Rightarrow> run_row list
   \<Rightarrow> (coord_db, run_row option) tx" where
  "claim_first env validate opts counts token now [] db = Inr (None, db)"
| "claim_first env validate opts counts token now (c # cs) db =
     rbind (claim_candidate env validate opts counts token now c db) (\<lambda>(claimed, db').
     case claimed of Some r \<Rightarrow> Inr (Some r, db') | None \<Rightarrow> claim_first env validate opts counts token now cs db')"

text \<open>
  \<^verbatim>\<open>claimAgentRun\<close>. The unlocked probe before the transaction only returns early when there is
  no candidate, as the transaction would.
\<close>

definition claim_run ::
  "run_env \<Rightarrow> (js_value \<Rightarrow> js_value result) \<Rightarrow> claim_options \<Rightarrow> string \<Rightarrow> int \<Rightarrow> (coord_db, run_row option) tx" where
  "claim_run env validate opts token now db =
     (let limit = global_limit opts;
          counts = active_lease_counts now limit (c_runs db)
      in if \<not> list_ex (run_claimable (c_quota db) now) (c_runs db) then Inr (None, db)
         else if active_total counts \<ge> limit then Inr (None, db)
         else claim_first env validate opts counts token now
                (run_candidates (c_quota db) now (saturated (per_user_limit opts) counts) (c_runs db)) db)"

section \<open>Operations under a lease\<close>

text \<open>\<^verbatim>\<open>AgentRunLeaseIdentity\<close>: what a worker knows of its claim.\<close>

record run_claim =
  cl_run :: string
  cl_owner :: int
  cl_attempts :: int
  cl_worker :: string
  cl_token :: string

definition holds_run :: "run_claim \<Rightarrow> run_row \<Rightarrow> bool" where
  "holds_run cl r = (rn_id r = cl_run cl \<and> rn_lease_owner r = Some (cl_worker cl) \<and> rn_lease_token r = Some (cl_token cl))"

text \<open>\<^verbatim>\<open>heartbeatAgentRun\<close>\<close>

definition heartbeat :: "run_claim \<Rightarrow> int \<Rightarrow> int \<Rightarrow> (coord_db, bool) tx" where
  "heartbeat cl lease now db =
     (let p = (\<lambda>r. holds_run cl r \<and> (rn_status r = R_running \<or> rn_status r = R_awaiting) \<and> rn_cancel r = None);
          expires = now + lease
      in if sql_count p (c_runs db) = 1
         then Inr (True, db\<lparr>c_runs := sql_update p (\<lambda>r. r\<lparr>rn_lease_expires := Some expires, rn_updated := now\<rparr>) (c_runs db),
                c_quota := (c_quota db)\<lparr>q_reservations := sql_update (\<lambda>q. qr_run q = cl_run cl \<and> qr_status q = Reserved)
                   (\<lambda>q. q\<lparr>qr_heartbeat := now, qr_expires := expires\<rparr>) (q_reservations (c_quota db))\<rparr>\<rparr>)
         else Inr (False, db\<lparr>c_runs := sql_update p (\<lambda>r. r\<lparr>rn_lease_expires := Some expires, rn_updated := now\<rparr>) (c_runs db)\<rparr>))"

text \<open>\<^verbatim>\<open>transitionAgentRun\<close>\<close>

record transition_input =
  tr_claim :: run_claim
  tr_awaiting :: bool
  tr_to :: run_status
  tr_error_code :: "string option"
  tr_error_message :: "string option"
  tr_available :: "int option"

text \<open>The \<^verbatim>\<open>from\<close> of a transition is \<^verbatim>\<open>running\<close> or \<^verbatim>\<open>awaiting_approval\<close>.\<close>

definition tr_from :: "transition_input \<Rightarrow> run_status" where
  "tr_from tr = (if tr_awaiting tr then R_awaiting else R_running)"

definition transition_allowed :: "run_status \<Rightarrow> run_status \<Rightarrow> bool" where
  "transition_allowed from_status to_status =
     (if from_status = R_running then to_status \<noteq> R_running
      else to_status = R_running \<or> to_status = R_cancelled \<or> to_status = R_recovery)"

definition transition_terminal :: "transition_input \<Rightarrow> terminal_input" where
  "transition_terminal tr = \<lparr>ti_run = cl_run (tr_claim tr), ti_owner = Some (cl_owner (tr_claim tr)),
     ti_expected = Some \<lparr>ex_statuses = [tr_from tr], ex_sequence = None,
        ex_lease_owner = Some (Some (cl_worker (tr_claim tr))), ex_lease_token = Some (Some (cl_token (tr_claim tr)))\<rparr>,
     ti_status = tr_to tr, ti_assistant = None, ti_event = [], ti_quota = None, ti_patch = no_patch,
     ti_error_code = tr_error_code tr, ti_error_message = tr_error_message tr, ti_cancel = None\<rparr>"

definition transition :: "run_env \<Rightarrow> (js_value \<Rightarrow> js_value result) \<Rightarrow> transition_input \<Rightarrow> int \<Rightarrow> (coord_db, run_row) tx" where
  "transition env validate tr now db =
     (if \<not> transition_allowed (tr_from tr) (tr_to tr) then Inl (Coded ''INVALID_RUN_TRANSITION'' 400)
      else if terminal_status (tr_to tr) then terminalize env validate (transition_terminal tr) now db
      else let p = (\<lambda>r. holds_run (tr_claim tr) r \<and> rn_status r = tr_from tr);
               runs = sql_update p (\<lambda>r. r\<lparr>rn_status := tr_to tr, rn_updated := now, rn_error_code := tr_error_code tr,
                  rn_error_message := tr_error_message tr, rn_completed := None,
                  rn_available := (if tr_to tr = R_queued then option_or (tr_available tr) now else rn_available r)\<rparr>) (c_runs db)
           in if sql_count p (c_runs db) \<noteq> 1 then Inl lease_lost
              else (case sql_first (\<lambda>r. rn_id r = cl_run (tr_claim tr)) runs of
                      None \<Rightarrow> Inl corrupt_run
                    | Some row \<Rightarrow> rbind (run_record row) (\<lambda>r. Inr (r, db\<lparr>c_runs := runs\<rparr>))))"

text \<open>\<^verbatim>\<open>markAgentRunSideEffectsStarted\<close>\<close>

definition mark_side_effects :: "run_claim \<Rightarrow> int \<Rightarrow> (coord_db, unit) tx" where
  "mark_side_effects cl now db =
     (let p = (\<lambda>r. holds_run cl r \<and> rn_status r = R_running \<and> rn_cancel r = None)
      in if sql_count p (c_runs db) \<noteq> 1 then Inl lease_lost
         else Inr ((), db\<lparr>c_runs := sql_update p (\<lambda>r. r\<lparr>rn_side_effects := True, rn_updated := now\<rparr>) (c_runs db)\<rparr>))"

text \<open>\<^verbatim>\<open>requestAgentRunCancellation\<close>\<close>

definition cancellation_of :: "run_row \<Rightarrow> int \<Rightarrow> terminal_input" where
  "cancellation_of r now = (terminal_of r R_cancelled None None)\<lparr>ti_cancel := Some now\<rparr>"

definition request_cancellation ::
  "run_env \<Rightarrow> (js_value \<Rightarrow> js_value result) \<Rightarrow> int \<Rightarrow> string \<Rightarrow> int \<Rightarrow> (coord_db, run_row) tx" where
  "request_cancellation env validate owner run now db = (case sql_first (run_of run (Some owner)) (c_runs db) of
      None \<Rightarrow> Inl run_not_found
    | Some row \<Rightarrow>
        if terminal_status (rn_status row) then rbind (run_record row) (\<lambda>r. Inr (r, db))
        else if \<not> (rn_status row = R_running \<and> rn_lease_token row \<noteq> None \<and> rn_lease_expires row \<noteq> None
                  \<and> \<not> expired now (rn_lease_expires row))
        then terminalize env validate (cancellation_of row now) now db
        else let p = (\<lambda>r. rn_id r = run \<and> rn_status r = R_running \<and> rn_sequence r = rn_sequence row
                       \<and> rn_lease_token r = rn_lease_token row \<and> rn_cancel r = None)
             in if sql_count p (c_runs db) \<noteq> 1 then Inl run_fence_changed
                else rbind (run_record (row\<lparr>rn_cancel := Some now\<rparr>)) (\<lambda>r.
                  Inr (r, db\<lparr>c_runs := sql_update p (\<lambda>q. q\<lparr>rn_cancel := Some now, rn_updated := now\<rparr>) (c_runs db)\<rparr>)))"

section \<open>Continuations of a leased run\<close>

record continuation_input =
  ci_run :: string
  ci_owner :: int
  ci_attempt :: int
  ci_token :: string
  ci_call :: string
  ci_action :: string
  ci_input :: js_value
  ci_proposal :: string
  ci_approval :: string
  ci_hash :: string
  ci_authority :: string

definition new_checkpoint :: "run_env \<Rightarrow> continuation_input \<Rightarrow> checkpoint result" where
  "new_checkpoint env i = (case canonical_json env (ci_input i) of
      None \<Rightarrow> Inl Plain_error
    | Some s \<Rightarrow>
        let c = \<lparr>cp_run = ci_run i, cp_owner = ci_owner i, cp_attempt = ci_attempt i, cp_call = ci_call i,
              cp_action = ci_action i, cp_input = ci_input i, cp_input_sha = env_sha env s, cp_proposal = ci_proposal i,
              cp_approval = ci_approval i, cp_proposal_hash = JStr (ci_hash i), cp_authority_sha = JStr (ci_authority i), cp_sha = []\<rparr>
        in case checkpoint_hash env c of None \<Rightarrow> Inl Plain_error | Some h \<Rightarrow> Inr (c\<lparr>cp_sha := h\<rparr>))"

text \<open>\<^verbatim>\<open>persistAgentApprovalContinuation\<close>\<close>

definition persist_continuation :: "run_env \<Rightarrow> continuation_input \<Rightarrow> int \<Rightarrow> (coord_db, unit) tx" where
  "persist_continuation env i now db =
     rbind (new_checkpoint env i) (\<lambda>c.
     case canonical_json env (checkpoint_value c) of
       None \<Rightarrow> Inl Plain_error
     | Some encoded \<Rightarrow>
     if utf8_bytes encoded > max_continuation_bytes then Inl continuation_too_large
     else
     let p = (\<lambda>r. rn_id r = ci_run i \<and> rn_owner r = ci_owner i \<and> rn_attempts r = ci_attempt i
                \<and> rn_lease_token r = Some (ci_token i) \<and> rn_status r = R_running \<and> rn_cancel r = None)
     in case sql_first p (c_runs db) of
       None \<Rightarrow> Inl lease_lost
     | Some run \<Rightarrow>
         rbind (assert_ledger env (c_proposals db) (c_approvals db) c) (\<lambda>_.
         rbind (read_runtime env (rn_runtime run)) (\<lambda>st.
         rbind (decode_continuation env st) (\<lambda>prior.
         if (\<exists>q. prior = Some q \<and> cp_sha q \<noteq> cp_sha c) then Inl (Coded ''AGENT_ACTION_CONTINUATION_EXISTS'' 409)
         else rbind (encode_runtime env (state_set continuation_key (checkpoint_value c) st)) (\<lambda>stored.
         if sql_count p (c_runs db) \<noteq> 1 then Inl lease_lost
         else Inr ((), db\<lparr>c_runs := sql_update p (\<lambda>r. r\<lparr>rn_runtime := Some stored, rn_status := R_awaiting, rn_updated := now\<rparr>)
                (c_runs db)\<rparr>))))))"

definition holds_continuation :: "run_claim \<Rightarrow> run_row \<Rightarrow> bool" where
  "holds_continuation cl r = (holds_run cl r \<and> rn_owner r = cl_owner cl \<and> rn_attempts r = cl_attempts cl
     \<and> (rn_status r = R_running \<or> rn_status r = R_awaiting))"

text \<open>\<^verbatim>\<open>readAgentApprovalContinuation\<close>\<close>

definition read_continuation :: "run_env \<Rightarrow> run_claim \<Rightarrow> coord_db \<Rightarrow> checkpoint option result" where
  "read_continuation env cl db = (case sql_first (\<lambda>r. holds_continuation cl r \<and> rn_cancel r = None) (c_runs db) of
      None \<Rightarrow> Inl lease_lost
    | Some row \<Rightarrow>
        rbind (read_runtime env (rn_runtime row)) (\<lambda>st.
        rbind (decode_continuation env st) (\<lambda>c. case c of
          None \<Rightarrow> Inr None
        | Some cp \<Rightarrow>
            if cp_run cp \<noteq> cl_run cl \<or> cp_owner cp \<noteq> cl_owner cl \<or> cp_attempt cp \<noteq> cl_attempts cl
            then Inl continuation_mismatch
            else rbind (assert_ledger env (c_proposals db) (c_approvals db) cp) (\<lambda>_. Inr (Some cp)))))"

text \<open>\<^verbatim>\<open>clearAgentApprovalContinuation\<close>\<close>

definition clear_continuation :: "run_env \<Rightarrow> run_claim \<Rightarrow> int \<Rightarrow> (coord_db, unit) tx" where
  "clear_continuation env cl now db = (case sql_first (holds_continuation cl) (c_runs db) of
      None \<Rightarrow> Inl lease_lost
    | Some run \<Rightarrow>
        rbind (read_runtime env (rn_runtime run)) (\<lambda>st.
        rbind (decode_continuation env st) (\<lambda>c.
        if c = None then Inr ((), db)
        else let rest = state_remove continuation_key st in
        rbind (if rest = [] then Inr None else rbind (encode_runtime env rest) (\<lambda>s. Inr (Some s))) (\<lambda>stored.
        if sql_count (holds_continuation cl) (c_runs db) \<noteq> 1 then Inl lease_lost
        else Inr ((), db\<lparr>c_runs := sql_update (holds_continuation cl) (\<lambda>r. r\<lparr>rn_runtime := stored, rn_updated := now\<rparr>)
               (c_runs db)\<rparr>)))))"

end
