(* ===== verification/RunAdmission.thy ===== *)
theory RunAdmission
  imports RunLeases
begin

text \<open>
  Admission of an agent run (\<^verbatim>\<open>admitAgentRunInTransaction\<close> and \<^verbatim>\<open>recoverAgentRunInTransaction\<close> of
  \<^verbatim>\<open>server/agents/coordinator.ts\<close>, \<^verbatim>\<open>bindAgentMedia\<close> of \<^verbatim>\<open>server/agents/media.ts\<close>). The identifiers
  the source draws at random are part of the input. The lookups of \<^verbatim>\<open>media-providers.ts\<close> are
  arguments. A failing uniqueness constraint of the table \<^verbatim>\<open>agentRuns\<close> is \<^term>\<open>Plain_error\<close>.
\<close>

section \<open>Input\<close>

record admission =
  ad_run :: string
  ad_user_message :: string
  ad_assistant :: string
  ad_goal :: "string option"
  ad_continuation :: "js_num option"
  ad_user_visible :: "bool option"
  ad_assistant_visible :: "bool option"
  ad_attachments :: "string list option"
  ad_media_request :: "string option"
  ad_owner :: int
  ad_session :: string
  ad_request :: string
  ad_payload_sha :: "string option"
  ad_version :: int
  ad_resolution :: string
  ad_content :: string
  ad_preset :: "string option"
  ad_page :: "js_value option"
  ad_knowledge :: "js_value option"
  ad_bindings :: js_value
  ad_tools :: js_value
  ad_spec :: run_spec
  ad_skills :: "string list"
  ad_quota :: quota_amount
  ad_limits :: quota_amount
  ad_max_attempts :: "int option"
  ad_expires :: int

definition generation_tools :: "string list" where
  "generation_tools = [''image'', ''video'', ''music'']"

definition media_kinds :: "string list" where
  "media_kinds = [''image'', ''video'', ''music'', ''transcription'']"

text \<open>\<^verbatim>\<open>normalizeAgentGenerationTools\<close>: undefined stays undefined.\<close>

definition normalize_tools :: "js_value \<Rightarrow> string list option result" where
  "normalize_tools v = (case v of
      JUndefined \<Rightarrow> Inr None
    | JArr vs \<Rightarrow>
        if length vs > length generation_tools \<or> \<not> distinct vs \<or> list_ex (\<lambda>t. t \<notin> JStr ` set generation_tools) vs
        then Inl (Coded ''INVALID_GENERATION_TOOLS'' 400)
        else Inr (Some (filter (\<lambda>t. JStr t \<in> set vs) generation_tools))
    | _ \<Rightarrow> Inl (Coded ''INVALID_GENERATION_TOOLS'' 400))"

text \<open>\<^verbatim>\<open>normalizeAgentMediaBindings\<close>: a strict object of optional UUIDs, in the order of the kinds.\<close>

definition binding_ok :: "(string \<Rightarrow> bool) \<Rightarrow> js_value \<Rightarrow> bool" where
  "binding_ok uuid v = (case v of JUndefined \<Rightarrow> True | JStr s \<Rightarrow> uuid s | _ \<Rightarrow> False)"

definition normalize_bindings :: "(string \<Rightarrow> bool) \<Rightarrow> js_value \<Rightarrow> (string \<times> string) list option result" where
  "normalize_bindings uuid v = (case v of
      JUndefined \<Rightarrow> Inr None
    | JObj ps \<Rightarrow>
        if list_ex (\<lambda>(k, _). k \<notin> set media_kinds) ps \<or> list_ex (\<lambda>k. \<not> binding_ok uuid (js_get k v)) media_kinds
        then Inl (Coded ''INVALID_AGENT_MEDIA_BINDINGS'' 400)
        else Inr (Some (concat (map (\<lambda>k. case js_get k v of JStr s \<Rightarrow> [(k, s)] | _ \<Rightarrow> []) media_kinds)))
    | _ \<Rightarrow> Inl (Coded ''INVALID_AGENT_MEDIA_BINDINGS'' 400))"

section \<open>The admission envelope\<close>

definition opt_field :: "string \<Rightarrow> ('a \<Rightarrow> js_value) \<Rightarrow> 'a option \<Rightarrow> (string \<times> js_value) list" where
  "opt_field k f v = (case v of None \<Rightarrow> [] | Some x \<Rightarrow> [(k, f x)])"

definition or_null :: "('a \<Rightarrow> js_value) \<Rightarrow> 'a option \<Rightarrow> js_value" where
  "or_null f v = (case v of None \<Rightarrow> JNull | Some x \<Rightarrow> f x)"

definition js_strings :: "string list \<Rightarrow> js_value" where
  "js_strings ss = JArr (map JStr ss)"

definition js_int :: "int \<Rightarrow> js_value" where
  "js_int i = JNum (Whole i)"

definition js_bindings :: "(string \<times> string) list \<Rightarrow> js_value" where
  "js_bindings bs = JObj (map (\<lambda>(k, s). (k, JStr s)) bs)"

definition admission_envelope :: "admission \<Rightarrow> string list option \<Rightarrow> (string \<times> string) list \<Rightarrow> js_value" where
  "admission_envelope i tools bindings = JObj (
     [(''sessionId'', JStr (ad_session i)), (''clientRequestId'', JStr (ad_request i)),
      (''expectedSessionVersion'', js_int (ad_version i)), (''profileResolutionSha256'', JStr (ad_resolution i)),
      (''goalId'', or_null JStr (ad_goal i)), (''goalContinuation'', or_null JNum (ad_continuation i)),
      (''userMessageVisible'', JBool (option_or (ad_user_visible i) True))]
     @ (case ad_attachments i of Some (a # as) \<Rightarrow> [(''attachmentIds'', js_strings (a # as))] | _ \<Rightarrow> [])
     @ opt_field ''mediaRequest'' (\<lambda>k. JObj [(''kind'', JStr k)]) (ad_media_request i)
     @ [(''mediaBindings'', js_bindings bindings), (''content'', JStr (ad_content i))]
     @ opt_field ''presetId'' JStr (ad_preset i)
     @ opt_field ''generationTools'' js_strings tools
     @ [(''currentPage'', or_null id (ad_page i))]
     @ opt_field ''knowledgeContext'' id (ad_knowledge i)
     @ [(''providerProfileVersionId'', JStr (sp_profile_version (ad_spec i))), (''transportKind'', JStr (sp_transport (ad_spec i))),
        (''model'', JStr (sp_model (ad_spec i))), (''executionMode'', JStr (sp_mode (ad_spec i)))]
     @ (if sp_google (ad_spec i) then [(''googleSearchEnabled'', JBool True)] else [])
     @ [(''profilePolicyVersion'', js_int (sp_policy (ad_spec i))), (''defaultGeneration'', js_int (sp_generation (ad_spec i))),
        (''capabilityRevision'', JStr (sp_capability (ad_spec i))), (''pricingRevision'', JStr (sp_pricing (ad_spec i))),
        (''promptVersion'', js_int (sp_prompt (ad_spec i))), (''skillVersionIds'', js_strings (ad_skills i)),
        (''quota'', JObj [(''tokens'', JNum (qa_tokens (ad_quota i))), (''costMicros'', JNum (qa_cost (ad_quota i)))])])"

text \<open>\<^verbatim>\<open>queuedEventData\<close>\<close>

definition queued_event :: "admission \<Rightarrow> string list option \<Rightarrow> (string \<times> string) list \<Rightarrow> string \<Rightarrow> js_value" where
  "queued_event i tools bindings hash = JObj (
     [(''runId'', JStr (ad_run i)), (''status'', JStr ''queued'')]
     @ opt_field ''clientRequestIdentity'' (\<lambda>p. JObj [(''version'', js_int 1), (''payloadSha256'', JStr p),
          (''admissionSha256'', JStr hash)]) (ad_payload_sha i)
     @ opt_field ''presetId'' JStr (ad_preset i)
     @ opt_field ''generationTools'' js_strings tools
     @ [(''mediaBindings'', js_bindings bindings)]
     @ opt_field ''currentPage'' id (ad_page i)
     @ opt_field ''knowledgeContext'' id (ad_knowledge i))"

section \<open>Attachments\<close>

definition invalid_media :: js_error where
  "invalid_media = Coded ''INVALID_AGENT_MEDIA'' 400"

text \<open>One attachment of \<^verbatim>\<open>bindAgentMedia\<close>.\<close>

definition bind_attachment ::
  "int \<Rightarrow> string \<Rightarrow> string \<Rightarrow> string \<Rightarrow> bool \<Rightarrow> int \<Rightarrow> string \<Rightarrow> media_row list \<Rightarrow> media_row list result" where
  "bind_attachment owner session message run transcription now i media =
     (case sql_first (\<lambda>m. md_id m = i \<and> md_owner m = owner \<and> md_session m = session \<and> md_kind m = ''attachment''
              \<and> md_message m = None \<and> (case md_expires m of None \<Rightarrow> False | Some e \<Rightarrow> e > now)) media of
        None \<Rightarrow> Inl (Coded ''AGENT_MEDIA_UNAVAILABLE'' 409)
      | Some m \<Rightarrow>
          if transcription \<and> \<not> starts_with (md_mime m) ''audio/'' then Inl invalid_media
          else Inr (sql_update (\<lambda>m. md_id m = i)
                (\<lambda>m. m\<lparr>md_message := Some message, md_run := Some run, md_expires := None\<rparr>) media))"

definition bind_media ::
  "int \<Rightarrow> string \<Rightarrow> string list \<Rightarrow> string \<Rightarrow> string \<Rightarrow> bool \<Rightarrow> int \<Rightarrow> media_row list \<Rightarrow> media_row list result" where
  "bind_media owner session ids message run transcription now media =
     (if length ids > 4 \<or> \<not> distinct ids then Inl invalid_media
      else rfold (bind_attachment owner session message run transcription now) ids media)"

section \<open>Admission\<close>

record media_lookup =
  me_list :: "int \<Rightarrow> (string \<times> string) list result"
  me_assert :: "int \<Rightarrow> string \<Rightarrow> string \<Rightarrow> unit result"

text \<open>The media bindings of a run: those of the request or the owner's current ones, checked.\<close>

definition admitted_bindings :: "run_env \<Rightarrow> media_lookup \<Rightarrow> admission \<Rightarrow> string list option \<Rightarrow> (string \<times> string) list result" where
  "admitted_bindings env media i tools =
     rbind (normalize_bindings (env_uuid env) (ad_bindings i)) (\<lambda>given.
     rbind (case given of Some bs \<Rightarrow> Inr bs | None \<Rightarrow> me_list media (ad_owner i)) (\<lambda>bindings.
     if (\<exists>k. ad_media_request i = Some k \<and> k \<notin> set media_kinds) then Inl Plain_error
     else if list_ex (\<lambda>k. map_of bindings k = None \<or> map_of bindings k = Some [])
               (option_or tools [] @ (case ad_media_request i of None \<Rightarrow> [] | Some k \<Rightarrow> [k]))
     then Inl (Coded ''AGENT_MEDIA_DISABLED'' 403)
     else rbind (rfold (\<lambda>k u. case map_of bindings k of None \<Rightarrow> Inr () | Some version \<Rightarrow> me_assert media (ad_owner i) k version)
                   media_kinds ()) (\<lambda>_. Inr bindings)))"

text \<open>The checks of an admission before it touches the database.\<close>

definition goal_invalid :: "admission \<Rightarrow> bool" where
  "goal_invalid i = ((ad_goal i = None) \<noteq> (ad_continuation i = None)
     \<or> (case ad_continuation i of None \<Rightarrow> False | Some n \<Rightarrow> \<not> is_safe_integer n \<or> (case n of Whole c \<Rightarrow> c < 0 | _ \<Rightarrow> True)))"

definition checked_admission ::
  "run_env \<Rightarrow> media_lookup \<Rightarrow> admission \<Rightarrow> (string list option \<times> (string \<times> string) list \<times> string) result" where
  "checked_admission env media i =
     rbind (normalize_tools (ad_tools i)) (\<lambda>tools.
     if option_or tools [] \<noteq> [] \<and> sp_mode (ad_spec i) \<noteq> ''agent'' then Inl (Coded ''INVALID_GENERATION_TOOLS'' 400)
     else if (\<exists>p. ad_payload_sha i = Some p \<and> \<not> is_hex 64 p) then Inl (Coded ''INVALID_CLIENT_REQUEST_IDENTITY'' 400)
     else rbind (admitted_bindings env media i tools) (\<lambda>bindings.
     if \<not> is_hex 64 (ad_resolution i) then Inl (Coded ''INVALID_PROFILE_RESOLUTION'' 400)
     else if length (ad_content i) < 1 \<or> length (ad_content i) > 32000 then Inl (Coded ''INVALID_AGENT_MESSAGE'' 400)
     else if goal_invalid i then Inl (Coded ''INVALID_AGENT_GOAL'' 400)
     else case canonical_json env (admission_envelope i tools bindings) of
            None \<Rightarrow> Inl Plain_error
          | Some s \<Rightarrow> Inr (tools, bindings, env_sha env s)))"

definition consent_of :: "js_value \<Rightarrow> bool" where
  "consent_of v = (v = JBool True \<or> v = js_int 1)"

definition consent_valid :: "js_value \<Rightarrow> bool" where
  "consent_valid v = (v \<in> {JUndefined, JNull, JBool True, JBool False, js_int 0, js_int 1})"

text \<open>The session a run is admitted to.\<close>

definition admission_session :: "admission \<Rightarrow> coord_db \<Rightarrow> unit result" where
  "admission_session i db =
     (case sql_first (\<lambda>s. sn_id s = ad_session i \<and> sn_owner s = ad_owner i \<and> sn_deleted s = None) (c_sessions db) of
        None \<Rightarrow> Inl run_not_found
      | Some s \<Rightarrow>
          if sn_version s \<noteq> ad_version i then Inl (Coded ''SESSION_VERSION_CHANGED'' 409)
          else if \<not> consent_valid (sn_google s) \<or> consent_of (sn_google s) \<noteq> sp_google (ad_spec i)
          then Inl (Coded ''GOOGLE_SEARCH_CONSENT_CHANGED'' 409)
          else if list_ex (\<lambda>r. rn_session r = ad_session i \<and> active_status (rn_status r)) (c_runs db)
          then Inl (Coded ''SESSION_RUN_ACTIVE'' 409)
          else Inr ())"

text \<open>\<^verbatim>\<open>nextMessageOrdinal\<close>\<close>

definition next_ordinal :: "string \<Rightarrow> message_row list \<Rightarrow> int" where
  "next_ordinal session messages =
     (case map ms_ordinal (filter (\<lambda>m. ms_session m = session) messages) of
        [] \<Rightarrow> 1 | n # ns \<Rightarrow> fold max ns n + 1)"

definition new_message :: "admission \<Rightarrow> string \<Rightarrow> int \<Rightarrow> string \<Rightarrow> message_status \<Rightarrow> string \<Rightarrow> bool option \<Rightarrow> int \<Rightarrow> message_row" where
  "new_message i mid ordinal role status content visible now = \<lparr>ms_id = mid, ms_session = ad_session i, ms_run = None,
     ms_ordinal = ordinal, ms_role = role, ms_status = status, ms_content = content, ms_citations = None, ms_grounding = None,
     ms_provider_state = None, ms_provider_sha = None, ms_visible = option_or visible True, ms_created = now, ms_updated = now\<rparr>"

definition continuation_int :: "js_num option \<Rightarrow> int option" where
  "continuation_int n = (case n of Some (Whole c) \<Rightarrow> Some c | _ \<Rightarrow> None)"

definition new_run :: "run_env \<Rightarrow> admission \<Rightarrow> string \<Rightarrow> string option \<Rightarrow> int \<Rightarrow> run_row" where
  "new_run env i hash media now = \<lparr>rn_id = ad_run i, rn_owner = ad_owner i, rn_status = R_queued, rn_sequence = 1,
     rn_lease_owner = None, rn_lease_token = None, rn_session = ad_session i, rn_user_message = ad_user_message i,
     rn_assistant = ad_assistant i, rn_request = ad_request i, rn_request_sha = hash, rn_resolution = ad_resolution i,
     rn_goal = ad_goal i, rn_continuation = continuation_int (ad_continuation i), rn_media = media, rn_spec = ad_spec i,
     rn_attempts = 0, rn_max_attempts = option_or (ad_max_attempts i) 3, rn_available = now, rn_queued = now,
     rn_started = None, rn_updated = now, rn_completed = None, rn_lease_expires = None, rn_cancel = None,
     rn_side_effects = False, rn_input = 0, rn_output = 0, rn_total = 0, rn_cost = None, rn_outcome = None,
     rn_assessment = None, rn_assessment_sha = None, rn_error_code = None, rn_error_message = None, rn_runtime = None\<rparr>"

text \<open>The uniqueness constraints of the inserted rows.\<close>

definition fresh_admission :: "admission \<Rightarrow> coord_db \<Rightarrow> bool" where
  "fresh_admission i db = (ad_run i \<notin> rn_id ` set (c_runs db)
     \<and> list_all (\<lambda>r. rn_session r \<noteq> ad_session i \<or> rn_request r \<noteq> ad_request i) (c_runs db)
     \<and> ad_user_message i \<noteq> ad_assistant i
     \<and> ad_user_message i \<notin> ms_id ` set (c_messages db) \<and> ad_assistant i \<notin> ms_id ` set (c_messages db))"

text \<open>The rows of the conversation: the user's message and the pending answer, bound to the run.\<close>

definition with_messages :: "admission \<Rightarrow> int \<Rightarrow> message_row list \<Rightarrow> message_row list" where
  "with_messages i now messages =
     (let ordinal = next_ordinal (ad_session i) messages
      in sql_update (\<lambda>m. ms_id m = ad_user_message i \<or> ms_id m = ad_assistant i) (\<lambda>m. m\<lparr>ms_run := Some (ad_run i)\<rparr>)
           (messages @ [new_message i (ad_user_message i) ordinal ''user'' M_complete (ad_content i) (ad_user_visible i) now,
                        new_message i (ad_assistant i) (ordinal + 1) ''assistant'' M_pending [] (ad_assistant_visible i) now]))"

definition media_request_text :: "run_env \<Rightarrow> admission \<Rightarrow> string option result" where
  "media_request_text env i = (case ad_media_request i of
      None \<Rightarrow> Inr None
    | Some k \<Rightarrow> (case canonical_json env (JObj [(''kind'', JStr k)]) of None \<Rightarrow> Inl Plain_error | Some s \<Rightarrow> Inr (Some s)))"

definition queued_row :: "run_env \<Rightarrow> admission \<Rightarrow> string \<Rightarrow> int \<Rightarrow> event_row" where
  "queued_row env i data now = \<lparr>et_data = data, et_sha = env_sha env data, ev_run = ad_run i, ev_sequence = 1,
     ev_type = ''run.queued'', ev_attempt = 0, ev_created = now\<rparr>"

text \<open>The writes of an admission. A JSON text of a one-property object is its canonical text.\<close>

definition insert_run ::
  "run_env \<Rightarrow> admission \<Rightarrow> string list option \<Rightarrow> (string \<times> string) list \<Rightarrow> string \<Rightarrow> int \<Rightarrow> (coord_db, run_row) tx" where
  "insert_run env i tools bindings hash now db =
     (if \<not> fresh_admission i db then Inl Plain_error
      else
      rbind (media_request_text env i) (\<lambda>media.
      rbind (case ad_attachments i of
               Some (a # as) \<Rightarrow> bind_media (ad_owner i) (ad_session i) (a # as) (ad_user_message i) (ad_run i)
                                 (ad_media_request i = Some ''transcription'') now (c_media db)
             | _ \<Rightarrow> Inr (c_media db)) (\<lambda>bound.
      rbind (reserve_quota (ad_run i) (ad_owner i) (ad_quota i) (ad_limits i) now (ad_expires i) (c_quota db)) (\<lambda>(_, quota).
      case canonical_json env (queued_event i tools bindings hash) of
        None \<Rightarrow> Inl Plain_error
      | Some data \<Rightarrow>
      rbind (run_record (new_run env i hash media now)) (\<lambda>r.
      Inr (r, db\<lparr>
        c_runs := sql_insert r (c_runs db),
        c_messages := with_messages i now (c_messages db),
        c_media := bound,
        c_skills := c_skills db @ map (\<lambda>(n, s). (ad_run i, s, n)) (enumerate 0 (ad_skills i)),
        c_quota := quota,
        c_events := c_events db @ [queued_row env i data now],
        c_sessions := sql_update (\<lambda>s. sn_id s = ad_session i) (\<lambda>s. s\<lparr>sn_activity := now, sn_updated := now\<rparr>) (c_sessions db)\<rparr>))))))"

definition retried_run :: "admission \<Rightarrow> run_row \<Rightarrow> bool" where
  "retried_run i r = (rn_session r = ad_session i \<and> rn_request r = ad_request i \<and> rn_owner r = ad_owner i)"

text \<open>\<^verbatim>\<open>admitAgentRunInTransaction\<close>: the run, and whether it is a replay.\<close>

definition admit_run :: "run_env \<Rightarrow> media_lookup \<Rightarrow> admission \<Rightarrow> int \<Rightarrow> (coord_db, run_row \<times> bool) tx" where
  "admit_run env media i now db =
     rbind (checked_admission env media i) (\<lambda>(tools, bindings, hash).
     case sql_first (retried_run i) (c_runs db) of
       Some retry \<Rightarrow>
         if rn_request_sha retry \<noteq> hash then Inl (Coded ''RUN_IDEMPOTENCY_MISMATCH'' 409)
         else rbind (run_record retry) (\<lambda>r. Inr ((r, True), db))
     | None \<Rightarrow>
         rbind (admission_session i db) (\<lambda>_.
         rbind (insert_run env i tools bindings hash now db) (\<lambda>(r, db'). Inr ((r, False), db'))))"

section \<open>Recovery of a request\<close>

definition replay_unavailable :: js_error where
  "replay_unavailable = Coded ''RUN_REPLAY_UNAVAILABLE'' 409"

text \<open>The proof of the client's request in a queued event.\<close>

definition identity_valid :: "js_value \<Rightarrow> string \<Rightarrow> bool" where
  "identity_valid identity hash = (js_is_record identity \<and> js_get ''version'' identity = js_int 1
     \<and> (case js_get ''payloadSha256'' identity of JStr p \<Rightarrow> is_hex 64 p | _ \<Rightarrow> False)
     \<and> js_get ''admissionSha256'' identity = JStr hash)"

definition recover_run ::
  "run_env \<Rightarrow> int \<Rightarrow> string \<Rightarrow> string \<Rightarrow> string \<Rightarrow> coord_db \<Rightarrow> run_row option result" where
  "recover_run env owner session request payload db =
     (case sql_first (\<lambda>r. rn_owner r = owner \<and> rn_session r = session \<and> rn_request r = request) (c_runs db) of
        None \<Rightarrow> Inr None
      | Some row \<Rightarrow>
     (case sql_first (\<lambda>e. ev_run e = rn_id row \<and> ev_type e = ''run.queued'' \<and> ev_sequence e = 1) (c_events db) of
        None \<Rightarrow> Inl replay_unavailable
      | Some queued \<Rightarrow>
          if env_sha env (et_data queued) \<noteq> et_sha queued then Inl event_corrupt
          else (case env_parse env (et_data queued) of
              None \<Rightarrow> Inl event_corrupt
            | Some data \<Rightarrow>
                if \<not> js_is_record data \<or> js_get ''runId'' data \<noteq> JStr (rn_id row) then Inl event_corrupt
                else let identity = js_get ''clientRequestIdentity'' data in
                  if identity = JUndefined then Inl replay_unavailable
                  else if \<not> identity_valid identity (rn_request_sha row) then Inl event_corrupt
                  else if js_get ''payloadSha256'' identity \<noteq> JStr payload then Inl (Coded ''RUN_IDEMPOTENCY_MISMATCH'' 409)
                  else rbind (run_record row) (\<lambda>r. Inr (Some r)))))"

end
