(* ===== verification/RunJournal.thy ===== *)
theory RunJournal
  imports AgentRuns
begin

text \<open>
  The event journal of a run (\<^verbatim>\<open>appendAgentEvent\<close> and \<^verbatim>\<open>listOwnedAgentEvents\<close> of
  \<^verbatim>\<open>server/agents/repository.ts\<close>): every event takes the next number of its run in the same
  transaction that raises the run's counter. Callers pass a fresh random identifier, so the branch
  for a repeated identifier is left out, and so are the two kinds of memory receipts with checks of
  their own.
\<close>

definition invalid_event :: js_error where
  "invalid_event = Coded ''INVALID_AGENT_EVENT'' 400"

definition resource_not_found :: js_error where
  "resource_not_found = Coded ''AGENT_RESOURCE_NOT_FOUND'' 404"

text \<open>\<^verbatim>\<open>validatedEventData\<close>\<close>

definition event_payload :: "run_env \<Rightarrow> js_value \<Rightarrow> string result" where
  "event_payload env data = (case canonical_json env data of
      None \<Rightarrow> Inl invalid_event
    | Some encoded \<Rightarrow> if 65536 < utf8_bytes encoded then Inl invalid_event else Inr encoded)"

definition next_event :: "run_env \<Rightarrow> run_row \<Rightarrow> string \<Rightarrow> int \<Rightarrow> string \<Rightarrow> int \<Rightarrow> event_row" where
  "next_event env r kind attempt encoded now = \<lparr>et_data = encoded, et_sha = env_sha env encoded, ev_run = rn_id r,
     ev_sequence = rn_sequence r + 1, ev_type = kind, ev_attempt = attempt, ev_created = now\<rparr>"

text \<open>The row of a run for an owner, under a lease when one is given.\<close>

definition journal_run :: "string \<Rightarrow> int \<Rightarrow> string option \<Rightarrow> run_row \<Rightarrow> bool" where
  "journal_run run owner token r = (rn_id r = run \<and> rn_owner r = owner \<and> (token = None \<or> rn_lease_token r = token))"

text \<open>\<^verbatim>\<open>appendAgentEvent\<close>\<close>

definition append_event ::
  "run_env \<Rightarrow> string \<Rightarrow> int \<Rightarrow> string option \<Rightarrow> string \<Rightarrow> int \<Rightarrow> js_value \<Rightarrow> int \<Rightarrow> (coord_db, event_row) tx" where
  "append_event env run owner token kind attempt data now db =
     (if \<not> safe_int attempt \<or> attempt < 0 then Inl invalid_event
      else rbind (event_payload env data) (\<lambda>encoded.
        case sql_first (journal_run run owner token) (c_runs db) of
          None \<Rightarrow> Inl resource_not_found
        | Some r \<Rightarrow>
            let e = next_event env r kind attempt encoded now;
                current = (\<lambda>q. journal_run run owner token q \<and> rn_sequence q = rn_sequence r)
            in if sql_count current (c_runs db) \<noteq> 1 then Inl (Coded ''AGENT_EVENT_SEQUENCE_CHANGED'' 409)
               else Inr (e, db\<lparr>c_events := c_events db @ [e],
                      c_runs := sql_update current (\<lambda>q. q\<lparr>rn_sequence := ev_sequence e, rn_updated := now\<rparr>) (c_runs db)\<rparr>)))"

text \<open>The loop of \<^verbatim>\<open>listOwnedAgentEvents\<close> that looks for gaps.\<close>

fun gapless :: "int \<Rightarrow> event_row list \<Rightarrow> bool" where
  "gapless expected [] = True"
| "gapless expected (e # es) = (ev_sequence e = expected \<and> gapless (expected + 1) es)"

definition list_events :: "int \<Rightarrow> string \<Rightarrow> int \<Rightarrow> int \<Rightarrow> coord_db \<Rightarrow> event_row list result" where
  "list_events owner run after limit db =
     (if \<not> safe_int after \<or> after < 0 \<or> \<not> safe_int limit then Inl (Coded ''INVALID_EVENT_CURSOR'' 400)
      else if \<not> list_ex (\<lambda>r. rn_id r = run \<and> rn_owner r = owner) (c_runs db) then Inl resource_not_found
      else let rows = take (nat (max 1 (min 1000 limit))) (sort_key ev_sequence (filter (\<lambda>e. ev_run e = run \<and> after < ev_sequence e) (c_events db)))
        in if gapless (after + 1) rows then Inr rows else Inl (Coded ''AGENT_EVENT_SEQUENCE_GAP'' 500))"

section \<open>Journals without gaps\<close>

definition run_events :: "string \<Rightarrow> coord_db \<Rightarrow> event_row list" where
  "run_events run db = filter (\<lambda>e. ev_run e = run) (c_events db)"

text \<open>The events of every run are numbered from one to the run's counter, in the order of the table.\<close>

definition journal_ok :: "coord_db \<Rightarrow> bool" where
  "journal_ok db = (unique_key rn_id (c_runs db) \<and> (\<forall>r\<in>set (c_runs db). 0 \<le> rn_sequence r
     \<and> map ev_sequence (run_events (rn_id r) db) = [1..rn_sequence r]))"

lemma append_event_success:
  assumes "append_event env run owner token kind attempt data now db = Inr (e, db')"
  obtains r encoded where "r \<in> set (c_runs db)" "rn_id r = run" "rn_owner r = owner" "event_payload env data = Inr encoded"
    "e = next_event env r kind attempt encoded now"
    "db' = db\<lparr>c_events := c_events db @ [e], c_runs := sql_update (\<lambda>q. journal_run run owner token q \<and> rn_sequence q = rn_sequence r)
       (\<lambda>q. q\<lparr>rn_sequence := ev_sequence e, rn_updated := now\<rparr>) (c_runs db)\<rparr>"
    "journal_run run owner token r"
proof -
  from assms obtain encoded r where "event_payload env data = Inr encoded" "sql_first (journal_run run owner token) (c_runs db) = Some r"
    "e = next_event env r kind attempt encoded now"
    "db' = db\<lparr>c_events := c_events db @ [e], c_runs := sql_update (\<lambda>q. journal_run run owner token q \<and> rn_sequence q = rn_sequence r)
       (\<lambda>q. q\<lparr>rn_sequence := ev_sequence e, rn_updated := now\<rparr>) (c_runs db)\<rparr>"
    by (auto simp: append_event_def rbind_Inr_iff Let_def split: if_splits option.splits)
  with sql_first_SomeD [of "journal_run run owner token" "c_runs db" r] that [of r encoded] show ?thesis by (auto simp: journal_run_def)
qed

lemma append_event_journal:
  assumes ok: "journal_ok db" and res: "append_event env run owner token kind attempt data now db = Inr (e, db')"
  shows "journal_ok db'"
proof -
  obtain r encoded where r: "r \<in> set (c_runs db)" "rn_id r = run" "journal_run run owner token r" "e = next_event env r kind attempt encoded now"
    "db' = db\<lparr>c_events := c_events db @ [e], c_runs := sql_update (\<lambda>q. journal_run run owner token q \<and> rn_sequence q = rn_sequence r)
       (\<lambda>q. q\<lparr>rn_sequence := ev_sequence e, rn_updated := now\<rparr>) (c_runs db)\<rparr>"
    by (rule append_event_success [OF res], rule that; assumption)
  have uni: "unique_key rn_id (c_runs db)" using ok by (simp add: journal_ok_def)
  have only: "q = r" if "q \<in> set (c_runs db)" "rn_id q = run" for q using unique_keyD [OF uni that(1) r(1)] that r(2) by simp
  have "0 \<le> rn_sequence q \<and> map ev_sequence (run_events (rn_id q) db') = [1..rn_sequence q]" if "q \<in> set (c_runs db')" for q
  proof -
    from that obtain p where p: "p \<in> set (c_runs db)" "q = (if journal_run run owner token p \<and> rn_sequence p = rn_sequence r
        then p\<lparr>rn_sequence := ev_sequence e, rn_updated := now\<rparr> else p)" by (auto simp: r(5) set_sql_update)
    have old: "0 \<le> rn_sequence p" "map ev_sequence (run_events (rn_id p) db) = [1..rn_sequence p]" using ok p(1) by (auto simp: journal_ok_def)
    show ?thesis
    proof (cases "p = r")
      case True
      with p r(3) have q: "q = r\<lparr>rn_sequence := rn_sequence r + 1, rn_updated := now\<rparr>" by (simp add: r(4) next_event_def)
      have "run_events run db' = run_events run db @ [e]" by (simp add: run_events_def r(5)) (simp add: r(2,4) next_event_def)
      with old True r(2) q show ?thesis by (simp add: upto_rec2 r(4) next_event_def)
    next
      case False
      with only p(1) have "rn_id p \<noteq> run" by blast
      then have "q = p" "run_events (rn_id p) db' = run_events (rn_id p) db"
        using p(2) r(2) by (auto simp: journal_run_def run_events_def r(4,5) next_event_def)
      with old show ?thesis by simp
    qed
  qed
  moreover have "unique_key rn_id (c_runs db')" unfolding r(5) using uni by (simp add: unique_key_update)
  ultimately show ?thesis by (simp add: journal_ok_def)
qed

lemma upto_Cons: "map f (e # es) = [a..n] \<Longrightarrow> f e = a \<and> map f es = [a + 1..n]"
  by (cases "a \<le> n") (simp_all add: upto_rec1)

lemma gapless_take: "map ev_sequence es = [a..n] \<Longrightarrow> gapless a (take k es)"
proof (induction es arbitrary: a k)
  case (Cons e es)
  from upto_Cons [OF Cons.prems] Cons.IH show ?case by (cases k) auto
qed simp

lemma filter_behind: "map ev_sequence es = [a + 1..n] \<Longrightarrow> a \<le> b \<Longrightarrow> filter (\<lambda>e. b < ev_sequence e) es = drop (nat (b - a)) es"
proof (induction es arbitrary: a)
  case (Cons e es)
  note e = upto_Cons [OF Cons.prems(1)]
  show ?case
  proof (cases "a = b")
    case True
    have "\<forall>x\<in>set es. b < ev_sequence x"
    proof
      fix x assume "x \<in> set es"
      then have "ev_sequence x \<in> set (map ev_sequence es)" by simp
      with e True show "b < ev_sequence x" by simp
    qed
    with e True show ?thesis by simp
  next
    case False
    with Cons.prems(2) have "nat (b - a) = Suc (nat (b - (a + 1)))" by simp
    with Cons.IH [of "a + 1"] e Cons.prems(2) False show ?thesis by simp
  qed
qed simp

lemma drop_upto: "map f es = [a + 1..n] \<Longrightarrow> 0 \<le> k \<Longrightarrow> map f (drop (nat k) es) = [a + 1 + k..n]"
proof (induction es arbitrary: a k)
  case Nil
  then have "n \<le> a" by simp
  with Nil show ?case by simp
next
  case (Cons e es)
  note e = upto_Cons [OF Cons.prems(1)]
  show ?case
  proof (cases "k = 0")
    case False
    with Cons.prems(2) have "nat k = Suc (nat (k - 1))" "0 \<le> k - 1" by simp_all
    with Cons.IH [of "a + 1" "k - 1"] e show ?thesis by (simp add: algebra_simps)
  qed (use Cons in simp)
qed

lemma sorted_upto_key: "map f es = [a..n] \<Longrightarrow> sort_key f es = es" for f :: "'e \<Rightarrow> int"
  by (rule sort_key_id_if_sorted) simp

text \<open>Reading a journal without gaps.\<close>

lemma list_events_ok:
  assumes ok: "journal_ok db" and r: "r \<in> set (c_runs db)" "rn_id r = run" "rn_owner r = owner" and args: "safe_int after" "0 \<le> after" "safe_int limit"
  shows "list_events owner run after limit db = Inr (take (nat (max 1 (min 1000 limit))) (drop (nat after) (run_events run db)))"
proof -
  have seq: "map ev_sequence (run_events run db) = [0 + 1..rn_sequence r]" using ok r by (auto simp: journal_ok_def)
  have "filter (\<lambda>e. ev_run e = run \<and> after < ev_sequence e) (c_events db) = filter (\<lambda>e. after < ev_sequence e) (run_events run db)"
    by (simp add: run_events_def conj_commute)
  also have "\<dots> = drop (nat after) (run_events run db)" using filter_behind [OF seq args(2)] by simp
  finally have f: "filter (\<lambda>e. ev_run e = run \<and> after < ev_sequence e) (c_events db) = drop (nat after) (run_events run db)" .
  have d: "map ev_sequence (drop (nat after) (run_events run db)) = [after + 1..rn_sequence r]"
    using drop_upto [OF seq args(2)] by (simp add: algebra_simps)
  have "list_ex (\<lambda>r. rn_id r = run \<and> rn_owner r = owner) (c_runs db)" using r by (auto simp: list_ex_iff)
  with args show ?thesis by (simp add: list_events_def f sorted_upto_key [OF d] gapless_take [OF d] Let_def)
qed

text \<open>A journal without gaps stays one when an event is appended, and it is read without loss: the
  reader behind number n gets the next events in order, as many as asked for, and never the error
  of a gap. The appended event is what the reader who had read everything gets.
\<close>

theorem journal_is_gapless:
  assumes "journal_ok db" "append_event env run owner token kind attempt data now db = Inr (e, db')" "safe_int after" "0 \<le> after" "safe_int limit"
  shows "journal_ok db' \<and> run_events run db' = run_events run db @ [e] \<and> ev_sequence e = int (length (run_events run db)) + 1
    \<and> list_events owner run after limit db' = Inr (take (nat (max 1 (min 1000 limit))) (drop (nat after) (run_events run db')))"
proof -
  obtain r encoded where r: "r \<in> set (c_runs db)" "rn_id r = run" "rn_owner r = owner" "e = next_event env r kind attempt encoded now"
    "db' = db\<lparr>c_events := c_events db @ [e], c_runs := sql_update (\<lambda>q. journal_run run owner token q \<and> rn_sequence q = rn_sequence r)
       (\<lambda>q. q\<lparr>rn_sequence := ev_sequence e, rn_updated := now\<rparr>) (c_runs db)\<rparr>" "journal_run run owner token r"
    by (rule append_event_success [OF assms(2)], rule that; assumption)
  note ok' = append_event_journal [OF assms(1,2)]
  have "run_events run db' = run_events run db @ [e]" by (simp add: run_events_def r(5)) (simp add: r(2,4) next_event_def)
  moreover have "map ev_sequence (run_events run db) = [1..rn_sequence r]" "0 \<le> rn_sequence r" using assms(1) r(1,2) by (auto simp: journal_ok_def)
  then have "ev_sequence e = int (length (run_events run db)) + 1" by (simp add: r(4) next_event_def flip: length_map [of ev_sequence])
  moreover have "r\<lparr>rn_sequence := ev_sequence e, rn_updated := now\<rparr> \<in> set (c_runs db')"
    using r(1,6) by (auto simp: r(5) set_sql_update intro!: image_eqI [of _ _ r])
  ultimately show ?thesis using ok' list_events_ok [OF ok' _ _ _ assms(3-5)] r(2,3) by fastforce
qed

end
