(* ===== verification/RunLaws.thy ===== *)
theory RunLaws
  imports RunAdmission RunJournal
begin

text \<open>
  What the operations on agent runs keep: each of them moves every run along
  \<open>run_evolves\<close> and keeps the quota ledger balanced.
\<close>

section \<open>The invariant\<close>

definition run_ok :: "run_row \<Rightarrow> bool" where
  "run_ok r \<longleftrightarrow> token_ok (rn_total r) \<and> (if terminal_status (rn_status r)
     then rn_lease_owner r = None \<and> rn_lease_token r = None \<and> rn_lease_expires r = None
        \<and> rn_completed r \<noteq> None \<and> rn_runtime r = None \<and> (rn_status r = R_cancelled \<longrightarrow> rn_cancel r \<noteq> None)
     else rn_completed r = None)"

definition single_active :: "run_row list \<Rightarrow> bool" where
  "single_active runs = distinct (map rn_session (filter (\<lambda>r. \<not> terminal_status (rn_status r)) runs))"

text \<open>The unique index on \<^verbatim>\<open>sessionId\<close> and \<^verbatim>\<open>clientRequestId\<close>.\<close>

definition run_request_key :: "run_row \<Rightarrow> string \<times> string" where
  "run_request_key r = (rn_session r, rn_request r)"

definition coord_inv :: "coord_db \<Rightarrow> bool" where
  "coord_inv db \<longleftrightarrow> unique_key rn_id (c_runs db) \<and> unique_key run_request_key (c_runs db) \<and> (\<forall>r\<in>set (c_runs db). run_ok r)
     \<and> single_active (c_runs db) \<and> ledger_inv (c_quota db)"

text \<open>A lease token stays, is dropped, or is one of the tokens an operation may write.\<close>

definition token_step :: "string set \<Rightarrow> string option \<Rightarrow> string option \<Rightarrow> bool" where
  "token_step T a b \<longleftrightarrow> b = a \<or> b = None \<or> b \<in> Some ` T"

lemma token_step_simps [simp]: "token_step T a a" "token_step T a None" "t \<in> T \<Longrightarrow> token_step T a (Some t)"
  by (simp_all add: token_step_def)

lemma token_step_trans: "token_step T a b \<Longrightarrow> token_step T b c \<Longrightarrow> token_step T a c"
  by (auto simp: token_step_def)

text \<open>
  How one run may change. Once it has ended only its journal goes on: an appended event raises the
  event counter and writes the time stamp, whatever the status of the run.
\<close>

definition journal_moves :: "run_row \<Rightarrow> run_row \<Rightarrow> bool" where
  "journal_moves r r' \<longleftrightarrow> r' = r \<or> rn_sequence r < rn_sequence r' \<and> r' = r\<lparr>rn_sequence := rn_sequence r', rn_updated := rn_updated r'\<rparr>"

lemma journal_moves_refl [simp]: "journal_moves r r"
  by (simp add: journal_moves_def)

lemma journal_moves_trans: "journal_moves r s \<Longrightarrow> journal_moves s t \<Longrightarrow> journal_moves r t"
  unfolding journal_moves_def by (cases r; cases s; cases t) auto

lemma journal_moves_fields:
  assumes "journal_moves r r'"
  shows "rn_status r' = rn_status r" "rn_cancel r' = rn_cancel r" "run_ok r' = run_ok r"
  using assms unfolding journal_moves_def by (cases r; cases r'; auto simp: run_ok_def)+

definition run_evolves :: "string set \<Rightarrow> run_row \<Rightarrow> run_row \<Rightarrow> bool" where
  "run_evolves T r r' \<longleftrightarrow> rn_id r' = rn_id r \<and> rn_owner r' = rn_owner r \<and> rn_session r' = rn_session r
     \<and> rn_request r' = rn_request r \<and> rn_request_sha r' = rn_request_sha r \<and> rn_spec r' = rn_spec r
     \<and> rn_attempts r \<le> rn_attempts r' \<and> rn_sequence r \<le> rn_sequence r'
     \<and> (rn_side_effects r \<longrightarrow> rn_side_effects r')
     \<and> token_step T (rn_lease_token r) (rn_lease_token r')
     \<and> (rn_cancel r \<noteq> None \<longrightarrow> rn_cancel r' \<noteq> None)
     \<and> (terminal_status (rn_status r) \<longrightarrow> journal_moves r r')
     \<and> (rn_cancel r \<noteq> None \<and> \<not> terminal_status (rn_status r) \<and> terminal_status (rn_status r') \<longrightarrow> rn_status r' = R_cancelled)
     \<and> (run_ok r \<longrightarrow> run_ok r')"

lemma run_evolves_refl [simp]: "run_evolves T r r"
  by (simp add: run_evolves_def)

lemma run_evolves_trans: "run_evolves T r s \<Longrightarrow> run_evolves T s t \<Longrightarrow> run_evolves T r t"
  unfolding run_evolves_def
  by (cases "terminal_status (rn_status s)") (auto intro: token_step_trans journal_moves_trans simp: journal_moves_fields)

lemma run_evolves_active:
  assumes "run_evolves T r r'" "\<not> terminal_status (rn_status r')"
  shows "\<not> terminal_status (rn_status r) \<and> rn_session r' = rn_session r"
  using assms by (auto simp: run_evolves_def dest: journal_moves_fields(1))

definition runs_evolve :: "string set \<Rightarrow> run_row list \<Rightarrow> run_row list \<Rightarrow> bool" where
  "runs_evolve T rs rs' = list_all2 (run_evolves T) rs rs'"

lemma runs_evolve_refl [simp]: "runs_evolve T rs rs"
  by (simp add: runs_evolve_def list_all2_refl)

lemma runs_evolve_trans: "runs_evolve T rs ss \<Longrightarrow> runs_evolve T ss ts \<Longrightarrow> runs_evolve T rs ts"
  unfolding runs_evolve_def by (rule list_all2_trans [OF run_evolves_trans])

lemma runs_evolve_update:
  "(\<And>r. r \<in> set rs \<Longrightarrow> p r \<Longrightarrow> run_evolves T r (f r)) \<Longrightarrow> runs_evolve T rs (sql_update p f rs)"
  by (auto simp: runs_evolve_def sql_update_def list_all2_map2 intro!: list_all2_refl list.rel_refl_strong)

lemma runs_evolve_ids: "runs_evolve T rs rs' \<Longrightarrow> map rn_id rs' = map rn_id rs"
  unfolding runs_evolve_def by (induction rule: list_all2_induct) (simp_all add: run_evolves_def)

lemma runs_evolve_requests: "runs_evolve T rs rs' \<Longrightarrow> map run_request_key rs' = map run_request_key rs"
  unfolding runs_evolve_def by (induction rule: list_all2_induct) (simp_all add: run_evolves_def run_request_key_def)

lemma runs_evolve_ok: "runs_evolve T rs rs' \<Longrightarrow> \<forall>r\<in>set rs. run_ok r \<Longrightarrow> \<forall>r\<in>set rs'. run_ok r"
  unfolding runs_evolve_def by (induction rule: list_all2_induct) (auto simp: run_evolves_def)

lemma runs_evolve_sessions:
  "runs_evolve T rs rs' \<Longrightarrow> set (map rn_session (filter (\<lambda>r. \<not> terminal_status (rn_status r)) rs'))
     \<subseteq> set (map rn_session (filter (\<lambda>r. \<not> terminal_status (rn_status r)) rs))"
  unfolding runs_evolve_def
proof (induction rule: list_all2_induct)
  case (Cons r rs r' rs')
  show ?case
  proof (cases "terminal_status (rn_status r')")
    case False
    from run_evolves_active [OF Cons.hyps(1) this] Cons.IH False show ?thesis by auto
  qed (use Cons.IH in auto)
qed simp

lemma runs_evolve_single: "runs_evolve T rs rs' \<Longrightarrow> single_active rs \<Longrightarrow> single_active rs'"
  unfolding runs_evolve_def
proof (induction rule: list_all2_induct)
  case (Cons r rs r' rs')
  then have ev: "runs_evolve T rs rs'" by (simp add: runs_evolve_def)
  from Cons.prems have "single_active rs" by (simp add: single_active_def split: if_splits)
  with Cons.IH have IH: "single_active rs'" .
  show ?case
  proof (cases "terminal_status (rn_status r')")
    case False
    with run_evolves_active Cons.hyps(1) have r: "\<not> terminal_status (rn_status r)" "rn_session r' = rn_session r" by blast+
    with Cons.prems have "rn_session r \<notin> set (map rn_session (filter (\<lambda>r. \<not> terminal_status (rn_status r)) rs))"
      by (simp add: single_active_def)
    with runs_evolve_sessions [OF ev] have "rn_session r' \<notin> set (map rn_session (filter (\<lambda>r. \<not> terminal_status (rn_status r)) rs'))"
      using r(2) by auto
    with IH False show ?thesis by (simp add: single_active_def)
  qed (use IH in \<open>simp add: single_active_def\<close>)
qed simp

lemma coord_inv_step:
  assumes "coord_inv db" "runs_evolve T (c_runs db) (c_runs db')" "ledger_inv (c_quota db')"
  shows "coord_inv db'"
  using assms runs_evolve_ids [OF assms(2)] runs_evolve_requests [OF assms(2)] runs_evolve_ok [OF assms(2)] runs_evolve_single [OF assms(2)]
  by (auto simp: coord_inv_def unique_key_def)

lemma runs_evolve_member:
  "runs_evolve T rs rs' \<Longrightarrow> r \<in> set rs \<Longrightarrow> \<exists>r'\<in>set rs'. run_evolves T r r'"
  unfolding runs_evolve_def by (induction rule: list_all2_induct) auto

definition tokens_within :: "string set \<Rightarrow> run_row list \<Rightarrow> run_row list \<Rightarrow> bool" where
  "tokens_within T rs rs' = (\<forall>r'\<in>set rs'. \<forall>t. rn_lease_token r' = Some t \<longrightarrow> t \<in> T \<or> (\<exists>r\<in>set rs. rn_lease_token r = Some t))"

lemma tokens_within_refl: "tokens_within T rs rs"
  by (auto simp: tokens_within_def)

lemma tokens_within_trans:
  assumes "tokens_within T a b" "tokens_within T b c"
  shows "tokens_within T a c"
  unfolding tokens_within_def
proof (intro ballI allI impI)
  fix r t assume "r \<in> set c" "rn_lease_token r = Some t"
  with assms(2) have "t \<in> T \<or> (\<exists>r\<in>set b. rn_lease_token r = Some t)" by (auto simp: tokens_within_def)
  then show "t \<in> T \<or> (\<exists>r\<in>set a. rn_lease_token r = Some t)"
    using assms(1) by (auto simp: tokens_within_def)
qed

lemma runs_evolve_tokens: "runs_evolve T rs rs' \<Longrightarrow> tokens_within T rs rs'"
  unfolding runs_evolve_def
proof (induction rule: list_all2_induct)
  case (Cons r rs r' rs')
  then have "rn_lease_token r' = Some t \<Longrightarrow> t \<in> T \<or> rn_lease_token r = Some t" for t
    by (auto simp: run_evolves_def token_step_def)
  with Cons.IH show ?case by (auto simp: tokens_within_def)
qed (simp add: tokens_within_def)

text \<open>An operation that writes one run and leaves the quota tables alone.\<close>

lemma coord_inv_update:
  assumes "coord_inv db" "\<And>r. r \<in> set (c_runs db) \<Longrightarrow> p r \<Longrightarrow> run_evolves T r (f r)"
  shows "coord_inv (db\<lparr>c_runs := sql_update p f (c_runs db)\<rparr>)"
  using assms runs_evolve_update [of "c_runs db" p T f] by (intro coord_inv_step [OF assms(1)]) (simp_all add: coord_inv_def)

section \<open>Terminalisation\<close>

lemma ended_row_success:
  assumes "ended_row ti status won usage now row = Inr e"
  shows "rn_id e = rn_id row \<and> rn_owner e = rn_owner row \<and> rn_session e = rn_session row \<and> rn_request e = rn_request row
    \<and> rn_request_sha e = rn_request_sha row \<and> rn_spec e = rn_spec row \<and> rn_attempts e = rn_attempts row
    \<and> rn_sequence e = rn_sequence row + 2 \<and> rn_side_effects e = rn_side_effects row \<and> rn_status e = status
    \<and> rn_lease_owner e = None \<and> rn_lease_token e = None \<and> rn_lease_expires e = None \<and> rn_runtime e = None
    \<and> rn_completed e = Some (option_or (rn_completed row) now)
    \<and> (rn_cancel row \<noteq> None \<or> status = R_cancelled \<longrightarrow> rn_cancel e \<noteq> None)
    \<and> (won \<longrightarrow> rn_error_code e = ti_error_code ti) \<and> (\<not> won \<longrightarrow> rn_error_code e = rn_error_code row)"
  using assms unfolding ended_row_def Let_def by (cases won) (auto elim!: rbind_InrE)

lemma terminal_ending:
  assumes "ended_row ti status won usage now row = Inr e" "terminal_status status" "\<not> terminal_status (rn_status row)"
    and "rn_cancel row \<noteq> None \<longrightarrow> status = R_cancelled" "token_ok (rn_total e)"
  shows "run_evolves T row e"
  using ended_row_success [OF assms(1)] assms(2-) by (auto simp: run_evolves_def run_ok_def)

lemma message_fits_terminal: "message_fits s m \<Longrightarrow> terminal_status s"
  by (auto simp: message_fits_def terminal_status_def)

definition quota_typed :: "(int \<times> int \<times> quota_status) option \<Rightarrow> bool" where
  "quota_typed quota = (case quota of None \<Rightarrow> True | Some (_, _, st) \<Rightarrow> st \<noteq> Reserved)"

lemma terminal_quota_success:
  assumes "terminal_quota ti row usage now quota = Inr q" "quota_typed (ti_quota ti)"
  shows "\<exists>tokens cost intent. accounted usage intent = Inr (tokens, cost)
    \<and> (\<exists>qt qc qs opts. tokens \<le> qt \<and> cost \<le> qc \<and> qs \<noteq> Reserved
         \<and> reconcile_quota (settle_of row qt qc qs) opts now quota = Inr ((), q))"
proof -
  from assms(1) obtain intent tokens cost qt qc qs opts where
    a: "accounted usage intent = Inr (tokens, cost)" "terminal_settlement (ti_quota ti) tokens cost = (qt, qc, qs)"
    "reconcile_quota (settle_of row qt qc qs) opts now quota = Inr ((), q)"
    unfolding terminal_quota_def Let_def by (auto elim!: rbind_InrE split: prod.splits)
  from a(2) assms(2) have "tokens \<le> qt" "cost \<le> qc" "qs \<noteq> Reserved"
    by (auto simp: terminal_settlement_def settled_status_def quota_typed_def Let_def split: option.splits prod.splits if_splits)
  with a show ?thesis by blast
qed

lemma terminalize_active_success:
  assumes "terminalize_active env validate ti row now db = Inr (r, db')"
  shows "\<exists>message grounding events usage q.
      sql_first (assistant_of row) (c_messages db) = Some message
    \<and> message_fits (final_status ti row) (final_message_status ti row message)
    \<and> terminal_events env row (final_status ti row) (final_message_status ti row message) (final_event ti row) now = Inr events
    \<and> persisted_usage env (rn_id row) (c_events db @ events) = Inr usage
    \<and> ended_row ti (final_status ti row) (status_won ti row) usage now row = Inr r
    \<and> token_ok (rn_total r)
    \<and> sql_count (same_run row) (c_runs db) = 1
    \<and> terminal_quota ti row usage now (c_quota db) = Inr q
    \<and> c_messages db' = sql_update (assistant_of row)
        (patch_message (final_assistant ti row) (final_message_status ti row message) grounding now) (c_messages db)
    \<and> c_events db' = c_events db @ events
    \<and> c_runs db' = sql_update (same_run row) (\<lambda>_. r) (c_runs db)
    \<and> c_quota db' = q"
  using assms unfolding terminalize_active_def run_record_def
  by (auto elim!: rbind_InrE simp: non_negative_Inr token_ok_def split: option.splits if_splits; blast)

lemma settle_of_status [simp]: "se_status (settle_of row tokens cost st) = st"
  by (simp add: settle_of_def)

lemma settled_status_final [simp]: "settled_status tokens cost \<noteq> Reserved"
  by (simp add: settled_status_def)

lemma settle_inv:
  assumes "reconcile_quota (settle_of row tokens cost (settled_status tokens cost)) opts now q = Inr (u, q')" "ledger_inv q"
  shows "ledger_inv q'"
  by (rule reconcile_inv [OF assms(2,1)]) simp

lemma same_run_unique:
  assumes "unique_key rn_id (c_runs db)" "row \<in> set (c_runs db)" "r \<in> set (c_runs db)" "same_run row r"
  shows "r = row"
  using unique_keyD [OF assms(1,3,2)] assms(4) by (simp add: same_run_def)

lemma terminalize_active_inv:
  assumes inv: "coord_inv db" and row: "row \<in> set (c_runs db)" "\<not> terminal_status (rn_status row)"
    and res: "terminalize_active env validate ti row now db = Inr (r, db')" and typed: "quota_typed (ti_quota ti)"
  shows "runs_evolve T (c_runs db) (c_runs db') \<and> ledger_inv (c_quota db') \<and> run_evolves T row r
    \<and> rn_status r = final_status ti row \<and> terminal_status (rn_status r)"
proof -
  from terminalize_active_success [OF res] obtain m usage q where
    fits: "message_fits (final_status ti row) m"
    and e: "ended_row ti (final_status ti row) (status_won ti row) usage now row = Inr r"
    and q: "terminal_quota ti row usage now (c_quota db) = Inr q" and tok: "token_ok (rn_total r)"
    and runs: "c_runs db' = sql_update (same_run row) (\<lambda>_. r) (c_runs db)" "c_quota db' = q" by blast
  have ev: "run_evolves T row r"
    by (rule terminal_ending [OF e message_fits_terminal [OF fits] row(2)]) (simp_all add: final_status_def tok)
  have "runs_evolve T (c_runs db) (c_runs db')"
    unfolding runs(1)
    by (rule runs_evolve_update) (use same_run_unique [OF _ row(1)] inv ev in \<open>auto simp: coord_inv_def\<close>)
  moreover have "ledger_inv q"
  proof -
    from terminal_quota_success [OF q typed] obtain qt qc qs opts where
      "qs \<noteq> Reserved" "reconcile_quota (settle_of row qt qc qs) opts now (c_quota db) = Inr ((), q)" by blast
    with inv show ?thesis by (auto simp: coord_inv_def intro: reconcile_inv)
  qed
  ultimately show ?thesis
    using ev ended_row_success [OF e] message_fits_terminal [OF fits] runs(2) by simp
qed

lemma terminalize_ended_inv:
  assumes inv: "coord_inv db" and res: "terminalize_ended env ti row now db = Inr (r, db')"
  shows "c_runs db' = c_runs db \<and> ledger_inv (c_quota db') \<and> r = row"
proof -
  from inv have "ledger_inv (c_quota db)" by (simp add: coord_inv_def)
  with res show ?thesis
    unfolding terminalize_ended_def Let_def run_record_def
    by (auto elim!: rbind_InrE split: if_splits) (erule (1) settle_inv)+
qed

lemma terminalize_inv:
  assumes inv: "coord_inv db" and res: "terminalize env validate ti now db = Inr (r, db')" and typed: "quota_typed (ti_quota ti)"
  shows "runs_evolve T (c_runs db) (c_runs db') \<and> ledger_inv (c_quota db')"
proof -
  from res obtain row where row: "sql_first (run_of (ti_run ti) (ti_owner ti)) (c_runs db) = Some row"
    by (auto simp: terminalize_def split: option.splits)
  from sql_first_SomeD [OF row] have m: "row \<in> set (c_runs db)" by simp
  show ?thesis
  proof (cases "terminal_status (rn_status row)")
    case True
    with res row have "terminalize_ended env ti row now db = Inr (r, db')" by (simp add: terminalize_def)
    from terminalize_ended_inv [OF inv this] show ?thesis by simp
  next
    case False
    with res row have "terminalize_active env validate ti row now db = Inr (r, db')"
      by (auto simp: terminalize_def rbind_Inr_iff)
    from terminalize_active_inv [OF inv m False this typed] show ?thesis by simp
  qed
qed

section \<open>Claims\<close>

lemma terminalize_others:
  assumes res: "terminalize env validate ti now db = Inr (r, db')" and c: "c \<in> set (c_runs db)" "rn_id c \<noteq> ti_run ti"
  shows "c \<in> set (c_runs db')"
proof -
  from res obtain row where row: "sql_first (run_of (ti_run ti) (ti_owner ti)) (c_runs db) = Some row"
    by (auto simp: terminalize_def split: option.splits)
  from sql_first_SomeD [OF row] have m: "rn_id row = ti_run ti" by (simp add: run_of_def)
  show ?thesis
  proof (cases "terminal_status (rn_status row)")
    case True
    with res row have "terminalize_ended env ti row now db = Inr (r, db')" by (simp add: terminalize_def)
    then have "c_runs db' = c_runs db"
      unfolding terminalize_ended_def Let_def by (auto elim!: rbind_InrE split: if_splits)
    with c show ?thesis by simp
  next
    case False
    with res row have "terminalize_active env validate ti row now db = Inr (r, db')"
      by (auto simp: terminalize_def rbind_Inr_iff)
    from terminalize_active_success [OF this] have "c_runs db' = sql_update (same_run row) (\<lambda>_. r) (c_runs db)" by blast
    with c m show ?thesis by (force simp: sql_update_def same_run_def)
  qed
qed

lemma terminal_of_simps [simp]:
  "ti_run (terminal_of r st code message) = rn_id r" "ti_quota (terminal_of r st code message) = None"
  "ti_status (terminal_of r st code message) = st"
  by (simp_all add: terminal_of_def)

lemma quota_typed_None [simp]: "quota_typed None"
  by (simp add: quota_typed_def)

lemma claimable_active: "run_claimable q now r \<Longrightarrow> \<not> terminal_status (rn_status r) \<and> rn_cancel r = None"
  by (auto simp: run_claimable_def terminal_status_def)

lemma take_lease_success:
  assumes "take_lease opts token now reclaiming c db = Inr (claimed, db')"
  shows "(claimed = None \<and> db' = db) \<or> (claimed = Some (leased_row opts token now reclaiming c)
    \<and> (\<exists>p f. c_runs db' = sql_update p f (c_runs db) \<and> db' = db\<lparr>c_runs := sql_update p f (c_runs db)\<rparr>
      \<and> sql_count p (c_runs db) = 1
      \<and> (\<forall>r. p r \<longrightarrow> rn_id r = rn_id c)
      \<and> (\<not> terminal_status (rn_status c) \<and> token \<in> T \<longrightarrow> run_evolves T c (f c))
      \<and> f c = (leased_row opts token now reclaiming c)\<lparr>rn_started := (if rn_status c = R_queued then Some now else rn_started c),
           rn_updated := now\<rparr>))"
proof (cases "claimed = None")
  case True
  with assms show ?thesis by (auto simp: take_lease_def Let_def run_record_def rbind_Inr_iff split: if_splits)
next
  case False
  let ?p = "\<lambda>r. rn_id r = rn_id c \<and> rn_status r = rn_status c \<and> rn_sequence r = rn_sequence c
                \<and> (rn_status c \<noteq> R_queued \<longrightarrow> rn_lease_token r = rn_lease_token c)"
  let ?l = "leased_row opts token now reclaiming c"
  let ?f = "\<lambda>row. row\<lparr>rn_status := rn_status ?l, rn_attempts := rn_attempts ?l,
                    rn_lease_owner := rn_lease_owner ?l, rn_lease_token := rn_lease_token ?l,
                    rn_lease_expires := rn_lease_expires ?l,
                    rn_started := (if rn_status c = R_queued then Some now else rn_started c),
                    rn_updated := now\<rparr>"
  from assms False have s: "claimed = Some ?l" "db' = db\<lparr>c_runs := sql_update ?p ?f (c_runs db)\<rparr>" "sql_count ?p (c_runs db) = 1"
    by (auto simp: take_lease_def Let_def run_record_def rbind_Inr_iff split: if_splits)
  have "run_evolves T c (?f c)" if "\<not> terminal_status (rn_status c)" "token \<in> T"
    using that by (auto simp: run_evolves_def run_ok_def leased_row_def terminal_status_def)
  moreover have "?f c = ?l\<lparr>rn_started := (if rn_status c = R_queued then Some now else rn_started c), rn_updated := now\<rparr>"
    by (simp add: leased_row_def)
  ultimately show ?thesis using s by (intro disjI2 conjI exI [of _ ?p] exI [of _ ?f]) auto
qed

definition others_stay :: "run_row \<Rightarrow> run_row list \<Rightarrow> run_row list \<Rightarrow> bool" where
  "others_stay c rs rs' = (\<forall>d\<in>set rs. rn_id d \<noteq> rn_id c \<longrightarrow> d \<in> set rs')"

lemma others_stay_refl [simp]: "others_stay c rs rs"
  by (simp add: others_stay_def)

lemma take_lease_inv:
  assumes inv: "coord_inv db" and c: "c \<in> set (c_runs db)" "\<not> terminal_status (rn_status c)"
    and res: "take_lease opts token now reclaiming c db = Inr (claimed, db')" and token: "token \<in> T"
  shows "runs_evolve T (c_runs db) (c_runs db') \<and> c_quota db' = c_quota db \<and> others_stay c (c_runs db) (c_runs db')"
  using take_lease_success [OF res, where T = T]
proof (elim disjE conjE exE)
  fix p f
  assume db': "db' = db\<lparr>c_runs := sql_update p f (c_runs db)\<rparr>" and p: "\<forall>r. p r \<longrightarrow> rn_id r = rn_id c"
    and ev: "\<not> terminal_status (rn_status c) \<and> token \<in> T \<longrightarrow> run_evolves T c (f c)"
  have u: "unique_key rn_id (c_runs db)" using inv by (simp add: coord_inv_def)
  have "run_evolves T r (f r)" if r: "r \<in> set (c_runs db)" "p r" for r
    using unique_keyD [OF u r(1) c(1)] p [THEN spec, THEN mp, OF r(2)] ev c(2) token by simp
  then have "runs_evolve T (c_runs db) (sql_update p f (c_runs db))" by (rule runs_evolve_update)
  moreover have "others_stay c (c_runs db) (sql_update p f (c_runs db))"
    unfolding others_stay_def
  proof (intro ballI impI)
    fix d assume d: "d \<in> set (c_runs db)" "rn_id d \<noteq> rn_id c"
    with p have "\<not> p d" by blast
    with d(1) show "d \<in> set (sql_update p f (c_runs db))" by (force simp: sql_update_def)
  qed
  ultimately show ?thesis unfolding db' by simp
qed simp

lemma terminal_of_inv:
  assumes inv: "coord_inv db" and res: "terminalize env validate (terminal_of c st code message) now db = Inr (r, db')"
  shows "runs_evolve T (c_runs db) (c_runs db') \<and> ledger_inv (c_quota db') \<and> others_stay c (c_runs db) (c_runs db')"
  using terminalize_inv [OF inv res] terminalize_others [OF res] by (auto simp: others_stay_def)

lemma claim_candidate_cases:
  assumes "claim_candidate env validate opts counts token now c db = Inr (claimed, db')"
  obtains (skipped) "db' = db" "claimed = None"
    | (ended) st code message r where "terminalize env validate (terminal_of c st code message) now db = Inr (r, db')" "claimed = None"
    | (leased) reclaiming where "take_lease opts token now reclaiming c db = Inr (claimed, db')"
        "\<not> owner_saturated opts counts c"
proof -
  have "(db' = db \<and> claimed = None)
    \<or> (claimed = None \<and> (\<exists>r. terminalize env validate (lost_side_effect c) now db = Inr (r, db')))
    \<or> (claimed = None \<and> (\<exists>r. terminalize env validate (exhausted_attempts c) now db = Inr (r, db')))
    \<or> (\<not> owner_saturated opts counts c \<and> (\<exists>reclaiming. take_lease opts token now reclaiming c db = Inr (claimed, db')))"
    using assms unfolding claim_candidate_def by (auto elim!: rbind_InrE split: if_splits)
  then show ?thesis
    using skipped ended leased unfolding lost_side_effect_def exhausted_attempts_def by blast
qed

lemma claim_candidate_inv:
  assumes inv: "coord_inv db" and c: "c \<in> set (c_runs db)" "\<not> terminal_status (rn_status c)"
    and res: "claim_candidate env validate opts counts token now c db = Inr (claimed, db')" and token: "token \<in> T"
  shows "runs_evolve T (c_runs db) (c_runs db') \<and> ledger_inv (c_quota db') \<and> others_stay c (c_runs db) (c_runs db')"
proof -
  have q: "ledger_inv (c_quota db)" using inv by (simp add: coord_inv_def)
  from res show ?thesis
  proof (cases rule: claim_candidate_cases)
    case skipped
    with q show ?thesis by simp
  next
    case (ended st code message r)
    from terminal_of_inv [OF inv ended(1)] show ?thesis .
  next
    case (leased reclaiming)
    from take_lease_inv [OF inv c leased(1) token] q show ?thesis by simp
  qed
qed

lemma claim_first_inv:
  assumes "coord_inv db" "claim_first env validate opts counts token now cs db = Inr (claimed, db')"
    and "\<forall>c\<in>set cs. c \<in> set (c_runs db) \<and> \<not> terminal_status (rn_status c)" "distinct (map rn_id cs)" "token \<in> T"
  shows "runs_evolve T (c_runs db) (c_runs db') \<and> ledger_inv (c_quota db')"
  using assms
proof (induction cs arbitrary: db)
  case Nil
  then show ?case by (simp add: coord_inv_def)
next
  case (Cons c cs)
  then obtain cl db1 where s: "claim_candidate env validate opts counts token now c db = Inr (cl, db1)"
    and rest: "(case cl of Some r \<Rightarrow> Inr (Some r, db1) | None \<Rightarrow> claim_first env validate opts counts token now cs db1) = Inr (claimed, db')"
    by (auto elim!: rbind_InrE)
  have ev: "runs_evolve T (c_runs db) (c_runs db1)" "ledger_inv (c_quota db1)" "others_stay c (c_runs db) (c_runs db1)"
    using claim_candidate_inv [OF Cons.prems(1) _ _ s Cons.prems(5)] Cons.prems(3) by auto
  show ?case
  proof (cases cl)
    case (Some r)
    with rest ev show ?thesis by simp
  next
    case None
    have diff: "rn_id d \<noteq> rn_id c" if "d \<in> set cs" for d
      using that Cons.prems(4) by (auto simp: image_iff)
    have "\<forall>d\<in>set cs. d \<in> set (c_runs db1) \<and> \<not> terminal_status (rn_status d)"
      using Cons.prems(3) ev(3) diff by (simp add: others_stay_def)
    moreover have "coord_inv db1" by (rule coord_inv_step [OF Cons.prems(1) ev(1,2)])
    ultimately have "runs_evolve T (c_runs db1) (c_runs db') \<and> ledger_inv (c_quota db')"
      using Cons.IH [of db1] rest None Cons.prems(4,5) by simp
    with ev(1) show ?thesis by (auto intro: runs_evolve_trans)
  qed
qed

lemma run_candidates_ok:
  assumes "unique_key rn_id runs"
  shows "distinct (map rn_id (run_candidates q now full runs))"
    and "c \<in> set (run_candidates q now full runs) \<Longrightarrow> c \<in> set runs \<and> run_claimable q now c \<and> eligible_run full c"
proof -
  let ?cs = "sort_key rn_available (sort_key rn_queued (filter (\<lambda>r. run_claimable q now r \<and> eligible_run full r) runs))"
  have "distinct (map rn_id (filter (\<lambda>r. run_claimable q now r \<and> eligible_run full r) runs))"
    using assms by (simp add: unique_key_def distinct_map_filter)
  then have "distinct (map rn_id ?cs)" by (simp add: distinct_map)
  then show "distinct (map rn_id (run_candidates q now full runs))"
    by (simp add: run_candidates_def take_map [symmetric])
  show "c \<in> set (run_candidates q now full runs) \<Longrightarrow> c \<in> set runs \<and> run_claimable q now c \<and> eligible_run full c"
    by (auto simp: run_candidates_def dest: in_set_takeD)
qed

lemma claim_run_inv:
  assumes inv: "coord_inv db" and res: "claim_run env validate opts token now db = Inr (claimed, db')" and token: "token \<in> T"
  shows "runs_evolve T (c_runs db) (c_runs db') \<and> ledger_inv (c_quota db')"
proof -
  have u: "unique_key rn_id (c_runs db)" using inv by (simp add: coord_inv_def)
  from res consider "db' = db" | full counts where
    "claim_first env validate opts counts token now (run_candidates (c_quota db) now full (c_runs db)) db = Inr (claimed, db')"
    unfolding claim_run_def Let_def by (auto split: if_splits)
  then show ?thesis
  proof cases
    case 1
    with inv show ?thesis by (simp add: coord_inv_def)
  next
    case 2
    have "c \<in> set (c_runs db) \<and> \<not> terminal_status (rn_status c)"
      if "c \<in> set (run_candidates (c_quota db) now full (c_runs db))" for c
      using run_candidates_ok(2) [OF u that] claimable_active by blast
    then show ?thesis
      by (intro claim_first_inv [OF inv 2]) (simp_all add: run_candidates_ok(1) [OF u] token)
  qed
qed

section \<open>All operations\<close>

definition runs_kept :: "string set \<Rightarrow> run_row list \<Rightarrow> run_row list \<Rightarrow> bool" where
  "runs_kept T rs rs' \<longleftrightarrow> (\<forall>r\<in>set rs. \<exists>r'\<in>set rs'. run_evolves T r r')
     \<and> tokens_within T rs rs'"

definition op_ok :: "string set \<Rightarrow> coord_db \<Rightarrow> coord_db \<Rightarrow> bool" where
  "op_ok T db db' = (coord_inv db' \<and> runs_kept T (c_runs db) (c_runs db'))"

lemma op_okI: "coord_inv db \<Longrightarrow> runs_evolve T (c_runs db) (c_runs db') \<and> ledger_inv (c_quota db') \<Longrightarrow> op_ok T db db'"
  using coord_inv_step [of db T db'] runs_evolve_member [of T "c_runs db" "c_runs db'"] runs_evolve_tokens [of T "c_runs db" "c_runs db'"]
  by (simp add: op_ok_def runs_kept_def)

lemma op_ok_refl: "coord_inv db \<Longrightarrow> op_ok T db db"
  by (rule op_okI) (simp_all add: coord_inv_def)

text \<open>An operation that only updates runs its predicate selects.\<close>

lemma op_ok_runs:
  assumes "coord_inv db" "\<And>r. p r \<Longrightarrow> run_evolves T r (f r)"
  shows "op_ok T db (db\<lparr>c_runs := sql_update p f (c_runs db)\<rparr>)"
  using assms runs_evolve_update [of "c_runs db" p T f] by (intro op_okI) (simp_all add: coord_inv_def)

lemma op_ok_quota: "op_ok T db db' \<Longrightarrow> ledger_inv q \<Longrightarrow> op_ok T db (db'\<lparr>c_quota := q\<rparr>)"
  by (simp add: op_ok_def coord_inv_def)

text \<open>An update of a run that has not ended, which does not end it.\<close>

lemma active_evolves:
  assumes "\<not> terminal_status (rn_status r)" "\<not> terminal_status (rn_status r')"
    and "rn_id r' = rn_id r" "rn_owner r' = rn_owner r" "rn_session r' = rn_session r" "rn_request r' = rn_request r"
    "rn_request_sha r' = rn_request_sha r" "rn_spec r' = rn_spec r" "rn_attempts r' = rn_attempts r"
    "rn_sequence r' = rn_sequence r" "rn_lease_token r' = rn_lease_token r" "rn_side_effects r \<Longrightarrow> rn_side_effects r'"
    "rn_cancel r \<noteq> None \<Longrightarrow> rn_cancel r' \<noteq> None" "rn_completed r = None \<Longrightarrow> rn_completed r' = None" "rn_total r' = rn_total r"
  shows "run_evolves T r r'"
  using assms by (simp add: run_evolves_def run_ok_def)

lemma heartbeat_reservations:
  assumes "ledger_inv q"
  shows "ledger_inv (q\<lparr>q_reservations := sql_update p (\<lambda>r. r\<lparr>qr_heartbeat := now, qr_expires := expires\<rparr>) (q_reservations q)\<rparr>)"
proof -
  let ?f = "\<lambda>r. r\<lparr>qr_heartbeat := now, qr_expires := expires\<rparr>"
  have part: "reservation_part k (?f r) = reservation_part k r" for k r by (cases k) simp_all
  have ok: "reservation_key (?f r) = reservation_key r" "reservation_ok (?f r) = reservation_ok r" for r
    by (simp_all add: reservation_key_def reservation_ok_def)
  have "column_sum k d (sql_update p ?f rs) = column_sum k d rs" for k d rs
    unfolding column_sum_def by (rule sql_sum_update_same) (simp add: part ok)
  moreover have "unique_key qr_run (sql_update p ?f (q_reservations q))"
    using assms by (intro unique_key_update) (simp_all add: ledger_inv_def)
  moreover have "\<forall>r\<in>set (sql_update p ?f (q_reservations q)). reservation_ok r \<and> reservation_key r \<in> daily_key ` set (q_daily q)"
    using assms by (intro ball_sql_update) (simp_all add: ledger_inv_def ok)
  ultimately show ?thesis using assms by (simp add: ledger_inv_def)
qed

lemma running_active [simp]: "\<not> terminal_status R_running" "\<not> terminal_status R_awaiting" "\<not> terminal_status R_queued"
  by (simp_all add: terminal_status_def)

lemma heartbeat_ok:
  assumes inv: "coord_inv db" and res: "heartbeat cl lease now db = Inr (held, db')"
  shows "op_ok T db db'"
proof -
  let ?p = "\<lambda>r. holds_run cl r \<and> (rn_status r = R_running \<or> rn_status r = R_awaiting) \<and> rn_cancel r = None"
  let ?db = "db\<lparr>c_runs := sql_update ?p (\<lambda>r. r\<lparr>rn_lease_expires := Some (now + lease), rn_updated := now\<rparr>) (c_runs db)\<rparr>"
  have ok: "op_ok T db ?db" by (rule op_ok_runs [OF inv]) (auto intro: active_evolves)
  from res consider "db' = ?db" | p where "db' = ?db\<lparr>c_quota := (c_quota db)\<lparr>q_reservations :=
      sql_update p (\<lambda>q. q\<lparr>qr_heartbeat := now, qr_expires := now + lease\<rparr>) (q_reservations (c_quota db))\<rparr>\<rparr>"
    by (auto simp: heartbeat_def Let_def split: if_splits)
  then show ?thesis
  proof cases
    case 1
    with ok show ?thesis by simp
  next
    case 2
    show ?thesis unfolding 2
      by (rule op_ok_quota [OF ok heartbeat_reservations]) (use inv in \<open>simp add: coord_inv_def\<close>)
  qed
qed

lemma mark_ok:
  assumes inv: "coord_inv db" and res: "mark_side_effects cl now db = Inr (u, db')"
  shows "op_ok T db db'"
proof -
  from res have db': "db' = db\<lparr>c_runs := sql_update (\<lambda>r. holds_run cl r \<and> rn_status r = R_running \<and> rn_cancel r = None)
      (\<lambda>r. r\<lparr>rn_side_effects := True, rn_updated := now\<rparr>) (c_runs db)\<rparr>"
    by (auto simp: mark_side_effects_def Let_def split: if_splits)
  show ?thesis unfolding db' by (rule op_ok_runs [OF inv]) (auto intro: active_evolves)
qed

lemma persist_ok:
  assumes inv: "coord_inv db" and res: "persist_continuation env i now db = Inr (u, db')"
  shows "op_ok T db db'"
proof -
  from res obtain p stored where db': "db' = db\<lparr>c_runs := sql_update p
      (\<lambda>r. r\<lparr>rn_runtime := Some stored, rn_status := R_awaiting, rn_updated := now\<rparr>) (c_runs db)\<rparr>"
    and p: "\<And>r. p r \<Longrightarrow> rn_status r = R_running"
    unfolding persist_continuation_def Let_def
    by (auto elim!: rbind_InrE split: option.splits if_splits)
  show ?thesis unfolding db' by (rule op_ok_runs [OF inv], drule p) (auto intro: active_evolves)
qed

lemma clear_ok:
  assumes inv: "coord_inv db" and res: "clear_continuation env cl now db = Inr (u, db')"
  shows "op_ok T db db'"
proof -
  from res consider "db' = db" | stored where
    "db' = db\<lparr>c_runs := sql_update (holds_continuation cl) (\<lambda>r. r\<lparr>rn_runtime := stored, rn_updated := now\<rparr>) (c_runs db)\<rparr>"
    unfolding clear_continuation_def Let_def
    by (auto elim!: rbind_InrE split: option.splits if_splits)
  then show ?thesis
  proof cases
    case 1
    then show ?thesis using op_ok_refl [OF inv] by simp
  next
    case 2
    show ?thesis unfolding 2 by (rule op_ok_runs [OF inv]) (auto simp: holds_continuation_def intro: active_evolves)
  qed
qed

lemma terminalize_ok:
  assumes "coord_inv db" "terminalize env validate ti now db = Inr (r, db')" "quota_typed (ti_quota ti)"
  shows "op_ok T db db'"
  by (rule op_okI [OF assms(1) terminalize_inv [OF assms]])

lemma transition_ok:
  assumes inv: "coord_inv db" and res: "transition env validate tr now db = Inr (r, db')"
  shows "op_ok T db db'"
proof (cases "terminal_status (tr_to tr)")
  case True
  with res have "terminalize env validate (transition_terminal tr) now db = Inr (r, db')"
    by (auto simp: transition_def split: if_splits)
  then show ?thesis by (rule terminalize_ok [OF inv]) (simp add: transition_terminal_def)
next
  case False
  have from_active: "\<not> terminal_status (tr_from tr)" by (simp add: tr_from_def)
  from False res have db': "db' = db\<lparr>c_runs := sql_update (\<lambda>r. holds_run (tr_claim tr) r \<and> rn_status r = tr_from tr)
      (\<lambda>r. r\<lparr>rn_status := tr_to tr, rn_updated := now, rn_error_code := tr_error_code tr,
             rn_error_message := tr_error_message tr, rn_completed := None,
             rn_available := (if tr_to tr = R_queued then option_or (tr_available tr) now else rn_available r)\<rparr>) (c_runs db)\<rparr>"
    unfolding transition_def Let_def by (auto simp: rbind_Inr_iff split: if_splits option.splits)
  show ?thesis unfolding db' by (rule op_ok_runs [OF inv], rule active_evolves) (use False from_active in auto)
qed

lemma cancellation_ok:
  assumes inv: "coord_inv db" and res: "request_cancellation env validate owner run now db = Inr (r, db')"
  shows "op_ok T db db'"
proof -
  from res obtain row where row: "sql_first (run_of run (Some owner)) (c_runs db) = Some row"
    by (auto simp: request_cancellation_def split: option.splits)
  let ?p = "\<lambda>q. rn_id q = run \<and> rn_status q = R_running \<and> rn_sequence q = rn_sequence row
                       \<and> rn_lease_token q = rn_lease_token row \<and> rn_cancel q = None"
  from res row consider "db' = db" | "terminalize env validate (cancellation_of row now) now db = Inr (r, db')"
    | "db' = db\<lparr>c_runs := sql_update ?p (\<lambda>q. q\<lparr>rn_cancel := Some now, rn_updated := now\<rparr>) (c_runs db)\<rparr>"
    unfolding request_cancellation_def Let_def by (auto simp: rbind_Inr_iff split: if_splits)
  then show ?thesis
  proof cases
    case 1
    then show ?thesis using op_ok_refl [OF inv] by simp
  next
    case 2
    then show ?thesis by (rule terminalize_ok [OF inv]) (simp add: cancellation_of_def)
  next
    case 3
    show ?thesis unfolding 3 by (rule op_ok_runs [OF inv]) (auto intro: active_evolves)
  qed
qed

lemma reserve_quota_inv:
  "ledger_inv q \<Longrightarrow> reserve_quota run owner request limits now expires q = Inr (u, q') \<Longrightarrow> ledger_inv q'"
  by (rule reserve_inv)

lemma new_run_ok [simp]: "run_ok (new_run env i hash media now)" "rn_id (new_run env i hash media now) = ad_run i"
  "rn_session (new_run env i hash media now) = ad_session i" "rn_status (new_run env i hash media now) = R_queued"
  by (simp_all add: new_run_def run_ok_def token_ok_def safe_int_def)

lemma run_record_Inr: "run_record r = Inr r' \<Longrightarrow> r' = r"
  by (auto simp: run_record_def rbind_Inr_iff)

lemma insert_run_success:
  assumes "insert_run env i tools bindings hash now db = Inr (r, db')"
  shows "fresh_admission i db \<and> c_runs db' = sql_insert r (c_runs db) \<and> (\<exists>media. r = new_run env i hash media now)
    \<and> c_messages db' = with_messages i now (c_messages db)
    \<and> (\<exists>u. reserve_quota (ad_run i) (ad_owner i) (ad_quota i) (ad_limits i) now (ad_expires i) (c_quota db) = Inr (u, c_quota db'))
    \<and> (\<exists>data. c_events db' = c_events db @ [queued_row env i data now]
         \<and> canonical_json env (queued_event i tools bindings hash) = Some data)"
  using assms unfolding insert_run_def
  by (auto elim!: rbind_InrE split: if_splits option.splits dest!: run_record_Inr)

lemma admit_run_success:
  assumes "admit_run env media i now db = Inr ((r, replayed), db')"
  shows "(replayed \<and> db' = db \<and> r \<in> set (c_runs db) \<and> retried_run i r)
    \<or> (\<not> replayed \<and> admission_session i db = Inr () \<and> (\<exists>tools bindings hash. checked_admission env media i = Inr (tools, bindings, hash)
         \<and> insert_run env i tools bindings hash now db = Inr (r, db')))"
  using assms unfolding admit_run_def
  by (auto elim!: rbind_InrE split: option.splits if_splits dest!: run_record_Inr sql_first_SomeD)

lemma admission_session_free:
  "admission_session i db = Inr u \<Longrightarrow> \<forall>r\<in>set (c_runs db). rn_session r = ad_session i \<longrightarrow> terminal_status (rn_status r)"
  by (auto simp: admission_session_def list_ex_iff split: option.splits if_splits)

lemma admit_ok:
  assumes inv: "coord_inv db" and res: "admit_run env media i now db = Inr ((r, replayed), db')"
  shows "op_ok T db db'"
proof -
  from admit_run_success [OF res] consider "db' = db"
    | tools bindings hash where "admission_session i db = Inr ()" "insert_run env i tools bindings hash now db = Inr (r, db')"
    by blast
  then show ?thesis
  proof cases
    case 1
    then show ?thesis using op_ok_refl [OF inv] by simp
  next
    case 2
    from insert_run_success [OF 2(2)] obtain m u where fresh: "ad_run i \<notin> rn_id ` set (c_runs db)"
        "\<forall>q\<in>set (c_runs db). rn_session q \<noteq> ad_session i \<or> rn_request q \<noteq> ad_request i"
      and runs: "c_runs db' = c_runs db @ [r]" and r: "r = new_run env i hash m now"
      and q: "reserve_quota (ad_run i) (ad_owner i) (ad_quota i) (ad_limits i) now (ad_expires i) (c_quota db) = Inr (u, c_quota db')"
      by (auto simp: fresh_admission_def sql_insert_def list_all_iff)
    have "ledger_inv (c_quota db')" using reserve_quota_inv [OF _ q] inv by (simp add: coord_inv_def)
    moreover have "single_active (c_runs db')"
      using inv admission_session_free [OF 2(1)] unfolding runs r by (auto simp: coord_inv_def single_active_def)
    moreover have "unique_key run_request_key (c_runs db')"
      using inv fresh(2) unfolding coord_inv_def runs r
      by (auto simp: unique_key_def run_request_key_def new_run_def)
    ultimately have "coord_inv db'" using inv fresh(1) unfolding coord_inv_def runs r by (auto simp: unique_key_def)
    moreover have "runs_kept T (c_runs db) (c_runs db')"
      unfolding runs runs_kept_def
    proof (intro conjI ballI)
      show "tokens_within T (c_runs db) (c_runs db @ [r])"
        by (auto simp: tokens_within_def r new_run_def)
    next
      fix old assume "old \<in> set (c_runs db)"
      then show "\<exists>r'\<in>set (c_runs db @ [r]). run_evolves T old r'" by (intro bexI [of _ old]) simp_all
    qed
    ultimately show ?thesis by (simp add: op_ok_def)
  qed
qed

lemma journalled_evolves: "rn_sequence r < n \<Longrightarrow> run_evolves T r (r\<lparr>rn_sequence := n, rn_updated := now\<rparr>)"
  by (simp add: run_evolves_def journal_moves_def run_ok_def)

lemma append_ok:
  assumes inv: "coord_inv db" and res: "append_event env run owner token kind attempt data now db = Inr (e, db')"
  shows "op_ok T db db'"
proof (rule append_event_success [OF res])
  fix r :: run_row and encoded
  let ?p = "\<lambda>q. journal_run run owner token q \<and> rn_sequence q = rn_sequence r"
  assume e: "e = next_event env r kind attempt encoded now"
    and db': "db' = db\<lparr>c_events := c_events db @ [e], c_runs := sql_update ?p (\<lambda>q. q\<lparr>rn_sequence := ev_sequence e, rn_updated := now\<rparr>) (c_runs db)\<rparr>"
  have "runs_evolve T (c_runs db) (c_runs db')"
    unfolding db' by (simp, rule runs_evolve_update, rule journalled_evolves) (simp add: e next_event_def)
  then show "op_ok T db db'" using inv by (intro op_okI [OF inv]) (simp add: db' coord_inv_def)
qed

datatype run_op =
    Do_terminalize terminal_input int
  | Do_claim claim_options string int
  | Do_heartbeat run_claim int int
  | Do_transition transition_input int
  | Do_mark run_claim int
  | Do_cancel int string int
  | Do_persist continuation_input int
  | Do_clear run_claim int
  | Do_admit admission int
  | Do_append string int "string option" string int js_value int
  | Do_quota quota_op

text \<open>
  The caller's settlement status is \<^verbatim>\<open>consumed\<close> or \<^verbatim>\<open>released\<close>, and a settlement intent is
  fenced by the table of runs itself.
\<close>

definition typed_terminal :: "terminal_input \<Rightarrow> terminal_input" where
  "typed_terminal ti = (if quota_typed (ti_quota ti) then ti else ti\<lparr>ti_quota := None\<rparr>)"

definition fence_intent :: "run_row list \<Rightarrow> quota_op \<Rightarrow> quota_op" where
  "fence_intent runs q = (case q of
      Op_intent _ run owner consumed expected now \<Rightarrow> Op_intent (map run_fence.truncate runs) run owner consumed expected now
    | _ \<Rightarrow> q)"

fun run_exec :: "run_env \<Rightarrow> (js_value \<Rightarrow> js_value result) \<Rightarrow> media_lookup \<Rightarrow> run_op \<Rightarrow> (coord_db, unit) tx" where
  "run_exec env validate media (Do_terminalize ti now) db = unit_tx (terminalize env validate (typed_terminal ti) now) db"
| "run_exec env validate media (Do_claim opts token now) db = unit_tx (claim_run env validate opts token now) db"
| "run_exec env validate media (Do_heartbeat cl lease now) db = unit_tx (heartbeat cl lease now) db"
| "run_exec env validate media (Do_transition tr now) db = unit_tx (transition env validate tr now) db"
| "run_exec env validate media (Do_mark cl now) db = mark_side_effects cl now db"
| "run_exec env validate media (Do_cancel owner run now) db = unit_tx (request_cancellation env validate owner run now) db"
| "run_exec env validate media (Do_persist i now) db = persist_continuation env i now db"
| "run_exec env validate media (Do_clear cl now) db = clear_continuation env cl now db"
| "run_exec env validate media (Do_admit i now) db = unit_tx (admit_run env media i now) db"
| "run_exec env validate media (Do_append run owner token kind attempt data now) db =
     unit_tx (append_event env run owner token kind attempt data now) db"
| "run_exec env validate media (Do_quota q) db =
     rbind (run_quota (fence_intent (c_runs db) q) (c_quota db)) (\<lambda>(_, quota). Inr ((), db\<lparr>c_quota := quota\<rparr>))"

text \<open>The lease tokens an operation may write.\<close>

fun op_tokens :: "run_op \<Rightarrow> string set" where
  "op_tokens (Do_claim opts token now) = {token}"
| "op_tokens _ = {}"

lemma run_exec_ok:
  assumes "coord_inv db" "run_exec env validate media x db = Inr (u, db')" "op_tokens x \<subseteq> T"
  shows "op_ok T db db'"
proof (cases x)
  case (Do_terminalize ti now)
  have "quota_typed (ti_quota (typed_terminal ti))" by (simp add: typed_terminal_def)
  with assms Do_terminalize show ?thesis by (auto simp: unit_tx_Inr intro: terminalize_ok)
next
  case (Do_claim opts token now)
  with assms obtain a where "claim_run env validate opts token now db = Inr (a, db')" "token \<in> T"
    by (auto simp: unit_tx_Inr)
  then show ?thesis by (intro op_okI [OF assms(1)] claim_run_inv [OF assms(1)])
next
  case (Do_quota q)
  with assms obtain a quota where "run_quota (fence_intent (c_runs db) q) (c_quota db) = Inr (a, quota)" "db' = db\<lparr>c_quota := quota\<rparr>"
    by (auto simp: rbind_Inr_iff)
  with quota.exec_inv [OF _ this(1)] assms(1) show ?thesis
    using op_ok_quota [OF op_ok_refl [OF assms(1)]] by (simp add: coord_inv_def)
qed (use assms in \<open>auto simp: unit_tx_Inr intro: heartbeat_ok transition_ok mark_ok cancellation_ok persist_ok clear_ok admit_ok append_ok\<close>)

interpretation runs: tx_component "run_exec env validate media" coord_inv for env validate media
  using run_exec_ok [where T = UNIV] by unfold_locales (simp add: op_ok_def)

end
