(* ===== verification/RunProperties.thy ===== *)
theory RunProperties
  imports RunLaws
begin

text \<open>
  The properties of agent runs: their life cycle, the limits on concurrent leases, what a
  worker without its lease can do, how a run ends, and the admission of requests.
\<close>

section \<open>The life of a run\<close>

lemma runs_kept_refl [simp]: "runs_kept T rs rs"
  unfolding runs_kept_def using run_evolves_refl tokens_within_refl by blast

lemma runs_kept_trans:
  assumes "runs_kept T a b" "runs_kept T b c"
  shows "runs_kept T a c"
  unfolding runs_kept_def
proof (intro conjI ballI)
  fix r assume "r \<in> set a"
  with assms(1) obtain s where "s \<in> set b" "run_evolves T r s" by (auto simp: runs_kept_def)
  moreover with assms(2) obtain t where "t \<in> set c" "run_evolves T s t" by (auto simp: runs_kept_def)
  ultimately show "\<exists>t\<in>set c. run_evolves T r t" using run_evolves_trans by blast
qed (use assms tokens_within_trans in \<open>simp add: runs_kept_def, blast\<close>)

text \<open>Any sequence of operations, with the tokens its claims may write.\<close>

definition run_all :: "run_env \<Rightarrow> (js_value \<Rightarrow> js_value result) \<Rightarrow> media_lookup \<Rightarrow> run_op list \<Rightarrow> coord_db \<Rightarrow> coord_db" where
  "run_all env validate media ops db = run_txs (map (run_exec env validate media) ops) db"

lemma run_all_kept:
  assumes "coord_inv db" "\<And>x. x \<in> set ops \<Longrightarrow> op_tokens x \<subseteq> T"
  shows "runs_kept T (c_runs db) (c_runs (run_all env validate media ops db))"
  unfolding run_all_def
proof (rule runs.run_preorder_on [where R = "\<lambda>a b. runs_kept T (c_runs a) (c_runs b)", OF assms(1)])
  fix x s u s'
  assume "x \<in> set ops" "coord_inv s" "run_exec env validate media x s = Inr (u, s')"
  then show "runs_kept T (c_runs s) (c_runs s')"
    using run_exec_ok [of s env validate media x u s' T] assms(2) by (simp add: op_ok_def)
qed (auto intro: runs_kept_trans)

lemma run_all_inv: "coord_inv db \<Longrightarrow> coord_inv (run_all env validate media ops db)"
  unfolding run_all_def by (rule runs.run_inv)

text \<open>C11. The life cycle of an agent run. Across admissions, claims, heartbeats, transitions, side-effect
  marks, cancellations, continuations, terminal writes, quota transactions and appended events, in
  whatever order and however many of them fail, a run stays in the table and keeps its owner, and
  its attempts and event sequence only grow. Once it has ended, all that still happens to it is that
  events are appended: unless its event counter was raised it is unchanged, and then it is unchanged
  but for that counter and its time stamp. A run whose cancellation was requested while it was
  active can end in no other way than cancelled.
\<close>

theorem run_life_cycle:
  assumes "coord_inv db" and "r \<in> set (c_runs db)"
  shows "\<exists>r'\<in>set (c_runs (run_all env validate media ops db)). rn_id r' = rn_id r \<and> rn_owner r' = rn_owner r
    \<and> rn_attempts r \<le> rn_attempts r' \<and> rn_sequence r \<le> rn_sequence r'
    \<and> (terminal_status (rn_status r) \<longrightarrow> r' = r
         \<or> rn_sequence r < rn_sequence r' \<and> r' = r\<lparr>rn_sequence := rn_sequence r', rn_updated := rn_updated r'\<rparr>)
    \<and> (rn_cancel r \<noteq> None \<and> \<not> terminal_status (rn_status r) \<and> terminal_status (rn_status r') \<longrightarrow> rn_status r' = R_cancelled)"
proof -
  have "runs_kept UNIV (c_runs db) (c_runs (run_all env validate media ops db))"
    by (rule run_all_kept [OF assms(1)]) simp
  with assms(2) obtain r' where "r' \<in> set (c_runs (run_all env validate media ops db))" "run_evolves UNIV r r'"
    unfolding runs_kept_def by blast
  then show ?thesis by (intro bexI [of _ r']) (simp_all add: run_evolves_def journal_moves_def)
qed

definition empty_coord :: "session_row list \<Rightarrow> proposal_ledger list \<Rightarrow> approval_ledger list \<Rightarrow> media_row list \<Rightarrow> int list \<Rightarrow> coord_db" where
  "empty_coord sessions proposals approvals media users = \<lparr>c_runs = [], c_messages = [], c_events = [], c_media = media,
     c_sessions = sessions, c_proposals = proposals, c_approvals = approvals, c_skills = [], c_quota = empty_quota users\<rparr>"

lemma empty_coord_inv: "coord_inv (empty_coord sessions proposals approvals media users)"
  by (simp add: coord_inv_def empty_coord_def unique_key_def single_active_def empty_quota_inv)

text \<open>Starting without runs, after any operations: no two runs share an identifier or a client
  request of a session, a session has at most one run that has not ended, a run that has ended
  holds no lease and no runtime state, and a cancelled one was asked to stop.
\<close>

theorem run_store_invariant:
  assumes "db = run_all env validate media ops (empty_coord sessions proposals approvals attachments users)"
    and "r \<in> set (c_runs db)" "q \<in> set (c_runs db)"
  shows "(rn_id r = rn_id q \<longrightarrow> r = q) \<and> (rn_session r = rn_session q \<and> rn_request r = rn_request q \<longrightarrow> r = q)
    \<and> (rn_session r = rn_session q \<and> \<not> terminal_status (rn_status r) \<and> \<not> terminal_status (rn_status q) \<longrightarrow> r = q)
    \<and> (terminal_status (rn_status r) \<longrightarrow> rn_lease_owner r = None \<and> rn_lease_token r = None \<and> rn_lease_expires r = None
         \<and> rn_runtime r = None \<and> rn_completed r \<noteq> None)
    \<and> (rn_status r = R_cancelled \<longrightarrow> rn_cancel r \<noteq> None)"
proof -
  have inv: "coord_inv db" unfolding assms(1) by (rule run_all_inv [OF empty_coord_inv])
  have "rn_id r = rn_id q \<longrightarrow> r = q"
    using inv assms(2,3) unique_keyD [of rn_id "c_runs db" r q] by (simp add: coord_inv_def)
  moreover have "rn_session r = rn_session q \<and> rn_request r = rn_request q \<longrightarrow> r = q"
    using inv assms(2,3) unique_keyD [of run_request_key "c_runs db" r q] by (simp add: coord_inv_def run_request_key_def)
  moreover have "r = q" if "rn_session r = rn_session q" "\<not> terminal_status (rn_status r)" "\<not> terminal_status (rn_status q)"
    using inv assms(2,3) that by (auto simp: coord_inv_def single_active_def distinct_map inj_on_def)
  moreover have "run_ok r" using inv assms(2) by (simp add: coord_inv_def)
  ultimately show ?thesis by (auto simp: run_ok_def terminal_status_def)
qed

section \<open>Workers without a lease\<close>

definition token_free :: "string \<Rightarrow> coord_db \<Rightarrow> bool" where
  "token_free token db = (\<forall>r\<in>set (c_runs db). rn_lease_token r \<noteq> Some token)"

lemma run_all_token_free:
  assumes "coord_inv db" "token_free token db" "\<forall>x\<in>set ops. token \<notin> op_tokens x"
  shows "token_free token (run_all env validate media ops db)"
proof -
  have "runs_kept (- {token}) (c_runs db) (c_runs (run_all env validate media ops db))"
    by (rule run_all_kept [OF assms(1)]) (use assms(3) in blast)
  then have "tokens_within (- {token}) (c_runs db) (c_runs (run_all env validate media ops db))"
    by (simp add: runs_kept_def)
  with assms(2) show ?thesis by (fastforce simp: tokens_within_def token_free_def)
qed

lemma token_free_holds: "token_free (cl_token cl) db \<Longrightarrow> r \<in> set (c_runs db) \<Longrightarrow> \<not> holds_run cl r"
  by (auto simp: token_free_def holds_run_def)

lemma heartbeat_lost: "token_free (cl_token cl) db \<Longrightarrow> heartbeat cl lease now db = Inr (False, db)"
  unfolding heartbeat_def Let_def
  by (simp add: sql_count_none sql_update_none token_free_holds)

lemma mark_lost: "token_free (cl_token cl) db \<Longrightarrow> mark_side_effects cl now db = Inl lease_lost"
  unfolding mark_side_effects_def Let_def by (simp add: sql_count_none token_free_holds)

lemma continuation_lost:
  assumes "token_free (cl_token cl) db"
  shows "read_continuation env cl db = Inl lease_lost" "clear_continuation env cl now db = Inl lease_lost"
  using assms unfolding read_continuation_def clear_continuation_def
  by (simp_all add: sql_first_none token_free_holds holds_continuation_def)

lemma persist_lost:
  assumes "token_free (ci_token i) db"
  shows "\<not> is_ok (persist_continuation env i now db)"
proof -
  have "sql_first (\<lambda>r. rn_id r = ci_run i \<and> rn_owner r = ci_owner i \<and> rn_attempts r = ci_attempt i
      \<and> rn_lease_token r = Some (ci_token i) \<and> rn_status r = R_running \<and> rn_cancel r = None) (c_runs db) = None"
    using assms by (intro sql_first_none) (auto simp: token_free_def)
  then show ?thesis
    by (auto simp: persist_continuation_def is_ok_def rbind_def Let_def split: sum.splits option.splits)
qed

lemma terminalize_ended_same:
  "terminalize_ended env ti row now db = Inr (r, db') \<Longrightarrow>
     c_runs db' = c_runs db \<and> c_messages db' = c_messages db \<and> c_events db' = c_events db"
  unfolding terminalize_ended_def Let_def by (auto elim!: rbind_InrE split: if_splits)

lemma transition_lost:
  assumes free: "token_free (cl_token (tr_claim tr)) db" and res: "transition env validate tr now db = Inr (r, db')"
  shows "c_runs db' = c_runs db \<and> c_messages db' = c_messages db \<and> c_events db' = c_events db"
proof (cases "terminal_status (tr_to tr)")
  case True
  with res have t: "terminalize env validate (transition_terminal tr) now db = Inr (r, db')"
    by (auto simp: transition_def split: if_splits)
  then obtain row where row: "sql_first (run_of (ti_run (transition_terminal tr)) (ti_owner (transition_terminal tr))) (c_runs db) = Some row"
    by (auto simp: terminalize_def split: option.splits)
  have "rn_lease_token row \<noteq> Some (cl_token (tr_claim tr))"
    using free sql_first_SomeD [OF row] by (simp add: token_free_def)
  then have "terminal_fence (ti_expected (transition_terminal tr)) row \<noteq> Inr ()"
    by (auto simp: terminal_fence_def transition_terminal_def)
  with t row have "terminalize_ended env (transition_terminal tr) row now db = Inr (r, db')"
    by (auto simp: terminalize_def rbind_Inr_iff split: if_splits)
  then show ?thesis by (rule terminalize_ended_same)
next
  case False
  have "sql_count (\<lambda>r. holds_run (tr_claim tr) r \<and> rn_status r = tr_from tr) (c_runs db) = 0"
    by (rule sql_count_none) (simp add: token_free_holds [OF free])
  with False res show ?thesis by (auto simp: transition_def Let_def split: if_splits)
qed

text \<open>A worker whose lease was taken over is powerless. If no run holds a worker's token, and no
  later claim draws the same token, then after any further operations its heartbeat reports the
  loss and writes nothing, it can neither start side effects nor read, clear or store an
  approval continuation, and no transition it asks for changes a run, a message or an event.
\<close>

theorem superseded_run_worker:
  assumes "coord_inv db0" "token_free (cl_token cl) db0" "\<forall>x\<in>set ops. cl_token cl \<notin> op_tokens x"
    and "db = run_all env validate media ops db0" "ci_token i = cl_token cl" "tr_claim tr = cl"
  shows "heartbeat cl lease now db = Inr (False, db) \<and> mark_side_effects cl now db = Inl lease_lost
    \<and> read_continuation env cl db = Inl lease_lost \<and> clear_continuation env cl now db = Inl lease_lost
    \<and> \<not> is_ok (persist_continuation env i now db)
    \<and> c_runs (commit (transition env validate tr now) db) = c_runs db
    \<and> c_messages (commit (transition env validate tr now) db) = c_messages db
    \<and> c_events (commit (transition env validate tr now) db) = c_events db"
proof -
  have free: "token_free (cl_token cl) db"
    unfolding assms(4) by (rule run_all_token_free [OF assms(1-3)])
  have "c_runs (commit (transition env validate tr now) db) = c_runs db
    \<and> c_messages (commit (transition env validate tr now) db) = c_messages db
    \<and> c_events (commit (transition env validate tr now) db) = c_events db"
    using transition_lost [of tr db env validate now] free assms(6)
    by (cases "transition env validate tr now db") auto
  with heartbeat_lost [OF free] mark_lost [OF free] continuation_lost [OF free] persist_lost [of i db] free assms(5)
  show ?thesis by simp
qed

section \<open>How a run ends\<close>

lemma reconcile_settles:
  assumes inv: "ledger_inv q" and p: "p \<in> set (q_reservations q)" "qr_run p = rn_id row" "qr_owner p = rn_owner row"
    and res: "reconcile_quota (settle_of row qt qc qs) opts now q = Inr (u, q')" and qs: "qs \<noteq> Reserved"
  shows "\<exists>p'\<in>set (q_reservations q'). qr_run p' = rn_id row \<and> qr_status p' \<noteq> Reserved
    \<and> qr_consumed_tokens p \<le> qr_consumed_tokens p' \<and> qr_consumed_cost p \<le> qr_consumed_cost p'
    \<and> (qr_status p = Reserved \<longrightarrow> qr_consumed_tokens p' = qt \<and> qr_consumed_cost p' = qc)"
proof -
  have first: "sql_first (reservation_of (rn_id row) (rn_owner row)) (q_reservations q) = Some p"
    by (rule sql_first_unique [where k = qr_run and key = "rn_id row"])
      (use inv p in \<open>auto simp: ledger_inv_def reservation_of_def\<close>)
  have ok: "reservation_ok p" using inv p(1) by (simp add: ledger_inv_def)
  from res first have r: "reconcile_reservation (settle_of row qt qc qs) opts qt qc now p q = Inr (u, q')"
    by (auto simp: reconcile_quota_def settle_of_def non_negative_Inr rbind_Inr_iff)
  show ?thesis
  proof (cases "qr_status p = Reserved")
    case False
    with r have "q' = q" unfolding reconcile_reservation_def by (auto elim!: rbind_InrE split: if_splits)
    with False p show ?thesis by (intro bexI [of _ p]) simp_all
  next
    case True
    with ok have pending: "qr_reconciled p = None" by (simp add: reservation_ok_def)
    from r True have s: "settle_reservation (settle_of row qt qc qs) qt qc now p q = Inr (u, q')"
      and le: "qr_consumed_tokens p \<le> qt" "qr_consumed_cost p \<le> qc"
      unfolding reconcile_reservation_def by (auto elim!: rbind_InrE simp: stored_int_Inr split: if_splits)
    from settle_reservation_success [OF s] have "q_reservations q' =
        sql_update (pending_of (rn_id row) (rn_owner row)) (settled_row qs qt qc now) (q_reservations q)"
      by (auto simp: settle_of_def)
    then have "settled_row qs qt qc now p \<in> set (q_reservations q')"
      using p True pending by (force simp: sql_update_def pending_of_def reservation_of_def)
    with le p qs show ?thesis by (intro bexI [of _ "settled_row qs qt qc now p"]) (simp_all add: settled_row_def)
  qed
qed

lemma terminal_events_sequence:
  "terminal_events env row status assistant event now = Inr es \<Longrightarrow> map ev_sequence es = [rn_sequence row + 1, rn_sequence row + 2]"
  by (auto simp: terminal_events_def Let_def split: option.splits)

lemma accounted_no_intent:
  assumes "accounted usage intent = Inr (tokens, cost)"
  shows "\<exists>t c. accounted usage None = Inr (t, c) \<and> t \<le> tokens \<and> c \<le> cost"
  using assms unfolding accounted_def Let_def
  by (cases usage; cases intent) (auto elim!: rbind_InrE simp: stored_sum_def stored_int_def split: prod.splits if_splits)

text \<open>C12. A run that is ended by its worker ends completely. When the terminalisation of an active run
  commits, the caller's fence held; the run has the requested status, or cancelled if its
  cancellation was requested before, and no lease; its assistant message has a status that
  fits; its two last events continue its sequence; and its quota reservation is settled, for
  no less than what its stored events account for and than any usage recorded before.
\<close>

theorem terminalized_run_is_settled:
  assumes inv: "coord_inv db" and row: "row \<in> set (c_runs db)" "ti_run ti = rn_id row" "\<not> terminal_status (rn_status row)"
    and typed: "quota_typed (ti_quota ti)"
    and res: "terminalize env validate ti now db = Inr (r, db')"
  shows "terminal_fence (ti_expected ti) row = Inr () \<and> rn_status r = final_status ti row \<and> terminal_status (rn_status r)
    \<and> r \<in> set (c_runs db') \<and> rn_id r = rn_id row \<and> rn_lease_token r = None \<and> rn_sequence r = rn_sequence row + 2
    \<and> (\<exists>m\<in>set (c_messages db'). ms_id m = rn_assistant row \<and> message_fits (rn_status r) (ms_status m))
    \<and> map ev_sequence (drop (length (c_events db)) (c_events db')) = [rn_sequence row + 1, rn_sequence row + 2]
    \<and> (\<exists>usage t c. persisted_usage env (rn_id row) (c_events db') = Inr usage \<and> accounted usage None = Inr (t, c)
       \<and> (\<forall>p\<in>set (q_reservations (c_quota db)). qr_run p = rn_id row \<and> qr_owner p = rn_owner row \<longrightarrow>
         (\<exists>p'\<in>set (q_reservations (c_quota db')). qr_run p' = rn_id row \<and> qr_status p' \<noteq> Reserved
            \<and> qr_consumed_tokens p \<le> qr_consumed_tokens p' \<and> qr_consumed_cost p \<le> qr_consumed_cost p'
            \<and> (qr_status p = Reserved \<longrightarrow> t \<le> qr_consumed_tokens p' \<and> c \<le> qr_consumed_cost p'))))"
proof -
  have u: "unique_key rn_id (c_runs db)" and ledger: "ledger_inv (c_quota db)" using inv by (simp_all add: coord_inv_def)
  from res obtain row0 where row0: "sql_first (run_of (ti_run ti) (ti_owner ti)) (c_runs db) = Some row0"
    by (auto simp: terminalize_def split: option.splits)
  have "row0 = row"
    using unique_keyD [OF u _ row(1), of row0] sql_first_SomeD [OF row0] row(2) by (simp add: run_of_def)
  with row0 res row(3) have fence: "terminal_fence (ti_expected ti) row = Inr ()"
    and act: "terminalize_active env validate ti row now db = Inr (r, db')"
    by (auto simp: terminalize_def rbind_Inr_iff)
  from terminalize_active_success [OF act] obtain message g events usage q where
    m: "sql_first (assistant_of row) (c_messages db) = Some message"
       "message_fits (final_status ti row) (final_message_status ti row message)"
    and ev: "terminal_events env row (final_status ti row) (final_message_status ti row message) (final_event ti row) now = Inr events"
    and us: "persisted_usage env (rn_id row) (c_events db @ events) = Inr usage"
    and e: "ended_row ti (final_status ti row) (status_won ti row) usage now row = Inr r"
    and q: "terminal_quota ti row usage now (c_quota db) = Inr q"
    and db': "c_messages db' = sql_update (assistant_of row)
        (patch_message (final_assistant ti row) (final_message_status ti row message) g now) (c_messages db)"
       "c_events db' = c_events db @ events" "c_runs db' = sql_update (same_run row) (\<lambda>_. r) (c_runs db)" "c_quota db' = q"
    by blast
  note r = ended_row_success [OF e]
  have mem: "r \<in> set (c_runs db')" using row(1) unfolding db'(3) by (force simp: sql_update_def same_run_def)
  let ?m = "patch_message (final_assistant ti row) (final_message_status ti row message) g now message"
  have "?m \<in> set (c_messages db')" using sql_first_SomeD [OF m(1)] unfolding db'(1) by (force simp: sql_update_def)
  moreover have "ms_id ?m = ms_id message" "ms_status ?m = final_message_status ti row message"
    by (simp_all add: patch_message_def split: option.splits)
  ultimately have msg: "\<exists>m\<in>set (c_messages db'). ms_id m = rn_assistant row \<and> message_fits (rn_status r) (ms_status m)"
    using m sql_first_SomeD [OF m(1)] r by (intro bexI [of _ ?m]) (simp_all add: assistant_of_def)
  from terminal_quota_success [OF q typed] obtain tokens cost intent qt qc qs opts where
    acc: "accounted usage intent = Inr (tokens, cost)" and le: "tokens \<le> qt" "cost \<le> qc" "qs \<noteq> Reserved"
    and rec: "reconcile_quota (settle_of row qt qc qs) opts now (c_quota db) = Inr ((), q)" by blast
  from accounted_no_intent [OF acc] obtain t c where tc: "accounted usage None = Inr (t, c)" "t \<le> tokens" "c \<le> cost" by blast
  have "\<exists>p'\<in>set (q_reservations q). qr_run p' = rn_id row \<and> qr_status p' \<noteq> Reserved
      \<and> qr_consumed_tokens p \<le> qr_consumed_tokens p' \<and> qr_consumed_cost p \<le> qr_consumed_cost p'
      \<and> (qr_status p = Reserved \<longrightarrow> t \<le> qr_consumed_tokens p' \<and> c \<le> qr_consumed_cost p')"
    if "p \<in> set (q_reservations (c_quota db))" "qr_run p = rn_id row \<and> qr_owner p = rn_owner row" for p
    using reconcile_settles [OF ledger that(1) _ _ rec le(3)] that(2) le tc by fastforce
  with fence r mem msg message_fits_terminal [OF m(2)] terminal_events_sequence [OF ev] us tc(1) show ?thesis
    unfolding db' by auto
qed

section \<open>Limits on concurrent leases\<close>

definition live_total :: "int \<Rightarrow> run_row list \<Rightarrow> int" where
  "live_total now runs = int (sql_count (live now) runs)"

lemma sql_count_by_owner:
  assumes "finite A" "\<And>r. r \<in> set rows \<Longrightarrow> p r \<Longrightarrow> k r \<in> A"
  shows "(\<Sum>a\<in>A. int (sql_count (\<lambda>r. p r \<and> k r = a) rows)) = int (sql_count p rows)"
  using assms(2)
proof (induction rows)
  case Nil
  then show ?case by (simp add: table_simps)
next
  case (Cons r rows)
  then have IH: "(\<Sum>a\<in>A. int (sql_count (\<lambda>r. p r \<and> k r = a) rows)) = int (sql_count p rows)" by simp
  have "(\<Sum>a\<in>A. int (sql_count (\<lambda>r. p r \<and> k r = a) (r # rows)))
      = (\<Sum>a\<in>A. int (sql_count (\<lambda>r. p r \<and> k r = a) rows) + (if p r \<and> k r = a then 1 else 0))"
    by (intro sum.cong) (simp_all add: table_simps)
  also have "\<dots> = int (sql_count p rows) + (\<Sum>a\<in>A. if p r \<and> k r = a then 1 else 0)"
    using IH by (simp add: sum.distrib)
  also have "(\<Sum>a\<in>A. if p r \<and> k r = a then 1 else 0 :: int) = (if p r then 1 else 0)"
    using Cons.prems [of r] assms(1) by (cases "p r") (simp_all add: sum.delta)
  finally show ?case by (simp add: table_simps)
qed

definition live_owners :: "int \<Rightarrow> run_row list \<Rightarrow> int list" where
  "live_owners now runs = sort (remdups (map rn_owner (filter (live now) runs)))"

lemma live_owners_set: "set (live_owners now runs) = rn_owner ` {r \<in> set runs. live now r}"
  by (auto simp: live_owners_def)

lemma lease_count_pos: "owner \<in> set (live_owners now runs) \<Longrightarrow> 1 \<le> lease_count now owner runs"
  using sql_count_pos [of "\<lambda>r. live now r \<and> rn_owner r = owner" runs]
  by (auto simp: live_owners_set lease_count_def)

lemma lease_count_none: "owner \<notin> set (live_owners now runs) \<Longrightarrow> lease_count now owner runs = 0"
  by (auto simp: live_owners_set lease_count_def intro!: sql_count_none)

lemma counts_are_complete:
  assumes "active_total (active_lease_counts now limit runs) < limit"
  shows "active_lease_counts now limit runs = map (\<lambda>owner. (owner, lease_count now owner runs)) (live_owners now runs)"
    and "active_total (active_lease_counts now limit runs) = live_total now runs"
proof -
  let ?os = "live_owners now runs"
  have c: "active_lease_counts now limit runs = map (\<lambda>owner. (owner, lease_count now owner runs)) (take (nat limit) ?os)"
    by (simp add: active_lease_counts_def live_owners_def)
  have short: "length ?os < nat limit"
  proof (rule ccontr)
    assume "\<not> length ?os < nat limit"
    then have len: "length (take (nat limit) ?os) = nat limit" by simp
    have "(\<Sum>o'\<leftarrow>take (nat limit) ?os. 1 :: int) \<le> (\<Sum>o'\<leftarrow>take (nat limit) ?os. lease_count now o' runs)"
      by (rule sum_list_mono) (auto dest: in_set_takeD intro: lease_count_pos)
    then have "int (nat limit) \<le> active_total (active_lease_counts now limit runs)"
      using len by (simp add: c active_total_def sum_list_triv comp_def)
    with assms show False by (simp split: if_splits)
  qed
  then show all: "active_lease_counts now limit runs = map (\<lambda>owner. (owner, lease_count now owner runs)) ?os"
    by (simp add: c)
  have "distinct ?os" by (simp add: live_owners_def)
  then have "active_total (active_lease_counts now limit runs) = (\<Sum>a\<in>set ?os. lease_count now a runs)"
    by (simp add: all active_total_def comp_def sum_list_distinct_conv_sum_set)
  also have "\<dots> = live_total now runs"
    unfolding lease_count_def live_total_def by (rule sql_count_by_owner) (auto simp: live_owners_set)
  finally show "active_total (active_lease_counts now limit runs) = live_total now runs" .
qed

lemma counts_lookup:
  assumes "active_total (active_lease_counts now limit runs) < limit"
  shows "option_or (map_of (active_lease_counts now limit runs) owner) 0 = lease_count now owner runs"
proof (cases "owner \<in> set (live_owners now runs)")
  case True
  then show ?thesis by (simp add: counts_are_complete(1) [OF assms] map_of_map_restrict)
next
  case False
  then have "map_of (active_lease_counts now limit runs) owner = None"
    by (auto simp: counts_are_complete(1) [OF assms] map_of_eq_None_iff)
  with False show ?thesis by (simp add: lease_count_none)
qed

text \<open>What a step of the claim loop may do to the leases counted at its start.\<close>

lemma sql_count_update_le:
  "(\<And>r. r \<in> set rows \<Longrightarrow> p r \<Longrightarrow> q (f r) \<Longrightarrow> q r) \<Longrightarrow> sql_count q (sql_update p f rows) \<le> sql_count q rows"
proof (induction rows)
  case (Cons a rows)
  then have "sql_count q (sql_update p f rows) \<le> sql_count q rows" by simp
  with Cons.prems [of a] show ?case by (auto simp: table_simps)
qed (simp add: table_simps)

lemma sql_count_update_plus: "sql_count q (sql_update p f rows) \<le> sql_count q rows + sql_count p rows"
  by (induction rows) (auto simp: table_simps)

definition leases_shrink :: "int \<Rightarrow> run_row list \<Rightarrow> run_row list \<Rightarrow> bool" where
  "leases_shrink now rs rs' = (live_total now rs' \<le> live_total now rs \<and> (\<forall>o'. lease_count now o' rs' \<le> lease_count now o' rs))"

lemma leases_shrink_refl [simp]: "leases_shrink now rs rs"
  by (simp add: leases_shrink_def)

lemma leases_shrink_update:
  assumes "\<And>r. r \<in> set rs \<Longrightarrow> p r \<Longrightarrow> \<not> live now (f r)"
  shows "leases_shrink now rs (sql_update p f rs)"
  using assms by (auto simp: leases_shrink_def live_total_def lease_count_def intro!: sql_count_update_le)

lemma terminal_not_live: "terminal_status (rn_status r) \<Longrightarrow> \<not> live now r"
  by (auto simp: live_def terminal_status_def)

lemma terminalize_shrinks:
  assumes inv: "coord_inv db" and res: "terminalize env validate ti now db = Inr (r, db')" and typed: "quota_typed (ti_quota ti)"
  shows "leases_shrink now' (c_runs db) (c_runs db')"
proof -
  from res obtain row where row: "sql_first (run_of (ti_run ti) (ti_owner ti)) (c_runs db) = Some row"
    by (auto simp: terminalize_def split: option.splits)
  show ?thesis
  proof (cases "terminal_status (rn_status row)")
    case True
    with res row have "terminalize_ended env ti row now db = Inr (r, db')" by (simp add: terminalize_def)
    from terminalize_ended_same [OF this] show ?thesis by simp
  next
    case False
    with res row have act: "terminalize_active env validate ti row now db = Inr (r, db')"
      by (auto simp: terminalize_def rbind_Inr_iff)
    then obtain p where "c_runs db' = sql_update p (\<lambda>_. r) (c_runs db)"
      using terminalize_active_success by blast
    moreover have "terminal_status (rn_status r)"
      using terminalize_active_inv [OF inv _ False act typed] sql_first_SomeD [OF row] by blast
    ultimately show ?thesis by (simp add: leases_shrink_update terminal_not_live)
  qed
qed

text \<open>The promise of one claim: what it leased and how many live leases there are then.\<close>

definition claim_promise :: "claim_options \<Rightarrow> string \<Rightarrow> int \<Rightarrow> run_row option \<Rightarrow> coord_db \<Rightarrow> bool" where
  "claim_promise opts token now claimed db = (case claimed of
      None \<Rightarrow> True
    | Some r \<Rightarrow> live_total now (c_runs db) \<le> global_limit opts
        \<and> (rn_status r = R_running \<longrightarrow> lease_count now (rn_owner r) (c_runs db) \<le> per_user_limit opts)
        \<and> (\<exists>q\<in>set (c_runs db). rn_id q = rn_id r \<and> rn_owner q = rn_owner r \<and> rn_status q = rn_status r
             \<and> rn_lease_owner q = Some (co_worker opts) \<and> rn_lease_token q = Some token
             \<and> rn_lease_expires q = Some (now + co_lease opts)))"

lemma take_lease_promise:
  assumes inv: "coord_inv db" and c: "c \<in> set (c_runs db)" "\<not> terminal_status (rn_status c)"
    and res: "take_lease opts token now reclaiming c db = Inr (claimed, db')"
    and total: "live_total now (c_runs db) < global_limit opts"
    and own: "rn_status c \<noteq> R_awaiting \<Longrightarrow> lease_count now (rn_owner c) (c_runs db) < per_user_limit opts"
  shows "claim_promise opts token now claimed db'"
  using take_lease_success [OF res, where T = UNIV]
proof (elim disjE conjE exE)
  fix p f
  assume cl: "claimed = Some (leased_row opts token now reclaiming c)"
    and runs: "c_runs db' = sql_update p f (c_runs db)" and one: "sql_count p (c_runs db) = 1"
    and p: "\<forall>r. p r \<longrightarrow> rn_id r = rn_id c"
    and fc: "f c = (leased_row opts token now reclaiming c)\<lparr>rn_started := (if rn_status c = R_queued then Some now else rn_started c),
           rn_updated := now\<rparr>"
  have u: "unique_key rn_id (c_runs db)" using inv by (simp add: coord_inv_def)
  have sel: "r = c" if r: "r \<in> set (c_runs db)" "p r" for r
    using unique_keyD [OF u r(1) c(1)] p [THEN spec, THEN mp, OF r(2)] by simp
  from one obtain r where "r \<in> set (c_runs db)" "p r" using sql_count_pos [of p "c_runs db"] by auto
  with sel have "p c" by blast
  then have mem: "f c \<in> set (c_runs db')" using c(1) unfolding runs by (force simp: sql_update_def)
  have plus: "sql_count q (sql_update p f (c_runs db)) \<le> sql_count q (c_runs db) + 1" for q
    using sql_count_update_plus [of q p f "c_runs db"] one by simp
  have "live_total now (c_runs db') \<le> live_total now (c_runs db) + 1"
    using plus [of "live now"] unfolding live_total_def runs by linarith
  moreover have "lease_count now (rn_owner c) (c_runs db') \<le> lease_count now (rn_owner c) (c_runs db) + 1"
    using plus [of "\<lambda>r. live now r \<and> rn_owner r = rn_owner c"] unfolding lease_count_def runs by linarith
  moreover have "rn_status (leased_row opts token now reclaiming c) = R_running \<Longrightarrow> rn_status c \<noteq> R_awaiting"
    by (auto simp: leased_row_def)
  ultimately show ?thesis
    using total own mem unfolding cl claim_promise_def
    by (auto intro!: bexI [of _ "f c"] simp: fc leased_row_def)
qed (simp add: claim_promise_def)

text \<open>What holds of the counts while the loop runs.\<close>

definition counts_cover :: "claim_options \<Rightarrow> int \<Rightarrow> (int \<times> int) list \<Rightarrow> run_row list \<Rightarrow> bool" where
  "counts_cover opts now counts runs = (live_total now runs < global_limit opts
     \<and> (\<forall>o'. lease_count now o' runs \<le> option_or (map_of counts o') 0))"

lemma counts_cover_shrink: "counts_cover opts now counts rs \<Longrightarrow> leases_shrink now rs rs' \<Longrightarrow> counts_cover opts now counts rs'"
  by (auto simp: counts_cover_def leases_shrink_def intro: order_trans)

lemma claim_candidate_promise:
  assumes inv: "coord_inv db" and c: "c \<in> set (c_runs db)" "\<not> terminal_status (rn_status c)"
    and res: "claim_candidate env validate opts counts token now c db = Inr (claimed, db')"
    and cover: "counts_cover opts now counts (c_runs db)"
  shows "claim_promise opts token now claimed db' \<and> (claimed = None \<longrightarrow> counts_cover opts now counts (c_runs db'))"
proof -
  from res show ?thesis
  proof (cases rule: claim_candidate_cases)
    case skipped
    with cover show ?thesis by (simp add: claim_promise_def)
  next
    case (ended st code message r)
    from terminalize_shrinks [OF inv ended(1)] counts_cover_shrink [OF cover] ended(2) show ?thesis
      by (simp add: claim_promise_def)
  next
    case (leased reclaiming)
    have own: "rn_status c \<noteq> R_awaiting \<Longrightarrow> lease_count now (rn_owner c) (c_runs db) < per_user_limit opts"
      using cover leased(2) unfolding counts_cover_def owner_saturated_def by (meson le_less_trans not_le)
    have "claim_promise opts token now claimed db'"
      by (rule take_lease_promise [OF inv c leased(1)]) (use cover own in \<open>auto simp: counts_cover_def\<close>)
    moreover have "claimed = None \<longrightarrow> db' = db" using take_lease_success [OF leased(1)] by auto
    ultimately show ?thesis using cover by auto
  qed
qed

lemma claimed_is_candidate:
  assumes "claim_candidate env validate opts counts token now c db = Inr (Some r, db')"
  shows "rn_id r = rn_id c"
  using assms
proof (cases rule: claim_candidate_cases)
  case (leased reclaiming)
  from take_lease_success [OF leased(1)] have "r = leased_row opts token now reclaiming c" by blast
  then show ?thesis by (simp add: leased_row_def)
qed simp_all

lemma claim_first_promise:
  assumes "coord_inv db" "claim_first env validate opts counts token now cs db = Inr (claimed, db')"
    and "\<forall>c\<in>set cs. c \<in> set (c_runs db) \<and> \<not> terminal_status (rn_status c)" "distinct (map rn_id cs)"
    and "counts_cover opts now counts (c_runs db)"
  shows "claim_promise opts token now claimed db' \<and> (\<forall>r. claimed = Some r \<longrightarrow> rn_id r \<in> rn_id ` set cs)"
  using assms
proof (induction cs arbitrary: db)
  case Nil
  then show ?case by (simp add: claim_promise_def)
next
  case (Cons c cs)
  then obtain cl db1 where s: "claim_candidate env validate opts counts token now c db = Inr (cl, db1)"
    and rest: "(case cl of Some r \<Rightarrow> Inr (Some r, db1) | None \<Rightarrow> claim_first env validate opts counts token now cs db1) = Inr (claimed, db')"
    by (auto elim!: rbind_InrE)
  from Cons.prems(3) have c: "c \<in> set (c_runs db)" "\<not> terminal_status (rn_status c)" by simp_all
  note pr = claim_candidate_promise [OF Cons.prems(1) c s Cons.prems(5)]
  note ev = claim_candidate_inv [OF Cons.prems(1) c s UNIV_I]
  show ?case
  proof (cases cl)
    case (Some r)
    with s have "rn_id r = rn_id c" using claimed_is_candidate by blast
    moreover from Some rest have "claimed = Some r" "db' = db1" by simp_all
    ultimately show ?thesis using Some pr by simp
  next
    case None
    have diff: "rn_id d \<noteq> rn_id c" if "d \<in> set cs" for d
      using that Cons.prems(4) by (auto simp: image_iff)
    have "\<forall>d\<in>set cs. d \<in> set (c_runs db1) \<and> \<not> terminal_status (rn_status d)"
      using Cons.prems(3) ev diff by (simp add: others_stay_def)
    moreover have "coord_inv db1" using coord_inv_step [OF Cons.prems(1)] ev by blast
    ultimately show ?thesis using Cons.IH [of db1] rest None Cons.prems(4) pr by simp
  qed
qed

text \<open>C13. Claims respect the configured concurrency. A claim that returns a run leased a run that was
  due, under the new token and for the full lease; afterwards the live leases of running runs do
  not exceed the global limit, and those of the run's owner do not exceed the limit per user,
  although only so many owners are counted as the global limit allows. A run that waits for an
  approval may be leased beyond the limit of its owner.
\<close>

theorem claim_respects_limits:
  assumes inv: "coord_inv db" and res: "claim_run env validate opts token now db = Inr (Some r, db')"
  shows "(\<exists>c\<in>set (c_runs db). rn_id c = rn_id r \<and> run_claimable (c_quota db) now c)
    \<and> live_total now (c_runs db') \<le> global_limit opts
    \<and> (rn_status r = R_running \<longrightarrow> lease_count now (rn_owner r) (c_runs db') \<le> per_user_limit opts)
    \<and> (\<exists>q\<in>set (c_runs db'). rn_id q = rn_id r \<and> rn_owner q = rn_owner r \<and> rn_status q = rn_status r
         \<and> rn_lease_owner q = Some (co_worker opts) \<and> rn_lease_token q = Some token
         \<and> rn_lease_expires q = Some (now + co_lease opts))"
proof -
  have u: "unique_key rn_id (c_runs db)" using inv by (simp add: coord_inv_def)
  let ?limit = "global_limit opts"
  let ?counts = "active_lease_counts now ?limit (c_runs db)"
  let ?cs = "run_candidates (c_quota db) now (saturated (per_user_limit opts) ?counts) (c_runs db)"
  from res have few: "active_total ?counts < ?limit"
    and first: "claim_first env validate opts ?counts token now ?cs db = Inr (Some r, db')"
    unfolding claim_run_def Let_def by (auto split: if_splits)
  have cs: "c \<in> set (c_runs db) \<and> run_claimable (c_quota db) now c" if "c \<in> set ?cs" for c
    using run_candidates_ok(2) [OF u that] by blast
  have "counts_cover opts now ?counts (c_runs db)"
    using few counts_are_complete(2) [OF few] counts_lookup [OF few] by (simp add: counts_cover_def)
  then have "claim_promise opts token now (Some r) db' \<and> rn_id r \<in> rn_id ` set ?cs"
    using claim_first_promise [OF inv first _ run_candidates_ok(1) [OF u]] cs claimable_active by blast
  with cs show ?thesis by (auto simp: claim_promise_def)
qed

section \<open>Admission of a request\<close>

lemma retried_run_unique:
  assumes "coord_inv db" "r \<in> set (c_runs db)" "retried_run i r"
  shows "sql_first (retried_run i) (c_runs db) = Some r"
  by (rule sql_first_unique [where k = run_request_key and key = "(ad_session i, ad_request i)"])
    (use assms in \<open>auto simp: coord_inv_def retried_run_def run_request_key_def\<close>)

lemma run_record_ok: "run_ok r \<Longrightarrow> run_record r = Inr r"
  by (simp add: run_record_def run_ok_def token_ok_def non_negative_def)

text \<open>Admission happens once. After a request was admitted, and whatever happened to its run since,
  the same request returns that run as a replay and writes nothing; a request that reuses the
  identifier in the same session for the same owner with other contents, and so with another
  hash, is refused.
\<close>

theorem admission_happens_once:
  assumes "coord_inv db0" "admit_run env media i now0 db0 = Inr ((r, False), db1)"
    and "db = run_all env validate media ops db1"
    and "checked_admission env media j = Inr (tools, bindings, hash)"
      "ad_session j = ad_session i" "ad_request j = ad_request i" "ad_owner j = ad_owner i"
  shows "(\<exists>r'. admit_run env media i now db = Inr ((r', True), db) \<and> rn_id r' = rn_id r)
    \<and> (hash \<noteq> rn_request_sha r \<longrightarrow> admit_run env media j now db = Inl (Coded ''RUN_IDEMPOTENCY_MISMATCH'' 409))"
proof -
  have inv1: "coord_inv db1" using admit_ok [OF assms(1,2), of UNIV] by (simp add: op_ok_def)
  then have inv: "coord_inv db" unfolding assms(3) by (rule run_all_inv)
  from admit_run_success [OF assms(2)] obtain t b h where chk: "checked_admission env media i = Inr (t, b, h)"
    and ins: "insert_run env i t b h now0 db0 = Inr (r, db1)" by auto
  from insert_run_success [OF ins] obtain m where r1: "r \<in> set (c_runs db1)" and r: "r = new_run env i h m now0" by auto
  have sha: "rn_request_sha r = h" "rn_session r = ad_session i" "rn_request r = ad_request i" "rn_owner r = ad_owner i"
    by (simp_all add: r new_run_def)
  have "runs_kept UNIV (c_runs db1) (c_runs db)" unfolding assms(3) by (rule run_all_kept [OF inv1]) simp
  with r1 obtain r' where r': "r' \<in> set (c_runs db)" "run_evolves UNIV r r'" unfolding runs_kept_def by blast
  from r'(2) sha have same: "rn_id r' = rn_id r" "rn_request_sha r' = h" "retried_run i r'" "retried_run j r'"
    using assms(5-7) by (simp_all add: run_evolves_def retried_run_def)
  have "run_ok r'" using inv r'(1) by (simp add: coord_inv_def)
  then have "admit_run env media i now db = Inr ((r', True), db)"
    using chk retried_run_unique [OF inv r'(1) same(3)] same(2) by (simp add: admit_run_def run_record_ok)
  moreover have "admit_run env media j now db = Inl (Coded ''RUN_IDEMPOTENCY_MISMATCH'' 409)" if "hash \<noteq> rn_request_sha r"
    using that assms(4) sha(1) retried_run_unique [OF inv r'(1) same(4)] same(2) by (simp add: admit_run_def)
  ultimately show ?thesis using same(1) by blast
qed

section \<open>A concrete coordinator\<close>

definition run_demo_env :: run_env where
  "run_demo_env = \<lparr>env_sha = (\<lambda>s. s), env_parse = (\<lambda>_. None), env_number = (\<lambda>_. None), env_collate = (\<lambda>_ _. True),
     env_uuid = (\<lambda>_. True)\<rparr>"

definition demo_spec :: run_spec where
  "demo_spec = \<lparr>sp_profile_version = ''p'', sp_transport = ''openai-chat'', sp_model = ''m'', sp_mode = ''agent'', sp_google = False,
     sp_policy = 1, sp_generation = 1, sp_capability = ''c'', sp_pricing = ''q'', sp_prompt = 1\<rparr>"

definition demo_media :: media_lookup where
  "demo_media = \<lparr>me_list = (\<lambda>_. Inr []), me_assert = (\<lambda>_ _ _. Inr ())\<rparr>"

definition demo_admission :: admission where
  "demo_admission = \<lparr>ad_run = ''r1'', ad_user_message = ''u'', ad_assistant = ''a'', ad_goal = None, ad_continuation = None,
     ad_user_visible = None, ad_assistant_visible = None, ad_attachments = None, ad_media_request = None, ad_owner = 1,
     ad_session = ''s'', ad_request = ''q'', ad_payload_sha = None, ad_version = 3, ad_resolution = replicate 64 CHR ''0'',
     ad_content = ''hello'', ad_preset = None, ad_page = None, ad_knowledge = None, ad_bindings = JUndefined, ad_tools = JUndefined,
     ad_spec = demo_spec, ad_skills = [], ad_quota = \<lparr>qa_tokens = Whole 10, qa_cost = Whole 5\<rparr>,
     ad_limits = \<lparr>qa_tokens = Whole 20, qa_cost = Whole 20\<rparr>, ad_max_attempts = None, ad_expires = 9\<rparr>"

definition demo_session :: session_row where
  "demo_session = \<lparr>sn_id = ''s'', sn_owner = 1, sn_version = 3, sn_google = JNull, sn_deleted = None, sn_activity = 0, sn_updated = 0\<rparr>"

definition demo_empty :: coord_db where
  "demo_empty = empty_coord [demo_session] [] [] [] [1]"

definition demo_hash :: string where
  "demo_hash = the (canonical_json run_demo_env (admission_envelope demo_admission None []))"

definition demo_run :: run_row where
  "demo_run = new_run run_demo_env demo_admission demo_hash None 0"

lemma demo_admission_fields:
  "ad_run demo_admission = ''r1''" "ad_user_message demo_admission = ''u''" "ad_assistant demo_admission = ''a''" "ad_goal demo_admission = None"
  "ad_continuation demo_admission = None" "ad_attachments demo_admission = None" "ad_media_request demo_admission = None"
  "ad_owner demo_admission = 1" "ad_session demo_admission = ''s''" "ad_request demo_admission = ''q''" "ad_payload_sha demo_admission = None"
  "ad_version demo_admission = 3" "ad_resolution demo_admission = replicate 64 CHR ''0''" "ad_content demo_admission = ''hello''"
  "ad_bindings demo_admission = JUndefined" "ad_tools demo_admission = JUndefined" "ad_spec demo_admission = demo_spec" "ad_skills demo_admission = []"
  "ad_quota demo_admission = \<lparr>qa_tokens = Whole 10, qa_cost = Whole 5\<rparr>" "ad_limits demo_admission = \<lparr>qa_tokens = Whole 20, qa_cost = Whole 20\<rparr>"
  "ad_expires demo_admission = 9"
  by (simp_all add: demo_admission_def)

lemma demo_envelope: "canonical_json run_demo_env (admission_envelope demo_admission None []) = Some demo_hash"
proof -
  have "encodable (admission_envelope demo_admission None [])"
    by (simp add: admission_envelope_def demo_admission_def demo_spec_def opt_field_def or_null_def js_int_def js_bindings_def js_strings_def)
  from encodable_canonical [OF this] show ?thesis unfolding demo_hash_def by (metis option.sel)
qed

lemma demo_checked: "checked_admission run_demo_env demo_media demo_admission = Inr (None, [], demo_hash)"
proof -
  have "env_sha run_demo_env demo_hash = demo_hash" by (simp add: run_demo_env_def)
  with demo_envelope show ?thesis
    by (simp add: checked_admission_def demo_media_def normalize_tools_def admitted_bindings_def demo_admission_fields
      normalize_bindings_def media_kinds_def goal_invalid_def is_hex_def is_hex_char_def list_all_iff)
qed

lemma demo_reserved: "reserve_quota ''r1'' 1 \<lparr>qa_tokens = Whole 10, qa_cost = Whole 5\<rparr> \<lparr>qa_tokens = Whole 20, qa_cost = Whole 20\<rparr> 0 9
     (empty_quota [1]) = Inr ((), demo_quota\<lparr>q_reservations := map (\<lambda>r. r\<lparr>qr_consumed_tokens := 0, qr_consumed_cost := 0\<rparr>) (q_reservations demo_quota)\<rparr>)"
  by (simp add: reserve_quota_def non_negative_def safe_int_def max_safe_def empty_quota_def with_day_def
    sql_first_def charge_day_def stored_int_def stored_sum_def daily_of_def new_daily_def day_key_def new_reservation_def
    sql_insert_def sql_update_def demo_quota_def)

lemma demo_admitted: "\<exists>db. admit_run run_demo_env demo_media demo_admission 0 demo_empty = Inr ((demo_run, False), db) \<and> c_runs db = [demo_run]"
proof -
  have "admission_session demo_admission demo_empty = Inr ()"
    by (simp add: admission_session_def demo_admission_def demo_empty_def empty_coord_def demo_session_def demo_spec_def
      sql_first_def consent_valid_def consent_of_def js_int_def)
  moreover have "run_record demo_run = Inr demo_run" by (rule run_record_ok) (simp add: demo_run_def)
  moreover obtain data where "canonical_json run_demo_env (queued_event demo_admission None [] demo_hash) = Some data"
    using encodable_canonical [of "queued_event demo_admission None [] demo_hash" run_demo_env]
    by (auto simp: queued_event_def demo_admission_def opt_field_def js_bindings_def)
  ultimately show ?thesis
    using demo_checked demo_reserved
    by (simp add: admit_run_def demo_empty_def empty_coord_def sql_first_def insert_run_def fresh_admission_def
      demo_admission_fields media_request_text_def demo_run_def sql_insert_def)
qed

definition demo_coord :: coord_db where
  "demo_coord = demo_empty\<lparr>
     c_runs := [demo_run\<lparr>rn_status := R_running, rn_attempts := 1, rn_lease_owner := Some ''w'', rn_lease_token := Some ''t'',
                rn_lease_expires := Some 100, rn_started := Some 1\<rparr>],
     c_messages := with_messages demo_admission 0 [], c_quota := demo_quota\<rparr>"

lemma demo_coord_inv: "coord_inv demo_coord"
  by (simp add: coord_inv_def demo_coord_def demo_empty_def empty_coord_def unique_key_def single_active_def demo_quota_inv
    run_ok_def demo_run_def new_run_def token_ok_def safe_int_def)

definition run_demo_claim :: run_claim where
  "run_demo_claim = \<lparr>cl_run = ''r1'', cl_owner = 1, cl_attempts = 1, cl_worker = ''w'', cl_token = ''old''\<rparr>"

definition demo_transition :: transition_input where
  "demo_transition = \<lparr>tr_claim = run_demo_claim, tr_awaiting = False, tr_to = R_succeeded, tr_error_code = None,
     tr_error_message = None, tr_available = None\<rparr>"

definition demo_ending :: terminal_input where
  "demo_ending = transition_terminal (demo_transition\<lparr>tr_claim := run_demo_claim\<lparr>cl_token := ''t''\<rparr>\<rparr>)"

theorem run_life_cycle_witness:
  "\<exists>r'\<in>set (c_runs (run_all run_demo_env Inr demo_media [Do_cancel 1 ''r1'' 5, Do_terminalize demo_ending 6] demo_coord)).
     rn_id r' = ''r1'' \<and> 1 \<le> rn_attempts r'"
proof -
  have m: "hd (c_runs demo_coord) \<in> set (c_runs demo_coord)" and v: "rn_id (hd (c_runs demo_coord)) = ''r1''" "rn_attempts (hd (c_runs demo_coord)) = 1"
    by (simp_all add: demo_coord_def demo_run_def new_run_def demo_admission_def)
  show ?thesis using run_life_cycle [OF demo_coord_inv m] v by metis
qed

theorem run_store_invariant_witness:
  "\<exists>db. db = run_all run_demo_env Inr demo_media [Do_admit demo_admission 0] demo_empty \<and> demo_run \<in> set (c_runs db)
     \<and> rn_status demo_run \<noteq> R_cancelled"
proof -
  obtain db where "admit_run run_demo_env demo_media demo_admission 0 demo_empty = Inr ((demo_run, False), db)" "c_runs db = [demo_run]"
    using demo_admitted by blast
  then have db: "db = run_all run_demo_env Inr demo_media [Do_admit demo_admission 0] demo_empty" "demo_run \<in> set (c_runs db)"
    by (simp_all add: run_all_def commit_def unit_tx_def)
  have "rn_cancel demo_run = None" by (simp add: demo_run_def new_run_def)
  with run_store_invariant [OF db(1) [unfolded demo_empty_def] db(2) db(2)] db show ?thesis by auto
qed

theorem superseded_run_worker_witness:
  "heartbeat run_demo_claim 50 7 (run_all run_demo_env Inr demo_media [] demo_coord)
     = Inr (False, run_all run_demo_env Inr demo_media [] demo_coord)"
proof -
  have "token_free (cl_token run_demo_claim) demo_coord"
    by (simp add: token_free_def run_demo_claim_def demo_coord_def)
  from superseded_run_worker [OF demo_coord_inv this, where ops = "[]" and env = run_demo_env and validate = Inr and media = demo_media
      and i = "\<lparr>ci_run = ''r1'', ci_owner = 1, ci_attempt = 1, ci_token = ''old'', ci_call = ''c'', ci_action = ''x'', ci_input = JNull,
        ci_proposal = ''p'', ci_approval = ''a'', ci_hash = ''h'', ci_authority = ''g''\<rparr>" and tr = demo_transition and lease = 50 and now = 7]
  show ?thesis by (simp add: run_demo_claim_def demo_transition_def)
qed

lemma demo_terminalized: "\<exists>r db. terminalize run_demo_env Inr demo_ending 9 demo_coord = Inr (r, db)"
  by (simp add: terminalize_def demo_ending_def transition_terminal_def demo_transition_def run_demo_claim_def demo_coord_def
    demo_empty_def empty_coord_def table_simps run_of_def demo_run_def new_run_def demo_admission_def terminal_fence_def tr_from_def
    terminalize_active_def assistant_of_def with_messages_def new_message_def next_ordinal_def sql_update_def
    message_fits_def final_status_def final_message_status_def final_assistant_def status_won_def no_patch_def
    terminal_message_status_def grounding_patch_def terminal_events_def final_event_def run_demo_env_def spread_def status_text_def
    persisted_usage_def journal_rows_def usage_rows_def terminal_event_type_def read_dispatch_accounting_def
    ended_row_def patched_count_def patched_cost_def same_run_def terminal_quota_def settlement_intent_def demo_quota_def
    reservation_of_def stored_int_def accounted_def stored_sum_def safe_int_def max_safe_def
    terminal_settlement_def settled_status_def reconcile_quota_def settle_of_def non_negative_def reconcile_reservation_def
    settle_reservation_def positive_settlement_def settle_daily_def daily_of_def stored_difference_def transcribes_def run_record_def)

theorem terminalized_run_is_settled_witness:
  "\<exists>r db'. terminalize run_demo_env Inr demo_ending 9 demo_coord = Inr (r, db') \<and> rn_status r = R_succeeded
     \<and> (\<exists>p'\<in>set (q_reservations (c_quota db')). qr_run p' = ''r1'' \<and> qr_status p' \<noteq> Reserved \<and> 4 \<le> qr_consumed_tokens p')"
proof -
  obtain r db' where t: "terminalize run_demo_env Inr demo_ending 9 demo_coord = Inr (r, db')" using demo_terminalized by blast
  have m: "hd (c_runs demo_coord) \<in> set (c_runs demo_coord)" and i: "ti_run demo_ending = rn_id (hd (c_runs demo_coord))"
    and st: "\<not> terminal_status (rn_status (hd (c_runs demo_coord)))" and ty: "quota_typed (ti_quota demo_ending)"
    and fin: "final_status demo_ending (hd (c_runs demo_coord)) = R_succeeded"
    and p: "hd (q_reservations demo_quota) \<in> set (q_reservations (c_quota demo_coord))"
      "qr_run (hd (q_reservations demo_quota)) = rn_id (hd (c_runs demo_coord)) \<and> qr_owner (hd (q_reservations demo_quota)) = rn_owner (hd (c_runs demo_coord))"
      "qr_consumed_tokens (hd (q_reservations demo_quota)) = 4" "rn_id (hd (c_runs demo_coord)) = ''r1''"
    by (simp_all add: demo_coord_def demo_run_def new_run_def demo_admission_def demo_ending_def transition_terminal_def
      demo_transition_def run_demo_claim_def final_status_def demo_quota_def)
  from terminalized_run_is_settled [OF demo_coord_inv m i st ty t] p fin t show ?thesis by metis
qed

definition demo_options :: claim_options where
  "demo_options = \<lparr>co_worker = ''v'', co_global = 1, co_per_user = 1, co_lease = 60\<rparr>"

lemma demo_claimed: "\<exists>r db. claim_run run_demo_env Inr demo_options ''fresh'' 5 (demo_empty\<lparr>c_runs := [demo_run]\<rparr>) = Inr (Some r, db)"
  by (simp add: claim_run_def demo_options_def demo_empty_def empty_coord_def demo_run_def new_run_def demo_admission_def
    run_claimable_def pending_settlement_def empty_quota_def active_lease_counts_def active_total_def live_def global_limit_def
    run_candidates_def eligible_run_def saturated_def claim_candidate_def settlement_intent_def table_simps positive_settlement_def
    reclaimable_continuation_def owner_saturated_def per_user_limit_def attempts_spent_def take_lease_def leased_row_def
    run_record_def non_negative_def safe_int_def)

theorem claim_respects_limits_witness:
  "\<exists>r db. claim_run run_demo_env Inr demo_options ''fresh'' 5 (demo_empty\<lparr>c_runs := [demo_run]\<rparr>) = Inr (Some r, db)
     \<and> live_total 5 (c_runs db) \<le> 1"
proof -
  obtain r db where t: "claim_run run_demo_env Inr demo_options ''fresh'' 5 (demo_empty\<lparr>c_runs := [demo_run]\<rparr>) = Inr (Some r, db)"
    using demo_claimed by blast
  have "coord_inv (demo_empty\<lparr>c_runs := [demo_run]\<rparr>)"
    using empty_quota_inv [of "[1]"]
    by (simp add: coord_inv_def demo_empty_def empty_coord_def unique_key_def single_active_def demo_run_def)
  from claim_respects_limits [OF this t] t show ?thesis by (auto simp: global_limit_def demo_options_def)
qed

theorem admission_happens_once_witness:
  "\<exists>db r'. admit_run run_demo_env demo_media demo_admission 7 db = Inr ((r', True), db) \<and> rn_id r' = ''r1''"
proof -
  obtain db where a: "admit_run run_demo_env demo_media demo_admission 0 demo_empty = Inr ((demo_run, False), db)"
    using demo_admitted by blast
  have inv: "coord_inv demo_empty" unfolding demo_empty_def by (rule empty_coord_inv)
  have "rn_id demo_run = ''r1''" by (simp add: demo_run_def demo_admission_def)
  with admission_happens_once [OF inv a refl demo_checked refl refl refl, of 7 Inr "[]"] show ?thesis
    by (auto simp: run_all_def)
qed

end
