(* ===== verification/ProjectionOutbox.thy ===== *)
theory ProjectionOutbox
  imports JsonText Tables
begin

text \<open>
  The page projection outbox (\<^verbatim>\<open>server/core/page-mutation-outbox.ts\<close>): the durable intents to
  render a page, to extract its links, to index it and to project its knowledge, written in
  the transaction that changes the page. This theory holds the tables, the payload of an
  intent and its check, and the operations that create, rearm and supersede intents; the
  claims of workers are in \<^verbatim>\<open>ProjectionClaims\<close>. Revisions are the canonical decimal texts
  the source compares. Random identifiers are arguments.
\<close>

section \<open>Intents and their payload\<close>

datatype effect_kind = Render | Links | Search | Knowledge

datatype desired_state = Present | Absent

datatype effect_action = A_create | A_update | A_restore | A_convert | A_move | A_visibility | A_ownership | A_delete

datatype visibility = Public | Private

record location =
  lo_locale :: string
  lo_path :: string
  lo_visibility :: visibility
  lo_owner :: "int option"

record projection_payload =
  pp_kind :: effect_kind
  pp_desired :: desired_state
  pp_action :: effect_action
  pp_page :: int
  pp_revision :: string
  pp_source_sha :: "string option"
  pp_location :: "location option"
  pp_previous :: "location option"

definition all_effects :: "effect_kind list" where
  "all_effects = [Render, Links, Search, Knowledge]"

definition kind_text :: "effect_kind \<Rightarrow> string" where
  "kind_text k = (case k of Render \<Rightarrow> ''render'' | Links \<Rightarrow> ''links'' | Search \<Rightarrow> ''search'' | Knowledge \<Rightarrow> ''knowledge'')"

definition desired_text :: "desired_state \<Rightarrow> string" where
  "desired_text d = (case d of Present \<Rightarrow> ''present'' | Absent \<Rightarrow> ''absent'')"

definition action_text :: "effect_action \<Rightarrow> string" where
  "action_text a = (case a of A_create \<Rightarrow> ''create'' | A_update \<Rightarrow> ''update'' | A_restore \<Rightarrow> ''restore'' | A_convert \<Rightarrow> ''convert''
     | A_move \<Rightarrow> ''move'' | A_visibility \<Rightarrow> ''visibility'' | A_ownership \<Rightarrow> ''ownership'' | A_delete \<Rightarrow> ''delete'')"

definition visibility_text :: "visibility \<Rightarrow> string" where
  "visibility_text v = (case v of Public \<Rightarrow> ''public'' | Private \<Rightarrow> ''private'')"

text \<open>A member of a closed set of names, as \<^verbatim>\<open>z.enum\<close> reads it.\<close>

definition enum_of :: "('a \<Rightarrow> string) \<Rightarrow> 'a list \<Rightarrow> js_value \<Rightarrow> 'a option" where
  "enum_of name xs v = (case v of JStr s \<Rightarrow> List.find (\<lambda>x. name x = s) xs | _ \<Rightarrow> None)"

definition all_actions :: "effect_action list" where
  "all_actions = [A_create, A_update, A_restore, A_convert, A_move, A_visibility, A_ownership, A_delete]"

text \<open>A value that may be \<^verbatim>\<open>null\<close>, and a string that meets a condition.\<close>

definition nullable :: "(js_value \<Rightarrow> 'a option) \<Rightarrow> js_value \<Rightarrow> 'a option option" where
  "nullable read v = (if v = JNull then Some None else map_option Some (read v))"

definition string_of :: "(string \<Rightarrow> bool) \<Rightarrow> js_value \<Rightarrow> string option" where
  "string_of ok v = (case v of JStr s \<Rightarrow> if ok s then Some s else None | _ \<Rightarrow> None)"

text \<open>\<^verbatim>\<open>PageLocationSchema\<close>\<close>

definition location_valid :: "location \<Rightarrow> bool" where
  "location_valid l = (1 \<le> length (lo_locale l) \<and> length (lo_locale l) \<le> 35 \<and> 1 \<le> length (lo_path l) \<and> length (lo_path l) \<le> 1024
     \<and> (case lo_owner l of None \<Rightarrow> True | Some i \<Rightarrow> 0 < i \<and> safe_int i))"

definition location_of :: "js_value \<Rightarrow> location option" where
  "location_of v =
     (if \<not> strict_object [''locale'', ''path'', ''visibility'', ''ownerId''] [] v then None
      else case (string_of (\<lambda>s. 1 \<le> length s \<and> length s \<le> 35) (js_get ''locale'' v),
                 string_of (\<lambda>s. 1 \<le> length s \<and> length s \<le> 1024) (js_get ''path'' v),
                 enum_of visibility_text [Public, Private] (js_get ''visibility'' v),
                 nullable js_positive (js_get ''ownerId'' v)) of
        (Some l, Some p, Some vis, Some owner) \<Rightarrow> Some \<lparr>lo_locale = l, lo_path = p, lo_visibility = vis, lo_owner = owner\<rparr>
      | _ \<Rightarrow> None)"

text \<open>\<^verbatim>\<open>PageProjectionPayloadSchema\<close>, on a decoded value and on a payload that is built.\<close>

definition payload_keys :: "string list" where
  "payload_keys = [''version'', ''effectKind'', ''desiredState'', ''action'', ''pageId'', ''sourceRevision'', ''sourceSha256'', ''location'', ''previousLocation'']"

definition payload_of :: "js_value \<Rightarrow> projection_payload option" where
  "payload_of v =
     (if \<not> strict_object payload_keys [] v \<or> js_get ''version'' v \<noteq> JNum (Whole 1) then None
      else case (enum_of kind_text all_effects (js_get ''effectKind'' v), enum_of desired_text [Present, Absent] (js_get ''desiredState'' v),
                 enum_of action_text all_actions (js_get ''action'' v), js_positive (js_get ''pageId'' v),
                 string_of positive_decimal (js_get ''sourceRevision'' v), nullable (string_of (is_hex 64)) (js_get ''sourceSha256'' v),
                 nullable location_of (js_get ''location'' v), nullable location_of (js_get ''previousLocation'' v)) of
        (Some k, Some d, Some a, Some page, Some rv, Some sha, Some here, Some before) \<Rightarrow>
          Some \<lparr>pp_kind = k, pp_desired = d, pp_action = a, pp_page = page, pp_revision = rv, pp_source_sha = sha,
                pp_location = here, pp_previous = before\<rparr>
      | _ \<Rightarrow> None)"

definition payload_valid :: "projection_payload \<Rightarrow> bool" where
  "payload_valid p = (0 < pp_page p \<and> safe_int (pp_page p) \<and> positive_decimal (pp_revision p)
     \<and> pred_option (is_hex 64) (pp_source_sha p) \<and> pred_option location_valid (pp_location p) \<and> pred_option location_valid (pp_previous p))"

definition js_null_or :: "('a \<Rightarrow> js_value) \<Rightarrow> 'a option \<Rightarrow> js_value" where
  "js_null_or f x = (case x of None \<Rightarrow> JNull | Some a \<Rightarrow> f a)"

definition location_value :: "location \<Rightarrow> js_value" where
  "location_value l = JObj [(''locale'', JStr (lo_locale l)), (''path'', JStr (lo_path l)),
     (''visibility'', JStr (visibility_text (lo_visibility l))), (''ownerId'', js_null_or (\<lambda>i. JNum (Whole i)) (lo_owner l))]"

definition payload_value :: "projection_payload \<Rightarrow> js_value" where
  "payload_value p = JObj [(''version'', JNum (Whole 1)), (''effectKind'', JStr (kind_text (pp_kind p))),
     (''desiredState'', JStr (desired_text (pp_desired p))), (''action'', JStr (action_text (pp_action p))),
     (''pageId'', JNum (Whole (pp_page p))), (''sourceRevision'', JStr (pp_revision p)),
     (''sourceSha256'', js_null_or JStr (pp_source_sha p)), (''location'', js_null_or location_value (pp_location p)),
     (''previousLocation'', js_null_or location_value (pp_previous p))]"

section \<open>Tables\<close>

datatype effect_status = E_pending | E_retry | E_running | E_succeeded | E_failed | E_superseded

record effect_row =
  ef_id :: string
  ef_page :: int
  ef_revision :: string
  ef_kind :: effect_kind
  ef_key :: string
  ef_desired :: desired_state
  ef_sha :: string
  ef_payload :: string
  ef_status :: effect_status
  ef_attempts :: int
  ef_lease_owner :: "string option"
  ef_lease_token :: "string option"
  ef_lease_expires :: "int option"
  ef_available :: int
  ef_result :: "string option"
  ef_postcondition :: "string option"
  ef_created :: int
  ef_updated :: int

text \<open>A row of \<^verbatim>\<open>pages\<close>: the columns of \<^verbatim>\<open>ProjectionPageRow\<close>, then those that approvals read.\<close>

record projection_page =
  pj_id :: int
  pj_revision :: string
  pj_content :: string
  pj_published :: bool
  pj_searchable :: bool
  pj_render :: string
  pj_rendered :: "string option"
  pj_start :: "string option"
  pj_end :: "string option"
  pj_location :: location
  pj_title :: string
  pj_author :: int
  pj_reason :: "string option"
  pj_modified :: int

record protection_row =
  pw_page :: int
  pw_hash :: string
  pw_version :: int
  pw_by :: int
  pw_updated :: int

record proj_db =
  o_effects :: "effect_row list"
  o_pages :: "projection_page list"
  o_links :: "(int \<times> string \<times> string) list"
  o_vectors :: "(int \<times> string) list"
  o_words :: "int list"
  o_passwords :: "protection_row list"

definition outbox_error :: "string \<Rightarrow> js_error" where
  "outbox_error code = Coded code 0"

definition conflict_error :: js_error where
  "conflict_error = outbox_error ''OUTBOX_IDEMPOTENCY_CONFLICT''"

text \<open>\<^verbatim>\<open>revisionString\<close>\<close>

definition revision_string :: "string \<Rightarrow> string result" where
  "revision_string s = (if positive_decimal s then Inr s else Inl (outbox_error ''INVALID_SOURCE_REVISION''))"

definition effect_key :: "int \<Rightarrow> effect_kind \<Rightarrow> string" where
  "effect_key page kind = ''page:'' @ decimal (nat page) @ '':'' @ kind_text kind"

definition valid_page_id :: "js_num \<Rightarrow> bool" where
  "valid_page_id n = (case n of Whole i \<Rightarrow> safe_int i \<and> 1 \<le> i | Not_whole \<Rightarrow> False)"

text \<open>\<^verbatim>\<open>parseRowPayload\<close>\<close>

definition parse_row :: "run_env \<Rightarrow> effect_row \<Rightarrow> projection_payload result" where
  "parse_row env row =
     (if env_sha env (ef_payload row) \<noteq> ef_sha row then Inl (outbox_error ''OUTBOX_PAYLOAD_TAMPERED'')
      else case env_parse env (ef_payload row) of
        None \<Rightarrow> Inl (outbox_error ''INVALID_OUTBOX_PAYLOAD'')
      | Some v \<Rightarrow> (case payload_of v of
          None \<Rightarrow> Inl (outbox_error ''INVALID_OUTBOX_PAYLOAD'')
        | Some p \<Rightarrow>
            if pp_kind p \<noteq> ef_kind row \<or> pp_desired p \<noteq> ef_desired row \<or> pp_page p \<noteq> ef_page row
            then Inl (outbox_error ''INVALID_OUTBOX_PAYLOAD'')
            else rbind (revision_string (ef_revision row)) (\<lambda>rv.
              if pp_revision p \<noteq> rv then Inl (outbox_error ''INVALID_OUTBOX_PAYLOAD'') else Inr p)))"

section \<open>Writing an intent\<close>

record effects_input =
  eq_page :: js_num
  eq_revision :: string
  eq_desired :: desired_state
  eq_action :: effect_action
  eq_source :: "string option"
  eq_location :: "location option"
  eq_previous :: "location option"
  eq_effects :: "effect_kind list option"

definition effect_is :: "int \<Rightarrow> string \<Rightarrow> effect_kind \<Rightarrow> effect_row \<Rightarrow> bool" where
  "effect_is page rv kind row = (ef_page row = page \<and> ef_revision row = rv \<and> ef_kind row = kind)"

definition intent_payload :: "run_env \<Rightarrow> effects_input \<Rightarrow> int \<Rightarrow> string \<Rightarrow> effect_kind \<Rightarrow> projection_payload" where
  "intent_payload env i page rv kind = \<lparr>pp_kind = kind, pp_desired = eq_desired i, pp_action = eq_action i, pp_page = page,
     pp_revision = rv, pp_source_sha = map_option (env_sha env) (eq_source i), pp_location = eq_location i,
     pp_previous = eq_previous i\<rparr>"

definition new_effect :: "run_env \<Rightarrow> string \<Rightarrow> string \<Rightarrow> projection_payload \<Rightarrow> int \<Rightarrow> effect_row" where
  "new_effect env ident encoded p now = \<lparr>ef_id = ident, ef_page = pp_page p, ef_revision = pp_revision p, ef_kind = pp_kind p,
     ef_key = effect_key (pp_page p) (pp_kind p), ef_desired = pp_desired p, ef_sha = env_sha env encoded, ef_payload = encoded,
     ef_status = E_pending, ef_attempts = 0, ef_lease_owner = None, ef_lease_token = None, ef_lease_expires = None,
     ef_available = now, ef_result = None, ef_postcondition = None, ef_created = now, ef_updated = now\<rparr>"

text \<open>
  One kind of \<^verbatim>\<open>enqueuePageMutationEffects\<close>: the insert is ignored if the intent exists, and
  an existing intent must have the same content. The identifier is the primary key.
\<close>

definition enqueue_one :: "run_env \<Rightarrow> projection_payload \<Rightarrow> string \<Rightarrow> int \<Rightarrow> ('z proj_db_scheme, string) tx" where
  "enqueue_one env p ident now db =
     (if \<not> payload_valid p then Inl Plain_error
      else case canonical_json env (payload_value p) of
        None \<Rightarrow> Inl (outbox_error ''INVALID_CANONICAL_VALUE'')
      | Some encoded \<Rightarrow>
          (case sql_first (effect_is (pp_page p) (pp_revision p) (pp_kind p)) (o_effects db) of
             None \<Rightarrow>
               if ident \<in> ef_id ` set (o_effects db) then Inl Plain_error
               else Inr (ident, db\<lparr>o_effects := sql_insert (new_effect env ident encoded p now) (o_effects db)\<rparr>)
           | Some row \<Rightarrow>
               if ef_sha row \<noteq> env_sha env encoded \<or> ef_payload row \<noteq> encoded \<or> ef_desired row \<noteq> pp_desired p
               then Inl conflict_error else Inr (ef_id row, db)))"

fun enqueue_all ::
  "run_env \<Rightarrow> effects_input \<Rightarrow> int \<Rightarrow> string \<Rightarrow> (effect_kind \<Rightarrow> string) \<Rightarrow> int \<Rightarrow> effect_kind list \<Rightarrow> ('z proj_db_scheme, string list) tx" where
  "enqueue_all env i page rv fresh now [] db = Inr ([], db)"
| "enqueue_all env i page rv fresh now (k # ks) db =
     rbind (enqueue_one env (intent_payload env i page rv k) (fresh k) now db) (\<lambda>(ident, db1).
     rbind (enqueue_all env i page rv fresh now ks db1) (\<lambda>(ids, db2). Inr (ident # ids, db2)))"

definition present_incomplete :: "effects_input \<Rightarrow> bool" where
  "present_incomplete i = (eq_desired i = Present \<and> (eq_source i = None \<or> eq_location i = None))"

definition absent_excessive :: "effects_input \<Rightarrow> bool" where
  "absent_excessive i = (eq_desired i = Absent \<and> (eq_source i \<noteq> None \<or> eq_location i \<noteq> None))"

definition enqueue_effects ::
  "run_env \<Rightarrow> effects_input \<Rightarrow> (effect_kind \<Rightarrow> string) \<Rightarrow> int \<Rightarrow> ('z proj_db_scheme, string list) tx" where
  "enqueue_effects env i fresh now db = (case eq_page i of
      Not_whole \<Rightarrow> Inl (outbox_error ''INVALID_PAGE_ID'')
    | Whole page \<Rightarrow>
        if \<not> valid_page_id (Whole page) then Inl (outbox_error ''INVALID_PAGE_ID'')
        else rbind (revision_string (eq_revision i)) (\<lambda>rv.
          if present_incomplete i then Inl (outbox_error ''INCOMPLETE_PRESENT_STATE'')
          else if absent_excessive i then Inl (outbox_error ''INVALID_ABSENT_STATE'')
          else let kinds = option_or (eq_effects i) all_effects in
            if \<not> distinct kinds then Inl (outbox_error ''INVALID_EFFECT_SET'')
            else enqueue_all env i page rv fresh now kinds db))"

end
