(* ===== verification/ProjectionAdmission.thy ===== *)
theory ProjectionAdmission
  imports ProjectionOutbox
begin

text \<open>
  Rearming and superseding projection intents, and the admission of the current revision of a
  page for rendering and search (\<^verbatim>\<open>server/core/page-mutation-outbox.ts\<close>). \<open>clock\<close> is
  \<^verbatim>\<open>new Date()\<close>, \<open>at\<close> the instant a caller may supply instead. Page locks are left out,
  their identity check is kept.
\<close>

section \<open>Pages\<close>

text \<open>
  \<^verbatim>\<open>publicationBoundaryTimestamp\<close> of \<^verbatim>\<open>shared/publication-window.ts\<close> on the column type of a
  page: \<^term>\<open>Some None\<close> is an open bound, \<^term>\<open>None\<close> a malformed one. \<open>instant\<close> is the instant
  of a text the timestamp pattern accepts.
\<close>

definition publication_boundary :: "(string \<Rightarrow> int option) \<Rightarrow> string option \<Rightarrow> int option option" where
  "publication_boundary instant v = (case v of
      None \<Rightarrow> Some None
    | Some s \<Rightarrow> if s = [] then Some None else if starts_with s ''0000'' then None else map_option Some (instant s))"

definition publication_window_open :: "(string \<Rightarrow> int option) \<Rightarrow> string option \<Rightarrow> string option \<Rightarrow> int \<Rightarrow> bool" where
  "publication_window_open instant start stop now =
     ((case publication_boundary instant start of None \<Rightarrow> False | Some None \<Rightarrow> True | Some (Some t) \<Rightarrow> t \<le> now)
    \<and> (case publication_boundary instant stop of None \<Rightarrow> False | Some None \<Rightarrow> True | Some (Some t) \<Rightarrow> now \<le> t))"

definition page_search_eligible :: "(string \<Rightarrow> int option) \<Rightarrow> projection_page \<Rightarrow> int \<Rightarrow> bool" where
  "page_search_eligible instant page now = (lo_visibility (pj_location page) = Public \<and> pj_published page \<and> pj_searchable page
     \<and> publication_window_open instant (pj_start page) (pj_end page) now)"

definition has_certified_render :: "projection_page \<Rightarrow> bool" where
  "has_certified_render page = (pj_rendered page = Some (pj_revision page))"

definition exact_source :: "run_env \<Rightarrow> projection_page \<Rightarrow> projection_payload \<Rightarrow> bool" where
  "exact_source env page p = (pp_location p = Some (pj_location page) \<and> pj_revision page = pp_revision p
     \<and> pp_source_sha p = Some (env_sha env (pj_content page)))"

definition with_locked_page ::
  "int \<Rightarrow> (projection_page option \<Rightarrow> ('z proj_db_scheme, 'a) tx) \<Rightarrow> ('z proj_db_scheme, 'a) tx" where
  "with_locked_page page work db =
     (if page < 1 \<or> page > 2147483647 then Inl Plain_error else work (sql_first (\<lambda>p. pj_id p = page) (o_pages db)) db)"

section \<open>Rearming\<close>

definition rearmed :: "effect_status \<Rightarrow> int \<Rightarrow> effect_row \<Rightarrow> effect_row" where
  "rearmed st now row = row\<lparr>ef_status := st, ef_attempts := 0, ef_available := now, ef_result := None, ef_postcondition := None,
     ef_lease_owner := None, ef_lease_token := None, ef_lease_expires := None, ef_updated := now\<rparr>"

record knowledge_rearm =
  kr_id :: string
  kr_page :: js_num
  kr_revision :: string
  kr_source :: string
  kr_location :: location
  kr_failed_before :: int

text \<open>\<^verbatim>\<open>rearmFailedKnowledgeEffect\<close>; the two canonical texts of locations are equal when the locations are.\<close>

definition knowledge_exhausted :: "string \<Rightarrow> int \<Rightarrow> effect_row \<Rightarrow> bool" where
  "knowledge_exhausted ident failed_before row = (ef_id row = ident \<and> ef_status row = E_failed \<and> 5 \<le> ef_attempts row
     \<and> ef_lease_token row = None \<and> ef_updated row \<le> failed_before)"

definition rearm_failed_knowledge :: "run_env \<Rightarrow> knowledge_rearm \<Rightarrow> int \<Rightarrow> ('z proj_db_scheme, bool) tx" where
  "rearm_failed_knowledge env i now db = (case kr_page i of
      Not_whole \<Rightarrow> Inl (outbox_error ''INVALID_PAGE_ID'')
    | Whole page \<Rightarrow>
        if \<not> valid_page_id (Whole page) then Inl (outbox_error ''INVALID_PAGE_ID'')
        else rbind (revision_string (kr_revision i)) (\<lambda>rv.
          if \<not> location_valid (kr_location i) then Inl Plain_error
          else case sql_first (\<lambda>r. ef_id r = kr_id i \<and> effect_is page rv Knowledge r) (o_effects db) of
            None \<Rightarrow> Inr (False, db)
          | Some existing \<Rightarrow> rbind (parse_row env existing) (\<lambda>p.
              if pp_desired p \<noteq> Present \<or> pp_source_sha p \<noteq> Some (env_sha env (kr_source i)) \<or> pp_location p \<noteq> Some (kr_location i)
              then Inl conflict_error
              else let sel = knowledge_exhausted (ef_id existing) (kr_failed_before i)
                in Inr (sql_count sel (o_effects db) = 1,
                        db\<lparr>o_effects := sql_update sel (rearmed E_pending now) (o_effects db)\<rparr>))))"

text \<open>\<^verbatim>\<open>rearmPageMutationEffect\<close>\<close>

definition rearm_fence :: "string \<Rightarrow> projection_payload \<Rightarrow> string \<Rightarrow> string \<Rightarrow> string \<Rightarrow> effect_row \<Rightarrow> bool" where
  "rearm_fence ident p encoded sha key row = (ef_id row = ident \<and> effect_is (pp_page p) (pp_revision p) (pp_kind p) row
     \<and> ef_key row = key \<and> ef_desired row = pp_desired p \<and> ef_payload row = encoded \<and> ef_sha row = sha
     \<and> (ef_status row = E_succeeded \<or> ef_status row = E_failed) \<and> ef_lease_token row = None)"

definition rearm_effect :: "run_env \<Rightarrow> string \<Rightarrow> projection_payload \<Rightarrow> int \<Rightarrow> ('z proj_db_scheme, bool) tx" where
  "rearm_effect env ident p now db =
     (if \<not> payload_valid p then Inl (outbox_error ''INVALID_OUTBOX_PAYLOAD'')
      else case sql_first (\<lambda>r. ef_id r = ident) (o_effects db) of
        None \<Rightarrow> Inr (False, db)
      | Some existing \<Rightarrow> rbind (parse_row env existing) (\<lambda>_.
          case canonical_json env (payload_value p) of
            None \<Rightarrow> Inl (outbox_error ''INVALID_CANONICAL_VALUE'')
          | Some encoded \<Rightarrow>
              let sha = env_sha env encoded; key = effect_key (pp_page p) (pp_kind p) in
              if ef_payload existing \<noteq> encoded \<or> ef_sha existing \<noteq> sha \<or> ef_key existing \<noteq> key then Inl conflict_error
              else let sel = rearm_fence (ef_id existing) p encoded sha key
                in Inr (sql_count sel (o_effects db) = 1,
                        db\<lparr>o_effects := sql_update sel (rearmed E_retry now) (o_effects db)\<rparr>)))"

section \<open>Admission of the current revision\<close>

record admit_options =
  ao_rearm :: bool
  ao_fence :: bool
  ao_action :: effect_action
  ao_at :: "int option"

definition rearm_options :: "bool \<Rightarrow> int option \<Rightarrow> admit_options" where
  "rearm_options fence at = \<lparr>ao_rearm = True, ao_fence = fence, ao_action = A_update, ao_at = at\<rparr>"

definition current_intent :: "projection_page \<Rightarrow> effect_kind \<Rightarrow> effect_action \<Rightarrow> effects_input" where
  "current_intent page kind action = \<lparr>eq_page = Whole (pj_id page), eq_revision = pj_revision page, eq_desired = Present,
     eq_action = action, eq_source = Some (pj_content page), eq_location = Some (pj_location page), eq_previous = None,
     eq_effects = Some [kind]\<rparr>"

definition may_rearm :: "admit_options \<Rightarrow> effect_row \<Rightarrow> bool" where
  "may_rearm opts row = ((ao_rearm opts \<and> (ef_status row = E_succeeded \<or> ef_status row = E_failed) \<and> ef_lease_token row = None)
     \<or> (ao_fence opts \<and> ef_status row = E_running))"

definition readmit ::
  "run_env \<Rightarrow> projection_page \<Rightarrow> effect_kind \<Rightarrow> admit_options \<Rightarrow> int \<Rightarrow> effect_row \<Rightarrow> ('z proj_db_scheme, string \<times> bool) tx" where
  "readmit env page kind opts clock existing db =
     rbind (parse_row env existing) (\<lambda>p.
       if ef_key existing \<noteq> effect_key (pj_id page) kind \<or> pp_desired p \<noteq> Present \<or> \<not> exact_source env page p then Inl conflict_error
       else if \<not> may_rearm opts existing then Inr ((ef_id existing, False), db)
       else let sel = \<lambda>r. ef_id r = ef_id existing \<and> ef_status r = ef_status existing
         in Inr ((ef_id existing, sql_count sel (o_effects db) = 1),
                 db\<lparr>o_effects := sql_update sel (rearmed E_retry (option_or (ao_at opts) clock)) (o_effects db)\<rparr>))"

text \<open>\<^verbatim>\<open>admitCurrentEffect\<close>: the intent, and whether it has to be carried out again.\<close>

definition admit_current ::
  "run_env \<Rightarrow> projection_page \<Rightarrow> effect_kind \<Rightarrow> admit_options \<Rightarrow> (effect_kind \<Rightarrow> string) \<Rightarrow> int \<Rightarrow> ('z proj_db_scheme, string \<times> bool) tx" where
  "admit_current env page kind opts fresh clock db =
     rbind (revision_string (pj_revision page)) (\<lambda>rv.
       case sql_first (effect_is (pj_id page) rv kind) (o_effects db) of
         Some existing \<Rightarrow> readmit env page kind opts clock existing db
       | None \<Rightarrow> rbind (enqueue_effects env (current_intent page kind (ao_action opts)) fresh clock db) (\<lambda>(ids, db').
           case ids of [] \<Rightarrow> Inl (outbox_error ''OUTBOX_ADMISSION_FAILED'') | ident # _ \<Rightarrow> Inr ((ident, True), db')))"

definition invalidate_rendered :: "int \<Rightarrow> 'z proj_db_scheme \<Rightarrow> 'z proj_db_scheme" where
  "invalidate_rendered page db = db\<lparr>
     o_pages := sql_update (\<lambda>p. pj_id p = page) (\<lambda>p. p\<lparr>pj_render := [], pj_rendered := None\<rparr>) (o_pages db),
     o_links := sql_delete (\<lambda>l. fst l = page) (o_links db),
     o_vectors := sql_delete (\<lambda>v. fst v = page) (o_vectors db),
     o_words := sql_delete (\<lambda>w. w = page) (o_words db)\<rparr>"

text \<open>What follows a new rendering: the old projections go, links and search are redone.\<close>

definition redo_dependents ::
  "run_env \<Rightarrow> projection_page \<Rightarrow> int option \<Rightarrow> (effect_kind \<Rightarrow> string) \<Rightarrow> int \<Rightarrow> ('z proj_db_scheme, unit) tx" where
  "redo_dependents env page at fresh clock db =
     rbind (admit_current env page Links (rearm_options True at) fresh clock (invalidate_rendered (pj_id page) db)) (\<lambda>(_, db1).
     rbind (admit_current env page Search (rearm_options True at) fresh clock db1) (\<lambda>(_, db2). Inr ((), db2)))"

text \<open>\<^verbatim>\<open>ensureRenderDependency\<close>\<close>

definition render_settled :: "run_env \<Rightarrow> projection_page \<Rightarrow> effect_row list \<Rightarrow> bool result" where
  "render_settled env page effects =
     rbind (revision_string (pj_revision page)) (\<lambda>rv.
       case sql_first (effect_is (pj_id page) rv Render) effects of
         None \<Rightarrow> Inr False
       | Some existing \<Rightarrow> rbind (parse_row env existing) (\<lambda>p.
           if pp_desired p \<noteq> Present \<or> \<not> exact_source env page p then Inl conflict_error
           else Inr (ef_status existing \<noteq> E_succeeded \<or> has_certified_render page)))"

definition ensure_render_dependency ::
  "run_env \<Rightarrow> projection_page \<Rightarrow> (effect_kind \<Rightarrow> string) \<Rightarrow> int \<Rightarrow> ('z proj_db_scheme, bool) tx" where
  "ensure_render_dependency env page fresh clock db =
     rbind (render_settled env page (o_effects db)) (\<lambda>settled.
       if settled then Inr (False, db)
       else rbind (admit_current env page Render (rearm_options False None) fresh clock db) (\<lambda>((_, changed), db1).
         if \<not> changed then Inr (False, db1)
         else rbind (redo_dependents env page None fresh clock db1) (\<lambda>(_, db2). Inr (True, db2))))"

text \<open>\<^verbatim>\<open>admitPageSearchEffect\<close>\<close>

definition is_protected :: "int \<Rightarrow> 'z proj_db_scheme \<Rightarrow> bool" where
  "is_protected page db = list_ex (\<lambda>w. pw_page w = page) (o_passwords db)"

definition admit_search ::
  "run_env \<Rightarrow> (string \<Rightarrow> int option) \<Rightarrow> js_num \<Rightarrow> int option \<Rightarrow> (effect_kind \<Rightarrow> string) \<Rightarrow> int \<Rightarrow> ('z proj_db_scheme, string) tx" where
  "admit_search env instant page_id at fresh clock db = (case page_id of
      Not_whole \<Rightarrow> Inl (outbox_error ''INVALID_PAGE_ID'')
    | Whole i \<Rightarrow>
        if \<not> valid_page_id (Whole i) then Inl (outbox_error ''INVALID_PAGE_ID'')
        else with_locked_page i (\<lambda>found db. case found of
            None \<Rightarrow> Inl (outbox_error ''PAGE_NOT_FOUND'')
          | Some page \<Rightarrow> rbind (admit_current env page Search (rearm_options True at) fresh clock db) (\<lambda>((ident, _), db1).
              if page_search_eligible instant page clock \<and> \<not> is_protected i db1
              then rbind (ensure_render_dependency env page fresh clock db1) (\<lambda>(_, db2). Inr (ident, db2))
              else Inr (ident, db1))) db)"

text \<open>\<^verbatim>\<open>admitPageRenderEffect\<close>\<close>

record render_admission =
  ra_page :: js_num
  ra_revision :: string
  ra_source :: string
  ra_location :: location
  ra_action :: "effect_action option"
  ra_at :: "int option"

definition render_matches :: "run_env \<Rightarrow> render_admission \<Rightarrow> string \<Rightarrow> projection_page \<Rightarrow> bool result" where
  "render_matches env i rv page = rbind (revision_string (pj_revision page)) (\<lambda>current.
     Inr (current = rv \<and> env_sha env (pj_content page) = env_sha env (ra_source i) \<and> pj_location page = ra_location i))"

definition admit_render_locked ::
  "run_env \<Rightarrow> render_admission \<Rightarrow> string \<Rightarrow> (effect_kind \<Rightarrow> string) \<Rightarrow> int \<Rightarrow> projection_page option \<Rightarrow> ('z proj_db_scheme, string \<times> string) tx" where
  "admit_render_locked env i rv fresh clock found db = (case found of
      None \<Rightarrow> Inl conflict_error
    | Some page \<Rightarrow> rbind (render_matches env i rv page) (\<lambda>same.
        if \<not> same then Inl conflict_error
        else rbind (admit_current env page Render \<lparr>ao_rearm = True, ao_fence = False, ao_action = option_or (ra_action i) A_update, ao_at = ra_at i\<rparr>
                      fresh clock db) (\<lambda>((ident, changed), db1).
          if \<not> changed then Inr ((ident, rv), db1)
          else rbind (redo_dependents env page (ra_at i) fresh clock db1) (\<lambda>(_, db2). Inr ((ident, rv), db2)))))"

definition admit_render :: "run_env \<Rightarrow> render_admission \<Rightarrow> (effect_kind \<Rightarrow> string) \<Rightarrow> int \<Rightarrow> ('z proj_db_scheme, string \<times> string) tx" where
  "admit_render env i fresh clock db = (case ra_page i of
      Not_whole \<Rightarrow> Inl (outbox_error ''INVALID_PAGE_ID'')
    | Whole page \<Rightarrow>
        if \<not> valid_page_id (Whole page) then Inl (outbox_error ''INVALID_PAGE_ID'')
        else rbind (revision_string (ra_revision i)) (\<lambda>rv.
          if \<not> location_valid (ra_location i) then Inl Plain_error
          else with_locked_page page (admit_render_locked env i rv fresh clock) db))"

section \<open>Superseded renderings and the status of an intent\<close>

definition superseded_result :: "run_env \<Rightarrow> string result" where
  "superseded_result env = (case canonical_json env (JObj [(''superseded'', JBool True)]) of None \<Rightarrow> Inl (outbox_error ''INVALID_CANONICAL_VALUE'') | Some s \<Rightarrow> Inr s)"

definition superseded_postcondition :: "run_env \<Rightarrow> string \<Rightarrow> string result" where
  "superseded_postcondition env rv = (case canonical_json env (JObj [(''satisfied'', JBool True), (''observedSourceRevision'', JStr rv),
       (''detail'', JStr ''Render intent was superseded by a newer page source revision'')]) of
     None \<Rightarrow> Inl (outbox_error ''INVALID_CANONICAL_VALUE'') | Some s \<Rightarrow> Inr s)"

definition stale_render :: "int \<Rightarrow> string \<Rightarrow> effect_row \<Rightarrow> bool" where
  "stale_render page rv row = (ef_page row = page \<and> ef_kind row = Render \<and> ef_revision row \<noteq> rv
     \<and> (ef_status row = E_pending \<or> ef_status row = E_retry) \<and> ef_lease_token row = None)"

text \<open>\<^verbatim>\<open>supersedeStalePageRenderEffects\<close>\<close>

definition supersede_stale :: "run_env \<Rightarrow> js_num \<Rightarrow> string \<Rightarrow> int \<Rightarrow> ('z proj_db_scheme, unit) tx" where
  "supersede_stale env page_id revision now db = (case page_id of
      Not_whole \<Rightarrow> Inl (outbox_error ''INVALID_PAGE_ID'')
    | Whole page \<Rightarrow>
        if \<not> valid_page_id (Whole page) then Inl (outbox_error ''INVALID_PAGE_ID'')
        else rbind (revision_string revision) (\<lambda>rv.
          rbind (superseded_result env) (\<lambda>res.
          rbind (superseded_postcondition env rv) (\<lambda>post.
          Inr ((), db\<lparr>o_effects := sql_update (stale_render page rv) (\<lambda>r. r\<lparr>ef_status := E_superseded, ef_result := Some res,
                 ef_postcondition := Some post, ef_lease_owner := None, ef_lease_token := None, ef_lease_expires := None,
                 ef_updated := now\<rparr>) (o_effects db)\<rparr>)))))"

datatype render_status = RS_pending | RS_leased | RS_succeeded | RS_failed | RS_superseded

record render_view =
  rv_effect :: string
  rv_page :: int
  rv_revision :: string
  rv_status :: render_status
  rv_result :: js_value
  rv_postcondition :: js_value

definition stored_json :: "run_env \<Rightarrow> string option \<Rightarrow> js_value" where
  "stored_json env v = (case v of None \<Rightarrow> JNull | Some s \<Rightarrow> (case env_parse env s of None \<Rightarrow> JNull | Some j \<Rightarrow> j))"

definition result_is_superseded :: "js_value \<Rightarrow> bool" where
  "result_is_superseded v = (js_is_record v \<and> js_get ''superseded'' v = JBool True)"

definition render_state :: "bool \<Rightarrow> effect_row \<Rightarrow> int \<Rightarrow> render_status" where
  "render_state superseded row now =
     (if superseded then RS_superseded
      else if ef_status row = E_succeeded then RS_succeeded
      else if ef_status row = E_failed then RS_failed
      else if ef_lease_token row \<noteq> None \<and> (case ef_lease_expires row of None \<Rightarrow> False | Some t \<Rightarrow> now < t) then RS_leased
      else RS_pending)"

text \<open>\<^verbatim>\<open>readPageRenderEffectStatus\<close>\<close>

definition read_render_status :: "run_env \<Rightarrow> string \<Rightarrow> int \<Rightarrow> 'z proj_db_scheme \<Rightarrow> render_view option result" where
  "read_render_status env ident now db =
     (if ident = [] \<or> length ident > 255 then Inr None
      else case sql_first (\<lambda>r. ef_id r = ident \<and> ef_kind r = Render) (o_effects db) of
        None \<Rightarrow> Inr None
      | Some row \<Rightarrow> rbind (parse_row env row) (\<lambda>p.
          rbind (case sql_first (\<lambda>g. pj_id g = ef_page row) (o_pages db) of
                   None \<Rightarrow> Inr None | Some g \<Rightarrow> rbind (revision_string (pj_revision g)) (\<lambda>rv. Inr (Some rv))) (\<lambda>current.
          let res = stored_json env (ef_result row);
              superseded = current \<noteq> Some (pp_revision p) \<or> ef_status row = E_superseded \<or> result_is_superseded res
          in Inr (Some \<lparr>rv_effect = ef_id row, rv_page = ef_page row, rv_revision = pp_revision p,
               rv_status = render_state superseded row now, rv_result = res, rv_postcondition = stored_json env (ef_postcondition row)\<rparr>))))"

end
