(* ===== verification/ProjectionClaims.thy ===== *)
theory ProjectionClaims
  imports ProjectionAdmission "HOL-Library.Product_Lexorder" "HOL-Library.List_Lexorder" "HOL-Library.Char_ord"
begin

text \<open>
  Workers of the page projection outbox (\<^verbatim>\<open>server/core/page-mutation-outbox.ts\<close>): claiming
  due intents, carrying one out through its sink, and recording the outcome. The lease token a
  claim draws for an intent is \<open>token\<close>; \<open>describe\<close> gives the message of an error, which
  \<^typ>\<open>js_error\<close> does not carry.
\<close>

section \<open>Claims\<close>

record effect_claim_input =
  ec_owner :: string
  ec_limit :: "js_num option"
  ec_max_active :: "js_num option"
  ec_lease_ms :: "js_num option"
  ec_effects :: "effect_kind list option"

record effect_claim =
  ek_id :: string
  ek_token :: string
  ek_attempts :: int
  ek_payload :: projection_payload

definition waiting :: "effect_row \<Rightarrow> bool" where
  "waiting r = (ef_status r = E_pending \<or> ef_status r = E_retry)"

definition lease_free :: "int \<Rightarrow> effect_row \<Rightarrow> bool" where
  "lease_free now r = (ef_lease_token r = None \<or> (case ef_lease_expires r of None \<Rightarrow> False | Some t \<Rightarrow> t \<le> now))"

definition lease_over :: "int \<Rightarrow> effect_row \<Rightarrow> bool" where
  "lease_over now r = (ef_status r = E_running \<and> (case ef_lease_expires r of None \<Rightarrow> False | Some t \<Rightarrow> t \<le> now))"

text \<open>The page of an intent at the intent's revision, and a rendering that is certified for it.\<close>

definition current_page :: "effect_row \<Rightarrow> projection_page \<Rightarrow> bool" where
  "current_page r p = (pj_id p = ef_page r \<and> pj_revision p = ef_revision r)"

definition render_ready :: "'z proj_db_scheme \<Rightarrow> effect_row \<Rightarrow> bool" where
  "render_ready db r = (list_ex (\<lambda>p. current_page r p \<and> has_certified_render p) (o_pages db)
     \<and> list_ex (\<lambda>d. ef_page d = ef_page r \<and> ef_revision d = ef_revision r \<and> ef_kind d = Render \<and> ef_status d = E_succeeded) (o_effects db))"

definition links_may_run :: "'z proj_db_scheme \<Rightarrow> effect_row \<Rightarrow> bool" where
  "links_may_run db r = (ef_kind r \<noteq> Links \<or> ef_desired r \<noteq> Present \<or> render_ready db r \<or> \<not> list_ex (current_page r) (o_pages db))"

definition search_may_run :: "(string \<Rightarrow> int option) \<Rightarrow> int \<Rightarrow> 'z proj_db_scheme \<Rightarrow> effect_row \<Rightarrow> bool" where
  "search_may_run instant now db r = (ef_kind r \<noteq> Search \<or> ef_desired r \<noteq> Present
     \<or> \<not> list_ex (\<lambda>p. current_page r p \<and> page_search_eligible instant p now \<and> \<not> is_protected (pj_id p) db) (o_pages db)
     \<or> render_ready db r)"

definition claim_ready :: "(string \<Rightarrow> int option) \<Rightarrow> effect_kind list \<Rightarrow> int \<Rightarrow> 'z proj_db_scheme \<Rightarrow> effect_row \<Rightarrow> bool" where
  "claim_ready instant kinds now db r = (waiting r \<and> ef_kind r \<in> set kinds \<and> ef_available r \<le> now \<and> lease_free now r
     \<and> links_may_run db r \<and> search_may_run instant now db r)"

definition effect_order :: "effect_row \<Rightarrow> int \<times> int \<times> string" where
  "effect_order r = (ef_available r, ef_created r, ef_id r)"

definition due_effects :: "(string \<Rightarrow> int option) \<Rightarrow> effect_kind list \<Rightarrow> int \<Rightarrow> nat \<Rightarrow> 'z proj_db_scheme \<Rightarrow> effect_row list" where
  "due_effects instant kinds now n db = take n (sort_key effect_order (filter (claim_ready instant kinds now db) (o_effects db)))"

text \<open>An intent whose payload does not survive its check is set aside.\<close>

definition quarantine_result :: "run_env \<Rightarrow> (js_error \<Rightarrow> string) \<Rightarrow> js_error \<Rightarrow> string option" where
  "quarantine_result env describe e = canonical_json env (JObj [(''quarantined'', JBool True),
     (''code'', case e of Coded c _ \<Rightarrow> JStr c | _ \<Rightarrow> JUndefined), (''error'', JStr (take 1000 (describe e)))])"

definition quarantine_postcondition :: "run_env \<Rightarrow> (js_error \<Rightarrow> string) \<Rightarrow> js_error \<Rightarrow> string option" where
  "quarantine_postcondition env describe e = canonical_json env (JObj [(''satisfied'', JBool False),
     (''observedSourceRevision'', JNull), (''detail'', JStr (take 1000 (describe e)))])"

definition released :: "effect_status \<Rightarrow> int \<Rightarrow> effect_row \<Rightarrow> effect_row" where
  "released st now r = r\<lparr>ef_status := st, ef_lease_owner := None, ef_lease_token := None, ef_lease_expires := None, ef_updated := now\<rparr>"

definition leased_effect :: "string \<Rightarrow> string \<Rightarrow> int \<Rightarrow> int \<Rightarrow> effect_row \<Rightarrow> effect_row" where
  "leased_effect owner tok expires now r = r\<lparr>ef_status := E_running, ef_attempts := ef_attempts r + 1, ef_lease_owner := Some owner,
     ef_lease_token := Some tok, ef_lease_expires := Some expires, ef_updated := now\<rparr>"

record claim_config =
  cc_env :: run_env
  cc_describe :: "js_error \<Rightarrow> string"
  cc_instant :: "string \<Rightarrow> int option"
  cc_token :: "string \<Rightarrow> string"
  cc_owner :: string
  cc_lease :: int
  cc_kinds :: "effect_kind list"
  cc_now :: int

type_synonym claim_progress = "effect_claim list \<times> bool"

text \<open>One candidate: the claims so far, and whether a candidate was set aside in this round.\<close>

definition same_effect :: "effect_row \<Rightarrow> effect_row \<Rightarrow> bool" where
  "same_effect row r = (ef_id r = ef_id row \<and> ef_status r = ef_status row)"

definition claim_effect :: "claim_config \<Rightarrow> effect_row \<Rightarrow> claim_progress \<times> 'z proj_db_scheme \<Rightarrow> (claim_progress \<times> 'z proj_db_scheme) result" where
  "claim_effect cfg row st = (case st of ((claimed, removed), db) \<Rightarrow>
     (case parse_row (cc_env cfg) row of
        Inl e \<Rightarrow>
          (case (quarantine_result (cc_env cfg) (cc_describe cfg) e, quarantine_postcondition (cc_env cfg) (cc_describe cfg) e) of
             (Some res, Some post) \<Rightarrow>
               Inr ((claimed, removed \<or> sql_count (same_effect row) (o_effects db) = 1),
                    db\<lparr>o_effects := sql_update (same_effect row)
                         (\<lambda>r. (released E_failed (cc_now cfg) r)\<lparr>ef_result := Some res, ef_postcondition := Some post\<rparr>) (o_effects db)\<rparr>)
           | _ \<Rightarrow> Inl (outbox_error ''INVALID_CANONICAL_VALUE''))
      | Inr p \<Rightarrow>
          let fence = \<lambda>r. same_effect row r \<and> lease_free (cc_now cfg) r;
              db' = db\<lparr>o_effects := sql_update fence (leased_effect (cc_owner cfg) (cc_token cfg (ef_id row))
                        (cc_now cfg + cc_lease cfg) (cc_now cfg)) (o_effects db)\<rparr>
          in if sql_count fence (o_effects db) = 1
             then Inr ((claimed @ [\<lparr>ek_id = ef_id row, ek_token = cc_token cfg (ef_id row), ek_attempts = ef_attempts row + 1,
                         ek_payload = p\<rparr>], removed), db')
             else Inr ((claimed, removed), db')))"

text \<open>The \<^verbatim>\<open>while\<close> loop of a claim; the outer \<^term>\<open>None\<close> would be a loop that does not end.\<close>

partial_function (option) claim_rounds ::
  "claim_config \<Rightarrow> nat \<Rightarrow> effect_claim list \<Rightarrow> 'z proj_db_scheme \<Rightarrow> (effect_claim list \<times> 'z proj_db_scheme) result option" where
  [code]: "claim_rounds cfg limit claimed db =
     (if \<not> length claimed < limit then Some (Inr (claimed, db))
      else case due_effects (cc_instant cfg) (cc_kinds cfg) (cc_now cfg) (limit - length claimed) db of
        [] \<Rightarrow> Some (Inr (claimed, db))
      | row # rows \<Rightarrow>
          (case rfold (claim_effect cfg) (row # rows) ((claimed, False), db) of
             Inl e \<Rightarrow> Some (Inl e)
           | Inr ((claimed', removed), db') \<Rightarrow>
               if length claimed' = length claimed \<and> \<not> removed then Some (Inr (claimed', db'))
               else claim_rounds cfg limit claimed' db'))"

definition lease_bounds :: "effect_claim_input \<Rightarrow> (nat \<times> int \<times> nat option) result" where
  "lease_bounds i = (case (option_or (ec_limit i) (Whole 10), option_or (ec_lease_ms i) (Whole 60000), ec_max_active i) of
      (Whole n, Whole ms, None) \<Rightarrow>
        if 1 \<le> n \<and> n \<le> 128 \<and> 1000 \<le> ms \<and> ms \<le> 600000 then Inr (nat n, ms, None) else Inl (outbox_error ''INVALID_LEASE'')
    | (Whole n, Whole ms, Some (Whole m)) \<Rightarrow>
        if 1 \<le> n \<and> n \<le> 128 \<and> 1000 \<le> ms \<and> ms \<le> 600000 \<and> 1 \<le> m \<and> m \<le> 128 then Inr (nat n, ms, Some (nat m)) else Inl (outbox_error ''INVALID_LEASE'')
    | _ \<Rightarrow> Inl (outbox_error ''INVALID_LEASE''))"

text \<open>The probe before the transaction.\<close>

definition claim_probe :: "effect_kind list \<Rightarrow> bool \<Rightarrow> int \<Rightarrow> effect_row \<Rightarrow> bool" where
  "claim_probe kinds bounded now r = ((waiting r \<and> ef_kind r \<in> set kinds \<and> ef_available r \<le> now \<and> lease_free now r)
     \<or> (lease_over now r \<and> (bounded \<longrightarrow> ef_kind r \<in> set kinds)))"

definition release_expired :: "effect_kind list \<Rightarrow> bool \<Rightarrow> int \<Rightarrow> effect_row list \<Rightarrow> effect_row list" where
  "release_expired kinds bounded now rows =
     sql_update (\<lambda>r. lease_over now r \<and> (bounded \<longrightarrow> ef_kind r \<in> set kinds)) (released E_pending now) rows"

definition active_effects :: "effect_kind list \<Rightarrow> int \<Rightarrow> effect_row list \<Rightarrow> nat" where
  "active_effects kinds now rows = sql_count (\<lambda>r. ef_status r = E_running \<and> ef_kind r \<in> set kinds
     \<and> (case ef_lease_expires r of None \<Rightarrow> False | Some t \<Rightarrow> now < t)) rows"

definition claim_limit :: "nat \<Rightarrow> nat option \<Rightarrow> nat \<Rightarrow> nat" where
  "claim_limit limit bound active = (case bound of None \<Rightarrow> limit | Some m \<Rightarrow> min limit (m - active))"

definition claim_setup ::
  "run_env \<Rightarrow> (js_error \<Rightarrow> string) \<Rightarrow> (string \<Rightarrow> int option) \<Rightarrow> (string \<Rightarrow> string) \<Rightarrow> effect_claim_input \<Rightarrow> int \<Rightarrow>
   (claim_config \<times> nat \<times> nat option) result" where
  "claim_setup env describe instant token i now =
     (if ec_owner i = [] \<or> length (ec_owner i) > 255 then Inl (outbox_error ''INVALID_LEASE_OWNER'')
      else rbind (lease_bounds i) (\<lambda>(limit, ms, bound).
        let kinds = option_or (ec_effects i) all_effects in
        if kinds = [] \<or> \<not> distinct kinds then Inl (outbox_error ''INVALID_EFFECT_SET'')
        else Inr (\<lparr>cc_env = env, cc_describe = describe, cc_instant = instant, cc_token = token, cc_owner = ec_owner i, cc_lease = ms,
                   cc_kinds = kinds, cc_now = now\<rparr>, limit, bound)))"

text \<open>\<^verbatim>\<open>claimPageMutationEffects\<close>\<close>

definition claim_in_tx :: "claim_config \<Rightarrow> nat \<Rightarrow> nat option \<Rightarrow> 'z proj_db_scheme \<Rightarrow> (effect_claim list \<times> 'z proj_db_scheme) result option" where
  "claim_in_tx cfg limit bound db =
     (let bounded = (bound \<noteq> None); rows = release_expired (cc_kinds cfg) bounded (cc_now cfg) (o_effects db);
          n = claim_limit limit bound (active_effects (cc_kinds cfg) (cc_now cfg) rows); db1 = db\<lparr>o_effects := rows\<rparr>
      in if n = 0 then Some (Inr ([], db1)) else claim_rounds cfg n [] db1)"

definition claim_effects ::
  "run_env \<Rightarrow> (js_error \<Rightarrow> string) \<Rightarrow> (string \<Rightarrow> int option) \<Rightarrow> (string \<Rightarrow> string) \<Rightarrow> effect_claim_input \<Rightarrow> int \<Rightarrow>
   'z proj_db_scheme \<Rightarrow> (effect_claim list \<times> 'z proj_db_scheme) result option" where
  "claim_effects env describe instant token i now db = (case claim_setup env describe instant token i now of
      Inl e \<Rightarrow> Some (Inl e)
    | Inr (cfg, limit, bound) \<Rightarrow>
        if \<not> list_ex (claim_probe (cc_kinds cfg) (bound \<noteq> None) now) (o_effects db) then Some (Inr ([], db))
        else claim_in_tx cfg limit bound db)"

section \<open>Carrying out a claim\<close>

definition holds_effect :: "effect_claim \<Rightarrow> effect_row \<Rightarrow> bool" where
  "holds_effect c r = (ef_id r = ek_id c \<and> ef_status r = E_running \<and> ef_lease_token r = Some (ek_token c))"

definition lease_lost_error :: js_error where
  "lease_lost_error = outbox_error ''PROJECTION_LEASE_LOST''"

text \<open>\<^verbatim>\<open>finishClaim\<close>\<close>

definition finish_claim :: "effect_claim \<Rightarrow> (effect_row \<Rightarrow> effect_row) \<Rightarrow> effect_status \<Rightarrow> int \<Rightarrow> ('z proj_db_scheme, unit) tx" where
  "finish_claim c change st now db =
     (if sql_count (holds_effect c) (o_effects db) \<noteq> 1 then Inl lease_lost_error
      else Inr ((), db\<lparr>o_effects := sql_update (holds_effect c) (\<lambda>r. released st now (change r)) (o_effects db)\<rparr>))"

text \<open>
  What a sink reports: it throws, its report does not conform to \<^verbatim>\<open>PageProjectionSinkResultSchema\<close>,
  or it conforms and says whether its postcondition is satisfied. The texts are those the
  source stores.
\<close>

datatype sink_report = Sink_threw string | Sink_invalid | Sink_result bool string string

definition retry_delay :: "int \<Rightarrow> int" where
  "retry_delay attempts = min 60000 (1000 * 2 ^ nat (min attempts 6))"

definition outcome_change :: "(string \<Rightarrow> string) \<Rightarrow> effect_claim \<Rightarrow> sink_report \<Rightarrow> int \<Rightarrow> effect_status \<times> (effect_row \<Rightarrow> effect_row)" where
  "outcome_change error_text c report now = (case report of
      Sink_threw message \<Rightarrow> (if ek_attempts c < 5 then E_retry else E_failed,
        \<lambda>r. r\<lparr>ef_available := now + retry_delay (ek_attempts c), ef_result := Some (error_text (take 4000 message))\<rparr>)
    | Sink_invalid \<Rightarrow> (E_failed, \<lambda>r. r\<lparr>ef_result := Some (error_text ''Sink returned an invalid result''),
        ef_postcondition := Some ''{\"satisfied\":false,\"observedSourceRevision\":null,\"detail\":\"invalid sink result\"}''\<rparr>)
    | Sink_result satisfied res post \<Rightarrow> (if satisfied then E_succeeded else E_failed,
        \<lambda>r. r\<lparr>ef_result := Some res, ef_postcondition := Some post\<rparr>))"

definition error_json :: "string \<Rightarrow> string" where
  "error_json message = ''{'' @ json_string ''error'' @ '':'' @ json_string message @ ''}''"

definition outcome_error :: "sink_report \<Rightarrow> unit result" where
  "outcome_error report = (case report of
      Sink_threw _ \<Rightarrow> Inl Plain_error
    | Sink_invalid \<Rightarrow> Inl (outbox_error ''PROJECTION_POSTCONDITION_FAILED'')
    | Sink_result satisfied _ _ \<Rightarrow> if satisfied then Inr () else Inl (outbox_error ''PROJECTION_POSTCONDITION_FAILED''))"

text \<open>
  \<^verbatim>\<open>executePageMutationEffect\<close> as its three statements: the check of the lease, the sink, which
  works on the database by itself, and the record of its outcome. The last commits even when the
  function then throws, so its result stands beside the new state.
\<close>

definition owns_effect :: "effect_claim \<Rightarrow> int \<Rightarrow> 'z proj_db_scheme \<Rightarrow> bool" where
  "owns_effect c now db = list_ex (\<lambda>r. holds_effect c r \<and> (case ef_lease_expires r of None \<Rightarrow> False | Some t \<Rightarrow> now < t)) (o_effects db)"

definition record_outcome :: "effect_claim \<Rightarrow> sink_report \<Rightarrow> int \<Rightarrow> 'z proj_db_scheme \<Rightarrow> unit result \<times> 'z proj_db_scheme" where
  "record_outcome c report now db = (case outcome_change error_json c report now of (st, change) \<Rightarrow>
     (case finish_claim c change st now db of Inl e \<Rightarrow> (Inl e, db) | Inr (_, db') \<Rightarrow> (outcome_error report, db')))"

type_synonym 'db effect_sink = "projection_payload \<Rightarrow> effect_claim \<Rightarrow> 'db \<Rightarrow> sink_report \<times> 'db"

definition execute_effect ::
  "(effect_kind \<Rightarrow> 'z proj_db_scheme effect_sink option) \<Rightarrow> effect_claim \<Rightarrow> bool \<Rightarrow> int \<Rightarrow> int \<Rightarrow> 'z proj_db_scheme \<Rightarrow> unit result \<times> 'z proj_db_scheme" where
  "execute_effect sinks c aborted started now db =
     (if aborted then (Inl (outbox_error ''PROJECTION_ABORTED''), db)
      else if \<not> owns_effect c started db then (Inl lease_lost_error, db)
      else case sinks (pp_kind (ek_payload c)) of
        None \<Rightarrow> (case finish_claim c (\<lambda>r. r\<lparr>ef_result := Some (error_json ''No conforming projection sink is registered'')\<rparr>) E_failed now db of
            Inl e \<Rightarrow> (Inl e, db) | Inr (_, db') \<Rightarrow> (Inl (outbox_error ''MISSING_PROJECTION_SINK''), db'))
      | Some sink \<Rightarrow> (case sink (ek_payload c) c db of (report, db1) \<Rightarrow> record_outcome c report now db1))"

text \<open>The heartbeat of a worker in \<^verbatim>\<open>#executeClaim\<close>; without it the worker aborts.\<close>

definition heartbeat_effect :: "effect_claim \<Rightarrow> int \<Rightarrow> ('z proj_db_scheme, bool) tx" where
  "heartbeat_effect c now db =
     (let sel = \<lambda>r. holds_effect c r \<and> (case ef_lease_expires r of None \<Rightarrow> False | Some t \<Rightarrow> now < t)
      in Inr (sql_count sel (o_effects db) = 1,
              db\<lparr>o_effects := sql_update sel (\<lambda>r. r\<lparr>ef_lease_expires := Some (now + 60000), ef_updated := now\<rparr>) (o_effects db)\<rparr>))"

end
