(* ===== verification/ProjectionLaws.thy ===== *)
theory ProjectionLaws
  imports ProjectionClaims
begin

text \<open>
  The properties of the page projection outbox: what an intent keeps through every operation,
  what workers may do with it, that claims end and respect the order of projections.
\<close>

section \<open>What operations do to intents\<close>

definition effect_ok :: "run_env \<Rightarrow> effect_row \<Rightarrow> bool" where
  "effect_ok env r = (0 \<le> ef_attempts r \<and> ef_sha r = env_sha env (ef_payload r) \<and> ef_key r = effect_key (ef_page r) (ef_kind r)
     \<and> (ef_lease_token r \<noteq> None \<longleftrightarrow> ef_status r = E_running)
     \<and> (ef_lease_expires r \<noteq> None \<longleftrightarrow> ef_status r = E_running))"

definition intent_of :: "effect_row \<Rightarrow> int \<times> string \<times> effect_kind" where
  "intent_of r = (ef_page r, ef_revision r, ef_kind r)"

definition rows_inv :: "run_env \<Rightarrow> effect_row list \<Rightarrow> bool" where
  "rows_inv env rows = (unique_key ef_id rows \<and> unique_key intent_of rows \<and> (\<forall>r\<in>set rows. effect_ok env r))"

definition same_content :: "effect_row \<Rightarrow> effect_row \<Rightarrow> bool" where
  "same_content r s = (ef_id s = ef_id r \<and> ef_page s = ef_page r \<and> ef_revision s = ef_revision r \<and> ef_kind s = ef_kind r
     \<and> ef_key s = ef_key r \<and> ef_desired s = ef_desired r \<and> ef_sha s = ef_sha r \<and> ef_payload s = ef_payload r
     \<and> ef_created s = ef_created r)"

lemma same_content_refl [simp]: "same_content r r"
  by (simp add: same_content_def)

lemma same_content_trans: "same_content r s \<Longrightarrow> same_content s t \<Longrightarrow> same_content r t"
  by (simp add: same_content_def)

text \<open>The lease tokens of a table come from an earlier table or from \<open>T\<close>.\<close>

definition tokens_from :: "string set \<Rightarrow> effect_row list \<Rightarrow> effect_row list \<Rightarrow> bool" where
  "tokens_from T rows rows' = (\<forall>s\<in>set rows'. \<forall>t. ef_lease_token s = Some t \<longrightarrow> t \<in> T \<or> (\<exists>r\<in>set rows. ef_lease_token r = Some t))"

definition rows_kept :: "string set \<Rightarrow> effect_row list \<Rightarrow> effect_row list \<Rightarrow> bool" where
  "rows_kept T rows rows' = ((\<forall>r\<in>set rows. \<exists>s\<in>set rows'. same_content r s) \<and> tokens_from T rows rows')"

lemma rows_kept_refl [simp]: "rows_kept T rows rows"
  unfolding rows_kept_def tokens_from_def using same_content_refl by blast

lemma rows_kept_trans:
  assumes "rows_kept T a b" "rows_kept T b c"
  shows "rows_kept T a c"
proof -
  have "\<exists>t\<in>set c. same_content r t" if "r \<in> set a" for r
  proof -
    from that assms(1) obtain s where "s \<in> set b" "same_content r s" by (auto simp: rows_kept_def)
    moreover with assms(2) obtain t where "t \<in> set c" "same_content s t" by (auto simp: rows_kept_def)
    ultimately show ?thesis using same_content_trans by blast
  qed
  moreover have "tokens_from T a c"
    using assms unfolding rows_kept_def tokens_from_def by meson
  ultimately show ?thesis by (simp add: rows_kept_def)
qed

text \<open>A step of the outbox: it keeps the invariant, the intents, and draws tokens from \<open>T\<close> only.\<close>

definition outbox_step :: "run_env \<Rightarrow> string set \<Rightarrow> effect_row list \<Rightarrow> effect_row list \<Rightarrow> bool" where
  "outbox_step env T rows rows' = (rows_inv env rows \<longrightarrow> rows_inv env rows' \<and> rows_kept T rows rows')"

lemma outbox_step_refl [simp]: "outbox_step env T rows rows"
  by (simp add: outbox_step_def)

lemma outbox_step_trans: "outbox_step env T a b \<Longrightarrow> outbox_step env T b c \<Longrightarrow> outbox_step env T a c"
  unfolding outbox_step_def using rows_kept_trans by blast

lemma outbox_step_mono: "outbox_step env T a b \<Longrightarrow> T \<subseteq> U \<Longrightarrow> outbox_step env U a b"
  unfolding outbox_step_def rows_kept_def tokens_from_def by blast

definition changes_row :: "run_env \<Rightarrow> string set \<Rightarrow> (effect_row \<Rightarrow> effect_row) \<Rightarrow> effect_row \<Rightarrow> bool" where
  "changes_row env T f r = (effect_ok env (f r) \<and> same_content r (f r)
     \<and> (ef_lease_token (f r) = ef_lease_token r \<or> ef_lease_token (f r) = None \<or> (\<exists>t\<in>T. ef_lease_token (f r) = Some t)))"

lemma outbox_step_update:
  assumes "\<And>r. r \<in> set rows \<Longrightarrow> p r \<Longrightarrow> effect_ok env r \<Longrightarrow> changes_row env T f r"
    and "\<And>r. ef_id (f r) = ef_id r" "\<And>r. intent_of (f r) = intent_of r"
  shows "outbox_step env T rows (sql_update p f rows)"
  unfolding outbox_step_def
proof
  assume inv: "rows_inv env rows"
  have ch: "changes_row env T f r" if "r \<in> set rows" "p r" for r
    using assms(1) [OF that] inv that(1) by (simp add: rows_inv_def)
  have "rows_inv env (sql_update p f rows)"
    using inv ch assms(2,3) unfolding rows_inv_def
    by (auto simp: unique_key_update set_sql_update changes_row_def)
  moreover have "\<exists>s\<in>set (sql_update p f rows). same_content r s" if "r \<in> set rows" for r
    using ch that by (intro bexI [of _ "if p r then f r else r"]) (auto simp: set_sql_update changes_row_def)
  moreover have "tokens_from T rows (sql_update p f rows)"
    unfolding tokens_from_def
  proof (intro ballI allI impI)
    fix s t assume s: "s \<in> set (sql_update p f rows)" and t: "ef_lease_token s = Some t"
    from set_sql_updateD [OF s] obtain r where r: "r \<in> set rows" "s = (if p r then f r else r)" by blast
    then show "t \<in> T \<or> (\<exists>r\<in>set rows. ef_lease_token r = Some t)"
      using ch [OF r(1)] t by (cases "p r") (auto simp: changes_row_def)
  qed
  ultimately show "rows_inv env (sql_update p f rows) \<and> rows_kept T rows (sql_update p f rows)"
    by (simp add: rows_kept_def)
qed

lemma outbox_step_insert:
  assumes "ef_id s \<notin> ef_id ` set rows" "intent_of s \<notin> intent_of ` set rows" "effect_ok env s" "ef_lease_token s = None"
  shows "outbox_step env T rows (sql_insert s rows)"
  using assms unfolding outbox_step_def rows_inv_def rows_kept_def tokens_from_def
  by (auto simp: unique_key_insert intro: same_content_refl)

lemma rearmed_fields [simp]:
  "ef_id (rearmed st now r) = ef_id r" "intent_of (rearmed st now r) = intent_of r" "same_content r (rearmed st now r)"
  by (simp_all add: rearmed_def intent_of_def same_content_def)

lemma released_fields [simp]:
  "ef_id (released st now r) = ef_id r" "intent_of (released st now r) = intent_of r" "same_content r (released st now r)"
  by (simp_all add: released_def intent_of_def same_content_def)

lemma rearmed_changes: "effect_ok env r \<Longrightarrow> st \<noteq> E_running \<Longrightarrow> changes_row env T (rearmed st now) r"
  by (simp add: changes_row_def) (simp add: rearmed_def effect_ok_def)

lemma released_changes: "effect_ok env r \<Longrightarrow> st \<noteq> E_running \<Longrightarrow> changes_row env T (released st now) r"
  by (simp add: changes_row_def) (simp add: released_def effect_ok_def)

section \<open>Each operation is a step\<close>

lemma enqueue_one_step:
  assumes "enqueue_one env p ident now db = Inr (x, db')"
  shows "outbox_step env T (o_effects db) (o_effects db')"
proof -
  from assms obtain encoded where enc: "canonical_json env (payload_value p) = Some encoded" and v: "payload_valid p"
    by (auto simp: enqueue_one_def split: if_splits option.splits)
  show ?thesis
  proof (cases "sql_first (effect_is (pp_page p) (pp_revision p) (pp_kind p)) (o_effects db)")
    case None
    with assms enc v have new: "ident \<notin> ef_id ` set (o_effects db)"
      and db': "o_effects db' = sql_insert (new_effect env ident encoded p now) (o_effects db)"
      by (auto simp: enqueue_one_def split: if_splits)
    from None have "intent_of (new_effect env ident encoded p now) \<notin> intent_of ` set (o_effects db)"
      by (auto simp: sql_first_None intent_of_def new_effect_def effect_is_def)
    then show ?thesis using new unfolding db'
      by (intro outbox_step_insert) (simp_all add: new_effect_def effect_ok_def)
  next
    case (Some row)
    with assms enc v have "db' = db" by (auto simp: enqueue_one_def split: if_splits)
    then show ?thesis by simp
  qed
qed

lemma enqueue_all_step: "enqueue_all env i page rv fresh now ks db = Inr (x, db') \<Longrightarrow> outbox_step env T (o_effects db) (o_effects db')"
proof (induction ks arbitrary: db x)
  case (Cons k ks)
  from Cons.prems obtain y db1 z where "enqueue_one env (intent_payload env i page rv k) (fresh k) now db = Inr (y, db1)"
    "enqueue_all env i page rv fresh now ks db1 = Inr (z, db')"
    by (auto simp: rbind_Inr_iff split: prod.splits)
  with Cons.IH enqueue_one_step show ?case using outbox_step_trans by blast
qed simp

lemma enqueue_effects_step: "enqueue_effects env i fresh now db = Inr (x, db') \<Longrightarrow> outbox_step env T (o_effects db) (o_effects db')"
  by (auto simp: enqueue_effects_def rbind_Inr_iff Let_def split: js_num.splits if_splits intro: enqueue_all_step)

lemma rearm_knowledge_step: "rearm_failed_knowledge env i now db = Inr (x, db') \<Longrightarrow> outbox_step env T (o_effects db) (o_effects db')"
  by (auto simp: rearm_failed_knowledge_def rbind_Inr_iff Let_def split: js_num.splits if_splits option.splits
      intro!: outbox_step_update rearmed_changes)

lemma rearm_effect_step: "rearm_effect env ident p now db = Inr (x, db') \<Longrightarrow> outbox_step env T (o_effects db) (o_effects db')"
  by (auto simp: rearm_effect_def rbind_Inr_iff Let_def split: if_splits option.splits intro!: outbox_step_update rearmed_changes)

lemma readmit_step: "readmit env page kind opts clock existing db = Inr (x, db') \<Longrightarrow> outbox_step env T (o_effects db) (o_effects db')"
  by (auto simp: readmit_def rbind_Inr_iff Let_def split: if_splits intro!: outbox_step_update rearmed_changes)

lemma admit_current_step:
  assumes "admit_current env page kind opts fresh clock db = Inr (x, db')"
  shows "outbox_step env T (o_effects db) (o_effects db')"
proof (cases "sql_first (effect_is (pj_id page) (pj_revision page) kind) (o_effects db)")
  case None
  with assms obtain ids db1 where e: "enqueue_effects env (current_intent page kind (ao_action opts)) fresh clock db = Inr (ids, db1)"
    and r: "(case ids of [] \<Rightarrow> Inl (outbox_error ''OUTBOX_ADMISSION_FAILED'') | ident # _ \<Rightarrow> Inr ((ident, True), db1)) = Inr (x, db')"
    by (auto simp: admit_current_def revision_string_def rbind_Inr_iff split: if_splits)
  from r have "db1 = db'" by (cases ids) auto
  with enqueue_effects_step [OF e] show ?thesis by simp
next
  case (Some row)
  with assms have "readmit env page kind opts clock row db = Inr (x, db')"
    by (auto simp: admit_current_def revision_string_def split: if_splits)
  then show ?thesis by (rule readmit_step)
qed

lemma redo_dependents_step: "redo_dependents env page at fresh clock db = Inr (x, db') \<Longrightarrow> outbox_step env T (o_effects db) (o_effects db')"
  by (auto simp: redo_dependents_def rbind_Inr_iff split: prod.splits dest!: admit_current_step [where T = T] simp: invalidate_rendered_def
      intro: outbox_step_trans)

lemma ensure_render_step: "ensure_render_dependency env page fresh clock db = Inr (x, db') \<Longrightarrow> outbox_step env T (o_effects db) (o_effects db')"
  by (auto simp: ensure_render_dependency_def rbind_Inr_iff split: prod.splits if_splits
      dest!: admit_current_step [where T = T] redo_dependents_step [where T = T] intro: outbox_step_trans)

lemma admit_search_step: "admit_search env instant page at fresh clock db = Inr (x, db') \<Longrightarrow> outbox_step env T (o_effects db) (o_effects db')"
  by (auto simp: admit_search_def with_locked_page_def rbind_Inr_iff split: js_num.splits prod.splits if_splits option.splits
      dest!: admit_current_step [where T = T] ensure_render_step [where T = T] intro: outbox_step_trans)

lemma admit_render_step: "admit_render env i fresh clock db = Inr (x, db') \<Longrightarrow> outbox_step env T (o_effects db) (o_effects db')"
  by (auto simp: admit_render_def admit_render_locked_def with_locked_page_def rbind_Inr_iff split: js_num.splits prod.splits if_splits option.splits
      dest!: admit_current_step [where T = T] redo_dependents_step [where T = T] intro: outbox_step_trans)

lemma supersede_step: "supersede_stale env page rv now db = Inr (x, db') \<Longrightarrow> outbox_step env T (o_effects db) (o_effects db')"
  by (auto simp: supersede_stale_def rbind_Inr_iff split: js_num.splits if_splits intro!: outbox_step_update)
    (auto simp: changes_row_def effect_ok_def same_content_def intent_of_def)

lemma finish_step:
  assumes "finish_claim c change st now db = Inr (x, db')" "st \<noteq> E_running"
    and "\<And>r. same_content r (change r) \<and> ef_attempts (change r) = ef_attempts r"
  shows "outbox_step env T (o_effects db) (o_effects db')"
proof -
  have db': "o_effects db' = sql_update (holds_effect c) (\<lambda>r. released st now (change r)) (o_effects db)"
    using assms(1) by (auto simp: finish_claim_def split: if_splits)
  show ?thesis unfolding db'
  proof (rule outbox_step_update)
    fix r assume ok: "effect_ok env r"
    have "same_content r (change r)" "ef_attempts (change r) = ef_attempts r" using assms(3) by simp_all
    then show "changes_row env T (\<lambda>r. released st now (change r)) r"
      using ok assms(2) by (auto simp: changes_row_def effect_ok_def same_content_def released_def)
  qed (use assms(3) in \<open>auto simp: same_content_def intent_of_def released_def\<close>)
qed

lemma outcome_change_fields:
  assumes "outcome_change error_text c report now = (st, change)"
  shows "st \<noteq> E_running" "same_content r (change r) \<and> ef_attempts (change r) = ef_attempts r"
  using assms by (auto simp: outcome_change_def same_content_def split: sink_report.splits if_splits)

lemma record_outcome_step: "outbox_step env T (o_effects db) (o_effects (snd (record_outcome c report now db)))"
proof (cases "outcome_change error_json c report now")
  case (Pair st change)
  show ?thesis
  proof (cases "finish_claim c change st now db")
    case (Inr r)
    then show ?thesis
      using Pair finish_step [of c change st now db _ "snd r" env T] outcome_change_fields [OF Pair]
      by (cases r) (simp add: record_outcome_def)
  qed (simp add: record_outcome_def Pair)
qed

lemma heartbeat_effect_step: "heartbeat_effect c now db = Inr (x, db') \<Longrightarrow> outbox_step env T (o_effects db) (o_effects db')"
  by (auto simp: heartbeat_effect_def Let_def intro!: outbox_step_update)
    (auto simp: changes_row_def effect_ok_def same_content_def holds_effect_def intent_of_def)


section \<open>Claims end\<close>

definition waiting_rows :: "'z proj_db_scheme \<Rightarrow> nat" where
  "waiting_rows db = sql_count waiting (o_effects db)"

lemma sql_count_leaving:
  assumes "\<And>r. p r \<Longrightarrow> \<not> q (f r)"
  shows "sql_count q (sql_update p f rows) + sql_count (\<lambda>r. p r \<and> q r) rows = sql_count q rows"
  by (induction rows) (auto simp: table_simps assms)

lemma sql_count_all: "(\<And>r. p r \<Longrightarrow> q r) \<Longrightarrow> sql_count (\<lambda>r. p r \<and> q r) rows = sql_count p rows"
  by (induction rows) (auto simp: table_simps)

lemma sql_count_leave:
  "(\<And>r. p r \<Longrightarrow> q r \<and> \<not> q (f r)) \<Longrightarrow> sql_count q (sql_update p f rows) + sql_count p rows = sql_count q rows"
  using sql_count_leaving [of p q f rows] sql_count_all [of p q rows] by simp

lemma not_waiting [simp]: "\<not> waiting (released E_failed now r)" "\<not> waiting (leased_effect owner tok expires now r)"
  by (simp_all add: waiting_def released_def leased_effect_def)

text \<open>What a candidate does: a row that waited leaves the queue, claimed or set aside.\<close>

lemma claim_effect_cases:
  assumes "claim_effect cfg row ((claimed, removed), db) = Inr ((claimed', removed'), db')"
  obtains (aside) e res post where "parse_row (cc_env cfg) row = Inl e" "claimed' = claimed"
      "removed' \<longleftrightarrow> removed \<or> sql_count (same_effect row) (o_effects db) = 1"
      "db' = db\<lparr>o_effects := sql_update (same_effect row)
         (\<lambda>r. (released E_failed (cc_now cfg) r)\<lparr>ef_result := Some res, ef_postcondition := Some post\<rparr>) (o_effects db)\<rparr>"
  | (claimed) p fence where "parse_row (cc_env cfg) row = Inr p" "fence = (\<lambda>r. same_effect row r \<and> lease_free (cc_now cfg) r)"
      "removed' = removed"
      "claimed' = (if sql_count fence (o_effects db) = 1 then claimed @ [\<lparr>ek_id = ef_id row, ek_token = cc_token cfg (ef_id row),
         ek_attempts = ef_attempts row + 1, ek_payload = p\<rparr>] else claimed)"
      "db' = db\<lparr>o_effects := sql_update fence (leased_effect (cc_owner cfg) (cc_token cfg (ef_id row))
         (cc_now cfg + cc_lease cfg) (cc_now cfg)) (o_effects db)\<rparr>"
proof (cases "parse_row (cc_env cfg) row")
  case (Inl e)
  with assms show ?thesis by (auto simp: claim_effect_def split: option.splits intro: aside)
next
  case (Inr p)
  with assms show ?thesis by (intro claimed [of p]) (auto simp: claim_effect_def Let_def split: if_splits)
qed

lemma claim_effect_progress:
  assumes "claim_effect cfg row ((claimed, removed), db) = Inr ((claimed', removed'), db')" and "waiting row"
  shows "length claimed \<le> length claimed' \<and> waiting_rows db' \<le> waiting_rows db
    \<and> (length claimed < length claimed' \<or> (removed' \<and> \<not> removed) \<longrightarrow> waiting_rows db' < waiting_rows db)"
  using assms(1)
proof (cases rule: claim_effect_cases)
  case (aside e res post)
  have "waiting_rows db' + sql_count (same_effect row) (o_effects db) = waiting_rows db"
    using sql_count_leave [of "same_effect row" waiting "\<lambda>r. (released E_failed (cc_now cfg) r)\<lparr>ef_result := Some res, ef_postcondition := Some post\<rparr>"]
      assms(2) by (simp add: waiting_rows_def aside(4) same_effect_def waiting_def released_def)
  with aside(2,3) show ?thesis by auto
next
  case (claimed p fence)
  have "waiting_rows db' + sql_count fence (o_effects db) = waiting_rows db"
    using sql_count_leave [of fence waiting "leased_effect (cc_owner cfg) (cc_token cfg (ef_id row)) (cc_now cfg + cc_lease cfg) (cc_now cfg)"]
      assms(2) by (simp add: waiting_rows_def claimed(2,5) same_effect_def waiting_def leased_effect_def)
  with claimed(3,4) show ?thesis by auto
qed

lemma claim_fold_progress:
  assumes "rfold (claim_effect cfg) rows ((claimed, removed), db) = Inr ((claimed', removed'), db')" and "\<forall>row\<in>set rows. waiting row"
  shows "length claimed \<le> length claimed' \<and> waiting_rows db' \<le> waiting_rows db
    \<and> (length claimed < length claimed' \<or> (removed' \<and> \<not> removed) \<longrightarrow> waiting_rows db' < waiting_rows db)"
  using assms
proof (induction rows arbitrary: claimed removed db)
  case (Cons row rows)
  then obtain c1 r1 db1 where "claim_effect cfg row ((claimed, removed), db) = Inr ((c1, r1), db1)"
    and "rfold (claim_effect cfg) rows ((c1, r1), db1) = Inr ((claimed', removed'), db')"
    by (auto simp: rbind_Inr_iff)
  with claim_effect_progress [OF this(1)] Cons.IH [OF this(2)] Cons.prems(2) show ?case by auto
qed simp

lemma due_effects_set: "set (due_effects instant kinds now n db) \<subseteq> {r \<in> set (o_effects db). claim_ready instant kinds now db r}"
  unfolding due_effects_def using set_take_subset by fastforce

lemma due_waiting: "r \<in> set (due_effects instant kinds now n db) \<Longrightarrow> waiting r"
  using due_effects_set by (fastforce simp: claim_ready_def)

lemma claim_rounds_return: "\<exists>res. claim_rounds cfg limit claimed db = Some res"
proof (induction "waiting_rows db" arbitrary: claimed db rule: less_induct)
  case less
  let ?due = "due_effects (cc_instant cfg) (cc_kinds cfg) (cc_now cfg) (limit - length claimed) db"
  show ?case
  proof (cases "length claimed < limit \<and> ?due \<noteq> []")
    case False
    then show ?thesis by (subst claim_rounds.simps) (auto split: list.splits)
  next
    case True
    then obtain row rows where due: "?due = row # rows" by (cases ?due) auto
    show ?thesis
    proof (cases "rfold (claim_effect cfg) (row # rows) ((claimed, False), db)")
      case (Inl e)
      with due show ?thesis by (subst claim_rounds.simps) simp
    next
      case (Inr st)
      then obtain c' removed db' where fold: "rfold (claim_effect cfg) (row # rows) ((claimed, False), db) = Inr ((c', removed), db')"
        by (cases st) auto
      have "\<forall>r\<in>set (row # rows). waiting r" using due due_waiting by (metis (no_types))
      from claim_fold_progress [OF fold this]
      have "waiting_rows db' < waiting_rows db \<or> (length c' = length claimed \<and> \<not> removed)" by auto
      with less.hyps [of db' c'] due fold True show ?thesis
        by (subst claim_rounds.simps) (auto simp del: rfold.simps)
    qed
  qed
qed

text \<open>C15. A claim always returns. Whatever the tables hold, the loop that fills a claim ends: every
  round that does not stop it takes a waiting intent out of the queue, so a worker gets its claims
  or an error after at most as many rounds as there are waiting intents.
\<close>

theorem claim_always_returns: "\<exists>res. claim_effects env describe instant token i now db = Some res"
proof -
  have "\<exists>res. claim_in_tx cfg limit bound db = Some res" for cfg limit bound
    unfolding claim_in_tx_def Let_def using claim_rounds_return by auto
  then show ?thesis by (auto simp: claim_effects_def split: sum.splits)
qed

section \<open>What a claim hands out\<close>

text \<open>An invariant of the rounds of a claim.\<close>

lemma claim_rounds_invariant:
  assumes "claim_rounds cfg limit claimed db = Some (Inr (res, dbr))" and "I claimed db"
    and round: "\<And>claimed db c r db'. I claimed db \<Longrightarrow> length claimed < limit \<Longrightarrow>
      rfold (claim_effect cfg) (due_effects (cc_instant cfg) (cc_kinds cfg) (cc_now cfg) (limit - length claimed) db) ((claimed, False), db)
        = Inr ((c, r), db') \<Longrightarrow> I c db'"
  shows "I res dbr"
  using assms(1,2)
proof (induction "waiting_rows db" arbitrary: claimed db rule: less_induct)
  case less
  let ?due = "due_effects (cc_instant cfg) (cc_kinds cfg) (cc_now cfg) (limit - length claimed) db"
  show ?case
  proof (cases "length claimed < limit \<and> ?due \<noteq> []")
    case False
    with less.prems show ?thesis by (subst (asm) claim_rounds.simps) (auto split: list.splits if_splits)
  next
    case True
    then obtain row rows where due: "?due = row # rows" by (cases ?due) auto
    with less.prems(1) True obtain c' removed db' where
      fold: "rfold (claim_effect cfg) (row # rows) ((claimed, False), db) = Inr ((c', removed), db')"
      by (subst (asm) claim_rounds.simps) (auto split: sum.splits prod.splits simp del: rfold.simps)
    have next_round: "(if length c' = length claimed \<and> \<not> removed then Some (Inr (c', db')) else claim_rounds cfg limit c' db') = Some (Inr (res, dbr))"
      using less.prems(1) True due fold by (subst (asm) claim_rounds.simps) (simp del: rfold.simps)
    have I': "I c' db'" using round [OF less.prems(2)] True fold due by metis
    have "\<forall>r\<in>set (row # rows). waiting r" using due due_waiting by (metis (no_types))
    from claim_fold_progress [OF fold this]
    consider "waiting_rows db' < waiting_rows db" | "length c' = length claimed \<and> \<not> removed" by auto
    then show ?thesis
    proof cases
      case 1
      show ?thesis
      proof (cases "length c' = length claimed \<and> \<not> removed")
        case True
        with next_round I' show ?thesis by simp
      next
        case False
        with next_round less.hyps [OF 1 _ I'] show ?thesis by (simp split: if_splits)
      qed
    qed (use next_round I' in simp)
  qed
qed

text \<open>The same through the candidates of a round.\<close>

lemma claim_fold_invariant:
  assumes "rfold (claim_effect cfg) rows ((claimed, removed), db) = Inr ((c, r), db')" and "I claimed db"
    and "\<And>row claimed removed db c r db'. row \<in> set rows \<Longrightarrow> I claimed db \<Longrightarrow> claim_effect cfg row ((claimed, removed), db) = Inr ((c, r), db') \<Longrightarrow> I c db'"
  shows "I c db'"
  using rfold_invariant [where f = "claim_effect cfg" and I = "\<lambda>st. I (fst (fst st)) (snd st)", OF assms(1)] assms(2,3) by fastforce

lemma leased_changes:
  "effect_ok env r \<Longrightarrow> tok \<in> T \<Longrightarrow> changes_row env T (leased_effect owner tok expires now) r"
  by (simp add: changes_row_def effect_ok_def leased_effect_def same_content_def)

lemma claim_effect_step:
  assumes "claim_effect cfg row ((claimed, removed), db) = Inr ((c, r), db')"
  shows "outbox_step env (range (cc_token cfg)) (o_effects db) (o_effects db')"
  using assms
proof (cases rule: claim_effect_cases)
  case (aside e res post)
  show ?thesis unfolding aside(4)
    by (simp, rule outbox_step_update)
      (simp_all add: changes_row_def effect_ok_def same_content_def released_def intent_of_def)
next
  case (claimed p fence)
  show ?thesis unfolding claimed(5)
    by (simp, rule outbox_step_update) (simp_all add: leased_changes leased_effect_def intent_of_def)
qed

lemma claim_rounds_step:
  assumes "claim_rounds cfg limit claimed db = Some (Inr (res, dbr))"
  shows "outbox_step env (range (cc_token cfg)) (o_effects db) (o_effects dbr)"
proof (rule claim_rounds_invariant [OF assms, where I = "\<lambda>_ d. outbox_step env (range (cc_token cfg)) (o_effects db) (o_effects d)"])
  fix claimed d c r d'
  assume a: "outbox_step env (range (cc_token cfg)) (o_effects db) (o_effects d)"
    and f: "rfold (claim_effect cfg) (due_effects (cc_instant cfg) (cc_kinds cfg) (cc_now cfg) (limit - length claimed) d) ((claimed, False), d) = Inr ((c, r), d')"
  show "outbox_step env (range (cc_token cfg)) (o_effects db) (o_effects d')"
    by (rule claim_fold_invariant [OF f, where I = "\<lambda>_ d. outbox_step env (range (cc_token cfg)) (o_effects db) (o_effects d)"])
      (use a claim_effect_step outbox_step_trans in blast)+
qed simp

lemma release_expired_step: "outbox_step env T rows (release_expired kinds bounded now rows)"
  unfolding release_expired_def by (rule outbox_step_update) (simp_all add: released_changes)

lemma claim_setup_token: "claim_setup env describe instant token i now = Inr (cfg, limit, bound) \<Longrightarrow>
    cc_token cfg = token \<and> cc_env cfg = env \<and> cc_instant cfg = instant \<and> cc_now cfg = now \<and> cc_owner cfg = ec_owner i"
  by (auto simp: claim_setup_def rbind_Inr_iff Let_def split: if_splits)

lemma claim_effects_step:
  assumes "claim_effects env describe instant token i now db = Some (Inr (claims, db'))"
  shows "outbox_step env (range token) (o_effects db) (o_effects db')"
proof -
  have tx: "outbox_step env (range (cc_token cfg)) (o_effects db) (o_effects db')"
    if "claim_in_tx cfg limit bound db = Some (Inr (claims, db'))" for cfg limit bound
    using that release_expired_step [of env "range (cc_token cfg)" "o_effects db" "cc_kinds cfg" "bound \<noteq> None" "cc_now cfg"]
      claim_rounds_step [of cfg _ "[]" _ claims db' env]
    unfolding claim_in_tx_def Let_def by (fastforce split: if_splits intro: outbox_step_trans)
  from assms show ?thesis
    using claim_setup_token tx unfolding claim_effects_def by (fastforce split: sum.splits if_splits)
qed

text \<open>What decides whether an intent may run: the pages, the passwords and the finished renderings.\<close>

definition finished_renders :: "effect_row list \<Rightarrow> (int \<times> string) set" where
  "finished_renders rows = (\<lambda>r. (ef_page r, ef_revision r)) ` {r \<in> set rows. ef_kind r = Render \<and> ef_status r = E_succeeded}"

lemma finished_renders_update:
  assumes "\<And>r. p r \<Longrightarrow> ef_status r \<noteq> E_succeeded \<and> ef_status (f r) \<noteq> E_succeeded"
  shows "finished_renders (sql_update p f rows) = finished_renders rows"
proof -
  have "{r \<in> set (sql_update p f rows). ef_kind r = Render \<and> ef_status r = E_succeeded}
      = {r \<in> set rows. ef_kind r = Render \<and> ef_status r = E_succeeded}"
    using assms by (fastforce simp: set_sql_update)
  then show ?thesis by (simp add: finished_renders_def)
qed

lemma render_ready_iff:
  "render_ready db r \<longleftrightarrow> list_ex (\<lambda>p. current_page r p \<and> has_certified_render p) (o_pages db)
     \<and> (ef_page r, ef_revision r) \<in> finished_renders (o_effects db)"
proof -
  have "(\<exists>d\<in>set (o_effects db). ef_page d = ef_page r \<and> ef_revision d = ef_revision r \<and> ef_kind d = Render \<and> ef_status d = E_succeeded)
      \<longleftrightarrow> (ef_page r, ef_revision r) \<in> finished_renders (o_effects db)"
    unfolding finished_renders_def image_iff by (metis (mono_tags, lifting) mem_Collect_eq prod.inject)
  then show ?thesis by (simp add: render_ready_def list_ex_iff)
qed

definition same_surroundings :: "'z proj_db_scheme \<Rightarrow> 'z proj_db_scheme \<Rightarrow> bool" where
  "same_surroundings a b = (o_pages b = o_pages a \<and> o_passwords b = o_passwords a
     \<and> finished_renders (o_effects b) = finished_renders (o_effects a))"

lemma may_run_same:
  assumes "same_surroundings a b" "same_content q r"
  shows "links_may_run b r \<longleftrightarrow> links_may_run a q" "search_may_run instant now b r \<longleftrightarrow> search_may_run instant now a q"
proof -
  have "current_page r = current_page q" using assms(2) by (auto simp: current_page_def same_content_def)
  moreover from this have "render_ready b r \<longleftrightarrow> render_ready a q"
    using assms by (simp add: render_ready_iff same_surroundings_def same_content_def)
  ultimately show "links_may_run b r \<longleftrightarrow> links_may_run a q" "search_may_run instant now b r \<longleftrightarrow> search_may_run instant now a q"
    using assms by (simp_all add: links_may_run_def search_may_run_def same_surroundings_def same_content_def is_protected_def)
qed

lemma parse_row_same:
  assumes "same_content q r"
  shows "parse_row env r = parse_row env q"
proof -
  have "ef_payload r = ef_payload q" "ef_sha r = ef_sha q" "ef_kind r = ef_kind q" "ef_desired r = ef_desired q"
    "ef_page r = ef_page q" "ef_revision r = ef_revision q"
    using assms by (simp_all add: same_content_def)
  then show ?thesis unfolding parse_row_def by (simp only:)
qed

definition worthy :: "claim_config \<Rightarrow> 'z proj_db_scheme \<Rightarrow> effect_row \<Rightarrow> bool" where
  "worthy cfg db r = (ef_kind r \<in> set (cc_kinds cfg) \<and> ef_available r \<le> cc_now cfg \<and> links_may_run db r
     \<and> search_may_run (cc_instant cfg) (cc_now cfg) db r)"

definition claim_for :: "claim_config \<Rightarrow> effect_claim \<Rightarrow> effect_row \<Rightarrow> bool" where
  "claim_for cfg c r = (ek_id c = ef_id r \<and> ek_attempts c = ef_attempts r + 1 \<and> parse_row (cc_env cfg) r = Inr (ek_payload c))"

definition leased_by :: "claim_config \<Rightarrow> effect_claim \<Rightarrow> effect_row \<Rightarrow> bool" where
  "leased_by cfg c s = (holds_effect c s \<and> ef_lease_owner s = Some (cc_owner cfg) \<and> ef_lease_expires s = Some (cc_now cfg + cc_lease cfg))"

text \<open>A row that still waits, and the row it was before the claim.\<close>

definition before_row :: "effect_row \<Rightarrow> effect_row \<Rightarrow> bool" where
  "before_row q r = (same_content q r \<and> (waiting r \<longrightarrow> ef_attempts r = ef_attempts q \<and> ef_available r = ef_available q))"

definition claim_progress :: "claim_config \<Rightarrow> 'z proj_db_scheme \<Rightarrow> effect_claim list \<Rightarrow> 'z proj_db_scheme \<Rightarrow> bool" where
  "claim_progress cfg db claimed d = (rows_inv (cc_env cfg) (o_effects d) \<and> same_surroundings db d
     \<and> (\<forall>r\<in>set (o_effects d). \<exists>q\<in>set (o_effects db). before_row q r)
     \<and> distinct (map ek_id claimed)
     \<and> (\<forall>c\<in>set claimed. (\<exists>q\<in>set (o_effects db). worthy cfg db q \<and> claim_for cfg c q) \<and> (\<exists>s\<in>set (o_effects d). leased_by cfg c s)))"

text \<open>A candidate of a round, in terms of the state before the claim.\<close>

definition candidate_of :: "claim_config \<Rightarrow> 'z proj_db_scheme \<Rightarrow> effect_row \<Rightarrow> bool" where
  "candidate_of cfg db row = (waiting row \<and> (\<exists>q\<in>set (o_effects db). before_row q row \<and> worthy cfg db q))"

lemma due_candidate:
  assumes "claim_progress cfg db claimed d" "row \<in> set (due_effects (cc_instant cfg) (cc_kinds cfg) (cc_now cfg) n d)"
  shows "candidate_of cfg db row"
proof -
  have row: "row \<in> set (o_effects d)" and ready: "claim_ready (cc_instant cfg) (cc_kinds cfg) (cc_now cfg) d row"
    using assms(2) due_effects_set by blast+
  from assms(1) row obtain q where q: "q \<in> set (o_effects db)" "before_row q row" by (auto simp: claim_progress_def)
  have "same_surroundings db d" "same_content q row" using assms(1) q(2) by (simp_all add: claim_progress_def before_row_def)
  then have "worthy cfg db q"
    using ready q(2) may_run_same [of db d q row] by (auto simp: worthy_def claim_ready_def before_row_def same_content_def)
  with q ready show ?thesis by (auto simp: candidate_of_def claim_ready_def)
qed

lemma claim_progress_leave:
  assumes p: "claim_progress cfg db claimed d" and row: "waiting row"
    and sel: "\<And>r. sel r \<Longrightarrow> same_effect row r" and f: "\<And>r. same_content r (f r) \<and> \<not> waiting (f r) \<and> ef_status (f r) \<noteq> E_succeeded"
    and inv: "rows_inv (cc_env cfg) (sql_update sel f (o_effects d))"
  shows "claim_progress cfg db claimed (d\<lparr>o_effects := sql_update sel f (o_effects d)\<rparr>)"
proof -
  have w: "waiting r" if "sel r" for r using sel [OF that] row by (simp add: waiting_def same_effect_def)
  have "finished_renders (sql_update sel f (o_effects d)) = finished_renders (o_effects d)"
    by (rule finished_renders_update) (use w f in \<open>fastforce simp: waiting_def\<close>)
  with p have "same_surroundings db (d\<lparr>o_effects := sql_update sel f (o_effects d)\<rparr>)"
    by (simp add: claim_progress_def same_surroundings_def)
  moreover have "\<exists>q\<in>set (o_effects db). before_row q r" if "r \<in> set (sql_update sel f (o_effects d))" for r
  proof -
    from set_sql_updateD [OF that] obtain r0 where r0: "r0 \<in> set (o_effects d)" "r = (if sel r0 then f r0 else r0)" by blast
    from p r0(1) obtain q where q: "q \<in> set (o_effects db)" "before_row q r0" by (auto simp: claim_progress_def)
    have "before_row q r"
      using q(2) r0(2) f [of r0] same_content_trans [of q r0 "f r0"] by (cases "sel r0") (auto simp: before_row_def)
    with q(1) show ?thesis by blast
  qed
  moreover have "\<exists>s\<in>set (sql_update sel f (o_effects d)). leased_by cfg c s" if "c \<in> set claimed" for c
  proof -
    from p that obtain s where s: "s \<in> set (o_effects d)" "leased_by cfg c s" by (auto simp: claim_progress_def)
    then have "\<not> sel s" using w [of s] by (auto simp: leased_by_def holds_effect_def waiting_def)
    with s show ?thesis by (auto simp: set_sql_update intro!: bexI [of _ s])
  qed
  ultimately show ?thesis using p inv by (simp add: claim_progress_def)
qed

lemma claim_progress_effect:
  assumes p: "claim_progress cfg db claimed d" and row: "candidate_of cfg db row"
    and res: "claim_effect cfg row ((claimed, removed), d) = Inr ((c, r), d')"
  shows "claim_progress cfg db c d'"
proof -
  have w: "waiting row" using row by (simp add: candidate_of_def)
  have inv: "rows_inv (cc_env cfg) (o_effects d')"
    using claim_effect_step [OF res, of "cc_env cfg"] p by (simp add: outbox_step_def claim_progress_def)
  from res show ?thesis
  proof (cases rule: claim_effect_cases)
    case (aside e res post)
    have "claim_progress cfg db claimed d'" unfolding aside(4)
      by (rule claim_progress_leave [OF p w]) (use inv in \<open>simp_all add: aside(4) same_content_def waiting_def released_def\<close>)
    with aside(2) show ?thesis by simp
  next
    case (claimed pay fence)
    let ?f = "leased_effect (cc_owner cfg) (cc_token cfg (ef_id row)) (cc_now cfg + cc_lease cfg) (cc_now cfg)"
    have keep: "claim_progress cfg db claimed d'" unfolding claimed(5)
      by (rule claim_progress_leave [OF p w])
        (use inv in \<open>simp_all add: claimed(2) claimed(5) same_content_def waiting_def leased_effect_def\<close>)
    show ?thesis
    proof (cases "sql_count fence (o_effects d) = 1")
      case False
      with keep claimed(4) show ?thesis by simp
    next
      case True
      define k where "k = \<lparr>ek_id = ef_id row, ek_token = cc_token cfg (ef_id row), ek_attempts = ef_attempts row + 1, ek_payload = pay\<rparr>"
      from True have "0 < sql_count fence (o_effects d)" by simp
      then obtain r0 where r0: "r0 \<in> set (o_effects d)" "fence r0" by (auto simp: sql_count_pos)
      then have id0: "ef_id r0 = ef_id row" and w0: "waiting r0" using w by (auto simp: claimed(2) same_effect_def waiting_def)
      have fresh: "ek_id k \<notin> ek_id ` set claimed"
      proof
        assume "ek_id k \<in> ek_id ` set claimed"
        then obtain c0 where c0: "c0 \<in> set claimed" "ek_id c0 = ef_id row" by (auto simp: k_def)
        with p obtain s where s: "s \<in> set (o_effects d)" "leased_by cfg c0 s" by (auto simp: claim_progress_def)
        then have "ef_id s = ef_id r0" using c0(2) id0 by (simp add: leased_by_def holds_effect_def)
        moreover have "unique_key ef_id (o_effects d)" using p by (simp add: claim_progress_def rows_inv_def)
        ultimately have "s = r0" using unique_keyD s(1) r0(1) by metis
        with s(2) w0 show False by (auto simp: leased_by_def holds_effect_def waiting_def)
      qed
      from row obtain q where q: "q \<in> set (o_effects db)" "before_row q row" "worthy cfg db q" by (auto simp: candidate_of_def)
      have "claim_for cfg k q"
        using q(2) w claimed(1) parse_row_same [of q row "cc_env cfg"] by (simp add: claim_for_def k_def before_row_def same_content_def)
      moreover have "?f r0 \<in> set (o_effects d')" using r0 by (force simp: claimed(5) set_sql_update)
      moreover have "leased_by cfg k (?f r0)" using id0 by (simp add: leased_by_def holds_effect_def leased_effect_def k_def)
      ultimately show ?thesis
        using keep fresh q(1,3) True claimed(4) unfolding claim_progress_def k_def [symmetric] by auto
    qed
  qed
qed

lemma claim_effect_length: "claim_effect cfg row ((claimed, removed), d) = Inr ((c, r), d') \<Longrightarrow> length c \<le> Suc (length claimed)"
  by (erule claim_effect_cases) auto

lemma claim_fold_length:
  "rfold (claim_effect cfg) rows ((claimed, removed), d) = Inr ((c, r), d') \<Longrightarrow> length c \<le> length claimed + length rows"
proof (induction rows arbitrary: claimed removed d)
  case (Cons row rows)
  from Cons.prems obtain c1 r1 d1 where a: "claim_effect cfg row ((claimed, removed), d) = Inr ((c1, r1), d1)"
    and b: "rfold (claim_effect cfg) rows ((c1, r1), d1) = Inr ((c, r), d')"
    by (auto simp: rbind_Inr_iff)
  from claim_effect_length [OF a] Cons.IH [OF b] show ?case by simp
qed simp

lemma claim_rounds_progress:
  fixes db :: "'a proj_db_scheme"
  assumes "claim_rounds cfg limit [] db = Some (Inr (claims, db'))" "rows_inv (cc_env cfg) (o_effects db)"
  shows "claim_progress cfg db claims db' \<and> length claims \<le> limit"
proof (rule claim_rounds_invariant [OF assms(1), where I = "\<lambda>c d. claim_progress cfg db c d \<and> length c \<le> limit"])
  have "before_row q q" for q by (simp add: before_row_def)
  then show "claim_progress cfg db [] db \<and> length [] \<le> limit"
    using assms(2) by (auto simp: claim_progress_def same_surroundings_def)
next
  fix claimed c :: "effect_claim list" and d d' :: "'a proj_db_scheme" and r
  let ?due = "due_effects (cc_instant cfg) (cc_kinds cfg) (cc_now cfg) (limit - length claimed) d"
  assume I: "claim_progress cfg db claimed d \<and> length claimed \<le> limit"
    and f: "rfold (claim_effect cfg) ?due ((claimed, False), d) = Inr ((c, r), d')"
  have cand: "candidate_of cfg db row" if "row \<in> set ?due" for row
    using I due_candidate that by blast
  have "claim_progress cfg db c d'"
    by (rule claim_fold_invariant [OF f, where I = "claim_progress cfg db"]) (use I cand claim_progress_effect in blast)+
  moreover have "length ?due \<le> limit - length claimed" by (simp add: due_effects_def)
  with claim_fold_length [OF f] I have "length c \<le> limit" by linarith
  ultimately show "claim_progress cfg db c d' \<and> length c \<le> limit" by simp
qed

lemma worthy_released:
  assumes "q \<in> set (release_expired kinds bounded now (o_effects db))" "worthy cfg (db\<lparr>o_effects := release_expired kinds bounded now (o_effects db)\<rparr>) q"
  shows "\<exists>r\<in>set (o_effects db). same_content r q \<and> ef_attempts q = ef_attempts r \<and> worthy cfg db r"
proof -
  let ?sel = "\<lambda>r. lease_over now r \<and> (bounded \<longrightarrow> ef_kind r \<in> set kinds)"
  from assms(1) obtain r where r: "r \<in> set (o_effects db)" "q = (if ?sel r then released E_pending now r else r)"
    unfolding release_expired_def by (blast dest: set_sql_updateD)
  have c: "same_content r q" "ef_attempts q = ef_attempts r" "ef_available q = ef_available r"
    using r(2) by (auto simp: released_def same_content_def)
  have "finished_renders (release_expired kinds bounded now (o_effects db)) = finished_renders (o_effects db)"
    unfolding release_expired_def by (rule finished_renders_update) (simp add: lease_over_def released_def)
  then have "same_surroundings db (db\<lparr>o_effects := release_expired kinds bounded now (o_effects db)\<rparr>)"
    by (simp add: same_surroundings_def)
  from may_run_same [OF this c(1)] assms(2) c have "worthy cfg db r" by (simp add: worthy_def same_content_def)
  with r(1) c show ?thesis by blast
qed

definition claim_kinds :: "effect_claim_input \<Rightarrow> effect_kind list" where
  "claim_kinds i = option_or (ec_effects i) all_effects"

text \<open>C14. A claimed intent may run, and nobody else holds it. Every intent a claim returns was due and of
  a requested kind, its payload passed its check, and it did not jump the queue of projections:
  links of the current page revision only after its rendering was finished and certified, search
  likewise unless the page is not to be searched. It is leased to the claimer alone, once, with
  its attempt counted.
\<close>

theorem claimed_intents_may_run:
  assumes inv: "rows_inv env (o_effects db)"
    and res: "claim_effects env describe instant token i now db = Some (Inr (claims, db'))"
  shows "distinct (map ek_id claims) \<and> (\<forall>n. ec_limit i = Some (Whole n) \<longrightarrow> int (length claims) \<le> n)
    \<and> (\<forall>c\<in>set claims. (\<exists>r\<in>set (o_effects db). ef_id r = ek_id c \<and> ef_kind r \<in> set (claim_kinds i) \<and> ef_available r \<le> now
          \<and> parse_row env r = Inr (ek_payload c) \<and> ek_attempts c = ef_attempts r + 1
          \<and> links_may_run db r \<and> search_may_run instant now db r)
        \<and> (\<exists>s\<in>set (o_effects db'). holds_effect c s \<and> ef_lease_owner s = Some (ec_owner i)))"
proof -
  from res obtain cfg limit bound where set: "claim_setup env describe instant token i now = Inr (cfg, limit, bound)"
    and claim: "claims = [] \<or> claim_in_tx cfg limit bound db = Some (Inr (claims, db'))"
    by (auto simp: claim_effects_def split: sum.splits if_splits)
  have cfg: "cc_env cfg = env" "cc_instant cfg = instant" "cc_now cfg = now" "cc_kinds cfg = claim_kinds i" "cc_owner cfg = ec_owner i"
    using set by (auto simp: claim_setup_def rbind_Inr_iff Let_def claim_kinds_def split: if_splits)
  have lim: "int limit = n" if "ec_limit i = Some (Whole n)" for n
    using set that by (auto simp: claim_setup_def rbind_Inr_iff Let_def lease_bounds_def split: if_splits option.splits js_num.splits)
  show ?thesis
  proof (cases "claims = []")
    case True
    then show ?thesis using lim by fastforce
  next
    case False
    define rows where "rows = release_expired (cc_kinds cfg) (bound \<noteq> None) (cc_now cfg) (o_effects db)"
    define n where "n = claim_limit limit bound (active_effects (cc_kinds cfg) (cc_now cfg) rows)"
    have n: "n \<le> limit" "claim_rounds cfg n [] (db\<lparr>o_effects := rows\<rparr>) = Some (Inr (claims, db'))"
      using False claim by (auto simp: claim_in_tx_def Let_def rows_def n_def claim_limit_def split: if_splits option.splits)
    have "rows_inv env rows"
      using release_expired_step [of env "{}" "o_effects db"] inv by (auto simp: outbox_step_def rows_def)
    with claim_rounds_progress [OF n(2)] cfg(1) have p: "claim_progress cfg (db\<lparr>o_effects := rows\<rparr>) claims db'" "length claims \<le> n" by simp_all
    have "\<exists>r\<in>set (o_effects db). ef_id r = ek_id c \<and> ef_kind r \<in> set (claim_kinds i) \<and> ef_available r \<le> now
        \<and> parse_row env r = Inr (ek_payload c) \<and> ek_attempts c = ef_attempts r + 1 \<and> links_may_run db r \<and> search_may_run instant now db r"
      if c: "c \<in> set claims" for c
    proof -
      from p(1) c obtain q where q: "q \<in> set rows" "worthy cfg (db\<lparr>o_effects := rows\<rparr>) q" "claim_for cfg c q"
        by (auto simp: claim_progress_def)
      from worthy_released [OF q(1,2) [unfolded rows_def]] obtain r where r: "r \<in> set (o_effects db)" "same_content r q"
        "ef_attempts q = ef_attempts r" "worthy cfg db r" by blast
      have "parse_row env r = Inr (ek_payload c)" "ef_id r = ek_id c" "ek_attempts c = ef_attempts r + 1"
        using q(3) r(2,3) parse_row_same [OF r(2)] by (simp_all add: claim_for_def cfg(1) same_content_def)
      with r(1,4) show ?thesis by (auto simp: worthy_def cfg)
    qed
    moreover have "\<exists>s\<in>set (o_effects db'). holds_effect c s \<and> ef_lease_owner s = Some (ec_owner i)" if "c \<in> set claims" for c
      using p(1) that by (fastforce simp: claim_progress_def leased_by_def cfg)
    moreover have "distinct (map ek_id claims)" using p(1) by (simp add: claim_progress_def)
    ultimately show ?thesis using p(2) n(1) lim by fastforce
  qed
qed

section \<open>Any sequence of operations\<close>

datatype proj_op =
    Op_enqueue effects_input "effect_kind \<Rightarrow> string" int
  | Op_claim effect_claim_input "string \<Rightarrow> string" int
  | Op_outcome effect_claim sink_report int
  | Op_heartbeat effect_claim int
  | Op_rearm string projection_payload int
  | Op_rearm_knowledge knowledge_rearm int
  | Op_admit_search js_num "int option" "effect_kind \<Rightarrow> string" int
  | Op_admit_render render_admission "effect_kind \<Rightarrow> string" int
  | Op_supersede js_num string int
  | Op_tables "projection_page list" "(int \<times> string \<times> string) list" "(int \<times> string) list" "int list" "protection_row list"

text \<open>\<open>Op_tables\<close> is whatever the page operations and the sinks write to the other tables.\<close>

fun proj_exec :: "run_env \<Rightarrow> (js_error \<Rightarrow> string) \<Rightarrow> (string \<Rightarrow> int option) \<Rightarrow> proj_op \<Rightarrow> (proj_db, unit) tx" where
  "proj_exec env describe instant (Op_enqueue i fresh now) = unit_tx (enqueue_effects env i fresh now)"
| "proj_exec env describe instant (Op_claim i token now) = (\<lambda>db. case claim_effects env describe instant token i now db of
      None \<Rightarrow> Inl Plain_error | Some r \<Rightarrow> unit_tx (\<lambda>_. r) db)"
| "proj_exec env describe instant (Op_outcome c report now) = (\<lambda>db. Inr ((), snd (record_outcome c report now db)))"
| "proj_exec env describe instant (Op_heartbeat c now) = unit_tx (heartbeat_effect c now)"
| "proj_exec env describe instant (Op_rearm ident p now) = unit_tx (rearm_effect env ident p now)"
| "proj_exec env describe instant (Op_rearm_knowledge i now) = unit_tx (rearm_failed_knowledge env i now)"
| "proj_exec env describe instant (Op_admit_search page at fresh clock) = unit_tx (admit_search env instant page at fresh clock)"
| "proj_exec env describe instant (Op_admit_render i fresh clock) = unit_tx (admit_render env i fresh clock)"
| "proj_exec env describe instant (Op_supersede page rv now) = unit_tx (supersede_stale env page rv now)"
| "proj_exec env describe instant (Op_tables pages links vectors words passwords) = (\<lambda>db. Inr ((), db\<lparr>o_pages := pages, o_links := links,
      o_vectors := vectors, o_words := words, o_passwords := passwords\<rparr>))"

fun effect_tokens :: "proj_op \<Rightarrow> string set" where
  "effect_tokens (Op_claim i token now) = range token"
| "effect_tokens _ = {}"

lemma proj_exec_step:
  assumes "proj_exec env describe instant op db = Inr (x, db')"
  shows "outbox_step env (effect_tokens op) (o_effects db) (o_effects db')"
proof (cases op)
  case (Op_claim i token now)
  with assms obtain claims where "claim_effects env describe instant token i now db = Some (Inr (claims, db'))"
    by (auto simp: unit_tx_Inr split: option.splits)
  from claim_effects_step [OF this] Op_claim show ?thesis by simp
next
  case (Op_outcome c report now)
  with assms record_outcome_step [of env "{}" db c report now] show ?thesis by auto
qed (use assms in \<open>auto simp: unit_tx_Inr intro: enqueue_effects_step heartbeat_effect_step rearm_effect_step rearm_knowledge_step
      admit_search_step admit_render_step supersede_step\<close>)

interpretation outbox: tx_component "proj_exec env describe instant" "\<lambda>db. rows_inv env (o_effects db)"
  for env describe instant
  by unfold_locales (use proj_exec_step in \<open>force simp: outbox_step_def\<close>)

definition proj_run :: "run_env \<Rightarrow> (js_error \<Rightarrow> string) \<Rightarrow> (string \<Rightarrow> int option) \<Rightarrow> proj_op list \<Rightarrow> proj_db \<Rightarrow> proj_db" where
  "proj_run env describe instant ops db = run_txs (map (proj_exec env describe instant) ops) db"

lemma proj_run_kept:
  assumes "rows_inv env (o_effects db)" "\<And>op. op \<in> set ops \<Longrightarrow> effect_tokens op \<subseteq> T"
  shows "rows_kept T (o_effects db) (o_effects (proj_run env describe instant ops db))"
  unfolding proj_run_def
proof (rule outbox.run_preorder_on [where R = "\<lambda>a b. rows_kept T (o_effects a) (o_effects b)", OF assms(1)])
  fix op s a s'
  assume op: "op \<in> set ops" "rows_inv env (o_effects s)" "proj_exec env describe instant op s = Inr (a, s')"
  from outbox_step_mono [OF proj_exec_step [OF op(3)] assms(2) [OF op(1)]] op(2)
  show "rows_kept T (o_effects s) (o_effects s')" by (simp add: outbox_step_def)
qed (auto intro: rows_kept_trans)

text \<open>An intent is written once and never changes. Whatever workers, page operations and repairs do,
  in any order, an intent that was enqueued is still there with the same page, revision, kind,
  desired state, payload and hash; no two intents share an identifier or a page revision and kind;
  an intent has a lease exactly while it is being carried out.
\<close>

theorem intents_are_permanent:
  assumes "rows_inv env (o_effects db)"
  shows "rows_inv env (o_effects (proj_run env describe instant ops db))
    \<and> (\<forall>r\<in>set (o_effects db). \<exists>s\<in>set (o_effects (proj_run env describe instant ops db)). same_content r s)"
proof
  show "rows_inv env (o_effects (proj_run env describe instant ops db))"
    unfolding proj_run_def by (rule outbox.run_inv [OF assms])
  show "\<forall>r\<in>set (o_effects db). \<exists>s\<in>set (o_effects (proj_run env describe instant ops db)). same_content r s"
    using proj_run_kept [OF assms, of ops UNIV] by (simp add: rows_kept_def)
qed

text \<open>A worker that lost its lease cannot report. Once no intent holds the token of a claim, and no
  later claim draws it again, the worker's heartbeat fails, its execution ends before any sink is
  called, and the outcome of a sink it had already called is refused without a trace.
\<close>

theorem lost_projection_lease:
  assumes "rows_inv env (o_effects db0)" "\<forall>r\<in>set (o_effects db0). ef_lease_token r \<noteq> Some (ek_token c)"
    and "\<forall>op\<in>set ops. ek_token c \<notin> effect_tokens op" "db = proj_run env describe instant ops db0"
  shows "record_outcome c report now db = (Inl lease_lost_error, db) \<and> heartbeat_effect c now db = Inr (False, db)
    \<and> execute_effect sinks c False started now db = (Inl lease_lost_error, db)"
proof -
  have "rows_kept (- {ek_token c}) (o_effects db0) (o_effects db)"
    unfolding assms(4) by (rule proj_run_kept [OF assms(1)]) (use assms(3) in blast)
  with assms(2) have free: "\<not> holds_effect c r" if "r \<in> set (o_effects db)" for r
    using that by (fastforce simp: rows_kept_def tokens_from_def holds_effect_def)
  then have none: "sql_count (holds_effect c) (o_effects db) = 0" by (simp add: sql_count_none)
  have "record_outcome c report now db = (Inl lease_lost_error, db)"
    by (simp add: record_outcome_def finish_claim_def none split: prod.splits)
  moreover have "heartbeat_effect c now db = Inr (False, db)"
    using free by (simp add: heartbeat_effect_def Let_def sql_count_none sql_update_none)
  moreover have "\<not> owns_effect c started db" using free by (auto simp: owns_effect_def list_ex_iff)
  ultimately show ?thesis by (simp add: execute_effect_def)
qed

section \<open>Enqueueing again\<close>

definition stored_as :: "run_env \<Rightarrow> projection_payload \<Rightarrow> effect_row \<Rightarrow> bool" where
  "stored_as env p r = (payload_valid p \<and> canonical_json env (payload_value p) = Some (ef_payload r) \<and> ef_sha r = env_sha env (ef_payload r)
     \<and> effect_is (pp_page p) (pp_revision p) (pp_kind p) r \<and> ef_desired r = pp_desired p)"

lemma stored_as_same: "stored_as env p r \<Longrightarrow> same_content r s \<Longrightarrow> stored_as env p s \<and> ef_id s = ef_id r"
  by (simp add: stored_as_def same_content_def effect_is_def)

lemma enqueue_one_stored:
  assumes "enqueue_one env p ident now db = Inr (x, db')"
  shows "\<exists>r\<in>set (o_effects db'). stored_as env p r \<and> ef_id r = x"
proof -
  from assms obtain encoded where enc: "canonical_json env (payload_value p) = Some encoded" and v: "payload_valid p"
    by (auto simp: enqueue_one_def split: if_splits option.splits)
  show ?thesis
  proof (cases "sql_first (effect_is (pp_page p) (pp_revision p) (pp_kind p)) (o_effects db)")
    case None
    with assms enc v show ?thesis
      by (auto simp: enqueue_one_def stored_as_def new_effect_def effect_is_def split: if_splits)
  next
    case (Some row)
    with assms enc v have "x = ef_id row" "db' = db" "stored_as env p row"
      by (auto simp: enqueue_one_def stored_as_def dest: sql_first_SomeD split: if_splits)
    with sql_first_SomeD [OF Some] show ?thesis by blast
  qed
qed

lemma enqueue_one_replay:
  assumes "rows_inv env (o_effects db)" "r \<in> set (o_effects db)" "stored_as env p r"
  shows "enqueue_one env p ident now db = Inr (ef_id r, db)"
proof -
  have "sql_first (effect_is (pp_page p) (pp_revision p) (pp_kind p)) (o_effects db) = Some r"
    by (rule sql_first_unique [where k = intent_of and key = "(pp_page p, pp_revision p, pp_kind p)"])
      (use assms in \<open>auto simp: rows_inv_def stored_as_def intent_of_def effect_is_def\<close>)
  with assms(3) show ?thesis by (simp add: enqueue_one_def stored_as_def)
qed

definition stored_intent :: "run_env \<Rightarrow> effects_input \<Rightarrow> int \<Rightarrow> string \<Rightarrow> effect_row list \<Rightarrow> effect_kind \<Rightarrow> string \<Rightarrow> bool" where
  "stored_intent env i page rv rows k x = (\<exists>r\<in>set rows. stored_as env (intent_payload env i page rv k) r \<and> ef_id r = x)"

lemma stored_intent_kept:
  assumes "rows_kept T rows rows'" "stored_intent env i page rv rows k x"
  shows "stored_intent env i page rv rows' k x"
proof -
  from assms(2) obtain r where r: "r \<in> set rows" "stored_as env (intent_payload env i page rv k) r" "ef_id r = x"
    by (auto simp: stored_intent_def)
  with assms(1) obtain s where "s \<in> set rows'" "same_content r s" by (auto simp: rows_kept_def)
  with stored_as_same [OF r(2)] r(3) show ?thesis by (auto simp: stored_intent_def)
qed

lemma enqueue_all_stored:
  assumes "enqueue_all env i page rv fresh now ks db = Inr (ids, db')" "rows_inv env (o_effects db)"
  shows "list_all2 (stored_intent env i page rv (o_effects db')) ks ids"
  using assms
proof (induction ks arbitrary: db ids)
  case (Cons k ks)
  from Cons.prems(1) obtain x db1 xs where one: "enqueue_one env (intent_payload env i page rv k) (fresh k) now db = Inr (x, db1)"
    and rest: "enqueue_all env i page rv fresh now ks db1 = Inr (xs, db')" and ids: "ids = x # xs"
    by (auto simp: rbind_Inr_iff split: prod.splits)
  have inv1: "rows_inv env (o_effects db1)"
    using enqueue_one_step [OF one, of "{}"] Cons.prems(2) by (simp add: outbox_step_def)
  have kept: "rows_kept {} (o_effects db1) (o_effects db')"
    using enqueue_all_step [OF rest, of "{}"] inv1 by (simp add: outbox_step_def)
  have "stored_intent env i page rv (o_effects db1) k x"
    using enqueue_one_stored [OF one] by (auto simp: stored_intent_def)
  with stored_intent_kept [OF kept] Cons.IH [OF rest inv1] ids show ?case by simp
qed simp

lemma enqueue_all_replay:
  assumes "list_all2 (stored_intent env i page rv (o_effects db)) ks ids" "rows_inv env (o_effects db)"
  shows "enqueue_all env i page rv fresh now ks db = Inr (ids, db)"
  using assms(1)
proof (induction ks ids rule: list_all2_induct)
  case (Cons k ks x xs)
  then obtain r where "r \<in> set (o_effects db)" "stored_as env (intent_payload env i page rv k) r" "ef_id r = x"
    by (auto simp: stored_intent_def)
  with enqueue_one_replay [OF assms(2)] Cons.IH show ?case by simp
qed simp

text \<open>Enqueueing is idempotent. The mutation that repeats the request of an earlier one, however the
  intents were processed in between, gets the same identifiers and writes nothing.
\<close>

theorem enqueue_is_idempotent:
  assumes "rows_inv env (o_effects db0)" "enqueue_effects env i fresh now db0 = Inr (ids, db1)"
    and "db = proj_run env describe instant ops db1"
  shows "enqueue_effects env i fresh' now' db = Inr (ids, db)"
proof -
  from assms(2) obtain page rv where page: "eq_page i = Whole page" "valid_page_id (Whole page)" "revision_string (eq_revision i) = Inr rv"
    "\<not> present_incomplete i" "\<not> absent_excessive i" "distinct (option_or (eq_effects i) all_effects)"
    and all: "enqueue_all env i page rv fresh now (option_or (eq_effects i) all_effects) db0 = Inr (ids, db1)"
    by (auto simp: enqueue_effects_def rbind_Inr_iff Let_def split: js_num.splits if_splits)
  have inv1: "rows_inv env (o_effects db1)"
    using enqueue_effects_step [OF assms(2), of "{}"] assms(1) by (simp add: outbox_step_def)
  have kept: "rows_kept UNIV (o_effects db1) (o_effects db)" unfolding assms(3) by (rule proj_run_kept [OF inv1]) simp
  have "list_all2 (stored_intent env i page rv (o_effects db)) (option_or (eq_effects i) all_effects) ids"
    using enqueue_all_stored [OF all assms(1)] stored_intent_kept [OF kept] by (rule list_all2_mono)
  moreover have "rows_inv env (o_effects db)" unfolding assms(3) proj_run_def by (rule outbox.run_inv [OF inv1])
  ultimately show ?thesis using page by (simp add: enqueue_effects_def enqueue_all_replay)
qed

section \<open>The payload that is read back\<close>

lemma js_positive_Whole [simp]: "js_positive (JNum (Whole i)) = (if safe_int i \<and> 0 < i then Some i else None)"
  by (simp add: js_positive_def)

lemma js_positive_SomeD: "js_positive v = Some i \<Longrightarrow> v = JNum (Whole i) \<and> safe_int i \<and> 0 < i"
  by (cases v rule: js_safe_integer.cases) (auto simp: js_positive_def split: if_splits)

lemma location_value_cases:
  "js_get ''locale'' (location_value l) = JStr (lo_locale l)" "js_get ''path'' (location_value l) = JStr (lo_path l)"
  "js_get ''visibility'' (location_value l) = JStr (visibility_text (lo_visibility l))"
  "js_get ''ownerId'' (location_value l) = js_null_or (\<lambda>i. JNum (Whole i)) (lo_owner l)"
  "strict_object [''locale'', ''path'', ''visibility'', ''ownerId''] [] (location_value l)"
  by (simp_all add: location_value_def strict_object_def)

lemma enum_texts:
  "enum_of visibility_text [Public, Private] (JStr (visibility_text v)) = Some v"
  "enum_of kind_text all_effects (JStr (kind_text k)) = Some k"
  "enum_of desired_text [Present, Absent] (JStr (desired_text d)) = Some d"
  "enum_of action_text all_actions (JStr (action_text a)) = Some a"
proof -
  show "enum_of visibility_text [Public, Private] (JStr (visibility_text v)) = Some v"
    by (cases v) (simp_all add: enum_of_def visibility_text_def)
  show "enum_of kind_text all_effects (JStr (kind_text k)) = Some k"
    by (cases k) (simp_all add: enum_of_def kind_text_def all_effects_def)
  show "enum_of desired_text [Present, Absent] (JStr (desired_text d)) = Some d"
    by (cases d) (simp_all add: enum_of_def desired_text_def)
  show "enum_of action_text all_actions (JStr (action_text a)) = Some a"
    by (cases a) (simp_all add: enum_of_def action_text_def all_actions_def)
qed

lemma location_round_trip: "location_valid l \<Longrightarrow> location_of (location_value l) = Some l"
  by (auto simp: location_of_def location_value_cases enum_texts location_valid_def string_of_def nullable_def js_null_or_def
      split: option.splits)

lemma location_of_valid: "location_of v = Some l \<Longrightarrow> location_valid l"
  by (auto simp: location_of_def location_valid_def string_of_def nullable_def split: if_splits option.splits js_value.splits
      dest: js_positive_SomeD)

lemma payload_value_cases:
  "js_get ''version'' (payload_value p) = JNum (Whole 1)" "js_get ''effectKind'' (payload_value p) = JStr (kind_text (pp_kind p))"
  "js_get ''desiredState'' (payload_value p) = JStr (desired_text (pp_desired p))" "js_get ''action'' (payload_value p) = JStr (action_text (pp_action p))"
  "js_get ''pageId'' (payload_value p) = JNum (Whole (pp_page p))" "js_get ''sourceRevision'' (payload_value p) = JStr (pp_revision p)"
  "js_get ''sourceSha256'' (payload_value p) = js_null_or JStr (pp_source_sha p)"
  "js_get ''location'' (payload_value p) = js_null_or location_value (pp_location p)"
  "js_get ''previousLocation'' (payload_value p) = js_null_or location_value (pp_previous p)"
  "strict_object payload_keys [] (payload_value p)"
  by (simp_all add: payload_value_def strict_object_def payload_keys_def)

lemma nullable_location: "pred_option location_valid l \<Longrightarrow> nullable location_of (js_null_or location_value l) = Some l"
  by (cases l) (simp_all add: nullable_def js_null_or_def location_round_trip, simp add: location_value_def)

lemma nullable_hex: "pred_option (is_hex 64) s \<Longrightarrow> nullable (string_of (is_hex 64)) (js_null_or JStr s) = Some s"
  by (cases s) (simp_all add: nullable_def js_null_or_def string_of_def)

lemma nullable_Some: "nullable f v = Some x \<Longrightarrow> (case x of None \<Rightarrow> v = JNull | Some a \<Rightarrow> f v = Some a)"
  by (auto simp: nullable_def split: if_splits)

lemma payload_round_trip:
  assumes "payload_valid p"
  shows "payload_of (payload_value p) = Some p"
  using assms by (simp add: payload_of_def payload_value_cases enum_texts payload_valid_def nullable_location nullable_hex string_of_def)

text \<open>C16. The payload check admits well-formed payloads only, and all of them. What a worker reads from a
  stored intent has a positive page, a canonical revision, well-formed hashes and locations; and
  written out again it reads back as itself.
\<close>

theorem projection_payload_well_formed:
  assumes "payload_of v = Some p"
  shows "payload_valid p \<and> payload_of (payload_value p) = Some p"
proof -
  from assms obtain a b c where "js_positive (js_get ''pageId'' v) = Some (pp_page p)"
    "string_of positive_decimal (js_get ''sourceRevision'' v) = Some (pp_revision p)"
    and n: "nullable (string_of (is_hex 64)) a = Some (pp_source_sha p)" "nullable location_of b = Some (pp_location p)"
      "nullable location_of c = Some (pp_previous p)"
    by (auto simp: payload_of_def split: if_splits option.splits)
  moreover have "pred_option (is_hex 64) (pp_source_sha p)"
    using nullable_Some [OF n(1)] by (cases "pp_source_sha p") (auto simp: string_of_def split: js_value.splits if_splits)
  moreover have "pred_option location_valid (pp_location p)" "pred_option location_valid (pp_previous p)"
    using nullable_Some [OF n(2)] nullable_Some [OF n(3)] location_of_valid by (auto simp: option.pred_set split: option.splits)
  ultimately have "payload_valid p"
    by (auto simp: payload_valid_def string_of_def dest: js_positive_SomeD split: js_value.splits if_splits)
  with payload_round_trip show ?thesis by blast
qed

section \<open>A concrete outbox\<close>

definition demo_location :: location where
  "demo_location = \<lparr>lo_locale = ''en'', lo_path = ''home'', lo_visibility = Public, lo_owner = None\<rparr>"

definition demo_intent :: projection_payload where
  "demo_intent = \<lparr>pp_kind = Render, pp_desired = Present, pp_action = A_update, pp_page = 7, pp_revision = ''1'',
     pp_source_sha = Some (replicate 64 CHR ''0''), pp_location = Some demo_location, pp_previous = None\<rparr>"

definition outbox_env :: run_env where
  "outbox_env = \<lparr>env_sha = (\<lambda>_. replicate 64 CHR ''0''), env_parse = (\<lambda>_. Some (payload_value demo_intent)), env_number = (\<lambda>_. None),
     env_collate = (\<lambda>s t. string_code s \<le> string_code t), env_uuid = (\<lambda>_. True)\<rparr>"

definition demo_enqueue :: effects_input where
  "demo_enqueue = \<lparr>eq_page = Whole 7, eq_revision = ''1'', eq_desired = Present, eq_action = A_update, eq_source = Some ''text'',
     eq_location = Some demo_location, eq_previous = None, eq_effects = Some [Render]\<rparr>"

definition empty_outbox :: proj_db where
  "empty_outbox = \<lparr>o_effects = [], o_pages = [], o_links = [], o_vectors = [], o_words = [], o_passwords = []\<rparr>"

definition demo_outbox :: proj_db where
  "demo_outbox = empty_outbox\<lparr>o_effects := [new_effect outbox_env ''e1'' ''j'' demo_intent 0]\<rparr>"

definition demo_effect_claim :: effect_claim where
  "demo_effect_claim = \<lparr>ek_id = ''e1'', ek_token = ''t'', ek_attempts = 1, ek_payload = demo_intent\<rparr>"

definition demo_claiming :: effect_claim_input where
  "demo_claiming = \<lparr>ec_owner = ''w'', ec_limit = Some (Whole 1), ec_max_active = None, ec_lease_ms = None, ec_effects = None\<rparr>"

lemma demo_intent_valid: "payload_valid demo_intent"
  by (simp add: payload_valid_def demo_intent_def demo_location_def location_valid_def safe_int_def max_safe_def positive_decimal_def
    is_digit_def is_hex_def is_hex_char_def list_all_iff)

lemma empty_outbox_inv: "rows_inv env (o_effects empty_outbox)"
  by (simp add: rows_inv_def empty_outbox_def unique_key_def)

lemma demo_outbox_inv: "rows_inv outbox_env (o_effects demo_outbox)"
  by (simp add: rows_inv_def demo_outbox_def unique_key_def effect_ok_def new_effect_def)

lemma demo_parse: "parse_row outbox_env (new_effect outbox_env ''e1'' ''j'' demo_intent 0) = Inr demo_intent"
  by (simp add: parse_row_def new_effect_def outbox_env_def payload_round_trip [OF demo_intent_valid] revision_string_def)
    (simp add: demo_intent_def positive_decimal_def is_digit_def)

lemma demo_ready: "claim_ready instant all_effects 5 demo_outbox (new_effect outbox_env ''e1'' ''j'' demo_intent 0)"
  by (simp add: claim_ready_def waiting_def new_effect_def demo_intent_def lease_free_def links_may_run_def search_may_run_def all_effects_def)

lemma demo_claims: "\<exists>db'. claim_effects outbox_env (\<lambda>_. []) (\<lambda>_. None) (\<lambda>_. ''t'') demo_claiming 5 demo_outbox = Some (Inr ([demo_effect_claim], db'))"
proof -
  define row where "row = new_effect outbox_env ''e1'' ''j'' demo_intent 0"
  have row: "ef_id row = ''e1''" "ef_attempts row = 0" "lease_free 5 row" "waiting row" "ef_kind row \<in> set all_effects" "ef_available row = 0"
    "\<not> lease_over 5 row"
    by (simp_all add: row_def new_effect_def lease_free_def waiting_def demo_intent_def all_effects_def lease_over_def)
  have db: "o_effects demo_outbox = [row]" "demo_outbox\<lparr>o_effects := [row]\<rparr> = demo_outbox" by (simp_all add: demo_outbox_def row_def)
  obtain cfg where cfg: "cfg = \<lparr>cc_env = outbox_env, cc_describe = \<lambda>_. [], cc_instant = \<lambda>_. None, cc_token = \<lambda>_. ''t'', cc_owner = ''w'',
     cc_lease = 60000, cc_kinds = all_effects, cc_now = 5\<rparr>" by blast
  have set: "claim_setup outbox_env (\<lambda>_. []) (\<lambda>_. None) (\<lambda>_. ''t'') demo_claiming 5 = Inr (cfg, 1, None)"
    by (simp add: claim_setup_def lease_bounds_def demo_claiming_def cfg all_effects_def)
  have due: "due_effects (cc_instant cfg) (cc_kinds cfg) (cc_now cfg) 1 demo_outbox = [row]"
    using demo_ready [folded row_def] by (simp add: due_effects_def db cfg)
  define db' where "db' = demo_outbox\<lparr>o_effects := [leased_effect ''w'' ''t'' 60005 5 row]\<rparr>"
  have "claim_effect cfg row (([], False), demo_outbox) = Inr (([demo_effect_claim], False), db')"
    using demo_parse [folded row_def] row
    by (simp add: claim_effect_def cfg db sql_count_def sql_update_def same_effect_def demo_effect_claim_def db'_def Let_def)
  moreover have "claim_rounds cfg 1 [demo_effect_claim] db' = Some (Inr ([demo_effect_claim], db'))"
    by (subst claim_rounds.simps) simp
  ultimately have "claim_rounds cfg 1 [] demo_outbox = Some (Inr ([demo_effect_claim], db'))"
    using due by (subst claim_rounds.simps) simp
  moreover have "release_expired all_effects False 5 [row] = [row]"
    using row by (simp add: release_expired_def sql_update_def)
  ultimately show ?thesis using set row
    by (simp add: claim_effects_def claim_in_tx_def Let_def db claim_limit_def claim_probe_def cfg)
qed

theorem claimed_intents_may_run_witness:
  "\<exists>claims db'. claim_effects outbox_env (\<lambda>_. []) (\<lambda>_. None) (\<lambda>_. ''t'') demo_claiming 5 demo_outbox = Some (Inr (claims, db'))
     \<and> claims \<noteq> [] \<and> (\<exists>s\<in>set (o_effects db'). holds_effect demo_effect_claim s)"
proof -
  obtain db' where c: "claim_effects outbox_env (\<lambda>_. []) (\<lambda>_. None) (\<lambda>_. ''t'') demo_claiming 5 demo_outbox = Some (Inr ([demo_effect_claim], db'))"
    using demo_claims by blast
  from claimed_intents_may_run [OF demo_outbox_inv c] c show ?thesis by auto
qed

theorem intents_are_permanent_witness:
  "\<exists>s\<in>set (o_effects (proj_run outbox_env (\<lambda>_. []) (\<lambda>_. None) [Op_claim demo_claiming (\<lambda>_. ''t'') 5, Op_supersede (Whole 7) ''2'' 6] demo_outbox)).
     ef_id s = ''e1'' \<and> ef_payload s = ''j''"
proof -
  have "new_effect outbox_env ''e1'' ''j'' demo_intent 0 \<in> set (o_effects demo_outbox)" by (simp add: demo_outbox_def)
  with intents_are_permanent [OF demo_outbox_inv] obtain s where
    "s \<in> set (o_effects (proj_run outbox_env (\<lambda>_. []) (\<lambda>_. None) [Op_claim demo_claiming (\<lambda>_. ''t'') 5, Op_supersede (Whole 7) ''2'' 6] demo_outbox))"
    "same_content (new_effect outbox_env ''e1'' ''j'' demo_intent 0) s" by blast
  then show ?thesis by (intro bexI [of _ s]) (simp_all add: same_content_def new_effect_def)
qed

theorem lost_projection_lease_witness:
  "record_outcome demo_effect_claim Sink_invalid 9 (proj_run outbox_env (\<lambda>_. []) (\<lambda>_. None) [Op_claim demo_claiming (\<lambda>_. ''u'') 5] demo_outbox)
   = (Inl lease_lost_error, proj_run outbox_env (\<lambda>_. []) (\<lambda>_. None) [Op_claim demo_claiming (\<lambda>_. ''u'') 5] demo_outbox)"
proof -
  have "\<forall>r\<in>set (o_effects demo_outbox). ef_lease_token r \<noteq> Some (ek_token demo_effect_claim)" by (simp add: demo_outbox_def new_effect_def)
  moreover have "\<forall>op\<in>set [Op_claim demo_claiming (\<lambda>_. ''u'') 5]. ek_token demo_effect_claim \<notin> effect_tokens op"
    by (simp add: demo_effect_claim_def)
  ultimately show ?thesis using lost_projection_lease [OF demo_outbox_inv _ _ refl] by blast
qed

lemma demo_enqueued: "\<exists>db. enqueue_effects outbox_env demo_enqueue (\<lambda>_. ''e1'') 0 empty_outbox = Inr ([''e1''], db)"
proof -
  have p: "intent_payload outbox_env demo_enqueue 7 ''1'' Render = demo_intent"
    by (simp add: intent_payload_def demo_enqueue_def demo_intent_def outbox_env_def)
  have "encodable (payload_value demo_intent)"
    by (simp add: payload_value_def demo_intent_def js_null_or_def location_value_def demo_location_def)
  from encodable_canonical [OF this, of outbox_env] obtain t where "canonical_json outbox_env (payload_value demo_intent) = Some t" ..
  then have "\<exists>db. enqueue_one outbox_env demo_intent ''e1'' 0 empty_outbox = Inr (''e1'', db)"
    by (simp add: enqueue_one_def demo_intent_valid empty_outbox_def table_simps)
  with p show ?thesis
    by (auto simp: enqueue_effects_def demo_enqueue_def valid_page_id_def safe_int_def max_safe_def revision_string_def positive_decimal_def
      is_digit_def present_incomplete_def absent_excessive_def)
qed

theorem enqueue_is_idempotent_witness:
  "\<exists>db. enqueue_effects outbox_env demo_enqueue (\<lambda>_. ''e2'') 9 (proj_run outbox_env (\<lambda>_. []) (\<lambda>_. None) [Op_claim demo_claiming (\<lambda>_. ''t'') 5] db)
     = Inr ([''e1''], proj_run outbox_env (\<lambda>_. []) (\<lambda>_. None) [Op_claim demo_claiming (\<lambda>_. ''t'') 5] db)"
proof -
  obtain db where "enqueue_effects outbox_env demo_enqueue (\<lambda>_. ''e1'') 0 empty_outbox = Inr ([''e1''], db)" using demo_enqueued by blast
  from enqueue_is_idempotent [OF empty_outbox_inv this refl] show ?thesis by blast
qed

theorem projection_payload_well_formed_witness:
  "payload_of (payload_value demo_intent) = Some demo_intent \<and> payload_valid demo_intent"
  using projection_payload_well_formed [OF payload_round_trip [OF demo_intent_valid]] by blast

end
