(* ===== verification/PageAccess.thy ===== *)
theory PageAccess
  imports PageRules
begin

text \<open>
  Who may read, write and delete a page: principals
  (\<^verbatim>\<open>server/helpers/api-principal.ts\<close>), global and page access checks
  (\<^verbatim>\<open>server/core/auth.ts\<close>) and the page predicates of
  \<^verbatim>\<open>server/helpers/page-access.ts\<close>.

  A principal is an object: \<open>pr_ref\<close> is its identity, which the authority snapshot
  keeps and compares, \<open>pr_value\<close> its properties and \<open>pr_global\<close> the result of its
  \<^verbatim>\<open>getGlobalPermissions\<close> method, when it has one. An absent principal is \<^term>\<open>None\<close>.
\<close>

record principal =
  pr_ref :: nat
  pr_value :: js_value
  pr_global :: "string list option"

definition requester_ref :: "principal option \<Rightarrow> nat option" where
  "requester_ref user = map_option pr_ref user"

section \<open>API principals and requester bindings\<close>

definition js_all_strings :: "js_value \<Rightarrow> bool" where
  "js_all_strings v = (case v of JArr xs \<Rightarrow> list_all js_is_string xs | _ \<Rightarrow> False)"

definition is_api_principal :: "js_value \<Rightarrow> bool" where
  "is_api_principal v =
     (if \<not> js_is_record v \<or> js_has ''id'' v \<or> \<not> js_has ''api'' v \<or> \<not> js_has ''grp'' v
         \<or> js_positive (js_get ''api'' v) = None \<or> js_positive (js_get ''grp'' v) = None then False
      else
        let personal = js_get ''personalMcpAccess'' v = JStr ''read-only'' \<or>
                       js_get ''personalMcpAccess'' v = JStr ''read-write'';
            owner = js_get ''ownershipUserId'' v;
            groups = js_get ''groups'' v
        in if js_has ''ownershipUserId'' v \<and> owner \<noteq> JNull \<and> (\<not> personal \<or> js_positive owner = None) then False
           else if personal \<and> js_positive owner = None then False
           else if groups \<noteq> JUndefined \<and>
             (case groups of
                JArr gs \<Rightarrow> \<not> list_all (\<lambda>g. js_positive g \<noteq> None) gs \<or>
                           (\<not> personal \<and> (length gs \<noteq> 1 \<or> gs ! 0 \<noteq> js_get ''grp'' v))
              | _ \<Rightarrow> True) then False
           else if js_get ''permissions'' v \<noteq> JUndefined \<and> \<not> js_all_strings (js_get ''permissions'' v) then False
           else if js_get ''exp'' v \<noteq> JUndefined \<and>
             (case js_safe_integer (js_get ''exp'' v) of None \<Rightarrow> True | Some e \<Rightarrow> e < 0) then False
           else if js_get ''mcpResource'' v \<noteq> JUndefined \<and> \<not> js_is_string (js_get ''mcpResource'' v) then False
           else if js_get ''mcpResourceVersion'' v \<noteq> JUndefined \<and>
             (case js_safe_integer (js_get ''mcpResourceVersion'' v) of None \<Rightarrow> True | Some e \<Rightarrow> e < 0) then False
           else True)"

datatype requester_binding = Anonymous | Guest | User int | Api_key int int

definition page_rule_requester_binding :: "js_value \<Rightarrow> requester_binding" where
  "page_rule_requester_binding requester =
     (if is_api_principal requester then
        (case (js_positive (js_get ''api'' requester), js_positive (js_get ''grp'' requester)) of
           (Some a, Some g) \<Rightarrow> Api_key a g | _ \<Rightarrow> Anonymous)
      else if \<not> js_is_object requester then Anonymous
      else
        let id = js_positive (js_get ''id'' requester);
            has_ownership = js_has ''ownershipUserId'' requester;
            ownership = js_get ''ownershipUserId'' requester
        in case id of
             None \<Rightarrow> Anonymous
           | Some i \<Rightarrow>
               if i = 2 then (if \<not> has_ownership \<or> ownership = JNull then Guest else Anonymous)
               else if \<not> has_ownership \<or> ownership = JNum (Whole i) then User i
               else Anonymous)"

section \<open>The authority snapshot\<close>

record authority =
  au_requester :: "nat option"
  au_permissions :: "string list"
  au_groups :: "access_group list"
  au_aliases :: alias_map

text \<open>
  \<^verbatim>\<open>authoritySnapshot\<close>, after its rows were parsed: duplicate tag rows are refused, the
  permissions are those of the selected groups.
\<close>

definition duplicate_tags :: "tag_identity list \<Rightarrow> bool" where
  "duplicate_tags tags = (\<not> distinct (map tag_id tags) \<or> \<not> distinct (map tag_tag tags))"

definition authority_snapshot ::
  "principal option \<Rightarrow> access_group list \<Rightarrow> tag_identity list \<Rightarrow> authority result" where
  "authority_snapshot requester groups tags =
     (if duplicate_tags tags then Inl Plain_error
      else rbind (tag_alias_map tags) (\<lambda>aliases.
        Inr \<lparr>au_requester = requester_ref requester,
             au_permissions = dedup (concat (map (\<lambda>g. option_or (group_permissions g) []) groups)),
             au_groups = groups, au_aliases = aliases\<rparr>))"

definition authority_matches_requester :: "principal option \<Rightarrow> authority \<Rightarrow> bool" where
  "authority_matches_requester requester au = (au_requester au = requester_ref requester)"

section \<open>Global access\<close>

definition is_access_user :: "principal option \<Rightarrow> bool" where
  "is_access_user user = (case user of None \<Rightarrow> False
     | Some u \<Rightarrow> js_is_object (pr_value u) \<and>
         (js_get ''permissions'' (pr_value u) = JUndefined \<or> js_all_strings (js_get ''permissions'' (pr_value u))))"

definition get_permissions :: "principal \<Rightarrow> js_value list" where
  "get_permissions u = (case js_get ''permissions'' (pr_value u) of
      JArr xs \<Rightarrow> xs
    | _ \<Rightarrow> map JStr (option_or (pr_global u) []))"

definition check_access :: "principal option \<Rightarrow> string list \<Rightarrow> bool" where
  "check_access user permissions = (case user of None \<Rightarrow> False
     | Some u \<Rightarrow> List.member (get_permissions u) (JStr ''manage:system'') \<or>
         list_ex (\<lambda>p. List.member (get_permissions u) (JStr p)) permissions)"

definition valid_access_page :: "access_page \<Rightarrow> bool" where
  "valid_access_page p = (page_path p \<noteq> [] \<and>
     (case page_tags p of None \<Rightarrow> True | Some ts \<Rightarrow> list_all (\<lambda>t. t \<noteq> []) ts))"

definition check_page_access ::
  "regex_engine \<Rightarrow> principal option \<Rightarrow> string list \<Rightarrow> access_page \<Rightarrow> authority \<Rightarrow> bool" where
  "check_page_access regex user permissions context au =
     (if \<not> is_access_user user \<or> \<not> valid_access_page context \<or>
         \<not> list_all (\<lambda>g. 1 \<le> group_id g \<and> int (group_id g) \<le> max_safe) (au_groups au) \<or>
         \<not> authority_matches_requester user au then False
      else va_allowed (evaluate_group_access regex (au_permissions au) permissions
                        (au_groups au) (Some context) (au_aliases au) False))"

section \<open>Pages\<close>

text \<open>A page row as the callers pass it; every column may hold any value.\<close>

record page_record =
  pv_path :: js_value
  pv_locale_code :: js_value
  pv_locale :: js_value
  pv_visibility :: js_value
  pv_owner :: js_value
  pv_tags :: js_value

definition normalized_tag_name :: "js_value \<Rightarrow> string option" where
  "normalized_tag_name value =
     (case (case value of JStr s \<Rightarrow> JStr s | v \<Rightarrow> if js_is_object v then js_get ''tag'' v else JUndefined) of
        JStr raw \<Rightarrow> (let tag = to_lower (trim raw) in if tag = [] then None else Some tag)
      | _ \<Rightarrow> None)"

fun collect_tags :: "js_value list \<Rightarrow> string list \<Rightarrow> string list option" where
  "collect_tags [] tags = Some tags"
| "collect_tags (v # vs) tags =
     (case normalized_tag_name v of
        None \<Rightarrow> None
      | Some tag \<Rightarrow> collect_tags vs (if tag \<in> set tags then tags else tags @ [tag]))"

definition page_authorization_context :: "page_record \<Rightarrow> access_page option" where
  "page_authorization_context page =
     (let loc = (case pv_locale_code page of JStr l \<Rightarrow> Some l
                 | _ \<Rightarrow> (case pv_locale page of JStr l \<Rightarrow> Some l | _ \<Rightarrow> None))
      in case (pv_path page, loc, pv_tags page) of
           (JStr path, Some l, JArr ts) \<Rightarrow>
             if path = [] \<or> (pv_visibility page \<noteq> JStr ''public'' \<and> pv_visibility page \<noteq> JStr ''private'')
                \<or> (pv_owner page \<noteq> JNull \<and> js_positive (pv_owner page) = None) then None
             else map_option (\<lambda>tags. \<lparr>page_path = path, page_locale = Some l, page_tags = Some tags\<rparr>)
                    (collect_tags ts [])
         | _ \<Rightarrow> None)"

definition principal_id :: "principal option \<Rightarrow> int option" where
  "principal_id user = (case user of None \<Rightarrow> None
     | Some u \<Rightarrow>
         if js_has ''ownershipUserId'' (pr_value u) then js_positive (js_get ''ownershipUserId'' (pr_value u))
         else (case js_safe_integer (js_get ''id'' (pr_value u)) of
                 None \<Rightarrow> None
               | Some i \<Rightarrow> if 0 < i \<and> i \<noteq> 2 then Some i else None))"

definition manages_system :: "principal option \<Rightarrow> bool" where
  "manages_system user = check_access user [''manage:system'']"

text \<open>\<^verbatim>\<open>principalId(user) === page.ownerId\<close>: both sides may be null.\<close>

definition owns_private_page :: "principal option \<Rightarrow> page_record \<Rightarrow> bool" where
  "owns_private_page user page =
     (pv_visibility page = JStr ''private'' \<and>
      pv_owner page = (case principal_id user of None \<Rightarrow> JNull | Some i \<Rightarrow> JNum (Whole i)))"

definition page_gate ::
  "regex_engine \<Rightarrow> string list \<Rightarrow> principal option \<Rightarrow> page_record \<Rightarrow> authority \<Rightarrow> bool" where
  "page_gate regex permissions user page au =
     (if \<not> authority_matches_requester user au then False
      else if pv_visibility page = JStr ''private'' then owns_private_page user page \<or> manages_system user
      else (case page_authorization_context page of
              None \<Rightarrow> False
            | Some context \<Rightarrow> check_page_access regex user permissions context au))"

definition can_read_page :: "regex_engine \<Rightarrow> principal option \<Rightarrow> page_record \<Rightarrow> authority \<Rightarrow> bool" where
  "can_read_page regex user page au = page_gate regex [''read:pages''] user page au"

definition can_write_page :: "regex_engine \<Rightarrow> principal option \<Rightarrow> page_record \<Rightarrow> authority \<Rightarrow> bool" where
  "can_write_page regex user page au =
     page_gate regex [''write:pages'', ''manage:pages'', ''manage:system''] user page au"

definition can_view_steward_contacts :: "regex_engine \<Rightarrow> principal option \<Rightarrow> page_record \<Rightarrow> authority \<Rightarrow> bool" where
  "can_view_steward_contacts regex user page au = can_write_page regex user page au"

definition can_delete_page :: "regex_engine \<Rightarrow> principal option \<Rightarrow> page_record \<Rightarrow> authority \<Rightarrow> bool" where
  "can_delete_page regex user page au =
     page_gate regex [''delete:pages'', ''manage:system''] user page au"

text \<open>\<^verbatim>\<open>scopePageQueryForOwner\<close>: the row condition it adds to a query on pages.\<close>

definition scope_page_for_owner :: "int option \<Rightarrow> page_record \<Rightarrow> bool" where
  "scope_page_for_owner owner page =
     (pv_visibility page = JStr ''public'' \<or>
      (case owner of None \<Rightarrow> False
       | Some o' \<Rightarrow> pv_visibility page = JStr ''private'' \<and> pv_owner page = JNum (Whole o')))"

definition scope_page_query :: "bool \<Rightarrow> principal option \<Rightarrow> page_record \<Rightarrow> bool" where
  "scope_page_query include_all user page =
     (if include_all \<and> manages_system user then True else scope_page_for_owner (principal_id user) page)"

text \<open>The check constraint on \<^verbatim>\<open>pages\<close>: exactly the private pages have an owner.\<close>

definition visibility_owner_check :: "page_record \<Rightarrow> bool" where
  "visibility_owner_check page =
     ((pv_visibility page = JStr ''public'' \<and> pv_owner page = JNull) \<or>
      (pv_visibility page = JStr ''private'' \<and> pv_owner page \<noteq> JNull))"

section \<open>The contract the operations on pages rely on\<close>

text \<open>
  What a component that gates an operation by one of the page predicates may rely on: the
  predicate holds only for the requester the authority was loaded for, and on a private
  page only for its owner or a system administrator.
\<close>

locale page_policy =
  fixes permits :: "principal option \<Rightarrow> page_record \<Rightarrow> authority \<Rightarrow> bool"
  assumes permits_bound: "permits user page au \<Longrightarrow> authority_matches_requester user au"
    and permits_private: "permits user page au \<Longrightarrow> pv_visibility page = JStr ''private'' \<Longrightarrow>
      owns_private_page user page \<or> manages_system user"
begin

lemma private_owner_only:
  assumes "permits user page au" "pv_visibility page = JStr ''private''" "visibility_owner_check page"
    and "\<not> manages_system user"
  shows "\<exists>i. principal_id user = Some i \<and> pv_owner page = JNum (Whole i)"
proof -
  from permits_private [OF assms(1,2)] assms(4) have "owns_private_page user page" by simp
  with assms(2,3) show ?thesis
    by (auto simp: owns_private_page_def visibility_owner_check_def split: option.splits)
qed

lemma foreign_authority_refused: "\<not> authority_matches_requester user au \<Longrightarrow> \<not> permits user page au"
  using permits_bound by blast

end

lemma page_gate_bound: "page_gate regex ps user page au \<Longrightarrow> authority_matches_requester user au"
  by (simp add: page_gate_def split: if_splits)

lemma page_gate_private: "page_gate regex ps user page au \<Longrightarrow> pv_visibility page = JStr ''private'' \<Longrightarrow>
  owns_private_page user page \<or> manages_system user"
  by (simp add: page_gate_def split: if_splits)

lemmas page_gates = can_read_page_def can_write_page_def can_delete_page_def

interpretation reading: page_policy "can_read_page regex" for regex
  by unfold_locales (auto simp: page_gates dest: page_gate_bound page_gate_private)

interpretation writing: page_policy "can_write_page regex" for regex
  by unfold_locales (auto simp: page_gates dest: page_gate_bound page_gate_private)

interpretation deleting: page_policy "can_delete_page regex" for regex
  by unfold_locales (auto simp: page_gates dest: page_gate_bound page_gate_private)

section \<open>Lemmas\<close>

lemma api_principal_no_id:
  assumes "is_api_principal (pr_value u)"
    and "js_get ''personalMcpAccess'' (pr_value u) \<noteq> JStr ''read-only''"
    and "js_get ''personalMcpAccess'' (pr_value u) \<noteq> JStr ''read-write''"
  shows "principal_id (Some u) = None"
proof -
  define v where "v = pr_value u"
  have id: "\<not> js_has ''id'' v"
    using assms(1) by (auto simp: is_api_principal_def v_def split: if_splits)
  have rec: "js_is_record v"
    using assms(1) by (auto simp: is_api_principal_def v_def split: if_splits)
  have own: "js_has ''ownershipUserId'' v \<Longrightarrow> js_get ''ownershipUserId'' v = JNull"
    using assms by (auto simp: is_api_principal_def Let_def v_def split: if_splits)
  have "js_get ''id'' v = JUndefined"
    using id rec by (cases v) (auto split: option.splits)
  then show ?thesis
    using own unfolding v_def [symmetric] by (auto simp: principal_id_def js_positive_def v_def)
qed

lemma collect_tags_Some:
  "collect_tags vs tags = Some res \<Longrightarrow> distinct tags \<Longrightarrow>
    distinct res \<and> set res = set tags \<union> {t. \<exists>v\<in>set vs. normalized_tag_name v = Some t}
    \<and> (\<forall>v\<in>set vs. normalized_tag_name v \<noteq> None)"
proof (induction vs tags rule: collect_tags.induct)
  case (2 v vs tags)
  then obtain t where t: "normalized_tag_name v = Some t"
    and rec: "collect_tags vs (if t \<in> set tags then tags else tags @ [t]) = Some res"
    by (auto split: option.splits)
  from 2(3) have "distinct (if t \<in> set tags then tags else tags @ [t])" by simp
  from 2(1) [OF t rec this] t show ?case by (auto split: if_splits)
qed auto

lemma normalized_tag_nonempty: "normalized_tag_name v = Some t \<Longrightarrow> t \<noteq> [] \<and> to_lower t = t"
  by (auto simp: normalized_tag_name_def Let_def split: js_value.splits if_splits)

section \<open>Properties\<close>

text \<open>C1. A private page is closed to everyone but its owner and system administrators: under
  the database's constraint that exactly the private pages have an owner, whoever may read,
  write or delete a private page without \<^verbatim>\<open>manage:system\<close> is the principal whose account
  owns it. Without the constraint the comparison of two null ids would admit guests.
\<close>

theorem private_page_owner_only:
  assumes "pv_visibility page = JStr ''private''" "visibility_owner_check page" "\<not> manages_system user"
    and "can_read_page regex user page au \<or> can_write_page regex user page au \<or> can_delete_page regex user page au"
  shows "\<exists>i. principal_id user = Some i \<and> pv_owner page = JNum (Whole i)"
  using assms(4) reading.private_owner_only [OF _ assms(1-3)] writing.private_owner_only [OF _ assms(1-3)]
    deleting.private_owner_only [OF _ assms(1-3)] by blast

theorem private_page_owner_only_witness:
  "let user = Some \<lparr>pr_ref = 7, pr_value = JObj [(''id'', JNum (Whole 5)), (''permissions'', JArr [])], pr_global = None\<rparr>;
       page = \<lparr>pv_path = JStr ''notes'', pv_locale_code = JStr ''en'', pv_locale = JUndefined,
               pv_visibility = JStr ''private'', pv_owner = JNum (Whole 5), pv_tags = JArr []\<rparr>;
       au = \<lparr>au_requester = Some 7, au_permissions = [], au_groups = [], au_aliases = Map.empty\<rparr>
   in can_read_page (\<lambda>_. None) user page au \<and> (\<exists>i. principal_id user = Some i \<and> pv_owner page = JNum (Whole i))"
proof -
  let ?user = "Some \<lparr>pr_ref = 7, pr_value = JObj [(''id'', JNum (Whole 5)), (''permissions'', JArr [])], pr_global = None\<rparr>"
  let ?page = "\<lparr>pv_path = JStr ''notes'', pv_locale_code = JStr ''en'', pv_locale = JUndefined,
               pv_visibility = JStr ''private'', pv_owner = JNum (Whole 5), pv_tags = JArr []\<rparr>"
  let ?au = "\<lparr>au_requester = Some 7, au_permissions = [], au_groups = [], au_aliases = Map.empty\<rparr>"
  have r: "can_read_page (\<lambda>_. None) ?user ?page ?au"
    by (simp add: page_gates page_gate_def authority_matches_requester_def requester_ref_def
        owns_private_page_def principal_id_def safe_int_def max_safe_def)
  have "visibility_owner_check ?page" "\<not> manages_system ?user" "pv_visibility ?page = JStr ''private''"
    by (simp_all add: visibility_owner_check_def manages_system_def check_access_def get_permissions_def)
  from private_page_owner_only [OF this(3,1,2)] r show ?thesis unfolding Let_def by blast
qed

text \<open>C6. The row filter that list queries add and the predicate that guards a single page agree
  on private pages: with the requester's own authority, a private page is in the scope of a
  query that exempts system administrators exactly when the requester may read it, and the
  scope never hides a public page.
\<close>

theorem page_scope_agrees:
  assumes "authority_matches_requester user au" "visibility_owner_check page"
  shows "if pv_visibility page = JStr ''private''
    then scope_page_query True user page \<longleftrightarrow> can_read_page regex user page au
    else scope_page_query True user page"
  using assms
  by (auto simp: scope_page_query_def scope_page_for_owner_def page_gates page_gate_def
      owns_private_page_def visibility_owner_check_def split: option.splits)

theorem page_scope_agrees_witness:
  "let user = Some \<lparr>pr_ref = 7, pr_value = JObj [(''id'', JNum (Whole 5)), (''permissions'', JArr [])], pr_global = None\<rparr>;
       page = \<lparr>pv_path = JStr ''notes'', pv_locale_code = JStr ''en'', pv_locale = JUndefined,
               pv_visibility = JStr ''private'', pv_owner = JNum (Whole 6), pv_tags = JArr []\<rparr>;
       au = \<lparr>au_requester = Some 7, au_permissions = [], au_groups = [], au_aliases = Map.empty\<rparr>
   in scope_page_query True user page \<longleftrightarrow> can_read_page (\<lambda>_. None) user page au"
proof -
  let ?user = "Some \<lparr>pr_ref = 7, pr_value = JObj [(''id'', JNum (Whole 5)), (''permissions'', JArr [])], pr_global = None\<rparr>"
  let ?page = "\<lparr>pv_path = JStr ''notes'', pv_locale_code = JStr ''en'', pv_locale = JUndefined,
               pv_visibility = JStr ''private'', pv_owner = JNum (Whole 6), pv_tags = JArr []\<rparr>"
  let ?au = "\<lparr>au_requester = Some 7, au_permissions = [], au_groups = [], au_aliases = Map.empty\<rparr>"
  have "authority_matches_requester ?user ?au" "visibility_owner_check ?page"
    by (simp_all add: authority_matches_requester_def requester_ref_def visibility_owner_check_def)
  from page_scope_agrees [OF this, of "\<lambda>_. None"] show ?thesis unfolding Let_def by simp
qed

text \<open>An API key has no private namespace: a value recognised as an API principal without
  personal MCP access resolves to no account, so on a private page it may read, write or
  delete nothing unless its group holds \<^verbatim>\<open>manage:system\<close>, whatever claims it carries.
\<close>

theorem api_key_owns_nothing:
  assumes "is_api_principal (pr_value u)"
    and "js_get ''personalMcpAccess'' (pr_value u) \<noteq> JStr ''read-only''"
    and "js_get ''personalMcpAccess'' (pr_value u) \<noteq> JStr ''read-write''"
    and "pv_visibility page = JStr ''private''" "visibility_owner_check page"
    and "\<not> manages_system (Some u)"
  shows "\<not> can_read_page regex (Some u) page au \<and> \<not> can_write_page regex (Some u) page au
    \<and> \<not> can_delete_page regex (Some u) page au \<and> \<not> scope_page_query True (Some u) page"
proof -
  note none = api_principal_no_id [OF assms(1-3)]
  have "\<not> owns_private_page (Some u) page"
    using none assms(4,5) by (auto simp: owns_private_page_def visibility_owner_check_def)
  with assms(4,6) none show ?thesis
    by (auto simp: page_gates scope_page_query_def scope_page_for_owner_def dest: page_gate_private)
qed

theorem api_key_owns_nothing_witness:
  "let u = \<lparr>pr_ref = 1, pr_value = JObj [(''api'', JNum (Whole 3)), (''grp'', JNum (Whole 4)),
             (''permissions'', JArr [JStr ''read:pages'']), (''ownershipUserId'', JNull)], pr_global = None\<rparr>;
       page = \<lparr>pv_path = JStr ''notes'', pv_locale_code = JStr ''en'', pv_locale = JUndefined,
               pv_visibility = JStr ''private'', pv_owner = JNum (Whole 6), pv_tags = JArr []\<rparr>;
       au = \<lparr>au_requester = Some 1, au_permissions = [], au_groups = [], au_aliases = Map.empty\<rparr>
   in is_api_principal (pr_value u) \<and> \<not> can_read_page (\<lambda>_. None) (Some u) page au"
proof -
  let ?u = "\<lparr>pr_ref = 1, pr_value = JObj [(''api'', JNum (Whole 3)), (''grp'', JNum (Whole 4)),
             (''permissions'', JArr [JStr ''read:pages'']), (''ownershipUserId'', JNull)], pr_global = None\<rparr>"
  let ?page = "\<lparr>pv_path = JStr ''notes'', pv_locale_code = JStr ''en'', pv_locale = JUndefined,
               pv_visibility = JStr ''private'', pv_owner = JNum (Whole 6), pv_tags = JArr []\<rparr>"
  have a: "is_api_principal (pr_value ?u)"
    by (simp add: is_api_principal_def js_positive_def safe_int_def max_safe_def js_all_strings_def)
  have b: "js_get ''personalMcpAccess'' (pr_value ?u) \<noteq> JStr ''read-only''"
    "js_get ''personalMcpAccess'' (pr_value ?u) \<noteq> JStr ''read-write''" by simp_all
  have c: "pv_visibility ?page = JStr ''private''" "visibility_owner_check ?page" "\<not> manages_system (Some ?u)"
    by (simp_all add: visibility_owner_check_def manages_system_def check_access_def get_permissions_def)
  from api_key_owns_nothing [OF a b c] a show ?thesis unfolding Let_def by blast
qed

text \<open>The authorization context is complete or absent: when a page row yields a context,
  every one of its tags was recognised, and the context's tags are exactly the normalised
  names, each once, non-empty and lower case. A row with an unreadable tag yields none, so a
  tag rule can never be escaped by a malformed tag.
\<close>

theorem authorization_context_complete:
  assumes "page_authorization_context page = Some c"
  shows "\<exists>vs tags. pv_tags page = JArr vs \<and> page_tags c = Some tags \<and> distinct tags
    \<and> (\<forall>v\<in>set vs. normalized_tag_name v \<noteq> None)
    \<and> set tags = {t. \<exists>v\<in>set vs. normalized_tag_name v = Some t}
    \<and> (\<forall>t\<in>set tags. t \<noteq> [] \<and> to_lower t = t)"
proof -
  from assms obtain vs tags where vs: "pv_tags page = JArr vs" "collect_tags vs [] = Some tags"
    "page_tags c = Some tags"
    by (auto simp: page_authorization_context_def Let_def split: js_value.splits option.splits if_splits)
  from collect_tags_Some [OF vs(2)] vs(1,3) show ?thesis by (auto dest: normalized_tag_nonempty)
qed

theorem authorization_context_complete_witness:
  "let page = \<lparr>pv_path = JStr ''a'', pv_locale_code = JStr ''en'', pv_locale = JUndefined,
               pv_visibility = JStr ''public'', pv_owner = JNull, pv_tags = JArr [JStr '' Ops '', JStr ''ops'']\<rparr>;
       c = \<lparr>page_path = ''a'', page_locale = Some ''en'', page_tags = Some [''ops'']\<rparr>
   in page_authorization_context page = Some c
    \<and> (\<exists>vs tags. pv_tags page = JArr vs \<and> page_tags c = Some tags \<and> distinct tags)"
proof -
  let ?page = "\<lparr>pv_path = JStr ''a'', pv_locale_code = JStr ''en'', pv_locale = JUndefined,
               pv_visibility = JStr ''public'', pv_owner = JNull, pv_tags = JArr [JStr '' Ops '', JStr ''ops'']\<rparr>"
  have "page_authorization_context ?page = Some \<lparr>page_path = ''a'', page_locale = Some ''en'', page_tags = Some [''ops'']\<rparr>"
    by code_simp
  from authorization_context_complete [OF this] this show ?thesis unfolding Let_def by auto
qed

end
