(* ===== verification/PageProtection.thy ===== *)
theory PageProtection
  imports ProjectionLaws PageAccess
begin

text \<open>
  Password protection of pages (\<^verbatim>\<open>server/operations/page-protection.ts\<close> and the tables of
  \<^verbatim>\<open>server/db/migrations/2.5.134.ts\<close>): setting and removing a password, unlocking a page for a
  session, and the question whether a page is locked for a requester. The password hash
  (bcrypt), the regular expression engine, URL parsing and the asset hash are parameters; the
  authority of the requester is the one \<^verbatim>\<open>loadPageRuleAuthority\<close> loaded. The refresh of the
  search engine after the transaction is left out.
\<close>

section \<open>Tables\<close>

record grant_row =
  gr_id :: string
  gr_page :: int
  gr_session :: string
  gr_user :: "int option"
  gr_version :: int
  gr_created :: int
  gr_expires :: int

record protected_asset =
  as_page :: int
  as_path :: string
  as_asset :: "int option"

record page_db = proj_db +
  o_grants :: "grant_row list"
  o_assets :: "protected_asset list"
  o_asset_ids :: "(int \<times> string) list"
  o_tags :: "(int \<times> string) list"

text \<open>What the platform provides.\<close>

record protection_env =
  pe_text :: run_env
  pe_instant :: "string \<Rightarrow> int option"
  pe_regex :: regex_engine
  pe_hash :: "string \<Rightarrow> string"
  pe_compare :: "string \<Rightarrow> string \<Rightarrow> bool"
  pe_captures :: "nat \<Rightarrow> string \<Rightarrow> string list"
  pe_pathname :: "string \<Rightarrow> string option"
  pe_decode :: "string \<Rightarrow> string option"
  pe_asset_hash :: "string \<Rightarrow> string"
  pe_identity :: bool

definition grant_lifetime :: int where
  "grant_lifetime = 12 * 60 * 60 * 1000"

definition fake_password_hash :: string where
  "fake_password_hash = ''$2a$12$irXbAcQSY59pcQQfNQpY8uyhfSw48nzDikAmr60drI501nR.PuBx2''"

definition page_locked :: js_error where
  "page_locked = Coded ''PAGE_LOCKED'' 403"

definition page_not_found :: js_error where
  "page_not_found = Coded ''PAGE_NOT_FOUND'' 404"

definition auth_required :: js_error where
  "auth_required = Coded ''AUTH_REQUIRED'' 401"

section \<open>Requesters and pages\<close>

text \<open>\<^verbatim>\<open>authenticatedId\<close>\<close>

definition authenticated_id :: "principal option \<Rightarrow> int result" where
  "authenticated_id requester = (case (requester, principal_id requester) of
      (Some u, Some i) \<Rightarrow> if i = 2 \<or> js_get ''email'' (pr_value u) = JStr ''api@localhost'' then Inl auth_required else Inr i
    | _ \<Rightarrow> Inl auth_required)"

text \<open>\<^verbatim>\<open>loadPageTags\<close>, and the page a permission check sees.\<close>

definition load_page_tags :: "int \<Rightarrow> 'z page_db_scheme \<Rightarrow> string list" where
  "load_page_tags page db = sort (map snd (filter (\<lambda>t. fst t = page) (o_tags db)))"

definition page_view :: "'z page_db_scheme \<Rightarrow> projection_page \<Rightarrow> page_record" where
  "page_view db p = \<lparr>pv_path = JStr (lo_path (pj_location p)), pv_locale_code = JStr (lo_locale (pj_location p)), pv_locale = JUndefined,
     pv_visibility = JStr (visibility_text (lo_visibility (pj_location p))),
     pv_owner = js_null_or (\<lambda>i. JNum (Whole i)) (lo_owner (pj_location p)),
     pv_tags = JArr (map (\<lambda>t. JObj [(''tag'', JStr t)]) (load_page_tags (pj_id p) db))\<rparr>"

definition find_page :: "int \<Rightarrow> 'z page_db_scheme \<Rightarrow> projection_page option" where
  "find_page page db = sql_first (\<lambda>p. pj_id p = page) (o_pages db)"

definition protection_of :: "int \<Rightarrow> 'z page_db_scheme \<Rightarrow> protection_row option" where
  "protection_of page db = sql_first (\<lambda>w. pw_page w = page) (o_passwords db)"

text \<open>\<^verbatim>\<open>manageablePage\<close>\<close>

definition manageable_page :: "protection_env \<Rightarrow> principal option \<Rightarrow> authority \<Rightarrow> int \<Rightarrow> 'z page_db_scheme \<Rightarrow> projection_page result" where
  "manageable_page env requester au page db = (case find_page page db of
      None \<Rightarrow> Inl page_not_found
    | Some p \<Rightarrow> if can_write_page (pe_regex env) requester (page_view db p) au then Inr p else Inl page_not_found)"

section \<open>Assets of a protected page\<close>

fun drop_slashes :: "string \<Rightarrow> string" where
  "drop_slashes (c # cs) = (if c = CHR ''/'' then drop_slashes cs else c # cs)"
| "drop_slashes [] = []"

text \<open>\<^verbatim>\<open>normalizedAssetPath\<close>: \<open>pe_pathname\<close> is the path of a URL of the wiki's own origin.\<close>

definition normalized_asset_path :: "protection_env \<Rightarrow> string \<Rightarrow> string option" where
  "normalized_asset_path env value = (case pe_pathname env value of
      None \<Rightarrow> None
    | Some name \<Rightarrow> (case pe_decode env name of
        None \<Rightarrow> None
      | Some decoded \<Rightarrow>
          let path = drop_slashes decoded in
          if path = [] \<or> length path > 512 \<or> starts_with path ''_'' \<or> starts_with path ''api/'' then None else Some path))"

text \<open>\<^verbatim>\<open>extractProtectedAssetPaths\<close>: the three patterns over the content and the rendering.\<close>

definition extract_asset_paths :: "protection_env \<Rightarrow> string \<Rightarrow> string \<Rightarrow> string list" where
  "extract_asset_paths env content render =
     sort (dedup (concat (map (\<lambda>source. concat (map (\<lambda>pattern.
        concat (map (\<lambda>value. case normalized_asset_path env value of None \<Rightarrow> [] | Some p \<Rightarrow> [p]) (pe_captures env pattern source)))
        [0, 1, 2])) [content, render])))"

text \<open>\<^verbatim>\<open>syncProtectedPageAssets\<close>\<close>

definition asset_link :: "protection_env \<Rightarrow> 'z page_db_scheme \<Rightarrow> int \<Rightarrow> string \<Rightarrow> protected_asset" where
  "asset_link env db page path =
     (let known = map_of (rev (map (\<lambda>a. (snd a, fst a)) (o_asset_ids db))) (pe_asset_hash env path);
          previous = map_of (rev (map (\<lambda>a. (as_path a, as_asset a)) (filter (\<lambda>a. as_page a = page) (o_assets db)))) path
      in \<lparr>as_page = page, as_path = path,
          as_asset = (if \<not> pe_identity env then None else case known of Some i \<Rightarrow> Some i | None \<Rightarrow> option_or previous None)\<rparr>)"

definition sync_assets :: "protection_env \<Rightarrow> int \<Rightarrow> string \<Rightarrow> string \<Rightarrow> 'z page_db_scheme \<Rightarrow> 'z page_db_scheme" where
  "sync_assets env page content render db =
     (if protection_of page db = None then db
      else db\<lparr>o_assets := sql_delete (\<lambda>a. as_page a = page) (o_assets db)
                @ map (asset_link env db page) (extract_asset_paths env content render)\<rparr>)"

section \<open>Setting and removing a password\<close>

definition new_grant :: "string \<Rightarrow> int \<Rightarrow> string \<Rightarrow> int option \<Rightarrow> int \<Rightarrow> int \<Rightarrow> grant_row" where
  "new_grant ident page session user version now = \<lparr>gr_id = ident, gr_page = page, gr_session = session, gr_user = user,
     gr_version = version, gr_created = now, gr_expires = now + grant_lifetime\<rparr>"

text \<open>A grant belongs to a protected page, has an identifier of its own and is the only one of its session.\<close>

definition grant_fits :: "grant_row \<Rightarrow> 'z page_db_scheme \<Rightarrow> bool" where
  "grant_fits g db = (protection_of (gr_page g) db \<noteq> None \<and> gr_id g \<notin> gr_id ` set (o_grants db)
     \<and> \<not> list_ex (\<lambda>h. gr_page h = gr_page g \<and> gr_session h = gr_session g) (o_grants db))"

definition insert_grant :: "grant_row \<Rightarrow> ('z page_db_scheme, unit) tx" where
  "insert_grant g db = (if grant_fits g db then Inr ((), db\<lparr>o_grants := sql_insert g (o_grants db)\<rparr>) else Inl Plain_error)"

record protect_input =
  pi_requester :: "principal option"
  pi_authority :: authority
  pi_page :: int
  pi_password :: string
  pi_session :: string

definition write_password :: "protection_row \<Rightarrow> 'z page_db_scheme \<Rightarrow> 'z page_db_scheme" where
  "write_password w db = (if protection_of (pw_page w) db = None then db\<lparr>o_passwords := sql_insert w (o_passwords db)\<rparr>
     else db\<lparr>o_passwords := sql_update (\<lambda>v. pw_page v = pw_page w) (\<lambda>_. w) (o_passwords db),
            o_grants := sql_delete (\<lambda>g. gr_page g = pw_page w) (o_grants db)\<rparr>)"

definition withdraw_search :: "int \<Rightarrow> 'z page_db_scheme \<Rightarrow> 'z page_db_scheme" where
  "withdraw_search page db = db\<lparr>o_vectors := sql_delete (\<lambda>v. fst v = page) (o_vectors db), o_words := sql_delete (\<lambda>w. w = page) (o_words db)\<rparr>"

definition protect_in_tx ::
  "protection_env \<Rightarrow> protect_input \<Rightarrow> int \<Rightarrow> string \<Rightarrow> (effect_kind \<Rightarrow> string) \<Rightarrow> int \<Rightarrow> ('z page_db_scheme, int) tx" where
  "protect_in_tx env i user ident fresh now db =
     (if pi_page i < 1 \<or> pi_page i > 2147483647 then Inl Plain_error
      else rbind (manageable_page env (pi_requester i) (pi_authority i) (pi_page i) db) (\<lambda>p.
        let version = (case protection_of (pi_page i) db of None \<Rightarrow> 1 | Some w \<Rightarrow> pw_version w + 1);
            w = \<lparr>pw_page = pi_page i, pw_hash = pe_hash env (pi_password i), pw_version = version, pw_by = user, pw_updated = now\<rparr>;
            db1 = sync_assets env (pi_page i) (pj_content p) (pj_render p) (write_password w db)
        in rbind (insert_grant (new_grant ident (pi_page i) (pi_session i) (Some user) version now) db1) (\<lambda>(_, db2).
           rbind (admit_search (pe_text env) (pe_instant env) (Whole (pi_page i)) (Some now) fresh now db2) (\<lambda>(_, db3).
           Inr (version, withdraw_search (pi_page i) db3)))))"

text \<open>\<^verbatim>\<open>setPageProtection\<close>: the new version of the password.\<close>

definition set_protection ::
  "protection_env \<Rightarrow> protect_input \<Rightarrow> string \<Rightarrow> (effect_kind \<Rightarrow> string) \<Rightarrow> int \<Rightarrow> ('z page_db_scheme, int) tx" where
  "set_protection env i ident fresh now db =
     rbind (authenticated_id (pi_requester i)) (\<lambda>user.
       if length (pi_password i) < 12 \<or> length (pi_password i) > 1024 then Inl (Coded ''INVALID_PASSWORD'' 400)
       else if pi_session i = [] then Inl (Coded ''SESSION_REQUIRED'' 401)
       else protect_in_tx env i user ident fresh now db)"

text \<open>
  \<^verbatim>\<open>removePageProtection\<close>. The foreign keys of grants and protected assets refer to the
  password row and cascade.
\<close>

definition delete_password :: "int \<Rightarrow> 'z page_db_scheme \<Rightarrow> 'z page_db_scheme" where
  "delete_password page db = db\<lparr>o_passwords := sql_delete (\<lambda>w. pw_page w = page) (o_passwords db),
     o_grants := sql_delete (\<lambda>g. gr_page g = page) (o_grants db), o_assets := sql_delete (\<lambda>a. as_page a = page) (o_assets db)\<rparr>"

definition remove_protection ::
  "protection_env \<Rightarrow> principal option \<Rightarrow> authority \<Rightarrow> int \<Rightarrow> (effect_kind \<Rightarrow> string) \<Rightarrow> int \<Rightarrow> ('z page_db_scheme, unit) tx" where
  "remove_protection env requester au page fresh now db =
     (if page < 1 \<or> page > 2147483647 then Inl Plain_error
      else rbind (manageable_page env requester au page db) (\<lambda>_.
        rbind (admit_search (pe_text env) (pe_instant env) (Whole page) None fresh now (delete_password page db)) (\<lambda>(_, db'). Inr ((), db'))))"

text \<open>\<^verbatim>\<open>getPageProtection\<close>: version, last writer and time of the password, if there is one.\<close>

definition get_protection :: "protection_env \<Rightarrow> principal option \<Rightarrow> authority \<Rightarrow> int \<Rightarrow> 'z page_db_scheme \<Rightarrow> (int \<times> int \<times> int) option result" where
  "get_protection env requester au page db = rbind (manageable_page env requester au page db) (\<lambda>_.
     Inr (map_option (\<lambda>w. (pw_version w, pw_by w, pw_updated w)) (protection_of page db)))"

section \<open>Unlocking\<close>

text \<open>
  \<^verbatim>\<open>unlockPage\<close> checks the password against rows it read before the slow hash comparison, and
  writes the grant in further statements: two steps, between which other operations may commit.
  Without a protection the comparison runs against a fixed hash.
\<close>

definition unlock_check ::
  "protection_env \<Rightarrow> principal option \<Rightarrow> authority \<Rightarrow> int \<Rightarrow> string \<Rightarrow> string \<Rightarrow> 'z page_db_scheme \<Rightarrow> int result" where
  "unlock_check env requester au page password session db =
     (if session = [] then Inl page_locked
      else let protection = protection_of page db;
               valid = pe_compare env password (case protection of None \<Rightarrow> fake_password_hash | Some w \<Rightarrow> pw_hash w)
        in case (protection, find_page page db) of
             (Some w, Some p) \<Rightarrow> if \<not> valid \<or> \<not> can_read_page (pe_regex env) requester (page_view db p) au then Inl page_locked else Inr (pw_version w)
           | _ \<Rightarrow> Inl page_locked)"

definition unlock_write :: "principal option \<Rightarrow> int \<Rightarrow> string \<Rightarrow> int \<Rightarrow> string \<Rightarrow> int \<Rightarrow> 'z page_db_scheme \<Rightarrow> unit result \<times> 'z page_db_scheme" where
  "unlock_write requester page session version ident now db =
     (let db1 = db\<lparr>o_grants := sql_delete (\<lambda>g. gr_page g = page \<and> gr_session g = session) (o_grants db)\<rparr>
      in case insert_grant (new_grant ident page session (principal_id requester) version now) db1 of
           Inl e \<Rightarrow> (Inl e, db1) | Inr (_, db2) \<Rightarrow> (Inr (), db2))"

definition unlock_page ::
  "protection_env \<Rightarrow> principal option \<Rightarrow> authority \<Rightarrow> int \<Rightarrow> string \<Rightarrow> string \<Rightarrow> string \<Rightarrow> int \<Rightarrow> 'z page_db_scheme \<Rightarrow> unit result \<times> 'z page_db_scheme" where
  "unlock_page env requester au page password session ident now db = (case unlock_check env requester au page password session db of
      Inl e \<Rightarrow> (Inl e, db) | Inr version \<Rightarrow> unlock_write requester page session version ident now db)"

text \<open>\<^verbatim>\<open>pageRequiresUnlock\<close>: whether the page is locked, and the table without expired grants.\<close>

definition opening_grant :: "principal option \<Rightarrow> string \<Rightarrow> int \<Rightarrow> protection_row \<Rightarrow> grant_row \<Rightarrow> bool" where
  "opening_grant requester session now w g = (gr_page g = pw_page w \<and> gr_session g = session \<and> gr_user g = principal_id requester \<and> gr_version g = pw_version w \<and> now < gr_expires g)"

definition prune_grants :: "int \<Rightarrow> string \<Rightarrow> int \<Rightarrow> 'z page_db_scheme \<Rightarrow> 'z page_db_scheme" where
  "prune_grants page session now db =
     db\<lparr>o_grants := sql_delete (\<lambda>g. gr_page g = page \<and> gr_session g = session \<and> gr_expires g \<le> now) (o_grants db)\<rparr>"

definition page_requires_unlock ::
  "principal option \<Rightarrow> int \<Rightarrow> string \<Rightarrow> bool \<Rightarrow> int \<Rightarrow> 'z page_db_scheme \<Rightarrow> bool \<times> 'z page_db_scheme" where
  "page_requires_unlock requester page session read_only now db =
     (if manages_system requester then (False, db)
      else case protection_of page db of
        None \<Rightarrow> (False, db)
      | Some w \<Rightarrow>
          let db1 = (if read_only then db else prune_grants page session now db)
          in if session = [] then (True, db1)
             else (\<not> list_ex (opening_grant requester session now w) (o_grants db1), db1))"

text \<open>\<^verbatim>\<open>assertPageUnlocked\<close>\<close>

definition assert_page_unlocked ::
  "protection_env \<Rightarrow> principal option \<Rightarrow> authority \<Rightarrow> int \<Rightarrow> string \<Rightarrow> int \<Rightarrow> ('z page_db_scheme, unit) tx" where
  "assert_page_unlocked env requester au page session now db = (case find_page page db of
      None \<Rightarrow> Inl page_not_found
    | Some p \<Rightarrow>
        if \<not> can_read_page (pe_regex env) requester (page_view db p) au then Inl page_not_found
        else (case page_requires_unlock requester page session False now db of
          (locked, db') \<Rightarrow> if locked then Inl page_locked else Inr ((), db')))"

section \<open>What projections leave alone\<close>

definition same_frame :: "'z proj_db_scheme \<Rightarrow> 'z proj_db_scheme \<Rightarrow> bool" where
  "same_frame a b = (o_passwords b = o_passwords a \<and> proj_db.more b = proj_db.more a)"

lemma same_frame_refl [simp]: "same_frame a a"
  by (simp add: same_frame_def)

lemma same_frame_trans: "same_frame a b \<Longrightarrow> same_frame b c \<Longrightarrow> same_frame a c"
  by (simp add: same_frame_def)

lemma same_frame_fields:
  fixes a b :: "'z page_db_scheme"
  assumes "same_frame a b"
  shows "o_passwords b = o_passwords a \<and> o_grants b = o_grants a \<and> o_assets b = o_assets a \<and> o_tags b = o_tags a \<and> o_asset_ids b = o_asset_ids a"
  using assms by (cases a; cases b) (simp add: same_frame_def)

lemma enqueue_one_frame: "enqueue_one env p ident now db = Inr (x, db') \<Longrightarrow> same_frame db db'"
  by (auto simp: enqueue_one_def same_frame_def split: if_splits option.splits)

lemma enqueue_all_frame: "enqueue_all env i page rv fresh now ks db = Inr (x, db') \<Longrightarrow> same_frame db db'"
proof (induction ks arbitrary: db x)
  case (Cons k ks)
  from Cons.prems obtain y db1 z where "enqueue_one env (intent_payload env i page rv k) (fresh k) now db = Inr (y, db1)"
    "enqueue_all env i page rv fresh now ks db1 = Inr (z, db')"
    by (auto simp: rbind_Inr_iff split: prod.splits)
  with Cons.IH enqueue_one_frame show ?case using same_frame_trans by blast
qed simp

lemma enqueue_effects_frame: "enqueue_effects env i fresh now db = Inr (x, db') \<Longrightarrow> same_frame db db'"
  by (auto simp: enqueue_effects_def rbind_Inr_iff Let_def split: js_num.splits if_splits intro: enqueue_all_frame)

lemma admit_current_frame:
  assumes "admit_current env page kind opts fresh clock db = Inr (x, db')"
  shows "same_frame db db'"
proof (cases "sql_first (effect_is (pj_id page) (pj_revision page) kind) (o_effects db)")
  case None
  with assms obtain ids db1 where e: "enqueue_effects env (current_intent page kind (ao_action opts)) fresh clock db = Inr (ids, db1)"
    and r: "(case ids of [] \<Rightarrow> Inl (outbox_error ''OUTBOX_ADMISSION_FAILED'') | ident # _ \<Rightarrow> Inr ((ident, True), db1)) = Inr (x, db')"
    by (auto simp: admit_current_def revision_string_def rbind_Inr_iff split: if_splits)
  from r have "db1 = db'" by (cases ids) auto
  with enqueue_effects_frame [OF e] show ?thesis by simp
next
  case (Some row)
  with assms show ?thesis
    by (auto simp: admit_current_def readmit_def rbind_Inr_iff Let_def revision_string_def same_frame_def split: if_splits)
qed

lemma invalidate_frame: "same_frame db (invalidate_rendered page db)"
  by (simp add: same_frame_def invalidate_rendered_def)

lemma redo_dependents_frame: "redo_dependents env page at fresh clock db = Inr (x, db') \<Longrightarrow> same_frame db db'"
  by (auto simp: redo_dependents_def rbind_Inr_iff split: prod.splits dest!: admit_current_frame
      intro: same_frame_trans [OF invalidate_frame] same_frame_trans)

lemma ensure_render_frame: "ensure_render_dependency env page fresh clock db = Inr (x, db') \<Longrightarrow> same_frame db db'"
  by (auto simp: ensure_render_dependency_def rbind_Inr_iff split: prod.splits if_splits
      dest!: admit_current_frame redo_dependents_frame intro: same_frame_trans)

lemma admit_search_frame: "admit_search env instant page at fresh clock db = Inr (x, db') \<Longrightarrow> same_frame db db'"
  by (auto simp: admit_search_def with_locked_page_def rbind_Inr_iff split: js_num.splits prod.splits if_splits option.splits
      dest!: admit_current_frame ensure_render_frame intro: same_frame_trans)

section \<open>Grants\<close>

text \<open>Grants belong to protected pages: the foreign key.\<close>

definition grants_inv :: "'z page_db_scheme \<Rightarrow> bool" where
  "grants_inv db = (\<forall>g\<in>set (o_grants db). protection_of (gr_page g) db \<noteq> None)"

lemma protection_of_insert:
  "protection_of page (db\<lparr>o_passwords := sql_insert w (o_passwords db)\<rparr>) = None \<longleftrightarrow> protection_of page db = None \<and> pw_page w \<noteq> page"
  by (auto simp: protection_of_def sql_first_None)

lemma protection_of_same: "o_passwords db' = o_passwords db \<Longrightarrow> protection_of page db' = protection_of page db"
  by (simp add: protection_of_def)

lemma protection_None_iff: "protection_of page db = None \<longleftrightarrow> page \<notin> pw_page ` set (o_passwords db)"
  by (auto simp: protection_of_def sql_first_None)

lemma protection_of_write:
  "protection_of page (write_password w db) = None \<longleftrightarrow> protection_of page db = None \<and> pw_page w \<noteq> page"
proof (cases "protection_of (pw_page w) db = None")
  case True
  then show ?thesis by (auto simp: write_password_def protection_None_iff)
next
  case False
  have "pw_page ` set (sql_update (\<lambda>v. pw_page v = pw_page w) (\<lambda>_. w) (o_passwords db)) = pw_page ` set (o_passwords db)"
  proof -
    have "map pw_page (sql_update (\<lambda>v. pw_page v = pw_page w) (\<lambda>_. w) rows) = map pw_page rows" for rows
      by (induction rows) (auto simp: table_simps)
    then show ?thesis by (metis set_map)
  qed
  with False show ?thesis by (auto simp: write_password_def protection_None_iff)
qed

lemma write_password_grants:
  assumes "grants_inv db"
  shows "o_grants (write_password w db) = sql_delete (\<lambda>g. gr_page g = pw_page w) (o_grants db)"
proof (cases "protection_of (pw_page w) db = None")
  case True
  with assms have "\<forall>g\<in>set (o_grants db). gr_page g \<noteq> pw_page w" by (auto simp: grants_inv_def)
  then have "sql_delete (\<lambda>g. gr_page g = pw_page w) (o_grants db) = o_grants db"
    by (simp add: sql_delete_def filter_id_conv)
  with True show ?thesis by (simp add: write_password_def)
qed (simp add: write_password_def del: not_None_eq)

lemma sync_assets_fields: "o_passwords (sync_assets env page content render db) = o_passwords db" "o_grants (sync_assets env page content render db) = o_grants db"
  by (simp_all add: sync_assets_def)

text \<open>What setting a password does to the two tables.\<close>

lemma set_protection_success:
  assumes inv: "grants_inv db" and res: "set_protection env i ident fresh now db = Inr (v, db')"
  obtains w user where "pw_page w = pi_page i" "pw_version w = v" "pw_hash w = pe_hash env (pi_password i)"
    "o_passwords db' = o_passwords (write_password w db)"
    "o_grants db' = sql_insert (new_grant ident (pi_page i) (pi_session i) (Some user) v now)
       (sql_delete (\<lambda>g. gr_page g = pi_page i) (o_grants db))"
proof -
  from res obtain user where tx: "protect_in_tx env i user ident fresh now db = Inr (v, db')"
    by (auto simp: set_protection_def rbind_Inr_iff split: if_splits)
  then obtain p where m: "manageable_page env (pi_requester i) (pi_authority i) (pi_page i) db = Inr p"
    by (auto simp: protect_in_tx_def rbind_Inr_iff split: if_splits)
  define version where "version = (case protection_of (pi_page i) db of None \<Rightarrow> 1 | Some w \<Rightarrow> pw_version w + 1)"
  define w where "w = \<lparr>pw_page = pi_page i, pw_hash = pe_hash env (pi_password i), pw_version = version, pw_by = user, pw_updated = now\<rparr>"
  define db1 where "db1 = sync_assets env (pi_page i) (pj_content p) (pj_render p) (write_password w db)"
  from tx m obtain db2 x db3 where ins: "insert_grant (new_grant ident (pi_page i) (pi_session i) (Some user) version now) db1 = Inr ((), db2)"
    and adm: "admit_search (pe_text env) (pe_instant env) (Whole (pi_page i)) (Some now) fresh now db2 = Inr (x, db3)"
    and v: "v = version" "db' = withdraw_search (pi_page i) db3"
    by (auto simp: protect_in_tx_def rbind_Inr_iff Let_def w_def db1_def version_def split: if_splits prod.splits)
  have fields: "o_passwords db3 = o_passwords db2" "o_grants db3 = o_grants db2"
    using same_frame_fields [OF admit_search_frame [OF adm]] by simp_all
  have "o_passwords db2 = o_passwords db1" "o_grants db2 = sql_insert (new_grant ident (pi_page i) (pi_session i) (Some user) version now) (o_grants db1)"
    using ins by (auto simp: insert_grant_def split: if_splits)
  then show ?thesis
    using that [of w user] fields v write_password_grants [OF inv, of w]
    by (simp add: withdraw_search_def db1_def sync_assets_fields w_def)
qed

datatype lock_op =
    Do_protect protect_input string "effect_kind \<Rightarrow> string" int
  | Do_unprotect "principal option" authority int "effect_kind \<Rightarrow> string" int
  | Do_unlock "principal option" authority int string string string int
  | Do_check "principal option" int string bool int
  | Do_pages "projection_page list" "(int \<times> string) list"

text \<open>\<open>Do_pages\<close> is whatever page operations do to pages and their tags.\<close>

fun lock_exec :: "protection_env \<Rightarrow> lock_op \<Rightarrow> (page_db, unit) tx" where
  "lock_exec env (Do_protect i ident fresh now) = unit_tx (set_protection env i ident fresh now)"
| "lock_exec env (Do_unprotect requester au page fresh now) = remove_protection env requester au page fresh now"
| "lock_exec env (Do_unlock requester au page password session ident now) =
     (\<lambda>db. Inr ((), snd (unlock_page env requester au page password session ident now db)))"
| "lock_exec env (Do_check requester page session read_only now) = (\<lambda>db. Inr ((), snd (page_requires_unlock requester page session read_only now db)))"
| "lock_exec env (Do_pages pages tags) = (\<lambda>db. Inr ((), db\<lparr>o_pages := pages, o_tags := tags\<rparr>))"

text \<open>The operations that may open a page for a session.\<close>

fun opens :: "int \<Rightarrow> string \<Rightarrow> lock_op \<Rightarrow> bool" where
  "opens page session (Do_protect i ident fresh now) = (pi_page i = page \<and> pi_session i = session)"
| "opens page session (Do_unlock requester au p password s ident now) = (p = page \<and> s = session)"
| "opens page session _ = False"

lemma unlock_page_tables:
  "o_passwords (snd (unlock_page env requester au page password session ident now db)) = o_passwords db
   \<and> (\<forall>g\<in>set (o_grants (snd (unlock_page env requester au page password session ident now db))).
        g \<in> set (o_grants db) \<or> (gr_page g = page \<and> gr_session g = session \<and> protection_of page db \<noteq> None))"
proof (cases "unlock_check env requester au page password session db")
  case (Inr version)
  then have "protection_of page db \<noteq> None" by (auto simp: unlock_check_def Let_def split: if_splits option.splits)
  with Inr show ?thesis
    by (auto simp: unlock_page_def unlock_write_def Let_def insert_grant_def new_grant_def split: if_splits)
qed (simp add: unlock_page_def)

lemma page_requires_unlock_tables:
  "o_passwords (snd (page_requires_unlock requester page session ro now db)) = o_passwords db
   \<and> set (o_grants (snd (page_requires_unlock requester page session ro now db))) \<subseteq> set (o_grants db)"
  by (auto simp: page_requires_unlock_def Let_def prune_grants_def split: option.splits)

lemma remove_protection_success:
  assumes "remove_protection env requester au page fresh now db = Inr (u, db')"
  shows "o_passwords db' = sql_delete (\<lambda>w. pw_page w = page) (o_passwords db) \<and> o_grants db' = sql_delete (\<lambda>g. gr_page g = page) (o_grants db)"
proof -
  from assms obtain x where "admit_search (pe_text env) (pe_instant env) (Whole page) None fresh now (delete_password page db) = Inr (x, db')"
    by (auto simp: remove_protection_def rbind_Inr_iff split: if_splits prod.splits)
  from same_frame_fields [OF admit_search_frame [OF this]] show ?thesis by (simp add: delete_password_def)
qed

lemma protection_of_delete:
  "o_passwords db' = sql_delete (\<lambda>w. pw_page w = page) (o_passwords db) \<Longrightarrow> q \<noteq> page \<Longrightarrow> protection_of q db' = None \<longleftrightarrow> protection_of q db = None"
  by (auto simp: protection_of_def sql_first_None)

lemma lock_exec_inv:
  assumes inv: "grants_inv db" and res: "lock_exec env op db = Inr (u, db')"
  shows "grants_inv db'"
proof (cases op)
  case (Do_protect i ident fresh now)
  with res obtain v where "set_protection env i ident fresh now db = Inr (v, db')" by (auto simp: unit_tx_Inr)
  from set_protection_success [OF inv this] obtain w user where w: "pw_page w = pi_page i"
    "o_passwords db' = o_passwords (write_password w db)"
    "o_grants db' = sql_insert (new_grant ident (pi_page i) (pi_session i) (Some user) v now) (sql_delete (\<lambda>g. gr_page g = pi_page i) (o_grants db))"
    by metis
  have "protection_of q db' = None \<longleftrightarrow> protection_of q db = None \<and> pi_page i \<noteq> q" for q
    using protection_of_same [OF w(2)] protection_of_write [of q w db] w(1) by simp
  with w(3) inv show ?thesis by (auto simp: grants_inv_def new_grant_def)
next
  case (Do_unprotect requester au page fresh now)
  with res have "remove_protection env requester au page fresh now db = Inr (u, db')" by simp
  from remove_protection_success [OF this] have d: "o_passwords db' = sql_delete (\<lambda>w. pw_page w = page) (o_passwords db)"
    "o_grants db' = sql_delete (\<lambda>g. gr_page g = page) (o_grants db)" by auto
  with inv protection_of_delete [OF d(1)] show ?thesis by (auto simp: grants_inv_def)
next
  case (Do_unlock requester au page password session ident now)
  with res have db': "db' = snd (unlock_page env requester au page password session ident now db)" by simp
  from unlock_page_tables [of env requester au page password session ident now db] inv show ?thesis
    unfolding db' grants_inv_def by (metis protection_of_same)
next
  case (Do_check requester page session ro now)
  with res have db': "db' = snd (page_requires_unlock requester page session ro now db)" by simp
  from page_requires_unlock_tables [of requester page session ro now db] inv show ?thesis
    unfolding db' grants_inv_def by (metis protection_of_same subset_iff)
qed (use res inv in \<open>auto simp: grants_inv_def protection_of_def\<close>)

interpretation locks: tx_component "lock_exec env" grants_inv for env
  by unfold_locales (rule lock_exec_inv)

definition lock_run :: "protection_env \<Rightarrow> lock_op list \<Rightarrow> page_db \<Rightarrow> page_db" where
  "lock_run env ops db = run_txs (map (lock_exec env) ops) db"

definition session_free :: "int \<Rightarrow> string \<Rightarrow> 'z page_db_scheme \<Rightarrow> bool" where
  "session_free page session db = (\<forall>g\<in>set (o_grants db). gr_page g = page \<longrightarrow> gr_session g \<noteq> session)"

lemma lock_exec_session_free:
  assumes inv: "grants_inv db" and free: "session_free page session db" and op: "\<not> opens page session op"
    and res: "lock_exec env op db = Inr (u, db')"
  shows "session_free page session db'"
proof (cases op)
  case (Do_protect i ident fresh now)
  with res obtain v where "set_protection env i ident fresh now db = Inr (v, db')" by (auto simp: unit_tx_Inr)
  from set_protection_success [OF inv this] obtain user where
    "o_grants db' = sql_insert (new_grant ident (pi_page i) (pi_session i) (Some user) v now) (sql_delete (\<lambda>g. gr_page g = pi_page i) (o_grants db))"
    by metis
  with free op Do_protect show ?thesis by (auto simp: session_free_def new_grant_def)
next
  case (Do_unprotect requester au p fresh now)
  with res have "remove_protection env requester au p fresh now db = Inr (u, db')" by simp
  from remove_protection_success [OF this] free show ?thesis by (simp add: session_free_def)
next
  case (Do_unlock requester au p password s ident now)
  with res have db': "db' = snd (unlock_page env requester au p password s ident now db)" by simp
  from unlock_page_tables [of env requester au p password s ident now db] free op Do_unlock show ?thesis
    unfolding db' session_free_def by auto
next
  case (Do_check requester p s ro now)
  with res have db': "db' = snd (page_requires_unlock requester p s ro now db)" by simp
  from page_requires_unlock_tables [of requester p s ro now db] free show ?thesis
    unfolding db' session_free_def by blast
qed (use res free in \<open>auto simp: session_free_def\<close>)


section \<open>The version of a password\<close>

text \<open>
  Versions start over when a page is protected anew. A grant that \<^verbatim>\<open>unlockPage\<close> decided on under
  version 1 of an earlier password, and writes only after that password was removed and another
  one set, opens the page although its password was never checked against the new hash.
\<close>

lemma reprotection_reuses_versions:
  assumes inv: "grants_inv db" and bare: "protection_of (pi_page i) db = None"
    and set: "set_protection env i ident fresh now db = Inr (version, db1)"
    and other: "session \<noteq> []" "session \<noteq> pi_session i" "ident2 \<notin> gr_id ` set (o_grants db1)"
    and check: "unlock_check env requester au (pi_page i) password session db0 = Inr 1"
    and db2: "db2 = snd (unlock_write requester (pi_page i) session 1 ident2 now db1)"
  shows "version = 1 \<and> fst (page_requires_unlock requester (pi_page i) session read_only now db2) = False"
proof -
  from set_protection_success [OF inv set] obtain w user where w: "pw_page w = pi_page i" "pw_version w = version"
    "o_passwords db1 = o_passwords (write_password w db)"
    "o_grants db1 = sql_insert (new_grant ident (pi_page i) (pi_session i) (Some user) version now) (sql_delete (\<lambda>g. gr_page g = pi_page i) (o_grants db))"
    by metis
  have v: "version = 1"
    using set bare by (auto simp: set_protection_def protect_in_tx_def rbind_Inr_iff Let_def split: if_splits prod.splits)
  let ?g = "new_grant ident2 (pi_page i) session (principal_id requester) 1 now"
  let ?kept = "sql_delete (\<lambda>g. gr_page g = pi_page i \<and> gr_session g = session) (o_grants db1)"
  have p1: "protection_of (pi_page i) db1 = Some w"
    using w(1,3) bare by (simp add: protection_of_def write_password_def sql_insert_def sql_first_append table_simps)
  have "grant_fits ?g (db1\<lparr>o_grants := ?kept\<rparr>)"
    using p1 other(3) by (auto simp: grant_fits_def new_grant_def protection_of_def list_ex_iff)
  then have d: "db2 = db1\<lparr>o_grants := sql_insert ?g ?kept\<rparr>"
    by (simp add: db2 unlock_write_def insert_grant_def Let_def)
  have p2: "protection_of (pi_page i) db2 = Some w" using p1 by (simp add: d protection_of_def)
  have "opening_grant requester session now w ?g" "now < gr_expires ?g"
    using w(1,2) v by (simp_all add: opening_grant_def new_grant_def grant_lifetime_def)
  then have "\<exists>g\<in>set (o_grants (prune_grants (pi_page i) session now db2)). opening_grant requester session now w g"
      "\<exists>g\<in>set (o_grants db2). opening_grant requester session now w g"
    by (auto simp: d prune_grants_def intro!: bexI [of _ ?g])
  then have "fst (page_requires_unlock requester (pi_page i) session read_only now db2) = False"
    using other(1) by (simp add: page_requires_unlock_def p2 Let_def list_ex_iff)
  with v show ?thesis by simp
qed

section \<open>A concrete page\<close>

definition lock_intent :: projection_payload where
  "lock_intent = demo_intent\<lparr>pp_kind := Search, pp_location := Some (demo_location\<lparr>lo_visibility := Private, lo_owner := Some 5\<rparr>)\<rparr>"

definition lock_env :: protection_env where
  "lock_env = \<lparr>pe_text = outbox_env, pe_instant = \<lambda>_. None, pe_regex = \<lambda>_. None, pe_hash = id, pe_compare = (\<lambda>p h. p = h),
     pe_captures = \<lambda>_ _. [], pe_pathname = \<lambda>_. None, pe_decode = \<lambda>_. None, pe_asset_hash = id, pe_identity = True\<rparr>"

definition lock_owner :: principal where
  "lock_owner = \<lparr>pr_ref = 1, pr_value = JObj [(''id'', JNum (Whole 5))], pr_global = None\<rparr>"

definition lock_authority :: authority where
  "lock_authority = \<lparr>au_requester = Some 1, au_permissions = [], au_groups = [], au_aliases = Map.empty\<rparr>"

definition lock_page :: projection_page where
  "lock_page = \<lparr>pj_id = 7, pj_revision = ''1'', pj_content = ''text'', pj_published = True, pj_searchable = True, pj_render = [],
     pj_rendered = None, pj_start = None, pj_end = None, pj_location = \<lparr>lo_locale = ''en'', lo_path = ''home'', lo_visibility = Private, lo_owner = Some 5\<rparr>,
     pj_title = ''Home'', pj_author = 5, pj_reason = None, pj_modified = 2\<rparr>"

definition lock_db :: page_db where
  "lock_db = \<lparr>o_effects = [], o_pages = [lock_page], o_links = [], o_vectors = [(7, ''1'')], o_words = [7], o_passwords = [],
     o_grants = [], o_assets = [], o_asset_ids = [], o_tags = []\<rparr>"

definition lock_input :: protect_input where
  "lock_input = \<lparr>pi_requester = Some lock_owner, pi_authority = lock_authority, pi_page = 7, pi_password = ''correct horse'', pi_session = ''a''\<rparr>"

lemma lock_writable: "manageable_page lock_env (Some lock_owner) lock_authority 7 lock_db = Inr lock_page"
  by (simp add: manageable_page_def find_page_def lock_db_def table_simps lock_page_def can_write_page_def page_gate_def
    authority_matches_requester_def requester_ref_def lock_authority_def lock_owner_def page_view_def visibility_text_def
    owns_private_page_def principal_id_def js_null_or_def safe_int_def max_safe_def)

lemma lock_enqueue: "\<exists>x db'. admit_current outbox_env lock_page Search opts fresh now db = Inr (x, db')"
  if "o_effects db = []"
proof -
  let ?p = "intent_payload outbox_env (current_intent lock_page Search (ao_action opts)) 7 ''1'' Search"
  have "payload_valid ?p"
    by (simp add: payload_valid_def intent_payload_def current_intent_def lock_page_def outbox_env_def location_valid_def safe_int_def
      max_safe_def positive_decimal_def is_digit_def is_hex_def is_hex_char_def list_all_iff)
  moreover have "encodable (payload_value ?p)"
    by (simp add: payload_value_def intent_payload_def current_intent_def lock_page_def js_null_or_def location_value_def)
  then obtain t where "canonical_json outbox_env (payload_value ?p) = Some t" using encodable_canonical by blast
  ultimately have "\<exists>x db'. enqueue_one outbox_env ?p (fresh Search) now db = Inr (x, db')"
    using that by (simp add: enqueue_one_def table_simps)
  then show ?thesis using that
    by (auto simp: admit_current_def revision_string_def positive_decimal_def is_digit_def table_simps enqueue_effects_def current_intent_def
      valid_page_id_def present_incomplete_def absent_excessive_def safe_int_def max_safe_def lock_page_def)
qed

lemma lock_protected: "\<exists>v db'. set_protection lock_env lock_input ''g1'' (\<lambda>_. ''e1'') 3 lock_db = Inr (v, db')"
proof -
  let ?w = "\<lparr>pw_page = 7, pw_hash = ''correct horse'', pw_version = 1, pw_by = 5, pw_updated = 3\<rparr>"
  let ?db1 = "sync_assets lock_env 7 ''text'' [] (write_password ?w lock_db)"
  have none: "protection_of 7 lock_db = None" by (simp add: protection_of_def lock_db_def table_simps)
  have "write_password ?w lock_db = lock_db\<lparr>o_passwords := [?w]\<rparr>"
    by (simp add: write_password_def none) (simp add: lock_db_def sql_insert_def)
  then have tables: "o_passwords ?db1 = [?w]" "o_grants ?db1 = []" "o_effects ?db1 = []" "o_pages ?db1 = [lock_page]"
    by (simp_all add: sync_assets_def) (simp_all add: lock_db_def)
  have "insert_grant (new_grant ''g1'' 7 ''a'' (Some 5) 1 3) ?db1 = Inr ((), ?db1\<lparr>o_grants := [new_grant ''g1'' 7 ''a'' (Some 5) 1 3]\<rparr>)" (is "_ = Inr ((), ?db2)")
    using tables by (simp add: insert_grant_def grant_fits_def new_grant_def protection_of_def table_simps sql_insert_def)
  moreover have "o_effects ?db2 = []" using tables by simp
  from lock_enqueue [OF this] obtain x db3 where "admit_current outbox_env lock_page Search (rearm_options True (Some 3)) (\<lambda>_. ''e1'') 3 ?db2 = Inr (x, db3)"
    by blast
  then have "\<exists>x db3. admit_search outbox_env (\<lambda>_. None) (Whole 7) (Some 3) (\<lambda>_. ''e1'') 3 ?db2 = Inr (x, db3)"
    using tables by (cases x) (simp add: admit_search_def valid_page_id_def safe_int_def max_safe_def with_locked_page_def table_simps
      lock_page_def page_search_eligible_def)
  ultimately have "\<exists>v db'. protect_in_tx lock_env lock_input 5 ''g1'' (\<lambda>_. ''e1'') 3 lock_db = Inr (v, db')"
    using lock_writable none by (auto simp: protect_in_tx_def lock_input_def lock_env_def Let_def lock_page_def)
  moreover have "authenticated_id (Some lock_owner) = Inr 5"
    by (simp add: authenticated_id_def lock_owner_def principal_id_def safe_int_def max_safe_def)
  ultimately show ?thesis by (simp add: set_protection_def lock_input_def)
qed


end
