(* ===== verification/Approvals.thy ===== *)
theory Approvals
  imports PageProtection
begin

text \<open>
  Page approval requests (\<^verbatim>\<open>server/operations/approvals.ts\<close>): submission, review, publication
  and reassignment, with the history snapshots (\<^verbatim>\<open>addVersion\<close> of
  \<^verbatim>\<open>server/models/pageHistory.ts\<close>), the transition log, the outbox events
  (\<^verbatim>\<open>server/core/outbox.ts\<close>) and the constraints of the tables
  (\<^verbatim>\<open>migrations/2.5.133.ts\<close>, \<^verbatim>\<open>tsfranki-000002-approval-lifecycle-constraints.ts\<close>, the revision
  trigger of \<^verbatim>\<open>tsepistle-000069-page-history-reasons.ts\<close>). One transaction reads the clock once; an
  event keeps the value whose JSON text the table stores. Columns of a page that approvals only
  copy (description, content type, hash, editor, extra) are left out.
\<close>

section \<open>Tables\<close>

datatype approval_status = Submitted | Approved | Changes_requested | Rejected | Withdrawn | Published

fun status_text :: "approval_status \<Rightarrow> string" where
  "status_text Submitted = ''submitted''"
| "status_text Approved = ''approved''"
| "status_text Changes_requested = ''changes-requested''"
| "status_text Rejected = ''rejected''"
| "status_text Withdrawn = ''cancelled''"
| "status_text Published = ''published''"

datatype approval_action = To_approve | To_request_changes | To_reject | To_cancel | To_resubmit | To_publish | To_reassign

text \<open>The action's name without its hyphen, as the event type has it.\<close>

fun action_event :: "approval_action \<Rightarrow> string" where
  "action_event To_approve = ''approval.approve''"
| "action_event To_request_changes = ''approval.requestchanges''"
| "action_event To_reject = ''approval.reject''"
| "action_event To_cancel = ''approval.cancel''"
| "action_event To_resubmit = ''approval.resubmit''"
| "action_event To_publish = ''approval.publish''"
| "action_event To_reassign = ''approval.reassign''"

record history_row =
  hi_id :: int
  hi_page :: int
  hi_author :: int
  hi_content :: string
  hi_location :: location
  hi_published :: bool
  hi_searchable :: bool
  hi_start :: string
  hi_end :: string
  hi_title :: string
  hi_action :: string
  hi_revision :: string
  hi_reason :: "string option"
  hi_version_date :: int
  hi_tags :: "string list"

record approval_request =
  rq_id :: string
  rq_page :: int
  rq_submitter :: int
  rq_assignee :: "int option"
  rq_status :: approval_status
  rq_revision :: int
  rq_revision_updated :: int
  rq_created :: int
  rq_updated :: int
  rq_closed :: "int option"

record approval_transition =
  tr_id :: string
  tr_request :: string
  tr_from :: "approval_status option"
  tr_to :: approval_status
  tr_actor :: int
  tr_revision :: int
  tr_comment :: "string option"
  tr_created :: int

record outbox_event =
  ev_id :: string
  ev_type :: string
  ev_version :: int
  ev_aggregate_type :: string
  ev_aggregate :: string
  ev_payload :: js_value
  ev_created :: int
  ev_published :: "int option"

record approval_db = page_db +
  o_history :: "history_row list"
  o_requests :: "approval_request list"
  o_transitions :: "approval_transition list"
  o_events :: "outbox_event list"
  o_users :: "(int \<times> string option) list"

text \<open>The identifiers an operation generates.\<close>

record approval_ids =
  fi_request :: string
  fi_transition :: string
  fi_event :: string
  fi_page_event :: string
  fi_history :: int
  fi_effects :: "effect_kind \<Rightarrow> string"

section \<open>Outbox events\<close>

text \<open>\<^verbatim>\<open>validEventType\<close>: dot-separated segments of hyphen-separated words, the first starting with a letter.\<close>

fun split_at_char :: "char \<Rightarrow> string \<Rightarrow> string list" where
  "split_at_char d [] = [[]]"
| "split_at_char d (c # cs) = (if c = d then [] # split_at_char d cs
     else case split_at_char d cs of [] \<Rightarrow> [[c]] | w # ws \<Rightarrow> (c # w) # ws)"

definition lower_letter :: "char \<Rightarrow> bool" where
  "lower_letter c = (let n = of_char c :: nat in 97 \<le> n \<and> n \<le> 122)"

definition event_word :: "string \<Rightarrow> bool" where
  "event_word w = (w \<noteq> [] \<and> list_all (\<lambda>c. lower_letter c \<or> is_digit c) w)"

definition valid_event_type :: "string \<Rightarrow> bool" where
  "valid_event_type s = (s \<noteq> [] \<and> lower_letter (s ! 0)
     \<and> list_all (\<lambda>segment. list_all event_word (split_at_char (CHR ''-'') segment)) (split_at_char (CHR ''.'') s))"

datatype aggregate_id = Agg_text string | Agg_number int

definition aggregate_text :: "aggregate_id \<Rightarrow> string" where
  "aggregate_text a = (case a of Agg_text s \<Rightarrow> s | Agg_number i \<Rightarrow> (if i < 0 then ''-'' else []) @ decimal (nat \<bar>i\<bar>))"

text \<open>\<^verbatim>\<open>writeOutboxEvent\<close>; the identifier is the primary key.\<close>

definition write_outbox_event ::
  "string \<Rightarrow> string \<Rightarrow> int \<Rightarrow> string \<Rightarrow> aggregate_id \<Rightarrow> js_value \<Rightarrow> int \<Rightarrow> ('z approval_db_scheme, string) tx" where
  "write_outbox_event ident type version aggregate_type aggregate payload now db =
     (if \<not> valid_event_type type then Inl Type_error
      else if \<not> safe_int version \<or> version < 1 then Inl Type_error
      else if aggregate_type = [] \<or> aggregate = Agg_text [] \<or> aggregate = Agg_number 0 then Inl Type_error
      else if ident \<in> ev_id ` set (o_events db) then Inl Plain_error
      else Inr (ident, db\<lparr>o_events := sql_insert \<lparr>ev_id = ident, ev_type = type, ev_version = version,
             ev_aggregate_type = aggregate_type, ev_aggregate = aggregate_text aggregate, ev_payload = payload,
             ev_created = now, ev_published = None\<rparr> (o_events db)\<rparr>))"

section \<open>Requesters, revisions and requests\<close>

definition required_source_revision :: "js_value \<Rightarrow> string result" where
  "required_source_revision value = (case value of
      JStr s \<Rightarrow> if positive_decimal s then Inr s else Inl (Coded ''INVALID_INPUT'' 400)
    | _ \<Rightarrow> Inl (Coded ''INVALID_INPUT'' 400))"

definition reviewer_eligible :: "regex_engine \<Rightarrow> principal option \<Rightarrow> page_record \<Rightarrow> authority \<Rightarrow> bool" where
  "reviewer_eligible regex requester page au = (if manages_system requester then True
     else case page_authorization_context page of None \<Rightarrow> False
       | Some context \<Rightarrow> check_page_access regex requester [''manage:pages''] context au)"

definition closed_statuses :: "approval_status list" where
  "closed_statuses = [Published, Rejected, Withdrawn]"

definition active_statuses :: "approval_status list" where
  "active_statuses = [Submitted, Approved, Changes_requested]"

definition stale_revision :: "approval_request \<Rightarrow> projection_page \<Rightarrow> bool" where
  "stale_revision rq page = (rq_status rq \<notin> set closed_statuses \<and> rq_revision_updated rq \<noteq> pj_modified page)"

definition can_view_request :: "regex_engine \<Rightarrow> principal option \<Rightarrow> approval_request \<Rightarrow> page_record \<Rightarrow> authority \<Rightarrow> bool" where
  "can_view_request regex requester rq page au = (can_read_page regex requester page au \<and>
     (principal_id requester = Some (rq_submitter rq)
      \<or> (case rq_assignee rq of None \<Rightarrow> principal_id requester = None | Some a \<Rightarrow> principal_id requester = Some a)
      \<or> reviewer_eligible regex requester page au))"

definition is_active :: "approval_request \<Rightarrow> bool" where
  "is_active rq = (rq_status rq \<in> set active_statuses)"

definition find_request :: "string \<Rightarrow> 'z approval_db_scheme \<Rightarrow> approval_request option" where
  "find_request ident db = sql_first (\<lambda>r. rq_id r = ident) (o_requests db)"

definition is_user :: "int \<Rightarrow> 'z approval_db_scheme \<Rightarrow> bool" where
  "is_user i db = (i \<in> fst ` set (o_users db))"

section \<open>Snapshots and log entries\<close>

text \<open>\<^verbatim>\<open>snapshotRevision\<close> over \<^verbatim>\<open>addVersion\<close>: the page as it is becomes a row of the history.\<close>

definition history_of :: "int \<Rightarrow> projection_page \<Rightarrow> string \<Rightarrow> string list \<Rightarrow> history_row" where
  "history_of ident page action tags = \<lparr>hi_id = ident, hi_page = pj_id page, hi_author = pj_author page, hi_content = pj_content page,
     hi_location = pj_location page, hi_published = pj_published page, hi_searchable = pj_searchable page,
     hi_start = option_or (pj_start page) [], hi_end = option_or (pj_end page) [], hi_title = pj_title page, hi_action = action,
     hi_revision = pj_revision page, hi_reason = pj_reason page, hi_version_date = pj_modified page, hi_tags = tags\<rparr>"

definition snapshot_revision :: "int \<Rightarrow> projection_page \<Rightarrow> string \<Rightarrow> ('z approval_db_scheme, int) tx" where
  "snapshot_revision ident page action db =
     (if ident \<in> hi_id ` set (o_history db) then Inl Plain_error
      else Inr (ident, db\<lparr>o_history := sql_insert (history_of ident page action
             (map snd (filter (\<lambda>t. fst t = pj_id page) (o_tags db)))) (o_history db)\<rparr>))"

text \<open>
  The tables' constraints. A request refers to users and to the history, and no page has two
  active requests; a transition refers to its request, a user and the history.
\<close>

definition request_fits :: "approval_request \<Rightarrow> 'z approval_db_scheme \<Rightarrow> bool" where
  "request_fits r db = (is_user (rq_submitter r) db \<and> pred_option (\<lambda>a. is_user a db) (rq_assignee r)
     \<and> rq_revision r \<in> hi_id ` set (o_history db)
     \<and> (is_active r \<longrightarrow> \<not> list_ex (\<lambda>q. rq_id q \<noteq> rq_id r \<and> rq_page q = rq_page r \<and> is_active q) (o_requests db)))"

definition insert_request :: "approval_request \<Rightarrow> ('z approval_db_scheme, unit) tx" where
  "insert_request r db = (if rq_id r \<in> rq_id ` set (o_requests db) \<or> \<not> request_fits r db then Inl Plain_error
     else Inr ((), db\<lparr>o_requests := sql_insert r (o_requests db)\<rparr>))"

definition write_request :: "approval_request \<Rightarrow> ('z approval_db_scheme, unit) tx" where
  "write_request r db = (if \<not> request_fits r db then Inl Plain_error
     else Inr ((), db\<lparr>o_requests := sql_update (\<lambda>q. rq_id q = rq_id r) (\<lambda>_. r) (o_requests db)\<rparr>))"

definition insert_transition :: "approval_transition \<Rightarrow> ('z approval_db_scheme, unit) tx" where
  "insert_transition t db = (if tr_id t \<in> tr_id ` set (o_transitions db) \<or> \<not> is_user (tr_actor t) db
       \<or> tr_revision t \<notin> hi_id ` set (o_history db) \<or> tr_request t \<notin> rq_id ` set (o_requests db) then Inl Plain_error
     else Inr ((), db\<lparr>o_transitions := sql_insert t (o_transitions db)\<rparr>))"

text \<open>\<^verbatim>\<open>approvalEvent\<close>\<close>

definition approval_event ::
  "string \<Rightarrow> approval_request \<Rightarrow> string \<Rightarrow> int \<Rightarrow> projection_page \<Rightarrow> string option \<Rightarrow> int \<Rightarrow> ('z approval_db_scheme, string) tx" where
  "approval_event ident rq type actor page comment now =
     write_outbox_event ident type 1 ''page-approval'' (Agg_text (rq_id rq))
       (JObj ([(''requestId'', JStr (rq_id rq)), (''pageId'', JNum (Whole (rq_page rq))), (''revisionId'', JNum (Whole (rq_revision rq))),
          (''status'', JStr (status_text (rq_status rq))), (''actorId'', JNum (Whole actor)), (''submitterId'', JNum (Whole (rq_submitter rq))),
          (''assigneeId'', js_null_or (\<lambda>i. JNum (Whole i)) (rq_assignee rq)), (''title'', JStr (pj_title page)),
          (''path'', JStr (lo_path (pj_location page))), (''localeCode'', JStr (lo_locale (pj_location page))),
          (''visibility'', JStr (visibility_text (lo_visibility (pj_location page))))]
        @ (case comment of None \<Rightarrow> [] | Some c \<Rightarrow> if c = [] then [] else [(''comment'', JStr c)]))) now"

section \<open>Publishing a page\<close>

text \<open>
  The trigger \<^verbatim>\<open>wiki_increment_page_source_revision\<close> on an update of a page: the revision
  counts the changes of the listed columns.
\<close>

definition decimal_value :: "string \<Rightarrow> nat" where
  "decimal_value s = foldl (\<lambda>n c. 10 * n + (of_char c - 48)) 0 s"

definition revised_columns :: "projection_page \<Rightarrow> string \<times> string \<times> bool \<times> bool \<times> string option \<times> string option \<times> location \<times> string \<times> int \<times> string option" where
  "revised_columns p = (pj_content p, pj_title p, pj_published p, pj_searchable p, pj_start p, pj_end p, pj_location p, pj_revision p,
     pj_author p, pj_reason p)"

definition increment_revision :: "projection_page \<Rightarrow> projection_page \<Rightarrow> projection_page" where
  "increment_revision old new = (if revised_columns (new\<lparr>pj_revision := pj_revision old\<rparr>) \<noteq> revised_columns old
     then new\<lparr>pj_revision := decimal (decimal_value (pj_revision old) + 1)\<rparr> else new)"

text \<open>The patch of \<^verbatim>\<open>publishPage\<close>, with \<^verbatim>\<open>$beforeUpdate\<close> of the page model.\<close>

definition published_page :: "int \<Rightarrow> int \<Rightarrow> projection_page \<Rightarrow> projection_page" where
  "published_page actor now p =
     increment_revision p (p\<lparr>pj_published := True, pj_author := actor, pj_reason := None, pj_modified := now\<rparr>)"

definition published_intent :: "projection_page \<Rightarrow> effects_input" where
  "published_intent p = \<lparr>eq_page = Whole (pj_id p), eq_revision = pj_revision p, eq_desired = Present, eq_action = A_update,
     eq_source = Some (pj_content p), eq_location = Some (pj_location p), eq_previous = None, eq_effects = None\<rparr>"

definition publish_page ::
  "protection_env \<Rightarrow> approval_ids \<Rightarrow> projection_page \<Rightarrow> int \<Rightarrow> int \<Rightarrow> ('z approval_db_scheme, unit) tx" where
  "publish_page env ids page actor now db =
     rbind (snapshot_revision (fi_history ids) page ''approval-published'' db) (\<lambda>(_, db1).
       let same = (\<lambda>p. pj_id p = pj_id page \<and> pj_revision p = pj_revision page) in
       if sql_count same (o_pages db1) \<noteq> 1 then Inl (Coded ''APPROVAL_STALE'' 409)
       else let db2 = db1\<lparr>o_pages := sql_update same (published_page actor now) (o_pages db1)\<rparr> in
         case find_page (pj_id page) db2 of
           None \<Rightarrow> Inl page_not_found
         | Some p \<Rightarrow> rbind (enqueue_effects (pe_text env) (published_intent p) (fi_effects ids) now db2) (\<lambda>(_, db3). Inr ((), db3)))"

section \<open>Submitting a page\<close>

record submit_input =
  si_requester :: "principal option"
  si_authority :: authority
  si_page :: int
  si_session :: string
  si_expected :: js_value
  si_assignee :: "js_num option"
  si_comment :: "string option"

definition assignee_of :: "js_num option \<Rightarrow> int option result" where
  "assignee_of a = (case a of
      None \<Rightarrow> Inr None
    | Some (Whole i) \<Rightarrow> if safe_int i \<and> 1 \<le> i then Inr (Some i) else Inl (Coded ''INVALID_INPUT'' 400)
    | Some Not_whole \<Rightarrow> Inl (Coded ''INVALID_INPUT'' 400))"

definition comment_or_null :: "string \<Rightarrow> string option" where
  "comment_or_null s = (if s = [] then None else Some s)"

text \<open>The transaction of \<^verbatim>\<open>submitPageApproval\<close>\<close>

definition open_request ::
  "approval_ids \<Rightarrow> submit_input \<Rightarrow> int \<Rightarrow> int option \<Rightarrow> projection_page \<Rightarrow> int \<Rightarrow> ('z approval_db_scheme, approval_request) tx" where
  "open_request ids i submitter assignee page now db =
     rbind (snapshot_revision (fi_history ids) page ''approval-submitted'' db) (\<lambda>(revision, db1).
       let rq = \<lparr>rq_id = fi_request ids, rq_page = pj_id page, rq_submitter = submitter, rq_assignee = assignee, rq_status = Submitted,
                 rq_revision = revision, rq_revision_updated = pj_modified page, rq_created = now, rq_updated = now, rq_closed = None\<rparr> in
       rbind (insert_request rq db1) (\<lambda>(_, db2).
       rbind (insert_transition \<lparr>tr_id = fi_transition ids, tr_request = rq_id rq, tr_from = None, tr_to = Submitted, tr_actor = submitter,
                tr_revision = revision, tr_comment = comment_or_null (trim (option_or (si_comment i) [])), tr_created = now\<rparr> db2) (\<lambda>(_, db3).
       rbind (approval_event (fi_event ids) rq ''approval.submitted'' submitter page (si_comment i) now db3) (\<lambda>(_, db4). Inr (rq, db4)))))"

definition submit_in_tx ::
  "protection_env \<Rightarrow> approval_ids \<Rightarrow> submit_input \<Rightarrow> int \<Rightarrow> string \<Rightarrow> int option \<Rightarrow> int \<Rightarrow> ('z approval_db_scheme, approval_request) tx" where
  "submit_in_tx env ids i submitter expected assignee now db = (case find_page (si_page i) db of
      None \<Rightarrow> Inl page_not_found
    | Some page \<Rightarrow>
        if \<not> can_write_page (pe_regex env) (si_requester i) (page_view db page) (si_authority i) then Inl page_not_found
        else (case page_requires_unlock (si_requester i) (pj_id page) (si_session i) False now db of
          (locked, db1) \<Rightarrow>
            if locked then Inl page_locked
            else if pj_revision page \<noteq> expected then Inl (Coded ''APPROVAL_STALE'' 409)
            else if list_ex (\<lambda>q. rq_page q = pj_id page \<and> is_active q) (o_requests db1) then Inl (Coded ''APPROVAL_ACTIVE'' 409)
            else open_request ids i submitter assignee page now db1))"

definition submit_page_approval ::
  "protection_env \<Rightarrow> approval_ids \<Rightarrow> submit_input \<Rightarrow> int \<Rightarrow> ('z approval_db_scheme, approval_request) tx" where
  "submit_page_approval env ids i now db =
     rbind (authenticated_id (si_requester i)) (\<lambda>submitter.
     rbind (required_source_revision (si_expected i)) (\<lambda>expected.
     rbind (assignee_of (si_assignee i)) (\<lambda>assignee. submit_in_tx env ids i submitter expected assignee now db)))"

section \<open>Moving a request on\<close>

record approval_input =
  ti_requester :: "principal option"
  ti_authority :: authority
  ti_request :: string
  ti_action :: approval_action
  ti_session :: string
  ti_expected :: js_value
  ti_comment :: "string option"
  ti_assignee :: "js_num option"

definition forbidden :: js_error where
  "forbidden = Coded ''APPROVAL_FORBIDDEN'' 403"

text \<open>
  The \<^verbatim>\<open>switch\<close> over the action of \<^verbatim>\<open>transitionApproval\<close>: the request with its new status,
  revision and assignee.
\<close>

definition apply_action ::
  "protection_env \<Rightarrow> approval_ids \<Rightarrow> approval_input \<Rightarrow> int \<Rightarrow> string \<Rightarrow> projection_page \<Rightarrow> approval_request \<Rightarrow> int \<Rightarrow>
     ('z approval_db_scheme, approval_request) tx" where
  "apply_action env ids i actor expected page rq now db =
     (let admin = manages_system (ti_requester i);
          reviewer = (reviewer_eligible (pe_regex env) (ti_requester i) (page_view db page) (ti_authority i)
            \<and> (rq_assignee rq = None \<or> rq_assignee rq = Some actor \<or> admin));
          submitter = (rq_submitter rq = actor)
      in case ti_action i of
        To_approve \<Rightarrow>
          if rq_status rq \<noteq> Submitted \<or> \<not> reviewer then Inl forbidden
          else if stale_revision rq page then Inl (Coded ''APPROVAL_STALE'' 409)
          else Inr (rq\<lparr>rq_status := Approved\<rparr>, db)
      | To_request_changes \<Rightarrow>
          if rq_status rq \<noteq> Submitted \<or> \<not> reviewer then Inl forbidden else Inr (rq\<lparr>rq_status := Changes_requested\<rparr>, db)
      | To_reject \<Rightarrow>
          if rq_status rq \<noteq> Submitted \<or> \<not> reviewer then Inl forbidden else Inr (rq\<lparr>rq_status := Rejected\<rparr>, db)
      | To_cancel \<Rightarrow>
          if \<not> submitter \<and> \<not> admin then Inl forbidden
          else if \<not> is_active rq then Inl (Coded ''APPROVAL_CLOSED'' 409)
          else Inr (rq\<lparr>rq_status := Withdrawn\<rparr>, db)
      | To_resubmit \<Rightarrow>
          if rq_status rq \<noteq> Changes_requested \<or> (\<not> submitter \<and> \<not> admin) then Inl forbidden
          else if \<not> can_write_page (pe_regex env) (ti_requester i) (page_view db page) (ti_authority i) then Inl forbidden
          else if pj_revision page \<noteq> expected then Inl (Coded ''APPROVAL_STALE'' 409)
          else rbind (snapshot_revision (fi_history ids) page ''approval-resubmitted'' db) (\<lambda>(revision, db1).
            Inr (rq\<lparr>rq_status := Submitted, rq_revision := revision, rq_revision_updated := pj_modified page\<rparr>, db1))
      | To_publish \<Rightarrow>
          if rq_status rq \<noteq> Approved \<or> \<not> reviewer then Inl forbidden
          else if stale_revision rq page then Inl (Coded ''APPROVAL_STALE'' 409)
          else rbind (publish_page env ids page actor now db) (\<lambda>(_, db1). Inr (rq\<lparr>rq_status := Published\<rparr>, db1))
      | To_reassign \<Rightarrow>
          if \<not> reviewer \<and> \<not> admin then Inl forbidden
          else (case ti_assignee i of
              Some (Whole a) \<Rightarrow> if safe_int a \<and> 1 \<le> a then Inr (rq\<lparr>rq_assignee := Some a\<rparr>, db) else Inl (Coded ''INVALID_INPUT'' 400)
            | _ \<Rightarrow> Inl (Coded ''INVALID_INPUT'' 400)))"

text \<open>The event \<^verbatim>\<open>page.updated\<close> after a publication.\<close>

definition page_updated_event ::
  "approval_ids \<Rightarrow> approval_input \<Rightarrow> int \<Rightarrow> string list \<Rightarrow> projection_page \<Rightarrow> int \<Rightarrow> ('z approval_db_scheme, string) tx" where
  "page_updated_event ids i actor tags page now =
     write_outbox_event (fi_page_event ids) ''page.updated'' 1 ''page'' (Agg_number (pj_id page))
       (JObj [(''pageId'', JNum (Whole (pj_id page))), (''actorId'', JNum (Whole actor)),
          (''actorName'', case ti_requester i of None \<Rightarrow> JStr ''Reviewer''
             | Some u \<Rightarrow> if js_is_object (pr_value u) then js_get ''name'' (pr_value u) else JStr ''Reviewer''),
          (''title'', JStr (pj_title page)), (''path'', JStr (lo_path (pj_location page))), (''localeCode'', JStr (lo_locale (pj_location page))),
          (''ownerId'', js_null_or (\<lambda>k. JNum (Whole k)) (lo_owner (pj_location page))),
          (''tags'', JArr (map (\<lambda>t. JObj [(''tag'', JStr t)]) tags)),
          (''visibility'', JStr (visibility_text (lo_visibility (pj_location page))))]) now"

definition is_closed :: "approval_status \<Rightarrow> bool" where
  "is_closed s = (s \<in> set [Rejected, Withdrawn, Published])"

text \<open>The rest of the transaction: the request is written, logged and announced.\<close>

definition record_transition ::
  "approval_ids \<Rightarrow> approval_input \<Rightarrow> int \<Rightarrow> string \<Rightarrow> projection_page \<Rightarrow> approval_request \<Rightarrow> approval_request \<Rightarrow> int \<Rightarrow>
     ('z approval_db_scheme, approval_request) tx" where
  "record_transition ids i actor comment page rq changed now db =
     (let updated = changed\<lparr>rq_updated := now, rq_closed := if is_closed (rq_status changed) then Some now else None\<rparr> in
      rbind (write_request updated db) (\<lambda>(_, db1).
      rbind (insert_transition \<lparr>tr_id = fi_transition ids, tr_request = rq_id rq, tr_from = Some (rq_status rq), tr_to = rq_status changed,
               tr_actor = actor, tr_revision = rq_revision changed, tr_comment = comment_or_null comment, tr_created = now\<rparr> db1) (\<lambda>(_, db2).
      rbind (approval_event (fi_event ids) updated (action_event (ti_action i)) actor page (Some comment) now db2) (\<lambda>(_, db3).
        if ti_action i = To_publish
        then rbind (page_updated_event ids i actor (load_page_tags (pj_id page) db) page now db3) (\<lambda>(_, db4). Inr (updated, db4))
        else Inr (updated, db3)))))"

text \<open>The transaction up to the \<^verbatim>\<open>switch\<close>: the request and its page, both visible and unlocked.\<close>

definition transition_in_tx ::
  "protection_env \<Rightarrow> approval_ids \<Rightarrow> approval_input \<Rightarrow> int \<Rightarrow> string \<Rightarrow> string \<Rightarrow> int \<Rightarrow> ('z approval_db_scheme, approval_request) tx" where
  "transition_in_tx env ids i actor comment expected now db = (case find_request (ti_request i) db of
      None \<Rightarrow> Inl (Coded ''APPROVAL_NOT_FOUND'' 404)
    | Some rq \<Rightarrow> (case find_page (rq_page rq) db of
        None \<Rightarrow> Inl page_not_found
      | Some page \<Rightarrow>
          if \<not> can_view_request (pe_regex env) (ti_requester i) rq (page_view db page) (ti_authority i)
          then Inl (Coded ''APPROVAL_NOT_FOUND'' 404)
          else (case page_requires_unlock (ti_requester i) (pj_id page) (ti_session i) False now db of
            (locked, db1) \<Rightarrow>
              if locked then Inl page_locked
              else rbind (apply_action env ids i actor expected page rq now db1) (\<lambda>(changed, db2).
                record_transition ids i actor comment page rq changed now db2))))"

text \<open>\<^verbatim>\<open>transitionApproval\<close>\<close>

definition transition_approval ::
  "protection_env \<Rightarrow> approval_ids \<Rightarrow> approval_input \<Rightarrow> int \<Rightarrow> ('z approval_db_scheme, approval_request) tx" where
  "transition_approval env ids i now db =
     (let comment = trim (option_or (ti_comment i) []) in
      if (ti_action i = To_request_changes \<or> ti_action i = To_reject) \<and> comment = [] then Inl (Coded ''COMMENT_REQUIRED'' 400)
      else rbind (authenticated_id (ti_requester i)) (\<lambda>actor.
        rbind (if ti_action i = To_resubmit then required_source_revision (ti_expected i) else Inr []) (\<lambda>expected.
          transition_in_tx env ids i actor comment expected now db)))"

end
