(* ===== verification/ApprovalInbox.thy ===== *)
theory ApprovalInbox
  imports Approvals "HOL-Library.AList"
begin

text \<open>
  Reading approvals (\<^verbatim>\<open>server/operations/approvals.ts\<close>): the request of a page, and the inbox with
  its cursors. The cursor store is a \<^verbatim>\<open>Map\<close>: tokens with their cursors in insertion order. A
  call of the inbox reads the clock when it looks its cursor up and when it issues the next one;
  the batches of one call see the same tables.
\<close>

section \<open>Cursors\<close>

record approval_cursor =
  cu_updated :: int
  cu_id :: string

record stored_cursor = approval_cursor +
  cu_owner :: int
  cu_expires :: int

type_synonym cursor_store = "(string \<times> stored_cursor) list"

definition cursor_ttl :: int where
  "cursor_ttl = 5 * 60 * 1000"

definition max_cursors :: nat where
  "max_cursors = 128"

definition max_owner_cursors :: nat where
  "max_owner_cursors = 4"

text \<open>\<^verbatim>\<open>APPROVAL_CURSOR_PATTERN\<close>: a version 4 UUID, in any case.\<close>

definition any_hex :: "char \<Rightarrow> bool" where
  "any_hex c = (is_hex_char c \<or> (let n = of_char c :: nat in 65 \<le> n \<and> n \<le> 70))"

definition cursor_pattern :: "string \<Rightarrow> bool" where
  "cursor_pattern s = (length s = 36 \<and> list_all (\<lambda>k. s ! k = CHR ''-'') [8, 13, 18, 23]
     \<and> list_all (\<lambda>k. k \<in> {8, 13, 18, 23} \<or> any_hex (s ! k)) [0..<36]
     \<and> s ! 14 = CHR ''4'' \<and> s ! 19 \<in> set ''89abAB'')"

definition prune_cursors :: "int \<Rightarrow> cursor_store \<Rightarrow> cursor_store" where
  "prune_cursors now store = filter (\<lambda>e. now < cu_expires (snd e)) store"

definition cursor_expired :: js_error where
  "cursor_expired = Coded ''APPROVAL_CURSOR_EXPIRED'' 409"

text \<open>\<^verbatim>\<open>readApprovalCursor\<close>. The store is pruned even when the cursor is refused.\<close>

definition read_cursor :: "int \<Rightarrow> js_value \<Rightarrow> int \<Rightarrow> cursor_store \<Rightarrow> approval_cursor option result \<times> cursor_store" where
  "read_cursor owner value now store = (case value of
      JUndefined \<Rightarrow> (Inr None, store)
    | JNull \<Rightarrow> (Inr None, store)
    | JStr token \<Rightarrow>
        if \<not> cursor_pattern token then (Inl cursor_expired, store)
        else let kept = prune_cursors now store in
          (case map_of kept token of
             None \<Rightarrow> (Inl cursor_expired, kept)
           | Some c \<Rightarrow> if cu_expires c \<le> now \<or> cu_owner c \<noteq> owner then (Inl cursor_expired, kept)
               else (Inr (Some (approval_cursor.truncate c)), kept))
    | _ \<Rightarrow> (Inl cursor_expired, store))"

definition equivalent_cursor :: "int \<Rightarrow> approval_cursor \<Rightarrow> stored_cursor \<Rightarrow> bool" where
  "equivalent_cursor owner c s = (cu_owner s = owner \<and> cu_id s = cu_id c \<and> cu_updated s = cu_updated c)"

definition owned_tokens :: "int \<Rightarrow> cursor_store \<Rightarrow> string list" where
  "owned_tokens owner store = map fst (filter (\<lambda>e. cu_owner (snd e) = owner) store)"

text \<open>The oldest cursor of an owner makes room when the owner has four.\<close>

definition make_room :: "int \<Rightarrow> cursor_store \<Rightarrow> cursor_store" where
  "make_room owner store = (case owned_tokens owner store of
      [] \<Rightarrow> store
    | oldest # _ \<Rightarrow> if max_owner_cursors \<le> length (owned_tokens owner store) then filter (\<lambda>e. fst e \<noteq> oldest) store else store)"

text \<open>\<^verbatim>\<open>issueApprovalCursor\<close>\<close>

definition issue_cursor :: "int \<Rightarrow> approval_cursor \<Rightarrow> string \<Rightarrow> int \<Rightarrow> cursor_store \<Rightarrow> string result \<times> cursor_store" where
  "issue_cursor owner c token now store =
     (let kept = prune_cursors now store in
      case List.find (\<lambda>e. equivalent_cursor owner c (snd e)) kept of
        Some e \<Rightarrow> (Inr (fst e), kept)
      | None \<Rightarrow>
          let room = make_room owner kept in
          if max_cursors \<le> length room then (Inl (Coded ''NOTIFICATION_CURSOR_CAPACITY'' 503), room)
          else (Inr token, AList.update token \<lparr>cu_updated = cu_updated c, cu_id = cu_id c, cu_owner = owner, cu_expires = now + cursor_ttl\<rparr> room))"

section \<open>Candidates\<close>

text \<open>\<^verbatim>\<open>loadApprovalPageProjections\<close>: rows that do not have the shape of a page are left out.\<close>

definition projection_shape :: "projection_page \<Rightarrow> bool" where
  "projection_shape p = (safe_int (pj_id p) \<and> 1 \<le> pj_id p \<and> lo_path (pj_location p) \<noteq> []
     \<and> pred_option (\<lambda>i. safe_int i \<and> 1 \<le> i) (lo_owner (pj_location p)))"

definition approval_projection :: "int \<Rightarrow> 'z approval_db_scheme \<Rightarrow> projection_page option" where
  "approval_projection page db = (case find_page page db of None \<Rightarrow> None | Some p \<Rightarrow> if projection_shape p then Some p else None)"

text \<open>The condition of the inbox query, its order, and the part behind a cursor.\<close>

definition inbox_scope :: "bool \<Rightarrow> int \<Rightarrow> 'z approval_db_scheme \<Rightarrow> approval_request \<Rightarrow> bool" where
  "inbox_scope administrator user db r = (is_active r \<and> (administrator \<or>
     ((rq_submitter r = user \<or> rq_assignee r = Some user \<or> rq_assignee r = None)
      \<and> list_ex (\<lambda>p. pj_id p = rq_page r \<and> (lo_visibility (pj_location p) = Public
            \<or> (lo_visibility (pj_location p) = Private \<and> lo_owner (pj_location p) = Some user))) (o_pages db))))"

definition inbox_key :: "approval_request \<Rightarrow> int \<times> string" where
  "inbox_key r = (rq_updated r, rq_id r)"

definition cursor_key :: "'z approval_cursor_scheme \<Rightarrow> int \<times> string" where
  "cursor_key c = (cu_updated c, cu_id c)"

definition behind :: "approval_cursor option \<Rightarrow> approval_request \<Rightarrow> bool" where
  "behind c r = (case c of None \<Rightarrow> True
     | Some k \<Rightarrow> rq_updated r < cu_updated k \<or> (rq_updated r = cu_updated k \<and> rq_id r < cu_id k))"

definition inbox_candidates :: "bool \<Rightarrow> int \<Rightarrow> 'z approval_db_scheme \<Rightarrow> approval_cursor option \<Rightarrow> approval_request list" where
  "inbox_candidates administrator user db c =
     rev (sort_key inbox_key (filter (\<lambda>r. inbox_scope administrator user db r \<and> behind c r) (o_requests db)))"

section \<open>The inbox\<close>

record inbox_item =
  it_request :: approval_request
  it_page :: projection_page
  it_stale :: bool
  it_can_review :: bool

record inbox_state =
  ib_items :: "inbox_item list"
  ib_processed :: nat
  ib_batch :: nat
  ib_last :: "approval_cursor option"

definition max_visible :: nat where
  "max_visible = 100"

definition batch_size :: nat where
  "batch_size = 100"

definition max_processed :: nat where
  "max_processed = 500"

text \<open>What the inbox shows of a request, if the requester may see it.\<close>

definition inbox_entry :: "regex_engine \<Rightarrow> principal option \<Rightarrow> int \<Rightarrow> authority \<Rightarrow> 'z approval_db_scheme \<Rightarrow> approval_request \<Rightarrow> inbox_item option" where
  "inbox_entry regex requester user au db r = (case approval_projection (rq_page r) db of
      None \<Rightarrow> None
    | Some p \<Rightarrow>
        if \<not> can_view_request regex requester r (page_view db p) au then None
        else Some \<lparr>it_request = r, it_page = p, it_stale = stale_revision r p,
          it_can_review = (reviewer_eligible regex requester (page_view db p) au
            \<and> (rq_assignee r = None \<or> rq_assignee r = Some user \<or> manages_system requester))\<rparr>)"

definition cursor_of :: "approval_request \<Rightarrow> approval_cursor" where
  "cursor_of r = \<lparr>cu_updated = rq_updated r, cu_id = rq_id r\<rparr>"

definition inbox_full :: "inbox_state \<Rightarrow> bool" where
  "inbox_full st = (max_processed \<le> ib_processed st \<or> max_visible \<le> length (ib_items st))"

text \<open>The loop over the rows of one batch.\<close>

fun inbox_batch :: "(approval_request \<Rightarrow> inbox_item option) \<Rightarrow> approval_request list \<Rightarrow> inbox_state \<Rightarrow> inbox_state" where
  "inbox_batch entry [] st = st"
| "inbox_batch entry (r # rs) st =
     (if inbox_full st then st
      else inbox_batch entry rs (st\<lparr>ib_items := ib_items st @ (case entry r of None \<Rightarrow> [] | Some it \<Rightarrow> [it]),
        ib_processed := Suc (ib_processed st), ib_batch := Suc (ib_batch st), ib_last := Some (cursor_of r)\<rparr>))"

lemma inbox_batch_processed: "ib_processed st \<le> ib_processed (inbox_batch entry rows st)"
proof (induction entry rows st rule: inbox_batch.induct)
  case (2 entry r rs st)
  then show ?case by (cases "inbox_full st") auto
qed simp

lemma inbox_batch_progress: "rows \<noteq> [] \<Longrightarrow> \<not> inbox_full st \<Longrightarrow> ib_processed st < ib_processed (inbox_batch entry rows st)"
  using inbox_batch_processed by (cases rows) (auto simp: less_eq_Suc_le intro: order_trans [OF _ inbox_batch_processed])

text \<open>The loop over the batches: the state at its end, and whether a further cursor is issued.\<close>

function inbox_loop ::
  "(approval_request \<Rightarrow> inbox_item option) \<Rightarrow> (approval_cursor option \<Rightarrow> approval_request list) \<Rightarrow> approval_cursor option \<Rightarrow> inbox_state \<Rightarrow> inbox_state \<times> bool" where
  "inbox_loop entry query c st =
     (if inbox_full st then (st, False)
      else let limit = min batch_size (max_processed - ib_processed st); rows = take limit (query c) in
        if rows = [] then (st, False)
        else let next = inbox_batch entry rows (st\<lparr>ib_batch := 0\<rparr>);
                 more = (ib_batch next < length rows \<or> length rows = limit)
          in if inbox_full next then (next, more)
             else if length rows < limit then (next, False)
             else inbox_loop entry query (ib_last next) next)"
  by pat_completeness auto

termination
proof (relation "measure (\<lambda>(_, _, _, st). max_processed - ib_processed st)")
  fix entry query and c :: "approval_cursor option" and st limit rows st2
  assume a: "\<not> inbox_full st" "limit = min batch_size (max_processed - ib_processed st)" "rows = take limit (query c)" "rows \<noteq> []"
    "st2 = inbox_batch entry rows (st\<lparr>ib_batch := 0\<rparr>)"
  have "\<not> inbox_full (st\<lparr>ib_batch := 0\<rparr>)" using a(1) by (simp add: inbox_full_def)
  from inbox_batch_progress [OF a(4) this, of entry] a(1,5)
  show "((entry, query, ib_last st2, st2), (entry, query, c, st)) \<in> measure (\<lambda>(_, _, _, st). max_processed - ib_processed st)"
    by (simp add: inbox_full_def diff_less_mono2)
qed simp

declare inbox_loop.simps [simp del]

definition empty_inbox :: inbox_state where
  "empty_inbox = \<lparr>ib_items = [], ib_processed = 0, ib_batch = 0, ib_last = None\<rparr>"

record inbox_page =
  ip_owner :: int
  ip_items :: "inbox_item list"
  ip_next :: "string option"

text \<open>\<^verbatim>\<open>listApprovalInbox\<close>\<close>

definition list_approval_inbox ::
  "regex_engine \<Rightarrow> principal option \<Rightarrow> authority \<Rightarrow> js_value \<Rightarrow> string \<Rightarrow> int \<Rightarrow> int \<Rightarrow> 'z approval_db_scheme \<Rightarrow> cursor_store
     \<Rightarrow> inbox_page result \<times> cursor_store" where
  "list_approval_inbox regex requester au cursor token read_at issue_at db store = (case authenticated_id requester of
      Inl e \<Rightarrow> (Inl e, store)
    | Inr user \<Rightarrow> (case read_cursor user cursor read_at store of
        (Inl e, store1) \<Rightarrow> (Inl e, store1)
      | (Inr c, store1) \<Rightarrow>
          (case inbox_loop (inbox_entry regex requester user au db) (inbox_candidates (manages_system requester) user db) c empty_inbox of
            (st, further) \<Rightarrow> (case (ib_last st, further) of
                (Some k, True) \<Rightarrow> (case issue_cursor user k token issue_at store1 of
                    (Inl e, store2) \<Rightarrow> (Inl e, store2)
                  | (Inr t, store2) \<Rightarrow> (Inr \<lparr>ip_owner = user, ip_items = ib_items st, ip_next = Some t\<rparr>, store2))
              | _ \<Rightarrow> (Inr \<lparr>ip_owner = user, ip_items = ib_items st, ip_next = None\<rparr>, store1)))))"

section \<open>The request of a page\<close>

text \<open>\<^verbatim>\<open>loadApprovalActorNames\<close>: display names that are not blank.\<close>

definition actor_name :: "'z approval_db_scheme \<Rightarrow> int \<Rightarrow> string option" where
  "actor_name db i = (if \<not> safe_int i \<or> i \<le> 0 then None
     else case map_of (o_users db) i of Some (Some name) \<Rightarrow> (if trim name = [] then None else Some (trim name)) | _ \<Rightarrow> None)"

record page_approval =
  pa_request :: approval_request
  pa_stale :: bool
  pa_can_review :: bool
  pa_submitter :: bool
  pa_transitions :: "(approval_transition \<times> string option) list"

text \<open>\<^verbatim>\<open>getPageApproval\<close>; the lock check may delete expired grants.\<close>

definition get_page_approval ::
  "protection_env \<Rightarrow> principal option \<Rightarrow> authority \<Rightarrow> int \<Rightarrow> string \<Rightarrow> int \<Rightarrow> 'z approval_db_scheme \<Rightarrow> page_approval option result \<times> 'z approval_db_scheme" where
  "get_page_approval env requester au page session now db = (case authenticated_id requester of
      Inl e \<Rightarrow> (Inl e, db)
    | Inr _ \<Rightarrow> (case find_page page db of
        None \<Rightarrow> (Inl page_not_found, db)
      | Some p \<Rightarrow>
          if \<not> can_read_page (pe_regex env) requester (page_view db p) au then (Inl page_not_found, db)
          else (case page_requires_unlock requester page session False now db of
            (locked, db1) \<Rightarrow>
              if locked then (Inl page_locked, db1)
              else (case sort_key (\<lambda>r. - rq_created r) (filter (\<lambda>r. rq_page r = page) (o_requests db1)) of
                  [] \<Rightarrow> (Inr None, db1)
                | r # _ \<Rightarrow>
                    if \<not> can_view_request (pe_regex env) requester r (page_view db p) au then (Inr None, db1)
                    else (Inr (Some \<lparr>pa_request = r, pa_stale = stale_revision r p,
                        pa_can_review = (reviewer_eligible (pe_regex env) requester (page_view db p) au
                          \<and> (rq_assignee r = None \<or> rq_assignee r = principal_id requester \<or> manages_system requester)),
                        pa_submitter = (principal_id requester = Some (rq_submitter r)),
                        pa_transitions = map (\<lambda>t. (t, actor_name db1 (tr_actor t)))
                          (sort_key tr_created (filter (\<lambda>t. tr_request t = rq_id r) (o_transitions db1)))\<rparr>), db1)))))"

end
