(* ===== verification/ApprovalLaws.thy ===== *)
theory ApprovalLaws
  imports Approvals
begin

text \<open>
  What approval requests promise: the store's invariant over all reachable states, the life
  cycle and the audit trail of a request, the authority each move needs, and that a publication
  shows exactly what was submitted. Page edits and all other operations are steps of their own.
\<close>

section \<open>The tables an operation leaves alone\<close>

definition approval_tables ::
  "'z approval_db_scheme \<Rightarrow> projection_page list \<times> history_row list \<times> approval_request list \<times> approval_transition list \<times> (int \<times> string option) list" where
  "approval_tables db = (o_pages db, o_history db, o_requests db, o_transitions db, o_users db)"

lemma enqueue_effects_pages: "enqueue_effects env i fresh now db = Inr (x, db') \<Longrightarrow> o_pages db' = o_pages db"
proof -
  have one: "enqueue_one env p ident now db = Inr (y, db') \<Longrightarrow> o_pages db' = o_pages db" for p ident y and db db' :: "'a proj_db_scheme"
    by (auto simp: enqueue_one_def split: if_splits option.splits)
  have all: "enqueue_all env i page rv fresh now ks db = Inr (y, db') \<Longrightarrow> o_pages db' = o_pages db" for page rv ks y and db db' :: "'a proj_db_scheme"
    by (induction ks arbitrary: db y) (auto simp: rbind_Inr_iff split: prod.splits dest!: one)
  assume "enqueue_effects env i fresh now db = Inr (x, db')"
  then show ?thesis
    by (auto simp: enqueue_effects_def rbind_Inr_iff Let_def split: js_num.splits if_splits dest!: all)
qed

lemma enqueue_approval_tables:
  fixes db db' :: "'z approval_db_scheme"
  assumes "enqueue_effects env i fresh now db = Inr (x, db')"
  shows "approval_tables db' = approval_tables db"
  using enqueue_effects_pages [OF assms] enqueue_effects_frame [OF assms]
  by (cases db; cases db') (simp add: approval_tables_def same_frame_def)

lemma unlock_approval_tables:
  fixes db :: "'z approval_db_scheme"
  shows "approval_tables (snd (page_requires_unlock requester page session ro now db)) = approval_tables db"
  by (auto simp: page_requires_unlock_def Let_def prune_grants_def approval_tables_def split: option.splits)

lemma write_event_tables:
  "write_outbox_event ident type v at a payload now db = Inr (x, db') \<Longrightarrow> approval_tables db' = approval_tables db"
  by (auto simp: write_outbox_event_def approval_tables_def split: if_splits)

lemma approval_event_tables:
  "approval_event ident rq type actor page comment now db = Inr (x, db') \<Longrightarrow> approval_tables db' = approval_tables db"
  by (auto simp: approval_event_def dest: write_event_tables)

lemma page_event_tables:
  "page_updated_event ids i actor tags page now db = Inr (x, db') \<Longrightarrow> approval_tables db' = approval_tables db"
  by (auto simp: page_updated_event_def dest: write_event_tables)

lemma tx_stepE:
  assumes "rbind r (\<lambda>(a, s). k a s) = Inr b"
  obtains a s where "r = Inr (a, s)" "k a s = Inr b"
  using assms by (auto simp: rbind_Inr_iff)

section \<open>What a committed operation did\<close>

definition snapshot_row :: "int \<Rightarrow> projection_page \<Rightarrow> string \<Rightarrow> history_row \<Rightarrow> bool" where
  "snapshot_row ident page action h = (\<exists>tags. h = history_of ident page action tags)"

lemma snapshot_revision_success:
  assumes "snapshot_revision ident page action db = Inr (r, db')"
  shows "r = ident \<and> ident \<notin> hi_id ` set (o_history db) \<and> o_tags db' = o_tags db \<and>
    (\<exists>h. snapshot_row ident page action h \<and>
       approval_tables db' = (o_pages db, o_history db @ [h], o_requests db, o_transitions db, o_users db))"
proof -
  let ?h = "history_of ident page action (map snd (filter (\<lambda>t. fst t = pj_id page) (o_tags db)))"
  from assms have "r = ident" "ident \<notin> hi_id ` set (o_history db)" "db' = db\<lparr>o_history := sql_insert ?h (o_history db)\<rparr>"
    by (auto simp: snapshot_revision_def split: if_splits)
  moreover have "snapshot_row ident page action ?h" by (auto simp: snapshot_row_def)
  ultimately show ?thesis by (auto simp: approval_tables_def sql_insert_def)
qed

lemma submit_success:
  fixes db db' :: "'z approval_db_scheme"
  assumes "submit_page_approval env ids i now db = Inr (rq, db')"
  obtains page h t where "find_page (si_page i) db = Some page" "\<not> list_ex (\<lambda>q. rq_page q = pj_id page \<and> is_active q) (o_requests db)"
    "snapshot_row (fi_history ids) page ''approval-submitted'' h" "fi_history ids \<notin> hi_id ` set (o_history db)"
    "authenticated_id (si_requester i) = Inr (rq_submitter rq)" "rq_page rq = pj_id page" "rq_status rq = Submitted"
    "rq_revision rq = fi_history ids" "rq_revision_updated rq = pj_modified page" "rq_closed rq = None" "rq_id rq \<notin> rq_id ` set (o_requests db)"
    "tr_request t = rq_id rq" "tr_from t = None" "tr_to t = Submitted" "tr_id t \<notin> tr_id ` set (o_transitions db)" "tr_actor t = rq_submitter rq"
    "approval_tables db' = (o_pages db, o_history db @ [h], o_requests db @ [rq], o_transitions db @ [t], o_users db)"
proof -
  from assms obtain submitter expected assignee where auth: "authenticated_id (si_requester i) = Inr submitter"
    and tx: "submit_in_tx env ids i submitter expected assignee now db = Inr (rq, db')"
    by (auto simp: submit_page_approval_def rbind_Inr_iff)
  obtain locked db1 where u: "page_requires_unlock (si_requester i) (si_page i) (si_session i) False now db = (locked, db1)"
    by (meson surj_pair)
  have t1: "approval_tables db1 = approval_tables db"
    using unlock_approval_tables [of "si_requester i" "si_page i" "si_session i" False now db] by (simp add: u)
  from tx obtain page where page: "find_page (si_page i) db = Some page" "\<not> list_ex (\<lambda>q. rq_page q = pj_id page \<and> is_active q) (o_requests db1)"
    and op: "open_request ids i submitter assignee page now db1 = Inr (rq, db')"
    using u by (auto simp: submit_in_tx_def find_page_def split: option.splits if_splits prod.splits dest: sql_first_SomeD)
  from op obtain r db2 where snap: "snapshot_revision (fi_history ids) page ''approval-submitted'' db1 = Inr (r, db2)"
    and rest: "rbind (insert_request rq db2) (\<lambda>(_, db2).
       rbind (insert_transition \<lparr>tr_id = fi_transition ids, tr_request = rq_id rq, tr_from = None, tr_to = Submitted, tr_actor = submitter,
                tr_revision = r, tr_comment = comment_or_null (trim (option_or (si_comment i) [])), tr_created = now\<rparr> db2) (\<lambda>(_, db3).
       rbind (approval_event (fi_event ids) rq ''approval.submitted'' submitter page (si_comment i) now db3) (\<lambda>(_, db4). Inr (rq, db4)))) = Inr (rq, db')"
    and rq: "rq_id rq = fi_request ids" "rq_page rq = pj_id page" "rq_submitter rq = submitter" "rq_status rq = Submitted" "rq_revision rq = r"
      "rq_revision_updated rq = pj_modified page" "rq_closed rq = None"
    by (auto simp: open_request_def rbind_Inr_iff Let_def split: prod.splits)
  from rest obtain db3 db4 x where ins: "insert_request rq db2 = Inr ((), db3)"
    and tr: "insert_transition \<lparr>tr_id = fi_transition ids, tr_request = rq_id rq, tr_from = None, tr_to = Submitted, tr_actor = submitter,
                tr_revision = r, tr_comment = comment_or_null (trim (option_or (si_comment i) [])), tr_created = now\<rparr> db3 = Inr ((), db4)" (is "insert_transition ?t db3 = _")
    and ev: "approval_event (fi_event ids) rq ''approval.submitted'' submitter page (si_comment i) now db4 = Inr (x, db')"
    by (auto simp: rbind_Inr_iff split: prod.splits)
  obtain h where h: "r = fi_history ids" "snapshot_row (fi_history ids) page ''approval-submitted'' h" "fi_history ids \<notin> hi_id ` set (o_history db1)"
    "approval_tables db2 = (o_pages db1, o_history db1 @ [h], o_requests db1, o_transitions db1, o_users db1)"
    using snapshot_revision_success [OF snap] by metis
  have db3: "rq_id rq \<notin> rq_id ` set (o_requests db2)" "db3 = db2\<lparr>o_requests := sql_insert rq (o_requests db2)\<rparr>"
    using ins by (auto simp: insert_request_def split: if_splits)
  have db4: "tr_id ?t \<notin> tr_id ` set (o_transitions db3)" "db4 = db3\<lparr>o_transitions := sql_insert ?t (o_transitions db3)\<rparr>"
    using tr by (auto simp: insert_transition_def split: if_splits)
  show ?thesis
    by (rule that [of page h ?t]) (use auth page h rq db3 db4 t1 approval_event_tables [OF ev] in \<open>auto simp: approval_tables_def sql_insert_def\<close>)
qed

text \<open>The moves of a request's life cycle.\<close>

fun approval_edge :: "approval_action \<Rightarrow> approval_status \<Rightarrow> approval_status \<Rightarrow> bool" where
  "approval_edge To_approve a b = (a = Submitted \<and> b = Approved)"
| "approval_edge To_request_changes a b = (a = Submitted \<and> b = Changes_requested)"
| "approval_edge To_reject a b = (a = Submitted \<and> b = Rejected)"
| "approval_edge To_cancel a b = (\<not> is_closed a \<and> b = Withdrawn)"
| "approval_edge To_resubmit a b = (a = Changes_requested \<and> b = Submitted)"
| "approval_edge To_publish a b = (a = Approved \<and> b = Published)"
| "approval_edge To_reassign a b = (a = b)"

lemma closed_or_active: "rq_status r \<in> set closed_statuses \<longleftrightarrow> is_closed (rq_status r)" "is_active r \<longleftrightarrow> \<not> is_closed (rq_status r)"
  by (cases "rq_status r"; simp add: closed_statuses_def is_closed_def is_active_def active_statuses_def)+

definition same_revision :: "projection_page \<Rightarrow> projection_page \<Rightarrow> bool" where
  "same_revision page p = (pj_id p = pj_id page \<and> pj_revision p = pj_revision page)"

lemma publish_page_success:
  fixes db db' :: "'z approval_db_scheme"
  assumes "publish_page env ids page actor now db = Inr (u, db')"
  obtains h where "snapshot_row (fi_history ids) page ''approval-published'' h" "fi_history ids \<notin> hi_id ` set (o_history db)"
    "approval_tables db' = (sql_update (same_revision page) (published_page actor now) (o_pages db), o_history db @ [h], o_requests db,
       o_transitions db, o_users db)"
    "sql_count (same_revision page) (o_pages db) = 1"
proof -
  from assms obtain r db1 where snap: "snapshot_revision (fi_history ids) page ''approval-published'' db = Inr (r, db1)"
    and one: "sql_count (same_revision page) (o_pages db1) = 1"
    and rest: "(let db2 = db1\<lparr>o_pages := sql_update (same_revision page) (published_page actor now) (o_pages db1)\<rparr> in
         case find_page (pj_id page) db2 of None \<Rightarrow> Inl page_not_found
         | Some p \<Rightarrow> rbind (enqueue_effects (pe_text env) (published_intent p) (fi_effects ids) now db2) (\<lambda>(_, db3). Inr ((), db3))) = Inr (u, db')"
    by (auto simp: publish_page_def rbind_Inr_iff Let_def same_revision_def [abs_def] split: if_splits)
  from snapshot_revision_success [OF snap] obtain h where
    h: "fi_history ids \<notin> hi_id ` set (o_history db)" "snapshot_row (fi_history ids) page ''approval-published'' h"
      "approval_tables db1 = (o_pages db, o_history db @ [h], o_requests db, o_transitions db, o_users db)" by metis
  from rest obtain p x where
    "enqueue_effects (pe_text env) (published_intent p) (fi_effects ids) now (db1\<lparr>o_pages := sql_update (same_revision page) (published_page actor now) (o_pages db1)\<rparr>) = Inr (x, db')"
    by (auto simp: Let_def rbind_Inr_iff split: option.splits prod.splits)
  from enqueue_approval_tables [OF this] h(3) one show ?thesis
    by (intro that [OF h(2) h(1)]) (simp_all add: approval_tables_def)
qed

definition apply_effect ::
  "approval_ids \<Rightarrow> approval_action \<Rightarrow> int \<Rightarrow> int \<Rightarrow> projection_page \<Rightarrow> approval_request \<Rightarrow> approval_request \<Rightarrow> 'z approval_db_scheme \<Rightarrow> 'z approval_db_scheme \<Rightarrow> bool" where
  "apply_effect ids action actor now page rq changed db db' = (case action of
      To_resubmit \<Rightarrow> rq_revision changed = fi_history ids \<and> rq_revision_updated changed = pj_modified page
        \<and> fi_history ids \<notin> hi_id ` set (o_history db)
        \<and> (\<exists>h. snapshot_row (fi_history ids) page ''approval-resubmitted'' h \<and>
            approval_tables db' = (o_pages db, o_history db @ [h], o_requests db, o_transitions db, o_users db))
    | To_publish \<Rightarrow> rq_revision changed = rq_revision rq \<and> rq_revision_updated changed = rq_revision_updated rq
        \<and> fi_history ids \<notin> hi_id ` set (o_history db) \<and> sql_count (same_revision page) (o_pages db) = 1
        \<and> (\<exists>h. snapshot_row (fi_history ids) page ''approval-published'' h \<and>
            approval_tables db' = (sql_update (same_revision page) (published_page actor now) (o_pages db), o_history db @ [h], o_requests db,
              o_transitions db, o_users db))
    | _ \<Rightarrow> rq_revision changed = rq_revision rq \<and> rq_revision_updated changed = rq_revision_updated rq
        \<and> approval_tables db' = approval_tables db)"

definition action_authority :: "protection_env \<Rightarrow> approval_input \<Rightarrow> int \<Rightarrow> page_record \<Rightarrow> approval_request \<Rightarrow> bool" where
  "action_authority env i actor view rq = (case ti_action i of
      To_cancel \<Rightarrow> rq_submitter rq = actor \<or> manages_system (ti_requester i)
    | To_resubmit \<Rightarrow> (rq_submitter rq = actor \<or> manages_system (ti_requester i)) \<and> can_write_page (pe_regex env) (ti_requester i) view (ti_authority i)
    | _ \<Rightarrow> reviewer_eligible (pe_regex env) (ti_requester i) view (ti_authority i)
        \<and> (rq_assignee rq = None \<or> rq_assignee rq = Some actor \<or> manages_system (ti_requester i)))"

lemma apply_action_success:
  fixes db db' :: "'z approval_db_scheme"
  assumes "apply_action env ids i actor expected page rq now db = Inr (changed, db')"
  shows "rq_id changed = rq_id rq \<and> rq_page changed = rq_page rq \<and> rq_submitter changed = rq_submitter rq \<and> rq_created changed = rq_created rq
    \<and> approval_edge (ti_action i) (rq_status rq) (rq_status changed)
    \<and> (ti_action i \<in> {To_approve, To_publish} \<longrightarrow> rq_revision_updated rq = pj_modified page)
    \<and> action_authority env i actor (page_view db page) rq
    \<and> apply_effect ids (ti_action i) actor now page rq changed db db'"
proof (cases "ti_action i")
  case To_resubmit
  with assms obtain r where r: "snapshot_revision (fi_history ids) page ''approval-resubmitted'' db = Inr (r, db')"
    and c: "changed = rq\<lparr>rq_status := Submitted, rq_revision := r, rq_revision_updated := pj_modified page\<rparr>"
    and g: "rq_status rq = Changes_requested" "rq_submitter rq = actor \<or> manages_system (ti_requester i)"
      "can_write_page (pe_regex env) (ti_requester i) (page_view db page) (ti_authority i)"
    by (auto simp: apply_action_def Let_def rbind_Inr_iff split: if_splits)
  from snapshot_revision_success [OF r] c g To_resubmit show ?thesis
    by (auto simp: apply_effect_def action_authority_def)
next
  case To_publish
  with assms obtain u where p: "publish_page env ids page actor now db = Inr (u, db')"
    and c: "changed = rq\<lparr>rq_status := Published\<rparr>" and g: "rq_status rq = Approved" "\<not> stale_revision rq page"
      "action_authority env i actor (page_view db page) rq"
    by (auto simp: apply_action_def action_authority_def Let_def rbind_Inr_iff split: if_splits)
  from g(1,2) have "rq_revision_updated rq = pj_modified page" by (simp add: stale_revision_def closed_statuses_def)
  with publish_page_success [OF p] c g To_publish show ?thesis by (auto simp: apply_effect_def)
qed (use assms in \<open>auto simp: apply_action_def apply_effect_def action_authority_def Let_def stale_revision_def closed_statuses_def
      closed_or_active reviewer_eligible_def split: if_splits option.splits js_num.splits\<close>)

lemma record_transition_success:
  fixes db db' :: "'z approval_db_scheme"
  assumes "record_transition ids i actor comment page rq changed now db = Inr (updated, db')"
  shows "updated = changed\<lparr>rq_updated := now, rq_closed := if is_closed (rq_status changed) then Some now else None\<rparr>
    \<and> request_fits updated db
    \<and> (\<exists>t. tr_id t \<notin> tr_id ` set (o_transitions db) \<and> tr_request t = rq_id rq \<and> tr_from t = Some (rq_status rq) \<and> tr_to t = rq_status changed
         \<and> tr_actor t = actor
         \<and> approval_tables db' = (o_pages db, o_history db, sql_update (\<lambda>q. rq_id q = rq_id changed) (\<lambda>_. updated) (o_requests db),
             o_transitions db @ [t], o_users db))"
proof -
  let ?u = "changed\<lparr>rq_updated := now, rq_closed := if is_closed (rq_status changed) then Some now else None\<rparr>"
  let ?t = "\<lparr>tr_id = fi_transition ids, tr_request = rq_id rq, tr_from = Some (rq_status rq), tr_to = rq_status changed,
               tr_actor = actor, tr_revision = rq_revision changed, tr_comment = comment_or_null comment, tr_created = now\<rparr>"
  from assms obtain db1 db2 db3 x where w: "write_request ?u db = Inr ((), db1)" and t: "insert_transition ?t db1 = Inr ((), db2)"
    and e: "approval_event (fi_event ids) ?u (action_event (ti_action i)) actor page (Some comment) now db2 = Inr (x, db3)"
    and rest: "(if ti_action i = To_publish
        then rbind (page_updated_event ids i actor (load_page_tags (pj_id page) db) page now db3) (\<lambda>(_, db4). Inr (?u, db4))
        else Inr (?u, db3)) = Inr (updated, db')"
    unfolding record_transition_def Let_def by (elim tx_stepE) auto
  from rest have u: "updated = ?u" and f: "approval_tables db' = approval_tables db3"
    by (auto simp: rbind_Inr_iff split: if_splits prod.splits dest: page_event_tables)
  have "db1 = db\<lparr>o_requests := sql_update (\<lambda>q. rq_id q = rq_id changed) (\<lambda>_. ?u) (o_requests db)\<rparr>" "request_fits ?u db"
    using w by (auto simp: write_request_def split: if_splits)
  moreover have "db2 = db1\<lparr>o_transitions := sql_insert ?t (o_transitions db1)\<rparr>" "tr_id ?t \<notin> tr_id ` set (o_transitions db1)"
    using t by (auto simp: insert_transition_def split: if_splits)
  ultimately show ?thesis
    using u f approval_event_tables [OF e] by (intro conjI exI [of _ ?t]) (simp_all add: approval_tables_def sql_insert_def)
qed

lemma unlock_page_view:
  fixes db :: "'z approval_db_scheme"
  shows "page_view (snd (page_requires_unlock requester page session ro now db)) p = page_view db p"
  by (auto simp: page_requires_unlock_def Let_def prune_grants_def page_view_def load_page_tags_def split: option.splits)

text \<open>The rows a transition adds to the history, and the pages it leaves.\<close>

definition added_history :: "approval_ids \<Rightarrow> approval_action \<Rightarrow> projection_page \<Rightarrow> history_row list \<Rightarrow> history_row list \<Rightarrow> bool" where
  "added_history ids action page old hs = (if action \<in> {To_resubmit, To_publish}
     then fi_history ids \<notin> hi_id ` set old \<and> (\<exists>h name. hs = [h] \<and> snapshot_row (fi_history ids) page name h) else hs = [])"

definition pages_after :: "approval_action \<Rightarrow> int \<Rightarrow> int \<Rightarrow> projection_page \<Rightarrow> projection_page list \<Rightarrow> projection_page list" where
  "pages_after action actor now page pages =
     (if action = To_publish then sql_update (same_revision page) (published_page actor now) pages else pages)"

lemma apply_effect_tables:
  fixes db db' :: "'z approval_db_scheme"
  assumes "apply_effect ids action actor now page rq changed db db'"
  obtains hs where "added_history ids action page (o_history db) hs"
    "approval_tables db' = (pages_after action actor now page (o_pages db), o_history db @ hs, o_requests db, o_transitions db, o_users db)"
proof (cases action)
  case To_resubmit
  with assms that show ?thesis by (auto simp: apply_effect_def added_history_def pages_after_def)
next
  case To_publish
  with assms that show ?thesis by (auto simp: apply_effect_def added_history_def pages_after_def)
qed (use assms that [of "[]"] in \<open>auto simp: apply_effect_def added_history_def pages_after_def approval_tables_def\<close>)

lemma transition_success:
  fixes db db' :: "'z approval_db_scheme"
  assumes "transition_approval env ids i now db = Inr (updated, db')"
  obtains rq page actor t hs where "find_request (ti_request i) db = Some rq" "find_page (rq_page rq) db = Some page"
    "authenticated_id (ti_requester i) = Inr actor" "can_view_request (pe_regex env) (ti_requester i) rq (page_view db page) (ti_authority i)"
    "\<not> fst (page_requires_unlock (ti_requester i) (pj_id page) (ti_session i) False now db)" "action_authority env i actor (page_view db page) rq"
    "rq_id updated = rq_id rq" "rq_page updated = rq_page rq" "rq_submitter updated = rq_submitter rq" "rq_created updated = rq_created rq"
    "approval_edge (ti_action i) (rq_status rq) (rq_status updated)" "rq_closed updated = (if is_closed (rq_status updated) then Some now else None)"
    "ti_action i \<in> {To_approve, To_publish} \<longrightarrow> rq_revision_updated rq = pj_modified page"
    "if ti_action i = To_resubmit then rq_revision updated = fi_history ids \<and> rq_revision_updated updated = pj_modified page
       else rq_revision updated = rq_revision rq \<and> rq_revision_updated updated = rq_revision_updated rq"
    "is_active updated \<longrightarrow> \<not> list_ex (\<lambda>q. rq_id q \<noteq> rq_id rq \<and> rq_page q = rq_page rq \<and> is_active q) (o_requests db)"
    "tr_id t \<notin> tr_id ` set (o_transitions db)" "tr_request t = rq_id rq" "tr_from t = Some (rq_status rq)" "tr_to t = rq_status updated" "tr_actor t = actor"
    "added_history ids (ti_action i) page (o_history db) hs"
    "ti_action i = To_publish \<longrightarrow> sql_count (same_revision page) (o_pages db) = 1"
    "approval_tables db' = (pages_after (ti_action i) actor now page (o_pages db), o_history db @ hs,
       sql_update (\<lambda>q. rq_id q = rq_id rq) (\<lambda>_. updated) (o_requests db), o_transitions db @ [t], o_users db)"
proof -
  from assms obtain actor expected where auth: "authenticated_id (ti_requester i) = Inr actor"
    and tx: "transition_in_tx env ids i actor (trim (option_or (ti_comment i) [])) expected now db = Inr (updated, db')"
    by (auto simp: transition_approval_def Let_def rbind_Inr_iff split: if_splits)
  from tx obtain rq page where rq: "find_request (ti_request i) db = Some rq" and page: "find_page (rq_page rq) db = Some page"
    and view: "can_view_request (pe_regex env) (ti_requester i) rq (page_view db page) (ti_authority i)"
    by (auto simp: transition_in_tx_def split: option.splits if_splits)
  let ?u = "page_requires_unlock (ti_requester i) (pj_id page) (ti_session i) False now db"
  obtain db1 where u: "?u = (fst ?u, db1)" by (metis prod.collapse)
  have t1: "approval_tables db1 = approval_tables db" and v1: "page_view db1 page = page_view db page"
    using unlock_approval_tables [of "ti_requester i" "pj_id page" "ti_session i" False now db]
      unlock_page_view [of "ti_requester i" "pj_id page" "ti_session i" False now db] u by (metis snd_conv)+
  from tx rq page view u have open_page: "\<not> fst ?u"
    by (auto simp: transition_in_tx_def split: prod.splits)
  with tx rq page view u obtain changed db2 where act: "apply_action env ids i actor expected page rq now db1 = Inr (changed, db2)"
    and rec: "record_transition ids i actor (trim (option_or (ti_comment i) [])) page rq changed now db2 = Inr (updated, db')"
    by (auto simp: transition_in_tx_def split: prod.splits elim!: tx_stepE)
  note A = apply_action_success [OF act]
  then have eff: "apply_effect ids (ti_action i) actor now page rq changed db1 db2" by blast
  obtain hs where hs: "added_history ids (ti_action i) page (o_history db1) hs"
    "approval_tables db2 = (pages_after (ti_action i) actor now page (o_pages db1), o_history db1 @ hs, o_requests db1, o_transitions db1, o_users db1)"
    by (rule apply_effect_tables [OF eff])
  from record_transition_success [OF rec] obtain t where
    up: "updated = changed\<lparr>rq_updated := now, rq_closed := if is_closed (rq_status changed) then Some now else None\<rparr>" and fits: "request_fits updated db2"
    and t: "tr_id t \<notin> tr_id ` set (o_transitions db2)" "tr_request t = rq_id rq" "tr_from t = Some (rq_status rq)" "tr_to t = rq_status changed" "tr_actor t = actor"
      "approval_tables db' = (o_pages db2, o_history db2, sql_update (\<lambda>q. rq_id q = rq_id changed) (\<lambda>_. updated) (o_requests db2), o_transitions db2 @ [t], o_users db2)"
    by blast
  have rev: "if ti_action i = To_resubmit then rq_revision updated = fi_history ids \<and> rq_revision_updated updated = pj_modified page
       else rq_revision updated = rq_revision rq \<and> rq_revision_updated updated = rq_revision_updated rq"
    using eff up by (cases "ti_action i") (simp_all add: apply_effect_def)
  have one: "ti_action i = To_publish \<longrightarrow> sql_count (same_revision page) (o_pages db) = 1"
    using eff t1 by (auto simp: apply_effect_def approval_tables_def)
  note eqs = t1 [unfolded approval_tables_def prod.inject] hs(2) [unfolded approval_tables_def prod.inject]
  show ?thesis
    by (rule that [of rq page actor t hs])
      (use rq page auth view open_page A v1 rev one up fits t hs(1) eqs in \<open>auto simp: request_fits_def approval_tables_def\<close>)
qed

section \<open>The invariant of the store\<close>

text \<open>A log that leads from one status to another, along the life cycle.\<close>

fun trail :: "approval_transition list \<Rightarrow> approval_status option \<Rightarrow> approval_status option \<Rightarrow> bool" where
  "trail [] a b = (a = b)"
| "trail (t # ts) a b = (tr_from t = a \<and> (case a of None \<Rightarrow> tr_to t = Submitted | Some s \<Rightarrow> \<exists>action. approval_edge action s (tr_to t))
     \<and> trail ts (Some (tr_to t)) b)"

lemma trail_append: "trail (ts @ us) a c \<longleftrightarrow> (\<exists>b. trail ts a b \<and> trail us b c)"
  by (induction ts arbitrary: a) auto

definition request_log :: "string \<Rightarrow> 'z approval_db_scheme \<Rightarrow> approval_transition list" where
  "request_log ident db = filter (\<lambda>t. tr_request t = ident) (o_transitions db)"

definition same_text :: "history_row \<Rightarrow> projection_page \<Rightarrow> bool" where
  "same_text h p = (hi_content h = pj_content p \<and> hi_title h = pj_title p \<and> hi_location h = pj_location p)"

text \<open>A request refers to a snapshot of its page; an active one to what the page still says, unless it changed since.\<close>

definition request_sound :: "'z approval_db_scheme \<Rightarrow> approval_request \<Rightarrow> bool" where
  "request_sound db r = ((rq_closed r \<noteq> None) = is_closed (rq_status r) \<and> rq_page r \<in> pj_id ` set (o_pages db)
     \<and> (\<exists>h\<in>set (o_history db). hi_id h = rq_revision r \<and> hi_page h = rq_page r \<and> hi_version_date h = rq_revision_updated r
         \<and> (is_active r \<longrightarrow> (\<forall>p\<in>set (o_pages db). pj_id p = rq_page r \<longrightarrow>
              rq_revision_updated r \<le> pj_modified p \<and> (rq_revision_updated r = pj_modified p \<longrightarrow> same_text h p)))))"

definition approval_inv :: "'z approval_db_scheme \<Rightarrow> bool" where
  "approval_inv db = (unique_key pj_id (o_pages db) \<and> unique_key hi_id (o_history db) \<and> unique_key rq_id (o_requests db)
     \<and> tr_request ` set (o_transitions db) \<subseteq> rq_id ` set (o_requests db)
     \<and> (\<forall>r\<in>set (o_requests db). request_sound db r \<and> trail (request_log (rq_id r) db) None (Some (rq_status r)))
     \<and> (\<forall>r\<in>set (o_requests db). \<forall>q\<in>set (o_requests db). is_active r \<and> is_active q \<and> rq_page r = rq_page q \<longrightarrow> r = q))"

text \<open>What may happen to a page while a request refers to it.\<close>

definition evolves :: "projection_page \<Rightarrow> projection_page \<Rightarrow> bool" where
  "evolves p p' = (pj_modified p < pj_modified p' \<or>
     (pj_modified p' = pj_modified p \<and> pj_content p' = pj_content p \<and> pj_title p' = pj_title p \<and> pj_location p' = pj_location p))"

lemma evolves_refl [simp]: "evolves p p"
  by (simp add: evolves_def)

lemma request_sound_mono:
  assumes sound: "request_sound db r" and history: "set (o_history db) \<subseteq> set (o_history db')"
    and ids: "pj_id ` set (o_pages db) \<subseteq> pj_id ` set (o_pages db')"
    and pages: "\<And>p'. is_active r \<Longrightarrow> p' \<in> set (o_pages db') \<Longrightarrow> pj_id p' = rq_page r \<Longrightarrow> \<exists>p\<in>set (o_pages db). pj_id p = rq_page r \<and> evolves p p'"
  shows "request_sound db' r"
proof -
  from sound obtain h where h: "h \<in> set (o_history db)" "hi_id h = rq_revision r" "hi_page h = rq_page r" "hi_version_date h = rq_revision_updated r"
    and p: "is_active r \<Longrightarrow> p \<in> set (o_pages db) \<Longrightarrow> pj_id p = rq_page r \<Longrightarrow>
       rq_revision_updated r \<le> pj_modified p \<and> (rq_revision_updated r = pj_modified p \<longrightarrow> same_text h p)" for p
    by (auto simp: request_sound_def)
  have "rq_revision_updated r \<le> pj_modified p' \<and> (rq_revision_updated r = pj_modified p' \<longrightarrow> same_text h p')"
    if "is_active r" "p' \<in> set (o_pages db')" "pj_id p' = rq_page r" for p'
  proof -
    from pages [OF that] obtain q where "q \<in> set (o_pages db)" "pj_id q = rq_page r" "evolves q p'" by blast
    with p [OF that(1), of q] show ?thesis by (auto simp: evolves_def same_text_def)
  qed
  with sound h history ids show ?thesis unfolding request_sound_def by blast
qed

lemma approval_invD:
  assumes "approval_inv db"
  shows "unique_key pj_id (o_pages db)" "unique_key hi_id (o_history db)" "unique_key rq_id (o_requests db)"
    "tr_request ` set (o_transitions db) \<subseteq> rq_id ` set (o_requests db)"
    "r \<in> set (o_requests db) \<Longrightarrow> request_sound db r" "r \<in> set (o_requests db) \<Longrightarrow> trail (request_log (rq_id r) db) None (Some (rq_status r))"
    "r \<in> set (o_requests db) \<Longrightarrow> q \<in> set (o_requests db) \<Longrightarrow> is_active r \<Longrightarrow> is_active q \<Longrightarrow> rq_page r = rq_page q \<Longrightarrow> r = q"
  using assms by (auto simp: approval_inv_def)

text \<open>Steps that leave requests and their log alone.\<close>

lemma approval_inv_surroundings:
  assumes inv: "approval_inv db" and same: "o_requests db' = o_requests db" "o_transitions db' = o_transitions db"
    and pages: "unique_key pj_id (o_pages db')" "pj_id ` set (o_pages db) \<subseteq> pj_id ` set (o_pages db')"
    and history: "unique_key hi_id (o_history db')" "set (o_history db) \<subseteq> set (o_history db')"
    and step: "\<And>p'. p' \<in> set (o_pages db') \<Longrightarrow> pj_id p' \<in> pj_id ` set (o_pages db) \<Longrightarrow> \<exists>p\<in>set (o_pages db). pj_id p = pj_id p' \<and> evolves p p'"
  shows "approval_inv db'"
proof -
  have "request_sound db' r" if r: "r \<in> set (o_requests db)" for r
  proof (rule request_sound_mono [OF approval_invD(5) [OF inv r] history(2) pages(2)])
    fix p' assume "p' \<in> set (o_pages db')" "pj_id p' = rq_page r"
    with step [of p'] approval_invD(5) [OF inv r] show "\<exists>p\<in>set (o_pages db). pj_id p = rq_page r \<and> evolves p p'"
      by (auto simp: request_sound_def)
  qed
  with inv same pages(1) history(1) show ?thesis by (simp add: approval_inv_def request_log_def)
qed

lemma submit_inv:
  fixes db db' :: "'z approval_db_scheme"
  assumes inv: "approval_inv db" and res: "submit_page_approval env ids i now db = Inr (rq, db')"
  shows "approval_inv db'"
proof -
  obtain page h t where page: "find_page (si_page i) db = Some page"
    and idle: "\<not> list_ex (\<lambda>q. rq_page q = pj_id page \<and> is_active q) (o_requests db)"
    and h: "snapshot_row (fi_history ids) page ''approval-submitted'' h" "fi_history ids \<notin> hi_id ` set (o_history db)"
    and rq: "rq_page rq = pj_id page" "rq_status rq = Submitted" "rq_revision rq = fi_history ids" "rq_revision_updated rq = pj_modified page"
      "rq_closed rq = None" "rq_id rq \<notin> rq_id ` set (o_requests db)"
    and t: "tr_request t = rq_id rq" "tr_from t = None" "tr_to t = Submitted"
    and tables: "approval_tables db' = (o_pages db, o_history db @ [h], o_requests db @ [rq], o_transitions db @ [t], o_users db)"
    by (rule submit_success [OF res], rule that; assumption)
  note new = tables [unfolded approval_tables_def prod.inject]
  have in_pages: "page \<in> set (o_pages db)" using page by (auto simp: find_page_def dest: sql_first_SomeD)
  have hrow: "hi_id h = fi_history ids" "hi_page h = pj_id page" "hi_version_date h = pj_modified page" "same_text h page"
    using h(1) by (auto simp: snapshot_row_def history_of_def same_text_def)
  have only: "p = page" if "p \<in> set (o_pages db)" "pj_id p = pj_id page" for p
    using unique_keyD [OF approval_invD(1) [OF inv] that(1) in_pages that(2)] .
  have sound_new: "request_sound db' rq"
    using new rq hrow in_pages only by (auto simp: request_sound_def is_closed_def)
  have sound_old: "request_sound db' r" if "r \<in> set (o_requests db)" for r
    by (rule request_sound_mono [OF approval_invD(5) [OF inv that]]) (use new in auto)
  have log_new: "trail (request_log (rq_id rq) db') None (Some (rq_status rq))"
  proof -
    have "request_log (rq_id rq) db = []"
      unfolding request_log_def
    proof (rule filter_False, intro ballI notI)
      fix u assume "u \<in> set (o_transitions db)" "tr_request u = rq_id rq"
      then have "rq_id rq \<in> tr_request ` set (o_transitions db)" by (metis imageI)
      with approval_invD(4) [OF inv] rq(6) show False by blast
    qed
    then have "request_log (rq_id rq) db' = [t]" using new t(1) by (simp add: request_log_def)
    with t rq(2) show ?thesis by simp
  qed
  have log_old: "request_log (rq_id r) db' = request_log (rq_id r) db" if "r \<in> set (o_requests db)" for r
    using that new t(1) rq(6) by (auto simp: request_log_def)
  have lone: "\<not> is_active q" if "q \<in> set (o_requests db)" "rq_page q = rq_page rq" for q
    using idle that rq(1) by (auto simp: list_ex_iff)
  have keys: "unique_key hi_id (o_history db')" "unique_key rq_id (o_requests db')"
    using new unique_key_insert [OF approval_invD(2) [OF inv], of h] unique_key_insert [OF approval_invD(3) [OF inv] rq(6)] h(2) hrow(1)
    by (simp_all add: sql_insert_def)
  show ?thesis
    unfolding approval_inv_def
  proof (intro conjI ballI impI)
    show "unique_key pj_id (o_pages db')" using new approval_invD(1) [OF inv] by simp
    show "tr_request ` set (o_transitions db') \<subseteq> rq_id ` set (o_requests db')" using new t(1) approval_invD(4) [OF inv] by auto
    fix r assume r: "r \<in> set (o_requests db')"
    with new sound_new sound_old show "request_sound db' r" by auto
    from r new log_new log_old approval_invD(6) [OF inv] show "trail (request_log (rq_id r) db') None (Some (rq_status r))" by auto
    fix q assume "q \<in> set (o_requests db')" "is_active r \<and> is_active q \<and> rq_page r = rq_page q"
    with r new lone approval_invD(7) [OF inv] show "r = q" by auto
  qed (use keys in auto)
qed

lemma find_request_SomeD: "find_request ident db = Some r \<Longrightarrow> rq_id r = ident \<and> r \<in> set (o_requests db)"
  by (auto simp: find_request_def dest: sql_first_SomeD)

lemma find_page_SomeD: "find_page ident db = Some p \<Longrightarrow> pj_id p = ident \<and> p \<in> set (o_pages db)"
  by (auto simp: find_page_def dest: sql_first_SomeD)

lemma published_page_fields: "pj_id (published_page actor now p) = pj_id p" "pj_content (published_page actor now p) = pj_content p"
  "pj_title (published_page actor now p) = pj_title p" "pj_location (published_page actor now p) = pj_location p"
  "pj_published (published_page actor now p)" "pj_author (published_page actor now p) = actor"
  by (simp_all add: published_page_def increment_revision_def)

lemma pages_after_fields: "map pj_id (pages_after action actor now page pages) = map pj_id pages"
  by (simp add: pages_after_def map_sql_update published_page_fields)

lemma pages_after_other: "p \<in> set (pages_after action actor now page pages) \<Longrightarrow> pj_id p \<noteq> pj_id page \<or> action \<noteq> To_publish \<Longrightarrow> p \<in> set pages"
  by (auto simp: pages_after_def set_sql_update same_revision_def published_page_fields split: if_splits)

lemma added_history_rows:
  assumes "added_history ids action page old hs"
  shows "unique_key hi_id old \<Longrightarrow> unique_key hi_id (old @ hs)"
    "action = To_resubmit \<Longrightarrow> \<exists>h\<in>set hs. hi_id h = fi_history ids \<and> hi_page h = pj_id page \<and> hi_version_date h = pj_modified page \<and> same_text h page"
  using assms
  by (auto simp: added_history_def snapshot_row_def history_of_def same_text_def unique_key_def image_iff split: if_splits)

lemma edge_active: "approval_edge action a b \<Longrightarrow> is_closed a \<Longrightarrow> is_closed b"
  "approval_edge action a b \<Longrightarrow> is_closed a \<Longrightarrow> b = a"
  "approval_edge To_publish a b \<Longrightarrow> \<not> is_closed a \<and> is_closed b"
  by (cases action; auto simp: is_closed_def)+

lemma moved_request_sound:
  fixes db db' :: "'z approval_db_scheme"
  assumes inv: "approval_inv db" and rq: "rq \<in> set (o_requests db)" and page: "page \<in> set (o_pages db)" "pj_id page = rq_page rq"
    and keep: "rq_page updated = rq_page rq" and edge: "approval_edge action (rq_status rq) (rq_status updated)"
    and closed: "rq_closed updated = (if is_closed (rq_status updated) then Some now else None)"
    and rev: "if action = To_resubmit then rq_revision updated = fi_history ids \<and> rq_revision_updated updated = pj_modified page
       else rq_revision updated = rq_revision rq \<and> rq_revision_updated updated = rq_revision_updated rq"
    and hs: "added_history ids action page (o_history db) hs" "o_history db' = o_history db @ hs"
    and pages: "o_pages db' = pages_after action actor now page (o_pages db)"
  shows "request_sound db' updated"
proof -
  have ids: "pj_id ` set (o_pages db') = pj_id ` set (o_pages db)"
    unfolding pages by (metis pages_after_fields set_map)
  have sound: "request_sound db rq" by (rule approval_invD(5) [OF inv rq])
  show ?thesis
  proof (cases "action = To_resubmit")
    case True
    obtain h where h: "h \<in> set hs" "hi_id h = fi_history ids" "hi_page h = pj_id page" "hi_version_date h = pj_modified page" "same_text h page"
      using added_history_rows(2) [OF hs(1) True] by blast
    have "p = page" if "p \<in> set (o_pages db)" "pj_id p = pj_id page" for p
      using unique_keyD [OF approval_invD(1) [OF inv] that(1) page(1) that(2)] .
    then have "\<forall>p\<in>set (o_pages db). pj_id p = rq_page updated \<longrightarrow> rq_revision_updated updated \<le> pj_modified p
        \<and> (rq_revision_updated updated = pj_modified p \<longrightarrow> same_text h p)"
      using h(5) rev True keep page(2) by (intro ballI impI) (metis order_refl)
    moreover have "o_pages db' = o_pages db" using pages True by (simp add: pages_after_def)
    moreover have "h \<in> set (o_history db')" using h(1) hs(2) by simp
    moreover have "hi_id h = rq_revision updated" "hi_page h = rq_page updated" "hi_version_date h = rq_revision_updated updated"
      using h rev True keep page(2) by simp_all
    moreover have "(rq_closed updated \<noteq> None) = is_closed (rq_status updated)" using closed by simp
    moreover have "rq_page updated \<in> pj_id ` set (o_pages db)" using keep page by (metis imageI)
    ultimately show ?thesis
      unfolding request_sound_def by metis
  next
    case False
    let ?r = "rq\<lparr>rq_status := rq_status updated, rq_closed := rq_closed updated\<rparr>"
    have start: "request_sound db ?r"
      using sound closed edge_active(1) [OF edge] by (auto simp: request_sound_def closed_or_active)
    have "request_sound db' ?r"
    proof (rule request_sound_mono [OF start])
      fix p' assume p': "is_active ?r" "p' \<in> set (o_pages db')" "pj_id p' = rq_page ?r"
      have "p' \<in> set (o_pages db)"
      proof (rule pages_after_other [of p' action actor now page])
        show "p' \<in> set (pages_after action actor now page (o_pages db))" using p'(2) pages by simp
        show "pj_id p' \<noteq> pj_id page \<or> action \<noteq> To_publish"
          using p'(1) edge edge_active(3) by (auto simp: closed_or_active)
      qed
      with p'(3) show "\<exists>p\<in>set (o_pages db). pj_id p = rq_page ?r \<and> evolves p p'" using evolves_refl by blast
    qed (use hs(2) ids in auto)
    then show ?thesis using False rev keep by (simp add: request_sound_def closed_or_active)
  qed
qed

lemma map_sql_replace: "k r = key \<Longrightarrow> map k (sql_update (\<lambda>q. k q = key) (\<lambda>_. r) rows) = map k rows"
  by (simp add: sql_update_def)

lemma transition_inv:
  fixes db db' :: "'z approval_db_scheme"
  assumes inv: "approval_inv db" and res: "transition_approval env ids i now db = Inr (updated, db')"
  shows "approval_inv db'"
proof -
  obtain rq page actor t hs where find: "find_request (ti_request i) db = Some rq" "find_page (rq_page rq) db = Some page"
    and keep: "rq_id updated = rq_id rq" "rq_page updated = rq_page rq"
    and edge: "approval_edge (ti_action i) (rq_status rq) (rq_status updated)"
    and closed: "rq_closed updated = (if is_closed (rq_status updated) then Some now else None)"
    and rev: "if ti_action i = To_resubmit then rq_revision updated = fi_history ids \<and> rq_revision_updated updated = pj_modified page
       else rq_revision updated = rq_revision rq \<and> rq_revision_updated updated = rq_revision_updated rq"
    and lone: "is_active updated \<longrightarrow> \<not> list_ex (\<lambda>q. rq_id q \<noteq> rq_id rq \<and> rq_page q = rq_page rq \<and> is_active q) (o_requests db)"
    and t: "tr_request t = rq_id rq" "tr_from t = Some (rq_status rq)" "tr_to t = rq_status updated"
    and hs: "added_history ids (ti_action i) page (o_history db) hs"
    and tables: "approval_tables db' = (pages_after (ti_action i) actor now page (o_pages db), o_history db @ hs,
       sql_update (\<lambda>q. rq_id q = rq_id rq) (\<lambda>_. updated) (o_requests db), o_transitions db @ [t], o_users db)"
    by (rule transition_success [OF res], rule that; assumption)
  note new = tables [unfolded approval_tables_def prod.inject]
  have rq: "rq \<in> set (o_requests db)" and page: "page \<in> set (o_pages db)" "pj_id page = rq_page rq"
    using find by (auto dest: find_request_SomeD find_page_SomeD)
  have rows: "r = updated \<or> (r \<in> set (o_requests db) \<and> rq_id r \<noteq> rq_id rq)" if "r \<in> set (o_requests db')" for r
    using that new by (auto simp: set_sql_update split: if_splits)
  have sound_new: "request_sound db' updated"
    using moved_request_sound [OF inv rq page keep(2) edge closed rev hs] new by blast
  have sound_old: "request_sound db' r" if r: "r \<in> set (o_requests db)" "rq_id r \<noteq> rq_id rq" for r
  proof (rule request_sound_mono [OF approval_invD(5) [OF inv r(1)]])
    fix p' assume p': "is_active r" "p' \<in> set (o_pages db')" "pj_id p' = rq_page r"
    have "p' \<in> set (o_pages db)"
    proof (rule pages_after_other [of p' "ti_action i" actor now page])
      show "p' \<in> set (pages_after (ti_action i) actor now page (o_pages db))" using p'(2) new by simp
      show "pj_id p' \<noteq> pj_id page \<or> ti_action i \<noteq> To_publish"
      proof (rule ccontr)
        assume "\<not> ?thesis"
        then have "rq_page r = rq_page rq" "is_active rq" using p'(3) page(2) edge edge_active(3) by (auto simp: closed_or_active)
        with approval_invD(7) [OF inv r(1) rq p'(1)] r(2) show False by simp
      qed
    qed
    with p'(3) show "\<exists>p\<in>set (o_pages db). pj_id p = rq_page r \<and> evolves p p'" using evolves_refl by blast
  qed (use new in \<open>auto simp: pages_after_fields simp flip: set_map\<close>)
  have log_new: "trail (request_log (rq_id updated) db') None (Some (rq_status updated))"
  proof -
    have "request_log (rq_id updated) db' = request_log (rq_id rq) db @ [t]" using new t(1) keep(1) by (simp add: request_log_def)
    with approval_invD(6) [OF inv rq] t edge show ?thesis by (auto simp: trail_append)
  qed
  have log_old: "request_log (rq_id r) db' = request_log (rq_id r) db" if "rq_id r \<noteq> rq_id rq" for r
    using that new t(1) by (simp add: request_log_def)
  have lone': "r = updated" if "r \<in> set (o_requests db')" "is_active r" "is_active updated" "rq_page r = rq_page updated" for r
    using rows [OF that(1)] lone that keep by (auto simp: list_ex_iff)
  have ids: "map rq_id (o_requests db') = map rq_id (o_requests db)" using new map_sql_replace [of rq_id updated, OF keep(1)] by simp
  then have image: "rq_id ` set (o_requests db') = rq_id ` set (o_requests db)" by (metis set_map)
  show ?thesis
    unfolding approval_inv_def
  proof (intro conjI ballI impI)
    show "unique_key pj_id (o_pages db')" using new approval_invD(1) [OF inv] by (simp add: unique_key_def pages_after_fields)
    show "unique_key hi_id (o_history db')" using new added_history_rows(1) [OF hs approval_invD(2) [OF inv]] by simp
    show "unique_key rq_id (o_requests db')"
      using ids approval_invD(3) [OF inv] by (simp add: unique_key_def)
    show "tr_request ` set (o_transitions db') \<subseteq> rq_id ` set (o_requests db')"
      unfolding image using new t(1) approval_invD(4) [OF inv] rq by auto
    fix r assume r: "r \<in> set (o_requests db')"
    with rows sound_new sound_old show "request_sound db' r" by blast
    from rows [OF r] log_new log_old approval_invD(6) [OF inv] show "trail (request_log (rq_id r) db') None (Some (rq_status r))" by metis
    fix q assume q: "q \<in> set (o_requests db')" "is_active r \<and> is_active q \<and> rq_page r = rq_page q"
    show "r = q"
      using rows [OF r] rows [OF q(1)] lone' [OF r] lone' [OF q(1)] approval_invD(7) [OF inv, of r q] q by metis
  qed
qed

section \<open>Steps and reachable states\<close>

text \<open>
  The operations on requests interleave with other operations of the server: a page edit stamps the
  page anew (\<^verbatim>\<open>$beforeUpdate\<close>; a later millisecond than its last one), other page writes leave
  text and stamp alone, pages are created, versions are added to the history, and operations
  elsewhere leave pages, history and approval tables as they are. What removes a
  row that requests refer to takes the requests along and is not a step here: the deletion of a
  page or of a submitter's account, and the purge of old page versions
  (\<^verbatim>\<open>onDelete('CASCADE')\<close> in \<^verbatim>\<open>db/migrations/2.5.133.ts\<close>).
\<close>

inductive approval_step :: "protection_env \<Rightarrow> approval_db \<Rightarrow> approval_db \<Rightarrow> bool" for env where
  Submission: "submit_page_approval env ids i now db = Inr (rq, db') \<Longrightarrow> approval_step env db db'"
| Transition: "transition_approval env ids i now db = Inr (rq, db') \<Longrightarrow> approval_step env db db'"
| Page_write: "p \<in> set (o_pages db) \<Longrightarrow> pj_id p' = pj_id p \<Longrightarrow> evolves p p' \<Longrightarrow>
    approval_step env db (db\<lparr>o_pages := sql_update (\<lambda>q. pj_id q = pj_id p) (\<lambda>_. p') (o_pages db)\<rparr>)"
| Page_creation: "pj_id p \<notin> pj_id ` set (o_pages db) \<Longrightarrow> approval_step env db (db\<lparr>o_pages := sql_insert p (o_pages db)\<rparr>)"
| New_version: "hi_id h \<notin> hi_id ` set (o_history db) \<Longrightarrow> approval_step env db (db\<lparr>o_history := sql_insert h (o_history db)\<rparr>)"
| Elsewhere: "o_pages db' = o_pages db \<Longrightarrow> o_history db' = o_history db \<Longrightarrow> o_requests db' = o_requests db \<Longrightarrow>
    o_transitions db' = o_transitions db \<Longrightarrow> approval_step env db db'"

inductive approval_reachable :: "protection_env \<Rightarrow> approval_db \<Rightarrow> bool" for env where
  Start: "o_requests db = [] \<Longrightarrow> o_transitions db = [] \<Longrightarrow> unique_key pj_id (o_pages db) \<Longrightarrow> unique_key hi_id (o_history db) \<Longrightarrow>
    approval_reachable env db"
| Step: "approval_reachable env db \<Longrightarrow> approval_step env db db' \<Longrightarrow> approval_reachable env db'"

lemma approval_step_inv:
  assumes "approval_step env db db'" and inv: "approval_inv db"
  shows "approval_inv db'"
  using assms(1)
proof cases
  case (Page_write p p')
  have ids: "map pj_id (o_pages db') = map pj_id (o_pages db)" using Page_write map_sql_replace [of pj_id p'] by simp
  show ?thesis
  proof (rule approval_inv_surroundings [OF inv])
    show "unique_key pj_id (o_pages db')" using ids approval_invD(1) [OF inv] by (simp add: unique_key_def)
    show "pj_id ` set (o_pages db) \<subseteq> pj_id ` set (o_pages db')" using ids by (metis order_refl set_map)
    fix q' assume "q' \<in> set (o_pages db')"
    with Page_write show "\<exists>q\<in>set (o_pages db). pj_id q = pj_id q' \<and> evolves q q'"
      by (auto simp: set_sql_update split: if_splits intro: bexI [of _ p])
  qed (use Page_write approval_invD(2) [OF inv] in auto)
next
  case (Page_creation p)
  show ?thesis
    by (rule approval_inv_surroundings [OF inv])
      (use Page_creation approval_invD(1,2) [OF inv] in \<open>auto intro: unique_key_insert evolves_refl\<close>)
next
  case (New_version h)
  show ?thesis
    by (rule approval_inv_surroundings [OF inv])
      (use New_version approval_invD(1,2) [OF inv] in \<open>auto intro: unique_key_insert evolves_refl\<close>)
next
  case Elsewhere
  show ?thesis
    by (rule approval_inv_surroundings [OF inv]) (use Elsewhere approval_invD(1,2) [OF inv] in \<open>auto intro: evolves_refl\<close>)
qed (use inv in \<open>auto intro: submit_inv transition_inv\<close>)

lemma approval_reachable_inv: "approval_reachable env db \<Longrightarrow> approval_inv db"
proof (induction rule: approval_reachable.induct)
  case (Start db)
  then show ?case by (simp add: approval_inv_def unique_key_def)
next
  case (Step db db')
  then show ?case by (blast intro: approval_step_inv)
qed

section \<open>The life cycle of a request\<close>

definition may_become :: "approval_status \<Rightarrow> approval_status \<Rightarrow> bool" where
  "may_become a b = (\<exists>action. approval_edge action a b)"

definition request_kept :: "approval_request \<Rightarrow> approval_request \<Rightarrow> bool" where
  "request_kept r r' = (rq_id r' = rq_id r \<and> rq_page r' = rq_page r \<and> rq_submitter r' = rq_submitter r \<and> rq_created r' = rq_created r
     \<and> may_become\<^sup>*\<^sup>* (rq_status r) (rq_status r')
     \<and> (is_closed (rq_status r) \<longrightarrow> rq_status r' = rq_status r \<and> rq_revision r' = rq_revision r))"

lemma request_kept_refl: "request_kept r r"
  by (simp add: request_kept_def)

lemma request_kept_trans: "request_kept r s \<Longrightarrow> request_kept s t \<Longrightarrow> request_kept r t"
  by (auto simp: request_kept_def)

lemma approval_step_keeps:
  assumes "approval_step env db db'" and inv: "approval_inv db" and r: "r \<in> set (o_requests db)"
  shows "\<exists>r'\<in>set (o_requests db'). request_kept r r'"
  using assms(1)
proof cases
  case (Submission ids i now rq)
  have "set (o_requests db) \<subseteq> set (o_requests db')"
    by (rule submit_success [OF Submission]) (auto simp: approval_tables_def)
  with r request_kept_refl show ?thesis by blast
next
  case (Transition ids i now updated)
  obtain rq page actor hs t where find: "find_request (ti_request i) db = Some rq"
    and keep: "rq_id updated = rq_id rq" "rq_page updated = rq_page rq" "rq_submitter updated = rq_submitter rq" "rq_created updated = rq_created rq"
    and edge: "approval_edge (ti_action i) (rq_status rq) (rq_status updated)"
    and rev: "if ti_action i = To_resubmit then rq_revision updated = fi_history ids \<and> rq_revision_updated updated = pj_modified page
       else rq_revision updated = rq_revision rq \<and> rq_revision_updated updated = rq_revision_updated rq"
    and tables: "approval_tables db' = (pages_after (ti_action i) actor now page (o_pages db), o_history db @ hs,
       sql_update (\<lambda>q. rq_id q = rq_id rq) (\<lambda>_. updated) (o_requests db), o_transitions db @ [t], o_users db)"
    by (rule transition_success [OF Transition], rule that; assumption)
  have rows: "o_requests db' = sql_update (\<lambda>q. rq_id q = rq_id rq) (\<lambda>_. updated) (o_requests db)"
    using tables by (simp add: approval_tables_def)
  show ?thesis
  proof (cases "rq_id r = rq_id rq")
    case True
    with find_request_SomeD [OF find] r have "r = rq" using unique_keyD [OF approval_invD(3) [OF inv]] by blast
    moreover have "may_become\<^sup>*\<^sup>* (rq_status rq) (rq_status updated)" unfolding may_become_def using edge by blast
    moreover have "ti_action i \<noteq> To_resubmit" if "is_closed (rq_status rq)" using edge that by (auto simp: is_closed_def)
    ultimately have "request_kept rq updated" "r = rq"
      using keep rev edge_active(2) [OF edge] by (auto simp: request_kept_def)
    moreover have "updated \<in> set (o_requests db')" using rows find_request_SomeD [OF find] by (auto simp: set_sql_update)
    ultimately show ?thesis by blast
  next
    case False
    with rows r have "r \<in> set (o_requests db')" by (auto simp: set_sql_update)
    with request_kept_refl show ?thesis by blast
  qed
qed (use r request_kept_refl in auto)

text \<open>C19. No step loses or reopens an approval request. Through any interleaving of submissions,
  reviews, publications, page edits and the other steps above a request stays in the table and keeps its page, submitter and
  creation time, its status only moves along the life cycle, and once it is published, rejected or
  cancelled its status and the revision it refers to stay as they are.
\<close>

theorem approval_life_cycle:
  assumes "approval_reachable env db" and steps: "(approval_step env)\<^sup>*\<^sup>* db db'" and "r \<in> set (o_requests db)"
  shows "\<exists>r'\<in>set (o_requests db'). rq_id r' = rq_id r \<and> rq_page r' = rq_page r \<and> rq_submitter r' = rq_submitter r \<and> rq_created r' = rq_created r
    \<and> may_become\<^sup>*\<^sup>* (rq_status r) (rq_status r')
    \<and> (is_closed (rq_status r) \<longrightarrow> rq_status r' = rq_status r \<and> rq_revision r' = rq_revision r)"
proof -
  have "approval_inv db' \<and> (\<exists>r'\<in>set (o_requests db'). request_kept r r')"
    using steps
  proof (induction rule: rtranclp_induct)
    case base
    then show ?case using assms(1,3) approval_reachable_inv request_kept_refl by blast
  next
    case (step db1 db2)
    then show ?case using approval_step_inv approval_step_keeps request_kept_trans by blast
  qed
  then show ?thesis by (auto simp: request_kept_def)
qed

section \<open>Publication and the audit trail\<close>

lemma trail_reaches: "trail ts a (Some s) \<Longrightarrow> a \<noteq> Some s \<Longrightarrow> \<exists>t\<in>set ts. tr_to t = s"
proof (induction ts arbitrary: a)
  case (Cons t ts)
  then show ?case by (cases "tr_to t = s") auto
qed simp

text \<open>C18. What is published is what was submitted. In every reachable state a publication succeeds only
  for an approved request; the page is then visible to readers with the text, the title and the
  place that the history recorded when the request was submitted, whatever edits and other
  operations happened in between, and the log names the approval.
\<close>

theorem publication_shows_submission:
  assumes reach: "approval_reachable env db" and res: "transition_approval env ids i now db = Inr (updated, db')"
    and publish: "ti_action i = To_publish"
  shows "\<exists>rq h p. find_request (ti_request i) db = Some rq \<and> rq_status rq = Approved \<and> (\<exists>t\<in>set (request_log (rq_id rq) db). tr_to t = Approved)
    \<and> h \<in> set (o_history db) \<and> hi_id h = rq_revision rq \<and> hi_page h = rq_page rq
    \<and> p \<in> set (o_pages db') \<and> pj_id p = rq_page rq \<and> pj_published p \<and> same_text h p"
proof -
  have inv: "approval_inv db" by (rule approval_reachable_inv [OF reach])
  obtain rq page actor hs t where find: "find_request (ti_request i) db = Some rq" "find_page (rq_page rq) db = Some page"
    and edge: "approval_edge (ti_action i) (rq_status rq) (rq_status updated)"
    and fresh: "ti_action i \<in> {To_approve, To_publish} \<longrightarrow> rq_revision_updated rq = pj_modified page"
    and tables: "approval_tables db' = (pages_after (ti_action i) actor now page (o_pages db), o_history db @ hs,
       sql_update (\<lambda>q. rq_id q = rq_id rq) (\<lambda>_. updated) (o_requests db), o_transitions db @ [t], o_users db)"
    by (rule transition_success [OF res], rule that; assumption)
  have rq: "rq \<in> set (o_requests db)" "rq_status rq = Approved" and page: "page \<in> set (o_pages db)" "pj_id page = rq_page rq"
    using find edge publish by (auto dest: find_request_SomeD find_page_SomeD)
  then have "is_active rq" by (simp add: is_active_def active_statuses_def)
  with approval_invD(5) [OF inv rq(1)] page fresh publish obtain h where h: "h \<in> set (o_history db)" "hi_id h = rq_revision rq" "hi_page h = rq_page rq" "same_text h page"
    by (auto simp: request_sound_def)
  let ?p = "published_page actor now page"
  have "?p \<in> set (o_pages db')"
    using tables publish page by (auto simp: approval_tables_def pages_after_def set_sql_update same_revision_def)
  moreover have "same_text h ?p" using h(4) by (simp add: same_text_def published_page_fields)
  moreover have "\<exists>t\<in>set (request_log (rq_id rq) db). tr_to t = Approved"
    using trail_reaches [OF approval_invD(6) [OF inv rq(1)]] rq(2) by simp
  ultimately show ?thesis using find(1) rq(2) h page(2) published_page_fields by metis
qed

text \<open>The approval tables stay consistent. In every reachable state no page has two open requests, a
  request has a closing time exactly when it is closed, and its log is a chain of allowed moves
  from its submission to its present status.
\<close>

theorem approval_store_invariant:
  assumes "approval_reachable env db" and "r \<in> set (o_requests db)"
  shows "trail (request_log (rq_id r) db) None (Some (rq_status r)) \<and> (rq_closed r \<noteq> None) = is_closed (rq_status r)
    \<and> (\<forall>q\<in>set (o_requests db). is_active r \<and> is_active q \<and> rq_page q = rq_page r \<longrightarrow> q = r)"
proof (intro conjI ballI impI)
  note inv = approval_reachable_inv [OF assms(1)]
  show "trail (request_log (rq_id r) db) None (Some (rq_status r))" by (rule approval_invD(6) [OF inv assms(2)])
  show "(rq_closed r \<noteq> None) = is_closed (rq_status r)" using approval_invD(5) [OF inv assms(2)] unfolding request_sound_def by blast
  fix q assume "q \<in> set (o_requests db)" "is_active r \<and> is_active q \<and> rq_page q = rq_page r"
  then show "q = r" using approval_invD(7) [OF inv _ assms(2)] by metis
qed

section \<open>Who may do what\<close>

text \<open>C20. Every move of a request needs its authority. A transition that succeeds was made by a signed-in
  user who may read the page, whose session is not locked out of it, and who either reviews pages
  there and is not passed over by another assignee (approve, request changes, reject, publish,
  reassign), or submitted the request or manages the system (cancel, resubmit), or manages the
  system and reassigns.
\<close>

theorem approval_needs_authority:
  assumes "transition_approval env ids i now db = Inr (updated, db')"
  shows "\<exists>rq page actor. find_request (ti_request i) db = Some rq \<and> find_page (rq_page rq) db = Some page
    \<and> authenticated_id (ti_requester i) = Inr actor
    \<and> can_read_page (pe_regex env) (ti_requester i) (page_view db page) (ti_authority i)
    \<and> \<not> fst (page_requires_unlock (ti_requester i) (pj_id page) (ti_session i) False now db)
    \<and> (manages_system (ti_requester i)
       \<or> (if ti_action i \<in> {To_cancel, To_resubmit} then rq_submitter rq = actor
          else reviewer_eligible (pe_regex env) (ti_requester i) (page_view db page) (ti_authority i) \<and> rq_assignee rq \<in> {None, Some actor}))"
proof -
  obtain rq page actor where facts: "find_request (ti_request i) db = Some rq" "find_page (rq_page rq) db = Some page"
    "authenticated_id (ti_requester i) = Inr actor" "\<not> fst (page_requires_unlock (ti_requester i) (pj_id page) (ti_session i) False now db)"
    and view: "can_view_request (pe_regex env) (ti_requester i) rq (page_view db page) (ti_authority i)"
    and role: "action_authority env i actor (page_view db page) rq"
    by (rule transition_success [OF assms], rule that; assumption)
  from role have "manages_system (ti_requester i)
       \<or> (if ti_action i \<in> {To_cancel, To_resubmit} then rq_submitter rq = actor
          else reviewer_eligible (pe_regex env) (ti_requester i) (page_view db page) (ti_authority i) \<and> rq_assignee rq \<in> {None, Some actor})"
    by (cases "ti_action i") (simp_all add: action_authority_def, blast+)
  with facts view show ?thesis unfolding can_view_request_def by metis
qed

text \<open>C21. A request that a user may not see looks as if it did not exist: any action on it is refused with
  the very error the same call gets when the request is not in the table.
\<close>

theorem hidden_request_like_missing:
  assumes rq: "find_request (ti_request i) db = Some rq" and page: "find_page (rq_page rq) db = Some page"
    and hidden: "\<not> can_view_request (pe_regex env) (ti_requester i) rq (page_view db page) (ti_authority i)"
  shows "\<exists>e. transition_approval env ids i now db = Inl e
    \<and> transition_approval env ids i now (db\<lparr>o_requests := sql_delete (\<lambda>r. rq_id r = ti_request i) (o_requests db)\<rparr>) = Inl e"
proof -
  have "find_request (ti_request i) (db\<lparr>o_requests := sql_delete (\<lambda>r. rq_id r = ti_request i) (o_requests db)\<rparr>) = None"
    by (auto simp: find_request_def sql_first_None)
  then show ?thesis
    using rq page hidden by (cases "authenticated_id (ti_requester i)"; cases "required_source_revision (ti_expected i)")
      (auto simp: transition_approval_def Let_def transition_in_tx_def)
qed

end
