(* ===== verification/ApprovalExample.thy ===== *)
theory ApprovalExample
  imports ApprovalLaws
begin

text \<open>
  A concrete run of approvals: a system manager submits a page, approves it and publishes it. The
  properties of \<^verbatim>\<open>ApprovalLaws\<close> are applied to its states.
\<close>

definition ap_admin :: principal where
  "ap_admin = \<lparr>pr_ref = 1, pr_value = JObj [(''id'', JNum (Whole 6)), (''name'', JStr ''Ada''), (''permissions'', JArr [JStr ''manage:system''])],
     pr_global = None\<rparr>"

definition ap_page :: projection_page where
  "ap_page = lock_page\<lparr>pj_published := False\<rparr>"

definition ap_db :: approval_db where
  "ap_db = \<lparr>o_effects = [], o_pages = [ap_page], o_links = [], o_vectors = [], o_words = [], o_passwords = [],
     o_grants = [], o_assets = [], o_asset_ids = [], o_tags = [], o_history = [], o_requests = [], o_transitions = [], o_events = [],
     o_users = [(6, Some ''Ada'')]\<rparr>"

definition ap_fresh :: "effect_kind \<Rightarrow> string" where
  "ap_fresh k = ''effect-'' @ kind_text k"

lemma ap_fresh_eq: "ap_fresh k = ap_fresh j \<longleftrightarrow> k = j"
  by (cases k; cases j) (simp_all add: ap_fresh_def kind_text_def)

definition ap_ids :: "nat \<Rightarrow> approval_ids" where
  "ap_ids n = \<lparr>fi_request = ''request'', fi_transition = ''move-'' @ replicate n (CHR ''1''), fi_event = ''event-'' @ replicate n (CHR ''1''),
     fi_page_event = ''page-event'', fi_history = int n, fi_effects = ap_fresh\<rparr>"

definition ap_submit :: submit_input where
  "ap_submit = \<lparr>si_requester = Some ap_admin, si_authority = lock_authority, si_page = 7, si_session = ''s'', si_expected = JStr ''1'',
     si_assignee = None, si_comment = None\<rparr>"

definition ap_move :: "approval_action \<Rightarrow> approval_input" where
  "ap_move action = \<lparr>ti_requester = Some ap_admin, ti_authority = lock_authority, ti_request = ''request'', ti_action = action,
     ti_session = ''s'', ti_expected = JUndefined, ti_comment = None, ti_assignee = None\<rparr>"

definition ap_request :: approval_request where
  "ap_request = \<lparr>rq_id = ''request'', rq_page = 7, rq_submitter = 6, rq_assignee = None, rq_status = Submitted, rq_revision = 1,
     rq_revision_updated = 2, rq_created = 3, rq_updated = 3, rq_closed = None\<rparr>"

lemma ap_admin_facts: "manages_system (Some ap_admin)" "principal_id (Some ap_admin) = Some 6" "authenticated_id (Some ap_admin) = Inr 6"
  "authority_matches_requester (Some ap_admin) lock_authority"
  by (simp_all add: manages_system_def check_access_def get_permissions_def ap_admin_def principal_id_def authenticated_id_def safe_int_def
      max_safe_def authority_matches_requester_def requester_ref_def lock_authority_def)

lemma ap_page_fields: "pj_id ap_page = 7" "pj_revision ap_page = ''1''" "pj_modified ap_page = 2" "pj_author ap_page = 5" "pj_reason ap_page = None"
  "pj_content ap_page = ''text''" "pj_published ap_page = False" "pj_title ap_page = ''Home''"
  "pj_location ap_page = \<lparr>lo_locale = ''en'', lo_path = ''home'', lo_visibility = Private, lo_owner = Some 5\<rparr>"
  by (simp_all add: ap_page_def lock_page_def)

lemma ap_access:
  fixes db :: "'z page_db_scheme"
  assumes "lo_visibility (pj_location p) = Private"
  shows "can_read_page regex (Some ap_admin) (page_view db p) lock_authority" "can_write_page regex (Some ap_admin) (page_view db p) lock_authority"
  using assms ap_admin_facts by (simp_all add: can_read_page_def can_write_page_def page_gate_def page_view_def visibility_text_def)

lemmas ap_tables = find_page_def find_request_def table_simps sql_insert_def protection_of_def is_user_def

lemmas ap_inserts = snapshot_revision_def insert_request_def insert_transition_def request_fits_def write_request_def

lemma ap_event: "ident \<notin> ev_id ` set (o_events db) \<Longrightarrow> rq_id rq = ''request'' \<Longrightarrow> type \<in> {''approval.submitted'', ''approval.approve'', ''approval.publish''} \<Longrightarrow>
  \<exists>db'. approval_event ident rq type actor page comment now db = Inr (ident, db')
    \<and> approval_tables db' = approval_tables db \<and> proj_db.truncate db' = proj_db.truncate db \<and> o_tags db' = o_tags db
    \<and> map ev_id (o_events db') = map ev_id (o_events db) @ [ident]"
  by (auto simp: approval_event_def write_outbox_event_def valid_event_type_def lower_letter_def event_word_def is_digit_def safe_int_def max_safe_def
      approval_tables_def proj_db.truncate_def sql_insert_def)

lemma ap_submitted: "\<exists>db1. submit_page_approval lock_env (ap_ids 1) ap_submit 3 ap_db = Inr (ap_request, db1)
    \<and> approval_tables db1 = ([ap_page], [history_of 1 ap_page ''approval-submitted'' []], [ap_request],
        [\<lparr>tr_id = ''move-1'', tr_request = ''request'', tr_from = None, tr_to = Submitted, tr_actor = 6, tr_revision = 1, tr_comment = None, tr_created = 3\<rparr>],
        [(6, Some ''Ada'')]) \<and> map ev_id (o_events db1) = [''event-1''] \<and> o_effects db1 = [] \<and> o_passwords db1 = [] \<and> o_tags db1 = []"
proof -
  have "find_page 7 ap_db = Some ap_page" by (simp add: ap_db_def ap_tables ap_page_fields)
  moreover have "page_requires_unlock (Some ap_admin) 7 ''s'' False 3 ap_db = (False, ap_db)" by (simp add: page_requires_unlock_def ap_admin_facts)
  moreover have "can_write_page regex (Some ap_admin) (page_view ap_db ap_page) lock_authority" for regex by (simp add: ap_access ap_page_fields)
  ultimately have "submit_page_approval lock_env (ap_ids 1) ap_submit 3 ap_db = open_request (ap_ids 1) ap_submit 6 None ap_page 3 ap_db"
    by (simp add: submit_page_approval_def ap_submit_def ap_admin_facts required_source_revision_def positive_decimal_def is_digit_def assignee_of_def
      submit_in_tx_def ap_page_fields ap_db_def)
  moreover obtain db0 where db0: "db0 = ap_db\<lparr>o_history := [history_of 1 ap_page ''approval-submitted'' []], o_requests := [ap_request],
     o_transitions := [\<lparr>tr_id = ''move-1'', tr_request = ''request'', tr_from = None, tr_to = Submitted, tr_actor = 6, tr_revision = 1, tr_comment = None, tr_created = 3\<rparr>]\<rparr>"
    by blast
  have e0: "o_events db0 = []" "rq_id ap_request = ''request''" by (simp_all add: db0 ap_db_def ap_request_def)
  obtain db1 where db1: "approval_event ''event-1'' ap_request ''approval.submitted'' 6 ap_page None 3 db0 = Inr (''event-1'', db1)"
      "approval_tables db1 = approval_tables db0" "proj_db.truncate db1 = proj_db.truncate db0" "o_tags db1 = o_tags db0" "map ev_id (o_events db1) = [''event-1'']"
    using ap_event [of "''event-1''" db0 ap_request "''approval.submitted''" 6 ap_page None 3] e0 by auto
  have "open_request (ap_ids 1) ap_submit 6 None ap_page 3 ap_db = Inr (ap_request, db1)"
    using db1(1) by (simp add: open_request_def ap_inserts ap_db_def ap_ids_def ap_submit_def ap_page_fields sql_insert_def is_user_def comment_or_null_def trim_def
      ap_request_def db0 history_of_def Let_def)
  moreover have "o_effects db1 = [] \<and> o_passwords db1 = []" using db1(3) by (simp add: db0 ap_db_def proj_db.truncate_def)
  ultimately show ?thesis using db1 by (auto simp: approval_tables_def db0 ap_db_def)
qed

lemma ap_recorded:
  assumes i: "ti_action i \<in> {To_approve, To_publish}" "ti_requester i = Some ap_admin" and rq: "rq_id rq = ''request''" "rq_id changed = ''request''"
    and t: "approval_tables db = (ps, hs, [q], ts, [(6, Some ''Ada'')])" "rq_id q = ''request''" "rq_assignee changed = None" "rq_submitter changed = 6"
      "rq_revision changed \<in> hi_id ` set hs" "fi_transition ids \<notin> tr_id ` set ts" "fi_event ids \<notin> ev_id ` set (o_events db)"
    and page: "ti_action i = To_publish \<Longrightarrow> pj_id page = 7 \<and> fi_page_event ids \<notin> ev_id ` set (o_events db) \<and> fi_page_event ids \<noteq> fi_event ids"
  shows "\<exists>updated db'. record_transition ids i 6 comment page rq changed now db = Inr (updated, db')
    \<and> updated = changed\<lparr>rq_updated := now, rq_closed := if is_closed (rq_status changed) then Some now else None\<rparr>
    \<and> o_passwords db' = o_passwords db \<and> o_effects db' = o_effects db \<and> o_tags db' = o_tags db
    \<and> (ti_action i = To_approve \<longrightarrow> map ev_id (o_events db') = map ev_id (o_events db) @ [fi_event ids]
       \<and> approval_tables db' = (ps, hs, [updated], ts @ [\<lparr>tr_id = fi_transition ids, tr_request = rq_id rq, tr_from = Some (rq_status rq),
           tr_to = rq_status changed, tr_actor = 6, tr_revision = rq_revision changed, tr_comment = comment_or_null comment, tr_created = now\<rparr>], [(6, Some ''Ada'')]))"
proof -
  define updated where "updated = changed\<lparr>rq_updated := now, rq_closed := if is_closed (rq_status changed) then Some now else None\<rparr>"
  define move where "move = \<lparr>tr_id = fi_transition ids, tr_request = rq_id rq, tr_from = Some (rq_status rq),
           tr_to = rq_status changed, tr_actor = 6, tr_revision = rq_revision changed, tr_comment = comment_or_null comment, tr_created = now\<rparr>"
  note tabs = t(1) [unfolded approval_tables_def prod.inject]
  have u: "rq_id updated = ''request''" "rq_assignee updated = None" "rq_submitter updated = 6" "rq_revision updated = rq_revision changed"
    using rq t by (simp_all add: updated_def)
  have w: "write_request updated db = Inr ((), db\<lparr>o_requests := [updated]\<rparr>)"
    using tabs u t(2,5) by (simp add: write_request_def request_fits_def is_user_def table_simps)
  have m: "insert_transition move (db\<lparr>o_requests := [updated]\<rparr>) = Inr ((), db\<lparr>o_requests := [updated], o_transitions := ts @ [move]\<rparr>)"
    using tabs t(5,6) u rq(1) by (simp add: insert_transition_def is_user_def move_def sql_insert_def)
  let ?db2 = "db\<lparr>o_requests := [updated], o_transitions := ts @ [move]\<rparr>"
  obtain db3 where e: "approval_event (fi_event ids) updated (action_event (ti_action i)) 6 page (Some comment) now ?db2 = Inr (fi_event ids, db3)"
    "approval_tables db3 = approval_tables ?db2" "proj_db.truncate db3 = proj_db.truncate ?db2" "o_tags db3 = o_tags ?db2"
    "map ev_id (o_events db3) = map ev_id (o_events ?db2) @ [fi_event ids]"
    using ap_event [of "fi_event ids" ?db2 updated "action_event (ti_action i)" 6 page "Some comment" now] t(7) u(1) i by auto
  have same: "o_passwords db3 = o_passwords db" "o_effects db3 = o_effects db" "o_tags db3 = o_tags db" using e(3,4) by (simp_all add: proj_db.truncate_def)
  have ids3: "ev_id ` set (o_events db3) = insert (fi_event ids) (ev_id ` set (o_events db))"
    using arg_cong [OF e(5), of set] by simp
  show ?thesis
  proof (cases "ti_action i = To_publish")
    case True
    have "\<exists>db4. page_updated_event ids i 6 (load_page_tags (pj_id page) db) page now db3 = Inr (fi_page_event ids, db4)
        \<and> o_passwords db4 = o_passwords db3 \<and> o_effects db4 = o_effects db3 \<and> o_tags db4 = o_tags db3"
      using page [OF True] ids3 by (simp add: page_updated_event_def write_outbox_event_def valid_event_type_def lower_letter_def event_word_def is_digit_def
        safe_int_def max_safe_def)
    with w m e same True show ?thesis
      by (auto simp: record_transition_def Let_def updated_def [symmetric] move_def [symmetric])
  next
    case False
    with w m e same tabs i(1) show ?thesis
      by (auto simp: record_transition_def Let_def updated_def [symmetric] move_def [symmetric] approval_tables_def)
  qed
qed

lemma ap_enqueue_one:
  assumes p: "pp_page p = 7" "pp_revision p = ''2''" "pp_source_sha p = Some (replicate 64 CHR ''0'')" "pp_location p = Some (pj_location ap_page)"
      "pp_previous p = None"
    and new: "\<forall>e\<in>set (o_effects db). ef_kind e \<noteq> pp_kind p" "ident \<notin> ef_id ` set (o_effects db)"
  shows "\<exists>db' e. enqueue_one outbox_env p ident now db = Inr (ident, db') \<and> o_effects db' = o_effects db @ [e] \<and> ef_id e = ident \<and> ef_kind e = pp_kind p"
proof -
  have "payload_valid p"
    using p by (simp add: payload_valid_def ap_page_fields location_valid_def safe_int_def max_safe_def positive_decimal_def is_digit_def
      is_hex_def is_hex_char_def list_all_iff)
  moreover have "encodable (payload_value p)"
    using p by (simp add: payload_value_def ap_page_fields js_null_or_def location_value_def)
  then obtain t where "canonical_json outbox_env (payload_value p) = Some t" using encodable_canonical by blast
  moreover have "sql_first (effect_is (pp_page p) (pp_revision p) (pp_kind p)) (o_effects db) = None"
    using new(1) by (auto simp: sql_first_None effect_is_def)
  ultimately show ?thesis
    using new(2) by (simp add: enqueue_one_def sql_insert_def new_effect_def)
qed

lemma ap_enqueued:
  assumes "o_effects db = []" and p: "pj_id p = 7" "pj_revision p = ''2''" "pj_location p = pj_location ap_page"
  shows "\<exists>x db'. enqueue_effects outbox_env (published_intent p) ap_fresh now db = Inr (x, db')"
proof -
  let ?q = "\<lambda>k. intent_payload outbox_env (published_intent p) 7 ''2'' k"
  have q: "pp_page (?q k) = 7" "pp_revision (?q k) = ''2''" "pp_source_sha (?q k) = Some (replicate 64 CHR ''0'')"
    "pp_location (?q k) = Some (pj_location ap_page)" "pp_previous (?q k) = None" "pp_kind (?q k) = k" for k
    using p by (simp_all add: intent_payload_def published_intent_def outbox_env_def)
  obtain db1 e1 where 1: "enqueue_one outbox_env (?q Render) (ap_fresh Render) now db = Inr (ap_fresh Render, db1)"
    "o_effects db1 = [e1]" "ef_id e1 = ap_fresh Render" "ef_kind e1 = Render"
    using ap_enqueue_one [OF q(1-5) [of Render], of db "ap_fresh Render" now] assms(1) q(6) by auto
  obtain db2 e2 where 2: "enqueue_one outbox_env (?q Links) (ap_fresh Links) now db1 = Inr (ap_fresh Links, db2)"
    "o_effects db2 = [e1, e2]" "ef_id e2 = ap_fresh Links" "ef_kind e2 = Links"
    using ap_enqueue_one [OF q(1-5) [of Links], of db1 "ap_fresh Links" now] 1 q(6) ap_fresh_eq by auto
  obtain db3 e3 where 3: "enqueue_one outbox_env (?q Search) (ap_fresh Search) now db2 = Inr (ap_fresh Search, db3)"
    "o_effects db3 = [e1, e2, e3]" "ef_id e3 = ap_fresh Search" "ef_kind e3 = Search"
    using ap_enqueue_one [OF q(1-5) [of Search], of db2 "ap_fresh Search" now] 1 2 q(6) ap_fresh_eq by auto
  obtain db4 e4 where 4: "enqueue_one outbox_env (?q Knowledge) (ap_fresh Knowledge) now db3 = Inr (ap_fresh Knowledge, db4)"
    using ap_enqueue_one [OF q(1-5) [of Knowledge], of db3 "ap_fresh Knowledge" now] 1 2 3 q(6) ap_fresh_eq by auto
  from 1 2 3 4 show ?thesis
    using p by (simp add: enqueue_effects_def published_intent_def valid_page_id_def safe_int_def max_safe_def revision_string_def positive_decimal_def
      is_digit_def present_incomplete_def absent_excessive_def all_effects_def)
qed

lemma ap_transition:
  fixes db :: approval_db
  assumes action: "action \<in> {To_approve, To_publish}" and find: "find_request ''request'' db = Some rq" "find_page (rq_page rq) db = Some page"
    and hidden: "lo_visibility (pj_location page) = Private" and act: "apply_action lock_env ids (ap_move action) 6 [] page rq now db = Inr (changed, db2)"
    and rec: "record_transition ids (ap_move action) 6 [] page rq changed now db2 = Inr (updated, db')"
  shows "transition_approval lock_env ids (ap_move action) now db = Inr (updated, db')"
proof -
  have view: "can_view_request regex (Some ap_admin) rq (page_view db page) lock_authority" for regex
    using ap_access [OF hidden] by (simp add: can_view_request_def reviewer_eligible_def ap_admin_facts)
  have u: "page_requires_unlock (Some ap_admin) p ''s'' False now db = (False, db)" for p
    by (simp add: page_requires_unlock_def ap_admin_facts)
  have comment: "trim (option_or (ti_comment (ap_move action)) []) = []" by (simp add: ap_move_def trim_def)
  have fields: "ti_requester (ap_move action) = Some ap_admin" "ti_authority (ap_move action) = lock_authority" "ti_request (ap_move action) = ''request''"
    "ti_action (ap_move action) = action" "ti_session (ap_move action) = ''s''" by (simp_all add: ap_move_def)
  have tx: "transition_in_tx lock_env ids (ap_move action) 6 [] [] now db = Inr (updated, db')"
    unfolding transition_in_tx_def fields find option.case
    using find view u act rec by simp
  show ?thesis
    unfolding transition_approval_def Let_def comment fields ap_admin_facts(3) rbind_simps
    using action tx by auto
qed

definition ap_approved_request :: approval_request where
  "ap_approved_request = ap_request\<lparr>rq_status := Approved, rq_updated := 4, rq_closed := None\<rparr>"

lemma ap_approved:
  fixes db1 :: approval_db
  assumes t: "approval_tables db1 = ([ap_page], [history_of 1 ap_page ''approval-submitted'' []], [ap_request], [move], [(6, Some ''Ada'')])"
      "tr_id move = ''move-1''" "map ev_id (o_events db1) = [''event-1'']" "o_effects db1 = []" "o_passwords db1 = []" "o_tags db1 = []"
  shows "\<exists>db2 move2. transition_approval lock_env (ap_ids 2) (ap_move To_approve) 4 db1 = Inr (ap_approved_request, db2)
    \<and> approval_tables db2 = ([ap_page], [history_of 1 ap_page ''approval-submitted'' []], [ap_approved_request], [move, move2], [(6, Some ''Ada'')])
    \<and> tr_id move2 = ''move-11'' \<and> map ev_id (o_events db2) = [''event-1'', ''event-11''] \<and> o_effects db2 = [] \<and> o_passwords db2 = []"
proof -
  note tabs = t(1) [unfolded approval_tables_def prod.inject]
  let ?c = "ap_request\<lparr>rq_status := Approved\<rparr>"
  have find: "find_request ''request'' db1 = Some ap_request" "find_page (rq_page ap_request) db1 = Some ap_page"
    using tabs by (simp_all add: ap_tables ap_request_def ap_page_fields)
  have act: "apply_action lock_env (ap_ids 2) (ap_move To_approve) 6 [] ap_page ap_request 4 db1 = Inr (?c, db1)"
    by (simp add: apply_action_def ap_move_def ap_admin_facts reviewer_eligible_def ap_request_def stale_revision_def ap_page_fields)
  have "fi_event (ap_ids 2) \<notin> ev_id ` set (o_events db1)"
    using arg_cong [OF t(3), of set] by (simp add: ap_ids_def numeral_2_eq_2)
  then have "\<exists>updated db'. record_transition (ap_ids 2) (ap_move To_approve) 6 [] ap_page ap_request ?c 4 db1 = Inr (updated, db')
    \<and> updated = ?c\<lparr>rq_updated := 4, rq_closed := if is_closed (rq_status ?c) then Some 4 else None\<rparr>
    \<and> o_passwords db' = o_passwords db1 \<and> o_effects db' = o_effects db1 \<and> o_tags db' = o_tags db1
    \<and> (ti_action (ap_move To_approve) = To_approve \<longrightarrow> map ev_id (o_events db') = map ev_id (o_events db1) @ [fi_event (ap_ids 2)]
       \<and> approval_tables db' = ([ap_page], [history_of 1 ap_page ''approval-submitted'' []], [updated], [move] @ [\<lparr>tr_id = fi_transition (ap_ids 2), tr_request = rq_id ap_request, tr_from = Some (rq_status ap_request),
           tr_to = rq_status ?c, tr_actor = 6, tr_revision = rq_revision ?c, tr_comment = comment_or_null [], tr_created = 4\<rparr>], [(6, Some ''Ada'')]))"
    by (intro ap_recorded [OF _ _ _ _ t(1)]) (use t(2) in \<open>simp_all add: ap_move_def ap_request_def history_of_def ap_ids_def numeral_2_eq_2\<close>)
  then obtain db' where rec: "record_transition (ap_ids 2) (ap_move To_approve) 6 [] ap_page ap_request ?c 4 db1 = Inr (ap_approved_request, db')"
    and db': "o_passwords db' = []" "o_effects db' = []" "map ev_id (o_events db') = [''event-1'', ''event-11'']"
      "approval_tables db' = ([ap_page], [history_of 1 ap_page ''approval-submitted'' []], [ap_approved_request], [move, \<lparr>tr_id = fi_transition (ap_ids 2), tr_request = rq_id ap_request, tr_from = Some (rq_status ap_request),
           tr_to = rq_status ?c, tr_actor = 6, tr_revision = rq_revision ?c, tr_comment = comment_or_null [], tr_created = 4\<rparr>], [(6, Some ''Ada'')])"
    using t by (auto simp: ap_approved_request_def ap_move_def is_closed_def ap_request_def ap_ids_def numeral_2_eq_2)
  have "transition_approval lock_env (ap_ids 2) (ap_move To_approve) 4 db1 = Inr (ap_approved_request, db')"
    by (rule ap_transition [OF _ find _ act rec]) (simp_all add: ap_page_fields)
  with db' show ?thesis by (auto simp: ap_ids_def numeral_2_eq_2)
qed

lemma both_weaken: "\<exists>x y. P x y \<and> Q x y \<Longrightarrow> \<exists>x y. P x y"
  by blast

lemma ap_published:
  fixes db2 :: approval_db
  assumes t: "approval_tables db2 = ([ap_page], [history_of 1 ap_page ''approval-submitted'' []], [ap_approved_request], [move, move2], [(6, Some ''Ada'')])"
      "tr_id move = ''move-1''" "tr_id move2 = ''move-11''" "map ev_id (o_events db2) = [''event-1'', ''event-11'']" "o_effects db2 = []"
  shows "\<exists>updated db3. transition_approval lock_env (ap_ids 3) (ap_move To_publish) 5 db2 = Inr (updated, db3)"
proof -
  note tabs = t(1) [unfolded approval_tables_def prod.inject]
  let ?ids = "ap_ids 3" and ?c = "ap_approved_request\<lparr>rq_status := Published\<rparr>" and ?p = "published_page 6 5 ap_page"
  have rq: "rq_page ap_approved_request = 7" "rq_status ap_approved_request = Approved" "rq_assignee ap_approved_request = None"
    "rq_submitter ap_approved_request = 6" "rq_revision ap_approved_request = 1" "rq_revision_updated ap_approved_request = 2" "rq_id ap_approved_request = ''request''"
    by (simp_all add: ap_approved_request_def ap_request_def)
  have find: "find_request ''request'' db2 = Some ap_approved_request" "find_page (rq_page ap_approved_request) db2 = Some ap_page"
    using tabs rq by (simp_all add: ap_tables ap_page_fields)
  have p: "pj_id ?p = 7" "pj_revision ?p = ''2''" "pj_location ?p = pj_location ap_page"
    by (simp_all add: published_page_def increment_revision_def revised_columns_def ap_page_fields decimal_value_def decimal.simps char_of_def bit_Suc_0_iff)
  obtain h where h: "snapshot_revision 3 ap_page ''approval-published'' db2 = Inr (3, db2\<lparr>o_history := o_history db2 @ [h]\<rparr>)" "hi_id h = 3"
    using tabs by (simp add: snapshot_revision_def sql_insert_def history_of_def)
  let ?dba = "db2\<lparr>o_history := o_history db2 @ [h]\<rparr>" and ?dbb = "db2\<lparr>o_history := o_history db2 @ [h], o_pages := [?p]\<rparr>"
  have "o_effects ?dbb = []" using t by simp
  from ap_enqueued [OF this p] obtain x db3 where e: "enqueue_effects outbox_env (published_intent ?p) ap_fresh 5 ?dbb = Inr (x, db3)" by blast
  have pub: "publish_page lock_env ?ids ap_page 6 5 db2 = Inr ((), db3)"
    using h tabs e by (simp add: publish_page_def ap_ids_def Let_def table_simps find_page_def p lock_env_def ap_page_fields(1))
  have act: "apply_action lock_env ?ids (ap_move To_publish) 6 [] ap_page ap_approved_request 5 db2 = Inr (?c, db3)"
    using pub by (simp add: apply_action_def ap_move_def ap_admin_facts reviewer_eligible_def rq stale_revision_def ap_page_fields)
  have t3: "approval_tables db3 = ([?p], [history_of 1 ap_page ''approval-submitted'' [], h], [ap_approved_request], [move, move2], [(6, Some ''Ada'')])"
    using enqueue_approval_tables [OF e] tabs by (simp add: approval_tables_def)
  have "same_frame ?dbb db3" by (rule enqueue_effects_frame [OF e])
  then have "o_events db3 = o_events db2" by (cases db3; cases db2) (simp add: same_frame_def)
  then have ev: "ev_id ` set (o_events db3) = {''event-1'', ''event-11''}" using arg_cong [OF t(4), of set] by simp
  have "\<exists>updated db'. record_transition ?ids (ap_move To_publish) 6 [] ap_page ap_approved_request ?c 5 db3 = Inr (updated, db')"
    by (intro both_weaken [OF ap_recorded, OF _ _ _ _ t3]) (use t(2,3) rq h ev in \<open>simp_all add: ap_move_def ap_ids_def numeral_3_eq_3 ap_page_fields history_of_def\<close>)
  then obtain updated db' where rec: "record_transition ?ids (ap_move To_publish) 6 [] ap_page ap_approved_request ?c 5 db3 = Inr (updated, db')" by blast
  have "transition_approval lock_env ?ids (ap_move To_publish) 5 db2 = Inr (updated, db')"
    by (rule ap_transition [OF _ find _ act rec]) (simp_all add: ap_page_fields)
  then show ?thesis by blast
qed

lemma ap_start: "approval_reachable lock_env ap_db"
  by (rule approval_reachable.Start) (simp_all add: ap_db_def unique_key_def)

lemma ap_run: "\<exists>db1 db2 db3 updated. submit_page_approval lock_env (ap_ids 1) ap_submit 3 ap_db = Inr (ap_request, db1)
    \<and> transition_approval lock_env (ap_ids 2) (ap_move To_approve) 4 db1 = Inr (ap_approved_request, db2)
    \<and> transition_approval lock_env (ap_ids 3) (ap_move To_publish) 5 db2 = Inr (updated, db3)
    \<and> approval_reachable lock_env db1 \<and> approval_reachable lock_env db2 \<and> ap_request \<in> set (o_requests db1)
    \<and> find_request ''request'' db1 = Some ap_request \<and> find_page 7 db1 = Some ap_page"
proof -
  obtain db1 move where 1: "submit_page_approval lock_env (ap_ids 1) ap_submit 3 ap_db = Inr (ap_request, db1)"
    and t1: "approval_tables db1 = ([ap_page], [history_of 1 ap_page ''approval-submitted'' []], [ap_request], [move], [(6, Some ''Ada'')])" "tr_id move = ''move-1''"
      "map ev_id (o_events db1) = [''event-1'']" "o_effects db1 = []" "o_passwords db1 = []" "o_tags db1 = []"
    using ap_submitted by auto
  from ap_approved [OF t1] obtain db2 move2 where
    2: "transition_approval lock_env (ap_ids 2) (ap_move To_approve) 4 db1 = Inr (ap_approved_request, db2)"
    and t2: "approval_tables db2 = ([ap_page], [history_of 1 ap_page ''approval-submitted'' []], [ap_approved_request], [move, move2], [(6, Some ''Ada'')])"
      "tr_id move2 = ''move-11''" "map ev_id (o_events db2) = [''event-1'', ''event-11'']" "o_effects db2 = []" by - (elim exE conjE, rule that; assumption)
  from ap_published [OF t2(1) t1(2) t2(2-)] obtain updated db3 where
    3: "transition_approval lock_env (ap_ids 3) (ap_move To_publish) 5 db2 = Inr (updated, db3)" by blast
  have r1: "approval_reachable lock_env db1" using ap_start approval_step.Submission [OF 1] by (rule approval_reachable.Step)
  then have r2: "approval_reachable lock_env db2" using approval_step.Transition [OF 2] by (rule approval_reachable.Step)
  have "ap_request \<in> set (o_requests db1)" "find_request ''request'' db1 = Some ap_request" "find_page 7 db1 = Some ap_page"
    using t1(1) by (simp_all add: approval_tables_def ap_tables ap_request_def ap_page_fields)
  with 1 2 3 r1 r2 show ?thesis by (intro exI conjI)
qed

section \<open>The properties at work\<close>

theorem approval_life_cycle_witness:
  "\<exists>db1 db2. (approval_step lock_env)\<^sup>*\<^sup>* db1 db2 \<and> ap_request \<in> set (o_requests db1)
    \<and> (\<exists>r'\<in>set (o_requests db2). rq_id r' = rq_id ap_request \<and> may_become\<^sup>*\<^sup>* Submitted (rq_status r'))"
proof -
  obtain db1 db2 where r1: "approval_reachable lock_env db1" "ap_request \<in> set (o_requests db1)"
    and s: "transition_approval lock_env (ap_ids 2) (ap_move To_approve) 4 db1 = Inr (ap_approved_request, db2)"
    using ap_run by blast
  have step: "(approval_step lock_env)\<^sup>*\<^sup>* db1 db2" using approval_step.Transition [OF s] by (rule r_into_rtranclp)
  from approval_life_cycle [OF r1(1) step r1(2)] step r1(2) show ?thesis by (auto simp: ap_request_def)
qed

theorem publication_shows_submission_witness:
  "\<exists>db2 updated db3 h p. approval_reachable lock_env db2
    \<and> transition_approval lock_env (ap_ids 3) (ap_move To_publish) 5 db2 = Inr (updated, db3)
    \<and> h \<in> set (o_history db2) \<and> p \<in> set (o_pages db3) \<and> pj_published p \<and> same_text h p"
proof -
  obtain db2 updated db3 where r: "approval_reachable lock_env db2"
    and s: "transition_approval lock_env (ap_ids 3) (ap_move To_publish) 5 db2 = Inr (updated, db3)"
    using ap_run by blast
  have "ti_action (ap_move To_publish) = To_publish" by (simp add: ap_move_def)
  from publication_shows_submission [OF r s this] r s show ?thesis by blast
qed

theorem approval_store_invariant_witness:
  "\<exists>db1 :: approval_db. ap_request \<in> set (o_requests db1) \<and> trail (request_log ''request'' db1) None (Some Submitted)"
proof -
  obtain db1 where "approval_reachable lock_env db1" "ap_request \<in> set (o_requests db1)" using ap_run by blast
  with approval_store_invariant [OF this] show ?thesis by (auto simp: ap_request_def)
qed

theorem approval_needs_authority_witness:
  "\<exists>(db2 :: approval_db) updated db3 rq. transition_approval lock_env (ap_ids 3) (ap_move To_publish) 5 db2 = Inr (updated, db3)
    \<and> find_request ''request'' db2 = Some rq"
proof -
  obtain db2 :: approval_db and updated db3 where s: "transition_approval lock_env (ap_ids 3) (ap_move To_publish) 5 db2 = Inr (updated, db3)"
    using ap_run by blast
  have "ti_request (ap_move To_publish) = ''request''" by (simp add: ap_move_def)
  with approval_needs_authority [OF s] s show ?thesis by auto
qed

text \<open>A signed-in user who neither reviews nor submitted, on a page of somebody else.\<close>

definition ap_stranger :: approval_input where
  "ap_stranger = (ap_move To_cancel)\<lparr>ti_requester := Some (ap_admin\<lparr>pr_value := JObj [(''id'', JNum (Whole 9))]\<rparr>)\<rparr>"

theorem hidden_request_like_missing_witness:
  "\<exists>(db1 :: approval_db) e. find_request ''request'' db1 = Some ap_request \<and> transition_approval lock_env (ap_ids 4) ap_stranger 6 db1 = Inl e
    \<and> transition_approval lock_env (ap_ids 4) ap_stranger 6 (db1\<lparr>o_requests := sql_delete (\<lambda>r. rq_id r = ''request'') (o_requests db1)\<rparr>) = Inl e"
proof -
  obtain db1 :: approval_db where f: "find_request ''request'' db1 = Some ap_request" "find_page 7 db1 = Some ap_page" using ap_run by blast
  have i: "ti_request ap_stranger = ''request''" "rq_page ap_request = 7" by (simp_all add: ap_stranger_def ap_move_def ap_request_def)
  have "\<not> can_view_request (pe_regex lock_env) (ti_requester ap_stranger) ap_request (page_view db1 ap_page) (ti_authority ap_stranger)"
    by (simp add: can_view_request_def can_read_page_def page_gate_def page_view_def ap_page_fields visibility_text_def owns_private_page_def
      ap_stranger_def principal_id_def ap_admin_def js_null_or_def manages_system_def check_access_def get_permissions_def safe_int_def max_safe_def)
  then have "\<exists>e. transition_approval lock_env (ap_ids 4) ap_stranger 6 db1 = Inl e
    \<and> transition_approval lock_env (ap_ids 4) ap_stranger 6 (db1\<lparr>o_requests := sql_delete (\<lambda>r. rq_id r = ti_request ap_stranger) (o_requests db1)\<rparr>) = Inl e"
    using f i by (intro hidden_request_like_missing) simp_all
  with f i show ?thesis by auto
qed

end
