(* ===== verification/ApprovalInboxLaws.thy ===== *)
theory ApprovalInboxLaws
  imports ApprovalInbox ApprovalExample
begin

text \<open>
  What the inbox promises: a page of it is the visible part of a prefix of the candidates, following
  its cursor continues exactly where it stopped, nothing is lost when no cursor comes back, and
  the cursor store stays within its bounds.
\<close>

section \<open>Candidates behind a cursor\<close>

lemma behind_None [simp]: "behind None r"
  by (simp add: behind_def)

lemma behind_key: "behind (Some (cursor_of x)) = (\<lambda>r. inbox_key r < inbox_key x)"
  by (auto simp: fun_eq_iff behind_def cursor_of_def inbox_key_def less_prod_def)

lemma inbox_candidates_filter:
  "inbox_candidates admin user db c = filter (behind c) (inbox_candidates admin user db None)"
  by (simp add: inbox_candidates_def filter_sort flip: rev_filter)

lemma inbox_candidates_sorted:
  assumes "unique_key rq_id (o_requests db)"
  shows "sorted_wrt (\<lambda>a b. inbox_key b < inbox_key a) (inbox_candidates admin user db c)"
proof -
  let ?s = "sort_key inbox_key (filter (\<lambda>r. inbox_scope admin user db r \<and> behind c r) (o_requests db))"
  have "distinct (map inbox_key (o_requests db))"
    using assms by (auto simp: unique_key_def distinct_map inj_on_def inbox_key_def)
  then have d: "distinct (map inbox_key (filter p (o_requests db)))" for p by (rule distinct_map_filter)
  have "mset (map inbox_key ?s) = mset (map inbox_key (filter (\<lambda>r. inbox_scope admin user db r \<and> behind c r) (o_requests db)))" by simp
  with d have "distinct (map inbox_key ?s)" by (metis mset_eq_imp_distinct_iff)
  moreover have "sorted (map inbox_key ?s)" by simp
  ultimately have "sorted_wrt (<) (map inbox_key ?s)" by (simp add: strict_sorted_iff)
  then show ?thesis by (simp add: inbox_candidates_def sorted_wrt_rev sorted_wrt_map)
qed

lemma filter_below_nth:
  assumes "sorted_wrt (\<lambda>a b. k b < (k a :: 'b :: linorder)) xs" and "0 < n" "n \<le> length xs"
  shows "filter (\<lambda>x. k x < k (xs ! (n - 1))) xs = drop n xs"
proof -
  let ?x = "xs ! (n - 1)"
  have "\<not> k y < k ?x" if "y \<in> set (take n xs)" for y
  proof -
    from that assms(3) obtain j where j: "j < n" "y = xs ! j" by (auto simp: in_set_conv_nth)
    then have "j = n - 1 \<or> j < n - 1" by linarith
    then show ?thesis
    proof
      assume "j < n - 1"
      moreover have "n - 1 < length xs" using assms(2,3) by linarith
      ultimately have "k ?x < k y" using sorted_wrt_nth_less [OF assms(1), of j "n - 1"] j(2) by simp
      then show ?thesis by simp
    qed (use j in simp)
  qed
  moreover have "k y < k ?x" if "y \<in> set (drop n xs)" for y
  proof -
    from that obtain j where "j < length xs - n" "y = xs ! (n + j)" by (auto simp: in_set_conv_nth)
    with assms show ?thesis using sorted_wrt_nth_less [OF assms(1), of "n - 1" "n + j"] by auto
  qed
  ultimately have "filter (\<lambda>x. k x < k ?x) (take n xs @ drop n xs) = drop n xs"
    unfolding filter_append by (simp add: filter_empty_conv filter_id_conv del: append_take_drop_id)
  then show ?thesis by (simp only: append_take_drop_id)
qed

lemma candidates_continue:
  assumes u: "unique_key rq_id (o_requests db)" and n: "0 < n" "n \<le> length cs" and cs: "cs = inbox_candidates admin user db c"
  shows "inbox_candidates admin user db (Some (cursor_of (cs ! (n - 1)))) = drop n cs"
proof -
  define x where "x = cs ! (n - 1)"
  have cs': "cs = filter (behind c) (inbox_candidates admin user db None)" unfolding cs by (rule inbox_candidates_filter)
  have "x \<in> set cs" using n by (simp add: x_def)
  then have "behind c x" by (simp add: cs')
  then have below: "behind c r" if "inbox_key r < inbox_key x" for r
    using that by (auto simp: behind_def inbox_key_def less_prod_def split: option.splits)
  have "inbox_candidates admin user db (Some (cursor_of x)) = filter (\<lambda>r. inbox_key r < inbox_key x) (inbox_candidates admin user db None)"
    using inbox_candidates_filter [of admin user db "Some (cursor_of x)"] by (simp only: behind_key)
  also have "\<dots> = filter (\<lambda>r. inbox_key r < inbox_key x) cs"
    unfolding cs' filter_filter by (rule filter_cong) (use below in blast)+
  also have "\<dots> = drop n cs"
    unfolding x_def by (rule filter_below_nth [OF _ n]) (simp only: cs inbox_candidates_sorted [OF u])
  finally show ?thesis by (simp only: x_def)
qed

section \<open>The loops\<close>

text \<open>The state after the first \<open>n\<close> candidates.\<close>

definition shown :: "(approval_request \<Rightarrow> inbox_item option) \<Rightarrow> approval_request list \<Rightarrow> inbox_item list" where
  "shown entry rs = List.map_filter entry rs"

definition inbox_at :: "(approval_request \<Rightarrow> inbox_item option) \<Rightarrow> approval_request list \<Rightarrow> nat \<Rightarrow> inbox_state \<Rightarrow> bool" where
  "inbox_at entry cs n st = (n \<le> length cs \<and> ib_items st = shown entry (take n cs) \<and> ib_processed st = n
     \<and> n \<le> max_processed \<and> length (ib_items st) \<le> max_visible \<and> (0 < n \<longrightarrow> ib_last st = Some (cursor_of (cs ! (n - 1)))))"

lemma shown_step: "n < length cs \<Longrightarrow> shown entry (take (Suc n) cs) = shown entry (take n cs) @ (case entry (cs ! n) of None \<Rightarrow> [] | Some it \<Rightarrow> [it])"
  by (simp add: shown_def take_Suc_conv_app_nth map_filter_def split: option.splits)

lemma inbox_batch_at:
  assumes "inbox_at entry cs n st" and "n + length rows \<le> length cs" "rows = take (length rows) (drop n cs)"
  shows "\<exists>k\<le>length rows. inbox_at entry cs (n + k) (inbox_batch entry rows st) \<and> ib_batch (inbox_batch entry rows st) = ib_batch st + k
    \<and> (k = length rows \<or> inbox_full (inbox_batch entry rows st))"
  using assms
proof (induction entry rows st arbitrary: n rule: inbox_batch.induct)
  case (1 entry st)
  then show ?case by auto
next
  case (2 entry r rs st)
  show ?case
  proof (cases "inbox_full st")
    case True
    then show ?thesis using "2.prems"(1) by (intro exI [of _ 0]) simp
  next
    case False
    let ?st = "st\<lparr>ib_items := ib_items st @ (case entry r of None \<Rightarrow> [] | Some it \<Rightarrow> [it]), ib_processed := Suc (ib_processed st),
      ib_batch := Suc (ib_batch st), ib_last := Some (cursor_of r)\<rparr>"
    have n: "n < length cs" and dr: "drop n cs = cs ! n # drop (Suc n) cs" using "2.prems"(2) by (auto simp: Cons_nth_drop_Suc)
    have r: "r = cs ! n" "rs = take (length rs) (drop (Suc n) cs)" using "2.prems"(3) by (simp_all add: dr)
    have at: "inbox_at entry cs (Suc n) ?st"
      using "2.prems"(1) False n r(1) shown_step [OF n, of entry]
      by (auto simp: inbox_at_def inbox_full_def split: option.splits)
    from "2.IH" [OF False at _ r(2)] "2.prems"(2) obtain k where k: "k \<le> length rs" "inbox_at entry cs (Suc n + k) (inbox_batch entry rs ?st)"
      "ib_batch (inbox_batch entry rs ?st) = ib_batch ?st + k" "k = length rs \<or> inbox_full (inbox_batch entry rs ?st)" by auto
    have "inbox_batch entry (r # rs) st = inbox_batch entry rs ?st" using False by simp
    with k show ?thesis by (intro exI [of _ "Suc k"]) simp
  qed
qed

lemma inbox_loop_at:
  assumes "inbox_at entry cs n st" and "query c = drop n cs" and "\<not> inbox_full st"
    and "\<And>m. 0 < m \<Longrightarrow> m \<le> length cs \<Longrightarrow> query (Some (cursor_of (cs ! (m - 1)))) = drop m cs"
    and "inbox_loop entry query c st = (st', further)"
  shows "\<exists>m. inbox_at entry cs m st' \<and> (if further then 0 < m else m = length cs)"
  using assms
proof (induction entry query c st arbitrary: n rule: inbox_loop.induct)
  case (1 entry query c st)
  define limit where "limit = min batch_size (max_processed - ib_processed st)"
  define rows where "rows = take limit (query c)"
  define st2 where "st2 = inbox_batch entry rows (st\<lparr>ib_batch := 0\<rparr>)"
  have pos: "0 < limit" using "1.prems"(3) by (simp add: limit_def batch_size_def inbox_full_def)
  have eq: "inbox_loop entry query c st = (if rows = [] then (st, False)
      else if inbox_full st2 then (st2, ib_batch st2 < length rows \<or> length rows = limit)
      else if length rows < limit then (st2, False) else inbox_loop entry query (ib_last st2) st2)"
    by (subst inbox_loop.simps) (simp only: Let_def limit_def [symmetric] rows_def [symmetric] st2_def [symmetric] "1.prems"(3) if_False)
  show ?case
  proof (cases "rows = []")
    case True
    with "1.prems" eq pos show ?thesis by (intro exI [of _ n]) (auto simp: rows_def inbox_at_def)
  next
    case False
    have rows_eq: "rows = take limit (drop n cs)" by (simp add: rows_def "1.prems"(2))
    have len: "n + length rows \<le> length cs" "rows = take (length rows) (drop n cs)"
      using "1.prems"(1) by (auto simp: rows_eq inbox_at_def min_def)
    have at0: "inbox_at entry cs n (st\<lparr>ib_batch := 0\<rparr>)" using "1.prems"(1) by (auto simp: inbox_at_def)
    from inbox_batch_at [OF at0 len] obtain k where k: "k \<le> length rows" "inbox_at entry cs (n + k) st2" "ib_batch st2 = k"
      "k = length rows \<or> inbox_full st2" by (auto simp: st2_def)
    have "\<not> inbox_full (st\<lparr>ib_batch := 0\<rparr>)" using "1.prems"(3) by (simp add: inbox_full_def)
    from inbox_batch_progress [OF False this, of entry] k(2) at0 have kpos: "0 < k" by (simp add: st2_def [symmetric] inbox_at_def)
    have all: "n + length rows = length cs" if "length rows < limit"
      using that "1.prems"(1) by (simp add: rows_eq inbox_at_def min_def split: if_splits)
    show ?thesis
    proof (cases "inbox_full st2 \<or> length rows < limit")
      case True
      have "length rows \<le> limit" by (simp add: rows_def)
      with True eq False "1.prems"(5) k kpos all show ?thesis by (intro exI [of _ "n + k"]) (auto split: if_splits)
    next
      case no: False
      with k have kl: "k = length rows" by blast
      have last: "ib_last st2 = Some (cursor_of (cs ! (n + k - 1)))" using k(2) kpos by (simp add: inbox_at_def)
      have q: "query (ib_last st2) = drop (n + k) cs" unfolding last by (rule "1.prems"(4)) (use kpos k(2) in \<open>auto simp: inbox_at_def\<close>)
      have run: "inbox_loop entry query (ib_last st2) st2 = (st', further)" using eq False no "1.prems"(5) by simp
      show ?thesis
        by (rule "1.IH" [OF "1.prems"(3) limit_def rows_def False st2_def refl _ _ k(2) q _ "1.prems"(4) run]) (use no in auto)
    qed
  qed
qed

section \<open>A page of the inbox\<close>

lemma issue_cursor_result:
  assumes "issue_cursor owner c token now store = (Inr t, store')"
  shows "\<exists>s. map_of store' t = Some s \<and> cu_owner s = owner \<and> cursor_key s = cursor_key c \<and> now < cu_expires s \<or> \<not> distinct (map fst store)"
proof (cases "distinct (map fst store)")
  case True
  let ?kept = "prune_cursors now store"
  have d: "distinct (map fst ?kept)" using True by (simp add: prune_cursors_def distinct_map_filter)
  show ?thesis
  proof (cases "List.find (\<lambda>e. equivalent_cursor owner c (snd e)) ?kept")
    case None
    with assms show ?thesis
      by (auto simp: issue_cursor_def Let_def cursor_key_def update_conv' cursor_ttl_def split: if_splits)
  next
    case (Some e)
    then have e: "e \<in> set ?kept" "equivalent_cursor owner c (snd e)" by (auto dest: find_Some_iff2)
    then have "map_of ?kept (fst e) = Some (snd e)" using d by (metis map_of_is_SomeI prod.collapse)
    moreover have "now < cu_expires (snd e)" using e(1) by (simp add: prune_cursors_def)
    ultimately show ?thesis
      using assms Some e(2) by (auto simp: issue_cursor_def Let_def cursor_key_def equivalent_cursor_def)
  qed
qed simp

text \<open>C22. A page of the inbox is the visible part of a prefix of the waiting requests, newest first: at
  most a hundred entries out of at most five hundred requests. Without a next cursor nothing was
  left out; with one, a later call with that cursor continues with exactly the remaining requests.
\<close>

theorem inbox_pages_are_complete:
  assumes ids: "unique_key rq_id (o_requests db)" and tokens: "distinct (map fst store)"
    and user: "authenticated_id requester = Inr user" and read: "read_cursor user cursor read_at store = (Inr c, store1)"
    and res: "list_approval_inbox regex requester au cursor token read_at issue_at db store = (Inr page, store')"
    and cs: "cs = inbox_candidates (manages_system requester) user db c"
  shows "\<exists>n\<le>length cs. n \<le> 500 \<and> length (ip_items page) \<le> 100
    \<and> ip_items page = List.map_filter (inbox_entry regex requester user au db) (take n cs)
    \<and> (case ip_next page of None \<Rightarrow> n = length cs
       | Some t \<Rightarrow> \<exists>s. map_of store' t = Some s \<and> cu_owner s = user
           \<and> inbox_candidates (manages_system requester) user db (Some (approval_cursor.truncate s)) = drop n cs)"
proof -
  let ?entry = "inbox_entry regex requester user au db" and ?query = "inbox_candidates (manages_system requester) user db"
  obtain st further where loop: "inbox_loop ?entry ?query c empty_inbox = (st, further)" by (meson surj_pair)
  have start: "inbox_at ?entry cs 0 empty_inbox" "?query c = drop 0 cs" "\<not> inbox_full empty_inbox"
    by (simp_all add: inbox_at_def empty_inbox_def shown_def map_filter_def cs inbox_full_def max_processed_def max_visible_def)
  have "?query (Some (cursor_of (cs ! (m - 1)))) = drop m cs" if "0 < m" "m \<le> length cs" for m
    by (rule candidates_continue [OF ids that cs])
  from inbox_loop_at [OF start this loop] obtain n where n: "inbox_at ?entry cs n st" "if further then 0 < n else n = length cs" by auto
  have d: "distinct (map fst store1)"
    using read tokens by (auto simp: read_cursor_def Let_def prune_cursors_def distinct_map_filter split: js_value.splits if_splits option.splits)
  have rest: "case ip_next page of None \<Rightarrow> n = length cs
       | Some t \<Rightarrow> \<exists>s. map_of store' t = Some s \<and> cu_owner s = user \<and> ?query (Some (approval_cursor.truncate s)) = drop n cs"
    and items: "ip_items page = ib_items st"
  proof -
    show "ip_items page = ib_items st"
      using res user read loop by (auto simp: list_approval_inbox_def split: option.splits bool.splits sum.splits prod.splits)
    show "case ip_next page of None \<Rightarrow> n = length cs
       | Some t \<Rightarrow> \<exists>s. map_of store' t = Some s \<and> cu_owner s = user \<and> ?query (Some (approval_cursor.truncate s)) = drop n cs"
    proof (cases further)
      case True
      with n have last: "ib_last st = Some (cursor_of (cs ! (n - 1)))" "0 < n" "n \<le> length cs" by (auto simp: inbox_at_def)
      with True res user read loop obtain t where t: "issue_cursor user (cursor_of (cs ! (n - 1))) token issue_at store1 = (Inr t, store')" "ip_next page = Some t"
        by (auto simp: list_approval_inbox_def split: sum.splits prod.splits)
      from issue_cursor_result [OF t(1)] d obtain s where s: "map_of store' t = Some s" "cu_owner s = user" "cursor_key s = cursor_key (cursor_of (cs ! (n - 1)))" by blast
      then have "approval_cursor.truncate s = cursor_of (cs ! (n - 1))"
        by (simp add: cursor_key_def approval_cursor.truncate_def cursor_of_def)
      with s t(2) candidates_continue [OF ids last(2,3) cs] show ?thesis by simp
    next
      case False
      with n res user read loop show ?thesis by (auto simp: list_approval_inbox_def split: option.splits)
    qed
  qed
  show ?thesis
    by (rule exI [of _ n]) (use n(1) rest items in \<open>auto simp: inbox_at_def shown_def max_processed_def max_visible_def\<close>)
qed

section \<open>The cursor store\<close>

definition store_ok :: "cursor_store \<Rightarrow> bool" where
  "store_ok store = (distinct (map fst store) \<and> length store \<le> max_cursors \<and> (\<forall>owner. length (owned_tokens owner store) \<le> max_owner_cursors))"

lemma store_ok_filter: "store_ok store \<Longrightarrow> store_ok (filter p store)"
proof -
  have "length (filter q (filter p store)) \<le> length (filter q store)" for q
    by (induction store) auto
  moreover assume "store_ok store"
  ultimately show ?thesis
    unfolding store_ok_def owned_tokens_def length_map by (meson distinct_map_filter le_trans length_filter_le)
qed

lemma store_ok_prune: "store_ok store \<Longrightarrow> store_ok (prune_cursors now store)"
  by (simp add: prune_cursors_def store_ok_filter)

lemma store_ok_room:
  assumes "store_ok store"
  shows "store_ok (make_room owner store) \<and> length (owned_tokens owner (make_room owner store)) < max_owner_cursors"
proof (cases "owned_tokens owner store")
  case Nil
  with assms show ?thesis by (simp add: make_room_def max_owner_cursors_def)
next
  case (Cons oldest others)
  then have "oldest \<in> set (owned_tokens owner store)" by simp
  then obtain c where c: "(oldest, c) \<in> set store" "cu_owner c = owner" by (auto simp: owned_tokens_def)
  have "length (filter (\<lambda>e. cu_owner (snd e) = owner) (filter (\<lambda>e. fst e \<noteq> oldest) store)) < length (filter (\<lambda>e. cu_owner (snd e) = owner) store)"
    using c length_filter_less [of "(oldest, c)" "filter (\<lambda>e. cu_owner (snd e) = owner) store" "\<lambda>e. fst e \<noteq> oldest"]
    by (simp add: conj_commute)
  then have "length (owned_tokens owner (filter (\<lambda>e. fst e \<noteq> oldest) store)) < length (owned_tokens owner store)"
    by (simp add: owned_tokens_def)
  moreover have "length (owned_tokens owner store) \<le> max_owner_cursors" using assms by (simp add: store_ok_def)
  ultimately show ?thesis
    using assms Cons store_ok_filter [OF assms, of "\<lambda>e. fst e \<noteq> oldest"] by (simp add: make_room_def)
qed

lemma filter_update_length: "length (filter p (AList.update k v xs)) \<le> length (filter p xs) + (if p (k, v) then 1 else 0)"
  by (induction xs) auto

lemma store_ok_issue:
  assumes "store_ok store"
  shows "store_ok (snd (issue_cursor owner c token now store))"
proof -
  let ?kept = "prune_cursors now store" and ?s = "\<lparr>cu_updated = cu_updated c, cu_id = cu_id c, cu_owner = owner, cu_expires = now + cursor_ttl\<rparr>"
  let ?room = "make_room owner ?kept"
  note kept = store_ok_prune [OF assms, of now]
  note room = store_ok_room [OF kept, of owner]
  have "store_ok (AList.update token ?s ?room)" if "length ?room < max_cursors"
  proof -
    have "length (owned_tokens k (AList.update token ?s ?room)) \<le> max_owner_cursors" for k
      using room filter_update_length [of "\<lambda>e. cu_owner (snd e) = k" token ?s ?room]
      by (cases "k = owner") (auto simp: owned_tokens_def store_ok_def dest: spec [of _ k])
    moreover have "length (AList.update token ?s ?room) \<le> max_cursors"
      using filter_update_length [of "\<lambda>_. True" token ?s ?room] that by simp
    ultimately show ?thesis using room by (simp add: store_ok_def distinct_update)
  qed
  with kept room show ?thesis
    by (auto simp: issue_cursor_def Let_def not_le split: option.splits)
qed

lemma store_ok_read: "store_ok store \<Longrightarrow> store_ok (snd (read_cursor owner value now store))"
  by (auto simp: read_cursor_def Let_def store_ok_prune split: js_value.splits option.splits)

text \<open>Any sequence of calls of the inbox, each with the tables it sees.\<close>

record inbox_call =
  ic_requester :: "principal option"
  ic_authority :: authority
  ic_cursor :: js_value
  ic_token :: string
  ic_read :: int
  ic_issue :: int
  ic_db :: approval_db

definition inbox_calls :: "regex_engine \<Rightarrow> inbox_call list \<Rightarrow> cursor_store \<Rightarrow> cursor_store" where
  "inbox_calls regex calls store = foldl (\<lambda>st k. snd (list_approval_inbox regex (ic_requester k) (ic_authority k) (ic_cursor k) (ic_token k)
     (ic_read k) (ic_issue k) (ic_db k) st)) store calls"

lemma store_ok_inbox: "store_ok store \<Longrightarrow> store_ok (snd (list_approval_inbox regex requester au cursor token read_at issue_at db store))"
proof (cases "authenticated_id requester")
  case (Inr user)
  assume ok: "store_ok store"
  obtain r store1 where read: "read_cursor user cursor read_at store = (r, store1)" by (meson surj_pair)
  with store_ok_read [OF ok, of user cursor read_at] have ok1: "store_ok store1" by simp
  show ?thesis
  proof (cases r)
    case (Inr c)
    obtain st further where loop: "inbox_loop (inbox_entry regex requester user au db)
      (inbox_candidates (manages_system requester) user db) c empty_inbox = (st, further)" by (meson surj_pair)
    show ?thesis
    proof (cases "ib_last st")
      case (Some k)
      obtain t store2 where "issue_cursor user k token issue_at store1 = (t, store2)" by (meson surj_pair)
      with store_ok_issue [OF ok1, of user k token issue_at] \<open>authenticated_id requester = Inr user\<close> read Inr loop Some ok1 show ?thesis
        by (cases t; cases further) (simp_all add: list_approval_inbox_def)
    qed (use \<open>authenticated_id requester = Inr user\<close> read Inr loop ok1 in \<open>simp add: list_approval_inbox_def\<close>)
  qed (use Inr read ok1 in \<open>simp add: list_approval_inbox_def\<close>)
qed (simp add: list_approval_inbox_def)

text \<open>The cursor store stays bounded. After any sequence of calls of the inbox, by any users and with
  any cursors, it holds at most 128 cursors, no user holds more than four, and tokens are unique.
\<close>

theorem cursor_store_bounded:
  "length (inbox_calls regex calls []) \<le> 128 \<and> length (owned_tokens owner (inbox_calls regex calls [])) \<le> 4
    \<and> distinct (map fst (inbox_calls regex calls []))"
proof -
  have "store_ok store \<Longrightarrow> store_ok (inbox_calls regex calls store)" for store
    by (induction calls arbitrary: store) (simp_all add: inbox_calls_def store_ok_inbox)
  moreover have "store_ok []" by (simp add: store_ok_def owned_tokens_def)
  ultimately have "store_ok (inbox_calls regex calls [])" .
  then show ?thesis by (simp add: store_ok_def max_cursors_def max_owner_cursors_def)
qed

section \<open>The properties at work\<close>

definition ap_inbox_db :: approval_db where
  "ap_inbox_db = ap_db\<lparr>o_requests := [ap_request]\<rparr>"

theorem inbox_pages_are_complete_witness:
  "\<exists>page store'. list_approval_inbox (\<lambda>_. None) (Some ap_admin) lock_authority JNull ''t'' 5 6 ap_inbox_db [] = (Inr page, store')
    \<and> length (ip_items page) \<le> 100"
proof -
  have key: "unique_key rq_id (o_requests ap_inbox_db)" by (simp add: ap_inbox_db_def unique_key_def)
  have read: "read_cursor 6 JNull 5 [] = (Inr None, [])" by (simp add: read_cursor_def)
  have one: "inbox_candidates (manages_system (Some ap_admin)) 6 ap_inbox_db None = [ap_request]"
    by (simp add: inbox_candidates_def inbox_scope_def ap_inbox_db_def ap_admin_facts is_active_def active_statuses_def ap_request_def)
  obtain st further where loop: "inbox_loop (inbox_entry (\<lambda>_. None) (Some ap_admin) 6 lock_authority ap_inbox_db)
      (inbox_candidates (manages_system (Some ap_admin)) 6 ap_inbox_db) None empty_inbox = (st, further)" by (meson surj_pair)
  have "\<not> further"
    using loop by (subst (asm) inbox_loop.simps)
      (auto simp: one empty_inbox_def inbox_full_def max_processed_def max_visible_def batch_size_def Let_def split: option.splits if_splits)
  then obtain page store' where res: "list_approval_inbox (\<lambda>_. None) (Some ap_admin) lock_authority JNull ''t'' 5 6 ap_inbox_db [] = (Inr page, store')"
    using loop read ap_admin_facts by (cases "ib_last st") (auto simp: list_approval_inbox_def)
  from inbox_pages_are_complete [OF key _ ap_admin_facts(3) read res refl] res show ?thesis by auto
qed

end
