(* ===== verification/Taxonomy.thy ===== *)
theory Taxonomy
  imports PageRules Tables
begin

text \<open>
  Changes of the tag vocabulary (\<^verbatim>\<open>server/helpers/taxonomy-plan.ts\<close>): renaming, merging,
  archiving and restoring a tag, planned on a snapshot of the tables with the impact on pages and
  access rules. The hash of the review is a parameter. Identifiers of tags are primary keys; a
  new tag has the identifier -1 until it is stored.
\<close>

section \<open>Snapshots and changes\<close>

record tag_row = tag_identity +
  tg_title :: string
  tg_created :: string
  tg_updated :: string

record taxonomy_page =
  tp_id :: int
  tp_title :: string
  tp_path :: string
  tp_locale :: string
  tp_public :: bool
  tp_revision :: string

record taxonomy =
  tx_tags :: "tag_row list"
  tx_assignments :: "(int \<times> int) list"
  tx_pages :: "taxonomy_page list"
  tx_groups :: "access_group list"
  tx_history :: "(int \<times> nat) list"

text \<open>An assignment is a page with the tag it carries.\<close>

datatype taxonomy_change = Edit_tag int string string | Merge_tag int int | Archive_tag int | Restore_tag int

fun changed_tag :: "taxonomy_change \<Rightarrow> int" where
  "changed_tag (Edit_tag i _ _) = i"
| "changed_tag (Merge_tag i _) = i"
| "changed_tag (Archive_tag i) = i"
| "changed_tag (Restore_tag i) = i"

definition invalid_change :: js_error where
  "invalid_change = Coded ''INVALID_TAXONOMY_CHANGE'' 400"

section \<open>Reading a change\<close>

definition has_control_characters :: "string \<Rightarrow> bool" where
  "has_control_characters s = list_ex (\<lambda>c. let n = of_char c :: nat in n < 32 \<or> n = 127) s"

text \<open>\<^verbatim>\<open>tagName\<close>, \<^verbatim>\<open>tagNames\<close> and \<^verbatim>\<open>tagDefinition\<close>\<close>

definition tag_name :: "js_value \<Rightarrow> string result" where
  "tag_name value = (case value of
      JStr s \<Rightarrow> let canonical = to_lower (trim s) in
        if canonical = [] \<or> 255 < length canonical \<or> has_control_characters s then Inl invalid_change else Inr canonical
    | _ \<Rightarrow> Inl invalid_change)"

fun collect_names :: "js_value list \<Rightarrow> string list \<Rightarrow> string list result" where
  "collect_names [] names = Inr names"
| "collect_names (v # vs) names = rbind (tag_name v) (\<lambda>n. collect_names vs (if n \<in> set names then names else names @ [n]))"

definition tag_names :: "js_value \<Rightarrow> string list result" where
  "tag_names value = (case value of
      JArr items \<Rightarrow> if 100 < length items then Inl invalid_change else collect_names items []
    | _ \<Rightarrow> Inl invalid_change)"

definition tag_definition :: "js_value \<Rightarrow> (string \<times> string) result" where
  "tag_definition value =
     (if \<not> js_is_object value then Inl invalid_change
      else rbind (tag_name (js_get ''tag'' value)) (\<lambda>tag.
        case js_get ''title'' value of
          JStr title \<Rightarrow> if 255 < length (trim title) \<or> has_control_characters title then Inl invalid_change else Inr (tag, trim title)
        | _ \<Rightarrow> Inl invalid_change))"

text \<open>\<^verbatim>\<open>taxonomyChange\<close>\<close>

definition read_change :: "js_value \<Rightarrow> taxonomy_change result" where
  "read_change value =
     (if \<not> js_is_object value then Inl invalid_change
      else case js_positive (js_get ''tagId'' value) of
        None \<Rightarrow> Inl invalid_change
      | Some i \<Rightarrow>
          if js_get ''action'' value = JStr ''edit'' then rbind (tag_definition value) (\<lambda>(tag, title). Inr (Edit_tag i tag title))
          else if js_get ''action'' value = JStr ''merge'' then
            (case js_positive (js_get ''targetId'' value) of
               None \<Rightarrow> Inl invalid_change
             | Some j \<Rightarrow> if j = i then Inl invalid_change else Inr (Merge_tag i j))
          else if js_get ''action'' value = JStr ''archive'' then Inr (Archive_tag i)
          else if js_get ''action'' value = JStr ''restore'' then Inr (Restore_tag i)
          else Inl invalid_change)"

section \<open>Canonical tags and the inventory\<close>

text \<open>\<^verbatim>\<open>canonicalId\<close>: the end of a tag's redirects, archived or not.\<close>

function canonical_from :: "'x tag_identity_scheme list \<Rightarrow> int list \<Rightarrow> 'x tag_identity_scheme option \<Rightarrow> int result" where
  "canonical_from tags visited None = Inl Plain_error"
| "canonical_from tags visited (Some t) = (case tag_redirect t of
      None \<Rightarrow> Inr (tag_id t)
    | Some i \<Rightarrow> if tag_id t \<in> set visited then Inl Plain_error
        else canonical_from tags (tag_id t # visited) (tags_by_id tags i))"
  by pat_completeness auto

termination
proof (relation "measure (\<lambda>(tags, visited, current). case current of None \<Rightarrow> 0
    | Some t \<Rightarrow> Suc (card (insert (tag_id t) (tag_id ` set tags) - set visited)))", goal_cases)
  case (2 tags visited t i)
  show ?case
  proof (cases "tags_by_id tags i")
    case (Some n)
    then have "tag_id n \<in> tag_id ` set tags" using tags_by_id_SomeD by blast
    then have "insert (tag_id n) (tag_id ` set tags) - set (tag_id t # visited) \<subset> insert (tag_id t) (tag_id ` set tags) - set visited"
      using 2(2) by auto
    then show ?thesis by (auto simp: Some intro!: psubset_card_mono)
  qed simp
qed simp

definition canonical_id :: "'x tag_identity_scheme list \<Rightarrow> int \<Rightarrow> int result" where
  "canonical_id tags i = canonical_from tags [] (tags_by_id tags i)"

fun rmap :: "('a \<Rightarrow> 'b result) \<Rightarrow> 'a list \<Rightarrow> 'b list result" where
  "rmap f [] = Inr []"
| "rmap f (x # xs) = rbind (f x) (\<lambda>y. rbind (rmap f xs) (\<lambda>ys. Inr (y # ys)))"

text \<open>\<^verbatim>\<open>taxonomyInventory\<close>\<close>

record inventory_tag = tag_row +
  iv_pages :: nat
  iv_history :: nat
  iv_rules :: nat

definition pages_of_tag :: "taxonomy \<Rightarrow> int \<Rightarrow> int list" where
  "pages_of_tag s i = dedup (map fst (filter (\<lambda>a. snd a = i) (tx_assignments s)))"

definition tag_rules :: "taxonomy \<Rightarrow> access_rule list" where
  "tag_rules s = filter (\<lambda>r. rule_match r = TAG) (concat (map group_rules (tx_groups s)))"

definition inventory_entry :: "taxonomy \<Rightarrow> alias_map \<Rightarrow> tag_row \<Rightarrow> inventory_tag result" where
  "inventory_entry s aliases t = rbind (canonical_id (tx_tags s) (tag_id t)) (\<lambda>target.
     Inr (tag_row.extend t \<lparr>iv_pages = (if tag_archived t then 0 else length (pages_of_tag s target)),
       iv_history = option_or (map_of (rev (tx_history s)) (tag_id t)) 0,
       iv_rules = length (filter (\<lambda>r. rule_path r = tag_tag t \<or> (\<not> tag_archived t \<and> aliases (rule_path r) = aliases (tag_tag t))) (tag_rules s))\<rparr>))"

definition taxonomy_inventory :: "taxonomy \<Rightarrow> inventory_tag list result" where
  "taxonomy_inventory s = rbind (tag_alias_map (tx_tags s)) (\<lambda>aliases. rmap (inventory_entry s aliases) (tx_tags s))"

section \<open>Access rules\<close>

text \<open>\<^verbatim>\<open>ruleMatches\<close>: the public pages an access rule on a tag selects.\<close>

definition rule_pages :: "taxonomy \<Rightarrow> alias_map \<Rightarrow> access_rule \<Rightarrow> int list" where
  "rule_pages s aliases rule = (case aliases (rule_path rule) of
      Some (Some name) \<Rightarrow>
        if name = [] then []
        else let ids = map tag_id (filter (\<lambda>t. aliases (tag_tag t) = Some (Some name) \<and> \<not> tag_archived t) (tx_tags s));
                 pages = map tp_id (filter (\<lambda>p. tp_public p
                   \<and> (case rule_locales rule of None \<Rightarrow> True | Some ls \<Rightarrow> ls = [] \<or> tp_locale p \<in> set ls)) (tx_pages s))
             in dedup (map fst (filter (\<lambda>a. snd a \<in> set ids \<and> fst a \<in> set pages) (tx_assignments s)))
    | _ \<Rightarrow> [])"

record rule_impact =
  ri_group :: nat
  ri_name :: "string option"
  ri_path :: string
  ri_deny :: bool
  ri_roles :: "string list"
  ri_locales :: "string list"
  ri_before :: nat
  ri_after :: nat
  ri_added :: nat
  ri_removed :: nat

definition impact_of :: "taxonomy \<Rightarrow> alias_map \<Rightarrow> taxonomy \<Rightarrow> alias_map \<Rightarrow> access_group \<Rightarrow> access_rule \<Rightarrow> rule_impact" where
  "impact_of s m s' m' g rule =
     (let previous = rule_pages s m rule; later = rule_pages s' m' rule in
      \<lparr>ri_group = group_id g, ri_name = group_name g, ri_path = rule_path rule, ri_deny = rule_deny rule, ri_roles = rule_roles rule,
       ri_locales = option_or (rule_locales rule) [], ri_before = length previous, ri_after = length later,
       ri_added = length (filter (\<lambda>i. i \<notin> set previous) later), ri_removed = length (filter (\<lambda>i. i \<notin> set later) previous)\<rparr>)"

text \<open>\<^verbatim>\<open>taxonomyRules\<close>, with the alias maps of both snapshots.\<close>

definition taxonomy_rules :: "taxonomy \<Rightarrow> alias_map \<Rightarrow> taxonomy \<Rightarrow> alias_map \<Rightarrow> string set \<Rightarrow> rule_impact list" where
  "taxonomy_rules s m s' m' names = concat (map (\<lambda>g. map (impact_of s m s' m' g)
     (filter (\<lambda>r. rule_match r = TAG \<and> rule_path r \<in> names) (group_rules g))) (tx_groups s))"

section \<open>Planning a change\<close>

definition aliases_of :: "taxonomy \<Rightarrow> int \<Rightarrow> tag_row list" where
  "aliases_of s i = filter (\<lambda>t. tag_id t \<noteq> i \<and> canonical_id (tx_tags s) (tag_id t) = Inr i) (tx_tags s)"

definition set_tags :: "int list \<Rightarrow> (tag_row \<Rightarrow> tag_row) \<Rightarrow> taxonomy \<Rightarrow> taxonomy" where
  "set_tags ids f s = s\<lparr>tx_tags := sql_update (\<lambda>t. tag_id t \<in> set ids) f (tx_tags s)\<rparr>"

text \<open>The source and its aliases lead to the destination, which takes over the assignments of the source.\<close>

definition redirect_tag :: "int \<Rightarrow> int list \<Rightarrow> int \<Rightarrow> taxonomy \<Rightarrow> taxonomy" where
  "redirect_tag i aliases target s = (set_tags (i # aliases) (\<lambda>t. t\<lparr>tag_redirect := Some target\<rparr>) s)
     \<lparr>tx_assignments := dedup (map (\<lambda>(p, t). (p, if t = i then target else t)) (tx_assignments s))\<rparr>"

definition active_canonical :: "'x tag_identity_scheme \<Rightarrow> bool" where
  "active_canonical t = (\<not> tag_archived t \<and> tag_redirect t = None)"

text \<open>
  The branches of \<^verbatim>\<open>planTaxonomy\<close> on the action: the snapshot after the change and the row of the
  destination.
\<close>

definition change_taxonomy :: "taxonomy \<Rightarrow> tag_row \<Rightarrow> int list \<Rightarrow> taxonomy_change \<Rightarrow> (taxonomy \<times> tag_row option) result" where
  "change_taxonomy s source aliases change = (case change of
      Edit_tag i tag title \<Rightarrow>
        if \<not> active_canonical source then Inl invalid_change
        else if tag = tag_tag source then
          (if title = tg_title source then Inl invalid_change
           else Inr (set_tags [tag_id source] (\<lambda>t. t\<lparr>tg_title := title\<rparr>) s, None))
        else if list_ex (\<lambda>t. tag_tag t = tag) (tx_tags s) then Inl invalid_change
        else let fresh = source\<lparr>tag_id := -1, tag_tag := tag, tg_title := title\<rparr>
          in Inr (redirect_tag (tag_id source) aliases (-1) (s\<lparr>tx_tags := tx_tags s @ [fresh]\<rparr>), Some fresh)
    | Merge_tag i j \<Rightarrow>
        if \<not> active_canonical source then Inl invalid_change
        else (case sql_first (\<lambda>t. tag_id t = j) (tx_tags s) of
            None \<Rightarrow> Inl invalid_change
          | Some d \<Rightarrow> if \<not> active_canonical d then Inl invalid_change else Inr (redirect_tag (tag_id source) aliases j s, Some d))
    | Archive_tag i \<Rightarrow>
        if tag_archived source then Inl invalid_change
        else if tag_redirect source = None
        then Inr ((set_tags (tag_id source # aliases) (\<lambda>t. t\<lparr>tag_archived := True\<rparr>) s)
               \<lparr>tx_assignments := filter (\<lambda>a. snd a \<noteq> tag_id source) (tx_assignments s)\<rparr>, None)
        else Inr (set_tags [tag_id source] (\<lambda>t. t\<lparr>tag_archived := True\<rparr>) s, None)
    | Restore_tag i \<Rightarrow>
        if \<not> tag_archived source then Inl invalid_change
        else rbind (if tag_redirect source = None then Inr None
                    else rbind (canonical_id (tx_tags s) (tag_id source)) (\<lambda>c. Inr (sql_first (\<lambda>t. tag_id t = c) (tx_tags s)))) (\<lambda>canonical.
          if (case canonical of None \<Rightarrow> False | Some c \<Rightarrow> tag_archived c) then Inl invalid_change
          else Inr (set_tags [tag_id source] (\<lambda>t. t\<lparr>tag_archived := False\<rparr>) s, None)))"

text \<open>
  \<^verbatim>\<open>pageAssignments\<close>: the tags of a page in order, or nothing for a page without any; the source
  compares the identifiers joined by commas.
\<close>

definition page_assignment :: "taxonomy \<Rightarrow> int \<Rightarrow> int list option" where
  "page_assignment s page = (case map snd (filter (\<lambda>a. fst a = page) (tx_assignments s)) of [] \<Rightarrow> None | ids \<Rightarrow> Some (sort ids))"

definition changed_pages :: "taxonomy \<Rightarrow> taxonomy \<Rightarrow> int list" where
  "changed_pages s s' = map tp_id (filter (\<lambda>p. page_assignment s (tp_id p) \<noteq> page_assignment s' (tp_id p)) (tx_pages s))"

text \<open>What the fingerprint of a review covers.\<close>

record taxonomy_review =
  rw_change :: taxonomy_change
  rw_tags :: "tag_row list"
  rw_groups :: "access_group list"
  rw_assignments :: "(int \<times> int) list"
  rw_pages :: "taxonomy_page list"
  rw_history :: "(int \<times> nat) list"

definition relevant_tags :: "taxonomy \<Rightarrow> int \<Rightarrow> int option \<Rightarrow> int list" where
  "relevant_tags s canonical target = map tag_id (filter (\<lambda>t. canonical_id (tx_tags s) (tag_id t) = Inr canonical
     \<or> (case target of None \<Rightarrow> False | Some d \<Rightarrow> canonical_id (tx_tags s) (tag_id t) = Inr d)) (tx_tags s))"

definition review_of :: "taxonomy \<Rightarrow> taxonomy_change \<Rightarrow> int \<Rightarrow> int option \<Rightarrow> taxonomy_review" where
  "review_of s change canonical target =
     (let ids = relevant_tags s canonical target; assigned = filter (\<lambda>a. snd a \<in> set ids) (tx_assignments s)
      in \<lparr>rw_change = change, rw_tags = tx_tags s, rw_groups = tx_groups s, rw_assignments = assigned,
          rw_pages = filter (\<lambda>p. tp_id p \<in> set (map fst assigned)) (tx_pages s), rw_history = filter (\<lambda>h. fst h \<in> set ids) (tx_history s)\<rparr>)"

record taxonomy_plan =
  pn_after :: taxonomy
  pn_changed :: "int list"
  pn_fingerprint :: string
  pn_change :: taxonomy_change
  pn_source :: inventory_tag
  pn_destination :: "inventory_tag option"
  pn_pages :: "taxonomy_page list"
  pn_aliases :: "inventory_tag list"
  pn_rules :: "rule_impact list"
  pn_access_changes :: bool

text \<open>The names whose rules a change may affect.\<close>

definition affected_names :: "taxonomy \<Rightarrow> alias_map \<Rightarrow> alias_map \<Rightarrow> tag_row \<Rightarrow> int list \<Rightarrow> tag_row option \<Rightarrow> string set" where
  "affected_names s m m' source aliases destination =
     set (map tag_tag (filter (\<lambda>t. tag_id t = tag_id source \<or> tag_id t \<in> set aliases \<or> m (tag_tag t) = Some (Some (tag_tag source))
        \<or> (case destination of None \<Rightarrow> False | Some d \<Rightarrow> m' (tag_tag t) = Some (Some (tag_tag d)))) (tx_tags s)))
     \<union> (case destination of None \<Rightarrow> {} | Some d \<Rightarrow> {tag_tag d})"

text \<open>\<^verbatim>\<open>planTaxonomy\<close>\<close>

definition plan_taxonomy :: "(taxonomy_review \<Rightarrow> string) \<Rightarrow> taxonomy \<Rightarrow> js_value \<Rightarrow> taxonomy_plan result" where
  "plan_taxonomy digest s input =
     rbind (read_change input) (\<lambda>change.
     rbind (taxonomy_inventory s) (\<lambda>inventory.
       case sql_first (\<lambda>t. tag_id t = changed_tag change) inventory of
         None \<Rightarrow> Inl (Coded ''TAG_NOT_FOUND'' 404)
       | Some entry \<Rightarrow>
           let source = tag_row.truncate entry; aliases = map tag_id (aliases_of s (tag_id source)) in
           rbind (change_taxonomy s source aliases change) (\<lambda>(s', destination).
           rbind (tag_alias_map (tx_tags s)) (\<lambda>m.
           rbind (tag_alias_map (tx_tags s')) (\<lambda>m'.
             let rules = taxonomy_rules s m s' m' (affected_names s m m' source aliases destination);
                 changed = changed_pages s s' in
           rbind (taxonomy_inventory s') (\<lambda>inventory'.
           rbind (canonical_id (tx_tags s) (tag_id source)) (\<lambda>canonical.
             Inr \<lparr>pn_after = s', pn_changed = changed,
               pn_fingerprint = digest (review_of s change canonical (map_option tag_id destination)), pn_change = change, pn_source = entry,
               pn_destination = (case destination of None \<Rightarrow> None | Some d \<Rightarrow> sql_first (\<lambda>t. tag_id t = tag_id d) inventory'),
               pn_pages = filter (\<lambda>p. tp_id p \<in> set changed) (tx_pages s),
               pn_aliases = filter (\<lambda>t. tag_id t \<in> set aliases) inventory,
               pn_rules = rules, pn_access_changes = list_ex (\<lambda>r. 0 < ri_added r \<or> 0 < ri_removed r) rules\<rparr>)))))))"

end
