(* ===== verification/TaxonomyLaws.thy ===== *)
theory TaxonomyLaws
  imports Taxonomy
begin

text \<open>
  What a planned taxonomy change promises: aliases never break, pages keep their tags under the
  names they resolve to, the list of changed pages is exact, and access rules change only when the
  preview says so.
\<close>

section \<open>Well-formed taxonomies\<close>

text \<open>
  Identifiers and names are unique, every redirect leads straight to a tag without a redirect,
  which is active if the alias is, and pages carry active canonical tags only.
\<close>

definition taxonomy_ok :: "taxonomy \<Rightarrow> bool" where
  "taxonomy_ok s = (unique_key tag_id (tx_tags s) \<and> unique_key tag_tag (tx_tags s) \<and> distinct (tx_assignments s)
     \<and> (\<forall>t\<in>set (tx_tags s). \<forall>i. tag_redirect t = Some i \<longrightarrow>
          (\<exists>c\<in>set (tx_tags s). tag_id c = i \<and> tag_redirect c = None \<and> (\<not> tag_archived t \<longrightarrow> \<not> tag_archived c)))
     \<and> (\<forall>a\<in>set (tx_assignments s). \<exists>c\<in>set (tx_tags s). tag_id c = snd a \<and> active_canonical c))"

lemma taxonomy_okD:
  assumes "taxonomy_ok s"
  shows "unique_key tag_id (tx_tags s)" "unique_key tag_tag (tx_tags s)" "distinct (tx_assignments s)"
    "t \<in> set (tx_tags s) \<Longrightarrow> tag_redirect t = Some i \<Longrightarrow>
      \<exists>c\<in>set (tx_tags s). tag_id c = i \<and> tag_redirect c = None \<and> (\<not> tag_archived t \<longrightarrow> \<not> tag_archived c)"
    "a \<in> set (tx_assignments s) \<Longrightarrow> \<exists>c\<in>set (tx_tags s). tag_id c = snd a \<and> active_canonical c"
  using assms by (auto simp: taxonomy_ok_def)

lemma same_tag: "taxonomy_ok s \<Longrightarrow> t \<in> set (tx_tags s) \<Longrightarrow> u \<in> set (tx_tags s) \<Longrightarrow> tag_id t = tag_id u \<Longrightarrow> t = u"
  by (rule unique_keyD [OF taxonomy_okD(1)])

lemma same_name: "taxonomy_ok s \<Longrightarrow> t \<in> set (tx_tags s) \<Longrightarrow> u \<in> set (tx_tags s) \<Longrightarrow> tag_tag t = tag_tag u \<Longrightarrow> t = u"
  by (rule unique_keyD [OF taxonomy_okD(2)])

lemma lookup_tag:
  assumes "taxonomy_ok s" "t \<in> set (tx_tags s)"
  shows "tags_by_id (tx_tags s) (tag_id t) = Some t"
proof -
  obtain u where u: "tags_by_id (tx_tags s) (tag_id t) = Some u"
    using assms(2) by (cases "tags_by_id (tx_tags s) (tag_id t)") (auto simp: tags_by_id_def find_None_iff)
  with tags_by_id_SomeD [OF u] same_tag [OF assms(1) _ assms(2)] show ?thesis by auto
qed

text \<open>The tag a tag stands for.\<close>

definition target_id :: "'x tag_identity_scheme \<Rightarrow> int" where
  "target_id t = option_or (tag_redirect t) (tag_id t)"

lemma target_exists:
  assumes "taxonomy_ok s" "t \<in> set (tx_tags s)"
  shows "\<exists>c\<in>set (tx_tags s). tag_id c = target_id t \<and> tag_redirect c = None \<and> (\<not> tag_archived t \<longrightarrow> \<not> tag_archived c)"
  using taxonomy_okD(4) [OF assms] assms(2) by (cases "tag_redirect t") (auto simp: target_id_def)

lemma canonical_id_ok:
  assumes ok: "taxonomy_ok s" and t: "t \<in> set (tx_tags s)"
  shows "canonical_id (tx_tags s) (tag_id t) = Inr (target_id t)"
proof (cases "tag_redirect t")
  case None
  then show ?thesis by (simp add: canonical_id_def lookup_tag [OF ok t] target_id_def)
next
  case (Some i)
  from taxonomy_okD(4) [OF ok t Some] obtain c where c: "c \<in> set (tx_tags s)" "tag_id c = i" "tag_redirect c = None" by blast
  from lookup_tag [OF ok c(1)] c(2) have "tags_by_id (tx_tags s) i = Some c" by simp
  with Some c show ?thesis by (simp add: canonical_id_def lookup_tag [OF ok t] target_id_def)
qed

lemma follow_alias_ok:
  assumes ok: "taxonomy_ok s" and t: "t \<in> set (tx_tags s)" "\<not> tag_archived t"
  shows "\<exists>c\<in>set (tx_tags s). follow_alias (tx_tags s) [] t = Inr c \<and> tag_id c = target_id t \<and> active_canonical c"
proof (cases "tag_redirect t")
  case None
  with t show ?thesis by (auto simp: follow_alias.simps target_id_def active_canonical_def)
next
  case (Some i)
  from taxonomy_okD(4) [OF ok t(1) Some] t(2) obtain c where c: "c \<in> set (tx_tags s)" "tag_id c = i" "tag_redirect c = None" "\<not> tag_archived c" by blast
  from lookup_tag [OF ok c(1)] c(2) have "tags_by_id (tx_tags s) i = Some c" by simp
  with Some c show ?thesis
    by (auto simp: follow_alias.simps [of _ _ t] follow_alias.simps [of _ _ c] target_id_def active_canonical_def)
qed

lemma rfold_total: "(\<And>x a. x \<in> set xs \<Longrightarrow> \<exists>b. f x a = Inr b) \<Longrightarrow> \<exists>b. rfold f xs a = Inr b"
proof (induction xs arbitrary: a)
  case (Cons x xs)
  then obtain b where "f x a = Inr b" by fastforce
  with Cons show ?case by simp
qed simp

text \<open>The alias map of a well-formed taxonomy: it always exists, and says what each name stands for.\<close>

lemma alias_map_ok:
  assumes ok: "taxonomy_ok s"
  obtains m where "tag_alias_map (tx_tags s) = Inr m"
    "\<And>t. t \<in> set (tx_tags s) \<Longrightarrow> tag_archived t \<Longrightarrow> m (tag_tag t) = Some None"
    "\<And>t. t \<in> set (tx_tags s) \<Longrightarrow> \<not> tag_archived t \<Longrightarrow>
      \<exists>c\<in>set (tx_tags s). tag_id c = target_id t \<and> active_canonical c \<and> m (tag_tag t) = Some (Some (tag_tag c))"
    "\<And>n. n \<notin> tag_tag ` set (tx_tags s) \<Longrightarrow> m n = None"
proof -
  have "\<exists>b. tag_alias_map (tx_tags s) = Inr b"
    unfolding tag_alias_map_def using follow_alias_ok [OF ok] by (intro rfold_total) force
  then obtain m where m: "tag_alias_map (tx_tags s) = Inr m" by blast
  have d: "distinct (map tag_tag (tx_tags s))" using taxonomy_okD(2) [OF ok] by (simp add: unique_key_def)
  note entry = alias_map_entry [OF m d]
  show ?thesis
  proof (rule that [OF m])
    fix t assume t: "t \<in> set (tx_tags s)"
    { assume "tag_archived t" with entry [OF t] show "m (tag_tag t) = Some None" by simp }
    { assume a: "\<not> tag_archived t"
      from follow_alias_ok [OF ok t a] entry [OF t] a
      show "\<exists>c\<in>set (tx_tags s). tag_id c = target_id t \<and> active_canonical c \<and> m (tag_tag t) = Some (Some (tag_tag c))" by auto }
  next
    fix n assume "n \<notin> tag_tag ` set (tx_tags s)"
    with alias_map_entries [OF m [unfolded tag_alias_map_def] d] show "m n = None" by simp
  qed
qed

lemma aliases_of_ok:
  assumes "taxonomy_ok s"
  shows "t \<in> set (aliases_of s i) \<longleftrightarrow> t \<in> set (tx_tags s) \<and> tag_id t \<noteq> i \<and> target_id t = i"
  using canonical_id_ok [OF assms] by (auto simp: aliases_of_def)

section \<open>A change keeps the taxonomy well-formed\<close>

text \<open>
  The one way a change rewrites tags: rows whose identifier is in a list are mapped, and keep
  identifier and name. What has to be checked are the redirects and the assigned tags.
\<close>

lemma taxonomy_ok_rewrite:
  assumes ok: "taxonomy_ok s" and keep: "\<And>t. tag_id (f t) = tag_id t" "\<And>t. tag_tag (f t) = tag_tag t"
    and tags: "tx_tags s' = map f (tx_tags s)" and assigned: "distinct (tx_assignments s')"
    and redirects: "\<And>t i. t \<in> set (tx_tags s) \<Longrightarrow> tag_redirect (f t) = Some i \<Longrightarrow>
      \<exists>c\<in>set (tx_tags s). tag_id c = i \<and> tag_redirect (f c) = None \<and> (\<not> tag_archived (f t) \<longrightarrow> \<not> tag_archived (f c))"
    and carried: "\<And>a. a \<in> set (tx_assignments s') \<Longrightarrow> \<exists>c\<in>set (tx_tags s). tag_id c = snd a \<and> active_canonical (f c)"
  shows "taxonomy_ok s'"
  unfolding taxonomy_ok_def
proof (intro conjI ballI allI impI)
  show "unique_key tag_id (tx_tags s')" "unique_key tag_tag (tx_tags s')"
    using taxonomy_okD(1,2) [OF ok] keep by (simp_all add: unique_key_def tags comp_def)
  show "distinct (tx_assignments s')" by (rule assigned)
  fix t i assume "t \<in> set (tx_tags s')" "tag_redirect t = Some i"
  then obtain u where u: "u \<in> set (tx_tags s)" "t = f u" "tag_redirect (f u) = Some i" by (auto simp: tags)
  from redirects [OF u(1,3)] obtain c where "c \<in> set (tx_tags s)" "tag_id c = i" "tag_redirect (f c) = None" "\<not> tag_archived (f u) \<longrightarrow> \<not> tag_archived (f c)" by blast
  with keep u(2) show "\<exists>c\<in>set (tx_tags s'). tag_id c = i \<and> tag_redirect c = None \<and> (\<not> tag_archived t \<longrightarrow> \<not> tag_archived c)"
    by (intro bexI [of _ "f c"]) (simp_all add: tags)
next
  fix a assume "a \<in> set (tx_assignments s')"
  from carried [OF this] obtain c where "c \<in> set (tx_tags s)" "tag_id c = snd a" "active_canonical (f c)" by blast
  with keep show "\<exists>c\<in>set (tx_tags s'). tag_id c = snd a \<and> active_canonical c"
    by (intro bexI [of _ "f c"]) (simp_all add: tags)
qed

lemma taxonomy_ok_fresh:
  assumes ok: "taxonomy_ok s" and new: "tag_id t \<notin> tag_id ` set (tx_tags s)" "tag_tag t \<notin> tag_tag ` set (tx_tags s)" "tag_redirect t = None"
  shows "taxonomy_ok (s\<lparr>tx_tags := tx_tags s @ [t]\<rparr>)"
proof -
  have "unique_key tag_id (tx_tags s @ [t])" "unique_key tag_tag (tx_tags s @ [t])"
    using unique_key_insert [OF taxonomy_okD(1) [OF ok] new(1)] unique_key_insert [OF taxonomy_okD(2) [OF ok] new(2)] by (simp_all add: sql_insert_def)
  moreover have "\<exists>c\<in>set (tx_tags s @ [t]). tag_id c = i \<and> tag_redirect c = None \<and> (\<not> tag_archived u \<longrightarrow> \<not> tag_archived c)"
    if "u \<in> set (tx_tags s @ [t])" "tag_redirect u = Some i" for u i
    using taxonomy_okD(4) [OF ok, of u i] that new(3) by auto
  moreover have "\<exists>c\<in>set (tx_tags s @ [t]). tag_id c = snd a \<and> active_canonical c" if "a \<in> set (tx_assignments s)" for a
    using taxonomy_okD(5) [OF ok that] by auto
  ultimately show ?thesis using taxonomy_okD(3) [OF ok] by (simp add: taxonomy_ok_def)
qed

lemma redirect_tag_ok:
  assumes ok: "taxonomy_ok s" and src: "u \<in> set (tx_tags s)" "tag_redirect u = None" and dest: "d \<in> set (tx_tags s)" "active_canonical d" "d \<noteq> u"
    and aliases: "set aliases = tag_id ` {t \<in> set (tx_tags s). tag_redirect t = Some (tag_id u)}"
  shows "taxonomy_ok (redirect_tag (tag_id u) aliases (tag_id d) s)"
proof -
  let ?ids = "tag_id u # aliases"
  have moved: "tag_id t \<in> set ?ids \<longleftrightarrow> t = u \<or> tag_redirect t = Some (tag_id u)" if "t \<in> set (tx_tags s)" for t
    using same_tag [OF ok] that src(1) by (auto simp: aliases image_iff)
  have stays: "tag_id c \<notin> set ?ids" if "c \<in> set (tx_tags s)" "tag_redirect c = None" "c \<noteq> u" for c
    using moved [OF that(1)] that by simp
  show ?thesis
  proof (rule taxonomy_ok_rewrite [OF ok, where f = "\<lambda>t. if tag_id t \<in> set ?ids then t\<lparr>tag_redirect := Some (tag_id d)\<rparr> else t"])
    fix t i assume t: "t \<in> set (tx_tags s)" "tag_redirect (if tag_id t \<in> set ?ids then t\<lparr>tag_redirect := Some (tag_id d)\<rparr> else t) = Some i"
    show "\<exists>c\<in>set (tx_tags s). tag_id c = i \<and> tag_redirect (if tag_id c \<in> set ?ids then c\<lparr>tag_redirect := Some (tag_id d)\<rparr> else c) = None
      \<and> (\<not> tag_archived (if tag_id t \<in> set ?ids then t\<lparr>tag_redirect := Some (tag_id d)\<rparr> else t)
        \<longrightarrow> \<not> tag_archived (if tag_id c \<in> set ?ids then c\<lparr>tag_redirect := Some (tag_id d)\<rparr> else c))"
    proof (cases "tag_id t \<in> set ?ids")
      case True
      with t stays [OF dest(1) _ dest(3)] dest show ?thesis by (intro bexI [of _ d]) (auto simp: active_canonical_def)
    next
      case False
      with t have "tag_redirect t = Some i" by simp
      from taxonomy_okD(4) [OF ok t(1) this] obtain c where c: "c \<in> set (tx_tags s)" "tag_id c = i" "tag_redirect c = None" "\<not> tag_archived t \<longrightarrow> \<not> tag_archived c" by blast
      have "c \<noteq> u" using False moved [OF t(1)] \<open>tag_redirect t = Some i\<close> c(2) by auto
      with stays [OF c(1,3)] c False show ?thesis by (intro bexI [of _ c]) auto
    qed
  next
    fix a assume "a \<in> set (tx_assignments (redirect_tag (tag_id u) aliases (tag_id d) s))"
    then obtain b where b: "b \<in> set (tx_assignments s)" "snd a = (if snd b = tag_id u then tag_id d else snd b)"
      by (auto simp: redirect_tag_def)
    show "\<exists>c\<in>set (tx_tags s). tag_id c = snd a \<and> active_canonical (if tag_id c \<in> set ?ids then c\<lparr>tag_redirect := Some (tag_id d)\<rparr> else c)"
    proof (cases "snd b = tag_id u")
      case True
      with b stays [OF dest(1) _ dest(3)] dest show ?thesis by (intro bexI [of _ d]) (auto simp: active_canonical_def)
    next
      case False
      from taxonomy_okD(5) [OF ok b(1)] obtain c where c: "c \<in> set (tx_tags s)" "tag_id c = snd b" "active_canonical c" by blast
      with False have "c \<noteq> u" by auto
      with stays [OF c(1)] c False b(2) show ?thesis by (intro bexI [of _ c]) (auto simp: active_canonical_def)
    qed
  qed (simp_all add: redirect_tag_def set_tags_def sql_update_def)
qed

lemma aliases_of_canonical:
  assumes ok: "taxonomy_ok s" and u: "u \<in> set (tx_tags s)" "tag_redirect u = None"
  shows "set (map tag_id (aliases_of s (tag_id u))) = tag_id ` {t \<in> set (tx_tags s). tag_redirect t = Some (tag_id u)}"
proof -
  have "t \<in> set (aliases_of s (tag_id u)) \<longleftrightarrow> t \<in> {t \<in> set (tx_tags s). tag_redirect t = Some (tag_id u)}" for t
  proof -
    have "tag_id t \<noteq> tag_id u" if "t \<in> set (tx_tags s)" "tag_redirect t = Some (tag_id u)"
      using same_tag [OF ok that(1) u(1)] that(2) u(2) by auto
    then show ?thesis
      using aliases_of_ok [OF ok, of t "tag_id u"] by (cases "tag_redirect t") (auto simp: target_id_def)
  qed
  then have "set (aliases_of s (tag_id u)) = {t \<in> set (tx_tags s). tag_redirect t = Some (tag_id u)}" by blast
  then show ?thesis by simp
qed

text \<open>New identifiers are not in use yet; stored ones are positive.\<close>

definition stored_ids :: "taxonomy \<Rightarrow> bool" where
  "stored_ids s = (\<forall>t\<in>set (tx_tags s). 0 < tag_id t)"

text \<open>What a change does, case by case.\<close>

lemma change_taxonomy_cases:
  assumes res: "change_taxonomy s u aliases change = Inr (s', destination)"
  obtains
    (title) title where "destination = None" "change \<noteq> Archive_tag (changed_tag change)" "s' = set_tags [tag_id u] (\<lambda>t. t\<lparr>tg_title := title\<rparr>) s"
  | (rename) tag title where "active_canonical u" "tag \<notin> tag_tag ` set (tx_tags s)"
      "destination = Some (u\<lparr>tag_id := -1, tag_tag := tag, tg_title := title\<rparr>)"
      "s' = redirect_tag (tag_id u) aliases (-1) (s\<lparr>tx_tags := tx_tags s @ [u\<lparr>tag_id := -1, tag_tag := tag, tg_title := title\<rparr>]\<rparr>)"
  | (merge) j d where "change = Merge_tag (changed_tag change) j" "active_canonical u" "d \<in> set (tx_tags s)" "tag_id d = j" "active_canonical d"
      "destination = Some d" "s' = redirect_tag (tag_id u) aliases j s"
  | (archive) "change = Archive_tag (changed_tag change)" "destination = None" "\<not> tag_archived u" "tag_redirect u = None"
      "s' = (set_tags (tag_id u # aliases) (\<lambda>t. t\<lparr>tag_archived := True\<rparr>) s)\<lparr>tx_assignments := filter (\<lambda>a. snd a \<noteq> tag_id u) (tx_assignments s)\<rparr>"
  | (archive_alias) "change = Archive_tag (changed_tag change)" "destination = None" "tag_redirect u \<noteq> None"
      "s' = set_tags [tag_id u] (\<lambda>t. t\<lparr>tag_archived := True\<rparr>) s"
  | (restore) "change = Restore_tag (changed_tag change)" "destination = None" "tag_archived u"
      "tag_redirect u = None \<or> (\<exists>c. canonical_id (tx_tags s) (tag_id u) = Inr c
         \<and> pred_option (\<lambda>t. \<not> tag_archived t) (sql_first (\<lambda>t. tag_id t = c) (tx_tags s)))"
      "s' = set_tags [tag_id u] (\<lambda>t. t\<lparr>tag_archived := False\<rparr>) s"
proof (cases change)
  case (Edit_tag i tag title)
  show ?thesis
  proof (cases "tag = tag_tag u")
    case True
    with res Edit_tag show ?thesis by (auto simp: change_taxonomy_def split: if_splits intro: title)
  next
    case False
    with res Edit_tag show ?thesis
      by (intro rename [of tag title]) (auto simp: change_taxonomy_def Let_def list_ex_iff split: if_splits)
  qed
next
  case (Merge_tag i j)
  with res obtain d where d: "sql_first (\<lambda>t. tag_id t = j) (tx_tags s) = Some d" "active_canonical u" "active_canonical d"
    "destination = Some d" "s' = redirect_tag (tag_id u) aliases j s"
    by (auto simp: change_taxonomy_def split: if_splits option.splits)
  from sql_first_SomeD [OF d(1)] show ?thesis by (intro merge [of j d]) (use Merge_tag d in auto)
next
  case (Archive_tag i)
  with res show ?thesis by (auto simp: change_taxonomy_def split: if_splits intro: archive archive_alias)
next
  case (Restore_tag i)
  with res have r: "tag_archived u" "destination = None" "s' = set_tags [tag_id u] (\<lambda>t. t\<lparr>tag_archived := False\<rparr>) s"
    by (auto simp: change_taxonomy_def rbind_Inr_iff split: if_splits option.splits)
  have "tag_redirect u = None \<or> (\<exists>c. canonical_id (tx_tags s) (tag_id u) = Inr c
         \<and> pred_option (\<lambda>t. \<not> tag_archived t) (sql_first (\<lambda>t. tag_id t = c) (tx_tags s)))"
    using res Restore_tag by (auto simp: change_taxonomy_def rbind_Inr_iff split: if_splits option.splits)
  with r Restore_tag show ?thesis by (intro restore) simp_all
qed

lemma set_tags_map: "tx_tags (set_tags ids f s) = map (\<lambda>t. if tag_id t \<in> set ids then f t else t) (tx_tags s)"
  "tx_assignments (set_tags ids f s) = tx_assignments s" "tx_pages (set_tags ids f s) = tx_pages s" "tx_groups (set_tags ids f s) = tx_groups s"
  by (simp_all add: set_tags_def sql_update_def)

lemma change_taxonomy_ok:
  assumes ok: "taxonomy_ok s" and stored: "stored_ids s" and u: "u \<in> set (tx_tags s)"
    and target: "\<And>i j. change = Merge_tag i j \<Longrightarrow> j \<noteq> tag_id u"
    and res: "change_taxonomy s u (map tag_id (aliases_of s (tag_id u))) change = Inr (s', destination)"
  shows "taxonomy_ok s'"
  using res
proof (cases rule: change_taxonomy_cases)
  case (title title)
  define f where "f t = (if tag_id t \<in> set [tag_id u] then t\<lparr>tg_title := title\<rparr> else t)" for t :: tag_row
  have f: "tag_id (f t) = tag_id t" "tag_tag (f t) = tag_tag t" "tag_redirect (f t) = tag_redirect t" "tag_archived (f t) = tag_archived t" for t
    by (simp_all add: f_def)
  have s': "tx_tags s' = map f (tx_tags s)" "tx_assignments s' = tx_assignments s"
    using title by (simp_all add: set_tags_map f_def)
  show ?thesis
    by (rule taxonomy_ok_rewrite [OF ok f(1,2) s'(1)]) (use s' taxonomy_okD(3-5) [OF ok] in \<open>simp_all add: f active_canonical_def\<close>)
next
  case (rename tag title)
  let ?new = "u\<lparr>tag_id := -1, tag_tag := tag, tg_title := title\<rparr>" and ?s = "s\<lparr>tx_tags := tx_tags s @ [u\<lparr>tag_id := -1, tag_tag := tag, tg_title := title\<rparr>]\<rparr>"
  have fresh: "tag_id ?new \<notin> tag_id ` set (tx_tags s)" using stored by (auto simp: stored_ids_def)
  have other: "?new \<noteq> u"
  proof
    assume "?new = u"
    with fresh u show False by simp
  qed
  have ok': "taxonomy_ok ?s"
    by (rule taxonomy_ok_fresh [OF ok fresh]) (use rename in \<open>simp_all add: active_canonical_def\<close>)
  have "tag_redirect u = None" using rename(1) by (simp add: active_canonical_def)
  have "set (map tag_id (aliases_of s (tag_id u))) = tag_id ` {t \<in> set (tx_tags ?s). tag_redirect t = Some (tag_id u)}"
    unfolding aliases_of_canonical [OF ok u \<open>tag_redirect u = None\<close>] using \<open>tag_redirect u = None\<close> by auto
  from redirect_tag_ok [OF ok' _ \<open>tag_redirect u = None\<close> _ _ other this] u rename(1,4) show ?thesis
    by (simp add: active_canonical_def)
next
  case (merge j d)
  from merge(2) have r: "tag_redirect u = None" by (simp add: active_canonical_def)
  have "d \<noteq> u" using target merge(1,4) by metis
  from redirect_tag_ok [OF ok u r merge(3,5) this aliases_of_canonical [OF ok u r]] merge(4,7) show ?thesis by simp
next
  case archive
  let ?ids = "tag_id u # map tag_id (aliases_of s (tag_id u))"
  have moved: "tag_id t \<in> set ?ids \<longleftrightarrow> t = u \<or> tag_redirect t = Some (tag_id u)" if "t \<in> set (tx_tags s)" for t
    unfolding list.set aliases_of_canonical [OF ok u archive(4)] using same_tag [OF ok that] that u by (auto simp: image_iff)
  show ?thesis
  proof (rule taxonomy_ok_rewrite [OF ok, where f = "\<lambda>t. if tag_id t \<in> set ?ids then t\<lparr>tag_archived := True\<rparr> else t"])
    fix t i assume t: "t \<in> set (tx_tags s)" "tag_redirect (if tag_id t \<in> set ?ids then t\<lparr>tag_archived := True\<rparr> else t) = Some i"
    then have i: "tag_redirect t = Some i" by (simp split: if_splits)
    from taxonomy_okD(4) [OF ok t(1) i] obtain c where c: "c \<in> set (tx_tags s)" "tag_id c = i" "tag_redirect c = None" "\<not> tag_archived t \<longrightarrow> \<not> tag_archived c" by blast
    have "tag_id c \<notin> set ?ids" if "tag_id t \<notin> set ?ids" using moved [OF c(1)] moved [OF t(1)] that c i by auto
    with c show "\<exists>c\<in>set (tx_tags s). tag_id c = i \<and> tag_redirect (if tag_id c \<in> set ?ids then c\<lparr>tag_archived := True\<rparr> else c) = None
      \<and> (\<not> tag_archived (if tag_id t \<in> set ?ids then t\<lparr>tag_archived := True\<rparr> else t)
        \<longrightarrow> \<not> tag_archived (if tag_id c \<in> set ?ids then c\<lparr>tag_archived := True\<rparr> else c))"
      by (intro bexI [of _ c]) auto
  next
    fix a assume "a \<in> set (tx_assignments s')"
    then have a: "a \<in> set (tx_assignments s)" "snd a \<noteq> tag_id u" using archive by (auto simp: set_tags_map)
    from taxonomy_okD(5) [OF ok a(1)] obtain c where c: "c \<in> set (tx_tags s)" "tag_id c = snd a" "active_canonical c" by blast
    with moved [OF c(1)] a(2) show "\<exists>c\<in>set (tx_tags s). tag_id c = snd a \<and> active_canonical (if tag_id c \<in> set ?ids then c\<lparr>tag_archived := True\<rparr> else c)"
      by (intro bexI [of _ c]) (auto simp: active_canonical_def)
  qed (use archive taxonomy_okD(3) [OF ok] in \<open>simp_all add: set_tags_map\<close>)
next
  case archive_alias
  have other: "tag_id c \<noteq> tag_id u" if "c \<in> set (tx_tags s)" "tag_redirect c = None" for c
    using same_tag [OF ok that(1) u] that(2) archive_alias(3) by auto
  show ?thesis
  proof (rule taxonomy_ok_rewrite [OF ok, where f = "\<lambda>t. if tag_id t \<in> set [tag_id u] then t\<lparr>tag_archived := True\<rparr> else t"])
    fix t i assume t: "t \<in> set (tx_tags s)" "tag_redirect (if tag_id t \<in> set [tag_id u] then t\<lparr>tag_archived := True\<rparr> else t) = Some i"
    then have "tag_redirect t = Some i" by (simp split: if_splits)
    from taxonomy_okD(4) [OF ok t(1) this] obtain c where c: "c \<in> set (tx_tags s)" "tag_id c = i" "tag_redirect c = None" "\<not> tag_archived t \<longrightarrow> \<not> tag_archived c" by blast
    with other [OF c(1,3)]
    show "\<exists>c\<in>set (tx_tags s). tag_id c = i \<and> tag_redirect (if tag_id c \<in> set [tag_id u] then c\<lparr>tag_archived := True\<rparr> else c) = None
      \<and> (\<not> tag_archived (if tag_id t \<in> set [tag_id u] then t\<lparr>tag_archived := True\<rparr> else t)
        \<longrightarrow> \<not> tag_archived (if tag_id c \<in> set [tag_id u] then c\<lparr>tag_archived := True\<rparr> else c))"
      by (intro bexI [of _ c]) auto
  next
    fix a assume "a \<in> set (tx_assignments s')"
    then have "a \<in> set (tx_assignments s)" using archive_alias by (simp add: set_tags_map)
    from taxonomy_okD(5) [OF ok this] obtain c where c: "c \<in> set (tx_tags s)" "tag_id c = snd a" "active_canonical c" by blast
    with other [OF c(1)]
    show "\<exists>c\<in>set (tx_tags s). tag_id c = snd a \<and> active_canonical (if tag_id c \<in> set [tag_id u] then c\<lparr>tag_archived := True\<rparr> else c)"
      by (intro bexI [of _ c]) (auto simp: active_canonical_def)
  qed (use archive_alias taxonomy_okD(3) [OF ok] in \<open>simp_all add: set_tags_map\<close>)
next
  case restore
  show ?thesis
  proof (rule taxonomy_ok_rewrite [OF ok, where f = "\<lambda>t. if tag_id t \<in> set [tag_id u] then t\<lparr>tag_archived := False\<rparr> else t"])
    fix t i assume t: "t \<in> set (tx_tags s)" "tag_redirect (if tag_id t \<in> set [tag_id u] then t\<lparr>tag_archived := False\<rparr> else t) = Some i"
    then have i: "tag_redirect t = Some i" by (simp split: if_splits)
    from taxonomy_okD(4) [OF ok t(1) i] obtain c where c: "c \<in> set (tx_tags s)" "tag_id c = i" "tag_redirect c = None" "\<not> tag_archived t \<longrightarrow> \<not> tag_archived c" by blast
    have "\<not> tag_archived c" if "tag_id t = tag_id u"
    proof -
      have "t = u" by (rule same_tag [OF ok t(1) u that])
      with restore(4) i canonical_id_ok [OF ok u] have "pred_option (\<lambda>t. \<not> tag_archived t) (sql_first (\<lambda>t. tag_id t = i) (tx_tags s))"
        by (auto simp: target_id_def)
      moreover have "sql_first (\<lambda>t. tag_id t = i) (tx_tags s) = Some c"
        by (rule sql_first_unique [OF taxonomy_okD(1) [OF ok] c(1), where key = i]) (use c in auto)
      ultimately show ?thesis by simp
    qed
    with c show "\<exists>c\<in>set (tx_tags s). tag_id c = i \<and> tag_redirect (if tag_id c \<in> set [tag_id u] then c\<lparr>tag_archived := False\<rparr> else c) = None
      \<and> (\<not> tag_archived (if tag_id t \<in> set [tag_id u] then t\<lparr>tag_archived := False\<rparr> else t)
        \<longrightarrow> \<not> tag_archived (if tag_id c \<in> set [tag_id u] then c\<lparr>tag_archived := False\<rparr> else c))"
      by (intro bexI [of _ c]) auto
  next
    fix a assume "a \<in> set (tx_assignments s')"
    then have "a \<in> set (tx_assignments s)" using restore by (simp add: set_tags_map)
    from taxonomy_okD(5) [OF ok this]
    show "\<exists>c\<in>set (tx_tags s). tag_id c = snd a \<and> active_canonical (if tag_id c \<in> set [tag_id u] then c\<lparr>tag_archived := False\<rparr> else c)"
      by (fastforce simp: active_canonical_def)
  qed (use restore taxonomy_okD(3) [OF ok] in \<open>simp_all add: set_tags_map\<close>)
qed

section \<open>The scope of a change\<close>

text \<open>
  What all changes have in common: rows are rewritten in place and keep identifier and name, only
  the source and its aliases are touched, at most one row is added, and the pages of every tag but
  the source and the destination stay.
\<close>

definition row_rewrite :: "(tag_row \<Rightarrow> tag_row) \<Rightarrow> bool" where
  "row_rewrite f = (\<forall>t. tag_id (f t) = tag_id t \<and> tag_tag (f t) = tag_tag t)"

definition added_rows :: "taxonomy \<Rightarrow> tag_row option \<Rightarrow> tag_row list" where
  "added_rows s destination = (case destination of None \<Rightarrow> [] | Some d \<Rightarrow> if d \<in> set (tx_tags s) then [] else [d])"

definition touched :: "taxonomy \<Rightarrow> tag_row \<Rightarrow> tag_row \<Rightarrow> bool" where
  "touched s u t = (tag_id t = tag_id u \<or> t \<in> set (aliases_of s (tag_id u)))"

definition change_scope :: "taxonomy \<Rightarrow> tag_row \<Rightarrow> taxonomy \<Rightarrow> tag_row option \<Rightarrow> (tag_row \<Rightarrow> tag_row) \<Rightarrow> bool" where
  "change_scope s u s' destination f = (row_rewrite f \<and> tx_tags s' = map f (tx_tags s @ added_rows s destination)
     \<and> tx_pages s' = tx_pages s \<and> tx_groups s' = tx_groups s
     \<and> (\<forall>t\<in>set (tx_tags s @ added_rows s destination). \<not> touched s u t \<longrightarrow> f t = t)
     \<and> (case destination of None \<Rightarrow> True
        | Some d \<Rightarrow> active_canonical d \<and> \<not> touched s u d \<and> tag_tag d \<noteq> tag_tag u \<and> (d \<in> set (tx_tags s) \<or> tag_tag d \<notin> tag_tag ` set (tx_tags s)))
     \<and> (\<forall>p i. i \<noteq> tag_id u \<longrightarrow> i \<notin> tag_id ` set_option destination \<longrightarrow> ((p, i) \<in> set (tx_assignments s') \<longleftrightarrow> (p, i) \<in> set (tx_assignments s))))"

lemma row_rewrite_if: "(\<And>t. tag_id (g t) = tag_id t) \<Longrightarrow> (\<And>t. tag_tag (g t) = tag_tag t) \<Longrightarrow> row_rewrite (\<lambda>t. if b t then g t else t)"
  by (simp add: row_rewrite_def)

lemma scope_in_place:
  assumes "row_rewrite (\<lambda>t. if tag_id t \<in> set ids then g t else t)" "tx_tags s' = tx_tags (set_tags ids g s)"
    "tx_pages s' = tx_pages s" "tx_groups s' = tx_groups s"
    and "\<And>t. t \<in> set (tx_tags s) \<Longrightarrow> tag_id t \<in> set ids \<Longrightarrow> touched s u t"
    and "\<And>p i. i \<noteq> tag_id u \<Longrightarrow> (p, i) \<in> set (tx_assignments s') \<longleftrightarrow> (p, i) \<in> set (tx_assignments s)"
  shows "\<exists>f. change_scope s u s' None f"
  using assms by (intro exI [of _ "\<lambda>t. if tag_id t \<in> set ids then g t else t"]) (auto simp: change_scope_def added_rows_def set_tags_map)

lemma redirect_scope:
  assumes ok: "taxonomy_ok s" and u: "u \<in> set (tx_tags s)" "active_canonical u"
    and d: "active_canonical d" "tag_id d \<noteq> tag_id u" "tag_tag d \<noteq> tag_tag u"
    and known: "d \<in> set (tx_tags s) \<or> tag_id d \<notin> tag_id ` set (tx_tags s) \<and> tag_tag d \<notin> tag_tag ` set (tx_tags s)"
    and s': "s' = redirect_tag (tag_id u) (map tag_id (aliases_of s (tag_id u))) (tag_id d) (s\<lparr>tx_tags := tx_tags s @ added_rows s (Some d)\<rparr>)"
  shows "\<exists>f. change_scope s u s' (Some d) f"
proof -
  let ?ids = "tag_id u # map tag_id (aliases_of s (tag_id u))"
  let ?f = "\<lambda>t :: tag_row. if tag_id t \<in> set ?ids then t\<lparr>tag_redirect := Some (tag_id d)\<rparr> else t"
  have known_alias: "t \<in> set (tx_tags s)" if "t \<in> set (aliases_of s i)" for t i using that by (simp add: aliases_of_ok [OF ok])
  have nd: "\<not> touched s u d"
    using d(1,2) by (auto simp: touched_def aliases_of_ok [OF ok] active_canonical_def target_id_def)
  have touch: "touched s u t" if "t \<in> set (tx_tags s @ added_rows s (Some d))" "tag_id t \<in> set ?ids" for t
  proof (cases "t \<in> set (tx_tags s)")
    case True
    with that(2) known_alias same_tag [OF ok True] show ?thesis by (auto simp: touched_def)
  next
    case False
    with that(1) have "t = d" "d \<notin> set (tx_tags s)" by (auto simp: added_rows_def split: if_splits)
    with known that(2) known_alias d(2) show ?thesis by auto
  qed
  have "row_rewrite ?f" by (rule row_rewrite_if) simp_all
  moreover have "tx_tags s' = map ?f (tx_tags s @ added_rows s (Some d))" "tx_pages s' = tx_pages s" "tx_groups s' = tx_groups s"
    by (simp_all add: s' redirect_tag_def set_tags_map)
  moreover have "\<forall>t\<in>set (tx_tags s @ added_rows s (Some d)). \<not> touched s u t \<longrightarrow> ?f t = t" using touch by auto
  moreover have "(p, i) \<in> set (tx_assignments s') \<longleftrightarrow> (p, i) \<in> set (tx_assignments s)" if "i \<noteq> tag_id u" "i \<noteq> tag_id d" for p i
    using that by (force simp: s' redirect_tag_def set_tags_map image_iff split: if_splits)
  ultimately show ?thesis
    using d nd known unfolding change_scope_def by (intro exI [of _ ?f]) auto
qed

lemma change_taxonomy_scope:
  assumes ok: "taxonomy_ok s" and stored: "stored_ids s" and u: "u \<in> set (tx_tags s)"
    and target: "\<And>i j. change = Merge_tag i j \<Longrightarrow> j \<noteq> tag_id u"
    and res: "change_taxonomy s u (map tag_id (aliases_of s (tag_id u))) change = Inr (s', destination)"
  shows "\<exists>f. change_scope s u s' destination f"
  using res
proof (cases rule: change_taxonomy_cases)
  case (title title)
  show ?thesis
    unfolding title(1) by (rule scope_in_place [where ids = "[tag_id u]" and g = "\<lambda>t. t\<lparr>tg_title := title\<rparr>"]) (use title in \<open>simp_all add: set_tags_map touched_def row_rewrite_def\<close>)
next
  case (rename tag title)
  let ?new = "u\<lparr>tag_id := -1, tag_tag := tag, tg_title := title\<rparr>"
  have "tag_id ?new \<notin> tag_id ` set (tx_tags s)" using stored by (auto simp: stored_ids_def)
  moreover then have "?new \<notin> set (tx_tags s)" by blast
  moreover have "tag_id ?new \<noteq> tag_id u" "tag \<noteq> tag_tag u" using calculation(1) u rename(2) by auto
  ultimately show ?thesis
    unfolding rename(3) by (intro redirect_scope [OF ok u rename(1)]) (use rename in \<open>simp_all add: added_rows_def active_canonical_def\<close>)
next
  case (merge j d)
  have "tag_id d \<noteq> tag_id u" using target merge(1,4) by metis
  moreover have "tag_tag d \<noteq> tag_tag u" using same_name [OF ok merge(3) u] calculation by auto
  ultimately show ?thesis
    unfolding merge(6) by (intro redirect_scope [OF ok u merge(2)]) (use merge in \<open>simp_all add: added_rows_def\<close>)
next
  case archive
  have "touched s u t" if "t \<in> set (tx_tags s)" "tag_id t \<in> set (tag_id u # map tag_id (aliases_of s (tag_id u)))" for t
  proof (cases "tag_id t = tag_id u")
    case False
    with that(2) obtain a where a: "a \<in> set (aliases_of s (tag_id u))" "tag_id a = tag_id t" by auto
    then have "a = t" by (intro same_tag [OF ok _ that(1)]) (simp_all add: aliases_of_ok [OF ok])
    with a show ?thesis by (simp add: touched_def)
  qed (simp add: touched_def)
  moreover have "(p, i) \<in> set (tx_assignments s') \<longleftrightarrow> (p, i) \<in> set (tx_assignments s)" if "i \<noteq> tag_id u" for p i
    using that archive(5) by simp
  moreover have "tx_tags s' = tx_tags (set_tags (tag_id u # map tag_id (aliases_of s (tag_id u))) (\<lambda>t. t\<lparr>tag_archived := True\<rparr>) s)"
    "tx_pages s' = tx_pages s" "tx_groups s' = tx_groups s" using archive(5) by (simp_all add: set_tags_map(3,4))
  moreover have "row_rewrite (\<lambda>t. if tag_id t \<in> set (tag_id u # map tag_id (aliases_of s (tag_id u))) then t\<lparr>tag_archived := True\<rparr> else t)"
    by (rule row_rewrite_if) simp_all
  ultimately show ?thesis
    unfolding archive(2) by - (rule scope_in_place)
next
  case archive_alias
  show ?thesis
    unfolding archive_alias(2) by (rule scope_in_place [where ids = "[tag_id u]" and g = "\<lambda>t. t\<lparr>tag_archived := True\<rparr>"]) (use archive_alias in \<open>simp_all add: set_tags_map touched_def row_rewrite_def\<close>)
next
  case restore
  show ?thesis
    unfolding restore(2) by (rule scope_in_place [where ids = "[tag_id u]" and g = "\<lambda>t. t\<lparr>tag_archived := False\<rparr>"]) (use restore in \<open>simp_all add: set_tags_map touched_def row_rewrite_def\<close>)
qed

section \<open>What a name leads to\<close>

definition leads :: "taxonomy \<Rightarrow> string \<Rightarrow> tag_row \<Rightarrow> bool" where
  "leads s n c = (c \<in> set (tx_tags s) \<and> active_canonical c
     \<and> (\<exists>t\<in>set (tx_tags s). tag_tag t = n \<and> \<not> tag_archived t \<and> target_id t = tag_id c))"

lemma alias_map_leads:
  assumes ok: "taxonomy_ok s" and m: "tag_alias_map (tx_tags s) = Inr m"
  shows "m n = Some (Some x) \<longleftrightarrow> (\<exists>c. leads s n c \<and> tag_tag c = x)"
proof -
  from alias_map_ok [OF ok] m obtain
    arch: "\<And>t. t \<in> set (tx_tags s) \<Longrightarrow> tag_archived t \<Longrightarrow> m (tag_tag t) = Some None" and
    live: "\<And>t. t \<in> set (tx_tags s) \<Longrightarrow> \<not> tag_archived t \<Longrightarrow>
      \<exists>c\<in>set (tx_tags s). tag_id c = target_id t \<and> active_canonical c \<and> m (tag_tag t) = Some (Some (tag_tag c))" and
    none: "\<And>n. n \<notin> tag_tag ` set (tx_tags s) \<Longrightarrow> m n = None" by auto
  show ?thesis
  proof
    assume a: "m n = Some (Some x)"
    with none [of n] have "n \<in> tag_tag ` set (tx_tags s)" by (cases "n \<in> tag_tag ` set (tx_tags s)") auto
    then obtain t where t: "t \<in> set (tx_tags s)" "tag_tag t = n" by blast
    with arch a have "\<not> tag_archived t" by auto
    with live [OF t(1)] obtain c where c: "c \<in> set (tx_tags s)" "tag_id c = target_id t" "active_canonical c" "m (tag_tag t) = Some (Some (tag_tag c))" by blast
    with \<open>\<not> tag_archived t\<close> t have "leads s n c" unfolding leads_def by auto
    with a t c show "\<exists>c. leads s n c \<and> tag_tag c = x" by auto
  next
    assume "\<exists>c. leads s n c \<and> tag_tag c = x"
    then obtain c t where c: "c \<in> set (tx_tags s)" "tag_tag c = x" "t \<in> set (tx_tags s)" "tag_tag t = n" "\<not> tag_archived t" "target_id t = tag_id c"
      by (auto simp: leads_def)
    from live [OF c(3,5)] obtain d where "d \<in> set (tx_tags s)" "tag_id d = tag_id c" "m n = Some (Some (tag_tag d))" using c by auto
    with same_tag [OF ok _ c(1)] c(2) show "m n = Some (Some x)" by auto
  qed
qed

definition selects :: "access_rule \<Rightarrow> taxonomy_page \<Rightarrow> bool" where
  "selects rule p = (tp_public p \<and> (case rule_locales rule of None \<Rightarrow> True | Some ls \<Rightarrow> ls = [] \<or> tp_locale p \<in> set ls))"

lemma rule_pages_leads:
  assumes ok: "taxonomy_ok s" and m: "tag_alias_map (tx_tags s) = Inr m"
  shows "i \<in> set (rule_pages s m rule) \<longleftrightarrow>
    (\<exists>c. leads s (rule_path rule) c \<and> tag_tag c \<noteq> [] \<and> (i, tag_id c) \<in> set (tx_assignments s) \<and> (\<exists>p\<in>set (tx_pages s). tp_id p = i \<and> selects rule p))"
    (is "?l \<longleftrightarrow> (\<exists>c. ?r c)")
proof
  assume l: ?l
  then obtain x where path: "m (rule_path rule) = Some (Some x)" "x \<noteq> []"
    by (cases "m (rule_path rule)") (auto simp: rule_pages_def split: option.splits if_splits)
  from l path have "\<exists>t. t \<in> set (tx_tags s) \<and> m (tag_tag t) = Some (Some x) \<and> \<not> tag_archived t \<and> (i, tag_id t) \<in> set (tx_assignments s)"
    and p: "\<exists>p\<in>set (tx_pages s). tp_id p = i \<and> selects rule p"
    by (auto simp: rule_pages_def selects_def Let_def)
  with path obtain t where x: "m (rule_path rule) = Some (Some x)" "x \<noteq> []" "t \<in> set (tx_tags s)" "m (tag_tag t) = Some (Some x)" "\<not> tag_archived t"
      "(i, tag_id t) \<in> set (tx_assignments s)" by blast
  from taxonomy_okD(5) [OF ok x(6)] same_tag [OF ok _ x(3)] have "active_canonical t" by auto
  then have "leads s (tag_tag t) t" using x(3) by (auto simp: leads_def active_canonical_def target_id_def)
  then have "m (tag_tag t) = Some (Some (tag_tag t))" using alias_map_leads [OF ok m] by blast
  with x(4) have "tag_tag t = x" by simp
  moreover from x(1) alias_map_leads [OF ok m] obtain c where c: "leads s (rule_path rule) c" "tag_tag c = x" by blast
  ultimately have "c = t" using same_name [OF ok _ x(3)] c(1) by (auto simp: leads_def)
  with c x p show "\<exists>c. ?r c" by blast
next
  assume "\<exists>c. ?r c"
  then obtain c where c: "?r c" ..
  then have c': "c \<in> set (tx_tags s)" "active_canonical c" by (auto simp: leads_def)
  then have "leads s (tag_tag c) c" by (auto simp: leads_def active_canonical_def target_id_def)
  then have "m (tag_tag c) = Some (Some (tag_tag c))" "m (rule_path rule) = Some (Some (tag_tag c))"
    using alias_map_leads [OF ok m] c by blast+
  with c c' show ?l by (force simp: rule_pages_def selects_def Let_def active_canonical_def)
qed

text \<open>A name that was and is not connected to the source or the destination leads where it led.\<close>

lemma leads_unaffected:
  assumes ok: "taxonomy_ok s" and ok': "taxonomy_ok s'" and u: "u \<in> set (tx_tags s)" and scope: "change_scope s u s' destination f"
    and n: "\<And>t. t \<in> set (tx_tags s) \<Longrightarrow> touched s u t \<Longrightarrow> tag_tag t \<noteq> n" "n \<notin> tag_tag ` set_option destination"
    and d: "\<And>d. destination = Some d \<Longrightarrow> \<not> leads s' n d"
  shows "leads s n c \<and> (i, tag_id c) \<in> set (tx_assignments s) \<longleftrightarrow> leads s' n c \<and> (i, tag_id c) \<in> set (tx_assignments s')"
proof -
  let ?rows = "tx_tags s @ added_rows s destination"
  have tags: "tx_tags s' = map f ?rows" and keep: "\<And>t. t \<in> set ?rows \<Longrightarrow> \<not> touched s u t \<Longrightarrow> f t = t" and rw: "row_rewrite f"
    and moved: "\<And>i p. i \<noteq> tag_id u \<Longrightarrow> i \<notin> tag_id ` set_option destination \<Longrightarrow> (p, i) \<in> set (tx_assignments s') \<longleftrightarrow> (p, i) \<in> set (tx_assignments s)"
    using scope by (auto simp: change_scope_def)
  have dest: "\<And>d. destination = Some d \<Longrightarrow> active_canonical d \<and> f d = d \<and> d \<in> set (tx_tags s')"
    using scope by (auto simp: change_scope_def added_rows_def split: if_splits) (metis image_eqI)+
  have named: "t \<in> set (tx_tags s) \<and> \<not> touched s u t \<and> f t = t" if "t \<in> set ?rows" "tag_tag t = n" for t
    using that n keep [of t] by (auto simp: added_rows_def split: option.splits if_splits)
  have canonical: "c \<in> set (tx_tags s) \<and> \<not> touched s u c" if "t \<in> set (tx_tags s)" "\<not> touched s u t" "c \<in> set (tx_tags s)" "target_id t = tag_id c" "tag_redirect c = None" for t c
    using that by (auto simp: touched_def aliases_of_ok [OF ok] target_id_def)
  have old: "leads s' n c \<and> tag_id c \<noteq> tag_id u" if "leads s n c"
  proof -
    from that obtain t where t: "t \<in> set (tx_tags s)" "tag_tag t = n" "\<not> tag_archived t" "target_id t = tag_id c" and c: "c \<in> set (tx_tags s)" "active_canonical c"
      by (auto simp: leads_def)
    from canonical [OF t(1) _ c(1) t(4)] named [of t] t c have "\<not> touched s u c" by (auto simp: active_canonical_def)
    moreover then have "f c = c" "f t = t" using keep [of c] named [of t] t c by auto
    moreover then have "c \<in> set (tx_tags s')" "t \<in> set (tx_tags s')" using c(1) t(1) tags by (auto simp: image_iff) metis+
    ultimately show ?thesis using t c by (auto simp: leads_def touched_def)
  qed
  have new: "leads s n c" if "leads s' n c"
  proof -
    from that have "\<exists>t\<in>set ?rows. tag_tag (f t) = n \<and> \<not> tag_archived (f t) \<and> target_id (f t) = tag_id c" by (auto simp: leads_def tags)
    with rw obtain t where t: "t \<in> set ?rows" "tag_tag t = n" "\<not> tag_archived (f t)" "target_id (f t) = tag_id c" by (auto simp: row_rewrite_def)
    from named [OF t(1,2)] have t': "t \<in> set (tx_tags s)" "\<not> touched s u t" "f t = t" by auto
    from target_exists [OF ok t'(1)] obtain e where e: "e \<in> set (tx_tags s)" "tag_id e = target_id t" "tag_redirect e = None" "\<not> tag_archived e"
      using t(3) t'(3) by auto
    from canonical [OF t'(1,2) e(1) e(2) [symmetric] e(3)] keep [of e] have "f e = e" by auto
    then have "e \<in> set (tx_tags s')" using e(1) tags by (auto simp: image_iff) (metis)
    moreover have "c \<in> set (tx_tags s')" using that by (simp add: leads_def)
    ultimately have "c = e" using same_tag [OF ok'] t(4) t'(3) e(2) by auto
    with e t t' show ?thesis by (auto simp: leads_def active_canonical_def)
  qed
  have "tag_id c \<notin> tag_id ` set_option destination" if "leads s' n c"
    using that dest d same_tag [OF ok', of c] by (auto simp: leads_def)
  with old new moved [of "tag_id c" i] show ?thesis by blast
qed

section \<open>Plans\<close>

lemma rmap_all2: "rmap f xs = Inr ys \<Longrightarrow> list_all2 (\<lambda>x y. f x = Inr y) xs ys"
  by (induction xs arbitrary: ys) (auto simp: rbind_Inr_iff)

lemma inventory_rows:
  assumes "taxonomy_inventory s = Inr inventory"
  shows "map tag_row.truncate inventory = tx_tags s"
proof -
  have row: "tag_row.truncate y = t" if "inventory_entry s aliases t = Inr y" for aliases t y
    using that by (cases t) (auto simp: inventory_entry_def rbind_Inr_iff tag_row.defs)
  from assms obtain aliases where "rmap (inventory_entry s aliases) (tx_tags s) = Inr inventory"
    by (auto simp: taxonomy_inventory_def rbind_Inr_iff)
  from rmap_all2 [OF this] have "list_all2 (\<lambda>t y. tag_row.truncate y = t) (tx_tags s) inventory"
    by (rule list.rel_mono_strong) (auto intro: row)
  then show ?thesis by (induction rule: list_all2_induct) simp_all
qed

lemma truncate_fields [simp]:
  "tag_id (tag_row.truncate y) = tag_id y" "tag_tag (tag_row.truncate y) = tag_tag y"
  by (cases y; simp add: tag_row.defs)+

lemma inventory_entry_of:
  assumes inv: "taxonomy_inventory s = Inr inventory" and first: "sql_first (\<lambda>t. tag_id t = i) inventory = Some y"
  shows "tag_row.truncate y \<in> set (tx_tags s) \<and> tag_id y = i"
  using sql_first_SomeD [OF first] unfolding inventory_rows [OF inv, symmetric] by auto

lemma inventory_entry_exists:
  assumes ok: "taxonomy_ok s" and inv: "taxonomy_inventory s = Inr inventory" and t: "t \<in> set (tx_tags s)"
  shows "\<exists>y. sql_first (\<lambda>x. tag_id x = tag_id t) inventory = Some y \<and> tag_tag y = tag_tag t"
proof -
  from t obtain z where "z \<in> set inventory" "t = tag_row.truncate z" unfolding inventory_rows [OF inv, symmetric] by auto
  then have "sql_first (\<lambda>x. tag_id x = tag_id t) inventory \<noteq> None" by (auto simp: sql_first_None)
  then obtain y where y: "sql_first (\<lambda>x. tag_id x = tag_id t) inventory = Some y" by auto
  have "tag_row.truncate y = t" using inventory_entry_of [OF inv y] by (intro same_tag [OF ok _ t]) simp_all
  then have "tag_tag y = tag_tag t" using truncate_fields(2) [of y] by simp
  with y show ?thesis by blast
qed

lemma read_merge: "read_change v = Inr (Merge_tag i j) \<Longrightarrow> i \<noteq> j"
  by (auto simp: read_change_def rbind_Inr_iff split: option.splits if_splits)

lemma plan_success:
  assumes "plan_taxonomy digest s input = Inr p"
  obtains change u s' destination m m' where "read_change input = Inr change" "u \<in> set (tx_tags s)" "tag_id u = changed_tag change"
    "change_taxonomy s u (map tag_id (aliases_of s (tag_id u))) change = Inr (s', destination)"
    "tag_alias_map (tx_tags s) = Inr m" "tag_alias_map (tx_tags s') = Inr m'"
    "pn_after p = s'" "pn_change p = change" "pn_changed p = changed_pages s s'" "tag_tag (pn_source p) = tag_tag u"
    "\<exists>inventory. taxonomy_inventory s' = Inr inventory
       \<and> pn_destination p = (case destination of None \<Rightarrow> None | Some d \<Rightarrow> sql_first (\<lambda>t. tag_id t = tag_id d) inventory)"
    "pn_access_changes p = list_ex (\<lambda>r. 0 < ri_added r \<or> 0 < ri_removed r)
       (taxonomy_rules s m s' m' (affected_names s m m' u (map tag_id (aliases_of s (tag_id u))) destination))"
proof -
  from assms obtain change inventory entry where 1: "read_change input = Inr change" "taxonomy_inventory s = Inr inventory"
    "sql_first (\<lambda>t. tag_id t = changed_tag change) inventory = Some entry"
    by (auto simp: plan_taxonomy_def rbind_Inr_iff split: option.splits)
  note entry = inventory_entry_of [OF 1(2,3)]
  from assms 1 show ?thesis
    by (auto simp: plan_taxonomy_def rbind_Inr_iff Let_def entry intro!: that [OF 1(1) entry [THEN conjunct1]] split: prod.splits)
qed

lemma plan_scope:
  assumes ok: "taxonomy_ok s" and stored: "stored_ids s" and plan: "plan_taxonomy digest s input = Inr p"
  obtains change u destination m m' f where "u \<in> set (tx_tags s)" "tag_id u = changed_tag change"
    "change_taxonomy s u (map tag_id (aliases_of s (tag_id u))) change = Inr (pn_after p, destination)"
    "change_scope s u (pn_after p) destination f" "taxonomy_ok (pn_after p)" "pn_change p = change"
    "tag_alias_map (tx_tags s) = Inr m" "tag_alias_map (tx_tags (pn_after p)) = Inr m'"
    "pn_changed p = changed_pages s (pn_after p)" "tag_tag (pn_source p) = tag_tag u"
    "map_option tag_tag (pn_destination p) = map_option tag_tag destination"
    "pn_access_changes p = list_ex (\<lambda>r. 0 < ri_added r \<or> 0 < ri_removed r)
       (taxonomy_rules s m (pn_after p) m' (affected_names s m m' u (map tag_id (aliases_of s (tag_id u))) destination))"
proof -
  obtain change u s' destination m m' where P: "read_change input = Inr change" "u \<in> set (tx_tags s)" "tag_id u = changed_tag change"
    "change_taxonomy s u (map tag_id (aliases_of s (tag_id u))) change = Inr (s', destination)"
    "tag_alias_map (tx_tags s) = Inr m" "tag_alias_map (tx_tags s') = Inr m'"
    "pn_after p = s'" "pn_change p = change" "pn_changed p = changed_pages s s'" "tag_tag (pn_source p) = tag_tag u"
    "\<exists>inventory. taxonomy_inventory s' = Inr inventory
       \<and> pn_destination p = (case destination of None \<Rightarrow> None | Some d \<Rightarrow> sql_first (\<lambda>t. tag_id t = tag_id d) inventory)"
    "pn_access_changes p = list_ex (\<lambda>r. 0 < ri_added r \<or> 0 < ri_removed r)
       (taxonomy_rules s m s' m' (affected_names s m m' u (map tag_id (aliases_of s (tag_id u))) destination))"
    by (rule plan_success [OF plan], rule that; assumption)
  have target: "j \<noteq> tag_id u" if "change = Merge_tag i j" for i j
    using read_merge P(1,3) that by fastforce
  have "\<exists>f. change_scope s u s' destination f" by (rule change_taxonomy_scope [OF ok stored P(2) _ P(4)]) (rule target)
  then obtain f where f: "change_scope s u s' destination f" by blast
  have ok': "taxonomy_ok s'" by (rule change_taxonomy_ok [OF ok stored P(2) _ P(4)]) (rule target)
  have "map_option tag_tag (pn_destination p) = map_option tag_tag destination"
  proof (cases destination)
    case (Some d)
    with f have "d \<in> set (tx_tags s @ added_rows s destination)" "f d = d" "tx_tags s' = map f (tx_tags s @ added_rows s destination)"
      by (auto simp: change_scope_def added_rows_def)
    then have "d \<in> set (tx_tags s')" by (metis image_eqI set_map)
    with inventory_entry_exists [OF ok'] Some P(11) show ?thesis by fastforce
  qed (use P(11) in auto)
  with P f ok' show ?thesis by (intro that [of u change destination f m m']) simp_all
qed

section \<open>Aliases\<close>

lemma change_keeps_names:
  assumes ok: "taxonomy_ok s" and res: "change_taxonomy s u aliases change = Inr (s', destination)" and t: "t \<in> set (tx_tags s)"
  shows "\<exists>t'\<in>set (tx_tags s'). tag_tag t' = tag_tag t \<and> (tag_archived t' \<longrightarrow> tag_archived t \<or> change = Archive_tag (changed_tag change))"
  using res by (cases rule: change_taxonomy_cases) (use t in \<open>auto simp: redirect_tag_def set_tags_map simp del: if_image_distrib intro!: bexI [of _ t]\<close>)

text \<open>A change that passes its preview leaves a well-formed vocabulary: names and identifiers stay
  unique, every redirect still leads in one step to an existing tag that is active if the alias
  is, and pages carry active canonical tags only. Every name that was reserved stays reserved, and
  unless the change archives a tag every name that led to an active tag still does.
\<close>

theorem taxonomy_change_breaks_no_alias:
  assumes "taxonomy_ok s" "stored_ids s" "plan_taxonomy digest s input = Inr p"
  shows "taxonomy_ok (pn_after p) \<and> (\<exists>m m'. tag_alias_map (tx_tags s) = Inr m \<and> tag_alias_map (tx_tags (pn_after p)) = Inr m'
     \<and> (\<forall>n. m n \<noteq> None \<longrightarrow> m' n \<noteq> None)
     \<and> (\<forall>n x. m n = Some (Some x) \<longrightarrow> pn_change p \<noteq> Archive_tag (changed_tag (pn_change p)) \<longrightarrow> (\<exists>y. m' n = Some (Some y))))"
proof -
  obtain change u destination where P: "change_taxonomy s u (map tag_id (aliases_of s (tag_id u))) change = Inr (pn_after p, destination)"
    and ok': "taxonomy_ok (pn_after p)" and change: "pn_change p = change" by (rule plan_scope [OF assms], rule that; assumption)
  obtain m where m: "tag_alias_map (tx_tags s) = Inr m" "\<And>t. t \<in> set (tx_tags s) \<Longrightarrow> tag_archived t \<Longrightarrow> m (tag_tag t) = Some None"
    "\<And>n. n \<notin> tag_tag ` set (tx_tags s) \<Longrightarrow> m n = None" by (rule alias_map_ok [OF assms(1)], rule that; assumption)
  obtain m' where m': "tag_alias_map (tx_tags (pn_after p)) = Inr m'" "\<And>t. t \<in> set (tx_tags (pn_after p)) \<Longrightarrow> tag_archived t \<Longrightarrow> m' (tag_tag t) = Some None"
    "\<And>t. t \<in> set (tx_tags (pn_after p)) \<Longrightarrow> \<not> tag_archived t \<Longrightarrow>
      \<exists>c\<in>set (tx_tags (pn_after p)). tag_id c = target_id t \<and> active_canonical c \<and> m' (tag_tag t) = Some (Some (tag_tag c))"
    by (rule alias_map_ok [OF ok'], rule that; assumption)
  have name: "\<exists>t\<in>set (tx_tags s). tag_tag t = n" if "m n \<noteq> None" for n using m(3) [of n] that by auto
  have "m' n \<noteq> None" if "m n \<noteq> None" for n
  proof -
    from name [OF that] change_keeps_names [OF assms(1) P] obtain t' where "t' \<in> set (tx_tags (pn_after p))" "tag_tag t' = n" by blast
    with m'(2,3) [of t'] show ?thesis by (cases "tag_archived t'") auto
  qed
  moreover have "\<exists>y. m' n = Some (Some y)" if "m n = Some (Some x)" "change \<noteq> Archive_tag (changed_tag change)" for n x
  proof -
    from name [of n] that obtain t where t: "t \<in> set (tx_tags s)" "tag_tag t = n" by auto
    with m(2) that have "\<not> tag_archived t" by auto
    with change_keeps_names [OF assms(1) P t(1)] that t obtain t' where "t' \<in> set (tx_tags (pn_after p))" "tag_tag t' = n" "\<not> tag_archived t'" by auto
    with m'(3) [of t'] show ?thesis by auto
  qed
  ultimately show ?thesis using ok' m(1) m'(1) change by auto
qed

section \<open>The tags of pages\<close>

definition page_tag_names :: "taxonomy \<Rightarrow> int \<Rightarrow> string set" where
  "page_tag_names s page = tag_tag ` {t \<in> set (tx_tags s). (page, tag_id t) \<in> set (tx_assignments s)}"

lemma page_assignment_sets:
  assumes "distinct (tx_assignments s)" "distinct (tx_assignments s')"
  shows "page_assignment s page = page_assignment s' page \<longleftrightarrow>
    {i. (page, i) \<in> set (tx_assignments s)} = {i. (page, i) \<in> set (tx_assignments s')}"
proof -
  define ids where "ids xs = map snd (filter (\<lambda>a. fst a = page) xs)" for xs :: "(int \<times> int) list"
  have d: "distinct (ids xs)" if "distinct xs" for xs
    using that by (induction xs) (auto simp: ids_def)
  have set_ids: "set (ids xs) = {i. (page, i) \<in> set xs}" for xs by (force simp: ids_def)
  have "page_assignment s page = (if ids (tx_assignments s) = [] then None else Some (sort (ids (tx_assignments s))))" for s
    by (auto simp: page_assignment_def ids_def split: list.splits)
  moreover have "sort xs = sort ys \<longleftrightarrow> set xs = set ys" if "distinct xs" "distinct ys" for xs ys :: "int list"
    using that by (metis distinct_sort set_sort sorted_distinct_set_unique sorted_sort)
  ultimately show ?thesis
    using d [OF assms(1)] d [OF assms(2)] by (auto simp: set_ids [symmetric])
qed

lemma scope_names:
  assumes ok: "taxonomy_ok s" and ok': "taxonomy_ok s'" and scope: "change_scope s u s' destination f"
  shows "page_tag_names s page = tag_tag ` {t \<in> set (tx_tags s'). (page, tag_id t) \<in> set (tx_assignments s)}"
proof -
  let ?rows = "tx_tags s @ added_rows s destination"
  have tags: "tx_tags s' = map f ?rows" and f: "\<And>t. tag_id (f t) = tag_id t" "\<And>t. tag_tag (f t) = tag_tag t"
    using scope by (auto simp: change_scope_def row_rewrite_def)
  have "t \<in> set (tx_tags s)" if t: "t \<in> set ?rows" "(page, tag_id t) \<in> set (tx_assignments s)" for t
  proof -
    from taxonomy_okD(5) [OF ok t(2)] obtain c where c: "c \<in> set (tx_tags s)" "tag_id c = tag_id t" by auto
    have "f c = f t" by (rule same_tag [OF ok']) (use c t(1) tags f in auto)
    then have "tag_tag c = tag_tag t" using f by metis
    then have "tag_tag t \<in> tag_tag ` set (tx_tags s)" using c(1) by (metis image_eqI)
    with t(1) scope show ?thesis by (auto simp: added_rows_def change_scope_def split: option.splits if_splits)
  qed
  then have "{t \<in> set ?rows. (page, tag_id t) \<in> set (tx_assignments s)} = {t \<in> set (tx_tags s). (page, tag_id t) \<in> set (tx_assignments s)}" by auto
  moreover have "tag_tag ` {t \<in> set (tx_tags s'). (page, tag_id t) \<in> A} = tag_tag ` {t \<in> set ?rows. (page, tag_id t) \<in> A}" for A
  proof -
    have "{t \<in> set (tx_tags s'). (page, tag_id t) \<in> A} = f ` {t \<in> set ?rows. (page, tag_id t) \<in> A}"
      unfolding tags set_map by (auto simp: f)
    then show ?thesis by (simp only: image_image f)
  qed
  ultimately show ?thesis unfolding page_tag_names_def by simp
qed

lemma assigned_ids:
  assumes ok: "taxonomy_ok s" and tags: "tag_id ` set (tx_tags s) \<subseteq> tag_id ` set tags"
  shows "{i. (page, i) \<in> set (tx_assignments s)} = tag_id ` {t \<in> set tags. (page, tag_id t) \<in> set (tx_assignments s)}"
  using taxonomy_okD(5) [OF ok] tags by (auto simp: image_iff) (metis image_eqI imageE subsetD snd_conv)

lemma changed_pages_names:
  assumes ok: "taxonomy_ok s" and ok': "taxonomy_ok s'" and scope: "change_scope s u s' destination f"
  shows "page \<in> set (changed_pages s s') \<longleftrightarrow> page \<in> tp_id ` set (tx_pages s) \<and> page_tag_names s page \<noteq> page_tag_names s' page"
proof -
  let ?T = "\<lambda>A. {t \<in> set (tx_tags s'). (page, tag_id t) \<in> set A}"
  have "inj_on tag_id (set (tx_tags s'))" "inj_on tag_tag (set (tx_tags s'))"
    using taxonomy_okD(1,2) [OF ok'] by (simp_all add: unique_key_def distinct_map)
  then have inj: "tag_id ` ?T A = tag_id ` ?T B \<longleftrightarrow> tag_tag ` ?T A = tag_tag ` ?T B" for A B
    by (subst (1 2) inj_on_image_eq_iff) auto
  have "tx_tags s' = map f (tx_tags s @ added_rows s destination)" and f: "\<And>t. tag_id (f t) = tag_id t"
    using scope by (simp_all add: change_scope_def row_rewrite_def)
  then have "tag_id ` set (tx_tags s) \<subseteq> tag_id ` set (tx_tags s')" by (simp add: image_Un image_image)
  note ids = assigned_ids [OF ok this] assigned_ids [OF ok' order_refl]
  have "page_assignment s page = page_assignment s' page \<longleftrightarrow> tag_id ` ?T (tx_assignments s) = tag_id ` ?T (tx_assignments s')"
    unfolding page_assignment_sets [OF taxonomy_okD(3) [OF ok] taxonomy_okD(3) [OF ok']] ids ..
  also have "\<dots> \<longleftrightarrow> page_tag_names s page = page_tag_names s' page"
    unfolding inj scope_names [OF ok ok' scope] by (simp add: page_tag_names_def)
  finally show ?thesis by (auto simp: changed_pages_def)
qed

text \<open>How a change moves the tags of a page.\<close>

definition moved_names :: "taxonomy_change \<Rightarrow> string \<Rightarrow> string option \<Rightarrow> string set \<Rightarrow> string set" where
  "moved_names change source destination names = (case destination of
      Some d \<Rightarrow> (\<lambda>n. if n = source then d else n) ` names
    | None \<Rightarrow> if change = Archive_tag (changed_tag change) then names - {source} else names)"

lemma moved_names_ok:
  assumes ok: "taxonomy_ok s" and ok': "taxonomy_ok s'" and u: "u \<in> set (tx_tags s)" and scope: "change_scope s u s' destination f"
    and res: "change_taxonomy s u (map tag_id (aliases_of s (tag_id u))) change = Inr (s', destination)"
  shows "page_tag_names s' page = moved_names change (tag_tag u) (map_option tag_tag destination) (page_tag_names s page)"
proof -
  let ?T = "\<lambda>A. {t \<in> set (tx_tags s'). (page, tag_id t) \<in> A}"
  note names = scope_names [OF ok ok' scope]
  have tags: "tx_tags s' = map f (tx_tags s @ added_rows s destination)" and f: "\<And>t. tag_id (f t) = tag_id t" "\<And>t. tag_tag (f t) = tag_tag t"
    using scope by (auto simp: change_scope_def row_rewrite_def)
  have fu: "f u \<in> set (tx_tags s')" using u tags by auto
  have source: "tag_tag t = tag_tag u \<longleftrightarrow> tag_id t = tag_id u" if "t \<in> set (tx_tags s')" for t
    using same_tag [OF ok' that fu] same_name [OF ok' that fu] f by metis
  have same: ?thesis if "tx_assignments s' = tx_assignments s" "destination = None" "change \<noteq> Archive_tag (changed_tag change) \<or> tag_redirect u \<noteq> None"
  proof -
    have "tag_tag u \<notin> page_tag_names s page" if r: "tag_redirect u \<noteq> None"
    proof
      assume "tag_tag u \<in> page_tag_names s page"
      then obtain t where t: "t \<in> set (tx_tags s)" "tag_tag u = tag_tag t" "(page, tag_id t) \<in> set (tx_assignments s)" by (auto simp: page_tag_names_def)
      have "t = u" using same_name [OF ok t(1) u] t(2) by simp
      moreover obtain c where "c \<in> set (tx_tags s)" "tag_id c = tag_id t" "active_canonical c" using taxonomy_okD(5) [OF ok t(3)] by auto
      moreover then have "c = t" using same_tag [OF ok _ t(1)] by blast
      ultimately show False using r by (simp add: active_canonical_def)
    qed
    with that show ?thesis unfolding names by (auto simp: moved_names_def page_tag_names_def names)
  qed
  have redirect: ?thesis if d: "destination = Some d" and a: "set (tx_assignments s') = (\<lambda>(p, t). (p, if t = tag_id u then tag_id d else t)) ` set (tx_assignments s)" for d
  proof -
    from scope d have dest: "d \<in> set (tx_tags s')" "tag_id d \<noteq> tag_id u"
      by (auto simp: change_scope_def added_rows_def touched_def split: if_splits) (metis image_eqI)+
    have "tag_tag ` ?T (set (tx_assignments s')) = (\<lambda>n. if n = tag_tag u then tag_tag d else n) ` tag_tag ` ?T (set (tx_assignments s))" (is "?l = ?r")
    proof (intro equalityI subsetI)
      fix n assume "n \<in> ?l"
      then obtain t i where t: "t \<in> set (tx_tags s')" "n = tag_tag t" "(page, i) \<in> set (tx_assignments s)" "tag_id t = (if i = tag_id u then tag_id d else i)"
        by (auto simp: a)
      show "n \<in> ?r"
      proof (cases "i = tag_id u")
        case True
        with t same_tag [OF ok' t(1) dest(1)] fu f show ?thesis by (auto simp: image_iff intro!: exI [of _ "f u"])
      next
        case False
        with t source [OF t(1)] show ?thesis by (auto simp: image_iff intro!: exI [of _ t])
      qed
    next
      fix n assume "n \<in> ?r"
      then obtain t where t: "t \<in> set (tx_tags s')" "(page, tag_id t) \<in> set (tx_assignments s)" "n = (if tag_tag t = tag_tag u then tag_tag d else tag_tag t)" by auto
      then have "(page, if tag_id t = tag_id u then tag_id d else tag_id t) \<in> set (tx_assignments s')" unfolding a by force
      with t source [OF t(1)] dest(1) show "n \<in> ?l" by (auto split: if_splits)
    qed
    then show ?thesis unfolding names by (simp add: page_tag_names_def moved_names_def d)
  qed
  from res show ?thesis
  proof (cases rule: change_taxonomy_cases)
    case archive
    then have "tag_tag ` ?T (set (tx_assignments s')) = tag_tag ` ?T (set (tx_assignments s)) - {tag_tag u}" using source by auto
    with archive(1,2) show ?thesis unfolding names by (simp add: page_tag_names_def moved_names_def)
  next
    case (title title)
    then show ?thesis by (intro same) (simp_all add: set_tags_map(2))
  next
    case (rename tag title)
    have "tag_id (u\<lparr>tag_id := -1, tag_tag := tag, tg_title := title\<rparr>) = -1" by simp
    from redirect [OF rename(3), unfolded this] show ?thesis by (simp add: rename(4) redirect_tag_def set_tags_map(2))
  next
    case (merge j d)
    from redirect [OF merge(6), unfolded merge(4)] show ?thesis by (simp add: merge(7) redirect_tag_def set_tags_map(2))
  next
    case archive_alias
    then show ?thesis by (intro same) (simp_all add: set_tags_map(2))
  next
    case restore
    then have "change \<noteq> Archive_tag (changed_tag change)" by (cases change) simp_all
    with restore(2,5) show ?thesis by (intro same) (simp_all add: set_tags_map(2))
  qed
qed

text \<open>A change moves the pages of its source and of nothing else: after a rename or a merge a page
  carries the name of the destination where it carried the source's, an archived tag is taken off
  its pages, a new label or a restored tag leaves every page alone. The plan lists exactly the
  pages whose tags differ.
\<close>

theorem taxonomy_change_moves_pages:
  assumes "taxonomy_ok s" "stored_ids s" "plan_taxonomy digest s input = Inr p"
  shows "page_tag_names (pn_after p) page
      = moved_names (pn_change p) (tag_tag (pn_source p)) (map_option tag_tag (pn_destination p)) (page_tag_names s page)
    \<and> (page \<in> set (pn_changed p) \<longleftrightarrow> page \<in> tp_id ` set (tx_pages s) \<and> page_tag_names s page \<noteq> page_tag_names (pn_after p) page)"
proof -
  obtain change u destination f where P: "u \<in> set (tx_tags s)"
    "change_taxonomy s u (map tag_id (aliases_of s (tag_id u))) change = Inr (pn_after p, destination)"
    "change_scope s u (pn_after p) destination f" "taxonomy_ok (pn_after p)" "pn_change p = change"
    "pn_changed p = changed_pages s (pn_after p)" "tag_tag (pn_source p) = tag_tag u"
    "map_option tag_tag (pn_destination p) = map_option tag_tag destination" by (rule plan_scope [OF assms], rule that; assumption)
  show ?thesis
    using moved_names_ok [OF assms(1) P(4,1,3,2)] changed_pages_names [OF assms(1) P(4,3)] P by simp
qed

section \<open>Access rules\<close>

lemma list_ex_rules:
  "list_ex P (taxonomy_rules s m s' m' names) \<longleftrightarrow>
    (\<exists>g\<in>set (tx_groups s). \<exists>r\<in>set (group_rules g). rule_match r = TAG \<and> rule_path r \<in> names \<and> P (impact_of s m s' m' g r))"
  by (auto simp: taxonomy_rules_def list_ex_iff)

lemma impact_of_pages:
  "0 < ri_added (impact_of s m s' m' g r) \<or> 0 < ri_removed (impact_of s m s' m' g r)
    \<longleftrightarrow> set (rule_pages s m r) \<noteq> set (rule_pages s' m' r)"
  by (auto simp: impact_of_def Let_def filter_empty_conv)

lemma unaffected_rule_pages:
  assumes ok: "taxonomy_ok s" and ok': "taxonomy_ok s'" and u: "u \<in> set (tx_tags s)" and scope: "change_scope s u s' destination f"
    and m: "tag_alias_map (tx_tags s) = Inr m" "tag_alias_map (tx_tags s') = Inr m'"
    and n: "rule_path r \<notin> affected_names s m m' u (map tag_id (aliases_of s (tag_id u))) destination"
  shows "set (rule_pages s m r) = set (rule_pages s' m' r)"
proof -
  have affected: "tag_tag t \<in> affected_names s m m' u (map tag_id (aliases_of s (tag_id u))) destination"
    if "t \<in> set (tx_tags s)" "touched s u t \<or> (\<exists>d. destination = Some d \<and> m' (tag_tag t) = Some (Some (tag_tag d)))" for t
    unfolding affected_names_def by (rule UnI1, unfold set_map, rule imageI) (use that in \<open>auto simp: touched_def\<close>)
  have names: "tag_tag t \<noteq> rule_path r" if "t \<in> set (tx_tags s)" "touched s u t" for t
    using n affected [OF that(1)] that(2) by auto
  have dest: "rule_path r \<notin> tag_tag ` set_option destination" using n by (auto simp: affected_names_def)
  have led: "\<not> leads s' (rule_path r) d" if d: "destination = Some d" for d
  proof
    assume l: "leads s' (rule_path r) d"
    then have m'n: "m' (rule_path r) = Some (Some (tag_tag d))" using alias_map_leads [OF ok' m(2)] by blast
    have tags: "tx_tags s' = map f (tx_tags s @ added_rows s destination)" and f: "\<And>t. tag_tag (f t) = tag_tag t"
      using scope by (simp_all add: change_scope_def row_rewrite_def)
    from l have "rule_path r \<in> tag_tag ` set (tx_tags s')" unfolding leads_def by (metis imageI)
    then have "rule_path r \<in> tag_tag ` set (tx_tags s) \<or> rule_path r = tag_tag d"
      using d by (simp add: tags image_Un image_image f) (auto simp: added_rows_def split: if_splits)
    then show False
    proof
      assume "rule_path r \<in> tag_tag ` set (tx_tags s)"
      then obtain t where "t \<in> set (tx_tags s)" "tag_tag t = rule_path r" by auto
      with n d m'n affected [of t] show False by auto
    qed (use dest d in simp)
  qed
  have leads: "leads s (rule_path r) c \<and> (i, tag_id c) \<in> set (tx_assignments s) \<longleftrightarrow> leads s' (rule_path r) c \<and> (i, tag_id c) \<in> set (tx_assignments s')" for c i
    by (rule leads_unaffected [OF ok ok' u scope names dest led])
  have "tx_pages s' = tx_pages s" using scope by (simp add: change_scope_def)
  then show ?thesis
    using leads by (auto simp: set_eq_iff rule_pages_leads [OF ok m(1)] rule_pages_leads [OF ok' m(2)])
qed

text \<open>C23. The preview's warning about access is exact: it is given if and only if some access rule on
  a tag, of some group, selects other pages after the change than before. A change whose preview
  shows no warning therefore changes the reach of no rule, not even of one written for an alias of
  the tags involved.
\<close>

theorem access_preview_is_exact:
  assumes "taxonomy_ok s" "stored_ids s" "plan_taxonomy digest s input = Inr p"
  shows "\<exists>m m'. tag_alias_map (tx_tags s) = Inr m \<and> tag_alias_map (tx_tags (pn_after p)) = Inr m' \<and>
    (pn_access_changes p \<longleftrightarrow> (\<exists>g\<in>set (tx_groups s). \<exists>r\<in>set (group_rules g).
       rule_match r = TAG \<and> set (rule_pages s m r) \<noteq> set (rule_pages (pn_after p) m' r)))"
proof -
  obtain u destination m m' f where P: "u \<in> set (tx_tags s)" "change_scope s u (pn_after p) destination f" "taxonomy_ok (pn_after p)"
    "tag_alias_map (tx_tags s) = Inr m" "tag_alias_map (tx_tags (pn_after p)) = Inr m'"
    "pn_access_changes p = list_ex (\<lambda>r. 0 < ri_added r \<or> 0 < ri_removed r)
       (taxonomy_rules s m (pn_after p) m' (affected_names s m m' u (map tag_id (aliases_of s (tag_id u))) destination))"
    by (rule plan_scope [OF assms], rule that; assumption)
  from unaffected_rule_pages [OF assms(1) P(3,1,2,4,5)]
  show ?thesis unfolding P(6) list_ex_rules impact_of_pages using P(4,5) by blast
qed

section \<open>A worked example\<close>

text \<open>
  A guide (with the alias "howto") and a manual, one page for each, and a group that may not read
  pages tagged with the alias. The guide is merged into the manual.
\<close>

definition example_taxonomy :: taxonomy where
  "example_taxonomy = \<lparr>tx_tags =
       [\<lparr>tag_id = 1, tag_tag = ''guide'', tag_redirect = None, tag_archived = False, tg_title = ''Guide'', tg_created = '''', tg_updated = ''''\<rparr>,
        \<lparr>tag_id = 2, tag_tag = ''manual'', tag_redirect = None, tag_archived = False, tg_title = ''Manual'', tg_created = '''', tg_updated = ''''\<rparr>,
        \<lparr>tag_id = 3, tag_tag = ''howto'', tag_redirect = Some 1, tag_archived = False, tg_title = ''How to'', tg_created = '''', tg_updated = ''''\<rparr>],
     tx_assignments = [(10, 1), (11, 2)],
     tx_pages = [\<lparr>tp_id = 10, tp_title = ''A'', tp_path = ''a'', tp_locale = ''en'', tp_public = True, tp_revision = ''1''\<rparr>,
        \<lparr>tp_id = 11, tp_title = ''B'', tp_path = ''b'', tp_locale = ''en'', tp_public = True, tp_revision = ''1''\<rparr>],
     tx_groups = [\<lparr>group_id = 4, group_name = Some ''Staff'', group_permissions = Some [],
        group_rules = [\<lparr>rule_id = None, rule_match = TAG, rule_path = ''howto'', rule_deny = True, rule_roles = [''read:pages''], rule_locales = None\<rparr>]\<rparr>],
     tx_history = []\<rparr>"

definition example_merge :: js_value where
  "example_merge = JObj [(''action'', JStr ''merge''), (''tagId'', JNum (Whole 1)), (''targetId'', JNum (Whole 2))]"

lemma example_taxonomy_ok: "taxonomy_ok example_taxonomy" "stored_ids example_taxonomy"
  by (simp_all add: taxonomy_ok_def stored_ids_def example_taxonomy_def unique_key_def active_canonical_def)

definition example_plan :: taxonomy_plan where
  "example_plan = (case plan_taxonomy (\<lambda>_. ''fingerprint'') example_taxonomy example_merge of Inr p \<Rightarrow> p)"

lemma example_plan_ok: "plan_taxonomy (\<lambda>_. ''fingerprint'') example_taxonomy example_merge = Inr example_plan"
  unfolding example_plan_def by code_simp

lemma taxonomy_change_breaks_no_alias_witness:
  "taxonomy_ok (pn_after example_plan) \<and> (\<exists>m m'. tag_alias_map (tx_tags example_taxonomy) = Inr m
     \<and> tag_alias_map (tx_tags (pn_after example_plan)) = Inr m' \<and> (\<forall>n. m n \<noteq> None \<longrightarrow> m' n \<noteq> None))"
  using taxonomy_change_breaks_no_alias [OF example_taxonomy_ok example_plan_ok] by blast

lemma taxonomy_change_moves_pages_witness:
  "page_tag_names example_taxonomy 10 = {''guide''} \<and> page_tag_names (pn_after example_plan) 10 = {''manual''} \<and> 10 \<in> set (pn_changed example_plan)"
proof -
  have names: "page_tag_names s i = set (map tag_tag (filter (\<lambda>t. (i, tag_id t) \<in> set (tx_assignments s)) (tx_tags s)))" for s i
    by (simp add: page_tag_names_def)
  have before: "page_tag_names example_taxonomy 10 = {''guide''}" unfolding names by (simp add: example_taxonomy_def del: set_filter set_map)
  have plan: "pn_change example_plan = Merge_tag 1 2" "tag_tag (pn_source example_plan) = ''guide''"
    "map_option tag_tag (pn_destination example_plan) = Some ''manual''" unfolding example_plan_def by code_simp+
  have moved: "moved_names (Merge_tag 1 2) ''guide'' (Some ''manual'') {''guide''} = {''manual''}" by (simp add: moved_names_def)
  have "10 \<in> tp_id ` set (tx_pages example_taxonomy)" by (simp add: example_taxonomy_def)
  with before taxonomy_change_moves_pages [OF example_taxonomy_ok example_plan_ok, of 10, unfolded plan before moved] show ?thesis by simp
qed

lemma access_preview_is_exact_witness:
  "\<exists>m m'. tag_alias_map (tx_tags example_taxonomy) = Inr m \<and> tag_alias_map (tx_tags (pn_after example_plan)) = Inr m' \<and>
    (\<exists>g\<in>set (tx_groups example_taxonomy). \<exists>r\<in>set (group_rules g).
       rule_match r = TAG \<and> set (rule_pages example_taxonomy m r) \<noteq> set (rule_pages (pn_after example_plan) m' r))"
proof -
  have "pn_access_changes example_plan" unfolding example_plan_def by code_simp
  with access_preview_is_exact [OF example_taxonomy_ok example_plan_ok] show ?thesis by blast
qed

end
