(* ===== verification/McpLimiter.thy ===== *)
theory McpLimiter
  imports Complex_Main Prelude
begin

text \<open>
  Admission of MCP requests per owner (\<^verbatim>\<open>server/agents/mcp-limiter.ts\<close>): a fixed window of
  requests for every owner and a bound on the owners tracked at a time. The clock is the monotonic
  \<^verbatim>\<open>performance.now()\<close>; its readings, fractions of milliseconds, are rational numbers, and sums of
  readings and windows are exact. The map of owners keeps the order of insertion.
\<close>

section \<open>The limiter\<close>

record owner_window =
  ow_expires :: rat
  ow_requests :: int

record limiter =
  lm_limit :: int
  lm_window :: int
  lm_max :: int
  lm_owners :: "(int \<times> owner_window) list"

definition new_limiter :: "int \<Rightarrow> int \<Rightarrow> int \<Rightarrow> limiter result" where
  "new_limiter limit window max_owners =
     (if list_all (\<lambda>v. safe_int v \<and> 0 < v) [limit, window, max_owners]
      then Inr \<lparr>lm_limit = limit, lm_window = window, lm_max = max_owners, lm_owners = []\<rparr> else Inl Plain_error)"

definition retry_after :: "rat \<Rightarrow> rat \<Rightarrow> int" where
  "retry_after expires now = max 1 \<lceil>(expires - now) / 1000\<rceil>"

text \<open>The loop over the owners stops at the first window that is still open.\<close>

definition drop_expired :: "rat \<Rightarrow> (int \<times> owner_window) list \<Rightarrow> (int \<times> owner_window) list" where
  "drop_expired now owners = dropWhile (\<lambda>e. ow_expires (snd e) \<le> now) owners"

definition forget :: "int \<Rightarrow> (int \<times> owner_window) list \<Rightarrow> (int \<times> owner_window) list" where
  "forget owner owners = filter (\<lambda>e. fst e \<noteq> owner) owners"

text \<open>The rest of \<^verbatim>\<open>consume\<close> once the owner has a window.\<close>

definition take_request :: "int \<Rightarrow> owner_window \<Rightarrow> rat \<Rightarrow> limiter \<Rightarrow> int \<times> limiter" where
  "take_request owner w now l =
     (if lm_limit l \<le> ow_requests w then (retry_after (ow_expires w) now, l)
      else (0, l\<lparr>lm_owners := map (\<lambda>e. if fst e = owner then (owner, w\<lparr>ow_requests := ow_requests w + 1\<rparr>) else e) (lm_owners l)\<rparr>))"

text \<open>
  An owner without an open window: expired windows are dropped, and if there is room it gets a new
  one. A full table is never empty, so it has an oldest window.
\<close>

definition fresh_window :: "int \<Rightarrow> rat \<Rightarrow> limiter \<Rightarrow> int \<times> limiter" where
  "fresh_window owner now l =
     (let owners = drop_expired now (lm_owners l) in
      if lm_max l \<le> int (length owners)
      then (case owners of [] \<Rightarrow> 0 | e # _ \<Rightarrow> retry_after (ow_expires (snd e)) now, l\<lparr>lm_owners := owners\<rparr>)
      else let w = \<lparr>ow_expires = now + of_int (lm_window l), ow_requests = 0\<rparr> in
        take_request owner w now (l\<lparr>lm_owners := owners @ [(owner, w)]\<rparr>))"

definition consume :: "int \<Rightarrow> rat \<Rightarrow> limiter \<Rightarrow> (int \<times> limiter) result" where
  "consume owner now l =
     (if \<not> safe_int owner \<or> owner \<le> 0 then Inl Plain_error
      else Inr (case map_of (lm_owners l) owner of
        Some w \<Rightarrow> if now < ow_expires w then take_request owner w now l else fresh_window owner now (l\<lparr>lm_owners := forget owner (lm_owners l)\<rparr>)
      | None \<Rightarrow> fresh_window owner now l))"

section \<open>The invariant\<close>

text \<open>
  At an instant no window is open for longer than the configured duration, windows expire in the
  order of the map, every owner has one window with at least one and at most the permitted number
  of requests, and there are not more owners than permitted.
\<close>

definition limiter_ok :: "rat \<Rightarrow> limiter \<Rightarrow> bool" where
  "limiter_ok now l = (0 < lm_limit l \<and> 0 < lm_window l \<and> 0 < lm_max l
     \<and> distinct (map fst (lm_owners l)) \<and> sorted (map (\<lambda>e. ow_expires (snd e)) (lm_owners l))
     \<and> int (length (lm_owners l)) \<le> lm_max l
     \<and> (\<forall>e\<in>set (lm_owners l). ow_expires (snd e) \<le> now + of_int (lm_window l) \<and> 1 \<le> ow_requests (snd e) \<and> ow_requests (snd e) \<le> lm_limit l))"

lemma limiter_ok_later: "limiter_ok now l \<Longrightarrow> now \<le> later \<Longrightarrow> limiter_ok later l"
  by (fastforce simp: limiter_ok_def)

lemma drop_expired_set: "sorted (map (\<lambda>e. ow_expires (snd e)) owners) \<Longrightarrow> set (drop_expired now owners) = {e \<in> set owners. now < ow_expires (snd e)}"
proof (induction owners)
  case (Cons e owners)
  then show ?case by (cases "ow_expires (snd e) \<le> now") (auto simp: drop_expired_def)
qed (simp add: drop_expired_def)

lemma drop_expired_sublist: "\<exists>dropped. owners = dropped @ drop_expired now owners"
  unfolding drop_expired_def by (metis takeWhile_dropWhile_id)

lemma drop_expired_ok:
  assumes "limiter_ok now l"
  shows "limiter_ok now (l\<lparr>lm_owners := drop_expired now (lm_owners l)\<rparr>)"
proof -
  define owners where "owners = drop_expired now (lm_owners l)"
  obtain dropped where d: "lm_owners l = dropped @ owners" unfolding owners_def using drop_expired_sublist by blast
  show ?thesis unfolding owners_def [symmetric] using assms by (auto simp: limiter_ok_def d sorted_append)
qed

lemma forget_ok:
  assumes "limiter_ok now l"
  shows "limiter_ok now (l\<lparr>lm_owners := forget owner (lm_owners l)\<rparr>)"
proof -
  have "int (length (filter (\<lambda>e. fst e \<noteq> owner) (lm_owners l))) \<le> int (length (lm_owners l))" by simp
  also have "\<dots> \<le> lm_max l" using assms by (simp add: limiter_ok_def)
  finally show ?thesis using assms by (auto simp: limiter_ok_def forget_def distinct_map_filter sorted_filter)
qed

lemma take_request_ok:
  assumes ok: "limiter_ok now l" and w: "map_of (lm_owners l) owner = Some w"
  shows "limiter_ok now (snd (take_request owner w now l))"
proof (cases "lm_limit l \<le> ow_requests w")
  case False
  define f where "f = (\<lambda>e :: int \<times> owner_window. if fst e = owner then (owner, w\<lparr>ow_requests := ow_requests w + 1\<rparr>) else e)"
  have d: "distinct (map fst (lm_owners l))" using ok by (simp add: limiter_ok_def)
  have same: "snd e = w" if "e \<in> set (lm_owners l)" "fst e = owner" for e
    using map_of_is_SomeI [OF d, of owner "snd e"] that w by (cases e) auto
  have keys: "map fst (map f xs) = map fst xs" for xs by (induction xs) (auto simp: f_def)
  have times: "map (\<lambda>e. ow_expires (snd e)) (map f (lm_owners l)) = map (\<lambda>e. ow_expires (snd e)) (lm_owners l)"
    by (auto simp: f_def same)
  have w_ok: "ow_expires w \<le> now + of_int (lm_window l)" "1 \<le> ow_requests w" "ow_requests w \<le> lm_limit l"
    using ok map_of_SomeD [OF w] by (auto simp: limiter_ok_def)
  have "ow_expires (snd e) \<le> now + of_int (lm_window l) \<and> 1 \<le> ow_requests (snd e) \<and> ow_requests (snd e) \<le> lm_limit l"
    if "e \<in> set (map f (lm_owners l))" for e using that ok w_ok False by (auto simp: f_def limiter_ok_def)
  then have "limiter_ok now (l\<lparr>lm_owners := map f (lm_owners l)\<rparr>)"
    using ok keys times by (simp add: limiter_ok_def del: map_map)
  with False show ?thesis by (simp add: take_request_def f_def)
qed (use ok in \<open>simp add: take_request_def\<close>)

text \<open>What a request without an open window leads to.\<close>

lemma fresh_window_cases:
  assumes ok: "limiter_ok now l" and none: "owner \<notin> fst ` set (lm_owners l)"
  defines "owners \<equiv> drop_expired now (lm_owners l)"
  shows "fresh_window owner now l =
    (if lm_max l \<le> int (length owners) then (retry_after (ow_expires (snd (List.hd owners))) now, l\<lparr>lm_owners := owners\<rparr>)
     else (0, l\<lparr>lm_owners := owners @ [(owner, \<lparr>ow_expires = now + of_int (lm_window l), ow_requests = 1\<rparr>)]\<rparr>))"
proof -
  obtain dropped where "lm_owners l = dropped @ owners" unfolding owners_def using drop_expired_sublist by blast
  with none have "owner \<notin> fst ` set owners" by auto
  then have "map (\<lambda>e. if fst e = owner then (owner, w) else e) owners = owners" for w by (intro map_idI) auto
  moreover have "0 < lm_limit l" "0 < lm_max l" using ok by (simp_all add: limiter_ok_def)
  ultimately show ?thesis
    by (auto simp: fresh_window_def take_request_def owners_def [symmetric] split: list.splits)
qed

lemma fresh_window_ok:
  assumes ok: "limiter_ok now l" and none: "owner \<notin> fst ` set (lm_owners l)"
  shows "limiter_ok now (snd (fresh_window owner now l))"
proof -
  define owners where "owners = drop_expired now (lm_owners l)"
  have ok': "limiter_ok now (l\<lparr>lm_owners := owners\<rparr>)" unfolding owners_def by (rule drop_expired_ok [OF ok])
  obtain dropped where "lm_owners l = dropped @ owners" unfolding owners_def using drop_expired_sublist by blast
  with none have "owner \<notin> fst ` set owners" by auto
  with ok' have "limiter_ok now (l\<lparr>lm_owners := owners @ [(owner, \<lparr>ow_expires = now + of_int (lm_window l), ow_requests = 1\<rparr>)]\<rparr>)"
    if "\<not> lm_max l \<le> int (length owners)" using that by (auto simp: limiter_ok_def sorted_append)
  with ok' show ?thesis unfolding fresh_window_cases [OF assms] by (simp add: owners_def)
qed

lemma consume_ok:
  assumes ok: "limiter_ok now l" and res: "consume owner now l = Inr (r, l')"
  shows "limiter_ok now l'"
proof (cases "map_of (lm_owners l) owner")
  case None
  then have "owner \<notin> fst ` set (lm_owners l)" by (simp add: map_of_eq_None_iff)
  from fresh_window_ok [OF ok this] res None show ?thesis by (auto simp: consume_def split: if_splits)
next
  case (Some w)
  show ?thesis
  proof (cases "now < ow_expires w")
    case True
    with take_request_ok [OF ok Some] res Some show ?thesis by (auto simp: consume_def split: if_splits)
  next
    case False
    have "owner \<notin> fst ` set (lm_owners (l\<lparr>lm_owners := forget owner (lm_owners l)\<rparr>))" by (auto simp: forget_def)
    from fresh_window_ok [OF forget_ok [OF ok] this] res Some False show ?thesis by (auto simp: consume_def split: if_splits)
  qed
qed

section \<open>A truthful waiting time\<close>

lemma retry_after_bounds:
  "1 \<le> retry_after e t" "e \<le> t + 1000 * of_int (retry_after e t)"
  "t \<le> later \<Longrightarrow> later < t + 1000 * (of_int (retry_after e t) - 1) \<Longrightarrow> later < e"
proof -
  define c where "c = \<lceil>(e - t) / 1000\<rceil>"
  have r: "retry_after e t = max 1 c" by (simp add: retry_after_def c_def)
  have c: "(e - t) / 1000 \<le> of_int c" "of_int c - 1 < (e - t) / 1000" unfolding c_def using ceiling_correct [of "(e - t) / 1000"] by blast+
  have "of_int c \<le> (of_int (max 1 c) :: rat)" by simp
  with c(1) show "1 \<le> retry_after e t" "e \<le> t + 1000 * of_int (retry_after e t)" unfolding r by (simp_all add: field_simps)
  show "later < e" if "t \<le> later" "later < t + 1000 * (of_int (retry_after e t) - 1)"
  proof (cases "1 \<le> c")
    case True
    with that(2) c(2) show ?thesis unfolding r by (simp add: max_def field_simps split: if_splits)
  next
    case False
    with that show ?thesis unfolding r by (simp add: max_def)
  qed
qed

lemma refused_full:
  assumes ok: "limiter_ok now l" and none: "owner \<notin> fst ` set (lm_owners l)" and valid: "safe_int owner" "0 < owner"
    and res: "fresh_window owner now l = (r, l')" "r \<noteq> 0"
  obtains e rest where "lm_owners l' = e # rest" "r = retry_after (ow_expires (snd e)) now" "limiter_ok now l'"
    "lm_max l' = int (length (e # rest))" "owner \<notin> fst ` set (e # rest)" "now < ow_expires (snd e)"
proof -
  define owners where "owners = drop_expired now (lm_owners l)"
  have full: "lm_max l \<le> int (length owners)" "r = retry_after (ow_expires (snd (List.hd owners))) now" "l' = l\<lparr>lm_owners := owners\<rparr>"
    using res unfolding fresh_window_cases [OF ok none] by (auto simp: owners_def split: if_splits)
  have ok': "limiter_ok now l'" unfolding full(3) owners_def by (rule drop_expired_ok [OF ok])
  then obtain e rest where e: "owners = e # rest" using full(1) by (cases owners) (auto simp: full(3) limiter_ok_def)
  have "now < ow_expires (snd e)" using drop_expired_set [of "lm_owners l" now] ok e by (auto simp: owners_def limiter_ok_def)
  moreover obtain dropped where "lm_owners l = dropped @ owners" unfolding owners_def using drop_expired_sublist by blast
  ultimately show ?thesis using that [of e rest] ok' full e none by (auto simp: limiter_ok_def)
qed

text \<open>The two promises of a waiting time.\<close>

definition waits_for :: "int \<Rightarrow> rat \<Rightarrow> int \<Rightarrow> limiter \<Rightarrow> bool" where
  "waits_for owner now r l = ((\<forall>later. now + 1000 * of_int r \<le> later \<longrightarrow> (\<exists>l'. consume owner later l = Inr (0, l')))
    \<and> (\<forall>later. now \<le> later \<and> later < now + 1000 * (of_int r - 1) \<longrightarrow> (\<exists>q l'. consume owner later l = Inr (q, l') \<and> q \<noteq> 0)))"

lemma retry_after_nonzero [simp]: "retry_after e t \<noteq> 0" "0 < retry_after e t"
  using retry_after_bounds(1) [of e t] by linarith+

lemma wait_full_table:
  assumes none: "owner \<notin> fst ` set (lm_owners k)" and ok: "limiter_ok now k" and valid: "safe_int owner" "0 < owner"
    and res: "fresh_window owner now k = (r, l')" "r \<noteq> 0"
  shows "waits_for owner now r l'"
proof -
  obtain e rest where e: "lm_owners l' = e # rest" "r = retry_after (ow_expires (snd e)) now" "limiter_ok now l'"
    "lm_max l' = int (length (e # rest))" "owner \<notin> fst ` set (e # rest)" "now < ow_expires (snd e)"
    by (rule refused_full [OF ok none valid res], rule that; assumption)
  have none': "owner \<notin> fst ` set (lm_owners l')" "map_of (lm_owners l') owner = None" using e(1,5) by (simp_all add: map_of_eq_None_iff)
  then have again: "consume owner t l' = Inr (fresh_window owner t l')" for t using valid by (simp add: consume_def)
  have "\<exists>l''. consume owner later l' = Inr (0, l'')" if later: "now + 1000 * of_int r \<le> later" for later
  proof -
    have over: "ow_expires (snd e) \<le> later" using later retry_after_bounds(2) [of "ow_expires (snd e)" now] e(2) by simp
    then have "length (drop_expired later (lm_owners l')) \<le> length rest" by (simp add: drop_expired_def e(1) length_dropWhile_le)
    moreover have "now \<le> later" using over e(6) by simp
    ultimately show ?thesis
      unfolding again by (subst fresh_window_cases [OF limiter_ok_later [OF e(3)] none'(1)]) (use e(4) in simp_all)
  qed
  moreover have "\<exists>q l''. consume owner later l' = Inr (q, l'') \<and> q \<noteq> 0" if "now \<le> later" "later < now + 1000 * (of_int r - 1)" for later
  proof -
    have "later < ow_expires (snd e)" using retry_after_bounds(3) that e(2) by blast
    then have "drop_expired later (lm_owners l') = lm_owners l'" by (simp add: drop_expired_def e(1))
    then show ?thesis
      unfolding again by (subst fresh_window_cases [OF limiter_ok_later [OF e(3) that(1)] none'(1)]) (use e(1,4) in simp)
  qed
  ultimately show ?thesis unfolding waits_for_def by blast
qed

lemma wait_open_window:
  assumes ok: "limiter_ok now l" and valid: "safe_int owner" "0 < owner" and w: "map_of (lm_owners l) owner = Some w" "now < ow_expires w" "lm_limit l \<le> ow_requests w"
  shows "waits_for owner now (retry_after (ow_expires w) now) l"
proof -
  have "\<exists>l''. consume owner later l = Inr (0, l'')" if later: "now + 1000 * of_int (retry_after (ow_expires w) now) \<le> later" for later
  proof -
    have over: "\<not> later < ow_expires w" using later retry_after_bounds(2) [of "ow_expires w" now] by simp
    have "now \<le> later" using w(2) over by simp
    from forget_ok [OF limiter_ok_later [OF ok this]] have ok': "limiter_ok later (l\<lparr>lm_owners := forget owner (lm_owners l)\<rparr>)" .
    have "length (drop_expired later (forget owner (lm_owners l))) \<le> length (forget owner (lm_owners l))"
      by (simp add: drop_expired_def length_dropWhile_le)
    also have "\<dots> < length (lm_owners l)" unfolding forget_def using map_of_SomeD [OF w(1)] by (intro length_filter_less) auto
    finally have "int (length (drop_expired later (forget owner (lm_owners l)))) < lm_max l" using ok by (simp add: limiter_ok_def)
    moreover have "owner \<notin> fst ` set (lm_owners (l\<lparr>lm_owners := forget owner (lm_owners l)\<rparr>))" by (auto simp: forget_def)
    ultimately show ?thesis using fresh_window_cases [OF ok'] valid w(1) over by (simp add: consume_def)
  qed
  moreover have "\<exists>q l''. consume owner later l = Inr (q, l'') \<and> q \<noteq> 0"
    if "now \<le> later" "later < now + 1000 * (of_int (retry_after (ow_expires w) now) - 1)" for later
    using retry_after_bounds(3) [OF that] valid w by (simp add: consume_def take_request_def)
  ultimately show ?thesis unfolding waits_for_def by blast
qed

text \<open>C40. The waiting time told to a refused owner is truthful: if nothing happens in between, a
  request after that many seconds is admitted, and one more than a second earlier is refused
  again. Every refusal therefore ends.
\<close>

theorem refused_owner_admitted_after_wait:
  assumes "limiter_ok now l" "consume owner now l = Inr (r, l')" "r \<noteq> 0"
  shows "waits_for owner now r l'"
proof -
  have valid: "safe_int owner" "0 < owner" using assms(2) by (auto simp: consume_def split: if_splits)
  show ?thesis
  proof (cases "map_of (lm_owners l) owner")
    case None
    with assms valid show ?thesis by (intro wait_full_table [OF _ assms(1)]) (auto simp: consume_def map_of_eq_None_iff)
  next
    case (Some w)
    show ?thesis
    proof (cases "now < ow_expires w")
      case False
      with Some assms valid show ?thesis by (intro wait_full_table [OF _ forget_ok [OF assms(1)]]) (auto simp: consume_def forget_def)
    next
      case True
      with Some assms valid have w: "lm_limit l \<le> ow_requests w" "r = retry_after (ow_expires w) now" "l' = l"
        by (auto simp: consume_def take_request_def split: if_splits)
      with wait_open_window [OF assms(1) valid Some True] show ?thesis by simp
    qed
  qed
qed

section \<open>A bound on admissions\<close>

fun admitted :: "int \<Rightarrow> (int \<times> rat) list \<Rightarrow> limiter \<Rightarrow> nat" where
  "admitted owner [] l = 0"
| "admitted owner ((caller, now) # calls) l = (case consume caller now l of
     Inl _ \<Rightarrow> admitted owner calls l
   | Inr (r, l') \<Rightarrow> (if caller = owner \<and> r = 0 then 1 else 0) + admitted owner calls l')"

text \<open>What an owner may still be admitted before an instant no window opened from now on outlives.\<close>

definition allowance :: "int \<Rightarrow> rat \<Rightarrow> limiter \<Rightarrow> int" where
  "allowance owner finish l = (case map_of (lm_owners l) owner of
      None \<Rightarrow> lm_limit l
    | Some w \<Rightarrow> (if ow_expires w < finish then 2 * lm_limit l else lm_limit l) - ow_requests w)"

lemma map_of_drop_expired:
  assumes "distinct (map fst owners)" "sorted (map (\<lambda>e. ow_expires (snd e)) owners)"
  shows "map_of (drop_expired now owners) owner =
    (case map_of owners owner of None \<Rightarrow> None | Some w \<Rightarrow> if ow_expires w \<le> now then None else Some w)"
  using assms
proof (induction owners)
  case (Cons e owners)
  show ?case
  proof (cases "ow_expires (snd e) \<le> now")
    case True
    have "map_of owners (fst e) = None" using Cons.prems(1) by (auto simp: map_of_eq_None_iff)
    with Cons True show ?thesis by (cases "fst e = owner") (simp_all add: drop_expired_def)
  next
    case False
    with Cons.prems have "\<not> ow_expires w \<le> now" if "map_of owners owner = Some w" for w using map_of_SomeD [OF that] by fastforce
    with False show ?thesis by (auto simp: drop_expired_def split: option.splits)
  qed
qed (simp add: drop_expired_def)

lemma map_of_forget: "map_of (forget owner owners) k = (if k = owner then None else map_of owners k)"
  by (induction owners) (auto simp: forget_def)

lemma map_of_replace:
  "map_of (map (\<lambda>e. if fst e = owner then (owner, v) else e) owners) k
    = (if k = owner then (case map_of owners owner of None \<Rightarrow> None | Some _ \<Rightarrow> Some v) else map_of owners k)"
  by (induction owners) (auto split: option.splits)

lemma fresh_window_lookup:
  assumes ok: "limiter_ok now l" and none: "owner \<notin> fst ` set (lm_owners l)" and res: "fresh_window owner now l = (r, l')"
  shows "lm_limit l' = lm_limit l \<and> lm_window l' = lm_window l
    \<and> (r = 0 \<longrightarrow> map_of (lm_owners l') owner = Some \<lparr>ow_expires = now + of_int (lm_window l), ow_requests = 1\<rparr>)
    \<and> (r \<noteq> 0 \<longrightarrow> map_of (lm_owners l') owner = None)
    \<and> (k \<noteq> owner \<longrightarrow> map_of (lm_owners l') k = (case map_of (lm_owners l) k of None \<Rightarrow> None | Some w \<Rightarrow> if ow_expires w \<le> now then None else Some w))"
proof -
  have kept: "map_of (drop_expired now (lm_owners l)) k = (case map_of (lm_owners l) k of None \<Rightarrow> None | Some w \<Rightarrow> if ow_expires w \<le> now then None else Some w)" for k
    using ok by (intro map_of_drop_expired) (simp_all add: limiter_ok_def)
  have "map_of (lm_owners l) owner = None" using none by (simp add: map_of_eq_None_iff)
  with kept [of owner] have "map_of (drop_expired now (lm_owners l)) owner = None" by simp
  with res kept [of k] show ?thesis
    unfolding fresh_window_cases [OF ok none] by (auto simp: map_add_def split: if_splits option.splits)
qed

text \<open>A call uses up the allowance of the owner it admits, and leaves that of the others.\<close>

lemma consume_allowance:
  assumes ok: "limiter_ok now l" and res: "consume caller now l = Inr (r, l')"
    and time: "start \<le> now" "now < start + of_int (lm_window l)"
  shows "lm_limit l' = lm_limit l \<and> lm_window l' = lm_window l \<and>
    allowance owner (start + of_int (lm_window l)) l' + (if caller = owner \<and> r = 0 then 1 else 0) \<le> allowance owner (start + of_int (lm_window l)) l"
proof -
  let ?finish = "start + of_int (lm_window l)"
  have req: "1 \<le> ow_requests w \<and> ow_requests w \<le> lm_limit l" if "map_of (lm_owners l) k = Some w" for k w
    using ok map_of_SomeD [OF that] by (auto simp: limiter_ok_def)
  have pos: "0 < lm_limit l" using ok by (simp add: limiter_ok_def)
  show ?thesis
  proof (cases "\<exists>w. map_of (lm_owners l) caller = Some w \<and> now < ow_expires w")
    case True
    then obtain w where w: "map_of (lm_owners l) caller = Some w" "now < ow_expires w" by blast
    with res have "take_request caller w now l = (r, l')" by (auto simp: consume_def split: if_splits)
    then show ?thesis using w by (cases "map_of (lm_owners l) owner") (auto simp: take_request_def allowance_def map_of_replace split: if_splits)
  next
    case False
    define k where "k = l\<lparr>lm_owners := forget caller (lm_owners l)\<rparr>"
    have "map_of (lm_owners l) caller = None \<Longrightarrow> forget caller (lm_owners l) = lm_owners l"
      by (auto simp: forget_def map_of_eq_None_iff intro!: filter_True)
    with res False have fresh: "fresh_window caller now k = (r, l')"
      by (auto simp: consume_def k_def split: if_splits option.splits)
    have k: "lm_limit k = lm_limit l" "lm_window k = lm_window l" "map_of (lm_owners k) i = (if i = caller then None else map_of (lm_owners l) i)" for i
      by (simp_all add: k_def map_of_forget)
    have "limiter_ok now k" "caller \<notin> fst ` set (lm_owners k)" unfolding k_def by (rule forget_ok [OF ok]) (auto simp: forget_def)
    from fresh_window_lookup [OF this fresh, of owner] have look: "lm_limit l' = lm_limit l" "lm_window l' = lm_window l"
      "caller = owner \<Longrightarrow> r = 0 \<Longrightarrow> map_of (lm_owners l') owner = Some \<lparr>ow_expires = now + of_int (lm_window l), ow_requests = 1\<rparr>"
      "caller = owner \<Longrightarrow> r \<noteq> 0 \<Longrightarrow> map_of (lm_owners l') owner = None"
      "caller \<noteq> owner \<Longrightarrow> map_of (lm_owners l') owner = (case map_of (lm_owners l) owner of None \<Rightarrow> None | Some w \<Rightarrow> if ow_expires w \<le> now then None else Some w)"
      by (auto simp: k)
    have least: "lm_limit l \<le> allowance owner ?finish l" if "map_of (lm_owners l) owner = None \<or> (\<exists>w. map_of (lm_owners l) owner = Some w \<and> ow_expires w \<le> now)"
      using that req [of owner] time by (auto simp: allowance_def)
    show ?thesis
    proof (cases "caller = owner")
      case True
      then have "lm_limit l \<le> allowance owner ?finish l" using False by (intro least) (auto simp: not_less)
      moreover have "\<not> now + of_int (lm_window l) < ?finish" using time by simp
      ultimately show ?thesis using True look pos by (cases "r = 0") (auto simp: allowance_def)
    next
      case other: False
      then show ?thesis
        using look(1,2,5) least by (cases "map_of (lm_owners l) owner") (auto simp: allowance_def split: if_splits)
    qed
  qed
qed

lemma admitted_allowance:
  "limiter_ok start l \<Longrightarrow> sorted (map snd calls) \<Longrightarrow> \<forall>c\<in>set calls. start \<le> snd c \<and> start' \<le> snd c \<and> snd c < start' + of_int (lm_window l)
    \<Longrightarrow> int (admitted owner calls l) \<le> allowance owner (start' + of_int (lm_window l)) l"
proof (induction calls arbitrary: l start)
  case Nil
  then show ?case by (auto simp: allowance_def limiter_ok_def split: option.splits dest!: map_of_SomeD)
next
  case (Cons call calls)
  obtain caller now where c: "call = (caller, now)" by force
  have ok: "limiter_ok now l" using Cons.prems c by (intro limiter_ok_later [OF Cons.prems(1)]) simp
  show ?case
  proof (cases "consume caller now l")
    case (Inl e)
    with Cons.IH [OF ok] Cons.prems c show ?thesis by simp
  next
    case (Inr v)
    then obtain r l' where r: "consume caller now l = Inr (r, l')" by (cases v) auto
    from consume_allowance [OF ok r, of start' owner] Cons.prems c
    have step: "lm_window l' = lm_window l" "allowance owner (start' + of_int (lm_window l)) l' + (if caller = owner \<and> r = 0 then 1 else 0) \<le> allowance owner (start' + of_int (lm_window l)) l"
      by auto
    have "int (admitted owner calls l') \<le> allowance owner (start' + of_int (lm_window l')) l'"
      by (rule Cons.IH [OF consume_ok [OF ok r]]) (use Cons.prems c step(1) in auto)
    with step r c show ?thesis by (cases "caller = owner \<and> r = 0") auto
  qed
qed

text \<open>
  Whatever calls reach a limiter, in the order of the clock: within any stretch of time shorter
  than a window no owner is admitted more than twice the limit, and an owner without a window at
  its beginning not more than the limit.
\<close>

theorem admissions_bounded:
  assumes "limiter_ok start l" "sorted (map snd calls)" "\<forall>c\<in>set calls. start \<le> snd c \<and> snd c < start + of_int (lm_window l)"
  shows "int (admitted owner calls l) \<le> (if owner \<in> fst ` set (lm_owners l) then 2 * lm_limit l else lm_limit l)"
proof -
  have "int (admitted owner calls l) \<le> allowance owner (start + of_int (lm_window l)) l"
    by (rule admitted_allowance [OF assms(1,2)]) (use assms(3) in auto)
  also have "\<dots> \<le> (if owner \<in> fst ` set (lm_owners l) then 2 * lm_limit l else lm_limit l)"
  proof (cases "map_of (lm_owners l) owner")
    case None
    then show ?thesis using assms(1) by (simp add: allowance_def limiter_ok_def)
  next
    case (Some w)
    from map_of_SomeD [OF this] have "owner \<in> fst ` set (lm_owners l)" by force
    with Some assms(1) map_of_SomeD [OF Some] show ?thesis by (auto simp: allowance_def limiter_ok_def)
  qed
  finally show ?thesis .
qed

section \<open>A worked example\<close>

lemma new_limiter_ok: "new_limiter limit window max_owners = Inr l \<Longrightarrow> limiter_ok now l"
  by (auto simp: new_limiter_def limiter_ok_def split: if_splits)

definition example_limiter :: limiter where
  "example_limiter = \<lparr>lm_limit = 1, lm_window = 60000, lm_max = 2, lm_owners = [(7, \<lparr>ow_expires = 60000, ow_requests = 1\<rparr>)]\<rparr>"

lemma example_limiter_ok: "limiter_ok 0 example_limiter"
  by (simp add: limiter_ok_def example_limiter_def)

lemma refused_owner_admitted_after_wait_witness: "consume 7 0 example_limiter = Inr (60, example_limiter) \<and> waits_for 7 0 60 example_limiter"
proof -
  have "consume 7 0 example_limiter = Inr (60, example_limiter)"
    by (simp add: consume_def example_limiter_def take_request_def retry_after_def safe_int_def max_safe_def)
  with refused_owner_admitted_after_wait [OF example_limiter_ok this] show ?thesis by simp
qed

lemma admissions_bounded_witness: "int (admitted 7 [(7, 0), (8, 1), (7, 2)] example_limiter) \<le> 2"
  using admissions_bounded [OF example_limiter_ok, of "[(7, 0), (8, 1), (7, 2)]" 7] by (simp add: example_limiter_def)

end
