(* ===== verification/SearchPagination.thy ===== *)
theory SearchPagination
  imports JsonText "HOL-Library.Sublist"
begin

text \<open>
  Pages of search results (\<^verbatim>\<open>server/helpers/search-pagination.ts\<close>). A first call retains the
  order of the results, a cursor is the token of that snapshot with a position in it, and every
  continuation searches again and shows the rows of the snapshot that are still found. The search
  itself is a parameter; while it is awaited other calls may change the store of snapshots.
\<close>

section \<open>Rows and snapshots\<close>

record search_row =
  sr_id :: js_value
  sr_locale :: string
  sr_path :: string
  sr_visibility :: js_value

record search_window =
  sw_results :: "search_row list"
  sw_suggestions :: "string list"
  sw_total :: nat
  sw_truncated :: "bool option"
  sw_limit :: "nat option"

record search_snapshot =
  ss_owner :: string
  ss_query :: string
  ss_identities :: "string list"
  ss_pages :: "int list"
  ss_expires :: int

type_synonym snapshot_store = "(string \<times> search_snapshot) list"

definition page_size :: nat where
  "page_size = 20"

definition max_snapshots :: nat where
  "max_snapshots = 128"

text \<open>
  \<^verbatim>\<open>JSON.stringify\<close>: \<^term>\<open>None\<close> for \<^verbatim>\<open>undefined\<close>, which is null in an array and left out of an
  object; a number without a text is null.
\<close>

fun json_text :: "run_env \<Rightarrow> js_value \<Rightarrow> string option"
  and json_items :: "run_env \<Rightarrow> js_value list \<Rightarrow> string list"
  and json_members :: "run_env \<Rightarrow> (string \<times> js_value) list \<Rightarrow> string list" where
  "json_text env JUndefined = None"
| "json_text env JNull = Some ''null''"
| "json_text env (JBool b) = Some (if b then ''true'' else ''false'')"
| "json_text env (JNum n) = Some (option_or (number_text env n) ''null'')"
| "json_text env (JStr s) = Some (json_string s)"
| "json_text env (JArr vs) = Some (''['' @ comma_join (json_items env vs) @ '']'')"
| "json_text env (JObj ps) = Some (''{'' @ comma_join (json_members env ps) @ ''}'')"
| "json_items env [] = []"
| "json_items env (v # vs) = option_or (json_text env v) ''null'' # json_items env vs"
| "json_members env [] = []"
| "json_members env ((k, v) # ps) = (case json_text env v of None \<Rightarrow> json_members env ps
    | Some t \<Rightarrow> (json_string k @ '':'' @ t) # json_members env ps)"

definition row_identity :: "run_env \<Rightarrow> search_row \<Rightarrow> string" where
  "row_identity env r = option_or (json_text env (JArr [sr_id r, JStr (sr_locale r), JStr (sr_path r), sr_visibility r])) []"

section \<open>Cursors\<close>

text \<open>The pattern \<^verbatim>\<open>/^([0-9a-f-]{36}):(\d{1,5})$/\<close> and the number behind the colon.\<close>

definition is_token_char :: "char \<Rightarrow> bool" where
  "is_token_char c = (is_hex_char c \<or> c = CHR ''-'')"

definition digits_value :: "string \<Rightarrow> nat" where
  "digits_value s = foldl (\<lambda>n c. n * 10 + (of_char c - 48)) 0 s"

definition parse_cursor :: "string \<Rightarrow> (string \<times> nat) option" where
  "parse_cursor s = (let token = take 36 s; digits = drop 37 s in
     if length token = 36 \<and> list_all is_token_char token \<and> take 1 (drop 36 s) = '':''
        \<and> 1 \<le> length digits \<and> length digits \<le> 5 \<and> list_all is_digit digits
     then Some (token, digits_value digits) else None)"

definition cursor_text :: "string \<Rightarrow> nat \<Rightarrow> string" where
  "cursor_text token offset = token @ '':'' @ decimal offset"

section \<open>A call\<close>

definition cursor_error :: js_error where
  "cursor_error = Coded ''SearchCursorError'' 409"

text \<open>
  Before the search: expired snapshots are dropped, and a cursor has to belong to a snapshot of the
  same owner and query. An empty cursor counts as none.
\<close>

definition drop_old :: "int \<Rightarrow> snapshot_store \<Rightarrow> snapshot_store" where
  "drop_old now store = filter (\<lambda>e. now < ss_expires (snd e)) store"

definition open_search ::
  "string \<Rightarrow> string \<Rightarrow> string option \<Rightarrow> string \<Rightarrow> snapshot_store \<Rightarrow> (string \<times> nat \<times> search_snapshot option) result" where
  "open_search owner query cursor fresh store = (case cursor of
      None \<Rightarrow> Inr (fresh, 0, None)
    | Some c \<Rightarrow> if c = [] then Inr (fresh, 0, None)
        else (case parse_cursor c of
            None \<Rightarrow> Inl cursor_error
          | Some (token, offset) \<Rightarrow> (case map_of store token of
              None \<Rightarrow> Inl cursor_error
            | Some snap \<Rightarrow>
                if ss_owner snap \<noteq> owner \<or> ss_query snap \<noteq> query then Inl cursor_error
                else if length (ss_identities snap) < offset then Inl cursor_error
                else Inr (token, offset, Some snap))))"

definition canonical_ids :: "search_row list \<Rightarrow> int list" where
  "canonical_ids rows = dedup (concat (map (\<lambda>r. case js_positive (sr_id r) of None \<Rightarrow> [] | Some i \<Rightarrow> [i]) rows))"

text \<open>\<^verbatim>\<open>Map.set\<close>: a known key keeps its place. The oldest snapshots give way to a new one.\<close>

definition store_snapshot :: "string \<Rightarrow> search_snapshot \<Rightarrow> snapshot_store \<Rightarrow> snapshot_store" where
  "store_snapshot token snap store =
     (let kept = drop (length store - (max_snapshots - 1)) store in
      if token \<in> fst ` set kept then map (\<lambda>e. if fst e = token then (token, snap) else e) kept else kept @ [(token, snap)])"

text \<open>The rows by identity: a later row with the same identity replaces an earlier one.\<close>

definition current_rows :: "run_env \<Rightarrow> search_row list \<Rightarrow> string \<Rightarrow> search_row option" where
  "current_rows env rows = map_of (rev (map (\<lambda>r. (row_identity env r, r)) rows))"

text \<open>
  The loop over the retained identities: the rows that are still found, at most a page of them,
  and how many identities were passed.
\<close>

fun select_rows :: "(string \<Rightarrow> search_row option) \<Rightarrow> nat \<Rightarrow> string list \<Rightarrow> search_row list \<times> nat" where
  "select_rows current room [] = ([], 0)"
| "select_rows current room (k # ks) = (if room = 0 then ([], 0)
     else case current k of
       None \<Rightarrow> (let (rows, n) = select_rows current room ks in (rows, n + 1))
     | Some r \<Rightarrow> (let (rows, n) = select_rows current (room - 1) ks in (r # rows, n + 1)))"

record search_page = search_window +
  sp_next :: "string option"
  sp_count :: nat

definition finish_search ::
  "run_env \<Rightarrow> string \<Rightarrow> string \<Rightarrow> string \<Rightarrow> nat \<Rightarrow> search_snapshot option \<Rightarrow> int \<Rightarrow> search_window \<Rightarrow> snapshot_store \<Rightarrow> search_page \<times> snapshot_store" where
  "finish_search env owner query token offset opened now response store =
     (let snap = (case opened of Some s \<Rightarrow> s
        | None \<Rightarrow> \<lparr>ss_owner = owner, ss_query = query, ss_identities = dedup (map (row_identity env) (sw_results response)),
            ss_pages = canonical_ids (sw_results response), ss_expires = now + 300000\<rparr>);
        store' = (case opened of Some _ \<Rightarrow> store | None \<Rightarrow> store_snapshot token snap store);
        current = current_rows env (sw_results response);
        visible = filter (\<lambda>k. current k \<noteq> None) (ss_identities snap);
        (selected, passed) = select_rows current page_size (drop offset (ss_identities snap));
        offset' = offset + passed;
        more = list_ex (\<lambda>k. current k \<noteq> None) (drop offset' (ss_identities snap))
      in (search_window.extend (response\<lparr>sw_results := selected, sw_total := length visible\<rparr>)
            \<lparr>sp_next = if more then Some (cursor_text token offset') else None, sp_count = length visible\<rparr>, store'))"

text \<open>\<^verbatim>\<open>paginateSearch\<close>\<close>

definition paginate_search ::
  "run_env \<Rightarrow> string \<Rightarrow> string \<Rightarrow> string option \<Rightarrow> (int list option \<Rightarrow> snapshot_store \<Rightarrow> search_window \<times> snapshot_store) \<Rightarrow> int \<Rightarrow> string
     \<Rightarrow> snapshot_store \<Rightarrow> search_page result \<times> snapshot_store" where
  "paginate_search env owner query cursor search now fresh store =
     (let kept = drop_old now store in
      case open_search owner query cursor fresh kept of
        Inl e \<Rightarrow> (Inl e, kept)
      | Inr (token, offset, opened) \<Rightarrow>
          let (response, store1) = search (map_option ss_pages opened) kept;
              (page, store2) = finish_search env owner query token offset opened now response store1
          in (Inr page, store2))"

section \<open>Cursors read back\<close>

lemma digit_of: "k < 10 \<Longrightarrow> is_digit (char_of (48 + k :: nat)) \<and> (of_char (char_of (48 + k :: nat) :: char) :: nat) - 48 = k"
  by (simp add: is_digit_def Let_def of_char_of)

lemma digits_value_snoc: "digits_value (s @ [c]) = digits_value s * 10 + (of_char c - 48)"
  by (simp add: digits_value_def)

lemma decimal_digits: "list_all is_digit (decimal n) \<and> digits_value (decimal n) = n \<and> decimal n \<noteq> []"
proof (induction n rule: decimal.induct)
  case (1 n)
  show ?case
  proof (cases "n < 10")
    case True
    then show ?thesis using digit_of [of n] by (simp add: decimal.simps [of n] digits_value_def)
  next
    case False
    with 1 digit_of [of "n mod 10"] show ?thesis by (simp add: decimal.simps [of n] digits_value_snoc)
  qed
qed

lemma decimal_length: "n < 10 ^ k \<Longrightarrow> 0 < k \<Longrightarrow> length (decimal n) \<le> k"
proof (induction k arbitrary: n)
  case (Suc k)
  show ?case
  proof (cases "n < 10")
    case True
    then show ?thesis by (simp add: decimal.simps [of n])
  next
    case False
    with Suc.prems have "0 < k" by (cases k) auto
    moreover have "n div 10 < 10 ^ k" using Suc.prems by (simp add: less_mult_imp_div_less)
    ultimately show ?thesis using Suc.IH [of "n div 10"] False by (simp add: decimal.simps [of n])
  qed
qed simp

definition is_token :: "string \<Rightarrow> bool" where
  "is_token s = (length s = 36 \<and> list_all is_token_char s)"

lemma parse_cursor_text:
  assumes "is_token token" "n < 100000"
  shows "parse_cursor (cursor_text token n) = Some (token, n)"
proof -
  have "length (decimal n) \<le> 5" by (rule decimal_length) (use assms(2) in auto)
  moreover have "1 \<le> length (decimal n)" using decimal_digits [of n] by (cases "decimal n") auto
  ultimately show ?thesis
    using assms(1) decimal_digits [of n] by (simp add: parse_cursor_def cursor_text_def is_token_def Let_def)
qed

section \<open>One page\<close>

abbreviation found :: "run_env \<Rightarrow> search_window \<Rightarrow> string \<Rightarrow> bool" where
  "found env w k \<equiv> current_rows env (sw_results w) k \<noteq> None"

lemma found_iff: "found env w k \<longleftrightarrow> k \<in> row_identity env ` set (sw_results w)"
  by (auto simp: current_rows_def map_of_eq_None_iff image_iff)

lemma current_rows_identity: "current_rows env rows k = Some r \<Longrightarrow> row_identity env r = k"
  unfolding current_rows_def by (drule map_of_SomeD) auto

lemma select_rows_spec:
  assumes "select_rows current room ks = (rows, n)"
  shows "rows = map (\<lambda>k. the (current k)) (filter (\<lambda>k. current k \<noteq> None) (take n ks)) \<and> n \<le> length ks \<and> length rows \<le> room
    \<and> (n < length ks \<longrightarrow> length rows = room)"
  using assms
proof (induction current room ks arbitrary: rows n rule: select_rows.induct)
  case (2 current room k ks)
  consider "room = 0" | "room \<noteq> 0" "current k = None" | r where "room \<noteq> 0" "current k = Some r" by blast
  then show ?case
  proof cases
    case 2
    obtain rs m where m: "select_rows current room ks = (rs, m)" by force
    from "2.IH"(1) [OF 2 m] "2.prems" 2 m show ?thesis by auto
  next
    case (3 r)
    obtain rs m where m: "select_rows current (room - 1) ks = (rs, m)" by force
    from "2.IH"(2) [OF 3 m] "2.prems" 3 m show ?thesis by auto
  qed (use 2 in simp)
qed simp

text \<open>A page over a known snapshot: the found rows of a stretch of it behind the cursor.\<close>

lemma finish_search_page:
  assumes fin: "finish_search env owner query token offset opened now w store = (page, store')"
    and snap: "snap = (case opened of Some s \<Rightarrow> s | None \<Rightarrow>
      \<lparr>ss_owner = owner, ss_query = query, ss_identities = dedup (map (row_identity env) (sw_results w)), ss_pages = canonical_ids (sw_results w), ss_expires = now + 300000\<rparr>)"
    and offset: "offset \<le> length (ss_identities snap)"
  obtains n where "offset + n \<le> length (ss_identities snap)" "length (sw_results page) \<le> page_size"
    "map (row_identity env) (sw_results page) = filter (found env w) (take n (drop offset (ss_identities snap)))"
    "offset + n < length (ss_identities snap) \<Longrightarrow> length (sw_results page) = page_size"
    "sp_next page = (if list_ex (found env w) (drop (offset + n) (ss_identities snap)) then Some (cursor_text token (offset + n)) else None)"
    "store' = (case opened of Some _ \<Rightarrow> store | None \<Rightarrow> store_snapshot token snap store)"
proof -
  let ?current = "current_rows env (sw_results w)"
  obtain rows n where sel: "select_rows ?current page_size (drop offset (ss_identities snap)) = (rows, n)" by force
  have rows: "rows = map (\<lambda>k. the (?current k)) (filter (\<lambda>k. ?current k \<noteq> None) (take n (drop offset (ss_identities snap))))"
    "n \<le> length (drop offset (ss_identities snap))" "length rows \<le> page_size"
    "n < length (drop offset (ss_identities snap)) \<longrightarrow> length rows = page_size" using select_rows_spec [OF sel] by auto
  have "map (row_identity env) rows = filter (found env w) (take n (drop offset (ss_identities snap)))"
    unfolding rows(1) map_map by (rule map_idI) (auto simp: current_rows_identity)
  then show ?thesis
    using fin sel rows(2,3,4) offset unfolding finish_search_def snap [symmetric] Let_def
    by (intro that [of n]) (auto simp: search_window.defs)
qed

section \<open>The store between the calls\<close>

text \<open>
  What calls do to the store: a call drops what has expired when it begins, and a first call
  retains its snapshot when its search is answered. Between two steps of one call, and between the
  calls of one reader, the steps of other calls may come in any order.
\<close>

datatype store_step =
    Begins int
  | Retains string search_snapshot

fun store_exec :: "store_step \<Rightarrow> snapshot_store \<Rightarrow> snapshot_store" where
  "store_exec (Begins now) store = drop_old now store"
| "store_exec (Retains token snap) store = store_snapshot token snap store"

definition store_run :: "store_step list \<Rightarrow> snapshot_store \<Rightarrow> snapshot_store" where
  "store_run steps store = fold store_exec steps store"

fun retains :: "store_step \<Rightarrow> bool" where
  "retains (Begins _) = False"
| "retains (Retains _ _) = True"

definition retained_in :: "store_step list \<Rightarrow> nat" where
  "retained_in steps = length (filter retains steps)"

text \<open>A step of another call: it retains no snapshot under this token, and the clock is before the instant.\<close>

fun apart_from :: "string \<Rightarrow> store_step \<Rightarrow> bool" where
  "apart_from token (Begins _) = True"
| "apart_from token (Retains t _) = (t \<noteq> token)"

fun before_instant :: "int \<Rightarrow> store_step \<Rightarrow> bool" where
  "before_instant until (Begins now) = (now < until)"
| "before_instant until (Retains _ _) = True"

text \<open>Whatever the outcome of a call, it changes the store by such steps.\<close>

lemma paginate_search_steps:
  assumes "snd (paginate_search env owner query cursor (\<lambda>_ st. (w, store_run during st)) now fresh store) = store'"
  shows "\<exists>rest. store' = store_run (Begins now # rest) store \<and> (rest = [] \<or> rest = during \<or> (\<exists>snap. rest = during @ [Retains fresh snap]))"
proof (cases "open_search owner query cursor fresh (drop_old now store)")
  case (Inl e)
  with assms show ?thesis by (auto simp: paginate_search_def Let_def store_run_def intro!: exI [of _ "[]"])
next
  case (Inr opened)
  then obtain token offset snap where o: "open_search owner query cursor fresh (drop_old now store) = Inr (token, offset, snap)"
    by (cases opened) auto
  have fresh: "snap = None \<Longrightarrow> token = fresh"
    using o by (auto simp: open_search_def split: option.splits if_splits)
  show ?thesis
  proof (cases snap)
    case None
    with o fresh assms show ?thesis
      by (auto simp: paginate_search_def finish_search_def Let_def store_run_def split: prod.splits intro!: exI [of _ "during @ [Retains fresh _]"])
  next
    case (Some s)
    with o assms show ?thesis
      by (auto simp: paginate_search_def finish_search_def Let_def store_run_def split: prod.splits intro!: exI [of _ during])
  qed
qed

text \<open>
  A snapshot is live with at most so many newer ones: only the arrival of further snapshots brings
  it closer to the front, where the oldest one gives way.
\<close>

definition live_with :: "string \<Rightarrow> search_snapshot \<Rightarrow> nat \<Rightarrow> snapshot_store \<Rightarrow> bool" where
  "live_with token snap n store \<longleftrightarrow> (\<exists>older newer. store = older @ (token, snap) # newer \<and> token \<notin> fst ` set older \<and> token \<notin> fst ` set newer \<and> length newer \<le> n)"

lemma live_with_lookup: "live_with token snap n store \<Longrightarrow> map_of store token = Some snap"
  unfolding live_with_def by (auto simp: map_add_def dest: map_of_SomeD split: option.splits) (force dest: map_of_SomeD)

lemma live_with_begins:
  assumes "live_with token snap n store" "now < ss_expires snap"
  shows "live_with token snap n (drop_old now store)"
proof -
  obtain older newer where s: "store = older @ (token, snap) # newer" "token \<notin> fst ` set older" "token \<notin> fst ` set newer" "length newer \<le> n"
    using assms(1) by (auto simp: live_with_def)
  have "drop_old now store = drop_old now older @ (token, snap) # drop_old now newer"
    using assms(2) by (simp add: drop_old_def s(1))
  moreover have "length (drop_old now newer) \<le> n" using s(4) length_filter_le le_trans unfolding drop_old_def by blast
  ultimately show ?thesis using s(2,3) unfolding live_with_def
    by (intro exI [of _ "drop_old now older"] exI [of _ "drop_old now newer"]) (auto simp: drop_old_def)
qed

lemma live_with_retains:
  assumes "live_with token snap n store" "t \<noteq> token" "n + 1 < max_snapshots"
  shows "live_with token snap (n + 1) (store_snapshot t other store)"
proof -
  obtain older newer where s: "store = older @ (token, snap) # newer" "token \<notin> fst ` set older" "token \<notin> fst ` set newer" "length newer \<le> n"
    using assms(1) by (auto simp: live_with_def)
  let ?d = "length store - (max_snapshots - 1)" and ?f = "\<lambda>e. if fst e = t then (t, other) else e"
  have kept: "drop ?d store = drop ?d older @ (token, snap) # newer"
    using s(1,4) assms(3) by (simp add: max_snapshots_def)
  have out: "token \<notin> fst ` set (drop ?d older)" using s(2) by (meson image_mono set_drop_subset subsetD)
  show ?thesis
  proof (cases "t \<in> fst ` set (drop ?d store)")
    case True
    then have "store_snapshot t other store = map ?f (drop ?d older) @ (token, snap) # map ?f newer"
      unfolding store_snapshot_def Let_def using assms(2) by (simp only: if_True kept) simp
    with out s(3,4) assms(2) show ?thesis unfolding live_with_def
      by (intro exI [of _ "map ?f (drop ?d older)"] exI [of _ "map ?f newer"]) (auto simp: image_iff split: if_splits)
  next
    case False
    then have "store_snapshot t other store = drop ?d older @ (token, snap) # newer @ [(t, other)]"
      unfolding store_snapshot_def Let_def by (simp only: if_False kept) simp
    with out s(3,4) assms(2) show ?thesis unfolding live_with_def
      by (intro exI [of _ "drop ?d older"] exI [of _ "newer @ [(t, other)]"]) auto
  qed
qed

lemma live_with_run:
  "live_with token snap n store \<Longrightarrow> \<forall>x\<in>set steps. apart_from token x \<and> before_instant (ss_expires snap) x \<Longrightarrow> n + retained_in steps < max_snapshots
     \<Longrightarrow> live_with token snap (n + retained_in steps) (store_run steps store)"
proof (induction steps arbitrary: n store)
  case (Cons x steps)
  show ?case
  proof (cases x)
    case (Begins now)
    with Cons.prems have "live_with token snap n (drop_old now store)" by (intro live_with_begins) simp_all
    from Cons.IH [OF this] Cons.prems Begins show ?thesis by (simp add: store_run_def retained_in_def)
  next
    case (Retains t other)
    with Cons.prems have "live_with token snap (n + 1) (store_snapshot t other store)"
      by (intro live_with_retains) (simp_all add: retained_in_def)
    from Cons.IH [OF this] Cons.prems Retains show ?thesis by (simp add: store_run_def retained_in_def)
  qed
qed (simp add: store_run_def retained_in_def)

lemma absent_run:
  "token \<notin> fst ` set store \<Longrightarrow> \<forall>x\<in>set steps. apart_from token x \<Longrightarrow> token \<notin> fst ` set (store_run steps store)"
proof (induction steps arbitrary: store)
  case (Cons x steps)
  have "token \<notin> fst ` set (store_exec x store)"
  proof (cases x)
    case (Retains t other)
    with Cons.prems show ?thesis by (auto simp: store_snapshot_def Let_def image_iff split: if_splits dest: in_set_dropD)
  qed (use Cons.prems in \<open>auto simp: drop_old_def\<close>)
  from Cons.IH [OF this] Cons.prems show ?case by (simp add: store_run_def)
qed (simp add: store_run_def)

lemma live_with_new:
  assumes "token \<notin> fst ` set store"
  shows "live_with token snap 0 (store_snapshot token snap store)"
proof -
  let ?kept = "drop (length store - (max_snapshots - 1)) store"
  have "token \<notin> fst ` set ?kept" using assms by (meson image_mono set_drop_subset subsetD)
  then show ?thesis unfolding live_with_def store_snapshot_def Let_def by (intro exI [of _ ?kept] exI [of _ "[]"]) simp
qed

section \<open>Following the cursors\<close>

text \<open>
  A reader follows the cursors. Every call has its own instant and response; other calls take their
  steps before it and while its search is awaited. The result is the pages and whether the last one
  said there is no more.
\<close>

record search_call =
  sc_before :: "store_step list"
  sc_now :: int
  sc_during :: "store_step list"
  sc_response :: search_window

fun walk :: "run_env \<Rightarrow> string \<Rightarrow> string \<Rightarrow> string \<Rightarrow> search_call list \<Rightarrow> string option \<Rightarrow> snapshot_store
    \<Rightarrow> search_page list \<times> bool result" where
  "walk env owner query token [] cursor store = ([], Inr False)"
| "walk env owner query token (c # calls) cursor store =
     (case paginate_search env owner query cursor (\<lambda>_ st. (sc_response c, store_run (sc_during c) st)) (sc_now c) token (store_run (sc_before c) store) of
        (Inl e, _) \<Rightarrow> ([], Inl e)
      | (Inr page, store') \<Rightarrow> (case sp_next page of
            None \<Rightarrow> ([page], Inr True)
          | Some next \<Rightarrow> let (pages, over) = walk env owner query token calls (Some next) store' in (page # pages, over)))"

definition shown :: "run_env \<Rightarrow> search_page list \<Rightarrow> string list" where
  "shown env pages = concat (map (\<lambda>p. map (row_identity env) (sw_results p)) pages)"

text \<open>The steps of the other calls from one instant on, and what they all have to respect.\<close>

definition others_in :: "search_call list \<Rightarrow> store_step list" where
  "others_in calls = concat (map (\<lambda>c. sc_before c @ sc_during c) calls)"

definition in_time :: "string \<Rightarrow> int \<Rightarrow> search_call list \<Rightarrow> bool" where
  "in_time token until calls \<longleftrightarrow> (\<forall>c\<in>set calls. sc_now c < until) \<and> (\<forall>x\<in>set (others_in calls). apart_from token x \<and> before_instant until x)"

lemma map_of_drop_old: "map_of store token = Some snap \<Longrightarrow> now < ss_expires snap \<Longrightarrow> map_of (drop_old now store) token = Some snap"
  unfolding drop_old_def by (induction store) (auto split: if_splits)

lemma cursor_text_nonempty: "cursor_text token n \<noteq> []"
  by (simp add: cursor_text_def)

text \<open>A continuation of a live snapshot is never refused.\<close>

lemma paginate_continuation:
  assumes "map_of store token = Some snap" "now < ss_expires snap" "ss_owner snap = owner" "ss_query snap = query"
    "offset \<le> length (ss_identities snap)" "length (ss_identities snap) < 100000" "is_token token"
  shows "paginate_search env owner query (Some (cursor_text token offset)) (\<lambda>_ st. (w, f st)) now fresh store
    = (let (page, store') = finish_search env owner query token offset (Some snap) now w (f (drop_old now store)) in (Inr page, store'))"
  using parse_cursor_text [of token offset] map_of_drop_old [OF assms(1,2)] assms
  by (simp add: paginate_search_def open_search_def cursor_text_nonempty Let_def)

text \<open>One call of a reader whose snapshot is live, with the steps of other calls around it.\<close>

lemma call_step:
  assumes live: "live_with token snap n store" and few: "n + retained_in (others_in (c # calls)) < max_snapshots"
    and time: "in_time token (ss_expires snap) (c # calls)"
    and snap: "ss_owner snap = owner" "ss_query snap = query" "is_token token" "length (ss_identities snap) < 100000" "offset \<le> length (ss_identities snap)"
  obtains page store' m k where
    "paginate_search env owner query (Some (cursor_text token offset)) (\<lambda>_ st. (sc_response c, store_run (sc_during c) st)) (sc_now c) token
       (store_run (sc_before c) store) = (Inr page, store')"
    "live_with token snap m store'" "m + retained_in (others_in calls) < max_snapshots" "in_time token (ss_expires snap) calls"
    "offset + k \<le> length (ss_identities snap)" "length (sw_results page) \<le> page_size"
    "map (row_identity env) (sw_results page) = filter (found env (sc_response c)) (take k (drop offset (ss_identities snap)))"
    "offset + k < length (ss_identities snap) \<Longrightarrow> length (sw_results page) = page_size"
    "sp_next page = (if list_ex (found env (sc_response c)) (drop (offset + k) (ss_identities snap)) then Some (cursor_text token (offset + k)) else None)"
proof -
  let ?n1 = "n + retained_in (sc_before c)" and ?n2 = "n + retained_in (sc_before c) + retained_in (sc_during c)"
  have counts: "retained_in (others_in (c # calls)) = retained_in (sc_before c) + retained_in (sc_during c) + retained_in (others_in calls)"
    by (simp add: others_in_def retained_in_def)
  have rest: "sc_now c < ss_expires snap" "in_time token (ss_expires snap) calls"
    "\<forall>x\<in>set (sc_before c). apart_from token x \<and> before_instant (ss_expires snap) x" "\<forall>x\<in>set (sc_during c). apart_from token x \<and> before_instant (ss_expires snap) x"
    using time by (auto simp: in_time_def others_in_def)
  have "live_with token snap ?n1 (store_run (sc_before c) store)" using few counts by (intro live_with_run [OF live rest(3)]) simp
  note look = live_with_lookup [OF this] and begun = live_with_begins [OF this rest(1)]
  have after: "live_with token snap ?n2 (store_run (sc_during c) (drop_old (sc_now c) (store_run (sc_before c) store)))"
    using few counts by (intro live_with_run [OF begun rest(4)]) simp
  obtain page store' where fin: "finish_search env owner query token offset (Some snap) (sc_now c) (sc_response c)
      (store_run (sc_during c) (drop_old (sc_now c) (store_run (sc_before c) store))) = (page, store')" by force
  have result: "paginate_search env owner query (Some (cursor_text token offset)) (\<lambda>_ st. (sc_response c, store_run (sc_during c) st)) (sc_now c) token
       (store_run (sc_before c) store) = (Inr page, store')"
    unfolding paginate_continuation [OF look rest(1) snap(1,2,5,4,3)] fin by simp
  obtain k where k: "offset + k \<le> length (ss_identities snap)" "length (sw_results page) \<le> page_size"
    "map (row_identity env) (sw_results page) = filter (found env (sc_response c)) (take k (drop offset (ss_identities snap)))"
    "offset + k < length (ss_identities snap) \<Longrightarrow> length (sw_results page) = page_size"
    "sp_next page = (if list_ex (found env (sc_response c)) (drop (offset + k) (ss_identities snap)) then Some (cursor_text token (offset + k)) else None)"
    "store' = (case Some snap of Some _ \<Rightarrow> store_run (sc_during c) (drop_old (sc_now c) (store_run (sc_before c) store)) | None \<Rightarrow> store_snapshot token snap store)"
    by (rule finish_search_page [OF fin _ snap(5)], simp, rule that; simp)
  show ?thesis
    by (rule that [of page store' ?n2 k, OF result _ _ rest(2) k(1-5)]) (use after k(6) few counts in simp_all)
qed

lemma walk_continues:
  assumes "live_with token snap m store" "m + retained_in (others_in calls) < max_snapshots" "in_time token (ss_expires snap) calls"
    and "ss_owner snap = owner" "ss_query snap = query" "is_token token" "length (ss_identities snap) < 100000" "offset \<le> length (ss_identities snap)"
    and "walk env owner query token calls (Some (cursor_text token offset)) store = (pages, over)"
  shows "(\<exists>b. over = Inr b) \<and> subseq (shown env pages) (drop offset (ss_identities snap)) \<and> (\<forall>p\<in>set pages. length (sw_results p) \<le> page_size)
    \<and> (over = Inr True \<longrightarrow> (\<forall>k\<in>set (drop offset (ss_identities snap)). (\<forall>c\<in>set calls. found env (sc_response c) k) \<longrightarrow> k \<in> set (shown env pages)))
    \<and> (over = Inr False \<longrightarrow> length pages = length calls \<and> length (shown env pages) = page_size * length pages)"
  using assms
proof (induction calls arbitrary: offset store pages over m)
  case Nil
  then show ?case by (auto simp: shown_def)
next
  case (Cons call calls)
  let ?found = "found env (sc_response call)"
  obtain page store' m' n where result: "paginate_search env owner query (Some (cursor_text token offset))
       (\<lambda>_ st. (sc_response call, store_run (sc_during call) st)) (sc_now call) token (store_run (sc_before call) store) = (Inr page, store')"
    and live: "live_with token snap m' store'" "m' + retained_in (others_in calls) < max_snapshots" "in_time token (ss_expires snap) calls"
    and n: "offset + n \<le> length (ss_identities snap)" "length (sw_results page) \<le> page_size"
    "map (row_identity env) (sw_results page) = filter ?found (take n (drop offset (ss_identities snap)))"
    "offset + n < length (ss_identities snap) \<Longrightarrow> length (sw_results page) = page_size"
    "sp_next page = (if list_ex ?found (drop (offset + n) (ss_identities snap)) then Some (cursor_text token (offset + n)) else None)"
    by (rule call_step [OF Cons.prems(1-8)], rule that; assumption)
  have parts: "drop offset (ss_identities snap) = take n (drop offset (ss_identities snap)) @ drop (offset + n) (ss_identities snap)"
    by (simp add: add.commute flip: drop_drop)
  have first: "subseq (map (row_identity env) (sw_results page)) (take n (drop offset (ss_identities snap)))"
    unfolding n(3) by (rule subseq_filter_left)
  show ?case
  proof (cases "list_ex ?found (drop (offset + n) (ss_identities snap))")
    case False
    then have r: "pages = [page]" "over = Inr True" using Cons.prems(9) result n(5) by auto
    have "k \<in> set (shown env pages)" if k: "k \<in> set (drop offset (ss_identities snap))" "\<forall>c\<in>set (call # calls). found env (sc_response c) k" for k
    proof -
      have "\<not> k \<in> set (drop (offset + n) (ss_identities snap))" using False k(2) by (auto simp: list_ex_iff)
      then have "k \<in> set (take n (drop offset (ss_identities snap)))" using k(1) parts by (metis Un_iff set_append)
      then show ?thesis using k(2) by (simp add: r shown_def n(3))
    qed
    moreover have "subseq (shown env pages) (drop offset (ss_identities snap))"
      using list_emb_append_mono [OF first list_emb_Nil] by (subst parts) (simp add: r shown_def)
    ultimately show ?thesis using r n(2) by auto
  next
    case True
    obtain ps o' where rest: "walk env owner query token calls (Some (cursor_text token (offset + n))) store' = (ps, o')" by force
    have r: "pages = page # ps" "over = o'" using Cons.prems(9) result n(5) True rest by auto
    note IH = Cons.IH [OF live Cons.prems(4-7) n(1) rest]
    have "subseq (shown env pages) (drop offset (ss_identities snap))"
      by (subst parts) (use first IH in \<open>auto simp: r shown_def intro!: list_emb_append_mono\<close>)
    moreover have "k \<in> set (shown env pages)" if k: "over = Inr True" "k \<in> set (drop offset (ss_identities snap))" "\<forall>c\<in>set (call # calls). found env (sc_response c) k" for k
    proof (cases "k \<in> set (drop (offset + n) (ss_identities snap))")
      case True
      with IH k r show ?thesis by (auto simp: shown_def)
    next
      case False
      then have "k \<in> set (take n (drop offset (ss_identities snap)))" using k(2) parts by (metis Un_iff set_append)
      then have "k \<in> set (map (row_identity env) (sw_results page))" using k(3) by (simp add: n(3))
      then show ?thesis by (simp add: r shown_def)
    qed
    moreover have "length (sw_results page) = page_size" using True by (intro n(4)) (cases "offset + n < length (ss_identities snap)"; simp)
    ultimately show ?thesis using IH n(2) by (auto simp: r shown_def)
  qed
qed

text \<open>The first call retains its snapshot and shows the head of it.\<close>

definition first_snapshot :: "run_env \<Rightarrow> string \<Rightarrow> string \<Rightarrow> search_call \<Rightarrow> search_snapshot" where
  "first_snapshot env owner query c = \<lparr>ss_owner = owner, ss_query = query, ss_identities = dedup (map (row_identity env) (sw_results (sc_response c))),
     ss_pages = canonical_ids (sw_results (sc_response c)), ss_expires = sc_now c + 300000\<rparr>"

lemma first_call:
  assumes "token \<notin> fst ` set store" "\<forall>x\<in>set (sc_before c @ sc_during c). apart_from token x"
  obtains page store' n where
    "paginate_search env owner query None (\<lambda>_ st. (sc_response c, store_run (sc_during c) st)) (sc_now c) token (store_run (sc_before c) store) = (Inr page, store')"
    "live_with token (first_snapshot env owner query c) 0 store'"
    "map (row_identity env) (sw_results page) = take n (ss_identities (first_snapshot env owner query c))"
    "n \<le> length (ss_identities (first_snapshot env owner query c))"
    "n < length (ss_identities (first_snapshot env owner query c)) \<Longrightarrow> n = page_size"
    "sp_next page = (if n < length (ss_identities (first_snapshot env owner query c)) then Some (cursor_text token n) else None)"
proof -
  let ?snap = "first_snapshot env owner query c" and ?ids = "ss_identities (first_snapshot env owner query c)"
  let ?store = "store_run (sc_during c) (drop_old (sc_now c) (store_run (sc_before c) store))"
  have "token \<notin> fst ` set (store_run (sc_before c) store)" using assms by (intro absent_run) auto
  then have "token \<notin> fst ` set (drop_old (sc_now c) (store_run (sc_before c) store))" by (auto simp: drop_old_def)
  then have new: "live_with token ?snap 0 (store_snapshot token ?snap ?store)" using assms(2) by (intro live_with_new absent_run) auto
  obtain page store' where fin: "finish_search env owner query token 0 None (sc_now c) (sc_response c) ?store = (page, store')" by force
  have result: "paginate_search env owner query None (\<lambda>_ st. (sc_response c, store_run (sc_during c) st)) (sc_now c) token (store_run (sc_before c) store) = (Inr page, store')"
    by (simp add: paginate_search_def open_search_def fin)
  obtain n where n: "0 + n \<le> length ?ids" "map (row_identity env) (sw_results page) = filter (found env (sc_response c)) (take n (drop 0 ?ids))"
    "0 + n < length ?ids \<Longrightarrow> length (sw_results page) = page_size"
    "sp_next page = (if list_ex (found env (sc_response c)) (drop (0 + n) ?ids) then Some (cursor_text token (0 + n)) else None)"
    "store' = (case None :: search_snapshot option of Some _ \<Rightarrow> ?store | None \<Rightarrow> store_snapshot token ?snap ?store)"
    by (rule finish_search_page [OF fin, of ?snap], simp add: first_snapshot_def, simp add: first_snapshot_def, rule that; assumption)
  have all: "found env (sc_response c) k" if "k \<in> set ?ids" for k using that found_iff by (auto simp: first_snapshot_def)
  have head: "map (row_identity env) (sw_results page) = take n ?ids"
    proof -
    have "filter (found env (sc_response c)) (take n ?ids) = take n ?ids" unfolding filter_id_conv using all in_set_takeD by fast
    then show ?thesis unfolding n(2) by simp
  qed
  have "list_ex (found env (sc_response c)) (drop n ?ids) \<longleftrightarrow> n < length ?ids"
  proof (cases "drop n ?ids")
    case (Cons k ks)
    then have "k \<in> set ?ids" by (metis in_set_dropD list.set_intros(1))
    moreover have "n < length ?ids" using Cons by (metis drop_all leI list.distinct(1))
    ultimately show ?thesis using all [of k] Cons by simp
  qed simp
  then show ?thesis using n(1,3,4,5) new head
    by (intro that [OF result _ head]) (auto dest: arg_cong [where f = length])
qed

text \<open>C39. A reader who follows the cursors of a search within five minutes of its first call, while
  fewer than 128 other first searches are answered, is not refused, whatever the searches find
  and however the other calls are interleaved. No row is shown twice, rows keep the order of the
  first answer, and no row that is found throughout is skipped: when there is no more it has been
  shown. Every page but the last is full, so that the cursors come to an end. The five minutes and
  the 128 snapshots are those of the code: beyond either of them a cursor may be refused. Every first
  call has a fresh token.
\<close>

theorem search_pages_never_shift:
  assumes "is_token token" "token \<notin> fst ` set store" "\<forall>x\<in>set (sc_before c @ sc_during c). apart_from token x"
    and "length (dedup (map (row_identity env) (sw_results (sc_response c)))) < 100000"
    and "in_time token (sc_now c + 5 * 60000) calls" "retained_in (others_in calls) < 128"
    and "walk env owner query token (c # calls) None store = (pages, over)"
  shows "(\<exists>b. over = Inr b) \<and> subseq (shown env pages) (dedup (map (row_identity env) (sw_results (sc_response c))))
    \<and> (over = Inr True \<longrightarrow> (\<forall>k\<in>set (map (row_identity env) (sw_results (sc_response c))). (\<forall>c\<in>set calls. found env (sc_response c) k) \<longrightarrow> k \<in> set (shown env pages)))
    \<and> (over = Inr False \<longrightarrow> length pages = length calls + 1 \<and> length (shown env pages) = page_size * length pages)"
proof -
  let ?snap = "first_snapshot env owner query c"
  let ?ids = "ss_identities ?snap"
  have ids: "?ids = dedup (map (row_identity env) (sw_results (sc_response c)))" by (simp add: first_snapshot_def)
  obtain page store' n where result: "paginate_search env owner query None (\<lambda>_ st. (sc_response c, store_run (sc_during c) st)) (sc_now c) token
      (store_run (sc_before c) store) = (Inr page, store')" and live: "live_with token ?snap 0 store'"
    and n: "map (row_identity env) (sw_results page) = take n ?ids" "n \<le> length ?ids" "n < length ?ids \<Longrightarrow> n = page_size"
    "sp_next page = (if n < length ?ids then Some (cursor_text token n) else None)"
    by (rule first_call [OF assms(2,3)], rule that; assumption)
  have all: "set (map (row_identity env) (sw_results (sc_response c))) = set ?ids" by (simp add: ids)
  show ?thesis
  proof (cases "n < length ?ids")
    case False
    then have r: "pages = [page]" "over = Inr True" using assms(7) result n(4) by auto
    with n(1,2) False show ?thesis unfolding all by (auto simp: shown_def simp flip: ids)
  next
    case True
    obtain ps over' where rest: "walk env owner query token calls (Some (cursor_text token n)) store' = (ps, over')" by force
    have r: "pages = page # ps" "over = over'" using assms(7) result n(4) True rest by auto
    from walk_continues [OF live _ _ _ _ assms(1) _ n(2) rest] assms(4-6)
    have W: "(\<exists>b. over' = Inr b)" "subseq (shown env ps) (drop n ?ids)"
      "over' = Inr True \<longrightarrow> (\<forall>k\<in>set (drop n ?ids). (\<forall>c\<in>set calls. found env (sc_response c) k) \<longrightarrow> k \<in> set (shown env ps))"
      "over' = Inr False \<longrightarrow> length ps = length calls \<and> length (shown env ps) = page_size * length ps"
      by (simp_all add: first_snapshot_def max_snapshots_def)
    have "subseq (shown env pages) (take n ?ids @ drop n ?ids)"
      using list_emb_append_mono [OF subseq_order.order_refl W(2), of "take n ?ids"] n(1) by (simp add: r shown_def)
    moreover have "set ?ids = set (take n ?ids) \<union> set (drop n ?ids)" by (metis append_take_drop_id set_append)
    moreover have "length (take n ?ids) = page_size" using n(3) True by simp
    ultimately show ?thesis using W(1,3,4) n(1) unfolding all by (auto simp: r shown_def simp flip: ids)
  qed
qed

section \<open>A worked example\<close>

text \<open>
  A search with twenty-one rows, read in two calls a minute apart; between them another reader's
  search begins, and while the second answer is awaited that search retains a snapshot.
\<close>

definition example_row :: "nat \<Rightarrow> search_row" where
  "example_row i = \<lparr>sr_id = JNum (Whole (int i)), sr_locale = ''en'', sr_path = decimal i, sr_visibility = JStr ''public''\<rparr>"

definition example_search :: search_window where
  "example_search = \<lparr>sw_results = map example_row [1..<22], sw_suggestions = [], sw_total = 21, sw_truncated = None, sw_limit = None\<rparr>"

definition example_token :: string where
  "example_token = replicate 36 CHR ''a''"

definition example_first :: search_call where
  "example_first = \<lparr>sc_before = [], sc_now = 0, sc_during = [], sc_response = example_search\<rparr>"

definition example_next :: search_call where
  "example_next = \<lparr>sc_before = [Begins 30000], sc_now = 60000,
     sc_during = [Retains ''b'' \<lparr>ss_owner = ''v'', ss_query = ''q'', ss_identities = [], ss_pages = [], ss_expires = 330000\<rparr>],
     sc_response = example_search\<rparr>"

definition example_walk :: "search_page list \<times> bool result" where
  "example_walk = walk demo_text_env ''u'' ''q'' example_token [example_first, example_next] None []"

lemma search_pages_never_shift_witness:
  "snd example_walk = Inr True \<and> row_identity demo_text_env (example_row 21) \<in> set (shown demo_text_env (fst example_walk))"
proof -
  let ?rows = "sw_results example_search" and ?id = "row_identity demo_text_env"
  let ?ids = "dedup (map ?id ?rows)"
  have response: "sc_response example_first = example_search" "sc_response example_next = example_search" by (simp_all add: example_first_def example_next_def)
  have "length ?ids = card (?id ` set ?rows)" by (metis distinct_card distinct_dedup set_dedup set_map)
  also have "\<dots> \<le> 21" using card_image_le [of "set ?rows" ?id] card_length [of ?rows] by (simp add: example_search_def)
  finally have few: "length ?ids \<le> 21" .
  have tok: "is_token example_token" by (simp add: is_token_def example_token_def is_token_char_def is_hex_char_def list_all_iff)
  have first: "example_token \<notin> fst ` set []" "\<forall>x\<in>set (sc_before example_first @ sc_during example_first). apart_from example_token x"
    by (simp_all add: example_first_def)
  have time: "in_time example_token (sc_now example_first + 5 * 60000) [example_next]" "retained_in (others_in [example_next]) < 128"
    by (simp_all add: in_time_def others_in_def example_next_def example_first_def retained_in_def example_token_def numeral_eq_Suc)
  have "walk demo_text_env ''u'' ''q'' example_token [example_first, example_next] None [] = (fst example_walk, snd example_walk)"
    by (simp add: example_walk_def)
  from search_pages_never_shift [OF tok first _ time this, unfolded response] few response
  have W: "\<exists>b. snd example_walk = Inr b" "subseq (shown demo_text_env (fst example_walk)) ?ids"
    "snd example_walk = Inr True \<longrightarrow> (\<forall>k\<in>set (map ?id ?rows). found demo_text_env example_search k \<longrightarrow> k \<in> set (shown demo_text_env (fst example_walk)))"
    "snd example_walk = Inr False \<longrightarrow> length (fst example_walk) = 2 \<and> length (shown demo_text_env (fst example_walk)) = page_size * length (fst example_walk)" by auto
  from list_emb_length [OF W(2)] few have "length (shown demo_text_env (fst example_walk)) \<le> 21" by simp
  with W(1,4) have over: "snd example_walk = Inr True" by (auto simp: page_size_def)
  have "example_row 21 \<in> set ?rows" by (simp add: example_search_def)
  then have "?id (example_row 21) \<in> set (map ?id ?rows)" "found demo_text_env example_search (?id (example_row 21))"
    unfolding found_iff by simp_all
  with W(3) over show ?thesis by blast
qed

end
