(* ===== verification/AgentTasks.thy ===== *)
theory AgentTasks
  imports RunJournal
begin

text \<open>
  Research tasks of a run (\<^verbatim>\<open>server/agents/tasks.ts\<close>): their rows, the plan of a run, and the life
  of a task under the lease of its run: started, finished or failed by the subagent that owns the
  attempt, returned to pending when the run is reclaimed, and cancelled. The parser of a subagent's
  result (\<^verbatim>\<open>parseChildEvidencePacket\<close> of \<^verbatim>\<open>server/agents/orchestration.ts\<close>) is an argument. The
  parent of a task is always null and every task is required.
\<close>

section \<open>Rows and records\<close>

record task_core =
  tk_id :: string
  tk_run :: string
  tk_subagent :: "string option"
  tk_ordinal :: int
  tk_kind :: string
  tk_title :: string
  tk_question :: string
  tk_required :: int
  tk_status :: string
  tk_outcome :: "string option"
  tk_attempt :: int
  tk_evidence :: int
  tk_authority :: "string option"
  tk_error_code :: "string option"
  tk_error_message :: "string option"
  tk_created :: int
  tk_started :: "int option"
  tk_completed :: "int option"

record task_row = task_core +
  tk_depth :: int
  tk_scope_text :: string
  tk_result_sha :: "string option"
  tk_result :: "string option"
  tk_updated :: int

record agent_task = task_core +
  tk_scope :: "string list"
  tk_packet :: "js_value option"

record task_db =
  t_tasks :: "task_row list"
  t_coord :: coord_db

type_synonym packet_parser = "string \<Rightarrow> js_value option"

definition task_corrupt :: js_error where
  "task_corrupt = Coded ''AGENT_TASK_CORRUPT'' 500"

definition state_changed :: js_error where
  "state_changed = Coded ''AGENT_TASK_STATE_CHANGED'' 409"

text \<open>\<^verbatim>\<open>parsedScope\<close> and \<^verbatim>\<open>parsedPacket\<close>\<close>

definition parsed_scope :: "run_env \<Rightarrow> string \<Rightarrow> string list result" where
  "parsed_scope env s = (case env_parse env s of
      Some (JArr vs) \<Rightarrow> if list_all js_is_string vs then Inr (map (\<lambda>v. case v of JStr t \<Rightarrow> t | _ \<Rightarrow> []) vs) else Inl task_corrupt
    | _ \<Rightarrow> Inl task_corrupt)"

definition parsed_packet :: "run_env \<Rightarrow> packet_parser \<Rightarrow> string option \<Rightarrow> string option \<Rightarrow> js_value option result" where
  "parsed_packet env parse content sha = (case content of
      None \<Rightarrow> Inr None
    | Some c \<Rightarrow> if sha \<noteq> Some (env_sha env c) then Inl task_corrupt
        else (case parse c of None \<Rightarrow> Inl task_corrupt | Some v \<Rightarrow> Inr (Some v)))"

text \<open>\<^verbatim>\<open>validTaskRow\<close>\<close>

definition task_kinds :: "string list" where
  "task_kinds = [''source_scout'', ''fact_check'', ''conflict_check'']"

definition task_statuses :: "string list" where
  "task_statuses = [''pending'', ''running'', ''blocked'', ''completed'', ''failed'', ''cancelled'']"

definition task_outcomes :: "string list" where
  "task_outcomes = [''completed'', ''blocked'', ''partial'', ''failed'']"

definition valid_task_row :: "task_row \<Rightarrow> bool" where
  "valid_task_row r = (tk_kind r \<in> set task_kinds \<and> tk_status r \<in> set task_statuses
     \<and> (case tk_outcome r of None \<Rightarrow> True | Some v \<Rightarrow> v \<in> set task_outcomes) \<and> tk_depth r = 1
     \<and> safe_int (tk_ordinal r) \<and> 0 \<le> tk_ordinal r \<and> safe_int (tk_required r) \<and> 1 \<le> tk_required r \<and> tk_required r \<le> 4
     \<and> safe_int (tk_attempt r) \<and> 0 \<le> tk_attempt r \<and> safe_int (tk_evidence r) \<and> 0 \<le> tk_evidence r
     \<and> (case tk_authority r of None \<Rightarrow> True | Some h \<Rightarrow> is_hex 64 h))"

text \<open>\<^verbatim>\<open>taskRecord\<close>\<close>

definition task_record :: "run_env \<Rightarrow> packet_parser \<Rightarrow> task_row \<Rightarrow> agent_task result" where
  "task_record env parse r =
     (if \<not> valid_task_row r then Inl task_corrupt
      else rbind (parsed_scope env (tk_scope_text r)) (\<lambda>scope.
        rbind (parsed_packet env parse (tk_result r) (tk_result_sha r)) (\<lambda>packet.
          Inr (task_core.extend (task_core.truncate r) \<lparr>tk_scope = scope, tk_packet = packet\<rparr>))))"

fun task_records :: "run_env \<Rightarrow> packet_parser \<Rightarrow> task_row list \<Rightarrow> agent_task list result" where
  "task_records env parse [] = Inr []"
| "task_records env parse (r # rs) = rbind (task_record env parse r) (\<lambda>t. rbind (task_records env parse rs) (\<lambda>ts. Inr (t # ts)))"

section \<open>Events of a task\<close>

record run_lease =
  le_run :: string
  le_owner :: int
  le_worker :: "string option"
  le_token :: "string option"
  le_attempts :: int

definition js_text_or_null :: "string option \<Rightarrow> js_value" where
  "js_text_or_null s = (case s of None \<Rightarrow> JNull | Some t \<Rightarrow> JStr t)"

definition task_event_data :: "task_row \<Rightarrow> js_value" where
  "task_event_data r = JObj [(''rootRunId'', JStr (tk_run r)), (''taskId'', JStr (tk_id r)), (''subagentRunId'', js_text_or_null (tk_subagent r)),
     (''kind'', JStr (tk_kind r)), (''title'', JStr (tk_title r)), (''status'', JStr (tk_status r)), (''outcome'', js_text_or_null (tk_outcome r)),
     (''attempt'', JNum (Whole (tk_attempt r))), (''evidenceCount'', JNum (Whole (tk_evidence r))), (''errorCode'', js_text_or_null (tk_error_code r))]"

text \<open>An operation on the journal alone.\<close>

definition in_journal :: "(coord_db, 'a) tx \<Rightarrow> (task_db, 'a) tx" where
  "in_journal tx db = rbind (tx (t_coord db)) (\<lambda>(a, c). Inr (a, db\<lparr>t_coord := c\<rparr>))"

text \<open>\<^verbatim>\<open>appendTaskEvent\<close>\<close>

definition append_task_event :: "run_env \<Rightarrow> run_lease \<Rightarrow> string \<Rightarrow> task_row \<Rightarrow> int \<Rightarrow> (task_db, event_row) tx" where
  "append_task_event env cl kind r now = in_journal (append_event env (le_run cl) (le_owner cl) (le_token cl) kind (le_attempts cl) (task_event_data r) now)"

section \<open>Operations\<close>

text \<open>The run whose lease the caller holds; a query for null matches null.\<close>

definition leased_run :: "run_lease \<Rightarrow> run_row \<Rightarrow> bool" where
  "leased_run cl r = (rn_id r = le_run cl \<and> rn_owner r = le_owner cl \<and> rn_lease_owner r = le_worker cl
     \<and> rn_lease_token r = le_token cl \<and> rn_status r = R_running \<and> rn_cancel r = None)"

definition holds_lease_now :: "run_lease \<Rightarrow> task_db \<Rightarrow> bool" where
  "holds_lease_now cl db = list_ex (leased_run cl) (c_runs (t_coord db))"

definition tasks_of :: "string \<Rightarrow> task_db \<Rightarrow> task_row list" where
  "tasks_of run db = sort_key tk_ordinal (filter (\<lambda>t. tk_run t = run) (t_tasks db))"

text \<open>\<^verbatim>\<open>listAgentRunTasks\<close>\<close>

definition list_run_tasks :: "run_env \<Rightarrow> packet_parser \<Rightarrow> string \<Rightarrow> task_db \<Rightarrow> agent_task list result" where
  "list_run_tasks env parse run db = task_records env parse (tasks_of run db)"

record planned_task =
  pl_id :: string
  pl_kind :: string
  pl_title :: string
  pl_question :: string
  pl_scope :: "string list"
  pl_required :: int

record plan_usage =
  pu_input :: int
  pu_output :: int
  pu_total :: int
  pu_cost :: int

definition new_task :: "run_env \<Rightarrow> string \<Rightarrow> int \<Rightarrow> nat \<Rightarrow> planned_task \<Rightarrow> task_row result" where
  "new_task env run now n p = (case canonical_json env (JArr (map JStr (pl_scope p))) of
      None \<Rightarrow> Inl Plain_error
    | Some scope \<Rightarrow> Inr \<lparr>tk_id = pl_id p, tk_run = run, tk_subagent = None, tk_ordinal = int n, tk_kind = pl_kind p, tk_title = pl_title p,
        tk_question = pl_question p, tk_required = pl_required p, tk_status = ''pending'', tk_outcome = None, tk_attempt = 0, tk_evidence = 0,
        tk_authority = None, tk_error_code = None, tk_error_message = None, tk_created = now, tk_started = None, tk_completed = None,
        tk_depth = 1, tk_scope_text = scope, tk_result_sha = None, tk_result = None, tk_updated = now\<rparr>)"

fun new_tasks :: "run_env \<Rightarrow> string \<Rightarrow> int \<Rightarrow> nat \<Rightarrow> planned_task list \<Rightarrow> task_row list result" where
  "new_tasks env run now n [] = Inr []"
| "new_tasks env run now n (p # ps) = rbind (new_task env run now n p) (\<lambda>r. rbind (new_tasks env run now (Suc n) ps) (\<lambda>rs. Inr (r # rs)))"

fun append_all :: "run_env \<Rightarrow> run_lease \<Rightarrow> int \<Rightarrow> (string \<times> task_row) list \<Rightarrow> (task_db, unit) tx" where
  "append_all env cl now [] db = Inr ((), db)"
| "append_all env cl now ((kind, r) # es) db = rbind (append_task_event env cl kind r now db) (\<lambda>(_, db1). append_all env cl now es db1)"

text \<open>The identifiers of new rows are primary keys.\<close>

definition insert_tasks :: "task_row list \<Rightarrow> (task_db, unit) tx" where
  "insert_tasks rows db = (if distinct (map tk_id rows) \<and> tk_id ` set rows \<inter> tk_id ` set (t_tasks db) = {}
     then Inr ((), db\<lparr>t_tasks := t_tasks db @ rows\<rparr>) else Inl Plain_error)"

definition planned_event :: "run_lease \<Rightarrow> nat \<Rightarrow> plan_usage \<Rightarrow> js_value" where
  "planned_event cl n u = JObj [(''usageVersion'', JNum (Whole 2)), (''rootRunId'', JStr (le_run cl)), (''accepted'', JBool True),
     (''taskCount'', JNum (Whole (int n))), (''inputTokens'', JNum (Whole (pu_input u))), (''outputTokens'', JNum (Whole (pu_output u))),
     (''totalTokens'', JNum (Whole (pu_total u))), (''costMicros'', JNum (Whole (pu_cost u)))]"

text \<open>\<^verbatim>\<open>createAgentRunTasks\<close>\<close>

definition create_tasks ::
  "run_env \<Rightarrow> packet_parser \<Rightarrow> run_lease \<Rightarrow> planned_task list \<Rightarrow> plan_usage \<Rightarrow> int \<Rightarrow> (task_db, agent_task list) tx" where
  "create_tasks env parse cl plan u now db =
     (if assert_token_usage (pu_input u) (pu_output u) (pu_total u) \<noteq> Inr () then Inl (Coded ''PROVIDER_USAGE_INVALID'' 502)
     else if \<not> safe_int (pu_cost u) \<or> pu_cost u < 0 then Inl (Coded ''INVALID_AGENT_USAGE'' 500)
     else if \<not> holds_lease_now cl db then Inl lease_lost
     else if tasks_of (le_run cl) db \<noteq> [] then rbind (task_records env parse (tasks_of (le_run cl) db)) (\<lambda>ts. Inr (ts, db))
     else rbind (new_tasks env (le_run cl) now 0 plan) (\<lambda>rows.
       rbind (in_journal (append_event env (le_run cl) (le_owner cl) (le_token cl) ''task.planCreated'' (le_attempts cl) (planned_event cl (length rows) u) now) db) (\<lambda>(_, db1).
       rbind (insert_tasks rows db1) (\<lambda>(_, db2).
       rbind (append_all env cl now (map (\<lambda>r. (''task.created'', r)) rows) db2) (\<lambda>(_, db3).
       rbind (task_records env parse rows) (\<lambda>ts. Inr (ts, db3)))))))"

text \<open>\<^verbatim>\<open>recoverAgentRunTasks\<close>: an interrupted attempt goes back to pending, its event names the subagent that lost it.\<close>

definition recovered :: "int \<Rightarrow> task_row \<Rightarrow> task_row" where
  "recovered now r = r\<lparr>tk_status := ''pending'', tk_subagent := None, tk_updated := now, tk_error_code := Some ''SUBAGENT_ATTEMPT_SUPERSEDED'',
     tk_error_message := Some ''The prior subagent attempt lost its root run lease''\<rparr>"

definition same_attempt :: "task_row \<Rightarrow> task_row \<Rightarrow> bool" where
  "same_attempt r t = (tk_id t = tk_id r \<and> tk_run t = tk_run r \<and> tk_status t = ''running'' \<and> tk_subagent t = tk_subagent r)"

fun recover_each :: "run_env \<Rightarrow> run_lease \<Rightarrow> int \<Rightarrow> task_row list \<Rightarrow> (task_db, unit) tx" where
  "recover_each env cl now [] db = Inr ((), db)"
| "recover_each env cl now (r # rs) db =
     rbind (append_task_event env cl ''subagent.failed'' ((recovered now r)\<lparr>tk_subagent := tk_subagent r\<rparr>) now
        (db\<lparr>t_tasks := sql_update (same_attempt r) (recovered now) (t_tasks db)\<rparr>)) (\<lambda>(_, db1). recover_each env cl now rs db1)"

definition recover_tasks :: "run_env \<Rightarrow> run_lease \<Rightarrow> int \<Rightarrow> (task_db, unit) tx" where
  "recover_tasks env cl now db = recover_each env cl now (filter (\<lambda>t. tk_run t = le_run cl \<and> tk_status t = ''running'') (t_tasks db)) db"

text \<open>\<^verbatim>\<open>startAgentRunTask\<close>\<close>

definition started :: "string \<Rightarrow> int \<Rightarrow> task_row \<Rightarrow> task_row" where
  "started subagent now r = r\<lparr>tk_status := ''running'', tk_subagent := Some subagent, tk_attempt := tk_attempt r + 1, tk_error_code := None,
     tk_error_message := None, tk_started := Some now, tk_completed := None, tk_updated := now\<rparr>"

definition start_task :: "run_env \<Rightarrow> packet_parser \<Rightarrow> run_lease \<Rightarrow> string \<Rightarrow> string \<Rightarrow> int \<Rightarrow> (task_db, agent_task) tx" where
  "start_task env parse cl task subagent now db =
     (if \<not> holds_lease_now cl db then Inl lease_lost
      else case sql_first (\<lambda>t. tk_id t = task \<and> tk_run t = le_run cl) (t_tasks db) of
        None \<Rightarrow> Inl state_changed
      | Some r \<Rightarrow>
          if tk_status r \<noteq> ''pending'' \<or> tk_depth r \<noteq> 1 then Inl state_changed
          else let p = (\<lambda>t. tk_id t = task \<and> tk_run t = le_run cl \<and> tk_status t = ''pending'' \<and> tk_attempt t = tk_attempt r) in
            if sql_count p (t_tasks db) \<noteq> 1 then Inl state_changed
            else rbind (append_all env cl now [(''task.started'', started subagent now r), (''subagent.started'', started subagent now r)]
                    (db\<lparr>t_tasks := sql_update p (started subagent now) (t_tasks db)\<rparr>)) (\<lambda>(_, db1).
              rbind (task_record env parse (started subagent now r)) (\<lambda>t. Inr (t, db1))))"

text \<open>\<^verbatim>\<open>finishAgentRunTask\<close>; the lease of the run is checked by the events alone.\<close>

record validated_packet =
  va_packet :: js_value
  va_outcome :: string
  va_evidence :: int

definition status_of_outcome :: "string \<Rightarrow> string" where
  "status_of_outcome v = (if v = ''completed'' \<or> v = ''partial'' then ''completed'' else if v = ''blocked'' then ''blocked'' else ''failed'')"

definition owns_attempt :: "run_lease \<Rightarrow> string \<Rightarrow> string \<Rightarrow> task_row \<Rightarrow> bool" where
  "owns_attempt cl task subagent t = (tk_id t = task \<and> tk_run t = le_run cl \<and> tk_status t = ''running'' \<and> tk_subagent t = Some subagent)"

definition finished :: "validated_packet \<Rightarrow> string \<Rightarrow> string \<Rightarrow> string option \<Rightarrow> int \<Rightarrow> task_row \<Rightarrow> task_row" where
  "finished v encoded sha au now r = r\<lparr>tk_status := status_of_outcome (va_outcome v), tk_outcome := Some (va_outcome v),
     tk_evidence := va_evidence v, tk_authority := au, tk_result_sha := Some sha, tk_result := Some encoded, tk_error_code := None,
     tk_error_message := None, tk_completed := Some now, tk_updated := now\<rparr>"

definition task_event_of :: "string \<Rightarrow> string" where
  "task_event_of s = (if s = ''blocked'' then ''task.blocked'' else if s = ''failed'' then ''task.failed'' else ''task.completed'')"

definition subagent_event_of :: "string \<Rightarrow> string" where
  "subagent_event_of s = (if s = ''blocked'' then ''subagent.suspended'' else if s = ''failed'' then ''subagent.failed'' else ''subagent.completed'')"

definition finish_task ::
  "run_env \<Rightarrow> packet_parser \<Rightarrow> run_lease \<Rightarrow> string \<Rightarrow> string \<Rightarrow> validated_packet \<Rightarrow> string option \<Rightarrow> int \<Rightarrow> (task_db, agent_task) tx" where
  "finish_task env parse cl task subagent v au now db =
     (case canonical_json env (va_packet v) of None \<Rightarrow> Inl Plain_error
      | Some encoded \<Rightarrow> let sha = env_sha env encoded in
        (case sql_first (\<lambda>t. tk_id t = task \<and> tk_run t = le_run cl) (t_tasks db) of
           None \<Rightarrow> Inl state_changed
         | Some r \<Rightarrow>
             if tk_status r \<noteq> ''running'' \<or> tk_subagent r \<noteq> Some subagent then
               (if tk_result_sha r = Some sha \<and> tk_subagent r = Some subagent
                then rbind (task_record env parse r) (\<lambda>t. Inr (t, db)) else Inl state_changed)
             else if sql_count (owns_attempt cl task subagent) (t_tasks db) \<noteq> 1 then Inl state_changed
             else let f = finished v encoded sha au now r in
               rbind (append_all env cl now [(task_event_of (tk_status f), f), (subagent_event_of (tk_status f), f)]
                    (db\<lparr>t_tasks := sql_update (owns_attempt cl task subagent) (finished v encoded sha au now) (t_tasks db)\<rparr>)) (\<lambda>(_, db1).
               rbind (task_record env parse f) (\<lambda>t. Inr (t, db1)))))"

text \<open>\<^verbatim>\<open>failAgentRunTask\<close>\<close>

definition failed_task :: "string \<Rightarrow> int \<Rightarrow> task_row \<Rightarrow> task_row" where
  "failed_task code now r = r\<lparr>tk_status := ''failed'', tk_outcome := Some ''failed'', tk_error_code := Some code,
     tk_error_message := Some ''Subagent research failed'', tk_completed := Some now, tk_updated := now\<rparr>"

definition fail_task :: "run_env \<Rightarrow> packet_parser \<Rightarrow> run_lease \<Rightarrow> string \<Rightarrow> string \<Rightarrow> string \<Rightarrow> int \<Rightarrow> (task_db, agent_task) tx" where
  "fail_task env parse cl task subagent code now db =
     (case sql_first (\<lambda>t. tk_id t = task \<and> tk_run t = le_run cl) (t_tasks db) of
        None \<Rightarrow> Inl state_changed
      | Some r \<Rightarrow>
          if tk_status r \<noteq> ''running'' \<or> tk_subagent r \<noteq> Some subagent then Inl state_changed
          else rbind (append_all env cl now [(''task.failed'', failed_task code now r), (''subagent.failed'', failed_task code now r)]
                 (db\<lparr>t_tasks := sql_update (owns_attempt cl task subagent) (failed_task code now) (t_tasks db)\<rparr>)) (\<lambda>(_, db1).
            rbind (task_record env parse (failed_task code now r)) (\<lambda>t. Inr (t, db1))))"

text \<open>\<^verbatim>\<open>cancelAgentRunTasks\<close>\<close>

definition cancelled_task :: "string \<Rightarrow> string \<Rightarrow> int \<Rightarrow> task_row \<Rightarrow> task_row" where
  "cancelled_task code message now r = r\<lparr>tk_status := ''cancelled'', tk_error_code := Some code, tk_error_message := Some message,
     tk_completed := Some now, tk_updated := now\<rparr>"

definition open_task :: "task_row \<Rightarrow> bool" where
  "open_task t = (tk_status t = ''pending'' \<or> tk_status t = ''running'')"

definition cancel_events :: "string \<Rightarrow> string \<Rightarrow> int \<Rightarrow> task_row \<Rightarrow> (string \<times> task_row) list" where
  "cancel_events code message now r = (''task.cancelled'', cancelled_task code message now r)
     # (if tk_subagent r = None then [] else [(''subagent.failed'', cancelled_task code message now r)])"

fun cancel_each :: "run_env \<Rightarrow> run_lease \<Rightarrow> string \<Rightarrow> string \<Rightarrow> int \<Rightarrow> task_row list \<Rightarrow> (task_db, unit) tx" where
  "cancel_each env cl code message now [] db = Inr ((), db)"
| "cancel_each env cl code message now (r # rs) db =
     rbind (append_all env cl now (cancel_events code message now r)
        (db\<lparr>t_tasks := sql_update (\<lambda>t. tk_id t = tk_id r \<and> tk_run t = le_run cl \<and> open_task t) (cancelled_task code message now) (t_tasks db)\<rparr>))
       (\<lambda>(_, db1). cancel_each env cl code message now rs db1)"

definition cancel_tasks :: "run_env \<Rightarrow> run_lease \<Rightarrow> string \<Rightarrow> string \<Rightarrow> int \<Rightarrow> (task_db, unit) tx" where
  "cancel_tasks env cl code message now db =
     cancel_each env cl code message now (filter (\<lambda>t. tk_run t = le_run cl \<and> open_task t) (t_tasks db)) db"

end
