(* ===== verification/AgentTaskLaws.thy ===== *)
theory AgentTaskLaws
  imports AgentTasks RunProperties
begin

text \<open>
  What the operations on research tasks promise: a settled task never changes, no task is lost,
  a subagent that lost its attempt has no effect any more, and the journal stays without gaps.
\<close>

section \<open>Operations on the journal leave the tasks alone\<close>

lemma in_journal_success: "in_journal tx db = Inr (a, db') \<longleftrightarrow> (\<exists>c. tx (t_coord db) = Inr (a, c) \<and> db' = db\<lparr>t_coord := c\<rparr>)"
  by (auto simp: in_journal_def rbind_Inr_iff)

lemma append_task_event_success:
  assumes "append_task_event env cl kind r now db = Inr (e, db')"
  shows "t_tasks db' = t_tasks db \<and> (journal_ok (t_coord db) \<longrightarrow> journal_ok (t_coord db'))"
  using assms append_event_journal by (auto simp: append_task_event_def in_journal_success)

lemma append_all_success:
  "append_all env cl now es db = Inr (u, db') \<Longrightarrow> t_tasks db' = t_tasks db \<and> (journal_ok (t_coord db) \<longrightarrow> journal_ok (t_coord db'))"
proof (induction es arbitrary: db)
  case (Cons e es)
  obtain kind r where e: "e = (kind, r)" by force
  from Cons.prems obtain x db1 where "append_task_event env cl kind r now db = Inr (x, db1)" "append_all env cl now es db1 = Inr (u, db')"
    by (auto simp: e rbind_Inr_iff)
  with append_task_event_success Cons.IH show ?case by metis
qed simp

section \<open>How tasks evolve\<close>

definition settled_task :: "task_row \<Rightarrow> bool" where
  "settled_task r = (tk_status r \<in> {''blocked'', ''completed'', ''failed'', ''cancelled''})"

text \<open>
  A row keeps what it was planned with, a settled one changes no more, and an attempt is never
  counted back.
\<close>

definition task_evolves :: "task_row \<Rightarrow> task_row \<Rightarrow> bool" where
  "task_evolves r r' = (tk_id r' = tk_id r \<and> tk_run r' = tk_run r \<and> tk_ordinal r' = tk_ordinal r \<and> tk_kind r' = tk_kind r
     \<and> tk_title r' = tk_title r \<and> tk_question r' = tk_question r \<and> tk_required r' = tk_required r \<and> tk_scope_text r' = tk_scope_text r
     \<and> tk_depth r' = tk_depth r \<and> tk_created r' = tk_created r \<and> tk_attempt r \<le> tk_attempt r' \<and> (settled_task r \<longrightarrow> r' = r))"

definition tasks_evolve :: "task_row list \<Rightarrow> task_row list \<Rightarrow> bool" where
  "tasks_evolve rows rows' = (\<exists>f extra. rows' = map f rows @ extra \<and> (\<forall>r\<in>set rows. task_evolves r (f r)))"

lemma task_evolves_refl: "task_evolves r r"
  by (simp add: task_evolves_def)

lemma task_evolves_trans: "task_evolves a b \<Longrightarrow> task_evolves b c \<Longrightarrow> task_evolves a c"
  unfolding task_evolves_def by (metis order_trans)

lemma tasks_evolve_refl: "tasks_evolve rows rows"
  unfolding tasks_evolve_def using task_evolves_refl by (metis append_Nil2 list.map_id0 id_apply)

lemma tasks_evolve_trans:
  assumes "tasks_evolve a b" "tasks_evolve b c"
  shows "tasks_evolve a c"
proof -
  from assms obtain f x g y where f: "b = map f a @ x" "\<forall>r\<in>set a. task_evolves r (f r)" and g: "c = map g b @ y" "\<forall>r\<in>set b. task_evolves r (g r)"
    unfolding tasks_evolve_def by - (elim exE conjE, rule that; assumption)
  have "c = map (g \<circ> f) a @ (map g x @ y)" using f(1) g(1) by simp
  moreover have "\<forall>r\<in>set a. task_evolves r ((g \<circ> f) r)" using f g(2) task_evolves_trans by auto
  ultimately show ?thesis unfolding tasks_evolve_def by blast
qed

lemma tasks_evolve_update: "(\<And>r. p r \<Longrightarrow> task_evolves r (f r)) \<Longrightarrow> tasks_evolve rows (sql_update p f rows)"
  unfolding tasks_evolve_def sql_update_def
  by (intro exI [of _ "\<lambda>r. if p r then f r else r"] exI [of _ "[]"]) (simp add: task_evolves_refl)

lemma evolve_updates:
  "tk_status r = ''pending'' \<Longrightarrow> task_evolves r (started subagent now r)"
  "tk_status r = ''running'' \<Longrightarrow> task_evolves r (finished v encoded sha au now r)"
  "tk_status r = ''running'' \<Longrightarrow> task_evolves r (failed_task code now r)"
  "tk_status r = ''running'' \<Longrightarrow> task_evolves r (recovered now r)"
  "open_task r \<Longrightarrow> task_evolves r (cancelled_task code message now r)"
  by (auto simp: task_evolves_def settled_task_def started_def finished_def failed_task_def recovered_def cancelled_task_def open_task_def)

lemma update_statuses [simp]:
  "tk_status (started subagent now r) = ''running''" "tk_subagent (started subagent now r) = Some subagent"
  "tk_status (failed_task code now r) = ''failed''" "tk_status (recovered now r) = ''pending''"
  "tk_status (cancelled_task code message now r) = ''cancelled''" "tk_status (finished v encoded sha au now r) \<noteq> ''running''"
  by (simp_all add: started_def failed_task_def recovered_def cancelled_task_def finished_def status_of_outcome_def)

section \<open>All operations\<close>

datatype task_op =
    Do_plan run_lease "planned_task list" plan_usage int
  | Do_recover run_lease int
  | Do_start run_lease string string int
  | Do_finish run_lease string string validated_packet "string option" int
  | Do_fail run_lease string string string int
  | Do_cancel_tasks run_lease string string int

definition task_tx :: "run_env \<Rightarrow> packet_parser \<Rightarrow> task_op \<Rightarrow> (task_db, unit) tx" where
  "task_tx env parse op = (case op of
      Do_plan cl plan u now \<Rightarrow> unit_tx (create_tasks env parse cl plan u now)
    | Do_recover cl now \<Rightarrow> recover_tasks env cl now
    | Do_start cl task subagent now \<Rightarrow> unit_tx (start_task env parse cl task subagent now)
    | Do_finish cl task subagent v au now \<Rightarrow> unit_tx (finish_task env parse cl task subagent v au now)
    | Do_fail cl task subagent code now \<Rightarrow> unit_tx (fail_task env parse cl task subagent code now)
    | Do_cancel_tasks cl code message now \<Rightarrow> cancel_tasks env cl code message now)"

definition run_tasks :: "run_env \<Rightarrow> packet_parser \<Rightarrow> task_op list \<Rightarrow> task_db \<Rightarrow> task_db" where
  "run_tasks env parse ops = run_txs (map (task_tx env parse) ops)"

text \<open>Who may start an attempt for a subagent.\<close>

definition starts :: "string \<Rightarrow> task_op \<Rightarrow> bool" where
  "starts subagent op = (case op of Do_start _ _ s _ \<Rightarrow> s = subagent | _ \<Rightarrow> False)"

text \<open>No task of the run is in an attempt of the subagent.\<close>

definition attempt_over :: "string \<Rightarrow> string \<Rightarrow> task_db \<Rightarrow> bool" where
  "attempt_over run subagent db = (\<forall>t\<in>set (t_tasks db). tk_run t = run \<longrightarrow> tk_status t = ''running'' \<longrightarrow> tk_subagent t \<noteq> Some subagent)"

text \<open>What every operation keeps.\<close>

definition task_step_ok :: "task_op \<Rightarrow> task_db \<Rightarrow> task_db \<Rightarrow> bool" where
  "task_step_ok op db db' = (tasks_evolve (t_tasks db) (t_tasks db') \<and> (journal_ok (t_coord db) \<longrightarrow> journal_ok (t_coord db'))
     \<and> (\<forall>run subagent. \<not> starts subagent op \<longrightarrow> attempt_over run subagent db \<longrightarrow> attempt_over run subagent db'))"

lemma step_same_tasks: "t_tasks db' = t_tasks db \<Longrightarrow> (journal_ok (t_coord db) \<Longrightarrow> journal_ok (t_coord db')) \<Longrightarrow> task_step_ok op db db'"
  by (simp add: task_step_ok_def tasks_evolve_refl attempt_over_def)

lemma step_update:
  assumes "t_tasks db' = sql_update p f (t_tasks db)" "journal_ok (t_coord db) \<Longrightarrow> journal_ok (t_coord db')"
    and "\<And>r. p r \<Longrightarrow> task_evolves r (f r)" "\<And>r. p r \<Longrightarrow> tk_status (f r) = ''running'' \<Longrightarrow> \<exists>s. tk_subagent (f r) = Some s \<and> starts s op"
  shows "task_step_ok op db db'"
proof -
  have "attempt_over run subagent db'" if "\<not> starts subagent op" "attempt_over run subagent db" for run subagent
    unfolding attempt_over_def assms(1)
  proof (intro ballI impI)
    fix t assume t: "t \<in> set (sql_update p f (t_tasks db))" "tk_run t = run" "tk_status t = ''running''"
    then obtain r where "r \<in> set (t_tasks db)" "t = (if p r then f r else r)" by (auto simp: set_sql_update)
    with t that assms(4) show "tk_subagent t \<noteq> Some subagent" by (fastforce simp: attempt_over_def split: if_splits)
  qed
  then show ?thesis using assms(1,2) tasks_evolve_update [of p f "t_tasks db"] assms(3) by (simp add: task_step_ok_def)
qed

lemma step_trans: "task_step_ok op a b \<Longrightarrow> task_step_ok op b c \<Longrightarrow> task_step_ok op a c"
  using tasks_evolve_trans unfolding task_step_ok_def by blast

lemma start_step:
  assumes "start_task env parse cl task subagent now db = Inr (t, db')"
  shows "task_step_ok (Do_start cl' task' subagent now') db db'"
proof -
  from assms obtain r u where
    "append_all env cl now [(''task.started'', started subagent now r), (''subagent.started'', started subagent now r)]
       (db\<lparr>t_tasks := sql_update (\<lambda>t. tk_id t = task \<and> tk_run t = le_run cl \<and> tk_status t = ''pending'' \<and> tk_attempt t = tk_attempt r)
          (started subagent now) (t_tasks db)\<rparr>) = Inr (u, db')"
    by (auto simp: start_task_def rbind_Inr_iff Let_def simp del: append_all.simps split: if_splits option.splits)
  note a = append_all_success [OF this, simplified]
  show ?thesis by (rule step_update [OF a [THEN conjunct1]]) (use a in \<open>auto simp: starts_def evolve_updates(1)\<close>)
qed

lemma task_finish_step:
  assumes "finish_task env parse cl task subagent v au now db = Inr (t, db')"
  shows "task_step_ok op db db'"
proof -
  obtain encoded where e: "canonical_json env (va_packet v) = Some encoded" using assms by (auto simp: finish_task_def split: option.splits)
  from assms e consider "db' = db" | f u where
    "append_all env cl now [(task_event_of (tk_status f), f), (subagent_event_of (tk_status f), f)]
       (db\<lparr>t_tasks := sql_update (owns_attempt cl task subagent) (finished v encoded (env_sha env encoded) au now) (t_tasks db)\<rparr>) = Inr (u, db')"
    by (auto simp: finish_task_def rbind_Inr_iff Let_def simp del: append_all.simps split: if_splits option.splits)
  then show ?thesis
  proof cases
    case (2 f u)
    note a = append_all_success [OF 2, simplified]
    show ?thesis by (rule step_update [OF a [THEN conjunct1]])
      (use a in \<open>auto simp: owns_attempt_def evolve_updates(2)\<close>)
  qed (simp add: step_same_tasks)
qed

lemma task_fail_step:
  assumes "fail_task env parse cl task subagent code now db = Inr (t, db')"
  shows "task_step_ok op db db'"
proof -
  from assms obtain es u where "append_all env cl now es
       (db\<lparr>t_tasks := sql_update (owns_attempt cl task subagent) (failed_task code now) (t_tasks db)\<rparr>) = Inr (u, db')"
    by (auto simp: fail_task_def rbind_Inr_iff simp del: append_all.simps split: if_splits option.splits)
  note a = append_all_success [OF this, simplified]
  show ?thesis by (rule step_update [OF a [THEN conjunct1]]) (use a in \<open>auto simp: owns_attempt_def evolve_updates(3)\<close>)
qed

lemma recover_step: "recover_each env cl now rs db = Inr (u, db') \<Longrightarrow> task_step_ok op db db'"
proof (induction rs arbitrary: db)
  case (Cons r rs)
  from Cons.prems obtain x db1 where a: "append_task_event env cl ''subagent.failed'' ((recovered now r)\<lparr>tk_subagent := tk_subagent r\<rparr>) now
      (db\<lparr>t_tasks := sql_update (same_attempt r) (recovered now) (t_tasks db)\<rparr>) = Inr (x, db1)" "recover_each env cl now rs db1 = Inr (u, db')"
    by (auto simp: rbind_Inr_iff)
  note e = append_task_event_success [OF a(1), simplified]
  have "task_step_ok op db db1"
    by (rule step_update [OF e [THEN conjunct1]]) (use e in \<open>auto simp: same_attempt_def evolve_updates(4)\<close>)
  with Cons.IH [OF a(2)] show ?case by (rule step_trans [rotated])
qed (simp add: step_same_tasks)

lemma cancel_step: "cancel_each env cl code message now rs db = Inr (u, db') \<Longrightarrow> task_step_ok op db db'"
proof (induction rs arbitrary: db)
  case (Cons r rs)
  from Cons.prems obtain x db1 where a: "append_all env cl now (cancel_events code message now r)
      (db\<lparr>t_tasks := sql_update (\<lambda>t. tk_id t = tk_id r \<and> tk_run t = le_run cl \<and> open_task t) (cancelled_task code message now) (t_tasks db)\<rparr>) = Inr (x, db1)"
      "cancel_each env cl code message now rs db1 = Inr (u, db')"
    by (auto simp: rbind_Inr_iff)
  note e = append_all_success [OF a(1), simplified]
  have "task_step_ok op db db1"
    by (rule step_update [OF e [THEN conjunct1]]) (use e in \<open>auto simp: evolve_updates(5)\<close>)
  with Cons.IH [OF a(2)] show ?case by (rule step_trans [rotated])
qed (simp add: step_same_tasks)

lemma new_tasks_pending: "new_tasks env run now n plan = Inr rows \<Longrightarrow> \<forall>r\<in>set rows. tk_status r = ''pending''"
  by (induction plan arbitrary: n rows) (auto simp: rbind_Inr_iff new_task_def split: option.splits)

lemma plan_step:
  assumes "create_tasks env parse cl plan u now db = Inr (ts, db')"
  shows "task_step_ok op db db'"
proof -
  from assms consider "db' = db" | rows x db1 y db2 z where "new_tasks env (le_run cl) now 0 plan = Inr rows"
    "in_journal (append_event env (le_run cl) (le_owner cl) (le_token cl) ''task.planCreated'' (le_attempts cl) (planned_event cl (length rows) u) now) db = Inr (x, db1)"
    "insert_tasks rows db1 = Inr (y, db2)" "append_all env cl now (map (\<lambda>r. (''task.created'', r)) rows) db2 = Inr (z, db')"
    by (auto simp: create_tasks_def rbind_Inr_iff simp del: append_all.simps split: if_splits)
  then show ?thesis
  proof cases
    case 2
    have t: "t_tasks db1 = t_tasks db" "journal_ok (t_coord db) \<Longrightarrow> journal_ok (t_coord db1)"
      using 2(2) append_event_journal by (auto simp: in_journal_success)
    have i: "db2 = db1\<lparr>t_tasks := t_tasks db1 @ rows\<rparr>" using 2(3) by (auto simp: insert_tasks_def split: if_splits)
    note a = append_all_success [OF 2(4)]
    have "tasks_evolve (t_tasks db) (t_tasks db @ rows)"
      unfolding tasks_evolve_def by (intro exI [of _ id] exI [of _ rows]) (simp add: task_evolves_refl)
    with a i t new_tasks_pending [OF 2(1)] show ?thesis by (auto simp: task_step_ok_def attempt_over_def)
  qed (simp add: step_same_tasks)
qed

lemma task_tx_step:
  assumes "task_tx env parse op db = Inr (u, db')"
  shows "task_step_ok op db db'"
proof (cases op)
  case (Do_start cl task subagent now)
  with assms start_step show ?thesis unfolding task_step_ok_def
    by (auto simp: task_tx_def unit_tx_def rbind_Inr_iff starts_def)
qed (use assms plan_step task_finish_step task_fail_step recover_step cancel_step in
      \<open>auto simp: task_tx_def unit_tx_def rbind_Inr_iff recover_tasks_def cancel_tasks_def\<close>)

lemma run_tasks_Cons: "run_tasks env parse (op # ops) db = run_tasks env parse ops (commit (task_tx env parse op) db)"
  by (simp add: run_tasks_def)

lemma commit_task_step: "task_step_ok op db (commit (task_tx env parse op) db)"
proof (cases "task_tx env parse op db")
  case (Inr v)
  then obtain u db' where "task_tx env parse op db = Inr (u, db')" by (cases v) auto
  with task_tx_step [OF this] show ?thesis by simp
qed (simp add: step_same_tasks)

lemma run_tasks_keeps:
  "tasks_evolve (t_tasks db) (t_tasks (run_tasks env parse ops db)) \<and> (journal_ok (t_coord db) \<longrightarrow> journal_ok (t_coord (run_tasks env parse ops db)))
   \<and> ((\<forall>op\<in>set ops. \<not> starts subagent op) \<longrightarrow> attempt_over run subagent db \<longrightarrow> attempt_over run subagent (run_tasks env parse ops db))"
proof (induction ops arbitrary: db)
  case Nil
  then show ?case by (simp add: run_tasks_def tasks_evolve_refl)
next
  case (Cons op ops)
  define db1 where "db1 = commit (task_tx env parse op) db"
  have step: "task_step_ok op db db1" unfolding db1_def by (rule commit_task_step)
  have "tasks_evolve (t_tasks db) (t_tasks (run_tasks env parse ops db1))"
    by (rule tasks_evolve_trans [of _ "t_tasks db1"]) (use step Cons.IH in \<open>simp_all add: task_step_ok_def\<close>)
  then show ?case unfolding run_tasks_Cons db1_def [symmetric] using step Cons.IH [of db1] by (simp add: task_step_ok_def)
qed

lemma recover_each_over:
  assumes "recover_each env cl now rs db = Inr (u, db')"
    and "\<And>t. t \<in> set (t_tasks db) \<Longrightarrow> tk_run t = run \<Longrightarrow> tk_status t = ''running'' \<Longrightarrow> \<exists>r\<in>set rs. same_attempt r t"
    and "t \<in> set (t_tasks db')" "tk_run t = run"
  shows "tk_status t \<noteq> ''running''"
  using assms
proof (induction rs arbitrary: db)
  case Nil
  then show ?case by auto
next
  case (Cons r rs)
  from Cons.prems(1) obtain x db1 where a: "append_task_event env cl ''subagent.failed'' ((recovered now r)\<lparr>tk_subagent := tk_subagent r\<rparr>) now
      (db\<lparr>t_tasks := sql_update (same_attempt r) (recovered now) (t_tasks db)\<rparr>) = Inr (x, db1)" "recover_each env cl now rs db1 = Inr (u, db')"
    by (auto simp: rbind_Inr_iff)
  have tasks: "t_tasks db1 = sql_update (same_attempt r) (recovered now) (t_tasks db)" using append_task_event_success [OF a(1)] by simp
  show ?case
  proof (rule Cons.IH [OF a(2) _ Cons.prems(3,4)])
    fix q assume q: "q \<in> set (t_tasks db1)" "tk_run q = run" "tk_status q = ''running''"
    then obtain p where p: "p \<in> set (t_tasks db)" "q = (if same_attempt r p then recovered now p else p)" by (auto simp: tasks set_sql_update)
    with q(3) have "\<not> same_attempt r p" "q = p" by (auto split: if_splits)
    with Cons.prems(2) [OF p(1)] q show "\<exists>r\<in>set rs. same_attempt r q" by auto
  qed
qed

section \<open>Properties\<close>

text \<open>C38. Whatever operations run on the tasks, in any order and by any claim, a planned task is never
  lost or planned anew: it keeps its question, its sources and its place, its attempts are never
  counted back, and once it is completed, blocked, failed or cancelled it changes no more. The
  journals of the runs stay without gaps. (The retention purge of a deleted conversation, which
  removes its runs with their tasks, is not among the operations.)
\<close>

theorem task_life_cycle:
  assumes "r \<in> set (t_tasks db)"
  shows "(\<exists>r'\<in>set (t_tasks (run_tasks env parse ops db)). task_evolves r r')
    \<and> (journal_ok (t_coord db) \<longrightarrow> journal_ok (t_coord (run_tasks env parse ops db)))"
proof -
  note k = run_tasks_keeps [of db env parse ops]
  from k obtain f extra where "t_tasks (run_tasks env parse ops db) = map f (t_tasks db) @ extra" "\<forall>r\<in>set (t_tasks db). task_evolves r (f r)"
    unfolding tasks_evolve_def by blast
  with assms k show ?thesis by auto
qed

text \<open>Once a run was reclaimed and its tasks recovered, a subagent of an earlier attempt has no
  effect any more, whatever happens in between, unless it is started again: its result is refused,
  or answered without a change when the very same result was recorded before, and its failure is
  refused.
\<close>

theorem lost_attempt_has_no_effect:
  assumes "recover_tasks env cl now db = Inr ((), db0)" "\<forall>op\<in>set ops. \<not> starts subagent op" "le_run cl' = le_run cl"
    and "db1 = run_tasks env parse ops db0"
  shows "(\<forall>t db'. finish_task env parse cl' task subagent v au later db1 = Inr (t, db') \<longrightarrow> db' = db1)
    \<and> fail_task env parse cl' task subagent code later db1 = Inl state_changed"
proof -
  have "attempt_over (le_run cl) subagent db0"
    unfolding attempt_over_def using recover_each_over [OF assms(1) [unfolded recover_tasks_def], of "le_run cl"] by (auto simp: same_attempt_def)
  then have over: "attempt_over (le_run cl') subagent db1" using run_tasks_keeps [of db0 env parse ops subagent "le_run cl'"] assms(2-4) by simp
  have none: "tk_status r \<noteq> ''running'' \<or> tk_subagent r \<noteq> Some subagent"
    if "sql_first (\<lambda>t. tk_id t = task \<and> tk_run t = le_run cl') (t_tasks db1) = Some r" for r
    using over sql_first_SomeD [OF that] by (auto simp: attempt_over_def)
  then have "finish_task env parse cl' task subagent v au later db1 = Inr (t, db') \<Longrightarrow> db' = db1" for t db'
    by (auto simp: finish_task_def rbind_Inr_iff Let_def split: option.splits if_splits)
  moreover have "fail_task env parse cl' task subagent code later db1 = Inl state_changed"
    using none by (auto simp: fail_task_def split: option.splits)
  ultimately show ?thesis by blast
qed

section \<open>A worked example\<close>

text \<open>The run of the worked example of the coordinator, with its first event, and one task in an attempt.\<close>

definition demo_journal :: coord_db where
  "demo_journal = demo_coord\<lparr>c_events := [queued_row run_demo_env demo_admission ''{}'' 0]\<rparr>"

lemma demo_journal_ok: "journal_ok demo_journal"
  by (simp add: journal_ok_def demo_journal_def demo_coord_def run_events_def queued_row_def demo_run_def new_run_def demo_admission_def unique_key_def)

definition demo_lease :: run_lease where
  "demo_lease = \<lparr>le_run = ''r1'', le_owner = 1, le_worker = Some ''w'', le_token = Some ''t'', le_attempts = 1\<rparr>"

definition demo_task :: task_row where
  "demo_task = \<lparr>tk_id = ''k'', tk_run = ''r1'', tk_subagent = Some ''old'', tk_ordinal = 0, tk_kind = ''fact_check'', tk_title = ''t'', tk_question = ''q'',
     tk_required = 1, tk_status = ''running'', tk_outcome = None, tk_attempt = 1, tk_evidence = 0, tk_authority = None, tk_error_code = None,
     tk_error_message = None, tk_created = 0, tk_started = Some 0, tk_completed = None, tk_depth = 1, tk_scope_text = ''[]'', tk_result_sha = None,
     tk_result = None, tk_updated = 0\<rparr>"

definition demo_tasks :: task_db where
  "demo_tasks = \<lparr>t_tasks = [demo_task], t_coord = demo_journal\<rparr>"

lemma demo_event_payload: "event_payload run_demo_env (JObj []) = Inr ''{}''"
  by (simp add: event_payload_def sort_entries_def utf8_bytes_def)

lemma journal_is_gapless_witness:
  "\<exists>e db'. append_event run_demo_env ''r1'' 1 (Some ''t'') ''run.note'' 1 (JObj []) 5 demo_journal = Inr (e, db') \<and> ev_sequence e = 2
     \<and> list_events 1 ''r1'' 1 10 db' = Inr [e]"
proof -
  have "append_event run_demo_env ''r1'' 1 (Some ''t'') ''run.note'' 1 (JObj []) 5 demo_journal \<noteq> Inl x" for x
    by (simp add: append_event_def demo_event_payload safe_int_def max_safe_def demo_journal_def demo_coord_def journal_run_def demo_run_def new_run_def
      demo_admission_def sql_first_def sql_count_def Let_def)
  then obtain e db' where a: "append_event run_demo_env ''r1'' 1 (Some ''t'') ''run.note'' 1 (JObj []) 5 demo_journal = Inr (e, db')"
    by (cases "append_event run_demo_env ''r1'' 1 (Some ''t'') ''run.note'' 1 (JObj []) 5 demo_journal") auto
  have one: "run_events ''r1'' demo_journal = [queued_row run_demo_env demo_admission ''{}'' 0]"
    by (simp add: run_events_def demo_journal_def queued_row_def demo_admission_def)
  have "safe_int 1" "(0::int) \<le> 1" "safe_int 10" by (simp_all add: safe_int_def max_safe_def)
  from journal_is_gapless [OF demo_journal_ok a this] one a show ?thesis by auto
qed

lemma demo_payload: "(case event_payload run_demo_env (task_event_data ((recovered 5 demo_task)\<lparr>tk_subagent := Some ''old''\<rparr>)) of Inl _ \<Rightarrow> False | Inr _ \<Rightarrow> True)"
  by (simp add: event_payload_def task_event_data_def recovered_def demo_task_def js_text_or_null_def sort_entries_def utf8_bytes_def json_string_def json_char_def
    number_text_def decimal.simps run_demo_env_def)

lemma demo_recovered: "\<exists>db0. recover_tasks run_demo_env demo_lease 5 demo_tasks = Inr ((), db0)"
proof -
  obtain encoded where e: "event_payload run_demo_env (task_event_data ((recovered 5 demo_task)\<lparr>tk_subagent := Some ''old''\<rparr>)) = Inr encoded"
    using demo_payload by (auto split: sum.splits)
  have sub: "tk_subagent demo_task = Some ''old''" by (simp add: demo_task_def)
  have rows: "filter (\<lambda>t. tk_run t = le_run demo_lease \<and> tk_status t = ''running'') (t_tasks demo_tasks) = [demo_task]"
    by (simp add: demo_tasks_def demo_lease_def demo_task_def)
  have "\<exists>x. append_event run_demo_env (le_run demo_lease) (le_owner demo_lease) (le_token demo_lease) ''subagent.failed'' (le_attempts demo_lease)
      (task_event_data ((recovered 5 demo_task)\<lparr>tk_subagent := Some ''old''\<rparr>)) 5 demo_journal = Inr x"
    by (simp add: append_event_def e demo_lease_def safe_int_def max_safe_def demo_journal_def demo_coord_def journal_run_def demo_run_def new_run_def
      demo_admission_def sql_first_def sql_count_def Let_def)
  then show ?thesis
    unfolding recover_tasks_def rows by (auto simp: append_task_event_def in_journal_def demo_tasks_def sub)
qed

lemma task_life_cycle_witness:
  "\<exists>r'\<in>set (t_tasks (run_tasks run_demo_env (\<lambda>_. None) [Do_recover demo_lease 5, Do_start demo_lease ''k'' ''new'' 6] demo_tasks)). task_evolves demo_task r'"
  using task_life_cycle [of demo_task demo_tasks] by (simp add: demo_tasks_def)

lemma lost_attempt_has_no_effect_witness:
  "\<exists>db0. recover_tasks run_demo_env demo_lease 5 demo_tasks = Inr ((), db0)
     \<and> fail_task run_demo_env (\<lambda>_. None) demo_lease ''k'' ''old'' ''E'' 9 (run_tasks run_demo_env (\<lambda>_. None) [Do_start demo_lease ''k'' ''new'' 6] db0) = Inl state_changed"
proof -
  obtain db0 where r: "recover_tasks run_demo_env demo_lease 5 demo_tasks = Inr ((), db0)" using demo_recovered by blast
  have "\<forall>op\<in>set [Do_start demo_lease ''k'' ''new'' 6]. \<not> starts ''old'' op" by (simp add: starts_def)
  from lost_attempt_has_no_effect [OF r this refl refl] r show ?thesis by blast
qed

end
