(* ===== verification/AgentGoals.thy ===== *)
theory AgentGoals
  imports AgentTasks
begin

text \<open>
  Durable goals of the agent (\<^verbatim>\<open>server/agents/goals.ts\<close>): the stored row and the checks under
  which it is read, the token tiers, the assessment of a run, and every write of a goal. A goal is
  read back after each write, so that a row that could not be read is never committed. Counters of
  the row are integers; \<^verbatim>\<open>Number\<close> of a larger one is not safe either way.
\<close>

section \<open>Statuses, tiers and reasons\<close>

datatype goal_status = G_active | G_paused | G_blocked | G_budget_limited | G_completed | G_cancelled | G_failed

datatype budget_selection = B_pending | B_utility | B_fallback | B_legacy

datatype token_tier = Small | Standard | Extended

datatype limit_reason = L_tokens | L_tool_calls | L_duration | L_continuations | L_quota | L_accounting | L_authority

definition goal_status_texts :: "(string \<times> goal_status) list" where
  "goal_status_texts = [(''active'', G_active), (''paused'', G_paused), (''blocked'', G_blocked), (''budget_limited'', G_budget_limited),
     (''completed'', G_completed), (''cancelled'', G_cancelled), (''failed'', G_failed)]"

definition selection_texts :: "(string \<times> budget_selection) list" where
  "selection_texts = [(''pending'', B_pending), (''utility'', B_utility), (''fallback'', B_fallback), (''legacy'', B_legacy)]"

definition tier_texts :: "(string \<times> token_tier) list" where
  "tier_texts = [(''small'', Small), (''standard'', Standard), (''extended'', Extended)]"

definition reason_texts :: "(string \<times> limit_reason) list" where
  "reason_texts = [(''tokens'', L_tokens), (''tool_calls'', L_tool_calls), (''duration'', L_duration), (''continuations'', L_continuations),
     (''quota'', L_quota), (''accounting'', L_accounting), (''authority'', L_authority)]"

text \<open>The stored text of a value.\<close>

definition text_of :: "(string \<times> 'a) list \<Rightarrow> 'a \<Rightarrow> string" where
  "text_of texts v = option_or (map_option fst (List.find (\<lambda>e. snd e = v) texts)) []"

definition open_statuses :: "goal_status list" where
  "open_statuses = [G_active, G_paused, G_blocked]"

definition terminal_statuses :: "goal_status list" where
  "terminal_statuses = [G_budget_limited, G_completed, G_cancelled, G_failed]"

definition selected_policy :: "int option \<Rightarrow> bool" where
  "selected_policy v = (v = Some 1 \<or> v = Some 2)"

section \<open>Rows and records\<close>

record goal_row =
  go_id :: string
  go_session :: string
  go_owner :: int
  go_creator :: int
  go_objective :: string
  go_objective_sha :: string
  go_status :: string
  go_version :: int
  go_continuations :: int
  go_max_continuations :: int
  go_tokens :: int
  go_max_tokens :: int
  go_calls :: int
  go_max_calls :: int
  go_policy :: "int option"
  go_selection :: string
  go_tier :: "string option"
  go_allowance :: "int option"
  go_cycle :: int
  go_reason :: "string option"
  go_outcome :: "string option"
  go_assessment :: "string option"
  go_assessment_sha :: "string option"
  go_error_code :: "string option"
  go_error_message :: "string option"
  go_started :: int
  go_deadline :: int
  go_updated :: int
  go_completed :: "int option"

record goal =
  gl_id :: string
  gl_session :: string
  gl_owner :: int
  gl_creator :: int
  gl_objective :: string
  gl_objective_sha :: string
  gl_status :: goal_status
  gl_version :: int
  gl_continuations :: int
  gl_max_continuations :: int
  gl_tokens :: int
  gl_max_tokens :: int
  gl_calls :: int
  gl_max_calls :: int
  gl_policy :: "int option"
  gl_selection :: budget_selection
  gl_tier :: "token_tier option"
  gl_allowance :: "int option"
  gl_cycle :: int
  gl_reason :: "limit_reason option"
  gl_can_renew :: bool
  gl_completion :: "js_value option"
  gl_error_code :: "string option"
  gl_error_message :: "string option"
  gl_started :: int
  gl_deadline :: int
  gl_updated :: int
  gl_completed :: "int option"

definition goal_corrupt :: js_error where
  "goal_corrupt = Coded ''AGENT_GOAL_CORRUPT'' 500"

definition completion_corrupt :: js_error where
  "completion_corrupt = Coded ''AGENT_COMPLETION_CORRUPT'' 500"

section \<open>Stored assessments\<close>

text \<open>\<^verbatim>\<open>String(value)\<close> of parsed JSON throws for an object with a property \<^verbatim>\<open>toString\<close>.\<close>

fun string_throws :: "js_value \<Rightarrow> bool" where
  "string_throws (JObj ps) = (map_of ps ''toString'' \<noteq> None)"
| "string_throws (JArr vs) = list_ex string_throws vs"
| "string_throws _ = False"

definition valid_issue :: "js_value \<Rightarrow> bool" where
  "valid_issue v = (js_is_string (js_get ''code'' v) \<and> js_is_string (js_get ''message'' v) \<and> (case js_get ''retryable'' v of JBool _ \<Rightarrow> True | _ \<Rightarrow> False))"

definition outcome_texts :: "string list" where
  "outcome_texts = [''complete'', ''retry'', ''blocked'', ''partial'']"

text \<open>
  \<^verbatim>\<open>decodeCompletionAssessment\<close>. An outcome that is no string but reads as one of the outcomes, such as
  a list with one entry, passes the first check and fails the comparison with the stored outcome.
\<close>

definition decode_assessment :: "run_env \<Rightarrow> string option \<Rightarrow> string option \<Rightarrow> string option \<Rightarrow> js_value option result" where
  "decode_assessment env encoded outcome sha = (case encoded of
      None \<Rightarrow> if outcome \<noteq> None \<or> sha \<noteq> None then Inl completion_corrupt else Inr None
    | Some e \<Rightarrow> (case sha of None \<Rightarrow> Inl completion_corrupt
      | Some h \<Rightarrow> if h = [] \<or> \<not> is_hex 64 h \<or> env_sha env e \<noteq> h then Inl completion_corrupt
        else (case env_parse env e of None \<Rightarrow> Inl completion_corrupt
          | Some v \<Rightarrow>
              if \<not> js_is_record v then Inl completion_corrupt
              else if string_throws (js_get ''outcome'' v) then Inl Type_error
              else (case js_get ''issues'' v of
                  JArr issues \<Rightarrow> if \<not> list_all valid_issue issues then Inl completion_corrupt
                    else (case js_get ''outcome'' v of
                        JStr o' \<Rightarrow> if o' \<in> set outcome_texts \<and> outcome = Some o' then Inr (Some v) else Inl completion_corrupt
                      | _ \<Rightarrow> Inl completion_corrupt)
                | _ \<Rightarrow> Inl completion_corrupt))))"

section \<open>Reading a goal\<close>

text \<open>\<^verbatim>\<open>tokenBudgetCanRenew\<close>\<close>

definition can_renew :: "goal \<Rightarrow> bool" where
  "can_renew g = (gl_status g = G_budget_limited \<and> selected_policy (gl_policy g) \<and> (gl_selection g = B_utility \<or> gl_selection g = B_fallback)
     \<and> gl_tier g \<noteq> None \<and> gl_allowance g \<noteq> None \<and> 1 \<le> gl_cycle g \<and> gl_reason g = Some L_tokens)"

text \<open>A nullable text is absent or one of the known ones.\<close>

definition known_text :: "(string \<times> 'a) list \<Rightarrow> string option \<Rightarrow> bool" where
  "known_text texts s = (case s of None \<Rightarrow> True | Some t \<Rightarrow> map_of texts t \<noteq> None)"

definition known_value :: "(string \<times> 'a) list \<Rightarrow> string option \<Rightarrow> 'a option" where
  "known_value texts s = (case s of None \<Rightarrow> None | Some t \<Rightarrow> map_of texts t)"

definition counters_valid :: "goal_row \<Rightarrow> bool" where
  "counters_valid r = (list_all (\<lambda>v. safe_int v \<and> 0 \<le> v)
       [go_version r, go_continuations r, go_max_continuations r, go_tokens r, go_max_tokens r, go_calls r, go_max_calls r, go_cycle r]
     \<and> 1 \<le> go_version r \<and> 1 \<le> go_max_tokens r \<and> 1 \<le> go_max_calls r
     \<and> (case go_policy r of None \<Rightarrow> True | Some v \<Rightarrow> safe_int v \<and> 1 \<le> v)
     \<and> (case go_allowance r of None \<Rightarrow> True | Some v \<Rightarrow> safe_int v \<and> 1 \<le> v)
     \<and> map_of selection_texts (go_selection r) \<noteq> None \<and> known_text tier_texts (go_tier r) \<and> known_text reason_texts (go_reason r))"

text \<open>What the budget columns must look like for each kind of selection.\<close>

definition budget_valid :: "goal_row \<Rightarrow> bool" where
  "budget_valid r = (case map_of selection_texts (go_selection r) of
      None \<Rightarrow> True
    | Some B_legacy \<Rightarrow> go_policy r = None \<and> go_tier r = None \<and> go_allowance r = None \<and> go_cycle r = 0
    | Some B_pending \<Rightarrow> go_policy r = Some 2 \<and> go_tier r = None \<and> go_allowance r = None \<and> go_cycle r = 0
        \<and> (go_reason r = None \<or> (go_status r = ''blocked'' \<and> go_reason r = Some ''accounting'')
           \<or> (go_status r = ''budget_limited'' \<and> go_reason r = Some ''duration''))
    | Some _ \<Rightarrow> selected_policy (go_policy r) \<and> go_tier r \<noteq> None \<and> go_allowance r \<noteq> None
        \<and> \<not> (go_policy r = Some 1 \<and> go_tier r = Some ''small'') \<and> 1 \<le> go_cycle r)"

text \<open>\<^verbatim>\<open>agentGoalRecord\<close>\<close>

definition goal_of_row :: "goal_row \<Rightarrow> goal_status \<Rightarrow> budget_selection \<Rightarrow> js_value option \<Rightarrow> goal" where
  "goal_of_row r status selection completion = (let g =
     \<lparr>gl_id = go_id r, gl_session = go_session r, gl_owner = go_owner r, gl_creator = go_creator r, gl_objective = go_objective r,
      gl_objective_sha = go_objective_sha r, gl_status = status, gl_version = go_version r, gl_continuations = go_continuations r,
      gl_max_continuations = go_max_continuations r, gl_tokens = go_tokens r, gl_max_tokens = go_max_tokens r, gl_calls = go_calls r,
      gl_max_calls = go_max_calls r, gl_policy = go_policy r, gl_selection = selection, gl_tier = known_value tier_texts (go_tier r),
      gl_allowance = go_allowance r, gl_cycle = go_cycle r, gl_reason = known_value reason_texts (go_reason r), gl_can_renew = False,
      gl_completion = completion, gl_error_code = go_error_code r, gl_error_message = go_error_message r, gl_started = go_started r,
      gl_deadline = go_deadline r, gl_updated = go_updated r, gl_completed = go_completed r\<rparr>
     in g\<lparr>gl_can_renew := can_renew g\<rparr>)"

definition agent_goal_record :: "run_env \<Rightarrow> goal_row \<Rightarrow> goal result" where
  "agent_goal_record env r = (case map_of goal_status_texts (go_status r) of
      None \<Rightarrow> Inl goal_corrupt
    | Some status \<Rightarrow>
        if \<not> is_hex 64 (go_objective_sha r) \<or> env_sha env (go_objective r) \<noteq> go_objective_sha r then Inl goal_corrupt
        else if \<not> counters_valid r then Inl goal_corrupt
        else if \<not> budget_valid r then Inl goal_corrupt
        else rbind (decode_assessment env (go_assessment r) (go_outcome r) (go_assessment_sha r)) (\<lambda>completion.
          Inr (goal_of_row r status (the (map_of selection_texts (go_selection r))) completion)))"

section \<open>The table of goals\<close>

record goal_db =
  g_goals :: "goal_row list"

record goal_limits =
  lim_continuations :: int
  lim_tokens :: int
  lim_calls :: int
  lim_duration :: int

definition is_open :: "goal_row \<Rightarrow> bool" where
  "is_open r = (go_status r \<in> set (map (text_of goal_status_texts) open_statuses))"

text \<open>The unique index over the open goals of a session (\<^verbatim>\<open>server/db/migrations/2.5.157.ts\<close>).\<close>

definition one_open :: "goal_row list \<Rightarrow> bool" where
  "one_open rows = distinct (map go_session (filter is_open rows))"

definition find_goal :: "int \<Rightarrow> string \<Rightarrow> 'z goal_db_scheme \<Rightarrow> goal_row option" where
  "find_goal owner ident db = sql_first (\<lambda>r. go_id r = ident \<and> go_owner r = owner) (g_goals db)"

text \<open>\<^verbatim>\<open>getOwnedAgentGoal\<close> and \<^verbatim>\<open>latestAgentGoalForSession\<close>\<close>

definition get_goal :: "run_env \<Rightarrow> int \<Rightarrow> string \<Rightarrow> 'z goal_db_scheme \<Rightarrow> goal result" where
  "get_goal env owner ident db = (case find_goal owner ident db of None \<Rightarrow> Inl resource_not_found | Some r \<Rightarrow> agent_goal_record env r)"

definition latest_goal :: "run_env \<Rightarrow> int \<Rightarrow> string \<Rightarrow> 'z goal_db_scheme \<Rightarrow> goal option result" where
  "latest_goal env owner session db =
     (case sort_key (\<lambda>r. - go_started r) (filter (\<lambda>r. go_owner r = owner \<and> go_session r = session) (g_goals db)) of
        [] \<Rightarrow> Inr None
      | r # _ \<Rightarrow> rbind (agent_goal_record env r) (\<lambda>g. Inr (Some g)))"

section \<open>New goals\<close>

text \<open>\<^verbatim>\<open>objective.normalize('NFKC').trim().replace(/\s+/gu, ' ')\<close>; the normalization is an argument.\<close>

fun single_spaces :: "string \<Rightarrow> string" where
  "single_spaces [] = []"
| "single_spaces (c # cs) = (if \<not> is_space c then c # single_spaces cs
     else case cs of [] \<Rightarrow> '' '' | d # _ \<Rightarrow> if is_space d then single_spaces cs else CHR '' '' # single_spaces cs)"

definition objective_text :: "(string \<Rightarrow> string) \<Rightarrow> string \<Rightarrow> string" where
  "objective_text nfkc s = single_spaces (trim (nfkc s))"

record new_goal =
  ng_id :: string
  ng_session :: string
  ng_owner :: int
  ng_objective :: string
  ng_limits :: goal_limits

definition goal_row_of :: "run_env \<Rightarrow> new_goal \<Rightarrow> string \<Rightarrow> int \<Rightarrow> goal_row" where
  "goal_row_of env i objective now =
     \<lparr>go_id = ng_id i, go_session = ng_session i, go_owner = ng_owner i, go_creator = ng_owner i, go_objective = objective,
      go_objective_sha = env_sha env objective, go_status = ''active'', go_version = 1, go_continuations = 0,
      go_max_continuations = lim_continuations (ng_limits i), go_tokens = 0, go_max_tokens = lim_tokens (ng_limits i), go_calls = 0,
      go_max_calls = lim_calls (ng_limits i), go_policy = Some 2, go_selection = ''pending'', go_tier = None, go_allowance = None, go_cycle = 0,
      go_reason = None, go_outcome = None, go_assessment = None, go_assessment_sha = None, go_error_code = None, go_error_message = None,
      go_started = now, go_deadline = now + lim_duration (ng_limits i), go_updated = now, go_completed = None\<rparr>"

definition insert_goal_row :: "goal_row \<Rightarrow> ('z goal_db_scheme, unit) tx" where
  "insert_goal_row r db = (if go_id r \<in> go_id ` set (g_goals db) \<or> \<not> one_open (g_goals db @ [r]) then Inl Plain_error
     else Inr ((), db\<lparr>g_goals := sql_insert r (g_goals db)\<rparr>))"

text \<open>\<^verbatim>\<open>insertAgentGoal\<close>\<close>

definition insert_goal :: "run_env \<Rightarrow> (string \<Rightarrow> string) \<Rightarrow> new_goal \<Rightarrow> int \<Rightarrow> ('z goal_db_scheme, goal) tx" where
  "insert_goal env nfkc i now db =
     (let objective = objective_text nfkc (ng_objective i) in
      if objective = [] \<or> 32000 < length objective then Inl (Coded ''INVALID_AGENT_GOAL'' 400)
      else case find_goal (ng_owner i) (ng_id i) db of
        Some r \<Rightarrow> rbind (agent_goal_record env r) (\<lambda>g.
          if gl_session g \<noteq> ng_session i \<or> gl_objective_sha g \<noteq> env_sha env objective then Inl (Coded ''GOAL_IDEMPOTENCY_MISMATCH'' 409)
          else Inr (g, db))
      | None \<Rightarrow>
          if list_ex (\<lambda>r. go_session r = ng_session i \<and> is_open r) (g_goals db) then Inl (Coded ''SESSION_GOAL_ACTIVE'' 409)
          else rbind (insert_goal_row (goal_row_of env i objective now) db) (\<lambda>(_, db1).
            rbind (agent_goal_record env (goal_row_of env i objective now)) (\<lambda>g. Inr (g, db1))))"

section \<open>Token tiers\<close>

definition tier_divisor :: "token_tier \<Rightarrow> int" where
  "tier_divisor t = (case t of Small \<Rightarrow> 6 | Standard \<Rightarrow> 2 | Extended \<Rightarrow> 1)"

text \<open>\<^verbatim>\<open>agentGoalTokenAllowance\<close>\<close>

definition token_allowance :: "int \<Rightarrow> token_tier \<Rightarrow> int result" where
  "token_allowance max_tokens t =
     (if \<not> safe_int max_tokens \<or> max_tokens \<le> 0 then Inl (Coded ''INVALID_AGENT_GOAL'' 400)
      else let allowance = max_tokens div tier_divisor t in
        if \<not> safe_int allowance \<or> allowance \<le> 0 then Inl (Coded ''INVALID_AGENT_GOAL'' 400) else Inr allowance)"

definition version_changed :: js_error where
  "version_changed = Coded ''GOAL_VERSION_CHANGED'' 409"

text \<open>An update of the rows that match, under the unique index; exactly one row has to match.\<close>

definition update_goal_row :: "(goal_row \<Rightarrow> bool) \<Rightarrow> (goal_row \<Rightarrow> goal_row) \<Rightarrow> ('z goal_db_scheme, unit) tx" where
  "update_goal_row p f db =
     (let rows = sql_update p f (g_goals db) in
      if \<not> one_open rows then Inl Plain_error
      else if sql_count p (g_goals db) \<noteq> 1 then Inl version_changed
      else Inr ((), db\<lparr>g_goals := rows\<rparr>))"

definition with_tier :: "budget_selection \<Rightarrow> token_tier \<Rightarrow> int \<Rightarrow> int \<Rightarrow> goal_row \<Rightarrow> goal_row" where
  "with_tier selection t allowance now r = r\<lparr>go_max_tokens := allowance, go_selection := text_of selection_texts selection,
     go_tier := Some (text_of tier_texts t), go_allowance := Some allowance, go_cycle := 1, go_reason := None, go_error_code := None,
     go_error_message := None, go_updated := now\<rparr>"

text \<open>\<^verbatim>\<open>selectAgentGoalTokenBudget\<close>; the selection is utility or fallback.\<close>

definition select_budget :: "run_env \<Rightarrow> int \<Rightarrow> string \<Rightarrow> token_tier \<Rightarrow> budget_selection \<Rightarrow> int \<Rightarrow> ('z goal_db_scheme, goal) tx" where
  "select_budget env owner ident t selection now db =
     rbind (get_goal env owner ident db) (\<lambda>g.
     if gl_selection g \<noteq> B_pending then
       (if (gl_selection g = B_utility \<or> gl_selection g = B_fallback) \<and> gl_tier g = Some t \<and> gl_allowance g \<noteq> None then Inr (g, db)
        else Inl (Coded ''GOAL_BUDGET_ALREADY_SELECTED'' 409))
     else if gl_policy g \<noteq> Some 2 \<or> gl_cycle g \<noteq> 0 \<or> gl_tier g \<noteq> None \<or> gl_allowance g \<noteq> None then Inl goal_corrupt
     else rbind (token_allowance (gl_max_tokens g) t) (\<lambda>allowance.
       rbind (update_goal_row (\<lambda>r. go_id r = gl_id g \<and> go_owner r = gl_owner g \<and> go_version r = gl_version g \<and> go_selection r = ''pending'')
          (with_tier selection t allowance now) db) (\<lambda>(_, db1).
       rbind (get_goal env owner ident db1) (\<lambda>g'. Inr (g', db1)))))"

section \<open>The assessment of a run\<close>

record completion_issue =
  ci_code :: string
  ci_message :: string
  ci_retryable :: bool

text \<open>The quotation marks around a title are the three UTF-8 bytes each of U+201C and U+201D.\<close>

definition about_task :: "string \<Rightarrow> string \<Rightarrow> string" where
  "about_task title said = ''Research task '' @ [CHR 0xE2, CHR 0x80, CHR 0x9C] @ title @ [CHR 0xE2, CHR 0x80, CHR 0x9D] @ said"

definition issue :: "string \<Rightarrow> string \<Rightarrow> bool \<Rightarrow> completion_issue" where
  "issue code message retryable = \<lparr>ci_code = code, ci_message = message, ci_retryable = retryable\<rparr>"

definition task_issue :: "'z task_core_scheme \<Rightarrow> completion_issue list" where
  "task_issue t =
     (if tk_status t = ''pending'' \<or> tk_status t = ''running'' then [issue ''REQUIRED_TASK_NOT_TERMINAL'' (about_task (tk_title t) '' is not terminal.'') True]
      else if tk_status t = ''blocked'' \<or> tk_outcome t = Some ''blocked''
        then [issue ''REQUIRED_TASK_BLOCKED'' (about_task (tk_title t) '' is blocked and needs new external input or conditions.'') False]
      else if tk_status t \<noteq> ''completed'' \<or> tk_outcome t \<noteq> Some ''completed''
        then [issue ''REQUIRED_TASK_INCOMPLETE'' (about_task (tk_title t) '' did not complete.'') True]
      else if tk_evidence t < tk_required t
        then [issue ''REQUIRED_EVIDENCE_MISSING'' (about_task (tk_title t) '' did not satisfy its evidence requirement.'') True]
      else [])"

definition completion_issues :: "'z task_core_scheme list \<Rightarrow> int \<Rightarrow> bool \<Rightarrow> bool \<Rightarrow> completion_issue list" where
  "completion_issues tasks pending gate reconciled = concat (map task_issue tasks)
     @ (if gate then [] else [issue ''EVIDENCE_GATE_FAILED'' ''The answer did not pass citation and evidence validation.'' True])
     @ (if 0 < pending then [issue ''APPROVAL_PENDING'' ''A required proposal is still awaiting resolution.'' False] else [])
     @ (if reconciled then [] else [issue ''USAGE_NOT_RECONCILED'' ''Aggregate usage has not been reconciled.'' True])"

definition blocking_issue :: "completion_issue \<Rightarrow> bool" where
  "blocking_issue i = (ci_code i = ''APPROVAL_PENDING'' \<or> ci_code i = ''REQUIRED_TASK_BLOCKED'')"

definition outcome_of_issues :: "completion_issue list \<Rightarrow> string" where
  "outcome_of_issues issues = (if issues = [] then ''complete'' else if list_ex blocking_issue issues then ''blocked''
     else if list_ex ci_retryable issues then ''retry'' else ''partial'')"

text \<open>\<^verbatim>\<open>assessAgentRunCompletion\<close>\<close>

definition assess_completion :: "'z task_core_scheme list \<Rightarrow> int \<Rightarrow> bool \<Rightarrow> bool \<Rightarrow> string \<times> completion_issue list" where
  "assess_completion tasks pending gate reconciled =
     (let issues = completion_issues tasks pending gate reconciled in (outcome_of_issues issues, issues))"

text \<open>The assessment as the value that is stored.\<close>

definition issue_value :: "completion_issue \<Rightarrow> js_value" where
  "issue_value i = JObj [(''code'', JStr (ci_code i)), (''message'', JStr (ci_message i)), (''retryable'', JBool (ci_retryable i))]"

definition assessment_value :: "string \<times> completion_issue list \<Rightarrow> js_value" where
  "assessment_value a = JObj [(''outcome'', JStr (fst a)), (''issues'', JArr (map issue_value (snd a)))]"

section \<open>Changing the status of a goal\<close>

text \<open>The fields of an update; an outer \<^const>\<open>None\<close> is a field that is not given.\<close>

record goal_change =
  gc_completion :: "js_value option option"
  gc_tokens :: "int option"
  gc_max_tokens :: "int option"
  gc_calls :: "int option"
  gc_continuations :: "int option"
  gc_policy :: "int option option"
  gc_selection :: "budget_selection option"
  gc_tier :: "token_tier option option"
  gc_allowance :: "int option option"
  gc_cycle :: "int option"
  gc_reason :: "limit_reason option option"
  gc_error_code :: "string option"
  gc_error_message :: "string option"

definition no_change :: goal_change where
  "no_change = \<lparr>gc_completion = None, gc_tokens = None, gc_max_tokens = None, gc_calls = None, gc_continuations = None, gc_policy = None,
     gc_selection = None, gc_tier = None, gc_allowance = None, gc_cycle = None, gc_reason = None, gc_error_code = None, gc_error_message = None\<rparr>"

text \<open>\<^verbatim>\<open>completion?.outcome ?? null\<close>\<close>

definition outcome_text :: "js_value \<Rightarrow> string option" where
  "outcome_text v = (case js_get ''outcome'' v of JStr t \<Rightarrow> Some t | _ \<Rightarrow> None)"

text \<open>\<^verbatim>\<open>encodedCompletionAssessment\<close> of the assessment, when there is one.\<close>

definition encoded_completion :: "run_env \<Rightarrow> js_value option \<Rightarrow> (string option \<times> string option \<times> string option) result" where
  "encoded_completion env completion = (case completion of
      None \<Rightarrow> Inr (None, None, None)
    | Some v \<Rightarrow> (case canonical_json env v of None \<Rightarrow> Inl Type_error
        | Some e \<Rightarrow> Inr (outcome_text v, Some e, Some (env_sha env e))))"

definition changed_row :: "goal \<Rightarrow> goal_status \<Rightarrow> goal_change \<Rightarrow> string option \<times> string option \<times> string option \<Rightarrow> int \<Rightarrow> goal_row \<Rightarrow> goal_row" where
  "changed_row g to c assessment now r = (case assessment of (outcome, encoded, sha) \<Rightarrow>
     r\<lparr>go_status := text_of goal_status_texts to, go_version := gl_version g + 1,
       go_continuations := option_or (gc_continuations c) (gl_continuations g), go_tokens := option_or (gc_tokens c) (gl_tokens g),
       go_max_tokens := option_or (gc_max_tokens c) (gl_max_tokens g), go_calls := option_or (gc_calls c) (gl_calls g),
       go_policy := option_or (gc_policy c) (gl_policy g),
       go_selection := text_of selection_texts (option_or (gc_selection c) (gl_selection g)),
       go_tier := map_option (text_of tier_texts) (option_or (gc_tier c) (gl_tier g)),
       go_allowance := option_or (gc_allowance c) (gl_allowance g), go_cycle := option_or (gc_cycle c) (gl_cycle g),
       go_reason := map_option (text_of reason_texts) (option_or (gc_reason c) (gl_reason g)),
       go_outcome := outcome, go_assessment := encoded, go_assessment_sha := sha, go_error_code := gc_error_code c,
       go_error_message := gc_error_message c, go_updated := now, go_completed := (if to \<in> set terminal_statuses then Some now else None)\<rparr>)"

text \<open>\<^verbatim>\<open>updateGoalStatus\<close>\<close>

definition update_goal_status ::
  "run_env \<Rightarrow> int \<Rightarrow> string \<Rightarrow> int option \<Rightarrow> goal_status list \<Rightarrow> goal_status \<Rightarrow> goal_change \<Rightarrow> int \<Rightarrow> ('z goal_db_scheme, goal) tx" where
  "update_goal_status env owner ident expected wanted to c now db =
     rbind (get_goal env owner ident db) (\<lambda>g.
     if (case expected of None \<Rightarrow> False | Some v \<Rightarrow> gl_version g \<noteq> v) then Inl version_changed
     else if gl_status g \<notin> set wanted then Inl (Coded ''INVALID_GOAL_TRANSITION'' 409)
     else rbind (encoded_completion env (option_or (gc_completion c) (gl_completion g))) (\<lambda>assessment.
       rbind (update_goal_row (\<lambda>r. go_id r = gl_id g \<and> go_owner r = gl_owner g \<and> go_version r = gl_version g
           \<and> go_status r = text_of goal_status_texts (gl_status g)) (changed_row g to c assessment now) db) (\<lambda>(_, db1).
       rbind (get_goal env owner ident db1) (\<lambda>g'. Inr (g', db1)))))"

end
