(* ===== verification/GoalAdvance.thy ===== *)
theory GoalAdvance
  imports AgentGoals RunAdmission
begin

text \<open>
  The life of a durable goal in the agent runtime (\<^verbatim>\<open>server/agents/runtime.ts\<close>): its accounting,
  pausing, cancelling, resuming, renewing and the worker step that advances the oldest active goal.
  A handler runs several transactions one after the other, so that a failing one leaves what the
  ones before it committed. Arguments of the model are the parts of the runtime around it: the
  classifier's checkpoints, the admission context, the check of the goal's provider binding and
  skills, the admission built from them, and the checks made before a run is replayed.
\<close>

section \<open>Handlers\<close>

record goal_world = goal_db +
  w_coord :: coord_db

type_synonym 'a handler = "goal_world \<Rightarrow> 'a result \<times> goal_world"

definition attempt :: "(goal_world, 'a) tx \<Rightarrow> 'a handler" where
  "attempt t w = (case t w of Inl e \<Rightarrow> (Inl e, w) | Inr (a, w') \<Rightarrow> (Inr a, w'))"

definition look :: "(goal_world \<Rightarrow> 'a result) \<Rightarrow> 'a handler" where
  "look f w = (f w, w)"

definition and_then :: "'a handler \<Rightarrow> ('a \<Rightarrow> 'b handler) \<Rightarrow> 'b handler" where
  "and_then h k w = (case h w of (Inl e, w') \<Rightarrow> (Inl e, w') | (Inr a, w') \<Rightarrow> k a w')"

definition give :: "'a \<Rightarrow> 'a handler" where
  "give a w = (Inr a, w)"

text \<open>A transaction on the runs alone.\<close>

definition on_runs :: "(coord_db, 'a) tx \<Rightarrow> (goal_world, 'a) tx" where
  "on_runs t w = rbind (t (w_coord w)) (\<lambda>(a, c). Inr (a, w\<lparr>w_coord := c\<rparr>))"

datatype binding_state = Configuration_changed | Skills_changed | Usable

record goal_host =
  h_enabled :: bool
  h_checkpoints :: "goal \<Rightarrow> coord_db \<Rightarrow> (string \<Rightarrow> int) result"
  h_context :: "goal \<Rightarrow> coord_db \<Rightarrow> int result"
  h_binding :: "goal \<Rightarrow> run_row \<Rightarrow> coord_db \<Rightarrow> binding_state result"
  h_admission :: "goal \<Rightarrow> coord_db \<Rightarrow> admission result"
  h_replay :: "run_row \<Rightarrow> coord_db \<Rightarrow> unit result"
  h_receipt :: "string \<Rightarrow> int \<Rightarrow> run_row \<Rightarrow> coord_db \<Rightarrow> unit result"
  h_validate :: "js_value \<Rightarrow> js_value result"
  h_media :: media_lookup

section \<open>Accounting\<close>

definition runs_of_goal :: "string \<Rightarrow> coord_db \<Rightarrow> run_row list" where
  "runs_of_goal ident c = filter (\<lambda>r. rn_goal r = Some ident) (c_runs c)"

definition has_active_run :: "string \<Rightarrow> coord_db \<Rightarrow> bool" where
  "has_active_run ident c = list_ex (\<lambda>r. active_status (rn_status r)) (runs_of_goal ident c)"

text \<open>\<^verbatim>\<open>orderBy('goalContinuation', 'desc')\<close>; a run of a goal has a continuation.\<close>

definition latest_of :: "run_row list \<Rightarrow> run_row option" where
  "latest_of runs = (case sort_key (\<lambda>r. - option_or (rn_continuation r) 0) runs of [] \<Rightarrow> None | r # _ \<Rightarrow> Some r)"

definition latest_run :: "goal \<Rightarrow> coord_db \<Rightarrow> run_row option" where
  "latest_run g c = latest_of (filter (\<lambda>r. rn_owner r = gl_owner g) (runs_of_goal (gl_id g) c))"

text \<open>What a run counts: its own total, what its reservation consumed or the classifier's tokens, whichever is most.\<close>

definition run_tokens :: "(string \<Rightarrow> int) \<Rightarrow> quota_db \<Rightarrow> run_row \<Rightarrow> int result" where
  "run_tokens checkpoint q r = (let reservation = sql_first (reservation_of (rn_id r) (rn_owner r)) (q_reservations q) in
     if active_status (rn_status r) then
       rbind (stored_int (rn_total r)) (\<lambda>total.
       rbind (case reservation of None \<Rightarrow> Inr 0 | Some p \<Rightarrow> stored_int (qr_consumed_tokens p)) (\<lambda>pending.
       Inr (max total (max pending (checkpoint (rn_id r))))))
     else rbind (stored_int (rn_owner r)) (\<lambda>_. case reservation of
       None \<Rightarrow> Inl quota_corrupt
     | Some p \<Rightarrow> if qr_status p = Reserved \<or> qr_reconciled p = None then Inl quota_corrupt
         else rbind (stored_int (rn_total r)) (\<lambda>total.
           rbind (stored_int (qr_consumed_tokens p)) (\<lambda>consumed.
           if qr_status p = Released \<and> consumed \<noteq> 0 then Inl quota_corrupt else Inr (max total (max consumed (checkpoint (rn_id r))))))))"

text \<open>\<^verbatim>\<open>#goalUsage\<close>: tokens and tool calls of the goal's runs, one of them left out on request.\<close>

definition goal_usage :: "run_env \<Rightarrow> goal_host \<Rightarrow> string option \<Rightarrow> string \<Rightarrow> goal_world \<Rightarrow> (int \<times> int) result" where
  "goal_usage env host exclude ident w = (let c = w_coord w in case runs_of_goal ident c of
      [] \<Rightarrow> Inl quota_corrupt
    | r0 # _ \<Rightarrow>
        rbind (stored_int (rn_owner r0)) (\<lambda>owner.
        rbind (get_goal env owner ident w) (\<lambda>g.
        rbind (h_checkpoints host g c) (\<lambda>checkpoint.
        let runs = filter (\<lambda>r. Some (rn_id r) \<noteq> exclude) (runs_of_goal ident c) in
        rbind (rfold (\<lambda>r n. rbind (run_tokens checkpoint (c_quota c) r) (\<lambda>t. stored_sum n t)) runs 0) (\<lambda>tokens.
        rbind (stored_int (int (length (filter (\<lambda>e. ev_type e = ''tool.started'' \<and> ev_run e \<in> rn_id ` set runs) (c_events c))))) (\<lambda>calls.
        Inr (tokens, calls)))))))"

definition accounting_failed :: "js_error \<Rightarrow> bool" where
  "accounting_failed e = (case e of Coded code _ \<Rightarrow> code = ''AGENT_QUOTA_CORRUPT'' | _ \<Rightarrow> False)"

text \<open>\<^verbatim>\<open>goalBudgetLimitReason\<close>\<close>

definition limit_reason_of :: "goal \<Rightarrow> int \<times> int \<Rightarrow> int \<Rightarrow> bool \<Rightarrow> limit_reason" where
  "limit_reason_of g usage now fence =
     (if gl_max_calls g \<le> snd usage then L_tool_calls
      else if gl_max_continuations g \<le> gl_continuations g then L_continuations
      else if gl_deadline g \<le> now then L_duration
      else if gl_max_tokens g \<le> fst usage \<or> fence then L_tokens
      else L_authority)"

section \<open>Events\<close>

definition goal_event_data :: "goal \<Rightarrow> js_value" where
  "goal_event_data g = JObj [(''goalId'', JStr (gl_id g)), (''status'', JStr (text_of goal_status_texts (gl_status g))),
     (''continuationCount'', JNum (Whole (gl_continuations g)))]"

text \<open>\<^verbatim>\<open>emitGoalEvent\<close>\<close>

definition emit_goal_event :: "run_env \<Rightarrow> goal \<Rightarrow> run_row \<Rightarrow> string \<Rightarrow> int \<Rightarrow> unit handler" where
  "emit_goal_event env g r kind now = attempt (\<lambda>w. rbind (on_runs (append_event env (rn_id r) (gl_owner g) None kind (rn_attempts r) (goal_event_data g) now) w)
     (\<lambda>(_, w'). Inr ((), w')))"

text \<open>\<^verbatim>\<open>#emitLatestGoalStatus\<close>\<close>

definition emit_latest :: "run_env \<Rightarrow> goal \<Rightarrow> int \<Rightarrow> unit handler" where
  "emit_latest env g now w = (case latest_run g (w_coord w) of None \<Rightarrow> give () w | Some r \<Rightarrow> emit_goal_event env g r ''goal.status'' now w)"

section \<open>Pausing and cancelling\<close>

definition active_run :: "goal \<Rightarrow> coord_db \<Rightarrow> run_row option" where
  "active_run g c = latest_of (filter (\<lambda>r. rn_owner r = gl_owner g \<and> active_status (rn_status r)) (runs_of_goal (gl_id g) c))"

text \<open>\<^verbatim>\<open>pauseGoal\<close> and \<^verbatim>\<open>cancelGoal\<close>; a missing expected version is no check.\<close>

definition stop_run :: "run_env \<Rightarrow> goal_host \<Rightarrow> goal \<Rightarrow> run_row \<Rightarrow> int \<Rightarrow> goal handler" where
  "stop_run env host g r now = and_then (emit_goal_event env g r ''goal.status'' now) (\<lambda>_.
     and_then (attempt (on_runs (request_cancellation env (h_validate host) (gl_owner g) (rn_id r) now))) (\<lambda>_. give g))"

definition pause_goal :: "run_env \<Rightarrow> goal_host \<Rightarrow> int \<Rightarrow> string \<Rightarrow> int option \<Rightarrow> int \<Rightarrow> goal handler" where
  "pause_goal env host owner ident expected now =
     and_then (attempt (update_goal_status env owner ident expected [G_active, G_blocked] G_paused no_change now)) (\<lambda>g w.
       case active_run g (w_coord w) of None \<Rightarrow> give g w
       | Some r \<Rightarrow> and_then (emit_goal_event env g r ''run.interrupted'' now) (\<lambda>_. stop_run env host g r now) w)"

definition cancel_goal :: "run_env \<Rightarrow> goal_host \<Rightarrow> int \<Rightarrow> string \<Rightarrow> int option \<Rightarrow> int \<Rightarrow> goal handler" where
  "cancel_goal env host owner ident expected now =
     and_then (attempt (update_goal_status env owner ident expected [G_active, G_paused, G_blocked] G_cancelled no_change now)) (\<lambda>g w.
       case active_run g (w_coord w) of None \<Rightarrow> give g w | Some r \<Rightarrow> stop_run env host g r now w)"

text \<open>\<^verbatim>\<open>cancel\<close> of a run: the goal whose current continuation it is goes with it.\<close>

definition cancel_with_run :: "run_env \<Rightarrow> int \<Rightarrow> int \<Rightarrow> run_row \<Rightarrow> string \<Rightarrow> (goal_world, run_row) tx" where
  "cancel_with_run env owner now r ident w = rbind (get_goal env owner ident w) (\<lambda>g.
     if Some (gl_continuations g) = rn_continuation r \<and> gl_status g \<in> set open_statuses
     then rbind (update_goal_status env owner (gl_id g) (Some (gl_version g)) [gl_status g] G_cancelled no_change now w) (\<lambda>(_, w'). Inr (r, w'))
     else Inr (r, w))"

definition cancel_goal_of_run :: "run_env \<Rightarrow> int \<Rightarrow> string \<Rightarrow> int \<Rightarrow> (goal_world, run_row) tx" where
  "cancel_goal_of_run env owner run now w = (case sql_first (\<lambda>r. rn_id r = run \<and> rn_owner r = owner) (c_runs (w_coord w)) of
      None \<Rightarrow> Inl resource_not_found
    | Some row \<Rightarrow> rbind (run_record row) (\<lambda>r.
        if terminal_status (rn_status r) \<or> rn_goal r = None \<or> rn_goal r = Some [] then Inr (r, w)
        else cancel_with_run env owner now r (the (rn_goal r)) w))"

definition cancel_run :: "run_env \<Rightarrow> goal_host \<Rightarrow> int \<Rightarrow> string \<Rightarrow> int \<Rightarrow> run_row handler" where
  "cancel_run env host owner run now = and_then (attempt (cancel_goal_of_run env owner run now)) (\<lambda>r.
     if terminal_status (rn_status r) then give r else attempt (on_runs (request_cancellation env (h_validate host) owner run now)))"

section \<open>Continuing\<close>

record continue_input =
  cn_expected :: "int option"
  cn_run :: string
  cn_request :: string
  cn_automatic :: bool

definition accounting_change :: "goal \<Rightarrow> goal_change" where
  "accounting_change g = no_change\<lparr>gc_completion := Some (gl_completion g), gc_tokens := Some (gl_tokens g), gc_calls := Some (gl_calls g),
     gc_reason := Some (Some L_accounting), gc_error_code := Some ''GOAL_ACCOUNTING_UNAVAILABLE'',
     gc_error_message := Some ''Goal accounting must be reconciled before continuation.''\<rparr>"

definition partial_completion :: js_value where
  "partial_completion = assessment_value (''partial'',
     [issue ''GOAL_BUDGET_LIMITED'' ''The goal reached its host-owned continuation budget.'' False])"

definition limit_change :: "js_value option \<Rightarrow> goal \<Rightarrow> int \<times> int \<Rightarrow> int \<Rightarrow> bool \<Rightarrow> string \<Rightarrow> goal_change" where
  "limit_change completion g usage now fence message = no_change\<lparr>
     gc_completion := Some (Some (option_or completion partial_completion)), gc_tokens := Some (fst usage), gc_calls := Some (snd usage),
     gc_reason := Some (Some (limit_reason_of g usage now fence)), gc_error_code := Some ''GOAL_BUDGET_LIMITED'', gc_error_message := Some message\<rparr>"

definition configuration_change :: "int \<times> int \<Rightarrow> string \<Rightarrow> goal_change" where
  "configuration_change usage message = no_change\<lparr>gc_tokens := Some (fst usage), gc_calls := Some (snd usage),
     gc_reason := Some (Some L_authority), gc_error_code := Some ''GOAL_CONFIGURATION_CHANGED'', gc_error_message := Some message\<rparr>"

definition token_fence :: "run_row option \<Rightarrow> bool" where
  "token_fence r = (case r of None \<Rightarrow> False | Some q \<Rightarrow> rn_error_code q = Some ''AGENT_TOKEN_BUDGET_LIMITED'')"

definition is_limited :: "goal \<Rightarrow> int \<times> int \<Rightarrow> int \<Rightarrow> bool \<Rightarrow> bool" where
  "is_limited g usage now fence = (gl_max_continuations g \<le> gl_continuations g \<or> gl_max_tokens g \<le> fst usage \<or> gl_max_calls g \<le> snd usage
     \<or> gl_deadline g \<le> now \<or> fence)"

text \<open>The goal's row before its next run is admitted.\<close>

definition continued_row :: "goal \<Rightarrow> int \<times> int \<Rightarrow> int \<Rightarrow> goal_row \<Rightarrow> goal_row" where
  "continued_row g usage now r = r\<lparr>go_status := ''active'', go_version := gl_version g + 1, go_continuations := gl_continuations g + 1,
     go_tokens := fst usage, go_calls := snd usage, go_reason := None, go_error_code := None, go_error_message := None, go_updated := now,
     go_completed := None\<rparr>"

definition still_read :: "goal \<Rightarrow> goal_row \<Rightarrow> bool" where
  "still_read g r = (go_id r = gl_id g \<and> go_owner r = gl_owner g \<and> go_version r = gl_version g
     \<and> go_status r = text_of goal_status_texts (gl_status g))"

definition capped :: "int \<Rightarrow> js_num \<Rightarrow> js_num" where
  "capped limit n = (case n of Whole t \<Rightarrow> Whole (min t limit) | Not_whole \<Rightarrow> Not_whole)"

definition goal_admission :: "goal \<Rightarrow> string \<Rightarrow> string \<Rightarrow> int \<Rightarrow> int \<Rightarrow> admission \<Rightarrow> admission" where
  "goal_admission g run request version limit a = a\<lparr>ad_run := run, ad_request := request, ad_owner := gl_owner g, ad_session := gl_session g,
     ad_version := version, ad_goal := Some (gl_id g), ad_continuation := Some (Whole (gl_continuations g + 1)), ad_user_visible := Some False,
     ad_quota := (ad_quota a)\<lparr>qa_tokens := capped limit (qa_tokens (ad_quota a))\<rparr>\<rparr>"

type_synonym continued = "goal \<times> run_row option \<times> bool"

definition settled_goal :: "(goal_world, goal) tx \<Rightarrow> (goal_world, continued) tx" where
  "settled_goal t w = rbind (t w) (\<lambda>(g, w'). Inr ((g, None, False), w'))"


text \<open>A run that was admitted under the identifier before; its request has to be the same.\<close>

definition replayed_run :: "run_env \<Rightarrow> goal_host \<Rightarrow> goal \<Rightarrow> continue_input \<Rightarrow> run_row \<Rightarrow> (goal_world, continued) tx" where
  "replayed_run env host g i r w =
     (if rn_request r \<noteq> cn_request i then Inl (Coded ''RUN_IDEMPOTENCY_MISMATCH'' 409)
      else rbind (h_replay host r (w_coord w)) (\<lambda>_.
        rbind (get_goal env (gl_owner g) (gl_id g) w) (\<lambda>g'.
        rbind (run_record r) (\<lambda>r'. Inr ((g', Some r', True), w)))))"

text \<open>Admission of the next run of a goal within its limits.\<close>

definition next_run :: "run_env \<Rightarrow> goal_host \<Rightarrow> goal \<Rightarrow> continue_input \<Rightarrow> int \<Rightarrow> int \<times> int \<Rightarrow> int \<Rightarrow> (goal_world, continued) tx" where
  "next_run env host g i version usage now w =
     (if has_active_run (gl_id g) (w_coord w) then Inl (Coded ''GOAL_RUN_ACTIVE'' 409)
      else rbind (h_admission host g (w_coord w)) (\<lambda>a.
        rbind (update_goal_row (still_read g) (continued_row g usage now) w) (\<lambda>(_, w1).
        rbind (on_runs (admit_run env (h_media host)
            (goal_admission g (cn_run i) (cn_request i) version (gl_max_tokens g - fst usage) a) now) w1) (\<lambda>((r, again), w2).
        rbind (get_goal env (gl_owner g) (gl_id g) w2) (\<lambda>g'. Inr ((g', Some r, again), w2))))))"

definition first_run :: "goal \<Rightarrow> coord_db \<Rightarrow> run_row option" where
  "first_run g c = sql_first (\<lambda>r. rn_goal r = Some (gl_id g) \<and> rn_continuation r = Some 0 \<and> rn_owner r = gl_owner g) (c_runs c)"

definition block_goal :: "run_env \<Rightarrow> goal \<Rightarrow> goal_change \<Rightarrow> int \<Rightarrow> (goal_world, continued) tx" where
  "block_goal env g c now = settled_goal (update_goal_status env (gl_owner g) (gl_id g) (Some (gl_version g)) [gl_status g] G_blocked c now)"

text \<open>The transaction of \<^verbatim>\<open>#continueGoal\<close>\<close>

definition continue_tx :: "run_env \<Rightarrow> goal_host \<Rightarrow> goal \<Rightarrow> continue_input \<Rightarrow> int \<Rightarrow> (goal_world, continued) tx" where
  "continue_tx env host g0 i now w =
     (case (if cn_automatic i then None else sql_first (\<lambda>r. rn_id r = cn_run i \<and> rn_owner r = gl_owner g0 \<and> rn_goal r = Some (gl_id g0))
              (c_runs (w_coord w))) of
        Some r \<Rightarrow> replayed_run env host g0 i r w
      | None \<Rightarrow>
          rbind (get_goal env (gl_owner g0) (gl_id g0) w) (\<lambda>g.
          if (case cn_expected i of None \<Rightarrow> False | Some v \<Rightarrow> gl_version g \<noteq> v) then Inl version_changed
          else if gl_status g \<notin> (if cn_automatic i then {G_active} else {G_paused, G_blocked}) then Inl (Coded ''INVALID_GOAL_TRANSITION'' 409)
          else rbind (h_context host g (w_coord w)) (\<lambda>version.
          case goal_usage env host None (gl_id g) w of
            Inl e \<Rightarrow> if accounting_failed e then block_goal env g (accounting_change g) now w else Inl e
          | Inr usage \<Rightarrow>
              let fence = token_fence (latest_run g (w_coord w)) in
              if is_limited g usage now fence
              then settled_goal (update_goal_status env (gl_owner g) (gl_id g) (Some (gl_version g)) [gl_status g] G_budget_limited
                     (limit_change (gl_completion g) g usage now fence ''Goal continuation budget was exhausted'') now) w
              else (case first_run g (w_coord w) of
                None \<Rightarrow> Inl goal_corrupt
              | Some r0 \<Rightarrow> rbind (h_binding host g r0 (w_coord w)) (\<lambda>state. case state of
                    Configuration_changed \<Rightarrow> block_goal env g (configuration_change usage
                      ''Provider configuration changed; start a new goal to use the new configuration'') now w
                  | Skills_changed \<Rightarrow> block_goal env g (configuration_change usage
                      ''Selected skills changed; start a new goal to use the new configuration'') now w
                  | Usable \<Rightarrow> next_run env host g i version usage now w)))))"

text \<open>\<^verbatim>\<open>#continueGoal\<close>\<close>

definition goals_disabled :: js_error where
  "goals_disabled = Coded ''AGENT_GOALS_DISABLED'' 404"

definition continue_goal :: "run_env \<Rightarrow> goal_host \<Rightarrow> goal \<Rightarrow> continue_input \<Rightarrow> int \<Rightarrow> continued handler" where
  "continue_goal env host g i now =
     (if \<not> h_enabled host then (\<lambda>w. (Inl goals_disabled, w))
      else and_then (attempt (continue_tx env host g i now)) (\<lambda>(g', run, replayed).
        if replayed then give (g', run, replayed)
        else and_then (case run of None \<Rightarrow> emit_latest env g' now
          | Some r \<Rightarrow> and_then (emit_goal_event env g' r ''run.resumed'' now) (\<lambda>_. emit_goal_event env g' r ''goal.status'' now))
        (\<lambda>_. give (g', run, replayed))))"

text \<open>\<^verbatim>\<open>resumeGoal\<close>\<close>

definition resume_goal :: "run_env \<Rightarrow> goal_host \<Rightarrow> int \<Rightarrow> string \<Rightarrow> continue_input \<Rightarrow> int \<Rightarrow> continued handler" where
  "resume_goal env host owner ident i now =
     and_then (look (get_goal env owner ident)) (\<lambda>g. continue_goal env host g (i\<lparr>cn_automatic := False\<rparr>) now)"

section \<open>Renewing the token budget\<close>

record renew_input =
  rw_owner :: int
  rw_goal :: string
  rw_run :: string
  rw_request :: string
  rw_version :: int
  rw_confirmed :: bool

definition renewal_unavailable :: js_error where
  "renewal_unavailable = Coded ''GOAL_TOKEN_RENEWAL_UNAVAILABLE'' 409"

definition idempotency_mismatch :: js_error where
  "idempotency_mismatch = Coded ''RUN_IDEMPOTENCY_MISMATCH'' 409"

definition replayed_renewal :: "run_env \<Rightarrow> goal_host \<Rightarrow> renew_input \<Rightarrow> run_row \<Rightarrow> (goal_world, continued) tx" where
  "replayed_renewal env host i r w =
     (if rn_goal r \<noteq> Some (rw_goal i) \<or> rn_request r \<noteq> rw_request i
        \<or> (case rn_continuation r of None \<Rightarrow> True | Some c \<Rightarrow> \<not> safe_int c \<or> c < 1) then Inl idempotency_mismatch
      else rbind (h_receipt host (rw_goal i) (rw_version i) r (w_coord w)) (\<lambda>_.
        rbind (get_goal env (rw_owner i) (rw_goal i) w) (\<lambda>g.
        rbind (run_record r) (\<lambda>r'. Inr ((g, Some r', True), w)))))"

definition renewed_row :: "goal \<Rightarrow> int \<Rightarrow> int \<Rightarrow> int \<Rightarrow> goal_row \<Rightarrow> goal_row" where
  "renewed_row g used max_tokens now r = r\<lparr>go_status := ''active'', go_version := gl_version g + 1,
     go_continuations := gl_continuations g + 1, go_tokens := used, go_max_tokens := max_tokens, go_cycle := gl_cycle g + 1, go_reason := None,
     go_error_code := None, go_error_message := None, go_updated := now, go_completed := None\<rparr>"

text \<open>The updates that block a goal during a renewal write the row themselves.\<close>

definition blocked_row :: "goal \<Rightarrow> int \<times> int \<Rightarrow> limit_reason \<Rightarrow> string \<Rightarrow> string \<Rightarrow> int \<Rightarrow> goal_row \<Rightarrow> goal_row" where
  "blocked_row g usage reason code message now r = r\<lparr>go_status := ''blocked'', go_version := gl_version g + 1, go_tokens := fst usage,
     go_calls := snd usage, go_reason := Some (text_of reason_texts reason), go_error_code := Some code, go_error_message := Some message,
     go_updated := now\<rparr>"

definition block_row :: "run_env \<Rightarrow> goal \<Rightarrow> (goal_row \<Rightarrow> goal_row) \<Rightarrow> (goal_world, continued) tx" where
  "block_row env g f w = rbind (update_goal_row (still_read g) f w) (\<lambda>(_, w1).
     rbind (get_goal env (gl_owner g) (gl_id g) w1) (\<lambda>g'. Inr ((g', None, False), w1)))"

definition renewal_receipt :: "renew_input \<Rightarrow> goal \<Rightarrow> int \<Rightarrow> int \<Rightarrow> js_value" where
  "renewal_receipt i g used allowance = JObj [(''receiptVersion'', js_int 2), (''operation'', JStr ''renew_goal_budget''),
     (''goalId'', JStr (rw_goal i)), (''clientRequestId'', JStr (rw_request i)), (''expectedVersion'', js_int (rw_version i)), (''confirmed'', JBool True),
     (''budgetCycle'', js_int (gl_cycle g)), (''cycleStartedAtTokens'', js_int used), (''tokenAllowance'', js_int allowance),
     (''maxTokens'', js_int (gl_max_tokens g)), (''status'', JStr (text_of goal_status_texts (gl_status g))),
     (''continuationCount'', js_int (gl_continuations g))]"

definition usage_sum :: "int \<Rightarrow> int \<Rightarrow> int result" where
  "usage_sum a b = (if safe_int (a + b) \<and> 0 \<le> a + b then Inr (a + b) else Inl (Coded ''INVALID_AGENT_USAGE'' 500))"

text \<open>The renewal of a goal whose tokens alone are exhausted: another allowance on top of what was used.\<close>

definition renew_run :: "run_env \<Rightarrow> goal_host \<Rightarrow> renew_input \<Rightarrow> goal \<Rightarrow> int \<Rightarrow> int \<Rightarrow> int \<Rightarrow> int \<Rightarrow> (goal_world, continued) tx" where
  "renew_run env host i g version used allowance now w =
     rbind (h_admission host g (w_coord w)) (\<lambda>a.
     rbind (usage_sum used allowance) (\<lambda>max_tokens.
     rbind (update_goal_row (still_read g) (renewed_row g used max_tokens now) w) (\<lambda>(_, w1).
     rbind (on_runs (admit_run env (h_media host) (goal_admission g (rw_run i) (rw_request i) version allowance a) now) w1) (\<lambda>((r, again), w2).
     if again then Inl idempotency_mismatch
     else rbind (get_goal env (gl_owner g) (gl_id g) w2) (\<lambda>g'.
       rbind (on_runs (append_event env (rn_id r) (gl_owner g) None ''run.resumed'' (rn_attempts r) (renewal_receipt i g' used allowance) now) w2) (\<lambda>(_, w3).
       Inr ((g', Some r, False), w3)))))))"

definition competing_goal :: "goal \<Rightarrow> goal_world \<Rightarrow> bool" where
  "competing_goal g w = list_ex (\<lambda>r. go_session r = gl_session g \<and> is_open r \<and> go_id r \<noteq> gl_id g) (g_goals w)"

definition has_active_owned_run :: "goal \<Rightarrow> coord_db \<Rightarrow> bool" where
  "has_active_owned_run g c = (active_run g c \<noteq> None)"

definition renew_checked :: "run_env \<Rightarrow> goal_host \<Rightarrow> renew_input \<Rightarrow> goal \<Rightarrow> int \<Rightarrow> int \<Rightarrow> int \<times> int \<Rightarrow> int \<Rightarrow> (goal_world, continued) tx" where
  "renew_checked env host i g allowance version usage now w =
     (if gl_max_calls g \<le> snd usage then Inl (Coded ''GOAL_TOOL_BUDGET_EXHAUSTED'' 409)
      else if gl_max_continuations g \<le> gl_continuations g then Inl (Coded ''GOAL_CONTINUATION_BUDGET_EXHAUSTED'' 409)
      else if gl_deadline g \<le> now then Inl (Coded ''GOAL_DURATION_EXHAUSTED'' 409)
      else if fst usage < gl_max_tokens g \<and> \<not> token_fence (latest_run g (w_coord w)) then Inl renewal_unavailable
      else (case first_run g (w_coord w) of
        None \<Rightarrow> Inl goal_corrupt
      | Some r0 \<Rightarrow> rbind (h_binding host g r0 (w_coord w)) (\<lambda>state. case state of
            Configuration_changed \<Rightarrow> block_row env g (blocked_row g usage L_authority ''GOAL_CONFIGURATION_CHANGED''
              ''Provider configuration changed; start a new goal to use the new configuration'' now) w
          | Skills_changed \<Rightarrow> block_row env g (blocked_row g usage L_authority ''GOAL_CONFIGURATION_CHANGED''
              ''Selected skills changed; start a new goal to use the new configuration'' now) w
          | Usable \<Rightarrow> renew_run env host i g version (fst usage) allowance now w)))"

definition renew_tx :: "run_env \<Rightarrow> goal_host \<Rightarrow> renew_input \<Rightarrow> int \<Rightarrow> (goal_world, continued) tx" where
  "renew_tx env host i now w = (case sql_first (\<lambda>r. rn_id r = rw_run i \<and> rn_owner r = rw_owner i) (c_runs (w_coord w)) of
      Some r \<Rightarrow> replayed_renewal env host i r w
    | None \<Rightarrow>
        rbind (get_goal env (rw_owner i) (rw_goal i) w) (\<lambda>g.
        if gl_version g \<noteq> rw_version i then Inl version_changed
        else if list_ex (\<lambda>r. rn_owner r = rw_owner i \<and> rn_session r = gl_session g \<and> rn_request r = rw_request i \<and> rn_id r \<noteq> rw_run i)
               (c_runs (w_coord w)) then Inl idempotency_mismatch
        else if \<not> gl_can_renew g then Inl renewal_unavailable
        else if has_active_owned_run g (w_coord w) then Inl (Coded ''GOAL_RUN_ACTIVE'' 409)
        else if competing_goal g w then Inl (Coded ''SESSION_GOAL_ACTIVE'' 409)
        else rbind (h_context host g (w_coord w)) (\<lambda>version.
        case goal_usage env host None (gl_id g) w of
          Inl e \<Rightarrow> if accounting_failed e then block_row env g (blocked_row g (gl_tokens g, gl_calls g) L_accounting
              ''GOAL_ACCOUNTING_UNAVAILABLE'' ''Goal accounting must be reconciled before token budget renewal.'' now) w else Inl e
        | Inr usage \<Rightarrow> (case gl_allowance g of None \<Rightarrow> Inl renewal_unavailable
            | Some allowance \<Rightarrow> renew_checked env host i g allowance version usage now w))))"

text \<open>\<^verbatim>\<open>renewGoalBudget\<close>; the conditions on the goal before a renewal are those of its renewable flag.\<close>

definition renew_goal :: "run_env \<Rightarrow> goal_host \<Rightarrow> renew_input \<Rightarrow> int \<Rightarrow> continued handler" where
  "renew_goal env host i now =
     (if \<not> rw_confirmed i then (\<lambda>w. (Inl (Coded ''GOAL_RENEWAL_CONFIRMATION_REQUIRED'' 400), w))
      else if \<not> safe_int (rw_version i) \<or> rw_version i < 1 \<or> \<not> env_uuid env (rw_goal i) \<or> \<not> env_uuid env (rw_run i) \<or> \<not> env_uuid env (rw_request i)
      then (\<lambda>w. (Inl (Coded ''INVALID_AGENT_GOAL_RENEWAL'' 400), w))
      else if \<not> h_enabled host then (\<lambda>w. (Inl goals_disabled, w))
      else and_then (attempt (renew_tx env host i now)) (\<lambda>(g, run, replayed).
        if replayed then give (g, run, replayed)
        else and_then (case run of None \<Rightarrow> emit_latest env g now | Some r \<Rightarrow> emit_goal_event env g r ''goal.status'' now)
          (\<lambda>_. give (g, run, replayed))))"

section \<open>The worker's step\<close>

text \<open>What the worker decides for an active goal none of whose runs is active.\<close>

datatype verdict =
    V_completed "js_value option" | V_cancelled "js_value option" | V_limited "js_value option" bool
  | V_blocked "js_value option" bool | V_continue

definition outcome_is :: "string \<Rightarrow> js_value option \<Rightarrow> bool" where
  "outcome_is t completion = (case completion of None \<Rightarrow> False | Some v \<Rightarrow> js_get ''outcome'' v = JStr t)"

definition goal_verdict :: "run_row \<Rightarrow> js_value option \<Rightarrow> verdict" where
  "goal_verdict r completion =
     (if rn_status r = R_succeeded \<and> outcome_is ''complete'' completion then V_completed completion
      else if rn_status r = R_cancelled then V_cancelled completion
      else if rn_error_code r = Some ''AGENT_BUDGET_LIMITED'' \<or> rn_error_code r = Some ''AGENT_TOKEN_BUDGET_LIMITED''
      then V_limited completion (rn_error_code r = Some ''AGENT_TOKEN_BUDGET_LIMITED'')
      else if rn_status r = R_recovery \<or> outcome_is ''blocked'' completion then V_blocked completion (rn_status r = R_recovery)
      else V_continue)"

definition counted :: "js_value option \<Rightarrow> int \<times> int \<Rightarrow> goal_change" where
  "counted completion usage = no_change\<lparr>gc_completion := Some completion, gc_tokens := Some (fst usage), gc_calls := Some (snd usage)\<rparr>"

definition blocked_change :: "js_value option \<Rightarrow> int \<times> int \<Rightarrow> bool \<Rightarrow> goal_change" where
  "blocked_change completion usage recovery = (counted completion usage)\<lparr>
     gc_error_code := Some (if recovery then ''GOAL_RECOVERY_REQUIRED'' else ''GOAL_BLOCKED''),
     gc_error_message := Some (if recovery then ''A run requires operator recovery'' else ''Goal completion is blocked'')\<rparr>"

definition settle_goal :: "run_env \<Rightarrow> goal \<Rightarrow> run_row \<Rightarrow> goal_status \<Rightarrow> goal_change \<Rightarrow> int \<Rightarrow> unit handler" where
  "settle_goal env g r to c now = and_then (attempt (update_goal_status env (gl_owner g) (gl_id g) (Some (gl_version g)) [G_active] to c now))
     (\<lambda>g'. emit_goal_event env g' r ''goal.status'' now)"

text \<open>\<^verbatim>\<open>#blockGoalForAccounting\<close>\<close>

definition block_for_accounting :: "run_env \<Rightarrow> goal \<Rightarrow> int \<Rightarrow> goal handler" where
  "block_for_accounting env g now =
     (if gl_status g = G_blocked \<and> gl_error_code g = Some ''GOAL_ACCOUNTING_UNAVAILABLE'' then give g
      else and_then (attempt (update_goal_status env (gl_owner g) (gl_id g) (Some (gl_version g)) [gl_status g] G_blocked (accounting_change g) now))
        (\<lambda>g'. and_then (emit_latest env g' now) (\<lambda>_. give g')))"

definition apply_verdict :: "run_env \<Rightarrow> goal_host \<Rightarrow> continue_input \<Rightarrow> goal \<Rightarrow> run_row \<Rightarrow> int \<times> int \<Rightarrow> verdict \<Rightarrow> int \<Rightarrow> unit handler" where
  "apply_verdict env host i g r usage verdict now = (case verdict of
      V_completed completion \<Rightarrow> settle_goal env g r G_completed (counted completion usage) now
    | V_cancelled completion \<Rightarrow> settle_goal env g r G_cancelled (counted completion usage) now
    | V_limited completion fence \<Rightarrow> settle_goal env g r G_budget_limited (limit_change completion g usage now fence ''Goal execution budget was exhausted'') now
    | V_blocked completion recovery \<Rightarrow> settle_goal env g r G_blocked (blocked_change completion usage recovery) now
    | V_continue \<Rightarrow> and_then (continue_goal env host g (i\<lparr>cn_expected := None, cn_automatic := True\<rparr>) now) (\<lambda>_. give ()))"

definition advance_candidate :: "run_env \<Rightarrow> goal_host \<Rightarrow> continue_input \<Rightarrow> int \<Rightarrow> goal_row \<Rightarrow> unit handler" where
  "advance_candidate env host i now row = and_then (look (get_goal env (go_owner row) (go_id row))) (\<lambda>g w.
     case latest_run g (w_coord w) of None \<Rightarrow> (Inl goal_corrupt, w)
     | Some r \<Rightarrow> (case goal_usage env host None (gl_id g) w of
           Inl e \<Rightarrow> if accounting_failed e then and_then (block_for_accounting env g now) (\<lambda>_. give ()) w else (Inl e, w)
         | Inr usage \<Rightarrow> (case decode_assessment env (rn_assessment r) (rn_outcome r) (rn_assessment_sha r) of
               Inl e \<Rightarrow> (Inl e, w)
             | Inr completion \<Rightarrow> apply_verdict env host i g r usage (goal_verdict r completion) now w)))"

definition goal_candidates :: "goal_world \<Rightarrow> goal_row list" where
  "goal_candidates w = take 8 (sort_key go_updated (filter (\<lambda>r. go_status r = ''active'') (g_goals w)))"

text \<open>\<^verbatim>\<open>#advanceGoal\<close>: only the first candidate without an active run is handled.\<close>

fun advance_first :: "run_env \<Rightarrow> goal_host \<Rightarrow> continue_input \<Rightarrow> int \<Rightarrow> goal_row list \<Rightarrow> unit handler" where
  "advance_first env host i now [] w = (Inr (), w)"
| "advance_first env host i now (r # rs) w = (if has_active_run (go_id r) (w_coord w) then advance_first env host i now rs w
     else advance_candidate env host i now r w)"

definition advance_goal :: "run_env \<Rightarrow> goal_host \<Rightarrow> continue_input \<Rightarrow> int \<Rightarrow> unit handler" where
  "advance_goal env host i now w = (if \<not> h_enabled host then (Inr (), w) else advance_first env host i now (goal_candidates w) w)"

end
