(* ===== verification/GoalLaws.thy ===== *)
theory GoalLaws
  imports GoalAdvance
begin

text \<open>
  Laws of durable goals: what the table of goals keeps under every operation, and how a goal's row
  may change. A contract over pairs of states is proved once for the transactions that write the
  table; the handlers around them only append events and cancel runs.
\<close>

section \<open>Texts of a row\<close>

lemma status_text_of: "map_of goal_status_texts s = Some st \<longleftrightarrow> s = text_of goal_status_texts st"
  by (cases st) (auto simp: goal_status_texts_def text_of_def option_or_def split: if_splits)

lemma selection_text_of: "map_of selection_texts s = Some b \<longleftrightarrow> s = text_of selection_texts b"
  by (cases b) (auto simp: selection_texts_def text_of_def option_or_def split: if_splits)

lemma tier_text_of: "map_of tier_texts s = Some t \<longleftrightarrow> s = text_of tier_texts t"
  by (cases t) (auto simp: tier_texts_def text_of_def option_or_def split: if_splits)

lemma reason_text_of: "map_of reason_texts s = Some t \<longleftrightarrow> s = text_of reason_texts t"
  by (cases t) (auto simp: reason_texts_def text_of_def option_or_def split: if_splits)

lemma status_texts [simp]:
  "text_of goal_status_texts G_active = ''active''" "text_of goal_status_texts G_paused = ''paused''"
  "text_of goal_status_texts G_blocked = ''blocked''" "text_of goal_status_texts G_budget_limited = ''budget_limited''"
  "text_of goal_status_texts G_completed = ''completed''" "text_of goal_status_texts G_cancelled = ''cancelled''"
  "text_of goal_status_texts G_failed = ''failed''"
  by (simp_all add: goal_status_texts_def text_of_def option_or_def)

lemma selection_text_simps [simp]:
  "text_of selection_texts B_pending = ''pending''" "text_of selection_texts B_utility = ''utility''"
  "text_of selection_texts B_fallback = ''fallback''" "text_of selection_texts B_legacy = ''legacy''"
  by (simp_all add: selection_texts_def text_of_def option_or_def)

lemma reason_text_simps [simp]:
  "text_of reason_texts L_tokens = ''tokens''" "text_of reason_texts L_tool_calls = ''tool_calls''" "text_of reason_texts L_duration = ''duration''"
  "text_of reason_texts L_continuations = ''continuations''" "text_of reason_texts L_quota = ''quota''"
  "text_of reason_texts L_accounting = ''accounting''" "text_of reason_texts L_authority = ''authority''"
  by (simp_all add: reason_texts_def text_of_def option_or_def)

text \<open>What a goal that was read says of its row.\<close>

lemma goal_of_row_simps [simp]:
  "gl_id (goal_of_row r st b v) = go_id r" "gl_session (goal_of_row r st b v) = go_session r" "gl_owner (goal_of_row r st b v) = go_owner r"
  "gl_status (goal_of_row r st b v) = st" "gl_version (goal_of_row r st b v) = go_version r" "gl_selection (goal_of_row r st b v) = b"
  "gl_continuations (goal_of_row r st b v) = go_continuations r" "gl_max_continuations (goal_of_row r st b v) = go_max_continuations r"
  "gl_tokens (goal_of_row r st b v) = go_tokens r" "gl_max_tokens (goal_of_row r st b v) = go_max_tokens r"
  "gl_calls (goal_of_row r st b v) = go_calls r" "gl_max_calls (goal_of_row r st b v) = go_max_calls r"
  "gl_policy (goal_of_row r st b v) = go_policy r" "gl_tier (goal_of_row r st b v) = known_value tier_texts (go_tier r)"
  "gl_allowance (goal_of_row r st b v) = go_allowance r" "gl_cycle (goal_of_row r st b v) = go_cycle r"
  "gl_reason (goal_of_row r st b v) = known_value reason_texts (go_reason r)" "gl_completion (goal_of_row r st b v) = v"
  "gl_deadline (goal_of_row r st b v) = go_deadline r" "gl_objective_sha (goal_of_row r st b v) = go_objective_sha r"
  "gl_can_renew (goal_of_row r st b v) = can_renew (goal_of_row r st b v)"
  by (simp_all add: goal_of_row_def can_renew_def Let_def)

lemma goal_record_Inr:
  "agent_goal_record env r = Inr g \<longleftrightarrow> (\<exists>st b v. go_status r = text_of goal_status_texts st \<and> go_selection r = text_of selection_texts b
     \<and> is_hex 64 (go_objective_sha r) \<and> env_sha env (go_objective r) = go_objective_sha r \<and> counters_valid r \<and> budget_valid r
     \<and> decode_assessment env (go_assessment r) (go_outcome r) (go_assessment_sha r) = Inr v \<and> g = goal_of_row r st b v)"
proof -
  have sel: "\<exists>b. map_of selection_texts (go_selection r) = Some b" if "counters_valid r"
    using that by (auto simp: counters_valid_def)
  show ?thesis (is "_ = ?R")
  proof
    assume a: "agent_goal_record env r = Inr g"
    then obtain st where st: "map_of goal_status_texts (go_status r) = Some st"
      by (cases "map_of goal_status_texts (go_status r)") (simp_all add: agent_goal_record_def)
    with a have c: "counters_valid r" by (simp add: agent_goal_record_def split: if_splits)
    with sel obtain b where b: "map_of selection_texts (go_selection r) = Some b" by blast
    from a st b have "is_hex 64 (go_objective_sha r)" "env_sha env (go_objective r) = go_objective_sha r" "budget_valid r"
      "\<exists>v. decode_assessment env (go_assessment r) (go_outcome r) (go_assessment_sha r) = Inr v \<and> g = goal_of_row r st b v"
      by (auto simp: agent_goal_record_def rbind_Inr_iff split: if_splits)
    with c st b show ?R by (auto simp: status_text_of selection_text_of)
  next
    assume ?R
    then obtain st b v where "map_of goal_status_texts (go_status r) = Some st" "map_of selection_texts (go_selection r) = Some b"
      "is_hex 64 (go_objective_sha r)" "env_sha env (go_objective r) = go_objective_sha r" "counters_valid r" "budget_valid r"
      "decode_assessment env (go_assessment r) (go_outcome r) (go_assessment_sha r) = Inr v" "g = goal_of_row r st b v"
      by (auto simp: status_text_of selection_text_of)
    then show "agent_goal_record env r = Inr g" by (simp add: agent_goal_record_def)
  qed
qed

lemma goal_record_facts:
  assumes "agent_goal_record env r = Inr g"
  shows "gl_id g = go_id r" "gl_session g = go_session r" "gl_owner g = go_owner r" "go_status r = text_of goal_status_texts (gl_status g)"
    "gl_version g = go_version r" "gl_continuations g = go_continuations r" "gl_max_continuations g = go_max_continuations r"
    "gl_tokens g = go_tokens r" "gl_max_tokens g = go_max_tokens r" "gl_calls g = go_calls r" "gl_max_calls g = go_max_calls r"
    "gl_policy g = go_policy r" "go_selection r = text_of selection_texts (gl_selection g)" "gl_allowance g = go_allowance r"
    "gl_cycle g = go_cycle r" "gl_reason g = known_value reason_texts (go_reason r)" "gl_tier g = known_value tier_texts (go_tier r)"
    "counters_valid r" "budget_valid r" "gl_can_renew g = can_renew g" "gl_deadline g = go_deadline r"
  using assms by (auto simp: goal_record_Inr)

section \<open>The table of goals\<close>

text \<open>
  Every row can be read, identifiers are unique, a session has one open goal at most, and no goal
  was continued more often than it may be.
\<close>

definition goals_ok :: "run_env \<Rightarrow> 'z goal_db_scheme \<Rightarrow> bool" where
  "goals_ok env w = (unique_key go_id (g_goals w) \<and> one_open (g_goals w)
     \<and> (\<forall>r\<in>set (g_goals w). is_ok (agent_goal_record env r) \<and> go_continuations r \<le> go_max_continuations r))"

definition is_settled :: "goal_row \<Rightarrow> bool" where
  "is_settled r = (go_status r = ''completed'' \<or> go_status r = ''cancelled'' \<or> go_status r = ''failed'')"

text \<open>What a row was created with, and keeps.\<close>

definition goal_identity :: "goal_row \<Rightarrow> string \<times> int \<times> int \<times> string \<times> string \<times> int \<times> int \<times> int \<times> int" where
  "goal_identity r = (go_session r, go_owner r, go_creator r, go_objective r, go_objective_sha r, go_max_continuations r, go_max_calls r,
     go_started r, go_deadline r)"

text \<open>
  The token limit: once the budget of a goal is selected, its limit stays within a cycle; a new cycle
  begins with a renewal.
\<close>

definition tokens_kept :: "goal_row \<Rightarrow> goal_row \<Rightarrow> bool" where
  "tokens_kept r r' = (go_cycle r \<le> go_cycle r' \<and> (go_selection r \<noteq> ''pending'' \<longrightarrow> go_selection r' \<noteq> ''pending'')
     \<and> (go_selection r \<noteq> ''pending'' \<and> go_cycle r' = go_cycle r \<longrightarrow> go_max_tokens r' = go_max_tokens r))"

lemma tokens_kept_same:
  "go_cycle r' = go_cycle r \<Longrightarrow> go_selection r' = go_selection r \<Longrightarrow> go_max_tokens r' = go_max_tokens r \<Longrightarrow> tokens_kept r r'"
  by (simp add: tokens_kept_def)

lemma tokens_kept_trans: "tokens_kept r s \<Longrightarrow> tokens_kept s t \<Longrightarrow> tokens_kept r t"
  by (auto simp: tokens_kept_def)

text \<open>How a row may change, and whether the step may complete it.\<close>

definition row_moves :: "bool \<Rightarrow> goal_row \<Rightarrow> goal_row \<Rightarrow> bool" where
  "row_moves completing r r' = (go_id r' = go_id r \<and> goal_identity r' = goal_identity r \<and> go_version r \<le> go_version r'
     \<and> go_continuations r \<le> go_continuations r' \<and> tokens_kept r r'
     \<and> (is_settled r \<longrightarrow> go_status r' = go_status r \<and> go_version r' = go_version r \<and> go_continuations r' = go_continuations r
          \<and> go_outcome r' = go_outcome r \<and> go_assessment r' = go_assessment r \<and> go_completed r' = go_completed r)
     \<and> (go_status r' = ''completed'' \<longrightarrow> go_status r = ''completed'' \<or> completing))"

text \<open>A step of the table; the predicate names the goals it may complete.\<close>

definition goals_evolve :: "run_env \<Rightarrow> (string \<Rightarrow> bool) \<Rightarrow> 'z goal_db_scheme \<Rightarrow> 'z goal_db_scheme \<Rightarrow> bool" where
  "goals_evolve env completing w w' = (goals_ok env w \<longrightarrow> goals_ok env w'
     \<and> (\<forall>r\<in>set (g_goals w). \<exists>r'\<in>set (g_goals w'). row_moves (completing (go_id r)) r r')
     \<and> (\<forall>r'\<in>set (g_goals w'). go_id r' \<in> go_id ` set (g_goals w) \<or> go_status r' = ''active''))"

lemma row_moves_refl [simp]: "row_moves c r r"
  by (simp add: row_moves_def tokens_kept_same)

lemma row_moves_among: "r \<in> A \<Longrightarrow> \<exists>s\<in>A. row_moves c r s"
  by (rule bexI [of _ r]) simp_all

lemma row_moves_trans: "row_moves c r s \<Longrightarrow> row_moves c s t \<Longrightarrow> row_moves c r t"
  by (auto simp: row_moves_def is_settled_def intro: tokens_kept_trans)

lemma goals_evolve_refl: "g_goals w' = g_goals w \<Longrightarrow> goals_evolve env c w w'"
  by (force simp: goals_evolve_def goals_ok_def)

lemma goals_evolve_absorb:
  assumes "goals_evolve env c w w'" "g_goals w'' = g_goals w'"
  shows "goals_evolve env c w w''"
  using assms(1) unfolding goals_evolve_def goals_ok_def assms(2) .

lemma goals_okD:
  assumes "goals_ok env w" "r \<in> set (g_goals w)"
  shows "\<exists>g. agent_goal_record env r = Inr g" "go_continuations r \<le> go_max_continuations r"
proof -
  from assms have "is_ok (agent_goal_record env r)" by (simp add: goals_ok_def)
  then show "\<exists>g. agent_goal_record env r = Inr g" by (cases "agent_goal_record env r") simp_all
qed (use assms in \<open>simp add: goals_ok_def\<close>)

lemma goals_ok_unique: "goals_ok env w \<Longrightarrow> unique_key go_id (g_goals w)"
  by (simp add: goals_ok_def)

lemma get_goal_Inr:
  "get_goal env owner ident w = Inr g \<longleftrightarrow> (\<exists>r. find_goal owner ident w = Some r \<and> agent_goal_record env r = Inr g)"
  by (simp add: get_goal_def split: option.splits)

lemma find_goalD: "find_goal owner ident w = Some r \<Longrightarrow> r \<in> set (g_goals w) \<and> go_id r = ident \<and> go_owner r = owner"
  unfolding find_goal_def by (drule sql_first_SomeD) simp

lemma find_goal_unique:
  "unique_key go_id (g_goals w) \<Longrightarrow> r \<in> set (g_goals w) \<Longrightarrow> find_goal (go_owner r) (go_id r) w = Some r"
  unfolding find_goal_def by (rule sql_first_unique [where k = go_id and key = "go_id r"]) simp_all

lemma get_goal_cong: "g_goals w' = g_goals w \<Longrightarrow> get_goal env owner ident w' = get_goal env owner ident w"
  by (simp add: get_goal_def find_goal_def)

section \<open>One row replaced\<close>

text \<open>
  A fenced update followed by a read of the goal: the fence names the goal, so its row alone changes,
  and the new row was read.
\<close>

lemma goal_row_replaced:
  assumes ok: "goals_ok env w" and get: "get_goal env owner ident w = Inr g"
    and upd: "update_goal_row p f w = Inr (u, w1)" and get': "get_goal env owner ident w1 = Inr g'"
    and p: "\<And>r. p r \<Longrightarrow> go_id r = ident" and f: "\<And>r. go_id (f r) = go_id r \<and> go_owner (f r) = go_owner r"
  obtains r where "r \<in> set (g_goals w)" "go_id r = ident" "go_owner r = owner" "p r" "agent_goal_record env r = Inr g"
    "agent_goal_record env (f r) = Inr g'" "g_goals w1 = sql_update p f (g_goals w)" "one_open (g_goals w1)"
    "\<And>s. s \<in> set (g_goals w1) \<Longrightarrow> s = f r \<or> (s \<in> set (g_goals w) \<and> go_id s \<noteq> ident)"
    "\<And>s. s \<in> set (g_goals w) \<Longrightarrow> s \<noteq> r \<Longrightarrow> s \<in> set (g_goals w1)" "f r \<in> set (g_goals w1)"
proof -
  note u = goals_ok_unique [OF ok]
  from get obtain r where r: "find_goal owner ident w = Some r" "agent_goal_record env r = Inr g" by (auto simp: get_goal_Inr)
  note r1 = find_goalD [OF r(1)]
  from upd have w1: "g_goals w1 = sql_update p f (g_goals w)" and one: "one_open (g_goals w1)" and cnt: "sql_count p (g_goals w) = 1"
    by (auto simp: update_goal_row_def Let_def split: if_splits)
  from cnt obtain s where s: "s \<in> set (g_goals w)" "p s" using sql_count_pos [of p "g_goals w"] by auto
  have "s = r" by (rule unique_keyD [OF u s(1)]) (use r1 p [OF s(2)] in simp_all)
  with s have pr: "p r" by simp
  have only: "q = r" if "q \<in> set (g_goals w)" "p q" for q
    by (rule unique_keyD [OF u that(1)]) (use r1 p [OF that(2)] in simp_all)
  have "go_id (f r) = ident" "go_owner (f r) = owner" using f [of r] r1 by simp_all
  moreover have new: "f r \<in> set (g_goals w1)" using pr r1 by (auto simp: w1 set_sql_update)
  moreover have "unique_key go_id (g_goals w1)" unfolding w1 by (rule unique_key_update [OF u]) (use f in simp)
  ultimately have "find_goal owner ident w1 = Some (f r)" using find_goal_unique [of w1 "f r"] by simp
  with get' have rec: "agent_goal_record env (f r) = Inr g'" by (simp add: get_goal_Inr)
  have cases: "q = f r \<or> (q \<in> set (g_goals w) \<and> go_id q \<noteq> ident)" if "q \<in> set (g_goals w1)" for q
  proof -
    from that obtain a where a: "a \<in> set (g_goals w)" "q = (if p a then f a else a)" unfolding w1 set_sql_update by blast
    show ?thesis
    proof (cases "p a")
      case True
      with a only show ?thesis by simp
    next
      case False
      have "go_id a \<noteq> ident"
      proof
        assume "go_id a = ident"
        then have "a = r" using unique_keyD [OF u a(1)] r1 by auto
        with False pr show False by simp
      qed
      with a False show ?thesis by simp
    qed
  qed
  have others: "q \<in> set (g_goals w1)" if "q \<in> set (g_goals w)" "q \<noteq> r" for q
  proof -
    from that only have "\<not> p q" by blast
    with that(1) show ?thesis unfolding w1 set_sql_update by (metis (mono_tags, lifting) image_eqI)
  qed
  show thesis by (rule that [OF r1 [THEN conjunct1] _ _ pr r(2) rec w1 one cases others new]) (use r1 in simp_all)
qed

text \<open>Such an update is a step of the table when it is a step of the row.\<close>

lemma replaced_evolves:
  assumes get: "get_goal env owner ident w = Inr g"
    and upd: "update_goal_row p f w = Inr (u, w1)" and get': "get_goal env owner ident w1 = Inr g'"
    and p: "\<And>r. p r \<Longrightarrow> go_id r = ident" and f: "\<And>r. go_id (f r) = go_id r \<and> go_owner (f r) = go_owner r"
    and moves: "\<And>r. agent_goal_record env r = Inr g \<Longrightarrow> p r \<Longrightarrow> agent_goal_record env (f r) = Inr g' \<Longrightarrow>
      go_continuations r \<le> go_max_continuations r \<Longrightarrow> row_moves (c ident) r (f r) \<and> go_continuations (f r) \<le> go_max_continuations (f r)"
  shows "goals_evolve env c w w1"
proof (cases "goals_ok env w")
  case ok: True
  obtain r where r: "r \<in> set (g_goals w)" "go_id r = ident" "p r"
      "agent_goal_record env r = Inr g" "agent_goal_record env (f r) = Inr g'" "g_goals w1 = sql_update p f (g_goals w)" "one_open (g_goals w1)"
    and all: "\<And>s. s \<in> set (g_goals w1) \<Longrightarrow> s = f r \<or> (s \<in> set (g_goals w) \<and> go_id s \<noteq> ident)"
    and others: "\<And>s. s \<in> set (g_goals w) \<Longrightarrow> s \<noteq> r \<Longrightarrow> s \<in> set (g_goals w1)" and new: "f r \<in> set (g_goals w1)"
    by (rule goal_row_replaced [OF ok get upd get' p f]) (assumption | rule that)+
  have mv: "row_moves (c ident) r (f r)" "go_continuations (f r) \<le> go_max_continuations (f r)"
    using moves [OF r(4,3,5) goals_okD(2) [OF ok r(1)]] by simp_all
  have "unique_key go_id (g_goals w1)" unfolding r(6) by (rule unique_key_update [OF goals_ok_unique [OF ok]]) (use f in simp)
  moreover have "is_ok (agent_goal_record env s) \<and> go_continuations s \<le> go_max_continuations s" if "s \<in> set (g_goals w1)" for s
    using all [OF that] ok r(5) mv(2) by (auto simp: goals_ok_def)
  ultimately have ok1: "goals_ok env w1" using r(7) by (simp add: goals_ok_def)
  have ex: "\<exists>s'\<in>set (g_goals w1). row_moves (c (go_id s)) s s'" if "s \<in> set (g_goals w)" for s
    using others [OF that] new mv(1) r(2) by (cases "s = r") (auto intro: row_moves_among)
  have ids: "go_id s \<in> go_id ` set (g_goals w)" if "s \<in> set (g_goals w1)" for s
    using all [OF that] f [of r] r(1) by auto
  show ?thesis using ok1 ex ids by (simp add: goals_evolve_def)
qed (simp add: goals_evolve_def)

section \<open>Every writing transaction is a step of the table\<close>

lemma changed_row_simps [simp]:
  "go_id (changed_row g to c a now r) = go_id r" "go_owner (changed_row g to c a now r) = go_owner r"
  "goal_identity (changed_row g to c a now r) = goal_identity r" "go_status (changed_row g to c a now r) = text_of goal_status_texts to"
  "go_version (changed_row g to c a now r) = gl_version g + 1"
  "go_continuations (changed_row g to c a now r) = option_or (gc_continuations c) (gl_continuations g)"
  "go_max_continuations (changed_row g to c a now r) = go_max_continuations r"
  by (simp_all add: changed_row_def goal_identity_def split: prod.splits)

text \<open>A change that leaves the continuations and the token limit alone.\<close>

definition keeps_terms :: "goal_change \<Rightarrow> bool" where
  "keeps_terms c = (gc_continuations c = None \<and> gc_max_tokens c = None \<and> gc_selection c = None \<and> gc_cycle c = None)"

lemma changed_row_tokens:
  assumes "agent_goal_record env r = Inr g" "keeps_terms c"
  shows "tokens_kept r (changed_row g to c a now r)"
  using goal_record_facts [OF assms(1)] assms(2)
  by (intro tokens_kept_same) (simp_all add: keeps_terms_def changed_row_def option_or_def split: prod.splits)

lemma completed_text: "text_of goal_status_texts st = ''completed'' \<longleftrightarrow> st = G_completed"
  by (cases st) simp_all

lemma open_not_settled: "st \<in> set open_statuses \<Longrightarrow> text_of goal_status_texts st \<notin> {''completed'', ''cancelled'', ''failed''}"
  by (auto simp: open_statuses_def)

lemma update_goal_status_success:
  assumes "update_goal_status env owner ident expected wanted to c now w = Inr (g', w')"
  obtains g a where "get_goal env owner ident w = Inr g" "expected = None \<or> expected = Some (gl_version g)" "gl_status g \<in> set wanted"
    "encoded_completion env (option_or (gc_completion c) (gl_completion g)) = Inr a"
    "update_goal_row (\<lambda>r. go_id r = gl_id g \<and> go_owner r = gl_owner g \<and> go_version r = gl_version g
       \<and> go_status r = text_of goal_status_texts (gl_status g)) (changed_row g to c a now) w = Inr ((), w')"
    "get_goal env owner ident w' = Inr g'"
  using assms unfolding update_goal_status_def
  by (auto simp: rbind_Inr_iff split: if_splits option.splits)

lemma update_goal_status_evolves:
  assumes res: "update_goal_status env owner ident expected wanted to c now w = Inr (g', w')"
    and wanted: "set wanted \<subseteq> set open_statuses" and c: "keeps_terms c" and compl: "to \<noteq> G_completed \<or> completing ident"
  shows "goals_evolve env completing w w'"
proof -
  obtain g a where g: "get_goal env owner ident w = Inr g" "gl_status g \<in> set wanted"
    and u: "update_goal_row (\<lambda>r. go_id r = gl_id g \<and> go_owner r = gl_owner g \<and> go_version r = gl_version g
       \<and> go_status r = text_of goal_status_texts (gl_status g)) (changed_row g to c a now) w = Inr ((), w')"
    and g': "get_goal env owner ident w' = Inr g'"
    by (rule update_goal_status_success [OF res], rule that; assumption)
  have ident: "gl_id g = ident"
    using g(1) by (auto simp: get_goal_Inr dest!: find_goalD dest: goal_record_facts(1))
  have st: "text_of goal_status_texts (gl_status g) \<notin> {''completed'', ''cancelled'', ''failed''}"
    using wanted g(2) open_not_settled by blast
  show ?thesis
  proof (rule replaced_evolves [OF g(1) u g'])
    fix r assume rec: "agent_goal_record env r = Inr g" and le: "go_continuations r \<le> go_max_continuations r"
    note fr = goal_record_facts [OF rec]
    have "\<not> is_settled r" using st fr(4) by (auto simp: is_settled_def)
    then show "row_moves (completing ident) r (changed_row g to c a now r) \<and>
        go_continuations (changed_row g to c a now r) \<le> go_max_continuations (changed_row g to c a now r)"
      using compl c le fr changed_row_tokens [OF rec c] by (auto simp: row_moves_def completed_text option_or_def keeps_terms_def)
  qed (simp_all add: ident)
qed

lemma select_budget_evolves:
  assumes res: "select_budget env owner ident t selection now w = Inr (g', w')"
  shows "goals_evolve env completing w w'"
proof -
  from res obtain g where g: "get_goal env owner ident w = Inr g" by (auto simp: select_budget_def rbind_Inr_iff)
  show ?thesis
  proof (cases "gl_selection g = B_pending")
    case True
    with res g obtain allowance where
      u: "update_goal_row (\<lambda>r. go_id r = gl_id g \<and> go_owner r = gl_owner g \<and> go_version r = gl_version g \<and> go_selection r = ''pending'')
          (with_tier selection t allowance now) w = Inr ((), w')" and g': "get_goal env owner ident w' = Inr g'"
      by (auto simp: select_budget_def rbind_Inr_iff split: if_splits)
    have ident: "gl_id g = ident" using g by (auto simp: get_goal_Inr dest!: find_goalD dest: goal_record_facts(1))
    show ?thesis
    proof (rule replaced_evolves [OF g u g'])
      fix r assume rec: "agent_goal_record env r = Inr g" and le: "go_continuations r \<le> go_max_continuations r"
      have pend: "go_selection r = ''pending''" "budget_valid r" using goal_record_facts(13,19) [OF rec] True by simp_all
      then have "tokens_kept r (with_tier selection t allowance now r)"
        by (simp add: tokens_kept_def with_tier_def budget_valid_def selection_texts_def)
      with le show "row_moves (completing ident) r (with_tier selection t allowance now r)
          \<and> go_continuations (with_tier selection t allowance now r) \<le> go_max_continuations (with_tier selection t allowance now r)"
        by (simp add: row_moves_def with_tier_def goal_identity_def)
    qed (auto simp: ident with_tier_def)
  next
    case False
    with res g have "w' = w" by (auto simp: select_budget_def split: if_splits)
    then show ?thesis by (simp add: goals_evolve_refl)
  qed
qed


lemma one_open_insert: "one_open (rows @ [r]) \<longleftrightarrow> one_open rows \<and> (is_open r \<longrightarrow> go_session r \<notin> go_session ` set (filter is_open rows))"
  by (auto simp: one_open_def)

lemma new_row_simps [simp]:
  "go_id (goal_row_of env i o' now) = ng_id i" "go_status (goal_row_of env i o' now) = ''active''"
  "go_continuations (goal_row_of env i o' now) = 0" "go_max_continuations (goal_row_of env i o' now) = lim_continuations (ng_limits i)"
  by (simp_all add: goal_row_of_def)

lemma insert_goal_evolves:
  assumes res: "insert_goal env nfkc i now w = Inr (g', w')"
  shows "goals_evolve env completing w w'"
proof (cases "find_goal (ng_owner i) (ng_id i) w")
  case None
  let ?r = "goal_row_of env i (objective_text nfkc (ng_objective i)) now"
  from res None have new: "go_id ?r \<notin> go_id ` set (g_goals w)" "one_open (g_goals w @ [?r])" "agent_goal_record env ?r = Inr g'"
    and w': "g_goals w' = g_goals w @ [?r]"
    by (auto simp: insert_goal_def Let_def rbind_Inr_iff insert_goal_row_def sql_insert_def split: if_splits)
  from goal_record_facts(18) [OF new(3)] have "0 \<le> lim_continuations (ng_limits i)" by (simp add: counters_valid_def)
  then have "goals_ok env w'" if "goals_ok env w" using new w' that by (auto simp: goals_ok_def unique_key_def)
  moreover have "\<exists>s\<in>set (g_goals w'). row_moves (completing (go_id r)) r s" if "r \<in> set (g_goals w)" for r
    by (rule row_moves_among) (use w' that in simp)
  moreover have "go_id s \<in> go_id ` set (g_goals w) \<or> go_status s = ''active''" if "s \<in> set (g_goals w')" for s
    using w' that by auto
  ultimately show ?thesis unfolding goals_evolve_def by blast
next
  case (Some r)
  with res have "w' = w" by (auto simp: insert_goal_def Let_def rbind_Inr_iff split: if_splits)
  then show ?thesis by (simp add: goals_evolve_refl)
qed

lemma on_runs_goals: "on_runs t w = Inr (a, w') \<Longrightarrow> g_goals w' = g_goals w"
  by (auto simp: on_runs_def rbind_Inr_iff)

lemma goals_of_coord [simp]: "g_goals (w\<lparr>w_coord := c\<rparr>) = g_goals w"
  by simp

lemma get_goal_ident: "get_goal env owner ident w = Inr g \<Longrightarrow> gl_id g = ident \<and> gl_owner g = owner"
  by (auto simp: get_goal_Inr dest!: find_goalD dest: goal_record_facts(1,3))

lemma continued_row_simps [simp]:
  "go_id (continued_row g usage now r) = go_id r" "go_owner (continued_row g usage now r) = go_owner r"
  "goal_identity (continued_row g usage now r) = goal_identity r" "go_status (continued_row g usage now r) = ''active''"
  "go_version (continued_row g usage now r) = gl_version g + 1" "go_continuations (continued_row g usage now r) = gl_continuations g + 1"
  "go_max_continuations (continued_row g usage now r) = go_max_continuations r"
  "tokens_kept r (continued_row g usage now r)"
  by (simp_all add: continued_row_def goal_identity_def tokens_kept_def)

lemma renewed_row_simps [simp]:
  "go_id (renewed_row g used m now r) = go_id r" "go_owner (renewed_row g used m now r) = go_owner r"
  "goal_identity (renewed_row g used m now r) = goal_identity r" "go_status (renewed_row g used m now r) = ''active''"
  "go_version (renewed_row g used m now r) = gl_version g + 1" "go_continuations (renewed_row g used m now r) = gl_continuations g + 1"
  "go_max_continuations (renewed_row g used m now r) = go_max_continuations r"
  by (simp_all add: renewed_row_def goal_identity_def)

lemma renewed_row_tokens: "agent_goal_record env r = Inr g \<Longrightarrow> tokens_kept r (renewed_row g used m now r)"
  by (frule goal_record_facts(15)) (simp add: tokens_kept_def renewed_row_def)

lemma blocked_row_simps [simp]:
  "go_id (blocked_row g usage reason code message now r) = go_id r" "go_owner (blocked_row g usage reason code message now r) = go_owner r"
  "goal_identity (blocked_row g usage reason code message now r) = goal_identity r"
  "go_status (blocked_row g usage reason code message now r) = ''blocked''"
  "go_version (blocked_row g usage reason code message now r) = gl_version g + 1"
  "go_continuations (blocked_row g usage reason code message now r) = go_continuations r"
  "go_max_continuations (blocked_row g usage reason code message now r) = go_max_continuations r"
  "tokens_kept r (blocked_row g usage reason code message now r)"
  by (simp_all add: blocked_row_def goal_identity_def tokens_kept_def)

text \<open>A fenced write of a goal that is not settled, raising its version.\<close>

lemma still_read_evolves:
  assumes get: "get_goal env owner ident w = Inr g" and upd: "update_goal_row (still_read g) f w = Inr (u, w1)"
    and get': "get_goal env owner ident w1 = Inr g'"
    and open_status: "gl_status g \<notin> {G_completed, G_cancelled, G_failed}"
    and f: "\<And>r. go_id (f r) = go_id r \<and> go_owner (f r) = go_owner r \<and> goal_identity (f r) = goal_identity r
      \<and> go_version (f r) = gl_version g + 1 \<and> go_status (f r) \<noteq> ''completed'' \<and> go_max_continuations (f r) = go_max_continuations r"
    and tokens: "\<And>r. agent_goal_record env r = Inr g \<Longrightarrow> tokens_kept r (f r)"
    and conts: "\<And>r. go_continuations r = gl_continuations g \<Longrightarrow> go_max_continuations r = gl_max_continuations g \<Longrightarrow>
      go_continuations r \<le> go_max_continuations r \<Longrightarrow> gl_continuations g \<le> go_continuations (f r) \<and> go_continuations (f r) \<le> gl_max_continuations g"
  shows "goals_evolve env completing w w1"
proof (rule replaced_evolves [OF get upd get'])
  fix r assume "still_read g r"
  then show "go_id r = ident" using get_goal_ident [OF get] by (simp add: still_read_def)
next
  fix r assume rec: "agent_goal_record env r = Inr g" and le: "go_continuations r \<le> go_max_continuations r"
  note fr = goal_record_facts [OF rec]
  have "\<not> is_settled r" using open_status fr(4) by (cases "gl_status g") (auto simp: is_settled_def)
  then show "row_moves (completing ident) r (f r) \<and> go_continuations (f r) \<le> go_max_continuations (f r)"
    using f [of r] conts [of r] tokens [OF rec] le fr by (simp add: row_moves_def)
qed (use f in simp)

lemma next_run_success:
  assumes "next_run env host g i version usage now w = Inr ((g', run, again), w2)"
  obtains a w1 r where "\<not> has_active_run (gl_id g) (w_coord w)" "h_admission host g (w_coord w) = Inr a"
    "update_goal_row (still_read g) (continued_row g usage now) w = Inr ((), w1)"
    "on_runs (admit_run env (h_media host) (goal_admission g (cn_run i) (cn_request i) version (gl_max_tokens g - fst usage) a) now) w1
       = Inr ((r, again), w2)"
    "get_goal env (gl_owner g) (gl_id g) w2 = Inr g'" "run = Some r"
  using assms unfolding next_run_def by (auto simp: rbind_Inr_iff split: if_splits)

lemma next_run_evolves:
  assumes res: "next_run env host g i version usage now w = Inr ((g', run, again), w2)"
    and get: "get_goal env (gl_owner g) (gl_id g) w = Inr g" and st: "gl_status g \<in> set open_statuses"
    and lim: "gl_continuations g < gl_max_continuations g"
  shows "goals_evolve env completing w w2"
proof -
  obtain a w1 r where upd: "update_goal_row (still_read g) (continued_row g usage now) w = Inr ((), w1)"
    and adm: "on_runs (admit_run env (h_media host) (goal_admission g (cn_run i) (cn_request i) version (gl_max_tokens g - fst usage) a) now) w1
       = Inr ((r, again), w2)"
    and get2: "get_goal env (gl_owner g) (gl_id g) w2 = Inr g'"
    by (rule next_run_success [OF res], rule that; assumption)
  note same = on_runs_goals [OF adm]
  have get1: "get_goal env (gl_owner g) (gl_id g) w1 = Inr g'" using get2 get_goal_cong [OF same] by simp
  have "goals_evolve env completing w w1"
    by (rule still_read_evolves [OF get upd get1]) (use st lim in \<open>auto simp: open_statuses_def\<close>)
  then show ?thesis by (rule goals_evolve_absorb [OF _ same])
qed

lemma settled_goal_Inr: "settled_goal t w = Inr (x, w') \<longleftrightarrow> (\<exists>g. t w = Inr (g, w') \<and> x = (g, None, False))"
  by (auto simp: settled_goal_def rbind_Inr_iff)

lemma block_goal_evolves:
  assumes res: "block_goal env g c now w = Inr (x, w')" and "gl_status g \<in> set open_statuses" "keeps_terms c"
  shows "goals_evolve env completing w w'"
  using res unfolding block_goal_def settled_goal_Inr
  by (elim exE conjE, intro update_goal_status_evolves) (use assms(2,3) in auto)

lemma changes_keep_terms [simp]:
  "keeps_terms no_change" "keeps_terms (accounting_change g)" "keeps_terms (limit_change v g u now b m)"
  "keeps_terms (configuration_change u m)" "keeps_terms (counted v u)" "keeps_terms (blocked_change v u b)"
  by (simp_all add: keeps_terms_def no_change_def accounting_change_def limit_change_def configuration_change_def counted_def blocked_change_def)

lemma continue_tx_evolves:
  assumes res: "continue_tx env host g0 i now w = Inr (x, w')"
  shows "goals_evolve env completing w w'"
proof (cases "if cn_automatic i then None else sql_first (\<lambda>r. rn_id r = cn_run i \<and> rn_owner r = gl_owner g0 \<and> rn_goal r = Some (gl_id g0))
              (c_runs (w_coord w))")
  case (Some r)
  with res have "replayed_run env host g0 i r w = Inr (x, w')" by (simp add: continue_tx_def)
  then have "w' = w" by (auto simp: replayed_run_def rbind_Inr_iff split: if_splits)
  then show ?thesis by (simp add: goals_evolve_refl)
next
  case None
  from res None obtain g version where get0: "get_goal env (gl_owner g0) (gl_id g0) w = Inr g"
    and st: "gl_status g \<in> (if cn_automatic i then {G_active} else {G_paused, G_blocked})"
    and rest: "(case goal_usage env host None (gl_id g) w of
            Inl e \<Rightarrow> if accounting_failed e then block_goal env g (accounting_change g) now w else Inl e
          | Inr usage \<Rightarrow>
              let fence = token_fence (latest_run g (w_coord w)) in
              if is_limited g usage now fence
              then settled_goal (update_goal_status env (gl_owner g) (gl_id g) (Some (gl_version g)) [gl_status g] G_budget_limited
                     (limit_change (gl_completion g) g usage now fence ''Goal continuation budget was exhausted'') now) w
              else (case first_run g (w_coord w) of
                None \<Rightarrow> Inl goal_corrupt
              | Some r0 \<Rightarrow> rbind (h_binding host g r0 (w_coord w)) (\<lambda>state. case state of
                    Configuration_changed \<Rightarrow> block_goal env g (configuration_change usage
                      ''Provider configuration changed; start a new goal to use the new configuration'') now w
                  | Skills_changed \<Rightarrow> block_goal env g (configuration_change usage
                      ''Selected skills changed; start a new goal to use the new configuration'') now w
                  | Usable \<Rightarrow> next_run env host g i version usage now w))) = Inr (x, w')"
    unfolding continue_tx_def None by (auto simp: rbind_Inr_iff split: if_splits)
  have opn: "gl_status g \<in> set open_statuses" using st by (auto simp: open_statuses_def split: if_splits)
  have get: "get_goal env (gl_owner g) (gl_id g) w = Inr g" using get0 get_goal_ident [OF get0] by simp
  note blocked = block_goal_evolves [OF _ opn]
  show ?thesis
  proof (cases "goal_usage env host None (gl_id g) w")
    case (Inl e)
    with rest show ?thesis by (auto split: if_splits intro: blocked)
  next
    case (Inr usage)
    let ?fence = "token_fence (latest_run g (w_coord w))"
    show ?thesis
    proof (cases "is_limited g usage now ?fence")
      case True
      with rest Inr show ?thesis
        by (auto simp: Let_def settled_goal_Inr intro!: update_goal_status_evolves opn)
    next
      case False
      with rest Inr obtain r0 state where "first_run g (w_coord w) = Some r0" "h_binding host g r0 (w_coord w) = Inr state"
        and last: "(case state of
                    Configuration_changed \<Rightarrow> block_goal env g (configuration_change usage
                      ''Provider configuration changed; start a new goal to use the new configuration'') now w
                  | Skills_changed \<Rightarrow> block_goal env g (configuration_change usage
                      ''Selected skills changed; start a new goal to use the new configuration'') now w
                  | Usable \<Rightarrow> next_run env host g i version usage now w) = Inr (x, w')"
        by (auto simp: Let_def rbind_Inr_iff split: option.splits)
      have "gl_continuations g < gl_max_continuations g" using False by (simp add: is_limited_def)
      with last show ?thesis
        by (cases state; cases x) (auto intro: blocked next_run_evolves [OF _ get opn])
    qed
  qed
qed


lemma block_row_evolves:
  assumes res: "block_row env g (blocked_row g usage reason code message now) w = Inr (x, w')"
    and get: "get_goal env (gl_owner g) (gl_id g) w = Inr g" and st: "gl_status g \<notin> {G_completed, G_cancelled, G_failed}"
  shows "goals_evolve env completing w w'"
proof -
  from res obtain g' where "update_goal_row (still_read g) (blocked_row g usage reason code message now) w = Inr ((), w')"
    and "get_goal env (gl_owner g) (gl_id g) w' = Inr g'"
    by (auto simp: block_row_def rbind_Inr_iff)
  from still_read_evolves [OF get this st] show ?thesis by simp
qed

lemma renew_run_success:
  assumes "renew_run env host i g version used allowance now w = Inr (x, w3)"
  obtains a max_tokens w1 r w2 g' e where "h_admission host g (w_coord w) = Inr a" "usage_sum used allowance = Inr max_tokens"
    "update_goal_row (still_read g) (renewed_row g used max_tokens now) w = Inr ((), w1)"
    "on_runs (admit_run env (h_media host) (goal_admission g (rw_run i) (rw_request i) version allowance a) now) w1 = Inr ((r, False), w2)"
    "get_goal env (gl_owner g) (gl_id g) w2 = Inr g'"
    "on_runs (append_event env (rn_id r) (gl_owner g) None ''run.resumed'' (rn_attempts r) (renewal_receipt i g' used allowance) now) w2 = Inr (e, w3)"
    "x = (g', Some r, False)"
  using assms unfolding renew_run_def by (auto simp: rbind_Inr_iff split: if_splits)

lemma renew_run_evolves:
  assumes res: "renew_run env host i g version used allowance now w = Inr (x, w3)"
    and get: "get_goal env (gl_owner g) (gl_id g) w = Inr g" and st: "gl_status g \<notin> {G_completed, G_cancelled, G_failed}"
    and lim: "gl_continuations g < gl_max_continuations g"
  shows "goals_evolve env completing w w3"
proof -
  obtain a m w1 r w2 g' e where upd: "update_goal_row (still_read g) (renewed_row g used m now) w = Inr ((), w1)"
    and adm: "on_runs (admit_run env (h_media host) (goal_admission g (rw_run i) (rw_request i) version allowance a) now) w1 = Inr ((r, False), w2)"
    and get2: "get_goal env (gl_owner g) (gl_id g) w2 = Inr g'"
    and ev: "on_runs (append_event env (rn_id r) (gl_owner g) None ''run.resumed'' (rn_attempts r) (renewal_receipt i g' used allowance) now) w2 = Inr (e, w3)"
    by (rule renew_run_success [OF res], rule that; assumption)
  note same = on_runs_goals [OF adm]
  have get1: "get_goal env (gl_owner g) (gl_id g) w1 = Inr g'" using get2 get_goal_cong [OF same] by simp
  have "goals_evolve env completing w w1"
    by (rule still_read_evolves [OF get upd get1 st]) (use lim renewed_row_tokens in auto)
  from goals_evolve_absorb [OF goals_evolve_absorb [OF this same] on_runs_goals [OF ev]] show ?thesis .
qed

lemma renewable_status: "gl_can_renew g \<Longrightarrow> agent_goal_record env r = Inr g \<Longrightarrow> gl_status g = G_budget_limited"
  by (drule goal_record_facts(20)) (simp add: can_renew_def)

lemma get_goal_renewable:
  assumes "get_goal env owner ident w = Inr g" "gl_can_renew g"
  shows "gl_status g = G_budget_limited"
  using assms by (auto simp: get_goal_Inr intro: renewable_status)

lemma renew_checked_evolves:
  assumes res: "renew_checked env host i g allowance version usage now w = Inr (x, w')"
    and get: "get_goal env (gl_owner g) (gl_id g) w = Inr g" and st: "gl_status g \<notin> {G_completed, G_cancelled, G_failed}"
  shows "goals_evolve env completing w w'"
proof -
  from res obtain r0 state where lim: "gl_continuations g < gl_max_continuations g"
    and last: "(case state of
            Configuration_changed \<Rightarrow> block_row env g (blocked_row g usage L_authority ''GOAL_CONFIGURATION_CHANGED''
              ''Provider configuration changed; start a new goal to use the new configuration'' now) w
          | Skills_changed \<Rightarrow> block_row env g (blocked_row g usage L_authority ''GOAL_CONFIGURATION_CHANGED''
              ''Selected skills changed; start a new goal to use the new configuration'' now) w
          | Usable \<Rightarrow> renew_run env host i g version (fst usage) allowance now w) = Inr (x, w')"
    unfolding renew_checked_def by (auto simp: rbind_Inr_iff split: if_splits option.splits)
  show ?thesis
    using last by (cases state) (auto intro: block_row_evolves [OF _ get st] renew_run_evolves [OF _ get st lim])
qed

lemma renew_tx_evolves:
  assumes res: "renew_tx env host i now w = Inr (x, w')"
  shows "goals_evolve env completing w w'"
proof (cases "sql_first (\<lambda>r. rn_id r = rw_run i \<and> rn_owner r = rw_owner i) (c_runs (w_coord w))")
  case (Some r)
  with res have "replayed_renewal env host i r w = Inr (x, w')" by (simp add: renew_tx_def)
  then have "w' = w" by (auto simp: replayed_renewal_def rbind_Inr_iff split: if_splits)
  then show ?thesis by (simp add: goals_evolve_refl)
next
  case None
  from res None obtain g version where get0: "get_goal env (rw_owner i) (rw_goal i) w = Inr g" and can: "gl_can_renew g"
    and rest: "(case goal_usage env host None (gl_id g) w of
          Inl e \<Rightarrow> if accounting_failed e then block_row env g (blocked_row g (gl_tokens g, gl_calls g) L_accounting
              ''GOAL_ACCOUNTING_UNAVAILABLE'' ''Goal accounting must be reconciled before token budget renewal.'' now) w else Inl e
        | Inr usage \<Rightarrow> (case gl_allowance g of None \<Rightarrow> Inl renewal_unavailable
            | Some allowance \<Rightarrow> renew_checked env host i g allowance version usage now w)) = Inr (x, w')"
    unfolding renew_tx_def by (auto simp: rbind_Inr_iff split: if_splits)
  have st: "gl_status g \<notin> {G_completed, G_cancelled, G_failed}" using get_goal_renewable [OF get0 can] by simp
  have get: "get_goal env (gl_owner g) (gl_id g) w = Inr g" using get0 get_goal_ident [OF get0] by simp
  show ?thesis
    using rest by (auto split: sum.splits if_splits option.splits intro: block_row_evolves [OF _ get st] renew_checked_evolves [OF _ get st])
qed

lemma cancel_goal_of_run_evolves:
  assumes res: "cancel_goal_of_run env owner run now w = Inr (x, w')"
  shows "goals_evolve env completing w w'"
proof -
  obtain r ident where "w' = w \<or> cancel_with_run env owner now r ident w = Inr (x, w')"
    using res unfolding cancel_goal_of_run_def by (auto simp: rbind_Inr_iff split: option.splits if_splits)
  then have "w' = w \<or> (\<exists>(g :: goal) g2. gl_status g \<in> set open_statuses
      \<and> update_goal_status env owner (gl_id g) (Some (gl_version g)) [gl_status g] G_cancelled no_change now w = Inr (g2, w'))"
    by (auto simp: cancel_with_run_def rbind_Inr_iff split: if_splits)
  then show ?thesis
  proof (elim disjE exE conjE)
    fix g :: goal and g2 assume st: "gl_status g \<in> set open_statuses"
      and u: "update_goal_status env owner (gl_id g) (Some (gl_version g)) [gl_status g] G_cancelled no_change now w = Inr (g2, w')"
    show ?thesis by (rule update_goal_status_evolves [OF u]) (use st in simp_all)
  qed (simp add: goals_evolve_refl)
qed

section \<open>Handlers\<close>

text \<open>
  The contract of the handlers with the table of goals: a relation between states that does not
  look past the goals. A handler keeps it when every state it can leave is related to the one it found.
\<close>

locale goal_contract =
  fixes rel :: "goal_world \<Rightarrow> goal_world \<Rightarrow> bool"
  assumes untouched: "g_goals w' = g_goals w \<Longrightarrow> rel w w'"
    and absorb: "rel w w' \<Longrightarrow> g_goals w'' = g_goals w' \<Longrightarrow> rel w w''"
begin

definition keeps :: "'a handler \<Rightarrow> bool" where
  "keeps h = (\<forall>w. rel w (snd (h w)))"

definition silent :: "'a handler \<Rightarrow> bool" where
  "silent h = (\<forall>w. g_goals (snd (h w)) = g_goals w)"

lemma silent_keeps: "silent h \<Longrightarrow> keeps h"
  by (simp add: silent_def keeps_def untouched)

lemma keeps_attempt: "(\<And>w a w'. t w = Inr (a, w') \<Longrightarrow> rel w w') \<Longrightarrow> keeps (attempt t)"
  by (auto simp: keeps_def attempt_def untouched split: sum.splits)

lemma keeps_then: "keeps h \<Longrightarrow> (\<And>a. silent (k a)) \<Longrightarrow> keeps (and_then h k)"
  unfolding keeps_def silent_def and_then_def by (auto split: prod.splits sum.splits intro: absorb)

lemma silent_then:
  assumes "silent h" "\<And>a. silent (k a)"
  shows "silent (and_then h k)"
  unfolding silent_def
proof
  fix w
  obtain x w1 where h: "h w = (x, w1)" by (cases "h w")
  with assms(1) have "g_goals w1 = g_goals w" by (auto simp: silent_def dest: spec [of _ w])
  with h assms(2) show "g_goals (snd (and_then h k w)) = g_goals w"
    by (cases x) (simp_all add: and_then_def silent_def)
qed

text \<open>A read, and what follows from the same state.\<close>

lemma keeps_look: "(\<And>a w. f w = Inr a \<Longrightarrow> rel w (snd (k a w))) \<Longrightarrow> keeps (and_then (look f) k)"
  by (auto simp: keeps_def and_then_def look_def untouched split: sum.splits)

lemma silent_give [simp]: "silent (give a)"
  by (simp add: silent_def give_def)

lemma silent_look [simp]: "silent (look f)"
  by (simp add: silent_def look_def)

lemma silent_runs [simp]: "silent (attempt (on_runs t))"
  by (auto simp: silent_def attempt_def split: sum.splits dest: on_runs_goals)

lemma silent_emit [simp]: "silent (emit_goal_event env g r kind now)"
  unfolding silent_def emit_goal_event_def attempt_def by (auto simp: rbind_Inr_iff split: sum.splits dest: on_runs_goals)

lemma silent_latest [simp]: "silent (emit_latest env g now)"
  by (simp add: silent_def emit_latest_def silent_emit [unfolded silent_def] silent_give [unfolded silent_def] split: option.splits)

lemma silent_stop [simp]: "silent (stop_run env host g r now)"
  by (simp add: stop_run_def silent_then)

lemma silent_choice: "silent h \<Longrightarrow> (\<And>r. silent (k r)) \<Longrightarrow> silent (\<lambda>w. case f w of None \<Rightarrow> h w | Some r \<Rightarrow> k r w)"
  by (simp add: silent_def split: option.splits)

end

end
