(* ===== verification/GoalProperties.thy ===== *)
theory GoalProperties
  imports GoalLaws
begin

text \<open>
  What holds of durable goals whatever operations run and however many of them fail, and what the
  assessment of a run says.
\<close>

section \<open>Operations\<close>

datatype goal_op =
    Goal_insert new_goal int
  | Goal_select int string token_tier budget_selection int
  | Goal_pause int string "int option" int
  | Goal_cancel int string "int option" int
  | Goal_cancel_run int string int
  | Goal_resume int string continue_input int
  | Goal_renew renew_input int
  | Goal_advance continue_input int

definition done_with :: "'a handler \<Rightarrow> unit handler" where
  "done_with h = and_then h (\<lambda>_. give ())"

fun goal_handler :: "run_env \<Rightarrow> (string \<Rightarrow> string) \<Rightarrow> goal_host \<Rightarrow> goal_op \<Rightarrow> unit handler" where
  "goal_handler env nfkc host (Goal_insert i now) = done_with (attempt (insert_goal env nfkc i now))"
| "goal_handler env nfkc host (Goal_select owner ident t b now) = done_with (attempt (select_budget env owner ident t b now))"
| "goal_handler env nfkc host (Goal_pause owner ident expected now) = done_with (pause_goal env host owner ident expected now)"
| "goal_handler env nfkc host (Goal_cancel owner ident expected now) = done_with (cancel_goal env host owner ident expected now)"
| "goal_handler env nfkc host (Goal_cancel_run owner run now) = done_with (cancel_run env host owner run now)"
| "goal_handler env nfkc host (Goal_resume owner ident i now) = done_with (resume_goal env host owner ident i now)"
| "goal_handler env nfkc host (Goal_renew i now) = done_with (renew_goal env host i now)"
| "goal_handler env nfkc host (Goal_advance i now) = advance_goal env host i now"

text \<open>The state an operation leaves, whether it returned or failed.\<close>

definition goal_exec :: "run_env \<Rightarrow> (string \<Rightarrow> string) \<Rightarrow> goal_host \<Rightarrow> goal_op \<Rightarrow> (goal_world, unit) tx" where
  "goal_exec env nfkc host op w = Inr ((), snd (goal_handler env nfkc host op w))"

section \<open>The handlers keep the contract\<close>

interpretation goals: goal_contract "goals_evolve env completing" for env completing
  by unfold_locales (simp_all add: goals_evolve_refl goals_evolve_absorb)

lemma keeps_done: "goals.keeps env c h \<Longrightarrow> goals.keeps env c (done_with h)"
  unfolding done_with_def by (rule goals.keeps_then) simp_all

lemma keeps_pause: "goals.keeps env c (pause_goal env host owner ident expected now)"
  unfolding pause_goal_def
  by (rule goals.keeps_then [OF goals.keeps_attempt], rule update_goal_status_evolves, assumption)
    (auto simp: open_statuses_def intro!: goals.silent_choice goals.silent_then)

lemma keeps_cancel: "goals.keeps env c (cancel_goal env host owner ident expected now)"
  unfolding cancel_goal_def
  by (rule goals.keeps_then [OF goals.keeps_attempt], rule update_goal_status_evolves, assumption)
    (auto simp: open_statuses_def intro!: goals.silent_choice)

lemma keeps_cancel_run: "goals.keeps env c (cancel_run env host owner run now)"
  unfolding cancel_run_def
  by (rule goals.keeps_then [OF goals.keeps_attempt], rule cancel_goal_of_run_evolves, assumption) simp

lemma keeps_continue: "goals.keeps env c (continue_goal env host g i now)"
proof (cases "h_enabled host")
  case True
  then have enabled: "\<not> \<not> h_enabled host" by simp
  show ?thesis
    unfolding continue_goal_def if_not_P [OF enabled]
  proof (rule goals.keeps_then [OF goals.keeps_attempt])
    show "goals_evolve env c w w'" if "continue_tx env host g i now w = Inr (x, w')" for w x w'
      using that by (rule continue_tx_evolves)
  qed (auto intro!: goals.silent_then split: option.split)
qed (simp add: continue_goal_def goals.keeps_def goals_evolve_refl)

lemma keeps_resume: "goals.keeps env c (resume_goal env host owner ident i now)"
  unfolding resume_goal_def
  by (rule goals.keeps_look) (use keeps_continue in \<open>simp add: goals.keeps_def\<close>)

lemma keeps_renew: "goals.keeps env c (renew_goal env host i now)"
proof -
  have k: "goals.keeps env c (and_then (attempt (renew_tx env host i now)) (\<lambda>(g, run, replayed).
        if replayed then give (g, run, replayed)
        else and_then (case run of None \<Rightarrow> emit_latest env g now | Some r \<Rightarrow> emit_goal_event env g r ''goal.status'' now)
          (\<lambda>_. give (g, run, replayed))))"
  proof (rule goals.keeps_then [OF goals.keeps_attempt])
    show "goals_evolve env c w w'" if "renew_tx env host i now w = Inr (x, w')" for w x w'
      using that by (rule renew_tx_evolves)
  qed (auto intro!: goals.silent_then split: option.split)
  then show ?thesis unfolding renew_goal_def goals.keeps_def by (simp add: goals_evolve_refl)
qed

section \<open>The worker's step\<close>

text \<open>
  What has to be there for a goal to be completed: none of its runs is active, and the one of its
  owner with the highest continuation succeeded with a stored assessment that says complete.
\<close>

definition completed_by_run :: "goal_world \<Rightarrow> string \<Rightarrow> bool" where
  "completed_by_run w ident = (\<not> has_active_run ident (w_coord w) \<and> (\<exists>r\<in>set (runs_of_goal ident (w_coord w)).
     rn_status r = R_succeeded \<and> rn_outcome r = Some ''complete'' \<and> rn_assessment r \<noteq> None
     \<and> (\<forall>q\<in>set (runs_of_goal ident (w_coord w)). rn_owner q = rn_owner r \<longrightarrow>
          option_or (rn_continuation q) 0 \<le> option_or (rn_continuation r) 0)))"

lemma latest_ofD:
  assumes "latest_of runs = Some r"
  shows "r \<in> set runs \<and> (\<forall>q\<in>set runs. option_or (rn_continuation q) 0 \<le> option_or (rn_continuation r) 0)"
proof -
  let ?k = "\<lambda>r. - option_or (rn_continuation r) 0"
  from assms obtain rs where s: "sort_key ?k runs = r # rs" by (auto simp: latest_of_def split: list.splits)
  have "sorted (map ?k (r # rs))" unfolding s [symmetric] by (rule sorted_sort_key)
  then have "\<forall>q\<in>set (r # rs). option_or (rn_continuation q) 0 \<le> option_or (rn_continuation r) 0" by auto
  moreover have "set (r # rs) = set runs" unfolding s [symmetric] by simp
  ultimately show ?thesis by auto
qed

lemma decoded_outcome:
  assumes "decode_assessment env e outcome h = Inr (Some v)" "js_get ''outcome'' v = JStr t"
  shows "outcome = Some t \<and> e \<noteq> None"
  using assms by (auto simp: decode_assessment_def Let_def split: option.splits if_splits js_value.splits)

lemma keeps_settle:
  assumes "keeps_terms c" "st \<noteq> G_completed \<or> completing (gl_id g)"
  shows "goals.keeps env completing (settle_goal env g r st c now)"
  unfolding settle_goal_def
  by (rule goals.keeps_then [OF goals.keeps_attempt], rule update_goal_status_evolves, assumption)
    (use assms in \<open>auto simp: open_statuses_def\<close>)

lemma keeps_block:
  assumes "gl_status g = G_active"
  shows "goals.keeps env completing (block_for_accounting env g now)"
  unfolding block_for_accounting_def
  by (simp add: assms, rule goals.keeps_then [OF goals.keeps_attempt], rule update_goal_status_evolves, assumption)
    (auto simp: open_statuses_def intro!: goals.silent_then)

lemma keeps_verdict:
  assumes "\<And>v. verdict = V_completed v \<Longrightarrow> completing (gl_id g)"
  shows "goals.keeps env completing (apply_verdict env host i g r usage verdict now)"
proof (cases verdict)
  case V_continue
  then show ?thesis unfolding apply_verdict_def
    by simp (rule goals.keeps_then [OF keeps_continue], simp)
qed (use assms in \<open>simp_all add: apply_verdict_def keeps_settle\<close>)

lemma candidate_active: "r \<in> set (goal_candidates w) \<Longrightarrow> r \<in> set (g_goals w) \<and> go_status r = ''active''"
  unfolding goal_candidates_def by (drule in_set_takeD) simp

lemma active_text: "text_of goal_status_texts st = ''active'' \<longleftrightarrow> st = G_active"
  by (cases st) simp_all

lemma candidate_read:
  assumes ok: "goals_ok env w" and r: "r \<in> set (g_goals w)" "go_status r = ''active''"
    and get: "get_goal env (go_owner r) (go_id r) w = Inr g"
  shows "gl_status g = G_active" "gl_id g = go_id r" "gl_owner g = go_owner r"
proof -
  from get have "agent_goal_record env r = Inr g" using find_goal_unique [OF goals_ok_unique [OF ok] r(1)] by (auto simp: get_goal_Inr)
  note f = goal_record_facts [OF this]
  show "gl_status g = G_active" using f(4) r(2) active_text by metis
  show "gl_id g = go_id r" "gl_owner g = go_owner r" using f by simp_all
qed

lemma verdict_completed:
  assumes "goal_verdict r v = V_completed u"
  shows "rn_status r = R_succeeded \<and> outcome_is ''complete'' v"
  using assms by (simp add: goal_verdict_def split: if_splits)

lemma advance_candidate_evolves:
  assumes row: "row \<in> set (g_goals w)" "go_status row = ''active''" and idle: "\<not> has_active_run (go_id row) (w_coord w)"
  shows "goals_evolve env (completed_by_run w) w (snd (advance_candidate env host i now row w))"
proof (cases "goals_ok env w")
  case ok: True
  show ?thesis
  proof (cases "get_goal env (go_owner row) (go_id row) w")
    case (Inl e)
    then show ?thesis by (simp add: advance_candidate_def and_then_def look_def goals_evolve_refl)
  next
    case (Inr g)
    note g = candidate_read [OF ok row Inr]
    have step: "advance_candidate env host i now row w = (case latest_run g (w_coord w) of None \<Rightarrow> (Inl goal_corrupt, w)
     | Some r \<Rightarrow> (case goal_usage env host None (gl_id g) w of
           Inl e \<Rightarrow> if accounting_failed e then and_then (block_for_accounting env g now) (\<lambda>_. give ()) w else (Inl e, w)
         | Inr usage \<Rightarrow> (case decode_assessment env (rn_assessment r) (rn_outcome r) (rn_assessment_sha r) of
               Inl e \<Rightarrow> (Inl e, w)
             | Inr completion \<Rightarrow> apply_verdict env host i g r usage (goal_verdict r completion) now w)))"
      using Inr by (simp add: advance_candidate_def and_then_def look_def)
    show ?thesis
    proof (cases "latest_run g (w_coord w)")
      case None
      then show ?thesis by (simp add: step goals_evolve_refl)
    next
      case (Some r)
      have blocked: "goals.keeps env (completed_by_run w) (and_then (block_for_accounting env g now) (\<lambda>_. give ()))"
        by (rule goals.keeps_then [OF keeps_block [OF g(1)]]) simp
      have verdict: "goals.keeps env (completed_by_run w) (apply_verdict env host i g r usage (goal_verdict r v) now)"
        if dec: "decode_assessment env (rn_assessment r) (rn_outcome r) (rn_assessment_sha r) = Inr v" for usage v
      proof (rule keeps_verdict)
        fix u assume "goal_verdict r v = V_completed u"
        from verdict_completed [OF this] obtain v' where s: "rn_status r = R_succeeded" "v = Some v'" "js_get ''outcome'' v' = JStr ''complete''"
          by (auto simp: outcome_is_def split: option.splits)
        from dec s have "rn_outcome r = Some ''complete''" "rn_assessment r \<noteq> None" using decoded_outcome by blast+
        with s(1) latest_ofD [OF Some [unfolded latest_run_def]] idle g show "completed_by_run w (gl_id g)"
          by (auto simp: completed_by_run_def intro!: bexI [of _ r])
      qed
      show ?thesis
        using Some blocked verdict unfolding step goals.keeps_def
        by (auto split: sum.split simp: goals_evolve_refl)
    qed
  qed
qed (simp add: goals_evolve_def)

lemma advance_evolves: "goals_evolve env (completed_by_run w) w (snd (advance_goal env host i now w))"
proof -
  have "goals_evolve env (completed_by_run w) w (snd (advance_first env host i now rows w))"
    if "set rows \<subseteq> {r \<in> set (g_goals w). go_status r = ''active''}" for rows
    using that by (induction rows) (auto simp: goals_evolve_refl advance_candidate_evolves)
  then have "goals_evolve env (completed_by_run w) w (snd (advance_first env host i now (goal_candidates w) w))"
    using candidate_active by auto
  then show ?thesis by (simp add: advance_goal_def goals_evolve_refl)
qed


section \<open>Any run of operations\<close>

lemma goal_op_evolves:
  "goals_evolve env (\<lambda>ident. (\<exists>i now. op = Goal_advance i now) \<and> completed_by_run w ident) w (snd (goal_handler env nfkc host op w))"
proof (cases op)
  case (Goal_insert i now)
  have "goals.keeps env (\<lambda>_. False) (attempt (insert_goal env nfkc i now))"
    by (rule goals.keeps_attempt) (rule insert_goal_evolves)
  from keeps_done [OF this] Goal_insert show ?thesis by (simp add: goals.keeps_def)
next
  case (Goal_select owner ident t b now)
  have "goals.keeps env (\<lambda>_. False) (attempt (select_budget env owner ident t b now))"
    by (rule goals.keeps_attempt) (rule select_budget_evolves)
  from keeps_done [OF this] Goal_select show ?thesis by (simp add: goals.keeps_def)
next
  case (Goal_pause owner ident expected now)
  then show ?thesis using keeps_done [OF keeps_pause] by (simp add: goals.keeps_def)
next
  case (Goal_cancel owner ident expected now)
  then show ?thesis using keeps_done [OF keeps_cancel] by (simp add: goals.keeps_def)
next
  case (Goal_cancel_run owner run now)
  then show ?thesis using keeps_done [OF keeps_cancel_run] by (simp add: goals.keeps_def)
next
  case (Goal_resume owner ident i now)
  then show ?thesis using keeps_done [OF keeps_resume] by (simp add: goals.keeps_def)
next
  case (Goal_renew i now)
  then show ?thesis using keeps_done [OF keeps_renew] by (simp add: goals.keeps_def)
next
  case (Goal_advance i now)
  then show ?thesis using advance_evolves [of env w host i now] by simp
qed

lemma goal_exec_evolves: "goal_exec env nfkc host op w = Inr (u, w') \<Longrightarrow>
    goals_evolve env (\<lambda>ident. (\<exists>i now. op = Goal_advance i now) \<and> completed_by_run w ident) w w'"
  using goal_op_evolves by (auto simp: goal_exec_def)

interpretation goal_table: tx_component "goal_exec env nfkc host" "goals_ok env" for env nfkc host
  by unfold_locales (use goal_exec_evolves in \<open>auto simp: goals_evolve_def\<close>)

definition run_goals :: "run_env \<Rightarrow> (string \<Rightarrow> string) \<Rightarrow> goal_host \<Rightarrow> goal_op list \<Rightarrow> goal_world \<Rightarrow> goal_world" where
  "run_goals env nfkc host ops w = run_txs (map (goal_exec env nfkc host) ops) w"

text \<open>C34. Whatever operations run, succeed or fail, every stored goal can be read, identifiers are
  unique, a conversation has at most one open goal, and no goal is continued more often than its limit.
\<close>

theorem goal_table_stays_sound:
  assumes "goals_ok env w"
  shows "goals_ok env (run_goals env nfkc host ops w)"
  unfolding run_goals_def by (rule goal_table.run_inv [OF assms])

text \<open>C33. No operation on goals deletes a goal or changes its conversation, owner, creator, objective, deadline
  and limits on continuations and tool calls; its version and its count of continuations only
  grow. Its token limit may change while its budget is still to be selected; afterwards it stays the same
  throughout a cycle, so that only a renewal, which begins the next cycle, changes it. A goal
  that is completed, cancelled or failed keeps its status, version and assessment for good. (The
  retention purge of a deleted conversation, which removes its goals, is not among the operations.)
\<close>

theorem goals_keep_their_word:
  assumes "goals_ok env w" "r \<in> set (g_goals w)"
  shows "\<exists>r'\<in>set (g_goals (run_goals env nfkc host ops w)). row_moves True r r'"
proof -
  have step: "\<forall>r\<in>set (g_goals s). \<exists>r'\<in>set (g_goals s'). row_moves True r r'"
    if "goals_ok env s" "goal_exec env nfkc host op s = Inr (u, s')" for op s u s'
  proof
    fix r assume "r \<in> set (g_goals s)"
    with goal_exec_evolves [OF that(2)] that(1) obtain r' b where "r' \<in> set (g_goals s')" "row_moves b r r'"
      by (auto simp: goals_evolve_def)
    then show "\<exists>r'\<in>set (g_goals s'). row_moves True r r'" by (auto simp: row_moves_def)
  qed
  have "\<forall>r\<in>set (g_goals w). \<exists>r'\<in>set (g_goals (run_goals env nfkc host ops w)). row_moves True r r'"
    unfolding run_goals_def
  proof (rule goal_table.run_preorder [where R = "\<lambda>s t. \<forall>r\<in>set (g_goals s). \<exists>r'\<in>set (g_goals t). row_moves True r r'", OF assms(1)])
    show "\<forall>r\<in>set (g_goals s). \<exists>r'\<in>set (g_goals s). row_moves True r r'" for s :: goal_world by (auto intro: row_moves_among)
    show "\<forall>r\<in>set (g_goals s). \<exists>r'\<in>set (g_goals u). row_moves True r r'"
      if "\<forall>r\<in>set (g_goals s). \<exists>r'\<in>set (g_goals t). row_moves True r r'" "\<forall>r\<in>set (g_goals t). \<exists>r'\<in>set (g_goals u). row_moves True r r'"
      for s t u :: goal_world
      using that row_moves_trans by blast
    show "\<forall>r\<in>set (g_goals s). \<exists>r'\<in>set (g_goals s'). row_moves True r r'"
      if "goals_ok env s" "goal_exec env nfkc host op s = Inr (a, s')" for op s a s'
      using step [OF that] .
  qed
  with assms(2) show ?thesis by blast
qed

text \<open>C32. Only the worker completes a goal, and only when none of the goal's runs is active and the
  latest one succeeded with a stored assessment whose outcome is complete.
\<close>

theorem goal_completed_only_by_its_run:
  assumes ok: "goals_ok env w" and r': "r' \<in> set (g_goals (run_goals env nfkc host [op] w))" "go_status r' = ''completed''"
    and before: "\<forall>r\<in>set (g_goals w). go_id r = go_id r' \<longrightarrow> go_status r \<noteq> ''completed''"
  shows "(\<exists>i now. op = Goal_advance i now) \<and> completed_by_run w (go_id r')"
proof -
  let ?w = "run_goals env nfkc host [op] w"
  have ev: "goals_evolve env (\<lambda>ident. (\<exists>i now. op = Goal_advance i now) \<and> completed_by_run w ident) w ?w"
    using goal_op_evolves by (simp add: run_goals_def goal_exec_def commit_def)
  with ok have ok': "goals_ok env ?w" by (simp add: goals_evolve_def)
  from ev ok r' obtain r where r: "r \<in> set (g_goals w)" "go_id r = go_id r'" by (fastforce simp: goals_evolve_def)
  from ev ok r(1) obtain s where s: "s \<in> set (g_goals ?w)"
    "row_moves ((\<exists>i now. op = Goal_advance i now) \<and> completed_by_run w (go_id r)) r s" by (auto simp: goals_evolve_def)
  have "s = r'" by (rule unique_keyD [OF goals_ok_unique [OF ok'] s(1) r'(1)]) (use s(2) r(2) in \<open>simp add: row_moves_def\<close>)
  with s(2) r'(2) before r show ?thesis by (auto simp: row_moves_def)
qed

section \<open>Assessments\<close>

definition task_satisfied :: "'z task_core_scheme \<Rightarrow> bool" where
  "task_satisfied t = (tk_status t = ''completed'' \<and> tk_outcome t = Some ''completed'' \<and> tk_required t \<le> tk_evidence t)"

definition task_stuck :: "'z task_core_scheme \<Rightarrow> bool" where
  "task_stuck t = (tk_status t \<noteq> ''pending'' \<and> tk_status t \<noteq> ''running'' \<and> (tk_status t = ''blocked'' \<or> tk_outcome t = Some ''blocked''))"

lemma task_issue_empty: "task_issue t = [] \<longleftrightarrow> task_satisfied t"
  by (auto simp: task_issue_def task_satisfied_def)

lemma task_issue_blocking: "list_ex blocking_issue (task_issue t) \<longleftrightarrow> task_stuck t"
  by (auto simp: task_issue_def task_stuck_def blocking_issue_def issue_def)

lemma task_issue_retryable: "\<not> task_satisfied t \<Longrightarrow> \<not> task_stuck t \<Longrightarrow> list_ex ci_retryable (task_issue t)"
  by (auto simp: task_issue_def task_satisfied_def task_stuck_def issue_def)

lemma list_ex_concat: "list_ex P (concat (map f xs)) \<longleftrightarrow> (\<exists>x\<in>set xs. list_ex P (f x))"
  by (auto simp: list_ex_iff)

lemma issues_empty: "completion_issues tasks pending gate reconciled = [] \<longleftrightarrow>
    (\<forall>t\<in>set tasks. task_satisfied t) \<and> gate \<and> pending \<le> 0 \<and> reconciled"
  by (auto simp: completion_issues_def task_issue_empty)

lemma issues_blocking: "list_ex blocking_issue (completion_issues tasks pending gate reconciled) \<longleftrightarrow> 0 < pending \<or> (\<exists>t\<in>set tasks. task_stuck t)"
  unfolding completion_issues_def list_ex_append list_ex_concat task_issue_blocking by (auto simp: blocking_issue_def issue_def)

lemma issues_retryable:
  assumes "completion_issues tasks pending gate reconciled \<noteq> []" "\<not> list_ex blocking_issue (completion_issues tasks pending gate reconciled)"
  shows "list_ex ci_retryable (completion_issues tasks pending gate reconciled)"
proof -
  from assms have "(\<exists>t\<in>set tasks. \<not> task_satisfied t \<and> \<not> task_stuck t) \<or> \<not> gate \<or> \<not> reconciled"
    by (auto simp: issues_empty issues_blocking)
  then show ?thesis
    unfolding completion_issues_def list_ex_append list_ex_concat using task_issue_retryable by (auto simp: issue_def)
qed

text \<open>A run is assessed as complete exactly when every research task is completed with the evidence
  it needs, the answer passed the evidence gate, no proposal is pending and the usage is reconciled;
  as blocked exactly when a proposal is pending or a task is blocked; and as worth a retry otherwise,
  so that the outcome ``partial'' is never assessed.
\<close>

theorem assessment_is_exact:
  "fst (assess_completion tasks pending gate reconciled) =
     (if list_all task_satisfied tasks \<and> gate \<and> pending \<le> 0 \<and> reconciled then ''complete''
      else if 0 < pending \<or> list_ex task_stuck tasks then ''blocked'' else ''retry'')"
proof -
  define issues where "issues = completion_issues tasks pending gate reconciled"
  have "issues = [] \<longleftrightarrow> list_all task_satisfied tasks \<and> gate \<and> pending \<le> 0 \<and> reconciled"
    unfolding issues_def issues_empty by (simp only: list_all_iff)
  moreover have "list_ex blocking_issue issues \<longleftrightarrow> 0 < pending \<or> list_ex task_stuck tasks"
    unfolding issues_def issues_blocking by (simp only: list_ex_iff)
  moreover have "fst (assess_completion tasks pending gate reconciled) = outcome_of_issues issues"
    by (simp only: assess_completion_def issues_def Let_def fst_conv)
  moreover note issues_retryable [of tasks pending gate reconciled, folded issues_def]
  ultimately show ?thesis unfolding outcome_of_issues_def by argo
qed

section \<open>Goals whose budget was never selected\<close>

text \<open>
  While the budget of a goal is pending, the reader accepts a limit reason only for a goal blocked
  for accounting or limited by its deadline; any other write is undone by the read that follows it.
\<close>

lemma unselected_update_fails:
  assumes ok: "goals_ok env w" and get: "get_goal env owner ident w = Inr g" and pend: "gl_selection g = B_pending"
    and keep: "gc_selection c = None" and reason: "option_or (gc_reason c) (gl_reason g) = Some reason"
    and bad: "\<not> (to = G_blocked \<and> reason = L_accounting)" "\<not> (to = G_budget_limited \<and> reason = L_duration)"
  shows "\<exists>e. update_goal_status env owner ident expected wanted to c now w = Inl e"
proof (rule ccontr)
  assume "\<nexists>e. update_goal_status env owner ident expected wanted to c now w = Inl e"
  then obtain g' w' where res: "update_goal_status env owner ident expected wanted to c now w = Inr (g', w')"
    by (cases "update_goal_status env owner ident expected wanted to c now w") auto
  obtain g1 a where g1: "get_goal env owner ident w = Inr g1"
    and u: "update_goal_row (\<lambda>r. go_id r = gl_id g1 \<and> go_owner r = gl_owner g1 \<and> go_version r = gl_version g1
       \<and> go_status r = text_of goal_status_texts (gl_status g1)) (changed_row g1 to c a now) w = Inr ((), w')"
    and g': "get_goal env owner ident w' = Inr g'"
    by (rule update_goal_status_success [OF res], rule that; assumption)
  have same: "g1 = g" using g1 get by simp
  have ident: "gl_id g1 = ident" using get_goal_ident [OF g1] by simp
  obtain r where rec: "agent_goal_record env (changed_row g1 to c a now r) = Inr g'"
    by (rule goal_row_replaced [OF ok g1 u g']) (simp_all add: ident)
  have "go_selection (changed_row g1 to c a now r) = ''pending''" "go_reason (changed_row g1 to c a now r) = Some (text_of reason_texts reason)"
    using pend keep reason same by (simp_all add: changed_row_def option_or_def split: prod.splits option.splits)
  with goal_record_facts(19) [OF rec] bad show False
    by (cases reason; cases to) (simp_all add: budget_valid_def selection_texts_def)
qed

text \<open>C36. A goal that was blocked for accounting before its budget was selected can be neither paused
  nor cancelled: the row that would be stored keeps the limit reason and cannot be read back, so
  that both operations fail and change nothing.
\<close>

theorem unselected_goal_cannot_be_stopped:
  assumes "goals_ok env w" "get_goal env owner ident w = Inr g" "gl_selection g = B_pending" "gl_reason g = Some L_accounting"
  shows "\<exists>e f. cancel_goal env host owner ident expected now w = (Inl e, w) \<and> pause_goal env host owner ident expected now w = (Inl f, w)"
proof -
  have n: "option_or (gc_reason no_change) (gl_reason g) = Some L_accounting" "gc_selection no_change = None"
    using assms(4) by (simp_all add: no_change_def option_or_def)
  have "\<exists>e. update_goal_status env owner ident expected [G_active, G_paused, G_blocked] G_cancelled no_change now w = Inl e"
    "\<exists>f. update_goal_status env owner ident expected [G_active, G_blocked] G_paused no_change now w = Inl f"
    by (rule unselected_update_fails [OF assms(1-3) n(2,1)]; simp)+
  then show ?thesis by (auto simp: cancel_goal_def pause_goal_def and_then_def attempt_def)
qed

lemma spent_reason: "gl_max_continuations g \<le> gl_continuations g \<Longrightarrow> limit_reason_of g usage now fence \<noteq> L_duration \<and> limit_reason_of g usage now fence \<noteq> L_accounting"
  by (simp add: limit_reason_of_def)

lemma unselected_limit_fails:
  assumes "goals_ok env w" "get_goal env owner ident w = Inr g" "gl_selection g = B_pending" "gl_max_continuations g \<le> gl_continuations g"
  shows "\<exists>e. update_goal_status env owner ident expected wanted G_budget_limited (limit_change v g usage now fence message) now w = Inl e"
  by (rule unselected_update_fails [OF assms(1-3), where reason = "limit_reason_of g usage now fence"])
    (use spent_reason [OF assms(4)] in \<open>simp_all add: limit_change_def no_change_def option_or_def\<close>)

lemma unselected_continue_fails:
  assumes ok: "goals_ok env w" and get: "get_goal env (gl_owner g) (gl_id g) w = Inr g" and st: "gl_status g = G_active"
    and pend: "gl_selection g = B_pending" and spent: "gl_max_continuations g \<le> gl_continuations g"
    and usage: "goal_usage env host None (gl_id g) w = Inr u"
  shows "\<exists>e. continue_goal env host g (i\<lparr>cn_expected := None, cn_automatic := True\<rparr>) now w = (Inl e, w)"
proof (cases "h_enabled host")
  case True
  have "\<exists>e. continue_tx env host g (i\<lparr>cn_expected := None, cn_automatic := True\<rparr>) now w = Inl e"
  proof (cases "h_context host g (w_coord w)")
    case (Inl e)
    then show ?thesis using get st by (simp add: continue_tx_def)
  next
    case (Inr version)
    have lim: "is_limited g u now fence" for fence using spent by (simp add: is_limited_def)
    let ?fence = "token_fence (latest_run g (w_coord w))"
    obtain e where "update_goal_status env (gl_owner g) (gl_id g) (Some (gl_version g)) [gl_status g] G_budget_limited
                     (limit_change (gl_completion g) g u now ?fence ''Goal continuation budget was exhausted'') now w = Inl e"
      using unselected_limit_fails [OF ok get pend spent] by blast
    then show ?thesis using get st Inr usage lim by (simp add: continue_tx_def settled_goal_def)
  qed
  with True show ?thesis by (auto simp: continue_goal_def and_then_def attempt_def)
qed (simp add: continue_goal_def)

text \<open>C37. A worker that is stuck. Suppose the first candidate of the worker, the oldest active goal, is idle
  and has used its continuations before its budget was selected; its latest run is to be continued or
  ended at a limit; its usage and stored assessment can be read; and goals are enabled. Then the
  worker fails on it: no
  step of the worker ever changes anything again, so that neither this goal nor any later one
  advances until something else writes the tables.
\<close>

theorem unselected_goal_stalls_worker:
  assumes ok: "goals_ok env w" and first: "goal_candidates w = row # rest" and idle: "\<not> has_active_run (go_id row) (w_coord w)"
    and pend: "go_selection row = ''pending''" and spent: "go_max_continuations row \<le> go_continuations row"
    and run: "latest_of (filter (\<lambda>r. rn_owner r = go_owner row) (runs_of_goal (go_id row) (w_coord w))) = Some r"
    and usage: "goal_usage env host None (go_id row) w = Inr u"
    and dec: "decode_assessment env (rn_assessment r) (rn_outcome r) (rn_assessment_sha r) = Inr v"
    and verdict: "goal_verdict r v \<in> {V_continue, V_limited v False, V_limited v True}" and enabled: "h_enabled host"
  shows "(\<exists>e. advance_goal env host i now w = (Inl e, w)) \<and> run_goals env nfkc host (map (\<lambda>(i, now). Goal_advance i now) steps) w = w"
proof -
  have row: "row \<in> set (g_goals w)" "go_status row = ''active''" using candidate_active [of row w] first by simp_all
  obtain g where rec: "agent_goal_record env row = Inr g" using goals_okD(1) [OF ok row(1)] by blast
  have get: "get_goal env (go_owner row) (go_id row) w = Inr g"
    using find_goal_unique [OF goals_ok_unique [OF ok] row(1)] rec by (simp add: get_goal_Inr)
  note g = candidate_read [OF ok row get]
  have pend': "gl_selection g = B_pending"
    using goal_record_facts(13) [OF rec] pend by (cases "gl_selection g") simp_all
  have spent': "gl_max_continuations g \<le> gl_continuations g" using goal_record_facts(6,7) [OF rec] spent by simp
  have get': "get_goal env (gl_owner g) (gl_id g) w = Inr g" using get g by simp
  have fails: "\<exists>e. apply_verdict env host i g r u (goal_verdict r v) now w = (Inl e, w)" for i now
  proof (cases "goal_verdict r v = V_continue")
    case True
    obtain e where "continue_goal env host g (i\<lparr>cn_expected := None, cn_automatic := True\<rparr>) now w = (Inl e, w)"
      using unselected_continue_fails [OF ok get' g(1) pend' spent' usage [folded g(2)]] by blast
    with True show ?thesis by (simp add: apply_verdict_def and_then_def)
  next
    case False
    with verdict obtain fence where v: "goal_verdict r v = V_limited v fence" by auto
    obtain e where "update_goal_status env (gl_owner g) (gl_id g) (Some (gl_version g)) [G_active] G_budget_limited
        (limit_change v g u now fence ''Goal execution budget was exhausted'') now w = Inl e"
      using unselected_limit_fails [OF ok get' pend' spent'] by blast
    then show ?thesis by (simp add: v apply_verdict_def settle_goal_def and_then_def attempt_def)
  qed
  have "advance_goal env host i now w = apply_verdict env host i g r u (goal_verdict r v) now w" for i now
    using enabled first idle get run usage dec g by (simp add: advance_goal_def advance_candidate_def and_then_def look_def latest_run_def)
  with fails have stuck: "\<exists>e. advance_goal env host i now w = (Inl e, w)" for i now by simp
  have "run_goals env nfkc host (map (\<lambda>(i, now). Goal_advance i now) steps) w = w"
  proof (induction steps)
    case (Cons s steps)
    obtain i now where s: "s = (i, now)" by (cases s)
    with stuck [of i now] have "goal_exec env nfkc host (Goal_advance i now) w = Inr ((), w)" by (auto simp: goal_exec_def)
    with Cons s show ?case by (simp add: run_goals_def)
  qed (simp add: run_goals_def)
  with stuck show ?thesis by blast
qed


section \<open>Renewals\<close>

lemma goal_record_status: "agent_goal_record env r = Inr g \<Longrightarrow> go_status r = ''active'' \<Longrightarrow> gl_status g = G_active"
  using goal_record_facts(4) active_text by metis

lemma renewed_goal:
  assumes ok: "goals_ok env w" and get: "get_goal env (gl_owner g) (gl_id g) w = Inr g"
    and res: "renew_run env host i g version used allowance now w = Inr ((g', Some r, False), w')"
  shows "gl_status g' = G_active \<and> gl_max_tokens g' = used + allowance \<and> gl_tokens g' = used \<and> gl_cycle g' = gl_cycle g + 1
    \<and> gl_continuations g' = gl_continuations g + 1 \<and> gl_version g' = gl_version g + 1 \<and> gl_reason g' = None
    \<and> get_goal env (gl_owner g) (gl_id g) w' = Inr g'"
proof -
  obtain a m w1 r2 w2 g2 e where sum: "usage_sum used allowance = Inr m"
    and upd: "update_goal_row (still_read g) (renewed_row g used m now) w = Inr ((), w1)"
    and adm: "on_runs (admit_run env (h_media host) (goal_admission g (rw_run i) (rw_request i) version allowance a) now) w1 = Inr ((r2, False), w2)"
    and get2: "get_goal env (gl_owner g) (gl_id g) w2 = Inr g2"
    and ev: "on_runs (append_event env (rn_id r2) (gl_owner g) None ''run.resumed'' (rn_attempts r2) (renewal_receipt i g2 used allowance) now) w2 = Inr (e, w')"
    and x: "(g', Some r, False) = (g2, Some r2, False)"
    by (rule renew_run_success [OF res], rule that; assumption)
  have get1: "get_goal env (gl_owner g) (gl_id g) w1 = Inr g'" using get2 x get_goal_cong [OF on_runs_goals [OF adm]] by simp
  obtain row where rec: "agent_goal_record env row = Inr g" "agent_goal_record env (renewed_row g used m now row) = Inr g'"
    by (rule goal_row_replaced [OF ok get upd get1]) (auto simp: still_read_def)
  have m: "m = used + allowance" using sum by (simp add: usage_sum_def split: if_splits)
  note f = goal_record_facts [OF rec(2)]
  have "gl_max_tokens g' = m" "gl_tokens g' = used" "gl_cycle g' = gl_cycle g + 1" "gl_reason g' = None"
    using f by (simp_all add: renewed_row_def known_value_def)
  moreover have "get_goal env (gl_owner g) (gl_id g) w' = Inr g'"
    using get2 x get_goal_cong [OF on_runs_goals [OF ev]] by simp
  ultimately show ?thesis using m f(5,6) goal_record_status [OF rec(2)] by simp
qed

lemma no_run_blocked: "block_row env g f w \<noteq> Inr ((g', Some r, replayed), w')"
  by (auto simp: block_row_def rbind_Inr_iff)

lemma renew_checked_run:
  assumes "renew_checked env host i g allowance version usage now w = Inr ((g', Some r, False), w')"
  shows "snd usage < gl_max_calls g \<and> gl_continuations g < gl_max_continuations g \<and> now < gl_deadline g
    \<and> (gl_max_tokens g \<le> fst usage \<or> token_fence (latest_run g (w_coord w)))
    \<and> renew_run env host i g version (fst usage) allowance now w = Inr ((g', Some r, False), w')"
proof -
  from assms obtain r0 state where c: "snd usage < gl_max_calls g" "gl_continuations g < gl_max_continuations g" "now < gl_deadline g"
      "gl_max_tokens g \<le> fst usage \<or> token_fence (latest_run g (w_coord w))"
    and last: "(case state of
            Configuration_changed \<Rightarrow> block_row env g (blocked_row g usage L_authority ''GOAL_CONFIGURATION_CHANGED''
              ''Provider configuration changed; start a new goal to use the new configuration'' now) w
          | Skills_changed \<Rightarrow> block_row env g (blocked_row g usage L_authority ''GOAL_CONFIGURATION_CHANGED''
              ''Selected skills changed; start a new goal to use the new configuration'' now) w
          | Usable \<Rightarrow> renew_run env host i g version (fst usage) allowance now w) = Inr ((g', Some r, False), w')"
    unfolding renew_checked_def by (auto simp: rbind_Inr_iff split: if_splits option.splits)
  with no_run_blocked show ?thesis by (cases state) simp_all
qed

text \<open>C35. A confirmed renewal that admits a run was asked for the goal's current version, of a goal
  limited by its tokens alone, before its deadline and with actions and continuations left. It
  grants exactly one more allowance on top of what was used, as one more cycle and continuation.
\<close>

theorem renewal_grants_one_allowance:
  assumes ok: "goals_ok env w" and res: "renew_goal env host i now w = (Inr (g', Some r, False), w')"
  shows "\<exists>g usage allowance. get_goal env (rw_owner i) (rw_goal i) w = Inr g \<and> goal_usage env host None (rw_goal i) w = Inr usage
    \<and> gl_allowance g = Some allowance \<and> gl_version g = rw_version i \<and> gl_status g = G_budget_limited \<and> gl_reason g = Some L_tokens
    \<and> snd usage < gl_max_calls g \<and> gl_continuations g < gl_max_continuations g \<and> now < gl_deadline g
    \<and> get_goal env (rw_owner i) (rw_goal i) w' = Inr g' \<and> gl_status g' = G_active \<and> gl_max_tokens g' = fst usage + allowance
    \<and> gl_cycle g' = gl_cycle g + 1 \<and> gl_continuations g' = gl_continuations g + 1 \<and> gl_version g' = rw_version i + 1"
proof -
  from res obtain w1 where tx: "renew_tx env host i now w = Inr ((g', Some r, False), w1)"
    and emit: "emit_goal_event env g' r ''goal.status'' now w1 = (Inr (), w')"
    by (auto simp: renew_goal_def and_then_def attempt_def give_def split: if_splits sum.splits option.splits prod.splits)
  have same: "g_goals w' = g_goals w1"
    using goals.silent_emit [unfolded goals.silent_def] emit by (metis snd_conv)
  have new: "sql_first (\<lambda>r. rn_id r = rw_run i \<and> rn_owner r = rw_owner i) (c_runs (w_coord w)) = None"
  proof (rule ccontr)
    assume "\<not> ?thesis"
    then obtain q where "sql_first (\<lambda>r. rn_id r = rw_run i \<and> rn_owner r = rw_owner i) (c_runs (w_coord w)) = Some q" by auto
    with tx have "replayed_renewal env host i q w = Inr ((g', Some r, False), w1)" by (simp add: renew_tx_def)
    then show False by (auto simp: replayed_renewal_def rbind_Inr_iff split: if_splits)
  qed
  from tx new obtain g version where get: "get_goal env (rw_owner i) (rw_goal i) w = Inr g" and can: "gl_can_renew g" and version: "gl_version g = rw_version i"
    and rest: "(case goal_usage env host None (gl_id g) w of
          Inl e \<Rightarrow> if accounting_failed e then block_row env g (blocked_row g (gl_tokens g, gl_calls g) L_accounting
              ''GOAL_ACCOUNTING_UNAVAILABLE'' ''Goal accounting must be reconciled before token budget renewal.'' now) w else Inl e
        | Inr usage \<Rightarrow> (case gl_allowance g of None \<Rightarrow> Inl renewal_unavailable
            | Some allowance \<Rightarrow> renew_checked env host i g allowance version usage now w)) = Inr ((g', Some r, False), w1)"
    unfolding renew_tx_def by (auto simp: rbind_Inr_iff split: if_splits)
  note ident = get_goal_ident [OF get]
  from rest no_run_blocked obtain usage allowance where u: "goal_usage env host None (gl_id g) w = Inr usage" "gl_allowance g = Some allowance"
    and chk: "renew_checked env host i g allowance version usage now w = Inr ((g', Some r, False), w1)"
    by (auto split: sum.splits if_splits option.splits)
  note c = renew_checked_run [OF chk]
  have get': "get_goal env (gl_owner g) (gl_id g) w = Inr g" using get ident by simp
  have "can_renew g" using get can by (auto simp: get_goal_Inr dest: goal_record_facts(20))
  then have lim: "gl_status g = G_budget_limited" "gl_reason g = Some L_tokens" by (simp_all add: can_renew_def)
  note n = renewed_goal [OF ok get' c [THEN conjunct2, THEN conjunct2, THEN conjunct2, THEN conjunct2]]
  have "get_goal env (rw_owner i) (rw_goal i) w' = Inr g'" using n ident get_goal_cong [OF same] by simp
  with get u c n lim version ident show ?thesis by auto
qed

end
