(* ===== verification/GoalExample.thy ===== *)
theory GoalExample
  imports GoalProperties RunProperties
begin

text \<open>Concrete goals on which the properties of durable goals are exercised.\<close>

definition zero_sha :: string where
  "zero_sha = replicate 64 CHR ''0''"

definition goal_env :: run_env where
  "goal_env = run_demo_env\<lparr>env_sha := (\<lambda>_. zero_sha),
     env_parse := (\<lambda>_. Some (JObj [(''outcome'', JStr ''complete''), (''issues'', JArr [])]))\<rparr>"

lemma goal_env_simps [simp]:
  "env_sha goal_env s = zero_sha" "env_parse goal_env s = Some (JObj [(''outcome'', JStr ''complete''), (''issues'', JArr [])])"
  "env_uuid goal_env s = True" "env_number goal_env n = None" "env_collate goal_env s t = True"
  by (simp_all add: goal_env_def run_demo_env_def)

lemma goal_sha [simp]: "is_hex 64 zero_sha" "zero_sha \<noteq> []"
  by (simp_all add: zero_sha_def is_hex_def is_hex_char_def list_all_iff)

definition goal_limit :: "int \<Rightarrow> goal_limits" where
  "goal_limit n = \<lparr>lim_continuations = n, lim_tokens = 20, lim_calls = 5, lim_duration = 100\<rparr>"

definition goal_base :: "int \<Rightarrow> goal_row" where
  "goal_base n = goal_row_of goal_env \<lparr>ng_id = ''g'', ng_session = ''s'', ng_owner = 1, ng_objective = ''o'', ng_limits = goal_limit n\<rparr> ''o'' 0"

definition goal_run :: run_row where
  "goal_run = demo_run\<lparr>rn_id := ''r0'', rn_request := ''q0'', rn_status := R_failed, rn_goal := Some ''g'', rn_continuation := Some 0, rn_total := 10\<rparr>"

definition goal_ledger :: quota_db where
  "goal_ledger = (empty_quota [1])\<lparr>q_reservations := [(new_reservation ''r0'' 1 10 0 0 9)\<lparr>qr_consumed_tokens := 10, qr_status := Consumed, qr_reconciled := Some 1\<rparr>]\<rparr>"

definition goal_runs :: "run_row \<Rightarrow> coord_db" where
  "goal_runs r = demo_empty\<lparr>c_runs := [r], c_quota := goal_ledger\<rparr>"

definition goal_state :: "goal_row \<Rightarrow> run_row \<Rightarrow> goal_world" where
  "goal_state g r = \<lparr>g_goals = [g], w_coord = goal_runs r\<rparr>"

definition demo_host :: goal_host where
  "demo_host = \<lparr>h_enabled = True, h_checkpoints = (\<lambda>_ _. Inr (\<lambda>_. 0)), h_context = (\<lambda>_ _. Inr 3), h_binding = (\<lambda>_ _ _. Inr Usable),
     h_admission = (\<lambda>_ _. Inr demo_admission), h_replay = (\<lambda>_ _. Inr ()), h_receipt = (\<lambda>_ _ _ _. Inr ()), h_validate = Inr, h_media = demo_media\<rparr>"

definition demo_continue :: continue_input where
  "demo_continue = \<lparr>cn_expected = None, cn_run = ''r1'', cn_request = ''q'', cn_automatic = True\<rparr>"

lemmas goal_demo_simps = goal_base_def goal_row_of_def goal_limit_def goal_state_def goal_runs_def demo_host_def

lemma goal_base_read: "0 \<le> n \<Longrightarrow> n \<le> 3 \<Longrightarrow> agent_goal_record goal_env (goal_base n) = Inr (goal_of_row (goal_base n) G_active B_pending None)"
  by (simp add: goal_demo_simps agent_goal_record_def counters_valid_def budget_valid_def goal_status_texts_def selection_texts_def known_text_def
    safe_int_def max_safe_def decode_assessment_def)

lemma one_goal_ok: "is_ok (agent_goal_record env g) \<Longrightarrow> go_continuations g \<le> go_max_continuations g \<Longrightarrow> goals_ok env (goal_state g r)"
  by (simp add: goals_ok_def goal_state_def unique_key_def one_open_def)

section \<open>A goal blocked before its budget was selected\<close>

definition blocked_goal :: goal_row where
  "blocked_goal = (goal_base 3)\<lparr>go_status := ''blocked'', go_reason := Some ''accounting''\<rparr>"

lemma blocked_goal_read: "agent_goal_record goal_env blocked_goal = Inr (goal_of_row blocked_goal G_blocked B_pending None)"
  by (simp add: blocked_goal_def goal_demo_simps agent_goal_record_def counters_valid_def budget_valid_def goal_status_texts_def selection_texts_def
    known_text_def reason_texts_def safe_int_def max_safe_def decode_assessment_def)

lemma blocked_goal_ok: "goals_ok goal_env (goal_state blocked_goal goal_run)"
  by (rule one_goal_ok) (simp_all add: blocked_goal_read, simp add: blocked_goal_def goal_demo_simps)

lemma blocked_goal_get: "get_goal goal_env 1 ''g'' (goal_state blocked_goal goal_run) = Inr (goal_of_row blocked_goal G_blocked B_pending None)"
proof -
  have "find_goal 1 ''g'' (goal_state blocked_goal goal_run) = Some blocked_goal"
    by (simp add: find_goal_def goal_state_def sql_first_def blocked_goal_def goal_base_def goal_row_of_def)
  then show ?thesis by (simp add: get_goal_def blocked_goal_read)
qed

lemma unselected_goal_cannot_be_stopped_witness:
  "\<exists>e f. cancel_goal goal_env demo_host 1 ''g'' (Some 1) 7 (goal_state blocked_goal goal_run) = (Inl e, goal_state blocked_goal goal_run)
     \<and> pause_goal goal_env demo_host 1 ''g'' (Some 1) 7 (goal_state blocked_goal goal_run) = (Inl f, goal_state blocked_goal goal_run)"
  by (rule unselected_goal_cannot_be_stopped [OF blocked_goal_ok blocked_goal_get])
    (simp_all add: blocked_goal_def known_value_def reason_texts_def)

lemma goal_table_stays_sound_witness:
  "goals_ok goal_env (run_goals goal_env id demo_host [Goal_cancel 1 ''g'' None 7, Goal_advance demo_continue 8] (goal_state blocked_goal goal_run))"
  by (rule goal_table_stays_sound [OF blocked_goal_ok])

lemma goals_keep_their_word_witness:
  "\<exists>r'\<in>set (g_goals (run_goals goal_env id demo_host [Goal_insert \<lparr>ng_id = ''h'', ng_session = ''t'', ng_owner = 1, ng_objective = ''p'', ng_limits = goal_limit 2\<rparr> 7]
     (goal_state blocked_goal goal_run))). row_moves True blocked_goal r'"
  by (rule goals_keep_their_word [OF blocked_goal_ok]) (simp add: goal_state_def)

section \<open>A goal that stalls the worker\<close>

lemma goal_run_simps [simp]:
  "rn_id goal_run = ''r0''" "rn_owner goal_run = 1" "rn_status goal_run = R_failed" "rn_goal goal_run = Some ''g''" "rn_continuation goal_run = Some 0"
  "rn_total goal_run = 10" "rn_error_code goal_run = None" "rn_assessment goal_run = None" "rn_outcome goal_run = None" "rn_assessment_sha goal_run = None"
  "rn_request goal_run = ''q0''" "rn_session goal_run = ''s''"
  by (simp_all add: goal_run_def demo_run_def new_run_def demo_admission_def)

lemma goal_base_simps [simp]:
  "go_id (goal_base n) = ''g''" "go_owner (goal_base n) = 1" "go_status (goal_base n) = ''active''" "go_selection (goal_base n) = ''pending''"
  "go_continuations (goal_base n) = 0" "go_max_continuations (goal_base n) = n"
  by (simp_all add: goal_demo_simps)

lemma ledger_tokens: "rn_id r = ''r0'' \<Longrightarrow> rn_owner r = 1 \<Longrightarrow> rn_total r = 10 \<Longrightarrow> terminal_status (rn_status r) \<Longrightarrow> run_tokens (\<lambda>_. 0) goal_ledger r = Inr 10"
  by (simp add: run_tokens_def goal_ledger_def empty_quota_def sql_first_def reservation_of_def new_reservation_def stored_int_def safe_int_def max_safe_def)

lemma demo_usage:
  assumes "get_goal goal_env 1 ''g'' (goal_state g r) = Inr gl" "rn_id r = ''r0''" "rn_owner r = 1" "rn_total r = 10" "terminal_status (rn_status r)"
    "rn_goal r = Some ''g''"
  shows "goal_usage goal_env demo_host None ''g'' (goal_state g r) = Inr (10, 0)"
proof -
  have "runs_of_goal ''g'' (w_coord (goal_state g r)) = [r]" by (simp add: runs_of_goal_def goal_state_def goal_runs_def assms)
  moreover have "c_events (w_coord (goal_state g r)) = []" by (simp add: goal_state_def goal_runs_def demo_empty_def empty_coord_def)
  moreover have "c_quota (w_coord (goal_state g r)) = goal_ledger" by (simp add: goal_state_def goal_runs_def)
  ultimately show ?thesis
    using assms(1) ledger_tokens [OF assms(2-5)] assms(3)
    by (simp add: goal_usage_def Let_def demo_host_def stored_int_def stored_sum_def safe_int_def max_safe_def)
qed

lemma spent_goal_ok: "goals_ok goal_env (goal_state (goal_base 0) goal_run)"
  by (rule one_goal_ok) (simp_all add: goal_base_read)

lemma get_base: "0 \<le> n \<Longrightarrow> n \<le> 3 \<Longrightarrow> get_goal goal_env 1 ''g'' (goal_state (goal_base n) r) = Inr (goal_of_row (goal_base n) G_active B_pending None)"
  by (simp add: get_goal_def find_goal_def goal_state_def sql_first_def goal_base_read)

lemma unselected_goal_stalls_worker_witness:
  "(\<exists>e. advance_goal goal_env demo_host demo_continue 7 (goal_state (goal_base 0) goal_run) = (Inl e, goal_state (goal_base 0) goal_run))
   \<and> run_goals goal_env id demo_host (map (\<lambda>(i, now). Goal_advance i now) [(demo_continue, 8), (demo_continue, 9)]) (goal_state (goal_base 0) goal_run)
     = goal_state (goal_base 0) goal_run"
proof (rule unselected_goal_stalls_worker [OF spent_goal_ok, where row = "goal_base 0" and rest = "[]" and r = goal_run and u = "(10, 0)" and v = None])
  show "goal_candidates (goal_state (goal_base 0) goal_run) = [goal_base 0]" by (simp add: goal_candidates_def goal_state_def)
  show "goal_usage goal_env demo_host None (go_id (goal_base 0)) (goal_state (goal_base 0) goal_run) = Inr (10, 0)"
    using demo_usage [OF get_base] by (simp add: terminal_status_def)
  show "latest_of (filter (\<lambda>r. rn_owner r = go_owner (goal_base 0)) (runs_of_goal (go_id (goal_base 0)) (w_coord (goal_state (goal_base 0) goal_run)))) = Some goal_run"
    by (simp add: latest_of_def runs_of_goal_def goal_state_def goal_runs_def)
qed (simp_all add: has_active_run_def runs_of_goal_def goal_state_def goal_runs_def active_status_def terminal_status_def decode_assessment_def goal_verdict_def outcome_is_def
  demo_host_def)


section \<open>A goal its run completed\<close>

definition finished_run :: run_row where
  "finished_run = goal_run\<lparr>rn_status := R_succeeded, rn_outcome := Some ''complete'', rn_assessment := Some ''a'',
     rn_assessment_sha := Some zero_sha\<rparr>"

definition complete_value :: js_value where
  "complete_value = JObj [(''outcome'', JStr ''complete''), (''issues'', JArr [])]"

lemma finished_run_simps [simp]:
  "rn_id finished_run = ''r0''" "rn_owner finished_run = 1" "rn_status finished_run = R_succeeded" "rn_goal finished_run = Some ''g''"
  "rn_total finished_run = 10" "rn_error_code finished_run = None"
  by (simp_all add: finished_run_def)

lemma complete_decoded: "h = zero_sha \<Longrightarrow> decode_assessment goal_env (Some s) (Some ''complete'') (Some h) = Inr (Some complete_value)"
  by (simp add: decode_assessment_def complete_value_def outcome_texts_def)

lemma complete_encoded: "\<exists>s. encoded_completion goal_env (Some complete_value) = Inr (Some ''complete'', Some s, Some zero_sha)"
proof -
  have "encodable complete_value" by (simp add: complete_value_def)
  from encodable_canonical [OF this, of goal_env] show ?thesis by (auto simp: encoded_completion_def outcome_text_def complete_value_def)
qed

definition completed_change :: goal_change where
  "completed_change = counted (Some complete_value) (10, 0)"

definition base_goal :: goal where
  "base_goal = goal_of_row (goal_base 3) G_active B_pending None"

definition completed_row :: "string \<Rightarrow> int \<Rightarrow> goal_row" where
  "completed_row s now = changed_row base_goal G_completed completed_change (Some ''complete'', Some s, Some zero_sha) now (goal_base 3)"

lemma completed_change_simps [simp]:
  "gc_completion completed_change = Some (Some complete_value)" "gc_tokens completed_change = Some 10" "gc_calls completed_change = Some 0"
  "gc_max_tokens completed_change = None" "gc_continuations completed_change = None" "gc_policy completed_change = None"
  "gc_selection completed_change = None" "gc_tier completed_change = None" "gc_allowance completed_change = None" "gc_cycle completed_change = None"
  "gc_reason completed_change = None"
  by (simp_all add: completed_change_def counted_def no_change_def)

lemma base_goal_simps [simp]:
  "gl_id base_goal = ''g''" "gl_owner base_goal = 1" "gl_version base_goal = 1" "gl_status base_goal = G_active" "gl_continuations base_goal = 0"
  "gl_max_tokens base_goal = 20" "gl_policy base_goal = Some 2" "gl_selection base_goal = B_pending" "gl_tier base_goal = None"
  "gl_allowance base_goal = None" "gl_cycle base_goal = 0" "gl_reason base_goal = None"
  by (simp_all add: base_goal_def goal_base_def goal_row_of_def goal_limit_def known_value_def)

lemma completed_row_fields:
  "go_status (completed_row s now) = ''completed''" "go_selection (completed_row s now) = ''pending''" "go_objective (completed_row s now) = ''o''"
  "go_objective_sha (completed_row s now) = zero_sha" "go_version (completed_row s now) = 2" "go_continuations (completed_row s now) = 0"
  "go_max_continuations (completed_row s now) = 3" "go_tokens (completed_row s now) = 10" "go_max_tokens (completed_row s now) = 20"
  "go_calls (completed_row s now) = 0" "go_max_calls (completed_row s now) = 5" "go_policy (completed_row s now) = Some 2"
  "go_tier (completed_row s now) = None" "go_allowance (completed_row s now) = None" "go_cycle (completed_row s now) = 0"
  "go_reason (completed_row s now) = None" "go_outcome (completed_row s now) = Some ''complete''" "go_assessment (completed_row s now) = Some s"
  "go_assessment_sha (completed_row s now) = Some zero_sha" "go_id (completed_row s now) = ''g''" "go_owner (completed_row s now) = 1"
  by (simp_all add: completed_row_def changed_row_def goal_base_def goal_row_of_def goal_limit_def option_or_def)

lemma completed_row_read:
  "agent_goal_record goal_env (completed_row s now) = Inr (goal_of_row (completed_row s now) G_completed B_pending (Some complete_value))"
  unfolding goal_record_Inr
proof (intro exI conjI)
  show "counters_valid (completed_row s now)"
    by (simp add: counters_valid_def completed_row_fields safe_int_def max_safe_def selection_texts_def known_text_def)
  show "budget_valid (completed_row s now)" by (simp add: budget_valid_def completed_row_fields selection_texts_def)
  show "decode_assessment goal_env (go_assessment (completed_row s now)) (go_outcome (completed_row s now)) (go_assessment_sha (completed_row s now))
      = Inr (Some complete_value)"
    by (simp add: completed_row_fields complete_decoded)
qed (simp_all add: completed_row_fields)

lemma completed_update:
  "\<exists>g' w'. update_goal_status goal_env 1 ''g'' (Some 1) [G_active] G_completed completed_change 7 (goal_state (goal_base 3) finished_run) = Inr (g', w')
     \<and> (\<exists>r\<in>set (g_goals w'). go_id r = ''g'' \<and> go_status r = ''completed'')"
proof -
  let ?w = "goal_state (goal_base 3) finished_run"
  obtain s where e: "encoded_completion goal_env (Some complete_value) = Inr (Some ''complete'', Some s, Some zero_sha)"
    using complete_encoded by blast
  let ?g = "goal_of_row (completed_row s 7) G_completed B_pending (Some complete_value)"
  have get: "get_goal goal_env 1 ''g'' ?w = Inr base_goal" using get_base [of 3] by (simp add: base_goal_def)
  have c: "option_or (gc_completion completed_change) x = Some complete_value" for x by (simp add: option_or_def)
  have v: "go_version (goal_base 3) = 1" by (simp add: goal_base_def goal_row_of_def)
  have u: "update_goal_row (\<lambda>r. go_id r = gl_id base_goal \<and> go_owner r = gl_owner base_goal \<and> go_version r = gl_version base_goal
       \<and> go_status r = text_of goal_status_texts (gl_status base_goal))
      (changed_row base_goal G_completed completed_change (Some ''complete'', Some s, Some zero_sha) 7) ?w
      = Inr ((), ?w\<lparr>g_goals := [completed_row s 7]\<rparr>)"
    using v by (simp add: update_goal_row_def Let_def goal_state_def sql_update_def sql_count_def one_open_def completed_row_def [symmetric])
  have get': "get_goal goal_env 1 ''g'' (?w\<lparr>g_goals := [completed_row s 7]\<rparr>) = Inr ?g"
    by (simp add: get_goal_def find_goal_def sql_first_def completed_row_fields completed_row_read)
  have "update_goal_status goal_env 1 ''g'' (Some 1) [G_active] G_completed completed_change 7 ?w = Inr (?g, ?w\<lparr>g_goals := [completed_row s 7]\<rparr>)"
    unfolding update_goal_status_def get rbind_simps c e u prod.case get' by simp
  then show ?thesis by (auto simp: completed_row_fields)
qed

lemma goal_completed_only_by_its_run_witness:
  "completed_by_run (goal_state (goal_base 3) finished_run) ''g''"
proof -
  let ?w = "goal_state (goal_base 3) finished_run"
  have get: "get_goal goal_env 1 ''g'' ?w = Inr base_goal" using get_base [of 3] by (simp add: base_goal_def)
  have cand: "goal_candidates ?w = [goal_base 3]" by (simp add: goal_candidates_def goal_state_def)
  have idle: "\<not> has_active_run ''g'' (w_coord ?w)"
    by (simp add: has_active_run_def runs_of_goal_def goal_state_def goal_runs_def active_status_def terminal_status_def)
  have run: "latest_run base_goal (w_coord ?w) = Some finished_run"
    by (simp add: latest_run_def latest_of_def runs_of_goal_def goal_state_def goal_runs_def)
  have usage: "goal_usage goal_env demo_host None ''g'' ?w = Inr (10, 0)"
    by (rule demo_usage [OF get]) (simp_all add: terminal_status_def)
  have dec: "decode_assessment goal_env (rn_assessment finished_run) (rn_outcome finished_run) (rn_assessment_sha finished_run) = Inr (Some complete_value)"
    by (simp add: finished_run_def complete_decoded)
  have verdict: "goal_verdict finished_run (Some complete_value) = V_completed (Some complete_value)"
    by (simp add: goal_verdict_def outcome_is_def complete_value_def)
  obtain g' w' where u: "update_goal_status goal_env 1 ''g'' (Some 1) [G_active] G_completed completed_change 7 ?w = Inr (g', w')"
    and completed: "\<exists>r\<in>set (g_goals w'). go_id r = ''g'' \<and> go_status r = ''completed''"
    using completed_update by blast
  have "advance_goal goal_env demo_host demo_continue 7 ?w = emit_goal_event goal_env g' finished_run ''goal.status'' 7 w'"
    using cand idle get run usage dec verdict u
    by (simp add: advance_goal_def advance_candidate_def and_then_def look_def apply_verdict_def settle_goal_def attempt_def completed_change_def [symmetric])
      (simp add: demo_host_def)
  then have "g_goals (snd (advance_goal goal_env demo_host demo_continue 7 ?w)) = g_goals w'"
    using goals.silent_emit by (simp add: goals.silent_def)
  with completed obtain r where r: "r \<in> set (g_goals (run_goals goal_env id demo_host [Goal_advance demo_continue 7] ?w))" "go_id r = ''g''" "go_status r = ''completed''"
    by (auto simp: run_goals_def goal_exec_def commit_def)
  have ok: "goals_ok goal_env ?w" by (rule one_goal_ok) (simp_all add: goal_base_read)
  from goal_completed_only_by_its_run [OF ok r(1,3)] r(2) show ?thesis by (simp add: goal_state_def)
qed


section \<open>A renewed goal\<close>

definition limited_goal :: goal_row where
  "limited_goal = (goal_base 3)\<lparr>go_status := ''budget_limited'', go_selection := ''utility'', go_tier := Some ''standard'', go_allowance := Some 10,
     go_cycle := 1, go_max_tokens := 10, go_tokens := 10, go_reason := Some ''tokens''\<rparr>"

definition limited :: goal where
  "limited = goal_of_row limited_goal G_budget_limited B_utility None"

lemma limited_simps [simp]:
  "gl_id limited = ''g''" "gl_owner limited = 1" "gl_session limited = ''s''" "gl_version limited = 1" "gl_status limited = G_budget_limited"
  "gl_continuations limited = 0" "gl_max_continuations limited = 3" "gl_max_tokens limited = 10" "gl_max_calls limited = 5"
  "gl_allowance limited = Some 10" "gl_cycle limited = 1" "gl_deadline limited = 100" "gl_can_renew limited"
  by (simp_all add: limited_def limited_goal_def goal_base_def goal_row_of_def goal_limit_def can_renew_def selected_policy_def known_value_def tier_texts_def
    reason_texts_def)

lemma limited_read: "agent_goal_record goal_env limited_goal = Inr limited"
  unfolding goal_record_Inr limited_def
proof (intro exI conjI)
  show "counters_valid limited_goal"
    by (simp add: counters_valid_def limited_goal_def goal_demo_simps safe_int_def max_safe_def selection_texts_def known_text_def tier_texts_def reason_texts_def)
  show "budget_valid limited_goal" by (simp add: budget_valid_def limited_goal_def goal_demo_simps selection_texts_def selected_policy_def)
  show "decode_assessment goal_env (go_assessment limited_goal) (go_outcome limited_goal) (go_assessment_sha limited_goal) = Inr None"
    by (simp add: limited_goal_def goal_demo_simps decode_assessment_def)
qed (simp_all add: limited_goal_def goal_base_def goal_row_of_def)

abbreviation limited_world :: goal_world where
  "limited_world \<equiv> goal_state limited_goal goal_run"

lemma limited_fields: "go_id limited_goal = ''g''" "go_owner limited_goal = 1" "go_version limited_goal = 1" "go_status limited_goal = ''budget_limited''"
    "go_session limited_goal = ''s''" "go_continuations limited_goal = 0" "go_max_continuations limited_goal = 3"
  by (simp_all add: limited_goal_def goal_base_def goal_row_of_def goal_limit_def)

lemma limited_ok: "goals_ok goal_env limited_world"
  by (rule one_goal_ok) (simp_all add: limited_read limited_fields)

lemma limited_get: "get_goal goal_env 1 ''g'' limited_world = Inr limited"
  by (simp add: get_goal_def find_goal_def goal_state_def sql_first_def limited_fields limited_read)

definition renewal :: renew_input where
  "renewal = \<lparr>rw_owner = 1, rw_goal = ''g'', rw_run = ''r1'', rw_request = ''q'', rw_version = 1, rw_confirmed = True\<rparr>"

definition next_admission :: admission where
  "next_admission = goal_admission limited ''r1'' ''q'' 3 10 demo_admission"

lemma next_admission_fields [simp]:
  "ad_run next_admission = ''r1''" "ad_user_message next_admission = ''u''" "ad_assistant next_admission = ''a''" "ad_goal next_admission = Some ''g''"
  "ad_continuation next_admission = Some (Whole 1)" "ad_attachments next_admission = None" "ad_media_request next_admission = None"
  "ad_owner next_admission = 1" "ad_session next_admission = ''s''" "ad_request next_admission = ''q''" "ad_payload_sha next_admission = None"
  "ad_version next_admission = 3" "ad_resolution next_admission = replicate 64 CHR ''0''" "ad_content next_admission = ''hello''"
  "ad_bindings next_admission = JUndefined" "ad_tools next_admission = JUndefined" "ad_spec next_admission = demo_spec" "ad_skills next_admission = []"
  "ad_quota next_admission = \<lparr>qa_tokens = Whole 10, qa_cost = Whole 5\<rparr>" "ad_limits next_admission = \<lparr>qa_tokens = Whole 20, qa_cost = Whole 20\<rparr>"
  "ad_expires next_admission = 9" "ad_preset next_admission = None" "ad_page next_admission = None" "ad_knowledge next_admission = None"
  "ad_user_visible next_admission = Some False" "ad_assistant_visible next_admission = None" "ad_max_attempts next_admission = None"
  by (simp_all add: next_admission_def goal_admission_def demo_admission_def capped_def)

lemma next_checked: "checked_admission goal_env demo_media next_admission = Inr (None, [], zero_sha)"
proof -
  have "encodable (admission_envelope next_admission None [])"
    by (simp add: admission_envelope_def demo_spec_def opt_field_def or_null_def js_int_def js_bindings_def js_strings_def)
  from encodable_canonical [OF this, of goal_env] obtain s where "canonical_json goal_env (admission_envelope next_admission None []) = Some s" by blast
  then show ?thesis
    using goal_sha(1) [unfolded zero_sha_def]
    by (simp add: checked_admission_def demo_media_def normalize_tools_def admitted_bindings_def normalize_bindings_def media_kinds_def goal_invalid_def
      safe_int_def max_safe_def)
qed

definition next_queued :: run_row where
  "next_queued = new_run goal_env next_admission zero_sha None 7"

lemma next_reserved: "\<exists>q. reserve_quota ''r1'' 1 \<lparr>qa_tokens = Whole 10, qa_cost = Whole 5\<rparr> \<lparr>qa_tokens = Whole 20, qa_cost = Whole 20\<rparr> 7 9 goal_ledger = Inr ((), q)"
  by (simp add: reserve_quota_def non_negative_def safe_int_def max_safe_def goal_ledger_def empty_quota_def with_day_def
    sql_first_def charge_day_def stored_int_def stored_sum_def daily_of_def new_daily_def day_key_def new_reservation_def sql_insert_def)

lemma next_admitted: "\<exists>db. admit_run goal_env demo_media next_admission 7 (goal_runs goal_run) = Inr ((next_queued, False), db) \<and> c_runs db = [goal_run, next_queued]"
proof -
  have "admission_session next_admission (goal_runs goal_run) = Inr ()"
    by (simp add: admission_session_def goal_runs_def demo_empty_def empty_coord_def demo_session_def demo_spec_def
      sql_first_def consent_valid_def consent_of_def js_int_def terminal_status_def)
  moreover have "run_record next_queued = Inr next_queued" by (rule run_record_ok) (simp add: next_queued_def)
  moreover obtain data where "canonical_json goal_env (queued_event next_admission None [] zero_sha) = Some data"
    using encodable_canonical [of "queued_event next_admission None [] zero_sha" goal_env]
    by (auto simp: queued_event_def opt_field_def js_bindings_def)
  moreover obtain q where "reserve_quota ''r1'' 1 \<lparr>qa_tokens = Whole 10, qa_cost = Whole 5\<rparr> \<lparr>qa_tokens = Whole 20, qa_cost = Whole 20\<rparr> 7 9 goal_ledger = Inr ((), q)"
    using next_reserved by blast
  ultimately show ?thesis
    using next_checked
    by (simp add: admit_run_def goal_runs_def demo_empty_def empty_coord_def sql_first_def insert_run_def fresh_admission_def retried_run_def
      media_request_text_def next_queued_def [symmetric] sql_insert_def)
qed

text \<open>An event for a run of the table is appended when its text is not too long.\<close>

lemma append_succeeds:
  assumes u: "unique_key rn_id (c_runs db)" and r: "r \<in> set (c_runs db)" "rn_id r = run" "rn_owner r = owner"
    and att: "0 \<le> att" "safe_int att" and payload: "event_payload env data = Inr encoded"
  shows "\<exists>e db'. append_event env run owner None kind att data now db = Inr (e, db') \<and> unique_key rn_id (c_runs db')
    \<and> (\<exists>r'\<in>set (c_runs db'). rn_id r' = run \<and> rn_owner r' = owner)"
proof -
  have first: "sql_first (journal_run run owner None) (c_runs db) = Some r"
    by (rule sql_first_unique [OF u r(1), where key = run]) (use r in \<open>simp_all add: journal_run_def\<close>)
  have one: "sql_count (\<lambda>q. journal_run run owner None q \<and> rn_sequence q = rn_sequence r) (c_runs db) = 1"
    using sql_count_one_iff [OF u, of "\<lambda>q. journal_run run owner None q \<and> rn_sequence q = rn_sequence r" run] r by (auto simp: journal_run_def)
  let ?f = "\<lambda>q. q\<lparr>rn_sequence := rn_sequence r + 1, rn_updated := now\<rparr>"
  let ?runs = "sql_update (\<lambda>q. journal_run run owner None q \<and> rn_sequence q = rn_sequence r) ?f (c_runs db)"
  have "unique_key rn_id ?runs" by (rule unique_key_update [OF u]) simp
  moreover have "?f r \<in> set ?runs" using r by (auto simp: set_sql_update journal_run_def intro!: image_eqI [of _ _ r])
  then have "\<exists>r'\<in>set ?runs. rn_id r' = run \<and> rn_owner r' = owner" by (rule bexI [rotated]) (use r in simp)
  ultimately show ?thesis using first one att payload by (simp add: append_event_def Let_def next_event_def)
qed


definition renewed :: goal_row where
  "renewed = renewed_row limited 10 20 7 limited_goal"

definition renewed_to :: goal where
  "renewed_to = goal_of_row renewed G_active B_utility None"

lemma renewed_read: "agent_goal_record goal_env renewed = Inr renewed_to"
  unfolding goal_record_Inr renewed_to_def
proof (intro exI conjI)
  show "counters_valid renewed"
    by (simp add: counters_valid_def renewed_def renewed_row_def limited_goal_def goal_demo_simps safe_int_def max_safe_def selection_texts_def known_text_def
      tier_texts_def reason_texts_def)
  show "budget_valid renewed" by (simp add: budget_valid_def renewed_def renewed_row_def limited_goal_def goal_demo_simps selection_texts_def selected_policy_def)
  show "decode_assessment goal_env (go_assessment renewed) (go_outcome renewed) (go_assessment_sha renewed) = Inr None"
    by (simp add: renewed_def renewed_row_def limited_goal_def goal_demo_simps decode_assessment_def)
qed (simp_all add: renewed_def renewed_row_def limited_goal_def goal_base_def goal_row_of_def)

lemma renewed_to_simps [simp]:
  "gl_id renewed_to = ''g''" "gl_owner renewed_to = 1" "gl_cycle renewed_to = 2" "gl_max_tokens renewed_to = 20" "gl_status renewed_to = G_active"
  "gl_continuations renewed_to = 1"
  by (simp_all add: renewed_to_def renewed_def renewed_row_def limited_goal_def goal_base_def goal_row_of_def)

lemma event_payload_short:
  assumes "canonical_json env data = Some s" "utf8_bytes s \<le> 65536"
  shows "event_payload env data = Inr s"
  using assms by (simp add: event_payload_def)

lemma receipt_payload: "\<exists>s. event_payload goal_env (renewal_receipt renewal renewed_to 10 10) = Inr s"
  by (simp add: event_payload_def renewal_receipt_def renewal_def js_int_def sort_entries_def utf8_bytes_def json_string_def json_char_def number_text_def decimal.simps)

lemma status_payload: "\<exists>s. event_payload goal_env (goal_event_data renewed_to) = Inr s"
  by (simp add: event_payload_def goal_event_data_def sort_entries_def utf8_bytes_def json_string_def json_char_def number_text_def decimal.simps)


lemma renewed_update: "update_goal_row (still_read limited) (renewed_row limited 10 20 7) limited_world = Inr ((), limited_world\<lparr>g_goals := [renewed]\<rparr>)"
  by (simp add: update_goal_row_def Let_def goal_state_def sql_update_def sql_count_def one_open_def still_read_def limited_fields renewed_def [symmetric])

lemma renewed_get: "g_goals w = [renewed] \<Longrightarrow> get_goal goal_env 1 ''g'' w = Inr renewed_to"
proof -
  have "go_id renewed = ''g''" "go_owner renewed = 1" by (simp_all add: renewed_def limited_fields)
  then show "g_goals w = [renewed] \<Longrightarrow> get_goal goal_env 1 ''g'' w = Inr renewed_to"
    by (simp add: get_goal_def find_goal_def sql_first_def renewed_read)
qed

lemma next_queued_fields: "rn_id next_queued = ''r1''" "rn_owner next_queued = 1" "rn_attempts next_queued = 0"
  by (simp_all add: next_queued_def new_run_def)

lemma renewal_admitted:
  "\<exists>w3. renew_run goal_env demo_host renewal limited 3 10 10 7 limited_world = Inr ((renewed_to, Some next_queued, False), w3)
     \<and> unique_key rn_id (c_runs (w_coord w3)) \<and> (\<exists>r\<in>set (c_runs (w_coord w3)). rn_id r = ''r1'' \<and> rn_owner r = 1)"
proof -
  let ?w1 = "limited_world\<lparr>g_goals := [renewed]\<rparr>"
  obtain db where adm: "admit_run goal_env demo_media next_admission 7 (goal_runs goal_run) = Inr ((next_queued, False), db)"
    and runs: "c_runs db = [goal_run, next_queued]" using next_admitted by blast
  let ?w2 = "?w1\<lparr>w_coord := db\<rparr>"
  have c: "w_coord ?w1 = goal_runs goal_run" by (simp add: goal_state_def)
  have adm2: "on_runs (admit_run goal_env (h_media demo_host) next_admission 7) ?w1 = Inr ((next_queued, False), ?w2)"
    unfolding on_runs_def c by (simp add: adm demo_host_def)
  obtain encoded where p: "event_payload goal_env (renewal_receipt renewal renewed_to 10 10) = Inr encoded" using receipt_payload by blast
  have u: "unique_key rn_id (c_runs db)" by (simp add: runs unique_key_def next_queued_fields)
  have in_runs: "next_queued \<in> set (c_runs db)" by (simp add: runs)
  have att: "0 \<le> rn_attempts next_queued" "safe_int (rn_attempts next_queued)" by (simp_all add: next_queued_fields safe_int_def)
  from append_succeeds [OF u in_runs next_queued_fields(1,2) att p] obtain e db3
    where ev: "append_event goal_env ''r1'' 1 None ''run.resumed'' (rn_attempts next_queued) (renewal_receipt renewal renewed_to 10 10) 7 db = Inr (e, db3)"
      "unique_key rn_id (c_runs db3)" "\<exists>r\<in>set (c_runs db3). rn_id r = ''r1'' \<and> rn_owner r = 1" by blast
  have ev2: "on_runs (append_event goal_env (rn_id next_queued) (gl_owner limited) None ''run.resumed'' (rn_attempts next_queued)
      (renewal_receipt renewal renewed_to 10 10) 7) ?w2 = Inr (e, ?w2\<lparr>w_coord := db3\<rparr>)"
    by (simp add: on_runs_def next_queued_fields(1,2) ev(1))
  have a: "h_admission demo_host limited (w_coord limited_world) = Inr demo_admission" by (simp add: demo_host_def)
  have sum: "usage_sum 10 10 = Inr 20" by (simp add: usage_sum_def safe_int_def max_safe_def)
  have na: "goal_admission limited (rw_run renewal) (rw_request renewal) 3 10 demo_admission = next_admission"
    by (simp add: next_admission_def renewal_def)
  have g: "get_goal goal_env (gl_owner limited) (gl_id limited) ?w2 = Inr renewed_to" using renewed_get [of ?w2] by simp
  have "renew_run goal_env demo_host renewal limited 3 10 10 7 limited_world = Inr ((renewed_to, Some next_queued, False), ?w2\<lparr>w_coord := db3\<rparr>)"
    unfolding renew_run_def a rbind_simps sum renewed_update prod.case na adm2 g ev2 if_False by (rule refl)
  with ev(2,3) show ?thesis by auto
qed

lemma renewal_grants_one_allowance_witness:
  "\<exists>g' r w'. renew_goal goal_env demo_host renewal 7 limited_world = (Inr (g', Some r, False), w') \<and> gl_max_tokens g' = 20 \<and> gl_continuations g' = 1"
proof -
  obtain w3 where run: "renew_run goal_env demo_host renewal limited 3 10 10 7 limited_world = Inr ((renewed_to, Some next_queued, False), w3)"
    and u: "unique_key rn_id (c_runs (w_coord w3))" and r: "\<exists>r\<in>set (c_runs (w_coord w3)). rn_id r = ''r1'' \<and> rn_owner r = 1"
    using renewal_admitted by blast
  have usage: "goal_usage goal_env demo_host None ''g'' limited_world = Inr (10, 0)"
    by (rule demo_usage [OF limited_get]) (simp_all add: terminal_status_def)
  have first: "first_run limited (w_coord limited_world) = Some goal_run"
    by (simp add: first_run_def goal_state_def goal_runs_def sql_first_def)
  have chk: "renew_checked goal_env demo_host renewal limited 10 3 (10, 0) 7 limited_world = Inr ((renewed_to, Some next_queued, False), w3)"
    unfolding renew_checked_def by (simp add: first run) (simp add: demo_host_def run)
  have rw: "rw_owner renewal = 1" "rw_goal renewal = ''g''" "rw_run renewal = ''r1''" "rw_request renewal = ''q''" "rw_version renewal = 1" "rw_confirmed renewal"
    by (simp_all add: renewal_def)
  have none: "sql_first (\<lambda>r. rn_id r = ''r1'' \<and> rn_owner r = 1) (c_runs (w_coord limited_world)) = None"
    "\<not> list_ex (\<lambda>r. rn_owner r = 1 \<and> rn_session r = gl_session limited \<and> rn_request r = ''q'' \<and> rn_id r \<noteq> ''r1'') (c_runs (w_coord limited_world))"
    "\<not> has_active_owned_run limited (w_coord limited_world)" "\<not> competing_goal limited limited_world"
    by (simp_all add: goal_state_def goal_runs_def sql_first_def has_active_owned_run_def active_run_def runs_of_goal_def latest_of_def terminal_status_def
      competing_goal_def limited_fields)
  have ctx: "h_context demo_host limited (w_coord limited_world) = Inr 3" "h_enabled demo_host" by (simp_all add: demo_host_def)
  have tx: "renew_tx goal_env demo_host renewal 7 limited_world = Inr ((renewed_to, Some next_queued, False), w3)"
    unfolding renew_tx_def rw none(1) option.case limited_get rbind_simps using none(2-4) ctx usage chk by simp
  obtain encoded where p: "event_payload goal_env (goal_event_data renewed_to) = Inr encoded" using status_payload by blast
  from r obtain q where q: "q \<in> set (c_runs (w_coord w3))" "rn_id q = ''r1''" "rn_owner q = 1" by blast
  have att: "0 \<le> rn_attempts next_queued" "safe_int (rn_attempts next_queued)" by (simp_all add: next_queued_fields safe_int_def)
  from append_succeeds [OF u q att p] obtain e db'
    where ev: "append_event goal_env ''r1'' 1 None ''goal.status'' (rn_attempts next_queued) (goal_event_data renewed_to) 7 (w_coord w3) = Inr (e, db')"
    by blast
  have emit: "emit_goal_event goal_env renewed_to next_queued ''goal.status'' 7 w3 = (Inr (), w3\<lparr>w_coord := db'\<rparr>)"
    by (simp add: emit_goal_event_def attempt_def on_runs_def next_queued_fields(1,2) ev)
  have res: "renew_goal goal_env demo_host renewal 7 limited_world = (Inr (renewed_to, Some next_queued, False), w3\<lparr>w_coord := db'\<rparr>)"
    using rw tx emit ctx by (simp add: renew_goal_def and_then_def attempt_def give_def safe_int_def max_safe_def)
  from renewal_grants_one_allowance [OF limited_ok res] usage rw limited_get
  have "gl_max_tokens renewed_to = 20" "gl_continuations renewed_to = 1" by auto
  with res show ?thesis by blast
qed

end
