(* ===== verification/TaxonomyService.thy ===== *)
theory TaxonomyService
  imports Taxonomy Approvals
begin

text \<open>
  The stored tag vocabulary: tagging a page (\<^verbatim>\<open>associateTags\<close> of \<^verbatim>\<open>server/models/tags.ts\<close>) and the
  reviewed changes of the vocabulary (\<^verbatim>\<open>server/operations/taxonomy.ts\<close>), which plan a change with
  \<^verbatim>\<open>planTaxonomy\<close> and commit it with the history, the projection intents and the event of every
  page it changes. \<open>o_tags\<close>, the tags of a page as access checks read them, is written along with
  the assignments. Names of tags are unique and never written again, so that the tags of a history
  row are kept by name. The knowledge metadata of a page is a column left out; whether
  \<^verbatim>\<open>mutateOkfMetadata\<close> accepts it is an argument, as is the text of an instant. The refresh of caches
  after the commit is left out.
\<close>

section \<open>Tables and environment\<close>

record taxonomy_db = approval_db +
  y_tags :: "tag_row list"
  y_assignments :: "(int \<times> int) list"
  y_groups :: "access_group list"

record taxonomy_env =
  te_page :: protection_env
  te_digest :: "taxonomy_review \<Rightarrow> string"
  te_iso :: "int \<Rightarrow> string"
  te_metadata :: "int \<Rightarrow> int \<Rightarrow> int \<Rightarrow> unit result"

text \<open>The identifiers an operation generates, for each page it changes.\<close>

record taxonomy_ids =
  fy_tag :: int
  fy_history :: "int \<Rightarrow> int"
  fy_event :: "int \<Rightarrow> string"
  fy_effects :: "int \<Rightarrow> effect_kind \<Rightarrow> string"

record taxonomy_actor =
  ac_requester :: "principal option"
  ac_session :: string
  ac_authority :: authority

definition refused :: "nat \<Rightarrow> js_error" where
  "refused status = Coded ''APPLICATION_ERROR'' status"

definition review_expired :: js_error where
  "review_expired = Coded ''TAXONOMY_REVIEW_EXPIRED'' 409"

section \<open>Reading the vocabulary\<close>

definition taxonomy_page_of :: "projection_page \<Rightarrow> taxonomy_page" where
  "taxonomy_page_of p = \<lparr>tp_id = pj_id p, tp_title = pj_title p, tp_path = lo_path (pj_location p), tp_locale = lo_locale (pj_location p),
     tp_public = (lo_visibility (pj_location p) = Public), tp_revision = pj_revision p\<rparr>"

definition history_count :: "history_row list \<Rightarrow> tag_row \<Rightarrow> nat" where
  "history_count rows t = sum_list (map (\<lambda>h. count_list (hi_tags h) (tag_tag t)) rows)"

text \<open>\<^verbatim>\<open>readTaxonomySnapshot\<close>\<close>

definition read_taxonomy :: "'z taxonomy_db_scheme \<Rightarrow> taxonomy" where
  "read_taxonomy db =
     (let tags = sort_key tag_id (y_tags db) in
      \<lparr>tx_tags = tags, tx_assignments = sort_key fst (sort_key snd (y_assignments db)),
       tx_pages = map taxonomy_page_of (sort_key pj_id (filter (\<lambda>p. pj_id p \<in> fst ` set (y_assignments db)) (o_pages db))),
       tx_groups = sort_key group_id (y_groups db),
       tx_history = filter (\<lambda>h. 0 < snd h) (map (\<lambda>t. (tag_id t, history_count (o_history db) t)) tags)\<rparr>)"

text \<open>\<^verbatim>\<open>authorize\<close>\<close>

definition authorize_taxonomy :: "taxonomy_actor \<Rightarrow> int result" where
  "authorize_taxonomy actor = (if \<not> manages_system (ac_requester actor) then Inl (refused 403)
     else case principal_id (ac_requester actor) of None \<Rightarrow> Inl (refused 401) | Some i \<Rightarrow> Inr i)"

text \<open>\<^verbatim>\<open>list\<close>, \<^verbatim>\<open>inspect\<close> and \<^verbatim>\<open>preview\<close>\<close>

definition list_taxonomy :: "taxonomy_actor \<Rightarrow> 'z taxonomy_db_scheme \<Rightarrow> inventory_tag list result" where
  "list_taxonomy actor db = rbind (authorize_taxonomy actor) (\<lambda>_. taxonomy_inventory (read_taxonomy db))"

record taxonomy_inspection =
  ix_tag :: inventory_tag
  ix_aliases :: "inventory_tag list"
  ix_pages :: "taxonomy_page list"
  ix_rules :: "rule_impact list"

definition inspected_aliases :: "alias_map \<Rightarrow> int \<Rightarrow> string option \<Rightarrow> inventory_tag list \<Rightarrow> inventory_tag list" where
  "inspected_aliases m i name inventory = filter (\<lambda>t. tag_id t \<noteq> i \<and> tag_redirect t \<noteq> None
     \<and> (tag_redirect t = Some i \<or> (option_or name [] \<noteq> [] \<and> m (tag_tag t) = Some name))) inventory"

definition inspect_taxonomy :: "taxonomy_actor \<Rightarrow> js_num \<Rightarrow> 'z taxonomy_db_scheme \<Rightarrow> taxonomy_inspection result" where
  "inspect_taxonomy actor ident db =
     rbind (authorize_taxonomy actor) (\<lambda>_. case ident of
       Not_whole \<Rightarrow> Inl (refused 400)
     | Whole i \<Rightarrow>
        if \<not> safe_int i \<or> i < 1 then Inl (refused 400)
        else let s = read_taxonomy db in
          rbind (taxonomy_inventory s) (\<lambda>inventory. case sql_first (\<lambda>t. tag_id t = i) inventory of
            None \<Rightarrow> Inl (refused 404)
          | Some tag \<Rightarrow> rbind (tag_alias_map (tx_tags s)) (\<lambda>m.
              let name = option_or (m (tag_tag tag)) None; aliases = inspected_aliases m i name inventory;
                  canonical = sql_first (\<lambda>t. Some (tag_tag t) = name) (tx_tags s);
                  pages = (case canonical of None \<Rightarrow> [] | Some c \<Rightarrow> map fst (filter (\<lambda>a. snd a = tag_id c) (tx_assignments s)))
              in Inr \<lparr>ix_tag = tag, ix_aliases = aliases, ix_pages = filter (\<lambda>p. tp_id p \<in> set pages) (tx_pages s),
                   ix_rules = taxonomy_rules s m s m (set (tag_tag tag # map tag_tag aliases))\<rparr>)))"

definition preview_taxonomy :: "taxonomy_env \<Rightarrow> taxonomy_actor \<Rightarrow> js_value \<Rightarrow> 'z taxonomy_db_scheme \<Rightarrow> taxonomy_plan result" where
  "preview_taxonomy env actor input db = rbind (authorize_taxonomy actor) (\<lambda>_. plan_taxonomy (te_digest env) (read_taxonomy db) input)"

section \<open>New tags\<close>

text \<open>An insert into \<^verbatim>\<open>tags\<close>, whose identifiers and names are unique.\<close>

definition new_tag :: "int \<Rightarrow> string \<Rightarrow> string \<Rightarrow> string \<Rightarrow> tag_row" where
  "new_tag ident tag title stamp = \<lparr>tag_id = ident, tag_tag = tag, tag_redirect = None, tag_archived = False, tg_title = title,
     tg_created = stamp, tg_updated = stamp\<rparr>"

definition insert_tag :: "tag_row \<Rightarrow> 'z taxonomy_db_scheme \<Rightarrow> 'z taxonomy_db_scheme option" where
  "insert_tag t db = (if tag_id t \<in> tag_id ` set (y_tags db) \<or> tag_tag t \<in> tag_tag ` set (y_tags db) then None
     else Some (db\<lparr>y_tags := sql_insert t (y_tags db)\<rparr>))"

text \<open>\<^verbatim>\<open>create\<close>\<close>

definition create_tag :: "taxonomy_env \<Rightarrow> taxonomy_actor \<Rightarrow> js_value \<Rightarrow> int \<Rightarrow> int \<Rightarrow> ('z taxonomy_db_scheme, int) tx" where
  "create_tag env actor input ident now db =
     rbind (authorize_taxonomy actor) (\<lambda>_.
     rbind (tag_definition input) (\<lambda>(tag, title).
       case insert_tag (new_tag ident tag title (te_iso env now)) db of
         None \<Rightarrow> Inl (refused 409)
       | Some db' \<Rightarrow> Inr (ident, db')))"

section \<open>Tagging a page\<close>

definition stored_tag :: "int \<Rightarrow> tag_row list \<Rightarrow> tag_row option" where
  "stored_tag i tags = sql_first (\<lambda>t. tag_id t = i) tags"

text \<open>The rows of \<^verbatim>\<open>pageTags\<close> with the names of their tags.\<close>

definition named_tags :: "tag_row list \<Rightarrow> (int \<times> int) list \<Rightarrow> (int \<times> string) list" where
  "named_tags tags assignments = concat (map (\<lambda>(p, i). case stored_tag i tags of None \<Rightarrow> [] | Some t \<Rightarrow> [(p, tag_tag t)]) assignments)"

definition tags_of_page :: "int \<Rightarrow> (int \<times> int) list \<Rightarrow> int list" where
  "tags_of_page page assignments = map snd (filter (\<lambda>a. fst a = page) assignments)"

definition relate_tags :: "int \<Rightarrow> int list \<Rightarrow> tag_row list \<Rightarrow> 'z taxonomy_db_scheme \<Rightarrow> 'z taxonomy_db_scheme" where
  "relate_tags page targets tags db =
     (let current = tags_of_page page (y_assignments db);
          added = map (\<lambda>i. (page, i)) (filter (\<lambda>i. i \<notin> set current) targets);
          gone = (\<lambda>a. fst a = page \<and> snd a \<notin> set targets);
          rows = sql_delete gone (y_assignments db @ added)
      in db\<lparr>y_assignments := rows, o_tags := sql_delete (\<lambda>r. fst r = page) (o_tags db) @ named_tags tags (filter (\<lambda>a. fst a = page) rows)\<rparr>)"

text \<open>
  \<^verbatim>\<open>associateTags\<close>: new names become tags, then every submitted name is resolved and the page
  is related to exactly the tags at the end of the redirects. The result says whether its tags
  changed. Keys of the tables (new identifiers, the page) fail as \<^term>\<open>Plain_error\<close>.
\<close>

definition missing_tags :: "taxonomy_env \<Rightarrow> (string \<Rightarrow> int) \<Rightarrow> int \<Rightarrow> string list \<Rightarrow> tag_row list \<Rightarrow> tag_row list" where
  "missing_tags env fresh now names tags =
     map (\<lambda>n. new_tag (fresh n) n n (te_iso env now)) (filter (\<lambda>n. n \<notin> tag_tag ` set tags) names)"

definition canonical_name :: "alias_map \<Rightarrow> string \<Rightarrow> string" where
  "canonical_name m n = option_or (option_or (m n) None) n"

definition associate_tags :: "taxonomy_env \<Rightarrow> (string \<Rightarrow> int) \<Rightarrow> js_value \<Rightarrow> int \<Rightarrow> int \<Rightarrow> ('z taxonomy_db_scheme, bool) tx" where
  "associate_tags env fresh input page now db =
     rbind (tag_names input) (\<lambda>names.
       let added = missing_tags env fresh now names (y_tags db); tags = y_tags db @ added in
       if \<not> unique_key tag_id tags then Inl Plain_error
       else rbind (tag_alias_map (sort_key tag_id tags)) (\<lambda>m.
         if list_ex (\<lambda>n. m n = Some None) names then Inl (refused 400)
         else let canonical = dedup (map (canonical_name m) names);
                  targets = map tag_id (filter (\<lambda>t. tag_tag t \<in> set canonical) tags);
                  current = tags_of_page page (y_assignments db);
                  related = list_ex (\<lambda>i. i \<notin> set current) targets
              in if related \<and> page \<notin> pj_id ` set (o_pages db) then Inl Plain_error
                 else Inr (related \<or> list_ex (\<lambda>i. i \<notin> set targets) current, relate_tags page targets tags (db\<lparr>y_tags := tags\<rparr>))))"

section \<open>Committing a reviewed change\<close>

text \<open>The new tag of a plan takes the identifier it was stored under.\<close>

definition stored_id :: "int \<Rightarrow> int \<Rightarrow> int" where
  "stored_id new i = (if i = -1 then new else i)"

definition renumber :: "int \<Rightarrow> taxonomy \<Rightarrow> taxonomy" where
  "renumber new s = s\<lparr>tx_tags := map (\<lambda>t. t\<lparr>tag_id := stored_id new (tag_id t), tag_redirect := map_option (stored_id new) (tag_redirect t)\<rparr>) (tx_tags s),
     tx_assignments := map (\<lambda>(p, i). (p, stored_id new i)) (tx_assignments s)\<rparr>"

definition store_destination :: "taxonomy_env \<Rightarrow> int \<Rightarrow> taxonomy_plan \<Rightarrow> int \<Rightarrow> ('z taxonomy_db_scheme, taxonomy \<times> int) tx" where
  "store_destination env ident p now db = (case pn_destination p of
      None \<Rightarrow> Inr ((pn_after p, tag_id (pn_source p)), db)
    | Some d \<Rightarrow>
        if tag_id d \<noteq> -1 then Inr ((pn_after p, tag_id d), db)
        else (case insert_tag (new_tag ident (tag_tag d) (tg_title d) (te_iso env now)) db of
            None \<Rightarrow> Inl review_expired
          | Some db' \<Rightarrow> Inr ((renumber ident (pn_after p), ident), db')))"

text \<open>The update of a page, whose revision advances even if the trigger sees no change.\<close>

definition retagged_page :: "int \<Rightarrow> int \<Rightarrow> projection_page \<Rightarrow> projection_page" where
  "retagged_page author now p = increment_revision p (p\<lparr>pj_author := author, pj_modified := now, pj_reason := None,
     pj_revision := decimal (decimal_value (pj_revision p) + 1)\<rparr>)"

definition retagged_intent :: "projection_page \<Rightarrow> effects_input" where
  "retagged_intent p = \<lparr>eq_page = Whole (pj_id p), eq_revision = decimal (decimal_value (pj_revision p) + 1), eq_desired = Present, eq_action = A_update,
     eq_source = Some (pj_content p), eq_location = Some (pj_location p), eq_previous = None, eq_effects = None\<rparr>"

definition retagged_event :: "string \<Rightarrow> taxonomy_actor \<Rightarrow> int \<Rightarrow> projection_page \<Rightarrow> tag_row list \<Rightarrow> int \<Rightarrow> ('z taxonomy_db_scheme, string) tx" where
  "retagged_event ident actor author page tags now =
     write_outbox_event ident ''page.updated'' 1 ''page'' (Agg_number (pj_id page))
       (JObj [(''pageId'', JNum (Whole (pj_id page))), (''actorId'', JNum (Whole author)),
          (''actorName'', case ac_requester actor of None \<Rightarrow> JUndefined | Some u \<Rightarrow> js_get ''name'' (pr_value u)),
          (''title'', JStr (pj_title page)), (''path'', JStr (lo_path (pj_location page))), (''localeCode'', JStr (lo_locale (pj_location page))),
          (''ownerId'', js_null_or (\<lambda>k. JNum (Whole k)) (lo_owner (pj_location page))),
          (''visibility'', JStr (visibility_text (lo_visibility (pj_location page)))),
          (''tags'', JArr (map (\<lambda>t. JObj [(''id'', JNum (Whole (tag_id t))), (''tag'', JStr (tag_tag t))]) tags))]) now"

definition write_assignments :: "taxonomy \<Rightarrow> int \<Rightarrow> 'z taxonomy_db_scheme \<Rightarrow> 'z taxonomy_db_scheme" where
  "write_assignments s page db = (let rows = filter (\<lambda>a. fst a = page) (tx_assignments s) in
     db\<lparr>y_assignments := sql_delete (\<lambda>a. fst a = page) (y_assignments db) @ rows,
        o_tags := sql_delete (\<lambda>r. fst r = page) (o_tags db) @ named_tags (tx_tags s) rows\<rparr>)"

text \<open>The body of the loop over the changed pages.\<close>

definition retag_page :: "taxonomy_env \<Rightarrow> taxonomy_ids \<Rightarrow> taxonomy_actor \<Rightarrow> int \<Rightarrow> taxonomy \<Rightarrow> int \<Rightarrow> int \<Rightarrow> ('z taxonomy_db_scheme, unit) tx" where
  "retag_page env ids actor author after now page db = (case find_page page db of
      None \<Rightarrow> Inl review_expired
    | Some p \<Rightarrow>
        rbind (te_metadata env page author now) (\<lambda>_.
        rbind (snapshot_revision (fy_history ids page) p ''updated'' db) (\<lambda>(_, db1).
          let db2 = write_assignments after page db1;
              tags = concat (map (\<lambda>i. case stored_tag i (tx_tags after) of None \<Rightarrow> [] | Some t \<Rightarrow> [t]) (tags_of_page page (tx_assignments after)));
              db3 = db2\<lparr>o_pages := sql_update (\<lambda>q. pj_id q = page) (retagged_page author now) (o_pages db2)\<rparr>
          in rbind (enqueue_effects (pe_text (te_page env)) (retagged_intent p) (fy_effects ids page) now db3) (\<lambda>(_, db4).
             rbind (retagged_event (fy_event ids page) actor author p tags now db4) (\<lambda>(_, db5). Inr ((), db5))))))"

fun for_pages :: "(int \<Rightarrow> ('s, unit) tx) \<Rightarrow> int list \<Rightarrow> ('s, unit) tx" where
  "for_pages f [] s = Inr ((), s)"
| "for_pages f (p # ps) s = rbind (f p s) (\<lambda>(_, s'). for_pages f ps s')"

text \<open>The loop that writes the tags a plan changed.\<close>

definition tag_changed :: "taxonomy \<Rightarrow> tag_row \<Rightarrow> bool" where
  "tag_changed before t = (case stored_tag (tag_id t) (tx_tags before) of
      None \<Rightarrow> False
    | Some old \<Rightarrow> \<not> (tag_redirect old = tag_redirect t \<and> tag_archived old = tag_archived t \<and> tg_title old = tg_title t))"

definition write_tag :: "taxonomy \<Rightarrow> string \<Rightarrow> tag_row \<Rightarrow> tag_row list \<Rightarrow> tag_row list" where
  "write_tag before stamp t rows = (if tag_changed before t
     then sql_update (\<lambda>r. tag_id r = tag_id t)
            (\<lambda>r. r\<lparr>tag_redirect := tag_redirect t, tag_archived := tag_archived t, tg_title := tg_title t, tg_updated := stamp\<rparr>) rows
     else rows)"

record taxonomy_result =
  tr_tag :: int
  tr_pages :: nat
  tr_refresh :: "int list"

text \<open>A new label refreshes the pages that show it.\<close>

definition relabelled_pages :: "taxonomy_plan \<Rightarrow> taxonomy \<Rightarrow> int \<Rightarrow> 'z taxonomy_db_scheme \<Rightarrow> int list" where
  "relabelled_pages p before tag db = (case pn_change p of
      Edit_tag _ _ _ \<Rightarrow> if pn_changed p = [] then map pj_id (filter (\<lambda>q. (pj_id q, tag) \<in> set (tx_assignments before)) (o_pages db)) else []
    | _ \<Rightarrow> [])"

definition commit_plan ::
  "taxonomy_env \<Rightarrow> taxonomy_ids \<Rightarrow> taxonomy_actor \<Rightarrow> int \<Rightarrow> taxonomy \<Rightarrow> taxonomy_plan \<Rightarrow> int \<Rightarrow> ('z taxonomy_db_scheme, taxonomy_result) tx" where
  "commit_plan env ids actor author before p now db =
     rbind (store_destination env (fy_tag ids) p now db) (\<lambda>((after, tag), db1).
     rbind (for_pages (retag_page env ids actor author after now) (pn_changed p) db1) (\<lambda>(_, db2).
       let db3 = db2\<lparr>y_tags := fold (write_tag before (te_iso env now)) (tx_tags after) (y_tags db2)\<rparr>
       in Inr (\<lparr>tr_tag = tag, tr_pages = length (pn_changed p), tr_refresh = pn_changed p @ relabelled_pages p before tag db3\<rparr>, db3)))"

text \<open>
  The transaction of \<^verbatim>\<open>apply\<close>. Its first read takes no locks, so that other transactions may commit
  before the second one; \<open>seen\<close> is what the first read returned.
\<close>

definition apply_in_tx ::
  "taxonomy_env \<Rightarrow> taxonomy_ids \<Rightarrow> taxonomy_actor \<Rightarrow> int \<Rightarrow> js_value \<Rightarrow> string \<Rightarrow> bool \<Rightarrow> taxonomy \<Rightarrow> int \<Rightarrow> ('z taxonomy_db_scheme, taxonomy_result) tx" where
  "apply_in_tx env ids actor author change fingerprint acknowledged seen now db =
     rbind (plan_taxonomy (te_digest env) seen change) (\<lambda>first.
       if pn_fingerprint first \<noteq> fingerprint then Inl review_expired
       else let before = read_taxonomy db in
         rbind (plan_taxonomy (te_digest env) before change) (\<lambda>p.
           if pn_fingerprint p \<noteq> fingerprint then Inl review_expired
           else if pn_access_changes p \<and> \<not> acknowledged then Inl (refused 400)
           else rbind (for_pages (\<lambda>page. assert_page_unlocked (te_page env) (ac_requester actor) (ac_authority actor) page (ac_session actor) now)
                  (pn_changed p) db) (\<lambda>(_, db1). commit_plan env ids actor author before p now db1)))"

definition review_fingerprint :: "js_value \<Rightarrow> string option" where
  "review_fingerprint v = (case v of JStr s \<Rightarrow> if is_hex 64 s then Some s else None | _ \<Rightarrow> None)"

text \<open>\<^verbatim>\<open>apply\<close> and \<^verbatim>\<open>legacyChange\<close>, whose preview reads the tables first.\<close>

definition apply_taxonomy ::
  "taxonomy_env \<Rightarrow> taxonomy_ids \<Rightarrow> taxonomy_actor \<Rightarrow> js_value \<Rightarrow> js_value \<Rightarrow> js_value \<Rightarrow> taxonomy \<Rightarrow> int \<Rightarrow> ('z taxonomy_db_scheme, taxonomy_result) tx" where
  "apply_taxonomy env ids actor change fingerprint acknowledge seen now db =
     rbind (authorize_taxonomy actor) (\<lambda>author. case review_fingerprint fingerprint of
         None \<Rightarrow> Inl (refused 400)
       | Some fp \<Rightarrow> apply_in_tx env ids actor author change fp (acknowledge = JBool True) seen now db)"

definition legacy_change ::
  "taxonomy_env \<Rightarrow> taxonomy_ids \<Rightarrow> taxonomy_actor \<Rightarrow> js_value \<Rightarrow> taxonomy \<Rightarrow> taxonomy \<Rightarrow> int \<Rightarrow> ('z taxonomy_db_scheme, taxonomy_result) tx" where
  "legacy_change env ids actor change previewed seen now db =
     rbind (authorize_taxonomy actor) (\<lambda>_.
     rbind (plan_taxonomy (te_digest env) previewed change) (\<lambda>p.
       if pn_access_changes p then Inl (refused 409)
       else apply_taxonomy env ids actor change (JStr (pn_fingerprint p)) JUndefined seen now db))"

end
