(* ===== verification/TaxonomyServiceLaws.thy ===== *)
theory TaxonomyServiceLaws
  imports TaxonomyService TaxonomyLaws ApprovalLaws
begin

text \<open>
  What the stored tag vocabulary promises: every operation keeps it well-formed, a page carries
  the tags its editor named under the names they lead to, a committed change is the plan that was
  reviewed, and a review pins the plan.
\<close>

section \<open>The same vocabulary in other rows\<close>

definition tag_core :: "tag_row \<Rightarrow> int \<times> string \<times> int option \<times> bool" where
  "tag_core t = (tag_id t, tag_tag t, tag_redirect t, tag_archived t)"

definition same_vocabulary :: "taxonomy \<Rightarrow> taxonomy \<Rightarrow> bool" where
  "same_vocabulary s s' = (tag_core ` set (tx_tags s') = tag_core ` set (tx_tags s) \<and> set (tx_assignments s') = set (tx_assignments s))"

lemma same_vocabulary_rows:
  assumes "same_vocabulary s s'" "t \<in> set (tx_tags s')"
  obtains r where "r \<in> set (tx_tags s)" "tag_id r = tag_id t" "tag_tag r = tag_tag t" "tag_redirect r = tag_redirect t" "tag_archived r = tag_archived t"
  using assms by (auto simp: same_vocabulary_def tag_core_def set_eq_iff image_iff) (metis (no_types, lifting))

lemma same_vocabulary_sym: "same_vocabulary s s' \<Longrightarrow> same_vocabulary s' s"
  by (simp add: same_vocabulary_def)

lemma same_vocabulary_ok:
  assumes ok: "taxonomy_ok s" and same: "same_vocabulary s s'" and d: "unique_key tag_id (tx_tags s')" "distinct (tx_assignments s')"
  shows "taxonomy_ok s'"
  unfolding taxonomy_ok_def
proof (intro conjI ballI allI impI)
  have "inj_on tag_tag (set (tx_tags s'))"
  proof (rule inj_onI)
    fix t u assume t: "t \<in> set (tx_tags s')" and u: "u \<in> set (tx_tags s')" and e: "tag_tag t = tag_tag u"
    from same_vocabulary_rows [OF same t] obtain r where r: "r \<in> set (tx_tags s)" "tag_id r = tag_id t" "tag_tag r = tag_tag t" by blast
    from same_vocabulary_rows [OF same u] obtain q where q: "q \<in> set (tx_tags s)" "tag_id q = tag_id u" "tag_tag q = tag_tag u" by blast
    from same_name [OF ok r(1) q(1)] r q e have "tag_id t = tag_id u" by simp
    with unique_keyD [OF d(1) t u] show "t = u" .
  qed
  then show "unique_key tag_tag (tx_tags s')" using d(1) by (auto simp: unique_key_def distinct_map)
  fix t i assume t: "t \<in> set (tx_tags s')" "tag_redirect t = Some i"
  from same_vocabulary_rows [OF same t(1)] obtain r where r: "r \<in> set (tx_tags s)" "tag_redirect r = tag_redirect t" "tag_archived r = tag_archived t" by blast
  from taxonomy_okD(4) [OF ok r(1)] r t(2) obtain c where c: "c \<in> set (tx_tags s)" "tag_id c = i" "tag_redirect c = None" "\<not> tag_archived t \<longrightarrow> \<not> tag_archived c"
    by auto
  from same_vocabulary_rows [OF same_vocabulary_sym [OF same] c(1)] c
  show "\<exists>c\<in>set (tx_tags s'). tag_id c = i \<and> tag_redirect c = None \<and> (\<not> tag_archived t \<longrightarrow> \<not> tag_archived c)" by metis
next
  fix a assume "a \<in> set (tx_assignments s')"
  then have "a \<in> set (tx_assignments s)" using same by (simp add: same_vocabulary_def)
  from taxonomy_okD(5) [OF ok this] obtain c where c: "c \<in> set (tx_tags s)" "tag_id c = snd a" "active_canonical c" by blast
  from same_vocabulary_rows [OF same_vocabulary_sym [OF same] c(1)] c(2,3)
  show "\<exists>c\<in>set (tx_tags s'). tag_id c = snd a \<and> active_canonical c" unfolding active_canonical_def by metis
qed (use d in simp_all)

lemma page_tag_names_core: "page_tag_names s page = {n. \<exists>i r a. (i, n, r, a) \<in> tag_core ` set (tx_tags s) \<and> (page, i) \<in> set (tx_assignments s)}"
  by (auto simp: page_tag_names_def tag_core_def image_iff)

lemma same_vocabulary_names: "same_vocabulary s s' \<Longrightarrow> page_tag_names s' page = page_tag_names s page"
  by (simp add: page_tag_names_core same_vocabulary_def)

section \<open>The invariant of the tables\<close>

definition vocabulary :: "tag_row list \<Rightarrow> (int \<times> int) list \<Rightarrow> taxonomy" where
  "vocabulary tags rows = \<lparr>tx_tags = tags, tx_assignments = rows, tx_pages = [], tx_groups = [], tx_history = []\<rparr>"

lemma vocabulary_fields [simp]: "tx_tags (vocabulary tags rows) = tags" "tx_assignments (vocabulary tags rows) = rows"
  by (simp_all add: vocabulary_def)

lemma read_fields [simp]:
  "tx_tags (read_taxonomy db) = sort_key tag_id (y_tags db)"
  "tx_assignments (read_taxonomy db) = sort_key fst (sort_key snd (y_assignments db))"
  "tx_pages (read_taxonomy db) = map taxonomy_page_of (sort_key pj_id (filter (\<lambda>p. pj_id p \<in> fst ` set (y_assignments db)) (o_pages db)))"
  "tx_groups (read_taxonomy db) = sort_key group_id (y_groups db)"
  by (simp_all add: read_taxonomy_def Let_def)

lemma distinct_sort_key [simp]: "distinct (sort_key f xs) \<longleftrightarrow> distinct xs"
  by (simp add: distinct_sort)

lemma unique_sort_key [simp]: "unique_key k (sort_key f xs) \<longleftrightarrow> unique_key k xs"
  by (simp add: unique_key_def distinct_map)

text \<open>
  The vocabulary is well-formed, identifiers are positive, pages have keys, only stored pages are
  tagged, and the tags that access checks read are the assigned ones.
\<close>

definition store_ok :: "'z taxonomy_db_scheme \<Rightarrow> bool" where
  "store_ok db = (taxonomy_ok (read_taxonomy db) \<and> stored_ids (read_taxonomy db) \<and> unique_key pj_id (o_pages db)
     \<and> fst ` set (y_assignments db) \<subseteq> pj_id ` set (o_pages db)
     \<and> (\<forall>page name. (page, name) \<in> set (o_tags db) \<longleftrightarrow> name \<in> page_tag_names (read_taxonomy db) page))"

lemma same_read: "same_vocabulary (vocabulary (y_tags db) (y_assignments db)) (read_taxonomy db)"
  by (simp add: same_vocabulary_def)

lemma taxonomy_ok_read: "taxonomy_ok (read_taxonomy db) \<longleftrightarrow> taxonomy_ok (vocabulary (y_tags db) (y_assignments db))"
proof
  assume ok: "taxonomy_ok (read_taxonomy db)"
  show "taxonomy_ok (vocabulary (y_tags db) (y_assignments db))"
    by (rule same_vocabulary_ok [OF ok same_vocabulary_sym [OF same_read]]) (use taxonomy_okD(1,3) [OF ok] in simp_all)
next
  assume ok: "taxonomy_ok (vocabulary (y_tags db) (y_assignments db))"
  show "taxonomy_ok (read_taxonomy db)"
    by (rule same_vocabulary_ok [OF ok same_read]) (use taxonomy_okD(1,3) [OF ok] in simp_all)
qed

lemma names_read: "page_tag_names (read_taxonomy db) page = page_tag_names (vocabulary (y_tags db) (y_assignments db)) page"
  by (rule same_vocabulary_names [OF same_read])

section \<open>New tags\<close>

lemma taxonomy_ok_added:
  assumes "taxonomy_ok (vocabulary tags rows)" "unique_key tag_id (tags @ ts)" "unique_key tag_tag (tags @ ts)" "\<And>t. t \<in> set ts \<Longrightarrow> tag_redirect t = None"
  shows "taxonomy_ok (vocabulary (tags @ ts) rows)"
  using assms
proof (induction ts arbitrary: tags)
  case (Cons t ts)
  have "taxonomy_ok (vocabulary tags rows\<lparr>tx_tags := tx_tags (vocabulary tags rows) @ [t]\<rparr>)"
    by (rule taxonomy_ok_fresh [OF Cons.prems(1)]) (use Cons.prems in \<open>auto simp: unique_key_def\<close>)
  then have "taxonomy_ok (vocabulary (tags @ [t]) rows)" by (simp add: vocabulary_def)
  from Cons.IH [OF this] Cons.prems show ?case by simp
qed simp

text \<open>Rows of tags without an assignment carry nothing.\<close>

lemma names_added:
  assumes ok: "taxonomy_ok (vocabulary tags rows)" and d: "unique_key tag_id (tags @ ts)"
  shows "page_tag_names (vocabulary (tags @ ts) rows) page = page_tag_names (vocabulary tags rows) page"
proof -
  have "(page, tag_id t) \<notin> set rows" if "t \<in> set ts" for t
  proof
    assume "(page, tag_id t) \<in> set rows"
    with taxonomy_okD(5) [OF ok, of "(page, tag_id t)"] obtain c where "c \<in> set tags" "tag_id c = tag_id t" by auto
    with d that show False by (auto simp: unique_key_def image_iff)
  qed
  then show ?thesis by (auto simp: page_tag_names_def)
qed

lemma store_okD:
  assumes "store_ok db"
  shows "taxonomy_ok (vocabulary (y_tags db) (y_assignments db))" "\<And>t. t \<in> set (y_tags db) \<Longrightarrow> 0 < tag_id t" "unique_key pj_id (o_pages db)"
    "fst ` set (y_assignments db) \<subseteq> pj_id ` set (o_pages db)"
    "\<And>page name. (page, name) \<in> set (o_tags db) \<longleftrightarrow> name \<in> page_tag_names (vocabulary (y_tags db) (y_assignments db)) page"
  using assms by (auto simp: store_ok_def taxonomy_ok_read names_read stored_ids_def)

lemma store_okI:
  assumes "taxonomy_ok (vocabulary (y_tags db) (y_assignments db))" "\<And>t. t \<in> set (y_tags db) \<Longrightarrow> 0 < tag_id t" "unique_key pj_id (o_pages db)"
    "fst ` set (y_assignments db) \<subseteq> pj_id ` set (o_pages db)"
    "\<And>page name. (page, name) \<in> set (o_tags db) \<longleftrightarrow> name \<in> page_tag_names (vocabulary (y_tags db) (y_assignments db)) page"
  shows "store_ok db"
  using assms by (auto simp: store_ok_def taxonomy_ok_read names_read stored_ids_def)

lemma new_tag_fields [simp]: "tag_id (new_tag i n title stamp) = i" "tag_tag (new_tag i n title stamp) = n"
  "tag_redirect (new_tag i n title stamp) = None" "\<not> tag_archived (new_tag i n title stamp)"
  by (simp_all add: new_tag_def)

lemma create_tag_ok:
  assumes ok: "store_ok db" and new: "0 < ident" and res: "create_tag env actor input ident now db = Inr (i, db')"
  shows "store_ok db'"
proof -
  from res obtain tag title where t: "insert_tag (new_tag ident tag title (te_iso env now)) db = Some db'"
    by (auto simp: create_tag_def rbind_Inr_iff split: option.splits prod.splits)
  let ?t = "new_tag ident tag title (te_iso env now)"
  from t have db': "db' = db\<lparr>y_tags := y_tags db @ [?t]\<rparr>" and n: "ident \<notin> tag_id ` set (y_tags db)" "tag \<notin> tag_tag ` set (y_tags db)"
    by (auto simp: insert_tag_def sql_insert_def split: if_splits)
  note o = store_okD [OF ok]
  have u: "unique_key tag_id (y_tags db @ [?t])" "unique_key tag_tag (y_tags db @ [?t])"
    using taxonomy_okD(1,2) [OF o(1)] n by (auto simp: unique_key_def)
  have f: "y_tags db' = y_tags db @ [?t]" "y_assignments db' = y_assignments db" "o_pages db' = o_pages db" "o_tags db' = o_tags db"
    by (simp_all add: db')
  show ?thesis
    by (rule store_okI; (unfold f)?)
      (use o(2-5) new taxonomy_ok_added [OF o(1) u] in \<open>auto simp: names_added [OF o(1) u(1)]\<close>)
qed

section \<open>Tagging a page\<close>

lemma stored_tag_Some:
  assumes "unique_key tag_id tags"
  shows "stored_tag i tags = Some t \<longleftrightarrow> t \<in> set tags \<and> tag_id t = i"
proof
  assume "t \<in> set tags \<and> tag_id t = i"
  with sql_first_unique [OF assms, of t "\<lambda>t. tag_id t = i" i] show "stored_tag i tags = Some t" by (auto simp: stored_tag_def)
qed (auto simp: stored_tag_def dest: sql_first_SomeD)

lemma named_tags_set:
  assumes "unique_key tag_id tags"
  shows "(p, n) \<in> set (named_tags tags rows) \<longleftrightarrow> (\<exists>t\<in>set tags. tag_tag t = n \<and> (p, tag_id t) \<in> set rows)"
proof -
  have "(p, n) \<in> set (named_tags tags rows) \<longleftrightarrow> (\<exists>i t. (p, i) \<in> set rows \<and> stored_tag i tags = Some t \<and> n = tag_tag t)"
    by (force simp: named_tags_def split: option.splits)
  then show ?thesis unfolding stored_tag_Some [OF assms] by blast
qed

text \<open>What writing the assignments of one page does to the tags that are read.\<close>

lemma page_tags_written:
  assumes u: "unique_key tag_id tags"
    and others: "\<And>p i. p \<noteq> page \<Longrightarrow> (p, i) \<in> set rows' \<longleftrightarrow> (p, i) \<in> set rows"
    and old: "\<And>p n. p \<noteq> page \<Longrightarrow> (p, n) \<in> set old \<longleftrightarrow> n \<in> page_tag_names (vocabulary tags rows) p"
  shows "(p, n) \<in> set (sql_delete (\<lambda>r. fst r = page) old @ named_tags tags (filter (\<lambda>a. fst a = page) rows'))
     \<longleftrightarrow> n \<in> page_tag_names (vocabulary tags rows') p"
proof (cases "p = page")
  case True
  then show ?thesis using named_tags_set [OF u] by (auto simp: page_tag_names_def)
next
  case False
  then show ?thesis using others old [OF False] named_tags_set [OF u] by (auto simp: page_tag_names_def)
qed

lemma collect_names_distinct: "collect_names vs names = Inr ns \<Longrightarrow> distinct names \<Longrightarrow> distinct ns"
  by (induction vs arbitrary: names) (auto simp: rbind_Inr_iff split: if_splits)

lemma tag_names_distinct: "tag_names v = Inr ns \<Longrightarrow> distinct ns"
  by (auto simp: tag_names_def split: js_value.splits if_splits intro: collect_names_distinct)

lemma tags_of_page_set [simp]: "set (tags_of_page page rows) = {i. (page, i) \<in> set rows}"
  by (force simp: tags_of_page_def)

lemma missing_tags_fields:
  "t \<in> set (missing_tags env fresh now names tags) \<Longrightarrow> tag_redirect t = None \<and> \<not> tag_archived t \<and> tag_tag t \<in> set names"
  "map tag_tag (missing_tags env fresh now names tags) = filter (\<lambda>n. n \<notin> tag_tag ` set tags) names"
  by (auto simp: missing_tags_def comp_def)

lemma relate_tags_fields:
  "y_tags (relate_tags page targets tags db) = y_tags db" "y_groups (relate_tags page targets tags db) = y_groups db"
  "o_pages (relate_tags page targets tags db) = o_pages db"
  "o_tags (relate_tags page targets tags db) = sql_delete (\<lambda>r. fst r = page) (o_tags db)
     @ named_tags tags (filter (\<lambda>a. fst a = page) (y_assignments (relate_tags page targets tags db)))"
  "set (y_assignments (relate_tags page targets tags db)) = {a \<in> set (y_assignments db). fst a \<noteq> page} \<union> Pair page ` set targets"
  by (auto simp: relate_tags_def Let_def)

lemma relate_tags_distinct: "distinct (y_assignments db) \<Longrightarrow> distinct targets \<Longrightarrow> distinct (y_assignments (relate_tags page targets tags db))"
  by (auto simp: relate_tags_def Let_def sql_delete_def distinct_map inj_on_def)

definition resolved_names :: "alias_map \<Rightarrow> string list \<Rightarrow> string set" where
  "resolved_names m names = {x. \<exists>n\<in>set names. m n = Some (Some x)}"

text \<open>Every submitted name leads to an active tag once the missing ones are stored.\<close>

lemma submitted_names_lead:
  assumes ok: "taxonomy_ok (vocabulary tags rows)" and m: "tag_alias_map (sort_key tag_id tags) = Inr m"
    and known: "set names \<subseteq> tag_tag ` set tags" and live: "\<not> list_ex (\<lambda>n. m n = Some None) names"
  shows "canonical_name m ` set names = resolved_names m names"
    and "n \<in> set names \<Longrightarrow> \<exists>x. m n = Some (Some x)"
    and "x \<in> resolved_names m names \<Longrightarrow> \<exists>t\<in>set tags. tag_tag t = x \<and> active_canonical t"
proof -
  let ?s = "vocabulary tags rows" and ?r = "vocabulary (sort_key tag_id tags) rows"
  have ok': "taxonomy_ok ?r"
    by (rule same_vocabulary_ok [OF ok]) (use taxonomy_okD(1,3) [OF ok] in \<open>simp_all add: same_vocabulary_def\<close>)
  obtain m' where m': "tag_alias_map (tx_tags ?r) = Inr m'" "\<And>t. t \<in> set (tx_tags ?r) \<Longrightarrow> tag_archived t \<Longrightarrow> m' (tag_tag t) = Some None"
    "\<And>t. t \<in> set (tx_tags ?r) \<Longrightarrow> \<not> tag_archived t \<Longrightarrow>
      \<exists>c\<in>set (tx_tags ?r). tag_id c = target_id t \<and> active_canonical c \<and> m' (tag_tag t) = Some (Some (tag_tag c))"
    by (rule alias_map_ok [OF ok'], rule that; assumption)
  have "m' = m" using m m'(1) by simp
  have lead: "\<exists>c\<in>set tags. active_canonical c \<and> m n = Some (Some (tag_tag c))" if "n \<in> set names" for n
  proof -
    from known that obtain t where t: "t \<in> set tags" "tag_tag t = n" by auto
    have "m n \<noteq> Some None" using live that by (auto simp: list_ex_iff)
    with m'(2) [of t] t \<open>m' = m\<close> have "\<not> tag_archived t" by auto
    with m'(3) [of t] t \<open>m' = m\<close> show ?thesis by auto
  qed
  then show "canonical_name m ` set names = resolved_names m names"
    by (force simp: canonical_name_def resolved_names_def)
  show "n \<in> set names \<Longrightarrow> \<exists>x. m n = Some (Some x)" using lead by blast
  show "x \<in> resolved_names m names \<Longrightarrow> \<exists>t\<in>set tags. tag_tag t = x \<and> active_canonical t"
    using lead by (force simp: resolved_names_def)
qed

lemma associate_success:
  assumes ok: "store_ok db" and res: "associate_tags env fresh input page now db = Inr (changed, db')"
  obtains names m targets where "tag_names input = Inr names" "tag_alias_map (sort_key tag_id (y_tags db')) = Inr m"
    "y_tags db' = y_tags db @ missing_tags env fresh now names (y_tags db)"
    "db' = relate_tags page targets (y_tags db') (db\<lparr>y_tags := y_tags db'\<rparr>)"
    "targets = map tag_id (filter (\<lambda>t. tag_tag t \<in> resolved_names m names) (y_tags db'))"
    "\<And>x. x \<in> resolved_names m names \<Longrightarrow> \<exists>t\<in>set (y_tags db'). tag_tag t = x \<and> active_canonical t"
    "taxonomy_ok (vocabulary (y_tags db') (y_assignments db))" "page \<in> pj_id ` set (o_pages db) \<or> set targets \<subseteq> {i. (page, i) \<in> set (y_assignments db)}"
    "\<forall>n\<in>set names. \<exists>x. m n = Some (Some x)" "changed \<longleftrightarrow> set targets \<noteq> {i. (page, i) \<in> set (y_assignments db)}"
proof -
  from res obtain names where names: "tag_names input = Inr names" by (auto simp: associate_tags_def rbind_Inr_iff)
  define tags where "tags = y_tags db @ missing_tags env fresh now names (y_tags db)"
  from res names obtain m where uid: "unique_key tag_id tags" and m: "tag_alias_map (sort_key tag_id tags) = Inr m"
    and live: "\<not> list_ex (\<lambda>n. m n = Some None) names"
    by (auto simp: associate_tags_def Let_def tags_def [symmetric] rbind_Inr_iff split: if_splits)
  define targets where "targets = map tag_id (filter (\<lambda>t. tag_tag t \<in> set (dedup (map (canonical_name m) names))) tags)"
  have same: "targets = map tag_id (filter (\<lambda>t. tag_tag t \<in> canonical_name m ` set names) tags)" by (simp add: targets_def)
  from res names uid m live have db': "db' = relate_tags page targets tags (db\<lparr>y_tags := tags\<rparr>)"
    and here: "page \<in> pj_id ` set (o_pages db) \<or> set targets \<subseteq> {i. (page, i) \<in> set (y_assignments db)}"
    and ch: "changed \<longleftrightarrow> set targets \<noteq> {i. (page, i) \<in> set (y_assignments db)}"
    by (auto simp: associate_tags_def Let_def tags_def [symmetric] targets_def [symmetric] list_ex_iff split: if_splits simp del: set_dedup set_map)
  note o = store_okD [OF ok]
  have "unique_key tag_tag tags"
    using taxonomy_okD(2) [OF o(1)] tag_names_distinct [OF names]
    by (auto simp: unique_key_def tags_def missing_tags_fields(2))
  from taxonomy_ok_added [OF o(1) uid [unfolded tags_def] this [unfolded tags_def]] missing_tags_fields(1)
  have ok': "taxonomy_ok (vocabulary tags (y_assignments db))" unfolding tags_def by blast
  have known: "set names \<subseteq> tag_tag ` set tags"
    using arg_cong [OF missing_tags_fields(2) [of env fresh now names "y_tags db"], of set] by (auto simp: tags_def image_Un)
  note leads = submitted_names_lead [OF ok' m known live]
  have "y_tags db' = tags" by (simp add: db' relate_tags_fields)
  then show ?thesis
    using that [of names m targets] names m leads ok' here ch db' same by (simp add: tags_def)
qed

lemma associate_ok:
  assumes ok: "store_ok db" and new: "\<And>n. 0 < fresh n" and res: "associate_tags env fresh input page now db = Inr (changed, db')"
  shows "store_ok db'"
proof -
  obtain names m targets where tags: "y_tags db' = y_tags db @ missing_tags env fresh now names (y_tags db)"
    and db': "db' = relate_tags page targets (y_tags db') (db\<lparr>y_tags := y_tags db'\<rparr>)"
    and targets: "targets = map tag_id (filter (\<lambda>t. tag_tag t \<in> resolved_names m names) (y_tags db'))"
    and act: "\<And>x. x \<in> resolved_names m names \<Longrightarrow> \<exists>t\<in>set (y_tags db'). tag_tag t = x \<and> active_canonical t"
    and ok1: "taxonomy_ok (vocabulary (y_tags db') (y_assignments db))"
    and here: "page \<in> pj_id ` set (o_pages db) \<or> set targets \<subseteq> {i. (page, i) \<in> set (y_assignments db)}"
    by (rule associate_success [OF ok res], rule that; assumption)
  note o = store_okD [OF ok]
  note rel = relate_tags_fields [of page targets "y_tags db'" "db\<lparr>y_tags := y_tags db'\<rparr>", folded db']
  have rows: "set (y_assignments db') = {a \<in> set (y_assignments db). fst a \<noteq> page} \<union> Pair page ` set targets"
    and pages: "o_pages db' = o_pages db" using rel(3,5) by simp_all
  have uid: "unique_key tag_id (y_tags db')" using taxonomy_okD(1) [OF ok1] by simp
  then have "distinct targets" by (simp add: targets unique_key_def distinct_map_filter)
  then have d: "distinct (y_assignments db')"
    using relate_tags_distinct [of "db\<lparr>y_tags := y_tags db'\<rparr>" targets page "y_tags db'", folded db'] taxonomy_okD(3) [OF ok1] by simp
  have names: "page_tag_names (vocabulary (y_tags db') (y_assignments db)) p = page_tag_names (vocabulary (y_tags db) (y_assignments db)) p" for p
    using names_added [OF o(1)] uid unfolding tags by blast
  show ?thesis
  proof (rule store_okI)
    have "\<exists>c\<in>set (y_tags db'). tag_id c = snd a \<and> active_canonical c" if "a \<in> set (y_assignments db')" for a
    proof (cases "a \<in> set (y_assignments db)")
      case True
      with taxonomy_okD(5) [OF ok1] show ?thesis by simp
    next
      case False
      with that rows obtain t where t: "t \<in> set (y_tags db')" "tag_id t = snd a" "tag_tag t \<in> resolved_names m names" by (auto simp: targets)
      from act [OF t(3)] same_name [OF ok1] t(1,2) show ?thesis by (metis vocabulary_fields(1))
    qed
    then show "taxonomy_ok (vocabulary (y_tags db') (y_assignments db'))"
      using taxonomy_okD(1,2,4) [OF ok1] d unfolding taxonomy_ok_def by (metis vocabulary_fields)
    show "0 < tag_id t" if "t \<in> set (y_tags db')" for t
      using that o(2) new by (auto simp: tags missing_tags_def)
    show "fst ` set (y_assignments db') \<subseteq> pj_id ` set (o_pages db')"
      using o(4) here rows pages by force
    show "(p, n) \<in> set (o_tags db') \<longleftrightarrow> n \<in> page_tag_names (vocabulary (y_tags db') (y_assignments db')) p" for p n
    proof -
      have e: "o_tags db' = sql_delete (\<lambda>r. fst r = page) (o_tags db) @ named_tags (y_tags db') (filter (\<lambda>a. fst a = page) (y_assignments db'))"
        using rel(4) by simp
      show ?thesis unfolding e
        by (rule page_tags_written [OF uid, where rows = "y_assignments db"]) (use rows o(5) names in auto)
    qed
  qed (use o(3) pages in simp)
qed

text \<open>C31. Tagging a page gives it exactly the tags its editor named, under the names they lead to: every
  submitted name leads to an active tag once the operation is done, the page carries the tags at
  the ends of the redirects and nothing else, every other page carries what it carried, and the
  result is true exactly when the page's tags changed.
\<close>

theorem page_tags_resolve:
  assumes "store_ok db" "associate_tags env fresh input page now db = Inr (changed, db')"
  shows "\<exists>names m. tag_names input = Inr names \<and> tag_alias_map (tx_tags (read_taxonomy db')) = Inr m
     \<and> (\<forall>n\<in>set names. \<exists>x. m n = Some (Some x)) \<and> page_tag_names (read_taxonomy db') page = resolved_names m names
     \<and> (\<forall>other. other \<noteq> page \<longrightarrow> page_tag_names (read_taxonomy db') other = page_tag_names (read_taxonomy db) other)
     \<and> (changed \<longleftrightarrow> page_tag_names (read_taxonomy db') page \<noteq> page_tag_names (read_taxonomy db) page)"
proof -
  obtain names m targets where tags: "y_tags db' = y_tags db @ missing_tags env fresh now names (y_tags db)"
    and n: "tag_names input = Inr names" "tag_alias_map (sort_key tag_id (y_tags db')) = Inr m" "\<forall>n\<in>set names. \<exists>x. m n = Some (Some x)"
    and db': "db' = relate_tags page targets (y_tags db') (db\<lparr>y_tags := y_tags db'\<rparr>)"
    and targets: "targets = map tag_id (filter (\<lambda>t. tag_tag t \<in> resolved_names m names) (y_tags db'))"
    and act: "\<And>x. x \<in> resolved_names m names \<Longrightarrow> \<exists>t\<in>set (y_tags db'). tag_tag t = x \<and> active_canonical t"
    and ok1: "taxonomy_ok (vocabulary (y_tags db') (y_assignments db))"
    and ch: "changed \<longleftrightarrow> set targets \<noteq> {i. (page, i) \<in> set (y_assignments db)}"
    by (rule associate_success [OF assms], rule that; assumption)
  have rows: "set (y_assignments db') = {a \<in> set (y_assignments db). fst a \<noteq> page} \<union> Pair page ` set targets"
    using relate_tags_fields(5) [of page targets "y_tags db'" "db\<lparr>y_tags := y_tags db'\<rparr>", folded db'] by simp
  have uid: "unique_key tag_id (y_tags db')" using taxonomy_okD(1) [OF ok1] by simp
  have inj: "inj_on tag_id (set (y_tags db'))" "inj_on tag_tag (set (y_tags db'))"
    using taxonomy_okD(1,2) [OF ok1] by (simp_all add: unique_key_def distinct_map)
  have before: "page_tag_names (read_taxonomy db) p = tag_tag ` {t \<in> set (y_tags db'). (p, tag_id t) \<in> set (y_assignments db)}" for p
  proof -
    have "page_tag_names (vocabulary (y_tags db') (y_assignments db)) p = page_tag_names (vocabulary (y_tags db) (y_assignments db)) p"
      using names_added [OF store_okD(1) [OF assms(1)]] uid unfolding tags by blast
    then show ?thesis unfolding names_read page_tag_names_def vocabulary_fields by simp
  qed
  have after: "page_tag_names (read_taxonomy db') p = tag_tag ` {t \<in> set (y_tags db'). (p, tag_id t) \<in> set (y_assignments db')}" for p
    by (simp add: names_read page_tag_names_def)
  let ?T = "{t \<in> set (y_tags db'). tag_tag t \<in> resolved_names m names}" and ?C = "{t \<in> set (y_tags db'). (page, tag_id t) \<in> set (y_assignments db)}"
  have "{t \<in> set (y_tags db'). (page, tag_id t) \<in> set (y_assignments db')} = ?T"
    using inj(1) by (auto simp: rows targets inj_on_def)
  then have this_page: "page_tag_names (read_taxonomy db') page = tag_tag ` ?T" unfolding after by simp
  also have "\<dots> = resolved_names m names" using act by force
  finally have "page_tag_names (read_taxonomy db') page = resolved_names m names" .
  moreover have "changed \<longleftrightarrow> page_tag_names (read_taxonomy db') page \<noteq> page_tag_names (read_taxonomy db) page"
  proof -
    have "set targets = tag_id ` ?T" by (auto simp: targets)
    moreover have "{i. (page, i) \<in> set (y_assignments db)} = tag_id ` ?C"
      using taxonomy_okD(5) [OF ok1] by (auto simp: image_iff) (metis snd_conv)
    moreover have "tag_id ` ?T = tag_id ` ?C \<longleftrightarrow> ?T = ?C" by (rule inj_on_image_eq_iff [OF inj(1)]) auto
    moreover have "tag_tag ` ?T = tag_tag ` ?C \<longleftrightarrow> ?T = ?C" by (rule inj_on_image_eq_iff [OF inj(2)]) auto
    ultimately show ?thesis unfolding ch this_page before [of page] by simp
  qed
  moreover have "page_tag_names (read_taxonomy db') other = page_tag_names (read_taxonomy db) other" if "other \<noteq> page" for other
    unfolding before after using that by (auto simp: rows)
  ultimately show ?thesis using n by auto
qed

section \<open>What a committed change writes\<close>

lemma enqueue_one_adds:
  assumes "enqueue_one env p ident now db = Inr (x, db')"
  shows "set (o_effects db) \<subseteq> set (o_effects db') \<and> (\<exists>r\<in>set (o_effects db'). effect_is (pp_page p) (pp_revision p) (pp_kind p) r \<and> ef_desired r = pp_desired p)"
proof -
  have "set (o_effects db) \<subseteq> set (o_effects db')" using assms by (auto simp: enqueue_one_def split: if_splits option.splits)
  with enqueue_one_stored [OF assms] show ?thesis by (auto simp: stored_as_def)
qed

lemma enqueue_all_adds:
  "enqueue_all env i page rv fresh now ks db = Inr (x, db') \<Longrightarrow> set (o_effects db) \<subseteq> set (o_effects db')
     \<and> (\<forall>k\<in>set ks. \<exists>r\<in>set (o_effects db'). effect_is page rv k r \<and> ef_desired r = eq_desired i)"
proof (induction ks arbitrary: db x)
  case (Cons k ks)
  from Cons.prems obtain y db1 z where one: "enqueue_one env (intent_payload env i page rv k) (fresh k) now db = Inr (y, db1)"
    and rest: "enqueue_all env i page rv fresh now ks db1 = Inr (z, db')"
    by (auto simp: rbind_Inr_iff split: prod.splits)
  from enqueue_one_adds [OF one] Cons.IH [OF rest] show ?case by (auto simp: intent_payload_def)
qed simp

lemma enqueue_effects_adds:
  assumes "enqueue_effects env i fresh now db = Inr (x, db')" "eq_page i = Whole page" "eq_effects i = None"
  shows "set (o_effects db) \<subseteq> set (o_effects db') \<and> (\<forall>k. \<exists>r\<in>set (o_effects db'). effect_is page (eq_revision i) k r \<and> ef_desired r = eq_desired i)"
proof -
  have "k \<in> set all_effects" for k by (cases k) (simp_all add: all_effects_def)
  with assms show ?thesis
    by (auto simp: enqueue_effects_def rbind_Inr_iff revision_string_def Let_def split: if_splits dest!: enqueue_all_adds)
qed

definition vocabulary_tables :: "'z taxonomy_db_scheme \<Rightarrow> tag_row list \<times> (int \<times> int) list \<times> access_group list \<times> (int \<times> string) list" where
  "vocabulary_tables db = (y_tags db, y_assignments db, y_groups db, o_tags db)"

lemma enqueue_vocabulary_tables:
  fixes db db' :: "'z taxonomy_db_scheme"
  assumes "enqueue_effects env i fresh now db = Inr (x, db')"
  shows "vocabulary_tables db' = vocabulary_tables db"
  using enqueue_effects_frame [OF assms] by (cases db; cases db') (simp add: vocabulary_tables_def same_frame_def)

lemma write_event_vocabulary_tables:
  fixes db db' :: "'z taxonomy_db_scheme"
  assumes "write_outbox_event ident type v at a payload now db = Inr (x, db')"
  shows "vocabulary_tables db' = vocabulary_tables db \<and> o_effects db' = o_effects db"
  using assms by (auto simp: write_outbox_event_def vocabulary_tables_def split: if_splits)

lemma unlock_vocabulary_tables:
  fixes db db' :: "'z taxonomy_db_scheme"
  assumes "assert_page_unlocked env requester au page session now db = Inr (u, db')"
  shows "vocabulary_tables db' = vocabulary_tables db \<and> approval_tables db' = approval_tables db \<and> o_effects db' = o_effects db"
  using assms by (auto simp: assert_page_unlocked_def page_requires_unlock_def prune_grants_def Let_def vocabulary_tables_def approval_tables_def
      split: option.splits if_splits)

definition retagged :: "int \<Rightarrow> int \<Rightarrow> taxonomy \<Rightarrow> int \<Rightarrow> int \<Rightarrow> 'z taxonomy_db_scheme \<Rightarrow> 'z taxonomy_db_scheme \<Rightarrow> bool" where
  "retagged ident author after now page db db' = (\<exists>p h. find_page page db = Some p \<and> snapshot_row ident p ''updated'' h \<and> o_history db' = o_history db @ [h]
     \<and> y_tags db' = y_tags db \<and> y_groups db' = y_groups db
     \<and> y_assignments db' = sql_delete (\<lambda>a. fst a = page) (y_assignments db) @ filter (\<lambda>a. fst a = page) (tx_assignments after)
     \<and> o_tags db' = sql_delete (\<lambda>r. fst r = page) (o_tags db) @ named_tags (tx_tags after) (filter (\<lambda>a. fst a = page) (tx_assignments after))
     \<and> o_pages db' = sql_update (\<lambda>q. pj_id q = page) (retagged_page author now) (o_pages db)
     \<and> set (o_effects db) \<subseteq> set (o_effects db')
     \<and> (\<forall>k. \<exists>r\<in>set (o_effects db'). effect_is page (pj_revision (retagged_page author now p)) k r \<and> ef_desired r = Present))"

lemma retagged_page_fields [simp]:
  "pj_id (retagged_page author now p) = pj_id p" "pj_revision (retagged_page author now p) = decimal (decimal_value (pj_revision p) + 1)"
  "pj_content (retagged_page author now p) = pj_content p" "pj_location (retagged_page author now p) = pj_location p"
  "pj_title (retagged_page author now p) = pj_title p" "pj_published (retagged_page author now p) = pj_published p"
  by (simp_all add: retagged_page_def increment_revision_def)

lemma retag_page_success:
  fixes db db' :: "'z taxonomy_db_scheme"
  assumes "retag_page env ids actor author after now page db = Inr (u, db')"
  shows "retagged (fy_history ids page) author after now page db db'"
proof -
  obtain p where p: "find_page page db = Some p" using assms by (cases "find_page page db") (simp_all add: retag_page_def)
  have pid: "pj_id p = page" using p by (auto simp: find_page_def dest: sql_first_SomeD)
  obtain r db1 where snap: "snapshot_revision (fy_history ids page) p ''updated'' db = Inr (r, db1)"
    using assms p by (auto simp: retag_page_def rbind_Inr_iff)
  from snapshot_revision_success [OF snap] obtain h where h: "snapshot_row (fy_history ids page) p ''updated'' h"
    "approval_tables db1 = (o_pages db, o_history db @ [h], o_requests db, o_transitions db, o_users db)" by metis
  have v1: "vocabulary_tables db1 = vocabulary_tables db" "o_effects db1 = o_effects db"
    using snap by (auto simp: snapshot_revision_def vocabulary_tables_def split: if_splits)
  define db2 where "db2 = write_assignments after page db1"
  define db3 where "db3 = db2\<lparr>o_pages := sql_update (\<lambda>q. pj_id q = page) (retagged_page author now) (o_pages db2)\<rparr>"
  from assms p snap obtain x db4 y tags where e: "enqueue_effects (pe_text (te_page env)) (retagged_intent p) (fy_effects ids page) now db3 = Inr (x, db4)"
    and ev: "retagged_event (fy_event ids page) actor author p tags now db4 = Inr (y, db')"
    by (auto simp: retag_page_def rbind_Inr_iff Let_def db2_def db3_def)
  note e' = enqueue_effects_adds [OF e, of page] enqueue_vocabulary_tables [OF e] enqueue_approval_tables [OF e]
  note w = write_event_vocabulary_tables [OF ev [unfolded retagged_event_def]] write_event_tables [OF ev [unfolded retagged_event_def]]
  have 3: "y_tags db3 = y_tags db" "y_groups db3 = y_groups db"
    "y_assignments db3 = sql_delete (\<lambda>a. fst a = page) (y_assignments db) @ filter (\<lambda>a. fst a = page) (tx_assignments after)"
    "o_tags db3 = sql_delete (\<lambda>r. fst r = page) (o_tags db) @ named_tags (tx_tags after) (filter (\<lambda>a. fst a = page) (tx_assignments after))"
    "o_pages db3 = sql_update (\<lambda>q. pj_id q = page) (retagged_page author now) (o_pages db)" "o_history db3 = o_history db @ [h]" "o_effects db3 = o_effects db"
    using v1 h(2) by (simp_all add: db3_def db2_def write_assignments_def Let_def vocabulary_tables_def approval_tables_def)
  show ?thesis
    unfolding retagged_def
    using p h(1) 3 e' w by (intro exI [of _ p] exI [of _ h]) (simp add: retagged_intent_def pid vocabulary_tables_def approval_tables_def)
qed

definition intents_stored :: "int \<Rightarrow> string \<Rightarrow> effect_row list \<Rightarrow> bool" where
  "intents_stored page rv rows = (\<forall>k. \<exists>r\<in>set rows. effect_is page rv k r \<and> ef_desired r = Present)"

definition retagged_all :: "(int \<Rightarrow> int) \<Rightarrow> int \<Rightarrow> taxonomy \<Rightarrow> int \<Rightarrow> int list \<Rightarrow> 'z taxonomy_db_scheme \<Rightarrow> 'z taxonomy_db_scheme \<Rightarrow> bool" where
  "retagged_all fresh author after now ps db db' = (y_tags db' = y_tags db \<and> y_groups db' = y_groups db
     \<and> set (y_assignments db') = {a \<in> set (y_assignments db). fst a \<notin> set ps} \<union> {a \<in> set (tx_assignments after). fst a \<in> set ps}
     \<and> (\<forall>q n. (q, n) \<in> set (o_tags db') \<longleftrightarrow> (if q \<in> set ps then \<exists>t\<in>set (tx_tags after). tag_tag t = n \<and> (q, tag_id t) \<in> set (tx_assignments after)
          else (q, n) \<in> set (o_tags db)))
     \<and> o_pages db' = map (\<lambda>q. if pj_id q \<in> set ps then retagged_page author now q else q) (o_pages db)
     \<and> (\<exists>hs. o_history db' = o_history db @ hs \<and> (\<forall>p\<in>set ps. \<exists>q. find_page p db = Some q \<and> (\<exists>h\<in>set hs. snapshot_row (fresh p) q ''updated'' h)))
     \<and> set (o_effects db) \<subseteq> set (o_effects db')
     \<and> (\<forall>p\<in>set ps. \<exists>q. find_page p db = Some q \<and> intents_stored p (pj_revision (retagged_page author now q)) (o_effects db')))"

lemma find_page_retagged:
  assumes "p \<noteq> page" "o_pages db' = sql_update (\<lambda>q. pj_id q = page) (retagged_page author now) (o_pages db)"
  shows "find_page p db' = find_page p db"
proof -
  have "sql_first (\<lambda>q. pj_id q = p) (sql_update (\<lambda>q. pj_id q = page) (retagged_page author now) rows) = sql_first (\<lambda>q. pj_id q = p) rows" for rows
    using assms(1) by (induction rows) (simp_all add: table_simps)
  then show ?thesis by (simp add: find_page_def assms(2))
qed

lemma retag_pages_success:
  fixes db db' :: "'z taxonomy_db_scheme"
  assumes "for_pages (retag_page env ids actor author after now) ps db = Inr (u, db')" "distinct ps" "unique_key tag_id (tx_tags after)"
  shows "retagged_all (fy_history ids) author after now ps db db'"
  using assms(1,2)
proof (induction ps arbitrary: db)
  case Nil
  then show ?case by (auto simp: retagged_all_def)
next
  case (Cons p ps)
  from Cons.prems obtain v db1 where one: "retag_page env ids actor author after now p db = Inr (v, db1)"
    and rest: "for_pages (retag_page env ids actor author after now) ps db1 = Inr (u, db')" and d: "p \<notin> set ps" "distinct ps"
    by (auto simp: rbind_Inr_iff split: prod.splits)
  from retag_page_success [OF one] obtain q h where q: "find_page p db = Some q" "snapshot_row (fy_history ids p) q ''updated'' h" "o_history db1 = o_history db @ [h]"
    and 1: "y_tags db1 = y_tags db" "y_groups db1 = y_groups db"
      "y_assignments db1 = sql_delete (\<lambda>a. fst a = p) (y_assignments db) @ filter (\<lambda>a. fst a = p) (tx_assignments after)"
      "o_tags db1 = sql_delete (\<lambda>r. fst r = p) (o_tags db) @ named_tags (tx_tags after) (filter (\<lambda>a. fst a = p) (tx_assignments after))"
      "o_pages db1 = sql_update (\<lambda>q. pj_id q = p) (retagged_page author now) (o_pages db)" "set (o_effects db) \<subseteq> set (o_effects db1)"
      "intents_stored p (pj_revision (retagged_page author now q)) (o_effects db1)"
    unfolding retagged_def intents_stored_def by blast
  note IH = Cons.IH [OF rest d(2), unfolded retagged_all_def]
  have find: "find_page x db1 = find_page x db" if "x \<in> set ps" for x
    by (rule find_page_retagged [OF _ 1(5)]) (use that d(1) in auto)
  have kept: "intents_stored x rv (o_effects db')" if "intents_stored x rv (o_effects db1)" for x rv
    using that IH unfolding intents_stored_def by blast
  have tags: "(x, n) \<in> set (o_tags db1) \<longleftrightarrow> (if x = p then \<exists>t\<in>set (tx_tags after). tag_tag t = n \<and> (x, tag_id t) \<in> set (tx_assignments after)
      else (x, n) \<in> set (o_tags db))" for x n
    by (auto simp: 1(4) named_tags_set [OF assms(3)])
  obtain hs where hs: "o_history db' = o_history db1 @ hs"
    "\<forall>x\<in>set ps. \<exists>q. find_page x db1 = Some q \<and> (\<exists>h\<in>set hs. snapshot_row (fy_history ids x) q ''updated'' h)" using IH by blast
  show ?case
    unfolding retagged_all_def
  proof (intro conjI)
    show "o_pages db' = map (\<lambda>q. if pj_id q \<in> set (p # ps) then retagged_page author now q else q) (o_pages db)"
      using IH d(1) by (auto simp: 1(5) sql_update_def)
    show "set (y_assignments db') = {a \<in> set (y_assignments db). fst a \<notin> set (p # ps)} \<union> {a \<in> set (tx_assignments after). fst a \<in> set (p # ps)}"
      using IH d(1) by (auto simp: 1(3))
    show "\<forall>x n. (x, n) \<in> set (o_tags db') \<longleftrightarrow> (if x \<in> set (p # ps) then \<exists>t\<in>set (tx_tags after). tag_tag t = n \<and> (x, tag_id t) \<in> set (tx_assignments after)
          else (x, n) \<in> set (o_tags db))"
      using IH tags d(1) by simp
    show "\<exists>hs. o_history db' = o_history db @ hs \<and> (\<forall>x\<in>set (p # ps). \<exists>q. find_page x db = Some q \<and> (\<exists>h\<in>set hs. snapshot_row (fy_history ids x) q ''updated'' h))"
      using hs q find by (intro exI [of _ "h # hs"]) (simp, blast)
    show "\<forall>x\<in>set (p # ps). \<exists>q. find_page x db = Some q \<and> intents_stored x (pj_revision (retagged_page author now q)) (o_effects db')"
      using IH kept [OF 1(7)] q(1) find by auto
  qed (use IH 1 in auto)
qed

lemma retag_pages_distinct:
  fixes db db' :: "'z taxonomy_db_scheme"
  assumes "for_pages (retag_page env ids actor author after now) ps db = Inr (u, db')" "distinct (y_assignments db)" "distinct (tx_assignments after)"
  shows "distinct (y_assignments db')"
  using assms(1,2)
proof (induction ps arbitrary: db)
  case (Cons p ps)
  from Cons.prems obtain v db1 where one: "retag_page env ids actor author after now p db = Inr (v, db1)"
    and rest: "for_pages (retag_page env ids actor author after now) ps db1 = Inr (u, db')"
    by (auto simp: rbind_Inr_iff split: prod.splits)
  have "y_assignments db1 = sql_delete (\<lambda>a. fst a = p) (y_assignments db) @ filter (\<lambda>a. fst a = p) (tx_assignments after)"
    using retag_page_success [OF one] by (auto simp: retagged_def)
  then have "distinct (y_assignments db1)" using Cons.prems(2) assms(3) by (auto simp: sql_delete_def)
  with Cons.IH [OF rest] show ?case .
qed simp

text \<open>The updates of the loop over the tags, by key.\<close>

definition written_tag :: "taxonomy \<Rightarrow> string \<Rightarrow> tag_row list \<Rightarrow> tag_row \<Rightarrow> tag_row" where
  "written_tag before stamp ts r = (case stored_tag (tag_id r) ts of None \<Rightarrow> r
     | Some t \<Rightarrow> if tag_changed before t
         then r\<lparr>tag_redirect := tag_redirect t, tag_archived := tag_archived t, tg_title := tg_title t, tg_updated := stamp\<rparr> else r)"

lemma fold_write_tag:
  assumes "unique_key tag_id ts"
  shows "fold (write_tag before stamp) ts rows = map (written_tag before stamp ts) rows"
  using assms
proof (induction ts arbitrary: rows)
  case Nil
  have "written_tag before stamp [] r = r" for r by (simp add: written_tag_def stored_tag_def table_simps)
  then show ?case by (simp add: map_idI)
next
  case (Cons t ts)
  have u: "unique_key tag_id ts" and t: "tag_id t \<notin> tag_id ` set ts" using Cons.prems by (simp_all add: unique_key_def)
  have none: "stored_tag (tag_id t) ts = None" unfolding stored_tag_def sql_first_None using t by (metis image_eqI)
  have wr: "write_tag before stamp t rows = map (\<lambda>r. if tag_changed before t \<and> tag_id r = tag_id t
      then r\<lparr>tag_redirect := tag_redirect t, tag_archived := tag_archived t, tg_title := tg_title t, tg_updated := stamp\<rparr> else r) rows"
    by (simp add: write_tag_def sql_update_def map_idI)
  show ?case
    unfolding fold.simps o_apply Cons.IH [OF u] wr map_map
    by (rule map_cong [OF refl]) (use none in \<open>auto simp: written_tag_def stored_tag_def table_simps\<close>)
qed

section \<open>The rows of a plan\<close>

lemma change_keeps_pages:
  assumes "change_taxonomy s u aliases change = Inr (s', destination)"
  shows "fst ` set (tx_assignments s') \<subseteq> fst ` set (tx_assignments s)"
  using assms by (cases rule: change_taxonomy_cases) (force simp: redirect_tag_def set_tags_map split: if_splits prod.splits)+

lemma change_destination:
  assumes "change_taxonomy s u aliases change = Inr (s', Some d)"
  shows "d \<in> set (tx_tags s) \<or> tag_id d = -1"
  using assms by (cases rule: change_taxonomy_cases) auto

text \<open>A plan rewrites the stored rows by key, and may add one row, its destination.\<close>

lemma plan_rows:
  assumes ok: "taxonomy_ok s" and stored: "stored_ids s" and plan: "plan_taxonomy digest s input = Inr p"
  obtains f extra where "row_rewrite f" "tx_tags (pn_after p) = map f (tx_tags s) @ extra" "taxonomy_ok (pn_after p)"
    "fst ` set (tx_assignments (pn_after p)) \<subseteq> fst ` set (tx_assignments s)" "pn_changed p = changed_pages s (pn_after p)"
    "extra = [] \<and> (\<forall>y. pn_destination p = Some y \<longrightarrow> tag_id y \<noteq> -1) \<or>
     (\<exists>d y. extra = [d] \<and> active_canonical d \<and> tag_id d = -1 \<and> tag_tag d \<notin> tag_tag ` set (tx_tags s) \<and> pn_destination p = Some y
        \<and> tag_row.truncate y = d)"
proof -
  obtain change u s' destination where P: "read_change input = Inr change" "u \<in> set (tx_tags s)" "tag_id u = changed_tag change"
    "change_taxonomy s u (map tag_id (aliases_of s (tag_id u))) change = Inr (s', destination)"
    "pn_after p = s'" "pn_changed p = changed_pages s s'"
    "\<exists>inventory. taxonomy_inventory s' = Inr inventory
       \<and> pn_destination p = (case destination of None \<Rightarrow> None | Some d \<Rightarrow> sql_first (\<lambda>t. tag_id t = tag_id d) inventory)"
    by (rule plan_success [OF plan], rule that; assumption)
  have target: "j \<noteq> tag_id u" if "change = Merge_tag i j" for i j
    using read_merge P(1,3) that by fastforce
  have "\<exists>f. change_scope s u s' destination f" by (rule change_taxonomy_scope [OF ok stored P(2) _ P(4)]) (rule target)
  then obtain f where f: "change_scope s u s' destination f" by blast
  have ok': "taxonomy_ok s'" by (rule change_taxonomy_ok [OF ok stored P(2) _ P(4)]) (rule target)
  from f have rw: "row_rewrite f" and tags: "tx_tags s' = map f (tx_tags s @ added_rows s destination)" by (simp_all add: change_scope_def)
  have last: "map f (added_rows s destination) = [] \<and> (\<forall>y. pn_destination p = Some y \<longrightarrow> tag_id y \<noteq> -1) \<or>
     (\<exists>d y. map f (added_rows s destination) = [d] \<and> active_canonical d \<and> tag_id d = -1 \<and> tag_tag d \<notin> tag_tag ` set (tx_tags s)
        \<and> pn_destination p = Some y \<and> tag_row.truncate y = d)"
  proof (cases destination)
    case None
    with P(7) show ?thesis by (auto simp: added_rows_def)
  next
    case (Some d)
    obtain inventory where inv: "taxonomy_inventory s' = Inr inventory" "pn_destination p = sql_first (\<lambda>t. tag_id t = tag_id d) inventory"
      using P(7) Some by auto
    have d: "active_canonical d" "d \<in> set (tx_tags s) \<or> tag_tag d \<notin> tag_tag ` set (tx_tags s)" "f d = d" "d \<in> set (tx_tags s')"
      using f Some by (auto simp: change_scope_def added_rows_def split: if_splits) (metis image_eqI)+
    show ?thesis
    proof (cases "d \<in> set (tx_tags s)")
      case True
      then have "0 < tag_id d" using stored by (simp add: stored_ids_def)
      with True Some inv show ?thesis by (auto simp: added_rows_def dest!: sql_first_SomeD)
    next
      case False
      have "tag_id d = -1" using change_destination [OF P(4) [unfolded Some]] False by simp
      moreover obtain y where y: "sql_first (\<lambda>x. tag_id x = tag_id d) inventory = Some y"
        using inventory_entry_exists [OF ok' inv(1) d(4)] by blast
      moreover have "tag_row.truncate y = d"
        using inventory_entry_of [OF inv(1) y] by (intro same_tag [OF ok' _ d(4)]) simp_all
      ultimately show ?thesis using False Some d inv(2) by (auto simp: added_rows_def)
    qed
  qed
  show ?thesis
    by (rule that [OF rw _ _ _ _ last]) (use tags ok' P(5,6) change_keeps_pages [OF P(4)] in simp_all)
qed

text \<open>Storing the new row under another identifier.\<close>

lemma renumber_fields [simp]:
  "tx_tags (renumber n s) = map (\<lambda>t. t\<lparr>tag_id := stored_id n (tag_id t), tag_redirect := map_option (stored_id n) (tag_redirect t)\<rparr>) (tx_tags s)"
  "tx_assignments (renumber n s) = map (\<lambda>(p, i). (p, stored_id n i)) (tx_assignments s)"
  by (simp_all add: renumber_def)

lemma assigned_exists: "taxonomy_ok s \<Longrightarrow> (p, i) \<in> set (tx_assignments s) \<Longrightarrow> i \<in> tag_id ` set (tx_tags s)"
  using taxonomy_okD(5) [of s "(p, i)"] by force

lemma redirect_exists: "taxonomy_ok s \<Longrightarrow> t \<in> set (tx_tags s) \<Longrightarrow> tag_redirect t = Some i \<Longrightarrow> i \<in> tag_id ` set (tx_tags s)"
  using taxonomy_okD(4) [of s t i] by force

lemma renumber_ok:
  assumes ok: "taxonomy_ok s" and n: "n \<notin> tag_id ` set (tx_tags s)"
  shows "taxonomy_ok (renumber n s)" "page_tag_names (renumber n s) page = page_tag_names s page"
proof -
  let ?g = "stored_id n" and ?I = "tag_id ` set (tx_tags s)"
  let ?f = "\<lambda>t :: tag_row. t\<lparr>tag_id := ?g (tag_id t), tag_redirect := map_option ?g (tag_redirect t)\<rparr>"
  have inj: "inj_on ?g ?I" using n by (auto simp: inj_on_def stored_id_def)
  have rows: "(p, ?g i) \<in> set (tx_assignments (renumber n s)) \<longleftrightarrow> (p, i) \<in> set (tx_assignments s)" if "i \<in> ?I" for p i
    using that assigned_exists [OF ok] inj_onD [OF inj] by (force simp: image_iff)
  show "page_tag_names (renumber n s) page = page_tag_names s page"
  proof -
    have "{t \<in> set (tx_tags (renumber n s)). (page, tag_id t) \<in> set (tx_assignments (renumber n s))}
        = ?f ` {t \<in> set (tx_tags s). (page, tag_id t) \<in> set (tx_assignments s)}"
      using rows by (auto simp del: renumber_fields(2))
    then show ?thesis by (simp add: page_tag_names_def image_image del: renumber_fields)
  qed
  show "taxonomy_ok (renumber n s)"
    unfolding taxonomy_ok_def
  proof (intro conjI ballI allI impI)
    have d: "distinct (map tag_id (tx_tags s))" "distinct (map tag_tag (tx_tags s))" "distinct (tx_assignments s)"
      using taxonomy_okD(1-3) [OF ok] by (simp_all add: unique_key_def)
    have "distinct (map ?g (map tag_id (tx_tags s)))" using d(1) inj by (simp add: distinct_map comp_inj_on)
    then show "unique_key tag_id (tx_tags (renumber n s))" by (simp add: unique_key_def comp_def)
    show "unique_key tag_tag (tx_tags (renumber n s))" using d(2) by (simp add: unique_key_def comp_def)
    have "inj_on (\<lambda>(p, i). (p, ?g i)) (set (tx_assignments s))"
      using assigned_exists [OF ok] inj_onD [OF inj] by (auto intro!: inj_onI)
    then show "distinct (tx_assignments (renumber n s))" using d(3) by (simp add: distinct_map)
    fix t i assume "t \<in> set (tx_tags (renumber n s))" "tag_redirect t = Some i"
    then obtain v j where v: "v \<in> set (tx_tags s)" "t = ?f v" "tag_redirect v = Some j" "i = ?g j" by auto
    from taxonomy_okD(4) [OF ok v(1,3)] v show "\<exists>c\<in>set (tx_tags (renumber n s)). tag_id c = i \<and> tag_redirect c = None \<and> (\<not> tag_archived t \<longrightarrow> \<not> tag_archived c)"
      by fastforce
  next
    fix a assume "a \<in> set (tx_assignments (renumber n s))"
    then obtain p i where a: "(p, i) \<in> set (tx_assignments s)" "a = (p, ?g i)" by auto
    from taxonomy_okD(5) [OF ok a(1)] a show "\<exists>c\<in>set (tx_tags (renumber n s)). tag_id c = snd a \<and> active_canonical c"
      by (fastforce simp: active_canonical_def)
  qed
qed

end
