(* ===== verification/TaxonomyCommit.thy ===== *)
theory TaxonomyCommit
  imports TaxonomyServiceLaws
begin

text \<open>
  What a committed taxonomy change does: the tables are the reviewed plan's, whatever was stored
  in between, and the review pins the plan.
\<close>

section \<open>Tags and assignments after a commit\<close>

lemma written_tag_keeps: "tag_id (written_tag before stamp ts r) = tag_id r" "tag_tag (written_tag before stamp ts r) = tag_tag r"
  by (simp_all add: written_tag_def split: option.splits)

text \<open>The loop over the tags leaves the plan's rows, up to time stamps.\<close>

lemma written_core:
  assumes after: "unique_key tag_id (tx_tags after)" and before: "unique_key tag_id (tx_tags before)"
    and tags: "tx_tags after = map g (tx_tags before) @ extra'" and g: "\<And>t. t \<in> set (tx_tags before) \<Longrightarrow> tag_id (g t) = tag_id t \<and> tag_tag (g t) = tag_tag t"
    and rows: "set stored = set (tx_tags before)" and extra: "map tag_core extra = map tag_core extra'" "tag_id ` set extra \<inter> tag_id ` set stored = {}"
  shows "tag_core ` written_tag before stamp (tx_tags after) ` set (stored @ extra) = tag_core ` set (tx_tags after)"
proof -
  let ?w = "written_tag before stamp (tx_tags after)"
  have old: "tag_core (?w r) = tag_core (g r)" if r: "r \<in> set (tx_tags before)" for r
  proof -
    have "stored_tag (tag_id r) (tx_tags after) = Some (g r)" unfolding stored_tag_Some [OF after] using r g [OF r] by (simp add: tags)
    moreover have "stored_tag (tag_id (g r)) (tx_tags before) = Some r" unfolding stored_tag_Some [OF before] using r g [OF r] by simp
    ultimately show ?thesis using g [OF r] by (simp add: written_tag_def tag_changed_def tag_core_def)
  qed
  have new: "?w r = r" if r: "r \<in> set extra" for r
  proof (cases "stored_tag (tag_id r) (tx_tags after)")
    case (Some t)
    then have "tag_id t = tag_id r" unfolding stored_tag_Some [OF after] by simp
    moreover have "stored_tag (tag_id r) (tx_tags before) = None"
      unfolding stored_tag_def sql_first_None using extra(2) r rows by (auto simp: disjoint_iff)
    ultimately show ?thesis using Some by (simp add: written_tag_def tag_changed_def)
  qed (simp add: written_tag_def)
  have "tag_core ` ?w ` set (stored @ extra) = tag_core ` g ` set (tx_tags before) \<union> tag_core ` set extra"
    using old new by (auto simp: rows image_Un image_iff)
  also have "tag_core ` set extra = tag_core ` set extra'" using arg_cong [OF extra(1), of set] by simp
  finally show ?thesis by (simp add: tags image_Un)
qed

text \<open>The rows that \<^const>\<open>store_destination\<close> stores and returns.\<close>

lemma store_destination_success:
  assumes ok: "store_ok db" and plan: "plan_taxonomy digest (read_taxonomy db) input = Inr p" and same: "y_tags db1 = y_tags db" and new: "0 < ident"
    and res: "store_destination env ident p now db1 = Inr ((after, tag), db2)"
  obtains g extra extra' where "db2 = db1\<lparr>y_tags := y_tags db @ extra\<rparr>" "taxonomy_ok after"
    "\<And>page. page_tag_names after page = page_tag_names (pn_after p) page"
    "tx_tags after = map g (tx_tags (read_taxonomy db)) @ extra'" "\<And>t. t \<in> set (y_tags db) \<Longrightarrow> tag_id (g t) = tag_id t \<and> tag_tag (g t) = tag_tag t"
    "map tag_core extra = map tag_core extra'" "tag_id ` set extra \<inter> tag_id ` set (y_tags db) = {}" "tag_id ` set extra \<subseteq> {ident}"
    "\<And>page i. i \<in> tag_id ` set (y_tags db) \<Longrightarrow> (page, i) \<in> set (tx_assignments after) \<longleftrightarrow> (page, i) \<in> set (tx_assignments (pn_after p))"
    "\<And>page i. (page, i) \<in> set (tx_assignments after) \<Longrightarrow> i \<notin> tag_id ` set (y_tags db) \<Longrightarrow> \<exists>j. j \<notin> tag_id ` set (y_tags db) \<and> (page, j) \<in> set (tx_assignments (pn_after p))"
    "fst ` set (tx_assignments after) = fst ` set (tx_assignments (pn_after p))"
proof -
  let ?s = "read_taxonomy db"
  have s: "taxonomy_ok ?s" "stored_ids ?s" using ok by (simp_all add: store_ok_def)
  obtain f rows where f: "row_rewrite f" "tx_tags (pn_after p) = map f (tx_tags ?s) @ rows" "taxonomy_ok (pn_after p)"
    and cases: "rows = [] \<and> (\<forall>y. pn_destination p = Some y \<longrightarrow> tag_id y \<noteq> -1) \<or>
     (\<exists>d y. rows = [d] \<and> active_canonical d \<and> tag_id d = -1 \<and> tag_tag d \<notin> tag_tag ` set (tx_tags ?s) \<and> pn_destination p = Some y
        \<and> tag_row.truncate y = d)" by (rule plan_rows [OF s plan], rule that; assumption)
  from cases show ?thesis
  proof (elim disjE exE conjE)
    assume e: "rows = []" "\<forall>y. pn_destination p = Some y \<longrightarrow> tag_id y \<noteq> -1"
    with res have "after = pn_after p" "db2 = db1" by (auto simp: store_destination_def split: option.splits)
    then show ?thesis
      using f e same by (intro that [of "[]" f "[]"]) (auto simp: row_rewrite_def)
  next
    fix d y assume d: "rows = [d]" "active_canonical d" "tag_id d = -1" "tag_tag d \<notin> tag_tag ` set (tx_tags ?s)" "pn_destination p = Some y" "tag_row.truncate y = d"
    have y: "tag_id y = -1" "tag_tag y = tag_tag d" using d(3,6) by auto
    let ?t = "new_tag ident (tag_tag d) (tg_title y) (te_iso env now)"
    from res d(5) y same have after: "after = renumber ident (pn_after p)" and db2: "db2 = db1\<lparr>y_tags := y_tags db @ [?t]\<rparr>"
      and n: "ident \<notin> tag_id ` set (y_tags db)"
      by (auto simp: store_destination_def insert_tag_def sql_insert_def split: option.splits if_splits)
    have pos: "0 < tag_id t" if "t \<in> set (y_tags db)" for t using store_okD(2) [OF ok that] .
    let ?g = "\<lambda>t :: tag_row. (f t)\<lparr>tag_id := stored_id ident (tag_id (f t)), tag_redirect := map_option (stored_id ident) (tag_redirect (f t))\<rparr>"
    let ?d = "d\<lparr>tag_id := stored_id ident (tag_id d), tag_redirect := map_option (stored_id ident) (tag_redirect d)\<rparr>"
      have fresh: "ident \<notin> tag_id ` set (tx_tags (pn_after p))"
        using n f(1,2) d(1,3) new by (auto simp: row_rewrite_def)
      note r = renumber_ok [OF f(3) fresh, folded after]
      have stay: "stored_id ident i = i" if "i \<in> tag_id ` set (y_tags db)" for i using that pos by (fastforce simp: stored_id_def)
      have inverse: "stored_id ident i = j \<Longrightarrow> j \<in> tag_id ` set (y_tags db) \<Longrightarrow> i = j" for i j using n by (auto simp: stored_id_def split: if_splits)
      have tags: "tx_tags after = map ?g (tx_tags ?s) @ [?d]" by (simp add: after f(2) d(1))
      have keep: "tag_id (?g t) = tag_id t \<and> tag_tag (?g t) = tag_tag t" if "t \<in> set (y_tags db)" for t
        using that f(1) stay by (simp add: row_rewrite_def)
      have core: "map tag_core [?t] = map tag_core [?d]" using d(2,3) by (simp add: tag_core_def active_canonical_def stored_id_def)
      show ?thesis
      proof (rule that [OF db2 r(1) r(2) tags keep core])
        show "(page, i) \<in> set (tx_assignments after) \<longleftrightarrow> (page, i) \<in> set (tx_assignments (pn_after p))" if "i \<in> tag_id ` set (y_tags db)" for page i
          using that stay [OF that] inverse by (force simp: after)
        show "\<exists>j. j \<notin> tag_id ` set (y_tags db) \<and> (page, j) \<in> set (tx_assignments (pn_after p))"
          if "(page, i) \<in> set (tx_assignments after)" "i \<notin> tag_id ` set (y_tags db)" for page i
        proof -
          from that(1) obtain j where "(page, j) \<in> set (tx_assignments (pn_after p))" "i = stored_id ident j" by (auto simp: after)
          with that(2) stay show ?thesis by metis
        qed
        show "fst ` set (tx_assignments after) = fst ` set (tx_assignments (pn_after p))" by (force simp: after image_iff)
      qed (use n in auto)
  qed
qed

text \<open>Pages outside the plan's list keep their assignments.\<close>

lemma unchanged_page_rows:
  assumes ok: "store_ok db" and ok': "taxonomy_ok s'" and sub: "fst ` set (tx_assignments s') \<subseteq> fst ` set (tx_assignments (read_taxonomy db))"
    and un: "page \<notin> set (changed_pages (read_taxonomy db) s')"
  shows "(page, i) \<in> set (tx_assignments s') \<longleftrightarrow> (page, i) \<in> set (y_assignments db)"
proof (cases "page \<in> fst ` set (y_assignments db)")
  case True
  with store_okD(4) [OF ok] have "page \<in> tp_id ` set (tx_pages (read_taxonomy db))"
    by (force simp: taxonomy_page_of_def image_iff)
  with un have "page_assignment (read_taxonomy db) page = page_assignment s' page" by (auto simp: changed_pages_def)
  moreover have "taxonomy_ok (read_taxonomy db)" using ok by (simp add: store_ok_def)
  ultimately have "{i. (page, i) \<in> set (tx_assignments (read_taxonomy db))} = {i. (page, i) \<in> set (tx_assignments s')}"
    using page_assignment_sets taxonomy_okD(3) ok' by blast
  then show ?thesis by auto
next
  case False
  then have "page \<notin> fst ` set (tx_assignments s')" using sub by auto
  with False show ?thesis by force
qed

lemma changed_pages_distinct:
  assumes "store_ok db"
  shows "distinct (changed_pages (read_taxonomy db) s')"
proof -
  have "distinct (map tp_id (tx_pages (read_taxonomy db)))"
    using store_okD(3) [OF assms] by (auto simp: unique_key_def comp_def taxonomy_page_of_def distinct_map intro: inj_on_subset)
  then show ?thesis by (simp add: changed_pages_def distinct_map_filter)
qed

lemma names_map:
  assumes "\<And>t. tag_id (w t) = tag_id t" "\<And>t. tag_tag (w t) = tag_tag t"
  shows "page_tag_names (vocabulary (map w tags) rows) page = page_tag_names (vocabulary tags rows) page"
proof -
  have "{t \<in> w ` set tags. (page, tag_id t) \<in> set rows} = w ` {t \<in> set tags. (page, tag_id t) \<in> set rows}" using assms(1) by auto
  then show ?thesis using assms(2) by (simp add: page_tag_names_def image_image)
qed

lemma commit_success:
  assumes ok: "store_ok db" and new: "0 < fy_tag ids" and plan: "plan_taxonomy digest (read_taxonomy db) input = Inr p"
    and same: "vocabulary_tables db1 = vocabulary_tables db" "o_pages db1 = o_pages db"
    and res: "commit_plan env ids actor author (read_taxonomy db) p now db1 = Inr (r, db')"
  shows "store_ok db'" "page_tag_names (read_taxonomy db') page = page_tag_names (pn_after p) page"
    and "y_groups db' = y_groups db" "tr_pages r = length (pn_changed p)"
    "o_pages db' = map (\<lambda>q. if pj_id q \<in> set (pn_changed p) then retagged_page author now q else q) (o_pages db)"
    "\<exists>hs. o_history db' = o_history db1 @ hs
       \<and> (\<forall>p\<in>set (pn_changed p). \<exists>q. find_page p db = Some q \<and> (\<exists>h\<in>set hs. snapshot_row (fy_history ids p) q ''updated'' h))"
    "\<forall>p\<in>set (pn_changed p). \<exists>q. find_page p db = Some q \<and> intents_stored p (pj_revision (retagged_page author now q)) (o_effects db')"
proof -
  let ?s = "read_taxonomy db"
  have tabs: "y_tags db1 = y_tags db" "y_assignments db1 = y_assignments db" "y_groups db1 = y_groups db" "o_tags db1 = o_tags db"
    using same(1) by (simp_all add: vocabulary_tables_def)
  from res obtain after tag db2 db3 u where dest: "store_destination env (fy_tag ids) p now db1 = Inr ((after, tag), db2)"
    and loop: "for_pages (retag_page env ids actor author after now) (pn_changed p) db2 = Inr (u, db3)"
    and db': "db' = db3\<lparr>y_tags := fold (write_tag ?s (te_iso env now)) (tx_tags after) (y_tags db3)\<rparr>" and r: "tr_pages r = length (pn_changed p)"
    by (auto simp: commit_plan_def rbind_Inr_iff Let_def split: prod.splits)
  obtain g extra extra' where db2: "db2 = db1\<lparr>y_tags := y_tags db @ extra\<rparr>" and ok': "taxonomy_ok after"
    and names: "\<And>page. page_tag_names after page = page_tag_names (pn_after p) page"
    and tags: "tx_tags after = map g (tx_tags ?s) @ extra'" and g: "\<And>t. t \<in> set (y_tags db) \<Longrightarrow> tag_id (g t) = tag_id t \<and> tag_tag (g t) = tag_tag t"
    and extra: "map tag_core extra = map tag_core extra'" "tag_id ` set extra \<inter> tag_id ` set (y_tags db) = {}" "tag_id ` set extra \<subseteq> {fy_tag ids}"
    and stay: "\<And>page i. i \<in> tag_id ` set (y_tags db) \<Longrightarrow> (page, i) \<in> set (tx_assignments after) \<longleftrightarrow> (page, i) \<in> set (tx_assignments (pn_after p))"
    and moved: "\<And>page i. (page, i) \<in> set (tx_assignments after) \<Longrightarrow> i \<notin> tag_id ` set (y_tags db) \<Longrightarrow>
      \<exists>j. j \<notin> tag_id ` set (y_tags db) \<and> (page, j) \<in> set (tx_assignments (pn_after p))"
    and heads: "fst ` set (tx_assignments after) = fst ` set (tx_assignments (pn_after p))"
    by (rule store_destination_success [OF ok plan tabs(1) new dest], rule that; assumption)
  have s: "taxonomy_ok ?s" "stored_ids ?s" using ok by (simp_all add: store_ok_def)
  obtain f rows where P: "taxonomy_ok (pn_after p)" "fst ` set (tx_assignments (pn_after p)) \<subseteq> fst ` set (tx_assignments ?s)"
    "pn_changed p = changed_pages ?s (pn_after p)" by (rule plan_rows [OF s plan], rule that; assumption)
  have d: "distinct (pn_changed p)" unfolding P(3) by (rule changed_pages_distinct [OF ok])
  note all = retag_pages_success [OF loop d taxonomy_okD(1) [OF ok'], unfolded retagged_all_def]
  note o = store_okD [OF ok]
  have known: "i \<in> tag_id ` set (y_tags db)" if "(page, i) \<in> set (y_assignments db)" for page i
    using assigned_exists [OF o(1), of page i] that by simp
  have unchanged: "(q, i) \<in> set (tx_assignments after) \<longleftrightarrow> (q, i) \<in> set (y_assignments db)" if "q \<notin> set (pn_changed p)" for q i
    using unchanged_page_rows [OF ok P(1,2), of q, folded P(3), OF that] stay moved known by metis
  have rows: "set (y_assignments db') = set (tx_assignments after)"
    using all unchanged by (auto simp: db' db2 tabs)
  let ?w = "written_tag ?s (te_iso env now) (tx_tags after)"
  have tags': "y_tags db' = map ?w (y_tags db @ extra)"
    using all fold_write_tag [OF taxonomy_okD(1) [OF ok']] by (simp add: db' db2)
  have "tag_core ` set (y_tags db') = tag_core ` set (tx_tags after)"
    unfolding tags' set_map
    by (rule written_core [OF taxonomy_okD(1) [OF ok'] taxonomy_okD(1) [OF s(1)] tags _ _ extra(1,2)]) (use g in simp_all)
  with rows have sv: "same_vocabulary after (vocabulary (y_tags db') (y_assignments db'))" by (simp add: same_vocabulary_def)
  have ids: "map tag_id (y_tags db') = map tag_id (y_tags db) @ map tag_id extra" by (simp add: tags' comp_def written_tag_keeps)
  have "map tag_id extra = map tag_id extra'" using arg_cong [OF extra(1), of "map fst"] by (simp add: comp_def tag_core_def)
  moreover have "distinct (map tag_id extra')" using taxonomy_okD(1) [OF ok'] by (simp add: tags unique_key_def)
  ultimately have "distinct (map tag_id extra)" by simp
  then have uid: "unique_key tag_id (y_tags db')"
    using taxonomy_okD(1) [OF o(1)] extra(2) unfolding unique_key_def ids by (simp add: Int_commute)
  have "distinct (y_assignments db')"
    using retag_pages_distinct [OF loop _ taxonomy_okD(3) [OF ok']] taxonomy_okD(3) [OF o(1)] by (simp add: db' db2 tabs)
  with same_vocabulary_ok [OF ok' sv] uid have voc: "taxonomy_ok (vocabulary (y_tags db') (y_assignments db'))" by simp
  have vnames: "page_tag_names (vocabulary (y_tags db') (y_assignments db')) q = page_tag_names after q" for q
    by (rule same_vocabulary_names [OF sv])
  show "page_tag_names (read_taxonomy db') page = page_tag_names (pn_after p) page" unfolding names_read vnames names ..
  show pages: "o_pages db' = map (\<lambda>q. if pj_id q \<in> set (pn_changed p) then retagged_page author now q else q) (o_pages db)"
    using all by (simp add: db' db2 same(2))
  have pids: "map pj_id (o_pages db') = map pj_id (o_pages db)" by (simp add: pages)
  show "store_ok db'"
  proof (rule store_okI [OF voc])
    show "0 < tag_id t" if "t \<in> set (y_tags db')" for t
    proof -
      have "tag_id t \<in> set (map tag_id (y_tags db'))" using that by simp
      then show ?thesis unfolding ids using o(2) extra(3) new by auto
    qed
    show "unique_key pj_id (o_pages db')" using o(3) by (simp add: unique_key_def pids)
    show "fst ` set (y_assignments db') \<subseteq> pj_id ` set (o_pages db')"
      using o(4) heads P(2) arg_cong [OF pids, of set] by (simp add: rows)
    show "(q, n) \<in> set (o_tags db') \<longleftrightarrow> n \<in> page_tag_names (vocabulary (y_tags db') (y_assignments db')) q" for q n
    proof (cases "q \<in> set (pn_changed p)")
      case True
      then show ?thesis using all unfolding vnames by (auto simp: db' page_tag_names_def)
    next
      case False
      have "(q, i) \<in> set (y_assignments db') \<longleftrightarrow> (q, i) \<in> set (y_assignments db)" for i using unchanged [OF False] rows by simp
      moreover have "{t \<in> set (y_tags db @ extra). (q, tag_id t) \<in> set (y_assignments db)} = {t \<in> set (y_tags db). (q, tag_id t) \<in> set (y_assignments db)}"
        using known [of q] extra(2) by auto
      ultimately have "page_tag_names (vocabulary (y_tags db') (y_assignments db')) q = page_tag_names (vocabulary (y_tags db) (y_assignments db)) q"
        unfolding tags' names_map [OF written_tag_keeps] by (simp add: page_tag_names_def)
      with False all o(5) show ?thesis by (simp add: db' db2 tabs)
    qed
  qed
  show "y_groups db' = y_groups db" "tr_pages r = length (pn_changed p)" using all r by (simp_all add: db' db2 tabs)
  have find: "find_page q db2 = find_page q db" for q by (simp add: find_page_def db2 same(2))
  show "\<exists>hs. o_history db' = o_history db1 @ hs
       \<and> (\<forall>p\<in>set (pn_changed p). \<exists>q. find_page p db = Some q \<and> (\<exists>h\<in>set hs. snapshot_row (fy_history ids p) q ''updated'' h))"
    using all unfolding find by (simp add: db' db2)
  show "\<forall>p\<in>set (pn_changed p). \<exists>q. find_page p db = Some q \<and> intents_stored p (pj_revision (retagged_page author now q)) (o_effects db')"
    using all unfolding find by (simp add: db' db2)
qed

section \<open>Operations\<close>

text \<open>
  All other operations: they may write every other table and add, change or delete pages, whose
  keys are unique; the assignments of a deleted page are deleted with it.
\<close>

datatype taxonomy_op =
    Tax_create taxonomy_actor js_value int int
  | Tax_tags "string \<Rightarrow> int" js_value int int
  | Tax_apply taxonomy_ids taxonomy_actor js_value js_value js_value taxonomy int
  | Tax_legacy taxonomy_ids taxonomy_actor js_value taxonomy taxonomy int
  | Tax_others taxonomy_db

definition other_writes :: "taxonomy_db \<Rightarrow> (taxonomy_db, unit) tx" where
  "other_writes w db = (if \<not> unique_key pj_id (o_pages w) then Inl Plain_error
     else Inr ((), w\<lparr>y_tags := y_tags db, y_assignments := sql_delete (\<lambda>a. fst a \<notin> pj_id ` set (o_pages w)) (y_assignments db),
            o_tags := sql_delete (\<lambda>r. fst r \<notin> pj_id ` set (o_pages w)) (o_tags db)\<rparr>))"

text \<open>The identifiers of tags come from a sequence, which counts from one.\<close>

definition serial :: "(int \<Rightarrow> ('s, unit) tx) \<Rightarrow> int \<Rightarrow> ('s, unit) tx" where
  "serial t i s = (if i < 1 then Inl Plain_error else t i s)"

fun tax_exec :: "taxonomy_env \<Rightarrow> taxonomy_op \<Rightarrow> (taxonomy_db, unit) tx" where
  "tax_exec env (Tax_create actor input ident now) = serial (\<lambda>i. unit_tx (create_tag env actor input i now)) ident"
| "tax_exec env (Tax_tags fresh input page now) = unit_tx (associate_tags env (\<lambda>n. max 1 (fresh n)) input page now)"
| "tax_exec env (Tax_apply ids actor change fp ack seen now) =
     serial (\<lambda>_. unit_tx (apply_taxonomy env ids actor change fp ack seen now)) (fy_tag ids)"
| "tax_exec env (Tax_legacy ids actor change previewed seen now) =
     serial (\<lambda>_. unit_tx (legacy_change env ids actor change previewed seen now)) (fy_tag ids)"
| "tax_exec env (Tax_others w) = other_writes w"

lemma serial_Inr: "serial t i s = Inr (u, s') \<longleftrightarrow> 0 < i \<and> t i s = Inr (u, s')"
  by (auto simp: serial_def)

lemma unlock_all_tables:
  fixes db db' :: "'z taxonomy_db_scheme"
  assumes "for_pages (\<lambda>page. assert_page_unlocked env requester au page session now) ps db = Inr (u, db')"
  shows "vocabulary_tables db' = vocabulary_tables db \<and> approval_tables db' = approval_tables db"
  using assms
proof (induction ps arbitrary: db)
  case (Cons p ps)
  from Cons.prems obtain v db1 where one: "assert_page_unlocked env requester au p session now db = Inr (v, db1)"
    and rest: "for_pages (\<lambda>page. assert_page_unlocked env requester au page session now) ps db1 = Inr (u, db')"
    by (auto simp: rbind_Inr_iff split: prod.splits)
  from unlock_vocabulary_tables [OF one] Cons.IH [OF rest] show ?case by simp
qed simp

lemma apply_success:
  assumes "apply_taxonomy env ids actor change fingerprint acknowledge seen now db = Inr (r, db')"
  obtains author fp p db1 where "authorize_taxonomy actor = Inr author" "fingerprint = JStr fp" "plan_taxonomy (te_digest env) (read_taxonomy db) change = Inr p"
    "pn_fingerprint p = fp" "pn_access_changes p \<longrightarrow> acknowledge = JBool True" "vocabulary_tables db1 = vocabulary_tables db"
    "approval_tables db1 = approval_tables db" "commit_plan env ids actor author (read_taxonomy db) p now db1 = Inr (r, db')"
proof -
  from assms obtain author fp where a: "authorize_taxonomy actor = Inr author" "fingerprint = JStr fp"
    and tx: "apply_in_tx env ids actor author change fp (acknowledge = JBool True) seen now db = Inr (r, db')"
    by (auto simp: apply_taxonomy_def rbind_Inr_iff review_fingerprint_def split: option.splits js_value.splits if_splits)
  from tx obtain p u db1 where p: "plan_taxonomy (te_digest env) (read_taxonomy db) change = Inr p" "pn_fingerprint p = fp"
    "pn_access_changes p \<longrightarrow> acknowledge = JBool True"
    and lock: "for_pages (\<lambda>page. assert_page_unlocked (te_page env) (ac_requester actor) (ac_authority actor) page (ac_session actor) now)
       (pn_changed p) db = Inr (u, db1)"
    and c: "commit_plan env ids actor author (read_taxonomy db) p now db1 = Inr (r, db')"
    by (auto simp: apply_in_tx_def Let_def rbind_Inr_iff split: if_splits prod.splits)
  from unlock_all_tables [OF lock] show ?thesis by (intro that [OF a p _ _ c]) simp_all
qed

lemma legacy_success:
  assumes "legacy_change env ids actor change previewed seen now db = Inr (r, db')"
  shows "\<exists>fp. apply_taxonomy env ids actor change fp JUndefined seen now db = Inr (r, db')"
  using assms by (auto simp: legacy_change_def rbind_Inr_iff split: if_splits)

lemma apply_ok:
  assumes ok: "store_ok db" and new: "0 < fy_tag ids" and res: "apply_taxonomy env ids actor change fingerprint acknowledge seen now db = Inr (r, db')"
  shows "store_ok db'"
proof -
  obtain author p db1 where p: "plan_taxonomy (te_digest env) (read_taxonomy db) change = Inr p" "vocabulary_tables db1 = vocabulary_tables db"
    "approval_tables db1 = approval_tables db" "commit_plan env ids actor author (read_taxonomy db) p now db1 = Inr (r, db')"
    by (rule apply_success [OF res], rule that; assumption)
  then have "o_pages db1 = o_pages db" by (simp add: approval_tables_def)
  from commit_success(1) [OF ok new p(1,2) this p(4)] show ?thesis .
qed

lemma other_writes_ok:
  assumes ok: "store_ok db" and res: "other_writes w db = Inr (u, db')"
  shows "store_ok db'"
proof -
  note o = store_okD [OF ok]
  let ?P = "\<lambda>p. p \<in> pj_id ` set (o_pages w)"
  from res have f: "y_tags db' = y_tags db" "y_assignments db' = filter (\<lambda>a. ?P (fst a)) (y_assignments db)" "o_pages db' = o_pages w"
    "o_tags db' = filter (\<lambda>r. ?P (fst r)) (o_tags db)" "unique_key pj_id (o_pages w)"
    by (auto simp: other_writes_def sql_delete_def split: if_splits)
  have "taxonomy_ok (vocabulary (y_tags db) (filter (\<lambda>a. ?P (fst a)) (y_assignments db)))"
    using o(1) by (auto simp: taxonomy_ok_def)
  moreover have "page_tag_names (vocabulary (y_tags db) (filter (\<lambda>a. ?P (fst a)) (y_assignments db))) q
      = (if ?P q then page_tag_names (vocabulary (y_tags db) (y_assignments db)) q else {})" for q
    by (auto simp: page_tag_names_def)
  ultimately show ?thesis
    using o(2,5) f(5) by (intro store_okI) (auto simp: f)
qed

lemma tax_exec_ok:
  assumes ok: "store_ok db" and res: "tax_exec env op db = Inr (u, db')"
  shows "store_ok db'"
proof (cases op)
  case (Tax_create actor input ident now)
  with res show ?thesis using create_tag_ok [OF ok] by (auto simp: serial_Inr unit_tx_Inr)
next
  case (Tax_tags fresh input page now)
  with res obtain changed where "associate_tags env (\<lambda>n. max 1 (fresh n)) input page now db = Inr (changed, db')" by (auto simp: unit_tx_Inr)
  from associate_ok [OF ok _ this] show ?thesis by simp
next
  case (Tax_apply ids actor change fp ack seen now)
  with res show ?thesis using apply_ok [OF ok] by (auto simp: serial_Inr unit_tx_Inr)
next
  case (Tax_legacy ids actor change previewed seen now)
  with res show ?thesis using apply_ok [OF ok] by (auto simp: serial_Inr unit_tx_Inr dest!: legacy_success)
next
  case (Tax_others w)
  with res show ?thesis using other_writes_ok [OF ok] by simp
qed

interpretation taxonomy_store: tx_component "tax_exec env" store_ok for env
  by unfold_locales (rule tax_exec_ok)

definition tax_run :: "taxonomy_env \<Rightarrow> taxonomy_op list \<Rightarrow> taxonomy_db \<Rightarrow> taxonomy_db" where
  "tax_run env ops db = run_txs (map (tax_exec env) ops) db"

text \<open>C30. Whatever operations create, rename, merge, archive and restore tags, tag pages or write the rest
  of the database, in any order and however many of them fail: names and identifiers of tags stay
  unique, every redirect leads in one step to a tag, an alias map exists, and every tag of a page
  that an access check reads is the name of an active tag that is no alias.
\<close>

theorem taxonomy_stays_sound:
  assumes "store_ok db" "db' = tax_run env ops db"
  shows "taxonomy_ok (read_taxonomy db') \<and> (\<exists>m. tag_alias_map (tx_tags (read_taxonomy db')) = Inr m)
     \<and> (\<forall>page name. (page, name) \<in> set (o_tags db') \<longrightarrow> page \<in> pj_id ` set (o_pages db') \<and> (\<exists>t\<in>set (y_tags db'). tag_tag t = name \<and> active_canonical t))"
proof -
  have ok: "store_ok db'" unfolding assms(2) tax_run_def by (rule taxonomy_store.run_inv [OF assms(1)])
  then have t: "taxonomy_ok (read_taxonomy db')" by (simp add: store_ok_def)
  note o = store_okD [OF ok]
  have "page \<in> pj_id ` set (o_pages db') \<and> (\<exists>t\<in>set (y_tags db'). tag_tag t = name \<and> active_canonical t)" if "(page, name) \<in> set (o_tags db')" for page name
  proof -
    from that o(5) obtain t where r: "t \<in> set (y_tags db')" "tag_tag t = name" "(page, tag_id t) \<in> set (y_assignments db')" by (auto simp: page_tag_names_def)
    with taxonomy_okD(5) [OF o(1), of "(page, tag_id t)"] obtain c where "c \<in> set (y_tags db')" "tag_id c = tag_id t" "active_canonical c" by auto
    moreover then have "c = t" using same_tag [OF o(1)] r(1) by simp
    ultimately show ?thesis using r o(4) by force
  qed
  moreover obtain m where "tag_alias_map (tx_tags (read_taxonomy db')) = Inr m" by (rule alias_map_ok [OF t])
  ultimately show ?thesis using t by blast
qed

text \<open>C29. A committed change is the plan of the stored data that carries the reviewed fingerprint, and
  nothing else: access changes were acknowledged, every page carries the names the plan moves its
  names to, exactly the pages of the plan advance, by one revision and with their content and
  location as they were, each of them leaves its former state in the history and an intent for
  every projection of the new revision, and the groups stay as they are.
\<close>

theorem committed_change_is_the_plan:
  assumes "store_ok db" "0 < fy_tag ids" "apply_taxonomy env ids actor change fingerprint acknowledge seen now db = Inr (r, db')"
  shows "\<exists>p author. plan_taxonomy (te_digest env) (read_taxonomy db) change = Inr p \<and> fingerprint = JStr (pn_fingerprint p)
     \<and> principal_id (ac_requester actor) = Some author \<and> manages_system (ac_requester actor)
     \<and> (pn_access_changes p \<longrightarrow> acknowledge = JBool True)
     \<and> (\<forall>page. page_tag_names (read_taxonomy db') page
          = moved_names (pn_change p) (tag_tag (pn_source p)) (map_option tag_tag (pn_destination p)) (page_tag_names (read_taxonomy db) page))
     \<and> o_pages db' = map (\<lambda>q. if pj_id q \<in> set (pn_changed p) then retagged_page author now q else q) (o_pages db)
     \<and> (\<forall>i\<in>set (pn_changed p). \<exists>q. find_page i db = Some q \<and> (\<exists>h\<in>set (o_history db'). snapshot_row (fy_history ids i) q ''updated'' h)
          \<and> intents_stored i (decimal (decimal_value (pj_revision q) + 1)) (o_effects db'))
     \<and> y_groups db' = y_groups db \<and> tr_pages r = length (pn_changed p)"
proof -
  obtain author p db1 where a: "authorize_taxonomy actor = Inr author" "fingerprint = JStr (pn_fingerprint p)" "pn_access_changes p \<longrightarrow> acknowledge = JBool True"
    and p: "plan_taxonomy (te_digest env) (read_taxonomy db) change = Inr p" "vocabulary_tables db1 = vocabulary_tables db"
    and same: "approval_tables db1 = approval_tables db" and c: "commit_plan env ids actor author (read_taxonomy db) p now db1 = Inr (r, db')"
    by (rule apply_success [OF assms(3)], rule that) auto
  have pages: "o_pages db1 = o_pages db" using same by (simp add: approval_tables_def)
  note commit = commit_success [OF assms(1,2) p pages c]
  have s: "taxonomy_ok (read_taxonomy db)" "stored_ids (read_taxonomy db)" using assms(1) by (simp_all add: store_ok_def)
  obtain change' u destination f where P: "u \<in> set (tx_tags (read_taxonomy db))"
    "change_taxonomy (read_taxonomy db) u (map tag_id (aliases_of (read_taxonomy db) (tag_id u))) change' = Inr (pn_after p, destination)"
    "change_scope (read_taxonomy db) u (pn_after p) destination f" "taxonomy_ok (pn_after p)" "pn_change p = change'"
    "tag_tag (pn_source p) = tag_tag u" "map_option tag_tag (pn_destination p) = map_option tag_tag destination"
    by (rule plan_scope [OF s p(1)], rule that; assumption)
  have "page_tag_names (read_taxonomy db') page
      = moved_names (pn_change p) (tag_tag (pn_source p)) (map_option tag_tag (pn_destination p)) (page_tag_names (read_taxonomy db) page)" for page
    unfolding commit(2) P(5-7) by (rule moved_names_ok [OF s(1) P(4,1,3,2)])
  moreover have "principal_id (ac_requester actor) = Some author" "manages_system (ac_requester actor)"
    using a(1) by (auto simp: authorize_taxonomy_def split: if_splits option.splits)
  moreover have "\<exists>q. find_page i db = Some q \<and> (\<exists>h\<in>set (o_history db'). snapshot_row (fy_history ids i) q ''updated'' h)
      \<and> intents_stored i (decimal (decimal_value (pj_revision q) + 1)) (o_effects db')" if "i \<in> set (pn_changed p)" for i
  proof -
    from commit(6) obtain hs where hs: "o_history db' = o_history db1 @ hs"
      "\<forall>i\<in>set (pn_changed p). \<exists>q. find_page i db = Some q \<and> (\<exists>h\<in>set hs. snapshot_row (fy_history ids i) q ''updated'' h)" by blast
    from bspec [OF hs(2) that] bspec [OF commit(7) that] show ?thesis by (auto simp: hs(1))
  qed
  ultimately show ?thesis using p(1) a(2,3) commit(3-5) by (intro exI [of _ p] exI [of _ author]) blast
qed

end
