(* ===== verification/TaxonomyReview.thy ===== *)
theory TaxonomyReview
  imports TaxonomyCommit
begin

text \<open>
  A review pins the plan: two states of the database on which a change has the same fingerprint
  give the same preview, although the fingerprint covers the assignments, pages and history of the
  tags involved only. A concrete run closes the theory.
\<close>

section \<open>What a plan is computed from\<close>

lemma plan_review:
  assumes "plan_taxonomy digest s input = Inr p"
  obtains change u s' destination m m' canonical where "read_change input = Inr change" "u \<in> set (tx_tags s)" "tag_id u = changed_tag change"
    "change_taxonomy s u (map tag_id (aliases_of s (tag_id u))) change = Inr (s', destination)"
    "tag_alias_map (tx_tags s) = Inr m" "tag_alias_map (tx_tags s') = Inr m'" "canonical_id (tx_tags s) (tag_id u) = Inr canonical"
    "pn_fingerprint p = digest (review_of s change canonical (map_option tag_id destination))" "pn_change p = change" "pn_changed p = changed_pages s s'"
    "pn_pages p = filter (\<lambda>x. tp_id x \<in> set (changed_pages s s')) (tx_pages s)"
    "pn_rules p = taxonomy_rules s m s' m' (affected_names s m m' u (map tag_id (aliases_of s (tag_id u))) destination)"
    "pn_access_changes p = list_ex (\<lambda>r. 0 < ri_added r \<or> 0 < ri_removed r) (pn_rules p)"
proof -
  from assms obtain change inventory entry where 1: "read_change input = Inr change" "taxonomy_inventory s = Inr inventory"
    "sql_first (\<lambda>t. tag_id t = changed_tag change) inventory = Some entry"
    by (auto simp: plan_taxonomy_def rbind_Inr_iff split: option.splits)
  note entry = inventory_entry_of [OF 1(2,3)]
  from assms 1 show ?thesis
    by (auto simp: plan_taxonomy_def rbind_Inr_iff Let_def entry intro!: that [OF 1(1) entry [THEN conjunct1]] split: prod.splits)
qed

text \<open>The rows and assignments after a change.\<close>

definition follows :: "tag_row \<Rightarrow> int list \<Rightarrow> tag_row option \<Rightarrow> tag_row \<Rightarrow> tag_row \<Rightarrow> bool" where
  "follows u aliases destination t t' = (tag_id t' = tag_id t \<and> tag_tag t' = tag_tag t
     \<and> (target_id t' = target_id t \<or> target_id t' \<in> tag_id ` set_option destination \<and> tag_id t \<in> set (tag_id u # aliases)) \<and> (tag_archived t \<longrightarrow> \<not> tag_archived t' \<longrightarrow> tag_id t = tag_id u))"

lemma change_targets:
  assumes res: "change_taxonomy s u aliases change = Inr (s', destination)" and t': "t' \<in> set (tx_tags s')"
  shows "\<exists>t\<in>set (tx_tags s) \<union> {d. destination = Some d \<and> d \<notin> set (tx_tags s)}. follows u aliases destination t t'"
proof -
  have rows: "\<exists>t\<in>set (tx_tags r). t' = (if tag_id t \<in> set ids then g t else t)" if "tx_tags s' = tx_tags (set_tags ids g r)" for ids g r
    using t' that by (auto simp: set_tags_map)
  from res show ?thesis
  proof (cases rule: change_taxonomy_cases)
    case (title title)
    from rows [of "[tag_id u]" "\<lambda>t. t\<lparr>tg_title := title\<rparr>" s] title obtain t where "t \<in> set (tx_tags s)" "t' = (if tag_id t \<in> set [tag_id u] then t\<lparr>tg_title := title\<rparr> else t)"
      by auto
    then show ?thesis by (intro bexI [of _ t]) (simp_all add: follows_def target_id_def)
  next
    case (rename tag title)
    let ?d = "u\<lparr>tag_id := -1, tag_tag := tag, tg_title := title\<rparr>"
    have "?d \<notin> set (tx_tags s)" using rename(2) imageI [of ?d "set (tx_tags s)" tag_tag] by auto
    have "tx_tags s' = tx_tags (set_tags (tag_id u # aliases) (\<lambda>t. t\<lparr>tag_redirect := Some (-1)\<rparr>) (s\<lparr>tx_tags := tx_tags s @ [?d]\<rparr>))"
      by (simp add: rename(4) redirect_tag_def)
    from rows [OF this] obtain t where t: "t \<in> set (tx_tags (s\<lparr>tx_tags := tx_tags s @ [?d]\<rparr>))"
      "t' = (if tag_id t \<in> set (tag_id u # aliases) then t\<lparr>tag_redirect := Some (-1)\<rparr> else t)" by blast
    have "follows u aliases destination t t'" unfolding t(2) by (simp add: rename(3) follows_def target_id_def)
    moreover have "t \<in> set (tx_tags s) \<union> {d. destination = Some d \<and> d \<notin> set (tx_tags s)}"
      using t(1) \<open>?d \<notin> set (tx_tags s)\<close> by (auto simp: rename(3))
    ultimately show ?thesis by blast
  next
    case (merge j d)
    from rows [of "tag_id u # aliases" "\<lambda>t. t\<lparr>tag_redirect := Some j\<rparr>" s] merge(7) obtain t where
      "t \<in> set (tx_tags s)" "t' = (if tag_id t \<in> set (tag_id u # aliases) then t\<lparr>tag_redirect := Some j\<rparr> else t)"
      by (auto simp: redirect_tag_def)
    then show ?thesis by (intro bexI [of _ t]) (auto simp: merge(4,6) follows_def target_id_def)
  next
    case archive
    from rows [of "tag_id u # aliases" "\<lambda>t. t\<lparr>tag_archived := True\<rparr>" s] archive(5) obtain t where
      "t \<in> set (tx_tags s)" "t' = (if tag_id t \<in> set (tag_id u # aliases) then t\<lparr>tag_archived := True\<rparr> else t)" by auto
    then show ?thesis by (intro bexI [of _ t]) (auto simp: follows_def target_id_def)
  next
    case archive_alias
    from rows [of "[tag_id u]" "\<lambda>t. t\<lparr>tag_archived := True\<rparr>" s] archive_alias(4) obtain t where
      "t \<in> set (tx_tags s)" "t' = (if tag_id t \<in> set [tag_id u] then t\<lparr>tag_archived := True\<rparr> else t)" by auto
    then show ?thesis by (intro bexI [of _ t]) (auto simp: follows_def target_id_def)
  next
    case restore
    from rows [of "[tag_id u]" "\<lambda>t. t\<lparr>tag_archived := False\<rparr>" s] restore(5) obtain t where
      "t \<in> set (tx_tags s)" "t' = (if tag_id t \<in> set [tag_id u] then t\<lparr>tag_archived := False\<rparr> else t)" by auto
    then show ?thesis by (intro bexI [of _ t]) (auto simp: follows_def target_id_def)
  qed
qed

definition assigned_after :: "taxonomy_change \<Rightarrow> tag_row \<Rightarrow> tag_row option \<Rightarrow> (int \<times> int) set \<Rightarrow> (int \<times> int) set" where
  "assigned_after change u destination A = (case destination of
      Some d \<Rightarrow> (\<lambda>(p, i). (p, if i = tag_id u then tag_id d else i)) ` A
    | None \<Rightarrow> if change = Archive_tag (changed_tag change) \<and> tag_redirect u = None then {a \<in> A. snd a \<noteq> tag_id u} else A)"

lemma change_assigned:
  assumes "change_taxonomy s u aliases change = Inr (s', destination)"
  shows "set (tx_assignments s') = assigned_after change u destination (set (tx_assignments s))"
  using assms
proof (cases rule: change_taxonomy_cases)
  case restore
  then have "change \<noteq> Archive_tag (changed_tag change)" by (cases change) simp_all
  with restore(2,5) show ?thesis by (simp add: assigned_after_def set_tags_map)
next
  case archive
  then have "set (tx_assignments s') = {a \<in> set (tx_assignments s). snd a \<noteq> tag_id u}" by simp
  with archive(1,2,4) show ?thesis by (simp add: assigned_after_def)
next
  case (rename tag title)
  then have "set (tx_assignments s') = (\<lambda>(p, i). (p, if i = tag_id u then -1 else i)) ` set (tx_assignments s)"
    by (simp add: redirect_tag_def)
  moreover have "tag_id (u\<lparr>tag_id := -1, tag_tag := tag, tg_title := title\<rparr>) = -1" by simp
  ultimately show ?thesis unfolding assigned_after_def rename(3) option.case by (simp only:)
next
  case (merge j d)
  then have "set (tx_assignments s') = (\<lambda>(p, i). (p, if i = tag_id u then j else i)) ` set (tx_assignments s)"
    by (simp add: redirect_tag_def)
  then show ?thesis unfolding assigned_after_def merge(4,6) option.case .
next
  case (title title)
  then show ?thesis by (simp add: assigned_after_def set_tags_map)
next
  case archive_alias
  then show ?thesis by (auto simp: assigned_after_def set_tags_map)
qed

lemma change_same:
  assumes "tx_tags t = tx_tags s" "change_taxonomy s u aliases change = Inr (s', d)" "change_taxonomy t u aliases change = Inr (t', d')"
  shows "d' = d \<and> tx_tags t' = tx_tags s'"
  using assms by (cases change) (auto simp: change_taxonomy_def Let_def redirect_tag_def set_tags_def rbind_Inr_iff split: if_splits option.splits)

section \<open>Names in the scope of a change lead to the tags the review covers\<close>

lemma relevant_iff:
  assumes ok: "taxonomy_ok s" and c: "c \<in> set (tx_tags s)"
  shows "tag_id c \<in> set (relevant_tags s canonical target) \<longleftrightarrow> target_id c = canonical \<or> target = Some (target_id c)"
proof -
  have "relevant_tags s canonical target = map tag_id (filter (\<lambda>t. target_id t = canonical \<or> target = Some (target_id t)) (tx_tags s))"
    unfolding relevant_tags_def
    by (rule arg_cong [where f = "map tag_id"], rule filter_cong [OF refl]) (use canonical_id_ok [OF ok] in \<open>auto split: option.splits\<close>)
  then have "tag_id c \<in> set (relevant_tags s canonical target) \<longleftrightarrow>
      (\<exists>t\<in>set (tx_tags s). tag_id t = tag_id c \<and> (target_id t = canonical \<or> target = Some (target_id t)))"
    by (auto simp: image_iff)
  then show ?thesis using same_tag [OF ok _ c] c by blast
qed

text \<open>A plan and what it was computed from, as the lemmas below use it.\<close>

definition planned :: "taxonomy \<Rightarrow> taxonomy_change \<Rightarrow> tag_row \<Rightarrow> taxonomy \<Rightarrow> tag_row option \<Rightarrow> alias_map \<Rightarrow> alias_map \<Rightarrow> bool" where
  "planned s change u s' destination m m' = (taxonomy_ok s \<and> taxonomy_ok s' \<and> u \<in> set (tx_tags s) \<and> tag_id u = changed_tag change
     \<and> change_taxonomy s u (map tag_id (aliases_of s (tag_id u))) change = Inr (s', destination)
     \<and> tag_alias_map (tx_tags s) = Inr m \<and> tag_alias_map (tx_tags s') = Inr m' \<and> tx_pages s' = tx_pages s
     \<and> (\<forall>d. destination = Some d \<longrightarrow> d \<in> set (tx_tags s') \<and> active_canonical d \<and> tag_id d \<noteq> tag_id u
          \<and> (d \<in> set (tx_tags s) \<or> tag_tag d \<notin> tag_tag ` set (tx_tags s) \<and> tag_id d = -1)))"

abbreviation review_ids :: "taxonomy \<Rightarrow> tag_row \<Rightarrow> tag_row option \<Rightarrow> int set" where
  "review_ids s u destination \<equiv> set (relevant_tags s (target_id u) (map_option tag_id destination))"

lemma target_of_canonical: "active_canonical c \<Longrightarrow> target_id c = tag_id c"
  by (simp add: active_canonical_def target_id_def)

lemma leads_unique:
  assumes ok: "taxonomy_ok s" and l: "leads s n c" "leads s n c'"
  shows "c = c'"
proof -
  from l(1) obtain t where t: "c \<in> set (tx_tags s)" "t \<in> set (tx_tags s)" "tag_tag t = n" "target_id t = tag_id c" by (auto simp: leads_def)
  from l(2) obtain t' where t': "c' \<in> set (tx_tags s)" "t' \<in> set (tx_tags s)" "tag_tag t' = n" "target_id t' = tag_id c'" by (auto simp: leads_def)
  have "t = t'" by (rule same_name [OF ok t(2) t'(2)]) (simp add: t(3) t'(3))
  with t(4) t'(4) show ?thesis by (intro same_tag [OF ok t(1) t'(1)]) simp
qed

lemma leads_tag: "leads s n c \<Longrightarrow> c \<in> set (tx_tags s)"
  by (simp add: leads_def)

lemma touched_lead:
  assumes ok: "taxonomy_ok s" and u: "u \<in> set (tx_tags s)" and t: "t \<in> set (tx_tags s)" "tag_id t \<in> set (tag_id u # map tag_id (aliases_of s (tag_id u)))"
  shows "target_id t = target_id u"
proof (cases "tag_id t = tag_id u")
  case True
  then show ?thesis using same_tag [OF ok t(1) u] by simp
next
  case False
  with t(2) obtain a where "a \<in> set (aliases_of s (tag_id u))" "tag_id a = tag_id t" by auto
  then have e: "target_id t = tag_id u" using same_tag [OF ok _ t(1)] by (auto simp: aliases_of_ok [OF ok])
  with target_exists [OF ok t(1)] obtain c where "c \<in> set (tx_tags s)" "tag_id c = tag_id u" "tag_redirect c = None" by auto
  then have "tag_redirect u = None" using same_tag [OF ok _ u] by blast
  with e show ?thesis by (simp add: target_id_def [of u])
qed

lemma led_before:
  assumes P: "planned s change u s' destination m m'"
    and n: "n \<in> affected_names s m m' u (map tag_id (aliases_of s (tag_id u))) destination" and l: "leads s n c"
  shows "tag_id c \<in> review_ids s u destination"
proof -
  from P have ok: "taxonomy_ok s" "taxonomy_ok s'" and u: "u \<in> set (tx_tags s)"
    and res: "change_taxonomy s u (map tag_id (aliases_of s (tag_id u))) change = Inr (s', destination)"
    and m: "tag_alias_map (tx_tags s) = Inr m" "tag_alias_map (tx_tags s') = Inr m'"
    and dest: "\<And>d. destination = Some d \<Longrightarrow> d \<in> set (tx_tags s') \<and> active_canonical d \<and> (d \<in> set (tx_tags s) \<or> tag_tag d \<notin> tag_tag ` set (tx_tags s))"
    by (auto simp: planned_def)
  from l obtain t where c: "c \<in> set (tx_tags s)" "active_canonical c" and t: "t \<in> set (tx_tags s)" "tag_tag t = n" "\<not> tag_archived t" "target_id t = tag_id c"
    by (auto simp: leads_def)
  have "target_id c = target_id u \<or> (\<exists>d. destination = Some d \<and> tag_id c = tag_id d)"
  proof -
    let ?row = "\<lambda>r. tag_id r \<in> set (tag_id u # map tag_id (aliases_of s (tag_id u)))"
    have "(\<exists>r\<in>set (tx_tags s). tag_tag r = n \<and> (?row r \<or> m n = Some (Some (tag_tag u))
        \<or> (\<exists>d. destination = Some d \<and> m' n = Some (Some (tag_tag d))))) \<or> (\<exists>d. destination = Some d \<and> n = tag_tag d)"
      using n unfolding affected_names_def by (cases destination) auto
    moreover have "?row r \<Longrightarrow> ?row t" if "r \<in> set (tx_tags s)" "tag_tag r = n" for r
      using same_name [OF ok(1) that(1) t(1)] that(2) t(2) by simp
    ultimately have "?row t \<or> m n = Some (Some (tag_tag u)) \<or> (\<exists>d. destination = Some d \<and> m' n = Some (Some (tag_tag d)))
        \<or> (\<exists>d. destination = Some d \<and> n = tag_tag d)" by meson
    then consider (row) "?row t" | (source) "m n = Some (Some (tag_tag u))"
      | (led) d where "destination = Some d" "m' n = Some (Some (tag_tag d))" | (name) d where "destination = Some d" "n = tag_tag d" by metis
    then show ?thesis
    proof cases
      case row
      with touched_lead [OF ok(1) u t(1)] t(4) target_of_canonical [OF c(2)] show ?thesis by simp
    next
      case source
      with alias_map_leads [OF ok(1) m(1)] obtain c' where c': "leads s n c'" "tag_tag c' = tag_tag u" by blast
      have "c' = u" by (rule same_name [OF ok(1) leads_tag [OF c'(1)] u c'(2)])
      with leads_unique [OF ok(1) l c'(1)] show ?thesis by simp
    next
      case (led d)
      from led(2) alias_map_leads [OF ok(2) m(2)] obtain e where e: "leads s' n e" "tag_tag e = tag_tag d" by blast
      have "e = d" by (rule same_name [OF ok(2) leads_tag [OF e(1)] dest [OF led(1), THEN conjunct1] e(2)])
      with e obtain t' where t': "t' \<in> set (tx_tags s')" "tag_tag t' = n" "target_id t' = tag_id d" by (auto simp: leads_def)
      from change_targets [OF res t'(1)] obtain r where r: "r \<in> set (tx_tags s) \<union> {d. destination = Some d \<and> d \<notin> set (tx_tags s)}"
        "follows u (map tag_id (aliases_of s (tag_id u))) destination r t'" by blast
      have "tag_tag r = n" using r(2) t'(2) by (simp add: follows_def)
      have "r \<in> set (tx_tags s)"
      proof (rule ccontr)
        assume "r \<notin> set (tx_tags s)"
        with r(1) dest have "tag_tag r \<notin> tag_tag ` set (tx_tags s)" by auto
        with \<open>tag_tag r = n\<close> t(1,2) show False by (metis image_eqI)
      qed
      with \<open>tag_tag r = n\<close> t(2) have "r = t" using same_name [OF ok(1) _ t(1)] by simp
      with r(2) t'(3) consider "target_id t = tag_id d" | "tag_id t \<in> set (tag_id u # map tag_id (aliases_of s (tag_id u)))" by (auto simp: follows_def)
      then show ?thesis
      proof cases
        case 1
        with led(1) t(4) show ?thesis by simp
      next
        case 2
        with touched_lead [OF ok(1) u t(1)] t(4) target_of_canonical [OF c(2)] show ?thesis by simp
      qed
    next
      case (name d)
      with dest [OF name(1)] t(1,2) have "d \<in> set (tx_tags s)" by (metis image_eqI)
      then have "t = d" using same_name [OF ok(1) t(1)] t(2) name(2) by simp
      moreover have "target_id d = tag_id d" using dest [OF name(1)] target_of_canonical by blast
      ultimately show ?thesis using t(4) name(1) by simp
    qed
  qed
  then show ?thesis
    using relevant_iff [OF ok(1) c(1), of "target_id u" "map_option tag_id destination"] target_of_canonical [OF c(2)] by auto
qed

lemma led_after:
  assumes P: "planned s change u s' destination m m'"
    and n: "n \<in> affected_names s m m' u (map tag_id (aliases_of s (tag_id u))) destination" and l: "leads s' n c"
  shows "tag_id c \<in> review_ids s u destination \<or> tag_id c \<in> tag_id ` set_option destination"
proof -
  from P have ok: "taxonomy_ok s" "taxonomy_ok s'" and u: "u \<in> set (tx_tags s)"
    and res: "change_taxonomy s u (map tag_id (aliases_of s (tag_id u))) change = Inr (s', destination)"
    and dest: "\<And>d. destination = Some d \<Longrightarrow> active_canonical d"
    by (auto simp: planned_def)
  from l obtain t' where c: "c \<in> set (tx_tags s')" "active_canonical c" and t': "t' \<in> set (tx_tags s')" "tag_tag t' = n" "\<not> tag_archived t'" "target_id t' = tag_id c"
    by (auto simp: leads_def)
  from change_targets [OF res t'(1)] obtain t where t: "t \<in> set (tx_tags s) \<union> {d. destination = Some d \<and> d \<notin> set (tx_tags s)}"
    and f: "follows u (map tag_id (aliases_of s (tag_id u))) destination t t'" by blast
  from f t'(4) consider (moved) "tag_id c \<in> tag_id ` set_option destination" | (stays) "target_id t = tag_id c" by (auto simp: follows_def)
  then show ?thesis
  proof cases
    case stays
    show ?thesis
    proof (cases "t \<in> set (tx_tags s)")
      case False
      with t have "destination = Some t" by auto
      with dest target_of_canonical stays show ?thesis by force
    next
      case True
      from target_exists [OF ok(1) True] obtain e where e: "e \<in> set (tx_tags s)" "tag_id e = target_id t" "tag_redirect e = None"
        "\<not> tag_archived t \<longrightarrow> \<not> tag_archived e" by blast
      show ?thesis
      proof (cases "tag_archived t")
        case True
        with f t'(3) have "tag_id t = tag_id u" by (simp add: follows_def)
        then have "t = u" by (rule same_tag [OF ok(1) \<open>t \<in> set (tx_tags s)\<close> u])
        then have "target_id e = target_id u" using e by (simp add: target_id_def [of e])
        with relevant_iff [OF ok(1) e(1), of "target_id u" "map_option tag_id destination"] e(2) stays show ?thesis by simp
      next
        case False
        with True e f t'(2) have "leads s n e" by (auto simp: leads_def active_canonical_def follows_def)
        from led_before [OF P n this] e(2) stays show ?thesis by simp
      qed
    qed
  qed simp
qed

section \<open>Equal reviews\<close>

text \<open>Two states on which a review covers the same data.\<close>

definition same_review :: "taxonomy \<Rightarrow> taxonomy \<Rightarrow> int set \<Rightarrow> bool" where
  "same_review s t R = (tx_tags t = tx_tags s \<and> tx_groups t = tx_groups s
     \<and> (\<forall>p i. i \<in> R \<longrightarrow> ((p, i) \<in> set (tx_assignments t) \<longleftrightarrow> (p, i) \<in> set (tx_assignments s)))
     \<and> (\<forall>Q. (\<forall>x. Q x \<longrightarrow> (\<exists>i\<in>R. (tp_id x, i) \<in> set (tx_assignments s))) \<longrightarrow> filter Q (tx_pages t) = filter Q (tx_pages s)))"

lemma review_same:
  assumes "review_of s change canonical target = review_of t change' canonical' target'"
  shows "change' = change \<and> (canonical' = canonical \<and> target' = target \<longrightarrow> same_review s t (set (relevant_tags s canonical target)))"
proof -
  have eq: "rw_change (review_of s change canonical target) = rw_change (review_of t change' canonical' target')"
    "rw_tags (review_of s change canonical target) = rw_tags (review_of t change' canonical' target')"
    "rw_groups (review_of s change canonical target) = rw_groups (review_of t change' canonical' target')"
    "rw_assignments (review_of s change canonical target) = rw_assignments (review_of t change' canonical' target')"
    "rw_pages (review_of s change canonical target) = rw_pages (review_of t change' canonical' target')"
    using assms by simp_all
  have c: "change' = change" and tags: "tx_tags t = tx_tags s" and groups: "tx_groups t = tx_groups s"
    using eq(1-3) by (simp_all add: review_of_def Let_def)
  have "same_review s t (set (relevant_tags s canonical target))" if same: "canonical' = canonical" "target' = target"
  proof -
    let ?R = "set (relevant_tags s canonical target)"
    have R: "set (relevant_tags t canonical target) = ?R" by (simp only: relevant_tags_def tags)
    have rows: "filter (\<lambda>a. snd a \<in> ?R) (tx_assignments t) = filter (\<lambda>a. snd a \<in> ?R) (tx_assignments s)"
      using eq(4) by (simp add: review_of_def Let_def same R)
    have row: "(p, i) \<in> set (tx_assignments t) \<longleftrightarrow> (p, i) \<in> set (tx_assignments s)" if "i \<in> ?R" for p i
      using arg_cong [OF rows, of "\<lambda>xs. (p, i) \<in> set xs"] that by simp
    let ?A = "\<lambda>x. \<exists>i\<in>?R. (tp_id x, i) \<in> set (tx_assignments s)"
    have heads: "tp_id x \<in> set (map fst (filter (\<lambda>a. snd a \<in> ?R) (tx_assignments s))) \<longleftrightarrow> ?A x" for x by force
    have pages: "filter ?A (tx_pages t) = filter ?A (tx_pages s)"
      using eq(5) unfolding review_of_def Let_def taxonomy_review.select_convs same R rows heads by simp
    have "filter Q (tx_pages t) = filter Q (tx_pages s)" if Q: "\<forall>x. Q x \<longrightarrow> ?A x" for Q
    proof -
      have e: "filter Q (filter ?A xs) = filter Q xs" for xs using Q by (induction xs) auto
      show ?thesis unfolding e [of "tx_pages t", symmetric] e [of "tx_pages s", symmetric] pages ..
    qed
    with tags groups row show ?thesis by (simp add: same_review_def)
  qed
  with c show ?thesis by blast
qed

lemma assigned_after_iff:
  assumes fresh: "\<And>d. destination = Some d \<Longrightarrow> tag_id d \<noteq> tag_id u"
  shows "(p, i) \<in> assigned_after change u destination A \<longleftrightarrow> (case destination of
      Some d \<Rightarrow> if i = tag_id d then (p, i) \<in> A \<or> (p, tag_id u) \<in> A else i \<noteq> tag_id u \<and> (p, i) \<in> A
    | None \<Rightarrow> (p, i) \<in> A \<and> \<not> (change = Archive_tag (changed_tag change) \<and> tag_redirect u = None \<and> i = tag_id u))"
proof (cases destination)
  case None
  then show ?thesis by (simp add: assigned_after_def)
next
  case (Some d)
  have "(p, i) \<in> (\<lambda>(p, i). (p, if i = tag_id u then tag_id d else i)) ` A \<longleftrightarrow> (\<exists>j. (p, j) \<in> A \<and> i = (if j = tag_id u then tag_id d else j))" by force
  then show ?thesis using fresh [OF Some] by (auto simp: assigned_after_def Some)
qed

lemma source_reviewed: "taxonomy_ok s \<Longrightarrow> u \<in> set (tx_tags s) \<Longrightarrow> tag_id u \<in> review_ids s u destination"
  by (simp add: relevant_iff)

lemma destination_reviewed:
  assumes P: "planned s change u s' destination m m'" and stored: "stored_ids s" and d: "destination = Some d"
    and a: "(p, tag_id d) \<in> set (tx_assignments s)"
  shows "tag_id d \<in> review_ids s u destination"
proof -
  from P d have ok: "taxonomy_ok s" and c: "active_canonical d" and k: "d \<in> set (tx_tags s) \<or> tag_id d = -1" by (auto simp: planned_def)
  from assigned_exists [OF ok a] stored k have "d \<in> set (tx_tags s)" by (auto simp: stored_ids_def)
  with relevant_iff [OF ok this, of "target_id u" "map_option tag_id destination"] d target_of_canonical [OF c] show ?thesis by simp
qed

text \<open>The assignments a rule in the scope of the change can see, after the change.\<close>

lemma same_review_after:
  assumes P: "planned s change u s' destination m m'" and Q: "planned t change u t' destination n n'" and stored: "stored_ids s" "stored_ids t"
    and same: "same_review s t (review_ids s u destination)"
    and i: "i \<in> review_ids s u destination \<or> i \<in> tag_id ` set_option destination"
  shows "(p, i) \<in> set (tx_assignments t') \<longleftrightarrow> (p, i) \<in> set (tx_assignments s')"
    and "(p, i) \<in> set (tx_assignments s') \<Longrightarrow> \<exists>j\<in>review_ids s u destination. (p, j) \<in> set (tx_assignments s)"
proof -
  let ?R = "review_ids s u destination"
  from P Q have res: "change_taxonomy s u (map tag_id (aliases_of s (tag_id u))) change = Inr (s', destination)"
    "change_taxonomy t u (map tag_id (aliases_of t (tag_id u))) change = Inr (t', destination)"
    and fresh: "\<And>d. destination = Some d \<Longrightarrow> tag_id d \<noteq> tag_id u" and ok: "taxonomy_ok s" and u: "u \<in> set (tx_tags s)"
    by (auto simp: planned_def)
  have row: "\<And>p j. j \<in> ?R \<Longrightarrow> (p, j) \<in> set (tx_assignments t) \<longleftrightarrow> (p, j) \<in> set (tx_assignments s)" and tags: "tx_tags t = tx_tags s"
    using same by (auto simp: same_review_def)
  have ids: "review_ids t u destination = ?R" by (simp only: relevant_tags_def tags)
  have du: "(p, tag_id d) \<in> set (tx_assignments t) \<longleftrightarrow> (p, tag_id d) \<in> set (tx_assignments s)" if "destination = Some d" for d
    using destination_reviewed [OF P stored(1) that] destination_reviewed [OF Q stored(2) that] row unfolding ids by blast
  note uu = row [OF source_reviewed [OF ok u], of p]
  note after = change_assigned [OF res(1)] change_assigned [OF res(2)]
  have iff: "(p, i) \<in> assigned_after change u destination A \<longleftrightarrow> (case destination of
      Some d \<Rightarrow> if i = tag_id d then (p, i) \<in> A \<or> (p, tag_id u) \<in> A else i \<noteq> tag_id u \<and> (p, i) \<in> A
    | None \<Rightarrow> (p, i) \<in> A \<and> \<not> (change = Archive_tag (changed_tag change) \<and> tag_redirect u = None \<and> i = tag_id u))" for A
    by (rule assigned_after_iff) (rule fresh)
  show "(p, i) \<in> set (tx_assignments t') \<longleftrightarrow> (p, i) \<in> set (tx_assignments s')"
    unfolding after iff using i row du uu by (cases destination) auto
  assume "(p, i) \<in> set (tx_assignments s')"
  then show "\<exists>j\<in>?R. (p, j) \<in> set (tx_assignments s)"
    unfolding after iff
    using i source_reviewed [OF ok u, of destination] destination_reviewed [OF P stored(1)] by (cases destination) (auto split: if_splits)
qed

section \<open>The preview\<close>

lemma rule_pages_distinct: "distinct (rule_pages s m r)"
  by (simp add: rule_pages_def Let_def split: option.splits)

lemma impact_of_sets:
  assumes "set (rule_pages t n r) = set (rule_pages s m r)" "set (rule_pages t' n' r) = set (rule_pages s' m' r)"
  shows "impact_of t n t' n' g r = impact_of s m s' m' g r"
proof -
  have len: "length xs = length ys" if "distinct xs" "distinct ys" "set xs = set ys" for xs ys :: "int list"
    using that distinct_card by metis
  have "length (rule_pages t n r) = length (rule_pages s m r)" "length (rule_pages t' n' r) = length (rule_pages s' m' r)"
    using assms by (auto intro!: len rule_pages_distinct)
  moreover have "length (filter (\<lambda>i. i \<notin> A) (rule_pages t' n' r)) = length (filter (\<lambda>i. i \<notin> A) (rule_pages s' m' r))"
    "length (filter (\<lambda>i. i \<notin> A) (rule_pages t n r)) = length (filter (\<lambda>i. i \<notin> A) (rule_pages s m r))" for A
    using assms by (auto intro!: len simp: rule_pages_distinct)
  ultimately show ?thesis by (simp add: impact_of_def Let_def assms)
qed

lemma same_review_rules:
  assumes P: "planned s change u s' destination m m'" and Q: "planned t change u t' destination n n'" and stored: "stored_ids s" "stored_ids t"
    and same: "same_review s t (review_ids s u destination)" and tags': "tx_tags t' = tx_tags s'"
  defines "names \<equiv> affected_names s m m' u (map tag_id (aliases_of s (tag_id u))) destination"
  shows "taxonomy_rules t n t' n' names = taxonomy_rules s m s' m' names"
proof -
  let ?R = "review_ids s u destination"
  from P Q have ok: "taxonomy_ok s" "taxonomy_ok s'" "taxonomy_ok t" "taxonomy_ok t'"
    and m: "tag_alias_map (tx_tags s) = Inr m" "tag_alias_map (tx_tags s') = Inr m'" "tag_alias_map (tx_tags t) = Inr n" "tag_alias_map (tx_tags t') = Inr n'"
    and pages': "tx_pages s' = tx_pages s" "tx_pages t' = tx_pages t"
    by (simp_all add: planned_def)
  have tags: "tx_tags t = tx_tags s" and groups: "tx_groups t = tx_groups s"
    and row: "\<And>p i. i \<in> ?R \<Longrightarrow> (p, i) \<in> set (tx_assignments t) \<longleftrightarrow> (p, i) \<in> set (tx_assignments s)"
    and pages: "\<And>Q. \<forall>x. Q x \<longrightarrow> (\<exists>i\<in>?R. (tp_id x, i) \<in> set (tx_assignments s)) \<Longrightarrow> filter Q (tx_pages t) = filter Q (tx_pages s)"
    using same by (simp_all add: same_review_def)
  have leads: "leads t x c \<longleftrightarrow> leads s x c" "leads t' x c \<longleftrightarrow> leads s' x c" for x c by (simp_all add: leads_def tags tags')
  have page: "(\<exists>x\<in>set (tx_pages t). tp_id x = p \<and> selects r x) \<longleftrightarrow> (\<exists>x\<in>set (tx_pages s). tp_id x = p \<and> selects r x)"
    if j: "j \<in> ?R" "(p, j) \<in> set (tx_assignments s)" for p j r
  proof -
    have "filter (\<lambda>x. tp_id x = p \<and> selects r x) (tx_pages t) = filter (\<lambda>x. tp_id x = p \<and> selects r x) (tx_pages s)"
      by (rule pages) (use j in blast)
    then have "set (filter (\<lambda>x. tp_id x = p \<and> selects r x) (tx_pages t)) = set (filter (\<lambda>x. tp_id x = p \<and> selects r x) (tx_pages s))" by (rule arg_cong)
    then show ?thesis unfolding set_filter by blast
  qed
  have before: "set (rule_pages t n r) = set (rule_pages s m r)" if "rule_path r \<in> names" for r
  proof -
    have "(leads t (rule_path r) c \<and> tag_tag c \<noteq> [] \<and> (p, tag_id c) \<in> set (tx_assignments t) \<and> (\<exists>x\<in>set (tx_pages t). tp_id x = p \<and> selects r x))
      \<longleftrightarrow> (leads s (rule_path r) c \<and> tag_tag c \<noteq> [] \<and> (p, tag_id c) \<in> set (tx_assignments s) \<and> (\<exists>x\<in>set (tx_pages s). tp_id x = p \<and> selects r x))" for c p
      unfolding leads using led_before [OF P, of "rule_path r" c] that row [of "tag_id c" p] page [of "tag_id c" p r] unfolding names_def by blast
    then show ?thesis by (simp add: set_eq_iff rule_pages_leads [OF ok(1) m(1)] rule_pages_leads [OF ok(3) m(3)])
  qed
  have after: "set (rule_pages t' n' r) = set (rule_pages s' m' r)" if "rule_path r \<in> names" for r
  proof -
    have "(leads t' (rule_path r) c \<and> tag_tag c \<noteq> [] \<and> (p, tag_id c) \<in> set (tx_assignments t') \<and> (\<exists>x\<in>set (tx_pages t'). tp_id x = p \<and> selects r x))
      \<longleftrightarrow> (leads s' (rule_path r) c \<and> tag_tag c \<noteq> [] \<and> (p, tag_id c) \<in> set (tx_assignments s') \<and> (\<exists>x\<in>set (tx_pages s'). tp_id x = p \<and> selects r x))" for c p
    proof (cases "leads s' (rule_path r) c")
      case True
      from led_after [OF P that [unfolded names_def] True] have i: "tag_id c \<in> ?R \<or> tag_id c \<in> tag_id ` set_option destination" .
      note moved = same_review_after [OF P Q stored same i, of p]
      from moved(2) page [of _ p r] have "(p, tag_id c) \<in> set (tx_assignments s') \<Longrightarrow>
          (\<exists>x\<in>set (tx_pages t). tp_id x = p \<and> selects r x) \<longleftrightarrow> (\<exists>x\<in>set (tx_pages s). tp_id x = p \<and> selects r x)" by blast
      with True moved(1) show ?thesis unfolding leads pages' by blast
    qed (simp add: leads)
    then show ?thesis by (simp add: set_eq_iff rule_pages_leads [OF ok(2) m(2)] rule_pages_leads [OF ok(4) m(4)])
  qed
  have "map (impact_of t n t' n' g) (filter (\<lambda>r. rule_match r = TAG \<and> rule_path r \<in> names) (group_rules g))
      = map (impact_of s m s' m' g) (filter (\<lambda>r. rule_match r = TAG \<and> rule_path r \<in> names) (group_rules g))" for g
    by (rule map_cong [OF refl], rule impact_of_sets) (use before after in auto)
  then show ?thesis unfolding taxonomy_rules_def groups by (simp only:)
qed

text \<open>The pages a change changes are pages of its source.\<close>

lemma changed_pages_source:
  assumes P: "planned s change u s' destination m m'"
  shows "changed_pages s s' = map tp_id (filter (\<lambda>x. (destination \<noteq> None \<or> change = Archive_tag (changed_tag change) \<and> tag_redirect u = None)
     \<and> (tp_id x, tag_id u) \<in> set (tx_assignments s)) (tx_pages s))"
proof -
  from P have ok: "taxonomy_ok s" "taxonomy_ok s'" and res: "change_taxonomy s u (map tag_id (aliases_of s (tag_id u))) change = Inr (s', destination)"
    and fresh: "\<And>d. destination = Some d \<Longrightarrow> tag_id d \<noteq> tag_id u" by (auto simp: planned_def)
  have iff: "(p, i) \<in> set (tx_assignments s') \<longleftrightarrow> (case destination of
      Some d \<Rightarrow> if i = tag_id d then (p, i) \<in> set (tx_assignments s) \<or> (p, tag_id u) \<in> set (tx_assignments s)
        else i \<noteq> tag_id u \<and> (p, i) \<in> set (tx_assignments s)
    | None \<Rightarrow> (p, i) \<in> set (tx_assignments s) \<and> \<not> (change = Archive_tag (changed_tag change) \<and> tag_redirect u = None \<and> i = tag_id u))" for p i
    unfolding change_assigned [OF res] by (rule assigned_after_iff) (rule fresh)
  have "page_assignment s p \<noteq> page_assignment s' p \<longleftrightarrow> (destination \<noteq> None \<or> change = Archive_tag (changed_tag change) \<and> tag_redirect u = None)
     \<and> (p, tag_id u) \<in> set (tx_assignments s)" for p
  proof -
    have "page_assignment s p \<noteq> page_assignment s' p \<longleftrightarrow> (\<exists>i. ((p, i) \<in> set (tx_assignments s)) \<noteq> ((p, i) \<in> set (tx_assignments s')))"
      unfolding page_assignment_sets [OF taxonomy_okD(3) [OF ok(1)] taxonomy_okD(3) [OF ok(2)]] by auto
    also have "\<dots> \<longleftrightarrow> (destination \<noteq> None \<or> change = Archive_tag (changed_tag change) \<and> tag_redirect u = None) \<and> (p, tag_id u) \<in> set (tx_assignments s)"
      unfolding iff using fresh by (cases destination) (auto split: if_splits intro: exI [of _ "tag_id u"])
    finally show ?thesis .
  qed
  then show ?thesis by (simp add: changed_pages_def)
qed

lemma plan_planned:
  assumes ok: "taxonomy_ok s" and stored: "stored_ids s" and plan: "plan_taxonomy digest s input = Inr p"
  obtains change u s' destination m m' where "planned s change u s' destination m m'" "pn_change p = change"
    "pn_fingerprint p = digest (review_of s change (target_id u) (map_option tag_id destination))" "pn_changed p = changed_pages s s'"
    "pn_pages p = filter (\<lambda>x. tp_id x \<in> set (changed_pages s s')) (tx_pages s)"
    "pn_rules p = taxonomy_rules s m s' m' (affected_names s m m' u (map tag_id (aliases_of s (tag_id u))) destination)"
    "pn_access_changes p = list_ex (\<lambda>r. 0 < ri_added r \<or> 0 < ri_removed r) (pn_rules p)"
proof -
  obtain change u s' destination m m' canonical where P: "read_change input = Inr change" "u \<in> set (tx_tags s)" "tag_id u = changed_tag change"
    and res: "change_taxonomy s u (map tag_id (aliases_of s (tag_id u))) change = Inr (s', destination)"
    and m: "tag_alias_map (tx_tags s) = Inr m" "tag_alias_map (tx_tags s') = Inr m'" and c: "canonical_id (tx_tags s) (tag_id u) = Inr canonical"
    and p: "pn_fingerprint p = digest (review_of s change canonical (map_option tag_id destination))" "pn_change p = change" "pn_changed p = changed_pages s s'"
      "pn_pages p = filter (\<lambda>x. tp_id x \<in> set (changed_pages s s')) (tx_pages s)"
      "pn_rules p = taxonomy_rules s m s' m' (affected_names s m m' u (map tag_id (aliases_of s (tag_id u))) destination)"
      "pn_access_changes p = list_ex (\<lambda>r. 0 < ri_added r \<or> 0 < ri_removed r) (pn_rules p)"
    by (rule plan_review [OF plan], rule that; assumption)
  have target: "j \<noteq> tag_id u" if "change = Merge_tag i j" for i j using read_merge P(1,3) that by fastforce
  have "\<exists>f. change_scope s u s' destination f" by (rule change_taxonomy_scope [OF ok stored P(2) _ res]) (rule target)
  then obtain f where f: "change_scope s u s' destination f" by blast
  have ok': "taxonomy_ok s'" by (rule change_taxonomy_ok [OF ok stored P(2) _ res]) (rule target)
  have "d \<in> set (tx_tags s') \<and> active_canonical d \<and> tag_id d \<noteq> tag_id u \<and> (d \<in> set (tx_tags s) \<or> tag_tag d \<notin> tag_tag ` set (tx_tags s) \<and> tag_id d = -1)"
    if d: "destination = Some d" for d
  proof -
    have 1: "active_canonical d" "f d = d" "tag_tag d \<noteq> tag_tag u" "d \<in> set (tx_tags s) \<or> tag_tag d \<notin> tag_tag ` set (tx_tags s)" "\<not> touched s u d"
      using f d by (auto simp: change_scope_def added_rows_def split: if_splits)
    have "d \<in> set (tx_tags s @ added_rows s destination)" by (simp add: d added_rows_def)
    with f 1(2) have "d \<in> set (tx_tags s')" unfolding change_scope_def by (metis image_eqI set_map)
    moreover have "tag_id d \<noteq> tag_id u" using 1(5) by (simp add: touched_def)
    ultimately show ?thesis using 1 change_destination [OF res [unfolded d]] by blast
  qed
  with ok ok' P(2,3) res m f have "planned s change u s' destination m m'" by (simp add: planned_def change_scope_def)
  moreover have "canonical = target_id u" using c canonical_id_ok [OF ok P(2)] by simp
  ultimately show ?thesis using p by (intro that) simp_all
qed

lemma review_pins_preview:
  assumes s: "taxonomy_ok s" "stored_ids s" "plan_taxonomy digest s input = Inr p" and t: "taxonomy_ok t" "stored_ids t" "plan_taxonomy digest t input' = Inr q"
    and fp: "pn_fingerprint q = pn_fingerprint p" and unique: "\<And>a b. digest a = pn_fingerprint p \<Longrightarrow> digest b = pn_fingerprint p \<Longrightarrow> a = b"
  shows "pn_change q = pn_change p \<and> pn_changed q = pn_changed p \<and> pn_pages q = pn_pages p \<and> pn_rules q = pn_rules p
     \<and> pn_access_changes q = pn_access_changes p"
proof -
  obtain change u s' destination m m' where P: "planned s change u s' destination m m'" and p: "pn_change p = change"
    "pn_fingerprint p = digest (review_of s change (target_id u) (map_option tag_id destination))" "pn_changed p = changed_pages s s'"
    "pn_pages p = filter (\<lambda>x. tp_id x \<in> set (changed_pages s s')) (tx_pages s)"
    "pn_rules p = taxonomy_rules s m s' m' (affected_names s m m' u (map tag_id (aliases_of s (tag_id u))) destination)"
    "pn_access_changes p = list_ex (\<lambda>r. 0 < ri_added r \<or> 0 < ri_removed r) (pn_rules p)"
    by (rule plan_planned [OF s], rule that; assumption)
  obtain change' u' t' destination' n n' where Q0: "planned t change' u' t' destination' n n'" and q0: "pn_change q = change'"
    "pn_fingerprint q = digest (review_of t change' (target_id u') (map_option tag_id destination'))" "pn_changed q = changed_pages t t'"
    "pn_pages q = filter (\<lambda>x. tp_id x \<in> set (changed_pages t t')) (tx_pages t)"
    "pn_rules q = taxonomy_rules t n t' n' (affected_names t n n' u' (map tag_id (aliases_of t (tag_id u'))) destination')"
    "pn_access_changes q = list_ex (\<lambda>r. 0 < ri_added r \<or> 0 < ri_removed r) (pn_rules q)"
    by (rule plan_planned [OF t], rule that; assumption)
  have "review_of s change (target_id u) (map_option tag_id destination) = review_of t change' (target_id u') (map_option tag_id destination')"
    by (rule unique) (use fp p(2) q0(2) in simp_all)
  note rs = review_same [OF this]
  have change: "change' = change" using rs by blast
  have tags: "tx_tags t = tx_tags s"
    using \<open>review_of s change (target_id u) (map_option tag_id destination) = review_of t change' (target_id u') (map_option tag_id destination')\<close>
    by (simp add: review_of_def Let_def)
  have "u' \<in> set (tx_tags s)" "tag_id u' = tag_id u" "u \<in> set (tx_tags s)" using P Q0 by (simp_all add: planned_def tags change)
  then have u: "u' = u" using same_tag [OF s(1)] by blast
  have al: "aliases_of t i = aliases_of s i" for i by (simp add: aliases_of_def tags)
  have "change_taxonomy s u (map tag_id (aliases_of s (tag_id u))) change = Inr (s', destination)" using P unfolding planned_def by blast
  moreover have "change_taxonomy t u (map tag_id (aliases_of s (tag_id u))) change = Inr (t', destination')"
    using Q0 unfolding planned_def u change al by blast
  ultimately have after: "destination' = destination \<and> tx_tags t' = tx_tags s'" by (rule change_same [OF tags])
  note Q = Q0 [unfolded u change after [THEN conjunct1]] and q = q0 [unfolded u change after [THEN conjunct1]]
  have same: "same_review s t (review_ids s u destination)" using rs u after by simp
  have maps: "n = m" "n' = m'" using P Q after by (simp_all add: planned_def tags)
  have names: "affected_names t n n' u (map tag_id (aliases_of t (tag_id u))) destination
      = affected_names s m m' u (map tag_id (aliases_of s (tag_id u))) destination"
    by (simp add: affected_names_def maps tags al)
  have rules: "pn_rules q = pn_rules p"
    unfolding p(5) q(5) names by (rule same_review_rules [OF P Q s(2) t(2) same after [THEN conjunct2]])
  have ok: "taxonomy_ok s" and us: "u \<in> set (tx_tags s)" using P by (simp_all add: planned_def)
  let ?Q = "\<lambda>x. (destination \<noteq> None \<or> change = Archive_tag (changed_tag change) \<and> tag_redirect u = None) \<and> (tp_id x, tag_id u) \<in> set (tx_assignments s)"
  have pages: "filter F (tx_pages t) = filter F (tx_pages s)"
    if "\<forall>x. F x \<longrightarrow> (\<exists>i\<in>review_ids s u destination. (tp_id x, i) \<in> set (tx_assignments s))" for F
    using same that by (simp add: same_review_def)
  have row: "(x, tag_id u) \<in> set (tx_assignments t) \<longleftrightarrow> (x, tag_id u) \<in> set (tx_assignments s)" for x
    using same source_reviewed [OF ok us] by (simp add: same_review_def)
  have "filter ?Q (tx_pages t) = filter ?Q (tx_pages s)" by (rule pages) (use source_reviewed [OF ok us] in blast)
  then have changed: "changed_pages t t' = changed_pages s s'"
    unfolding changed_pages_source [OF P] changed_pages_source [OF Q] row by simp
  have "filter (\<lambda>x. tp_id x \<in> set (changed_pages s s')) (tx_pages t) = filter (\<lambda>x. tp_id x \<in> set (changed_pages s s')) (tx_pages s)"
  proof (rule pages, intro allI impI)
    fix x assume "tp_id x \<in> set (changed_pages s s')"
    then have "(tp_id x, tag_id u) \<in> set (tx_assignments s)" unfolding changed_pages_source [OF P] by auto
    with source_reviewed [OF ok us] show "\<exists>i\<in>review_ids s u destination. (tp_id x, i) \<in> set (tx_assignments s)" by blast
  qed
  with p q changed rules show ?thesis by simp
qed

text \<open>C28. What an administrator reviewed is what is committed, whatever was written in between: if the
  fingerprint of a preview is accepted later (and no other review has it), the change planned then is
  the previewed one, with the same effect on every access rule, an access change was acknowledged,
  and the pages changed are exactly those the preview listed, each of them at the revision, under
  the title and at the location that the reviewer saw.
\<close>

theorem reviewed_change_is_committed:
  assumes "store_ok db0" "preview_taxonomy env reviewer input db0 = Inr p" "store_ok db" "0 < fy_tag ids"
    and "apply_taxonomy env ids actor input' (JStr (pn_fingerprint p)) acknowledge seen now db = Inr (r, db')"
    and "\<forall>a b. te_digest env a = pn_fingerprint p \<longrightarrow> te_digest env b = pn_fingerprint p \<longrightarrow> a = b"
  shows "(\<exists>q. plan_taxonomy (te_digest env) (read_taxonomy db) input' = Inr q \<and> pn_change q = pn_change p \<and> pn_rules q = pn_rules p)
     \<and> (pn_access_changes p \<longrightarrow> acknowledge = JBool True)
     \<and> (\<exists>author. principal_id (ac_requester actor) = Some author
          \<and> o_pages db' = map (\<lambda>q. if pj_id q \<in> set (pn_changed p) then retagged_page author now q else q) (o_pages db))
     \<and> tp_id ` set (pn_pages p) = set (pn_changed p) \<and> (\<forall>x\<in>set (pn_pages p). \<exists>q. find_page (tp_id x) db = Some q \<and> taxonomy_page_of q = x)"
proof -
  have s: "taxonomy_ok (read_taxonomy db0)" "stored_ids (read_taxonomy db0)" "plan_taxonomy (te_digest env) (read_taxonomy db0) input = Inr p"
    using assms(1,2) by (auto simp: store_ok_def preview_taxonomy_def rbind_Inr_iff)
  have t: "taxonomy_ok (read_taxonomy db)" "stored_ids (read_taxonomy db)" using assms(3) by (simp_all add: store_ok_def)
  obtain author q db1 where a: "authorize_taxonomy actor = Inr author" "pn_fingerprint q = pn_fingerprint p" "pn_access_changes q \<longrightarrow> acknowledge = JBool True"
    and q: "plan_taxonomy (te_digest env) (read_taxonomy db) input' = Inr q" and v: "vocabulary_tables db1 = vocabulary_tables db"
    and same: "approval_tables db1 = approval_tables db" and c: "commit_plan env ids actor author (read_taxonomy db) q now db1 = Inr (r, db')"
    by (rule apply_success [OF assms(5)], rule that) auto
  have pages: "o_pages db1 = o_pages db" using same by (simp add: approval_tables_def)
  have pins: "pn_change q = pn_change p \<and> pn_changed q = pn_changed p \<and> pn_pages q = pn_pages p \<and> pn_rules q = pn_rules p
      \<and> pn_access_changes q = pn_access_changes p"
    by (rule review_pins_preview [OF s t q a(2)]) (use assms(6) in blast)
  obtain change u s' destination m m' where P: "pn_changed q = changed_pages (read_taxonomy db) s'"
    "pn_pages q = filter (\<lambda>x. tp_id x \<in> set (changed_pages (read_taxonomy db) s')) (tx_pages (read_taxonomy db))"
    by (rule plan_planned [OF t q], rule that; assumption)
  have listed: "tp_id ` set (pn_pages q) = set (pn_changed q)" unfolding P by (auto simp: changed_pages_def)
  have stored: "\<exists>y. find_page (tp_id x) db = Some y \<and> taxonomy_page_of y = x" if "x \<in> set (pn_pages q)" for x
  proof -
    from that obtain y where y: "y \<in> set (o_pages db)" "x = taxonomy_page_of y" unfolding P(2) by auto
    have "sql_first (\<lambda>p. pj_id p = tp_id x) (o_pages db) = Some y"
      by (rule sql_first_unique [where k = pj_id and key = "tp_id x"]) (use store_okD(3) [OF assms(3)] y in \<open>auto simp: taxonomy_page_of_def\<close>)
    with y(2) show ?thesis by (auto simp: find_page_def)
  qed
  have author: "principal_id (ac_requester actor) = Some author" using a(1) by (auto simp: authorize_taxonomy_def split: if_splits option.splits)
  have eq: "pn_change q = pn_change p" "pn_changed q = pn_changed p" "pn_pages q = pn_pages p" "pn_rules q = pn_rules p" "pn_access_changes q = pn_access_changes p"
    using pins by simp_all
  show ?thesis
  proof (intro conjI)
    show "\<exists>q. plan_taxonomy (te_digest env) (read_taxonomy db) input' = Inr q \<and> pn_change q = pn_change p \<and> pn_rules q = pn_rules p"
      using q eq(1,4) by blast
    show "pn_access_changes p \<longrightarrow> acknowledge = JBool True" using a(3) unfolding eq(5) .
    show "\<exists>author. principal_id (ac_requester actor) = Some author
        \<and> o_pages db' = map (\<lambda>q. if pj_id q \<in> set (pn_changed p) then retagged_page author now q else q) (o_pages db)"
      using author commit_success(5) [OF assms(3,4) q v pages c] unfolding eq(2) by blast
    show "tp_id ` set (pn_pages p) = set (pn_changed p)" using listed unfolding eq(2,3) .
    show "\<forall>x\<in>set (pn_pages p). \<exists>q. find_page (tp_id x) db = Some q \<and> taxonomy_page_of q = x" using stored unfolding eq(3) by blast
  qed
qed

end
