(* ===== verification/TaxonomyExample.thy ===== *)
theory TaxonomyExample
  imports TaxonomyReview ApprovalExample
begin

text \<open>
  A stored vocabulary (a guide with an alias, and a manual, one tagged page), on which an
  administrator tags the page and merges the guide into the manual.
\<close>

definition sample_actor :: taxonomy_actor where
  "sample_actor = \<lparr>ac_requester = Some ap_admin, ac_session = ''s'', ac_authority = lock_authority\<rparr>"

definition sample_db :: taxonomy_db where
  "sample_db = \<lparr>o_effects = [], o_pages = [ap_page], o_links = [], o_vectors = [], o_words = [], o_passwords = [],
     o_grants = [], o_assets = [], o_asset_ids = [], o_tags = [(7, ''guide'')], o_history = [], o_requests = [], o_transitions = [], o_events = [],
     o_users = [(6, Some ''Ada'')],
     y_tags = [new_tag 1 ''guide'' ''Guide'' ''t0'', new_tag 2 ''manual'' ''Manual'' ''t0'', (new_tag 3 ''howto'' ''How to'' ''t0'')\<lparr>tag_redirect := Some 1\<rparr>],
     y_assignments = [(7, 1)], y_groups = []\<rparr>"

definition sample_review :: taxonomy_review where
  "sample_review = review_of (read_taxonomy sample_db) (Merge_tag 1 2) 1 (Some 2)"

definition sample_fingerprint :: string where
  "sample_fingerprint = replicate 64 CHR ''a''"

definition sample_env :: taxonomy_env where
  "sample_env = \<lparr>te_page = lock_env, te_digest = (\<lambda>r. if r = sample_review then sample_fingerprint else []), te_iso = (\<lambda>_. ''t1''),
     te_metadata = (\<lambda>_ _ _. Inr ())\<rparr>"

definition sample_ids :: taxonomy_ids where
  "sample_ids = \<lparr>fy_tag = 9, fy_history = (\<lambda>_. 1), fy_event = (\<lambda>_. ''event''), fy_effects = (\<lambda>_. ap_fresh)\<rparr>"

definition sample_merge :: "taxonomy_db \<Rightarrow> (taxonomy_result \<times> taxonomy_db) result" where
  "sample_merge = apply_taxonomy sample_env sample_ids sample_actor example_merge (JStr sample_fingerprint) JUndefined (read_taxonomy sample_db) 5"

definition sample_plan :: taxonomy_plan where
  "sample_plan = (case plan_taxonomy (te_digest sample_env) (read_taxonomy sample_db) example_merge of Inr p \<Rightarrow> p)"

lemma sample_planned: "plan_taxonomy (te_digest sample_env) (read_taxonomy sample_db) example_merge = Inr sample_plan"
  by code_simp

lemma sample_plan_facts: "pn_fingerprint sample_plan = sample_fingerprint" "pn_access_changes sample_plan = False" "pn_changed sample_plan = [7]"
  "map_option tag_id (pn_destination sample_plan) = Some 2"
  by code_simp+

lemma sample_fingerprint_ok: "review_fingerprint (JStr sample_fingerprint) = Some sample_fingerprint"
  by code_simp

lemma sample_authorized: "authorize_taxonomy sample_actor = Inr 6"
  by (simp add: authorize_taxonomy_def sample_actor_def ap_admin_facts)

lemma sample_unlocked: "assert_page_unlocked lock_env (Some ap_admin) lock_authority 7 session now sample_db = Inr ((), sample_db)"
proof -
  have "find_page 7 sample_db = Some ap_page" by (simp add: find_page_def sample_db_def table_simps ap_page_fields)
  moreover have "can_read_page regex (Some ap_admin) (page_view sample_db ap_page) lock_authority" for regex by (simp add: ap_access ap_page_fields)
  moreover have "page_requires_unlock (Some ap_admin) 7 session False now sample_db = (False, sample_db)"
    by (simp add: page_requires_unlock_def ap_admin_facts)
  ultimately show ?thesis by (simp add: assert_page_unlocked_def)
qed

text \<open>The intents of a retagged page are those of the page at its next revision.\<close>

lemma sample_intent: "retagged_intent ap_page = published_intent (ap_page\<lparr>pj_revision := ''2''\<rparr>)"
  by (simp add: retagged_intent_def published_intent_def ap_page_fields decimal_value_def decimal.simps char_of_def bit_Suc_0_iff)

lemma sample_retagged: "\<exists>db'. retag_page sample_env sample_ids sample_actor 6 after 5 7 sample_db = Inr ((), db')"
proof -
  have find: "find_page 7 sample_db = Some ap_page" by (simp add: find_page_def sample_db_def table_simps ap_page_fields)
  obtain db1 where db1: "snapshot_revision 1 ap_page ''updated'' sample_db = Inr (1, db1)" "o_effects db1 = []" "o_events db1 = []"
    by (simp add: snapshot_revision_def sample_db_def)
  define db3 where "db3 = (write_assignments after 7 db1)\<lparr>o_pages := sql_update (\<lambda>q. pj_id q = 7) (retagged_page 6 5) (o_pages (write_assignments after 7 db1))\<rparr>"
  have "o_effects db3 = []" "o_events db3 = []" using db1 by (simp_all add: db3_def write_assignments_def Let_def)
  then obtain x db4 where e: "enqueue_effects outbox_env (retagged_intent ap_page) ap_fresh 5 db3 = Inr (x, db4)"
    unfolding sample_intent using ap_enqueued [of db3 "ap_page\<lparr>pj_revision := ''2''\<rparr>" 5] by (auto simp: ap_page_fields)
  have "same_frame db3 db4" by (rule enqueue_effects_frame [OF e])
  then have "o_events db4 = []" using \<open>o_events db3 = []\<close> by (cases db4; cases db3) (simp add: same_frame_def)
  then have event: "\<exists>y db5. retagged_event ''event'' sample_actor 6 ap_page tags 5 db4 = Inr (y, db5)" for tags
    by (simp add: retagged_event_def write_outbox_event_def valid_event_type_def lower_letter_def event_word_def is_digit_def safe_int_def max_safe_def
      ap_page_fields)
  have env: "te_page sample_env = lock_env" "pe_text lock_env = outbox_env" "te_metadata sample_env p a t = Inr ()" "fy_history sample_ids p = 1"
    "fy_effects sample_ids p = ap_fresh" "fy_event sample_ids p = ''event''" for p a t
    by (simp_all add: sample_env_def lock_env_def sample_ids_def)
  show ?thesis
    unfolding retag_page_def find option.case env rbind_simps db1(1) prod.case Let_def db3_def [symmetric] e
    using event by (simp add: rbind_Inr_iff split: prod.splits) blast
qed

lemma sample_merged: "\<exists>r db'. sample_merge sample_db = Inr (r, db')"
proof -
  obtain d where d: "pn_destination sample_plan = Some d" "tag_id d = 2" using sample_plan_facts(4) by auto
  obtain db1 where step: "retag_page sample_env sample_ids sample_actor 6 (pn_after sample_plan) 5 7 sample_db = Inr ((), db1)"
    using sample_retagged by blast
  have dest: "store_destination sample_env (fy_tag sample_ids) sample_plan 5 sample_db = Inr ((pn_after sample_plan, 2), sample_db)"
    using d by (simp add: store_destination_def)
  have "\<exists>r db'. commit_plan sample_env sample_ids sample_actor 6 (read_taxonomy sample_db) sample_plan 5 sample_db = Inr (r, db')"
    unfolding commit_plan_def dest rbind_simps prod.case sample_plan_facts for_pages.simps step by (simp add: Let_def)
  moreover have actor: "ac_requester sample_actor = Some ap_admin" "ac_authority sample_actor = lock_authority" "te_page sample_env = lock_env"
    by (simp_all add: sample_actor_def sample_env_def)
  ultimately show ?thesis
    by (simp add: sample_merge_def apply_taxonomy_def apply_in_tx_def sample_authorized sample_fingerprint_ok sample_planned sample_plan_facts
      sample_unlocked Let_def)
qed

lemma sample_store: "store_ok sample_db"
proof (rule store_okI)
  show "taxonomy_ok (vocabulary (y_tags sample_db) (y_assignments sample_db))"
    by (simp add: taxonomy_ok_def unique_key_def sample_db_def new_tag_def active_canonical_def)
  show "unique_key pj_id (o_pages sample_db)" "fst ` set (y_assignments sample_db) \<subseteq> pj_id ` set (o_pages sample_db)"
    "\<And>t. t \<in> set (y_tags sample_db) \<Longrightarrow> 0 < tag_id t"
    by (auto simp: unique_key_def sample_db_def ap_page_fields new_tag_def)
  show "(page, name) \<in> set (o_tags sample_db) \<longleftrightarrow> name \<in> page_tag_names (vocabulary (y_tags sample_db) (y_assignments sample_db)) page" for page name
    by (auto simp: sample_db_def page_tag_names_def new_tag_def image_iff conj_disj_distribR ex_disj_distrib)
qed

section \<open>The properties at work\<close>

text \<open>The page is tagged with an alias of the guide and a new name.\<close>

definition sample_names :: js_value where
  "sample_names = JArr [JStr ''howto'', JStr ''news'']"

lemma sample_tagged: "\<exists>db'. associate_tags sample_env (\<lambda>_. 4) sample_names 7 6 sample_db = Inr (True, db')"
proof -
  have "case associate_tags sample_env (\<lambda>_. 4) sample_names 7 6 sample_db of Inl _ \<Rightarrow> False | Inr (changed, _) \<Rightarrow> changed" by code_simp
  then show ?thesis by (auto split: sum.splits)
qed

theorem page_tags_resolve_witness:
  "\<exists>db' m. associate_tags sample_env (\<lambda>_. 4) sample_names 7 6 sample_db = Inr (True, db') \<and> tag_alias_map (tx_tags (read_taxonomy db')) = Inr m
     \<and> page_tag_names (read_taxonomy db') 7 = resolved_names m [''howto'', ''news'']"
proof -
  obtain db' where r: "associate_tags sample_env (\<lambda>_. 4) sample_names 7 6 sample_db = Inr (True, db')" using sample_tagged by blast
  have "tag_names sample_names = Inr [''howto'', ''news'']" by code_simp
  with page_tags_resolve [OF sample_store r] r show ?thesis by auto
qed

theorem taxonomy_stays_sound_witness:
  "taxonomy_ok (read_taxonomy (tax_run sample_env [Tax_tags (\<lambda>_. 4) sample_names 7 6,
     Tax_apply sample_ids sample_actor example_merge (JStr sample_fingerprint) JUndefined (read_taxonomy sample_db) 5] sample_db))"
  using taxonomy_stays_sound [OF sample_store refl] by blast

lemma sample_committed: "\<exists>r db'. apply_taxonomy sample_env sample_ids sample_actor example_merge (JStr sample_fingerprint) JUndefined
    (read_taxonomy sample_db) 5 sample_db = Inr (r, db')"
  using sample_merged by (simp add: sample_merge_def)

theorem committed_change_is_the_plan_witness:
  "\<exists>r db'. apply_taxonomy sample_env sample_ids sample_actor example_merge (JStr sample_fingerprint) JUndefined (read_taxonomy sample_db) 5 sample_db = Inr (r, db')
     \<and> o_pages db' = [retagged_page 6 5 ap_page]"
proof -
  obtain r db' where c: "apply_taxonomy sample_env sample_ids sample_actor example_merge (JStr sample_fingerprint) JUndefined
    (read_taxonomy sample_db) 5 sample_db = Inr (r, db')" using sample_committed by blast
  have "0 < fy_tag sample_ids" by (simp add: sample_ids_def)
  from committed_change_is_the_plan [OF sample_store this c] obtain p author where
    "plan_taxonomy (te_digest sample_env) (read_taxonomy sample_db) example_merge = Inr p" "principal_id (ac_requester sample_actor) = Some author"
    "o_pages db' = map (\<lambda>q. if pj_id q \<in> set (pn_changed p) then retagged_page author 5 q else q) (o_pages sample_db)" by blast
  then have "o_pages db' = [retagged_page 6 5 ap_page]"
    using sample_planned sample_plan_facts by (auto simp: sample_actor_def ap_admin_facts sample_db_def ap_page_fields)
  with c show ?thesis by blast
qed

lemma sample_digest: "te_digest sample_env r = sample_fingerprint \<Longrightarrow> te_digest sample_env q = sample_fingerprint \<Longrightarrow> r = q"
proof -
  have digest: "te_digest sample_env x = (if x = sample_review then sample_fingerprint else [])" for x
    unfolding sample_env_def by (simp only: taxonomy_env.simps)
  have filled: "sample_fingerprint \<noteq> []" by (simp add: sample_fingerprint_def)
  assume "te_digest sample_env r = sample_fingerprint" "te_digest sample_env q = sample_fingerprint"
  with filled show "r = q" unfolding digest by metis
qed

text \<open>The merge is reviewed on the stored vocabulary and committed on it.\<close>

theorem reviewed_change_is_committed_witness:
  "\<exists>p r db'. preview_taxonomy sample_env sample_actor example_merge sample_db = Inr p
     \<and> apply_taxonomy sample_env sample_ids sample_actor example_merge (JStr (pn_fingerprint p)) JUndefined (read_taxonomy sample_db) 5 sample_db = Inr (r, db')
     \<and> (\<exists>q. plan_taxonomy (te_digest sample_env) (read_taxonomy sample_db) example_merge = Inr q \<and> pn_rules q = pn_rules p)
     \<and> tp_id ` set (pn_pages p) = {7}"
proof -
  have p: "preview_taxonomy sample_env sample_actor example_merge sample_db = Inr sample_plan"
    by (simp add: preview_taxonomy_def sample_authorized sample_planned)
  obtain r db' where c: "apply_taxonomy sample_env sample_ids sample_actor example_merge (JStr (pn_fingerprint sample_plan)) JUndefined
    (read_taxonomy sample_db) 5 sample_db = Inr (r, db')" unfolding sample_plan_facts using sample_committed by blast
  have new: "0 < fy_tag sample_ids" by (simp add: sample_ids_def)
  have unique: "\<forall>a b. te_digest sample_env a = pn_fingerprint sample_plan \<longrightarrow> te_digest sample_env b = pn_fingerprint sample_plan \<longrightarrow> a = b"
    using sample_digest unfolding sample_plan_facts by blast
  have "(\<exists>q. plan_taxonomy (te_digest sample_env) (read_taxonomy sample_db) example_merge = Inr q \<and> pn_change q = pn_change sample_plan
      \<and> pn_rules q = pn_rules sample_plan) \<and> tp_id ` set (pn_pages sample_plan) = set (pn_changed sample_plan)"
    using reviewed_change_is_committed [OF sample_store p sample_store new c unique] by (elim conjE) (rule conjI)
  then obtain q where "plan_taxonomy (te_digest sample_env) (read_taxonomy sample_db) example_merge = Inr q" "pn_rules q = pn_rules sample_plan"
    "tp_id ` set (pn_pages sample_plan) = {7}" by (auto simp: sample_plan_facts)
  with p c show ?thesis by (intro exI conjI)
qed

end
