(* ===== verification/ApiKeys.thy ===== *)
theory ApiKeys
  imports Approvals
begin

text \<open>
  API credentials: the principals they become (\<^verbatim>\<open>server/helpers/api-principal.ts\<close>), the keys of
  services and the personal MCP keys of users, how they are issued, created and revoked
  (\<^verbatim>\<open>server/operations/personal-mcp.ts\<close>, \<^verbatim>\<open>server/operations/api.ts\<close>, \<^verbatim>\<open>server/models/apiKeys.ts\<close>),
  and how a request that presents one is authenticated (\<^verbatim>\<open>server/helpers/personal-mcp.ts\<close>, the
  branch for keys in \<^verbatim>\<open>server/core/auth.ts\<close>). Signing, verifying and decoding of tokens (\<^verbatim>\<open>jsonwebtoken\<close>,
  \<^verbatim>\<open>passport-jwt\<close>), \<^verbatim>\<open>JSON.parse\<close> and the reading of a duration (\<^verbatim>\<open>ms\<close>) are parameters; the expiry of a key is an instant, or nothing when its
  text is not one. Page rules of groups and the listing for the administration page are left out.
\<close>

section \<open>API principals\<close>

text \<open>\<^verbatim>\<open>createApiPrincipal\<close>\<close>

fun js_string :: "js_value \<Rightarrow> string option" where
  "js_string (JStr s) = Some s"
| "js_string _ = None"

definition string_list :: "js_value \<Rightarrow> string list option" where
  "string_list v = (case v of JArr xs \<Rightarrow> if list_all js_is_string xs then Some (List.map_filter js_string xs) else None | _ \<Rightarrow> None)"

definition create_api_principal :: "nat \<Rightarrow> js_value \<Rightarrow> js_value \<Rightarrow> js_value \<Rightarrow> principal result" where
  "create_api_principal ref api grp permissions = (case (js_positive api, js_positive grp) of
      (Some a, Some g) \<Rightarrow> (case string_list permissions of
          None \<Rightarrow> Inl Type_error
        | Some ps \<Rightarrow> Inr \<lparr>pr_ref = ref,
            pr_value = JObj [(''api'', JNum (Whole a)), (''grp'', JNum (Whole g)), (''email'', JStr ''api@localhost''), (''name'', JStr ''API''),
              (''pictureUrl'', JNull), (''timezone'', JStr ''America/New_York''), (''localeCode'', JStr ''en''),
              (''permissions'', JArr (map JStr ps)), (''groups'', JArr [JNum (Whole g)]), (''ownershipUserId'', JNull)],
            pr_global = Some ps\<rparr>)
    | _ \<Rightarrow> Inl Type_error)"

text \<open>\<^verbatim>\<open>rejectApiPrincipalMutation\<close>, and the guard before every GraphQL mutation.\<close>

definition mutation_forbidden :: js_error where
  "mutation_forbidden = Coded ''API_KEY_MUTATION_FORBIDDEN'' 403"

definition reject_api_mutation :: "js_value \<Rightarrow> unit result" where
  "reject_api_mutation v = (if is_api_principal v then Inl mutation_forbidden else Inr ())"

definition request_for_context :: "js_value \<Rightarrow> js_value \<times> bool" where
  "request_for_context context =
     (let request = js_get ''req'' context; user = js_get ''user'' request in
      if \<not> js_is_record context \<or> \<not> js_is_record request then (JUndefined, False)
      else (user, js_get ''kind'' (js_get ''authContext'' request) = JStr ''apiKey'' \<or> is_api_principal user))"

definition guarded_mutation :: "js_value \<Rightarrow> 'a result \<Rightarrow> 'a result" where
  "guarded_mutation context resolved = (case request_for_context context of
      (user, api) \<Rightarrow> if api then Inl mutation_forbidden else rbind (reject_api_mutation user) (\<lambda>_. resolved))"

section \<open>Tables and environment\<close>

record api_key =
  ak_id :: int
  ak_name :: string
  ak_key :: string
  ak_owner :: "int option"
  ak_access :: "string option"
  ak_expires :: "int option"
  ak_revoked :: bool
  ak_created :: int
  ak_updated :: int

record account_row =
  us_id :: int
  us_active :: bool
  us_version :: int
  us_name :: string
  us_email :: string
  us_picture :: "string option"
  us_timezone :: string
  us_locale :: string

record group_row =
  gp_id :: int
  gp_permissions :: js_value
  gp_system :: bool

text \<open>\<open>k_setting\<close> is the stored setting \<^verbatim>\<open>api\<close> and \<open>k_config\<close> the configuration in memory.\<close>

record api_db =
  k_keys :: "api_key list"
  k_users :: "account_row list"
  k_members :: "(int \<times> int) list"
  k_groups :: "group_row list"
  k_setting :: "js_value option"
  k_config :: "(string \<times> js_value) list"

text \<open>
  The options tokens are signed with; a lifetime is a number of seconds or a text. \<open>ae_sign\<close> gets the
  claims, the options and the clock, \<open>ae_verify\<close> the token, the audience and issuer it has to be
  for, and the clock, and \<open>ae_decode\<close> reads a token without verifying it. The signing key and the
  certificate are part of these functions.
\<close>

datatype lifetime = Seconds int | Lasting string

record sign_options =
  so_expires :: lifetime
  so_audience :: string
  so_issuer :: string

record api_env =
  ae_sign :: "js_value \<Rightarrow> sign_options \<Rightarrow> int \<Rightarrow> string"
  ae_verify :: "string \<Rightarrow> string \<Rightarrow> string \<Rightarrow> int \<Rightarrow> js_value option"
  ae_decode :: "string \<Rightarrow> js_value"
  ae_json :: "string \<Rightarrow> js_value option"
  ae_duration :: "string \<Rightarrow> int option"
  ae_endpoint :: string
  ae_agents :: bool
  ae_audience :: string

definition token_issuer :: string where
  "token_issuer = ''urn:wiki.js''"

definition token_options :: "api_env \<Rightarrow> lifetime \<Rightarrow> sign_options" where
  "token_options env expires = \<lparr>so_expires = expires, so_audience = ae_audience env, so_issuer = token_issuer\<rparr>"

definition key_denied :: js_error where
  "key_denied = Coded ''API_KEY_INVALID'' 401"

definition key_missing :: js_error where
  "key_missing = Coded ''API_KEY_NOT_FOUND'' 404"

definition authority_denied :: js_error where
  "authority_denied = Coded ''APPLICATION_ERROR'' 403"

section \<open>Sessions and owners\<close>

text \<open>\<^verbatim>\<open>sessionVersion\<close> and \<^verbatim>\<open>accountSessionIsCurrent\<close>\<close>

definition session_version :: "js_value \<Rightarrow> int option" where
  "session_version v = (if v = JUndefined then Some 0
     else case js_safe_integer v of None \<Rightarrow> None | Some i \<Rightarrow> if 0 \<le> i \<and> i \<le> 2147483647 then Some i else None)"

definition session_current :: "js_value \<Rightarrow> js_value \<Rightarrow> account_row option \<Rightarrow> bool" where
  "session_current ident version account = (case (account, js_safe_integer ident) of
      (Some u, Some i) \<Rightarrow>
        1 \<le> i \<and> i \<noteq> 2 \<and> i = us_id u \<and> us_active u
        \<and> session_version version \<noteq> None \<and> session_version version = session_version (JNum (Whole (us_version u)))
    | _ \<Rightarrow> False)"

text \<open>\<^verbatim>\<open>stringArray\<close>\<close>

definition parsed_value :: "api_env \<Rightarrow> js_value \<Rightarrow> js_value option" where
  "parsed_value env v = (case v of JStr t \<Rightarrow> ae_json env t | _ \<Rightarrow> Some v)"

definition group_permissions_of :: "api_env \<Rightarrow> js_value \<Rightarrow> string list option" where
  "group_permissions_of env v = (case parsed_value env v of None \<Rightarrow> None | Some w \<Rightarrow> string_list w)"

definition string_array :: "api_env \<Rightarrow> js_value \<Rightarrow> string list result" where
  "string_array env v = (case group_permissions_of env v of None \<Rightarrow> Inl key_denied | Some ps \<Rightarrow> Inr ps)"

text \<open>\<^verbatim>\<open>loadPersonalMcpOwner\<close>: the groups are joined with the memberships.\<close>

record key_owner =
  ow_account :: account_row
  ow_groups :: "int list"
  ow_permissions :: "string list"

definition find_account :: "int \<Rightarrow> api_db \<Rightarrow> account_row option" where
  "find_account i db = sql_first (\<lambda>u. us_id u = i) (k_users db)"

definition groups_of :: "int \<Rightarrow> api_db \<Rightarrow> group_row list" where
  "groups_of user db = concat (map (\<lambda>g. replicate (count_list (k_members db) (user, gp_id g)) g) (sort_key gp_id (k_groups db)))"

definition load_owner :: "api_env \<Rightarrow> int \<Rightarrow> api_db \<Rightarrow> key_owner result" where
  "load_owner env owner db =
     (if \<not> safe_int owner \<or> owner < 1 \<or> owner = 2 then Inl key_denied
      else case find_account owner db of
        None \<Rightarrow> Inl key_denied
      | Some u \<Rightarrow>
          if \<not> us_active u then Inl key_denied
          else let groups = groups_of owner db in
            rbind (rfold (\<lambda>g acc. rbind (string_array env (gp_permissions g)) (\<lambda>ps. Inr (acc @ ps))) groups [])
              (\<lambda>ps. Inr \<lparr>ow_account = u, ow_groups = map gp_id groups, ow_permissions = dedup ps\<rparr>))"

text \<open>\<^verbatim>\<open>personalMcpEnabled\<close> and \<^verbatim>\<open>personalMcpEligible\<close>\<close>

definition personal_enabled :: "api_env \<Rightarrow> api_db \<Rightarrow> bool" where
  "personal_enabled env db = (js_get ''isEnabled'' (JObj (k_config db)) = JBool True \<and> ae_agents env)"

definition personal_eligible :: "api_env \<Rightarrow> api_db \<Rightarrow> string list \<Rightarrow> bool" where
  "personal_eligible env db permissions = (personal_enabled env db
     \<and> (''manage:system'' \<in> set permissions \<or> (''use:agents'' \<in> set permissions \<and> ''use:mcp'' \<in> set permissions)))"

section \<open>Presenting a key\<close>

text \<open>\<^verbatim>\<open>loadActiveApiKey\<close>\<close>

definition find_key :: "int \<Rightarrow> api_db \<Rightarrow> api_key option" where
  "find_key i db = sql_first (\<lambda>k. ak_id k = i) (k_keys db)"

definition load_active_key :: "int \<Rightarrow> int \<Rightarrow> api_db \<Rightarrow> api_key result" where
  "load_active_key i now db = (case find_key i db of
      None \<Rightarrow> Inl key_denied
    | Some k \<Rightarrow> (case ak_expires k of
          None \<Rightarrow> Inl key_denied
        | Some t \<Rightarrow> if ak_revoked k \<or> t \<le> now then Inl key_denied else Inr k))"

text \<open>
  \<^verbatim>\<open>loadMcpApiPrincipal\<close>. A spread with later properties is the object whose first
  properties are the later ones.
\<close>

definition owner_columns :: "api_key \<Rightarrow> key_owner \<Rightarrow> (string \<times> js_value) list" where
  "owner_columns k w =
     (let u = ow_account w in
      [(''name'', JStr (us_name u)), (''email'', JStr (us_email u)), (''pictureUrl'', js_null_or JStr (us_picture u)),
       (''timezone'', JStr (us_timezone u)), (''localeCode'', JStr (us_locale u)), (''ownershipUserId'', JNum (Whole (us_id u))),
       (''authVersion'', JNum (Whole (us_version u))), (''personalMcpAccess'', js_null_or JStr (ak_access k)),
       (''groups'', JArr (map (\<lambda>g. JNum (Whole g)) (ow_groups w)))])"

definition with_later :: "principal \<Rightarrow> (string \<times> js_value) list \<Rightarrow> principal" where
  "with_later p later = p\<lparr>pr_value := (case pr_value p of JObj ps \<Rightarrow> JObj (later @ ps) | v \<Rightarrow> v)\<rparr>"

definition bound_to :: "api_env \<Rightarrow> js_value \<Rightarrow> int \<Rightarrow> string \<Rightarrow> bool" where
  "bound_to env claims owner access = (js_get ''personalMcp'' claims = JNum (Whole 1) \<and> js_get ''personalOwnerId'' claims = JNum (Whole owner)
     \<and> js_get ''personalAccess'' claims = JStr access \<and> js_get ''mcpResource'' claims = JStr (ae_endpoint env)
     \<and> js_get ''mcpResourceVersion'' claims = JNum (Whole 1))"

definition load_mcp_principal :: "api_env \<Rightarrow> nat \<Rightarrow> int \<Rightarrow> int \<Rightarrow> int \<Rightarrow> api_db \<Rightarrow> principal result" where
  "load_mcp_principal env ref key grp now db =
     rbind (load_active_key key now db) (\<lambda>k.
       let claims = ae_decode env (ak_key k) in
       if js_get ''api'' claims \<noteq> JNum (Whole key) \<or> js_get ''grp'' claims \<noteq> JNum (Whole grp) then Inl key_denied
       else case ak_access k of
         None \<Rightarrow> Inl (Coded ''API_KEY_TRANSPORT_FORBIDDEN'' 403)
       | Some access \<Rightarrow> (case ak_owner k of
           None \<Rightarrow> Inl key_denied
         | Some owner \<Rightarrow>
             if owner = 0 \<or> access \<notin> {''read-only'', ''read-write''} then Inl key_denied
             else if \<not> bound_to env claims owner access then Inl key_denied
             else rbind (load_owner env owner db) (\<lambda>w.
               if \<not> personal_eligible env db (ow_permissions w) then Inl (Coded ''MCP_PERMISSION_REQUIRED'' 403)
               else rbind (create_api_principal ref (JNum (Whole key)) (JNum (Whole grp)) (JArr (map JStr (ow_permissions w))))
                 (\<lambda>p. Inr (with_later p (owner_columns k w))))))"

text \<open>
  The branch of \<^verbatim>\<open>authenticate\<close> for verified claims that are those of a key. \<open>valid\<close> are the keys the process
  loaded last (\<^verbatim>\<open>reloadApiKeys\<close>) and \<open>cached\<close> the permissions of the groups it loaded last.
\<close>

record key_binding =
  kb_id :: int
  kb_group :: int
  kb_expires :: "int option"

definition is_truthy :: "js_value \<Rightarrow> bool" where
  "is_truthy v = (v \<notin> {JUndefined, JNull, JBool False, JStr [], JNum (Whole 0)})"

definition reload_keys :: "int \<Rightarrow> api_db \<Rightarrow> int list" where
  "reload_keys now db = map ak_id (filter (\<lambda>k. \<not> ak_revoked k \<and> (case ak_expires k of None \<Rightarrow> False | Some t \<Rightarrow> now < t)) (k_keys db))"

datatype transport = Mcp | Public_api | Internal

definition authenticate_key ::
  "api_env \<Rightarrow> int list \<Rightarrow> (int \<Rightarrow> string list option) \<Rightarrow> nat \<Rightarrow> transport \<Rightarrow> js_value \<Rightarrow> int \<Rightarrow> api_db \<Rightarrow> (principal \<times> key_binding) result" where
  "authenticate_key env valid cached ref tp claims now db = (case (js_positive (js_get ''api'' claims), js_positive (js_get ''grp'' claims)) of
      (Some key, Some grp) \<Rightarrow>
        if tp = Internal then Inl (Coded ''API_KEY_TRANSPORT_FORBIDDEN'' 403)
        else if \<not> is_truthy (js_get ''isEnabled'' (JObj (k_config db))) then Inl (Coded ''API_ACCESS_DISABLED'' 403)
        else if key \<notin> set valid then Inl key_denied
        else rbind (load_active_key key now db) (\<lambda>k.
          if tp = Mcp \<and> ak_access k = None then Inl (Coded ''API_KEY_TRANSPORT_FORBIDDEN'' 403)
          else let personal = ak_access k \<noteq> None \<or> ak_owner k \<noteq> None \<or> js_get ''personalMcp'' claims \<noteq> JUndefined in
            if personal \<and> tp \<noteq> Mcp then Inl (Coded ''API_KEY_TRANSPORT_FORBIDDEN'' 403)
            else rbind (if personal then load_mcp_principal env ref key grp now db
                 else create_api_principal ref (JNum (Whole key)) (JNum (Whole grp)) (JArr (map JStr (option_or (cached grp) []))))
              (\<lambda>p. Inr (p, \<lparr>kb_id = key, kb_group = grp, kb_expires = js_safe_integer (js_get ''exp'' claims)\<rparr>)))
    | _ \<Rightarrow> Inl Plain_error)"

text \<open>
  \<^verbatim>\<open>authenticate\<close> from the token of the request on. The strategy \<^verbatim>\<open>jwt\<close> verifies the token for the
  audience of the wiki and its issuer at an instant \<open>seen\<close>; the branch for keys follows at \<open>now\<close>. A token that is
  refused, or whose claims are not those of a key, leads to the branches for users and guests,
  which are not modelled: there the request has no key (\<^term>\<open>None\<close>). An expired token is verified
  once more for a renewal, but only the claims of a user, with an \<^verbatim>\<open>id\<close>, are renewed.
\<close>

definition authenticate_token ::
  "api_env \<Rightarrow> int list \<Rightarrow> (int \<Rightarrow> string list option) \<Rightarrow> nat \<Rightarrow> transport \<Rightarrow> string \<Rightarrow> int \<Rightarrow> int \<Rightarrow> api_db \<Rightarrow> (principal \<times> key_binding) option result" where
  "authenticate_token env valid cached ref tp token seen now db = (case ae_verify env token (ae_audience env) token_issuer seen of
      None \<Rightarrow> Inr None
    | Some claims \<Rightarrow>
        if \<not> is_api_principal claims then Inr None
        else rbind (authenticate_key env valid cached ref tp claims now db) (\<lambda>r. Inr (Some r)))"

section \<open>Current authority\<close>

text \<open>\<^verbatim>\<open>requireSystemAuthority\<close>\<close>

record system_requester =
  sr_user :: "principal option"
  sr_key :: "key_binding option"

record system_authority =
  sa_actor :: "int option"
  sa_key :: "int option"
  sa_ids :: "int list"
  sa_groups :: "group_row list"

definition service_key :: "principal \<Rightarrow> key_binding option \<Rightarrow> int \<Rightarrow> api_db \<Rightarrow> key_binding option" where
  "service_key u binding now db = (case binding of
      None \<Rightarrow> None
    | Some b \<Rightarrow>
        if \<not> safe_int (kb_id b) \<or> kb_id b < 1 \<or> \<not> safe_int (kb_group b) \<or> kb_group b < 1 \<or> \<not> is_api_principal (pr_value u)
           \<or> js_get ''api'' (pr_value u) \<noteq> JNum (Whole (kb_id b)) \<or> js_get ''grp'' (pr_value u) \<noteq> JNum (Whole (kb_group b))
           \<or> js_get ''ownershipUserId'' (pr_value u) \<noteq> JNull \<or> js_get ''groups'' (pr_value u) \<noteq> JArr [JNum (Whole (kb_group b))]
        then None
        else (case find_key (kb_id b) db of
            None \<Rightarrow> None
          | Some k \<Rightarrow> (case (ak_expires k, kb_expires b) of
              (Some until, Some seconds) \<Rightarrow>
                if ak_access k \<noteq> None \<or> ak_owner k \<noteq> None \<or> ak_revoked k \<or> until \<le> now \<or> seconds * 1000 \<le> now then None else Some b
            | _ \<Rightarrow> None)))"

definition member_groups :: "int \<Rightarrow> api_db \<Rightarrow> int list" where
  "member_groups user db = sort (map snd (filter (\<lambda>m. fst m = user) (k_members db)))"

definition current_identity :: "system_requester \<Rightarrow> int \<Rightarrow> api_db \<Rightarrow> (int option \<times> int option \<times> int list) result" where
  "current_identity r now db = (case sr_user r of
      None \<Rightarrow> Inl authority_denied
    | Some u \<Rightarrow>
        if is_api_principal (pr_value u) \<and> js_get ''personalMcpAccess'' (pr_value u) \<noteq> JUndefined then Inl authority_denied
        else (case principal_id (Some u) of
            Some i \<Rightarrow>
              if sr_key r \<noteq> None \<or> \<not> session_current (JNum (Whole i)) (js_get ''authVersion'' (pr_value u)) (find_account i db) then Inl authority_denied
              else Inr (Some i, None, member_groups i db)
          | None \<Rightarrow> (case service_key u (sr_key r) now db of
              None \<Rightarrow> Inl authority_denied | Some b \<Rightarrow> Inr (None, Some (kb_id b), [kb_group b]))))"

definition holds_any :: "string list \<Rightarrow> group_row \<Rightarrow> bool" where
  "holds_any allowed g = (case gp_permissions g of JArr ps \<Rightarrow> list_ex (\<lambda>p. p \<in> JStr ` set allowed) ps | _ \<Rightarrow> False)"

definition require_system_authority :: "system_requester \<Rightarrow> string list \<Rightarrow> int \<Rightarrow> api_db \<Rightarrow> system_authority result" where
  "require_system_authority r allowed now db =
     rbind (current_identity r now db) (\<lambda>(actor, key, ids).
       let groups = sort_key gp_id (k_groups db) in
       if \<not> list_ex (\<lambda>g. gp_id g \<in> set ids \<and> holds_any allowed g) groups then Inl authority_denied
       else Inr \<lparr>sa_actor = actor, sa_key = key, sa_ids = ids, sa_groups = groups\<rparr>)"

definition api_managers :: "string list" where
  "api_managers = [''manage:system'', ''manage:api'']"

section \<open>What an administrator may grant\<close>

definition actor_permissions :: "system_authority \<Rightarrow> string list" where
  "actor_permissions a = concat (map (\<lambda>g. case gp_permissions g of JArr ps \<Rightarrow> List.map_filter js_string ps | _ \<Rightarrow> [])
     (filter (\<lambda>g. gp_id g \<in> set (sa_ids a)) (sa_groups a)))"

text \<open>\<^verbatim>\<open>administrative\<close> and \<^verbatim>\<open>groupAuthorityAllows\<close> of \<^verbatim>\<open>server/operations/group-administration.ts\<close>\<close>

definition last_part :: "string \<Rightarrow> string" where
  "last_part p = rev (takeWhile (\<lambda>c. c \<noteq> CHR '':'') (rev p))"

definition administrative :: "string \<Rightarrow> bool" where
  "administrative p = (last_part p \<in> {''users'', ''groups'', ''navigation'', ''theme'', ''api'', ''system''})"

definition system_permission :: "string \<Rightarrow> bool" where
  "system_permission p = (ends_with p '':system'' \<or> p = ''write:scripts'')"

definition authority_allows :: "string list \<Rightarrow> string list \<Rightarrow> bool" where
  "authority_allows permissions target = (''manage:system'' \<in> set permissions
     \<or> (\<not> list_ex system_permission target \<and> (''manage:groups'' \<in> set permissions \<or> \<not> list_ex administrative target)))"

record grant_group =
  gg_id :: int
  gg_permissions :: "string list"
  gg_system :: bool

definition full_access :: grant_group where
  "full_access = \<lparr>gg_id = 1, gg_permissions = [''manage:system''], gg_system = False\<rparr>"

definition requires_system :: "grant_group \<Rightarrow> bool" where
  "requires_system g = (gg_id g = 1 \<or> gg_system g \<or> list_ex system_permission (gg_permissions g))"

definition grant_forbidden :: js_error where
  "grant_forbidden = Coded ''API_KEY_GRANT_FORBIDDEN'' 403"

definition authorize_grant :: "system_authority \<Rightarrow> grant_group \<Rightarrow> unit result" where
  "authorize_grant a g =
     (let permissions = actor_permissions a in
      if requires_system g \<and> ''manage:system'' \<notin> set permissions then Inl grant_forbidden
      else if \<not> authority_allows permissions (gg_permissions g) then Inl grant_forbidden
      else Inr ())"

definition stored_group :: "api_env \<Rightarrow> int \<Rightarrow> group_row list \<Rightarrow> grant_group option" where
  "stored_group env i groups = (case sql_first (\<lambda>g. gp_id g = i) groups of
      None \<Rightarrow> None
    | Some g \<Rightarrow> map_option (\<lambda>ps. \<lparr>gg_id = gp_id g, gg_permissions = ps, gg_system = gp_system g\<rparr>) (group_permissions_of env (gp_permissions g)))"

text \<open>\<^verbatim>\<open>describeApiKeyGrant\<close> and \<^verbatim>\<open>targetGroupForGrant\<close>\<close>

definition key_grant :: "api_env \<Rightarrow> string \<Rightarrow> int option" where
  "key_grant env key = js_positive (js_get ''grp'' (ae_decode env key))"

definition target_group :: "api_env \<Rightarrow> int option \<Rightarrow> group_row list \<Rightarrow> grant_group option" where
  "target_group env grant groups = (case grant of
      None \<Rightarrow> None
    | Some i \<Rightarrow> if i = 1 then Some full_access else if i = 2 then None else stored_group env i groups)"

definition authorize_revocation :: "system_authority \<Rightarrow> grant_group option \<Rightarrow> unit result" where
  "authorize_revocation a target = (case target of
      None \<Rightarrow> if ''manage:system'' \<in> set (actor_permissions a) then Inr () else Inl grant_forbidden
    | Some g \<Rightarrow> authorize_grant a g)"

definition can_revoke_grant :: "api_env \<Rightarrow> system_authority \<Rightarrow> int option \<Rightarrow> group_row list \<Rightarrow> bool" where
  "can_revoke_grant env a grant groups = is_ok (authorize_revocation a (target_group env grant groups))"

section \<open>Keys of services\<close>

definition insert_key :: "api_key \<Rightarrow> api_db \<Rightarrow> (unit \<times> api_db) result" where
  "insert_key k db = (if ak_id k \<in> ak_id ` set (k_keys db) then Inl Plain_error else Inr ((), db\<lparr>k_keys := sql_insert k (k_keys db)\<rparr>))"

definition activate_key :: "int \<Rightarrow> string \<Rightarrow> api_db \<Rightarrow> api_db" where
  "activate_key i token db = db\<lparr>k_keys := sql_update (\<lambda>k. ak_id k = i) (\<lambda>k. k\<lparr>ak_key := token, ak_revoked := False\<rparr>) (k_keys db)\<rparr>"

text \<open>\<^verbatim>\<open>createNewKey\<close>; a text that is no duration has no instant to be stored.\<close>

definition service_claims :: "int \<Rightarrow> int \<Rightarrow> js_value" where
  "service_claims ident grp = JObj [(''api'', JNum (Whole ident)), (''grp'', JNum (Whole grp))]"

definition create_new_key :: "api_env \<Rightarrow> int \<Rightarrow> string \<Rightarrow> string \<Rightarrow> int \<Rightarrow> int \<Rightarrow> (api_db, string) tx" where
  "create_new_key env ident name expiration grp now db = (case ae_duration env expiration of
      None \<Rightarrow> Inl Plain_error
    | Some t \<Rightarrow>
        rbind (insert_key \<lparr>ak_id = ident, ak_name = name, ak_key = ''pending'', ak_owner = None, ak_access = None, ak_expires = Some (now + t),
          ak_revoked = True, ak_created = now, ak_updated = now\<rparr> db) (\<lambda>(_, db1).
         let token = ae_sign env (service_claims ident grp) (token_options env (Lasting expiration)) now;
             db2 = activate_key ident token db1
         in Inr (token, db2\<lparr>k_keys := sql_update (\<lambda>k. ak_id k = ident) (\<lambda>k. k\<lparr>ak_updated := now\<rparr>) (k_keys db2)\<rparr>)))"

definition three_years :: int where
  "three_years = 3 * 31557600000"

text \<open>\<^verbatim>\<open>createKey\<close>\<close>

fun js_integer :: "js_value \<Rightarrow> int option" where
  "js_integer (JNum (Whole i)) = Some i"
| "js_integer _ = None"

record key_input =
  ki_name :: js_value
  ki_expiration :: js_value
  ki_full :: js_value
  ki_group :: js_value

definition key_name :: "js_value \<Rightarrow> string option" where
  "key_name v = (case v of JStr s \<Rightarrow> if 2 \<le> length (trim s) \<and> length (trim s) \<le> 255 then Some (trim s) else None | _ \<Rightarrow> None)"

definition key_lifetime :: "api_env \<Rightarrow> string \<Rightarrow> int option" where
  "key_lifetime env text = (case ae_duration env text of None \<Rightarrow> None | Some t \<Rightarrow> if t < 1000 \<or> three_years < t then None else Some t)"

definition read_key_input :: "api_env \<Rightarrow> key_input \<Rightarrow> (string \<times> string \<times> int option) result" where
  "read_key_input env i = (case key_name (ki_name i) of
      None \<Rightarrow> Inl (Coded ''INVALID_API_KEY_NAME'' 400)
    | Some name \<Rightarrow> (case ki_expiration i of
        JStr text \<Rightarrow>
          if text = [] then Inl (Coded ''INVALID_API_KEY_EXPIRATION'' 400)
          else (case ki_full i of
            JBool full \<Rightarrow>
              let nil = ki_group i \<in> {JUndefined, JNull} in
              if \<not> nil \<and> js_integer (ki_group i) = None then Inl (Coded ''INVALID_API_KEY_GROUP'' 400)
              else if full \<and> \<not> nil then Inl (Coded ''INVALID_API_KEY_GROUP'' 400)
              else (case key_lifetime env text of
                  None \<Rightarrow> Inl (Coded ''INVALID_API_KEY_EXPIRATION'' 400)
                | Some _ \<Rightarrow>
                    if full then Inr (name, text, None)
                    else (case js_integer (ki_group i) of
                        None \<Rightarrow> Inl (Coded ''INVALID_API_KEY_GROUP'' 400)
                      | Some g \<Rightarrow> if g \<le> 2 then Inl (Coded ''INVALID_API_KEY_GROUP'' 400) else Inr (name, text, Some g)))
          | _ \<Rightarrow> Inl (Coded ''INVALID_API_KEY_ACCESS'' 400))
      | _ \<Rightarrow> Inl (Coded ''INVALID_API_KEY_EXPIRATION'' 400)))"

definition create_key :: "api_env \<Rightarrow> system_requester \<Rightarrow> key_input \<Rightarrow> int \<Rightarrow> int \<Rightarrow> (api_db, string) tx" where
  "create_key env requester i ident now db =
     rbind (read_key_input env i) (\<lambda>(name, expiration, grp).
     rbind (require_system_authority requester api_managers now db) (\<lambda>a.
     rbind (case grp of None \<Rightarrow> Inr full_access
            | Some g \<Rightarrow> (case stored_group env g (k_groups db) of None \<Rightarrow> Inl (Coded ''INVALID_API_KEY_GROUP'' 400) | Some t \<Rightarrow> Inr t)) (\<lambda>target.
     rbind (authorize_grant a target) (\<lambda>_.
       create_new_key env ident name expiration (option_or grp 1) now db))))"

text \<open>\<^verbatim>\<open>revokeKey\<close>\<close>

definition positive_id :: "js_num \<Rightarrow> int option" where
  "positive_id v = (case v of Whole i \<Rightarrow> if safe_int i \<and> 1 \<le> i then Some i else None | Not_whole \<Rightarrow> None)"

definition revoke_key :: "api_env \<Rightarrow> system_requester \<Rightarrow> js_num \<Rightarrow> int \<Rightarrow> (api_db, unit) tx" where
  "revoke_key env requester ident now db = (case positive_id ident of
      None \<Rightarrow> Inl (Coded ''INVALID_API_KEY_ID'' 400)
    | Some i \<Rightarrow>
        rbind (require_system_authority requester api_managers now db) (\<lambda>a. case find_key i db of
            None \<Rightarrow> Inl key_missing
          | Some k \<Rightarrow>
              if ak_access k \<noteq> None \<or> ak_owner k \<noteq> None then Inl key_missing
              else rbind (authorize_revocation a (target_group env (key_grant env (ak_key k)) (sort_key gp_id (k_groups db)))) (\<lambda>_.
                Inr ((), db\<lparr>k_keys := sql_update (\<lambda>k. ak_id k = i) (\<lambda>k. k\<lparr>ak_revoked := True\<rparr>) (k_keys db)\<rparr>))))"

text \<open>
  \<^verbatim>\<open>setState\<close>: the stored setting and the configuration of the process. That the configuration in
  memory is malformed, which is refused with the status 500, is left out.
\<close>

definition set_state :: "system_requester \<Rightarrow> js_value \<Rightarrow> int \<Rightarrow> (api_db, unit) tx" where
  "set_state requester enabled now db = (case enabled of
      JBool b \<Rightarrow>
        rbind (require_system_authority requester api_managers now db) (\<lambda>_.
          let persisted = (case k_setting db of Some (JObj ps) \<Rightarrow> ps | _ \<Rightarrow> k_config db) in
          Inr ((), db\<lparr>k_setting := Some (JObj ((''isEnabled'', enabled) # persisted)), k_config := (''isEnabled'', enabled) # k_config db\<rparr>))
    | _ \<Rightarrow> Inl (Coded ''INVALID_API_STATE'' 400))"

text \<open>The transaction of \<^verbatim>\<open>regenerateCertificates\<close>, as far as keys go.\<close>

definition regenerate_certificates :: "system_requester option \<Rightarrow> int \<Rightarrow> (api_db, nat) tx" where
  "regenerate_certificates requester now db =
     rbind (case requester of None \<Rightarrow> Inr () | Some r \<Rightarrow> rbind (require_system_authority r [''manage:system''] now db) (\<lambda>_. Inr ())) (\<lambda>_.
       Inr (sql_count (\<lambda>k. \<not> ak_revoked k) (k_keys db),
            db\<lparr>k_keys := sql_update (\<lambda>k. \<not> ak_revoked k) (\<lambda>k. k\<lparr>ak_revoked := True, ak_updated := now\<rparr>) (k_keys db)\<rparr>))"

section \<open>Personal keys\<close>

text \<open>\<^verbatim>\<open>requireOwner\<close>\<close>

definition account_number :: "js_value \<Rightarrow> int option" where
  "account_number v = (case v of JStr s \<Rightarrow> if positive_decimal s \<and> safe_int (int (decimal_value s)) then Some (int (decimal_value s)) else None
     | _ \<Rightarrow> None)"

definition require_owner :: "api_env \<Rightarrow> principal option \<Rightarrow> js_value \<Rightarrow> api_db \<Rightarrow> key_owner result" where
  "require_owner env requester expected db = (case requester of
      None \<Rightarrow> Inl (Coded ''AUTHENTICATION_REQUIRED'' 401)
    | Some u \<Rightarrow>
        let v = pr_value u in
        (case js_positive (js_get ''id'' v) of
          None \<Rightarrow> Inl (Coded ''AUTHENTICATION_REQUIRED'' 401)
        | Some i \<Rightarrow>
            if is_api_principal v \<or> i = 2 \<or> (js_has ''ownershipUserId'' v \<and> js_get ''ownershipUserId'' v \<noteq> JNum (Whole i))
            then Inl (Coded ''AUTHENTICATION_REQUIRED'' 401)
            else (case account_number expected of
              None \<Rightarrow> Inl (Coded ''INVALID_PROFILE_ACCOUNT'' 400)
            | Some e \<Rightarrow>
                if e \<noteq> i then Inl (Coded ''STALE_PROFILE'' 409)
                else rbind (load_owner env i db) (\<lambda>w.
                  if \<not> session_current (JNum (Whole i)) (js_get ''authVersion'' v) (Some ((ow_account w)\<lparr>us_active := True\<rparr>))
                  then Inl (Coded ''AUTHENTICATION_REQUIRED'' 401)
                  else Inr w))))"

text \<open>\<^verbatim>\<open>listPersonalMcpKeys\<close>, latest key first.\<close>

record personal_key =
  pk_id :: int
  pk_name :: string
  pk_access :: "string option"
  pk_created :: int
  pk_expires :: "int option"
  pk_revoked :: bool

definition key_dto :: "api_key \<Rightarrow> personal_key" where
  "key_dto k = \<lparr>pk_id = ak_id k, pk_name = ak_name k, pk_access = ak_access k, pk_created = ak_created k, pk_expires = ak_expires k,
     pk_revoked = ak_revoked k\<rparr>"

definition list_personal_keys :: "api_env \<Rightarrow> principal option \<Rightarrow> js_value \<Rightarrow> api_db \<Rightarrow> (bool \<times> string \<times> bool \<times> personal_key list) result" where
  "list_personal_keys env requester expected db =
     rbind (require_owner env requester expected db) (\<lambda>w.
       Inr (personal_enabled env db, ae_endpoint env, personal_eligible env db (ow_permissions w),
         map key_dto (sort_key (\<lambda>k. - ak_created k) (filter (\<lambda>k. ak_owner k = Some (us_id (ow_account w)) \<and> ak_access k \<noteq> None) (k_keys db)))))"

text \<open>\<^verbatim>\<open>IssuePersonalMcpKeyInputSchema\<close>\<close>

definition personal_input :: "js_value \<Rightarrow> (string \<times> int \<times> string) option" where
  "personal_input v = (case v of
      JObj ps \<Rightarrow>
        if \<not> fst ` set ps \<subseteq> {''name'', ''expirationDays'', ''access''} then None
        else (case (key_name (js_get ''name'' v), js_safe_integer (js_get ''expirationDays'' v), js_string (js_get ''access'' v)) of
            (Some name, Some days, Some access) \<Rightarrow>
              if 1 \<le> days \<and> days \<le> 90 \<and> access \<in> {''read-only'', ''read-write''} then Some (name, days, access) else None
          | _ \<Rightarrow> None)
    | _ \<Rightarrow> None)"

text \<open>\<^verbatim>\<open>issuePersonalMcpKey\<close>\<close>

definition day_ms :: int where
  "day_ms = 86400000"

definition personal_claims :: "api_env \<Rightarrow> int \<Rightarrow> int \<Rightarrow> string \<Rightarrow> js_value" where
  "personal_claims env ident owner access = JObj [(''api'', JNum (Whole ident)), (''grp'', JNum (Whole 1)), (''personalMcp'', JNum (Whole 1)),
     (''personalOwnerId'', JNum (Whole owner)), (''personalAccess'', JStr access), (''mcpResource'', JStr (ae_endpoint env)),
     (''mcpResourceVersion'', JNum (Whole 1))]"

definition issue_personal_key ::
  "api_env \<Rightarrow> principal option \<Rightarrow> js_value \<Rightarrow> js_value \<Rightarrow> int \<Rightarrow> int \<Rightarrow> (api_db, string \<times> personal_key) tx" where
  "issue_personal_key env requester expected value ident now db = (case personal_input value of
      None \<Rightarrow> Inl (Coded ''INVALID_PERSONAL_MCP_KEY'' 400)
    | Some (name, days, access) \<Rightarrow>
        rbind (require_owner env requester expected db) (\<lambda>w.
          if \<not> personal_eligible env db (ow_permissions w) then Inl (Coded ''MCP_PERMISSION_REQUIRED'' 403)
          else let owner = us_id (ow_account w);
                   row = \<lparr>ak_id = ident, ak_name = name, ak_key = ''pending'', ak_owner = Some owner, ak_access = Some access,
                     ak_expires = Some (now + days * day_ms), ak_revoked = True, ak_created = now, ak_updated = now\<rparr>
               in rbind (insert_key row db) (\<lambda>(_, db1).
                  let token = ae_sign env (personal_claims env ident owner access) (token_options env (Seconds (days * 86400))) now in
                  Inr ((token, key_dto (row\<lparr>ak_revoked := False\<rparr>)), activate_key ident token db1))))"

text \<open>\<^verbatim>\<open>revokePersonalMcpKey\<close> and \<^verbatim>\<open>revokeAdminPersonalMcpKey\<close>\<close>

definition revoke_where :: "(api_key \<Rightarrow> bool) \<Rightarrow> int \<Rightarrow> (api_db, unit) tx" where
  "revoke_where which now db =
     (if sql_count which (k_keys db) \<noteq> 1 then Inl key_missing
      else Inr ((), db\<lparr>k_keys := sql_update which (\<lambda>k. k\<lparr>ak_revoked := True, ak_updated := now\<rparr>) (k_keys db)\<rparr>))"

definition revoke_personal_key :: "api_env \<Rightarrow> principal option \<Rightarrow> js_value \<Rightarrow> js_num \<Rightarrow> int \<Rightarrow> (api_db, unit) tx" where
  "revoke_personal_key env requester expected ident now db = (case positive_id ident of
      None \<Rightarrow> Inl (Coded ''INVALID_PERSONAL_MCP_KEY'' 400)
    | Some i \<Rightarrow> rbind (require_owner env requester expected db) (\<lambda>w.
        revoke_where (\<lambda>k. ak_id k = i \<and> ak_owner k = Some (us_id (ow_account w)) \<and> ak_access k \<noteq> None) now db))"

definition revoke_admin_key :: "system_requester \<Rightarrow> js_value \<Rightarrow> js_num \<Rightarrow> int \<Rightarrow> (api_db, unit) tx" where
  "revoke_admin_key requester expected ident now db = (case positive_id ident of
      None \<Rightarrow> Inl (Coded ''APPLICATION_ERROR'' 400)
    | Some i \<Rightarrow> rbind (require_system_authority requester [''manage:system''] now db) (\<lambda>a.
        case sa_actor a of
          None \<Rightarrow> Inl authority_denied
        | Some actor \<Rightarrow>
            if sa_key a \<noteq> None \<or> actor = 2 then Inl authority_denied
            else (case account_number expected of
                None \<Rightarrow> Inl (Coded ''APPLICATION_ERROR'' 400)
              | Some e \<Rightarrow> if e \<noteq> actor then Inl (Coded ''APPLICATION_ERROR'' 409)
                  else revoke_where (\<lambda>k. ak_id k = i \<and> ak_access k \<noteq> None) now db)))"

end
