(* ===== verification/ApiKeyLaws.thy ===== *)
theory ApiKeyLaws
  imports ApiKeys
begin

text \<open>
  What credentials may do: a revoked or expired key opens nothing ever again, a personal key acts
  with the current authority of its owner and no more, a key just issued opens the wiki until it
  expires, and no administrator creates a key above the own authority.
\<close>

section \<open>Keys across operations\<close>

definition keys_ok :: "api_db \<Rightarrow> bool" where
  "keys_ok db = unique_key ak_id (k_keys db)"

definition key_kept :: "api_key \<Rightarrow> api_key \<Rightarrow> bool" where
  "key_kept k k' = (ak_id k' = ak_id k \<and> ak_key k' = ak_key k \<and> ak_access k' = ak_access k \<and> ak_expires k' = ak_expires k
     \<and> (ak_revoked k \<longrightarrow> ak_revoked k') \<and> (ak_owner k' = ak_owner k \<or> ak_owner k' = None))"

definition keys_kept :: "api_db \<Rightarrow> api_db \<Rightarrow> bool" where
  "keys_kept db db' = (\<forall>k\<in>set (k_keys db). \<exists>k'\<in>set (k_keys db'). key_kept k k')"

lemma key_kept_refl [simp]: "key_kept k k"
  by (simp add: key_kept_def)

lemma key_kept_trans: "key_kept k l \<Longrightarrow> key_kept l m \<Longrightarrow> key_kept k m"
  by (auto simp: key_kept_def)

lemma keys_kept_refl: "keys_kept db db"
  by (auto simp: keys_kept_def intro: key_kept_refl)

lemma keys_kept_trans: "keys_kept a b \<Longrightarrow> keys_kept b c \<Longrightarrow> keys_kept a c"
  unfolding keys_kept_def by (meson key_kept_trans)

lemma keys_kept_map: "k_keys db' = map f (k_keys db) \<Longrightarrow> (\<And>k. k \<in> set (k_keys db) \<Longrightarrow> key_kept k (f k)) \<Longrightarrow> keys_kept db db'"
  by (auto simp: keys_kept_def)

lemma keys_kept_update:
  "k_keys db' = sql_update p f (k_keys db) \<Longrightarrow> (\<And>k. k \<in> set (k_keys db) \<Longrightarrow> p k \<Longrightarrow> key_kept k (f k)) \<Longrightarrow> keys_kept db db'"
  by (rule keys_kept_map [where f = "\<lambda>k. if p k then f k else k"]) (auto simp: sql_update_def)

lemma find_key_iff: "keys_ok db \<Longrightarrow> find_key i db = Some k \<longleftrightarrow> k \<in> set (k_keys db) \<and> ak_id k = i"
  using sql_first_SomeD [of "\<lambda>k. ak_id k = i" "k_keys db" k] sql_first_unique [of ak_id "k_keys db" k "\<lambda>k. ak_id k = i" i]
  by (auto simp: find_key_def keys_ok_def)

section \<open>Operations\<close>

datatype key_op =
    K_create system_requester key_input int int
  | K_revoke system_requester js_num int
  | K_issue "principal option" js_value js_value int int
  | K_revoke_own "principal option" js_value js_num int
  | K_revoke_admin system_requester js_value js_num int
  | K_regenerate "system_requester option" int
  | K_state system_requester js_value int
  | K_others "account_row list" "(int \<times> int) list" "group_row list"

text \<open>
  All other operations write accounts, memberships and groups; the keys of a deleted account lose
  their owner (\<^verbatim>\<open>onDelete('SET NULL')\<close>).
\<close>

definition other_accounts :: "account_row list \<Rightarrow> (int \<times> int) list \<Rightarrow> group_row list \<Rightarrow> api_db \<Rightarrow> api_db" where
  "other_accounts users members groups db = db\<lparr>k_users := users, k_members := members, k_groups := groups,
     k_keys := map (\<lambda>k. if \<exists>u\<in>set users. ak_owner k = Some (us_id u) then k else k\<lparr>ak_owner := None\<rparr>) (k_keys db)\<rparr>"

fun key_exec :: "api_env \<Rightarrow> key_op \<Rightarrow> (api_db, unit) tx" where
  "key_exec env (K_create r i ident now) db = unit_tx (create_key env r i ident now) db"
| "key_exec env (K_revoke r ident now) db = revoke_key env r ident now db"
| "key_exec env (K_issue r expected v ident now) db = unit_tx (issue_personal_key env r expected v ident now) db"
| "key_exec env (K_revoke_own r expected ident now) db = revoke_personal_key env r expected ident now db"
| "key_exec env (K_revoke_admin r expected ident now) db = revoke_admin_key r expected ident now db"
| "key_exec env (K_regenerate r now) db = unit_tx (regenerate_certificates r now) db"
| "key_exec env (K_state r enabled now) db = set_state r enabled now db"
| "key_exec env (K_others users members groups) db = Inr ((), other_accounts users members groups db)"

text \<open>A new row is inserted and activated.\<close>

lemma activated_key:
  assumes "insert_key k db = Inr (u, db1)"
  shows "k_keys (activate_key (ak_id k) token db1) = k_keys db @ [k\<lparr>ak_key := token, ak_revoked := False\<rparr>]" "ak_id k \<notin> ak_id ` set (k_keys db)"
    "k_users (activate_key i token db1) = k_users db" "k_members (activate_key i token db1) = k_members db"
    "k_groups (activate_key i token db1) = k_groups db" "k_config (activate_key i token db1) = k_config db"
proof -
  from assms have new: "ak_id k \<notin> ak_id ` set (k_keys db)" and db1: "db1 = db\<lparr>k_keys := k_keys db @ [k]\<rparr>"
    by (auto simp: insert_key_def sql_insert_def split: if_splits)
  have "sql_update (\<lambda>r. ak_id r = ak_id k) f (k_keys db) = k_keys db" for f
    by (rule sql_update_none) (use new in \<open>auto simp: image_iff\<close>)
  then show "k_keys (activate_key (ak_id k) token db1) = k_keys db @ [k\<lparr>ak_key := token, ak_revoked := False\<rparr>]"
    by (simp add: activate_key_def db1 sql_update_def)
  show "k_users (activate_key i token db1) = k_users db" "k_members (activate_key i token db1) = k_members db"
    "k_groups (activate_key i token db1) = k_groups db" "k_config (activate_key i token db1) = k_config db"
    by (simp_all add: activate_key_def db1)
qed (use assms in \<open>auto simp: insert_key_def split: if_splits\<close>)

lemma new_key_step:
  assumes "keys_ok db" "k_keys db' = k_keys db @ [k]" "ak_id k \<notin> ak_id ` set (k_keys db)"
  shows "keys_ok db' \<and> keys_kept db db'"
  using assms by (auto simp: keys_ok_def unique_key_def keys_kept_def intro: key_kept_refl)

lemma update_step:
  assumes "keys_ok db" "k_keys db' = sql_update p f (k_keys db)" "\<And>k. ak_id (f k) = ak_id k" "\<And>k. k \<in> set (k_keys db) \<Longrightarrow> p k \<Longrightarrow> key_kept k (f k)"
  shows "keys_ok db' \<and> keys_kept db db'"
  using assms keys_kept_update [of db' p f db] by (simp add: keys_ok_def unique_key_update)

text \<open>\<^const>\<open>create_key\<close> and \<^const>\<open>issue_personal_key\<close> when they succeed.\<close>

lemma create_new_key_success:
  assumes "create_new_key env ident name expiration grp now db = Inr (token, db')"
  obtains t where "ae_duration env expiration = Some t" "token = ae_sign env (service_claims ident grp) (token_options env (Lasting expiration)) now"
    "ident \<notin> ak_id ` set (k_keys db)"
    "k_keys db' = k_keys db @ [\<lparr>ak_id = ident, ak_name = name, ak_key = token, ak_owner = None, ak_access = None, ak_expires = Some (now + t),
       ak_revoked = False, ak_created = now, ak_updated = now\<rparr>]" "k_groups db' = k_groups db" "k_config db' = k_config db"
proof -
  from assms obtain t where t: "ae_duration env expiration = Some t" by (auto simp: create_new_key_def split: option.splits)
  let ?k = "\<lparr>ak_id = ident, ak_name = name, ak_key = ''pending'', ak_owner = None, ak_access = None, ak_expires = Some (now + t),
       ak_revoked = True, ak_created = now, ak_updated = now\<rparr>"
  from assms t obtain u db1 where i: "insert_key ?k db = Inr (u, db1)"
    and token: "token = ae_sign env (service_claims ident grp) (token_options env (Lasting expiration)) now"
    and db': "db' = (activate_key ident token db1)\<lparr>k_keys := sql_update (\<lambda>k. ak_id k = ident) (\<lambda>k. k\<lparr>ak_updated := now\<rparr>) (k_keys (activate_key ident token db1))\<rparr>"
    by (auto simp: create_new_key_def rbind_Inr_iff Let_def split: prod.splits)
  note a = activated_key [OF i, simplified]
  have "sql_update (\<lambda>k. ak_id k = ident) f (k_keys db) = k_keys db" for f by (rule sql_update_none) (use a(2) in \<open>auto simp: image_iff\<close>)
  then have "k_keys db' = k_keys db @ [\<lparr>ak_id = ident, ak_name = name, ak_key = token, ak_owner = None, ak_access = None, ak_expires = Some (now + t),
       ak_revoked = False, ak_created = now, ak_updated = now\<rparr>]"
    by (simp add: db' a(1) sql_update_def)
  with t token a show ?thesis by (intro that) (simp_all add: db')
qed

lemma issue_success:
  assumes "issue_personal_key env requester expected value ident now db = Inr ((token, item), db')"
  obtains name days access w where "personal_input value = Some (name, days, access)" "require_owner env requester expected db = Inr w"
    "personal_eligible env db (ow_permissions w)" "ident \<notin> ak_id ` set (k_keys db)"
    "token = ae_sign env (personal_claims env ident (us_id (ow_account w)) access) (token_options env (Seconds (days * 86400))) now"
    "k_keys db' = k_keys db @ [\<lparr>ak_id = ident, ak_name = name, ak_key = token, ak_owner = Some (us_id (ow_account w)), ak_access = Some access,
       ak_expires = Some (now + days * day_ms), ak_revoked = False, ak_created = now, ak_updated = now\<rparr>]"
    "k_users db' = k_users db" "k_members db' = k_members db" "k_groups db' = k_groups db" "k_config db' = k_config db" "pk_expires item = Some (now + days * day_ms)"
proof -
  from assms obtain name days access w where v: "personal_input value = Some (name, days, access)" "require_owner env requester expected db = Inr w"
    "personal_eligible env db (ow_permissions w)"
    by (auto simp: issue_personal_key_def rbind_Inr_iff split: option.splits prod.splits if_splits)
  let ?k = "\<lparr>ak_id = ident, ak_name = name, ak_key = ''pending'', ak_owner = Some (us_id (ow_account w)), ak_access = Some access,
       ak_expires = Some (now + days * day_ms), ak_revoked = True, ak_created = now, ak_updated = now\<rparr>"
  from assms v obtain u db1 where i: "insert_key ?k db = Inr (u, db1)"
    and t: "token = ae_sign env (personal_claims env ident (us_id (ow_account w)) access) (token_options env (Seconds (days * 86400))) now"
    and db': "db' = activate_key ident token db1" and item: "pk_expires item = Some (now + days * day_ms)"
    by (auto simp: issue_personal_key_def rbind_Inr_iff Let_def key_dto_def split: prod.splits)
  note a = activated_key [OF i, simplified]
  from a show ?thesis by (intro that [OF v _ t _ _ _ _ _ item]) (simp_all add: db')
qed

lemma revoke_where_step:
  assumes "keys_ok db" "revoke_where p now db = Inr (u, db')"
  shows "keys_ok db' \<and> keys_kept db db'"
  using assms by (intro update_step [of db db' p "\<lambda>k. k\<lparr>ak_revoked := True, ak_updated := now\<rparr>"])
    (auto simp: revoke_where_def key_kept_def split: if_splits)

lemma positive_id_Some: "positive_id v = Some i \<Longrightarrow> v = Whole i"
  by (auto simp: positive_id_def split: js_num.splits if_splits)

lemma revoke_own_success:
  assumes "revoke_personal_key env r expected ident now db = Inr (u, db')"
  obtains i w where "ident = Whole i" "require_owner env r expected db = Inr w"
    "revoke_where (\<lambda>k. ak_id k = i \<and> ak_owner k = Some (us_id (ow_account w)) \<and> ak_access k \<noteq> None) now db = Inr (u, db')"
proof (cases "positive_id ident")
  case (Some i)
  with assms obtain w where "require_owner env r expected db = Inr w"
    "revoke_where (\<lambda>k. ak_id k = i \<and> ak_owner k = Some (us_id (ow_account w)) \<and> ak_access k \<noteq> None) now db = Inr (u, db')"
    unfolding revoke_personal_key_def rbind_Inr_iff by (auto simp: rbind_Inr_iff)
  with positive_id_Some [OF Some] show ?thesis by (rule that)
qed (use assms in \<open>simp add: revoke_personal_key_def\<close>)

lemma revoke_admin_success:
  assumes "revoke_admin_key r expected ident now db = Inr (u, db')"
  obtains i where "ident = Whole i" "revoke_where (\<lambda>k. ak_id k = i \<and> ak_access k \<noteq> None) now db = Inr (u, db')"
proof (cases "positive_id ident")
  case (Some i)
  with assms obtain a :: system_authority where "(case sa_actor a of
          None \<Rightarrow> Inl authority_denied
        | Some actor \<Rightarrow>
            if sa_key a \<noteq> None \<or> actor = 2 then Inl authority_denied
            else (case account_number expected of
                None \<Rightarrow> Inl (Coded ''APPLICATION_ERROR'' 400)
              | Some e \<Rightarrow> if e \<noteq> actor then Inl (Coded ''APPLICATION_ERROR'' 409)
                  else revoke_where (\<lambda>k. ak_id k = i \<and> ak_access k \<noteq> None) now db)) = Inr (u, db')"
    unfolding revoke_admin_key_def by (auto simp only: option.case rbind_Inr_iff)
  then have "revoke_where (\<lambda>k. ak_id k = i \<and> ak_access k \<noteq> None) now db = Inr (u, db')"
    by (simp split: option.split_asm if_split_asm)
  with positive_id_Some [OF Some] show ?thesis by (rule that)
qed (use assms in \<open>simp add: revoke_admin_key_def\<close>)

lemma key_exec_step:
  assumes ok: "keys_ok db" and res: "key_exec env op db = Inr (u, db')"
  shows "keys_ok db' \<and> keys_kept db db'"
proof (cases op)
  case (K_create r i ident now)
  with res obtain name expiration grp token where "create_new_key env ident name expiration grp now db = Inr (token, db')"
    by (auto simp: unit_tx_Inr create_key_def rbind_Inr_iff split: prod.splits)
  then show ?thesis by (rule create_new_key_success) (rule new_key_step [OF ok], assumption, simp)
next
  case (K_issue r expected v ident now)
  with res obtain token item where "issue_personal_key env r expected v ident now db = Inr ((token, item), db')"
    by (auto simp: unit_tx_Inr)
  then show ?thesis by (elim issue_success) (rule new_key_step [OF ok], assumption, simp)
next
  case (K_revoke r ident now)
  with res obtain i where "k_keys db' = sql_update (\<lambda>k. ak_id k = i) (\<lambda>k. k\<lparr>ak_revoked := True\<rparr>) (k_keys db)"
    by (auto simp: revoke_key_def rbind_Inr_iff split: option.splits if_splits)
  with ok show ?thesis by (rule update_step) (simp_all add: key_kept_def)
next
  case (K_revoke_own r expected ident now)
  with res have "revoke_personal_key env r expected ident now db = Inr (u, db')" by simp
  then show ?thesis by (rule revoke_own_success) (rule revoke_where_step [OF ok])
next
  case (K_revoke_admin r expected ident now)
  with res have "revoke_admin_key r expected ident now db = Inr (u, db')" by simp
  then show ?thesis by (rule revoke_admin_success) (rule revoke_where_step [OF ok])
next
  case (K_regenerate r now)
  with res have "k_keys db' = sql_update (\<lambda>k. \<not> ak_revoked k) (\<lambda>k. k\<lparr>ak_revoked := True, ak_updated := now\<rparr>) (k_keys db)"
    by (auto simp: unit_tx_Inr regenerate_certificates_def rbind_Inr_iff)
  with ok show ?thesis by (rule update_step) (simp_all add: key_kept_def)
next
  case (K_state r enabled now)
  with res have "k_keys db' = k_keys db" by (auto simp: set_state_def rbind_Inr_iff split: js_value.splits)
  with ok show ?thesis by (auto simp: keys_ok_def keys_kept_def intro: key_kept_refl)
next
  case (K_others users members groups)
  let ?f = "\<lambda>k. if \<exists>u\<in>set users. ak_owner k = Some (us_id u) then k else k\<lparr>ak_owner := None\<rparr>"
  from K_others res have keys: "k_keys db' = map ?f (k_keys db)" by (auto simp: other_accounts_def)
  have "map ak_id (k_keys db') = map ak_id (k_keys db)" by (simp add: keys comp_def if_distrib cong: if_cong)
  with ok have "keys_ok db'" by (simp add: keys_ok_def unique_key_def)
  moreover have "keys_kept db db'" by (rule keys_kept_map [OF keys]) (simp add: key_kept_def)
  ultimately show ?thesis by simp
qed

interpretation key_store: tx_component "key_exec env" keys_ok for env
  by unfold_locales (use key_exec_step in blast)

definition key_run :: "api_env \<Rightarrow> key_op list \<Rightarrow> api_db \<Rightarrow> api_db" where
  "key_run env ops db = run_txs (map (key_exec env) ops) db"

lemma key_run_keeps:
  assumes "keys_ok db"
  shows "keys_ok (key_run env ops db)" "keys_kept db (key_run env ops db)"
proof -
  show "keys_ok (key_run env ops db)" unfolding key_run_def by (rule key_store.run_inv [OF assms])
  show "keys_kept db (key_run env ops db)" unfolding key_run_def
    by (rule key_store.run_preorder [OF assms keys_kept_refl keys_kept_trans]) (assumption+, use key_exec_step in blast)
qed

section \<open>Revocation is final\<close>

definition dead_key :: "int \<Rightarrow> int \<Rightarrow> api_db \<Rightarrow> bool" where
  "dead_key i now db = (\<exists>k\<in>set (k_keys db). ak_id k = i \<and> (ak_revoked k \<or> (\<forall>t. ak_expires k = Some t \<longrightarrow> t \<le> now)))"

lemma dead_key_kept:
  assumes "dead_key i now db" "keys_kept db db'" "now \<le> later"
  shows "dead_key i later db'"
proof -
  obtain k where k: "k \<in> set (k_keys db)" "ak_id k = i" "ak_revoked k \<or> (\<forall>t. ak_expires k = Some t \<longrightarrow> t \<le> now)"
    using assms(1) by (auto simp: dead_key_def)
  with assms(2) obtain k' where "k' \<in> set (k_keys db')" "key_kept k k'" unfolding keys_kept_def by blast
  with k assms(3) show ?thesis unfolding dead_key_def key_kept_def by (intro bexI [of _ k']) auto
qed

lemma dead_key_inactive:
  assumes "keys_ok db" "dead_key i now db"
  shows "load_active_key i now db = Inl key_denied"
proof -
  from assms obtain k where k: "find_key i db = Some k" "ak_revoked k \<or> (\<forall>t. ak_expires k = Some t \<longrightarrow> t \<le> now)"
    by (auto simp: dead_key_def find_key_iff)
  then show ?thesis by (auto simp: load_active_key_def split: option.splits)
qed

lemma dead_key_opens_nothing:
  assumes "keys_ok db" "dead_key i now db"
  shows "load_mcp_principal env ref i grp now db = Inl key_denied"
    and "authenticate_key env valid cached ref tp claims now db = Inr (p, b) \<Longrightarrow> kb_id b \<noteq> i"
    and "require_system_authority r allowed now db = Inr a \<Longrightarrow> sa_key a \<noteq> Some i"
proof -
  note dead = dead_key_inactive [OF assms]
  show "load_mcp_principal env ref i grp now db = Inl key_denied" by (simp add: load_mcp_principal_def dead)
  show "kb_id b \<noteq> i" if "authenticate_key env valid cached ref tp claims now db = Inr (p, b)"
    using that dead by (auto simp: authenticate_key_def rbind_Inr_iff Let_def split: option.splits if_splits)
  show "sa_key a \<noteq> Some i" if "require_system_authority r allowed now db = Inr a"
  proof
    assume "sa_key a = Some i"
    with that obtain u k b until seconds where "find_key i db = Some k" "ak_expires k = Some until" "\<not> ak_revoked k" "now < until"
      by (auto simp: require_system_authority_def current_identity_def service_key_def rbind_Inr_iff Let_def split: option.splits if_splits)
    moreover then have "load_active_key i now db = Inr k" by (simp add: load_active_key_def)
    ultimately show False using dead by simp
  qed
qed

fun revokes :: "key_op \<Rightarrow> int \<Rightarrow> bool" where
  "revokes (K_revoke _ ident _) i = (ident = Whole i)"
| "revokes (K_revoke_own _ _ ident _) i = (ident = Whole i)"
| "revokes (K_revoke_admin _ _ ident _) i = (ident = Whole i)"
| "revokes (K_regenerate _ _) i = True"
| "revokes _ i = False"

lemma revoked_dead: "keys_ok db \<Longrightarrow> k \<in> set (k_keys db) \<Longrightarrow> p k \<Longrightarrow> k_keys db' = sql_update p f (k_keys db) \<Longrightarrow> (\<And>k. ak_id (f k) = ak_id k \<and> ak_revoked (f k)) \<Longrightarrow>
    dead_key (ak_id k) now db'"
  by (auto simp: dead_key_def sql_update_def)

lemma revoke_where_dead:
  assumes "revoke_where p now db = Inr (u, db')" and p: "\<And>k. p k \<Longrightarrow> ak_id k = i"
  shows "dead_key i later db'"
proof -
  from assms(1) have "sql_count p (k_keys db) = 1" and db': "k_keys db' = sql_update p (\<lambda>k. k\<lparr>ak_revoked := True, ak_updated := now\<rparr>) (k_keys db)"
    by (auto simp: revoke_where_def split: if_splits)
  then have "filter p (k_keys db) \<noteq> []" by (auto simp: sql_count_def)
  then obtain k where k: "k \<in> set (k_keys db)" "p k" by (auto simp: filter_empty_conv)
  then have "k\<lparr>ak_revoked := True, ak_updated := now\<rparr> \<in> set (k_keys db')" by (force simp: db' sql_update_def)
  then show ?thesis using p [OF k(2)] unfolding dead_key_def by (intro bexI [of _ "k\<lparr>ak_revoked := True, ak_updated := now\<rparr>"]) simp_all
qed

lemma revoked_is_dead:
  assumes "keys_ok db" "revokes op i" "i \<in> ak_id ` set (k_keys db)" "key_exec env op db = Inr (u, db')"
  shows "dead_key i now db'"
proof (cases op)
  case (K_revoke r ident at)
  with assms have db': "k_keys db' = sql_update (\<lambda>k. ak_id k = i) (\<lambda>k. k\<lparr>ak_revoked := True\<rparr>) (k_keys db)"
    by (auto simp: revoke_key_def positive_id_def rbind_Inr_iff split: option.splits if_splits)
  obtain k where k: "k \<in> set (k_keys db)" "ak_id k = i" using assms(3) by auto
  then have "k\<lparr>ak_revoked := True\<rparr> \<in> set (k_keys db')" by (force simp: db' sql_update_def)
  with k show ?thesis unfolding dead_key_def by (intro bexI [of _ "k\<lparr>ak_revoked := True\<rparr>"]) simp_all
next
  case (K_revoke_own r expected ident at)
  with assms(4) have res: "revoke_personal_key env r expected ident at db = Inr (u, db')" by simp
  have ident: "ident = Whole i" using assms(2) K_revoke_own by simp
  from res show ?thesis by (rule revoke_own_success) (erule revoke_where_dead, simp add: ident)
next
  case (K_revoke_admin r expected ident at)
  with assms(4) have res: "revoke_admin_key r expected ident at db = Inr (u, db')" by simp
  have ident: "ident = Whole i" using assms(2) K_revoke_admin by simp
  from res show ?thesis by (rule revoke_admin_success) (erule revoke_where_dead, simp add: ident)
next
  case (K_regenerate r at)
  with assms have db': "k_keys db' = sql_update (\<lambda>k. \<not> ak_revoked k) (\<lambda>k. k\<lparr>ak_revoked := True, ak_updated := at\<rparr>) (k_keys db)"
    by (auto simp: unit_tx_Inr regenerate_certificates_def rbind_Inr_iff)
  obtain k where k: "k \<in> set (k_keys db)" "ak_id k = i" using assms(3) by auto
  let ?k = "if \<not> ak_revoked k then k\<lparr>ak_revoked := True, ak_updated := at\<rparr> else k"
  have "?k \<in> set (k_keys db')" using k(1) unfolding db' sql_update_def set_map by (rule imageI)
  with k(2) show ?thesis unfolding dead_key_def by (intro bexI [of _ ?k]) auto
qed (use assms(2) in auto)

text \<open>C24. Revoking a key is final. Once its owner, an administrator or the regeneration of the
  certificates has revoked it, and whatever operations on keys, accounts and groups follow, the key
  authenticates no request, whatever keys and groups the process still has loaded, becomes no MCP
  principal, and carries no authority to administer anything.
\<close>

theorem revocation_is_final:
  assumes "keys_ok db" "revokes op i" "i \<in> ak_id ` set (k_keys db)" "key_exec env op db = Inr (u, db1)" "db' = key_run env ops db1"
  shows "load_mcp_principal env ref i grp now db' = Inl key_denied
     \<and> (\<forall>p b. authenticate_key env valid cached ref tp claims now db' = Inr (p, b) \<longrightarrow> kb_id b \<noteq> i)
     \<and> (\<forall>a. require_system_authority r allowed now db' = Inr a \<longrightarrow> sa_key a \<noteq> Some i)"
proof -
  have ok: "keys_ok db1" using key_exec_step [OF assms(1,4)] by simp
  have "dead_key i now db1" by (rule revoked_is_dead [OF assms(1-4)])
  then have dead: "dead_key i now db'" unfolding assms(5) using key_run_keeps(2) [OF ok] by (rule dead_key_kept) simp
  have ok': "keys_ok db'" unfolding assms(5) by (rule key_run_keeps(1) [OF ok])
  show ?thesis
    by (intro conjI allI impI dead_key_opens_nothing(1) [OF ok' dead]) (erule dead_key_opens_nothing(2,3) [OF ok' dead])+
qed

section \<open>A personal key acts as its owner\<close>

lemma string_list_map [simp]: "string_list (JArr (map JStr ps)) = Some ps"
  by (simp add: string_list_def List.map_filter_def list_all_iff comp_def)

lemma js_all_strings_map [simp]: "js_all_strings (JArr (map JStr ps))"
  by (simp add: js_all_strings_def list_all_iff)

lemma create_api_principal_ok:
  "create_api_principal ref (JNum (Whole a)) (JNum (Whole g)) (JArr (map JStr ps)) = Inr p \<longleftrightarrow>
     safe_int a \<and> 0 < a \<and> safe_int g \<and> 0 < g \<and> p = \<lparr>pr_ref = ref,
            pr_value = JObj [(''api'', JNum (Whole a)), (''grp'', JNum (Whole g)), (''email'', JStr ''api@localhost''), (''name'', JStr ''API''),
              (''pictureUrl'', JNull), (''timezone'', JStr ''America/New_York''), (''localeCode'', JStr ''en''),
              (''permissions'', JArr (map JStr ps)), (''groups'', JArr [JNum (Whole g)]), (''ownershipUserId'', JNull)],
            pr_global = Some ps\<rparr>"
  by (auto simp: create_api_principal_def js_positive_def)

lemma rfold_concat:
  "rfold (\<lambda>g acc. rbind (f g) (\<lambda>ps. Inr (acc @ ps))) gs acc = Inr ps \<Longrightarrow> \<exists>pss. list_all2 (\<lambda>g qs. f g = Inr qs) gs pss \<and> ps = acc @ concat pss"
proof (induction gs arbitrary: acc)
  case (Cons g gs)
  then obtain qs where "f g = Inr qs" "rfold (\<lambda>g acc. rbind (f g) (\<lambda>ps. Inr (acc @ ps))) gs (acc @ qs) = Inr ps" by (auto simp: rbind_Inr_iff)
  moreover from Cons.IH [OF this(2)] obtain pss where "list_all2 (\<lambda>g qs. f g = Inr qs) gs pss" "ps = (acc @ qs) @ concat pss" by blast
  ultimately show ?case by (intro exI [of _ "qs # pss"]) simp
qed simp

text \<open>The permissions that an account holds through its groups.\<close>

definition held_permissions :: "api_env \<Rightarrow> int \<Rightarrow> api_db \<Rightarrow> string set" where
  "held_permissions env i db = {p. \<exists>g\<in>set (k_groups db). (i, gp_id g) \<in> set (k_members db) \<and> (\<exists>ps. group_permissions_of env (gp_permissions g) = Some ps \<and> p \<in> set ps)}"

lemma set_groups_of: "set (groups_of i db) = {g \<in> set (k_groups db). (i, gp_id g) \<in> set (k_members db)}"
  by (auto simp: groups_of_def count_list_0_iff)

lemma load_owner_success:
  assumes "load_owner env i db = Inr w"
  shows "find_account i db = Some (ow_account w)" "us_id (ow_account w) = i" "us_active (ow_account w)" "safe_int i" "1 \<le> i" "i \<noteq> 2"
    "set (ow_permissions w) = held_permissions env i db" "ow_groups w = map gp_id (groups_of i db)"
proof -
  from assms obtain u ps where u: "find_account i db = Some u" "us_active u" "safe_int i" "1 \<le> i" "i \<noteq> 2"
    and ps: "rfold (\<lambda>g acc. rbind (string_array env (gp_permissions g)) (\<lambda>ps. Inr (acc @ ps))) (groups_of i db) [] = Inr ps"
    and w: "w = \<lparr>ow_account = u, ow_groups = map gp_id (groups_of i db), ow_permissions = dedup ps\<rparr>"
    by (auto simp: load_owner_def Let_def rbind_Inr_iff split: option.splits if_splits)
  have "us_id u = i" using u(1) sql_first_SomeD by (fastforce simp: find_account_def)
  with u w show "find_account i db = Some (ow_account w)" "us_id (ow_account w) = i" "us_active (ow_account w)" "safe_int i" "1 \<le> i" "i \<noteq> 2"
    "ow_groups w = map gp_id (groups_of i db)" by simp_all
  obtain pss where all: "list_all2 (\<lambda>g qs. string_array env (gp_permissions g) = Inr qs) (groups_of i db) pss" "ps = concat pss"
    using rfold_concat [OF ps] by auto
  have string: "string_array env v = Inr qs \<longleftrightarrow> group_permissions_of env v = Some qs" for v qs by (simp add: string_array_def split: option.splits)
  have "set ps = {p. \<exists>g\<in>set (groups_of i db). \<exists>qs. string_array env (gp_permissions g) = Inr qs \<and> p \<in> set qs}"
    using all(1) unfolding all(2) by (induction rule: list_all2_induct) auto
  then show "set (ow_permissions w) = held_permissions env i db"
    by (auto simp: w held_permissions_def set_groups_of string set_dedup)
qed

text \<open>\<^const>\<open>load_mcp_principal\<close> when it succeeds.\<close>

lemma load_mcp_success:
  assumes "load_mcp_principal env ref key grp now db = Inr p"
  obtains k access owner w where "find_key key db = Some k" "\<not> ak_revoked k" "\<exists>t. ak_expires k = Some t \<and> now < t" "ak_access k = Some access"
    "ak_owner k = Some owner" "access \<in> {''read-only'', ''read-write''}" "load_owner env owner db = Inr w"
    "personal_eligible env db (ow_permissions w)" "safe_int key" "0 < key" "safe_int grp" "0 < grp"
    "pr_value p = JObj (owner_columns k w @ [(''api'', JNum (Whole key)), (''grp'', JNum (Whole grp)), (''email'', JStr ''api@localhost''), (''name'', JStr ''API''),
              (''pictureUrl'', JNull), (''timezone'', JStr ''America/New_York''), (''localeCode'', JStr ''en''),
              (''permissions'', JArr (map JStr (ow_permissions w))), (''groups'', JArr [JNum (Whole grp)]), (''ownershipUserId'', JNull)])"
    "pr_global p = Some (ow_permissions w)"
proof -
  from assms obtain k where k: "load_active_key key now db = Inr k" by (auto simp: load_mcp_principal_def rbind_Inr_iff)
  note run = assms [unfolded load_mcp_principal_def k rbind_simps Let_def]
  obtain access owner where a: "ak_access k = Some access" "ak_owner k = Some owner" "access \<in> {''read-only'', ''read-write''}"
    and l: "rbind (load_owner env owner db) (\<lambda>w. if \<not> personal_eligible env db (ow_permissions w) then Inl (Coded ''MCP_PERMISSION_REQUIRED'' 403)
       else rbind (create_api_principal ref (JNum (Whole key)) (JNum (Whole grp)) (JArr (map JStr (ow_permissions w)))) (\<lambda>p. Inr (with_later p (owner_columns k w)))) = Inr p"
    using run by (cases "ak_access k"; cases "ak_owner k") (simp_all split: if_split_asm)
  from l obtain w q where w: "load_owner env owner db = Inr w" "personal_eligible env db (ow_permissions w)"
    and q: "create_api_principal ref (JNum (Whole key)) (JNum (Whole grp)) (JArr (map JStr (ow_permissions w))) = Inr q" "p = with_later q (owner_columns k w)"
    by (auto simp: rbind_Inr_iff split: if_split_asm)
  from k have "find_key key db = Some k" "\<not> ak_revoked k" "\<exists>t. ak_expires k = Some t \<and> now < t"
    by (auto simp: load_active_key_def split: option.splits if_splits)
  with a w q show ?thesis by (intro that) (auto simp: create_api_principal_ok with_later_def)
qed

text \<open>What \<^const>\<open>is_api_principal\<close> and the permission checks see of such a principal.\<close>

lemma personal_principal:
  assumes v: "pr_value p = JObj (owner_columns k w @ [(''api'', JNum (Whole key)), (''grp'', JNum (Whole grp)), (''email'', JStr ''api@localhost''), (''name'', JStr ''API''),
              (''pictureUrl'', JNull), (''timezone'', JStr ''America/New_York''), (''localeCode'', JStr ''en''),
              (''permissions'', JArr (map JStr (ow_permissions w))), (''groups'', JArr [JNum (Whole grp)]), (''ownershipUserId'', JNull)])"
    and k: "ak_access k = Some access" "access \<in> {''read-only'', ''read-write''}"
    and ids: "safe_int key" "0 < key" "safe_int grp" "0 < grp" "safe_int (us_id (ow_account w))" "1 \<le> us_id (ow_account w)"
      "\<forall>g\<in>set (ow_groups w). safe_int g \<and> 0 < g"
  shows "is_api_principal (pr_value p)" "js_get ''personalMcpAccess'' (pr_value p) = JStr access"
    "principal_id (Some p) = Some (us_id (ow_account w))" "get_permissions p = map JStr (ow_permissions w)"
    "page_rule_requester_binding (pr_value p) = Api_key key grp"
proof -
  have get: "js_get ''api'' (pr_value p) = JNum (Whole key)" "js_get ''grp'' (pr_value p) = JNum (Whole grp)"
    "js_get ''ownershipUserId'' (pr_value p) = JNum (Whole (us_id (ow_account w)))" "js_get ''groups'' (pr_value p) = JArr (map (\<lambda>g. JNum (Whole g)) (ow_groups w))"
    "js_get ''permissions'' (pr_value p) = JArr (map JStr (ow_permissions w))" "js_get ''exp'' (pr_value p) = JUndefined"
    "js_get ''mcpResource'' (pr_value p) = JUndefined" "js_get ''mcpResourceVersion'' (pr_value p) = JUndefined"
    "js_has ''api'' (pr_value p)" "js_has ''grp'' (pr_value p)" "\<not> js_has ''id'' (pr_value p)" "js_has ''ownershipUserId'' (pr_value p)" "js_is_record (pr_value p)"
    by (simp_all add: v owner_columns_def Let_def)
  show access: "js_get ''personalMcpAccess'' (pr_value p) = JStr access" by (simp add: v owner_columns_def Let_def js_null_or_def k(1))
  show "principal_id (Some p) = Some (us_id (ow_account w))" using ids by (simp add: principal_id_def get js_positive_def)
  show "get_permissions p = map JStr (ow_permissions w)" by (simp add: get_permissions_def get)
  show api: "is_api_principal (pr_value p)"
    using ids k(2) by (auto simp: is_api_principal_def get access js_positive_def list_all_iff Let_def)
  show "page_rule_requester_binding (pr_value p) = Api_key key grp"
    using ids by (simp add: page_rule_requester_binding_def api get js_positive_def)
qed

lemma personal_key_facts:
  assumes "load_mcp_principal env ref key grp now db = Inr p" "\<forall>g\<in>set (k_groups db). safe_int (gp_id g) \<and> 0 < gp_id g"
  obtains k access owner u where "find_key key db = Some k" "\<not> ak_revoked k" "\<exists>t. ak_expires k = Some t \<and> now < t" "ak_owner k = Some owner"
    "find_account owner db = Some u" "us_active u" "principal_id (Some p) = Some owner" "set (get_permissions p) = JStr ` held_permissions env owner db"
    "page_rule_requester_binding (pr_value p) = Api_key key grp" "is_api_principal (pr_value p)" "js_get ''personalMcpAccess'' (pr_value p) = JStr access"
proof -
  obtain k access owner w where k: "find_key key db = Some k" "\<not> ak_revoked k" "\<exists>t. ak_expires k = Some t \<and> now < t" "ak_access k = Some access"
    "ak_owner k = Some owner" "access \<in> {''read-only'', ''read-write''}" and l: "load_owner env owner db = Inr w" and ids: "safe_int key" "0 < key" "safe_int grp" "0 < grp"
    and v: "pr_value p = JObj (owner_columns k w @ [(''api'', JNum (Whole key)), (''grp'', JNum (Whole grp)), (''email'', JStr ''api@localhost''), (''name'', JStr ''API''),
              (''pictureUrl'', JNull), (''timezone'', JStr ''America/New_York''), (''localeCode'', JStr ''en''),
              (''permissions'', JArr (map JStr (ow_permissions w))), (''groups'', JArr [JNum (Whole grp)]), (''ownershipUserId'', JNull)])"
    by (rule load_mcp_success [OF assms(1)])
  note w = load_owner_success [OF l]
  have groups: "\<forall>g\<in>set (ow_groups w). safe_int g \<and> 0 < g" using assms(2) by (auto simp: w(8) set_groups_of)
  note p = personal_principal [OF v k(4,6) ids w(4,5) [folded w(2)] groups]
  have "principal_id (Some p) = Some owner" "set (get_permissions p) = JStr ` held_permissions env owner db"
    using p(3,4) w(2,7) by simp_all
  from that [OF k(1-3,5) w(1,3) this p(5,1,2)] show ?thesis .
qed

definition graphql_request :: "principal \<Rightarrow> js_value \<Rightarrow> js_value" where
  "graphql_request p auth = JObj [(''req'', JObj [(''user'', pr_value p), (''authContext'', auth)])]"

text \<open>C25. A personal MCP key acts with the current authority of its owner and nothing else: it opens only
  while the key is neither revoked nor expired and its owner's account is active, it owns what its
  owner owns, its permissions are exactly those of the groups its owner is in now, and, however far
  these go, it administers nothing and no GraphQL mutation runs for it.
\<close>

theorem personal_key_is_its_owner:
  assumes "load_mcp_principal env ref key grp now db = Inr p" "\<forall>g\<in>set (k_groups db). safe_int (gp_id g) \<and> 0 < gp_id g"
  shows "\<exists>k owner u. find_key key db = Some k \<and> \<not> ak_revoked k \<and> (\<exists>t. ak_expires k = Some t \<and> now < t) \<and> ak_owner k = Some owner
     \<and> find_account owner db = Some u \<and> us_active u \<and> principal_id (Some p) = Some owner
     \<and> set (get_permissions p) = JStr ` held_permissions env owner db
     \<and> page_rule_requester_binding (pr_value p) = Api_key key grp
     \<and> (\<forall>binding allowed at later. require_system_authority \<lparr>sr_user = Some p, sr_key = binding\<rparr> allowed at later = Inl authority_denied)
     \<and> (\<forall>auth resolved. guarded_mutation (graphql_request p auth) resolved = (Inl mutation_forbidden :: unit result))"
proof -
  obtain k access owner u where k: "find_key key db = Some k" "\<not> ak_revoked k" "\<exists>t. ak_expires k = Some t \<and> now < t" "ak_owner k = Some owner"
    "find_account owner db = Some u" "us_active u" "principal_id (Some p) = Some owner" "set (get_permissions p) = JStr ` held_permissions env owner db"
    "page_rule_requester_binding (pr_value p) = Api_key key grp" and p: "is_api_principal (pr_value p)" "js_get ''personalMcpAccess'' (pr_value p) = JStr access"
    by (rule personal_key_facts [OF assms])
  have "require_system_authority \<lparr>sr_user = Some p, sr_key = binding\<rparr> allowed at later = Inl authority_denied" for binding allowed at later
    by (simp add: require_system_authority_def current_identity_def p)
  moreover have "guarded_mutation (graphql_request p auth) resolved = (Inl mutation_forbidden :: unit result)" for auth resolved
    by (simp add: guarded_mutation_def request_for_context_def graphql_request_def p)
  ultimately show ?thesis using k by blast
qed

section \<open>Keys that were issued or created\<close>

text \<open>A token carries the claims it was signed for.\<close>

definition signs :: "api_env \<Rightarrow> js_value \<Rightarrow> bool" where
  "signs env claims = (\<forall>options at name. js_has name claims \<longrightarrow> js_get name (ae_decode env (ae_sign env claims options at)) = js_get name claims)"

text \<open>
  The documented behaviour of \<^verbatim>\<open>jsonwebtoken\<close> for claims that are signed with a lifetime: the payload
  has the second of signing, the second of expiry, the audience and the issuer besides the claims,
  and a token is verified for its own audience and issuer as long as the clock's second is before
  that of its expiry.
\<close>

definition token_expiry :: "api_env \<Rightarrow> sign_options \<Rightarrow> int \<Rightarrow> int option" where
  "token_expiry env options at = (case so_expires options of
      Seconds s \<Rightarrow> Some (at div 1000 + s)
    | Lasting text \<Rightarrow> map_option (\<lambda>t. at div 1000 + t div 1000) (ae_duration env text))"

definition token_payload :: "js_value \<Rightarrow> sign_options \<Rightarrow> int \<Rightarrow> int \<Rightarrow> js_value" where
  "token_payload claims options at until = (case claims of
      JObj ps \<Rightarrow> JObj (ps @ [(''iat'', JNum (Whole (at div 1000))), (''exp'', JNum (Whole until)), (''aud'', JStr (so_audience options)),
        (''iss'', JStr (so_issuer options))])
    | v \<Rightarrow> v)"

definition genuine :: "api_env \<Rightarrow> js_value \<Rightarrow> bool" where
  "genuine env claims = (\<forall>options at until. token_expiry env options at = Some until \<longrightarrow>
     ae_decode env (ae_sign env claims options at) = token_payload claims options at until
     \<and> (\<forall>audience issuer seen. ae_verify env (ae_sign env claims options at) audience issuer seen =
          (if audience = so_audience options \<and> issuer = so_issuer options \<and> seen div 1000 < until
           then Some (token_payload claims options at until) else None)))"

text \<open>What a personal token carries, and that it is recognized as the principal of a key.\<close>

lemma personal_payload:
  "js_has n (personal_claims env ident owner access) \<Longrightarrow>
     js_get n (token_payload (personal_claims env ident owner access) options at until) = js_get n (personal_claims env ident owner access)"
  by (auto simp: personal_claims_def token_payload_def split: if_splits)

lemma personal_payload_principal:
  assumes "0 < ident" "safe_int ident" "0 \<le> until" "safe_int until"
  shows "is_api_principal (token_payload (personal_claims env ident owner access) options at until)"
  using assms by (simp add: is_api_principal_def personal_claims_def token_payload_def js_positive_def safe_int_def max_safe_def)

lemma require_owner_success:
  assumes "require_owner env requester expected db = Inr w"
  obtains u i where "requester = Some u" "principal_id requester = Some i" "load_owner env i db = Inr w"
proof (cases requester)
  case (Some u)
  from assms Some obtain i where i: "js_positive (js_get ''id'' (pr_value u)) = Some i" by (auto simp: require_owner_def Let_def split: option.splits)
  have own: "i \<noteq> 2" "js_has ''ownershipUserId'' (pr_value u) \<longrightarrow> js_get ''ownershipUserId'' (pr_value u) = JNum (Whole i)" "load_owner env i db = Inr w"
    using assms unfolding Some by (auto simp: require_owner_def Let_def i rbind_Inr_iff split: option.split_asm if_split_asm)
  with i have "principal_id requester = Some i"
    using load_owner_success(4) [OF own(3)] by (auto simp: Some principal_id_def js_positive_def split: option.splits if_splits)
  with Some own(3) show ?thesis by (intro that)
qed (use assms in \<open>simp add: require_owner_def\<close>)

lemma issued_key_loads:
  assumes "keys_ok db" "0 < ident" "safe_int ident" "issue_personal_key env requester expected value ident now db = Inr ((token, item), db')"
    and "\<forall>owner access. genuine env (personal_claims env ident owner access)" "pk_expires item = Some t" "later < t"
  obtains p k owner where "load_mcp_principal env ref ident 1 later db' = Inr p" "find_key ident db' = Some k" "load_active_key ident later db' = Inr k"
    "ak_access k \<noteq> None" "ak_owner k = Some owner" "principal_id requester = Some owner" "personal_enabled env db'" "k_groups db' = k_groups db"
    "js_get ''api'' (ae_decode env token) = JNum (Whole ident)" "js_get ''grp'' (ae_decode env token) = JNum (Whole 1)" "loaded \<le> later \<Longrightarrow> ident \<in> set (reload_keys loaded db')"
proof -
  obtain name days access w where v: "personal_input value = Some (name, days, access)" and own: "require_owner env requester expected db = Inr w"
    and eligible: "personal_eligible env db (ow_permissions w)" and fresh: "ident \<notin> ak_id ` set (k_keys db)"
    and token: "token = ae_sign env (personal_claims env ident (us_id (ow_account w)) access) (token_options env (Seconds (days * 86400))) now"
    and keys: "k_keys db' = k_keys db @ [\<lparr>ak_id = ident, ak_name = name, ak_key = token, ak_owner = Some (us_id (ow_account w)), ak_access = Some access,
       ak_expires = Some (now + days * day_ms), ak_revoked = False, ak_created = now, ak_updated = now\<rparr>]"
    and rest: "k_users db' = k_users db" "k_members db' = k_members db" "k_groups db' = k_groups db" "k_config db' = k_config db"
    and t: "pk_expires item = Some (now + days * day_ms)"
    by (rule issue_success [OF assms(4)])
  let ?k = "\<lparr>ak_id = ident, ak_name = name, ak_key = token, ak_owner = Some (us_id (ow_account w)), ak_access = Some access,
       ak_expires = Some (now + days * day_ms), ak_revoked = False, ak_created = now, ak_updated = now\<rparr>"
  have later: "later < now + days * day_ms" using t assms(6,7) by simp
  have access: "access \<in> {''read-only'', ''read-write''}" using v by (auto simp: personal_input_def split: js_value.splits if_splits option.splits)
  from own obtain u i where u: "requester = Some u" "principal_id requester = Some i" and l: "load_owner env i db = Inr w"
    by (rule require_owner_success)
  note w = load_owner_success [OF l]
  have "token_expiry env (token_options env (Seconds (days * 86400))) now = Some (now div 1000 + days * 86400)"
    by (simp add: token_expiry_def token_options_def)
  then have "ae_decode env token = token_payload (personal_claims env ident i access) (token_options env (Seconds (days * 86400))) now (now div 1000 + days * 86400)"
    using assms(5) unfolding genuine_def by (simp add: token w(2))
  then have claims: "js_get n (ae_decode env token) = js_get n (personal_claims env ident i access)" if "js_has n (personal_claims env ident i access)" for n
    using that by (simp add: personal_payload)
  have c: "js_get ''api'' (ae_decode env token) = JNum (Whole ident)" "js_get ''grp'' (ae_decode env token) = JNum (Whole 1)" "bound_to env (ae_decode env token) i access"
    by (simp_all add: claims personal_claims_def bound_to_def)
  have "keys_ok db'" using new_key_step [OF assms(1) keys] fresh by simp
  then have find: "find_key ident db' = Some ?k" by (simp add: find_key_iff keys)
  then have active: "load_active_key ident later db' = Inr ?k" using later by (simp add: load_active_key_def)
  have same: "find_account i db' = find_account i db" "groups_of i db' = groups_of i db" by (simp_all add: find_account_def groups_of_def rest)
  have load: "load_owner env i db' = Inr w" using l unfolding load_owner_def same .
  have eligible': "personal_eligible env db' (ow_permissions w)" using eligible by (simp add: personal_eligible_def personal_enabled_def rest)
  obtain q where q: "create_api_principal ref (JNum (Whole ident)) (JNum (Whole 1)) (JArr (map JStr (ow_permissions w))) = Inr q"
    using assms(2,3) by (auto simp: create_api_principal_ok safe_int_def max_safe_def)
  have mcp: "load_mcp_principal env ref ident 1 later db' = Inr (with_later q (owner_columns ?k w))"
    using w(5) access by (simp add: load_mcp_principal_def active c load eligible' q w(2))
  show ?thesis
    by (rule that [OF mcp find active _ _ u(2) _ rest(3) c(1,2)]) (use eligible' later in \<open>simp_all add: w(2) personal_eligible_def reload_keys_def keys\<close>)
qed

text \<open>The token of an issued key, as it is verified.\<close>

lemma issued_token:
  assumes "issue_personal_key env requester expected value ident now db = Inr ((token, item), db')" "pk_expires item = Some t"
    and "\<forall>owner access. genuine env (personal_claims env ident owner access)"
  obtains owner access options where "ae_decode env token = token_payload (personal_claims env ident owner access) options now (t div 1000)"
    "\<And>seen. ae_verify env token (ae_audience env) token_issuer seen = (if seen div 1000 < t div 1000 then Some (ae_decode env token) else None)"
proof -
  obtain days owner access where token: "token = ae_sign env (personal_claims env ident owner access) (token_options env (Seconds (days * 86400))) now"
    and t: "t = now + days * day_ms"
    using issue_success [OF assms(1)] assms(2) by (metis option.sel)
  have "t div 1000 = now div 1000 + days * 86400" by (simp add: t day_ms_def)
  then have until: "token_expiry env (token_options env (Seconds (days * 86400))) now = Some (t div 1000)"
    by (simp add: token_expiry_def token_options_def)
  note good = assms(3) [unfolded genuine_def, rule_format, OF until, of owner access, folded token]
  show ?thesis by (rule that [of owner access "token_options env (Seconds (days * 86400))"]) (simp_all add: good, simp add: token_options_def)
qed


lemma authenticate_success:
  assumes "authenticate_key env valid cached ref tp claims now db = Inr (p, b)"
    and c: "js_get ''api'' claims = JNum (Whole key)" "js_get ''grp'' claims = JNum (Whole g)"
  shows "load_mcp_principal env ref key g now db = Inr p
     \<or> create_api_principal ref (JNum (Whole key)) (JNum (Whole g)) (JArr (map JStr (option_or (cached g) []))) = Inr p"
proof -
  have ids: "js_positive (JNum (Whole i)) = Some j \<Longrightarrow> j = i" for i j by (simp add: js_positive_def split: if_splits)
  have "js_positive (JNum (Whole key)) \<noteq> None" "js_positive (JNum (Whole g)) \<noteq> None"
    using assms(1) unfolding authenticate_key_def c by (cases "js_positive (JNum (Whole key))"; cases "js_positive (JNum (Whole g))"; simp)+
  then have "js_positive (JNum (Whole key)) = Some key" "js_positive (JNum (Whole g)) = Some g"
    using ids by blast+
  with assms(1) show ?thesis
    by (auto simp: authenticate_key_def c Let_def rbind_Inr_iff split: if_split_asm)
qed

text \<open>What an authorized grant lets the key's permissions be.\<close>

lemma authorize_grant_bound:
  assumes "authorize_grant a g = Inr u" "q \<in> set (gg_permissions g)"
  shows "(system_permission q \<longrightarrow> ''manage:system'' \<in> set (actor_permissions a))
     \<and> (administrative q \<longrightarrow> ''manage:system'' \<in> set (actor_permissions a) \<or> ''manage:groups'' \<in> set (actor_permissions a))"
  using assms by (auto simp: authorize_grant_def Let_def authority_allows_def list_ex_iff split: if_splits)

text \<open>A service key has the permissions that the process has for its group, whatever followed its creation.\<close>

lemma created_key_presented:
  assumes ok: "keys_ok db" and new: "create_new_key env ident name expiration g now db = Inr (token, db1)" and sig: "signs env (service_claims ident g)"
    and res: "authenticate_key env valid cached ref tp (ae_decode env token) later (key_run env ops db1) = Inr (p, b)"
  shows "get_permissions p = map JStr (option_or (cached g) [])"
proof -
  let ?db' = "key_run env ops db1"
  obtain t where c: "token = ae_sign env (service_claims ident g) (token_options env (Lasting expiration)) now" "ident \<notin> ak_id ` set (k_keys db)"
    "k_keys db1 = k_keys db @ [\<lparr>ak_id = ident, ak_name = name, ak_key = token, ak_owner = None, ak_access = None, ak_expires = Some (now + t),
       ak_revoked = False, ak_created = now, ak_updated = now\<rparr>]"
    by (rule create_new_key_success [OF new])
  have claims: "js_get ''api'' (ae_decode env token) = JNum (Whole ident)" "js_get ''grp'' (ae_decode env token) = JNum (Whole g)"
    using sig by (simp_all add: c(1) signs_def) (simp_all add: service_claims_def)
  have ok1: "keys_ok db1" using new_key_step [OF ok c(3)] c(2) by simp
  obtain k where k: "k \<in> set (k_keys db1)" "ak_id k = ident" "ak_access k = None"
    by (rule that [of "\<lparr>ak_id = ident, ak_name = name, ak_key = token, ak_owner = None, ak_access = None, ak_expires = Some (now + t),
       ak_revoked = False, ak_created = now, ak_updated = now\<rparr>"]) (simp_all add: c(3))
  from bspec [OF key_run_keeps(2) [OF ok1, of env ops, unfolded keys_kept_def] k(1)] obtain k' where k': "k' \<in> set (k_keys ?db')" "key_kept k k'"
    by (rule bexE)
  have "ak_id k' = ident" using k'(2) k(2) unfolding key_kept_def by simp
  then have find: "find_key ident ?db' = Some k'" unfolding find_key_iff [OF key_run_keeps(1) [OF ok1]] by (rule conjI [OF k'(1)])
  have access: "ak_access k' = None" using k'(2) k(3) unfolding key_kept_def by simp
  have "load_mcp_principal env ref ident g later ?db' \<noteq> Inr q" for q
  proof
    assume "load_mcp_principal env ref ident g later ?db' = Inr q"
    then show False by (rule load_mcp_success) (use find access in simp)
  qed
  then have "create_api_principal ref (JNum (Whole ident)) (JNum (Whole g)) (JArr (map JStr (option_or (cached g) []))) = Inr p"
    using authenticate_success [OF res claims] by blast
  then show ?thesis by (auto simp: create_api_principal_ok get_permissions_def)
qed

text \<open>C26. No administrator hands out more than they hold. Whenever a key that was created for a service is
  presented, after any further operations, with the permissions that groups have as they were when
  it was created, a permission over the system or scripts means that its creator managed the
  system then, and one over users, groups, navigation, themes or the API that the creator
  managed the system or groups.
\<close>

theorem created_key_grants_no_more:
  assumes "keys_ok db" "unique_key gp_id (k_groups db)" "create_key env requester i ident now db = Inr (token, db1)"
    and "\<forall>g. signs env (service_claims ident g)"
    and "\<forall>g ps. cached g = Some ps \<longrightarrow> (\<exists>row\<in>set (k_groups db). gp_id row = g \<and> group_permissions_of env (gp_permissions row) = Some ps)"
    and "db' = key_run env ops db1" "authenticate_key env valid cached ref tp (ae_decode env token) later db' = Inr (p, b)"
  shows "\<exists>a. require_system_authority requester api_managers now db = Inr a
     \<and> (\<forall>q. JStr q \<in> set (get_permissions p) \<longrightarrow>
          (system_permission q \<longrightarrow> ''manage:system'' \<in> set (actor_permissions a))
          \<and> (administrative q \<longrightarrow> ''manage:system'' \<in> set (actor_permissions a) \<or> ''manage:groups'' \<in> set (actor_permissions a)))"
proof -
  from assms(3) obtain name expiration grp a target where a: "require_system_authority requester api_managers now db = Inr a"
    and input: "read_key_input env i = Inr (name, expiration, grp)"
    and target: "(case grp of None \<Rightarrow> Inr full_access
            | Some g \<Rightarrow> (case stored_group env g (k_groups db) of None \<Rightarrow> Inl (Coded ''INVALID_API_KEY_GROUP'' 400) | Some t \<Rightarrow> Inr t)) = Inr target"
    and auth: "authorize_grant a target = Inr ()" and new: "create_new_key env ident name expiration (option_or grp 1) now db = Inr (token, db1)"
    by (auto simp: create_key_def rbind_Inr_iff split: prod.splits)
  have perms: "get_permissions p = map JStr (option_or (cached (option_or grp 1)) [])"
    using created_key_presented [OF assms(1) new] assms(4,6,7) by blast
  have bound: "(system_permission q \<longrightarrow> ''manage:system'' \<in> set (actor_permissions a))
          \<and> (administrative q \<longrightarrow> ''manage:system'' \<in> set (actor_permissions a) \<or> ''manage:groups'' \<in> set (actor_permissions a))"
    if q: "JStr q \<in> set (get_permissions p)" for q
  proof (cases grp)
    case None
    with target auth have "''manage:system'' \<in> set (actor_permissions a)"
      by (auto simp: authorize_grant_def full_access_def requires_system_def Let_def split: if_splits)
    then show ?thesis by simp
  next
    case (Some g)
    with q perms obtain ps where ps: "cached g = Some ps" "q \<in> set ps" by (cases "cached g") auto
    with assms(5) obtain row where row: "row \<in> set (k_groups db)" "gp_id row = g" "group_permissions_of env (gp_permissions row) = Some ps" by blast
    have "sql_first (\<lambda>r. gp_id r = g) (k_groups db) = Some row"
      by (rule sql_first_unique [where k = gp_id and key = g]) (use assms(2) row in auto)
    with target Some row have "gg_permissions target = ps" by (simp add: stored_group_def) auto
    with authorize_grant_bound [OF auth] ps(2) show ?thesis by simp
  qed
  with a show ?thesis by blast
qed

end
