(* ===== verification/ApiKeyExample.thy ===== *)
theory ApiKeyExample
  imports ApiKeyLaws "HOL-Library.Countable"
begin

text \<open>
  An administrator with one personal key, who revokes it, issues another one and creates a key for
  a service. Tokens are texts that hold their payload.
\<close>

instance js_num :: countable by countable_datatype
instance js_value :: countable by countable_datatype

definition kd_text :: "js_value \<Rightarrow> string" where
  "kd_text payload = replicate (to_nat payload) CHR ''x''"

definition kd_read :: "string \<Rightarrow> js_value" where
  "kd_read token = from_nat (length token)"

definition kd_until :: "sign_options \<Rightarrow> int \<Rightarrow> int" where
  "kd_until options at = at div 1000 + (case so_expires options of Seconds s \<Rightarrow> s | Lasting _ \<Rightarrow> 3600)"

definition kd_verify :: "string \<Rightarrow> string \<Rightarrow> string \<Rightarrow> int \<Rightarrow> js_value option" where
  "kd_verify token audience issuer seen = (let payload = kd_read token in
     case js_integer (js_get ''exp'' payload) of
       None \<Rightarrow> None
     | Some until \<Rightarrow> if js_get ''aud'' payload = JStr audience \<and> js_get ''iss'' payload = JStr issuer \<and> seen div 1000 < until then Some payload else None)"

definition kd_env :: api_env where
  "kd_env = \<lparr>ae_sign = (\<lambda>c options at. kd_text (token_payload c options at (kd_until options at))), ae_verify = kd_verify, ae_decode = kd_read,
     ae_json = (\<lambda>_. None), ae_duration = (\<lambda>_. Some 3600000), ae_endpoint = ''https://wiki/mcp'', ae_agents = True, ae_audience = ''wiki''\<rparr>"

lemma kd_env_fields: "ae_sign kd_env c options at = kd_text (token_payload c options at (kd_until options at))" "ae_verify kd_env = kd_verify"
  "ae_decode kd_env = kd_read" "ae_json kd_env = (\<lambda>_. None)" "ae_duration kd_env = (\<lambda>_. Some 3600000)" "ae_endpoint kd_env = ''https://wiki/mcp''"
  "ae_agents kd_env"
  by (simp_all add: kd_env_def)

lemma kd_read_text: "kd_read (kd_text payload) = payload"
  by (simp add: kd_read_def kd_text_def)

lemma kd_expiry: "token_expiry kd_env options at = Some until \<longleftrightarrow> until = kd_until options at"
  by (auto simp: token_expiry_def kd_until_def kd_env_fields split: lifetime.splits)

lemma kd_genuine: "genuine kd_env (personal_claims env ident owner access)"
  unfolding genuine_def kd_expiry
  by (auto simp: kd_env_fields kd_read_text kd_verify_def personal_claims_def token_payload_def Let_def)

lemma kd_signs: "signs kd_env (service_claims ident g)"
  unfolding signs_def by (auto simp: kd_env_fields kd_read_text service_claims_def token_payload_def)

definition kd_admin :: principal where
  "kd_admin = \<lparr>pr_ref = 1, pr_value = JObj [(''id'', JNum (Whole 6)), (''ownershipUserId'', JNum (Whole 6)), (''authVersion'', JNum (Whole 0))], pr_global = None\<rparr>"

definition kd_account :: account_row where
  "kd_account = \<lparr>us_id = 6, us_active = True, us_version = 0, us_name = ''Ada'', us_email = ''ada@wiki'', us_picture = None, us_timezone = ''UTC'',
     us_locale = ''en''\<rparr>"

definition kd_key :: api_key where
  "kd_key = \<lparr>ak_id = 4, ak_name = ''laptop'', ak_key = ae_sign kd_env (personal_claims kd_env 4 6 ''read-only'') (token_options kd_env (Seconds 86400)) 1, ak_owner = Some 6,
     ak_access = Some ''read-only'', ak_expires = Some 1000, ak_revoked = False, ak_created = 1, ak_updated = 1\<rparr>"

definition kd_db :: api_db where
  "kd_db = \<lparr>k_keys = [kd_key], k_users = [kd_account], k_members = [(6, 3)],
     k_groups = [\<lparr>gp_id = 3, gp_permissions = JArr [JStr ''manage:system''], gp_system = False\<rparr>], k_setting = None,
     k_config = [(''isEnabled'', JBool True)]\<rparr>"

lemma kd_ok: "keys_ok kd_db" "unique_key gp_id (k_groups kd_db)" "\<forall>g\<in>set (k_groups kd_db). safe_int (gp_id g) \<and> 0 < gp_id g"
  by (simp_all add: keys_ok_def unique_key_def kd_db_def safe_int_def max_safe_def)

definition kd_owner :: key_owner where
  "kd_owner = \<lparr>ow_account = kd_account, ow_groups = [3], ow_permissions = [''manage:system'']\<rparr>"

lemma kd_load: "load_owner kd_env 6 kd_db = Inr kd_owner"
proof -
  have "group_permissions_of kd_env (JArr [JStr ''manage:system'']) = Some [''manage:system'']"
    by (simp add: group_permissions_of_def parsed_value_def string_list_def)
  then show ?thesis
    by (simp add: load_owner_def safe_int_def max_safe_def find_account_def groups_of_def kd_db_def table_simps kd_account_def kd_owner_def
      string_array_def dedup_def)
qed

lemma kd_require: "require_owner kd_env (Some kd_admin) (JStr ''6'') kd_db = Inr kd_owner"
proof -
  have "account_number (JStr ''6'') = Some 6" by code_simp
  then show ?thesis
    by (simp add: require_owner_def kd_admin_def js_positive_def safe_int_def max_safe_def is_api_principal_def kd_load)
      (simp add: session_current_def safe_int_def max_safe_def session_version_def kd_owner_def kd_account_def)
qed

lemma kd_eligible: "personal_eligible kd_env kd_db [''manage:system'']"
  by (simp add: personal_eligible_def personal_enabled_def kd_env_fields kd_db_def)

section \<open>The properties at work\<close>

lemma kd_revoked: "\<exists>db'. key_exec kd_env (K_revoke_own (Some kd_admin) (JStr ''6'') (Whole 4) 9) kd_db = Inr ((), db')"
proof -
  have "positive_id (Whole 4) = Some 4" by code_simp
  then show ?thesis
    by (simp add: revoke_personal_key_def kd_require revoke_where_def) (simp add: kd_db_def kd_key_def kd_owner_def kd_account_def table_simps)
qed

theorem revocation_is_final_witness:
  "\<exists>db'. key_exec kd_env (K_revoke_own (Some kd_admin) (JStr ''6'') (Whole 4) 9) kd_db = Inr ((), db')
     \<and> load_mcp_principal kd_env 1 4 1 10 (key_run kd_env [K_others [] [] []] db') = Inl key_denied"
proof -
  obtain db' where r: "key_exec kd_env (K_revoke_own (Some kd_admin) (JStr ''6'') (Whole 4) 9) kd_db = Inr ((), db')" using kd_revoked by blast
  have "revokes (K_revoke_own (Some kd_admin) (JStr ''6'') (Whole 4) 9) 4" "4 \<in> ak_id ` set (k_keys kd_db)"
    by (simp_all add: kd_db_def kd_key_def)
  from revocation_is_final [OF kd_ok(1) this r refl] r show ?thesis by blast
qed

lemma kd_opens: "\<exists>p. load_mcp_principal kd_env 1 4 1 9 kd_db = Inr p"
proof -
  have "load_active_key 4 9 kd_db = Inr kd_key"
    by (simp add: load_active_key_def find_key_def kd_db_def table_simps) (simp add: kd_key_def)
  then show ?thesis
    by (simp add: load_mcp_principal_def kd_key_def kd_env_fields kd_read_text personal_claims_def token_payload_def bound_to_def kd_load kd_owner_def kd_eligible
      create_api_principal_def js_positive_def safe_int_def max_safe_def string_list_def)
qed

theorem personal_key_is_its_owner_witness:
  "\<exists>p. load_mcp_principal kd_env 1 4 1 9 kd_db = Inr p \<and> principal_id (Some p) = Some 6
     \<and> require_system_authority \<lparr>sr_user = Some p, sr_key = None\<rparr> [''manage:system''] 9 kd_db = Inl authority_denied"
proof -
  obtain p where p: "load_mcp_principal kd_env 1 4 1 9 kd_db = Inr p" using kd_opens by blast
  from personal_key_is_its_owner [OF p kd_ok(3)] obtain k owner where "find_key 4 kd_db = Some k" "ak_owner k = Some owner" "principal_id (Some p) = Some owner"
    "require_system_authority \<lparr>sr_user = Some p, sr_key = None\<rparr> [''manage:system''] 9 kd_db = Inl authority_denied" by blast
  with p show ?thesis by (auto simp: find_key_def kd_db_def table_simps kd_key_def)
qed

definition kd_input :: js_value where
  "kd_input = JObj [(''name'', JStr ''phone''), (''expirationDays'', JNum (Whole 30)), (''access'', JStr ''read-write'')]"

lemma kd_issued: "\<exists>token item db'. issue_personal_key kd_env (Some kd_admin) (JStr ''6'') kd_input 5 9 kd_db = Inr ((token, item), db')
    \<and> pk_expires item = Some (9 + 30 * day_ms)"
proof -
  have "personal_input kd_input = Some (''phone'', 30, ''read-write'')" by code_simp
  moreover have "5 \<notin> ak_id ` set (k_keys kd_db)" by (simp add: kd_db_def kd_key_def)
  ultimately show ?thesis
    using kd_eligible by (simp add: issue_personal_key_def kd_require Let_def insert_key_def key_dto_def kd_owner_def)
qed


definition kd_request :: system_requester where
  "kd_request = \<lparr>sr_user = Some kd_admin, sr_key = None\<rparr>"

definition kd_service :: key_input where
  "kd_service = \<lparr>ki_name = JStr ''deploy'', ki_expiration = JStr ''1h'', ki_full = JBool False, ki_group = JNum (Whole 3)\<rparr>"

definition kd_cached :: "int \<Rightarrow> string list option" where
  "kd_cached g = (if g = 3 then Some [''manage:system''] else None)"

definition kd_token :: string where
  "kd_token = ae_sign kd_env (service_claims 5 3) (token_options kd_env (Lasting ''1h'')) 9"

definition kd_service_key :: api_key where
  "kd_service_key = \<lparr>ak_id = 5, ak_name = ''deploy'', ak_key = kd_token, ak_owner = None, ak_access = None,
     ak_expires = Some 3600009, ak_revoked = False, ak_created = 9, ak_updated = 9\<rparr>"

lemma kd_created: "\<exists>db1. create_key kd_env kd_request kd_service 5 9 kd_db = Inr (kd_token, db1)
    \<and> k_keys db1 = [kd_key, kd_service_key] \<and> k_config db1 = [(''isEnabled'', JBool True)]"
proof -
  have input: "read_key_input kd_env kd_service = Inr (''deploy'', ''1h'', Some 3)"
    by (simp add: read_key_input_def kd_service_def key_name_def trim_def is_space_def key_lifetime_def kd_env_fields three_years_def)
  have "current_identity kd_request 9 kd_db = Inr (Some 6, None, [3])"
    by (simp add: current_identity_def kd_request_def kd_admin_def is_api_principal_def principal_id_def js_positive_def safe_int_def max_safe_def
      find_account_def kd_db_def table_simps kd_account_def session_current_def session_version_def member_groups_def)
  then obtain a where a: "require_system_authority kd_request api_managers 9 kd_db = Inr a" "actor_permissions a = [''manage:system'']"
    by (simp add: require_system_authority_def kd_db_def holds_any_def api_managers_def actor_permissions_def map_filter_simps)
  have target: "stored_group kd_env 3 (k_groups kd_db) = Some \<lparr>gg_id = 3, gg_permissions = [''manage:system''], gg_system = False\<rparr>"
    by (simp add: stored_group_def kd_db_def table_simps group_permissions_of_def parsed_value_def string_list_def)
  have grant: "authorize_grant a \<lparr>gg_id = 3, gg_permissions = [''manage:system''], gg_system = False\<rparr> = Inr ()"
    by (simp add: authorize_grant_def a(2) authority_allows_def)
  have "5 \<notin> ak_id ` set (k_keys kd_db)" by (simp add: kd_db_def kd_key_def)
  then obtain db1 where new: "create_new_key kd_env 5 ''deploy'' ''1h'' 3 9 kd_db = Inr (kd_token, db1)"
    by (simp add: create_new_key_def insert_key_def Let_def kd_env_fields kd_token_def)
  have "ae_duration kd_env ''1h'' = Some 3600000" by (simp add: kd_env_fields)
  then have c: "k_keys db1 = k_keys kd_db @ [kd_service_key]" "k_config db1 = k_config kd_db"
    by (rule_tac create_new_key_success [OF new], simp add: kd_service_key_def)+
  have "create_key kd_env kd_request kd_service 5 9 kd_db = Inr (kd_token, db1)"
    by (simp add: create_key_def input a(1) target grant new)
  with c show ?thesis by (auto simp: kd_db_def)
qed

lemma kd_presented:
  assumes "k_keys db1 = [kd_key, kd_service_key]" "k_config db1 = [(''isEnabled'', JBool True)]"
  shows "\<exists>p b. authenticate_key kd_env [5] kd_cached 1 Public_api (ae_decode kd_env (kd_token)) 10 (key_run kd_env [] db1) = Inr (p, b)
    \<and> get_permissions p = [JStr ''manage:system'']"
proof -
  have active: "load_active_key 5 10 db1 = Inr kd_service_key"
    by (simp add: load_active_key_def find_key_def assms(1) table_simps kd_key_def kd_service_key_def)
  have kinds: "ak_access kd_service_key = None" "ak_owner kd_service_key = None" by (simp_all add: kd_service_key_def)
  have claims: "js_get ''api'' (kd_read kd_token) = JNum (Whole 5)" "js_get ''grp'' (kd_read kd_token) = JNum (Whole 3)"
    "js_get ''personalMcp'' (kd_read kd_token) = JUndefined" by (simp_all add: kd_token_def kd_env_fields kd_read_text service_claims_def token_payload_def)
  have "js_get ''isEnabled'' (JObj (k_config db1)) = JBool True" by (simp add: assms(2))
  then have "is_truthy (js_get ''isEnabled'' (JObj (k_config db1)))" by (simp only: is_truthy_def) simp
  then show ?thesis
    by (simp add: key_run_def kd_env_fields authenticate_key_def claims js_positive_def safe_int_def max_safe_def active kinds
      create_api_principal_def kd_cached_def string_list_def get_permissions_def map_filter_simps)
qed

theorem created_key_grants_no_more_witness:
  "\<exists>db1 p b a. create_key kd_env kd_request kd_service 5 9 kd_db = Inr (kd_token, db1)
     \<and> authenticate_key kd_env [5] kd_cached 1 Public_api (ae_decode kd_env (kd_token)) 10 (key_run kd_env [] db1) = Inr (p, b)
     \<and> require_system_authority kd_request api_managers 9 kd_db = Inr a \<and> ''manage:system'' \<in> set (actor_permissions a)"
proof -
  obtain db1 p b where c: "create_key kd_env kd_request kd_service 5 9 kd_db = Inr (kd_token, db1)"
    and p: "authenticate_key kd_env [5] kd_cached 1 Public_api (ae_decode kd_env (kd_token)) 10 (key_run kd_env [] db1) = Inr (p, b)"
      "get_permissions p = [JStr ''manage:system'']"
    using kd_created by (elim exE conjE) (frule (1) kd_presented, blast)
  have "\<forall>g. signs kd_env (service_claims 5 g)" by (simp add: kd_signs)
  moreover have "\<forall>g ps. kd_cached g = Some ps \<longrightarrow> (\<exists>row\<in>set (k_groups kd_db). gp_id row = g \<and> group_permissions_of kd_env (gp_permissions row) = Some ps)"
    by (simp add: kd_cached_def kd_db_def group_permissions_of_def parsed_value_def string_list_def)
  ultimately obtain a where "require_system_authority kd_request api_managers 9 kd_db = Inr a"
    "\<forall>q. JStr q \<in> set (get_permissions p) \<longrightarrow> (system_permission q \<longrightarrow> ''manage:system'' \<in> set (actor_permissions a))"
    using created_key_grants_no_more [OF kd_ok(1,2) c _ _ refl p(1)] by blast
  moreover have "system_permission ''manage:system''" by code_simp
  ultimately show ?thesis using c p by auto
qed

end
