(* ===== verification/Spec2Isabelle.thy ===== *)
theory Spec2Isabelle
  imports TagAliases PageRules DurableJobLaws LinePatchApply RunProperties ApprovalInboxLaws TaxonomyLaws McpLimiter SearchPagination
    AgentTaskLaws GoalExample TaxonomyExample ApiKeyExample
begin

text \<open>
  A verification library for the server core of tsEpistle, a wiki in TypeScript with agents that
  read and edit pages. Paths below are relative to \<^verbatim>\<open>src/server/\<close>.

  \<^bold>\<open>The program.\<close> A request carries a \<^emph>\<open>principal\<close>. The authorization core
  (\<^verbatim>\<open>core/auth.ts\<close>, \<^verbatim>\<open>helpers/group-access.ts\<close>, \<^verbatim>\<open>helpers/page-access.ts\<close>) folds the page rules
  of its groups into a verdict and adds the rules for private pages and locked pages. Operations on
  pages (\<^verbatim>\<open>operations/approvals.ts\<close>, \<^verbatim>\<open>operations/page-protection.ts\<close>, \<^verbatim>\<open>operations/taxonomy.ts\<close>)
  ask that core, change the tables in one transaction, and leave \<^emph>\<open>intents\<close> in the projection
  outbox (\<^verbatim>\<open>core/page-mutation-outbox.ts\<close>), which workers claim under leases to render and index
  the page. Other background work is a job of \<^verbatim>\<open>core/durable-jobs.ts\<close>. An agent \<^emph>\<open>run\<close>
  (\<^verbatim>\<open>agents/coordinator.ts\<close>) is admitted against a daily quota, leased by a worker, journalled
  (\<^verbatim>\<open>agents/repository.ts\<close>, \<^verbatim>\<open>agents/dispatch-accounting.ts\<close>), split into research \<^emph>\<open>tasks\<close>
  (\<^verbatim>\<open>agents/tasks.ts\<close>), and continued towards a durable \<^emph>\<open>goal\<close> (\<^verbatim>\<open>agents/goals.ts\<close>,
  \<^verbatim>\<open>agents/runtime.ts\<close>); its edits of pages are line patches
  (\<^verbatim>\<open>agents/patch/wiki-line-patch.ts\<close>).

  \<^bold>\<open>Theories and the code they model.\<close>
  \<^item> Shared: \<open>Prelude\<close> (JavaScript numbers, values and errors, transactions, the locale
    \<open>tx_component\<close>), \<open>Tables\<close> (the query builder on one table), \<open>JsonText\<close>
    (\<^verbatim>\<open>helpers/canonical-json.ts\<close>, and \<open>run_env\<close>, what the platform provides).
  \<^item> Access: \<open>PageRules\<close> (\<^verbatim>\<open>helpers/group-access.ts\<close>), \<open>PageAccess\<close>
    (\<^verbatim>\<open>helpers/page-access.ts\<close>, \<^verbatim>\<open>helpers/api-principal.ts\<close>, \<^verbatim>\<open>core/auth.ts\<close>), \<open>PageProtection\<close>
    (\<^verbatim>\<open>operations/page-protection.ts\<close>); \<open>ApiKeys\<close> (keys and the principals they become:
    \<^verbatim>\<open>operations/api.ts\<close>, \<^verbatim>\<open>operations/personal-mcp.ts\<close>, \<^verbatim>\<open>helpers/personal-mcp.ts\<close>,
    \<^verbatim>\<open>helpers/system-authority.ts\<close>, \<^verbatim>\<open>helpers/account-session.ts\<close>, \<^verbatim>\<open>models/apiKeys.ts\<close>,
    \<^verbatim>\<open>graph/api-key-mutations.ts\<close>, and in \<^verbatim>\<open>core/auth.ts\<close> the verification of a token and the branch for keys), with the proofs in
    \<open>ApiKeyLaws\<close> and a concrete administrator in \<open>ApiKeyExample\<close>.
  \<^item> Tags: \<open>TagAliases\<close> (\<^verbatim>\<open>helpers/tag-aliases.ts\<close>), \<open>Taxonomy\<close> and \<open>TaxonomyLaws\<close>
    (the plan of a change, \<^verbatim>\<open>helpers/taxonomy-plan.ts\<close>); \<open>TaxonomyService\<close> (the stored
    vocabulary: \<^verbatim>\<open>operations/taxonomy.ts\<close> and \<^verbatim>\<open>associateTags\<close> of \<^verbatim>\<open>models/tags.ts\<close>), with the
    proofs in \<open>TaxonomyServiceLaws\<close>, \<open>TaxonomyCommit\<close> and \<open>TaxonomyReview\<close> and a concrete change in
    \<open>TaxonomyExample\<close>.
  \<^item> Approvals (\<^verbatim>\<open>operations/approvals.ts\<close>): \<open>Approvals\<close> and \<open>ApprovalInbox\<close> hold the
    operations, \<open>ApprovalLaws\<close> and \<open>ApprovalInboxLaws\<close> the proofs, \<open>ApprovalExample\<close> a concrete
    run.
  \<^item> Background work: \<open>DurableJobs\<close> and \<open>DurableJobLaws\<close> (\<^verbatim>\<open>core/durable-jobs.ts\<close>);
    \<open>ProjectionOutbox\<close> (intents and their writers), \<open>ProjectionAdmission\<close> (which page may be
    projected), \<open>ProjectionClaims\<close> (workers) and \<open>ProjectionLaws\<close>
    (\<^verbatim>\<open>core/page-mutation-outbox.ts\<close>).
  \<^item> Line patches (\<^verbatim>\<open>agents/patch/wiki-line-patch.ts\<close>): \<open>LineSource\<close> (text to lines),
    \<open>LinePatch\<close> (ranges, tokens), \<open>LinePatchApply\<close> (anchors and the edit).
  \<^item> Runs (\<^verbatim>\<open>agents/coordinator.ts\<close>): \<open>QuotaLedger\<close>, \<open>RunContinuation\<close>, \<open>AgentRuns\<close> (how a run
    ends), \<open>RunLeases\<close>, \<open>RunAdmission\<close>, with the proofs in \<open>RunLaws\<close> and \<open>RunProperties\<close>;
    \<open>AgentUsage\<close> (\<^verbatim>\<open>agents/providers/usage.ts\<close>, \<^verbatim>\<open>agents/dispatch-accounting.ts\<close>); \<open>RunJournal\<close>
    (\<^verbatim>\<open>agents/repository.ts\<close>); \<open>AgentTasks\<close> and \<open>AgentTaskLaws\<close> (\<^verbatim>\<open>agents/tasks.ts\<close>).
  \<^item> Goals: \<open>AgentGoals\<close> (\<^verbatim>\<open>agents/goals.ts\<close>), \<open>GoalAdvance\<close> (the goal worker of
    \<^verbatim>\<open>agents/runtime.ts\<close>), \<open>GoalLaws\<close>, \<open>GoalProperties\<close>, \<open>GoalExample\<close>.
  \<^item> Limits: \<open>McpLimiter\<close> (\<^verbatim>\<open>agents/mcp-limiter.ts\<close>), \<open>SearchPagination\<close>
    (\<^verbatim>\<open>helpers/search-pagination.ts\<close>).
\<close>

text \<open>
  \<^bold>\<open>How the code is read.\<close>
  \<^item> A row is a \<^verbatim>\<open>record\<close>, a table the list of its rows, a component's state the record of the
    tables it writes; a component that builds on another extends its record, so that operations
    compose without copying. Enumerations are datatypes where the code compares them, and texts
    where it stores and compares texts.
  \<^item> A database transaction is a function to an error or to a result with the new state
    (\<open>tx\<close>); an error leaves the state alone (\<open>commit\<close>), as a rollback does. Each \<^verbatim>\<open>throw\<close> is
    a branch \<open>Inl\<close> with the code and status the source throws. Functions of several
    transactions are \<open>handler\<close>s: what the earlier ones committed stays.
  \<^item> Numbers of the database are integers; where the code checks \<^verbatim>\<open>Number.isSafeInteger\<close> the
    model does (\<open>safe_int\<close>), and numbers that come in from outside are \<open>js_num\<close>, integral or
    not. Monotonic clock readings are rationals.
  \<^item> Texts are sequences of code units below 256, save in the line patch engine, whose 16-bit units
    and UTF-8 octets are words. Instants are milliseconds; a clock reading is an argument.
  \<^item> Identifiers and tokens drawn at random are arguments. So are SHA-256, HMAC, base64url,
    bcrypt, the signing and verifying of tokens, \<^verbatim>\<open>JSON.parse\<close>, the text of a non-integral number, collation, Unicode normalization,
    the regular expression engine, URL parsing, and the lookups of code that is not modelled.
    Theorems that need a law of such a parameter (an injective hash, a fresh identifier) name it
    as a hypothesis, and a witness instantiates it.

  \<^bold>\<open>What is proved.\<close>
  \<^item> Access: the strongest rule decides and denials win ties; a private page opens for its owner
    and system managers only; the SQL scope of a page list agrees with the check of each page; a
    password change locks out every session. Keys: revocation is final over all histories, a personal
    key is its owner and administers nothing, the token of an issued key opens until the second of its
    expiry and no longer, and nobody
    creates a key above their own authority.
  \<^item> Tags: aliases resolve idempotently; a planned change breaks no alias, moves exactly the
    pages it says, and changes access only as its preview says; what is committed is what was
    reviewed, whatever was written in between; the tags that access checks read are active ones after
    any operations; and tagging a page resolves the names of its editor.
  \<^item> Approvals: the life cycle with its audit trail over all reachable stores, the authority
    each move needs, that a publication shows what was submitted, that hidden requests look like
    missing ones, and that the inbox loses and repeats nothing.
  \<^item> Jobs and projections: an invariant of the store over all interleavings of workers, fencing of
    superseded workers, the order of claims, survival of retained jobs, well-formed payloads, and
    which intents a worker may run.
  \<^item> Line patches: the one-pass engine refines the sequential application of the edits,
    undisclosed lines survive, and the anchors of a snapshot resolve to their lines.
  \<^item> Runs: the quota ledger balances under all operations, recorded usage is never lost, the
    journal conserves usage across resumptions and is gapless, statuses move forward only, a run that
    has ended changes no more but for appended events, claims respect the limits, and a run that ends is settled. Tasks: settled ones never change, and an
    attempt that lost its lease has no effect.
  \<^item> Goals: only the worker completes a goal, on an assessed run; no operation changes what a goal was
    created with, its token limit stays once its budget is selected until a confirmed renewal, which
    grants one allowance; every stored goal can be read back; and two
    ways in which a goal without a selected budget is stuck.
  \<^item> Limits: a refused owner is admitted after the wait it was told; pages of a search do not shift
    while results change and other searches come and go, within the lifetime and the number of
    snapshots the code keeps.

  \<^bold>\<open>Interfaces.\<close> \<open>tx_component\<close> (Prelude) says that each operation of a component keeps an
  invariant and gives it for every history, failed operations included; it is interpreted for the
  quota ledger (\<open>quota\<close>), runs (\<open>runs\<close>), the outbox (\<open>outbox\<close>), page locks (\<open>locks\<close>), the
  tag vocabulary (\<open>taxonomy_store\<close>), API keys (\<open>key_store\<close>) and goals (\<open>goal_table\<close>). \<open>page_policy\<close> (PageAccess) is what the read, write and delete gates
  share (\<open>reading\<close>, \<open>writing\<close>, \<open>deleting\<close>). \<open>goal_contract\<close> (GoalLaws) lifts a relation on
  goal rows through the handlers of the worker (\<open>goals\<close>).

  \<^bold>\<open>Loops.\<close> Recursions end by a measure: the redirects not yet seen (\<open>follow_alias\<close>,
  \<open>canonical_from\<close>), the candidates left (\<open>inbox_loop\<close>), the octets left (\<open>utf8_points\<close>).
  \<open>splice\<close>, the loop of a patch over the lines, has one unit of fuel more than it can use, and is
  proved never to run out. \<open>claim_rounds\<close>, the retry loop of a projection worker, is a
  \<^verbatim>\<open>partial_function\<close>, and is proved to return.
\<close>

text \<open>
  \<^bold>\<open>Not modelled.\<close>
  \<^item> The web client (user interface and browser interfaces), HTTP controllers, and
    modules around third-party systems: storage, rendering, search engines, authentication
    strategies, model providers and their streaming engine, Yjs collaboration.
  \<^item> Page creation, editing and moving (\<^verbatim>\<open>models/pages.ts\<close>, \<^verbatim>\<open>operations/pages.ts\<close>) and the
    knowledge lifecycle: their effects run through the ORM, the file system and the renderer.
    Approvals and projections are proved for any edits of the pages between their operations.
  \<^item> Retention and deletion: the maintenance of agent data (\<^verbatim>\<open>agents/maintenance.ts\<close>: deleted
    conversations are purged with their runs, tasks and goals, lost runs are recovered in bulk), the
    purge of old page versions (\<^verbatim>\<open>models/pageHistory.ts\<close>), and the deletion of pages and accounts,
    which cascade to approval requests. Theorems that a row stays are about the modelled operations.
    Of runs also: the routing of a running run to another provider, which rewrites what it was
    admitted with, and the events and marks that the runtime writes in transactions of its own.
  \<^item> Timers and abort signals around the modelled operations (\<^verbatim>\<open>AgentRunCoordinator\<close>,
    \<^verbatim>\<open>PageProjectionLifecycle\<close>), the three sinks of the outbox, and its maintenance scans.
  \<^item> Of the goal worker: the checkpoints of the budget classifier, the receipt of a renewal and the
    checks of provider and skills are arguments (\<open>goal_host\<close>). Of the journal: memory receipts
    and the replay of a repeated event identifier, which no caller passes. Of research tasks: the
    listing for display. Of taxonomy changes: the refresh of caches after the commit; the knowledge
    metadata of a page is an argument. Of API keys: the listing for
    administrators, the certificates that sign tokens, and the branches of \<^verbatim>\<open>authenticate\<close> for users and
    guests. Of page protection: the check of a single asset and the search refresh.
  \<^item> Migrations are modelled as far as their constraints and triggers matter to an operation;
    scripts and build tooling are not.
\<close>

end
